(* ===== verification/Py_Prelude.thy ===== *)
theory Py_Prelude
  imports Complex_Main "HOL-Library.AList"
begin

text \<open>
  Shared vocabulary of the development: the Python values the components use
  (insertion-ordered dictionaries, strings, decimal printing, \<open>int()\<close>
  parsing, splitting and joining), the types that name the model's states, and
  the lemma collections the component proofs draw on.

  Conventions. A Python \<open>float\<close> that holds a time or a percentage is a
  rational number: every finite float is one, comparisons are exact, and the
  rounding of the last bit of an addition or subtraction is not modelled.
  A \<open>str\<close> is a list of characters with code points 0--255. A \<open>dict\<close> is an
  association list in insertion order, read with \<^const>\<open>map_of\<close>, written
  with \<^const>\<open>AList.update\<close> (which keeps the position of an existing key and
  appends a new one) and popped with \<^const>\<open>AList.delete\<close>. A raised
  exception is \<open>Inl\<close>, a returned value \<open>Inr\<close>. \<open>time.time()\<close>,
  \<open>time.monotonic()\<close> and \<open>uuid.uuid4()\<close> are arguments of the operations
  that read them.
\<close>

named_theorems py_dict \<open>reading a dictionary after a write\<close>
named_theorems py_str \<open>printing, splitting and joining strings\<close>
named_theorems py_table \<open>selecting from and updating a table of rows\<close>

type_synonym time = rat
type_synonym ('k, 'v) dict = "('k \<times> 'v) list"

section \<open>Dictionaries\<close>

definition dict_keys :: "('k, 'v) dict \<Rightarrow> 'k list" where
  "dict_keys d = map fst d"

definition dict_get :: "('k, 'v) dict \<Rightarrow> 'k \<Rightarrow> 'v \<Rightarrow> 'v" where
  "dict_get d k v = (case map_of d k of None \<Rightarrow> v | Some w \<Rightarrow> w)"

definition dict_wf :: "('k, 'v) dict \<Rightarrow> bool" where
  "dict_wf d \<longleftrightarrow> distinct (map fst d)"

lemma map_of_update [py_dict]:
  "map_of (AList.update k v d) k' = (if k' = k then Some v else map_of d k')"
  by (simp add: update_conv' fun_upd_apply)

lemma map_of_delete [py_dict]:
  "map_of (AList.delete k d) k' = (if k' = k then None else map_of d k')"
  by (simp add: delete_conv' fun_upd_apply)

lemma dict_get_update [py_dict]:
  "dict_get (AList.update k v d) k' w = (if k' = k then v else dict_get d k' w)"
  by (simp add: dict_get_def py_dict)

lemma dict_get_delete [py_dict]:
  "dict_get (AList.delete k d) k' w = (if k' = k then w else dict_get d k' w)"
  by (simp add: dict_get_def py_dict)

lemma dict_get_Nil [simp]: "dict_get [] k w = w"
  by (simp add: dict_get_def)

lemma dict_get_Cons [simp]:
  "dict_get ((k, v) # d) k' w = (if k' = k then v else dict_get d k' w)"
  by (simp add: dict_get_def)

lemma dict_wf_update [simp, intro]: "dict_wf d \<Longrightarrow> dict_wf (AList.update k v d)"
  by (simp add: dict_wf_def distinct_update)

lemma dict_wf_delete [simp, intro]: "dict_wf d \<Longrightarrow> dict_wf (AList.delete k d)"
  by (simp add: dict_wf_def distinct_delete)

lemma map_of_filter_key:
  "distinct (map fst d) \<Longrightarrow>
   map_of (filter P d) k = (case map_of d k of None \<Rightarrow> None | Some v \<Rightarrow> if P (k, v) then Some v else None)"
  by (induction d) (auto split: option.splits if_splits dest: map_of_SomeD simp: image_iff)

lemma dict_wf_filter [simp, intro]: "dict_wf d \<Longrightarrow> dict_wf (filter P d)"
  by (auto simp: dict_wf_def distinct_map intro: inj_on_subset)

section \<open>Tables of rows\<close>

text \<open>
  A database table is the list of its rows in insertion order. An \<open>UPDATE\<close>
  rewrites the rows its \<open>WHERE\<close> clause selects and reports how many there were
  (\<open>cursor.rowcount\<close>); a query by primary key returns the first match.
\<close>

definition sql_update :: "('r \<Rightarrow> bool) \<Rightarrow> ('r \<Rightarrow> 'r) \<Rightarrow> 'r list \<Rightarrow> 'r list" where
  "sql_update P f rs = map (\<lambda>r. if P r then f r else r) rs"

definition sql_rowcount :: "('r \<Rightarrow> bool) \<Rightarrow> 'r list \<Rightarrow> nat" where
  "sql_rowcount P rs = length (filter P rs)"

definition sql_fetchone :: "('r \<Rightarrow> bool) \<Rightarrow> 'r list \<Rightarrow> 'r option" where
  "sql_fetchone P rs = List.find P rs"

lemma sql_update_Nil [simp]: "sql_update P f [] = []"
  by (simp add: sql_update_def)

lemma sql_update_Cons [simp]:
  "sql_update P f (r # rs) = (if P r then f r else r) # sql_update P f rs"
  by (simp add: sql_update_def)

lemma length_sql_update [simp, py_table]: "length (sql_update P f rs) = length rs"
  by (simp add: sql_update_def)

lemma sql_update_append [py_table]:
  "sql_update P f (xs @ ys) = sql_update P f xs @ sql_update P f ys"
  by (simp add: sql_update_def)

lemma sql_update_none [py_table]: "(\<And>r. r \<in> set rs \<Longrightarrow> \<not> P r) \<Longrightarrow> sql_update P f rs = rs"
  by (induction rs) auto

lemma map_sql_update_key [py_table]:
  "(\<And>r. r \<in> set rs \<Longrightarrow> P r \<Longrightarrow> key (f r) = key r) \<Longrightarrow> map key (sql_update P f rs) = map key rs"
  by (induction rs) auto

lemma set_sql_updateE:
  assumes "r \<in> set (sql_update P f rs)"
  obtains r0 where "r0 \<in> set rs" and "P r0" and "r = f r0" | "r \<in> set rs" and "\<not> P r"
  using assms by (auto simp: sql_update_def split: if_splits)

lemma sql_rowcount_0_iff [simp]: "sql_rowcount P rs = 0 \<longleftrightarrow> (\<forall>r \<in> set rs. \<not> P r)"
  by (auto simp: sql_rowcount_def filter_empty_conv)

lemma sql_fetchone_None_iff [simp]: "sql_fetchone P rs = None \<longleftrightarrow> (\<forall>r \<in> set rs. \<not> P r)"
  by (auto simp: sql_fetchone_def find_None_iff)

lemma sql_fetchone_Nil [simp]: "sql_fetchone P [] = None"
  by (simp add: sql_fetchone_def)

lemma sql_fetchone_Cons [simp]:
  "sql_fetchone P (r # rs) = (if P r then Some r else sql_fetchone P rs)"
  by (simp add: sql_fetchone_def)

lemma sql_fetchone_SomeD:
  "sql_fetchone P rs = Some r \<Longrightarrow> r \<in> set rs \<and> P r"
  by (auto simp: sql_fetchone_def find_Some_iff)

text \<open>With a primary key, a query by key finds exactly the row with that key.\<close>

lemma sql_fetchone_key:
  assumes "distinct (map key rs)" and "r \<in> set rs"
  shows "sql_fetchone (\<lambda>x. key x = key r) rs = Some r"
  using assms by (induction rs) (auto simp: image_iff)

lemma sql_fetchone_update_key:
  assumes "\<And>r. key (f r) = key r"
  shows "sql_fetchone (\<lambda>x. key x = k) (sql_update (\<lambda>x. key x = k \<and> Q x) f rs) =
    map_option (\<lambda>r. if Q r then f r else r) (sql_fetchone (\<lambda>x. key x = k) rs)"
  using assms by (induction rs) auto

lemma sql_fetchone_update_other_key:
  assumes "\<And>r. key (f r) = key r" and "k' \<noteq> k"
  shows "sql_fetchone (\<lambda>x. key x = k') (sql_update (\<lambda>x. key x = k \<and> Q x) f rs) =
    sql_fetchone (\<lambda>x. key x = k') rs"
  using assms by (induction rs) auto

lemmas sql_fetchone_update_key_all = sql_fetchone_update_key [where Q = "\<lambda>_. True", simplified]
lemmas sql_fetchone_update_other_key_all = sql_fetchone_update_other_key [where Q = "\<lambda>_. True", simplified]

lemma sql_fetchone_append:
  "sql_fetchone P (xs @ ys) = (case sql_fetchone P xs of None \<Rightarrow> sql_fetchone P ys | Some r \<Rightarrow> Some r)"
  by (induction xs) auto

section \<open>Transition systems\<close>

text \<open>
  The states a step relation reaches, and the interface of an inductive
  invariant: it holds initially and every step keeps it.
\<close>

inductive reachable :: "('s \<Rightarrow> bool) \<Rightarrow> ('s \<Rightarrow> 's \<Rightarrow> bool) \<Rightarrow> 's \<Rightarrow> bool"
  for init :: "'s \<Rightarrow> bool" and step :: "'s \<Rightarrow> 's \<Rightarrow> bool" where
  start: "init s \<Longrightarrow> reachable init step s"
| next_state: "reachable init step s \<Longrightarrow> step s t \<Longrightarrow> reachable init step t"

locale inductive_invariant =
  fixes init :: "'s \<Rightarrow> bool" and step :: "'s \<Rightarrow> 's \<Rightarrow> bool" and inv :: "'s \<Rightarrow> bool"
  assumes init_inv: "init s \<Longrightarrow> inv s"
    and step_inv: "inv s \<Longrightarrow> step s t \<Longrightarrow> inv t"
begin

lemma reachable_inv: "reachable init step s \<Longrightarrow> inv s"
  by (induction rule: reachable.induct) (auto intro: init_inv step_inv)

end

section \<open>Strings\<close>

definition is_space :: "char \<Rightarrow> bool" where
  "is_space c \<longleftrightarrow> (let n = (of_char c :: nat) in
     n \<in> set [9, 10, 11, 12, 13, 28, 29, 30, 31, 32, 133, 160])"

definition lstrip :: "string \<Rightarrow> string" where
  "lstrip s = dropWhile is_space s"

definition strip :: "string \<Rightarrow> string" where
  "strip s = rev (lstrip (rev (lstrip s)))"

fun split_on :: "char \<Rightarrow> string \<Rightarrow> string list" where
  "split_on c [] = [[]]"
| "split_on c (x # xs) =
     (if x = c then [] # split_on c xs
      else (case split_on c xs of [] \<Rightarrow> [[x]] | y # ys \<Rightarrow> (x # y) # ys))"

fun join_with :: "string \<Rightarrow> string list \<Rightarrow> string" where
  "join_with sep [] = []"
| "join_with sep [x] = x"
| "join_with sep (x # y # zs) = x @ sep @ join_with sep (y # zs)"

definition split_ws_step :: "char \<Rightarrow> string list \<times> string \<Rightarrow> string list \<times> string" where
  "split_ws_step x acc =
     (if is_space x then (if snd acc = [] then acc else (snd acc # fst acc, []))
      else (fst acc, x # snd acc))"

definition split_ws :: "string \<Rightarrow> string list" where
  \<comment> \<open>\<open>s.split()\<close>: maximal runs of non-blank characters, left to right\<close>
  "split_ws s =
     (let (ws, w) = foldr split_ws_step s ([], []) in if w = [] then ws else w # ws)"

fun is_prefix_of :: "string \<Rightarrow> string \<Rightarrow> bool" where
  "is_prefix_of [] s = True"
| "is_prefix_of (x # xs) [] = False"
| "is_prefix_of (x # xs) (y # ys) = (x = y \<and> is_prefix_of xs ys)"

fun is_infix_of :: "string \<Rightarrow> string \<Rightarrow> bool" where
  \<comment> \<open>\<open>needle in haystack\<close> on strings\<close>
  "is_infix_of n [] = (n = [])"
| "is_infix_of n (x # xs) = (is_prefix_of n (x # xs) \<or> is_infix_of n xs)"

definition ends_with :: "string \<Rightarrow> string \<Rightarrow> bool" where
  "ends_with s suf \<longleftrightarrow> is_prefix_of (rev suf) (rev s)"

lemma split_on_ne [simp]: "split_on c s \<noteq> []"
  by (induction s) (auto split: list.splits)

lemma split_on_no_sep [py_str]: "c \<notin> set s \<Longrightarrow> split_on c s = [s]"
  by (induction s) auto

lemma split_on_append_sep [py_str]:
  "c \<notin> set x \<Longrightarrow> split_on c (x @ c # y) = x # split_on c y"
  by (induction x) auto

text \<open>Splitting undoes joining when no piece but the last holds the separator.\<close>

lemma join_split: "join_with [c] (split_on c s) = s"
proof (induction s)
  case (Cons x xs)
  show ?case
  proof (cases "split_on c xs")
    case Nil
    then show ?thesis by simp
  next
    case (Cons y ys)
    then show ?thesis using Cons.IH by (cases ys) auto
  qed
qed simp

lemma is_prefix_of_iff: "is_prefix_of xs ys \<longleftrightarrow> (\<exists>zs. ys = xs @ zs)"
  by (induction xs ys rule: is_prefix_of.induct) auto

lemma ends_with_iff: "ends_with s suf \<longleftrightarrow> (\<exists>p. s = p @ suf)"
  unfolding ends_with_def is_prefix_of_iff by (metis rev_append rev_rev_ident)

lemma is_infix_of_iff: "is_infix_of n s \<longleftrightarrow> (\<exists>a b. s = a @ n @ b)"
proof (induction s)
  case (Cons x xs)
  show ?case
  proof
    assume "is_infix_of n (x # xs)"
    then consider "is_prefix_of n (x # xs)" | "is_infix_of n xs" by auto
    then show "\<exists>a b. x # xs = a @ n @ b"
    proof cases
      case 1
      then show ?thesis by (metis append_Nil is_prefix_of_iff)
    next
      case 2
      with Cons.IH obtain a b where "xs = a @ n @ b" by blast
      then have "x # xs = (x # a) @ n @ b" by simp
      then show ?thesis by blast
    qed
  next
    assume "\<exists>a b. x # xs = a @ n @ b"
    then obtain a b where ab: "x # xs = a @ n @ b" by blast
    show "is_infix_of n (x # xs)"
    proof (cases a)
      case Nil
      with ab have "is_prefix_of n (x # xs)" by (auto simp: is_prefix_of_iff)
      then show ?thesis by simp
    next
      case (Cons z zs)
      with ab have "xs = zs @ n @ b" by simp
      with Cons.IH show ?thesis by auto
    qed
  qed
qed auto

section \<open>Decimal numbers\<close>

definition digit_char :: "nat \<Rightarrow> char" where
  "digit_char d = char_of (48 + d)"

fun nat_str :: "nat \<Rightarrow> string" where
  "nat_str n = (if n < 10 then [digit_char n] else nat_str (n div 10) @ [digit_char (n mod 10)])"

declare nat_str.simps [simp del]

definition int_str :: "int \<Rightarrow> string" where
  "int_str i = (if i < 0 then CHR ''-'' # nat_str (nat (- i)) else nat_str (nat i))"

definition is_digit :: "char \<Rightarrow> bool" where
  "is_digit c \<longleftrightarrow> (let n = (of_char c :: nat) in 48 \<le> n \<and> n \<le> 57)"

definition digit_val :: "char \<Rightarrow> nat" where
  "digit_val c = (of_char c :: nat) - 48"

fun digits_val :: "nat \<Rightarrow> string \<Rightarrow> nat" where
  "digits_val acc [] = acc"
| "digits_val acc (c # cs) = digits_val (10 * acc + digit_val c) cs"

fun digits_ok :: "string \<Rightarrow> bool" where
  \<comment> \<open>the digit groups \<open>int()\<close> takes: digits with single underscores between them\<close>
  "digits_ok [] = False"
| "digits_ok [c] = is_digit c"
| "digits_ok (c # d # cs) =
     (is_digit c \<and> (if d = CHR ''_'' then digits_ok cs else digits_ok (d # cs)))"

definition py_int :: "string \<Rightarrow> int option" where
  "py_int s =
     (let t = strip s;
          neg = (case t of [] \<Rightarrow> False | c # _ \<Rightarrow> c = CHR ''-'');
          body = (case t of [] \<Rightarrow> [] | c # cs \<Rightarrow> if c \<in> set ''+-'' then cs else t)
      in if digits_ok body
         then Some (let v = int (digits_val 0 (filter is_digit body)) in if neg then - v else v)
         else None)"

lemma is_digit_digit_char [simp]: "d < 10 \<Longrightarrow> is_digit (digit_char d)"
  by (simp add: is_digit_def digit_char_def)

lemma digit_val_digit_char [simp]: "d < 10 \<Longrightarrow> digit_val (digit_char d) = d"
  by (simp add: digit_val_def digit_char_def)

lemma nat_str_digits: "c \<in> set (nat_str n) \<Longrightarrow> is_digit c"
proof (induction n rule: nat_str.induct)
  case (1 n)
  then show ?case by (subst (asm) nat_str.simps) (auto split: if_splits)
qed

lemma nat_str_ne [simp]: "nat_str n \<noteq> []"
  by (subst nat_str.simps) simp

lemma digits_val_append: "digits_val acc (xs @ ys) = digits_val (digits_val acc xs) ys"
  by (induction xs arbitrary: acc) auto

lemma digits_val_nat_str [py_str]: "digits_val 0 (nat_str n) = n"
proof (induction n rule: nat_str.induct)
  case (1 n)
  show ?case
  proof (cases "n < 10")
    case True
    then show ?thesis by (subst nat_str.simps) simp
  next
    case False
    with 1 show ?thesis by (subst nat_str.simps) (simp add: digits_val_append)
  qed
qed

lemma nat_str_inj: "nat_str m = nat_str n \<Longrightarrow> m = n"
  by (metis digits_val_nat_str)

lemma not_digit_in_nat_str: "\<not> is_digit c \<Longrightarrow> c \<notin> set (nat_str n)"
  using nat_str_digits by blast

lemma is_digit_minus [simp]: "\<not> is_digit (CHR ''-'')"
  by (simp add: is_digit_def)

lemma int_str_inj: "int_str i = int_str j \<Longrightarrow> i = j"
proof -
  have ne: "CHR ''-'' # xs \<noteq> nat_str n" for xs n
    using not_digit_in_nat_str [of "CHR ''-''" n] by (metis is_digit_minus list.set_intros(1))
  assume "int_str i = int_str j"
  then show ?thesis
    by (auto simp: int_str_def ne ne [symmetric] split: if_splits dest: nat_str_inj)
qed

lemma int_str_chars: "c \<in> set (int_str i) \<Longrightarrow> is_digit c \<or> c = CHR ''-''"
  by (auto simp: int_str_def split: if_splits dest: nat_str_digits)

lemma split_join [py_str]:
  assumes "xs \<noteq> []" and "\<forall>x \<in> set xs. c \<notin> set x"
  shows "split_on c (join_with [c] xs) = xs"
  using assms by (induction "[c]" xs rule: join_with.induct) (auto simp: split_on_no_sep split_on_append_sep)

lemma in_set_join: "c \<in> set (join_with sep xs) \<Longrightarrow> c \<in> set sep \<or> (\<exists>x \<in> set xs. c \<in> set x)"
  by (induction sep xs rule: join_with.induct) auto

lemma strip_no_space: "(\<forall>c \<in> set s. \<not> is_space c) \<Longrightarrow> strip s = s"
proof -
  assume ns: "\<forall>c \<in> set s. \<not> is_space c"
  then have "dropWhile is_space s = s" by (cases s) auto
  moreover have "dropWhile is_space (rev s) = rev s" using ns by (cases "rev s") (auto dest: arg_cong [of _ _ set])
  ultimately show ?thesis by (simp add: strip_def lstrip_def)
qed

lemma digit_not_space: "is_digit c \<Longrightarrow> \<not> is_space c"
  by (auto simp: is_digit_def is_space_def Let_def)

lemma digits_ok_digits: "s \<noteq> [] \<Longrightarrow> \<forall>c \<in> set s. is_digit c \<Longrightarrow> digits_ok s"
proof (induction s rule: digits_ok.induct)
  case (3 c d cs)
  then have "d \<noteq> CHR ''_''" by (auto simp: is_digit_def)
  with 3 show ?case by simp
qed auto

lemma py_int_nat_str [py_str]: "py_int (nat_str n) = Some (int n)"
proof -
  have d: "\<forall>c \<in> set (nat_str n). is_digit c" using nat_str_digits by blast
  then have "strip (nat_str n) = nat_str n" using digit_not_space by (intro strip_no_space) blast
  moreover have "hd (nat_str n) \<notin> set ''+-''" using d by (cases "nat_str n") (auto simp: is_digit_def)
  moreover have "filter is_digit (nat_str n) = nat_str n" using d by (simp add: filter_id_conv)
  moreover have "(case nat_str n of [] \<Rightarrow> False | c # _ \<Rightarrow> c = CHR ''-'') = False"
    "(case nat_str n of [] \<Rightarrow> [] | c # cs \<Rightarrow> if c \<in> set ''+-'' then cs else nat_str n) = nat_str n"
    using calculation(2) by (cases "nat_str n"; simp)+
  ultimately show ?thesis
    using digits_ok_digits [OF nat_str_ne d] by (simp add: py_int_def Let_def digits_val_nat_str)
qed

text \<open>
  \<open>f"{x:.kf}"\<close>: the exact value rounded half to even at \<open>k\<close> decimals, which is
  what Python prints for the exact binary value of a float.
\<close>

definition round_half_even :: "rat \<Rightarrow> int" where
  "round_half_even x =
     (let n = \<lfloor>x\<rfloor>; r = x - of_int n in
      if r < 1 / 2 then n else if 1 / 2 < r then n + 1
      else if even n then n else n + 1)"

definition pad_left :: "nat \<Rightarrow> string \<Rightarrow> string" where
  "pad_left k s = replicate (k - length s) (CHR ''0'') @ s"

definition fixed_str :: "nat \<Rightarrow> rat \<Rightarrow> string" where
  "fixed_str k x =
     (let n = round_half_even (x * 10 ^ k); m = nat \<bar>n\<bar>
      in (if x < 0 then ''-'' else []) @ nat_str (m div 10 ^ k) @ ''.'' @
         pad_left k (nat_str (m mod 10 ^ k)))"

lemma fixed_str_chars:
  "c \<in> set (fixed_str k x) \<Longrightarrow> is_digit c \<or> c = CHR ''-'' \<or> c = CHR ''.''"
  by (auto simp: fixed_str_def pad_left_def Let_def is_digit_def split: if_splits
      dest!: nat_str_digits)

end
