(* ===== verification/Circuit_Breaker.thy ===== *)
theory Circuit_Breaker
  imports Py_Prelude
begin

text \<open>
  The circuit breaker that guards plugin hooks
  (\<open>src/master/core/circuit_breaker.py\<close>): its state, the operations that run
  under its lock, the guarded call, and the interleavings of calls that overlap
  in time. The lock makes \<open>_check\<close>, \<open>record_success\<close>, \<open>record_failure\<close> and
  \<open>reset\<close> atomic; the body of \<open>call\<close> awaits the plugin outside the lock, so
  other calls may run between the check and the record.
\<close>

section \<open>State and operations\<close>

datatype circuit_state = CLOSED | OPEN | HALF_OPEN

record circuit_breaker =
  cb_name :: string
  failure_threshold :: int
  timeout :: time
  cb_state :: circuit_state
  failure_count :: int
  last_failure_time :: time

datatype cb_error = CircuitBreakerOpenError string int time

definition new_circuit_breaker :: "string \<Rightarrow> int \<Rightarrow> time \<Rightarrow> circuit_breaker" where
  "new_circuit_breaker name thr tmo =
     \<lparr>cb_name = name, failure_threshold = thr, timeout = tmo,
      cb_state = CLOSED, failure_count = 0, last_failure_time = 0\<rparr>"

definition default_circuit_breaker :: "string \<Rightarrow> circuit_breaker" where
  "default_circuit_breaker name = new_circuit_breaker name 5 60"

definition record_success :: "circuit_breaker \<Rightarrow> circuit_breaker" where
  "record_success cb =
     (let cb' = (if cb_state cb = HALF_OPEN then cb\<lparr>cb_state := CLOSED\<rparr> else cb)
      in cb'\<lparr>failure_count := 0\<rparr>)"

definition record_failure :: "time \<Rightarrow> circuit_breaker \<Rightarrow> circuit_breaker" where
  "record_failure now cb =
     (let cb' = cb\<lparr>failure_count := failure_count cb + 1, last_failure_time := now\<rparr>
      in if failure_count cb' \<ge> failure_threshold cb' then cb'\<lparr>cb_state := OPEN\<rparr> else cb')"

definition reset :: "circuit_breaker \<Rightarrow> circuit_breaker" where
  "reset cb = cb\<lparr>cb_state := CLOSED, failure_count := 0, last_failure_time := 0\<rparr>"

definition check :: "time \<Rightarrow> circuit_breaker \<Rightarrow> (cb_error + unit) \<times> circuit_breaker" where
  "check now cb =
     (if cb_state cb = OPEN then
        let elapsed = now - last_failure_time cb in
        if elapsed \<ge> timeout cb then (Inr (), cb\<lparr>cb_state := HALF_OPEN\<rparr>)
        else (Inl (CircuitBreakerOpenError (cb_name cb) (failure_count cb) (timeout cb - elapsed)), cb)
      else (Inr (), cb))"

text \<open>
  A whole call with nothing else running: \<open>t0\<close> is the clock at the check,
  \<open>fn\<close> what the plugin does (an exception or a value) and \<open>t1\<close> the clock when it
  is done. The third component says whether \<open>fn\<close> was invoked.
\<close>

datatype 'x call_error = CBOpen cb_error | Raised 'x

definition call ::
  "time \<Rightarrow> (unit \<Rightarrow> 'x + 'a) \<Rightarrow> time \<Rightarrow> circuit_breaker \<Rightarrow>
     ('x call_error + 'a) \<times> circuit_breaker \<times> bool" where
  "call t0 fn t1 cb =
     (case check t0 cb of
        (Inl e, cb') \<Rightarrow> (Inl (CBOpen e), cb', False)
      | (Inr _, cb') \<Rightarrow>
          (case fn () of
             Inl x \<Rightarrow> (Inl (Raised x), record_failure t1 cb', True)
           | Inr v \<Rightarrow> (Inr v, record_success cb', True)))"

lemmas cb_defs = record_success_def record_failure_def reset_def check_def Let_def

section \<open>One call at a time\<close>

text \<open>
  What holds between calls when they do not overlap: a breaker that is not
  closed has reached its threshold.
\<close>

definition tripped_inv :: "circuit_breaker \<Rightarrow> bool" where
  "tripped_inv cb \<longleftrightarrow>
     0 \<le> failure_count cb \<and>
     (if cb_state cb = CLOSED then 0 < failure_threshold cb \<longrightarrow> failure_count cb < failure_threshold cb
      else failure_threshold cb \<le> failure_count cb)"

lemma check_keeps [simp]:
  "failure_count (snd (check now cb)) = failure_count cb"
  "failure_threshold (snd (check now cb)) = failure_threshold cb"
  "timeout (snd (check now cb)) = timeout cb"
  "cb_name (snd (check now cb)) = cb_name cb"
  by (auto simp: check_def Let_def)

lemma check_state:
  "cb_state (snd (check now cb)) =
     (if cb_state cb = OPEN \<and> timeout cb \<le> now - last_failure_time cb then HALF_OPEN else cb_state cb)"
  by (auto simp: check_def Let_def)

lemma check_passes_iff:
  "fst (check now cb) = Inr () \<longleftrightarrow> cb_state cb = OPEN \<longrightarrow> timeout cb \<le> now - last_failure_time cb"
  by (auto simp: check_def Let_def)

lemma check_passes_not_open: "fst (check now cb) = Inr () \<Longrightarrow> cb_state (snd (check now cb)) \<noteq> OPEN"
  by (auto simp: check_def Let_def split: if_splits)

lemma record_failure_threshold [simp]:
  "failure_threshold (record_failure now cb) = failure_threshold cb"
  "failure_count (record_failure now cb) = failure_count cb + 1"
  "last_failure_time (record_failure now cb) = now"
  "timeout (record_failure now cb) = timeout cb"
  by (auto simp: record_failure_def Let_def)

lemma record_success_fields [simp]:
  "failure_threshold (record_success cb) = failure_threshold cb"
  "failure_count (record_success cb) = 0"
  "last_failure_time (record_success cb) = last_failure_time cb"
  "timeout (record_success cb) = timeout cb"
  by (auto simp: record_success_def Let_def)

lemma tripped_inv_check: "tripped_inv cb \<Longrightarrow> tripped_inv (snd (check now cb))"
  by (auto simp: tripped_inv_def check_def Let_def split: if_splits)

lemma tripped_inv_failure: "tripped_inv cb \<Longrightarrow> tripped_inv (record_failure now cb)"
  by (auto simp: tripped_inv_def record_failure_def Let_def split: if_splits)

lemma tripped_inv_success:
  "tripped_inv cb \<Longrightarrow> cb_state cb \<noteq> OPEN \<Longrightarrow> tripped_inv (record_success cb)"
  by (auto simp: tripped_inv_def record_success_def Let_def split: if_splits)
    (metis circuit_state.exhaust)

lemma call_cases:
  obtains (rejected) e where "fst (check t0 cb) = Inl e" "call t0 fn t1 cb = (Inl (CBOpen e), snd (check t0 cb), False)"
  | (failed) x where "fst (check t0 cb) = Inr ()" "fn () = Inl x"
      "call t0 fn t1 cb = (Inl (Raised x), record_failure t1 (snd (check t0 cb)), True)"
  | (succeeded) v where "fst (check t0 cb) = Inr ()" "fn () = Inr v"
      "call t0 fn t1 cb = (Inr v, record_success (snd (check t0 cb)), True)"
  by (cases "check t0 cb"; cases "fst (check t0 cb)"; cases "fn ()") (auto simp: call_def)

lemma tripped_inv_call: "tripped_inv cb \<Longrightarrow> tripped_inv (fst (snd (call t0 fn t1 cb)))"
  by (cases rule: call_cases [of t0 cb fn t1])
    (auto intro: tripped_inv_check tripped_inv_failure tripped_inv_success dest: check_passes_not_open)

text \<open>A history of calls, one after the other, with the outcomes of the plugin.\<close>

fun run_calls :: "(time \<times> ('x + 'a) \<times> time) list \<Rightarrow> circuit_breaker \<Rightarrow> circuit_breaker" where
  "run_calls [] cb = cb"
| "run_calls ((t0, out, t1) # hs) cb = run_calls hs (fst (snd (call t0 (\<lambda>_. out) t1 cb)))"

lemma tripped_inv_run: "tripped_inv cb \<Longrightarrow> tripped_inv (run_calls hs cb)"
  by (induction hs cb rule: run_calls.induct) (auto intro: tripped_inv_call)

lemma tripped_inv_new: "tripped_inv (new_circuit_breaker name thr tmo)"
  by (simp add: tripped_inv_def new_circuit_breaker_def)

section \<open>Overlapping calls\<close>

text \<open>
  Calls that overlap: \<open>inflight\<close> counts the calls that passed the check and have
  not recorded an outcome yet. Each rule is one atomic section of the code; the
  clock only moves forward.
\<close>

record cb_sys =
  breaker :: circuit_breaker
  inflight :: nat
  clock :: time

inductive cb_step :: "cb_sys \<Rightarrow> cb_sys \<Rightarrow> bool" where
  tick: "clock s \<le> t \<Longrightarrow> cb_step s (s\<lparr>clock := t\<rparr>)"
| enter: "check (clock s) (breaker s) = (Inr (), cb') \<Longrightarrow>
     cb_step s (s\<lparr>breaker := cb', inflight := Suc (inflight s)\<rparr>)"
| reject: "check (clock s) (breaker s) = (Inl e, cb') \<Longrightarrow> cb_step s (s\<lparr>breaker := cb'\<rparr>)"
| finish_ok: "inflight s = Suc n \<Longrightarrow>
     cb_step s (s\<lparr>breaker := record_success (breaker s), inflight := n\<rparr>)"
| finish_fail: "inflight s = Suc n \<Longrightarrow>
     cb_step s (s\<lparr>breaker := record_failure (clock s) (breaker s), inflight := n\<rparr>)"

inductive_cases cb_stepE: "cb_step s s'"

definition cb_start :: "string \<Rightarrow> int \<Rightarrow> time \<Rightarrow> time \<Rightarrow> cb_sys" where
  "cb_start name thr tmo t = \<lparr>breaker = new_circuit_breaker name thr tmo, inflight = 0, clock = t\<rparr>"

inductive cb_reachable :: "cb_sys \<Rightarrow> cb_sys \<Rightarrow> bool" for s0 where
  cb_init: "cb_reachable s0 s0"
| cb_next: "cb_reachable s0 s \<Longrightarrow> cb_step s s' \<Longrightarrow> cb_reachable s0 s'"

text \<open>
  Under every interleaving: the counter is never negative, and a closed breaker
  has fewer failures in a row than its threshold. The converse half of
  \<^const>\<open>tripped_inv\<close> is what overlapping calls break.
\<close>

definition overlap_inv :: "cb_sys \<Rightarrow> bool" where
  "overlap_inv s \<longleftrightarrow>
     0 \<le> failure_count (breaker s) \<and>
     (cb_state (breaker s) = CLOSED \<longrightarrow> 0 < failure_threshold (breaker s) \<longrightarrow>
        failure_count (breaker s) < failure_threshold (breaker s))"

lemma overlap_inv_step: "cb_step s s' \<Longrightarrow> overlap_inv s \<Longrightarrow> overlap_inv s'"
  by (erule cb_stepE)
    (auto simp: overlap_inv_def check_def record_success_def record_failure_def Let_def
      split: if_splits)

lemma overlap_inv_reachable:
  "cb_reachable (cb_start name thr tmo t) s \<Longrightarrow> overlap_inv s"
proof (induction rule: cb_reachable.induct)
  case cb_init
  show ?case by (simp add: cb_start_def overlap_inv_def new_circuit_breaker_def)
next
  case (cb_next s s')
  then show ?case by (blast intro: overlap_inv_step)
qed

section \<open>Properties\<close>

text \<open>
  Fail-fast. While the breaker is open, a call raises without invoking the
  plugin and leaves the breaker as it is exactly as long as the timeout has not
  elapsed; from then on the plugin is invoked.
\<close>

theorem open_breaker_fails_fast:
  assumes "cb_state cb = OPEN"
  shows "((\<exists>e. call t0 fn t1 cb = (Inl (CBOpen e), cb, False)) \<longleftrightarrow>
            t0 - last_failure_time cb < timeout cb) \<and>
         (snd (snd (call t0 fn t1 cb)) \<longleftrightarrow> timeout cb \<le> t0 - last_failure_time cb)"
  using assms by (auto simp: call_def check_def Let_def split: sum.splits)

theorem open_breaker_fails_fast_witness:
  "\<exists>e. call 30 (\<lambda>_. Inr 7 :: unit + nat) 31 ((default_circuit_breaker ''p'')\<lparr>cb_state := OPEN\<rparr>) =
       (Inl (CBOpen e), (default_circuit_breaker ''p'')\<lparr>cb_state := OPEN\<rparr>, False)"
  using open_breaker_fails_fast [of "(default_circuit_breaker ''p'')\<lparr>cb_state := OPEN\<rparr>" 30
      "\<lambda>_. Inr 7 :: unit + nat" 31]
  by (simp add: default_circuit_breaker_def new_circuit_breaker_def)

text \<open>A failing call made at time \<open>t\<close>, and a list of them.\<close>

definition failing :: "'x \<Rightarrow> time list \<Rightarrow> (time \<times> ('x + unit) \<times> time) list" where
  "failing x ts = map (\<lambda>t. (t, Inl x, t)) ts"

lemma failing_append: "failing x (ts @ us) = failing x ts @ failing x us"
  by (simp add: failing_def)

lemma call_closed_fail:
  "cb_state cb = CLOSED \<Longrightarrow> fst (snd (call t (\<lambda>_. Inl x) t cb)) = record_failure t cb"
  by (simp add: call_def check_def)

lemma run_failing_Cons:
  "cb_state cb = CLOSED \<Longrightarrow> run_calls (failing x (t # ts)) cb = run_calls (failing x ts) (record_failure t cb)"
  by (simp add: failing_def call_closed_fail)

lemma failing_calls_count:
  assumes "cb_state cb = CLOSED" and "failure_count cb + int (length ts) < failure_threshold cb"
  shows "cb_state (run_calls (failing x ts) cb) = CLOSED"
    and "failure_count (run_calls (failing x ts) cb) = failure_count cb + int (length ts)"
    and "failure_threshold (run_calls (failing x ts) cb) = failure_threshold cb"
proof (atomize (full), use assms in \<open>induction ts arbitrary: cb\<close>)
  case Nil
  then show ?case by (simp add: failing_def)
next
  case (Cons t ts)
  have "cb_state (record_failure t cb) = CLOSED"
    using Cons.prems by (auto simp: record_failure_def Let_def)
  with Cons.IH [of "record_failure t cb"] Cons.prems show ?case
    by (simp add: run_failing_Cons)
qed

lemma run_calls_append: "run_calls (xs @ ys) cb = run_calls ys (run_calls xs cb)"
  by (induction xs cb rule: run_calls.induct) auto

text \<open>
  Tripping. On a fresh breaker with a positive threshold, failing calls
  leave it closed as long as there were fewer than the threshold, and the call
  that reaches the threshold opens it.
\<close>

theorem breaker_trips_at_threshold:
  assumes "0 < thr" and "int (length ts) + 1 = thr"
  shows "cb_state (run_calls (failing x ts) (new_circuit_breaker name thr tmo)) = CLOSED \<and>
    cb_state (run_calls (failing x (ts @ [t'])) (new_circuit_breaker name thr tmo)) = OPEN"
proof -
  let ?cb = "run_calls (failing x ts) (new_circuit_breaker name thr tmo)"
  have a: "cb_state ?cb = CLOSED" "failure_count ?cb = int (length ts)" "failure_threshold ?cb = thr"
    using failing_calls_count [of "new_circuit_breaker name thr tmo" ts x] assms
    by (simp_all add: new_circuit_breaker_def)
  then have "cb_state (run_calls (failing x [t']) ?cb) = OPEN"
    using assms by (simp add: run_failing_Cons, simp add: failing_def record_failure_def)
  with a show ?thesis by (simp add: run_calls_append failing_append)
qed

theorem breaker_trips_at_threshold_witness:
  "cb_state (run_calls (failing () [1, 2, 3, 4]) (default_circuit_breaker ''p'')) = CLOSED \<and>
   cb_state (run_calls (failing () ([1, 2, 3, 4] @ [5])) (default_circuit_breaker ''p'')) = OPEN"
  unfolding default_circuit_breaker_def
  by (rule breaker_trips_at_threshold) simp_all

text \<open>
  Recovery, one call at a time. After any history of calls that do not
  overlap, a probe made once the timeout has elapsed decides the circuit:
  success closes it with the failure streak cleared, failure opens it again
  with the clock restarted.
\<close>

theorem probe_decides_circuit:
  assumes "cb = run_calls hs (new_circuit_breaker name thr tmo)"
    and "cb_state cb = OPEN" and "timeout cb \<le> t0 - last_failure_time cb"
  shows "cb_state (fst (snd (call t0 (\<lambda>_. Inr v) t1 cb))) = CLOSED \<and>
    failure_count (fst (snd (call t0 (\<lambda>_. Inr v) t1 cb))) = 0 \<and>
    cb_state (fst (snd (call t0 (\<lambda>_. Inl x) t1 cb))) = OPEN \<and>
    last_failure_time (fst (snd (call t0 (\<lambda>_. Inl x) t1 cb))) = t1"
proof -
  have "tripped_inv cb" unfolding assms(1) by (intro tripped_inv_run tripped_inv_new)
  with assms(2,3) show ?thesis
    by (auto simp: tripped_inv_def call_def check_def record_success_def record_failure_def Let_def)
qed

theorem probe_decides_circuit_witness:
  "let cb = run_calls [(1, Inl (), 1), (2, Inl (), 2)] (new_circuit_breaker ''p'' 2 60) in
   cb_state (fst (snd (call 100 (\<lambda>_. Inr (5::nat) :: unit + nat) 101 cb))) = CLOSED \<and>
   cb_state (fst (snd (call 100 (\<lambda>_. Inl () :: unit + nat) 101 cb))) = OPEN"
  unfolding Let_def
  using probe_decides_circuit [of "run_calls [(1, Inl (), 1), (2, Inl (), 2)] (new_circuit_breaker ''p'' 2 60)"
      "[(1, Inl () :: unit + nat, 1), (2, Inl (), 2)]" "''p''" 2 60 100 "5::nat" 101 "()"]
  by (simp add: call_def check_def record_failure_def new_circuit_breaker_def)

text \<open>
  The run behind the next property, with threshold 2 and timeout 60: three calls
  enter, two fail and open the breaker, the third succeeds late, then after the
  timeout a probe enters and fails.
\<close>

definition late_success_breaker :: circuit_breaker where
  "late_success_breaker =
     \<lparr>cb_name = ''p'', failure_threshold = 2, timeout = 60, cb_state = HALF_OPEN,
      failure_count = 0, last_failure_time = 0\<rparr>"

lemma late_success_reachable:
  "cb_reachable (cb_start ''p'' 2 60 0) \<lparr>breaker = late_success_breaker, inflight = 1, clock = 60\<rparr>"
proof -
  let ?b = "new_circuit_breaker ''p'' 2 60"
  let ?s = "\<lambda>b n t. \<lparr>breaker = b, inflight = n, clock = t\<rparr>"
  have 0: "cb_reachable (cb_start ''p'' 2 60 0) (?s ?b 0 0)"
    using cb_init by (simp add: cb_start_def)
  have ent: "cb_step (?s ?b n 0) (?s ?b (Suc n) 0)" for n
    using enter [of "?s ?b n 0" ?b] by (simp add: check_def new_circuit_breaker_def)
  have 3: "cb_reachable (cb_start ''p'' 2 60 0) (?s ?b 3 0)"
    using cb_next [OF cb_next [OF cb_next [OF 0 ent] ent] ent] by (simp add: numeral_3_eq_3)
  let ?b1 = "record_failure 0 ?b"
  let ?b2 = "record_failure 0 ?b1"
  have f1: "cb_step (?s ?b 3 0) (?s ?b1 2 0)" and f2: "cb_step (?s ?b1 2 0) (?s ?b2 1 0)"
    using finish_fail [of "?s ?b 3 0" 2] finish_fail [of "?s ?b1 2 0" 1] by simp_all
  let ?b3 = "record_success ?b2"
  have f3: "cb_step (?s ?b2 1 0) (?s ?b3 0 0)"
    using finish_ok [of "?s ?b2 1 0" 0] by simp
  have t: "cb_step (?s ?b3 0 0) (?s ?b3 0 60)"
    using tick [of "?s ?b3 0 0" 60] by simp
  have e: "cb_step (?s ?b3 0 60) (?s late_success_breaker 1 60)"
    using enter [of "?s ?b3 0 60" late_success_breaker]
    by (simp add: check_def record_success_def record_failure_def new_circuit_breaker_def
        late_success_breaker_def)
  show ?thesis
    using cb_next [OF cb_next [OF cb_next [OF cb_next [OF cb_next [OF 3 f1] f2] f3] t] e] .
qed

text \<open>
  Overlapping calls break the documented transition "HALF_OPEN (failure)
  OPEN": a call that was admitted before the breaker opened and succeeds
  afterwards clears the streak while the state stays open, so a later failing
  probe leaves the breaker half-open, where every call is admitted.
\<close>

theorem half_open_failure_may_not_reopen:
  "\<exists>s s'. cb_reachable (cb_start ''p'' 2 60 0) s \<and> cb_step s s' \<and>
     cb_state (breaker s) = HALF_OPEN \<and>
     breaker s' = record_failure (clock s) (breaker s) \<and> inflight s = Suc (inflight s') \<and>
     cb_state (breaker s') = HALF_OPEN"
proof -
  let ?s = "\<lparr>breaker = late_success_breaker, inflight = 1, clock = 60\<rparr>"
  let ?s' = "\<lparr>breaker = record_failure 60 late_success_breaker, inflight = 0, clock = 60\<rparr>"
  have step: "cb_step ?s ?s'" using finish_fail [of ?s 0] by simp
  have "cb_state late_success_breaker = HALF_OPEN" and
    "cb_state (record_failure 60 late_success_breaker) = HALF_OPEN"
    by (simp_all add: late_success_breaker_def record_failure_def)
  then show ?thesis
    by (intro exI [of _ ?s] exI [of _ ?s'] conjI late_success_reachable step) simp_all
qed

text \<open>
  Under every interleaving of overlapping calls the failure counter is never
  negative and a closed breaker has fewer consecutive failures than its
  (positive) threshold.
\<close>

theorem closed_breaker_below_threshold:
  assumes "cb_reachable (cb_start name thr tmo t) s"
  shows "0 \<le> failure_count (breaker s) \<and>
    (cb_state (breaker s) = CLOSED \<longrightarrow> 0 < failure_threshold (breaker s) \<longrightarrow>
       failure_count (breaker s) < failure_threshold (breaker s))"
  using overlap_inv_reachable [OF assms] by (simp add: overlap_inv_def)

theorem closed_breaker_below_threshold_witness:
  "0 \<le> failure_count late_success_breaker"
  using closed_breaker_below_threshold [OF late_success_reachable] by simp

end
