(* ===== verification/Json.thy ===== *)
theory Json
  imports Py_Prelude
begin

text \<open>
  JSON values and the two functions of Python's \<open>json\<close> module the master uses:
  \<open>json.dumps(obj, separators=(",", ":"))\<close>, with and without
  \<open>ensure_ascii\<close>, and \<open>json.loads\<close>. A number with a fraction or an exponent is
  kept as its literal text. The main fact is that loading what was dumped gives
  the value back.
\<close>

datatype json =
    JNull
  | JBool bool
  | JInt int
  | JFloat string
  | JStr string
  | JArr "json list"
  | JObj "(string \<times> json) list"

section \<open>Printing\<close>

definition hex_digit :: "nat \<Rightarrow> char" where
  "hex_digit d = (if d < 10 then digit_char d else char_of (87 + d))"

definition unicode_escape :: "char \<Rightarrow> string" where
  "unicode_escape c = (let n = (of_char c :: nat) in CHR 0x5C # ''u00'' @ [hex_digit (n div 16), hex_digit (n mod 16)])"

definition escape_char :: "bool \<Rightarrow> char \<Rightarrow> string" where
  "escape_char ascii c =
     (let n = (of_char c :: nat) in
      if n = 34 then [CHR 0x5C, c]
      else if n = 92 then [c, c]
      else if n = 10 then [CHR 0x5C, CHR ''n'']
      else if n = 13 then [CHR 0x5C, CHR ''r'']
      else if n = 9 then [CHR 0x5C, CHR ''t'']
      else if n = 12 then [CHR 0x5C, CHR ''f'']
      else if n = 8 then [CHR 0x5C, CHR ''b'']
      else if n < 32 \<or> (ascii \<and> 126 < n) then unicode_escape c
      else [c])"

definition json_str :: "bool \<Rightarrow> string \<Rightarrow> string" where
  "json_str ascii s = CHR 0x22 # concat (map (escape_char ascii) s) @ [CHR 0x22]"

fun json_dumps :: "bool \<Rightarrow> json \<Rightarrow> string" where
  "json_dumps a JNull = ''null''"
| "json_dumps a (JBool b) = (if b then ''true'' else ''false'')"
| "json_dumps a (JInt i) = int_str i"
| "json_dumps a (JFloat t) = t"
| "json_dumps a (JStr s) = json_str a s"
| "json_dumps a (JArr vs) = ''['' @ join_with '','' (map (json_dumps a) vs) @ '']''"
| "json_dumps a (JObj kvs) =
     ''{'' @ join_with '','' (map (\<lambda>(k, v). json_str a k @ '':'' @ json_dumps a v) kvs) @ ''}''"

fun json_dumps_spaced :: "json \<Rightarrow> string" where
  \<comment> \<open>\<open>json.dumps\<close> with its default separators\<close>
  "json_dumps_spaced (JArr vs) = ''['' @ join_with '', '' (map json_dumps_spaced vs) @ '']''"
| "json_dumps_spaced (JObj kvs) = ''{'' @ join_with '', '' (map (\<lambda>(k, v). json_str True k @ '': '' @ json_dumps_spaced v) kvs) @ ''}''"
| "json_dumps_spaced v = json_dumps True v"

section \<open>Parsing\<close>

definition is_json_ws :: "char \<Rightarrow> bool" where
  "is_json_ws c \<longleftrightarrow> (of_char c :: nat) \<in> set [32, 9, 10, 13]"

definition skip_ws :: "string \<Rightarrow> string" where
  "skip_ws s = dropWhile is_json_ws s"

definition hex_val :: "char \<Rightarrow> nat option" where
  "hex_val c =
     (let n = (of_char c :: nat) in
      if 48 \<le> n \<and> n \<le> 57 then Some (n - 48)
      else if 97 \<le> n \<and> n \<le> 102 then Some (n - 87)
      else if 65 \<le> n \<and> n \<le> 70 then Some (n - 55)
      else None)"

definition simple_escape :: "char \<Rightarrow> char option" where
  "simple_escape c =
     (if c = CHR 0x22 \<or> c = CHR 0x5C \<or> c = CHR ''/'' then Some c
      else if c = CHR ''n'' then Some (char_of (10::nat))
      else if c = CHR ''r'' then Some (char_of (13::nat))
      else if c = CHR ''t'' then Some (char_of (9::nat))
      else if c = CHR ''f'' then Some (char_of (12::nat))
      else if c = CHR ''b'' then Some (char_of (8::nat))
      else None)"

text \<open>A Unicode escape beyond code point 255 is outside the character model.\<close>

fun parse_unicode :: "string \<Rightarrow> (char \<times> string) option" where
  "parse_unicode (a # b # c # d # r) =
     (case (hex_val a, hex_val b, hex_val c, hex_val d) of
        (Some x, Some y, Some z, Some w) \<Rightarrow>
          (let n = ((x * 16 + y) * 16 + z) * 16 + w in if n < 256 then Some (char_of n, r) else None)
      | _ \<Rightarrow> None)"
| "parse_unicode _ = None"

lemma parse_unicode_shorter: "parse_unicode s = Some (c, r) \<Longrightarrow> length r < length s"
  by (induction s rule: parse_unicode.induct) (auto split: option.splits if_splits simp: Let_def)

function parse_string_body :: "string \<Rightarrow> (string \<times> string) option" where
  "parse_string_body [] = None"
| "parse_string_body (c # cs) =
     (if c = CHR 0x22 then Some ([], cs)
      else if c = CHR 0x5C then
        (case cs of
           [] \<Rightarrow> None
         | e # r \<Rightarrow>
             if e = CHR ''u'' then
               (case parse_unicode r of
                  None \<Rightarrow> None
                | Some (x, r') \<Rightarrow> map_option (\<lambda>(t, q). (x # t, q)) (parse_string_body r'))
             else
               (case simple_escape e of
                  None \<Rightarrow> None
                | Some x \<Rightarrow> map_option (\<lambda>(t, q). (x # t, q)) (parse_string_body r)))
      else if (of_char c :: nat) < 32 then None
      else map_option (\<lambda>(t, q). (c # t, q)) (parse_string_body cs))"
  by pat_completeness auto
termination
  by (relation "measure length") (auto dest: parse_unicode_shorter)

definition span_digits :: "string \<Rightarrow> string \<times> string" where
  "span_digits s = (takeWhile is_digit s, dropWhile is_digit s)"

definition parse_frac :: "string \<Rightarrow> string \<times> string" where
  "parse_frac s =
     (case s of
        [] \<Rightarrow> ([], s)
      | c # cs \<Rightarrow>
          if c = CHR ''.'' \<and> fst (span_digits cs) \<noteq> []
          then (c # fst (span_digits cs), snd (span_digits cs)) else ([], s))"

definition parse_exp :: "string \<Rightarrow> string \<times> string" where
  "parse_exp s =
     (case s of
        [] \<Rightarrow> ([], s)
      | c # cs \<Rightarrow>
          if c \<in> set ''eE'' then
            (let (sgn, r) = (case cs of [] \<Rightarrow> ([], cs) | d # ds \<Rightarrow> if d \<in> set ''+-'' then ([d], ds) else ([], cs))
             in if fst (span_digits r) \<noteq> [] then (c # sgn @ fst (span_digits r), snd (span_digits r))
                else ([], s))
          else ([], s))"

definition parse_number :: "string \<Rightarrow> (json \<times> string) option" where
  "parse_number s =
     (let (sgn, r) = (case s of [] \<Rightarrow> ([], s) | c # cs \<Rightarrow> if c = CHR ''-'' then ([c], cs) else ([], s));
          (ds, r1) = (case r of
             [] \<Rightarrow> ([], r)
           | c # cs \<Rightarrow> if c = CHR ''0'' then ([c], cs) else span_digits r)
      in if ds = [] then None
         else
           (let (fr, r2) = parse_frac r1; (ex, r3) = parse_exp r2
            in if fr = [] \<and> ex = []
               then Some (JInt (let v = int (digits_val 0 ds) in if sgn = [] then v else - v), r3)
               else Some (JFloat (sgn @ ds @ fr @ ex), r3)))"

definition dict_of_pairs :: "(string \<times> 'v) list \<Rightarrow> (string \<times> 'v) list" where
  "dict_of_pairs ps = foldl (\<lambda>d (k, v). AList.update k v d) [] ps"

definition strip_prefix :: "string \<Rightarrow> string \<Rightarrow> string option" where
  "strip_prefix p s = (if is_prefix_of p s then Some (drop (length p) s) else None)"

definition parse_literal :: "string \<Rightarrow> (json \<times> string) option" where
  "parse_literal s =
     (case strip_prefix ''null'' s of
        Some r \<Rightarrow> Some (JNull, r)
      | None \<Rightarrow>
        (case strip_prefix ''true'' s of
           Some r \<Rightarrow> Some (JBool True, r)
         | None \<Rightarrow>
           (case strip_prefix ''false'' s of
              Some r \<Rightarrow> Some (JBool False, r)
            | None \<Rightarrow> parse_number s)))"

text \<open>
  The recursive-descent parser, with fuel for the nesting and the number of
  elements; \<open>json_loads\<close> gives it more than the length of the text, and every
  call consumes a character before it recurses.
\<close>

fun parse_value :: "nat \<Rightarrow> string \<Rightarrow> (json \<times> string) option"
  and parse_elems :: "nat \<Rightarrow> string \<Rightarrow> (json list \<times> string) option"
  and parse_members :: "nat \<Rightarrow> string \<Rightarrow> ((string \<times> json) list \<times> string) option" where
  "parse_value 0 s = None"
| "parse_value (Suc n) s =
     (case s of
        [] \<Rightarrow> None
      | c # cs \<Rightarrow>
          if c = CHR 0x22 then map_option (\<lambda>(t, r). (JStr t, r)) (parse_string_body cs)
          else if c = CHR ''['' then
            (if is_prefix_of '']'' (skip_ws cs) then Some (JArr [], tl (skip_ws cs))
             else map_option (\<lambda>(vs, r). (JArr vs, r)) (parse_elems n (skip_ws cs)))
          else if c = CHR ''{'' then
            (if is_prefix_of ''}'' (skip_ws cs) then Some (JObj [], tl (skip_ws cs))
             else map_option (\<lambda>(ps, r). (JObj (dict_of_pairs ps), r)) (parse_members n (skip_ws cs)))
          else parse_literal s)"
| "parse_elems 0 s = None"
| "parse_elems (Suc n) s =
     (case parse_value n s of
        None \<Rightarrow> None
      | Some (v, r) \<Rightarrow>
          (case skip_ws r of
             [] \<Rightarrow> None
           | c # cs \<Rightarrow>
               if c = CHR '']'' then Some ([v], cs)
               else if c = CHR '','' then map_option (\<lambda>(vs, q). (v # vs, q)) (parse_elems n (skip_ws cs))
               else None))"
| "parse_members 0 s = None"
| "parse_members (Suc n) s =
     (case s of
        [] \<Rightarrow> None
      | c # cs \<Rightarrow>
          if c \<noteq> CHR 0x22 then None
          else
            (case parse_string_body cs of
               None \<Rightarrow> None
             | Some (k, r) \<Rightarrow>
                 (case skip_ws r of
                    [] \<Rightarrow> None
                  | d # ds \<Rightarrow>
                      if d \<noteq> CHR '':'' then None
                      else
                        (case parse_value n (skip_ws ds) of
                           None \<Rightarrow> None
                         | Some (v, r') \<Rightarrow>
                             (case skip_ws r' of
                                [] \<Rightarrow> None
                              | e # es \<Rightarrow>
                                  if e = CHR ''}'' then Some ([(k, v)], es)
                                  else if e = CHR '','' then
                                    map_option (\<lambda>(ps, q). ((k, v) # ps, q)) (parse_members n (skip_ws es))
                                  else None)))))"

definition json_loads :: "string \<Rightarrow> json option" where
  "json_loads s =
     (case parse_value (Suc (length s)) (skip_ws s) of
        None \<Rightarrow> None
      | Some (v, r) \<Rightarrow> if skip_ws r = [] then Some v else None)"

section \<open>Reading an object\<close>

definition json_get :: "json \<Rightarrow> string \<Rightarrow> json option" where
  "json_get j k = (case j of JObj kvs \<Rightarrow> map_of kvs k | _ \<Rightarrow> None)"

fun json_truthy :: "json \<Rightarrow> bool" where
  \<comment> \<open>Python truth value\<close>
  "json_truthy JNull = False"
| "json_truthy (JBool b) = b"
| "json_truthy (JInt i) = (i \<noteq> 0)"
| "json_truthy (JFloat t) = list_ex (\<lambda>c. is_digit c \<and> c \<noteq> CHR ''0'') (takeWhile (\<lambda>c. c \<notin> set ''eE'') t)"
| "json_truthy (JStr s) = (s \<noteq> [])"
| "json_truthy (JArr vs) = (vs \<noteq> [])"
| "json_truthy (JObj kvs) = (kvs \<noteq> [])"

section \<open>Loading what was dumped\<close>

lemma char_eq_code: "(c :: char) = d \<longleftrightarrow> (of_char c :: nat) = of_char d"
  by (simp add: of_char_eq_iff)

lemma char_of_code: "(of_char c :: nat) = n \<Longrightarrow> char_of n = c"
  by (metis char_of_char)

lemma hex_val_hex_digit [simp]: "d < 16 \<Longrightarrow> hex_val (hex_digit d) = Some d"
  by (auto simp: hex_val_def hex_digit_def digit_char_def Let_def)

lemma parse_unicode_escape:
  "parse_unicode (''00'' @ [hex_digit ((of_char c :: nat) div 16), hex_digit ((of_char c :: nat) mod 16)] @ r) =
     Some (c, r)"
proof -
  have "(of_char c :: nat) div 16 < 16" using nat_of_char_less_256 [of c] by linarith
  moreover have "hex_val (CHR ''0'') = Some 0" by (simp add: hex_val_def)
  ultimately show ?thesis
    by (simp add: Let_def)
qed

lemma parse_escaped_char:
  "parse_string_body (escape_char a c @ r) = map_option (\<lambda>(t, q). (c # t, q)) (parse_string_body r)"
proof -
  let ?n = "of_char c :: nat"
  have c: "c = char_of ?n" by simp
  consider "?n \<in> {34, 92, 10, 13, 9, 12, 8}"
    | "?n \<notin> {34, 92, 10, 13, 9, 12, 8}" "?n < 32 \<or> (a \<and> 126 < ?n)"
    | "?n \<notin> {34, 92, 10, 13, 9, 12, 8}" "\<not> (?n < 32 \<or> (a \<and> 126 < ?n))" by blast
  then show ?thesis
  proof cases
    case 1
    then show ?thesis
      by (auto simp: escape_char_def simple_escape_def char_eq_code char_of_code)
  next
    case 2
    then have "escape_char a c = CHR 0x5C # CHR ''u'' # ''00'' @
        [hex_digit (?n div 16), hex_digit (?n mod 16)]"
      by (auto simp: escape_char_def unicode_escape_def Let_def)
    then show ?thesis
      using parse_unicode_escape [of c r] by (simp del: parse_unicode.simps)
  next
    case 3
    then have "escape_char a c = [c]" by (auto simp: escape_char_def Let_def)
    with 3 show ?thesis by (simp add: char_eq_code)
  qed
qed

lemma parse_json_str:
  "parse_string_body (concat (map (escape_char a) s) @ CHR 0x22 # r) = Some (s, r)"
  by (induction s) (simp_all add: parse_escaped_char)

text \<open>What may follow a value inside a dumped text, and the values without float literals.\<close>

definition value_end :: "string \<Rightarrow> bool" where
  "value_end r \<longleftrightarrow> r = [] \<or> hd r \<in> set '',]}''"

fun json_plain :: "json \<Rightarrow> bool" where
  "json_plain (JFloat t) = False"
| "json_plain (JArr vs) = list_all json_plain vs"
| "json_plain (JObj kvs) = (distinct (map fst kvs) \<and> list_all (\<lambda>(k, v). json_plain v) kvs)"
| "json_plain _ = True"

fun json_fuel :: "json \<Rightarrow> nat" where
  "json_fuel (JArr vs) = Suc (foldr (\<lambda>v n. Suc (max (json_fuel v) n)) vs 0)"
| "json_fuel (JObj kvs) = Suc (foldr (\<lambda>(k, v) n. Suc (max (json_fuel v) n)) kvs 0)"
| "json_fuel _ = 1"

lemma takeWhile_dropWhile_digits:
  assumes "\<forall>c \<in> set ds. is_digit c" and "r = [] \<or> \<not> is_digit (hd r)"
  shows "takeWhile is_digit (ds @ r) = ds" and "dropWhile is_digit (ds @ r) = r"
  using assms by (induction ds) (cases r; auto)+

lemma value_end_head:
  "value_end r \<Longrightarrow> r = [] \<or> \<not> is_digit (hd r) \<and> hd r \<noteq> CHR ''.'' \<and> hd r \<notin> set ''eE''"
  by (auto simp: value_end_def is_digit_def)

lemma nat_str_0: "nat_str 0 = ''0''"
  by (subst nat_str.simps) (simp add: digit_char_def char_eq_code)

lemma nat_str_hd_nonzero: "n \<noteq> 0 \<Longrightarrow> hd (nat_str n) \<noteq> CHR ''0''"
proof (induction n rule: nat_str.induct)
  case (1 n)
  show ?case
  proof (cases "n < 10")
    case True
    with 1 show ?thesis
      by (subst nat_str.simps) (auto simp: digit_char_def char_eq_code)
  next
    case False
    with 1 have "hd (nat_str (n div 10)) \<noteq> CHR ''0''" by auto
    with False show ?thesis by (subst nat_str.simps) simp
  qed
qed

lemma parse_frac_end: "value_end r \<Longrightarrow> parse_frac r = ([], r)"
  using value_end_head [of r] by (cases r) (auto simp: parse_frac_def)

lemma parse_exp_end: "value_end r \<Longrightarrow> parse_exp r = ([], r)"
  using value_end_head [of r] by (cases r) (auto simp: parse_exp_def)

lemma nat_str_lex:
  assumes "value_end r"
  shows "(case nat_str n @ r of [] \<Rightarrow> ([], nat_str n @ r)
      | c # cs \<Rightarrow> if c = CHR ''0'' then ([c], cs) else span_digits (nat_str n @ r)) = (nat_str n, r)"
proof (cases "n = 0")
  case True
  then show ?thesis by (simp add: nat_str_0)
next
  case False
  obtain c cs where c: "nat_str n = c # cs" by (cases "nat_str n") auto
  with nat_str_hd_nonzero [OF False] have "c \<noteq> CHR ''0''" by simp
  moreover have "span_digits (nat_str n @ r) = (nat_str n, r)"
    unfolding span_digits_def
    using takeWhile_dropWhile_digits [of "nat_str n" r] value_end_head [OF assms] nat_str_digits
    by blast
  ultimately show ?thesis using c by simp
qed

lemma parse_number_nat:
  assumes "value_end r"
  shows "parse_number (nat_str n @ r) = Some (JInt (int n), r)"
proof -
  obtain c cs where c: "nat_str n = c # cs" by (cases "nat_str n") auto
  then have "c \<noteq> CHR ''-''" using nat_str_digits [of c n] by (auto simp: is_digit_def)
  with c have "(case nat_str n @ r of [] \<Rightarrow> ([], nat_str n @ r)
      | c # cs \<Rightarrow> if c = CHR ''-'' then ([c], cs) else ([], nat_str n @ r)) = ([], nat_str n @ r)"
    by simp
  then show ?thesis
    unfolding parse_number_def Let_def
    by (simp only: prod.case nat_str_lex [OF assms])
      (simp add: parse_frac_end [OF assms] parse_exp_end [OF assms] digits_val_nat_str)
qed

lemma parse_number_int:
  assumes "value_end r"
  shows "parse_number (int_str i @ r) = Some (JInt i, r)"
proof (cases "i < 0")
  case True
  let ?n = "nat (- i)"
  have "(case int_str i @ r of [] \<Rightarrow> ([], int_str i @ r)
      | c # cs \<Rightarrow> if c = CHR ''-'' then ([c], cs) else ([], int_str i @ r)) = (''-'', nat_str ?n @ r)"
    using True by (simp add: int_str_def)
  then show ?thesis
    unfolding parse_number_def Let_def
    by (simp only: prod.case nat_str_lex [OF assms])
      (use True in \<open>simp add: parse_frac_end [OF assms] parse_exp_end [OF assms] digits_val_nat_str\<close>)
next
  case False
  then show ?thesis using parse_number_nat [OF assms, of "nat i"] by (simp add: int_str_def)
qed

lemma is_prefix_of_Cons2 [simp]: "is_prefix_of [x] s \<longleftrightarrow> s \<noteq> [] \<and> hd s = x"
  by (cases s) auto

lemma int_str_Cons:
  obtains c cs where "int_str i = c # cs" and "is_digit c \<or> c = CHR ''-''"
proof -
  have "int_str i \<noteq> []" by (simp add: int_str_def)
  then obtain c cs where "int_str i = c # cs" by (cases "int_str i") auto
  with int_str_chars [of c i] show thesis using that by auto
qed

lemma parse_literal_int:
  assumes "value_end r"
  shows "parse_literal (int_str i @ r) = Some (JInt i, r)"
proof -
  obtain c cs where c: "int_str i = c # cs" "is_digit c \<or> c = CHR ''-''" by (rule int_str_Cons)
  then have "c \<noteq> CHR ''n'' \<and> c \<noteq> CHR ''t'' \<and> c \<noteq> CHR ''f''"
    by (auto simp: is_digit_def)
  with c(1) have "parse_literal (int_str i @ r) = parse_number (int_str i @ r)"
    by (auto simp: parse_literal_def strip_prefix_def)
  with parse_number_int [OF assms] show ?thesis by simp
qed

lemma skip_ws_no [simp]: "s \<noteq> [] \<Longrightarrow> \<not> is_json_ws (hd s) \<Longrightarrow> skip_ws s = s"
  by (cases s) (auto simp: skip_ws_def)

text \<open>A dumped value starts with a character that is neither blank nor a closing bracket.\<close>

lemma dumps_start:
  assumes "json_plain v"
  shows "json_dumps a v \<noteq> []" and "\<not> is_json_ws (hd (json_dumps a v))"
    and "hd (json_dumps a v) \<notin> set '']},''"
proof -
  have d: "\<not> is_json_ws c \<and> c \<notin> set '']},''" if "is_digit c \<or> c = CHR ''-''" for c
    using that by (auto simp: is_digit_def is_json_ws_def)
  have "json_dumps a v \<noteq> [] \<and> \<not> is_json_ws (hd (json_dumps a v)) \<and> hd (json_dumps a v) \<notin> set '']},''"
  proof (cases v)
    case (JInt i)
    obtain c cs where c: "int_str i = c # cs" "is_digit c \<or> c = CHR ''-''" by (rule int_str_Cons)
    with d [OF c(2)] JInt show ?thesis by simp
  qed (use assms in \<open>auto simp: is_json_ws_def json_str_def\<close>)
  then show "json_dumps a v \<noteq> []" and "\<not> is_json_ws (hd (json_dumps a v))"
    and "hd (json_dumps a v) \<notin> set '']},''"
    by auto
qed

lemma skip_ws_dumps [simp]:
  "json_plain v \<Longrightarrow> skip_ws (json_dumps a v @ r) = json_dumps a v @ r"
  using dumps_start [of v a] by simp

lemma join_Cons:
  "join_with sep (x # xs) = x @ (if xs = [] then [] else sep @ join_with sep xs)"
  by (cases xs) auto

lemma skip_ws_Cons [simp]: "skip_ws (c # cs) = (if is_json_ws c then skip_ws cs else c # cs)"
  by (simp add: skip_ws_def)

lemma not_ws_punct [simp]:
  "\<not> is_json_ws (CHR '','')" "\<not> is_json_ws (CHR '']'')" "\<not> is_json_ws (CHR ''}'')"
  "\<not> is_json_ws (CHR '':'')" "\<not> is_json_ws (CHR 0x22)"
  by (simp_all add: is_json_ws_def)

lemma value_end_punct [simp]:
  "value_end (CHR '','' # r)" "value_end (CHR '']'' # r)" "value_end (CHR ''}'' # r)" "value_end []"
  by (simp_all add: value_end_def)

definition reads_back :: "bool \<Rightarrow> json \<Rightarrow> bool" where
  "reads_back a v \<longleftrightarrow>
     (\<forall>n r. value_end r \<longrightarrow> json_fuel v \<le> n \<longrightarrow> parse_value n (json_dumps a v @ r) = Some (v, r))"

lemma reads_backD:
  "reads_back a v \<Longrightarrow> value_end r \<Longrightarrow> json_fuel v \<le> n \<Longrightarrow> parse_value n (json_dumps a v @ r) = Some (v, r)"
  by (simp add: reads_back_def)

lemma join_dumps_start:
  assumes "json_plain v"
  shows "skip_ws (join_with '','' (map (json_dumps a) (v # vs)) @ r) =
    join_with '','' (map (json_dumps a) (v # vs)) @ r"
  using skip_ws_dumps [OF assms, of a] by (simp add: join_Cons)

lemma parse_elems_dumps:
  assumes "vs \<noteq> []" and "\<forall>v \<in> set vs. json_plain v \<and> reads_back a v"
    and "foldr (\<lambda>v n. Suc (max (json_fuel v) n)) vs 0 \<le> n"
  shows "parse_elems n (join_with '','' (map (json_dumps a) vs) @ CHR '']'' # r) = Some (vs, r)"
  using assms
proof (induction vs arbitrary: n)
  case (Cons v vs)
  then obtain m where n: "n = Suc m" and fv: "json_fuel v \<le> m"
    and fs: "foldr (\<lambda>v n. Suc (max (json_fuel v) n)) vs 0 \<le> m"
    by (cases n) auto
  have rb: "reads_back a v" using Cons.prems by simp
  show ?case
  proof (cases vs)
    case Nil
    then show ?thesis using reads_backD [OF rb _ fv] n by simp
  next
    case (Cons w ws)
    have "parse_elems m (join_with '','' (map (json_dumps a) vs) @ CHR '']'' # r) = Some (vs, r)"
      using Cons.IH [of m] Cons Cons.prems fs by simp
    moreover have "skip_ws (join_with '','' (map (json_dumps a) vs) @ CHR '']'' # r) =
        join_with '','' (map (json_dumps a) vs) @ CHR '']'' # r"
      using join_dumps_start [of w a ws] Cons Cons.prems by simp
    ultimately show ?thesis using reads_backD [OF rb _ fv] n Cons by (simp add: join_Cons)
  qed
qed simp

definition dump_member :: "bool \<Rightarrow> string \<times> json \<Rightarrow> string" where
  "dump_member a = (\<lambda>(k, v). json_str a k @ '':'' @ json_dumps a v)"

lemma parse_member_head:
  assumes "reads_back a v" and "json_plain v" and "json_fuel v \<le> m" and "value_end r"
  shows "parse_members (Suc m) (dump_member a (k, v) @ r) =
    (case skip_ws r of
       [] \<Rightarrow> None
     | e # es \<Rightarrow>
         if e = CHR ''}'' then Some ([(k, v)], es)
         else if e = CHR '','' then map_option (\<lambda>(ps, q). ((k, v) # ps, q)) (parse_members m (skip_ws es))
         else None)"
  using assms reads_backD [OF assms(1,4,3)] skip_ws_dumps [OF assms(2), of a r]
  by (simp add: dump_member_def json_str_def parse_json_str)

lemma dump_member_start [simp]:
  "skip_ws (join_with '','' (map (dump_member a) (p # ps)) @ r) =
     join_with '','' (map (dump_member a) (p # ps)) @ r"
  by (cases p) (simp add: join_Cons dump_member_def json_str_def)

lemma parse_members_dumps:
  assumes "kvs \<noteq> []" and "\<forall>(k, v) \<in> set kvs. json_plain v \<and> reads_back a v"
    and "foldr (\<lambda>(k, v) n. Suc (max (json_fuel v) n)) kvs 0 \<le> n"
  shows "parse_members n (join_with '','' (map (dump_member a) kvs) @ CHR ''}'' # r) = Some (kvs, r)"
  using assms
proof (induction kvs arbitrary: n)
  case (Cons p ps)
  obtain k v where p: "p = (k, v)" by (cases p)
  from Cons.prems p obtain m where n: "n = Suc m" and fv: "json_fuel v \<le> m"
    and fs: "foldr (\<lambda>(k, v) n. Suc (max (json_fuel v) n)) ps 0 \<le> m"
    by (cases n) auto
  have v: "reads_back a v" "json_plain v" using Cons.prems p by auto
  show ?case
  proof (cases ps)
    case Nil
    then show ?thesis using parse_member_head [OF v fv] n p by (simp del: parse_members.simps)
  next
    case (Cons q qs)
    have "parse_members m (join_with '','' (map (dump_member a) ps) @ CHR ''}'' # r) = Some (ps, r)"
      using Cons.IH [of m] Cons Cons.prems fs by (simp del: parse_members.simps)
    then show ?thesis
      using parse_member_head [OF v fv, of "CHR '','' # join_with '','' (map (dump_member a) ps) @ CHR ''}'' # r"]
        n p Cons dump_member_start [of a q qs "CHR ''}'' # r"]
      by (simp del: parse_members.simps dump_member_start add: join_Cons [of _ "dump_member a (k, v)"])
  qed
qed simp

lemma foldl_update_distinct:
  "distinct (map fst (d @ ps)) \<Longrightarrow> foldl (\<lambda>d (k, v). AList.update k v d) d ps = d @ ps"
proof (induction ps arbitrary: d)
  case (Cons p ps)
  have "AList.update (fst p) (snd p) d = d @ [p]"
    using Cons.prems by (induction d) auto
  then show ?case using Cons.IH [of "d @ [p]"] Cons.prems by (simp add: case_prod_beta)
qed simp

lemma dict_of_pairs_distinct: "distinct (map fst ps) \<Longrightarrow> dict_of_pairs ps = ps"
  using foldl_update_distinct [of "[]" ps] by (simp add: dict_of_pairs_def)

lemma parse_literal_words:
  "parse_literal (''null'' @ r) = Some (JNull, r)"
  "parse_literal (''true'' @ r) = Some (JBool True, r)"
  "parse_literal (''false'' @ r) = Some (JBool False, r)"
  by (simp_all add: parse_literal_def strip_prefix_def)

lemma json_fuel_pos: "0 < json_fuel v"
  by (cases v) auto

lemma dumps_reads_back: "json_plain v \<Longrightarrow> reads_back a v"
proof (induction v)
  case (JInt i)
  obtain c cs where c: "int_str i = c # cs" "is_digit c \<or> c = CHR ''-''" by (rule int_str_Cons)
  then have "c \<noteq> CHR 0x22 \<and> c \<noteq> CHR ''['' \<and> c \<noteq> CHR ''{''" by (auto simp: is_digit_def)
  with c(1) have "parse_value (Suc n) (int_str i @ r) = parse_literal (int_str i @ r)" for n r
    by simp
  then show ?case
    using parse_literal_int [of _ i] by (auto simp: reads_back_def Suc_le_eq gr0_conv_Suc)
next
  case (JArr vs)
  then have pl: "\<forall>v \<in> set vs. json_plain v \<and> reads_back a v" by (auto simp: list_all_iff)
  show ?case
    unfolding reads_back_def
  proof (intro allI impI)
    fix n r
    assume "value_end r" and "json_fuel (JArr vs) \<le> n"
    then obtain m where n: "n = Suc m" and f: "foldr (\<lambda>v n. Suc (max (json_fuel v) n)) vs 0 \<le> m"
      by (cases n) auto
    show "parse_value n (json_dumps a (JArr vs) @ r) = Some (JArr vs, r)"
    proof (cases vs)
      case Nil
      then show ?thesis using n by simp
    next
      case (Cons w ws)
      with dumps_start [of w a] pl have "hd (json_dumps a w) \<noteq> CHR '']''" and "json_dumps a w \<noteq> []" by auto
      then show ?thesis
        using n parse_elems_dumps [OF _ pl f, of r] Cons join_dumps_start [of w a ws "CHR '']'' # r"] pl
        by (simp add: join_Cons)
    qed
  qed
next
  case (JObj kvs)
  then have pl: "\<forall>(k, v) \<in> set kvs. json_plain v \<and> reads_back a v" and dk: "distinct (map fst kvs)"
    by (fastforce simp: list_all_iff)+
  show ?case
    unfolding reads_back_def
  proof (intro allI impI)
    fix n r
    assume "value_end r" and "json_fuel (JObj kvs) \<le> n"
    then obtain m where n: "n = Suc m" and f: "foldr (\<lambda>(k, v) n. Suc (max (json_fuel v) n)) kvs 0 \<le> m"
      by (cases n) auto
    have d: "json_dumps a (JObj kvs) = ''{'' @ join_with '','' (map (dump_member a) kvs) @ ''}''"
      by (simp add: dump_member_def)
    show "parse_value n (json_dumps a (JObj kvs) @ r) = Some (JObj kvs, r)"
    proof (cases kvs)
      case Nil
      then show ?thesis using n by simp
    next
      case (Cons w ws)
      have "hd (join_with '','' (map (dump_member a) kvs) @ CHR ''}'' # r) = CHR 0x22"
        using Cons by (cases w) (simp add: join_Cons dump_member_def json_str_def)
      then show ?thesis
        unfolding d
        using n parse_members_dumps [OF _ pl f, of r] Cons dump_member_start [of a w ws "CHR ''}'' # r"]
          dict_of_pairs_distinct [OF dk]
        by simp
    qed
  qed
qed (auto simp: reads_back_def parse_json_str json_str_def parse_literal_words [simplified] gr0_conv_Suc
    Suc_le_eq)

section \<open>The fuel given is enough\<close>

lemma length_join_ge:
  "(\<And>x. x \<in> set xs \<Longrightarrow> f x \<le> length (g x)) \<Longrightarrow>
   foldr (\<lambda>x n. Suc (max (f x) n)) xs 0 \<le> Suc (length (join_with '','' (map g xs)))"
proof (induction xs)
  case (Cons x xs)
  then have "foldr (\<lambda>x n. Suc (max (f x) n)) xs 0 \<le> Suc (length (join_with '','' (map g xs)))"
    and "f x \<le> length (g x)" by auto
  then show ?case by (cases xs) (auto simp: join_Cons)
qed simp

lemma json_fuel_le_length: "json_plain v \<Longrightarrow> json_fuel v \<le> length (json_dumps a v)"
proof (induction v)
  case (JInt i)
  then show ?case using dumps_start(1) [of "JInt i" a] by (simp add: Suc_le_eq)
next
  case (JArr vs)
  then show ?case
    using length_join_ge [of vs json_fuel "json_dumps a"] by (auto simp: list_all_iff)
next
  case (JObj kvs)
  have "json_fuel (snd p) \<le> length (dump_member a p)" if "p \<in> set kvs" for p
    using JObj that by (cases p) (fastforce simp: list_all_iff dump_member_def intro: trans_le_add2)
  then show ?case
    using length_join_ge [of kvs "\<lambda>p. json_fuel (snd p)" "dump_member a"]
    by (simp add: dump_member_def case_prod_beta')
qed (auto simp: json_str_def)

text \<open>
  Loading a dumped value gives it back, for every value whose objects have
  distinct keys (as Python dictionaries have) and that holds no float literal.
\<close>

theorem json_loads_dumps: "json_plain v \<Longrightarrow> json_loads (json_dumps a v) = Some v"
proof -
  assume pl: "json_plain v"
  have "parse_value (Suc (length (json_dumps a v))) (json_dumps a v @ []) = Some (v, [])"
    by (rule reads_backD [OF dumps_reads_back [OF pl]])
      (simp_all add: json_fuel_le_length [OF pl] le_SucI)
  moreover have "skip_ws (json_dumps a v @ []) = json_dumps a v @ []"
    using skip_ws_dumps [OF pl] .
  ultimately show ?thesis by (simp add: json_loads_def skip_ws_def del: parse_value.simps)
qed

end
