(* ===== verification/Enums.thy ===== *)
theory Enums
  imports Py_Prelude
begin

text \<open>
  The canonical enumerations (\<open>src/master/core/enums.py\<close>): their members, the
  wire values of the string enumerations, the documented transitions of a
  proposal, and the role hierarchy.
\<close>

datatype node_state =
    NS_PENDING | NS_ENROLLING | NS_UNCONFIGURED | NS_CONNECTED | NS_RECONNECTING
  | NS_LOST | NS_STALE | NS_DISABLED | NS_REVOKED

datatype worker_action =
    WA_PING | WA_GET_STATS | WA_STATUS_REPORT | WA_LIST_SERVICES | WA_STATUS_SERVICE
  | WA_RESTART_SERVICE | WA_LIST_CONTAINERS | WA_RESTART_CONTAINER | WA_READ_LOGS
  | WA_READ_LOGS_SERVICE | WA_UPDATE_WORKER | WA_DISK_SCAN | WA_LIST_LOG_SOURCES | WA_LOG_HISTOGRAM

primrec worker_action_str :: "worker_action \<Rightarrow> string" where
  "worker_action_str WA_PING = ''PING''"
| "worker_action_str WA_GET_STATS = ''GET_STATS''"
| "worker_action_str WA_STATUS_REPORT = ''STATUS_REPORT''"
| "worker_action_str WA_LIST_SERVICES = ''LIST_SERVICES''"
| "worker_action_str WA_STATUS_SERVICE = ''STATUS_SERVICE''"
| "worker_action_str WA_RESTART_SERVICE = ''RESTART_SERVICE''"
| "worker_action_str WA_LIST_CONTAINERS = ''LIST_CONTAINERS''"
| "worker_action_str WA_RESTART_CONTAINER = ''RESTART_CONTAINER''"
| "worker_action_str WA_READ_LOGS = ''READ_LOGS''"
| "worker_action_str WA_READ_LOGS_SERVICE = ''READ_LOGS_SERVICE''"
| "worker_action_str WA_UPDATE_WORKER = ''UPDATE_WORKER''"
| "worker_action_str WA_DISK_SCAN = ''DISK_SCAN''"
| "worker_action_str WA_LIST_LOG_SOURCES = ''LIST_LOG_SOURCES''"
| "worker_action_str WA_LOG_HISTOGRAM = ''LOG_HISTOGRAM''"

datatype proposal_status = PENDING | APPROVED | REJECTED | EXECUTED | FAILED

primrec proposal_status_str :: "proposal_status \<Rightarrow> string" where
  "proposal_status_str PENDING = ''PENDING''"
| "proposal_status_str APPROVED = ''APPROVED''"
| "proposal_status_str REJECTED = ''REJECTED''"
| "proposal_status_str EXECUTED = ''EXECUTED''"
| "proposal_status_str FAILED = ''FAILED''"

primrec valid_transitions :: "proposal_status \<Rightarrow> proposal_status list" where
  "valid_transitions PENDING = [APPROVED, REJECTED]"
| "valid_transitions APPROVED = [EXECUTED, FAILED]"
| "valid_transitions REJECTED = []"
| "valid_transitions EXECUTED = []"
| "valid_transitions FAILED = []"

datatype hook_name =
    ON_NODE_CONNECT | ON_NODE_DISCONNECT | ON_STATUS_REPORT | ON_PROPOSE_ACTION | ON_METRICS
  | ON_PLUGIN_LOAD | ON_PLUGIN_UNLOAD | ON_SHUTDOWN | NORMALIZE_STATUS_REPORT | GET_SUPPORTED_ACTIONS

primrec hook_name_str :: "hook_name \<Rightarrow> string" where
  "hook_name_str ON_NODE_CONNECT = ''on_node_connect''"
| "hook_name_str ON_NODE_DISCONNECT = ''on_node_disconnect''"
| "hook_name_str ON_STATUS_REPORT = ''on_status_report''"
| "hook_name_str ON_PROPOSE_ACTION = ''on_propose_action''"
| "hook_name_str ON_METRICS = ''on_metrics''"
| "hook_name_str ON_PLUGIN_LOAD = ''on_plugin_load''"
| "hook_name_str ON_PLUGIN_UNLOAD = ''on_plugin_unload''"
| "hook_name_str ON_SHUTDOWN = ''on_shutdown''"
| "hook_name_str NORMALIZE_STATUS_REPORT = ''normalize_status_report''"
| "hook_name_str GET_SUPPORTED_ACTIONS = ''get_supported_actions''"

datatype user_role = VIEWER | OPERATOR | ADMIN

primrec user_role_str :: "user_role \<Rightarrow> string" where
  "user_role_str VIEWER = ''viewer''"
| "user_role_str OPERATOR = ''operator''"
| "user_role_str ADMIN = ''admin''"

definition role_hierarchy :: "(string, nat) dict" where
  \<comment> \<open>\<open>UserRole.hierarchy\<close>: the members numbered from 1 in declaration order\<close>
  "role_hierarchy = map (\<lambda>(i, r). (user_role_str r, i + 1)) (enumerate 0 [VIEWER, OPERATOR, ADMIN])"

instantiation user_role :: linorder
begin

definition less_eq_user_role :: "user_role \<Rightarrow> user_role \<Rightarrow> bool" where
  "less_eq_user_role a b \<longleftrightarrow>
     (case a of VIEWER \<Rightarrow> True | OPERATOR \<Rightarrow> b \<noteq> VIEWER | ADMIN \<Rightarrow> b = ADMIN)"

definition less_user_role :: "user_role \<Rightarrow> user_role \<Rightarrow> bool" where
  "less_user_role a b \<longleftrightarrow> a \<le> b \<and> a \<noteq> (b :: user_role)"

instance
  by standard (auto simp: less_eq_user_role_def less_user_role_def split: user_role.splits)

end

lemma proposal_status_str_inj: "proposal_status_str a = proposal_status_str b \<Longrightarrow> a = b"
  by (cases a; cases b) simp_all

lemma terminal_status_iff: "valid_transitions s = [] \<longleftrightarrow> s \<in> {REJECTED, EXECUTED, FAILED}"
  by (cases s) simp_all

end
