(* ===== verification/Action_Proposal.thy ===== *)
theory Action_Proposal
  imports Json Enums
begin

text \<open>
  The action proposal (\<open>src/master/core/action_proposal.py\<close>): the model object,
  its three transitions, and its serialisation to and from a row of the table
  \<open>action_proposals\<close>. The status column has a \<open>CHECK\<close> constraint to the five
  members of \<^typ>\<open>proposal_status\<close>.
\<close>

record action_proposal =
  p_id :: string
  p_node_id :: string
  p_action :: string
  p_params :: "(string, json) dict"
  p_reasoning :: string
  p_risk_level :: string
  p_status :: proposal_status
  p_created_by :: string
  p_approved_by :: "string option"
  p_rejected_by :: "string option"
  p_rejection_reason :: "string option"
  p_created_at :: time
  p_updated_at :: time
  p_executed_at :: "time option"
  p_result :: "(string, json) dict option"
  p_dispatch_id :: "string option"
  p_intent_id :: "string option"
  p_expires_at :: "time option"

record proposal_row =
  r_id :: string
  r_node_id :: string
  r_action :: string
  r_params_json :: string
  r_reasoning :: string
  r_risk_level :: string
  r_status :: proposal_status
  r_created_by :: string
  r_approved_by :: "string option"
  r_rejected_by :: "string option"
  r_rejection_reason :: "string option"
  r_created_at :: time
  r_updated_at :: time
  r_executed_at :: "time option"
  r_result_json :: "string option"
  r_dispatch_id :: "string option"
  r_intent_id :: "string option"
  r_expires_at :: "time option"

type_synonym proposal_table = "proposal_row list"

datatype proposal_error =
    CannotApprove proposal_status
  | CannotReject proposal_status
  | CannotComplete proposal_status
  | InvalidParams
  | InvalidResult

definition new_proposal ::
  "string \<Rightarrow> string \<Rightarrow> string \<Rightarrow> (string, json) dict \<Rightarrow> time \<Rightarrow> action_proposal" where
  \<comment> \<open>the field defaults; \<open>i\<close> is the fresh UUID and \<open>now\<close> the clock\<close>
  "new_proposal i node action params now =
     \<lparr>p_id = i, p_node_id = node, p_action = action, p_params = params, p_reasoning = [],
      p_risk_level = ''MEDIUM'', p_status = PENDING, p_created_by = ''ai'',
      p_approved_by = None, p_rejected_by = None, p_rejection_reason = None,
      p_created_at = now, p_updated_at = now, p_executed_at = None, p_result = None,
      p_dispatch_id = None, p_intent_id = None, p_expires_at = None\<rparr>"

definition approve :: "string \<Rightarrow> time \<Rightarrow> action_proposal \<Rightarrow> proposal_error + action_proposal" where
  "approve user now p =
     (if p_status p \<noteq> PENDING then Inl (CannotApprove (p_status p))
      else Inr (p\<lparr>p_status := APPROVED, p_approved_by := Some user, p_updated_at := now\<rparr>))"

definition reject :: "string \<Rightarrow> string \<Rightarrow> time \<Rightarrow> action_proposal \<Rightarrow> proposal_error + action_proposal" where
  "reject user reason now p =
     (if p_status p \<noteq> PENDING then Inl (CannotReject (p_status p))
      else Inr (p\<lparr>p_status := REJECTED, p_rejected_by := Some user,
                 p_rejection_reason := Some reason, p_updated_at := now\<rparr>))"

definition complete ::
  "bool \<Rightarrow> (string, json) dict \<Rightarrow> time \<Rightarrow> time \<Rightarrow> action_proposal \<Rightarrow> proposal_error + action_proposal" where
  \<comment> \<open>the clock is read twice, for \<open>executed_at\<close> and for \<open>updated_at\<close>\<close>
  "complete success result t1 t2 p =
     (if p_status p \<noteq> APPROVED then Inl (CannotComplete (p_status p))
      else Inr (p\<lparr>p_status := (if success then EXECUTED else FAILED), p_executed_at := Some t1,
                 p_result := Some result, p_updated_at := t2\<rparr>))"

definition json_loads_opt :: "string option \<Rightarrow> json option" where
  \<comment> \<open>\<open>_json_loads\<close>: \<open>None\<close> for an absent or malformed text\<close>
  "json_loads_opt s = (case s of None \<Rightarrow> None | Some t \<Rightarrow> json_loads t)"

definition to_db_dict :: "action_proposal \<Rightarrow> proposal_row" where
  "to_db_dict p =
     \<lparr>r_id = p_id p, r_node_id = p_node_id p, r_action = p_action p,
      r_params_json = json_dumps True (JObj (p_params p)),
      r_reasoning = p_reasoning p, r_risk_level = p_risk_level p, r_status = p_status p,
      r_created_by = p_created_by p, r_approved_by = p_approved_by p,
      r_rejected_by = p_rejected_by p, r_rejection_reason = p_rejection_reason p,
      r_created_at = p_created_at p, r_updated_at = p_updated_at p, r_executed_at = p_executed_at p,
      r_result_json =
        (case p_result p of
           None \<Rightarrow> None
         | Some d \<Rightarrow> if d = [] then None else Some (json_dumps True (JObj d))),
      r_dispatch_id = p_dispatch_id p, r_intent_id = p_intent_id p, r_expires_at = p_expires_at p\<rparr>"

text \<open>
  \<open>from_db_row\<close> builds the object through the validating constructor: parameters
  that are not an object, or a result that is neither absent, null nor an
  object, are refused.
\<close>

definition from_db_row :: "proposal_row \<Rightarrow> proposal_error + action_proposal" where
  "from_db_row r =
     (case json_loads_opt (Some (r_params_json r)) of
        Some (JObj params) \<Rightarrow>
          (let build = (\<lambda>res.
             \<lparr>p_id = r_id r, p_node_id = r_node_id r, p_action = r_action r, p_params = params,
              p_reasoning = r_reasoning r, p_risk_level = r_risk_level r, p_status = r_status r,
              p_created_by = r_created_by r, p_approved_by = r_approved_by r,
              p_rejected_by = r_rejected_by r, p_rejection_reason = r_rejection_reason r,
              p_created_at = r_created_at r, p_updated_at = r_updated_at r,
              p_executed_at = r_executed_at r, p_result = res, p_dispatch_id = r_dispatch_id r,
              p_intent_id = r_intent_id r, p_expires_at = r_expires_at r\<rparr>)
           in case json_loads_opt (r_result_json r) of
                None \<Rightarrow> Inr (build None)
              | Some JNull \<Rightarrow> Inr (build None)
              | Some (JObj d) \<Rightarrow> Inr (build (Some d))
              | Some _ \<Rightarrow> Inl InvalidResult)
      | _ \<Rightarrow> Inl InvalidParams)"

section \<open>Lemmas\<close>

lemma approve_Inr:
  "approve u now p = Inr q \<longleftrightarrow>
     p_status p = PENDING \<and> q = p\<lparr>p_status := APPROVED, p_approved_by := Some u, p_updated_at := now\<rparr>"
  by (auto simp: approve_def)

lemma reject_Inr:
  "reject u w now p = Inr q \<longleftrightarrow>
     p_status p = PENDING \<and>
     q = p\<lparr>p_status := REJECTED, p_rejected_by := Some u, p_rejection_reason := Some w, p_updated_at := now\<rparr>"
  by (auto simp: reject_def)

lemma complete_Inr:
  "complete ok res t1 t2 p = Inr q \<longleftrightarrow>
     p_status p = APPROVED \<and>
     q = p\<lparr>p_status := (if ok then EXECUTED else FAILED), p_executed_at := Some t1,
          p_result := Some res, p_updated_at := t2\<rparr>"
  by (auto simp: complete_def)

lemma from_db_row_fields:
  assumes "from_db_row r = Inr p"
  shows "p_id p = r_id r" and "p_status p = r_status r" and "p_node_id p = r_node_id r"
    and "p_action p = r_action r" and "p_dispatch_id p = r_dispatch_id r"
    and "p_approved_by p = r_approved_by r" and "p_created_at p = r_created_at r"
    and "p_reasoning p = r_reasoning r" and "p_intent_id p = r_intent_id r"
  using assms by (auto simp: from_db_row_def Let_def split: option.splits json.splits)

lemma to_db_dict_fields [simp]:
  "r_id (to_db_dict p) = p_id p" "r_status (to_db_dict p) = p_status p"
  "r_dispatch_id (to_db_dict p) = p_dispatch_id p" "r_node_id (to_db_dict p) = p_node_id p"
  "r_updated_at (to_db_dict p) = p_updated_at p" "r_executed_at (to_db_dict p) = p_executed_at p"
  "r_approved_by (to_db_dict p) = p_approved_by p" "r_intent_id (to_db_dict p) = p_intent_id p"
  "r_rejected_by (to_db_dict p) = p_rejected_by p"
  by (simp_all add: to_db_dict_def)

lemma from_to_db_row:
  assumes "json_plain (JObj (p_params p))"
    and "\<forall>d. p_result p = Some d \<longrightarrow> json_plain (JObj d)"
  shows "from_db_row (to_db_dict p) =
    Inr (p\<lparr>p_result := (if p_result p = Some [] then None else p_result p)\<rparr>)"
proof -
  have a: "json_loads (r_params_json (to_db_dict p)) = Some (JObj (p_params p))"
    using json_loads_dumps [OF assms(1)] by (simp add: to_db_dict_def)
  have b: "json_loads_opt (r_result_json (to_db_dict p)) =
      (case p_result p of None \<Rightarrow> None | Some d \<Rightarrow> if d = [] then None else Some (JObj d))"
    using assms(2) json_loads_dumps
    by (auto simp: to_db_dict_def json_loads_opt_def split: option.splits
        simp del: json_dumps.simps json_plain.simps)
  show ?thesis
    by (simp add: from_db_row_def json_loads_opt_def [of "Some _"] a b, cases "p_result p")
      (auto simp: to_db_dict_def)
qed

section \<open>Properties\<close>

text \<open>
  The transitions of a proposal are exactly the documented ones: each
  operation succeeds only from the state it is documented for, every success is
  a step of \<open>valid_transitions\<close>, and no operation leaves a terminal state.
\<close>

theorem proposal_transitions_documented:
  "(approve u now p = Inr q \<longrightarrow> p_status p = PENDING \<and> p_status q \<in> set (valid_transitions (p_status p))) \<and>
   (reject u w now p = Inr q \<longrightarrow> p_status p = PENDING \<and> p_status q \<in> set (valid_transitions (p_status p))) \<and>
   (complete ok res t1 t2 p = Inr q \<longrightarrow> p_status p = APPROVED \<and> p_status q \<in> set (valid_transitions (p_status p))) \<and>
   (valid_transitions (p_status p) = [] \<longrightarrow>
      (\<exists>e. approve u now p = Inl e) \<and> (\<exists>e. reject u w now p = Inl e) \<and> (\<exists>e. complete ok res t1 t2 p = Inl e))"
  by (auto simp: approve_def reject_def complete_def terminal_status_iff split: if_splits)

definition sample_proposal :: action_proposal where
  "sample_proposal = new_proposal ''p1'' ''n1'' ''RESTART_SERVICE'' [(''service'', JStr ''nginx'')] 100"

theorem proposal_transitions_documented_witness:
  "approve ''op'' 101 sample_proposal =
     Inr (sample_proposal\<lparr>p_status := APPROVED, p_approved_by := Some ''op'', p_updated_at := 101\<rparr>) \<and>
   APPROVED \<in> set (valid_transitions (p_status sample_proposal))"
proof -
  let ?q = "sample_proposal\<lparr>p_status := APPROVED, p_approved_by := Some ''op'', p_updated_at := 101\<rparr>"
  have a: "approve ''op'' 101 sample_proposal = Inr ?q"
    by (simp add: approve_def sample_proposal_def new_proposal_def)
  have "p_status ?q \<in> set (valid_transitions (p_status sample_proposal))"
    using proposal_transitions_documented [of "''op''" 101 sample_proposal ?q] a by blast
  with a show ?thesis by simp
qed

text \<open>
  Storing and loading a proposal gives it back, for parameters and results
  that are JSON objects without float literals, except that an empty result
  object comes back as no result.
\<close>

theorem proposal_row_roundtrip:
  assumes "json_plain (JObj (p_params p))"
    and "\<forall>d. p_result p = Some d \<longrightarrow> json_plain (JObj d)"
  shows "from_db_row (to_db_dict p) =
    Inr (p\<lparr>p_result := (if p_result p = Some [] then None else p_result p)\<rparr>)"
  by (rule from_to_db_row [OF assms])

theorem proposal_row_roundtrip_witness:
  "from_db_row (to_db_dict sample_proposal) = Inr sample_proposal"
  using proposal_row_roundtrip [of sample_proposal]
  by (simp add: sample_proposal_def new_proposal_def)

end
