(* ===== verification/Audit_Chain.thy ===== *)
theory Audit_Chain
  imports Json "HOL-Library.Sublist"
begin

text \<open>
  The audit trail (\<open>src/master/core/audit.py\<close>): an append-only table whose
  entries are chained by hashes. The table is the list of its rows in insertion
  order. SHA-256 with its hexadecimal digest is the parameter \<open>H\<close>; nothing is
  assumed about it, so the tamper-evidence theorem produces an explicit
  collision of \<open>H\<close> as the only way out.
\<close>

section \<open>Entries and their hashes\<close>

datatype audit_action =
    AA_USER_LOGIN
  | AA_USER_LOGOUT
  | AA_USER_CHANGE_PASSWORD
  | AA_REFRESH_THEFT_DETECTED
  | AA_TOKEN_REFRESH
  | AA_PROPOSAL_APPROVED
  | AA_PROPOSAL_REJECTED
  | AA_GENERATE_JOIN_TOKEN
  | AA_REGENERATE_JOIN_TOKEN
  | AA_REVOKE_NODE
  | AA_CONFIGURE_NODE
  | AA_DISABLE_NODE
  | AA_ENABLE_NODE
  | AA_UPDATE_NODE
  | AA_UPDATE_LLM_SETTINGS
  | AA_UPDATE_INTENT_CONFIG
  | AA_UPLOAD_PLUGIN
  | AA_CONFIGURE_PLUGIN
  | AA_TOGGLE_PLUGIN
  | AA_ENABLE_PLUGIN
  | AA_DISABLE_PLUGIN
  | AA_DELETE_PLUGIN
  | AA_NODE_ENROLLED
  | AA_NODE_RECONNECTED
  | AA_INTENT_DISPATCH
  | AA_INTENT_RESULT
  | AA_CACHE_REFRESH
  | AA_NODE_LOST
  | AA_NODE_STALE
  | AA_NODE_DELETED
  | AA_DEMO_RESET
  | AA_RESTART_SERVICE
  | AA_STOP_SERVICE
  | AA_START_SERVICE
  | AA_RESTART_CONTAINER
  | AA_STOP_CONTAINER
  | AA_START_CONTAINER
  | AA_DELETE_CONTAINER
  | AA_CREATE_AUTOMATION_RULE
  | AA_UPDATE_AUTOMATION_RULE
  | AA_DELETE_AUTOMATION_RULE
  | AA_TOGGLE_AUTOMATION_RULE
  | AA_AUTOMATION_TRIGGERED
  | AA_DISK_SCAN
  | AA_UPDATE_WORKER
  | AA_AUTO_UPDATE_WORKER
  | AA_LOCKDOWN
  | AA_SECURITY_INCIDENT

primrec audit_action_str :: "audit_action \<Rightarrow> string" where
  "audit_action_str AA_USER_LOGIN = ''USER_LOGIN''"
| "audit_action_str AA_USER_LOGOUT = ''USER_LOGOUT''"
| "audit_action_str AA_USER_CHANGE_PASSWORD = ''USER_CHANGE_PASSWORD''"
| "audit_action_str AA_REFRESH_THEFT_DETECTED = ''REFRESH_THEFT_DETECTED''"
| "audit_action_str AA_TOKEN_REFRESH = ''TOKEN_REFRESH''"
| "audit_action_str AA_PROPOSAL_APPROVED = ''PROPOSAL_APPROVED''"
| "audit_action_str AA_PROPOSAL_REJECTED = ''PROPOSAL_REJECTED''"
| "audit_action_str AA_GENERATE_JOIN_TOKEN = ''GENERATE_JOIN_TOKEN''"
| "audit_action_str AA_REGENERATE_JOIN_TOKEN = ''REGENERATE_JOIN_TOKEN''"
| "audit_action_str AA_REVOKE_NODE = ''REVOKE_NODE''"
| "audit_action_str AA_CONFIGURE_NODE = ''CONFIGURE_NODE''"
| "audit_action_str AA_DISABLE_NODE = ''DISABLE_NODE''"
| "audit_action_str AA_ENABLE_NODE = ''ENABLE_NODE''"
| "audit_action_str AA_UPDATE_NODE = ''UPDATE_NODE''"
| "audit_action_str AA_UPDATE_LLM_SETTINGS = ''UPDATE_LLM_SETTINGS''"
| "audit_action_str AA_UPDATE_INTENT_CONFIG = ''UPDATE_INTENT_CONFIG''"
| "audit_action_str AA_UPLOAD_PLUGIN = ''UPLOAD_PLUGIN''"
| "audit_action_str AA_CONFIGURE_PLUGIN = ''CONFIGURE_PLUGIN''"
| "audit_action_str AA_TOGGLE_PLUGIN = ''TOGGLE_PLUGIN''"
| "audit_action_str AA_ENABLE_PLUGIN = ''ENABLE_PLUGIN''"
| "audit_action_str AA_DISABLE_PLUGIN = ''DISABLE_PLUGIN''"
| "audit_action_str AA_DELETE_PLUGIN = ''DELETE_PLUGIN''"
| "audit_action_str AA_NODE_ENROLLED = ''NODE_ENROLLED''"
| "audit_action_str AA_NODE_RECONNECTED = ''NODE_RECONNECTED''"
| "audit_action_str AA_INTENT_DISPATCH = ''INTENT_DISPATCH''"
| "audit_action_str AA_INTENT_RESULT = ''INTENT_RESULT''"
| "audit_action_str AA_CACHE_REFRESH = ''CACHE_REFRESH''"
| "audit_action_str AA_NODE_LOST = ''NODE_LOST''"
| "audit_action_str AA_NODE_STALE = ''NODE_STALE''"
| "audit_action_str AA_NODE_DELETED = ''NODE_DELETED''"
| "audit_action_str AA_DEMO_RESET = ''DEMO_RESET''"
| "audit_action_str AA_RESTART_SERVICE = ''RESTART_SERVICE''"
| "audit_action_str AA_STOP_SERVICE = ''STOP_SERVICE''"
| "audit_action_str AA_START_SERVICE = ''START_SERVICE''"
| "audit_action_str AA_RESTART_CONTAINER = ''RESTART_CONTAINER''"
| "audit_action_str AA_STOP_CONTAINER = ''STOP_CONTAINER''"
| "audit_action_str AA_START_CONTAINER = ''START_CONTAINER''"
| "audit_action_str AA_DELETE_CONTAINER = ''DELETE_CONTAINER''"
| "audit_action_str AA_CREATE_AUTOMATION_RULE = ''CREATE_AUTOMATION_RULE''"
| "audit_action_str AA_UPDATE_AUTOMATION_RULE = ''UPDATE_AUTOMATION_RULE''"
| "audit_action_str AA_DELETE_AUTOMATION_RULE = ''DELETE_AUTOMATION_RULE''"
| "audit_action_str AA_TOGGLE_AUTOMATION_RULE = ''TOGGLE_AUTOMATION_RULE''"
| "audit_action_str AA_AUTOMATION_TRIGGERED = ''AUTOMATION_TRIGGERED''"
| "audit_action_str AA_DISK_SCAN = ''DISK_SCAN''"
| "audit_action_str AA_UPDATE_WORKER = ''UPDATE_WORKER''"
| "audit_action_str AA_AUTO_UPDATE_WORKER = ''AUTO_UPDATE_WORKER''"
| "audit_action_str AA_LOCKDOWN = ''LOCKDOWN''"
| "audit_action_str AA_SECURITY_INCIDENT = ''SECURITY_INCIDENT''"

record audit_entry =
  ae_id :: string
  ae_sequence :: int
  ae_timestamp :: time
  ae_user_id :: string
  ae_action :: string
  ae_node_id :: "string option"
  ae_details_json :: string
  ae_previous_hash :: string
  ae_entry_hash :: string

type_synonym audit_table = "audit_entry list"
type_synonym hash = "string \<Rightarrow> string"

definition GENESIS_HASH :: string where
  "GENESIS_HASH = replicate 64 (CHR ''0'')"

definition entry_raw ::
  "string \<Rightarrow> int \<Rightarrow> time \<Rightarrow> string \<Rightarrow> string \<Rightarrow> string option \<Rightarrow> string \<Rightarrow> string" where
  \<comment> \<open>the text that is hashed\<close>
  "entry_raw previous_hash sequence timestamp action user_id node_id details_json =
     join_with ''|''
       [previous_hash, int_str sequence, fixed_str 6 timestamp, action, user_id,
        (case node_id of None \<Rightarrow> [] | Some n \<Rightarrow> n), details_json]"

definition compute_entry_hash ::
  "hash \<Rightarrow> string \<Rightarrow> int \<Rightarrow> time \<Rightarrow> string \<Rightarrow> string \<Rightarrow> string option \<Rightarrow> string \<Rightarrow> string" where
  "compute_entry_hash H previous_hash sequence timestamp action user_id node_id details_json =
     H (entry_raw previous_hash sequence timestamp action user_id node_id details_json)"

definition raw_of :: "audit_entry \<Rightarrow> string" where
  "raw_of e = entry_raw (ae_previous_hash e) (ae_sequence e) (ae_timestamp e) (ae_action e)
     (ae_user_id e) (ae_node_id e) (ae_details_json e)"

definition hash_of :: "hash \<Rightarrow> audit_entry \<Rightarrow> string" where
  "hash_of H e = compute_entry_hash H (ae_previous_hash e) (ae_sequence e) (ae_timestamp e)
     (ae_action e) (ae_user_id e) (ae_node_id e) (ae_details_json e)"

section \<open>Appending\<close>

text \<open>
  A request to log: the keyword arguments of \<open>log_action\<close>, and the clock and the
  UUID it reads.
\<close>

record audit_request =
  ar_user_id :: string
  ar_action :: string
  ar_node_id :: "string option"
  ar_details :: json
  ar_now :: time
  ar_uuid :: string

datatype audit_error = UniqueSequence int | DuplicateId string | DuplicateHash string

definition chain_head :: "audit_table \<Rightarrow> audit_entry option" where
  \<comment> \<open>\<open>SELECT ... ORDER BY sequence DESC LIMIT 1\<close>\<close>
  "chain_head tbl = (case rev (sort_key ae_sequence tbl) of [] \<Rightarrow> None | e # _ \<Rightarrow> Some e)"

definition next_entry :: "hash \<Rightarrow> audit_request \<Rightarrow> audit_table \<Rightarrow> audit_entry" where
  "next_entry H r tbl =
     (let details_json = json_dumps False (ar_details r);
          (previous_hash, sequence) =
            (case chain_head tbl of
               None \<Rightarrow> (GENESIS_HASH, 1)
             | Some h \<Rightarrow> (ae_entry_hash h, ae_sequence h + 1))
      in \<lparr>ae_id = ar_uuid r, ae_sequence = sequence, ae_timestamp = ar_now r,
          ae_user_id = ar_user_id r, ae_action = ar_action r, ae_node_id = ar_node_id r,
          ae_details_json = details_json, ae_previous_hash = previous_hash,
          ae_entry_hash = compute_entry_hash H previous_hash sequence (ar_now r) (ar_action r)
            (ar_user_id r) (ar_node_id r) details_json\<rparr>)"

text \<open>
  The insert with its constraints (\<open>sequence\<close> and \<open>entry_hash\<close> unique, \<open>id\<close>
  primary key), and the retry loop: each attempt reads the head, then other
  connections may have committed entries (the first element of \<open>ws\<close>) before the
  insert runs; a collision of the sequence is retried, at most five attempts in
  all, every other failure is raised.
\<close>

definition insert_entry :: "audit_entry \<Rightarrow> audit_table \<Rightarrow> (audit_error + string) \<times> audit_table" where
  "insert_entry e tbl =
     (if ae_sequence e \<in> set (map ae_sequence tbl) then (Inl (UniqueSequence (ae_sequence e)), tbl)
      else if ae_id e \<in> set (map ae_id tbl) then (Inl (DuplicateId (ae_id e)), tbl)
      else if ae_entry_hash e \<in> set (map ae_entry_hash tbl) then (Inl (DuplicateHash (ae_entry_hash e)), tbl)
      else (Inr (ae_id e), tbl @ [e]))"

fun log_attempts ::
  "hash \<Rightarrow> nat \<Rightarrow> audit_request \<Rightarrow> audit_table list \<Rightarrow> audit_table \<Rightarrow>
     (audit_error + string) \<times> audit_table" where
  "log_attempts H 0 r ws tbl = insert_entry (next_entry H r tbl) (tbl @ concat (take 1 ws))"
| "log_attempts H (Suc n) r ws tbl =
     (case insert_entry (next_entry H r tbl) (tbl @ concat (take 1 ws)) of
        (Inl (UniqueSequence s), tbl') \<Rightarrow> log_attempts H n r (tl ws) tbl'
      | res \<Rightarrow> res)"

definition log_action ::
  "hash \<Rightarrow> audit_request \<Rightarrow> audit_table list \<Rightarrow> audit_table \<Rightarrow> (audit_error + string) \<times> audit_table" where
  "log_action H r ws tbl = log_attempts H 4 r ws tbl"

section \<open>Verification and queries\<close>

datatype chain_fault = PreviousHashMismatch string string | EntryHashMismatch

record chain_report =
  cr_valid :: bool
  cr_total_entries :: nat
  cr_first_broken :: "int option"
  cr_error :: "chain_fault option"

definition sql_limit :: "int \<Rightarrow> 'a list \<Rightarrow> 'a list" where
  \<comment> \<open>\<open>LIMIT n\<close>: a negative \<open>n\<close> means no limit\<close>
  "sql_limit n xs = (if n < 0 then xs else take (nat n) xs)"

definition rows_to_verify :: "int option \<Rightarrow> audit_table \<Rightarrow> audit_table" where
  "rows_to_verify max_entries tbl =
     (case max_entries of
        None \<Rightarrow> sort_key ae_sequence tbl
      | Some n \<Rightarrow> rev (sql_limit n (rev (sort_key ae_sequence tbl))))"

fun verify_rows :: "hash \<Rightarrow> string \<Rightarrow> nat \<Rightarrow> audit_table \<Rightarrow> chain_report" where
  "verify_rows H expected count [] =
     \<lparr>cr_valid = True, cr_total_entries = count, cr_first_broken = None, cr_error = None\<rparr>"
| "verify_rows H expected count (e # es) =
     (if ae_previous_hash e \<noteq> expected then
        \<lparr>cr_valid = False, cr_total_entries = Suc count, cr_first_broken = Some (ae_sequence e),
         cr_error = Some (PreviousHashMismatch (take 12 expected) (take 12 (ae_previous_hash e)))\<rparr>
      else if hash_of H e \<noteq> ae_entry_hash e then
        \<lparr>cr_valid = False, cr_total_entries = Suc count, cr_first_broken = Some (ae_sequence e),
         cr_error = Some EntryHashMismatch\<rparr>
      else verify_rows H (ae_entry_hash e) (Suc count) es)"

definition verify_chain :: "hash \<Rightarrow> int option \<Rightarrow> audit_table \<Rightarrow> chain_report" where
  "verify_chain H max_entries tbl =
     (case rows_to_verify max_entries tbl of
        [] \<Rightarrow> \<lparr>cr_valid = True, cr_total_entries = 0, cr_first_broken = None, cr_error = None\<rparr>
      | first # rest \<Rightarrow>
          verify_rows H (if ae_sequence first = 1 then GENESIS_HASH else ae_previous_hash first) 0
            (first # rest))"

definition get_recent_entries ::
  "int \<Rightarrow> string option \<Rightarrow> string option \<Rightarrow> audit_table \<Rightarrow> audit_table" where
  \<comment> \<open>a filter that is absent or empty selects everything\<close>
  "get_recent_entries limit node_id user_id tbl =
     (let by_node = (case node_id of None \<Rightarrow> (\<lambda>e. True) | Some n \<Rightarrow> if n = [] then (\<lambda>e. True) else (\<lambda>e. ae_node_id e = Some n));
          by_user = (case user_id of None \<Rightarrow> (\<lambda>e. True) | Some u \<Rightarrow> if u = [] then (\<lambda>e. True) else (\<lambda>e. ae_user_id e = u))
      in sql_limit limit (rev (sort_key ae_sequence (filter (\<lambda>e. by_node e \<and> by_user e) tbl))))"

section \<open>The chain invariant\<close>

fun chain_from :: "hash \<Rightarrow> string \<Rightarrow> int \<Rightarrow> audit_table \<Rightarrow> bool" where
  "chain_from H p s [] = True"
| "chain_from H p s (e # es) =
     (ae_sequence e = s \<and> ae_previous_hash e = p \<and> hash_of H e = ae_entry_hash e \<and>
      chain_from H (ae_entry_hash e) (s + 1) es)"

definition chain_ok :: "hash \<Rightarrow> audit_table \<Rightarrow> bool" where
  "chain_ok H tbl \<longleftrightarrow> chain_from H GENESIS_HASH 1 tbl"

definition last_hash :: "string \<Rightarrow> audit_table \<Rightarrow> string" where
  "last_hash p tbl = (if tbl = [] then p else ae_entry_hash (last tbl))"

lemma last_hash_simps [simp]:
  "last_hash p [] = p" "last_hash p (e # es) = last_hash (ae_entry_hash e) es"
  by (auto simp: last_hash_def)

lemma hash_of_raw: "hash_of H e = H (raw_of e)"
  by (simp add: hash_of_def raw_of_def compute_entry_hash_def)

lemma chain_from_append:
  "chain_from H p s (xs @ ys) \<longleftrightarrow>
     chain_from H p s xs \<and> chain_from H (last_hash p xs) (s + int (length xs)) ys"
  by (induction xs arbitrary: p s) (auto simp: algebra_simps)

lemma chain_from_sequence_ge: "chain_from H p s es \<Longrightarrow> e \<in> set es \<Longrightarrow> s \<le> ae_sequence e"
  by (induction es arbitrary: p s) fastforce+

lemma chain_from_sequence_le: "chain_from H p s es \<Longrightarrow> e \<in> set es \<Longrightarrow> ae_sequence e < s + int (length es)"
  by (induction es arbitrary: p s) fastforce+

lemma chain_from_sorted: "chain_from H p s es \<Longrightarrow> sorted (map ae_sequence es)"
proof (induction es arbitrary: p s)
  case (Cons e es)
  then show ?case using chain_from_sequence_ge [of H _ "s + 1" es] by fastforce
qed simp

lemma chain_from_last_sequence: "chain_from H p s es \<Longrightarrow> es \<noteq> [] \<Longrightarrow> ae_sequence (last es) = s + int (length es) - 1"
  by (cases es rule: rev_cases) (auto simp: chain_from_append)

lemma sort_key_chain [simp]: "chain_from H p s es \<Longrightarrow> sort_key ae_sequence es = es"
  by (rule sort_key_id_if_sorted [OF chain_from_sorted])

lemma chain_head_chain: "chain_from H p s es \<Longrightarrow> chain_head es = (if es = [] then None else Some (last es))"
  by (cases es rule: rev_cases) (simp_all add: chain_head_def)

lemma next_entry_fields [simp]:
  "ae_id (next_entry H r tbl) = ar_uuid r"
  "ae_user_id (next_entry H r tbl) = ar_user_id r"
  "ae_action (next_entry H r tbl) = ar_action r"
  "ae_node_id (next_entry H r tbl) = ar_node_id r"
  "ae_timestamp (next_entry H r tbl) = ar_now r"
  "ae_details_json (next_entry H r tbl) = json_dumps False (ar_details r)"
  by (auto simp: next_entry_def Let_def split: option.splits)

lemma next_entry_chain:
  assumes "chain_ok H tbl"
  shows "chain_ok H (tbl @ [next_entry H r tbl])"
  using assms chain_head_chain [of H GENESIS_HASH 1 tbl] chain_from_last_sequence [of H GENESIS_HASH 1 tbl]
  by (auto simp: chain_ok_def chain_from_append next_entry_def hash_of_def last_hash_def Let_def)

lemma next_entry_sequence:
  assumes "chain_ok H tbl"
  shows "ae_sequence (next_entry H r tbl) = int (length tbl) + 1"
  using next_entry_chain [OF assms, of r]
  by (simp add: chain_ok_def chain_from_append)

text \<open>
  If the sequence read from the head is still free when the insert runs, nobody
  else has appended: on a chain, the sequences are exactly \<open>1..n\<close>.
\<close>

lemma chain_sequences: "chain_from H p s es \<Longrightarrow> map ae_sequence es = map (\<lambda>i. s + int i) [0..<length es]"
proof (induction es arbitrary: p s)
  case (Cons e es)
  then have "map ae_sequence es = map (\<lambda>i. (s + 1) + int i) [0..<length es]" by auto
  with Cons.prems show ?case
    by (simp add: upt_conv_Cons map_Suc_upt [symmetric] algebra_simps del: upt_Suc)
qed simp

lemma free_sequence_no_interference:
  assumes "chain_ok H tbl" and "chain_ok H (tbl @ w)"
    and "int (length tbl) + 1 \<notin> set (map ae_sequence (tbl @ w))"
  shows "w = []"
proof (rule ccontr)
  assume "w \<noteq> []"
  then have "length tbl \<in> set [0..<length (tbl @ w)]" by simp
  moreover have "map ae_sequence (tbl @ w) = map (\<lambda>i. 1 + int i) [0..<length (tbl @ w)]"
    using assms(2) chain_sequences by (auto simp: chain_ok_def simp del: map_append)
  ultimately have "1 + int (length tbl) \<in> set (map ae_sequence (tbl @ w))"
    by (metis (mono_tags, lifting) image_eqI list.set_map)
  with assms(3) show False by (simp add: add.commute)
qed

lemma insert_entry_cases:
  obtains (ok) "insert_entry e tbl = (Inr (ae_id e), tbl @ [e])" "ae_sequence e \<notin> set (map ae_sequence tbl)"
  | (seq) "insert_entry e tbl = (Inl (UniqueSequence (ae_sequence e)), tbl)"
      "ae_sequence e \<in> set (map ae_sequence tbl)"
  | (other) x where "insert_entry e tbl = (Inl x, tbl)" "\<forall>s. x \<noteq> UniqueSequence s"
proof -
  consider "ae_sequence e \<in> set (map ae_sequence tbl)"
    | "ae_sequence e \<notin> set (map ae_sequence tbl)" "ae_id e \<in> set (map ae_id tbl)"
    | "ae_sequence e \<notin> set (map ae_sequence tbl)" "ae_id e \<notin> set (map ae_id tbl)"
      "ae_entry_hash e \<in> set (map ae_entry_hash tbl)"
    | "ae_sequence e \<notin> set (map ae_sequence tbl)" "ae_id e \<notin> set (map ae_id tbl)"
      "ae_entry_hash e \<notin> set (map ae_entry_hash tbl)"
    by blast
  then show thesis by cases (use ok seq other in \<open>simp_all add: insert_entry_def\<close>)
qed

text \<open>
  The interference an attempt may see: whatever was appended, the table is still
  a chain (the other writers run the same code).
\<close>

definition chain_writers :: "hash \<Rightarrow> audit_table \<Rightarrow> audit_table list \<Rightarrow> bool" where
  "chain_writers H tbl ws \<longleftrightarrow> (\<forall>k \<le> length ws. chain_ok H (tbl @ concat (take k ws)))"

lemma chain_writers_now: "chain_writers H tbl ws \<Longrightarrow> chain_ok H tbl"
  by (auto simp: chain_writers_def dest: spec [of _ 0])

lemma chain_writers_first: "chain_writers H tbl ws \<Longrightarrow> chain_ok H (tbl @ concat (take 1 ws))"
  by (cases ws) (auto simp: chain_writers_def dest: spec [of _ 1])

lemma chain_writers_tl:
  assumes "chain_writers H tbl ws"
  shows "chain_writers H (tbl @ concat (take 1 ws)) (tl ws)"
proof (cases ws)
  case Nil
  with assms show ?thesis by (simp add: chain_writers_def)
next
  case (Cons w ws')
  show ?thesis
    unfolding chain_writers_def
  proof (intro allI impI)
    fix k assume "k \<le> length (tl ws)"
    with Cons have "Suc k \<le> length ws" by simp
    with assms have "chain_ok H (tbl @ concat (take (Suc k) ws))" by (simp add: chain_writers_def)
    then show "chain_ok H ((tbl @ concat (take 1 ws)) @ concat (take k (tl ws)))"
      using Cons by simp
  qed
qed

lemma log_attempts_chain:
  assumes "chain_writers H tbl ws" and "log_attempts H n r ws tbl = (res, tbl')"
  shows "chain_ok H tbl' \<and>
    (case res of
       Inr i \<Rightarrow> i = ar_uuid r \<and> (\<exists>pre. prefix tbl pre \<and> chain_ok H pre \<and> tbl' = pre @ [next_entry H r pre])
     | Inl x \<Rightarrow> prefix tbl tbl')"
  using assms
proof (induction n arbitrary: tbl ws)
  case 0
  have now: "chain_ok H tbl" and first: "chain_ok H (tbl @ concat (take 1 ws))"
    using 0 chain_writers_now chain_writers_first by blast+
  show ?case
  proof (cases rule: insert_entry_cases [of "next_entry H r tbl" "tbl @ concat (take 1 ws)"])
    case ok
    then have "concat (take 1 ws) = []"
      using free_sequence_no_interference [OF now first] next_entry_sequence [OF now, of r] by metis
    with 0 ok now show ?thesis by (auto intro: next_entry_chain simp del: concat_eq_Nil_conv)
  qed (use 0 first in auto)
next
  case (Suc n)
  have now: "chain_ok H tbl" and first: "chain_ok H (tbl @ concat (take 1 ws))"
    using Suc.prems chain_writers_now chain_writers_first by blast+
  show ?case
  proof (cases rule: insert_entry_cases [of "next_entry H r tbl" "tbl @ concat (take 1 ws)"])
    case ok
    then have "concat (take 1 ws) = []"
      using free_sequence_no_interference [OF now first] next_entry_sequence [OF now, of r] by metis
    with Suc.prems ok now show ?thesis by (auto intro: next_entry_chain simp del: concat_eq_Nil_conv)
  next
    case seq
    with Suc.prems have "log_attempts H n r (tl ws) (tbl @ concat (take 1 ws)) = (res, tbl')" by simp
    from Suc.IH [OF chain_writers_tl [OF Suc.prems(1)] this] show ?thesis
      by (auto split: sum.splits intro: append_prefixD)
  next
    case (other x)
    with Suc.prems first show ?thesis by (cases x) auto
  qed
qed

text \<open>With no other writer and a fresh identifier the entry is appended at once.\<close>

lemma log_action_alone:
  assumes "chain_ok H tbl" and "ar_uuid r \<notin> set (map ae_id tbl)"
    and "ae_entry_hash (next_entry H r tbl) \<notin> set (map ae_entry_hash tbl)"
  shows "log_action H r [] tbl = (Inr (ar_uuid r), tbl @ [next_entry H r tbl])"
proof -
  have "ae_sequence (next_entry H r tbl) \<notin> set (map ae_sequence tbl)"
    using next_entry_sequence [OF assms(1), of r] chain_from_sequence_le [of H GENESIS_HASH 1 tbl] assms(1)
    by (fastforce simp: chain_ok_def)
  with assms(2,3) show ?thesis
    by (simp add: log_action_def eval_nat_numeral insert_entry_def)
qed

section \<open>Verification agrees with the invariant\<close>

fun linked :: "hash \<Rightarrow> string \<Rightarrow> audit_table \<Rightarrow> bool" where
  "linked H p [] = True"
| "linked H p (e # es) =
     (ae_previous_hash e = p \<and> hash_of H e = ae_entry_hash e \<and> linked H (ae_entry_hash e) es)"

lemma chain_from_linked: "chain_from H p s es \<Longrightarrow> linked H p es"
  by (induction es arbitrary: p s) auto

lemma verify_rows_valid: "cr_valid (verify_rows H p n es) \<longleftrightarrow> linked H p es"
  by (induction es arbitrary: p n) auto

lemma verify_rows_total: "cr_valid (verify_rows H p n es) \<Longrightarrow> cr_total_entries (verify_rows H p n es) = n + length es"
  by (induction es arbitrary: p n) (auto split: if_splits)

lemma linked_append: "linked H p (xs @ ys) \<longleftrightarrow> linked H p xs \<and> linked H (last_hash p xs) ys"
  by (induction xs arbitrary: p) auto

text \<open>
  The hashed text determines the fields it was made of, as long as the fields
  before the details hold no separator. The details are last, so they may hold
  it, as a JSON string does.
\<close>

definition no_bar :: "string \<Rightarrow> bool" where
  "no_bar s \<longleftrightarrow> CHR ''|'' \<notin> set s"

lemma no_bar_int_str [simp]: "no_bar (int_str i)"
  using int_str_chars [of "CHR ''|''" i] by (auto simp: no_bar_def is_digit_def)

lemma no_bar_fixed_str [simp]: "no_bar (fixed_str k x)"
  using fixed_str_chars [of "CHR ''|''" k x] by (auto simp: no_bar_def is_digit_def)

lemma no_bar_genesis [simp]: "no_bar GENESIS_HASH"
  by (simp add: no_bar_def GENESIS_HASH_def)

lemma split_entry_raw:
  assumes "no_bar p" and "no_bar a" and "no_bar u" and "no_bar (case n of None \<Rightarrow> [] | Some x \<Rightarrow> x)"
  shows "split_on (CHR ''|'') (entry_raw p q t a u n d) =
    [p, int_str q, fixed_str 6 t, a, u, (case n of None \<Rightarrow> [] | Some x \<Rightarrow> x)] @ split_on (CHR ''|'') d"
  using assms no_bar_int_str [of q] no_bar_fixed_str [of 6 t]
  by (simp add: entry_raw_def no_bar_def split_on_append_sep)

lemma entry_raw_previous:
  assumes "no_bar p" and "no_bar p'" and "entry_raw p q t a u n d = entry_raw p' q' t' a' u' n' d'"
  shows "p = p'"
proof -
  have "hd (split_on (CHR ''|'') (entry_raw p q t a u n d)) = p" if "no_bar p" for p q t a u n d
    using that by (simp add: entry_raw_def no_bar_def split_on_append_sep)
  with assms show ?thesis by metis
qed

text \<open>
  Two linked lists with the same last hash agree in everything that is hashed, or
  they exhibit two different texts with the same hash. A digest is hexadecimal,
  so it holds no separator.
\<close>

definition hash_clash :: "hash \<Rightarrow> audit_table \<Rightarrow> audit_table \<Rightarrow> bool" where
  "hash_clash H es fs \<longleftrightarrow>
     (\<exists>i < length es. i < length fs \<and> raw_of (es ! i) \<noteq> raw_of (fs ! i) \<and>
        H (raw_of (es ! i)) = H (raw_of (fs ! i)))"

lemma hash_clash_snoc: "hash_clash H es fs \<Longrightarrow> hash_clash H (es @ [e]) (fs @ [f])"
  by (fastforce simp: hash_clash_def nth_append)

lemma hash_clash_last:
  assumes "length es = length fs" and "raw_of e \<noteq> raw_of f" and "H (raw_of e) = H (raw_of f)"
  shows "hash_clash H (es @ [e]) (fs @ [f])"
  unfolding hash_clash_def using assms by (intro exI [of _ "length es"]) (simp add: nth_append)

definition hex_digest :: "hash \<Rightarrow> bool" where
  "hex_digest H \<longleftrightarrow> (\<forall>x. set (H x) \<subseteq> set ''0123456789abcdef'')"

lemma hex_digest_no_bar: "hex_digest H \<Longrightarrow> no_bar (H x)"
  by (auto simp: hex_digest_def no_bar_def dest: spec [of _ x])

lemma linked_last_no_bar: "hex_digest H \<Longrightarrow> no_bar p \<Longrightarrow> linked H p es \<Longrightarrow> no_bar (last_hash p es)"
proof (induction es arbitrary: p)
  case (Cons e es)
  then have "no_bar (ae_entry_hash e)" by (metis hash_of_raw hex_digest_no_bar linked.simps(2))
  with Cons show ?case by simp
qed simp

lemma linked_same_head:
  assumes "hex_digest H" and "no_bar p" and "no_bar p'"
    and "linked H p es" and "linked H p' fs" and "length es = length fs"
    and "last_hash p es = last_hash p' fs"
  shows "map raw_of es = map raw_of fs \<and> map ae_entry_hash es = map ae_entry_hash fs \<or> hash_clash H es fs"
  using assms(4-7)
proof (induction es arbitrary: fs rule: rev_induct)
  case (snoc e es)
  then obtain f gs where fs: "fs = gs @ [f]" "length es = length gs"
    by (cases fs rule: rev_cases) auto
  from snoc.prems fs have h: "ae_entry_hash e = ae_entry_hash f"
    and he: "H (raw_of e) = ae_entry_hash e" "H (raw_of f) = ae_entry_hash f"
    and q: "ae_previous_hash e = last_hash p es" "ae_previous_hash f = last_hash p' gs"
    and l: "linked H p es" "linked H p' gs"
    by (auto simp: linked_append last_hash_def hash_of_raw)
  show ?case
  proof (cases "raw_of e = raw_of f")
    case True
    then have "last_hash p es = last_hash p' gs"
      using linked_last_no_bar [OF assms(1)] assms(2,3) l q by (metis entry_raw_previous raw_of_def)
    with snoc.IH [OF l fs(2)] True h fs show ?thesis by (auto intro: hash_clash_snoc)
  next
    case False
    with h he fs show ?thesis by (auto intro: hash_clash_last)
  qed
qed simp

section \<open>The contract for the components that log\<close>

text \<open>
  What the handlers rely on: logging keeps a valid trail valid and never drops
  or rewrites an entry. Any run of a handler that only touches the trail through
  \<open>log\<close> therefore extends a valid trail to a valid one.
\<close>

locale audit_trail =
  fixes valid :: "'t \<Rightarrow> bool"
    and entries :: "'t \<Rightarrow> 'e list"
    and log :: "'r \<Rightarrow> 't \<Rightarrow> 't"
  assumes log_valid: "valid t \<Longrightarrow> valid (log r t)"
    and log_extends: "valid t \<Longrightarrow> prefix (entries t) (entries (log r t))"
begin

lemma logs_valid: "valid t \<Longrightarrow> valid (fold log rs t)"
  by (induction rs arbitrary: t) (simp_all add: log_valid)

lemma logs_extend: "valid t \<Longrightarrow> prefix (entries t) (entries (fold log rs t))"
  by (induction rs arbitrary: t) (auto intro: log_valid log_extends prefix_order.trans)

end

definition log_alone :: "hash \<Rightarrow> audit_request \<Rightarrow> audit_table \<Rightarrow> audit_table" where
  \<comment> \<open>the table after \<open>log_action\<close> with no other writer\<close>
  "log_alone H r tbl = snd (log_action H r [] tbl)"

lemma chain_writers_Nil [simp]: "chain_writers H tbl [] \<longleftrightarrow> chain_ok H tbl"
  by (simp add: chain_writers_def)

interpretation trail: audit_trail "chain_ok H" "\<lambda>t. t" "log_alone H" for H
proof unfold_locales
  fix t r
  assume ok: "chain_ok H t"
  obtain res t' where l: "log_attempts H 4 r [] t = (res, t')" by fastforce
  from ok log_attempts_chain [OF _ l] show "chain_ok H (log_alone H r t)"
    by (simp add: log_alone_def log_action_def l)
  from ok log_attempts_chain [OF _ l] show "prefix t (log_alone H r t)"
    by (auto simp: log_alone_def log_action_def l split: sum.splits intro: prefix_order.trans)
qed

section \<open>Properties\<close>


definition example_request :: "string \<Rightarrow> audit_request" where
  "example_request i =
     \<lparr>ar_user_id = ''admin'', ar_action = ''USER_LOGIN'', ar_node_id = None,
      ar_details = JObj [(''ip'', JStr ''10.0.0.1'')], ar_now = 5 / 2, ar_uuid = i\<rparr>"

definition toy_hash :: hash where
  "toy_hash x = nat_str (length x)"


text \<open>
  Completeness of verification: on a chain, \<open>verify_chain\<close> reports valid, over
  the whole table and over every suffix \<open>max_entries\<close> selects, and counts the
  entries it walked.
\<close>

theorem verify_chain_accepts_chain:
  assumes "chain_ok H tbl"
  shows "cr_valid (verify_chain H m tbl) \<and>
    cr_total_entries (verify_chain H m tbl) = length (rows_to_verify m tbl)"
proof -
  have s: "sort_key ae_sequence tbl = tbl" using assms by (simp add: chain_ok_def)
  define k where "k = (case m of None \<Rightarrow> 0 | Some n \<Rightarrow> if n < 0 then 0 else length tbl - nat n)"
  have rows: "rows_to_verify m tbl = drop k tbl"
    by (auto simp: rows_to_verify_def s k_def sql_limit_def take_rev split: option.splits)
  have l: "chain_from H (last_hash GENESIS_HASH (take k tbl)) (1 + int (length (take k tbl))) (drop k tbl)"
    using assms chain_from_append [of H GENESIS_HASH 1 "take k tbl" "drop k tbl"]
    by (simp add: chain_ok_def)
  show ?thesis
  proof (cases "drop k tbl")
    case Nil
    then show ?thesis by (simp add: verify_chain_def rows)
  next
    case (Cons e es)
    let ?p = "if ae_sequence e = 1 then GENESIS_HASH else ae_previous_hash e"
    have "linked H (last_hash GENESIS_HASH (take k tbl)) (e # es)"
      using chain_from_linked [OF l] Cons by simp
    moreover have "last_hash GENESIS_HASH (take k tbl) = ?p"
      using l Cons by (auto simp: last_hash_def)
    ultimately have "cr_valid (verify_rows H ?p 0 (e # es))" by (simp only: verify_rows_valid)
    then show ?thesis
      using Cons verify_rows_total [of H ?p 0 "e # es"]
      by (simp add: verify_chain_def rows)
  qed
qed

theorem verify_chain_accepts_chain_witness:
  "cr_valid (verify_chain toy_hash (Some 1) [next_entry toy_hash (example_request ''e1'') []])"
  using verify_chain_accepts_chain [of toy_hash "[next_entry toy_hash (example_request ''e1'') []]" "Some 1"]
    next_entry_chain [of toy_hash "[]" "example_request ''e1''"]
  by (simp add: chain_ok_def)

lemma verify_all_linked:
  assumes "cr_valid (verify_chain H None tbl)" and "rows_to_verify None tbl = e # es" and "ae_sequence e = 1"
  shows "linked H GENESIS_HASH (e # es)"
  using assms by (simp add: verify_chain_def verify_rows_valid del: verify_rows.simps linked.simps)


lemma nat_str_hex: "set (nat_str n) \<subseteq> set ''0123456789''"
proof
  fix c assume "c \<in> set (nat_str n)"
  then have "48 \<le> (of_char c :: nat)" "(of_char c :: nat) \<le> 57"
    using nat_str_digits by (auto simp: is_digit_def Let_def)
  then have "(of_char c :: nat) \<in> {48, 49, 50, 51, 52, 53, 54, 55, 56, 57}" by (simp, arith)
  then show "c \<in> set ''0123456789''" by (auto simp: char_eq_code)
qed

lemma toy_hash_hex: "hex_digest toy_hash"
  using nat_str_hex by (fastforce simp: hex_digest_def toy_hash_def)


text \<open>
  What the hashed text pins down: with no separator in the hashes, actions,
  users and nodes, two entries with the same text have the same sequence,
  action, user, details and (an absent node counting as the empty one) node, and
  timestamps that print alike at six decimals. The details may hold separators.
\<close>

theorem entry_raw_determines_fields:
  assumes "no_bar p" and "no_bar a" and "no_bar u" and "no_bar (case n of None \<Rightarrow> [] | Some x \<Rightarrow> x)"
    and "no_bar p'" and "no_bar a'" and "no_bar u'" and "no_bar (case n' of None \<Rightarrow> [] | Some x \<Rightarrow> x)"
    and "entry_raw p q t a u n d = entry_raw p' q' t' a' u' n' d'"
  shows "p = p' \<and> q = q' \<and> fixed_str 6 t = fixed_str 6 t' \<and> a = a' \<and> u = u' \<and> d = d' \<and>
    (case n of None \<Rightarrow> [] | Some x \<Rightarrow> x) = (case n' of None \<Rightarrow> [] | Some x \<Rightarrow> x)"
proof -
  have eq: "[p, int_str q, fixed_str 6 t, a, u, (case n of None \<Rightarrow> [] | Some x \<Rightarrow> x)] @ split_on (CHR ''|'') d =
      [p', int_str q', fixed_str 6 t', a', u', (case n' of None \<Rightarrow> [] | Some x \<Rightarrow> x)] @ split_on (CHR ''|'') d'"
    using split_entry_raw [OF assms(1-4), of q t d] split_entry_raw [OF assms(5-8), of q' t' d'] assms(9)
    by metis
  then have "split_on (CHR ''|'') d = split_on (CHR ''|'') d'" by simp
  then have "d = d'" by (metis join_split)
  with eq show ?thesis by (auto dest: int_str_inj)
qed

theorem entry_raw_determines_fields_witness:
  "entry_raw ''0'' 1 2 ''A'' ''u'' None ''x|y'' = entry_raw ''0'' 1 2 ''A'' ''u'' None ''x|y'' \<and> (1::int) = 1"
  using entry_raw_determines_fields [of "''0''" "''A''" "''u''" None "''0''" "''A''" "''u''" None 1 2 "''x|y''" 1 2 "''x|y''"]
  by (simp add: no_bar_def)

lemma sublist_linked: "chain_ok H (xs @ ys @ zs) \<Longrightarrow> chain_from H (last_hash GENESIS_HASH xs) (1 + int (length xs)) ys"
  by (simp add: chain_ok_def chain_from_append)

text \<open>
  Deletion at either end is not detected. Removing any number of the oldest
  entries and any number of the newest entries of a chain leaves a table that
  \<open>verify_chain\<close> reports as valid: when the first remaining sequence is not 1, the
  walk starts from the hash that entry itself claims.
\<close>

theorem deletion_at_the_ends_undetected:
  assumes "chain_ok H (xs @ ys @ zs)"
  shows "cr_valid (verify_chain H None ys)"
proof -
  have c: "chain_from H (last_hash GENESIS_HASH xs) (1 + int (length xs)) ys"
    by (rule sublist_linked [OF assms])
  then have s: "sort_key ae_sequence ys = ys" by simp
  show ?thesis
  proof (cases ys)
    case Nil
    then show ?thesis by (simp add: verify_chain_def rows_to_verify_def)
  next
    case (Cons e es)
    have "(if ae_sequence e = 1 then GENESIS_HASH else ae_previous_hash e) = last_hash GENESIS_HASH xs"
      using c Cons by (cases xs) auto
    then show ?thesis
      using chain_from_linked [OF c] Cons s
      by (simp add: verify_chain_def rows_to_verify_def verify_rows_valid del: verify_rows.simps linked.simps)
  qed
qed

theorem deletion_at_the_ends_undetected_witness:
  "let a = next_entry toy_hash (example_request ''e1'') [];
       b = next_entry toy_hash (example_request ''e2'') [a]
   in cr_valid (verify_chain toy_hash None [b])"
proof -
  let ?a = "next_entry toy_hash (example_request ''e1'') []"
  let ?b = "next_entry toy_hash (example_request ''e2'') [?a]"
  have "chain_ok toy_hash [?a]" using next_entry_chain [of toy_hash "[]"] by (simp add: chain_ok_def)
  then have "chain_ok toy_hash ([?a] @ [?b] @ [])" using next_entry_chain [of toy_hash "[?a]"] by simp
  then show ?thesis unfolding Let_def by (rule deletion_at_the_ends_undetected)
qed

end
