(* ===== verification/Proposal_Dispatcher.thy ===== *)
theory Proposal_Dispatcher
  imports Action_Proposal Audit_Chain
begin

text \<open>
  The dispatcher of approved proposals
  (\<open>src/master/core/proposal_dispatcher.py\<close>). Each database transaction of the
  code is one function on the table, so that the same functions compose into the
  handlers here and into the interleaved steps of the concurrency theory. The
  reply of the worker is an argument: it is what the awaited
  \<open>node_manager._send_intent\<close> returned or raised.
\<close>

section \<open>State and inputs\<close>

record master_db =
  proposals :: proposal_table
  audit :: audit_table

datatype dispatch_error =
    ProposalNotFound string
  | ProposalNotApproved string proposal_status
  | AlreadyDispatched string "string option"
  | BadRow proposal_error
  | AuditFailed audit_error
  | SendRaised string

record intent =
  it_node_id :: string
  it_action :: string
  it_params :: "(string, json) dict"
  it_intent_id :: string

datatype send_outcome =
    Replied "(string, json) dict"
  | SendRuntimeError string
  | SendTimeoutError string
  | SendOther string

text \<open>The identifiers and clock readings one dispatch consumes.\<close>

record dispatch_io =
  io_dispatch_id :: string
  io_intent_id :: string
  io_claim_now :: time
  io_executed_now :: time
  io_updated_now :: time
  io_audit_now :: time
  io_audit_uuid :: string

section \<open>The steps of a dispatch\<close>

definition load_approved :: "string \<Rightarrow> proposal_table \<Rightarrow> dispatch_error + action_proposal" where
  "load_approved pid tbl =
     (case sql_fetchone (\<lambda>r. r_id r = pid) tbl of
        None \<Rightarrow> Inl (ProposalNotFound pid)
      | Some r \<Rightarrow>
          (case from_db_row r of
             Inl e \<Rightarrow> Inl (BadRow e)
           | Inr p \<Rightarrow>
               if p_status p \<noteq> APPROVED then Inl (ProposalNotApproved pid (p_status p)) else Inr p))"

definition claim_where :: "proposal_row \<Rightarrow> bool" where
  "claim_where r \<longleftrightarrow> r_dispatch_id r = None \<and> r_status r = APPROVED"

definition claim_set :: "string \<Rightarrow> string \<Rightarrow> time \<Rightarrow> proposal_row \<Rightarrow> proposal_row" where
  "claim_set did iid now r =
     r\<lparr>r_dispatch_id := Some did, r_intent_id := Some iid, r_expires_at := Some (now + 300),
       r_updated_at := now\<rparr>"

definition cas_claim ::
  "string \<Rightarrow> string \<Rightarrow> string \<Rightarrow> time \<Rightarrow> proposal_table \<Rightarrow> (dispatch_error + unit) \<times> proposal_table" where
  "cas_claim pid did iid now tbl =
     (if sql_rowcount (\<lambda>r. r_id r = pid \<and> claim_where r) tbl = 0 then
        ((case sql_fetchone (\<lambda>r. r_id r = pid) tbl of
            None \<Rightarrow> Inl (ProposalNotFound pid)
          | Some cur \<Rightarrow>
              if r_status cur \<noteq> APPROVED then Inl (ProposalNotApproved pid (r_status cur))
              else Inl (AlreadyDispatched pid (r_dispatch_id cur))), tbl)
      else (Inr (), sql_update (\<lambda>r. r_id r = pid \<and> claim_where r) (claim_set did iid now) tbl))"

definition intent_of :: "action_proposal \<Rightarrow> string \<Rightarrow> intent" where
  "intent_of p iid =
     \<lparr>it_node_id = p_node_id p, it_action = p_action p, it_params = p_params p, it_intent_id = iid\<rparr>"

definition get_success :: "(string, json) dict \<Rightarrow> json" where
  "get_success res = dict_get res ''success'' (JBool False)"

definition error_result :: "string \<Rightarrow> (string, json) dict" where
  "error_result msg = [(''success'', JBool False), (''error'', JStr msg)]"

text \<open>\<open>try: result = await ...; proposal.complete(...) except (RuntimeError, TimeoutError)\<close>.\<close>

definition complete_with ::
  "send_outcome \<Rightarrow> time \<Rightarrow> time \<Rightarrow> action_proposal \<Rightarrow>
     dispatch_error + (string, json) dict \<times> action_proposal" where
  "complete_with out t1 t2 p =
     (let fin = (\<lambda>ok res. case complete ok res t1 t2 p of
                   Inl e \<Rightarrow> Inl (BadRow e) | Inr q \<Rightarrow> Inr (res, q))
      in case out of
           Replied res \<Rightarrow> fin (json_truthy (get_success res)) res
         | SendRuntimeError msg \<Rightarrow> fin False (error_result msg)
         | SendTimeoutError msg \<Rightarrow> fin False (error_result msg)
         | SendOther msg \<Rightarrow> Inl (SendRaised msg))"

definition persist_set :: "proposal_row \<Rightarrow> proposal_row \<Rightarrow> proposal_row" where
  "persist_set data r =
     r\<lparr>r_status := r_status data, r_updated_at := r_updated_at data,
       r_executed_at := r_executed_at data, r_result_json := r_result_json data\<rparr>"

definition persist_result :: "string \<Rightarrow> proposal_row \<Rightarrow> proposal_table \<Rightarrow> proposal_table" where
  "persist_result pid data tbl = sql_update (\<lambda>r. r_id r = pid) (persist_set data) tbl"

definition or_system :: "string option \<Rightarrow> string" where
  \<comment> \<open>\<open>approved_by or "system"\<close>\<close>
  "or_system u = (case u of None \<Rightarrow> ''system'' | Some s \<Rightarrow> if s = [] then ''system'' else s)"

definition dispatch_audit ::
  "string \<Rightarrow> dispatch_io \<Rightarrow> action_proposal \<Rightarrow> (string, json) dict \<Rightarrow> audit_request" where
  "dispatch_audit pid io p res =
     \<lparr>ar_user_id = or_system (p_approved_by p),
      ar_action = audit_action_str AA_INTENT_DISPATCH,
      ar_node_id = Some (p_node_id p),
      ar_details = JObj
        [(''proposal_id'', JStr pid), (''dispatch_id'', JStr (io_dispatch_id io)),
         (''intent_id'', JStr (io_intent_id io)), (''action'', JStr (p_action p)),
         (''status'', JStr (proposal_status_str (p_status p))), (''success'', get_success res)],
      ar_now = io_audit_now io, ar_uuid = io_audit_uuid io\<rparr>"

section \<open>The handlers\<close>

text \<open>The result, the database afterwards, and the intents that were sent.\<close>

definition dispatch_approved ::
  "hash \<Rightarrow> dispatch_io \<Rightarrow> send_outcome \<Rightarrow> string \<Rightarrow> master_db \<Rightarrow>
     (dispatch_error + (string, json) dict) \<times> master_db \<times> intent list" where
  "dispatch_approved H io out pid db =
     (case load_approved pid (proposals db) of
        Inl e \<Rightarrow> (Inl e, db, [])
      | Inr p \<Rightarrow>
          (case cas_claim pid (io_dispatch_id io) (io_intent_id io) (io_claim_now io) (proposals db) of
             (Inl e, _) \<Rightarrow> (Inl e, db, [])
           | (Inr _, tbl1) \<Rightarrow>
               (let db1 = db\<lparr>proposals := tbl1\<rparr>; sent = [intent_of p (io_intent_id io)] in
                case complete_with out (io_executed_now io) (io_updated_now io) p of
                  Inl e \<Rightarrow> (Inl e, db1, sent)
                | Inr (res, q) \<Rightarrow>
                    (let db2 = db1\<lparr>proposals := persist_result pid (to_db_dict q) tbl1\<rparr>;
                         logged = log_action H (dispatch_audit pid io q res) [] (audit db2);
                         db3 = db2\<lparr>audit := snd logged\<rparr>
                     in case fst logged of
                          Inl e \<Rightarrow> (Inl (AuditFailed e), db3, sent)
                        | Inr _ \<Rightarrow> (Inr res, db3, sent)))))"

definition result_audit ::
  "string \<Rightarrow> string \<Rightarrow> string \<Rightarrow> string \<Rightarrow> string option \<Rightarrow> proposal_status \<Rightarrow> json \<Rightarrow> time \<Rightarrow> string \<Rightarrow> audit_request" where
  "result_audit pid iid did nid approved_by st ok now uuid =
     \<lparr>ar_user_id = or_system approved_by, ar_action = audit_action_str AA_INTENT_RESULT,
      ar_node_id = Some nid,
      ar_details = JObj
        [(''proposal_id'', JStr pid), (''intent_id'', JStr iid), (''dispatch_id'', JStr did),
         (''status'', JStr (proposal_status_str st)), (''success'', ok)],
      ar_now = now, ar_uuid = uuid\<rparr>"

definition resolve_intent_result ::
  "hash \<Rightarrow> string \<Rightarrow> string \<Rightarrow> string \<Rightarrow> (string, json) dict \<Rightarrow> time \<Rightarrow> time \<Rightarrow> string \<Rightarrow> master_db \<Rightarrow>
     (dispatch_error + unit) \<times> master_db" where
  "resolve_intent_result H iid did nid res now audit_now uuid db =
     (case sql_fetchone (\<lambda>r. r_intent_id r = Some iid \<and> r_dispatch_id r = Some did \<and>
             r_node_id r = nid \<and> r_status r = APPROVED) (proposals db) of
        None \<Rightarrow> (Inl (ProposalNotFound iid), db)
      | Some row \<Rightarrow>
          (let success = get_success res;
               st = (if json_truthy success then EXECUTED else FAILED);
               tbl' = sql_update (\<lambda>r. r_intent_id r = Some iid \<and> r_dispatch_id r = Some did)
                 (\<lambda>r. r\<lparr>r_status := st, r_updated_at := now, r_executed_at := Some now,
                        r_result_json := Some (json_dumps False (JObj res))\<rparr>) (proposals db);
               logged = log_action H
                 (result_audit (r_id row) iid did nid (r_approved_by row) st success audit_now uuid) [] (audit db);
               db' = db\<lparr>proposals := tbl', audit := snd logged\<rparr>
           in case fst logged of Inl e \<Rightarrow> (Inl (AuditFailed e), db') | Inr _ \<Rightarrow> (Inr (), db')))"

definition admin_proposal ::
  "string \<Rightarrow> string \<Rightarrow> string \<Rightarrow> (string, json) dict \<Rightarrow> string \<Rightarrow> string option \<Rightarrow> string \<Rightarrow> time \<Rightarrow> action_proposal" where
  "admin_proposal i nid action params user reasoning risk now =
     (new_proposal i nid action params now)
       \<lparr>p_reasoning := (case reasoning of
           None \<Rightarrow> ''Admin action: '' @ action
         | Some t \<Rightarrow> if t = [] then ''Admin action: '' @ action else t),
        p_risk_level := risk, p_created_by := user, p_status := APPROVED, p_approved_by := Some user\<rparr>"

definition dispatch_admin_action ::
  "hash \<Rightarrow> dispatch_io \<Rightarrow> send_outcome \<Rightarrow> string \<Rightarrow> string \<Rightarrow> string \<Rightarrow> (string, json) dict \<Rightarrow> string \<Rightarrow>
     string option \<Rightarrow> string \<Rightarrow> time \<Rightarrow> master_db \<Rightarrow>
     (dispatch_error + (string, json) dict) \<times> master_db \<times> intent list" where
  "dispatch_admin_action H io out i nid action params user reasoning risk now db =
     (let row = to_db_dict (admin_proposal i nid action params user reasoning risk now)
      in dispatch_approved H io out i (db\<lparr>proposals := proposals db @ [row]\<rparr>))"

section \<open>Lemmas on the steps\<close>

definition table_ok :: "proposal_table \<Rightarrow> bool" where
  \<comment> \<open>the primary key\<close>
  "table_ok tbl \<longleftrightarrow> distinct (map r_id tbl)"

definition row_of :: "string \<Rightarrow> proposal_table \<Rightarrow> proposal_row option" where
  "row_of pid tbl = sql_fetchone (\<lambda>r. r_id r = pid) tbl"

lemma claim_set_fields [simp]:
  "r_id (claim_set did iid now r) = r_id r" "r_status (claim_set did iid now r) = r_status r"
  "r_dispatch_id (claim_set did iid now r) = Some did" "r_node_id (claim_set did iid now r) = r_node_id r"
  "r_params_json (claim_set did iid now r) = r_params_json r" "r_action (claim_set did iid now r) = r_action r"
  "r_intent_id (claim_set did iid now r) = Some iid" "r_created_by (claim_set did iid now r) = r_created_by r"
  "r_approved_by (claim_set did iid now r) = r_approved_by r"
  by (simp_all add: claim_set_def)

lemma persist_set_fields [simp]:
  "r_id (persist_set d r) = r_id r" "r_status (persist_set d r) = r_status d"
  "r_dispatch_id (persist_set d r) = r_dispatch_id r" "r_intent_id (persist_set d r) = r_intent_id r"
  "r_created_by (persist_set d r) = r_created_by r" "r_approved_by (persist_set d r) = r_approved_by r"
  "r_action (persist_set d r) = r_action r"
  by (simp_all add: persist_set_def)

lemma claim_where_unclaimed [simp]: "claim_where r \<Longrightarrow> r_dispatch_id r = None"
  by (simp add: claim_where_def)

lemma row_of_append_new: "row_of i tbl = None \<Longrightarrow> r_id r = i \<Longrightarrow> row_of i (tbl @ [r]) = Some r"
  by (simp add: row_of_def sql_fetchone_append del: sql_fetchone_None_iff)

text \<open>Where the row is, the claim succeeds exactly when it is approved and unclaimed.\<close>

lemma cas_claim_row:
  assumes "table_ok tbl" and "row_of pid tbl = Some r"
  shows "cas_claim pid did iid now tbl =
    (if claim_where r then (Inr (), sql_update (\<lambda>x. r_id x = pid \<and> claim_where x) (claim_set did iid now) tbl)
     else if r_status r \<noteq> APPROVED then (Inl (ProposalNotApproved pid (r_status r)), tbl)
     else (Inl (AlreadyDispatched pid (r_dispatch_id r)), tbl))"
proof -
  from assms(2) have r: "r \<in> set tbl" "r_id r = pid" by (auto simp: row_of_def dest: sql_fetchone_SomeD)
  have "(\<exists>x \<in> set tbl. r_id x = pid \<and> claim_where x) \<longleftrightarrow> claim_where r"
    using assms r by (auto simp: table_ok_def distinct_map dest: inj_onD)
  with assms(2) show ?thesis by (auto simp: cas_claim_def row_of_def)
qed

lemma row_of_claim:
  "row_of pid' (sql_update (\<lambda>x. r_id x = pid \<and> claim_where x) (claim_set did iid now) tbl) =
     (if pid' = pid then map_option (\<lambda>r. if claim_where r then claim_set did iid now r else r) (row_of pid tbl)
      else row_of pid' tbl)"
  by (simp add: row_of_def sql_fetchone_update_key [where key = r_id]
      sql_fetchone_update_other_key [where key = r_id])

lemma row_of_persist:
  "row_of pid' (persist_result pid data tbl) =
     (if pid' = pid then map_option (persist_set data) (row_of pid tbl) else row_of pid' tbl)"
  by (simp add: row_of_def persist_result_def sql_fetchone_update_key_all [where key = r_id]
      sql_fetchone_update_other_key_all [where key = r_id])

lemma load_approved_Inr:
  assumes "load_approved pid tbl = Inr p"
  shows "\<exists>r. row_of pid tbl = Some r \<and> from_db_row r = Inr p \<and> r_status r = APPROVED"
    and "p_status p = APPROVED" and "p_id p = pid"
  using assms
  by (auto simp: load_approved_def row_of_def from_db_row_fields dest: sql_fetchone_SomeD
      split: option.splits sum.splits if_splits)

lemma complete_with_Inr:
  assumes "complete_with out t1 t2 p = Inr (res, q)"
  shows "p_status q = (if json_truthy (get_success res) then EXECUTED else FAILED)"
    and "p_id q = p_id p" and "p_approved_by q = p_approved_by p" and "p_node_id q = p_node_id p"
    and "p_action q = p_action p" and "p_result q = Some res" and "p_executed_at q = Some t1"
  using assms
  by (auto simp: complete_with_def complete_def Let_def error_result_def get_success_def
      split: send_outcome.splits sum.splits if_splits)

text \<open>
  The four ways a dispatch can end: refused before anything happened, sent with
  an exception that is not caught, sent with a result that could not be audited,
  or sent and audited.
\<close>

definition dispatchable :: "string \<Rightarrow> proposal_table \<Rightarrow> action_proposal \<Rightarrow> bool" where
  "dispatchable pid tbl p \<longleftrightarrow>
     (\<exists>r. row_of pid tbl = Some r \<and> r_status r = APPROVED \<and> r_dispatch_id r = None \<and> from_db_row r = Inr p)"

lemma dispatch_approved_cases [consumes 1, case_names refused raised finished]:
  assumes "table_ok (proposals db)"
  obtains (refused) e where "dispatch_approved H io out pid db = (Inl e, db, [])"
      "\<forall>p. \<not> dispatchable pid (proposals db) p"
  | (raised) p e where "dispatchable pid (proposals db) p"
      "complete_with out (io_executed_now io) (io_updated_now io) p = Inl e"
      "dispatch_approved H io out pid db = (Inl e, db\<lparr>proposals :=
         sql_update (\<lambda>x. r_id x = pid \<and> claim_where x) (claim_set (io_dispatch_id io) (io_intent_id io) (io_claim_now io))
           (proposals db)\<rparr>, [intent_of p (io_intent_id io)])"
  | (finished) p q res where "dispatchable pid (proposals db) p"
      "complete_with out (io_executed_now io) (io_updated_now io) p = Inr (res, q)"
      "fst (snd (dispatch_approved H io out pid db)) = db\<lparr>proposals := persist_result pid (to_db_dict q)
         (sql_update (\<lambda>x. r_id x = pid \<and> claim_where x) (claim_set (io_dispatch_id io) (io_intent_id io) (io_claim_now io))
           (proposals db)), audit := log_alone H (dispatch_audit pid io q res) (audit db)\<rparr>"
      "snd (snd (dispatch_approved H io out pid db)) = [intent_of p (io_intent_id io)]"
      "fst (dispatch_approved H io out pid db) =
         (case fst (log_action H (dispatch_audit pid io q res) [] (audit db)) of
            Inl e \<Rightarrow> Inl (AuditFailed e) | Inr _ \<Rightarrow> Inr res)"
proof (cases "load_approved pid (proposals db)")
  case (Inl e)
  then have "\<forall>p. \<not> dispatchable pid (proposals db) p"
    by (auto simp: load_approved_def dispatchable_def row_of_def from_db_row_fields)
  with Inl show thesis by (intro refused) (simp_all add: dispatch_approved_def)
next
  case (Inr p)
  then obtain r where r: "row_of pid (proposals db) = Some r" "from_db_row r = Inr p" "r_status r = APPROVED"
    using load_approved_Inr(1) by blast
  show thesis
  proof (cases "claim_where r")
    case False
    then have "\<forall>p. \<not> dispatchable pid (proposals db) p"
      using r by (auto simp: dispatchable_def claim_where_def)
    with False Inr r cas_claim_row [OF assms r(1)] show thesis
      by (intro refused) (auto simp: dispatch_approved_def)
  next
    case True
    then have d: "dispatchable pid (proposals db) p"
      using r by (auto simp: dispatchable_def claim_where_def)
    show thesis
    proof (cases "complete_with out (io_executed_now io) (io_updated_now io) p")
      case (Inl e)
      with d True \<open>load_approved pid (proposals db) = Inr p\<close> cas_claim_row [OF assms r(1)] show thesis
        by (intro raised) (auto simp: dispatch_approved_def)
    next
      case (Inr rq)
      then obtain res q where rq: "complete_with out (io_executed_now io) (io_updated_now io) p = Inr (res, q)"
        by (cases rq) auto
      with d True \<open>load_approved pid (proposals db) = Inr p\<close> cas_claim_row [OF assms r(1)] show thesis
        by (intro finished [OF d rq])
          (auto simp: dispatch_approved_def Let_def log_alone_def split: sum.splits)
    qed
  qed
qed

lemma dispatchable_row:
  assumes "dispatchable pid tbl p"
  obtains r where "row_of pid tbl = Some r" "claim_where r" "r_status r = APPROVED" "from_db_row r = Inr p"
  using assms by (auto simp: dispatchable_def claim_where_def)

lemma dispatch_refused:
  assumes "table_ok (proposals db)" and "\<forall>p. \<not> dispatchable pid (proposals db) p"
  shows "\<exists>e. dispatch_approved H io out pid db = (Inl e, db, [])"
  using assms(1)
  by (cases rule: dispatch_approved_cases [where H = H and io = io and out = out and pid = pid])
    (use assms(2) in auto)

lemma dispatchable_unique: "dispatchable pid tbl p \<Longrightarrow> dispatchable pid tbl q \<Longrightarrow> p = q"
  by (auto simp: dispatchable_def)

lemma dispatch_sent:
  assumes "table_ok (proposals db)" and "dispatchable pid (proposals db) p"
  shows "snd (snd (dispatch_approved H io out pid db)) = [intent_of p (io_intent_id io)]"
  using assms(1)
  by (cases rule: dispatch_approved_cases [where H = H and io = io and out = out and pid = pid])
    (use assms(2) in \<open>auto dest: dispatchable_unique\<close>)

section \<open>Properties\<close>

text \<open>
  C5. Zero bypass. A dispatch sends an intent exactly when the stored proposal
  is approved and unclaimed, and then it is one intent with the stored node,
  action and parameters; otherwise it raises, sends nothing and changes nothing.
\<close>

theorem dispatch_only_approved:
  assumes "table_ok (proposals db)" and "dispatch_approved H io out pid db = (res, db', sent)"
  shows "(sent \<noteq> [] \<longleftrightarrow> (\<exists>p. dispatchable pid (proposals db) p)) \<and>
    (\<forall>p. dispatchable pid (proposals db) p \<longrightarrow> sent = [intent_of p (io_intent_id io)]) \<and>
    (sent = [] \<longrightarrow> db' = db \<and> (\<exists>e. res = Inl e))"
using assms(1)
proof (cases rule: dispatch_approved_cases [where H = H and io = io and out = out and pid = pid])
  case (refused e)
  with assms(2) show ?thesis by auto
next
  case (raised p e)
  with assms(2) show ?thesis by (auto dest: dispatchable_unique)
next
  case (finished p q r)
  with assms(2) show ?thesis by (auto dest: dispatchable_unique)
qed

definition sample_row :: proposal_row where
  "sample_row = to_db_dict (sample_proposal\<lparr>p_status := APPROVED, p_approved_by := Some ''op''\<rparr>)"

definition sample_db :: master_db where
  "sample_db = \<lparr>proposals = [sample_row], audit = []\<rparr>"

definition sample_io :: dispatch_io where
  "sample_io = \<lparr>io_dispatch_id = ''d1'', io_intent_id = ''i1'', io_claim_now = 200, io_executed_now = 201,
     io_updated_now = 202, io_audit_now = 203, io_audit_uuid = ''a1''\<rparr>"

lemma sample_dispatchable:
  "dispatchable ''p1'' (proposals sample_db) (sample_proposal\<lparr>p_status := APPROVED, p_approved_by := Some ''op''\<rparr>)"
  using from_to_db_row [of "sample_proposal\<lparr>p_status := APPROVED, p_approved_by := Some ''op''\<rparr>"]
  by (simp add: dispatchable_def sample_db_def sample_row_def row_of_def sample_proposal_def new_proposal_def)

lemma sample_table_ok: "table_ok (proposals sample_db)"
  by (simp add: table_ok_def sample_db_def)

theorem dispatch_only_approved_witness:
  "snd (snd (dispatch_approved toy_hash sample_io (Replied [(''success'', JBool True)]) ''p1'' sample_db)) =
     [intent_of (sample_proposal\<lparr>p_status := APPROVED, p_approved_by := Some ''op''\<rparr>) ''i1'']"
  using dispatch_only_approved [OF sample_table_ok, of toy_hash sample_io "Replied [(''success'', JBool True)]" "''p1''"
      "fst (dispatch_approved toy_hash sample_io (Replied [(''success'', JBool True)]) ''p1'' sample_db)"
      "fst (snd (dispatch_approved toy_hash sample_io (Replied [(''success'', JBool True)]) ''p1'' sample_db))"
      "snd (snd (dispatch_approved toy_hash sample_io (Replied [(''success'', JBool True)]) ''p1'' sample_db))"]
    sample_dispatchable
  by (simp add: sample_io_def)

text \<open>
  At most once. After a dispatch that sent an intent, however it ended, the
  proposal is claimed for good: dispatching it again raises, sends nothing and
  leaves the database as it is.
\<close>

theorem dispatch_at_most_once:
  assumes "table_ok (proposals db)" and "dispatch_approved H io out pid db = (res, db', sent)" and "sent \<noteq> []"
  shows "\<exists>e. dispatch_approved H io' out' pid db' = (Inl e, db', [])"
proof -
  let ?c = "sql_update (\<lambda>x. r_id x = pid \<and> claim_where x) (claim_set (io_dispatch_id io) (io_intent_id io) (io_claim_now io))
           (proposals db)"
  have c: "table_ok ?c" using assms(1) by (simp add: table_ok_def map_sql_update_key)
  have claimed: "\<exists>r'. row_of pid ?c = Some r' \<and> r_dispatch_id r' \<noteq> None" if "dispatchable pid (proposals db) p" for p
  proof -
    from that obtain r where "row_of pid (proposals db) = Some r" "claim_where r"
      by (auto simp: dispatchable_def claim_where_def)
    then show ?thesis by (simp add: row_of_claim)
  qed
  obtain tbl where t: "proposals db' = tbl" "table_ok tbl" "\<forall>p. \<not> dispatchable pid tbl p"
    using assms(1)
proof (cases rule: dispatch_approved_cases [where H = H and io = io and out = out and pid = pid])
    case (refused e)
    with assms(2,3) show thesis by simp
  next
    case (raised p e)
    then have "proposals db' = ?c" using assms(2) by simp
    with that c claimed [OF raised(1)] show thesis by (auto simp: dispatchable_def)
  next
    case (finished p q r)
    then have "proposals db' = persist_result pid (to_db_dict q) ?c" using assms(2) by simp
    moreover have "table_ok (persist_result pid (to_db_dict q) ?c)"
      using c by (simp add: table_ok_def persist_result_def map_sql_update_key)
    ultimately show thesis
      using that claimed [OF finished(1)] by (auto simp: dispatchable_def row_of_persist)
  qed
  then show ?thesis by (intro dispatch_refused) auto
qed

theorem dispatch_at_most_once_witness:
  "let d = dispatch_approved toy_hash sample_io (SendTimeoutError ''no reply'') ''p1'' sample_db in
   snd (snd d) \<noteq> [] \<and>
   (\<exists>e. dispatch_approved toy_hash sample_io (Replied []) ''p1'' (fst (snd d)) = (Inl e, fst (snd d), []))"
proof -
  let ?d = "dispatch_approved toy_hash sample_io (SendTimeoutError ''no reply'') ''p1'' sample_db"
  have s: "snd (snd ?d) \<noteq> []"
    by (cases rule: dispatch_approved_cases [OF sample_table_ok, of toy_hash sample_io "SendTimeoutError ''no reply''" "''p1''"])
      (use sample_dispatchable in auto)
  with dispatch_at_most_once [OF sample_table_ok, of toy_hash sample_io "SendTimeoutError ''no reply''" "''p1''"
      "fst ?d" "fst (snd ?d)" "snd (snd ?d)" sample_io "Replied []"]
  show ?thesis by (simp add: Let_def)
qed



text \<open>
  An exception other than the two that are caught leaves the proposal
  APPROVED and claimed: the intent went out, no audit entry is written, and by
  C14 no later dispatch can move the proposal on.
\<close>

theorem uncaught_send_error_strands_proposal:
  assumes "table_ok (proposals db)" and "dispatchable pid (proposals db) p"
  shows "\<exists>db' r'. dispatch_approved H io (SendOther msg) pid db =
       (Inl (SendRaised msg), db', [intent_of p (io_intent_id io)]) \<and>
     row_of pid (proposals db') = Some r' \<and> r_status r' = APPROVED \<and>
     r_dispatch_id r' = Some (io_dispatch_id io) \<and> audit db' = audit db"
using assms(1)
proof (cases rule: dispatch_approved_cases [where H = H and io = io and out = "SendOther msg" and pid = pid])
  case (refused e)
  with assms(2) show ?thesis by blast
next
  case (raised q e)
  moreover have "q = p" using raised assms(2) dispatchable_unique by blast
  moreover have "e = SendRaised msg" using raised(2) by (simp add: complete_with_def)
  moreover obtain r where "row_of pid (proposals db) = Some r" "claim_where r" "r_status r = APPROVED"
    using dispatchable_row [OF assms(2)] by blast
  ultimately show ?thesis by (simp add: row_of_claim)
next
  case (finished q r d)
  then show ?thesis by (simp add: complete_with_def)
qed

theorem uncaught_send_error_strands_proposal_witness:
  "\<exists>db' r'. dispatch_approved toy_hash sample_io (SendOther ''TypeError'') ''p1'' sample_db =
       (Inl (SendRaised ''TypeError''), db',
        [intent_of (sample_proposal\<lparr>p_status := APPROVED, p_approved_by := Some ''op''\<rparr>) (io_intent_id sample_io)]) \<and>
     row_of ''p1'' (proposals db') = Some r' \<and> r_status r' = APPROVED \<and>
     r_dispatch_id r' = Some (io_dispatch_id sample_io) \<and> audit db' = audit sample_db"
  by (rule uncaught_send_error_strands_proposal [OF sample_table_ok sample_dispatchable])

text \<open>
  A result report is accepted once. A report of a worker changes the table
  only when its intent, dispatch and node identifiers all match a proposal that
  is still APPROVED; a second report for the same intent and dispatch, from any
  node, is refused with an unchanged database.
\<close>

theorem intent_result_resolved_once:
  assumes "resolve_intent_result H iid did nid res now t u db = (ret, db')"
  shows "(db' \<noteq> db \<longrightarrow> (\<exists>r \<in> set (proposals db). r_intent_id r = Some iid \<and> r_dispatch_id r = Some did \<and>
            r_node_id r = nid \<and> r_status r = APPROVED)) \<and>
    (ret = Inr () \<longrightarrow>
       resolve_intent_result H iid did nid' res' now' t' u' db' = (Inl (ProposalNotFound iid), db'))"
proof (cases "sql_fetchone (\<lambda>r. r_intent_id r = Some iid \<and> r_dispatch_id r = Some did \<and>
             r_node_id r = nid \<and> r_status r = APPROVED) (proposals db)")
  case None
  with assms show ?thesis by (auto simp: resolve_intent_result_def)
next
  case (Some row)
  let ?st = "if json_truthy (get_success res) then EXECUTED else FAILED"
  from Some have row: "row \<in> set (proposals db)" "r_intent_id row = Some iid" "r_dispatch_id row = Some did"
    "r_node_id row = nid" "r_status row = APPROVED"
    by (auto dest: sql_fetchone_SomeD)
  have tbl: "proposals db' = sql_update (\<lambda>r. r_intent_id r = Some iid \<and> r_dispatch_id r = Some did)
      (\<lambda>r. r\<lparr>r_status := ?st, r_updated_at := now, r_executed_at := Some now,
             r_result_json := Some (json_dumps False (JObj res))\<rparr>) (proposals db)"
    using assms Some by (auto simp: resolve_intent_result_def Let_def split: sum.splits)
  have "sql_fetchone (\<lambda>r. r_intent_id r = Some iid \<and> r_dispatch_id r = Some did \<and>
             r_node_id r = nid' \<and> r_status r = APPROVED) (proposals db') = None"
    by (auto simp: tbl elim!: set_sql_updateE)
  then have "resolve_intent_result H iid did nid' res' now' t' u' db' = (Inl (ProposalNotFound iid), db')"
    unfolding resolve_intent_result_def by (simp del: sql_fetchone_None_iff)
  with row show ?thesis by blast
qed

definition claimed_db :: master_db where
  "claimed_db = sample_db\<lparr>proposals := [claim_set ''d1'' ''i1'' 200 sample_row]\<rparr>"

theorem intent_result_resolved_once_witness:
  "let d = resolve_intent_result toy_hash ''i1'' ''d1'' ''n1'' [] 210 211 ''a9'' claimed_db in
   fst d = Inr () \<and>
   resolve_intent_result toy_hash ''i1'' ''d1'' ''n1'' [] 220 221 ''a10'' (snd d) =
     (Inl (ProposalNotFound ''i1''), snd d)"
proof -
  let ?d = "resolve_intent_result toy_hash ''i1'' ''d1'' ''n1'' [] 210 211 ''a9'' claimed_db"
  have "fst ?d = Inr ()"
    by (simp add: resolve_intent_result_def claimed_db_def sample_row_def sample_db_def sample_proposal_def
        new_proposal_def Let_def log_action_alone chain_ok_def)
  then obtain db where d: "?d = (Inr (), db)" by (cases ?d) simp
  from intent_result_resolved_once [OF d, of "''n1''" "[]" 220 221 "''a10''"] d
  show ?thesis by simp
qed

text \<open>
  An administrator's action takes the same path. With a fresh proposal
  identifier the action is stored as a proposal created and approved by that
  user before anything is sent, and exactly the requested node, action and
  parameters are sent.
\<close>

theorem admin_action_recorded_and_sent:
  assumes "table_ok (proposals db)" and "row_of i (proposals db) = None" and "json_plain (JObj params)"
    and "dispatch_admin_action H io out i nid action params user reasoning risk now db = (res, db', sent)"
  shows "sent = [\<lparr>it_node_id = nid, it_action = action, it_params = params, it_intent_id = io_intent_id io\<rparr>] \<and>
    (\<exists>r. row_of i (proposals db') = Some r \<and> r_created_by r = user \<and> r_approved_by r = Some user \<and>
         r_action r = action \<and> r_dispatch_id r = Some (io_dispatch_id io))"
proof -
  let ?p = "admin_proposal i nid action params user reasoning risk now"
  let ?db = "db\<lparr>proposals := proposals db @ [to_db_dict ?p]\<rparr>"
  have row: "row_of i (proposals ?db) = Some (to_db_dict ?p)"
    using row_of_append_new [OF assms(2), of "to_db_dict ?p"] by (simp add: admin_proposal_def new_proposal_def)
  have ok: "table_ok (proposals ?db)"
    using assms(1,2) by (auto simp: table_ok_def row_of_def admin_proposal_def new_proposal_def)
  have rt: "from_db_row (to_db_dict ?p) = Inr ?p"
    using from_to_db_row [of ?p] assms(3) by (simp add: admin_proposal_def new_proposal_def)
  have "p_status ?p = APPROVED" "p_dispatch_id ?p = None"
    by (simp_all add: admin_proposal_def new_proposal_def)
  with row rt have d: "dispatchable i (proposals ?db) ?p" by (simp add: dispatchable_def)
  have run: "dispatch_approved H io out i ?db = (res, db', sent)"
    using assms(4) by (simp add: dispatch_admin_action_def)
  have w: "claim_where (to_db_dict ?p)" by (simp add: claim_where_def admin_proposal_def new_proposal_def)
  have f: "r_created_by (to_db_dict ?p) = user" "r_approved_by (to_db_dict ?p) = Some user"
    "r_action (to_db_dict ?p) = action"
    by (simp_all add: to_db_dict_def admin_proposal_def new_proposal_def)
  have it: "intent_of ?p x = \<lparr>it_node_id = nid, it_action = action, it_params = params, it_intent_id = x\<rparr>" for x
    by (simp add: intent_of_def admin_proposal_def new_proposal_def)
  from ok show ?thesis
  proof (cases rule: dispatch_approved_cases [where H = H and io = io and out = out and pid = i])
    case (refused e)
    with d show ?thesis by blast
  next
    case (raised p e)
    then have "p = ?p" using d dispatchable_unique by blast
    with raised(3) run row w f it show ?thesis by (auto simp: row_of_claim)
  next
    case (finished p q r)
    then have "p = ?p" using d dispatchable_unique by blast
    with finished(3,4) run row w f it show ?thesis by (auto simp: row_of_claim row_of_persist)
  qed
qed

theorem admin_action_recorded_and_sent_witness:
  "snd (snd (dispatch_admin_action toy_hash sample_io (Replied []) ''p2'' ''n1'' ''docker.restart'' [] ''root''
      None ''LOW'' 5 sample_db)) =
     [\<lparr>it_node_id = ''n1'', it_action = ''docker.restart'', it_params = [], it_intent_id = ''i1''\<rparr>]"
proof -
  let ?d = "dispatch_admin_action toy_hash sample_io (Replied []) ''p2'' ''n1'' ''docker.restart'' [] ''root''
      None ''LOW'' 5 sample_db"
  have "row_of ''p2'' (proposals sample_db) = None"
    by (simp add: row_of_def sample_db_def sample_row_def sample_proposal_def new_proposal_def)
  from admin_action_recorded_and_sent [OF sample_table_ok this, of "[]" toy_hash sample_io "Replied []" "''n1''"
      "''docker.restart''" "''root''" None "''LOW''" 5 "fst ?d" "fst (snd ?d)" "snd (snd ?d)"]
  show ?thesis by (simp add: sample_io_def)
qed

end
