(* ===== verification/Py_Text.thy ===== *)
theory Py_Text
  imports Json
begin

text \<open>
  The text functions of Python's standard library the master uses beyond those
  of the prelude: \<open>lower\<close>, \<open>upper\<close>, \<open>lstrip(chars)\<close>, \<open>replace\<close> of one character, \<open>str\<close>
  of a decoded JSON value, and \<open>difflib.SequenceMatcher(None, a, b).ratio()\<close>.
\<close>

section \<open>Case and trimming\<close>

definition lower_char :: "char \<Rightarrow> char" where
  \<comment> \<open>A--Z and the capital letters of Latin-1 (192--222 but the multiplication sign)\<close>
  "lower_char c =
     (let n = (of_char c :: nat) in
      if (65 \<le> n \<and> n \<le> 90) \<or> (192 \<le> n \<and> n \<le> 222 \<and> n \<noteq> 215) then char_of (n + 32) else c)"

definition lower :: "string \<Rightarrow> string" where
  "lower s = map lower_char s"

definition upper_char :: "char \<Rightarrow> string" where
  \<comment> \<open>a--z and the small letters of Latin-1; the sharp s becomes two letters, the
    micro sign and the y with diaeresis have capitals beyond code point 255\<close>
  "upper_char c =
     (let n = (of_char c :: nat) in
      if (97 \<le> n \<and> n \<le> 122) \<or> (224 \<le> n \<and> n \<le> 254 \<and> n \<noteq> 247) then [char_of (n - 32)]
      else if n = 223 then ''SS'' else [c])"

definition upper :: "string \<Rightarrow> string" where
  "upper s = concat (map upper_char s)"

definition lstrip_char :: "char \<Rightarrow> string \<Rightarrow> string" where
  "lstrip_char c s = dropWhile (\<lambda>x. x = c) s"

definition replace_char :: "char \<Rightarrow> char \<Rightarrow> string \<Rightarrow> string" where
  "replace_char a b s = map (\<lambda>x. if x = a then b else x) s"

lemma lower_char_cases:
  "lower_char c = c \<or> (of_char (lower_char c) :: nat) = of_char c + 32"
  by (auto simp: lower_char_def Let_def)

lemma lower_char_idem [simp]: "lower_char (lower_char c) = lower_char c"
proof (cases "lower_char c = c")
  case False
  then have n: "(65 \<le> (of_char c :: nat) \<and> (of_char c :: nat) \<le> 90) \<or>
      (192 \<le> (of_char c :: nat) \<and> (of_char c :: nat) \<le> 222 \<and> (of_char c :: nat) \<noteq> 215)"
    by (auto simp: lower_char_def Let_def split: if_splits)
  moreover have "(of_char (lower_char c) :: nat) = of_char c + 32" using False lower_char_cases by blast
  ultimately show ?thesis by (subst lower_char_def) (auto simp: Let_def)
qed simp

lemma lower_idem [simp]: "lower (lower s) = lower s"
  by (simp add: lower_def)

lemma lower_Nil_iff [simp]: "lower s = [] \<longleftrightarrow> s = []"
  by (simp add: lower_def)

lemma lower_append: "lower (a @ b) = lower a @ lower b"
  by (simp add: lower_def)

lemma strip_Nil [simp]: "strip [] = []"
  by (simp add: strip_def lstrip_def)

section \<open>Printing a value\<close>

definition repr_char :: "char \<Rightarrow> char \<Rightarrow> string" where
  "repr_char q c =
     (let n = (of_char c :: nat) in
      if c = q \<or> n = 92 then [CHR 0x5C, c]
      else if n = 10 then [CHR 0x5C, CHR ''n'']
      else if n = 13 then [CHR 0x5C, CHR ''r'']
      else if n = 9 then [CHR 0x5C, CHR ''t'']
      else if n < 32 \<or> (127 \<le> n \<and> n \<le> 160) \<or> n = 173
        then [CHR 0x5C, CHR ''x'', hex_digit (n div 16), hex_digit (n mod 16)]
      else [c])"

definition str_repr :: "string \<Rightarrow> string" where
  "str_repr s =
     (let q = (if CHR 0x27 \<in> set s \<and> CHR 0x22 \<notin> set s then CHR 0x22 else CHR 0x27)
      in q # concat (map (repr_char q) s) @ [q])"

fun py_repr :: "json \<Rightarrow> string" where
  "py_repr JNull = ''None''"
| "py_repr (JBool b) = (if b then ''True'' else ''False'')"
| "py_repr (JInt i) = int_str i"
| "py_repr (JFloat t) = t"
| "py_repr (JStr s) = str_repr s"
| "py_repr (JArr vs) = ''['' @ join_with '', '' (map py_repr vs) @ '']''"
| "py_repr (JObj kvs) =
     ''{'' @ join_with '', '' (map (\<lambda>(k, v). str_repr k @ '': '' @ py_repr v) kvs) @ ''}''"

definition py_str :: "json \<Rightarrow> string" where
  "py_str v = (case v of JStr s \<Rightarrow> s | _ \<Rightarrow> py_repr v)"

section \<open>Similarity\<close>

text \<open>
  \<open>SequenceMatcher\<close>: the longest common block, the earliest in the first and
  then in the second string, is matched, and the pieces before and after it are
  matched in the same way. Of a second string of 200 characters or more, the
  characters that occur in more than one percent of it (plus one) do not start a
  block (\<open>autojunk\<close>); a block is then extended over them on both sides.
\<close>

definition popular :: "string \<Rightarrow> char list" where
  "popular b =
     (if 200 \<le> length b then filter (\<lambda>c. length b div 100 + 1 < count_list b c) (remdups b) else [])"

fun common_run :: "char list \<Rightarrow> string \<Rightarrow> string \<Rightarrow> nat" where
  "common_run pop (x # xs) (y # ys) =
     (if x = y \<and> x \<notin> set pop then Suc (common_run pop xs ys) else 0)"
| "common_run pop _ _ = 0"

definition better :: "nat \<times> nat \<times> nat \<Rightarrow> nat \<times> nat \<times> nat \<Rightarrow> nat \<times> nat \<times> nat" where
  "better best new = (if snd (snd best) < snd (snd new) then new else best)"

definition longest_block :: "char list \<Rightarrow> string \<Rightarrow> string \<Rightarrow> nat \<times> nat \<times> nat" where
  "longest_block pop a b =
     foldl better (0, 0, 0)
       [(i, j, common_run pop (drop i a) (drop j b)). i \<leftarrow> [0..<length a], j \<leftarrow> [0..<length b]]"

definition extend_block :: "string \<Rightarrow> string \<Rightarrow> nat \<times> nat \<times> nat \<Rightarrow> nat \<times> nat \<times> nat" where
  "extend_block a b blk =
     (let (i, j, k) = blk;
          l = common_run [] (rev (take i a)) (rev (take j b));
          r = common_run [] (drop (i + k) a) (drop (j + k) b)
      in (i - l, j - l, l + k + r))"

fun matched_chars :: "nat \<Rightarrow> char list \<Rightarrow> string \<Rightarrow> string \<Rightarrow> nat" where
  \<comment> \<open>the first argument bounds the depth; the length of the first string is enough\<close>
  "matched_chars 0 pop a b = 0"
| "matched_chars (Suc n) pop a b =
     (let (i, j, k) = extend_block a b (longest_block pop a b)
      in if k = 0 then 0
         else matched_chars n pop (take i a) (take j b) + k + matched_chars n pop (drop (i + k) a) (drop (j + k) b))"

definition seq_ratio :: "string \<Rightarrow> string \<Rightarrow> rat" where
  "seq_ratio a b =
     (if length a + length b = 0 then 1
      else 2 * of_nat (matched_chars (length a) (popular b) a b) / of_nat (length a + length b))"

lemma common_run_le1: "common_run pop a b \<le> length a"
  by (induction pop a b rule: common_run.induct) auto

lemma common_run_le2: "common_run pop a b \<le> length b"
  by (induction pop a b rule: common_run.induct) auto

lemma foldl_better_P:
  "P best \<Longrightarrow> (\<And>x. x \<in> set xs \<Longrightarrow> P x) \<Longrightarrow> P (foldl better best xs)"
  by (induction xs arbitrary: best) (auto simp: better_def)

lemma longest_block_fits:
  "longest_block pop a b = (i, j, k) \<Longrightarrow> i + k \<le> length a \<and> j + k \<le> length b"
proof -
  assume l: "longest_block pop a b = (i, j, k)"
  have "case longest_block pop a b of (i, j, k) \<Rightarrow> i + k \<le> length a \<and> j + k \<le> length b"
    unfolding longest_block_def
  proof (rule foldl_better_P)
    fix x assume "x \<in> set [(i, j, common_run pop (drop i a) (drop j b)). i \<leftarrow> [0..<length a], j \<leftarrow> [0..<length b]]"
    then obtain i j where x: "x = (i, j, common_run pop (drop i a) (drop j b))" "i < length a" "j < length b" by auto
    then show "case x of (i, j, k) \<Rightarrow> i + k \<le> length a \<and> j + k \<le> length b"
      using common_run_le1 [of pop "drop i a" "drop j b"] common_run_le2 [of pop "drop i a" "drop j b"] by auto
  qed simp
  with l show ?thesis by simp
qed

lemma extend_block_fits:
  assumes "i + k \<le> length a" and "j + k \<le> length b" and "extend_block a b (i, j, k) = (i', j', k')"
  shows "i' + k' \<le> length a \<and> j' + k' \<le> length b"
proof -
  let ?l = "common_run [] (rev (take i a)) (rev (take j b))"
  let ?r = "common_run [] (drop (i + k) a) (drop (j + k) b)"
  have "?l \<le> i" "?l \<le> j" "?r \<le> length a - (i + k)" "?r \<le> length b - (j + k)"
    using common_run_le1 [of "[]" "rev (take i a)" "rev (take j b)"] common_run_le2 [of "[]" "rev (take i a)" "rev (take j b)"]
      common_run_le1 [of "[]" "drop (i + k) a" "drop (j + k) b"] common_run_le2 [of "[]" "drop (i + k) a" "drop (j + k) b"]
      assms(1,2)
    by auto
  with assms show ?thesis by (auto simp: extend_block_def Let_def)
qed

lemma matched_chars_le: "matched_chars n pop a b \<le> length a \<and> matched_chars n pop a b \<le> length b"
proof (induction n arbitrary: a b)
  case (Suc n)
  obtain i j k where e: "extend_block a b (longest_block pop a b) = (i, j, k)" by (metis prod_cases3)
  obtain i0 j0 k0 where l: "longest_block pop a b = (i0, j0, k0)" by (metis prod_cases3)
  have fit: "i + k \<le> length a" "j + k \<le> length b"
    using longest_block_fits [OF l] extend_block_fits [of i0 k0 a j0 b] e l by auto
  then show ?case
    using Suc.IH [of "take i a" "take j b"] Suc.IH [of "drop (i + k) a" "drop (j + k) b"]
    by (auto simp: e)
qed simp

text \<open>The length of the first string is enough fuel: more changes nothing.\<close>

lemma matched_chars_fuel: "length a \<le> n \<Longrightarrow> matched_chars (n + m) pop a b = matched_chars n pop a b"
proof (induction n arbitrary: a b)
  case 0
  then show ?case using matched_chars_le [of m pop a b] by simp
next
  case (Suc n)
  obtain i j k where e: "extend_block a b (longest_block pop a b) = (i, j, k)" by (metis prod_cases3)
  obtain i0 j0 k0 where l: "longest_block pop a b = (i0, j0, k0)" by (metis prod_cases3)
  have "i + k \<le> length a"
    using longest_block_fits [OF l] extend_block_fits [of i0 k0 a j0 b] e l by auto
  then show ?case
    using Suc.prems Suc.IH [of "take i a" "take j b"] Suc.IH [of "drop (i + k) a" "drop (j + k) b"]
    by (cases "k = 0") (auto simp: e)
qed

lemma seq_ratio_bounds: "0 \<le> seq_ratio a b \<and> seq_ratio a b \<le> 1"
proof (cases "length a + length b = 0")
  case False
  have "2 * matched_chars (length a) (popular b) a b \<le> length a + length b"
    using matched_chars_le [of "length a" "popular b" a b] by simp
  then have "(2 * of_nat (matched_chars (length a) (popular b) a b) :: rat) \<le> of_nat (length a + length b)"
    by (metis of_nat_le_iff of_nat_mult of_nat_numeral)
  moreover have "(0 :: rat) < of_nat (length a + length b)" using False by (simp only: of_nat_0_less_iff)
  ultimately show ?thesis using False by (simp add: seq_ratio_def divide_le_eq_1 del: of_nat_add)
qed (simp add: seq_ratio_def)

end
