(* ===== verification/Container_Match.thy ===== *)
theory Container_Match
  imports Proposal_Dispatcher Py_Text "HOL-Library.Multiset"
begin

text \<open>
  Resolution of a container named by the assistant or an operator
  (\<open>src/master/api/chat_helpers.py\<close>): the exact match on normalised variants,
  the fuzzy match with its threshold and ambiguity margin, the order cache then
  live data, and the normalisation of a proposal's parameters. A container is
  the dictionary the cache or the worker gave.
\<close>

type_synonym container = "(string, json) dict"

datatype match_result =
    Matched string
  | Ambiguous "string list"
  | NotFound

section \<open>Variants\<close>

definition normalize_match_text :: "string \<Rightarrow> string" where
  "normalize_match_text v = lstrip_char (CHR ''/'') (lower (strip v))"

definition str_or_empty :: "container \<Rightarrow> string \<Rightarrow> string" where
  \<comment> \<open>\<open>str(container.get(key) or "")\<close>\<close>
  "str_or_empty c key = (let v = dict_get c key JNull in if json_truthy v then py_str v else [])"

definition name_parts :: "string \<Rightarrow> string list" where
  "name_parts name = split_on (CHR ''-'') (replace_char (CHR ''.'') (CHR ''-'') (replace_char (CHR ''_'') (CHR ''-'') name))"

fun unique_variants :: "(string \<times> string) list \<Rightarrow> (string \<times> string) list \<Rightarrow> (string \<times> string) list" where
  "unique_variants seen [] = []"
| "unique_variants seen (v # vs) =
     (if fst v \<noteq> [] \<and> v \<notin> set seen then v # unique_variants (v # seen) vs else unique_variants seen vs)"

definition container_match_variants :: "container \<Rightarrow> (string \<times> string) list" where
  "container_match_variants c =
     (let container_id = strip (str_or_empty c ''id'');
          name = lstrip_char (CHR ''/'') (strip (str_or_empty c ''name''));
          preferred = (if name \<noteq> [] then name else container_id);
          by_name = (if name \<noteq> [] then
              (normalize_match_text name, preferred) #
              map (\<lambda>p. (p, preferred)) (filter (\<lambda>p. p \<noteq> []) (map normalize_match_text (name_parts name)))
            else []);
          by_id = (if container_id \<noteq> [] then [(normalize_match_text container_id, container_id)] else [])
      in unique_variants [] (by_name @ by_id))"

section \<open>Matching\<close>

definition FUZZY_THRESHOLD :: rat where "FUZZY_THRESHOLD = 3 / 4"
definition FUZZY_MARGIN :: rat where "FUZZY_MARGIN = 2 / 25"

definition exact_matches :: "string \<Rightarrow> container list \<Rightarrow> string list" where
  "exact_matches t cs =
     concat (map (\<lambda>c. case List.find (\<lambda>v. fst v = t) (container_match_variants c) of
                        None \<Rightarrow> [] | Some v \<Rightarrow> [snd v]) cs)"

fun best_variant :: "(string \<Rightarrow> string \<Rightarrow> rat) \<Rightarrow> string \<Rightarrow> rat \<times> string \<Rightarrow> (string \<times> string) list \<Rightarrow> rat \<times> string" where
  "best_variant ratio t best [] = best"
| "best_variant ratio t best (v # vs) =
     (let score = ratio t (fst v)
      in best_variant ratio t (if fst best < score then (score, snd v) else best) vs)"

definition scored :: "string \<Rightarrow> container list \<Rightarrow> (rat \<times> string) list" where
  "scored t cs =
     filter (\<lambda>sv. snd sv \<noteq> []) (map (\<lambda>c. best_variant seq_ratio t (0, []) (container_match_variants c)) cs)"

definition match_container :: "string \<Rightarrow> container list \<Rightarrow> match_result" where
  "match_container target cs =
     (let t = normalize_match_text target in
      if t = [] then NotFound
      else case exact_matches t cs of
             [v] \<Rightarrow> Matched v
           | v # w # vs \<Rightarrow> Ambiguous (v # w # vs)
           | [] \<Rightarrow>
               (case sort_key (\<lambda>sv. - fst sv) (scored t cs) of
                  [] \<Rightarrow> NotFound
                | (best, v) # rest \<Rightarrow>
                    if best < FUZZY_THRESHOLD then NotFound
                    else (let amb = map snd (filter (\<lambda>sv. FUZZY_THRESHOLD \<le> fst sv \<and> best - fst sv \<le> FUZZY_MARGIN) rest)
                          in if amb \<noteq> [] then Ambiguous (v # amb) else Matched v)))"

section \<open>Resolution\<close>

text \<open>
  \<open>cached\<close> is the column \<open>nodes.cached_containers_json\<close> of the node (no row and
  a null column are both empty); \<open>live\<close> is what the read-only worker query
  returned or raised, and \<open>summaries\<close> stands for the validation of its output
  by the Docker plugin's response model.
\<close>

definition get_cached_containers :: "string option \<Rightarrow> container list" where
  "get_cached_containers col =
     (case col of
        None \<Rightarrow> []
      | Some txt \<Rightarrow>
          (if txt = [] then []
           else case json_loads txt of
                  Some (JArr vs) \<Rightarrow> concat (map (\<lambda>v. case v of JObj d \<Rightarrow> [d] | _ \<Rightarrow> []) vs)
                | _ \<Rightarrow> []))"

definition get_live_containers ::
  "(json \<Rightarrow> container list option) \<Rightarrow> send_outcome \<Rightarrow> string + container list" where
  "get_live_containers summaries live =
     (case live of
        Replied res \<Rightarrow>
          (if \<not> json_truthy (dict_get res ''success'' JNull) then Inr []
           else case summaries (dict_get res ''output'' (JStr [])) of None \<Rightarrow> Inr [] | Some cs \<Rightarrow> Inr cs)
      | SendRuntimeError _ \<Rightarrow> Inr []
      | SendTimeoutError _ \<Rightarrow> Inr []
      | SendOther msg \<Rightarrow> Inl msg)"

definition resolve_container_target ::
  "(json \<Rightarrow> container list option) \<Rightarrow> string option \<Rightarrow> send_outcome \<Rightarrow> string \<Rightarrow> string + match_result" where
  "resolve_container_target summaries col live target =
     (let cached = get_cached_containers col;
          cached_match = match_container target cached
      in if cached \<noteq> [] \<and> cached_match \<noteq> NotFound then Inr cached_match
         else case get_live_containers summaries live of
                Inl e \<Rightarrow> Inl e
              | Inr cs \<Rightarrow> if cs \<noteq> [] then Inr (match_container target cs) else Inr NotFound)"

definition container_target_keys :: "string list" where
  "container_target_keys = [''container_id'', ''container'', ''name'', ''target'', ''id'']"

fun extract_target_from :: "string list \<Rightarrow> (string, json) dict \<Rightarrow> string" where
  "extract_target_from [] params = []"
| "extract_target_from (k # ks) params =
     (case map_of params k of
        Some (JStr s) \<Rightarrow> if strip s \<noteq> [] then strip s else extract_target_from ks params
      | _ \<Rightarrow> extract_target_from ks params)"

definition extract_container_target :: "(string, json) dict \<Rightarrow> string" where
  "extract_container_target params = extract_target_from container_target_keys params"

text \<open>The first component is the operator-facing error, if any.\<close>

definition normalize_action_proposal ::
  "(json \<Rightarrow> container list option) \<Rightarrow> string option \<Rightarrow> send_outcome \<Rightarrow> action_proposal \<Rightarrow>
     string + string option \<times> action_proposal" where
  "normalize_action_proposal summaries col live p =
     (if p_action p \<noteq> ''RESTART_CONTAINER'' then Inr (None, p)
      else (let target = extract_container_target (p_params p) in
        if target = [] then Inr (Some ''RESTART_CONTAINER requires a container target'', p)
        else case resolve_container_target summaries col live target of
               Inl e \<Rightarrow> Inl e
             | Inr (Matched v) \<Rightarrow>
                 Inr (None, p\<lparr>p_params := [(''container_id'', JStr v), (''target'', JStr v)]\<rparr>)
             | Inr (Ambiguous vs) \<Rightarrow>
                 Inr (Some (''Ambiguous container target '' @ [CHR 0x27] @ target @ [CHR 0x27] @
                            ''. Candidates: '' @ join_with '', '' vs), p)
             | Inr NotFound \<Rightarrow>
                 Inr (Some (''Unknown container target '' @ [CHR 0x27] @ target @ [CHR 0x27]), p)))"

section \<open>Lemmas\<close>

definition container_id_of :: "container \<Rightarrow> string" where
  "container_id_of c = strip (str_or_empty c ''id'')"

definition container_name_of :: "container \<Rightarrow> string" where
  "container_name_of c = lstrip_char (CHR ''/'') (strip (str_or_empty c ''name''))"

lemma set_unique_variants: "set (unique_variants seen vs) \<subseteq> {v \<in> set vs. fst v \<noteq> []}"
  by (induction seen vs rule: unique_variants.induct) auto

lemma variant_values:
  assumes "v \<in> set (container_match_variants c)"
  shows "fst v \<noteq> []" and "snd v = container_name_of c \<or> snd v = container_id_of c" and "snd v \<noteq> []"
proof -
  let ?n = "container_name_of c" and ?i = "container_id_of c"
  let ?by_name = "if ?n \<noteq> [] then (normalize_match_text ?n, ?n) #
      map (\<lambda>p. (p, ?n)) (filter (\<lambda>p. p \<noteq> []) (map normalize_match_text (name_parts ?n))) else []"
  let ?by_id = "if ?i \<noteq> [] then [(normalize_match_text ?i, ?i)] else []"
  have "container_match_variants c = unique_variants [] (?by_name @ ?by_id)"
    by (simp add: container_match_variants_def container_id_of_def container_name_of_def Let_def)
  with assms have "v \<in> set (unique_variants [] (?by_name @ ?by_id))" by (simp only:)
  then have v: "v \<in> set (?by_name @ ?by_id)" "fst v \<noteq> []"
    using set_unique_variants [of "[]" "?by_name @ ?by_id"] by blast+
  from v(2) show "fst v \<noteq> []" .
  from v(1) show "snd v = ?n \<or> snd v = ?i" and "snd v \<noteq> []"
    by (auto split: if_splits)
qed

lemma best_variant_result:
  "best_variant ratio t best vs = best \<or>
   (\<exists>v \<in> set vs. best_variant ratio t best vs = (ratio t (fst v), snd v))"
proof (induction vs arbitrary: best)
  case (Cons v vs)
  show ?case
    using Cons.IH [of "if fst best < ratio t (fst v) then (ratio t (fst v), snd v) else best"]
    by (auto simp: Let_def split: if_splits)
qed simp

lemma scored_value:
  assumes "(s, v) \<in> set (scored t cs)"
  shows "\<exists>c \<in> set cs. \<exists>w. (w, v) \<in> set (container_match_variants c) \<and> s = seq_ratio t w"
proof -
  from assms obtain c where c: "c \<in> set cs" "v \<noteq> []"
    "(s, v) = best_variant seq_ratio t (0, []) (container_match_variants c)"
    by (auto simp: scored_def)
  with best_variant_result [of seq_ratio t "(0, [])" "container_match_variants c"]
  obtain w where "w \<in> set (container_match_variants c)" "(s, v) = (seq_ratio t (fst w), snd w)" by fastforce
  with c(1) show ?thesis by (cases w) auto
qed

lemma exact_matches_value:
  assumes "v \<in> set (exact_matches t cs)"
  shows "\<exists>c \<in> set cs. (t, v) \<in> set (container_match_variants c)"
proof -
  from assms obtain c w where "c \<in> set cs" "List.find (\<lambda>v. fst v = t) (container_match_variants c) = Some w" "v = snd w"
    by (fastforce simp: exact_matches_def split: option.splits dest: sym)
  moreover from this(2) have "w \<in> set (container_match_variants c)" "fst w = t"
    by (auto simp: find_Some_iff)
  ultimately show ?thesis by (cases w) auto
qed

lemma sort_key_split:
  assumes "sort_key f xs = y # ys"
  shows "\<exists>as bs. xs = as @ y # bs \<and> set (as @ bs) = set ys"
proof -
  have m: "mset xs = mset (y # ys)" using assms mset_sort [of f xs] by simp
  then have "y \<in> set xs" using mset_eq_setD by fastforce
  then obtain as bs where xs: "xs = as @ y # bs" by (meson split_list)
  with m have "mset (as @ bs) = mset ys" by simp
  with xs show ?thesis using mset_eq_setD by blast
qed

lemma matchedE:
  assumes "match_container target cs = Matched v"
  obtains (exact) "exact_matches (normalize_match_text target) cs = [v]"
  | (fuzzy) s rest where "exact_matches (normalize_match_text target) cs = []"
      "sort_key (\<lambda>sv. - fst sv) (scored (normalize_match_text target) cs) = (s, v) # rest"
      "3 / 4 \<le> s" "filter (\<lambda>sv. 3 / 4 \<le> fst sv \<and> s - fst sv \<le> 2 / 25) rest = []"
  using assms
  by (auto simp: match_container_def Let_def FUZZY_THRESHOLD_def FUZZY_MARGIN_def not_less
      split: if_splits list.splits)

lemma container_match_sound:
  assumes "match_container target cs = Matched v"
  shows "\<exists>c \<in> set cs. v \<in> {container_name_of c, container_id_of c} \<and> v \<noteq> []"
  using assms
proof (cases rule: matchedE)
  case exact
  then obtain c where "c \<in> set cs" "(normalize_match_text target, v) \<in> set (container_match_variants c)"
    using exact_matches_value [of v "normalize_match_text target" cs] by auto
  then show ?thesis using variant_values(2,3) by fastforce
next
  case (fuzzy s rest)
  then have "(s, v) \<in> set (scored (normalize_match_text target) cs)"
    using sort_key_split [OF fuzzy(2)] by auto
  then obtain c w where "c \<in> set cs" "(w, v) \<in> set (container_match_variants c)"
    using scored_value by blast
  then show ?thesis using variant_values(2,3) by fastforce
qed

section \<open>Properties\<close>

text \<open>
  A match is unambiguous. A target resolves to a container only if it is
  the one exact match, or if there is no exact match and one candidate has a
  similarity of at least 0.75 with every other candidate below 0.75 or more than
  0.08 behind; what is sent is the name or the id of a container of the list.
\<close>

theorem container_match_unambiguous:
  assumes "match_container target cs = Matched v"
  shows "(exact_matches (normalize_match_text target) cs = [v] \<or>
      (exact_matches (normalize_match_text target) cs = [] \<and>
       (\<exists>s as bs. scored (normalize_match_text target) cs = as @ (s, v) # bs \<and> 3 / 4 \<le> s \<and>
          (\<forall>(s', v') \<in> set (as @ bs). s' < 3 / 4 \<or> 2 / 25 < s - s')))) \<and>
    (\<exists>c \<in> set cs. v \<in> {container_name_of c, container_id_of c} \<and> v \<noteq> [])"
  using assms
proof (cases rule: matchedE)
  case exact
  then show ?thesis using container_match_sound [OF assms] by blast
next
  case (fuzzy s rest)
  from sort_key_split [OF fuzzy(2)] obtain as bs where
    sp: "scored (normalize_match_text target) cs = as @ (s, v) # bs" "set (as @ bs) = set rest" by blast
  from fuzzy(4) sp(2) have "\<forall>(s', v') \<in> set (as @ bs). s' < 3 / 4 \<or> 2 / 25 < s - s'"
    by (auto simp: filter_empty_conv not_le)
  with fuzzy sp(1) show ?thesis using container_match_sound [OF assms] by blast
qed

definition example_containers :: "container list" where
  "example_containers =
     [[(''id'', JStr ''a1''), (''name'', JStr ''/web_front'')], [(''id'', JStr ''b2''), (''name'', JStr ''db'')]]"

lemma example_match: "match_container ''Front'' example_containers = Matched ''web_front''"
  by code_simp

theorem container_match_unambiguous_witness:
  "\<exists>c \<in> set example_containers. ''web_front'' \<in> {container_name_of c, container_id_of c}"
  using container_match_unambiguous [OF example_match] by blast

text \<open>
  Normalisation closes the target. When a restart proposal passes
  normalisation, its parameters name one container that was listed by the cache
  or by the worker, whatever else the assistant had put into them; every other
  action passes unchanged.
\<close>

theorem normalized_restart_target_known:
  assumes "normalize_action_proposal summaries col live p = Inr (None, q)"
  shows "if p_action p = ''RESTART_CONTAINER'' then
      \<exists>v. q = p\<lparr>p_params := [(''container_id'', JStr v), (''target'', JStr v)]\<rparr> \<and>
        (\<exists>c. (c \<in> set (get_cached_containers col) \<or>
              (\<exists>cs. get_live_containers summaries live = Inr cs \<and> c \<in> set cs)) \<and>
             v \<in> {container_name_of c, container_id_of c} \<and> v \<noteq> [])
    else q = p"
proof (cases "p_action p = ''RESTART_CONTAINER''")
  case True
  let ?tg = "extract_container_target (p_params p)"
  from True assms obtain v where v: "resolve_container_target summaries col live ?tg = Inr (Matched v)"
    "q = p\<lparr>p_params := [(''container_id'', JStr v), (''target'', JStr v)]\<rparr>"
    by (auto simp: normalize_action_proposal_def Let_def split: if_splits sum.splits match_result.splits)
  from v(1) obtain cs where "match_container ?tg cs = Matched v"
    "cs = get_cached_containers col \<or> get_live_containers summaries live = Inr cs"
    by (auto simp: resolve_container_target_def Let_def split: if_splits sum.splits)
  then have "\<exists>c. (c \<in> set (get_cached_containers col) \<or>
              (\<exists>cs. get_live_containers summaries live = Inr cs \<and> c \<in> set cs)) \<and>
             v \<in> {container_name_of c, container_id_of c} \<and> v \<noteq> []"
    using container_match_sound [of ?tg cs v] by blast
  with v(2) have "\<exists>v. q = p\<lparr>p_params := [(''container_id'', JStr v), (''target'', JStr v)]\<rparr> \<and>
        (\<exists>c. (c \<in> set (get_cached_containers col) \<or>
              (\<exists>cs. get_live_containers summaries live = Inr cs \<and> c \<in> set cs)) \<and>
             v \<in> {container_name_of c, container_id_of c} \<and> v \<noteq> [])" by blast
  with True show ?thesis by (simp only: if_True simp_thms)
qed (use assms in \<open>simp add: normalize_action_proposal_def\<close>)

definition restart_proposal :: action_proposal where
  "restart_proposal =
     sample_proposal\<lparr>p_action := ''RESTART_CONTAINER'', p_params := [(''target'', JStr ''Front'')]\<rparr>"

theorem normalized_restart_target_known_witness:
  "\<exists>v. p_params (restart_proposal\<lparr>p_params := [(''container_id'', JStr ''web_front''), (''target'', JStr ''web_front'')]\<rparr>) =
       [(''container_id'', JStr v), (''target'', JStr v)] \<and>
     (\<exists>c \<in> set example_containers. v \<in> {container_name_of c, container_id_of c})"
proof -
  let ?q = "restart_proposal\<lparr>p_params := [(''container_id'', JStr ''web_front''), (''target'', JStr ''web_front'')]\<rparr>"
  have "normalize_action_proposal (\<lambda>_. Some example_containers) None (Replied [(''success'', JBool True)]) restart_proposal
      = Inr (None, ?q)"
    by code_simp
  from normalized_restart_target_known [OF this] show ?thesis
    by (auto simp: restart_proposal_def sample_proposal_def new_proposal_def get_cached_containers_def get_live_containers_def)
qed

end
