(* ===== verification/Proposal_Api.thy ===== *)
theory Proposal_Api
  imports Container_Match
begin

text \<open>
  The proposal endpoints (\<open>src/master/api/chat_proposals.py\<close>), the protected
  services they refuse to touch (\<open>src/master/plugins/systemd/__init__.py\<close>), the
  role check in front of them (\<open>src/master/api/deps.py\<close>) and the insertion of a
  new proposal (\<open>src/master/api/chat_helpers.py\<close>), for a caller that is not the
  demo user. The clock readings and identifiers a request consumes are a record.
\<close>

section \<open>Protected services\<close>

definition PROTECTED_SERVICES :: "string list" where
  "PROTECTED_SERVICES =
     [''ssh'', ''sshd'', ''docker'', ''dockerd'', ''containerd'', ''networking'', ''systemd-networkd'',
      ''networkmanager'', ''systemd-resolved'', ''systemd-journald'', ''systemd-logind'', ''dbus'',
      ''vigile'', ''vigile-worker'']"

definition UNIT_EXTENSIONS :: "string list" where
  "UNIT_EXTENSIONS = [''.service'', ''.socket'', ''.target'', ''.timer'', ''.slice'']"

fun drop_extension :: "string list \<Rightarrow> string \<Rightarrow> string" where
  "drop_extension [] s = s"
| "drop_extension (ext # exts) s =
     (if ends_with s ext then take (length s - length ext) s else drop_extension exts s)"

definition canonical_service_name :: "string \<Rightarrow> string" where
  "canonical_service_name service = drop_extension UNIT_EXTENSIONS (lower (strip service))"

definition is_protected_service :: "string \<Rightarrow> bool" where
  "is_protected_service service \<longleftrightarrow> canonical_service_name service \<in> set PROTECTED_SERVICES"

section \<open>Callers and errors\<close>

record claims =
  cl_sub :: string
  cl_role :: "string option"

datatype api_error =
    HttpError nat string
  | Raised dispatch_error
  | QueryRaised string
  | NotAString json

definition ROLE_LEVEL :: "string option \<Rightarrow> nat" where
  "ROLE_LEVEL role = (case role of None \<Rightarrow> dict_get role_hierarchy ''viewer'' 0 | Some r \<Rightarrow> dict_get role_hierarchy r 0)"

definition require_role :: "string list \<Rightarrow> claims \<Rightarrow> api_error + claims" where
  \<comment> \<open>the factory is only called with at least one role\<close>
  "require_role roles cl =
     (if ROLE_LEVEL (cl_role cl) < Min (set (map (\<lambda>r. dict_get role_hierarchy r 99) roles))
      then Inl (HttpError 403 ''Insufficient permissions.'') else Inr cl)"

definition DESTRUCTIVE_ACTIONS :: "string list" where
  "DESTRUCTIVE_ACTIONS = [''DELETE_CONTAINER'', ''STOP_CONTAINER'', ''STOP_SERVICE'']"

fun first_truthy :: "json list \<Rightarrow> json" where
  \<comment> \<open>\<open>a or b or ... or ""\<close>\<close>
  "first_truthy [] = JStr []"
| "first_truthy (v # vs) = (if json_truthy v then v else first_truthy vs)"

definition params_get :: "action_proposal \<Rightarrow> string \<Rightarrow> json" where
  "params_get p k = dict_get (p_params p) k JNull"

definition target_service :: "action_proposal \<Rightarrow> json" where
  "target_service p =
     first_truthy [params_get p ''service'', params_get p ''service_name'',
       if is_infix_of ''SERVICE'' (p_action p) then params_get p ''target'' else JStr []]"

definition quoted :: "string \<Rightarrow> string" where
  "quoted s = [CHR 0x27] @ s @ [CHR 0x27]"

definition admin_only_detail :: "string \<Rightarrow> string" where
  "admin_only_detail action =
     ''L'' @ [CHR 0x27] @ ''approbation de l'' @ [CHR 0x27] @ ''action '' @ quoted action @
     '' est strictement r'' @ [CHR 0xE9] @ ''serv'' @ [CHR 0xE9] @ ''e aux administrateurs.''"

definition protected_detail :: "string \<Rightarrow> string" where
  "protected_detail service =
     ''Le service '' @ quoted service @ '' est prot'' @ [CHR 0xE9] @ ''g'' @ [CHR 0xE9] @
     '' et ne peut pas '' @ [CHR 0xEA] @ ''tre modifi'' @ [CHR 0xE9] @ ''.''"

section \<open>Endpoints\<close>

record approve_io =
  ai_now :: time
  ai_t1 :: time
  ai_t2 :: time
  ai_audit_now :: time
  ai_audit_uuid :: string
  ai_dispatch :: dispatch_io

definition api_audit ::
  "approve_io \<Rightarrow> string \<Rightarrow> audit_action \<Rightarrow> string \<Rightarrow> (string, json) dict \<Rightarrow> audit_request" where
  "api_audit io user action node details =
     \<lparr>ar_user_id = user, ar_action = audit_action_str action, ar_node_id = Some node,
      ar_details = JObj details, ar_now = ai_audit_now io, ar_uuid = ai_audit_uuid io\<rparr>"

definition logging ::
  "hash \<Rightarrow> audit_request \<Rightarrow> (api_error + 'a) \<Rightarrow> master_db \<Rightarrow> (api_error + 'a) \<times> master_db" where
  \<comment> \<open>\<open>await log_action(...)\<close> and then \<open>ret\<close>, unless logging raised\<close>
  "logging H r ret db =
     (let logged = log_action H r [] (audit db); db' = db\<lparr>audit := snd logged\<rparr>
      in case fst logged of Inl e \<Rightarrow> (Inl (Raised (AuditFailed e)), db') | Inr _ \<Rightarrow> (ret, db'))"

definition opt_str :: "string option \<Rightarrow> json" where
  "opt_str s = (case s of None \<Rightarrow> JNull | Some t \<Rightarrow> JStr t)"

definition approved_details :: "action_proposal \<Rightarrow> json \<Rightarrow> (string, json) dict" where
  "approved_details p result =
     [(''proposal_id'', JStr (p_id p)), (''action'', JStr (p_action p)),
      (''target'', first_truthy [params_get p ''target'', params_get p ''container_id'',
                                 params_get p ''container'', params_get p ''service'']),
      (''status'', JStr (proposal_status_str (p_status p))), (''result'', result)]"

definition save_failed :: "proposal_row \<Rightarrow> proposal_row \<Rightarrow> proposal_row" where
  "save_failed d r =
     r\<lparr>r_status := r_status d, r_approved_by := r_approved_by d, r_updated_at := r_updated_at d,
       r_executed_at := r_executed_at d, r_result_json := r_result_json d, r_params_json := r_params_json d\<rparr>"

definition save_approved :: "proposal_row \<Rightarrow> proposal_row \<Rightarrow> proposal_row" where
  "save_approved d r =
     r\<lparr>r_status := r_status d, r_approved_by := r_approved_by d, r_updated_at := r_updated_at d,
       r_params_json := r_params_json d\<rparr>"

definition save_rejected :: "proposal_row \<Rightarrow> proposal_row \<Rightarrow> proposal_row" where
  "save_rejected d r =
     r\<lparr>r_status := r_status d, r_rejected_by := r_rejected_by d,
       r_rejection_reason := r_rejection_reason d, r_updated_at := r_updated_at d\<rparr>"

definition update_row :: "(proposal_row \<Rightarrow> proposal_row) \<Rightarrow> string \<Rightarrow> master_db \<Rightarrow> master_db" where
  \<comment> \<open>\<open>UPDATE action_proposals SET ... WHERE id = ?\<close>\<close>
  "update_row f i db = db\<lparr>proposals := sql_update (\<lambda>r. r_id r = i) f (proposals db)\<rparr>"

definition fetch_proposal :: "string \<Rightarrow> master_db \<Rightarrow> api_error + action_proposal" where
  "fetch_proposal pid db =
     (case sql_fetchone (\<lambda>r. r_id r = pid) (proposals db) of
        None \<Rightarrow> Inl (HttpError 404 ''Proposal not found'')
      | Some r \<Rightarrow> (case from_db_row r of Inl e \<Rightarrow> Inl (Raised (BadRow e)) | Inr p \<Rightarrow> Inr p))"

definition fetch_pending :: "string \<Rightarrow> master_db \<Rightarrow> api_error + action_proposal" where
  "fetch_pending pid db =
     (case fetch_proposal pid db of
        Inl e \<Rightarrow> Inl e
      | Inr p \<Rightarrow>
          if p_status p \<noteq> PENDING
          then Inl (HttpError 409 (''Proposal is '' @ proposal_status_str (p_status p) @ '', not PENDING''))
          else Inr p)"

text \<open>What follows a passed check: the approval itself, then the dispatch.\<close>

definition approve_and_dispatch ::
  "hash \<Rightarrow> approve_io \<Rightarrow> (json \<Rightarrow> container list option) \<Rightarrow> string option \<Rightarrow> send_outcome \<Rightarrow> send_outcome \<Rightarrow>
     claims \<Rightarrow> string \<Rightarrow> action_proposal \<Rightarrow> master_db \<Rightarrow>
     (api_error + action_proposal) \<times> master_db \<times> intent list" where
  "approve_and_dispatch H io summaries col live out cl pid p db =
     (case approve (cl_sub cl) (ai_now io) p of
        Inl e \<Rightarrow> (Inl (Raised (BadRow e)), db, [])
      | Inr a \<Rightarrow>
          (case normalize_action_proposal summaries col live a of
             Inl e \<Rightarrow> (Inl (QueryRaised e), db, [])
           | Inr (Some err, a') \<Rightarrow>
               (case complete False [(''error'', JStr err)] (ai_t1 io) (ai_t2 io) a' of
                  Inl e \<Rightarrow> (Inl (Raised (BadRow e)), db, [])
                | Inr q \<Rightarrow>
                    (let d = to_db_dict q; db1 = update_row (save_failed d) (p_id q) db;
                         done1 = logging H (api_audit io (cl_sub cl) AA_PROPOSAL_APPROVED (p_node_id q)
                           (approved_details q (opt_str (r_result_json d)))) (Inr q) db1
                     in (fst done1, snd done1, [])))
           | Inr (None, a') \<Rightarrow>
               (let db1 = update_row (save_approved (to_db_dict a')) (p_id a') db
                in case dispatch_approved H (ai_dispatch io) out (p_id a') db1 of
                     (Inl e, db2, sent) \<Rightarrow> (Inl (Raised e), db2, sent)
                   | (Inr result, db2, sent) \<Rightarrow>
                       (let done1 = logging H (api_audit io (cl_sub cl) AA_PROPOSAL_APPROVED (p_node_id a')
                              (approved_details a' (JObj result))) (fetch_proposal pid db2) db2
                        in (fst done1, snd done1, sent)))))"

definition refuse_approval ::
  "hash \<Rightarrow> approve_io \<Rightarrow> claims \<Rightarrow> action_proposal \<Rightarrow> (string, json) dict \<Rightarrow> string \<Rightarrow> master_db \<Rightarrow>
     (api_error + action_proposal) \<times> master_db \<times> intent list" where
  \<comment> \<open>the incident is logged, then 403 is raised\<close>
  "refuse_approval H io cl p details detail db =
     (let ret = logging H (api_audit io (cl_sub cl) AA_SECURITY_INCIDENT (p_node_id p) details)
            (Inl (HttpError 403 detail)) db
      in (fst ret, snd ret, []))"

definition role_incident :: "claims \<Rightarrow> action_proposal \<Rightarrow> (string, json) dict" where
  "role_incident cl p =
     [(''reason'', JStr ''unauthorized_role_attempt''), (''required_role'', JStr ''admin''),
      (''user_role'', opt_str (cl_role cl)), (''action'', JStr (p_action p)), (''proposal_id'', JStr (p_id p))]"

definition service_incident :: "string \<Rightarrow> action_proposal \<Rightarrow> (string, json) dict" where
  "service_incident service p =
     [(''reason'', JStr ''attempt_to_target_protected_service''), (''action'', JStr (p_action p)),
      (''service'', JStr service), (''proposal_id'', JStr (p_id p))]"

definition approve_proposal ::
  "hash \<Rightarrow> approve_io \<Rightarrow> (json \<Rightarrow> container list option) \<Rightarrow> string option \<Rightarrow> send_outcome \<Rightarrow> send_outcome \<Rightarrow>
     claims \<Rightarrow> string \<Rightarrow> master_db \<Rightarrow> (api_error + action_proposal) \<times> master_db \<times> intent list" where
  "approve_proposal H io summaries col live out cl pid db =
     (case fetch_pending pid db of
        Inl e \<Rightarrow> (Inl e, db, [])
      | Inr p \<Rightarrow>
          if p_action p \<in> set DESTRUCTIVE_ACTIONS \<and> cl_role cl \<noteq> Some ''admin'' then
            refuse_approval H io cl p (role_incident cl p) (admin_only_detail (p_action p)) db
          else
            (case target_service p of
               JStr service \<Rightarrow>
                 if is_protected_service service then
                   refuse_approval H io cl p (service_incident service p) (protected_detail service) db
                 else approve_and_dispatch H io summaries col live out cl pid p db
             | v \<Rightarrow> (Inl (NotAString v), db, [])))"

definition rejected_details :: "action_proposal \<Rightarrow> string \<Rightarrow> (string, json) dict" where
  "rejected_details p reason =
     [(''proposal_id'', JStr (p_id p)), (''action'', JStr (p_action p)),
      (''target'', first_truthy [params_get p ''target'', params_get p ''container'', params_get p ''service'']),
      (''reason'', JStr reason)]"

definition reject_proposal ::
  "hash \<Rightarrow> approve_io \<Rightarrow> string \<Rightarrow> claims \<Rightarrow> string \<Rightarrow> master_db \<Rightarrow> (api_error + action_proposal) \<times> master_db" where
  "reject_proposal H io reason cl pid db =
     (case fetch_pending pid db of
        Inl e \<Rightarrow> (Inl e, db)
      | Inr p \<Rightarrow>
          (case reject (cl_sub cl) reason (ai_now io) p of
             Inl e \<Rightarrow> (Inl (Raised (BadRow e)), db)
           | Inr q \<Rightarrow>
               logging H (api_audit io (cl_sub cl) AA_PROPOSAL_REJECTED (p_node_id q) (rejected_details q reason))
                 (Inr q) (update_row (save_rejected (to_db_dict q)) (p_id q) db)))"

definition get_proposal :: "string \<Rightarrow> master_db \<Rightarrow> api_error + action_proposal" where
  "get_proposal pid db = fetch_proposal pid db"

fun rows_to_proposals :: "proposal_row list \<Rightarrow> api_error + action_proposal list" where
  "rows_to_proposals [] = Inr []"
| "rows_to_proposals (r # rs) =
     (case from_db_row r of
        Inl e \<Rightarrow> Inl (Raised (BadRow e))
      | Inr p \<Rightarrow> (case rows_to_proposals rs of Inl e \<Rightarrow> Inl e | Inr ps \<Rightarrow> Inr (p # ps)))"

definition list_proposals :: "string option \<Rightarrow> master_db \<Rightarrow> api_error + action_proposal list" where
  "list_proposals status_filter db =
     rows_to_proposals (sort_key (\<lambda>r. - r_created_at r)
       (case status_filter of
          None \<Rightarrow> proposals db
        | Some st \<Rightarrow>
            if st = [] then proposals db
            else filter (\<lambda>r. proposal_status_str (r_status r) = st) (proposals db)))"

definition persist_proposal :: "action_proposal \<Rightarrow> proposal_table \<Rightarrow> proposal_table" where
  \<comment> \<open>\<open>_persist_proposal\<close>: the columns it does not name take their default, null\<close>
  "persist_proposal p tbl =
     tbl @ [(to_db_dict p)\<lparr>r_approved_by := None, r_rejected_by := None, r_rejection_reason := None,
              r_executed_at := None, r_result_json := None, r_dispatch_id := None, r_intent_id := None,
              r_expires_at := None\<rparr>]"

section \<open>Lemmas\<close>

lemma logging_result:
  shows "proposals (snd (logging H r ret db)) = proposals db"
    and "audit (snd (logging H r ret db)) = log_alone H r (audit db)"
    and "fst (logging H r (Inr x) db) = Inr y \<Longrightarrow> y = x"
  by (auto simp: logging_def log_alone_def Let_def split: sum.splits)

lemma logging_Inl [simp]: "fst (logging H r (Inl e) db) \<noteq> Inr x"
  by (auto simp: logging_def Let_def split: sum.splits)

lemma fetch_pending_Inr:
  "fetch_pending pid db = Inr p \<longleftrightarrow>
     (\<exists>r. row_of pid (proposals db) = Some r \<and> from_db_row r = Inr p \<and> r_status r = PENDING)"
  by (auto simp: fetch_pending_def fetch_proposal_def row_of_def from_db_row_fields
      simp del: sql_fetchone_None_iff split: option.splits sum.splits)

lemma row_of_update:
  assumes "\<And>r. r_id (f r) = r_id r"
  shows "row_of pid' (proposals (update_row f pid db)) =
     (if pid' = pid then map_option f (row_of pid (proposals db)) else row_of pid' (proposals db))"
  using assms by (simp add: row_of_def update_row_def sql_fetchone_update_key_all [where key = r_id]
      sql_fetchone_update_other_key_all [where key = r_id])

lemma table_ok_update:
  assumes "\<And>r. r_id (f r) = r_id r"
  shows "table_ok (proposals (update_row f pid db)) = table_ok (proposals db)"
  using assms by (simp add: table_ok_def update_row_def map_sql_update_key)

lemma save_ids [simp]:
  "r_id (save_failed d r) = r_id r" "r_id (save_approved d r) = r_id r" "r_id (save_rejected d r) = r_id r"
  by (simp_all add: save_failed_def save_approved_def save_rejected_def)

lemma save_rejected_status [simp]: "r_status (save_rejected d r) = r_status d"
  by (simp add: save_rejected_def)

lemma row_of_id: "row_of pid tbl = Some r \<Longrightarrow> r_id r = pid"
  by (auto simp: row_of_def dest: sql_fetchone_SomeD)

lemma normalize_keeps:
  assumes "normalize_action_proposal summaries col live p = Inr (e, q)"
  shows "p_id q = p_id p" "p_node_id q = p_node_id p" "p_action q = p_action p" "p_status q = p_status p"
    "p_approved_by q = p_approved_by p" "p_dispatch_id q = p_dispatch_id p" "p_result q = p_result p"
    "p_reasoning q = p_reasoning p"
  using assms
  by (auto simp: normalize_action_proposal_def Let_def split: if_splits sum.splits match_result.splits)

lemma dispatch_sends:
  assumes "table_ok (proposals db)" and "dispatch_approved H io out pid db = (res, db', sent)" and "sent \<noteq> []"
  obtains r p where "row_of pid (proposals db) = Some r" "from_db_row r = Inr p" "sent = [intent_of p (io_intent_id io)]"
  using assms(1)
proof (cases rule: dispatch_approved_cases [where H = H and io = io and out = out and pid = pid])
  case (refused e)
  with assms show thesis by simp
next
  case (raised p e)
  then have "sent = [intent_of p (io_intent_id io)]" using assms(2) by simp
  with raised(1) that show thesis by (auto simp: dispatchable_def)
next
  case (finished p q r)
  then have "sent = [intent_of p (io_intent_id io)]" using assms(2) by simp
  with finished(1) that show thesis by (auto simp: dispatchable_def)
qed

lemma approve_and_dispatch_sends:
  assumes "approve_and_dispatch H io summaries col live out cl pid p db = (res, db', sent)" and "sent \<noteq> []"
  obtains a q db2 res2 where "approve (cl_sub cl) (ai_now io) p = Inr a"
    "normalize_action_proposal summaries col live a = Inr (None, q)"
    "dispatch_approved H (ai_dispatch io) out (p_id q)
       (update_row (save_approved (to_db_dict q)) (p_id q) db) = (res2, db2, sent)"
proof (cases "approve (cl_sub cl) (ai_now io) p")
  case (Inl e)
  with assms show thesis by (simp add: approve_and_dispatch_def)
next
  case (Inr a)
  note a = this
  show thesis
  proof (cases "normalize_action_proposal summaries col live a")
    case (Inl e)
    with a assms show thesis by (simp add: approve_and_dispatch_def)
  next
    case (Inr eq)
    obtain err q where eq: "eq = (err, q)" by (cases eq)
    show thesis
    proof (cases err)
      case None
      obtain res2 db2 s2 where d: "dispatch_approved H (ai_dispatch io) out (p_id q)
          (update_row (save_approved (to_db_dict q)) (p_id q) db) = (res2, db2, s2)" by (metis prod_cases3)
      then have "s2 = sent"
        using a Inr eq None assms(1) by (auto simp: approve_and_dispatch_def Let_def split: sum.splits)
      with d a Inr eq None that show thesis by blast
    next
      case (Some m)
      with a Inr eq assms show thesis
        by (auto simp: approve_and_dispatch_def Let_def split: sum.splits)
    qed
  qed
qed

lemma from_saved_row:
  assumes "from_db_row (save_approved (to_db_dict q) r) = Inr p"
  shows "p_node_id p = r_node_id r" and "p_action p = r_action r"
    and "json_plain (JObj (p_params q)) \<Longrightarrow> p_params p = p_params q"
proof -
  show "p_node_id p = r_node_id r" "p_action p = r_action r"
    using from_db_row_fields [OF assms] by (simp_all add: save_approved_def)
  assume "json_plain (JObj (p_params q))"
  then have "json_loads (r_params_json (save_approved (to_db_dict q) r)) = Some (JObj (p_params q))"
    by (simp add: save_approved_def to_db_dict_def json_loads_dumps del: json_dumps.simps)
  with assms show "p_params p = p_params q"
    by (auto simp: from_db_row_def json_loads_opt_def Let_def split: option.splits json.splits)
qed

text \<open>The two ways past the lookup: a refusal that is logged, or the approval.\<close>

lemma approve_proposal_cases [case_names not_pending forbidden not_string passed]:
  obtains (not_pending) e where "fetch_pending pid db = Inl e"
      "approve_proposal H io summaries col live out cl pid db = (Inl e, db, [])"
  | (forbidden) p d detail where "fetch_pending pid db = Inr p"
      "(p_action p \<in> set DESTRUCTIVE_ACTIONS \<and> cl_role cl \<noteq> Some ''admin'') \<or>
       (\<exists>s. target_service p = JStr s \<and> is_protected_service s)"
      "approve_proposal H io summaries col live out cl pid db = refuse_approval H io cl p d detail db"
  | (not_string) p v where "fetch_pending pid db = Inr p" "target_service p = v" "\<forall>s. v \<noteq> JStr s"
      "p_action p \<in> set DESTRUCTIVE_ACTIONS \<longrightarrow> cl_role cl = Some ''admin''"
      "approve_proposal H io summaries col live out cl pid db = (Inl (NotAString v), db, [])"
  | (passed) p s where "fetch_pending pid db = Inr p"
      "p_action p \<in> set DESTRUCTIVE_ACTIONS \<longrightarrow> cl_role cl = Some ''admin''"
      "target_service p = JStr s" "\<not> is_protected_service s"
      "approve_proposal H io summaries col live out cl pid db =
         approve_and_dispatch H io summaries col live out cl pid p db"
proof (cases "fetch_pending pid db")
  case (Inl e)
  then show thesis by (intro not_pending) (simp_all add: approve_proposal_def)
next
  case (Inr p)
  show thesis
  proof (cases "p_action p \<in> set DESTRUCTIVE_ACTIONS \<and> cl_role cl \<noteq> Some ''admin''")
    case True
    then show thesis by (intro forbidden [OF Inr, of "role_incident cl p" "admin_only_detail (p_action p)"])
        (simp_all add: approve_proposal_def Inr)
  next
    case False
    show thesis
    proof (cases "\<exists>s. target_service p = JStr s")
      case True
      then obtain s where JStr: "target_service p = JStr s" ..
      show thesis
      proof (cases "is_protected_service s")
        case True
        with JStr False show thesis
          by (intro forbidden [OF Inr, of "service_incident s p" "protected_detail s"])
            (auto simp: approve_proposal_def Inr)
      next
        case unprotected: False
        from False have "p_action p \<in> set DESTRUCTIVE_ACTIONS \<longrightarrow> cl_role cl = Some ''admin''" by blast
        then show thesis
          using JStr unprotected by (intro passed [OF Inr]) (auto simp: approve_proposal_def Inr)
      qed
    next
      case no_str: False
      with False have "approve_proposal H io summaries col live out cl pid db = (Inl (NotAString (target_service p)), db, [])"
        by (cases "target_service p") (auto simp: approve_proposal_def Inr)
      with no_str False show thesis by (intro not_string [OF Inr refl]) auto
    qed
  qed
qed

section \<open>Properties\<close>

text \<open>
  C2. The gate in front of the workers. Approving a proposal sends an intent only
  if the stored proposal was PENDING, the caller is an administrator where the
  action is destructive, its target is not a protected service and its parameters
  passed normalisation; then exactly one intent is sent, for the stored node and
  action, with the normalised parameters.
\<close>

theorem approval_gate:
  assumes "table_ok (proposals db)"
    and "approve_proposal H io summaries col live out cl pid db = (res, db', sent)" and "sent \<noteq> []"
  shows "\<exists>p a q s i. fetch_pending pid db = Inr p \<and>
    (p_action p \<in> set DESTRUCTIVE_ACTIONS \<longrightarrow> cl_role cl = Some ''admin'') \<and>
    target_service p = JStr s \<and> \<not> is_protected_service s \<and>
    approve (cl_sub cl) (ai_now io) p = Inr a \<and> normalize_action_proposal summaries col live a = Inr (None, q) \<and>
    sent = [i] \<and> it_node_id i = p_node_id p \<and> it_action i = p_action p \<and>
    (json_plain (JObj (p_params q)) \<longrightarrow> it_params i = p_params q)"
proof -
  obtain p s where p: "fetch_pending pid db = Inr p"
    "p_action p \<in> set DESTRUCTIVE_ACTIONS \<longrightarrow> cl_role cl = Some ''admin''"
    "target_service p = JStr s" "\<not> is_protected_service s"
    "approve_and_dispatch H io summaries col live out cl pid p db = (res, db', sent)"
  proof (cases rule: approve_proposal_cases
      [where H = H and io = io and summaries = summaries and col = col and live = live and out = out and cl = cl
        and pid = pid and db = db])
    case (passed p s)
    from passed(5) assms(2) show thesis by (intro that [OF passed(1-4)]) simp
  qed (use assms(2,3) in \<open>simp_all add: refuse_approval_def Let_def\<close>)
  from approve_and_dispatch_sends [OF p(5) assms(3)] obtain a q db2 res2 where
    a: "approve (cl_sub cl) (ai_now io) p = Inr a" "normalize_action_proposal summaries col live a = Inr (None, q)"
    "dispatch_approved H (ai_dispatch io) out (p_id q)
       (update_row (save_approved (to_db_dict q)) (p_id q) db) = (res2, db2, sent)" .
  from p(1) obtain r where r: "row_of pid (proposals db) = Some r" "from_db_row r = Inr p"
    by (auto simp: fetch_pending_Inr)
  have id: "p_id q = pid" "p_node_id p = r_node_id r" "p_action p = r_action r"
    using a(1,2) r row_of_id [OF r(1)] by (auto simp: approve_Inr normalize_keeps(1) from_db_row_fields)
  have ok: "table_ok (proposals (update_row (save_approved (to_db_dict q)) (p_id q) db))"
    using assms(1) by (simp add: table_ok_update)
  from dispatch_sends [OF ok a(3) assms(3)] obtain r' p' where
    "row_of (p_id q) (proposals (update_row (save_approved (to_db_dict q)) (p_id q) db)) = Some r'"
    "from_db_row r' = Inr p'" and s: "sent = [intent_of p' (io_intent_id (ai_dispatch io))]" by blast
  then have "from_db_row (save_approved (to_db_dict q) r) = Inr p'" using r(1) id by (simp add: row_of_update)
  from from_saved_row [OF this] show ?thesis
    using p a(1,2) s id by (auto simp: intent_of_def)
qed

definition sample_claims :: claims where
  "sample_claims = \<lparr>cl_sub = ''op'', cl_role = Some ''operator''\<rparr>"

definition sample_approve_io :: approve_io where
  "sample_approve_io = \<lparr>ai_now = 150, ai_t1 = 151, ai_t2 = 152, ai_audit_now = 210, ai_audit_uuid = ''a2'',
     ai_dispatch = sample_io\<rparr>"

definition pending_db :: master_db where
  "pending_db = \<lparr>proposals = [to_db_dict sample_proposal], audit = []\<rparr>"

definition approved_sample :: "(api_error + action_proposal) \<times> master_db \<times> intent list" where
  "approved_sample = approve_proposal toy_hash sample_approve_io (\<lambda>_. None) None (Replied [])
     (Replied [(''success'', JBool True)]) sample_claims ''p1'' pending_db"

lemma sample_pending:
  "fetch_pending ''p1'' pending_db = Inr sample_proposal" "target_service sample_proposal = JStr ''nginx''"
  "is_protected_service ''nginx'' = False"
  by code_simp+

lemma approved_sample_sends: "snd (snd approved_sample) \<noteq> []"
proof -
  let ?a = "sample_proposal\<lparr>p_status := APPROVED, p_approved_by := Some ''op'', p_updated_at := 150\<rparr>"
  let ?db = "update_row (save_approved (to_db_dict ?a)) ''p1'' pending_db"
  have action: "p_action sample_proposal = ''RESTART_SERVICE''" by (simp add: sample_proposal_def new_proposal_def)
  have "row_of ''p1'' (proposals ?db) = Some (save_approved (to_db_dict ?a) (to_db_dict sample_proposal))" by code_simp
  moreover have "from_db_row (save_approved (to_db_dict ?a) (to_db_dict sample_proposal)) = Inr ?a" by code_simp
  ultimately have "dispatchable ''p1'' (proposals ?db) ?a"
    by (simp add: dispatchable_def save_approved_def sample_proposal_def new_proposal_def)
  moreover have "table_ok (proposals ?db)" by (simp add: table_ok_update, simp add: table_ok_def pending_db_def)
  ultimately have "snd (snd (dispatch_approved toy_hash sample_io (Replied [(''success'', JBool True)]) ''p1'' ?db)) \<noteq> []"
    by (simp add: dispatch_sent)
  moreover have "approve_proposal toy_hash sample_approve_io (\<lambda>_. None) None (Replied [])
     (Replied [(''success'', JBool True)]) sample_claims ''p1'' pending_db =
     approve_and_dispatch toy_hash sample_approve_io (\<lambda>_. None) None (Replied [])
     (Replied [(''success'', JBool True)]) sample_claims ''p1'' sample_proposal pending_db"
    using action by (simp add: approve_proposal_def sample_pending DESTRUCTIVE_ACTIONS_def)
  ultimately show ?thesis
    by (auto simp: approved_sample_def approve_and_dispatch_def sample_proposal_def new_proposal_def approve_def
        sample_claims_def sample_approve_io_def normalize_action_proposal_def Let_def split: sum.splits prod.splits)
qed

theorem approval_gate_witness:
  "\<exists>p. fetch_pending ''p1'' pending_db = Inr p \<and> map it_action (snd (snd approved_sample)) = [p_action p]"
proof -
  have ok: "table_ok (proposals pending_db)" by (simp add: table_ok_def pending_db_def)
  have "approve_proposal toy_hash sample_approve_io (\<lambda>_. None) None (Replied [])
     (Replied [(''success'', JBool True)]) sample_claims ''p1'' pending_db =
     (fst approved_sample, fst (snd approved_sample), snd (snd approved_sample))"
    by (simp add: approved_sample_def)
  from approval_gate [OF ok this approved_sample_sends] show ?thesis by auto
qed

text \<open>
  A refused approval is an incident on record. Approving a destructive
  action without the administrator role, or any action on a protected service,
  fails, sends nothing, leaves the proposals as they are and appends a
  SECURITY_INCIDENT of the caller to the trail, which stays a chain.
\<close>

theorem forbidden_approval_recorded:
  assumes "fetch_pending pid db = Inr p" and "chain_ok H (audit db)"
    and "(p_action p \<in> set DESTRUCTIVE_ACTIONS \<and> cl_role cl \<noteq> Some ''admin'') \<or>
         (\<exists>s. target_service p = JStr s \<and> is_protected_service s)"
    and "approve_proposal H io summaries col live out cl pid db = (res, db', sent)"
  shows "(\<exists>e. res = Inl e) \<and> sent = [] \<and> proposals db' = proposals db \<and>
    (\<exists>req. ar_action req = ''SECURITY_INCIDENT'' \<and> ar_user_id req = cl_sub cl \<and>
       audit db' = log_alone H req (audit db)) \<and>
    chain_ok H (audit db') \<and> prefix (audit db) (audit db')"
proof -
  obtain d detail where l:
    "approve_proposal H io summaries col live out cl pid db = refuse_approval H io cl p d detail db"
  proof (cases rule: approve_proposal_cases
      [where H = H and io = io and summaries = summaries and col = col and live = live and out = out and cl = cl
        and pid = pid and db = db])
    case (forbidden q d detail)
    from forbidden(1,3) assms(1) show thesis by (intro that [of d detail]) simp
  next
    case (not_string q v)
    with assms(1,3) show thesis by auto
  next
    case (passed q s)
    with assms(1,3) show thesis by auto
  qed (use assms(1) in simp)
  define req where "req = api_audit io (cl_sub cl) AA_SECURITY_INCIDENT (p_node_id p) d"
  define ret :: "(api_error + action_proposal) \<times> master_db"
    where "ret = logging H req (Inl (HttpError 403 detail)) db"
  have db': "db' = snd ret" and res: "res = fst ret" and s: "sent = []"
    using assms(4) l by (simp_all add: ret_def req_def refuse_approval_def Let_def)
  have "\<exists>e. res = Inl e"
    by (cases res) (auto simp: res ret_def)
  moreover have "audit db' = log_alone H req (audit db)" "proposals db' = proposals db"
    by (simp_all add: db' ret_def logging_result(1,2))
  moreover have "ar_action req = ''SECURITY_INCIDENT''" "ar_user_id req = cl_sub cl"
    by (simp_all add: req_def api_audit_def)
  ultimately show ?thesis
    using s trail.log_valid [OF assms(2)] trail.log_extends [OF assms(2)] by auto
qed

definition protected_db :: master_db where
  "protected_db =
     \<lparr>proposals = [to_db_dict (sample_proposal\<lparr>p_params := [(''service'', JStr '' SSHD.service'')]\<rparr>)], audit = []\<rparr>"

theorem forbidden_approval_recorded_witness:
  "let d = approve_proposal toy_hash sample_approve_io (\<lambda>_. None) None (Replied []) (Replied []) sample_claims ''p1''
       protected_db in
   snd (snd d) = [] \<and> proposals (fst (snd d)) = proposals protected_db"
proof -
  let ?p = "sample_proposal\<lparr>p_params := [(''service'', JStr '' SSHD.service'')]\<rparr>"
  have p: "fetch_pending ''p1'' protected_db = Inr ?p" by code_simp
  have "target_service ?p = JStr '' SSHD.service'' \<and> is_protected_service '' SSHD.service''" by code_simp
  moreover have "chain_ok toy_hash (audit protected_db)" by (simp add: chain_ok_def protected_db_def)
  ultimately show ?thesis
    using forbidden_approval_recorded [OF p, of toy_hash sample_claims sample_approve_io "\<lambda>_. None" None "Replied []"
        "Replied []"]
    by (metis prod.collapse)
qed

lemma drop_extension_cases:
  "drop_extension exts s = s \<or> (\<exists>e \<in> set exts. s = drop_extension exts s @ e)"
proof (induction exts)
  case (Cons e es)
  show ?case
  proof (cases "ends_with s e")
    case True
    then obtain b where "s = b @ e" by (auto simp: ends_with_iff)
    with True show ?thesis by auto
  next
    case False
    with Cons.IH show ?thesis by auto
  qed
qed simp

lemma protected_with_extension:
  "list_all (\<lambda>b. drop_extension UNIT_EXTENSIONS b = b \<and>
     list_all (\<lambda>e. drop_extension UNIT_EXTENSIONS (b @ e) = b) UNIT_EXTENSIONS) PROTECTED_SERVICES"
  by code_simp

text \<open>
  What counts as protected. A service name is protected exactly when, after
  trimming and lower-casing, it is a listed name or a listed name with one of
  the five unit extensions.
\<close>

theorem protected_service_names:
  "is_protected_service s \<longleftrightarrow>
     (\<exists>b \<in> set PROTECTED_SERVICES. lower (strip s) = b \<or> (\<exists>e \<in> set UNIT_EXTENSIONS. lower (strip s) = b @ e))"
proof
  assume "is_protected_service s"
  then show "\<exists>b \<in> set PROTECTED_SERVICES. lower (strip s) = b \<or> (\<exists>e \<in> set UNIT_EXTENSIONS. lower (strip s) = b @ e)"
    using drop_extension_cases [of UNIT_EXTENSIONS "lower (strip s)"]
    unfolding is_protected_service_def canonical_service_name_def by metis
next
  assume "\<exists>b \<in> set PROTECTED_SERVICES. lower (strip s) = b \<or> (\<exists>e \<in> set UNIT_EXTENSIONS. lower (strip s) = b @ e)"
  then show "is_protected_service s"
    using protected_with_extension
    unfolding is_protected_service_def canonical_service_name_def list_all_iff by auto
qed

theorem protected_service_names_witness:
  "is_protected_service ''  NetworkManager.SOCKET''"
  using protected_service_names [of "''  NetworkManager.SOCKET''"] by code_simp

text \<open>
  Rejection is final. Rejecting a pending proposal stores REJECTED with the
  caller and the reason and touches no other proposal; from then on approving,
  rejecting and dispatching it all fail, send nothing and change nothing.
\<close>

theorem rejection_is_final:
  assumes "table_ok (proposals db)" and "reject_proposal H io reason cl pid db = (Inr q, db')"
  shows "(\<exists>r. row_of pid (proposals db') = Some r \<and> r_status r = REJECTED \<and> r_rejected_by r = Some (cl_sub cl) \<and>
      r_rejection_reason r = Some reason) \<and>
    (\<forall>pid'. pid' \<noteq> pid \<longrightarrow> row_of pid' (proposals db') = row_of pid' (proposals db)) \<and>
    (\<exists>e. approve_proposal H io' summaries col live out cl' pid db' = (Inl e, db', [])) \<and>
    (\<exists>e. reject_proposal H io' reason' cl' pid db' = (Inl e, db')) \<and>
    (\<exists>e. dispatch_approved H dio out pid db' = (Inl e, db', []))"
proof -
  from assms(2) obtain p q0 req where p0: "fetch_pending pid db = Inr p" "reject (cl_sub cl) reason (ai_now io) p = Inr q0"
    "logging H req (Inr q0) (update_row (save_rejected (to_db_dict q0)) (p_id q0) db) = (Inr q, db')"
    by (auto simp: reject_proposal_def split: sum.splits)
  have "q0 = q" using logging_result(3) p0(3) by (metis fst_conv)
  with p0 have p: "fetch_pending pid db = Inr p" "reject (cl_sub cl) reason (ai_now io) p = Inr q"
    "db' = snd (logging H req (Inr q) (update_row (save_rejected (to_db_dict q)) (p_id q) db))"
    by simp_all
  from p(1) obtain r where r: "row_of pid (proposals db) = Some r" "from_db_row r = Inr p" by (auto simp: fetch_pending_Inr)
  have q: "p_status q = REJECTED" "p_rejected_by q = Some (cl_sub cl)" "p_rejection_reason q = Some reason" "p_id q = pid"
    using p(2) r row_of_id [OF r(1)] by (auto simp: reject_Inr from_db_row_fields)
  have tbl: "proposals db' = proposals (update_row (save_rejected (to_db_dict q)) pid db)"
    by (simp add: p(3) q logging_result(1))
  have row: "row_of pid (proposals db') = Some (save_rejected (to_db_dict q) r)"
    using r(1) by (simp add: tbl row_of_update)
  then have "\<forall>x. fetch_pending pid db' \<noteq> Inr x" using q by (simp add: fetch_pending_Inr)
  then obtain e where e: "fetch_pending pid db' = Inl e" by (cases "fetch_pending pid db'") auto
  have "table_ok (proposals db')" using assms(1) by (simp add: tbl table_ok_update)
  moreover have "\<forall>x. \<not> dispatchable pid (proposals db') x" using row q by (auto simp: dispatchable_def)
  ultimately have "\<exists>e. dispatch_approved H dio out pid db' = (Inl e, db', [])" by (rule dispatch_refused)
  moreover have "r_rejected_by (save_rejected (to_db_dict q) r) = Some (cl_sub cl) \<and>
      r_rejection_reason (save_rejected (to_db_dict q) r) = Some reason"
    using q by (simp add: save_rejected_def to_db_dict_def)
  moreover have "r_status (save_rejected (to_db_dict q) r) = REJECTED" using q by simp
  moreover have "row_of pid' (proposals db') = row_of pid' (proposals db)" if "pid' \<noteq> pid" for pid'
    using that by (simp add: tbl row_of_update)
  moreover have "approve_proposal H io' summaries col live out cl' pid db' = (Inl e, db', [])"
    "reject_proposal H io' reason' cl' pid db' = (Inl e, db')"
    by (simp_all add: approve_proposal_def reject_proposal_def e)
  ultimately show ?thesis using row by blast
qed

definition rejected_sample :: "(api_error + action_proposal) \<times> master_db" where
  "rejected_sample = reject_proposal toy_hash sample_approve_io ''too risky'' sample_claims ''p1'' pending_db"

lemma rejected_sample_ok: "\<exists>q. fst rejected_sample = Inr q"
proof -
  have "p_status sample_proposal = PENDING" by (simp add: sample_proposal_def new_proposal_def)
  moreover have "audit (update_row f i pending_db) = []" for f i by (simp add: update_row_def pending_db_def)
  ultimately show ?thesis
    by (simp add: rejected_sample_def reject_proposal_def sample_pending reject_def logging_def Let_def
        log_action_alone chain_ok_def)
qed

theorem rejection_is_final_witness:
  "\<exists>r. row_of ''p1'' (proposals (snd rejected_sample)) = Some r \<and> r_status r = REJECTED"
proof -
  obtain q db' where d: "rejected_sample = (Inr q, db')" using rejected_sample_ok by (metis prod.collapse)
  have "table_ok (proposals pending_db)" by (simp add: table_ok_def pending_db_def)
  from rejection_is_final [OF this d [unfolded rejected_sample_def]] show ?thesis by (simp add: d) blast
qed

end
