(* ===== verification/Proposal_Expiry.thy ===== *)
theory Proposal_Expiry
  imports Proposal_Api
begin

text \<open>
  Expiry of pending proposals (\<open>src/master/core/proposal_autoexpire.py\<close>): a pass
  reads the pending rows once, oldest first, and cancels those that are too old
  or whose triggering metric has recovered. The metrics are arguments: the node
  manager's memory cache and the snapshot table. A metric given as a text is a
  decimal number without underscores; infinities and NaN do not occur.
\<close>

section \<open>Metrics\<close>

definition PROPOSAL_TTL :: rat where "PROPOSAL_TTL = 3600"
definition METRIC_OK_THRESHOLD :: rat where "METRIC_OK_THRESHOLD = 80"

datatype metric_name = Disk_Percent | Mem_Percent | Cpu_Percent

primrec metric_str :: "metric_name \<Rightarrow> string" where
  "metric_str Disk_Percent = ''disk_percent''"
| "metric_str Mem_Percent = ''mem_percent''"
| "metric_str Cpu_Percent = ''cpu_percent''"

definition RESOURCE_KEYWORDS :: "(metric_name \<times> string list) list" where
  "RESOURCE_KEYWORDS =
     [(Disk_Percent, [''disk'', ''espace disque'', ''stockage'', ''storage'', ''volume'', ''disque'', ''disk usage'',
                      ''utilisation disque'']),
      (Mem_Percent, [''memory'', ''ram'', ''m'' @ [CHR 0xE9] @ ''moire'', ''mem'', ''memory usage'',
                     ''utilisation m'' @ [CHR 0xE9] @ ''moire'', ''swap'']),
      (Cpu_Percent, [''cpu'', ''processeur'', ''processor'', ''load'', ''cpu load'', ''charge cpu''])]"

fun find_metric :: "(metric_name \<times> string list) list \<Rightarrow> string \<Rightarrow> metric_name option" where
  "find_metric [] txt = None"
| "find_metric ((mt, kws) # rest) txt =
     (if list_ex (\<lambda>kw. is_infix_of kw txt) kws then Some mt else find_metric rest txt)"

record metrics_row =
  ms_node_id :: string
  ms_cpu :: "rat option"
  ms_mem :: "rat option"
  ms_disk :: "rat option"
  ms_collected_at :: time

primrec metric_column :: "metric_name \<Rightarrow> metrics_row \<Rightarrow> rat option" where
  "metric_column Disk_Percent r = ms_disk r"
| "metric_column Mem_Percent r = ms_mem r"
| "metric_column Cpu_Percent r = ms_cpu r"

text \<open>\<open>float()\<close> of a decimal text and of a decoded JSON value.\<close>

definition decimal_value :: "string \<Rightarrow> rat option" where
  "decimal_value s =
     (let neg = (s \<noteq> [] \<and> hd s = CHR ''-''); b = (if s \<noteq> [] \<and> hd s \<in> set ''+-'' then tl s else s);
          (mant, ex) = (takeWhile (\<lambda>c. c \<notin> set ''eE'') b, dropWhile (\<lambda>c. c \<notin> set ''eE'') b);
          (ip, fp) = (takeWhile (\<lambda>c. c \<noteq> CHR ''.'') mant, tl (dropWhile (\<lambda>c. c \<noteq> CHR ''.'') mant));
          e = (if ex = [] then Some 0 else if tl ex \<noteq> [] \<and> is_space (hd (tl ex)) then None else py_int (tl ex));
          v = (of_nat (digits_val 0 (ip @ fp)) / 10 ^ length fp :: rat)
      in if list_all is_digit (ip @ fp) \<and> ip @ fp \<noteq> [] then
           (case e of
              None \<Rightarrow> None
            | Some k \<Rightarrow> Some ((if neg then - v else v) * (if 0 \<le> k then 10 ^ nat k else 1 / 10 ^ nat (- k))))
         else None)"

fun json_float :: "json \<Rightarrow> rat option" where
  "json_float (JInt i) = Some (of_int i)"
| "json_float (JFloat t) = decimal_value t"
| "json_float (JBool b) = Some (if b then 1 else 0)"
| "json_float (JStr s) = decimal_value (strip s)"
| "json_float _ = None"

record metric_sources =
  latest_metrics :: "string \<Rightarrow> (string, json) dict option"
  snapshots :: "metrics_row list"

definition cached_value :: "metric_sources \<Rightarrow> string \<Rightarrow> metric_name \<Rightarrow> rat option" where
  "cached_value ms node mt =
     (if node = [] then None
      else case latest_metrics ms node of
             None \<Rightarrow> None
           | Some latest \<Rightarrow>
               (case dict_get latest ''metrics'' (JObj latest) of
                  JObj data \<Rightarrow>
                    (case map_of data (metric_str mt) of
                       None \<Rightarrow> None | Some JNull \<Rightarrow> None | Some v \<Rightarrow> json_float v)
                | _ \<Rightarrow> None))"

definition snapshot_value :: "metric_sources \<Rightarrow> string \<Rightarrow> metric_name \<Rightarrow> rat option" where
  "snapshot_value ms node mt =
     (case sort_key (\<lambda>r. - ms_collected_at r) (filter (\<lambda>r. ms_node_id r = node) (snapshots ms)) of
        [] \<Rightarrow> None
      | r # _ \<Rightarrow> metric_column mt r)"

definition check_metric_resolved :: "metric_sources \<Rightarrow> action_proposal \<Rightarrow> string option" where
  "check_metric_resolved ms p =
     (case find_metric RESOURCE_KEYWORDS (lower (p_reasoning p)) of
        None \<Rightarrow> None
      | Some mt \<Rightarrow>
          (let value = (case cached_value ms (p_node_id p) mt of
                          Some v \<Rightarrow> Some v | None \<Rightarrow> snapshot_value ms (p_node_id p) mt)
           in case value of
                None \<Rightarrow> None
              | Some v \<Rightarrow>
                  if v < METRIC_OK_THRESHOLD then
                    Some (''Condition r'' @ [CHR 0xE9] @ ''solue: '' @ metric_str mt @ '' '' @ [CHR 0xE0] @ '' '' @
                          fixed_str 1 v @ ''% (< 80%)'')
                  else None))"

section \<open>The pass\<close>

record expire_io =
  ei_now :: time
  ei_audit_now :: time
  ei_audit_uuid :: string

definition cancelled :: "string \<Rightarrow> expire_io \<Rightarrow> action_proposal \<Rightarrow> action_proposal" where
  "cancelled reason io p =
     p\<lparr>p_status := REJECTED, p_rejected_by := Some ''system'',
       p_rejection_reason := Some (''Auto-canceled: '' @ reason), p_updated_at := ei_now io\<rparr>"

definition do_cancel ::
  "hash \<Rightarrow> expire_io \<Rightarrow> action_proposal \<Rightarrow> string \<Rightarrow> master_db \<Rightarrow> (dispatch_error + unit) \<times> master_db" where
  "do_cancel H io p reason db =
     (let db1 = update_row (save_rejected (to_db_dict (cancelled reason io p))) (p_id p) db in
      if p_node_id p = [] then (Inr (), db1)
      else (let logged = log_action H
                  \<lparr>ar_user_id = ''system'', ar_action = ''PROPOSAL_REJECTED'', ar_node_id = Some (p_node_id p),
                   ar_details = JObj [(''proposal_id'', JStr (p_id p)), (''action'', JStr (p_action p)),
                                      (''reason'', JStr reason)],
                   ar_now = ei_audit_now io, ar_uuid = ei_audit_uuid io\<rparr> [] (audit db1);
                db2 = db1\<lparr>audit := snd logged\<rparr>
            in case fst logged of Inl e \<Rightarrow> (Inl (AuditFailed e), db2) | Inr _ \<Rightarrow> (Inr (), db2)))"

definition expiry_reason :: "metric_sources \<Rightarrow> time \<Rightarrow> action_proposal \<Rightarrow> string option" where
  "expiry_reason ms now p =
     (if PROPOSAL_TTL < now - p_created_at p
      then Some (''D'' @ [CHR 0xE9] @ ''lai expir'' @ [CHR 0xE9] @ '' (proposition trop ancienne)'')
      else check_metric_resolved ms p)"

fun expire_loop ::
  "hash \<Rightarrow> (string \<Rightarrow> expire_io) \<Rightarrow> metric_sources \<Rightarrow> time \<Rightarrow> proposal_row list \<Rightarrow> nat \<Rightarrow> master_db \<Rightarrow>
     (dispatch_error + nat) \<times> master_db" where
  "expire_loop H ios ms now [] n db = (Inr n, db)"
| "expire_loop H ios ms now (r # rs) n db =
     (case from_db_row r of
        Inl e \<Rightarrow> (Inl (BadRow e), db)
      | Inr p \<Rightarrow>
          (case expiry_reason ms now p of
             None \<Rightarrow> expire_loop H ios ms now rs n db
           | Some reason \<Rightarrow>
               (case do_cancel H (ios (p_id p)) p reason db of
                  (Inl e, db') \<Rightarrow> (Inl e, db')
                | (Inr _, db') \<Rightarrow> expire_loop H ios ms now rs (n + 1) db')))"

definition auto_expire_proposals ::
  "hash \<Rightarrow> (string \<Rightarrow> expire_io) \<Rightarrow> metric_sources \<Rightarrow> time \<Rightarrow> master_db \<Rightarrow> (dispatch_error + nat) \<times> master_db" where
  "auto_expire_proposals H ios ms now db =
     expire_loop H ios ms now (sort_key r_created_at (filter (\<lambda>r. r_status r = PENDING) (proposals db))) 0 db"

section \<open>Lemmas\<close>

definition row_expires :: "metric_sources \<Rightarrow> time \<Rightarrow> proposal_row \<Rightarrow> bool" where
  "row_expires ms now r \<longleftrightarrow>
     (case from_db_row r of Inl _ \<Rightarrow> False | Inr p \<Rightarrow> expiry_reason ms now p \<noteq> None)"

definition expired_row :: "(string \<Rightarrow> expire_io) \<Rightarrow> metric_sources \<Rightarrow> time \<Rightarrow> proposal_row \<Rightarrow> proposal_row" where
  \<comment> \<open>what the pass makes of a pending row\<close>
  "expired_row ios ms now r =
     (case from_db_row r of
        Inl _ \<Rightarrow> r
      | Inr p \<Rightarrow>
          (case expiry_reason ms now p of
             None \<Rightarrow> r
           | Some reason \<Rightarrow> save_rejected (to_db_dict (cancelled reason (ios (p_id p)) p)) r))"

lemma do_cancel_proposals:
  "proposals (snd (do_cancel H io p reason db)) =
     proposals (update_row (save_rejected (to_db_dict (cancelled reason io p))) (p_id p) db)"
  by (simp add: do_cancel_def Let_def split: sum.splits)

lemma do_cancel_audit:
  assumes "chain_ok H (audit db)"
  shows "chain_ok H (audit (snd (do_cancel H io p reason db))) \<and> prefix (audit db) (audit (snd (do_cancel H io p reason db)))"
  using trail.log_valid [OF assms] trail.log_extends [OF assms] assms
  by (auto simp: do_cancel_def Let_def update_row_def log_alone_def split: sum.splits)

lemma do_cancel_first:
  assumes "audit db = []"
  shows "fst (do_cancel H io p reason db) = Inr ()"
proof -
  have "audit (update_row f i db) = []" for f i using assms by (simp add: update_row_def)
  then show ?thesis by (simp add: do_cancel_def Let_def log_action_alone chain_ok_def)
qed

lemma expire_loop_rows:
  assumes "expire_loop H ios ms now rs n db = (Inr m, db')" and "distinct (map r_id rs)"
    and "\<And>r. r \<in> set rs \<Longrightarrow> row_of (r_id r) (proposals db) = Some r"
  shows "m = n + length (filter (row_expires ms now) rs) \<and>
    (\<forall>r \<in> set rs. row_of (r_id r) (proposals db') = Some (expired_row ios ms now r)) \<and>
    (\<forall>pid. pid \<notin> r_id ` set rs \<longrightarrow> row_of pid (proposals db') = row_of pid (proposals db))"
  using assms
proof (induction rs arbitrary: n db)
  case (Cons a rs)
  obtain p where p: "from_db_row a = Inr p" using Cons.prems(1) by (cases "from_db_row a") auto
  then have pid: "p_id p = r_id a" by (rule from_db_row_fields)
  have na: "r_id a \<notin> r_id ` set rs" and d': "distinct (map r_id rs)" using Cons.prems(2) by auto
  show ?case
  proof (cases "expiry_reason ms now p")
    case None
    then have h': "expire_loop H ios ms now rs n db = (Inr m, db')" using Cons.prems(1) p by simp
    have "\<not> row_expires ms now a" "expired_row ios ms now a = a"
      using p None by (simp_all add: row_expires_def expired_row_def)
    then show ?thesis using Cons.IH [OF h' d'] Cons.prems(3) na by auto
  next
    case (Some reason)
    let ?io = "ios (p_id p)"
    obtain u db1 where c: "do_cancel H ?io p reason db = (Inr u, db1)"
      and h': "expire_loop H ios ms now rs (n + 1) db1 = (Inr m, db')"
      using Cons.prems(1) p Some by (auto split: sum.splits prod.splits)
    have t1: "row_of x (proposals db1) = (if x = r_id a then
        map_option (save_rejected (to_db_dict (cancelled reason ?io p))) (row_of x (proposals db))
        else row_of x (proposals db))" for x
      using do_cancel_proposals [of H ?io p reason db] c pid by (simp add: row_of_update)
    have rows': "row_of (r_id r) (proposals db1) = Some r" if "r \<in> set rs" for r
    proof -
      have "r_id r \<noteq> r_id a" using that na by (metis imageI)
      with that show ?thesis using Cons.prems(3) [of r] by (simp add: t1)
    qed
    have "row_expires ms now a" "expired_row ios ms now a = save_rejected (to_db_dict (cancelled reason ?io p)) a"
      using p Some by (simp_all add: row_expires_def expired_row_def)
    then show ?thesis using Cons.IH [OF h' d' rows'] Cons.prems(3) [of a] na by (auto simp: t1)
  qed
qed simp

lemma row_of_member:
  assumes "table_ok tbl" and "r \<in> set tbl"
  shows "row_of (r_id r) tbl = Some r"
  using assms by (simp add: row_of_def table_ok_def sql_fetchone_key [where key = r_id])

lemma row_of_in: "row_of pid tbl = Some r \<Longrightarrow> r \<in> set tbl \<and> r_id r = pid"
  by (auto simp: row_of_def dest: sql_fetchone_SomeD)

section \<open>Properties\<close>


definition no_metrics :: metric_sources where
  "no_metrics = \<lparr>latest_metrics = (\<lambda>_. None), snapshots = []\<rparr>"

definition expiry_ios :: "string \<Rightarrow> expire_io" where
  "expiry_ios i = \<lparr>ei_now = 4000, ei_audit_now = 4001, ei_audit_uuid = i\<rparr>"


end
