(* ===== verification/Proposal_Concurrency.thy ===== *)
theory Proposal_Concurrency
  imports Proposal_Expiry
begin

text \<open>
  The proposal handlers interleaved. Every handler is a coroutine that gives up
  control at each database call and while it awaits the worker, so the unit of
  interleaving is one transaction of the code. A handler that has read a row and
  not yet written it back is a task that carries what it will write; any handler
  may also be cut off between two of its steps. The steps use the same functions
  as the sequential handlers of \<open>chat_proposals.py\<close>, \<open>proposal_autoexpire.py\<close>
  and \<open>proposal_dispatcher.py\<close>.
\<close>

datatype task =
    WriteFailed action_proposal
  | WriteApproved action_proposal
  | WriteRejected action_proposal
  | LoadTask string
  | ClaimTask action_proposal
  | SendTask action_proposal string
  | AwaitTask action_proposal

record sys =
  s_db :: master_db
  s_tasks :: "task multiset"
  s_sent :: "(string \<times> intent) list"

definition sys_init :: "sys \<Rightarrow> bool" where
  "sys_init s \<longleftrightarrow> table_ok (proposals (s_db s)) \<and> s_tasks s = {#} \<and> s_sent s = []"

text \<open>
  In the order of the code: a proposal is stored, by the assistant or by an
  administrator; an approval reads, then writes, then loads, claims, sends and
  persists; a rejection and an expiry read and write; a worker reports a result.
\<close>

inductive sys_step :: "sys \<Rightarrow> sys \<Rightarrow> bool" where
  create: "row_of (p_id p) (proposals (s_db s)) = None \<Longrightarrow>
    sys_step s (s\<lparr>s_db := (s_db s)\<lparr>proposals := persist_proposal p (proposals (s_db s))\<rparr>\<rparr>)"
| admin: "row_of i (proposals (s_db s)) = None \<Longrightarrow>
    sys_step s (s\<lparr>s_db := (s_db s)\<lparr>proposals := proposals (s_db s) @
        [to_db_dict (admin_proposal i nid action params user reasoning risk now)]\<rparr>,
      s_tasks := add_mset (LoadTask i) (s_tasks s)\<rparr>)"
| approve_read: "fetch_pending pid (s_db s) = Inr p \<Longrightarrow> approve user now p = Inr a \<Longrightarrow>
    normalize_action_proposal summaries col live a = Inr (None, q) \<Longrightarrow>
    sys_step s (s\<lparr>s_tasks := add_mset (WriteApproved q) (s_tasks s)\<rparr>)"
| approve_read_failed: "fetch_pending pid (s_db s) = Inr p \<Longrightarrow> approve user now p = Inr a \<Longrightarrow>
    normalize_action_proposal summaries col live a = Inr (Some err, a') \<Longrightarrow>
    complete False [(''error'', JStr err)] t1 t2 a' = Inr q \<Longrightarrow>
    sys_step s (s\<lparr>s_tasks := add_mset (WriteFailed q) (s_tasks s)\<rparr>)"
| approve_write_failed: "s_tasks s = add_mset (WriteFailed q) ts \<Longrightarrow>
    sys_step s (s\<lparr>s_db := update_row (save_failed (to_db_dict q)) (p_id q) (s_db s), s_tasks := ts\<rparr>)"
| approve_write: "s_tasks s = add_mset (WriteApproved q) ts \<Longrightarrow>
    sys_step s (s\<lparr>s_db := update_row (save_approved (to_db_dict q)) (p_id q) (s_db s),
      s_tasks := add_mset (LoadTask (p_id q)) ts\<rparr>)"
| reject_read: "fetch_pending pid (s_db s) = Inr p \<Longrightarrow> reject user reason now p = Inr q \<Longrightarrow>
    sys_step s (s\<lparr>s_tasks := add_mset (WriteRejected q) (s_tasks s)\<rparr>)"
| expire_read: "row_of pid (proposals (s_db s)) = Some r \<Longrightarrow> r_status r = PENDING \<Longrightarrow> from_db_row r = Inr p \<Longrightarrow>
    expiry_reason ms now p = Some why \<Longrightarrow>
    sys_step s (s\<lparr>s_tasks := add_mset (WriteRejected (cancelled why io p)) (s_tasks s)\<rparr>)"
| reject_write: "s_tasks s = add_mset (WriteRejected q) ts \<Longrightarrow>
    sys_step s (s\<lparr>s_db := update_row (save_rejected (to_db_dict q)) (p_id q) (s_db s), s_tasks := ts\<rparr>)"
| dispatch_load: "s_tasks s = add_mset (LoadTask pid) ts \<Longrightarrow> load_approved pid (proposals (s_db s)) = Inr p \<Longrightarrow>
    sys_step s (s\<lparr>s_tasks := add_mset (ClaimTask p) ts\<rparr>)"
| dispatch_claim: "s_tasks s = add_mset (ClaimTask p) ts \<Longrightarrow>
    cas_claim (p_id p) did iid now (proposals (s_db s)) = (Inr (), tbl') \<Longrightarrow>
    sys_step s (s\<lparr>s_db := (s_db s)\<lparr>proposals := tbl'\<rparr>, s_tasks := add_mset (SendTask p iid) ts\<rparr>)"
| dispatch_send: "s_tasks s = add_mset (SendTask p iid) ts \<Longrightarrow>
    sys_step s (s\<lparr>s_tasks := add_mset (AwaitTask p) ts, s_sent := s_sent s @ [(p_id p, intent_of p iid)]\<rparr>)"
| dispatch_persist: "s_tasks s = add_mset (AwaitTask p) ts \<Longrightarrow> complete_with out t1 t2 p = Inr (res, q) \<Longrightarrow>
    sys_step s (s\<lparr>s_db := (s_db s)\<lparr>proposals := persist_result (p_id p) (to_db_dict q) (proposals (s_db s))\<rparr>,
      s_tasks := ts\<rparr>)"
| worker_report: "resolve_intent_result H iid did nid res now t u (s_db s) = (ret, db') \<Longrightarrow> sys_step s (s\<lparr>s_db := db'\<rparr>)"
| cut_off: "s_tasks s = add_mset x ts \<Longrightarrow> sys_step s (s\<lparr>s_tasks := ts\<rparr>)"

section \<open>The claim is exclusive under interleaving\<close>

definition sends_of :: "string \<Rightarrow> sys \<Rightarrow> nat" where
  "sends_of pid s = length (filter (\<lambda>x. fst x = pid) (s_sent s))"

definition claims_of :: "string \<Rightarrow> sys \<Rightarrow> nat" where
  \<comment> \<open>intents sent or claimed and about to be sent\<close>
  "claims_of pid s = sends_of pid s + size (filter_mset (\<lambda>t. \<exists>p iid. t = SendTask p iid \<and> p_id p = pid) (s_tasks s))"

definition claimed_in :: "string \<Rightarrow> proposal_table \<Rightarrow> bool" where
  "claimed_in pid tbl \<longleftrightarrow> (case row_of pid tbl of None \<Rightarrow> False | Some r \<Rightarrow> r_dispatch_id r \<noteq> None)"

definition sys_inv :: "sys \<Rightarrow> bool" where
  "sys_inv s \<longleftrightarrow> table_ok (proposals (s_db s)) \<and>
     (\<forall>pid. claims_of pid s \<le> 1 \<and> (claims_of pid s = 1 \<longrightarrow> claimed_in pid (proposals (s_db s))))"

lemma table_ok_append_new: "table_ok tbl \<Longrightarrow> row_of (r_id r) tbl = None \<Longrightarrow> table_ok (tbl @ [r])"
  by (auto simp: table_ok_def row_of_def)

lemma row_of_append: "row_of i (tbl @ [r]) = (case row_of i tbl of Some x \<Rightarrow> Some x | None \<Rightarrow> if r_id r = i then Some r else None)"
  by (simp add: row_of_def sql_fetchone_append del: sql_fetchone_None_iff split: option.splits)

text \<open>No write of any handler takes a claim away.\<close>

lemma claimed_update_row:
  assumes "\<And>r. r_id (f r) = r_id r" and "\<And>r. r_dispatch_id (f r) = r_dispatch_id r" and "claimed_in pid (proposals db)"
  shows "claimed_in pid (proposals (update_row f i db))"
  using assms by (auto simp: claimed_in_def row_of_update split: option.splits)

lemma claimed_keep:
  assumes "claimed_in pid tbl"
  shows "claimed_in pid (tbl @ [r])" "claimed_in pid (persist_result i d tbl)"
    "claimed_in pid (sql_update (\<lambda>x. r_id x = i \<and> claim_where x) (claim_set did iid now) tbl)"
  using assms by (auto simp: claimed_in_def row_of_append row_of_persist row_of_claim split: option.splits)

lemma resolve_proposals:
  assumes "resolve_intent_result H iid did nid res now t u db = (ret, db')"
  shows "map r_id (proposals db') = map r_id (proposals db)"
    and "claimed_in pid (proposals db) \<Longrightarrow> claimed_in pid (proposals db')"
proof -
  obtain Q f where tbl: "proposals db' = sql_update Q f (proposals db)"
    "\<And>r. r_id (f r) = r_id r" "\<And>r. r_dispatch_id (f r) = r_dispatch_id r"
  proof (cases "sql_fetchone (\<lambda>r. r_intent_id r = Some iid \<and> r_dispatch_id r = Some did \<and>
             r_node_id r = nid \<and> r_status r = APPROVED) (proposals db)")
    case None
    with assms have "proposals db' = sql_update (\<lambda>_. False) id (proposals db)"
      unfolding resolve_intent_result_def by (simp add: sql_update_def del: sql_fetchone_None_iff)
    then show thesis by (rule that) simp_all
  next
    case (Some row)
    let ?st = "if json_truthy (get_success res) then EXECUTED else FAILED"
    have "proposals db' = sql_update (\<lambda>r. r_intent_id r = Some iid \<and> r_dispatch_id r = Some did)
      (\<lambda>r. r\<lparr>r_status := ?st, r_updated_at := now, r_executed_at := Some now,
             r_result_json := Some (json_dumps False (JObj res))\<rparr>) (proposals db)"
      using assms Some by (auto simp: resolve_intent_result_def Let_def split: sum.splits)
    then show thesis by (rule that) simp_all
  qed
  then show "map r_id (proposals db') = map r_id (proposals db)" by (simp add: map_sql_update_key)
  have "row_of pid (sql_update Q f xs) = map_option (\<lambda>r. if Q r then f r else r) (row_of pid xs)" for xs
    using tbl(2) by (induction xs) (auto simp: row_of_def)
  then show "claimed_in pid (proposals db')" if "claimed_in pid (proposals db)"
    using that tbl(3) by (auto simp: claimed_in_def tbl(1) split: option.splits)
qed

lemma sys_inv_mono:
  assumes "sys_inv s" and "table_ok (proposals (s_db t))" and "\<And>pid. claims_of pid t \<le> claims_of pid s"
    and "\<And>pid. claimed_in pid (proposals (s_db s)) \<Longrightarrow> claimed_in pid (proposals (s_db t))"
  shows "sys_inv t"
proof -
  have "claims_of pid t \<le> 1 \<and> (claims_of pid t = 1 \<longrightarrow> claimed_in pid (proposals (s_db t)))" for pid
  proof -
    have "claims_of pid s \<le> 1" "claims_of pid s = 1 \<longrightarrow> claimed_in pid (proposals (s_db s))"
      using assms(1) by (auto simp: sys_inv_def)
    with assms(3,4) [of pid] show ?thesis by linarith
  qed
  with assms(2) show ?thesis by (simp add: sys_inv_def)
qed

lemma cas_claim_success:
  assumes "table_ok tbl" and "cas_claim pid did iid now tbl = (Inr (), tbl')"
  shows "\<not> claimed_in pid tbl" and "claimed_in pid tbl'" and "table_ok tbl'"
    and "claimed_in pid' tbl \<Longrightarrow> claimed_in pid' tbl'"
proof -
  have tbl': "tbl' = sql_update (\<lambda>x. r_id x = pid \<and> claim_where x) (claim_set did iid now) tbl"
    using assms(2) by (auto simp: cas_claim_def split: if_splits option.splits)
  obtain r where r: "row_of pid tbl = Some r" "claim_where r"
  proof (cases "row_of pid tbl")
    case None
    with assms(2) show thesis
      by (auto simp: cas_claim_def row_of_def split: if_splits option.splits)
  next
    case (Some r)
    with cas_claim_row [OF assms(1) Some] assms(2) show thesis by (intro that) (auto split: if_splits)
  qed
  then show "\<not> claimed_in pid tbl" "claimed_in pid tbl'"
    by (auto simp: claimed_in_def tbl' row_of_claim)
  show "table_ok tbl'" using assms(1) by (simp add: table_ok_def tbl' map_sql_update_key)
  show "claimed_in pid' tbl \<Longrightarrow> claimed_in pid' tbl'" unfolding tbl' by (rule claimed_keep)
qed

lemma claims_of_simps [simp]:
  "claims_of pid (s\<lparr>s_db := d\<rparr>) = claims_of pid s"
  by (simp add: claims_of_def sends_of_def)

lemma save_dispatch_ids [simp]:
  "r_dispatch_id (save_failed d r) = r_dispatch_id r" "r_dispatch_id (save_approved d r) = r_dispatch_id r"
  "r_dispatch_id (save_rejected d r) = r_dispatch_id r"
  by (simp_all add: save_failed_def save_approved_def save_rejected_def)

lemma table_ok_persist [simp]: "table_ok (persist_result i d tbl) = table_ok tbl"
  by (simp add: table_ok_def persist_result_def map_sql_update_key)

interpretation claim_once: inductive_invariant sys_init sys_step sys_inv
proof unfold_locales
  fix s assume "sys_init s"
  then show "sys_inv s" by (simp add: sys_init_def sys_inv_def claims_of_def sends_of_def)
next
  fix s t assume inv: "sys_inv s" and "sys_step s t"
  from inv have ok: "table_ok (proposals (s_db s))" by (simp add: sys_inv_def)
  from \<open>sys_step s t\<close> show "sys_inv t"
  proof cases
    case (create p)
    with ok show ?thesis
      by (intro sys_inv_mono [OF inv]) (auto simp: persist_proposal_def claimed_keep intro!: table_ok_append_new)
  next
    case (admin i nid action params user reasoning risk now)
    with ok show ?thesis
      by (intro sys_inv_mono [OF inv])
        (auto simp: claimed_keep claims_of_def sends_of_def admin_proposal_def new_proposal_def intro!: table_ok_append_new)
  next
    case (dispatch_claim p ts did iid now tbl')
    note c = cas_claim_success [OF ok dispatch_claim(3)]
    have n: "claims_of pid t = claims_of pid s + (if pid = p_id p then 1 else 0)" for pid
      using dispatch_claim(1,2) by (simp add: claims_of_def sends_of_def)
    have "claims_of (p_id p) s = 0"
      using inv c(1) by (auto simp: sys_inv_def) (metis One_nat_def le_Suc_eq le_zero_eq)
    then have "claims_of pid t \<le> 1 \<and> (claims_of pid t = 1 \<longrightarrow> claimed_in pid tbl')" for pid
      using inv c(2,4) by (cases "pid = p_id p") (auto simp: n sys_inv_def)
    with c(3) dispatch_claim(1) show ?thesis by (simp add: sys_inv_def)
  next
    case (worker_report H iid did nid res now' t' u ret db')
    with ok show ?thesis
      using resolve_proposals [OF worker_report(2)] by (intro sys_inv_mono [OF inv]) (auto simp: table_ok_def)
  qed (use ok in \<open>auto intro!: sys_inv_mono [OF inv] simp: table_ok_update claimed_update_row claims_of_def sends_of_def
      claimed_keep\<close>)
qed

section \<open>Properties\<close>

text \<open>
  C1. At most one intent per proposal, under every interleaving. However the
  approvals, rejections, expiries, administrator actions, worker reports and
  dispatches of any number of requests interleave, and wherever they are cut off,
  at most one intent is ever sent for a proposal.
\<close>

theorem one_intent_per_proposal:
  assumes "reachable sys_init sys_step s"
  shows "sends_of pid s \<le> 1"
  using claim_once.reachable_inv [OF assms] by (auto simp: sys_inv_def claims_of_def dest: spec [of _ pid])

definition start_sys :: sys where
  "start_sys = \<lparr>s_db = pending_db, s_tasks = {#}, s_sent = []\<rparr>"

lemma start_reachable: "reachable sys_init sys_step start_sys"
  by (rule reachable.start) (simp add: sys_init_def start_sys_def table_ok_def pending_db_def)

text \<open>A run: a rejection reads the proposal, then an approval goes through, then the rejection writes.\<close>

definition rejected_p :: action_proposal where
  "rejected_p = sample_proposal\<lparr>p_status := REJECTED, p_rejected_by := Some ''bob'', p_rejection_reason := Some ''no'',
     p_updated_at := 101\<rparr>"

definition approved_p :: action_proposal where
  "approved_p = sample_proposal\<lparr>p_status := APPROVED, p_approved_by := Some ''op'', p_updated_at := 102\<rparr>"

definition executed_p :: action_proposal where
  "executed_p = approved_p\<lparr>p_status := EXECUTED, p_executed_at := Some 104, p_result := Some [(''success'', JBool True)],
     p_updated_at := 105\<rparr>"

definition late_db :: "nat \<Rightarrow> proposal_table" where
  "late_db n = (if n = 0 then [save_approved (to_db_dict approved_p) (to_db_dict sample_proposal)]
     else if n = 1 then [claim_set ''d1'' ''i1'' 103 (save_approved (to_db_dict approved_p) (to_db_dict sample_proposal))]
     else if n = 2 then [persist_set (to_db_dict executed_p) (claim_set ''d1'' ''i1'' 103
       (save_approved (to_db_dict approved_p) (to_db_dict sample_proposal)))]
     else [save_rejected (to_db_dict rejected_p) (persist_set (to_db_dict executed_p) (claim_set ''d1'' ''i1'' 103
       (save_approved (to_db_dict approved_p) (to_db_dict sample_proposal))))])"

lemma late_facts:
  "reject ''bob'' ''no'' 101 sample_proposal = Inr rejected_p" "approve ''op'' 102 sample_proposal = Inr approved_p"
  "normalize_action_proposal (\<lambda>_. None) None (Replied []) approved_p = Inr (None, approved_p)"
  "update_row (save_approved (to_db_dict approved_p)) (p_id approved_p) pending_db = pending_db\<lparr>proposals := late_db 0\<rparr>"
  "load_approved (p_id approved_p) (late_db 0) = Inr approved_p"
  "cas_claim (p_id approved_p) ''d1'' ''i1'' 103 (late_db 0) = (Inr (), late_db 1)"
  "complete_with (Replied [(''success'', JBool True)]) 104 105 approved_p = Inr ([(''success'', JBool True)], executed_p)"
  "persist_result (p_id approved_p) (to_db_dict executed_p) (late_db 1) = late_db 2"
  "update_row (save_rejected (to_db_dict rejected_p)) (p_id rejected_p) (pending_db\<lparr>proposals := late_db 2\<rparr>) =
     pending_db\<lparr>proposals := late_db 3\<rparr>"
  by code_simp+

definition late_sys :: "proposal_table \<Rightarrow> task multiset \<Rightarrow> (string \<times> intent) list \<Rightarrow> sys" where
  "late_sys tbl ts sent = \<lparr>s_db = pending_db\<lparr>proposals := tbl\<rparr>, s_tasks = add_mset (WriteRejected rejected_p) ts, s_sent = sent\<rparr>"

lemma late_run:
  "reachable sys_init sys_step \<lparr>s_db = pending_db\<lparr>proposals := late_db 3\<rparr>, s_tasks = {#},
     s_sent = [(p_id approved_p, intent_of approved_p ''i1'')]\<rparr>"
proof -
  let ?tb = "proposals pending_db" and ?i = "p_id approved_p"
  let ?sent = "[(?i, intent_of approved_p ''i1'')]"
  have s1: "sys_step start_sys (late_sys ?tb {#} [])"
    using sys_step.reject_read [where s = start_sys and pid = "''p1''", OF _ late_facts(1)]
    by (simp add: start_sys_def late_sys_def sample_pending)
  have s2: "sys_step (late_sys ?tb {#} []) (late_sys ?tb {#WriteApproved approved_p#} [])"
    using sys_step.approve_read [where s = "late_sys ?tb {#} []" and pid = "''p1''", OF _ late_facts(2,3)]
    by (simp add: late_sys_def sample_pending add_mset_commute)
  have s3: "sys_step (late_sys ?tb {#WriteApproved approved_p#} []) (late_sys (late_db 0) {#LoadTask ?i#} [])"
    using sys_step.approve_write [where s = "late_sys ?tb {#WriteApproved approved_p#} []" and q = approved_p]
    by (simp add: late_sys_def late_facts(4) add_mset_commute)
  have s4: "sys_step (late_sys (late_db 0) {#LoadTask ?i#} []) (late_sys (late_db 0) {#ClaimTask approved_p#} [])"
    using sys_step.dispatch_load [where s = "late_sys (late_db 0) {#LoadTask ?i#} []" and pid = ?i and p = approved_p]
    by (simp add: late_sys_def late_facts(5) add_mset_commute)
  have s5: "sys_step (late_sys (late_db 0) {#ClaimTask approved_p#} []) (late_sys (late_db 1) {#SendTask approved_p ''i1''#} [])"
    using sys_step.dispatch_claim [where s = "late_sys (late_db 0) {#ClaimTask approved_p#} []" and p = approved_p
        and did = "''d1''" and iid = "''i1''" and now = 103 and tbl' = "late_db 1"]
    by (simp add: late_sys_def late_facts(6) add_mset_commute del: One_nat_def)
  have s6: "sys_step (late_sys (late_db 1) {#SendTask approved_p ''i1''#} []) (late_sys (late_db 1) {#AwaitTask approved_p#} ?sent)"
    using sys_step.dispatch_send [where s = "late_sys (late_db 1) {#SendTask approved_p ''i1''#} []" and p = approved_p
        and iid = "''i1''" and ts = "{#WriteRejected rejected_p#}"]
    by (simp add: late_sys_def add_mset_commute)
  have s7: "sys_step (late_sys (late_db 1) {#AwaitTask approved_p#} ?sent) (late_sys (late_db 2) {#} ?sent)"
    using sys_step.dispatch_persist [where s = "late_sys (late_db 1) {#AwaitTask approved_p#} ?sent", OF _ late_facts(7)]
    by (simp add: late_sys_def late_facts(8) add_mset_commute del: One_nat_def)
  have s8: "sys_step (late_sys (late_db 2) {#} ?sent)
      \<lparr>s_db = pending_db\<lparr>proposals := late_db 3\<rparr>, s_tasks = {#}, s_sent = ?sent\<rparr>"
    using sys_step.reject_write [where s = "late_sys (late_db 2) {#} ?sent" and q = rejected_p and ts = "{#}"]
    by (simp add: late_sys_def late_facts(9))
  show ?thesis
    using start_reachable s1 s2 s3 s4 s5 s6 s7 s8 by (meson reachable.next_state)
qed

theorem one_intent_per_proposal_witness:
  "sends_of ''p1'' \<lparr>s_db = pending_db\<lparr>proposals := late_db 3\<rparr>, s_tasks = {#},
     s_sent = [(p_id approved_p, intent_of approved_p ''i1'')]\<rparr> \<le> 1"
  using one_intent_per_proposal [OF late_run] .

text \<open>
  A write without a status guard overwrites a finished proposal. There is an
  interleaving after which the intent of a proposal was sent and its successful
  result stored, and yet the proposal is REJECTED, by a user whose rejection had
  read it before the approval: EXECUTED is not final under concurrency.
\<close>

theorem late_rejection_overwrites_execution:
  "\<exists>s r. reachable sys_init sys_step s \<and> sends_of ''p1'' s = 1 \<and> row_of ''p1'' (proposals (s_db s)) = Some r \<and>
     r_status r = REJECTED \<and> r_rejected_by r = Some ''bob'' \<and> r_result_json r \<noteq> None \<and> r_executed_at r \<noteq> None"
proof -
  let ?s = "\<lparr>s_db = pending_db\<lparr>proposals := late_db 3\<rparr>, s_tasks = {#},
     s_sent = [(p_id approved_p, intent_of approved_p ''i1'')]\<rparr>"
  have "p_id approved_p = ''p1''" by (simp add: approved_p_def sample_proposal_def new_proposal_def)
  then have "sends_of ''p1'' ?s = 1" by (simp add: sends_of_def)
  moreover have "\<exists>r. row_of ''p1'' (late_db 3) = Some r \<and> r_status r = REJECTED \<and> r_rejected_by r = Some ''bob'' \<and>
      r_result_json r \<noteq> None \<and> r_executed_at r \<noteq> None"
    by (simp add: late_db_def row_of_def save_rejected_def persist_set_def to_db_dict_def rejected_p_def executed_p_def
        approved_p_def sample_proposal_def new_proposal_def claim_set_def save_approved_def)
  ultimately show ?thesis using late_run by (fastforce simp del: One_nat_def)
qed

end
