(* ===== verification/Rate_Limiter.thy ===== *)
theory Rate_Limiter
  imports Json
begin

text \<open>
  The two sliding-window limiters (\<open>src/master/core/rate_limiter.py\<close>): requests
  per key, and the per-plugin, per-user budget with releasable slots. Each
  operation runs under the limiter's lock, so it is one transition; the clock it
  reads is an argument. The admission law both satisfy is the locale
  \<open>sliding_window\<close>.
\<close>

section \<open>Runs of a limiter\<close>

datatype 'k window_event = Attempt 'k time | Sweep time

primrec event_time :: "'k window_event \<Rightarrow> time" where
  "event_time (Attempt k t) = t"
| "event_time (Sweep t) = t"

text \<open>The admissions of a run, in order, and the final state.\<close>

fun window_run ::
  "('k \<Rightarrow> time \<Rightarrow> 's \<Rightarrow> bool \<times> 's) \<Rightarrow> (time \<Rightarrow> 's \<Rightarrow> 's) \<Rightarrow> 'k window_event list \<Rightarrow>
     ('k \<times> time) list \<times> 's \<Rightarrow> ('k \<times> time) list \<times> 's" where
  "window_run admit sweep [] acc = acc"
| "window_run admit sweep (Attempt k t # es) acc =
     (case admit k t (snd acc) of
        (ok, s') \<Rightarrow> window_run admit sweep es (if ok then fst acc @ [(k, t)] else fst acc, s'))"
| "window_run admit sweep (Sweep t # es) acc = window_run admit sweep es (fst acc, sweep t (snd acc))"

definition times_of :: "'k \<Rightarrow> ('k \<times> time) list \<Rightarrow> time list" where
  "times_of k adm = map snd (filter (\<lambda>x. fst x = k) adm)"

definition in_window :: "time \<Rightarrow> time \<Rightarrow> time list \<Rightarrow> nat" where
  \<comment> \<open>how many of the times lie in the window of length \<open>w\<close> that ends at \<open>u\<close>\<close>
  "in_window w u ts = length (filter (\<lambda>t. u - w < t \<and> t \<le> u) ts)"

lemma times_of_append: "times_of k (adm @ [(k', t)]) = times_of k adm @ (if k' = k then [t] else [])"
  by (simp add: times_of_def)

lemma in_window_append:
  assumes "\<And>u. in_window w u ts \<le> n" and "\<forall>x \<in> set ts. x \<le> t" and "0 < w"
    and "length (filter (\<lambda>x. t - w < x) ts) < n"
  shows "in_window w u (ts @ [t]) \<le> n"
proof (cases "t \<le> u")
  case False
  then show ?thesis using assms(1) [of u] by (simp add: in_window_def)
next
  case True
  then have "length (filter (\<lambda>x. u - w < x \<and> x \<le> u) ts) \<le> length (filter (\<lambda>x. t - w < x) ts)"
    by (induction ts) auto
  with assms(4) show ?thesis by (simp add: in_window_def)
qed

text \<open>
  The contract of a sliding window. \<open>slots\<close> are the recorded times of a key,
  \<open>inv s now\<close> is the invariant at clock \<open>now\<close>; an attempt at \<open>now\<close> is admitted
  exactly when fewer than \<open>limit\<close> recorded times lie after \<open>now - w\<close>, and then it
  is recorded; nothing else changes what lies in a current window.
\<close>

locale sliding_window =
  fixes w :: time and limit :: "'k \<Rightarrow> nat" and init :: 's
    and slots :: "'s \<Rightarrow> 'k \<Rightarrow> time list" and inv :: "'s \<Rightarrow> time \<Rightarrow> bool"
    and admit :: "'k \<Rightarrow> time \<Rightarrow> 's \<Rightarrow> bool \<times> 's" and sweep :: "time \<Rightarrow> 's \<Rightarrow> 's"
  assumes w_pos: "0 < w"
    and init_inv: "inv init now"
    and init_slots: "slots init k = []"
    and inv_later: "inv s now \<Longrightarrow> now \<le> now' \<Longrightarrow> inv s now'"
    and admit_inv: "inv s now \<Longrightarrow> inv (snd (admit k now s)) now"
    and sweep_inv: "inv s now \<Longrightarrow> inv (sweep now s) now"
    and admit_iff: "inv s now \<Longrightarrow>
      fst (admit k now s) \<longleftrightarrow> length (filter (\<lambda>t. now - w < t) (slots s k)) < limit k"
    and admit_slots: "inv s now \<Longrightarrow> filter (\<lambda>t. now - w < t) (slots (snd (admit k now s)) k') =
      filter (\<lambda>t. now - w < t) (slots s k') @ (if k' = k \<and> fst (admit k now s) then [now] else [])"
    and sweep_slots: "inv s now \<Longrightarrow>
      filter (\<lambda>t. now - w < t) (slots (sweep now s) k) = filter (\<lambda>t. now - w < t) (slots s k)"
begin

definition tracks :: "('k \<times> time) list \<Rightarrow> 's \<Rightarrow> time \<Rightarrow> bool" where
  "tracks adm s now \<longleftrightarrow> inv s now \<and>
     (\<forall>k. (\<forall>t \<in> set (times_of k adm). t \<le> now) \<and> (\<forall>u. in_window w u (times_of k adm) \<le> limit k) \<and>
        filter (\<lambda>t. now - w < t) (slots s k) = filter (\<lambda>t. now - w < t) (times_of k adm))"

lemma tracks_later:
  assumes "tracks adm s now" and "now \<le> now'"
  shows "tracks adm s now'"
proof -
  have sub: "filter (\<lambda>t. now' - w < t) xs = filter (\<lambda>t. now' - w < t) (filter (\<lambda>t. now - w < t) xs)" for xs :: "time list"
    using assms(2) by (induction xs) auto
  have "filter (\<lambda>t. now' - w < t) (slots s k) = filter (\<lambda>t. now' - w < t) (times_of k adm)" for k
    using assms(1) by (metis sub tracks_def)
  moreover have "t \<le> now'" if "t \<in> set (times_of k adm)" for k t
    using that assms by (meson order_trans tracks_def)
  moreover have "inv s now'" using assms inv_later by (simp add: tracks_def) blast
  ultimately show ?thesis using assms by (simp add: tracks_def)
qed

lemma tracks_admit:
  assumes "tracks adm s now"
  shows "tracks (if fst (admit k now s) then adm @ [(k, now)] else adm) (snd (admit k now s)) now"
proof -
  have i: "inv s now" using assms by (simp add: tracks_def)
  have n: "fst (admit k now s) \<Longrightarrow> length (filter (\<lambda>t. now - w < t) (times_of k adm)) < limit k"
    using admit_iff [OF i, of k] assms by (simp add: tracks_def)
  have "in_window w u (times_of k' (if fst (admit k now s) then adm @ [(k, now)] else adm)) \<le> limit k'" for u k'
    using assms n in_window_append [OF _ _ w_pos, of "times_of k adm" "limit k" now u]
    by (auto simp: tracks_def times_of_append)
  then show ?thesis
    using assms admit_inv [OF i] admit_slots [OF i, of k] w_pos by (auto simp: tracks_def times_of_append)
qed

lemma tracks_sweep: "tracks adm s now \<Longrightarrow> tracks adm (sweep now s) now"
  by (auto simp: tracks_def sweep_inv sweep_slots)

lemma run_tracks:
  assumes "tracks adm s now" and "sorted (map event_time es)" and "\<forall>e \<in> set es. now \<le> event_time e"
  shows "\<exists>now'. tracks (fst (window_run admit sweep es (adm, s))) (snd (window_run admit sweep es (adm, s))) now'"
  using assms
proof (induction es arbitrary: adm s now)
  case (Cons e es)
  show ?case
  proof (cases e)
    case (Attempt k t)
    then have "tracks adm s t" using Cons.prems tracks_later by auto
    from Cons.IH [OF tracks_admit [OF this, of k]] Attempt Cons.prems(2) show ?thesis
      by (auto simp: split_beta split: if_splits)
  next
    case (Sweep t)
    then have "tracks adm s t" using Cons.prems tracks_later by auto
    from Cons.IH [OF tracks_sweep [OF this]] Sweep Cons.prems(2) show ?thesis by simp
  qed
qed auto

theorem window_bound:
  assumes "sorted (map event_time es)"
  shows "in_window w u (times_of k (fst (window_run admit sweep es ([], init)))) \<le> limit k"
proof -
  have "tracks [] init (Min (insert 0 (event_time ` set es)))"
    by (simp add: tracks_def init_inv init_slots times_of_def in_window_def)
  from run_tracks [OF this assms] show ?thesis by (auto simp: tracks_def)
qed

end

section \<open>Requests per key\<close>

type_synonym buckets = "(string, time list) dict"

definition is_allowed :: "time \<Rightarrow> string \<Rightarrow> int \<Rightarrow> time \<Rightarrow> buckets \<Rightarrow> bool \<times> buckets" where
  "is_allowed window key limit now bs =
     (let cutoff = now - window;
          q = dropWhile (\<lambda>t. t \<le> cutoff) (dict_get bs key [])
      in if limit \<le> int (length q) then (False, AList.update key q bs)
         else (True, AList.update key (q @ [now]) bs))"

definition cleanup_expired :: "time \<Rightarrow> time \<Rightarrow> buckets \<Rightarrow> buckets" where
  "cleanup_expired window now bs = filter (\<lambda>(k, q). \<not> (q = [] \<or> last q \<le> now - window)) bs"

text \<open>\<open>_dep\<close> of \<open>dependency\<close> and the middleware: the key, and 429 when refused.\<close>

definition dependency_key :: "string \<Rightarrow> string \<Rightarrow> string" where
  "dependency_key client_ip path = ''dep:'' @ client_ip @ '':'' @ path"

definition middleware_key :: "string \<Rightarrow> string \<Rightarrow> string" where
  "middleware_key client_ip path = client_ip @ '':'' @ path"

definition effective_max :: "int option \<Rightarrow> int \<Rightarrow> int" where
  \<comment> \<open>\<open>max_requests or self.max_requests\<close>\<close>
  "effective_max m dflt = (case m of None \<Rightarrow> dflt | Some n \<Rightarrow> if n = 0 then dflt else n)"

section \<open>Plugin budgets\<close>

datatype call_type = READS | MUTATIONS

primrec call_type_str :: "call_type \<Rightarrow> string" where
  "call_type_str READS = ''reads''"
| "call_type_str MUTATIONS = ''mutations''"

record plugin_budget =
  reads_per_minute :: int
  mutations_per_minute :: int

primrec limit_for :: "call_type \<Rightarrow> plugin_budget \<Rightarrow> int" where
  "limit_for READS b = reads_per_minute b"
| "limit_for MUTATIONS b = mutations_per_minute b"

record rl_token =
  tk_bucket_key :: string
  tk_seq :: nat
  tk_timestamp :: time
  tk_released :: bool

record plugin_limiter =
  pl_buckets :: "(string, (time \<times> nat) list) dict"
  pl_seq :: nat

definition bucket_key :: "string \<Rightarrow> string \<Rightarrow> call_type \<Rightarrow> string" where
  "bucket_key plugin_id user_id ct = ''plugin:'' @ plugin_id @ '':'' @ user_id @ '':'' @ call_type_str ct"

definition acquire_key :: "time \<Rightarrow> string \<Rightarrow> int \<Rightarrow> time \<Rightarrow> plugin_limiter \<Rightarrow> rl_token option \<times> plugin_limiter" where
  "acquire_key window key limit now s =
     (let entries = filter (\<lambda>(t, n). now - t < window) (dict_get (pl_buckets s) key [])
      in if limit \<le> int (length entries) then (None, s\<lparr>pl_buckets := AList.update key entries (pl_buckets s)\<rparr>)
         else (let seq = pl_seq s + 1 in
           (Some \<lparr>tk_bucket_key = key, tk_seq = seq, tk_timestamp = now, tk_released = False\<rparr>,
            s\<lparr>pl_seq := seq, pl_buckets := AList.update key (entries @ [(now, seq)]) (pl_buckets s)\<rparr>)))"

definition acquire ::
  "time \<Rightarrow> string \<Rightarrow> string \<Rightarrow> call_type \<Rightarrow> plugin_budget \<Rightarrow> time \<Rightarrow> plugin_limiter \<Rightarrow> rl_token option \<times> plugin_limiter" where
  "acquire window plugin_id user_id ct budget now s =
     acquire_key window (bucket_key plugin_id user_id ct) (limit_for ct budget) now s"

definition release :: "rl_token \<Rightarrow> plugin_limiter \<Rightarrow> rl_token \<times> plugin_limiter" where
  "release tk s =
     (if tk_released tk then (tk, s)
      else (let remaining = filter (\<lambda>(t, n). n \<noteq> tk_seq tk) (dict_get (pl_buckets s) (tk_bucket_key tk) [])
            in (tk\<lparr>tk_released := True\<rparr>,
                if remaining \<noteq> [] then s\<lparr>pl_buckets := AList.update (tk_bucket_key tk) remaining (pl_buckets s)\<rparr>
                else s\<lparr>pl_buckets := AList.delete (tk_bucket_key tk) (pl_buckets s)\<rparr>)))"

definition plugin_cleanup :: "time \<Rightarrow> time \<Rightarrow> plugin_limiter \<Rightarrow> plugin_limiter" where
  "plugin_cleanup window now s =
     s\<lparr>pl_buckets := filter (\<lambda>(k, es). \<not> (es = [] \<or> window \<le> now - fst (last es))) (pl_buckets s)\<rparr>"

definition clamp_limit :: "json option \<Rightarrow> int \<Rightarrow> int" where
  "clamp_limit v dflt = (case v of Some (JInt n) \<Rightarrow> max 0 n | _ \<Rightarrow> dflt)"

definition apply_limits :: "json option \<Rightarrow> plugin_budget \<Rightarrow> plugin_budget" where
  \<comment> \<open>one level of \<open>resolve_plugin_budget\<close>: only a dictionary changes anything\<close>
  "apply_limits lims b =
     (case lims of
        Some (JObj d) \<Rightarrow>
          \<lparr>reads_per_minute = clamp_limit (map_of d ''reads_per_minute'') (reads_per_minute b),
           mutations_per_minute = clamp_limit (map_of d ''mutations_per_minute'') (mutations_per_minute b)\<rparr>
      | _ \<Rightarrow> b)"

definition default_budget :: plugin_budget where
  "default_budget = \<lparr>reads_per_minute = 60, mutations_per_minute = 10\<rparr>"

definition resolve_plugin_budget :: "json option \<Rightarrow> json option \<Rightarrow> plugin_budget" where
  "resolve_plugin_budget manifest_limits config_override =
     apply_limits config_override (apply_limits manifest_limits default_budget)"

definition plugin_budget_from_config :: "json option \<Rightarrow> plugin_budget option" where
  "plugin_budget_from_config config =
     (case config of
        Some (JObj d) \<Rightarrow>
          (case map_of d ''rate_limits'' of
             Some (JObj ov) \<Rightarrow> Some (resolve_plugin_budget None (Some (JObj ov)))
           | _ \<Rightarrow> None)
      | _ \<Rightarrow> None)"

section \<open>Both limiters are sliding windows\<close>

lemma dropWhile_sorted:
  fixes xs :: "time list"
  shows "sorted xs \<Longrightarrow> dropWhile (\<lambda>t. t \<le> c) xs = filter (\<lambda>t. c < t) xs"
proof (induction xs)
  case (Cons x xs)
  show ?case
  proof (cases "x \<le> c")
    case False
    with Cons.prems have "filter (\<lambda>t. c < t) xs = xs" by (auto simp: filter_id_conv)
    with False show ?thesis by simp
  qed (use Cons in auto)
qed simp

lemma sorted_filter_snoc:
  fixes now :: time
  shows "sorted xs \<Longrightarrow> \<forall>x \<in> set xs. x \<le> now \<Longrightarrow> sorted (filter P xs @ [now])"
  by (auto simp: sorted_append sorted_wrt_filter)

lemma last_old:
  fixes xs :: "time list"
  shows "sorted xs \<Longrightarrow> xs = [] \<or> last xs \<le> c \<Longrightarrow> filter (\<lambda>t. c < t) xs = []"
  by (induction xs rule: rev_induct) (auto simp: sorted_append filter_empty_conv)

definition buckets_inv :: "buckets \<Rightarrow> time \<Rightarrow> bool" where
  "buckets_inv bs now \<longleftrightarrow> dict_wf bs \<and> (\<forall>k. sorted (dict_get bs k []) \<and> (\<forall>t \<in> set (dict_get bs k []). t \<le> now))"

lemma dict_get_filter:
  "dict_wf bs \<Longrightarrow> dict_get (filter P bs) k [] =
     (case map_of bs k of None \<Rightarrow> [] | Some v \<Rightarrow> if P (k, v) then v else [])"
  by (auto simp: dict_get_def map_of_filter_key dict_wf_def split: option.splits)

lemma window_interpretation:
  assumes "0 < w"
  shows "sliding_window w (\<lambda>k. nat (limit k)) [] (\<lambda>bs k. dict_get bs k []) buckets_inv
    (\<lambda>k now bs. is_allowed w k (limit k) now bs) (cleanup_expired w)"
proof
  fix bs now k k'
  assume inv: "buckets_inv bs now"
  let ?q = "dropWhile (\<lambda>t. t \<le> now - w) (dict_get bs k [])"
  have q: "?q = filter (\<lambda>t. now - w < t) (dict_get bs k [])"
    using inv by (simp add: buckets_inv_def dropWhile_sorted)
  have wf: "dict_wf bs" using inv by (simp add: buckets_inv_def)
  show "fst (is_allowed w k (limit k) now bs) =
      (length (filter (\<lambda>t. now - w < t) (dict_get bs k [])) < nat (limit k))"
    unfolding is_allowed_def Let_def q by auto
  show "filter (\<lambda>t. now - w < t) (dict_get (snd (is_allowed w k (limit k) now bs)) k' []) =
      filter (\<lambda>t. now - w < t) (dict_get bs k' []) @
      (if k' = k \<and> fst (is_allowed w k (limit k) now bs) then [now] else [])"
    unfolding is_allowed_def Let_def q using assms by (auto simp: py_dict)
  show "buckets_inv (snd (is_allowed w k (limit k) now bs)) now"
    unfolding is_allowed_def Let_def q
    using inv sorted_filter_snoc [of "dict_get bs k []" now] by (auto simp: buckets_inv_def py_dict sorted_wrt_filter)
  have get: "dict_get (cleanup_expired w now bs) x [] =
      (if dict_get bs x [] = [] \<or> last (dict_get bs x []) \<le> now - w then [] else dict_get bs x [])" for x
    unfolding cleanup_expired_def dict_get_filter [OF wf] by (auto simp: dict_get_def split: option.splits)
  show "buckets_inv (cleanup_expired w now bs) now"
    using inv by (auto simp: buckets_inv_def get) (simp add: cleanup_expired_def wf)
  show "filter (\<lambda>t. now - w < t) (dict_get (cleanup_expired w now bs) k []) =
      filter (\<lambda>t. now - w < t) (dict_get bs k [])"
    using inv last_old [of "dict_get bs k []" "now - w"] by (auto simp: get buckets_inv_def)
  fix now' assume "now \<le> now'"
  then show "buckets_inv bs now'" using inv by (fastforce simp: buckets_inv_def)
qed (use assms in \<open>auto simp: buckets_inv_def dict_wf_def\<close>)

interpretation request_window: sliding_window 60 "\<lambda>k. nat (limit k)" "[]" "\<lambda>bs k. dict_get bs k []" buckets_inv
  "\<lambda>k now bs. is_allowed 60 k (limit k) now bs" "cleanup_expired 60" for limit
  by (rule window_interpretation) simp

definition plugin_slots :: "plugin_limiter \<Rightarrow> string \<Rightarrow> time list" where
  "plugin_slots s k = map fst (dict_get (pl_buckets s) k [])"

definition plugin_inv :: "plugin_limiter \<Rightarrow> time \<Rightarrow> bool" where
  "plugin_inv s now \<longleftrightarrow> dict_wf (pl_buckets s) \<and>
     (\<forall>k. sorted (plugin_slots s k) \<and> (\<forall>t \<in> set (plugin_slots s k). t \<le> now))"

definition fresh_limiter :: plugin_limiter where
  "fresh_limiter = \<lparr>pl_buckets = [], pl_seq = 0\<rparr>"

definition admit_plugin :: "time \<Rightarrow> (string \<Rightarrow> int) \<Rightarrow> string \<Rightarrow> time \<Rightarrow> plugin_limiter \<Rightarrow> bool \<times> plugin_limiter" where
  "admit_plugin w limit k now s =
     (case acquire_key w k (limit k) now s of (tok, s') \<Rightarrow> (tok \<noteq> None, s'))"

lemma map_fst_filter_time:
  "map fst (filter (\<lambda>(t, n). now - t < w) es) = filter (\<lambda>t. now - w < t) (map fst es)" for now :: time
  by (induction es) (auto simp: less_diff_eq diff_less_eq add.commute)

lemma plugin_window_interpretation:
  assumes "0 < w"
  shows "sliding_window w (\<lambda>k. nat (limit k)) fresh_limiter plugin_slots plugin_inv (admit_plugin w limit) (plugin_cleanup w)"
proof
  fix s now k k'
  assume inv: "plugin_inv s now"
  let ?es = "filter (\<lambda>(t, n). now - t < w) (dict_get (pl_buckets s) k [])"
  have es: "map fst ?es = filter (\<lambda>t. now - w < t) (plugin_slots s k)"
    by (simp add: plugin_slots_def map_fst_filter_time)
  have len: "length ?es = length (filter (\<lambda>t. now - w < t) (plugin_slots s k))" by (metis es length_map)
  have wf: "dict_wf (pl_buckets s)" using inv by (simp add: plugin_inv_def)
  have adm: "fst (admit_plugin w limit k now s) \<longleftrightarrow> int (length ?es) < limit k"
    by (auto simp: admit_plugin_def acquire_key_def Let_def)
  have slots: "plugin_slots (snd (admit_plugin w limit k now s)) x =
      (if x = k then filter (\<lambda>t. now - w < t) (plugin_slots s k) @ (if int (length ?es) < limit k then [now] else [])
       else plugin_slots s x)" for x
    unfolding es [symmetric]
    by (auto simp: admit_plugin_def acquire_key_def Let_def plugin_slots_def py_dict)
  show "fst (admit_plugin w limit k now s) = (length (filter (\<lambda>t. now - w < t) (plugin_slots s k)) < nat (limit k))"
    unfolding adm len by auto
  show "filter (\<lambda>t. now - w < t) (plugin_slots (snd (admit_plugin w limit k now s)) k') =
      filter (\<lambda>t. now - w < t) (plugin_slots s k') @
      (if k' = k \<and> fst (admit_plugin w limit k now s) then [now] else [])"
    unfolding adm slots using assms by auto
  have "dict_wf (pl_buckets (snd (admit_plugin w limit k now s)))"
    using wf by (auto simp: admit_plugin_def acquire_key_def Let_def)
  then show "plugin_inv (snd (admit_plugin w limit k now s)) now"
    using inv sorted_filter_snoc [of "plugin_slots s k" now] unfolding plugin_inv_def slots
    by (auto simp: sorted_wrt_filter)
  have get: "plugin_slots (plugin_cleanup w now s) x =
      (if plugin_slots s x = [] \<or> last (plugin_slots s x) \<le> now - w then [] else plugin_slots s x)" for x
  proof -
    have "dict_get (pl_buckets (plugin_cleanup w now s)) x [] =
        (case map_of (pl_buckets s) x of None \<Rightarrow> []
         | Some v \<Rightarrow> if v = [] \<or> w \<le> now - fst (last v) then [] else v)"
      by (simp add: plugin_cleanup_def dict_get_filter [OF wf] split: option.splits)
    then show ?thesis
      by (cases "map_of (pl_buckets s) x")
        (auto simp: plugin_slots_def dict_get_def le_diff_eq add.commute intro: ccontr
          simp flip: last_map split: option.splits if_splits)
  qed
  show "plugin_inv (plugin_cleanup w now s) now"
    using inv unfolding plugin_inv_def get by (auto simp: plugin_cleanup_def)
  show "filter (\<lambda>t. now - w < t) (plugin_slots (plugin_cleanup w now s) k) =
      filter (\<lambda>t. now - w < t) (plugin_slots s k)"
    using inv last_old [of "plugin_slots s k" "now - w"] by (auto simp: get plugin_inv_def)
  fix now' assume "now \<le> now'"
  then show "plugin_inv s now'" using inv by (fastforce simp: plugin_inv_def)
qed (use assms in \<open>auto simp: plugin_inv_def plugin_slots_def fresh_limiter_def dict_wf_def\<close>)

interpretation plugin_window: sliding_window 60 "\<lambda>k. nat (limit k)" fresh_limiter plugin_slots plugin_inv
  "admit_plugin 60 limit" "plugin_cleanup 60" for limit
  by (rule plugin_window_interpretation) simp

section \<open>Properties\<close>

text \<open>
  C37. The request limiter is a true sliding window. Whatever requests arrive and
  whenever expired buckets are cleaned up, as long as the clock does not run
  backwards, at most \<open>limit\<close> requests of a key are admitted in any time window
  of the configured length, not only in windows aligned to some clock tick.
\<close>

theorem request_window_bound:
  assumes "0 < w" and "sorted (map event_time es)"
  shows "in_window w u (times_of k (fst (window_run (\<lambda>k now bs. is_allowed w k (limit k) now bs) (cleanup_expired w) es ([], []))))
    \<le> nat (limit k)"
  by (rule sliding_window.window_bound [OF window_interpretation [OF assms(1)] assms(2)])

theorem request_window_bound_witness:
  "in_window 60 70 (times_of ''k'' (fst (window_run (\<lambda>k now bs. is_allowed 60 k 1 now bs) (cleanup_expired 60)
     [Attempt ''k'' 5, Attempt ''k'' 20, Sweep 66, Attempt ''k'' 70] ([], [])))) \<le> 1 \<and>
   times_of ''k'' (fst (window_run (\<lambda>k now bs. is_allowed 60 k 1 now bs) (cleanup_expired 60)
     [Attempt ''k'' 5, Attempt ''k'' 20, Sweep 66, Attempt ''k'' 70] ([], []))) = [5, 70]"
  using request_window_bound [of 60 "[Attempt ''k'' 5, Attempt ''k'' 20, Sweep 66, Attempt ''k'' 70]" 70 "''k''" "\<lambda>_. 1"]
  by (simp add: is_allowed_def cleanup_expired_def times_of_def dict_get_def)

lemma bucket_key_inj:
  assumes "CHR '':'' \<notin> set p" and "CHR '':'' \<notin> set p'" and "bucket_key p u ct = bucket_key p' u' ct'"
  shows "p = p' \<and> u = u' \<and> ct = ct'"
proof -
  have e: "p @ CHR '':'' # u @ CHR '':'' # call_type_str ct = p' @ CHR '':'' # u' @ CHR '':'' # call_type_str ct'"
    using assms(3) by (simp add: bucket_key_def)
  then have "split_on (CHR '':'') (p @ CHR '':'' # u @ CHR '':'' # call_type_str ct) =
      split_on (CHR '':'') (p' @ CHR '':'' # u' @ CHR '':'' # call_type_str ct')" by simp
  then have p: "p = p'" using assms(1,2) by (simp add: split_on_append_sep)
  with e have r: "rev (u @ CHR '':'' # call_type_str ct) = rev (u' @ CHR '':'' # call_type_str ct')" by simp
  have "CHR '':'' \<notin> set (rev (call_type_str c))" for c by (cases c) auto
  then have "rev (call_type_str ct) = rev (call_type_str ct')"
    using arg_cong [OF r, of "takeWhile (\<lambda>x. x \<noteq> CHR '':'')"] by (cases ct; cases ct') simp_all
  then have "ct = ct'" by (cases ct; cases ct') simp_all
  with r p show ?thesis by simp
qed

text \<open>
  The plugin budget is a sliding window too, and it is per plugin, user and
  call type: at most \<open>limit\<close> acquisitions of a bucket in any window, and two
  callers share a bucket only if they agree in all three, since a plugin
  identifier holds no colon.
\<close>

theorem plugin_budget_bound:
  assumes "0 < w" and "sorted (map event_time es)"
  shows "in_window w u (times_of k (fst (window_run (admit_plugin w limit) (plugin_cleanup w) es ([], fresh_limiter)))) \<le> nat (limit k) \<and>
    (CHR '':'' \<notin> set p \<and> CHR '':'' \<notin> set p' \<and> bucket_key p usr ct = bucket_key p' usr' ct' \<longrightarrow> p = p' \<and> usr = usr' \<and> ct = ct')"
  using sliding_window.window_bound [OF plugin_window_interpretation [OF assms(1)] assms(2)] bucket_key_inj by blast

theorem plugin_budget_bound_witness:
  "in_window 60 9 (times_of (bucket_key ''plex'' ''u'' READS)
     (fst (window_run (admit_plugin 60 (\<lambda>_. 1)) (plugin_cleanup 60)
       [Attempt (bucket_key ''plex'' ''u'' READS) 5, Attempt (bucket_key ''plex'' ''u'' READS) 9] ([], fresh_limiter)))) \<le> 1"
  using plugin_budget_bound [of 60 "[Attempt (bucket_key ''plex'' ''u'' READS) 5, Attempt (bucket_key ''plex'' ''u'' READS) 9]"
      9 "bucket_key ''plex'' ''u'' READS" "\<lambda>_. 1"]
  by simp

definition seqs_fresh :: "plugin_limiter \<Rightarrow> bool" where
  "seqs_fresh s \<longleftrightarrow> (\<forall>k. \<forall>(t, n) \<in> set (dict_get (pl_buckets s) k []). n \<le> pl_seq s)"

lemma seqs_fresh_acquire: "seqs_fresh s \<Longrightarrow> seqs_fresh (snd (acquire_key w k limit now s))"
  by (fastforce simp: seqs_fresh_def acquire_key_def Let_def py_dict split: if_splits)

lemma release_bucket:
  assumes "\<not> tk_released tk"
  shows "dict_get (pl_buckets (snd (release tk s))) k [] =
    (if k = tk_bucket_key tk then filter (\<lambda>(t, n). n \<noteq> tk_seq tk) (dict_get (pl_buckets s) k [])
     else dict_get (pl_buckets s) k [])"
  using assms by (auto simp: release_def Let_def py_dict)

lemma acquire_keySome:
  assumes "acquire_key w key limit now s = (Some tk, s1)"
  shows "tk_bucket_key tk = key" "tk_seq tk = pl_seq s + 1" "\<not> tk_released tk"
    "dict_get (pl_buckets s1) k [] = (if k = key then
       filter (\<lambda>(t, n). now - t < w) (dict_get (pl_buckets s) key []) @ [(now, pl_seq s + 1)] else dict_get (pl_buckets s) k [])"
  using assms by (auto simp: acquire_key_def Let_def py_dict split: if_splits)

text \<open>
  Releasing a token gives back its own slot. After an acquisition and the
  release of its token, every bucket holds what it held before, up to the entries
  that had expired; a second release of the token does nothing; and the sequence
  numbers that tell the slots apart stay fresh.
\<close>

theorem release_restores_budget:
  assumes "seqs_fresh s" and "acquire w p u ct budget now s = (Some tk, s1)" and "release tk s1 = (tk', s2)"
  shows "(\<forall>k. dict_get (pl_buckets s2) k [] =
      (if k = bucket_key p u ct then filter (\<lambda>(t, n). now - t < w) (dict_get (pl_buckets s) k [])
       else dict_get (pl_buckets s) k [])) \<and>
    release tk' s2 = (tk', s2) \<and> seqs_fresh s1"
proof -
  note a = acquire_keySome [OF assms(2) [unfolded acquire_def]]
  have s2: "s2 = snd (release tk s1)" and tk': "tk' = fst (release tk s1)" using assms(3) by simp_all
  have "filter (\<lambda>(t, n). n \<noteq> tk_seq tk) (filter (\<lambda>(t, n). now - t < w) (dict_get (pl_buckets s) k [])) =
      filter (\<lambda>(t, n). now - t < w) (dict_get (pl_buckets s) k [])" for k
  proof -
    have "n \<le> pl_seq s" if "(t, n) \<in> set (dict_get (pl_buckets s) k [])" for t n
      using assms(1) that unfolding seqs_fresh_def by blast
    then have "n \<noteq> tk_seq tk" if "(t, n) \<in> set (dict_get (pl_buckets s) k [])" for t n
      using that by (fastforce simp: a(2))
    then show ?thesis by (intro filter_True) auto
  qed
  then have "dict_get (pl_buckets s2) k [] =
      (if k = bucket_key p u ct then filter (\<lambda>(t, n). now - t < w) (dict_get (pl_buckets s) k [])
       else dict_get (pl_buckets s) k [])" for k
    unfolding s2 release_bucket [OF a(3)] a(1,4) by (simp add: a(2))
  moreover have "release tk' s2 = (tk', s2)" using a(3) by (simp add: tk' release_def Let_def)
  moreover have "seqs_fresh s1"
    using seqs_fresh_acquire [OF assms(1)] assms(2) by (metis acquire_def snd_conv)
  ultimately show ?thesis by blast
qed

theorem release_restores_budget_witness:
  "\<exists>tk s1. acquire 60 ''plex'' ''u'' READS default_budget 5 fresh_limiter = (Some tk, s1) \<and>
     (\<forall>k. dict_get (pl_buckets (snd (release tk s1))) k [] = [])"
proof -
  obtain tk s1 where a: "acquire 60 ''plex'' ''u'' READS default_budget 5 fresh_limiter = (Some tk, s1)"
    by (simp add: acquire_def acquire_key_def default_budget_def fresh_limiter_def Let_def)
  have "seqs_fresh fresh_limiter" by (simp add: seqs_fresh_def fresh_limiter_def)
  from release_restores_budget [OF this a, of "fst (release tk s1)" "snd (release tk s1)"] a show ?thesis
    by (auto simp: fresh_limiter_def)
qed

lemma apply_limits_nonneg:
  "0 \<le> reads_per_minute b \<and> 0 \<le> mutations_per_minute b \<Longrightarrow>
   0 \<le> reads_per_minute (apply_limits lims b) \<and> 0 \<le> mutations_per_minute (apply_limits lims b)"
  by (auto simp: apply_limits_def clamp_limit_def split: option.splits json.splits)

lemma resolve_plugin_budget_nonneg:
  "0 \<le> reads_per_minute (resolve_plugin_budget m c) \<and> 0 \<le> mutations_per_minute (resolve_plugin_budget m c)"
  unfolding resolve_plugin_budget_def by (intro apply_limits_nonneg) (simp add: default_budget_def)

end
