(* ===== verification/Outbox.thy ===== *)
theory Outbox
  imports Json "HOL-Library.Multiset"
begin

text \<open>
  The transactional outbox (\<open>src/master/core/outbox.py\<close>): publishing, the sweep
  that claims, dispatches and marks entries, retries with a dead-letter cap,
  replay at start-up and clean-up. Whether a handler raises on an entry is a
  parameter, \<open>ok\<close>; handlers do not write to the outbox table.
\<close>

record outbox_entry =
  ob_id :: string
  ob_event_type :: string
  ob_aggregate_id :: "string option"
  ob_aggregate_type :: string
  ob_payload_json :: string
  ob_created_at :: time
  ob_processed :: nat
  ob_processed_at :: "time option"
  ob_retry_count :: nat
  ob_error :: "string option"

type_synonym outbox_table = "outbox_entry list"
type_synonym handlers = "(string, string list) dict"
type_synonym handler_result = "string \<Rightarrow> outbox_entry \<Rightarrow> bool"

section \<open>Operations\<close>

definition publish ::
  "string \<Rightarrow> time \<Rightarrow> string \<Rightarrow> string option \<Rightarrow> string \<Rightarrow> (string, json) dict \<Rightarrow> outbox_table \<Rightarrow> outbox_table" where
  "publish entry_id now event_type aggregate_id aggregate_type payload tbl =
     tbl @ [\<lparr>ob_id = entry_id, ob_event_type = event_type, ob_aggregate_id = aggregate_id,
             ob_aggregate_type = aggregate_type, ob_payload_json = json_dumps False (JObj payload),
             ob_created_at = now, ob_processed = 0, ob_processed_at = None, ob_retry_count = 0, ob_error = None\<rparr>]"

definition register_handler :: "string \<Rightarrow> string \<Rightarrow> handlers \<Rightarrow> handlers" where
  "register_handler event_type handler hs = AList.update event_type (dict_get hs event_type [] @ [handler]) hs"

definition handlers_for :: "handlers \<Rightarrow> string \<Rightarrow> string list" where
  "handlers_for hs event_type = dict_get hs event_type [] @ dict_get hs ''*'' []"

definition claim_entry :: "string \<Rightarrow> outbox_table \<Rightarrow> bool \<times> outbox_table" where
  "claim_entry i tbl =
     (sql_rowcount (\<lambda>e. ob_id e = i \<and> ob_processed e = 0) tbl = 1,
      sql_update (\<lambda>e. ob_id e = i \<and> ob_processed e = 0) (\<lambda>e. e\<lparr>ob_processed := 2\<rparr>) tbl)"

definition get_retry_count :: "string \<Rightarrow> outbox_table \<Rightarrow> nat" where
  "get_retry_count i tbl = (case sql_fetchone (\<lambda>e. ob_id e = i) tbl of None \<Rightarrow> 0 | Some e \<Rightarrow> ob_retry_count e)"

definition mark_success :: "time \<Rightarrow> outbox_entry \<Rightarrow> outbox_entry" where
  "mark_success now e = e\<lparr>ob_processed := 1, ob_processed_at := Some now\<rparr>"

definition permanent_error :: "string option \<Rightarrow> nat \<Rightarrow> string" where
  "permanent_error err cap =
     (case err of None \<Rightarrow> ''None'' | Some m \<Rightarrow> m) @ '' | PERMANENTLY FAILED after '' @ nat_str cap @ '' retries''"

definition mark_failure :: "nat \<Rightarrow> nat \<Rightarrow> string option \<Rightarrow> time \<Rightarrow> outbox_entry \<Rightarrow> outbox_entry" where
  "mark_failure cap retry err now e =
     (if cap \<le> retry + 1
      then e\<lparr>ob_processed := 1, ob_processed_at := Some now, ob_retry_count := retry + 1,
             ob_error := Some (permanent_error err cap)\<rparr>
      else e\<lparr>ob_processed := 0, ob_retry_count := retry + 1, ob_error := err, ob_processed_at := Some now\<rparr>)"

definition mark_processed :: "nat \<Rightarrow> string \<Rightarrow> bool \<Rightarrow> string option \<Rightarrow> time \<Rightarrow> outbox_table \<Rightarrow> outbox_table" where
  "mark_processed cap i success err now tbl =
     sql_update (\<lambda>e. ob_id e = i)
       (if success then mark_success now else mark_failure cap (get_retry_count i tbl) err now) tbl"

definition dispatch_error_msg :: "handler_result \<Rightarrow> outbox_entry \<Rightarrow> string list \<Rightarrow> string option" where
  \<comment> \<open>the message of the last handler that raised\<close>
  "dispatch_error_msg ok e hs =
     fold (\<lambda>h acc. if ok h e then acc else Some (h @ '': handler raised'')) hs None"

text \<open>The loop over the selected rows: the count, the table, and the handler calls in order.\<close>

fun process_rows ::
  "nat \<Rightarrow> handlers \<Rightarrow> handler_result \<Rightarrow> (string \<Rightarrow> time) \<Rightarrow> outbox_entry list \<Rightarrow>
     nat \<times> outbox_table \<times> (string \<times> string) list \<Rightarrow> nat \<times> outbox_table \<times> (string \<times> string) list" where
  "process_rows cap hs ok clk [] acc = acc"
| "process_rows cap hs ok clk (e # es) (n, tbl, calls) =
     (let h = handlers_for hs (ob_event_type e); (claimed, tbl1) = claim_entry (ob_id e) tbl in
      if \<not> claimed then process_rows cap hs ok clk es (n, tbl1, calls)
      else if h = [] then
        process_rows cap hs ok clk es (n + 1, mark_processed cap (ob_id e) True None (clk (ob_id e)) tbl1, calls)
      else (let success = list_all (\<lambda>x. ok x e) h;
                tbl2 = mark_processed cap (ob_id e) success (dispatch_error_msg ok e h) (clk (ob_id e)) tbl1
            in process_rows cap hs ok clk es
                 (if success then n + 1 else n, tbl2, calls @ map (\<lambda>x. (ob_id e, x)) h)))"

definition pending_batch :: "nat \<Rightarrow> outbox_table \<Rightarrow> outbox_entry list" where
  "pending_batch batch_size tbl = take batch_size (sort_key ob_created_at (filter (\<lambda>e. ob_processed e = 0) tbl))"

definition process_pending ::
  "nat \<Rightarrow> handlers \<Rightarrow> handler_result \<Rightarrow> (string \<Rightarrow> time) \<Rightarrow> nat \<Rightarrow> outbox_table \<Rightarrow>
     nat \<times> outbox_table \<times> (string \<times> string) list" where
  "process_pending cap hs ok clk batch_size tbl =
     process_rows cap hs ok clk (pending_batch batch_size tbl) (0, tbl, [])"

definition reset_claims :: "outbox_table \<Rightarrow> outbox_table" where
  "reset_claims tbl = sql_update (\<lambda>e. ob_processed e = 2) (\<lambda>e. e\<lparr>ob_processed := 0\<rparr>) tbl"

definition replay_unprocessed ::
  "nat \<Rightarrow> handlers \<Rightarrow> handler_result \<Rightarrow> (string \<Rightarrow> time) \<Rightarrow> nat \<Rightarrow> outbox_table \<Rightarrow>
     nat \<times> outbox_table \<times> (string \<times> string) list" where
  "replay_unprocessed cap hs ok clk batch_size tbl = process_pending cap hs ok clk batch_size (reset_claims tbl)"

definition old_processed :: "time \<Rightarrow> outbox_entry \<Rightarrow> bool" where
  "old_processed ts e \<longleftrightarrow> ob_processed e = 1 \<and> (case ob_processed_at e of None \<Rightarrow> False | Some t \<Rightarrow> t < ts)"

definition cleanup_old :: "time \<Rightarrow> outbox_table \<Rightarrow> nat \<times> outbox_table" where
  "cleanup_old ts tbl = (length (filter (old_processed ts) tbl), filter (\<lambda>e. \<not> old_processed ts e) tbl)"

section \<open>Invariant and lemmas\<close>

definition entry_ok :: "nat \<Rightarrow> outbox_entry \<Rightarrow> bool" where
  \<comment> \<open>the three states, and no retry count beyond the cap\<close>
  "entry_ok cap e \<longleftrightarrow> ob_processed e \<in> {0, 1, 2} \<and> ob_retry_count e \<le> cap \<and>
     (ob_processed e \<noteq> 1 \<longrightarrow> ob_retry_count e < cap)"

definition outbox_ok :: "nat \<Rightarrow> outbox_table \<Rightarrow> bool" where
  "outbox_ok cap tbl \<longleftrightarrow> distinct (map ob_id tbl) \<and> (\<forall>e \<in> set tbl. entry_ok cap e)"

definition entry_of :: "string \<Rightarrow> outbox_table \<Rightarrow> outbox_entry option" where
  "entry_of i tbl = sql_fetchone (\<lambda>e. ob_id e = i) tbl"

text \<open>What one dispatch makes of a pending entry.\<close>

definition dispatched :: "nat \<Rightarrow> handlers \<Rightarrow> handler_result \<Rightarrow> (string \<Rightarrow> time) \<Rightarrow> outbox_entry \<Rightarrow> outbox_entry" where
  "dispatched cap hs ok clk e =
     (let h = handlers_for hs (ob_event_type e) in
      if list_all (\<lambda>x. ok x e) h then mark_success (clk (ob_id e)) e
      else mark_failure cap (ob_retry_count e) (dispatch_error_msg ok e h) (clk (ob_id e)) e)"

definition succeeds :: "handlers \<Rightarrow> handler_result \<Rightarrow> outbox_entry \<Rightarrow> bool" where
  "succeeds hs ok e \<longleftrightarrow> list_all (\<lambda>x. ok x e) (handlers_for hs (ob_event_type e))"

lemma mark_ids [simp]: "ob_id (mark_success t e) = ob_id e" "ob_id (mark_failure c r m t e) = ob_id e"
  by (simp_all add: mark_success_def mark_failure_def)

lemma mark_of_claimed [simp]:
  "mark_success t (e\<lparr>ob_processed := 2\<rparr>) = mark_success t e"
  "mark_failure c r m t (e\<lparr>ob_processed := 2\<rparr>) = mark_failure c r m t e"
  by (simp_all add: mark_success_def mark_failure_def)

lemma entry_of_claim:
  "entry_of j (snd (claim_entry i tbl)) =
     (if j = i then map_option (\<lambda>e. if ob_processed e = 0 then e\<lparr>ob_processed := 2\<rparr> else e) (entry_of i tbl) else entry_of j tbl)"
  by (simp add: entry_of_def claim_entry_def sql_fetchone_update_key [where key = ob_id]
      sql_fetchone_update_other_key [where key = ob_id])

lemma entry_of_mark:
  "entry_of j (mark_processed cap i success err now tbl) =
     (if j = i then map_option (if success then mark_success now else mark_failure cap (get_retry_count i tbl) err now) (entry_of i tbl)
      else entry_of j tbl)"
  by (simp add: entry_of_def mark_processed_def sql_fetchone_update_key_all [where key = ob_id]
      sql_fetchone_update_other_key_all [where key = ob_id])

lemma claim_entry_pending:
  assumes "distinct (map ob_id tbl)" and "entry_of i tbl = Some e"
  shows "fst (claim_entry i tbl) \<longleftrightarrow> ob_processed e = 0"
proof -
  have e: "e \<in> set tbl" "ob_id e = i" using assms(2) by (auto simp: entry_of_def dest: sql_fetchone_SomeD)
  have "filter (\<lambda>x. ob_id x = i) tbl = [e]"
  proof -
    from e(1) obtain as bs where t: "tbl = as @ e # bs" by (meson split_list)
    then have "ob_id e \<notin> ob_id ` set (as @ bs)" using assms(1) by auto
    with e(2) have "filter (\<lambda>x. ob_id x = i) as = []" "filter (\<lambda>x. ob_id x = i) bs = []"
      by (auto simp: filter_empty_conv image_iff) (metis UnI1 UnI2)+
    with t e(2) show ?thesis by simp
  qed
  moreover have "filter (\<lambda>x. ob_id x = i \<and> ob_processed x = 0) tbl = filter (\<lambda>x. ob_processed x = 0) (filter (\<lambda>x. ob_id x = i) tbl)"
    by (simp add: conj_commute)
  ultimately show ?thesis by (simp add: claim_entry_def sql_rowcount_def)
qed

lemma distinct_claim: "map ob_id (snd (claim_entry i tbl)) = map ob_id tbl"
  by (simp add: claim_entry_def map_sql_update_key)

lemma distinct_mark: "map ob_id (mark_processed cap i success err now tbl) = map ob_id tbl"
  by (auto simp: mark_processed_def intro: map_sql_update_key)

lemma process_rows_step:
  assumes "distinct (map ob_id tbl)" and "entry_of (ob_id e) tbl = Some e" and "ob_processed e = 0"
  shows "\<exists>tbl'. process_rows cap hs ok clk (e # es) (n, tbl, calls) =
      process_rows cap hs ok clk es (if succeeds hs ok e then n + 1 else n, tbl',
        calls @ map (\<lambda>x. (ob_id e, x)) (handlers_for hs (ob_event_type e))) \<and>
    map ob_id tbl' = map ob_id tbl \<and>
    (\<forall>j. entry_of j tbl' = (if j = ob_id e then Some (dispatched cap hs ok clk e) else entry_of j tbl))"
proof -
  let ?h = "handlers_for hs (ob_event_type e)"
  obtain tbl1 where c: "claim_entry (ob_id e) tbl = (True, tbl1)"
    using claim_entry_pending [OF assms(1,2)] assms(3) by (metis prod.collapse)
  have t1: "entry_of j tbl1 = (if j = ob_id e then Some (e\<lparr>ob_processed := 2\<rparr>) else entry_of j tbl)" for j
    using entry_of_claim [of j "ob_id e" tbl] assms(2,3) by (simp add: c)
  have r: "get_retry_count (ob_id e) tbl1 = ob_retry_count e"
    using t1 [of "ob_id e"] by (simp add: get_retry_count_def entry_of_def del: sql_fetchone_None_iff)
  let ?tbl2 = "mark_processed cap (ob_id e) (succeeds hs ok e)
      (if ?h = [] then None else dispatch_error_msg ok e ?h) (clk (ob_id e)) tbl1"
  have "process_rows cap hs ok clk (e # es) (n, tbl, calls) =
      process_rows cap hs ok clk es (if succeeds hs ok e then n + 1 else n, ?tbl2, calls @ map (\<lambda>x. (ob_id e, x)) ?h)"
    by (simp add: c Let_def succeeds_def)
  moreover have "map ob_id ?tbl2 = map ob_id tbl"
    using distinct_mark distinct_claim [of "ob_id e" tbl] c by (metis snd_conv)
  moreover have "entry_of j ?tbl2 = (if j = ob_id e then Some (dispatched cap hs ok clk e) else entry_of j tbl)" for j
    by (simp add: entry_of_mark t1 r dispatched_def succeeds_def Let_def)
  ultimately show ?thesis by blast
qed

lemma process_rows_exact:
  assumes "distinct (map ob_id tbl)" and "distinct (map ob_id es)"
    and "\<And>e. e \<in> set es \<Longrightarrow> entry_of (ob_id e) tbl = Some e \<and> ob_processed e = 0"
  shows "\<exists>tbl'. process_rows cap hs ok clk es (n, tbl, calls) =
      (n + length (filter (succeeds hs ok) es), tbl',
       calls @ concat (map (\<lambda>e. map (\<lambda>x. (ob_id e, x)) (handlers_for hs (ob_event_type e))) es)) \<and>
    map ob_id tbl' = map ob_id tbl \<and>
    (\<forall>j. entry_of j tbl' = (case List.find (\<lambda>e. ob_id e = j) es of
        Some e \<Rightarrow> Some (dispatched cap hs ok clk e) | None \<Rightarrow> entry_of j tbl))"
  using assms
proof (induction es arbitrary: n tbl calls)
  case (Cons e es)
  have e: "entry_of (ob_id e) tbl = Some e" "ob_processed e = 0" using Cons.prems(3) by auto
  from process_rows_step [OF Cons.prems(1) e, of cap hs ok clk es n calls] obtain tbl1 where
    t1: "process_rows cap hs ok clk (e # es) (n, tbl, calls) =
      process_rows cap hs ok clk es (if succeeds hs ok e then n + 1 else n, tbl1,
        calls @ map (\<lambda>x. (ob_id e, x)) (handlers_for hs (ob_event_type e)))"
    "map ob_id tbl1 = map ob_id tbl"
    "\<And>j. entry_of j tbl1 = (if j = ob_id e then Some (dispatched cap hs ok clk e) else entry_of j tbl)" by blast
  have ne: "ob_id x \<noteq> ob_id e" if "x \<in> set es" for x using that Cons.prems(2) by (auto simp: image_iff)
  have d1: "distinct (map ob_id tbl1)" and d2: "distinct (map ob_id es)" using t1(2) Cons.prems by auto
  have rows: "entry_of (ob_id x) tbl1 = Some x \<and> ob_processed x = 0" if "x \<in> set es" for x
    using that Cons.prems(3) [of x] ne [OF that] by (simp add: t1(3))
  have "List.find (\<lambda>x. ob_id x = ob_id e) es = None" using ne by (auto simp: find_None_iff)
  then have find: "(case List.find (\<lambda>x. ob_id x = j) es of Some x \<Rightarrow> Some (dispatched cap hs ok clk x) | None \<Rightarrow> entry_of j tbl1) =
      (case List.find (\<lambda>x. ob_id x = j) (e # es) of Some x \<Rightarrow> Some (dispatched cap hs ok clk x) | None \<Rightarrow> entry_of j tbl)" for j
    by (auto simp: t1(3) split: option.splits)
  from Cons.IH [OF d1 d2 rows, of "if succeeds hs ok e then n + 1 else n"
      "calls @ map (\<lambda>x. (ob_id e, x)) (handlers_for hs (ob_event_type e))"]
  show ?case unfolding t1(1,2) find by (auto simp del: find.simps)
qed simp

lemma entry_of_member: "distinct (map ob_id tbl) \<Longrightarrow> e \<in> set tbl \<Longrightarrow> entry_of (ob_id e) tbl = Some e"
  by (simp add: entry_of_def sql_fetchone_key [where key = ob_id])

lemma pending_batch_rows:
  assumes "distinct (map ob_id tbl)"
  shows "distinct (map ob_id (pending_batch b tbl))"
    and "e \<in> set (pending_batch b tbl) \<Longrightarrow> entry_of (ob_id e) tbl = Some e \<and> ob_processed e = 0"
proof -
  let ?s = "sort_key ob_created_at (filter (\<lambda>e. ob_processed e = 0) tbl)"
  have "distinct (map ob_id ?s)"
    using assms by (auto simp: distinct_map intro: inj_on_subset)
  then show "distinct (map ob_id (pending_batch b tbl))"
    by (simp add: pending_batch_def take_map [symmetric])
  assume "e \<in> set (pending_batch b tbl)"
  then have "e \<in> set ?s" by (auto simp: pending_batch_def dest: in_set_takeD)
  with assms show "entry_of (ob_id e) tbl = Some e \<and> ob_processed e = 0" by (auto intro: entry_of_member)
qed

text \<open>Every operation keeps the table well formed.\<close>

lemma dispatched_ok: "entry_ok cap e \<Longrightarrow> ob_processed e = 0 \<Longrightarrow> entry_ok cap (dispatched cap hs ok clk e)"
  by (auto simp: entry_ok_def dispatched_def Let_def mark_success_def mark_failure_def)

lemma outbox_ok_publish:
  "outbox_ok cap tbl \<Longrightarrow> 0 < cap \<Longrightarrow> entry_of i tbl = None \<Longrightarrow> outbox_ok cap (publish i now ty ai aty pl tbl)"
  by (auto simp: outbox_ok_def publish_def entry_ok_def entry_of_def)

lemma outbox_ok_reset: "outbox_ok cap tbl \<Longrightarrow> outbox_ok cap (reset_claims tbl)"
  by (auto simp: outbox_ok_def reset_claims_def map_sql_update_key entry_ok_def elim!: set_sql_updateE)

lemma outbox_ok_cleanup: "outbox_ok cap tbl \<Longrightarrow> outbox_ok cap (snd (cleanup_old ts tbl))"
  by (auto simp: outbox_ok_def cleanup_old_def distinct_map intro: inj_on_subset)

lemma outbox_ok_process:
  assumes "outbox_ok cap tbl"
  shows "outbox_ok cap (fst (snd (process_pending cap hs ok clk b tbl)))"
proof -
  have d: "distinct (map ob_id tbl)" using assms by (simp add: outbox_ok_def)
  note rows = pending_batch_rows [where b = b, OF d]
  from process_rows_exact [where es = "pending_batch b tbl" and cap = cap and hs = hs and ok = ok and clk = clk and n = 0
      and calls = "[]", OF d rows]
  obtain tbl' where t: "fst (snd (process_pending cap hs ok clk b tbl)) = tbl'" "map ob_id tbl' = map ob_id tbl"
    "\<And>j. entry_of j tbl' = (case List.find (\<lambda>e. ob_id e = j) (pending_batch b tbl) of
        Some e \<Rightarrow> Some (dispatched cap hs ok clk e) | None \<Rightarrow> entry_of j tbl)"
    by (auto simp: process_pending_def)
  have known: "entry_ok cap x" if "entry_of j tbl = Some x" for x j
    using that assms by (auto simp: outbox_ok_def entry_of_def dest: sql_fetchone_SomeD)
  have "entry_ok cap e" if "e \<in> set tbl'" for e
  proof -
    have "entry_of (ob_id e) tbl' = Some e" using that d t(2) by (simp add: entry_of_member)
    moreover have "x \<in> set (pending_batch b tbl)" if "List.find P (pending_batch b tbl) = Some x" for P x
      using that by (auto simp: find_Some_iff)
    ultimately show ?thesis using t(3) [of "ob_id e"] rows(2) known dispatched_ok
      by (fastforce split: option.splits)
  qed
  with d t(1,2) show ?thesis by (simp add: outbox_ok_def)
qed

section \<open>Interleaved sweeps\<close>

text \<open>
  Sweeps run as coroutines: a sweep selects rows, later claims each, awaits the
  handlers, then marks it; publishers and the clean-up run in between, and a
  sweep may be cut off anywhere. The start-up replay is not part of it: it runs
  before any sweep.
\<close>

record outbox_sys =
  os_table :: outbox_table
  os_selected :: "string multiset"
  os_running :: "string multiset"

definition os_init :: "outbox_sys \<Rightarrow> bool" where
  "os_init s \<longleftrightarrow> distinct (map ob_id (os_table s)) \<and> os_selected s = {#} \<and> os_running s = {#}"

inductive os_step :: "nat \<Rightarrow> outbox_sys \<Rightarrow> outbox_sys \<Rightarrow> bool" for cap :: nat where
  publishing: "entry_of i (os_table s) = None \<Longrightarrow>
    os_step cap s (s\<lparr>os_table := publish i now ty ai aty pl (os_table s)\<rparr>)"
| selecting: "e \<in> set (os_table s) \<Longrightarrow> ob_processed e = 0 \<Longrightarrow>
    os_step cap s (s\<lparr>os_selected := add_mset (ob_id e) (os_selected s)\<rparr>)"
| claiming: "os_selected s = add_mset i sel \<Longrightarrow> claim_entry i (os_table s) = (True, tbl') \<Longrightarrow>
    os_step cap s (s\<lparr>os_table := tbl', os_selected := sel, os_running := add_mset i (os_running s)\<rparr>)"
| skipping: "os_selected s = add_mset i sel \<Longrightarrow> os_step cap s (s\<lparr>os_selected := sel\<rparr>)"
| marking: "os_running s = add_mset i run \<Longrightarrow>
    os_step cap s (s\<lparr>os_table := mark_processed cap i success err now (os_table s), os_running := run\<rparr>)"
| cleaning: "os_step cap s (s\<lparr>os_table := snd (cleanup_old ts (os_table s))\<rparr>)"
| cut_off: "os_running s = add_mset i run \<Longrightarrow> os_step cap s (s\<lparr>os_running := run\<rparr>)"

definition in_flight :: "string \<Rightarrow> outbox_table \<Rightarrow> bool" where
  "in_flight i tbl \<longleftrightarrow> (case entry_of i tbl of None \<Rightarrow> False | Some e \<Rightarrow> ob_processed e = 2)"

definition os_inv :: "outbox_sys \<Rightarrow> bool" where
  "os_inv s \<longleftrightarrow> distinct (map ob_id (os_table s)) \<and>
     (\<forall>i. count (os_running s) i \<le> 1 \<and> (i \<in># os_running s \<longrightarrow> in_flight i (os_table s)))"

lemma in_flight_publish: "in_flight j tbl \<Longrightarrow> in_flight j (publish i now ty ai aty pl tbl)"
  by (simp add: in_flight_def publish_def entry_of_def sql_fetchone_append del: sql_fetchone_None_iff split: option.splits)

lemma claim_entry_True:
  assumes "distinct (map ob_id tbl)" and "claim_entry i tbl = (True, tbl')"
  shows "\<not> in_flight i tbl" "in_flight i tbl'" "j \<noteq> i \<Longrightarrow> in_flight j tbl' = in_flight j tbl"
    "distinct (map ob_id tbl')"
proof -
  obtain e where e: "entry_of i tbl = Some e"
  proof (cases "entry_of i tbl")
    case None
    then have "filter (\<lambda>e. ob_id e = i \<and> ob_processed e = 0) tbl = []"
      by (auto simp: entry_of_def filter_empty_conv)
    with assms(2) show thesis by (simp add: claim_entry_def sql_rowcount_def)
  qed (use that in blast)
  moreover from this have "ob_processed e = 0" using claim_entry_pending [OF assms(1) e] assms(2) by simp
  moreover have "tbl' = snd (claim_entry i tbl)" using assms(2) by simp
  ultimately show "\<not> in_flight i tbl" "in_flight i tbl'" "j \<noteq> i \<Longrightarrow> in_flight j tbl' = in_flight j tbl"
    by (simp_all add: in_flight_def entry_of_claim)
  show "distinct (map ob_id tbl')" using assms distinct_claim [of i tbl] by simp
qed

lemma in_flight_cleanup:
  assumes "distinct (map ob_id tbl)"
  shows "in_flight i (snd (cleanup_old ts tbl)) = in_flight i tbl"
proof -
  have "(\<exists>e \<in> set tbl. ob_id e = i \<and> ob_processed e = 2 \<and> \<not> old_processed ts e) \<longleftrightarrow> (\<exists>e \<in> set tbl. ob_id e = i \<and> ob_processed e = 2)"
    by (auto simp: old_processed_def)
  moreover have iff: "in_flight i t \<longleftrightarrow> (\<exists>e \<in> set t. ob_id e = i \<and> ob_processed e = 2)" if "distinct (map ob_id t)" for t
  proof
    assume "in_flight i t"
    then show "\<exists>e \<in> set t. ob_id e = i \<and> ob_processed e = 2"
      by (auto simp: in_flight_def entry_of_def dest!: sql_fetchone_SomeD split: option.splits)
  next
    assume "\<exists>e \<in> set t. ob_id e = i \<and> ob_processed e = 2"
    then show "in_flight i t" using entry_of_member [OF that] by (auto simp: in_flight_def)
  qed
  moreover have "distinct (map ob_id (snd (cleanup_old ts tbl)))"
    using assms by (auto simp: cleanup_old_def distinct_map intro: inj_on_subset)
  ultimately show ?thesis using assms by (auto simp: cleanup_old_def)
qed

interpretation sweep_once: inductive_invariant os_init "os_step cap" os_inv for cap
proof unfold_locales
  fix s assume "os_init s"
  then show "os_inv s" by (simp add: os_init_def os_inv_def)
next
  fix s t assume inv: "os_inv s" and "os_step cap s t"
  then have d: "distinct (map ob_id (os_table s))" by (simp add: os_inv_def)
  from \<open>os_step cap s t\<close> show "os_inv t"
  proof cases
    case (publishing i now ty ai aty pl)
    moreover from this have "i \<notin> ob_id ` set (os_table s)" by (auto simp: entry_of_def)
    ultimately show ?thesis
      using inv by (auto simp: os_inv_def in_flight_publish) (simp add: publish_def)
  next
    case (claiming i sel tbl')
    note c = claim_entry_True [OF d claiming(3)]
    have "i \<notin># os_running s" using inv c(1) by (auto simp: os_inv_def)
    then have "count (os_running s) i = 0" by (simp add: not_in_iff)
    then show ?thesis using inv c claiming(1) by (auto simp: os_inv_def)
  next
    case (marking i run success err now)
    have c: "count run i = 0" "count run j \<le> 1" for j
    proof -
      have "count (os_running s) x \<le> 1" for x using inv by (simp add: os_inv_def)
      from this [of i] this [of j] show "count run i = 0" "count run j \<le> 1"
        by (simp_all add: marking(2) split: if_splits)
    qed
    have "in_flight j (os_table t)" if j: "j \<in># run" for j
    proof -
      have "j \<noteq> i" using j c(1) by (metis not_in_iff)
      moreover have "in_flight j (os_table s)" using inv marking(2) j by (auto simp: os_inv_def)
      ultimately show ?thesis by (simp add: marking(1) in_flight_def entry_of_mark)
    qed
    with c(2) d show ?thesis by (simp add: os_inv_def marking(1) distinct_mark)
  next
    case (cut_off i run)
    then have "count run j \<le> count (os_running s) j" for j by simp
    with inv cut_off show ?thesis by (auto simp: os_inv_def intro: order_trans)
  next
    case (cleaning ts)
    moreover have "distinct (map ob_id (snd (cleanup_old ts (os_table s))))"
      using d by (auto simp: cleanup_old_def distinct_map intro: inj_on_subset)
    ultimately show ?thesis using inv in_flight_cleanup [OF d] by (simp add: os_inv_def)
  qed (use inv in \<open>auto simp: os_inv_def\<close>)
qed

section \<open>Properties\<close>

text \<open>
  A sweep does exactly its job. It calls every handler of every selected
  entry once, oldest entry first and in registration order with the catch-all
  handlers last; an entry is marked processed exactly when none of its handlers
  raised, otherwise it is put back with one more retry or dead-lettered; entries
  outside the batch are untouched; the count returned is that of the successes.
\<close>

theorem sweep_exact:
  assumes "distinct (map ob_id tbl)" and "process_pending cap hs ok clk b tbl = (n, tbl', calls)"
  shows "calls = concat (map (\<lambda>e. map (\<lambda>x. (ob_id e, x)) (handlers_for hs (ob_event_type e))) (pending_batch b tbl)) \<and>
    n = length (filter (succeeds hs ok) (pending_batch b tbl)) \<and> map ob_id tbl' = map ob_id tbl \<and>
    (\<forall>e \<in> set tbl. entry_of (ob_id e) tbl' =
       Some (if e \<in> set (pending_batch b tbl) then dispatched cap hs ok clk e else e))"
proof -
  let ?es = "pending_batch b tbl"
  note rows = pending_batch_rows [where b = b, OF assms(1)]
  have f: "List.find (\<lambda>x. ob_id x = ob_id e) ?es = (if e \<in> set ?es then Some e else None)" if "e \<in> set tbl" for e
  proof (cases "e \<in> set ?es")
    case True
    with sql_fetchone_key [OF rows(1) True] show ?thesis by (simp add: sql_fetchone_def)
  next
    case False
    have "x = e" if "x \<in> set ?es" "ob_id x = ob_id e" for x
      using rows(2) [OF that(1)] that(2) entry_of_member [OF assms(1) \<open>e \<in> set tbl\<close>] by simp
    with False show ?thesis by (auto simp: find_None_iff)
  qed
  from process_rows_exact [where es = ?es and cap = cap and hs = hs and ok = ok and clk = clk and n = 0
      and calls = "[]", OF assms(1) rows] assms(2)
  show ?thesis using entry_of_member [OF assms(1)] by (auto simp: process_pending_def f)
qed

definition sample_entry :: outbox_entry where
  "sample_entry = \<lparr>ob_id = ''e1'', ob_event_type = ''node.state_changed'', ob_aggregate_id = None, ob_aggregate_type = ''node'',
     ob_payload_json = ''{}'', ob_created_at = 5, ob_processed = 0, ob_processed_at = None, ob_retry_count = 0, ob_error = None\<rparr>"

theorem sweep_exact_witness:
  "process_pending 5 [(''*'', [''h''])] (\<lambda>_ _. True) (\<lambda>_. 9) 100 [sample_entry] =
     (1, [mark_success 9 sample_entry], [(''e1'', ''h'')]) \<and>
   snd (snd (process_pending 5 [(''*'', [''h''])] (\<lambda>_ _. True) (\<lambda>_. 9) 100 [sample_entry])) =
     concat (map (\<lambda>e. map (\<lambda>x. (ob_id e, x)) (handlers_for [(''*'', [''h''])] (ob_event_type e))) (pending_batch 100 [sample_entry]))"
proof -
  have run: "process_pending 5 [(''*'', [''h''])] (\<lambda>_ _. True) (\<lambda>_. 9) 100 [sample_entry] =
     (1, [mark_success 9 sample_entry], [(''e1'', ''h'')])" by code_simp
  from sweep_exact [OF _ run] run show ?thesis by simp
qed

definition sweeps :: "nat \<Rightarrow> handlers \<Rightarrow> handler_result \<Rightarrow> (string \<Rightarrow> time) \<Rightarrow> nat \<Rightarrow> nat \<Rightarrow> outbox_table \<Rightarrow> outbox_table" where
  "sweeps cap hs ok clk b k tbl = ((\<lambda>t. fst (snd (process_pending cap hs ok clk b t))) ^^ k) tbl"

lemma sweep_entry:
  assumes "distinct (map ob_id tbl)" and "length tbl \<le> b" and "entry_of i tbl = Some e"
  shows "entry_of i (fst (snd (process_pending cap hs ok clk b tbl))) =
      Some (if ob_processed e = 0 then dispatched cap hs ok clk e else e)"
    and "map ob_id (fst (snd (process_pending cap hs ok clk b tbl))) = map ob_id tbl"
proof -
  have m: "e \<in> set tbl" "ob_id e = i" using assms(3) by (auto simp: entry_of_def dest: sql_fetchone_SomeD)
  have "length (sort_key ob_created_at (filter (\<lambda>e. ob_processed e = 0) tbl)) \<le> b"
    using assms(2) by (simp add: le_trans [OF length_filter_le])
  then have batch: "e \<in> set (pending_batch b tbl) \<longleftrightarrow> ob_processed e = 0" using m by (simp add: pending_batch_def)
  note rows = pending_batch_rows [where b = b, OF assms(1)]
  from process_rows_exact [where es = "pending_batch b tbl" and cap = cap and hs = hs and ok = ok and clk = clk and n = 0
      and calls = "[]", OF assms(1) rows]
  obtain tbl' where t: "fst (snd (process_pending cap hs ok clk b tbl)) = tbl'" "map ob_id tbl' = map ob_id tbl"
    "entry_of i tbl' = (case List.find (\<lambda>e. ob_id e = i) (pending_batch b tbl) of
        Some e \<Rightarrow> Some (dispatched cap hs ok clk e) | None \<Rightarrow> entry_of i tbl)"
    by (auto simp: process_pending_def)
  have "List.find (\<lambda>x. ob_id x = i) (pending_batch b tbl) = (if ob_processed e = 0 then Some e else None)"
  proof (cases "ob_processed e = 0")
    case True
    with sql_fetchone_key [OF rows(1), of e] batch m show ?thesis by (simp add: sql_fetchone_def)
  next
    case False
    then show ?thesis using rows(2) assms(3) by (auto simp: find_None_iff)
  qed
  with t assms(3) show "entry_of i (fst (snd (process_pending cap hs ok clk b tbl))) =
      Some (if ob_processed e = 0 then dispatched cap hs ok clk e else e)"
    "map ob_id (fst (snd (process_pending cap hs ok clk b tbl))) = map ob_id tbl" by simp_all
qed

text \<open>
  A poison entry stops after the cap. With a handler that always raises and
  a batch that fits the table, the entry is back in the queue with one retry per
  sweep as long as these are fewer than the cap; from the cap on it is marked
  processed with exactly the cap as its retry count, so no later sweep calls its
  handlers.
\<close>

theorem poison_entry_dead_lettered:
  assumes "distinct (map ob_id tbl)" and "length tbl \<le> b" and "0 < cap"
    and "entry_of i tbl = Some e" and "ob_processed e = 0" and "ob_retry_count e = 0"
    and "h \<in> set (handlers_for hs (ob_event_type e))" and "\<forall>x. \<not> ok h x"
  shows "\<exists>e'. entry_of i (sweeps cap hs ok clk b k tbl) = Some e' \<and> ob_retry_count e' = min k cap \<and>
    ob_processed e' = (if k < cap then 0 else 1)"
proof -
  have "\<exists>e'. entry_of i (sweeps cap hs ok clk b k tbl) = Some e' \<and> ob_retry_count e' = min k cap \<and>
      ob_processed e' = (if k < cap then 0 else 1) \<and> ob_event_type e' = ob_event_type e \<and>
      map ob_id (sweeps cap hs ok clk b k tbl) = map ob_id tbl"
  proof (induction k)
    case 0
    then show ?case using assms by (simp add: sweeps_def)
  next
    case (Suc k)
    let ?t = "sweeps cap hs ok clk b k tbl"
    from Suc obtain e' where e': "entry_of i ?t = Some e'" "ob_retry_count e' = min k cap"
      "ob_processed e' = (if k < cap then 0 else 1)" "ob_event_type e' = ob_event_type e" "map ob_id ?t = map ob_id tbl" by blast
    have d: "distinct (map ob_id ?t)" "length ?t \<le> b" using e'(5) assms(1,2) by (simp, metis length_map)
    have fails: "\<not> list_all (\<lambda>x. ok x e') (handlers_for hs (ob_event_type e'))"
      using assms(7,8) e'(4) by (auto simp: list_all_iff)
    have "sweeps cap hs ok clk b (Suc k) tbl = fst (snd (process_pending cap hs ok clk b ?t))" by (simp add: sweeps_def)
    with sweep_entry [OF d e'(1), of cap hs ok clk] e' fails show ?case
      by (auto simp: dispatched_def Let_def mark_failure_def)
  qed
  then show ?thesis by blast
qed

theorem poison_entry_dead_lettered_witness:
  "\<exists>e'. entry_of ''e1'' (sweeps 5 [(''*'', [''h''])] (\<lambda>_ _. False) (\<lambda>_. 9) 100 7 [sample_entry]) = Some e' \<and>
     ob_retry_count e' = min 7 5 \<and> ob_processed e' = (if (7 :: nat) < 5 then 0 else 1)"
  by (rule poison_entry_dead_lettered [where h = "''h''" and e = sample_entry])
    (simp_all add: entry_of_def sample_entry_def handlers_for_def)

text \<open>
  C17. No double dispatch. However any number of sweeps, publishers and clean-ups
  interleave, an entry is in the hands of at most one sweep at a time, and while
  it is, its row is in the claimed state.
\<close>

theorem no_double_dispatch:
  assumes "reachable os_init (os_step cap) s"
  shows "count (os_running s) i \<le> 1 \<and> (i \<in># os_running s \<longrightarrow> in_flight i (os_table s))"
  using sweep_once.reachable_inv [OF assms] by (simp add: os_inv_def)

theorem no_double_dispatch_witness:
  "\<exists>s. reachable os_init (os_step 5) s \<and> count (os_running s) ''e1'' = 1 \<and> in_flight ''e1'' (os_table s)"
proof -
  let ?s0 = "\<lparr>os_table = [sample_entry], os_selected = {#}, os_running = {#}\<rparr>"
  let ?s2 = "?s0\<lparr>os_selected := {#''e1'', ''e1''#}\<rparr>"
  let ?s3 = "\<lparr>os_table = [sample_entry\<lparr>ob_processed := 2\<rparr>], os_selected = {#''e1''#}, os_running = {#''e1''#}\<rparr>"
  have "reachable os_init (os_step 5) ?s0" by (rule reachable.start) (simp add: os_init_def)
  moreover have "os_step 5 ?s0 (?s0\<lparr>os_selected := {#''e1''#}\<rparr>)" "os_step 5 (?s0\<lparr>os_selected := {#''e1''#}\<rparr>) ?s2"
    using os_step.selecting [of sample_entry ?s0 5] os_step.selecting [of sample_entry "?s0\<lparr>os_selected := {#''e1''#}\<rparr>" 5]
    by (simp_all add: sample_entry_def)
  moreover have "claim_entry ''e1'' [sample_entry] = (True, [sample_entry\<lparr>ob_processed := 2\<rparr>])" by code_simp
  then have "os_step 5 ?s2 ?s3" using os_step.claiming [of ?s2 "''e1''" "{#''e1''#}" _ 5] by simp
  ultimately have r: "reachable os_init (os_step 5) ?s3" by (meson reachable.next_state)
  from no_double_dispatch [OF this, of "''e1''"] r show ?thesis by (intro exI [of _ ?s3]) simp
qed

end
