(* ===== verification/Cron.thy ===== *)
theory Cron
  imports Py_Prelude
begin

text \<open>
  The cron parser (\<open>src/master/core/cron_parser.py\<close>): parsing of one field, of the
  five-field expression, and the search for the next matching minute within a
  year. Every error of the code is a \<open>ValueError\<close>, so a failed parse is \<open>None\<close>.
  A UTC \<open>datetime\<close> with zero seconds is the number of minutes since the epoch; its
  fields are those of the proleptic Gregorian calendar of Python's \<open>datetime\<close>.
\<close>

section \<open>Fields\<close>

definition range_step :: "int \<Rightarrow> int \<Rightarrow> int \<Rightarrow> int list" where
  \<comment> \<open>\<open>range(start, end + 1, step)\<close> for a positive step\<close>
  "range_step a b s = map (\<lambda>k. a + int k * s) [0..<nat ((b - a) div s + 1)]"

definition parse_step :: "string \<Rightarrow> (string \<times> int) option" where
  "parse_step part =
     (if CHR ''/'' \<in> set part then
        (case split_on (CHR ''/'') part of
           [v, st] \<Rightarrow> (case py_int st of Some n \<Rightarrow> if 0 < n then Some (v, n) else None | None \<Rightarrow> None)
         | _ \<Rightarrow> None)
      else Some (part, 1))"

definition parse_bounds :: "int \<Rightarrow> int \<Rightarrow> string \<Rightarrow> (int \<times> int) option" where
  "parse_bounds lo hi v =
     (if v = ''*'' then Some (lo, hi)
      else if CHR ''-'' \<in> set v then
        (case split_on (CHR ''-'') v of
           [x, y] \<Rightarrow> (case (py_int x, py_int y) of (Some a, Some b) \<Rightarrow> Some (a, b) | _ \<Rightarrow> None)
         | _ \<Rightarrow> None)
      else map_option (\<lambda>a. (a, a)) (py_int v))"

definition parse_part :: "int \<Rightarrow> int \<Rightarrow> string \<Rightarrow> int list option" where
  "parse_part lo hi part =
     (if part = [] then None
      else case parse_step part of
             None \<Rightarrow> None
           | Some (v, st) \<Rightarrow>
               (case parse_bounds lo hi v of
                  None \<Rightarrow> None
                | Some (a, b) \<Rightarrow>
                    if a < lo \<or> hi < a \<or> b < lo \<or> hi < b then None
                    else if b < a then None
                    else Some (range_step a b st)))"

fun parse_parts :: "int \<Rightarrow> int \<Rightarrow> string list \<Rightarrow> int list option" where
  "parse_parts lo hi [] = Some []"
| "parse_parts lo hi (p # ps) =
     (case parse_part lo hi p of
        None \<Rightarrow> None
      | Some xs \<Rightarrow> (case parse_parts lo hi ps of None \<Rightarrow> None | Some ys \<Rightarrow> Some (xs @ ys)))"

definition parse_cron_field :: "string \<Rightarrow> int \<Rightarrow> int \<Rightarrow> int list option" where
  \<comment> \<open>the set of allowed values, as a list\<close>
  "parse_cron_field field lo hi =
     (let f = strip field in if f = [] then None else parse_parts lo hi (split_on (CHR '','') f))"

section \<open>Expressions\<close>

record cron_expression =
  ce_minutes :: "int list"
  ce_hours :: "int list"
  ce_dom :: "int list"
  ce_months :: "int list"
  ce_dow :: "int list"

definition unify_sunday :: "int list \<Rightarrow> int list" where
  "unify_sunday d = (if 7 \<in> set d then 0 # filter (\<lambda>x. x \<noteq> 7) d else d)"

definition cron_parse :: "string \<Rightarrow> cron_expression option" where
  "cron_parse expr =
     (case split_ws (strip expr) of
        [p0, p1, p2, p3, p4] \<Rightarrow>
          (case (parse_cron_field p0 0 59, parse_cron_field p1 0 23, parse_cron_field p2 1 31,
                 parse_cron_field p3 1 12, parse_cron_field p4 0 7) of
             (Some mi, Some ho, Some dm, Some mo, Some dw) \<Rightarrow>
               Some \<lparr>ce_minutes = mi, ce_hours = ho, ce_dom = dm, ce_months = mo, ce_dow = unify_sunday dw\<rparr>
           | _ \<Rightarrow> None)
      | _ \<Rightarrow> None)"

section \<open>The calendar\<close>

definition is_leap :: "int \<Rightarrow> bool" where
  "is_leap y \<longleftrightarrow> y mod 4 = 0 \<and> (y mod 100 \<noteq> 0 \<or> y mod 400 = 0)"

definition month_lengths :: "bool \<Rightarrow> int list" where
  "month_lengths leap = [31, if leap then 29 else 28, 31, 30, 31, 30, 31, 31, 30, 31, 30, 31]"

fun month_day :: "int \<Rightarrow> int list \<Rightarrow> int \<Rightarrow> int \<times> int" where
  \<comment> \<open>month and day of the \<open>n\<close>-th day, counted from 0 at the start of month \<open>m\<close>\<close>
  "month_day m [] n = (m, n + 1)"
| "month_day m (l # ls) n = (if n < l then (m, n + 1) else month_day (m + 1) ls (n - l))"

definition civil :: "int \<Rightarrow> int \<times> int \<times> int" where
  \<comment> \<open>year, month, day of an ordinal counted from 0 at 0001-01-01\<close>
  "civil n =
     (let n400 = n div 146097; r = n mod 146097;
          n100 = r div 36524; r = r mod 36524;
          n4 = r div 1461; r = r mod 1461;
          n1 = r div 365; d = r mod 365;
          y = n400 * 400 + n100 * 100 + n4 * 4 + n1 + 1
      in if n1 = 4 \<or> n100 = 4 then (y - 1, 12, 31)
         else (y, month_day 1 (month_lengths (is_leap y)) d))"

definition EPOCH_ORDINAL :: int where
  \<comment> \<open>the days from 0001-01-01 to 1970-01-01\<close>
  "EPOCH_ORDINAL = 719162"

definition dt_minute :: "int \<Rightarrow> int" where "dt_minute t = t mod 60"
definition dt_hour :: "int \<Rightarrow> int" where "dt_hour t = t div 60 mod 24"
definition dt_ordinal :: "int \<Rightarrow> int" where "dt_ordinal t = t div 1440 + EPOCH_ORDINAL"
definition dt_month :: "int \<Rightarrow> int" where "dt_month t = fst (snd (civil (dt_ordinal t)))"
definition dt_day :: "int \<Rightarrow> int" where "dt_day t = snd (snd (civil (dt_ordinal t)))"
definition dt_weekday :: "int \<Rightarrow> int" where
  \<comment> \<open>Monday is 0; 0001-01-01 was a Monday\<close>
  "dt_weekday t = dt_ordinal t mod 7"

definition dt_of_timestamp :: "time \<Rightarrow> int" where
  \<comment> \<open>\<open>fromtimestamp\<close> rounds to microseconds; then seconds and microseconds are cleared\<close>
  "dt_of_timestamp ts = round_half_even (ts * 1000000) div 60000000"

section \<open>The next trigger\<close>

definition cron_matches :: "cron_expression \<Rightarrow> int \<Rightarrow> bool" where
  "cron_matches e t \<longleftrightarrow>
     dt_minute t \<in> set (ce_minutes e) \<and> dt_hour t \<in> set (ce_hours e) \<and> dt_day t \<in> set (ce_dom e) \<and>
     dt_month t \<in> set (ce_months e) \<and> (dt_weekday t + 1) mod 7 \<in> set (ce_dow e)"

fun search_minute :: "nat \<Rightarrow> cron_expression \<Rightarrow> int \<Rightarrow> int option" where
  "search_minute 0 e t = None"
| "search_minute (Suc n) e t = (if cron_matches e t then Some t else search_minute n e (t + 1))"

definition next_trigger :: "cron_expression \<Rightarrow> time \<Rightarrow> time option" where
  "next_trigger e ts =
     map_option (\<lambda>t. of_int (60 * t)) (search_minute 525600 e (dt_of_timestamp ts + 1))"

section \<open>Lemmas\<close>

lemma search_minute_Some:
  "search_minute n e t = Some u \<longleftrightarrow>
     t \<le> u \<and> u < t + int n \<and> cron_matches e u \<and> (\<forall>v. t \<le> v \<and> v < u \<longrightarrow> \<not> cron_matches e v)"
proof (induction n e t rule: search_minute.induct)
  case (2 n e t)
  show ?case
  proof (cases "cron_matches e t")
    case True
    then show ?thesis by (auto intro: antisym)
  next
    case False
    have "(\<forall>v. t \<le> v \<and> v < u \<longrightarrow> \<not> cron_matches e v) \<longleftrightarrow> (\<forall>v. t + 1 \<le> v \<and> v < u \<longrightarrow> \<not> cron_matches e v)"
      using False by (metis add1_zle_eq order_le_less)
    moreover have "cron_matches e u \<Longrightarrow> t \<le> u \<longleftrightarrow> t + 1 \<le> u" using False by (cases "t = u") auto
    ultimately show ?thesis using False 2 by auto
  qed
qed auto

lemma search_minute_None:
  "search_minute n e t = None \<longleftrightarrow> (\<forall>u. t \<le> u \<and> u < t + int n \<longrightarrow> \<not> cron_matches e u)"
proof (induction n e t rule: search_minute.induct)
  case (2 n e t)
  have "(\<forall>u. t \<le> u \<and> u < t + int (Suc n) \<longrightarrow> \<not> cron_matches e u) \<longleftrightarrow>
      \<not> cron_matches e t \<and> (\<forall>u. t + 1 \<le> u \<and> u < t + 1 + int n \<longrightarrow> \<not> cron_matches e u)"
    by (auto simp: add1_zle_eq intro: order_le_neq_trans)
  with 2 show ?case by simp
qed auto

lemma round_half_even_close: "\<bar>of_int (round_half_even x) - x\<bar> \<le> 1 / 2"
proof -
  have "of_int \<lfloor>x\<rfloor> \<le> x" "x < of_int \<lfloor>x\<rfloor> + 1" by linarith+
  then show ?thesis by (simp add: round_half_even_def Let_def)
qed

lemma dt_of_timestamp_later:
  assumes "dt_of_timestamp ts < t"
  shows "ts < of_int (60 * t)"
proof -
  let ?r = "round_half_even (ts * 1000000)"
  have "?r < 60000000 * t"
    using assms mult_div_mod_eq [of 60000000 ?r] pos_mod_bound [of 60000000 ?r]
    unfolding dt_of_timestamp_def by linarith
  then have "?r + 1 \<le> 60000000 * t" by simp
  then have "(of_int (?r + 1) :: rat) \<le> of_int (60000000 * t)" by (simp only: of_int_le_iff)
  moreover have "ts * 1000000 - of_int ?r \<le> 1 / 2" using round_half_even_close [of "ts * 1000000"] by linarith
  ultimately show ?thesis by simp
qed

section \<open>Fields as they are written\<close>

text \<open>The abstract syntax of a field, its text, and the values it stands for.\<close>

datatype cron_base = Star | Single nat | Interval nat nat

primrec show_base :: "cron_base \<Rightarrow> string" where
  "show_base Star = ''*''"
| "show_base (Single a) = nat_str a"
| "show_base (Interval a b) = nat_str a @ ''-'' @ nat_str b"

definition show_part :: "cron_base \<times> nat option \<Rightarrow> string" where
  "show_part p = show_base (fst p) @ (case snd p of None \<Rightarrow> [] | Some n \<Rightarrow> ''/'' @ nat_str n)"

definition show_field :: "(cron_base \<times> nat option) list \<Rightarrow> string" where
  "show_field ps = join_with '','' (map show_part ps)"

primrec base_bounds :: "int \<Rightarrow> int \<Rightarrow> cron_base \<Rightarrow> int \<times> int" where
  "base_bounds lo hi Star = (lo, hi)"
| "base_bounds lo hi (Single a) = (int a, int a)"
| "base_bounds lo hi (Interval a b) = (int a, int b)"

definition part_step :: "cron_base \<times> nat option \<Rightarrow> int" where
  "part_step p = (case snd p of None \<Rightarrow> 1 | Some n \<Rightarrow> int n)"

definition part_valid :: "int \<Rightarrow> int \<Rightarrow> cron_base \<times> nat option \<Rightarrow> bool" where
  "part_valid lo hi p \<longleftrightarrow> (case base_bounds lo hi (fst p) of (a, b) \<Rightarrow> lo \<le> a \<and> a \<le> b \<and> b \<le> hi) \<and> 0 < part_step p"

definition part_values :: "int \<Rightarrow> int \<Rightarrow> cron_base \<times> nat option \<Rightarrow> int list" where
  "part_values lo hi p = (case base_bounds lo hi (fst p) of (a, b) \<Rightarrow> range_step a b (part_step p))"

lemma set_range_step:
  assumes "a \<le> b" and "0 < s"
  shows "x \<in> set (range_step a b s) \<longleftrightarrow> a \<le> x \<and> x \<le> b \<and> s dvd (x - a)"
proof
  assume "x \<in> set (range_step a b s)"
  then obtain k where k: "x = a + int k * s" "int k < (b - a) div s + 1"
    using assms by (auto simp: range_step_def pos_imp_zdiv_nonneg_iff)
  then have "int k * s \<le> (b - a) div s * s" using assms(2) by (intro mult_right_mono) auto
  also have "\<dots> \<le> b - a" using div_mult_mod_eq [of "b - a" s] pos_mod_sign [OF assms(2), of "b - a"] by linarith
  finally show "a \<le> x \<and> x \<le> b \<and> s dvd (x - a)" using k(1) assms(2) by simp
next
  assume x: "a \<le> x \<and> x \<le> b \<and> s dvd (x - a)"
  then obtain q where q: "x - a = s * q" by (elim conjE dvdE)
  then have "0 \<le> q" using x assms(2) by (metis diff_ge_0_iff_ge zero_le_mult_iff not_le)
  moreover have "q \<le> (b - a) div s"
    using x q assms(2) by (metis diff_right_mono mult.commute nonzero_mult_div_cancel_right order_less_irrefl zdiv_mono1)
  ultimately show "x \<in> set (range_step a b s)"
    using q by (auto simp: range_step_def image_iff mult.commute intro!: bexI [of _ "nat q"])
qed

lemma show_base_chars:
  "c \<in> set (show_base b) \<Longrightarrow> is_digit c \<or> c = CHR ''*'' \<or> c = CHR ''-''"
  by (cases b) (auto dest: nat_str_digits)

lemma show_part_chars:
  "c \<in> set (show_part p) \<Longrightarrow> is_digit c \<or> c = CHR ''*'' \<or> c = CHR ''-'' \<or> c = CHR ''/''"
  by (auto simp: show_part_def dest: show_base_chars nat_str_digits split: option.splits)

lemma digit_chars [simp]: "\<not> is_digit (CHR ''/'')" "\<not> is_digit (CHR '','')" "\<not> is_digit (CHR ''*'')"
  by (simp_all add: is_digit_def)

lemma no_sep_in_nat_str [simp]:
  "CHR ''-'' \<notin> set (nat_str n)" "CHR ''/'' \<notin> set (nat_str n)" "CHR ''*'' \<notin> set (nat_str n)"
  by (simp_all add: not_digit_in_nat_str)

lemma no_slash_in_base: "CHR ''/'' \<notin> set (show_base b)"
  using show_base_chars [of "CHR ''/''" b] by auto

lemma parse_step_show:
  "parse_step (show_part p) = (if 0 < part_step p then Some (show_base (fst p), part_step p) else None)"
proof (cases "snd p")
  case None
  then show ?thesis using no_slash_in_base by (simp add: parse_step_def show_part_def part_step_def)
next
  case (Some n)
  then have "split_on (CHR ''/'') (show_part p) = [show_base (fst p), nat_str n]"
    by (simp add: show_part_def split_on_append_sep [OF no_slash_in_base] split_on_no_sep)
  with Some show ?thesis
    by (simp add: parse_step_def part_step_def py_int_nat_str) (simp add: show_part_def)
qed

lemma parse_bounds_show: "parse_bounds lo hi (show_base b) = Some (base_bounds lo hi b)"
proof (cases b)
  case (Single a)
  have "nat_str a \<noteq> ''*''" using no_sep_in_nat_str(3) [of a] by (metis list.set_intros(1))
  with Single show ?thesis by (simp add: parse_bounds_def py_int_nat_str)
next
  case (Interval a c)
  have "nat_str a @ ''-'' @ nat_str c \<noteq> ''*''"
    by (metis append_Cons append_is_Nil_conv list.inject list.distinct(1) nat_str_ne append_eq_Cons_conv)
  with Interval show ?thesis
    by (simp add: parse_bounds_def split_on_append_sep split_on_no_sep py_int_nat_str)
qed (simp add: parse_bounds_def)

lemma show_part_ne: "show_part p \<noteq> []"
  by (cases "fst p") (auto simp: show_part_def)

lemma parse_part_show:
  "parse_part lo hi (show_part p) = (if part_valid lo hi p then Some (part_values lo hi p) else None)"
proof -
  show ?thesis
    using show_part_ne [of p] by (auto simp: parse_part_def parse_step_show parse_bounds_show part_valid_def part_values_def split: prod.splits)
qed

lemma parse_parts_show:
  "parse_parts lo hi (map show_part ps) =
     (if list_all (part_valid lo hi) ps then Some (concat (map (part_values lo hi) ps)) else None)"
  by (induction ps) (simp_all add: parse_part_show)

text \<open>
  One year ahead is not enough for a leap day: from 2025-03-01 on, the
  expression for midnight on 29 February is refused, although 2028 has one.
\<close>

definition leap_day_cron :: cron_expression where
  "leap_day_cron = \<lparr>ce_minutes = [0], ce_hours = [0], ce_dom = [29], ce_months = [2], ce_dow = [0, 1, 2, 3, 4, 5, 6]\<rparr>"

lemma leap_day_parsed: "cron_parse ''0 0 29 2 0-6'' = Some leap_day_cron"
  by code_simp

lemma no_leap_day_2025: "list_all (\<lambda>d. snd (civil (d + EPOCH_ORDINAL)) \<noteq> (2, 29)) [20148..20513]"
  by code_simp

lemma leap_day_not_found: "next_trigger leap_day_cron 1740787200 = None"
proof -
  have t: "dt_of_timestamp 1740787200 = 29013120" by code_simp
  have "\<not> cron_matches leap_day_cron u" if "29013120 < u" "u \<le> 29013120 + 525600" for u
  proof
    assume m: "cron_matches leap_day_cron u"
    then have "dt_month u = 2" "dt_day u = 29" by (simp_all add: cron_matches_def leap_day_cron_def)
    then have "snd (civil (u div 1440 + EPOCH_ORDINAL)) = (2, 29)"
      by (simp add: dt_month_def dt_day_def dt_ordinal_def prod_eq_iff)
    moreover have "20148 \<le> u div 1440" "u div 1440 \<le> 20513" using that by auto
    ultimately show False using no_leap_day_2025 unfolding list_all_iff set_upto by (metis atLeastAtMost_iff)
  qed
  then have "search_minute 525600 leap_day_cron (dt_of_timestamp 1740787200 + 1) = None"
    unfolding search_minute_None t by simp
  then show ?thesis by (simp add: next_trigger_def)
qed

section \<open>Properties\<close>

text \<open>
  Parsing a field. A written field, a comma-separated list of stars, numbers
  and intervals with optional steps, is accepted exactly when every interval lies
  within the limits and every step is positive, and then it allows exactly the
  values that some component reaches from its start in whole steps.
\<close>

theorem cron_field_parsed:
  assumes "ps \<noteq> []"
  shows "(\<not> list_all (part_valid lo hi) ps \<longrightarrow> parse_cron_field (show_field ps) lo hi = None) \<and>
    (list_all (part_valid lo hi) ps \<longrightarrow>
      (\<exists>xs. parse_cron_field (show_field ps) lo hi = Some xs \<and>
        (\<forall>x. x \<in> set xs \<longleftrightarrow> (\<exists>p \<in> set ps. case base_bounds lo hi (fst p) of (a, b) \<Rightarrow>
            a \<le> x \<and> x \<le> b \<and> part_step p dvd (x - a)))))"
proof -
  have "\<forall>c \<in> set (show_field ps). \<not> is_space c"
  proof
    fix c assume "c \<in> set (show_field ps)"
    then have "c = CHR '','' \<or> (\<exists>p. c \<in> set (show_part p))"
      unfolding show_field_def using in_set_join [of c "'',''" "map show_part ps"] by auto
    then have "is_digit c \<or> c \<in> set '',*-/''" using show_part_chars by fastforce
    then show "\<not> is_space c" by (auto simp: digit_not_space) (simp_all add: is_space_def)
  qed
  then have strip: "strip (show_field ps) = show_field ps" by (rule strip_no_space)
  have "\<forall>x \<in> set (map show_part ps). CHR '','' \<notin> set x"
    using show_part_chars [of "CHR '',''"] by auto
  then have split: "split_on (CHR '','') (show_field ps) = map show_part ps"
    unfolding show_field_def using assms by (intro split_join) simp_all
  have "show_field ps \<noteq> []"
    using assms show_part_ne by (cases ps rule: remdups_adj.cases) (auto simp: show_field_def)
  then have parse: "parse_cron_field (show_field ps) lo hi =
      (if list_all (part_valid lo hi) ps then Some (concat (map (part_values lo hi) ps)) else None)"
    by (simp add: parse_cron_field_def strip split parse_parts_show)
  have "x \<in> set (part_values lo hi p) \<longleftrightarrow> (case base_bounds lo hi (fst p) of (a, b) \<Rightarrow>
      a \<le> x \<and> x \<le> b \<and> part_step p dvd (x - a))" if "part_valid lo hi p" for p x
    using that set_range_step by (auto simp: part_values_def part_valid_def split: prod.splits)
  then show ?thesis using parse by (auto simp: list_all_iff split: if_splits)
qed

theorem cron_field_parsed_witness:
  "show_field [(Interval 10 20, Some 5), (Single 3, None)] = ''10-20/5,3'' \<and>
   (\<exists>xs. parse_cron_field ''10-20/5,3'' 0 59 = Some xs \<and> 15 \<in> set xs \<and> 3 \<in> set xs \<and> 12 \<notin> set xs)"
proof -
  have s: "show_field [(Interval 10 20, Some 5), (Single 3, None)] = ''10-20/5,3''" by code_simp
  show ?thesis
    using cron_field_parsed [of "[(Interval 10 20, Some 5), (Single 3, None)]" 0 59]
    unfolding s by (auto simp: part_valid_def part_step_def)
qed

text \<open>
  C39. The next trigger is the first. A returned time is a whole minute strictly
  after the given time whose calendar fields all match, and no minute between
  the two matches; an error means that no minute of the coming 525600 matches.
\<close>

theorem next_trigger_first:
  "(\<forall>t. next_trigger e ts = Some t \<longrightarrow>
      ts < t \<and> (\<exists>u. t = of_int (60 * u) \<and> u \<le> dt_of_timestamp ts + 525600 \<and> cron_matches e u \<and>
        (\<forall>v. dt_of_timestamp ts < v \<and> v < u \<longrightarrow> \<not> cron_matches e v))) \<and>
   (next_trigger e ts = None \<longleftrightarrow>
      (\<forall>u. dt_of_timestamp ts < u \<and> u \<le> dt_of_timestamp ts + 525600 \<longrightarrow> \<not> cron_matches e u))"
proof -
  have "ts < t \<and> (\<exists>u. t = of_int (60 * u) \<and> u \<le> dt_of_timestamp ts + 525600 \<and> cron_matches e u \<and>
        (\<forall>v. dt_of_timestamp ts < v \<and> v < u \<longrightarrow> \<not> cron_matches e v))" if "next_trigger e ts = Some t" for t
  proof -
    from that obtain u where u: "t = of_int (60 * u)" "search_minute 525600 e (dt_of_timestamp ts + 1) = Some u"
      by (auto simp: next_trigger_def)
    note m = u(2) [unfolded search_minute_Some]
    then have "ts < t" unfolding u(1) by (intro dt_of_timestamp_later) simp
    with u(1) m show ?thesis by auto
  qed
  moreover have "next_trigger e ts = None \<longleftrightarrow>
      (\<forall>u. dt_of_timestamp ts < u \<and> u \<le> dt_of_timestamp ts + 525600 \<longrightarrow> \<not> cron_matches e u)"
    by (auto simp: next_trigger_def search_minute_None)
  ultimately show ?thesis by blast
qed

definition every_five_minutes :: cron_expression where
  "every_five_minutes = the (cron_parse ''*/5 * * * *'')"

theorem next_trigger_first_witness:
  "\<exists>t u. next_trigger every_five_minutes 0 = Some t \<and> 0 < t \<and> t = of_int (60 * u) \<and> cron_matches every_five_minutes u"
proof -
  have "cron_matches every_five_minutes 5" "dt_of_timestamp 0 = 0" by code_simp+
  then have "next_trigger every_five_minutes 0 \<noteq> None"
    using next_trigger_first [of every_five_minutes 0] by (auto dest!: spec [of _ 5])
  then show ?thesis using next_trigger_first [of every_five_minutes 0] by auto
qed

end
