(* ===== verification/Permissions.thy ===== *)
theory Permissions
  imports Py_Text Enums
begin

text \<open>
  The closed permission catalogue and the check at dispatch
  (\<open>src/master/core/permissions.py\<close>). A manifest's permission list is raw JSON, as
  for a plugin read from disk; the names it yields form a set, which Python
  iterates in no fixed order, so the order is an argument of the check.
\<close>

record permission_spec =
  ps_id :: string
  ps_resource_contract :: string
  ps_mutation :: bool
  ps_min_role :: string

definition ROLE_LEVELS :: "(string, nat) dict" where
  "ROLE_LEVELS = [(''viewer'', 0), (''operator'', 1), (''admin'', 2)]"

definition role_level :: "string \<Rightarrow> nat" where
  "role_level role = dict_get ROLE_LEVELS role 0"

definition spec :: "string \<Rightarrow> string \<Rightarrow> bool \<Rightarrow> string \<Rightarrow> string \<times> permission_spec" where
  "spec i c mu r = (i, \<lparr>ps_id = i, ps_resource_contract = c, ps_mutation = mu, ps_min_role = r\<rparr>)"

definition PERMISSION_CATALOG :: "(string, permission_spec) dict" where
  "PERMISSION_CATALOG =
     [spec ''node_read'' ''metrics'' False ''viewer'',
      spec ''service_read'' ''systemd'' False ''viewer'',
      spec ''restart_service'' ''systemd'' True ''operator'',
      spec ''container_read'' ''docker'' False ''viewer'',
      spec ''restart_container'' ''docker'' True ''operator'',
      spec ''read_logs'' ''systemd'' False ''viewer'',
      spec ''disk_scan'' ''disk_analysis'' False ''viewer'',
      spec ''plex_read'' ''plex'' False ''viewer'',
      spec ''plex_auth'' ''plex'' True ''operator'']"

fun item_names :: "json list \<Rightarrow> string list" where
  "item_names [] = []"
| "item_names (JStr s # xs) = s # item_names xs"
| "item_names (JObj d # xs) =
     (case map_of d ''name'' of Some (JStr n) \<Rightarrow> if n \<noteq> [] then n # item_names xs else item_names xs | _ \<Rightarrow> item_names xs)"
| "item_names (_ # xs) = item_names xs"

definition manifest_permission_names :: "json \<Rightarrow> string list" where
  \<comment> \<open>the distinct names; anything but a list has none\<close>
  "manifest_permission_names v = (case v of JArr xs \<Rightarrow> remdups (item_names xs) | _ \<Rightarrow> [])"

record command_entry =
  cm_resource_contract :: string
  cm_mutation :: bool

definition shape_matches :: "command_entry \<Rightarrow> permission_spec \<Rightarrow> bool" where
  "shape_matches c e \<longleftrightarrow> ps_resource_contract e = cm_resource_contract c \<and> ps_mutation e = cm_mutation c"

fun check_names :: "string \<Rightarrow> command_entry \<Rightarrow> string option \<Rightarrow> string list \<Rightarrow> bool \<times> string" where
  "check_names role c shape_min [] =
     (case shape_min of
        Some r \<Rightarrow> (False, ''r'' @ [CHR 0xF4] @ ''le insuffisant (min: '' @ r @ '')'')
      | None \<Rightarrow> (False, ''permission non d'' @ [CHR 0xE9] @ ''clar'' @ [CHR 0xE9] @ ''e''))"
| "check_names role c shape_min (n # ns) =
     (case map_of PERMISSION_CATALOG n of
        None \<Rightarrow> check_names role c shape_min ns
      | Some e \<Rightarrow>
          if \<not> shape_matches c e then check_names role c shape_min ns
          else (let sm = (case shape_min of
                            None \<Rightarrow> ps_min_role e
                          | Some r \<Rightarrow> if role_level (ps_min_role e) < role_level r then ps_min_role e else r)
                in if role_level (ps_min_role e) \<le> role_level role then (True, [])
                   else check_names role c (Some sm) ns))"

definition check_permission_intersection ::
  "(string list \<Rightarrow> string list) \<Rightarrow> string \<Rightarrow> command_entry \<Rightarrow> json option \<Rightarrow> bool \<times> string" where
  \<comment> \<open>\<open>order\<close> is the iteration order of the frozen set\<close>
  "check_permission_intersection order role c perms =
     (case perms of
        None \<Rightarrow> (True, [])
      | Some v \<Rightarrow>
          (let names = manifest_permission_names v in
           if names = []
           then (False, ''aucune permission d'' @ [CHR 0xE9] @ ''clar'' @ [CHR 0xE9] @ ''e (liste vide)'')
           else check_names role c None (order names)))"

definition grants :: "string \<Rightarrow> command_entry \<Rightarrow> string \<Rightarrow> bool" where
  "grants role c n \<longleftrightarrow> (case map_of PERMISSION_CATALOG n of None \<Rightarrow> False
     | Some e \<Rightarrow> shape_matches c e \<and> role_level (ps_min_role e) \<le> role_level role)"

lemma check_names_iff: "fst (check_names role c sm ns) \<longleftrightarrow> (\<exists>n \<in> set ns. grants role c n)"
  by (induction role c sm ns rule: check_names.induct)
    (auto simp: grants_def Let_def split: option.splits if_splits)

text \<open>
  The intersection, whatever the iteration order. A legacy plugin without the
  field is allowed; a plugin with a permission list is allowed exactly when some
  declared name is a catalogue entry of the command's contract and mutation flag
  whose minimum role the caller has. In particular an unknown name grants nothing
  and a mutation is never granted to a viewer.
\<close>

theorem permission_intersection:
  assumes "\<And>xs. set (order xs) = set xs"
  shows "(fst (check_permission_intersection order role c perms) \<longleftrightarrow>
      perms = None \<or> (\<exists>v n. perms = Some v \<and> n \<in> set (manifest_permission_names v) \<and> grants role c n)) \<and>
    (perms \<noteq> None \<and> cm_mutation c \<and> role_level role = 0 \<longrightarrow> \<not> fst (check_permission_intersection order role c perms))"
proof -
  have iff: "fst (check_permission_intersection order role c perms) \<longleftrightarrow>
      perms = None \<or> (\<exists>v n. perms = Some v \<and> n \<in> set (manifest_permission_names v) \<and> grants role c n)"
    using assms by (auto simp: check_permission_intersection_def check_names_iff Let_def split: option.splits)
  have "list_all (\<lambda>(n, e). ps_mutation e \<longrightarrow> 0 < role_level (ps_min_role e)) PERMISSION_CATALOG" by code_simp
  then have "0 < role_level (ps_min_role e)" if "map_of PERMISSION_CATALOG n = Some e" "ps_mutation e" for n e
    using map_of_SomeD [OF that(1)] that(2) by (auto simp: list_all_iff)
  then have "\<not> grants role c n" if "cm_mutation c" "role_level role = 0" for n
    using that by (auto simp: grants_def shape_matches_def split: option.splits)
  with iff show ?thesis by auto
qed

theorem permission_intersection_witness:
  "fst (check_permission_intersection (\<lambda>xs. xs) ''operator'' \<lparr>cm_resource_contract = ''systemd'', cm_mutation = True\<rparr>
     (Some (JArr [JObj [(''name'', JStr ''restart_service'')]]))) \<and>
   \<not> fst (check_permission_intersection (\<lambda>xs. xs) ''guest'' \<lparr>cm_resource_contract = ''systemd'', cm_mutation = True\<rparr>
     (Some (JArr [JObj [(''name'', JStr ''restart_service'')]])))"
proof -
  let ?c = "\<lparr>cm_resource_contract = ''systemd'', cm_mutation = True\<rparr>"
  have g: "grants ''operator'' ?c ''restart_service''" "role_level ''guest'' = 0" by code_simp+
  have n: "manifest_permission_names (JArr [JObj [(''name'', JStr ''restart_service'')]]) = [''restart_service'']" by code_simp
  show ?thesis
    using permission_intersection [of "\<lambda>xs. xs" "''operator''" ?c "Some (JArr [JObj [(''name'', JStr ''restart_service'')]])"]
      permission_intersection [of "\<lambda>xs. xs" "''guest''" ?c "Some (JArr [JObj [(''name'', JStr ''restart_service'')]])"] g n
    by auto
qed

end
