(* ===== verification/Hook_Bus.thy ===== *)
theory Hook_Bus
  imports Circuit_Breaker Outbox Py_Text
begin

text \<open>
  The hook bus (\<open>src/master/core/hook_bus.py\<close>): registration, the four dispatch
  modes, the per-plugin circuit breakers, the metrics and the outbox event of the
  critical hooks. What a hook does, and how long it takes, is a field of the
  hook. The tasks of one asynchronous dispatch start together at \<open>now\<close> and are
  taken in registration order; overlapping calls of one breaker are the subject of
  the circuit-breaker theory.
\<close>

section \<open>State\<close>

datatype outcome =
    Returns json
  | Raises string
  | TimesOut

type_synonym kwargs = "(string, json) dict"

record hook_fn =
  fn_async :: bool
  fn_body :: "kwargs \<Rightarrow> outcome"
  fn_duration :: "kwargs \<Rightarrow> rat"
  fn_id :: nat \<comment> \<open>the object identity \<open>id(fn)\<close>\<close>

record hook_metric =
  hm_invocations :: nat
  hm_errors :: nat
  hm_total :: rat

record hook_bus =
  hb_hooks :: "(string, (string \<times> hook_fn) list) dict"
  hb_breakers :: "(string, circuit_breaker) dict"
  hb_inflight :: "(string, int) dict"
  hb_metrics :: "(string, hook_metric) dict"

record hook_result =
  hr_success :: bool
  hr_result :: json
  hr_error :: "string option"
  hr_plugin_name :: string

definition new_hook_bus :: hook_bus where
  "new_hook_bus = \<lparr>hb_hooks = [], hb_breakers = [], hb_inflight = [], hb_metrics = []\<rparr>"

section \<open>Registration\<close>

definition hooks_of :: "hook_bus \<Rightarrow> string \<Rightarrow> (string \<times> hook_fn) list" where
  "hooks_of b hook = dict_get (hb_hooks b) hook []"

definition register :: "string \<Rightarrow> hook_fn \<Rightarrow> string \<Rightarrow> hook_bus \<Rightarrow> hook_bus" where
  "register hook f plugin b =
     b\<lparr>hb_hooks := AList.update hook (hooks_of b hook @ [(plugin, f)]) (hb_hooks b)\<rparr>"

definition metric_key :: "string \<Rightarrow> string \<Rightarrow> string" where
  "metric_key hook plugin = hook @ '':'' @ plugin"

definition unregister :: "string \<Rightarrow> string \<Rightarrow> hook_bus \<Rightarrow> nat \<times> hook_bus" where
  "unregister hook plugin b =
     (case map_of (hb_hooks b) hook of
        None \<Rightarrow> (0, b)
      | Some impls \<Rightarrow>
          (let rest = filter (\<lambda>x. fst x \<noteq> plugin) impls;
               hooks = (if rest = [] then AList.delete hook (hb_hooks b) else AList.update hook rest (hb_hooks b))
           in (length impls - length rest,
               b\<lparr>hb_hooks := hooks, hb_metrics := AList.delete (metric_key hook plugin) (hb_metrics b)\<rparr>)))"

definition has_hook :: "hook_bus \<Rightarrow> string \<Rightarrow> bool" where
  "has_hook b hook \<longleftrightarrow> hooks_of b hook \<noteq> []"

definition get_hooks :: "hook_bus \<Rightarrow> (string, string list) dict" where
  "get_hooks b = map (\<lambda>(h, impls). (h, map fst impls)) (hb_hooks b)"

section \<open>Metrics and breakers\<close>

definition record_metric :: "string \<Rightarrow> string \<Rightarrow> rat \<Rightarrow> bool \<Rightarrow> hook_bus \<Rightarrow> hook_bus" where
  "record_metric hook plugin duration err b =
     (let k = metric_key hook plugin;
          mt = dict_get (hb_metrics b) k \<lparr>hm_invocations = 0, hm_errors = 0, hm_total = 0\<rparr>
      in b\<lparr>hb_metrics := AList.update k
             \<lparr>hm_invocations = hm_invocations mt + 1, hm_errors = hm_errors mt + (if err then 1 else 0),
              hm_total = hm_total mt + duration\<rparr> (hb_metrics b)\<rparr>)"

definition get_metrics :: "hook_bus \<Rightarrow> (string, nat \<times> nat \<times> rat) dict" where
  \<comment> \<open>invocations, errors, average duration\<close>
  "get_metrics b = map (\<lambda>(k, mt). (k, hm_invocations mt, hm_errors mt,
     if 0 < hm_invocations mt then hm_total mt / of_nat (hm_invocations mt) else 0)) (hb_metrics b)"

definition breaker_of :: "hook_bus \<Rightarrow> string \<Rightarrow> circuit_breaker" where
  "breaker_of b plugin = dict_get (hb_breakers b) plugin (default_circuit_breaker plugin)"

definition set_breaker :: "string \<Rightarrow> circuit_breaker \<Rightarrow> hook_bus \<Rightarrow> hook_bus" where
  "set_breaker plugin cb b = b\<lparr>hb_breakers := AList.update plugin cb (hb_breakers b)\<rparr>"

section \<open>Synchronous dispatch\<close>

definition raised :: "outcome \<Rightarrow> bool" where
  \<comment> \<open>a synchronous call has no timeout\<close>
  "raised out \<longleftrightarrow> (case out of Raises _ \<Rightarrow> True | _ \<Rightarrow> False)"

fun call_impls :: "string \<Rightarrow> kwargs \<Rightarrow> (string \<times> hook_fn) list \<Rightarrow> hook_bus \<Rightarrow> json list \<times> hook_bus" where
  "call_impls hook kw [] b = ([], b)"
| "call_impls hook kw ((plugin, f) # rest) b =
     (if fn_async f then call_impls hook kw rest b
      else (let out = fn_body f kw;
                b' = record_metric hook plugin (fn_duration f kw) (raised out) b;
                (rs, b'') = call_impls hook kw rest b'
            in case out of
                 Returns v \<Rightarrow> if v \<noteq> JNull then (v # rs, b'') else (rs, b'')
               | _ \<Rightarrow> (rs, b'')))"

definition call_hook :: "string \<Rightarrow> kwargs \<Rightarrow> hook_bus \<Rightarrow> json list \<times> hook_bus" where
  "call_hook hook kw b = call_impls hook kw (hooks_of b hook) b"

fun call_first_impls :: "string \<Rightarrow> kwargs \<Rightarrow> (string \<times> hook_fn) list \<Rightarrow> hook_bus \<Rightarrow> json \<times> hook_bus" where
  "call_first_impls hook kw [] b = (JNull, b)"
| "call_first_impls hook kw ((plugin, f) # rest) b =
     (if fn_async f then call_first_impls hook kw rest b
      else (let out = fn_body f kw;
                b' = record_metric hook plugin (fn_duration f kw) (raised out) b
            in case out of
                 Returns v \<Rightarrow> if v \<noteq> JNull then (v, b') else call_first_impls hook kw rest b'
               | _ \<Rightarrow> call_first_impls hook kw rest b'))"

definition call_first :: "string \<Rightarrow> kwargs \<Rightarrow> hook_bus \<Rightarrow> json \<times> hook_bus" where
  "call_first hook kw b = call_first_impls hook kw (hooks_of b hook) b"

section \<open>Asynchronous dispatch\<close>

text \<open>
  One hook under its breaker: the result dictionary, the breaker afterwards, and
  whether the metrics count an error. A cancelled asynchronous hook is a failure
  of the breaker, a cancelled synchronous one is not recorded at all.
\<close>

definition hook_failure :: "string \<Rightarrow> string \<Rightarrow> hook_result" where
  "hook_failure plugin err =
     \<lparr>hr_success = False, hr_result = JNull, hr_error = Some err, hr_plugin_name = plugin\<rparr>"

definition open_message :: "string \<Rightarrow> string" where
  "open_message plugin = ''Circuit breaker '' @ [CHR 0x27] @ plugin @ [CHR 0x27] @ '' is OPEN''"

definition guarded_run ::
  "string \<Rightarrow> time \<Rightarrow> kwargs \<Rightarrow> string \<Rightarrow> hook_fn \<Rightarrow> circuit_breaker \<Rightarrow> hook_result \<times> circuit_breaker \<times> bool" where
  "guarded_run timeout_msg now kw plugin f cb =
     (case check now cb of
        (Inl _, cb1) \<Rightarrow> (hook_failure plugin (open_message plugin), cb1, True)
      | (Inr _, cb1) \<Rightarrow>
          (case fn_body f kw of
             Returns v \<Rightarrow>
               (\<lparr>hr_success = True, hr_result = v, hr_error = None, hr_plugin_name = plugin\<rparr>, record_success cb1, False)
           | Raises msg \<Rightarrow> (hook_failure plugin msg, record_failure (now + fn_duration f kw) cb1, True)
           | TimesOut \<Rightarrow>
               (hook_failure plugin timeout_msg,
                if fn_async f then record_failure (now + fn_duration f kw) cb1 else cb1, False)))"

definition run_async_hook ::
  "string \<Rightarrow> time \<Rightarrow> string \<Rightarrow> kwargs \<Rightarrow> string \<Rightarrow> hook_fn \<Rightarrow> hook_bus \<Rightarrow> hook_result \<times> hook_bus" where
  "run_async_hook timeout_msg now hook kw plugin f b =
     (let (r, cb, err) = guarded_run timeout_msg now kw plugin f (breaker_of b plugin);
          b1 = record_metric hook plugin (fn_duration f kw) err (set_breaker plugin cb b)
      in (r, b1\<lparr>hb_inflight := AList.update plugin (dict_get (hb_inflight b) plugin 0) (hb_inflight b)\<rparr>))"

fun run_impls ::
  "string \<Rightarrow> time \<Rightarrow> string \<Rightarrow> kwargs \<Rightarrow> (string \<times> hook_fn) list \<Rightarrow> hook_bus \<Rightarrow> hook_result list \<times> hook_bus" where
  "run_impls msg now hook kw [] b = ([], b)"
| "run_impls msg now hook kw ((plugin, f) # rest) b =
     (let (r, b1) = run_async_hook msg now hook kw plugin f b;
          (rs, b2) = run_impls msg now hook kw rest b1
      in (r # rs, b2))"

definition CRITICAL_HOOKS :: "(string, string \<times> string \<times> string) dict" where
  "CRITICAL_HOOKS =
     [(''on_plugin_load'', ''plugin.load'', ''plugin_id'', ''plugin''),
      (''on_plugin_unload'', ''plugin.unload'', ''plugin_id'', ''plugin''),
      (''on_node_connect'', ''node.connect'', ''node_id'', ''node''),
      (''on_node_disconnect'', ''node.disconnect'', ''node_id'', ''node'')]"

definition publish_outbox_event ::
  "string \<Rightarrow> time \<Rightarrow> string \<Rightarrow> hook_result list \<Rightarrow> kwargs \<Rightarrow> outbox_table \<Rightarrow> outbox_table" where
  "publish_outbox_event entry_id now hook rs kw tbl =
     (case map_of CRITICAL_HOOKS hook of
        None \<Rightarrow> tbl
      | Some (event_type, agg_key, agg_type) \<Rightarrow>
          (let v = dict_get kw agg_key JNull in
           if \<not> json_truthy v then tbl
           else publish entry_id now event_type (Some (py_str v)) agg_type
                  [(''hook_name'', JStr hook), (''result_count'', JInt (int (length rs))),
                   (''success_count'', JInt (int (length (filter hr_success rs)))),
                   (''failure_count'', JInt (int (length (filter (\<lambda>r. \<not> hr_success r) rs))))] tbl))"

definition async_call ::
  "string \<Rightarrow> string \<Rightarrow> time \<Rightarrow> string \<Rightarrow> kwargs \<Rightarrow> hook_bus \<Rightarrow> outbox_table \<Rightarrow> hook_result list \<times> hook_bus \<times> outbox_table" where
  "async_call entry_id msg now hook kw b tbl =
     (if hooks_of b hook = [] then ([], b, tbl)
      else (let (rs, b') = run_impls msg now hook kw (hooks_of b hook) b
            in (rs, b', publish_outbox_event entry_id now hook rs kw tbl)))"

definition first_result :: "hook_result list \<Rightarrow> json" where
  "first_result rs = (case List.find (\<lambda>r. hr_success r \<and> hr_result r \<noteq> JNull) rs of None \<Rightarrow> JNull | Some r \<Rightarrow> hr_result r)"

definition async_call_first ::
  "string \<Rightarrow> string \<Rightarrow> time \<Rightarrow> string \<Rightarrow> kwargs \<Rightarrow> hook_bus \<Rightarrow> outbox_table \<Rightarrow> json \<times> hook_bus \<times> outbox_table" where
  "async_call_first entry_id msg now hook kw b tbl =
     (let (rs, b', tbl') = async_call entry_id msg now hook kw b tbl in (first_result rs, b', tbl'))"

section \<open>Lemmas\<close>

lemma register_then_unregister:
  assumes "dict_wf (hb_hooks b)" and "plugin \<notin> fst ` set (hooks_of b hook)"
  shows "hooks_of (snd (unregister hook plugin (register hook f plugin b))) h = hooks_of b h"
proof -
  have "filter (\<lambda>x. fst x \<noteq> plugin) (hooks_of b hook) = hooks_of b hook"
    using assms(2) by (auto simp: filter_id_conv)
  then show ?thesis
    by (auto simp: register_def unregister_def hooks_of_def Let_def py_dict dict_get_update)
qed

lemma breaker_of_run:
  "breaker_of (snd (run_async_hook msg now hook kw plugin f b)) p =
     (if p = plugin then fst (snd (guarded_run msg now kw plugin f (breaker_of b plugin))) else breaker_of b p)"
  by (simp add: run_async_hook_def breaker_of_def set_breaker_def record_metric_def Let_def py_dict split: prod.splits)

lemma run_async_hook_result:
  "fst (run_async_hook msg now hook kw plugin f b) = fst (guarded_run msg now kw plugin f (breaker_of b plugin))"
  by (simp add: run_async_hook_def Let_def split: prod.splits)

lemma guarded_run_name: "hr_plugin_name (fst (guarded_run msg now kw plugin f cb)) = plugin"
  by (auto simp: guarded_run_def hook_failure_def split: prod.splits sum.splits outcome.splits)

lemma run_impls_names: "map hr_plugin_name (fst (run_impls msg now hook kw impls b)) = map fst impls"
proof (induction msg now hook kw impls b rule: run_impls.induct)
  case (2 msg now hook kw plugin f rest b)
  obtain r b1 where r: "run_async_hook msg now hook kw plugin f b = (r, b1)" by fastforce
  have "hr_plugin_name r = plugin" using run_async_hook_result [of msg now hook kw plugin f b] r guarded_run_name by (metis fst_conv)
  with 2 [OF r [symmetric] refl] r show ?case by (simp add: Let_def split_beta)
qed simp

lemma run_impls_isolated:
  assumes "breaker_of b p = breaker_of b' p"
  shows "filter (\<lambda>r. hr_plugin_name r = p) (fst (run_impls msg now hook kw impls b)) =
      fst (run_impls msg now hook kw (filter (\<lambda>x. fst x = p) impls) b') \<and>
    breaker_of (snd (run_impls msg now hook kw impls b)) p =
      breaker_of (snd (run_impls msg now hook kw (filter (\<lambda>x. fst x = p) impls) b')) p"
  using assms
proof (induction impls arbitrary: b b')
  case (Cons x rest)
  obtain plugin f where x: "x = (plugin, f)" by (cases x)
  obtain r b1 where r: "run_async_hook msg now hook kw plugin f b = (r, b1)" by fastforce
  have name: "hr_plugin_name r = plugin"
    using run_async_hook_result [of msg now hook kw plugin f b] r guarded_run_name by (metis fst_conv)
  have b1: "breaker_of b1 q = (if q = plugin then fst (snd (guarded_run msg now kw plugin f (breaker_of b plugin))) else breaker_of b q)" for q
    using breaker_of_run [of msg now hook kw plugin f b q] r by simp
  show ?case
  proof (cases "plugin = p")
    case True
    obtain r' b1' where r': "run_async_hook msg now hook kw plugin f b' = (r', b1')" by fastforce
    have "r' = r" "breaker_of b1' p = breaker_of b1 p"
      using run_async_hook_result [of msg now hook kw plugin f b] run_async_hook_result [of msg now hook kw plugin f b']
        breaker_of_run [of msg now hook kw plugin f b' p] b1 [of p] r r' Cons.prems True by auto
    with Cons.IH [of b1 b1'] r r' True name x show ?thesis by (simp add: Let_def split_beta)
  next
    case False
    then have "breaker_of b1 p = breaker_of b' p" using b1 [of p] Cons.prems by simp
    with Cons.IH [of b1 b'] r False name x show ?thesis by (simp add: Let_def split_beta)
  qed
qed simp

lemma run_impls_open:
  assumes "cb_state (breaker_of b p) = OPEN" and "now - last_failure_time (breaker_of b p) < timeout (breaker_of b p)"
  shows "\<forall>r \<in> set (fst (run_impls msg now hook kw (filter (\<lambda>x. fst x = p) impls) b)).
    r = hook_failure p (open_message p)"
  using assms
proof (induction impls arbitrary: b)
  case (Cons x rest)
  obtain plugin f where x: "x = (plugin, f)" by (cases x)
  show ?case
  proof (cases "plugin = p")
    case True
    obtain r b1 where r: "run_async_hook msg now hook kw p f b = (r, b1)" by fastforce
    have g: "guarded_run msg now kw p f (breaker_of b p) = (hook_failure p (open_message p), breaker_of b p, True)"
      using Cons.prems by (simp add: guarded_run_def check_def Let_def)
    have "breaker_of b1 p = breaker_of b p" "r = hook_failure p (open_message p)"
      using breaker_of_run [of msg now hook kw p f b p] run_async_hook_result [of msg now hook kw p f b] r g by simp_all
    with Cons.IH [of b1] Cons.prems r True x show ?thesis by (simp add: Let_def split_beta)
  qed (use Cons x in simp)
qed simp

section \<open>Properties\<close>


definition sample_bus :: hook_bus where
  "sample_bus = register ''on_metrics'' \<lparr>fn_async = True, fn_body = (\<lambda>_. Raises ''boom''), fn_duration = (\<lambda>_. 1), fn_id = 1\<rparr> ''bad''
     (register ''on_metrics'' \<lparr>fn_async = True, fn_body = (\<lambda>_. Returns (JInt 1)), fn_duration = (\<lambda>_. 1), fn_id = 2\<rparr> ''good'' new_hook_bus)"


end
