(* ===== verification/Alert_Engine.thy ===== *)
theory Alert_Engine
  imports Rate_Limiter
begin

text \<open>
  The alert engine (\<open>src/master/core/alert_engine.py\<close>): thresholds with
  hysteresis, derived metrics, reboot, connection and intent-failure alerts, the
  in-memory table of active alerts and the \<open>alerts\<close> database table beside it.

  Every handler runs under the engine's lock, so it is one transition. What a
  handler reads from outside (clocks, UUIDs, whether a database write succeeds)
  is an \<open>alert_io\<close>, indexed by the alert it is read for: a handler fires and
  resolves an alert at most once. A metric value is a number, \<open>None\<close> or some
  other object; \<open>bool\<close> is a number, as in Python. Message texts are kept as their
  template and arguments, since they hold characters beyond code point 255, and
  \<open>details_json\<close> as the value it parses to.
\<close>

section \<open>Thresholds\<close>

datatype cmp_operator = GT | LT | GTE | LTE

record alert_threshold =
  th_name :: string
  th_metric :: string
  warning_at :: "rat option"
  critical_at :: "rat option"
  resolve_at :: "rat option"
  th_operator :: cmp_operator

primrec cmp :: "cmp_operator \<Rightarrow> rat \<Rightarrow> rat \<Rightarrow> bool" where
  "cmp GT value threshold = (threshold < value)"
| "cmp LT value threshold = (value < threshold)"
| "cmp GTE value threshold = (threshold \<le> value)"
| "cmp LTE value threshold = (value \<le> threshold)"

definition exceeded :: "alert_threshold \<Rightarrow> rat \<Rightarrow> rat option \<Rightarrow> bool" where
  "exceeded th value bound = (case bound of None \<Rightarrow> False | Some b \<Rightarrow> cmp (th_operator th) value b)"

definition check_threshold :: "alert_threshold \<Rightarrow> rat \<Rightarrow> (string \<times> rat) option" where
  "check_threshold th value =
     (if exceeded th value (critical_at th) then map_option (Pair ''critical'') (critical_at th)
      else if exceeded th value (warning_at th) then map_option (Pair ''warning'') (warning_at th)
      else None)"

definition is_resolved :: "alert_threshold \<Rightarrow> rat \<Rightarrow> bool" where
  "is_resolved th value =
     (case resolve_at th of
        None \<Rightarrow> False
      | Some r \<Rightarrow>
          (case th_operator th of GT \<Rightarrow> value \<le> r | LT \<Rightarrow> r \<le> value | GTE \<Rightarrow> False | LTE \<Rightarrow> False))"

definition threshold :: "string \<Rightarrow> string \<Rightarrow> rat option \<Rightarrow> rat option \<Rightarrow> rat option \<Rightarrow> cmp_operator \<Rightarrow> alert_threshold" where
  "threshold n m w c r oper =
     \<lparr>th_name = n, th_metric = m, warning_at = w, critical_at = c, resolve_at = r, th_operator = oper\<rparr>"

definition BUILTIN_THRESHOLDS :: "alert_threshold list" where
  "BUILTIN_THRESHOLDS =
    [threshold ''disk_usage_high'' ''disk_percent'' (Some 85) (Some 95) (Some 80) GT,
     threshold ''memory_usage_high'' ''mem_percent'' (Some 85) (Some 95) (Some 80) GT,
     threshold ''memory_swap_active'' ''swap_used_bytes'' (Some 1) None (Some 0) GT,
     threshold ''cpu_high_percent'' ''cpu_percent'' (Some 80) (Some 95) (Some 60) GT,
     threshold ''temperature_high'' ''temp_celsius'' (Some 75) (Some 85) (Some 70) GT,
     threshold ''psi_cpu_pressure'' ''psi_cpu_avg10'' (Some 50) (Some 80) (Some 30) GT,
     threshold ''psi_io_pressure'' ''psi_io_avg10'' (Some 50) (Some 80) (Some 30) GT,
     threshold ''psi_mem_pressure'' ''psi_mem_avg10'' (Some 50) (Some 80) (Some 30) GT,
     threshold ''entropy_low'' ''entropy_avail'' None (Some 100) (Some 200) LT,
     threshold ''cpu_load_per_core_high'' ''cpu_load_per_core'' (Some 2) (Some 4) (Some (3 / 2)) GT,
     threshold ''process_count_high'' ''processes'' (Some 500) (Some 1000) (Some 400) GT,
     threshold ''swap_usage_percent_high'' ''swap_percent'' (Some 50) (Some 80) (Some 40) GT,
     threshold ''file_handle_usage_high'' ''file_handle_percent'' (Some 80) (Some 95) (Some 70) GT,
     threshold ''app_sshd_fd_usage_high'' ''app_sshd_fds_percent'' (Some 80) (Some 95) (Some 70) GT,
     threshold ''network_drops_high'' ''net_drops_rate'' (Some 5) (Some 20) (Some 3) GT,
     threshold ''disk_io_high'' ''disk_io_mbps'' (Some 50) (Some 200) (Some 30) GT]"

definition severity_rank :: "string \<Rightarrow> nat" where
  "severity_rank s = dict_get [(''info'', 0), (''warning'', 1), (''critical'', 2)] s 0"

section \<open>State\<close>

datatype metric_value = MNone | MNum rat | MOther json

type_synonym snapshot = "(string, metric_value) dict"

datatype alert_message =
    ThresholdMessage string rat rat
  | RebootMessage rat rat
  | LostMessage string
  | StaleMessage string
  | FlapMessage string nat
  | IntentRateMessage rat nat nat

datatype alert_details =
    NoDetails
  | TopProcesses json "json list"
  | FailureRate nat nat rat

record alert_row =
  al_id :: string
  al_node_id :: string
  al_alert_name :: string
  al_severity :: string
  al_status :: string
  al_message :: alert_message
  al_metric_value :: "rat option"
  al_threshold :: "rat option"
  al_details :: "alert_details option" \<comment> \<open>\<open>details_json\<close>; \<open>None\<close> for a text \<open>json.loads\<close> rejects\<close>
  al_created_at :: time
  al_resolved_at :: "time option"
  al_updated_at :: time

record alert_state =
  as_id :: string
  as_severity :: string
  as_details :: alert_details
  as_created_at :: time

record alert_engine =
  active_alerts :: "(string, (string, alert_state) dict) dict"
  last_snapshot :: "(string, snapshot) dict"
  intent_failures :: "(string, (time \<times> bool) list) dict"
  reconnect_counts :: "(string, time list) dict"
  alert_rate_limiter :: "(string, time list) dict"
  alert_table :: "alert_row list"
  has_callback :: bool
  spawned :: "(string \<times> string \<times> string \<times> string) list" \<comment> \<open>investigations started\<close>

record alert_io =
  io_db :: bool \<comment> \<open>\<open>db or self._db\<close> is not None\<close>
  io_clock :: time
  io_limiter_clock :: "string \<Rightarrow> time"
  io_fire_clock :: "string \<Rightarrow> time"
  io_resolve_clock :: "string \<Rightarrow> time"
  io_uuid :: "string \<Rightarrow> string"
  io_insert_ok :: "string \<Rightarrow> bool"
  io_update_ok :: "string \<Rightarrow> bool"

definition active_of :: "alert_engine \<Rightarrow> string \<Rightarrow> (string, alert_state) dict" where
  "active_of e node = dict_get (active_alerts e) node []"

definition current_alert :: "alert_engine \<Rightarrow> string \<Rightarrow> string \<Rightarrow> alert_state option" where
  "current_alert e node name = map_of (active_of e node) name"

definition touch :: "string \<Rightarrow> alert_engine \<Rightarrow> alert_engine" where
  \<comment> \<open>reading a key of the \<open>defaultdict\<close> creates it\<close>
  "touch node e = e\<lparr>active_alerts := AList.update node (active_of e node) (active_alerts e)\<rparr>"

definition set_active :: "string \<Rightarrow> string \<Rightarrow> alert_state \<Rightarrow> alert_engine \<Rightarrow> alert_engine" where
  "set_active node name st e =
     e\<lparr>active_alerts := AList.update node (AList.update name st (active_of e node)) (active_alerts e)\<rparr>"

definition del_active :: "string \<Rightarrow> string \<Rightarrow> alert_engine \<Rightarrow> alert_engine" where
  "del_active node name e =
     e\<lparr>active_alerts := AList.update node (AList.delete name (active_of e node)) (active_alerts e)\<rparr>"

definition new_alert_engine :: "alert_row list \<Rightarrow> bool \<Rightarrow> alert_engine" where
  "new_alert_engine tbl cb =
     \<lparr>active_alerts = [], last_snapshot = [], intent_failures = [], reconnect_counts = [],
      alert_rate_limiter = [], alert_table = tbl, has_callback = cb, spawned = []\<rparr>"

definition restore_alert :: "alert_row \<Rightarrow> alert_engine \<Rightarrow> alert_engine" where
  "restore_alert r e =
     (case al_details r of
        None \<Rightarrow> e
      | Some d \<Rightarrow> set_active (al_node_id r) (al_alert_name r)
          \<lparr>as_id = al_id r, as_severity = al_severity r, as_details = d, as_created_at = al_created_at r\<rparr> e)"

definition initialize :: "bool \<Rightarrow> alert_engine \<Rightarrow> alert_engine" where
  \<comment> \<open>\<open>ok\<close>: the query succeeds\<close>
  "initialize ok e =
     (if ok then fold restore_alert (filter (\<lambda>r. al_status r = ''firing'') (alert_table e)) e else e)"

section \<open>Firing and resolving\<close>

definition limiter_key :: "string \<Rightarrow> string \<Rightarrow> string" where
  "limiter_key node name = node @ '':'' @ name"

definition is_rate_limited :: "string \<Rightarrow> time \<Rightarrow> (string, time list) dict \<Rightarrow> bool \<times> (string, time list) dict" where
  "is_rate_limited key now lm =
     (let ts = filter (\<lambda>t. now - t < 60) (dict_get lm key [])
      in if 10 \<le> length ts then (True, AList.update key ts lm)
         else (False, AList.update key (ts @ [now]) lm))"

definition fire_alert ::
  "alert_io \<Rightarrow> string \<Rightarrow> string \<Rightarrow> string \<Rightarrow> alert_message \<Rightarrow> rat option \<Rightarrow> rat option \<Rightarrow> alert_details \<Rightarrow>
     alert_engine \<Rightarrow> string option \<times> alert_engine" where
  "fire_alert io node name severity msg mvalue thresh details e =
     (if \<not> io_db io then (None, e)
      else
        (case is_rate_limited (limiter_key node name) (io_limiter_clock io name) (alert_rate_limiter e) of
           (True, lm) \<Rightarrow> (None, e\<lparr>alert_rate_limiter := lm\<rparr>)
         | (False, lm) \<Rightarrow>
             (let e1 = e\<lparr>alert_rate_limiter := lm\<rparr>; aid = io_uuid io name; now = io_fire_clock io name;
                  row = \<lparr>al_id = aid, al_node_id = node, al_alert_name = name, al_severity = severity,
                         al_status = ''firing'', al_message = msg, al_metric_value = mvalue,
                         al_threshold = thresh, al_details = Some details, al_created_at = now,
                         al_resolved_at = None, al_updated_at = now\<rparr>
              in if \<not> io_insert_ok io name \<or> aid \<in> al_id ` set (alert_table e1) then (None, e1)
                 else
                   (let e2 = set_active node name
                          \<lparr>as_id = aid, as_severity = severity, as_details = details, as_created_at = now\<rparr>
                          (e1\<lparr>alert_table := alert_table e1 @ [row]\<rparr>)
                    in (Some aid,
                        if has_callback e2 then e2\<lparr>spawned := spawned e2 @ [(aid, node, name, severity)]\<rparr> else e2)))))"

definition resolve_alert :: "alert_io \<Rightarrow> string \<Rightarrow> string \<Rightarrow> alert_engine \<Rightarrow> alert_engine" where
  "resolve_alert io node name e =
     (if \<not> io_db io then e
      else
        (let e1 = touch node e in
         case current_alert e1 node name of
           None \<Rightarrow> e1
         | Some st \<Rightarrow>
             (let now = io_resolve_clock io name in
              if \<not> io_update_ok io name then e1
              else del_active node name
                (e1\<lparr>alert_table := sql_update (\<lambda>r. al_id r = as_id st \<and> al_status r = ''firing'')
                   (\<lambda>r. r\<lparr>al_status := ''resolved'', al_resolved_at := Some now, al_updated_at := now\<rparr>)
                   (alert_table e1)\<rparr>))))"

section \<open>Metrics\<close>

text \<open>Arithmetic on snapshot values; \<open>None\<close> is a \<open>TypeError\<close>.\<close>

definition metric_num :: "metric_value \<Rightarrow> rat option" where
  "metric_num v = (case v of MNum x \<Rightarrow> Some x | _ \<Rightarrow> None)"

fun metric_truthy :: "metric_value \<Rightarrow> bool" where
  "metric_truthy MNone = False"
| "metric_truthy (MNum x) = (x \<noteq> 0)"
| "metric_truthy (MOther j) = json_truthy j"

definition ratio_metric :: "string \<Rightarrow> string \<Rightarrow> rat \<Rightarrow> string \<Rightarrow> snapshot \<Rightarrow> snapshot option" where
  \<comment> \<open>\<open>if a is not None and b and b > 0: snapshot[out] = a / b * k\<close>\<close>
  "ratio_metric a b k out s =
     (let x = dict_get s a MNone; y = dict_get s b MNone in
      if x = MNone \<or> \<not> metric_truthy y then Some s
      else (case metric_num y of
        None \<Rightarrow> None
      | Some d \<Rightarrow>
          if \<not> 0 < d then Some s
          else (case metric_num x of None \<Rightarrow> None | Some n \<Rightarrow> Some (AList.update out (MNum (n / d * k)) s))))"

definition sshd_metric :: "snapshot \<Rightarrow> snapshot" where
  "sshd_metric s =
     (if dict_get s ''app_sshd_fds_percent'' MNone \<noteq> MNone then s
      else (case (dict_get s ''app_sshd_fds_used'' MNone, dict_get s ''app_sshd_fds_max'' MNone) of
        (MNum u, MNum d) \<Rightarrow> if 0 < d then AList.update ''app_sshd_fds_percent'' (MNum (u / d * 100)) s else s
      | _ \<Rightarrow> s))"

definition metric_sum :: "string \<Rightarrow> string \<Rightarrow> snapshot \<Rightarrow> rat option" where
  \<comment> \<open>\<open>s.get(a, 0) + s.get(b, 0)\<close>\<close>
  "metric_sum a b s =
     (case (metric_num (dict_get s a (MNum 0)), metric_num (dict_get s b (MNum 0))) of
        (Some x, Some y) \<Rightarrow> Some (x + y)
      | _ \<Rightarrow> None)"

definition rate_metric :: "string \<Rightarrow> string \<Rightarrow> rat \<Rightarrow> rat \<Rightarrow> string \<Rightarrow> snapshot \<Rightarrow> snapshot \<Rightarrow> snapshot option" where
  "rate_metric a b dt unit out prev s =
     (case (metric_sum a b s, metric_sum a b prev) of
        (Some cur, Some old) \<Rightarrow>
          Some (if 0 < cur - old then AList.update out (MNum ((cur - old) / dt / unit)) s else s)
      | _ \<Rightarrow> None)"

definition delta_metrics :: "snapshot \<Rightarrow> snapshot \<Rightarrow> bool \<times> snapshot" where
  "delta_metrics prev s =
     (if prev = [] then (True, s)
      else (case (metric_num (dict_get s ''collected_at'' (MNum 0)), metric_num (dict_get prev ''collected_at'' (MNum 0))) of
        (Some c, Some p) \<Rightarrow>
          (let dt = max 1 (c - p) in
           case rate_metric ''net_drops_in'' ''net_drops_out'' dt 1 ''net_drops_rate'' prev s of
             None \<Rightarrow> (False, s)
           | Some s1 \<Rightarrow>
               (case rate_metric ''disk_read_bytes'' ''disk_write_bytes'' dt (1024 * 1024) ''disk_io_mbps'' prev s1 of
                  None \<Rightarrow> (False, s1)
                | Some s2 \<Rightarrow> (True, s2)))
      | _ \<Rightarrow> (False, s)))"

definition compute_synthetic_metrics :: "snapshot \<Rightarrow> snapshot \<Rightarrow> bool \<times> snapshot" where
  \<comment> \<open>whether it returns (else it raises \<open>TypeError\<close>), and the snapshot it has changed so far\<close>
  "compute_synthetic_metrics s prev =
     (case ratio_metric ''cpu_load_5m'' ''cpu_cores'' 1 ''cpu_load_per_core'' s of
        None \<Rightarrow> (False, s)
      | Some s1 \<Rightarrow>
          (case ratio_metric ''swap_used_bytes'' ''swap_total_bytes'' 100 ''swap_percent'' s1 of
             None \<Rightarrow> (False, s1)
           | Some s2 \<Rightarrow>
               (case ratio_metric ''file_handles_used'' ''file_handles_max'' 100 ''file_handle_percent'' s2 of
                  None \<Rightarrow> (False, s2)
                | Some s3 \<Rightarrow> delta_metrics prev (sshd_metric s3))))"

definition process_details :: "snapshot \<Rightarrow> alert_details" where
  "process_details s =
     (case dict_get s ''top_processes'' MNone of
        MOther (JArr (p # ps)) \<Rightarrow> TopProcesses p (p # ps)
      | _ \<Rightarrow> NoDetails)"

definition eval_threshold :: "alert_io \<Rightarrow> string \<Rightarrow> snapshot \<Rightarrow> alert_threshold \<Rightarrow> alert_engine \<Rightarrow> alert_engine" where
  "eval_threshold io node s th e =
     (case dict_get s (th_metric th) MNone of
        MNum value \<Rightarrow>
          (let name = th_name th; e1 = touch node e; current = current_alert e1 node name;
               fire = (\<lambda>severity thresh e. snd (fire_alert io node name severity
                  (ThresholdMessage name value thresh) (Some value) (Some thresh) (process_details s) e))
           in case check_threshold th value of
                Some (severity, thresh) \<Rightarrow>
                  (case current of
                     Some st \<Rightarrow>
                       if severity_rank severity \<le> severity_rank (as_severity st) then e1
                       else fire severity thresh (resolve_alert io node name e1)
                   | None \<Rightarrow> fire severity thresh e1)
              | None \<Rightarrow>
                  if current \<noteq> None \<and> is_resolved th value then resolve_alert io node name e1 else e1)
      | _ \<Rightarrow> e)"

definition evaluate_builtin_thresholds :: "alert_io \<Rightarrow> string \<Rightarrow> snapshot \<Rightarrow> alert_engine \<Rightarrow> alert_engine" where
  "evaluate_builtin_thresholds io node s e =
     (case compute_synthetic_metrics s (dict_get (last_snapshot e) node []) of
        (ok, s') \<Rightarrow>
          (let e1 = e\<lparr>last_snapshot := AList.update node s' (last_snapshot e)\<rparr>
           in if ok then fold (eval_threshold io node s') BUILTIN_THRESHOLDS e1 else e1))"

definition detect_reboot :: "alert_io \<Rightarrow> string \<Rightarrow> snapshot \<Rightarrow> alert_engine \<Rightarrow> bool \<times> alert_engine" where
  \<comment> \<open>\<open>False\<close>: it raises \<open>TypeError\<close>\<close>
  "detect_reboot io node s e =
     (case dict_get s ''uptime_seconds'' MNone of
        MNum uptime \<Rightarrow>
          (case dict_get (dict_get (last_snapshot e) node []) ''uptime_seconds'' MNone of
             MNone \<Rightarrow> (True, e)
           | MOther j \<Rightarrow> (False, e)
           | MNum prev \<Rightarrow>
               (let e1 = touch node e; name = ''node_reboot_detected'' in
                if uptime < prev - 5 then
                  (True, if current_alert e1 node name = None
                    then snd (fire_alert io node name ''warning'' (RebootMessage prev uptime) (Some uptime) None NoDetails e1)
                    else e1)
                else (True, if current_alert e1 node name \<noteq> None then resolve_alert io node name e1 else e1)))
      | _ \<Rightarrow> (True, e))"

definition evaluate_metrics :: "alert_io \<Rightarrow> string \<Rightarrow> snapshot \<Rightarrow> alert_engine \<Rightarrow> alert_engine" where
  "evaluate_metrics io node s e =
     (case detect_reboot io node s e of
        (False, e1) \<Rightarrow> e1
      | (True, e1) \<Rightarrow> evaluate_builtin_thresholds io node s e1)"

section \<open>Connection state and intent results\<close>

definition fire_once :: "alert_io \<Rightarrow> string \<Rightarrow> string \<Rightarrow> string \<Rightarrow> alert_message \<Rightarrow> rat option \<Rightarrow> rat option \<Rightarrow> alert_details \<Rightarrow> alert_engine \<Rightarrow> alert_engine" where
  "fire_once io node name severity msg mvalue thresh details e =
     (let e1 = touch node e in
      if current_alert e1 node name = None then snd (fire_alert io node name severity msg mvalue thresh details e1) else e1)"

definition resolve_if_active :: "alert_io \<Rightarrow> string \<Rightarrow> string \<Rightarrow> alert_engine \<Rightarrow> alert_engine" where
  "resolve_if_active io node name e =
     (let e1 = touch node e in
      if current_alert e1 node name \<noteq> None then resolve_alert io node name e1 else e1)"

definition record_reconnect :: "string \<Rightarrow> time \<Rightarrow> alert_engine \<Rightarrow> alert_engine" where
  "record_reconnect node now e =
     e\<lparr>reconnect_counts := AList.update node
         (filter (\<lambda>t. now - 3600 < t) (dict_get (reconnect_counts e) node [] @ [now])) (reconnect_counts e)\<rparr>"

definition evaluate_node_state :: "alert_io \<Rightarrow> string \<Rightarrow> string \<Rightarrow> alert_engine \<Rightarrow> alert_engine" where
  "evaluate_node_state io node state_value e =
     (if state_value = ''LOST'' then
        fire_once io node ''node_state_lost'' ''critical'' (LostMessage node) None None NoDetails e
      else if state_value = ''STALE'' then
        fire_once io node ''node_state_stale'' ''critical'' (StaleMessage node) None None NoDetails e
      else if state_value = ''CONNECTED'' then
        (let e1 = resolve_if_active io node ''node_state_stale'' (resolve_if_active io node ''node_state_lost'' e);
             e2 = record_reconnect node (io_clock io) e1;
             n = length (dict_get (reconnect_counts e2) node [])
         in if 5 \<le> n
            then fire_once io node ''node_connection_flap'' ''warning'' (FlapMessage node n) None None NoDetails e2
            else resolve_if_active io node ''node_connection_flap'' e2)
      else e)"

definition track_intent_result :: "alert_io \<Rightarrow> string \<Rightarrow> bool \<Rightarrow> alert_engine \<Rightarrow> alert_engine" where
  "track_intent_result io node success e =
     (let now = io_clock io;
          recent = filter (\<lambda>(t, s). now - 3600 < t) (dict_get (intent_failures e) node [] @ [(now, success)]);
          e1 = e\<lparr>intent_failures := AList.update node recent (intent_failures e)\<rparr>;
          total = length recent; failed = length (filter (\<lambda>(t, s). \<not> s) recent);
          rate = of_nat failed / of_nat total
      in if total = 0 then e1
         else if 1 / 5 < rate \<and> 5 \<le> total then
           fire_once io node ''intent_failed_rate'' ''warning'' (IntentRateMessage rate failed total)
             (Some rate) (Some (1 / 5)) (FailureRate failed total rate) e1
         else resolve_if_active io node ''intent_failed_rate'' e1)"

section \<open>Cleaning up\<close>

definition drop_node :: "string \<Rightarrow> alert_engine \<Rightarrow> alert_engine" where
  "drop_node nid e =
     e\<lparr>active_alerts := AList.delete nid (active_alerts e),
       alert_rate_limiter := filter (\<lambda>(k, ts). \<not> is_prefix_of (nid @ '':'') k) (alert_rate_limiter e),
       intent_failures := AList.delete nid (intent_failures e),
       reconnect_counts := AList.delete nid (reconnect_counts e),
       last_snapshot := AList.delete nid (last_snapshot e)\<rparr>"

definition cleanup_orphaned_alerts :: "bool \<Rightarrow> string list \<Rightarrow> string list option \<Rightarrow> alert_engine \<Rightarrow> nat \<times> alert_engine" where
  \<comment> \<open>the nodes at the \<open>DELETE\<close>, and those the later query returns, if it succeeds\<close>
  "cleanup_orphaned_alerts ok nodes nodes' e =
     (if \<not> ok then (0, e)
      else
        (let orphan = (\<lambda>r. al_node_id r \<notin> set nodes);
             e1 = e\<lparr>alert_table := filter (\<lambda>r. \<not> orphan r) (alert_table e)\<rparr>;
             valid = (case nodes' of None \<Rightarrow> [] | Some ns \<Rightarrow> ns);
             orphaned = filter (\<lambda>nid. nid \<notin> set valid) (dict_keys (active_alerts e1))
         in (sql_rowcount orphan (alert_table e), fold drop_node orphaned e1)))"

definition old_resolved :: "time \<Rightarrow> alert_row \<Rightarrow> bool" where
  "old_resolved now r \<longleftrightarrow> al_status r = ''resolved'' \<and>
     (case al_resolved_at r of None \<Rightarrow> False | Some t \<Rightarrow> t < now - 7 * 86400)"

definition cleanup_old_alerts :: "bool \<Rightarrow> time \<Rightarrow> alert_engine \<Rightarrow> nat \<times> alert_engine" where
  "cleanup_old_alerts ok now e =
     (if \<not> ok then (0, e)
      else (sql_rowcount (old_resolved now) (alert_table e),
            e\<lparr>alert_table := filter (\<lambda>r. \<not> old_resolved now r) (alert_table e)\<rparr>))"

definition get_active_alerts :: "string option \<Rightarrow> alert_engine \<Rightarrow> (string \<times> string \<times> alert_state) list" where
  "get_active_alerts node e =
     concat (map (\<lambda>(nid, alerts). map (\<lambda>(name, st). (nid, name, st)) alerts)
       (filter (\<lambda>(nid, alerts). case node of None \<Rightarrow> True | Some n \<Rightarrow> n = [] \<or> nid = n) (active_alerts e)))"

definition count_severity :: "alert_state \<Rightarrow> (string, nat) dict \<Rightarrow> (string, nat) dict" where
  "count_severity st counts =
     AList.update (as_severity st) (dict_get counts (as_severity st) 0 + 1) counts"

definition get_active_alert_count :: "alert_engine \<Rightarrow> (string, nat) dict" where
  "get_active_alert_count e =
     fold (\<lambda>(nid, alerts) counts. fold (\<lambda>(name, st). count_severity st) alerts counts) (active_alerts e)
       [(''critical'', 0), (''warning'', 0), (''info'', 0)]"

section \<open>Memory and table\<close>

text \<open>
  What the handlers need of an invariant on the in-memory alerts and the table: it
  depends on nothing else, and firing an inactive alert, resolving one and
  replacing one keep it. \<open>good\<close> is what the invariant requires of the database.
\<close>

lemma active_of_simps [simp]:
  "active_of (touch node e) n = active_of e n"
  "active_of (set_active node name st e) n = (if n = node then AList.update name st (active_of e node) else active_of e n)"
  "active_of (del_active node name e) n = (if n = node then AList.delete name (active_of e node) else active_of e n)"
  by (auto simp: active_of_def touch_def set_active_def del_active_def py_dict)

lemma current_alert_simps [simp]:
  "current_alert (touch node e) n a = current_alert e n a"
  "current_alert (set_active node name st e) n a = (if n = node \<and> a = name then Some st else current_alert e n a)"
  "current_alert (del_active node name e) n a = (if n = node \<and> a = name then None else current_alert e n a)"
  by (auto simp: current_alert_def py_dict)

lemma current_alert_cong: "active_alerts e' = active_alerts e \<Longrightarrow> current_alert e' n a = current_alert e n a"
  by (simp add: current_alert_def active_of_def)

lemma alert_table_simps [simp]:
  "alert_table (touch node e) = alert_table e"
  "alert_table (set_active node name st e) = alert_table e"
  "alert_table (del_active node name e) = alert_table e"
  by (simp_all add: touch_def set_active_def del_active_def)

lemma active_of_other_fields [simp]:
  "active_of (e\<lparr>alert_table := x\<rparr>) n = active_of e n"
  "active_of (e\<lparr>alert_rate_limiter := y\<rparr>) n = active_of e n"
  by (simp_all add: active_of_def)

lemma dict_wf_active [simp, intro]:
  "dict_wf (active_alerts e) \<Longrightarrow> dict_wf (active_alerts (touch node e))"
  "dict_wf (active_alerts e) \<Longrightarrow> dict_wf (active_alerts (set_active node name st e))"
  "dict_wf (active_alerts e) \<Longrightarrow> dict_wf (active_alerts (del_active node name e))"
  by (auto simp: touch_def set_active_def del_active_def)

locale alert_invariant =
  fixes I :: "alert_engine \<Rightarrow> bool" and good :: "alert_io \<Rightarrow> bool"
  assumes local: "I e \<Longrightarrow> active_alerts e' = active_alerts e \<Longrightarrow> alert_table e' = alert_table e \<Longrightarrow> I e'"
    and touch: "I e \<Longrightarrow> I (touch node e)"
    and fire: "I e \<Longrightarrow> current_alert e node name = None \<Longrightarrow>
      I (snd (fire_alert io node name sev msg mv th d e))"
    and resolve: "I e \<Longrightarrow> good io \<Longrightarrow> I (resolve_alert io node name e)"
    and replace: "I e \<Longrightarrow> good io \<Longrightarrow>
      I (snd (fire_alert io node name sev msg mv th d (resolve_alert io node name e)))"
begin

lemma fire_once: "I e \<Longrightarrow> I (fire_once io node name sev msg mv th d e)"
  by (simp add: fire_once_def Let_def fire touch)

lemma resolve_if_active: "I e \<Longrightarrow> good io \<Longrightarrow> I (resolve_if_active io node name e)"
  by (simp add: resolve_if_active_def Let_def resolve touch)

lemma eval_threshold:
  assumes "I e" and "good io"
  shows "I (eval_threshold io node s th e)"
  using touch [OF assms(1)] resolve [OF touch [OF assms(1)] assms(2)] replace [OF touch [OF assms(1)] assms(2)]
    assms(1) fire [OF touch [OF assms(1)]]
  by (simp add: eval_threshold_def Let_def split: metric_value.split option.split)

lemma eval_thresholds: "I e \<Longrightarrow> good io \<Longrightarrow> I (fold (eval_threshold io node s) ths e)"
  by (induction ths arbitrary: e) (auto intro: eval_threshold)

lemma evaluate_builtin_thresholds:
  assumes "I e" and "good io"
  shows "I (evaluate_builtin_thresholds io node s e)"
proof -
  have "I (e\<lparr>last_snapshot := x\<rparr>)" for x using local [OF assms(1)] by simp
  then show ?thesis
    using eval_thresholds [OF _ assms(2)] by (simp add: evaluate_builtin_thresholds_def Let_def split: prod.split)
qed

lemma detect_reboot:
  assumes "I e" and "good io"
  shows "I (snd (detect_reboot io node s e))"
  using assms(1) touch [OF assms(1)] resolve [OF touch [OF assms(1)] assms(2)] fire [OF touch [OF assms(1)]]
  by (simp add: detect_reboot_def Let_def split: metric_value.split)

lemma evaluate_metrics: "I e \<Longrightarrow> good io \<Longrightarrow> I (evaluate_metrics io node s e)"
  using detect_reboot [of e io node s] evaluate_builtin_thresholds [of "snd (detect_reboot io node s e)" io node s]
  by (auto simp: evaluate_metrics_def split: prod.split bool.split)

lemma evaluate_node_state:
  assumes "I e" and "good io"
  shows "I (evaluate_node_state io node v e)"
proof -
  have "I (record_reconnect node t e')" if "I e'" for e' t
    using local [OF that] by (simp add: record_reconnect_def)
  then show ?thesis
    using assms by (simp add: evaluate_node_state_def Let_def fire_once resolve_if_active)
qed

lemma track_intent_result:
  assumes "I e" and "good io"
  shows "I (track_intent_result io node ok e)"
proof -
  have "I (e\<lparr>intent_failures := x\<rparr>)" for x using local [OF assms(1)] by simp
  then show ?thesis using assms by (simp add: track_intent_result_def Let_def fire_once resolve_if_active)
qed

end

text \<open>
  Whatever fails, a remembered alert has its firing row. The converse holds as
  long as no \<open>UPDATE\<close> fails.
\<close>

definition row_of :: "string \<Rightarrow> string \<Rightarrow> alert_state \<Rightarrow> alert_row \<Rightarrow> bool" where
  "row_of node name st r \<longleftrightarrow> al_id r = as_id st \<and> al_node_id r = node \<and> al_alert_name r = name \<and>
     al_severity r = as_severity st \<and> al_status r = ''firing''"

definition engine_wf :: "alert_engine \<Rightarrow> bool" where
  "engine_wf e \<longleftrightarrow> dict_wf (active_alerts e) \<and> (\<forall>n. dict_wf (active_of e n)) \<and> distinct (map al_id (alert_table e))"

definition backed :: "alert_engine \<Rightarrow> bool" where
  "backed e \<longleftrightarrow> engine_wf e \<and>
     (\<forall>node name st. current_alert e node name = Some st \<longrightarrow> (\<exists>r \<in> set (alert_table e). row_of node name st r))"

definition remembered :: "alert_engine \<Rightarrow> alert_row \<Rightarrow> bool" where
  "remembered e r \<longleftrightarrow> al_details r \<noteq> None \<and>
     (\<exists>st. current_alert e (al_node_id r) (al_alert_name r) = Some st \<and> row_of (al_node_id r) (al_alert_name r) st r)"

definition mirrored :: "alert_engine \<Rightarrow> bool" where
  "mirrored e \<longleftrightarrow> backed e \<and> (\<forall>r \<in> set (alert_table e). al_status r = ''firing'' \<longrightarrow> remembered e r)"

lemma fire_alert_effect:
  obtains (quiet) "active_alerts (snd (fire_alert io node name sev msg mv th d e)) = active_alerts e"
      "alert_table (snd (fire_alert io node name sev msg mv th d e)) = alert_table e"
  | (fired) st r where "row_of node name st r" "al_id r \<notin> al_id ` set (alert_table e)" "al_details r \<noteq> None"
      "active_alerts (snd (fire_alert io node name sev msg mv th d e)) = active_alerts (set_active node name st e)"
      "alert_table (snd (fire_alert io node name sev msg mv th d e)) = alert_table e @ [r]"
proof (cases "\<not> io_db io \<or> fst (is_rate_limited (limiter_key node name) (io_limiter_clock io name) (alert_rate_limiter e)) \<or>
    \<not> io_insert_ok io name \<or> io_uuid io name \<in> al_id ` set (alert_table e)")
  case True
  then show ?thesis
    by (intro quiet) (auto simp: fire_alert_def Let_def split: prod.splits bool.splits)
next
  case False
  then obtain lm where l: "is_rate_limited (limiter_key node name) (io_limiter_clock io name) (alert_rate_limiter e) = (False, lm)"
    by (cases "is_rate_limited (limiter_key node name) (io_limiter_clock io name) (alert_rate_limiter e)") auto
  let ?t = "io_fire_clock io name" and ?a = "io_uuid io name"
  let ?st = "\<lparr>as_id = ?a, as_severity = sev, as_details = d, as_created_at = ?t\<rparr>"
  let ?r = "\<lparr>al_id = ?a, al_node_id = node, al_alert_name = name, al_severity = sev, al_status = ''firing'', al_message = msg,
    al_metric_value = mv, al_threshold = th, al_details = Some d, al_created_at = ?t, al_resolved_at = None, al_updated_at = ?t\<rparr>"
  show ?thesis
    using False l
    by (intro fired [of ?st ?r]) (auto simp: fire_alert_def Let_def row_of_def set_active_def active_of_def)
qed

lemma resolve_alert_effect:
  obtains (quiet) "active_of (resolve_alert io node name e) = active_of e" "alert_table (resolve_alert io node name e) = alert_table e"
      "\<not> io_db io \<or> \<not> io_update_ok io name \<or> current_alert e node name = None"
      "dict_wf (active_alerts e) \<Longrightarrow> dict_wf (active_alerts (resolve_alert io node name e))"
  | (resolved) st t where "current_alert e node name = Some st"
      "active_of (resolve_alert io node name e) = active_of (del_active node name e)"
      "alert_table (resolve_alert io node name e) = sql_update (\<lambda>r. al_id r = as_id st \<and> al_status r = ''firing'')
         (\<lambda>r. r\<lparr>al_status := ''resolved'', al_resolved_at := Some t, al_updated_at := t\<rparr>) (alert_table e)"
      "dict_wf (active_alerts e) \<Longrightarrow> dict_wf (active_alerts (resolve_alert io node name e))"
proof (cases "io_db io \<and> io_update_ok io name \<and> current_alert e node name \<noteq> None")
  case True
  then obtain st where "current_alert e node name = Some st" by auto
  with True show ?thesis
    by (intro resolved [of st "io_resolve_clock io name"]) (auto simp: resolve_alert_def Let_def fun_eq_iff)
next
  case False
  then show ?thesis
    by (intro quiet) (auto simp: resolve_alert_def Let_def fun_eq_iff split: option.split)
qed

lemma backed_cong:
  assumes "backed e" and "active_alerts e' = active_alerts e" and "alert_table e' = alert_table e"
  shows "backed e'"
  using assms current_alert_cong [OF assms(2)] by (simp add: backed_def engine_wf_def active_of_def)

lemma mirrored_cong:
  assumes "mirrored e" and "active_alerts e' = active_alerts e" and "alert_table e' = alert_table e"
  shows "mirrored e'"
  using assms current_alert_cong [OF assms(2)] backed_cong [of e e'] by (simp add: mirrored_def remembered_def)

lemma backed_touch: "backed e \<Longrightarrow> backed (touch node e)"
  by (simp add: backed_def engine_wf_def)

lemma mirrored_touch: "mirrored e \<Longrightarrow> mirrored (touch node e)"
  by (simp add: mirrored_def remembered_def backed_touch)

lemma backed_add:
  assumes "backed e" and "row_of node name st r" and "al_id r \<notin> al_id ` set (alert_table e)"
  shows "backed (set_active node name st (e\<lparr>alert_table := alert_table e @ [r]\<rparr>))"
  using assms unfolding backed_def engine_wf_def
  by (auto simp: current_alert_def py_dict split: if_splits)

lemma mirrored_add:
  assumes "mirrored e" and "row_of node name st r" and "al_id r \<notin> al_id ` set (alert_table e)"
    and "al_details r \<noteq> None" and "current_alert e node name = None"
  shows "mirrored (set_active node name st (e\<lparr>alert_table := alert_table e @ [r]\<rparr>))"
proof -
  have c: "current_alert (e\<lparr>alert_table := x\<rparr>) n a = current_alert e n a" for x n a by (simp add: current_alert_def)
  have "remembered (set_active node name st (e\<lparr>alert_table := alert_table e @ [r]\<rparr>)) r'"
    if "r' \<in> set (alert_table e)" "al_status r' = ''firing''" for r'
    using assms(1,5) that by (auto simp: mirrored_def remembered_def c)
  then show ?thesis
    using assms backed_add [of e node name st r] by (auto simp: mirrored_def remembered_def row_of_def c)
qed

lemma backed_fire: "backed e \<Longrightarrow> backed (snd (fire_alert io node name sev msg mv th d e))"
  by (rule fire_alert_effect [of io node name sev msg mv th d e])
    (auto intro: backed_cong dest: backed_add simp: set_active_def active_of_def)

lemma mirrored_fire:
  assumes "mirrored e" and "current_alert e node name = None"
  shows "mirrored (snd (fire_alert io node name sev msg mv th d e))"
proof (rule fire_alert_effect [of io node name sev msg mv th d e])
  fix st r
  assume a: "row_of node name st r" "al_id r \<notin> al_id ` set (alert_table e)" "al_details r \<noteq> None"
    "active_alerts (snd (fire_alert io node name sev msg mv th d e)) = active_alerts (set_active node name st e)"
    "alert_table (snd (fire_alert io node name sev msg mv th d e)) = alert_table e @ [r]"
  show ?thesis
    by (rule mirrored_cong [OF mirrored_add [OF assms(1) a(1-3) assms(2)]])
      (simp_all add: a(4,5) set_active_def active_of_def)
qed (use assms mirrored_cong in blast)

lemma distinct_rowD:
  "distinct (map al_id tbl) \<Longrightarrow> r \<in> set tbl \<Longrightarrow> r' \<in> set tbl \<Longrightarrow> al_id r = al_id r' \<Longrightarrow> r = r'"
  by (auto simp: distinct_map inj_on_def)

lemma resolve_table_ids:
  "map al_id (alert_table (resolve_alert io node name e)) = map al_id (alert_table e)"
  by (rule resolve_alert_effect [of io node name e]) (auto simp: map_sql_update_key)

lemma engine_wf_resolve:
  assumes "engine_wf e"
  shows "engine_wf (resolve_alert io node name e)"
  using assms unfolding engine_wf_def resolve_table_ids
  by (cases rule: resolve_alert_effect [of io node name e]) auto

lemma current_after_resolve:
  "current_alert (resolve_alert io node name e) n a =
     (if n = node \<and> a = name \<and> io_db io \<and> io_update_ok io name then None else current_alert e n a)"
  by (auto simp: resolve_alert_def current_alert_def Let_def py_dict split: option.split)

lemma backed_resolve:
  assumes "backed e"
  shows "backed (resolve_alert io node name e)"
proof (rule resolve_alert_effect [of io node name e])
  assume "active_of (resolve_alert io node name e) = active_of e" "alert_table (resolve_alert io node name e) = alert_table e"
  then show ?thesis using assms engine_wf_resolve by (simp add: backed_def current_alert_def)
next
  fix st t
  let ?e = "resolve_alert io node name e"
  assume st: "current_alert e node name = Some st" and act: "active_of ?e = active_of (del_active node name e)"
    and tbl: "alert_table ?e = sql_update (\<lambda>r. al_id r = as_id st \<and> al_status r = ''firing'')
         (\<lambda>r. r\<lparr>al_status := ''resolved'', al_resolved_at := Some t, al_updated_at := t\<rparr>) (alert_table e)"
  obtain r0 where r0: "r0 \<in> set (alert_table e)" "row_of node name st r0" using assms st unfolding backed_def by blast
  have "\<exists>r \<in> set (alert_table ?e). row_of n a st' r" if "current_alert ?e n a = Some st'" for n a st'
  proof -
    have ne: "\<not> (n = node \<and> a = name)" and c: "current_alert e n a = Some st'"
      using that act by (auto simp: current_alert_def py_dict split: if_splits)
    obtain r where r: "r \<in> set (alert_table e)" "row_of n a st' r" using assms c unfolding backed_def by blast
    have "al_id r \<noteq> as_id st"
      using distinct_rowD [OF _ r(1) r0(1)] r(2) r0(2) ne assms by (auto simp: backed_def engine_wf_def row_of_def)
    with r tbl show ?thesis by (force simp: sql_update_def)
  qed
  with assms engine_wf_resolve show ?thesis by (simp add: backed_def)
qed

lemma mirrored_resolve:
  assumes "mirrored e"
  shows "mirrored (resolve_alert io node name e)"
proof -
  let ?e = "resolve_alert io node name e"
  have "remembered ?e r" if r: "r \<in> set (alert_table ?e)" "al_status r = ''firing''" for r
  proof (rule resolve_alert_effect [of io node name e])
    assume "active_of ?e = active_of e" "alert_table ?e = alert_table e"
    then show ?thesis using assms r by (auto simp: mirrored_def remembered_def current_alert_def)
  next
    fix st t
    assume st: "current_alert e node name = Some st" and act: "active_of ?e = active_of (del_active node name e)"
      and tbl: "alert_table ?e = sql_update (\<lambda>r. al_id r = as_id st \<and> al_status r = ''firing'')
         (\<lambda>r. r\<lparr>al_status := ''resolved'', al_resolved_at := Some t, al_updated_at := t\<rparr>) (alert_table e)"
    from r tbl have old: "r \<in> set (alert_table e)" "al_id r \<noteq> as_id st" by (auto elim!: set_sql_updateE)
    then show ?thesis
      using assms r(2) st act by (auto simp: mirrored_def remembered_def current_alert_def row_of_def py_dict)
  qed
  then show ?thesis using assms backed_resolve by (simp add: mirrored_def)
qed

interpretation backed_inv: alert_invariant backed "\<lambda>_. True"
  by unfold_locales (auto intro: backed_cong backed_touch backed_fire backed_resolve)

lemma fire_without_db: "\<not> io_db io \<Longrightarrow> snd (fire_alert io node name sev msg mv th d e) = e"
  by (simp add: fire_alert_def)

interpretation mirrored_inv: alert_invariant mirrored "\<lambda>io. \<forall>a. io_update_ok io a"
proof
  fix e and io :: alert_io and node name sev msg mv th d
  assume "mirrored e" "\<forall>a. io_update_ok io a"
  then show "mirrored (snd (fire_alert io node name sev msg mv th d (resolve_alert io node name e)))"
    using mirrored_resolve [of e io node name]
    by (cases "io_db io") (auto intro: mirrored_fire simp: current_after_resolve fire_without_db)
qed (auto intro: mirrored_cong mirrored_touch mirrored_fire mirrored_resolve)

section \<open>Runs of the engine\<close>

datatype alert_event =
    StatusReport alert_io string snapshot
  | NodeStateChange alert_io string string
  | IntentResult alert_io string bool
  | CleanupOld bool time
  | CleanupOrphaned bool "string list" "string list option"
  | Restart bool

fun apply_event :: "alert_event \<Rightarrow> alert_engine \<Rightarrow> alert_engine" where
  "apply_event (StatusReport io node s) e = evaluate_metrics io node s e"
| "apply_event (NodeStateChange io node v) e = evaluate_node_state io node v e"
| "apply_event (IntentResult io node ok) e = track_intent_result io node ok e"
| "apply_event (CleanupOld ok now) e = snd (cleanup_old_alerts ok now e)"
| "apply_event (CleanupOrphaned ok ns ns') e = snd (cleanup_orphaned_alerts ok ns ns' e)"
| "apply_event (Restart ok) e = initialize ok (new_alert_engine (alert_table e) (has_callback e))"

definition alert_run :: "alert_event list \<Rightarrow> alert_engine \<Rightarrow> alert_engine" where
  "alert_run es e = fold apply_event es e"

text \<open>No node is registered between the two statements of an orphan clean-up.\<close>

fun sound_event :: "alert_event \<Rightarrow> bool" where
  "sound_event (CleanupOrphaned ok ns (Some ns')) = (set ns' \<subseteq> set ns)"
| "sound_event _ = True"

text \<open>No \<open>UPDATE\<close> fails, and the queries of a restart and a clean-up succeed.\<close>

fun reliable_event :: "alert_event \<Rightarrow> bool" where
  "reliable_event (StatusReport io node s) = (\<forall>a. io_update_ok io a)"
| "reliable_event (NodeStateChange io node v) = (\<forall>a. io_update_ok io a)"
| "reliable_event (IntentResult io node ok) = (\<forall>a. io_update_ok io a)"
| "reliable_event (CleanupOld ok now) = True"
| "reliable_event (CleanupOrphaned ok ns ns') = (\<exists>xs. ns' = Some xs \<and> set xs = set ns)"
| "reliable_event (Restart ok) = ok"

lemma reliable_sound: "reliable_event ev \<Longrightarrow> sound_event ev"
  by (cases ev rule: reliable_event.cases) auto

lemma drop_nodes_effect:
  "active_of (fold drop_node xs e) n = (if n \<in> set xs then [] else active_of e n)"
  "alert_table (fold drop_node xs e) = alert_table e"
  "dict_wf (active_alerts e) \<Longrightarrow> dict_wf (active_alerts (fold drop_node xs e))"
  by (induction xs arbitrary: e) (auto simp: drop_node_def active_of_def py_dict)

lemma cleanup_old_effect:
  "active_alerts (snd (cleanup_old_alerts ok now e)) = active_alerts e"
  "r \<in> set (alert_table (snd (cleanup_old_alerts ok now e))) \<Longrightarrow> r \<in> set (alert_table e)"
  "r \<in> set (alert_table e) \<Longrightarrow> al_status r = ''firing'' \<Longrightarrow> r \<in> set (alert_table (snd (cleanup_old_alerts ok now e)))"
  "distinct (map al_id (alert_table e)) \<Longrightarrow> distinct (map al_id (alert_table (snd (cleanup_old_alerts ok now e))))"
  by (auto simp: cleanup_old_alerts_def old_resolved_def distinct_map_filter split: if_splits)

lemma backed_cleanup_old:
  assumes "backed e"
  shows "backed (snd (cleanup_old_alerts ok now e))"
  using assms cleanup_old_effect(3) [of _ e ok now] cleanup_old_effect(4) [of e ok now] current_alert_cong [OF cleanup_old_effect(1)]
  unfolding backed_def engine_wf_def active_of_def cleanup_old_effect(1) row_of_def by metis

lemma mirrored_cleanup_old: "mirrored e \<Longrightarrow> mirrored (snd (cleanup_old_alerts ok now e))"
  using cleanup_old_effect(2) [of _ ok now e] backed_cleanup_old current_alert_cong [OF cleanup_old_effect(1), of ok now e]
  unfolding mirrored_def remembered_def by auto

lemma known_node: "current_alert e n a \<noteq> None \<Longrightarrow> n \<in> set (dict_keys (active_alerts e))"
  by (auto simp: current_alert_def active_of_def dict_get_def dict_keys_def split: option.splits)
    (metis fst_conv image_eqI map_of_SomeD)

lemma backed_cleanup_orphaned:
  assumes "backed e" and "sound_event (CleanupOrphaned ok ns ns')"
  shows "backed (snd (cleanup_orphaned_alerts ok ns ns' e))"
proof (cases ok)
  case True
  let ?e1 = "e\<lparr>alert_table := filter (\<lambda>r. al_node_id r \<in> set ns) (alert_table e)\<rparr>"
  define valid where "valid = (case ns' of None \<Rightarrow> [] | Some xs \<Rightarrow> xs)"
  let ?o = "filter (\<lambda>nid. nid \<notin> set valid) (dict_keys (active_alerts e))"
  have e2: "snd (cleanup_orphaned_alerts ok ns ns' e) = fold drop_node ?o ?e1"
    using True by (simp add: cleanup_orphaned_alerts_def Let_def valid_def)
  have cur: "current_alert (fold drop_node ?o ?e1) n a = (if n \<in> set ?o then None else current_alert e n a)" for n a
    by (simp add: current_alert_def drop_nodes_effect)
  have sub: "set valid \<subseteq> set ns" using assms(2) by (cases ns') (auto simp: valid_def)
  have "\<exists>r \<in> set (alert_table ?e1). row_of n a st r" if c: "current_alert e n a = Some st" and n: "n \<notin> set ?o" for n a st
  proof -
    from c n sub have "n \<in> set ns" using known_node [of e n a] by auto
    with c assms(1) show ?thesis unfolding backed_def by (force simp: row_of_def)
  qed
  then have "\<exists>r \<in> set (alert_table ?e1). row_of n a st r" if "current_alert (fold drop_node ?o ?e1) n a = Some st" for n a st
    using that unfolding cur by (metis option.distinct(1))
  moreover have "engine_wf (fold drop_node ?o ?e1)"
    using assms(1) by (simp add: backed_def engine_wf_def drop_nodes_effect distinct_map_filter dict_wf_def [of "[]"])
  ultimately show ?thesis unfolding e2 backed_def drop_nodes_effect by blast
qed (use assms in \<open>simp add: cleanup_orphaned_alerts_def\<close>)

lemma mirrored_cleanup_orphaned:
  assumes "mirrored e" and "reliable_event (CleanupOrphaned ok ns ns')"
  shows "mirrored (snd (cleanup_orphaned_alerts ok ns ns' e))"
proof -
  have "remembered (snd (cleanup_orphaned_alerts ok ns ns' e)) r"
    if "r \<in> set (alert_table (snd (cleanup_orphaned_alerts ok ns ns' e)))" "al_status r = ''firing''" for r
    using assms that
    by (auto simp: mirrored_def remembered_def cleanup_orphaned_alerts_def Let_def current_alert_def drop_nodes_effect
        split: if_splits)
  then show ?thesis
    using assms backed_cleanup_orphaned [OF _ reliable_sound [OF assms(2)]] by (simp add: mirrored_def)
qed

lemma backed_restore:
  assumes "backed e" and "r \<in> set (alert_table e)" and "al_status r = ''firing''"
  shows "backed (restore_alert r e) \<and> alert_table (restore_alert r e) = alert_table e"
  using assms unfolding restore_alert_def backed_def engine_wf_def
  by (auto simp: row_of_def split: option.split)

lemma backed_restores:
  assumes "backed e" and "\<forall>r \<in> set rs. r \<in> set (alert_table e) \<and> al_status r = ''firing''"
  shows "backed (fold restore_alert rs e) \<and> alert_table (fold restore_alert rs e) = alert_table e"
  using assms by (induction rs arbitrary: e) (auto dest: backed_restore)

lemma backed_new: "distinct (map al_id tbl) \<Longrightarrow> backed (new_alert_engine tbl cb)"
  by (simp add: backed_def engine_wf_def new_alert_engine_def active_of_def current_alert_def dict_wf_def)

lemma backed_restart:
  assumes "backed e"
  shows "backed (initialize ok (new_alert_engine (alert_table e) cb)) \<and>
    alert_table (initialize ok (new_alert_engine (alert_table e) cb)) = alert_table e"
proof -
  have t: "alert_table (new_alert_engine (alert_table e) cb) = alert_table e" by (simp add: new_alert_engine_def)
  have b: "backed (new_alert_engine (alert_table e) cb)" using assms by (intro backed_new) (simp add: backed_def engine_wf_def)
  from backed_restores [OF b, of "filter (\<lambda>r. al_status r = ''firing'') (alert_table e)"] b
  show ?thesis by (simp add: initialize_def t)
qed

lemma restores_other:
  "\<forall>r \<in> set rs. (al_node_id r, al_alert_name r) \<noteq> (n, a) \<Longrightarrow>
   current_alert (fold restore_alert rs e) n a = current_alert e n a"
  by (induction rs arbitrary: e) (auto simp: restore_alert_def split: option.split)

lemma restores_row:
  assumes "r \<in> set rs" and "al_details r \<noteq> None" and "al_status r = ''firing''"
    and "\<forall>r' \<in> set rs. al_node_id r' = al_node_id r \<and> al_alert_name r' = al_alert_name r \<longrightarrow> r' = r"
  shows "\<exists>st. current_alert (fold restore_alert rs e) (al_node_id r) (al_alert_name r) = Some st \<and>
    row_of (al_node_id r) (al_alert_name r) st r"
  using assms
proof (induction rs arbitrary: e)
  case (Cons r' rs)
  show ?case
  proof (cases "r \<in> set rs")
    case True
    with Cons show ?thesis by auto
  next
    case False
    with Cons.prems have "r' = r" and "\<forall>x \<in> set rs. (al_node_id x, al_alert_name x) \<noteq> (al_node_id r, al_alert_name r)" by auto
    with Cons.prems(2,3) show ?thesis
      using restores_other [of rs "al_node_id r" "al_alert_name r" "restore_alert r e"]
      by (auto simp: restore_alert_def [of r] row_of_def)
  qed
qed simp

lemma mirrored_unique:
  assumes "mirrored e" and "r \<in> set (alert_table e)" and "r' \<in> set (alert_table e)"
    and "al_status r = ''firing''" and "al_status r' = ''firing''"
    and "al_node_id r' = al_node_id r" and "al_alert_name r' = al_alert_name r"
  shows "r' = r"
proof -
  have "remembered e r" "remembered e r'" using assms by (simp_all add: mirrored_def)
  then have "al_id r' = al_id r" using assms(6,7) by (auto simp: remembered_def row_of_def)
  with assms show ?thesis using distinct_rowD [of "alert_table e" r' r] by (simp add: mirrored_def backed_def engine_wf_def)
qed

lemma mirrored_restart:
  assumes "mirrored e"
  shows "mirrored (initialize True (new_alert_engine (alert_table e) cb))"
proof -
  let ?rs = "filter (\<lambda>r. al_status r = ''firing'') (alert_table e)" and ?n = "new_alert_engine (alert_table e) cb"
  have b: "backed (initialize True ?n)" "alert_table (initialize True ?n) = alert_table e"
    using backed_restart assms by (auto simp: mirrored_def)
  have i: "initialize True ?n = fold restore_alert ?rs ?n" by (simp add: initialize_def new_alert_engine_def)
  have "remembered (initialize True ?n) r" if r: "r \<in> set (alert_table e)" "al_status r = ''firing''" for r
  proof -
    have "al_details r \<noteq> None" using assms r by (auto simp: mirrored_def remembered_def)
    moreover have "\<forall>r' \<in> set ?rs. al_node_id r' = al_node_id r \<and> al_alert_name r' = al_alert_name r \<longrightarrow> r' = r"
      using mirrored_unique [OF assms r(1) _ r(2)] by auto
    ultimately show ?thesis using restores_row [of r ?rs ?n] r by (simp add: remembered_def i)
  qed
  then show ?thesis using b by (simp add: mirrored_def)
qed

lemma backed_event: "backed e \<Longrightarrow> sound_event ev \<Longrightarrow> backed (apply_event ev e)"
  by (cases ev) (simp_all add: backed_inv.evaluate_metrics backed_inv.evaluate_node_state backed_inv.track_intent_result
      backed_cleanup_old backed_cleanup_orphaned backed_restart)

lemma mirrored_event: "mirrored e \<Longrightarrow> reliable_event ev \<Longrightarrow> mirrored (apply_event ev e)"
  by (cases ev) (simp_all add: mirrored_inv.evaluate_metrics mirrored_inv.evaluate_node_state mirrored_inv.track_intent_result
      mirrored_cleanup_old mirrored_cleanup_orphaned mirrored_restart)

lemma backed_run: "backed e \<Longrightarrow> list_all sound_event es \<Longrightarrow> backed (alert_run es e)"
  unfolding alert_run_def by (induction es arbitrary: e) (auto intro: backed_event)

lemma mirrored_run: "mirrored e \<Longrightarrow> list_all reliable_event es \<Longrightarrow> mirrored (alert_run es e)"
  unfolding alert_run_def by (induction es arbitrary: e) (auto intro: mirrored_event)

lemma get_active_alerts_iff:
  assumes "engine_wf e"
  shows "(n, a, st) \<in> set (get_active_alerts None e) \<longleftrightarrow> current_alert e n a = Some st"
proof -
  have outer: "(n, as) \<in> set (active_alerts e) \<longleftrightarrow> map_of (active_alerts e) n = Some as" for as
    using assms by (simp add: engine_wf_def dict_wf_def)
  have inner: "(a, st) \<in> set (active_of e n) \<longleftrightarrow> map_of (active_of e n) a = Some st"
    using assms by (simp add: engine_wf_def dict_wf_def)
  have "(n, a, st) \<in> set (get_active_alerts None e) \<longleftrightarrow> (\<exists>as. (n, as) \<in> set (active_alerts e) \<and> (a, st) \<in> set as)"
    by (force simp: get_active_alerts_def)
  also have "\<dots> \<longleftrightarrow> (a, st) \<in> set (active_of e n)"
    by (cases "map_of (active_alerts e) n") (auto simp: outer active_of_def dict_get_def)
  finally show ?thesis by (simp add: inner current_alert_def)
qed

section \<open>Rate limiting\<close>

text \<open>The firing limiter is a sliding window of 60 seconds with 10 slots.\<close>

lemma alert_window_interpretation:
  "sliding_window 60 (\<lambda>_. 10) [] (\<lambda>lm k. dict_get lm k []) (\<lambda>lm now. True)
     (\<lambda>k now lm. map_prod Not id (is_rate_limited k now lm)) (\<lambda>now lm. lm)"
proof
  fix lm :: "(string, time list) dict" and now k k'
  have f: "(\<lambda>t. now - t < (60 :: time)) = (\<lambda>t. now - 60 < t)" by auto
  show "fst (map_prod Not id (is_rate_limited k now lm)) = (length (filter (\<lambda>t. now - 60 < t) (dict_get lm k [])) < 10)"
    by (auto simp: is_rate_limited_def Let_def f)
  show "filter (\<lambda>t. now - 60 < t) (dict_get (snd (map_prod Not id (is_rate_limited k now lm))) k' []) =
      filter (\<lambda>t. now - 60 < t) (dict_get lm k' []) @
      (if k' = k \<and> fst (map_prod Not id (is_rate_limited k now lm)) then [now] else [])"
    by (auto simp: is_rate_limited_def Let_def f py_dict)
qed auto

interpretation alert_window: sliding_window 60 "\<lambda>_. 10" "[]" "\<lambda>lm k. dict_get lm k []" "\<lambda>lm now. True"
  "\<lambda>k now lm. map_prod Not id (is_rate_limited k now lm)" "\<lambda>now lm. lm"
  by (rule alert_window_interpretation)

text \<open>At most ten firings of an alert of a node in any 60 seconds.\<close>

lemma alert_storm_bound:
  assumes "sorted (map event_time es)"
  shows "in_window 60 u (times_of (limiter_key node name)
    (fst (window_run (\<lambda>k now lm. map_prod Not id (is_rate_limited k now lm)) (\<lambda>now lm. lm) es ([], [])))) \<le> 10"
  using alert_window.window_bound [OF assms] by simp

section \<open>Lifecycle of a threshold alert\<close>

text \<open>The documented life cycle: what a value does to the severity an alert has, if any.\<close>

definition next_severity :: "alert_threshold \<Rightarrow> rat \<Rightarrow> string option \<Rightarrow> string option" where
  "next_severity th value cur =
     (case check_threshold th value of
        Some (severity, _) \<Rightarrow>
          (case cur of
             None \<Rightarrow> Some severity
           | Some c \<Rightarrow> if severity_rank severity \<le> severity_rank c then cur else Some severity)
      | None \<Rightarrow> if is_resolved th value then None else cur)"

definition severity_of :: "alert_engine \<Rightarrow> string \<Rightarrow> string \<Rightarrow> string option" where
  "severity_of e node name = map_option as_severity (current_alert e node name)"

text \<open>The alert is not rate limited and its UUID is new.\<close>

definition room :: "alert_io \<Rightarrow> string \<Rightarrow> string \<Rightarrow> alert_engine \<Rightarrow> bool" where
  "room io node name e \<longleftrightarrow>
     length (filter (\<lambda>t. io_limiter_clock io name - t < 60)
       (dict_get (alert_rate_limiter e) (limiter_key node name) [])) < 10 \<and>
     io_uuid io name \<notin> al_id ` set (alert_table e)"

definition works :: "alert_io \<Rightarrow> bool" where
  "works io \<longleftrightarrow> io_db io \<and> (\<forall>a. io_insert_ok io a \<and> io_update_ok io a) \<and> inj (io_uuid io)"

lemma limiter_key_inj [simp]: "limiter_key node a = limiter_key node b \<longleftrightarrow> a = b"
  by (simp add: limiter_key_def)

lemma rate_limiter_simps [simp]:
  "alert_rate_limiter (touch node e) = alert_rate_limiter e"
  "alert_rate_limiter (set_active node name st e) = alert_rate_limiter e"
  "alert_rate_limiter (del_active node name e) = alert_rate_limiter e"
  "alert_rate_limiter (resolve_alert io node name e) = alert_rate_limiter e"
  by (simp_all add: touch_def set_active_def del_active_def resolve_alert_def Let_def split: option.split)

lemma current_other_fields [simp]:
  "current_alert (e\<lparr>alert_table := x\<rparr>) n a = current_alert e n a"
  "current_alert (e\<lparr>alert_rate_limiter := y\<rparr>) n a = current_alert e n a"
  "current_alert (e\<lparr>last_snapshot := z\<rparr>) n a = current_alert e n a"
  "current_alert (e\<lparr>spawned := w\<rparr>) n a = current_alert e n a"
  by (simp_all add: current_alert_def active_of_def)

lemma room_touch [simp]: "room io node name (touch n e) = room io node name e"
  by (simp add: room_def)

lemma room_last_snapshot [simp]: "room io node name (e\<lparr>last_snapshot := z\<rparr>) = room io node name e"
  by (simp add: room_def)

lemma image_id_resolve: "al_id ` set (alert_table (resolve_alert io node name e)) = al_id ` set (alert_table e)"
  by (metis list.set_map resolve_table_ids)

lemma room_resolve [simp]: "room io node name (resolve_alert io n a e) = room io node name e"
  by (simp add: room_def image_id_resolve)

lemma fire_frame:
  assumes "name \<noteq> a" and "inj (io_uuid io)"
  shows "current_alert (snd (fire_alert io node a sev msg mv th d e)) node name = current_alert e node name"
    and "room io node name (snd (fire_alert io node a sev msg mv th d e)) = room io node name e"
  using assms injD [OF assms(2), of name a]
  by (auto simp: fire_alert_def Let_def room_def is_rate_limited_def py_dict split: prod.splits bool.splits if_splits)

lemma fire_severity:
  assumes "works io" and "room io node name e"
  shows "severity_of (snd (fire_alert io node name sev msg mv th d e)) node name = Some sev"
  using assms by (auto simp: fire_alert_def Let_def room_def is_rate_limited_def works_def severity_of_def)

lemma eval_threshold_frame:
  assumes "name \<noteq> th_name th" and "inj (io_uuid io)"
  shows "current_alert (eval_threshold io node s th e) node name = current_alert e node name"
    and "room io node name (eval_threshold io node s th e) = room io node name e"
  using assms
  by (auto simp: eval_threshold_def Let_def fire_frame current_after_resolve split: metric_value.split option.split)

lemma eval_threshold_severity:
  assumes "works io" and "room io node (th_name th) e"
  shows "severity_of (eval_threshold io node s th e) node (th_name th) =
    (case dict_get s (th_metric th) MNone of
       MNum v \<Rightarrow> next_severity th v (severity_of e node (th_name th))
     | _ \<Rightarrow> severity_of e node (th_name th))"
proof -
  have db: "io_db io" "io_update_ok io a" for a using assms(1) by (simp_all add: works_def)
  have t: "severity_of (touch node e) n a = severity_of e n a" for n a by (simp add: severity_of_def)
  show ?thesis
    using assms fire_severity [OF assms(1)]
    by (auto simp: eval_threshold_def Let_def next_severity_def t db severity_of_def [of "resolve_alert io node (th_name th) (touch node e)"]
        severity_of_def [of e] current_after_resolve split: metric_value.split option.split)
qed

lemma fold_eval_frame:
  assumes "name \<notin> th_name ` set ths" and "inj (io_uuid io)"
  shows "current_alert (fold (eval_threshold io node s) ths e) node name = current_alert e node name \<and>
    room io node name (fold (eval_threshold io node s) ths e) = room io node name e"
  using assms by (induction ths arbitrary: e) (auto simp: eval_threshold_frame)

lemma fold_eval_severity:
  assumes "works io" and "distinct (map th_name ths)" and "th \<in> set ths" and "room io node (th_name th) e"
  shows "severity_of (fold (eval_threshold io node s) ths e) node (th_name th) =
    severity_of (eval_threshold io node s th e) node (th_name th)"
proof -
  obtain xs ys where ths: "ths = xs @ th # ys" using assms(3) by (auto simp: in_set_conv_decomp)
  let ?e = "fold (eval_threshold io node s) xs e"
  have i: "inj (io_uuid io)" using assms(1) by (simp add: works_def)
  have nx: "th_name th \<notin> th_name ` set xs" and ny: "th_name th \<notin> th_name ` set ys" using assms(2) ths by auto
  have c: "current_alert ?e node (th_name th) = current_alert e node (th_name th)" "room io node (th_name th) ?e"
    using fold_eval_frame [OF nx i] assms(4) by auto
  have "severity_of (fold (eval_threshold io node s) ths e) node (th_name th) =
      severity_of (eval_threshold io node s th ?e) node (th_name th)"
    using fold_eval_frame [OF ny i] by (simp add: ths severity_of_def)
  also have "\<dots> = severity_of (eval_threshold io node s th e) node (th_name th)"
    using eval_threshold_severity [OF assms(1) c(2)] eval_threshold_severity [OF assms(1,4)] c(1)
    by (simp add: severity_of_def split: metric_value.split)
  finally show ?thesis .
qed

lemma reboot_frame:
  assumes "name \<noteq> ''node_reboot_detected''" and "inj (io_uuid io)"
  shows "current_alert (snd (detect_reboot io node s e)) node name = current_alert e node name"
    and "room io node name (snd (detect_reboot io node s e)) = room io node name e"
    and "last_snapshot (snd (detect_reboot io node s e)) = last_snapshot e"
  using assms
  by (auto simp: detect_reboot_def Let_def fire_frame current_after_resolve split: metric_value.split)
    (auto simp: fire_alert_def resolve_alert_def Let_def touch_def set_active_def del_active_def split: prod.split bool.split option.split)

lemma builtin_names: "distinct (map th_name BUILTIN_THRESHOLDS)" "''node_reboot_detected'' \<notin> set (map th_name BUILTIN_THRESHOLDS)"
  by code_simp+

lemma builtin_band:
  "list_all (\<lambda>th. let u = (if th_operator th = GT then (case warning_at th of Some w \<Rightarrow> w | None \<Rightarrow> 0) else 150)
     in check_threshold th u = None \<and> \<not> is_resolved th u) BUILTIN_THRESHOLDS"
  by code_simp

text \<open>
  No builtin threshold fires and resolves on the same value, and each has a band of
  values that do neither.
\<close>

lemma builtin_hysteresis:
  assumes "th \<in> set BUILTIN_THRESHOLDS"
  shows "(is_resolved th v \<longrightarrow> check_threshold th v = None) \<and>
    (\<exists>u. check_threshold th u = None \<and> \<not> is_resolved th u)"
proof -
  have "\<exists>u. check_threshold th u = None \<and> \<not> is_resolved th u"
    using builtin_band assms unfolding list_all_iff Let_def by blast
  with assms show ?thesis
    by (auto simp: BUILTIN_THRESHOLDS_def threshold_def check_threshold_def is_resolved_def exceeded_def)
qed

section \<open>Properties\<close>


definition sample_io :: "string \<Rightarrow> alert_io" where
  "sample_io u = \<lparr>io_db = True, io_clock = 100, io_limiter_clock = (\<lambda>_. 100), io_fire_clock = (\<lambda>_. 100),
     io_resolve_clock = (\<lambda>_. 100), io_uuid = (\<lambda>a. u @ a), io_insert_ok = (\<lambda>_. True), io_update_ok = (\<lambda>_. True)\<rparr>"




end
