(* ===== verification/Base64.thy ===== *)
theory Base64
  imports Json
begin

text \<open>
  \<open>base64.urlsafe_b64encode\<close>, \<open>base64.urlsafe_b64decode\<close> and the UTF-8 decoding of
  bytes, as the token code uses them. A byte string is a string of characters
  0--255. Decoding is the lenient one of Python: characters outside the alphabet
  are skipped, a full padding ends the input, and an incomplete last group is an
  error. The main fact is that decoding what was encoded, with its padding cut off
  and restored, gives the bytes back.
\<close>

section \<open>Encoding\<close>

definition b64_char :: "nat \<Rightarrow> char" where
  "b64_char n =
     (if n < 26 then char_of (65 + n) else if n < 52 then char_of (71 + n)
      else if n < 62 then char_of (n - 4) else if n = 62 then CHR ''-'' else CHR ''_'')"

fun b64_encode :: "string \<Rightarrow> string" where
  "b64_encode (a # b # c # s) =
     (let x = of_char a; y = of_char b; z = of_char c in
      b64_char (x div 4) # b64_char ((x mod 4) * 16 + y div 16) # b64_char ((y mod 16) * 4 + z div 64) #
      b64_char (z mod 64) # b64_encode s)"
| "b64_encode [a, b] =
     (let x = of_char a; y = of_char b in
      [b64_char (x div 4), b64_char ((x mod 4) * 16 + y div 16), b64_char ((y mod 16) * 4), CHR ''=''])"
| "b64_encode [a] = (let x = of_char a in [b64_char (x div 4), b64_char ((x mod 4) * 16), CHR ''='', CHR ''=''])"
| "b64_encode [] = []"

section \<open>Decoding\<close>

definition b64_val :: "char \<Rightarrow> nat option" where
  \<comment> \<open>the URL-safe characters are translated to the standard ones first, so both are accepted\<close>
  "b64_val c =
     (let n = (of_char c :: nat) in
      if 65 \<le> n \<and> n \<le> 90 then Some (n - 65)
      else if 97 \<le> n \<and> n \<le> 122 then Some (n - 71)
      else if 48 \<le> n \<and> n \<le> 57 then Some (n + 4)
      else if n = 45 \<or> n = 43 then Some 62
      else if n = 95 \<or> n = 47 then Some 63
      else None)"

text \<open>
  The loop of \<open>binascii.a2b_base64\<close>: the position in the group of four, the bits
  left over, and how many padding characters were just read.
\<close>

fun b64_loop :: "nat \<Rightarrow> nat \<Rightarrow> nat \<Rightarrow> string \<Rightarrow> string option" where
  "b64_loop pos left pads [] = (if pos = 0 then Some [] else None)"
| "b64_loop pos left pads (c # cs) =
     (if c = CHR ''='' then
        (if 2 \<le> pos then (if 4 \<le> pos + pads + 1 then Some [] else b64_loop pos left (pads + 1) cs)
         else b64_loop pos left pads cs)
      else
        (case b64_val c of
           None \<Rightarrow> b64_loop pos left pads cs
         | Some v \<Rightarrow>
             if pos = 0 then b64_loop 1 v 0 cs
             else if pos = 1 then map_option (Cons (char_of (left * 4 + v div 16))) (b64_loop 2 (v mod 16) 0 cs)
             else if pos = 2 then map_option (Cons (char_of (left * 16 + v div 4))) (b64_loop 3 (v mod 4) 0 cs)
             else map_option (Cons (char_of (left * 64 + v))) (b64_loop 0 0 0 cs)))"

definition b64_decode :: "string \<Rightarrow> string option" where
  "b64_decode s = b64_loop 0 0 0 s"

definition rstrip_eq :: "string \<Rightarrow> string" where
  \<comment> \<open>\<open>s.rstrip("=")\<close>\<close>
  "rstrip_eq s = rev (dropWhile (\<lambda>c. c = CHR ''='') (rev s))"

fun utf8_decode :: "string \<Rightarrow> string option" where
  \<comment> \<open>\<open>bytes.decode()\<close> for code points below 256; \<open>None\<close> for invalid bytes and for characters beyond them\<close>
  "utf8_decode [] = Some []"
| "utf8_decode (c # cs) =
     (let n = (of_char c :: nat) in
      if n < 128 then map_option (Cons c) (utf8_decode cs)
      else
        (case cs of
           [] \<Rightarrow> None
         | d # ds \<Rightarrow>
             (let m = (of_char d :: nat) in
              if (n = 194 \<or> n = 195) \<and> 128 \<le> m \<and> m < 192
              then map_option (Cons (char_of ((n - 192) * 64 + (m - 128)))) (utf8_decode ds)
              else None)))"

section \<open>Decoding what was encoded\<close>

lemma b64_val_char [simp]: "n < 64 \<Longrightarrow> b64_val (b64_char n) = Some n"
  by (auto simp: b64_val_def b64_char_def Let_def)

lemma b64_char_not_pad [simp]: "n < 64 \<Longrightarrow> b64_char n \<noteq> CHR ''=''"
  by (auto simp: b64_char_def char_eq_code)

lemma b64_char_url [simp]: "n < 64 \<Longrightarrow> CHR ''.'' \<noteq> b64_char n"
  by (auto simp: b64_char_def char_eq_code)

lemma byte_parts:
  fixes x y z :: nat
  assumes "x < 256" and "y < 256" and "z < 256"
  shows "x div 4 < 64" "x mod 4 * 16 + y div 16 < 64" "y mod 16 * 4 + z div 64 < 64" "z mod 64 < 64" "x mod 4 * 16 < 64" "y mod 16 * 4 < 64"
    and "x div 4 * 4 + (x mod 4 * 16 + y div 16) div 16 = x" "(x mod 4 * 16 + y div 16) mod 16 = y div 16"
    and "y div 16 * 16 + (y mod 16 * 4 + z div 64) div 4 = y" "(y mod 16 * 4 + z div 64) mod 4 = z div 64"
    and "z div 64 * 64 + z mod 64 = z" "x div 4 * 4 + (x mod 4 * 16) div 16 = x" "(x mod 4 * 16) mod 16 = 0"
    and "y div 16 * 16 + (y mod 16 * 4) div 4 = y" "(y mod 16 * 4) mod 4 = 0"
  using assms by simp_all

definition pad_b64 :: "string \<Rightarrow> string" where
  "pad_b64 s = (let remainder = length s mod 4 in if remainder \<noteq> 0 then s @ replicate (4 - remainder) (CHR ''='') else s)"

lemma char_div [simp]:
  "(of_char c :: nat) div 16 div 16 = 0" "(of_char c :: nat) div 16 mod 16 = of_char c div 16"
  "(of_char c :: nat) div 64 div 4 = 0" "(of_char c :: nat) div 64 mod 4 = of_char c div 64"
  using nat_of_char_less_256 [of c] by (simp_all add: div_mult2_eq [symmetric] less_mult_imp_div_less)

lemma b64_decode_encode: "b64_decode (b64_encode s) = Some s"
  unfolding b64_decode_def
proof (induction s rule: b64_encode.induct)
  case (1 a b c s)
  note p = byte_parts(1-4) [of "of_char a" "of_char b" "of_char c", OF nat_of_char_less_256 nat_of_char_less_256 nat_of_char_less_256]
  show ?case using 1 [OF refl refl refl] p by (simp add: Let_def)
next
  case (2 a b)
  note p = byte_parts [of "of_char a" "of_char b" "of_char a", OF nat_of_char_less_256 nat_of_char_less_256 nat_of_char_less_256]
  show ?case using p by (simp add: Let_def)
next
  case (3 a)
  note p = byte_parts [of "of_char a" "of_char a" "of_char a", OF nat_of_char_less_256 nat_of_char_less_256 nat_of_char_less_256]
  show ?case using p by (simp add: Let_def)
qed simp

lemma rstrip_eq_Cons [simp]: "c \<noteq> CHR ''='' \<Longrightarrow> rstrip_eq (c # s) = c # rstrip_eq s"
  by (simp add: rstrip_eq_def dropWhile_append)

lemma rstrip_eq_pad [simp]: "rstrip_eq (CHR ''='' # replicate n (CHR ''='')) = []" "rstrip_eq [] = []"
  by (simp_all add: rstrip_eq_def replicate_append_same flip: replicate_Suc)

lemma pad_b64_group: "pad_b64 (w # x # y # z # s) = w # x # y # z # pad_b64 s"
  by (simp add: pad_b64_def Let_def)

lemma pad_rstrip: "pad_b64 (rstrip_eq (b64_encode s)) = b64_encode s"
proof (induction s rule: b64_encode.induct)
  case (1 a b c s)
  note p = byte_parts [of "of_char a" "of_char b" "of_char c", OF nat_of_char_less_256 nat_of_char_less_256 nat_of_char_less_256]
  show ?case using 1 [OF refl refl refl] by (simp add: Let_def p pad_b64_group)
next
  case (2 a b)
  note p = byte_parts [of "of_char a" "of_char b" "of_char a", OF nat_of_char_less_256 nat_of_char_less_256 nat_of_char_less_256]
  show ?case using rstrip_eq_pad(1) [of 0] by (simp add: Let_def p pad_b64_def)
next
  case (3 a)
  note p = byte_parts [of "of_char a" "of_char a" "of_char a", OF nat_of_char_less_256 nat_of_char_less_256 nat_of_char_less_256]
  show ?case using rstrip_eq_pad(1) [of 1] p(1,5) by (simp add: Let_def pad_b64_def numeral_2_eq_2)
qed (simp add: pad_b64_def)

lemma utf8_decode_ascii: "\<forall>c \<in> set s. (of_char c :: nat) < 128 \<Longrightarrow> utf8_decode s = Some s"
  by (induction s) (auto simp: Let_def)

lemma b64_encode_no_dot: "CHR ''.'' \<notin> set (b64_encode s)"
proof (induction s rule: b64_encode.induct)
  case (1 a b c s)
  note p = byte_parts(1-4) [of "of_char a" "of_char b" "of_char c", OF nat_of_char_less_256 nat_of_char_less_256 nat_of_char_less_256]
  show ?case using 1 [OF refl refl refl] p by (simp add: Let_def)
next
  case (2 a b)
  note p = byte_parts [of "of_char a" "of_char b" "of_char a", OF nat_of_char_less_256 nat_of_char_less_256 nat_of_char_less_256]
  show ?case using p(1,2,6) by (simp add: Let_def)
next
  case (3 a)
  note p = byte_parts [of "of_char a" "of_char a" "of_char a", OF nat_of_char_less_256 nat_of_char_less_256 nat_of_char_less_256]
  show ?case using p(1,5) by (simp add: Let_def)
qed simp

lemma rstrip_eq_set: "c \<in> set (rstrip_eq s) \<Longrightarrow> c \<in> set s"
  unfolding rstrip_eq_def by (metis set_dropWhileD set_rev)

text \<open>The text \<open>json.dumps\<close> writes by default is ASCII.\<close>

lemma hex_digit_ascii: "d < 16 \<Longrightarrow> (of_char (hex_digit d) :: nat) < 128"
  by (auto simp: hex_digit_def digit_char_def)

lemma escape_char_ascii:
  assumes "x \<in> set (escape_char True c)"
  shows "(of_char x :: nat) < 128"
proof -
  have "(of_char c :: nat) div 16 < 16" "(of_char c :: nat) mod 16 < 16" using nat_of_char_less_256 [of c] by (simp_all add: div_less_iff_less_mult)
  then show ?thesis
    using assms hex_digit_ascii by (auto simp: escape_char_def unicode_escape_def Let_def split: if_splits)
qed

lemma json_str_ascii: "x \<in> set (json_str True s) \<Longrightarrow> (of_char x :: nat) < 128"
  by (auto simp: json_str_def dest: escape_char_ascii)

lemma int_str_ascii: "x \<in> set (int_str i) \<Longrightarrow> (of_char x :: nat) < 128"
  using int_str_chars [of x i] by (auto simp: is_digit_def Let_def)

lemma json_dumps_ascii: "json_plain v \<Longrightarrow> x \<in> set (json_dumps True v) \<Longrightarrow> (of_char x :: nat) < 128"
proof (induction v arbitrary: x rule: json_plain.induct)
  case (2 vs)
  then show ?case by (auto simp: list_all_iff dest!: in_set_join)
next
  case (3 kvs)
  then show ?case by (fastforce simp: list_all_iff dest!: in_set_join dest: json_str_ascii)
qed (auto dest: json_str_ascii int_str_ascii split: if_splits)

end
