(* ===== verification/Security_Tokens.thy ===== *)
theory Security_Tokens
  imports Base64 Py_Text Enums "HOL-Library.List_Lexorder" "HOL-Library.Char_ord" "HOL-Library.Multiset"
begin

text \<open>
  The tokens of the security manager (\<open>src/master/core/security_manager.py\<close>):
  join tokens with their HMAC, worker tokens and their revocation, access and
  refresh tokens. The HMAC (\<open>hmac key message\<close>, a hex digest), SHA-256 and the
  JWT functions of python-jose are parameters; what the theorems need of them is
  stated as a hypothesis where it is used.
\<close>

section \<open>Configuration\<close>

record security_manager =
  server_secret :: string
  jwt_secret :: string
  join_token_ttl :: int
  worker_token_ttl :: int
  worker_token_rotation :: int
  jwt_access_token_ttl :: int
  jwt_refresh_token_ttl :: int
  audit_compromised :: bool

type_synonym hmac = "string \<Rightarrow> string \<Rightarrow> string"

definition jwt_access_secret :: "hmac \<Rightarrow> security_manager \<Rightarrow> string" where
  "jwt_access_secret hmac sm = hmac (jwt_secret sm) ''user_access_token''"

definition jwt_refresh_secret :: "hmac \<Rightarrow> security_manager \<Rightarrow> string" where
  "jwt_refresh_secret hmac sm = hmac (jwt_secret sm) ''user_refresh_token''"

definition jwt_worker_secret :: "hmac \<Rightarrow> security_manager \<Rightarrow> string" where
  "jwt_worker_secret hmac sm = hmac (jwt_secret sm) ''worker_token''"

definition ROLES_HIERARCHY :: "(string, nat) dict" where
  "ROLES_HIERARCHY = [(''viewer'', 1), (''operator'', 2), (''admin'', 3)]"

definition py_trunc :: "rat \<Rightarrow> int" where
  \<comment> \<open>\<open>int(x)\<close> of a float\<close>
  "py_trunc x = (if 0 \<le> x then \<lfloor>x\<rfloor> else \<lceil>x\<rceil>)"

section \<open>Join tokens\<close>

datatype token_error = ValueError string | TypeError | AttributeError

fun sort_keys :: "json \<Rightarrow> json" where
  \<comment> \<open>\<open>json.dumps(..., sort_keys=True)\<close>\<close>
  "sort_keys (JObj kvs) = JObj (sort_key fst (map (\<lambda>(k, v). (k, sort_keys v)) kvs))"
| "sort_keys (JArr vs) = JArr (map sort_keys vs)"
| "sort_keys v = v"

definition join_payload :: "security_manager \<Rightarrow> time \<Rightarrow> string \<Rightarrow> string \<Rightarrow> string \<Rightarrow> string \<Rightarrow> string \<Rightarrow> json" where
  "join_payload sm now jti node_id ip_prefix name grp =
     JObj [(''node_id'', JStr node_id), (''expires_at'', JInt (py_trunc now + join_token_ttl sm)),
           (''ip_prefix'', JStr ip_prefix), (''name'', JStr name), (''group'', JStr grp),
           (''single_use'', JBool True), (''jti'', JStr jti)]"

definition generate_join_token ::
  "hmac \<Rightarrow> security_manager \<Rightarrow> time \<Rightarrow> string \<Rightarrow> string \<Rightarrow> string \<Rightarrow> string \<Rightarrow> string \<Rightarrow> string \<times> json" where
  "generate_join_token hmac sm now jti node_id ip_prefix name grp =
     (let payload = join_payload sm now jti node_id ip_prefix name grp;
          payload_json = json_dumps True (sort_keys payload);
          payload_b64 = rstrip_eq (b64_encode payload_json);
          sig = hmac (server_secret sm) payload_b64
      in (sig @ ''.'' @ payload_b64, payload))"

fun split_once :: "char \<Rightarrow> string \<Rightarrow> (string \<times> string) option" where
  \<comment> \<open>\<open>a, b = s.split(c, 1)\<close>\<close>
  "split_once c [] = None"
| "split_once c (x # xs) = (if x = c then Some ([], xs) else map_option (\<lambda>(a, b). (x # a, b)) (split_once c xs))"

definition compare_digest :: "string \<Rightarrow> string \<Rightarrow> bool option" where
  \<comment> \<open>\<open>hmac.compare_digest\<close> of two strings; \<open>None\<close>: \<open>TypeError\<close> on non-ASCII text\<close>
  "compare_digest a b = (if list_all (\<lambda>c. (of_char c :: nat) < 128) (a @ b) then Some (a = b) else None)"

definition json_number :: "json \<Rightarrow> rat option" where
  \<comment> \<open>the values a number can be compared with; a float literal is read as decimal text\<close>
  "json_number v =
     (case v of
        JInt i \<Rightarrow> Some (of_int i)
      | JBool b \<Rightarrow> Some (if b then 1 else 0)
      | JFloat t \<Rightarrow>
          (let neg = (t \<noteq> [] \<and> hd t = CHR ''-''); u = (if neg then tl t else t);
               m = takeWhile (\<lambda>c. c \<notin> set ''eE'') u; e = dropWhile (\<lambda>c. c \<notin> set ''eE'') u;
               ip = takeWhile is_digit m; fp = drop (Suc (length ip)) m;
               mant = of_nat (digits_val 0 (ip @ fp)) / 10 ^ length fp;
               eneg = (1 < length e \<and> e ! 1 = CHR ''-'');
               ex = digits_val 0 (filter is_digit e);
               v = (if eneg then mant / 10 ^ ex else mant * 10 ^ ex)
           in Some (if neg then - v else v))
      | _ \<Rightarrow> None)"

definition load_payload :: "string \<Rightarrow> json option" where
  "load_payload payload_b64 =
     (case b64_decode (pad_b64 payload_b64) of
        None \<Rightarrow> None
      | Some bytes \<Rightarrow> (case utf8_decode bytes of None \<Rightarrow> None | Some text \<Rightarrow> json_loads text))"

definition decode_join_token :: "hmac \<Rightarrow> security_manager \<Rightarrow> time \<Rightarrow> string \<Rightarrow> token_error + (string, json) dict" where
  "decode_join_token hmac sm now token =
     (case split_once (CHR ''.'') token of
        None \<Rightarrow> Inl (ValueError ''Malformed token: missing separator'')
      | Some (sig_hex, payload_b64) \<Rightarrow>
          (case compare_digest sig_hex (hmac (server_secret sm) payload_b64) of
             None \<Rightarrow> Inl TypeError
           | Some False \<Rightarrow> Inl (ValueError ''Invalid token signature'')
           | Some True \<Rightarrow>
               (case load_payload payload_b64 of
                  None \<Rightarrow> Inl (ValueError ''Invalid token payload encoding'')
                | Some (JObj payload) \<Rightarrow>
                    (case json_number (dict_get payload ''expires_at'' (JInt 0)) of
                       None \<Rightarrow> Inl TypeError
                     | Some expires_at \<Rightarrow>
                         if expires_at < now then Inl (ValueError ''Token expired'') else Inr payload)
                | Some _ \<Rightarrow> Inl AttributeError)))"

definition join_token_hash :: "(string \<Rightarrow> string) \<Rightarrow> string \<Rightarrow> string" where
  "join_token_hash sha256 token = sha256 token"

section \<open>JSON web tokens\<close>

text \<open>
  \<open>jwt.decode\<close> of python-jose: the claims, an expired signature, or another
  \<open>JWTError\<close> with its text; \<open>get_unverified_claims\<close> may fail too.
\<close>

datatype jwt_result = JwtClaims "(string, json) dict" | JwtExpired | JwtError string

record jose =
  jwt_encode :: "(string, json) dict \<Rightarrow> string \<Rightarrow> string"
  jwt_decode :: "time \<Rightarrow> string \<Rightarrow> string \<Rightarrow> jwt_result"
  jwt_unverified :: "string \<Rightarrow> (string, json) dict option"

datatype security_error = ExpiredToken string | InvalidToken string | BadValue string | UnhashableRole

record token_lifecycle =
  tl_issued_at :: time
  tl_rotation_due :: time
  tl_expires_at :: time

definition generate_worker_token ::
  "jose \<Rightarrow> hmac \<Rightarrow> security_manager \<Rightarrow> time \<Rightarrow> string \<Rightarrow> string \<Rightarrow> string \<times> token_lifecycle" where
  "generate_worker_token js hmac sm now jti node_id =
     (let lifecycle = \<lparr>tl_issued_at = now, tl_rotation_due = now + of_int (worker_token_rotation sm),
            tl_expires_at = now + of_int (worker_token_ttl sm)\<rparr>;
          claims = [(''sub'', JStr node_id), (''type'', JStr ''worker''), (''iat'', JInt (py_trunc now)),
            (''exp'', JInt (py_trunc (tl_expires_at lifecycle))),
            (''rotation_due'', JInt (py_trunc (tl_rotation_due lifecycle))), (''jti'', JStr jti)]
      in (jwt_encode js claims (jwt_worker_secret hmac sm), lifecycle))"

definition type_mismatch :: string where
  "type_mismatch = ''Token type mismatch: expected '' @ CHR 0x27 # ''worker'' @ [CHR 0x27]"

definition verify_worker_token ::
  "jose \<Rightarrow> hmac \<Rightarrow> security_manager \<Rightarrow> time \<Rightarrow> string \<Rightarrow> security_error + (string, json) dict" where
  "verify_worker_token js hmac sm now token =
     (case jwt_decode js now token (jwt_worker_secret hmac sm) of
        JwtExpired \<Rightarrow> Inl (ExpiredToken ''Worker token has expired'')
      | JwtError msg \<Rightarrow>
          (case jwt_unverified js token of
             None \<Rightarrow> Inl (BadValue (''Invalid worker token: '' @ msg))
           | Some u \<Rightarrow>
               if dict_get u ''type'' JNull \<noteq> JStr ''worker''
               then Inl (BadValue type_mismatch)
               else Inl (BadValue (''Invalid worker token: '' @ msg)))
      | JwtClaims claims \<Rightarrow>
          if dict_get claims ''type'' JNull \<noteq> JStr ''worker''
          then Inl (BadValue type_mismatch) else Inr claims)"

record worker_token_row =
  wt_id :: string
  wt_node_id :: string
  wt_token_hash :: string
  wt_issued_at :: time
  wt_rotation_due :: time
  wt_expires_at :: time
  wt_revoked :: bool
  wt_revoked_at :: "time option"

definition verify_worker_token_async ::
  "jose \<Rightarrow> hmac \<Rightarrow> (string \<Rightarrow> string) \<Rightarrow> security_manager \<Rightarrow> time \<Rightarrow> worker_token_row list \<Rightarrow> string \<Rightarrow>
     security_error + (string, json) dict" where
  "verify_worker_token_async js hmac sha256 sm now rows token =
     (case verify_worker_token js hmac sm now token of
        Inl e \<Rightarrow> Inl e
      | Inr claims \<Rightarrow>
          (case sql_fetchone (\<lambda>r. wt_token_hash r = sha256 token) rows of
             None \<Rightarrow> Inl (BadValue ''Worker token not found in database'')
           | Some r \<Rightarrow>
               if wt_revoked r then Inl (BadValue ''Worker token has been revoked'') else Inr claims))"

definition create_access_token ::
  "jose \<Rightarrow> hmac \<Rightarrow> security_manager \<Rightarrow> time \<Rightarrow> string \<Rightarrow> string \<Rightarrow> string \<Rightarrow> string \<Rightarrow> string" where
  "create_access_token js hmac sm time jti user_id username role =
     (let now = py_trunc time in
      jwt_encode js
        [(''sub'', JStr user_id), (''username'', JStr username), (''role'', JStr role), (''type'', JStr ''access''),
         (''iat'', JInt now), (''exp'', JInt (now + jwt_access_token_ttl sm)), (''jti'', JStr jti)]
        (jwt_access_secret hmac sm))"

definition create_refresh_token ::
  "jose \<Rightarrow> hmac \<Rightarrow> security_manager \<Rightarrow> time \<Rightarrow> string \<Rightarrow> string \<Rightarrow> string option \<Rightarrow> string \<Rightarrow> string \<times> string" where
  \<comment> \<open>\<open>fresh\<close> is the UUID used when no family is given\<close>
  "create_refresh_token js hmac sm time jti user_id family fresh =
     (let family_id = (case family of None \<Rightarrow> fresh | Some f \<Rightarrow> f); now = py_trunc time in
      (jwt_encode js
         [(''sub'', JStr user_id), (''type'', JStr ''refresh''), (''iat'', JInt now),
          (''exp'', JInt (now + jwt_refresh_token_ttl sm)), (''jti'', JStr jti), (''family_id'', JStr family_id)]
         (jwt_refresh_secret hmac sm),
       family_id))"

definition verify_typed ::
  "jose \<Rightarrow> time \<Rightarrow> string \<Rightarrow> string \<Rightarrow> string \<Rightarrow> string \<Rightarrow> string \<Rightarrow> security_error + (string, json) dict" where
  \<comment> \<open>the part \<open>verify_access_token\<close> and \<open>verify_refresh_token\<close> share\<close>
  "verify_typed js now token secret ty expired invalid =
     (case jwt_decode js now token secret of
        JwtExpired \<Rightarrow> Inl (ExpiredToken expired)
      | JwtError msg \<Rightarrow>
          (case jwt_unverified js token of
             None \<Rightarrow> Inl (InvalidToken invalid)
           | Some u \<Rightarrow>
               if dict_get u ''type'' JNull \<noteq> JStr ty then Inl (InvalidToken ''Token type mismatch'')
               else Inl (InvalidToken invalid))
      | JwtClaims claims \<Rightarrow>
          if dict_get claims ''type'' JNull \<noteq> JStr ty then Inl (InvalidToken ''Token type mismatch'') else Inr claims)"

definition verify_access_token ::
  "jose \<Rightarrow> hmac \<Rightarrow> security_manager \<Rightarrow> time \<Rightarrow> string \<Rightarrow> security_error + (string, json) dict" where
  "verify_access_token js hmac sm now token =
     (case verify_typed js now token (jwt_access_secret hmac sm) ''access'' ''Token has expired'' ''Invalid token'' of
        Inl e \<Rightarrow> Inl e
      | Inr claims \<Rightarrow>
          (let role = dict_get claims ''role'' JNull; bad = Inl (InvalidToken (''Invalid role in token: '' @ py_repr role)) in
           if \<not> json_truthy role then bad
           else
             (case role of
                JStr r \<Rightarrow> if r \<in> set (dict_keys ROLES_HIERARCHY) then Inr claims else bad
              | JArr _ \<Rightarrow> Inl UnhashableRole
              | JObj _ \<Rightarrow> Inl UnhashableRole
              | _ \<Rightarrow> bad)))"

definition verify_refresh_token ::
  "jose \<Rightarrow> hmac \<Rightarrow> security_manager \<Rightarrow> time \<Rightarrow> string \<Rightarrow> security_error + (string, json) dict" where
  "verify_refresh_token js hmac sm now token =
     verify_typed js now token (jwt_refresh_secret hmac sm) ''refresh'' ''Refresh token has expired'' ''Invalid refresh token''"

section \<open>Lemmas\<close>

lemma split_once_append: "c \<notin> set a \<Longrightarrow> split_once c (a @ c # b) = Some (a, b)"
  by (induction a) auto

lemma split_once_SomeD: "split_once c s = Some (a, b) \<Longrightarrow> s = a @ c # b \<and> c \<notin> set a"
  by (induction s arbitrary: a) (auto split: if_splits)

lemma sep_unique:
  assumes "a @ (c :: char) # x = b @ c # y" and "c \<notin> set a" and "c \<notin> set b"
  shows "a = b \<and> x = y"
proof -
  have "Some (a, x) = Some (b, y)" unfolding split_once_append [OF assms(2), symmetric] split_once_append [OF assms(3), symmetric]
    by (rule arg_cong [OF assms(1)])
  then show ?thesis by simp
qed

definition hex_digest :: "hmac \<Rightarrow> bool" where
  \<comment> \<open>\<open>hexdigest()\<close> returns lower-case hexadecimal digits\<close>
  "hex_digest hmac \<longleftrightarrow> (\<forall>k m. set (hmac k m) \<subseteq> set ''0123456789abcdef'')"

lemma hex_digestD:
  assumes "hex_digest hmac"
  shows "CHR ''.'' \<notin> set (hmac k m)" and "list_all (\<lambda>c. (of_char c :: nat) < 128) (hmac k m)"
proof -
  have sub: "set (hmac k m) \<subseteq> set ''0123456789abcdef''" using assms by (simp add: hex_digest_def)
  then show "CHR ''.'' \<notin> set (hmac k m)" by auto
  have "list_all (\<lambda>c. (of_char c :: nat) < 128) ''0123456789abcdef''" by code_simp
  with sub show "list_all (\<lambda>c. (of_char c :: nat) < 128) (hmac k m)" by (auto simp only: list_all_iff)
qed

lemma json_plain_sort_keys: "json_plain v \<Longrightarrow> json_plain (sort_keys v)"
proof (induction v rule: sort_keys.induct)
  case (1 kvs)
  have d: "map fst (map (\<lambda>(k, v). (k, sort_keys v)) kvs) = map fst kvs" by (induction kvs) auto
  let ?m = "map (\<lambda>(k, v). (k, sort_keys v)) kvs"
  have "mset (map fst (sort_key fst ?m)) = mset (map fst kvs)" by (metis d mset_map mset_sort)
  with 1 have "distinct (map fst (sort_key fst ?m))" by (metis json_plain.simps(3) mset_eq_imp_distinct_iff)
  moreover have "list_all (\<lambda>(k, v). json_plain v) (sort_key fst ?m)" using 1 by (fastforce simp: list_all_iff)
  ultimately show ?case by simp
qed (auto simp: list_all_iff)

lemma map_of_sort_keys:
  assumes "distinct (map fst kvs)"
  shows "map_of (sort_key fst kvs) = map_of kvs"
proof -
  have "mset (map fst (sort_key fst kvs)) = mset (map fst kvs)" by (metis mset_map mset_sort)
  then have "distinct (map fst (sort_key fst kvs))" using assms by (metis mset_eq_imp_distinct_iff)
  then show ?thesis using assms by (simp add: map_of_inject_set)
qed

lemma load_dumped:
  assumes "json_plain v"
  shows "load_payload (rstrip_eq (b64_encode (json_dumps True v))) = Some v"
  using assms json_dumps_ascii [OF assms] utf8_decode_ascii [of "json_dumps True v"]
  by (simp add: load_payload_def pad_rstrip b64_decode_encode json_loads_dumps)

lemma decode_signed:
  assumes "hex_digest hmac"
  shows "decode_join_token hmac sm now (hmac (server_secret sm) b @ CHR ''.'' # b) =
    (case load_payload b of
       None \<Rightarrow> Inl (ValueError ''Invalid token payload encoding'')
     | Some (JObj p) \<Rightarrow>
         (case json_number (dict_get p ''expires_at'' (JInt 0)) of
            None \<Rightarrow> Inl TypeError
          | Some e \<Rightarrow> if e < now then Inl (ValueError ''Token expired'') else Inr p)
     | Some _ \<Rightarrow> Inl AttributeError)"
  using hex_digestD [OF assms] by (simp add: decode_join_token_def split_once_append compare_digest_def)

section \<open>Properties\<close>

text \<open>
  A join token is accepted exactly when it is the HMAC of its payload under the
  server's secret, a dot and that payload, the payload decodes to a JSON object, and
  its \<open>expires_at\<close> is not in the past; the claims returned are the ones of that
  object. So without the HMAC of a payload no token for it is accepted, and no claim
  of an accepted token was changed after signing.
\<close>

theorem join_token_accepted_iff:
  assumes "hex_digest hmac"
  shows "decode_join_token hmac sm now token = Inr p \<longleftrightarrow>
    (\<exists>b e. token = hmac (server_secret sm) b @ ''.'' @ b \<and> load_payload b = Some (JObj p) \<and>
       json_number (dict_get p ''expires_at'' (JInt 0)) = Some e \<and> now \<le> e)"
proof
  assume a: "decode_join_token hmac sm now token = Inr p"
  then obtain sig b where s: "split_once (CHR ''.'') token = Some (sig, b)" and c: "sig = hmac (server_secret sm) b"
    by (auto simp: decode_join_token_def compare_digest_def split: option.splits bool.splits if_splits)
  have t: "token = hmac (server_secret sm) b @ CHR ''.'' # b" using split_once_SomeD [OF s] c by simp
  from a show "\<exists>b e. token = hmac (server_secret sm) b @ ''.'' @ b \<and> load_payload b = Some (JObj p) \<and>
       json_number (dict_get p ''expires_at'' (JInt 0)) = Some e \<and> now \<le> e"
    unfolding t decode_signed [OF assms] by (auto split: option.splits json.splits if_splits)
next
  assume "\<exists>b e. token = hmac (server_secret sm) b @ ''.'' @ b \<and> load_payload b = Some (JObj p) \<and>
       json_number (dict_get p ''expires_at'' (JInt 0)) = Some e \<and> now \<le> e"
  then show "decode_join_token hmac sm now token = Inr p"
    using decode_signed [OF assms] by auto
qed

text \<open>
  Round trip of join tokens. A token issued at \<open>now\<close> is accepted until its
  lifetime has elapsed, and decoding it gives back every claim it was issued with.
\<close>

theorem join_token_roundtrip:
  assumes "hex_digest hmac"
    and "generate_join_token hmac sm now jti node_id ip_prefix name grp = (token, JObj payload)"
    and "now' \<le> of_int (py_trunc now + join_token_ttl sm)"
  shows "\<exists>p. decode_join_token hmac sm now' token = Inr p \<and> map_of p = map_of payload"
proof -
  let ?v = "join_payload sm now jti node_id ip_prefix name grp"
  let ?b = "rstrip_eq (b64_encode (json_dumps True (sort_keys ?v)))"
  have "(hmac (server_secret sm) ?b @ CHR ''.'' # ?b, ?v) = (token, JObj payload)"
    using assms(2) unfolding generate_join_token_def Let_def by (simp only: append.simps)
  then have v: "?v = JObj payload" and t: "token = hmac (server_secret sm) ?b @ CHR ''.'' # ?b" by blast+
  have d: "distinct (map fst payload)" using v by (auto simp: join_payload_def)
  have m: "map (\<lambda>(k, v). (k, sort_keys v)) payload = payload" using v by (auto simp: join_payload_def)
  have "json_plain ?v" by (simp add: join_payload_def)
  then have "load_payload ?b = Some (sort_keys ?v)" by (rule load_dumped [OF json_plain_sort_keys])
  moreover have "sort_keys ?v = JObj (sort_key fst payload)" unfolding v by (simp only: sort_keys.simps m)
  ultimately have l: "load_payload ?b = Some (JObj (sort_key fst payload))" by (simp only:)
  have "dict_get (sort_key fst payload) ''expires_at'' (JInt 0) = JInt (py_trunc now + join_token_ttl sm)"
    using map_of_sort_keys [OF d] v by (auto simp: dict_get_def join_payload_def)
  then have "decode_join_token hmac sm now' token = Inr (sort_key fst payload)"
    unfolding t decode_signed [OF assms(1)] using l assms(3) by (simp add: json_number_def)
  with map_of_sort_keys [OF d] show ?thesis by blast
qed

definition toy_hmac :: hmac where
  "toy_hmac k m = nat_str (length k + length m)"

definition sample_security :: security_manager where
  "sample_security = \<lparr>server_secret = ''s'', jwt_secret = ''j'', join_token_ttl = 1800, worker_token_ttl = 2592000,
     worker_token_rotation = 604800, jwt_access_token_ttl = 3600, jwt_refresh_token_ttl = 86400, audit_compromised = False\<rparr>"

lemma toy_hmac_hex: "hex_digest toy_hmac"
proof -
  have all: "list_all (\<lambda>n. char_of n \<in> set ''0123456789abcdef'') [48..<58]" by code_simp
  have "c \<in> set ''0123456789abcdef''" if "is_digit c" for c
  proof -
    have "48 \<le> (of_char c :: nat)" "(of_char c :: nat) < 58" using that by (simp_all add: is_digit_def Let_def)
    then have "(of_char c :: nat) \<in> set [48..<58]" unfolding set_upt by (simp only: atLeastLessThan_iff)
    with all have "char_of (of_char c :: nat) \<in> set ''0123456789abcdef''" unfolding list_all_iff by blast
    then show ?thesis by simp
  qed
  then show ?thesis using nat_str_digits unfolding hex_digest_def toy_hmac_def by blast
qed

theorem join_token_accepted_iff_witness:
  "\<exists>b. decode_join_token toy_hmac sample_security 5 (toy_hmac ''s'' b @ ''.'' @ b) = Inr [(''expires_at'', JInt 9)] \<and>
     decode_join_token toy_hmac sample_security 5 (''7.'' @ b) \<noteq> Inr [(''expires_at'', JInt 9)]"
proof -
  let ?b = "rstrip_eq (b64_encode (json_dumps True (JObj [(''expires_at'', JInt 9)])))"
  have l: "load_payload ?b = Some (JObj [(''expires_at'', JInt 9)])" by (rule load_dumped) simp
  have "length ?b = 22" by code_simp
  then have ne: "''7'' \<noteq> toy_hmac (server_secret sample_security) ?b" by (simp add: toy_hmac_def sample_security_def) code_simp
  have "decode_join_token toy_hmac sample_security 5 (toy_hmac ''s'' ?b @ ''.'' @ ?b) = Inr [(''expires_at'', JInt 9)]"
    unfolding join_token_accepted_iff [OF toy_hmac_hex] using l by (auto simp: json_number_def sample_security_def)
  moreover have "decode_join_token toy_hmac sample_security 5 (''7.'' @ ?b) \<noteq> Inr [(''expires_at'', JInt 9)]"
  proof
    assume "decode_join_token toy_hmac sample_security 5 (''7.'' @ ?b) = Inr [(''expires_at'', JInt 9)]"
    then obtain b where "''7'' @ CHR ''.'' # ?b = toy_hmac (server_secret sample_security) b @ CHR ''.'' # b"
      unfolding join_token_accepted_iff [OF toy_hmac_hex] by auto
    from sep_unique [OF this _ hex_digestD(1) [OF toy_hmac_hex]] ne show False by simp
  qed
  ultimately show ?thesis by blast
qed

theorem join_token_roundtrip_witness:
  "\<exists>p. decode_join_token toy_hmac sample_security 1900
     (fst (generate_join_token toy_hmac sample_security 1000 ''j'' ''n1'' '''' ''web'' '''')) = Inr p \<and>
   map_of p ''node_id'' = Some (JStr ''n1'')"
  using join_token_roundtrip [OF toy_hmac_hex, of sample_security 1000 "''j''" "''n1''" "''''" "''web''" "''''" _ _ 1900]
  by (fastforce simp: generate_join_token_def join_payload_def sample_security_def py_trunc_def Let_def)

end
