(* ===== verification/Auth.thy ===== *)
theory Auth
  imports Security_Tokens Audit_Chain
begin

text \<open>
  Sessions of human users (\<open>src/master/api/auth.py\<close>, \<open>get_current_user\<close> of
  \<open>src/master/api/deps.py\<close>): login, refresh with rotation and reuse detection,
  logout, password change, and the check of a request's access token. Password
  verification (passlib), SHA-256, the HMAC and the JWT functions are parameters.
  A refresh is two steps, as the code has them: reading and checking the stored
  token, and writing the rotation; other requests may run in between.

  An error of the audit log inside a \<open>transaction\<close> rolls the writes back; outside
  one they stay pending on the pooled connection and are applied by its next commit,
  so the model keeps them.
\<close>

section \<open>State\<close>

record user_row =
  u_id :: string
  u_username :: string
  u_password_hash :: string
  u_role :: string
  u_is_active :: bool
  u_must_change_password :: bool
  u_updated_at :: time
  u_last_login :: "time option"

record refresh_row =
  rt_id :: string
  rt_user_id :: string
  rt_token_hash :: string
  rt_family_id :: string
  rt_issued_at :: time
  rt_expires_at :: time
  rt_revoked :: bool
  rt_revoked_at :: "time option"

record auth_db =
  users :: "user_row list"
  refresh_tokens :: "refresh_row list"
  auth_audit :: audit_table

datatype auth_error =
    HttpError nat string
  | IntegrityError
  | KeyMissing string
  | AuditRaised audit_error
  | UnexpectedError security_error

text \<open>The functions of other packages, and the keys.\<close>

record crypto =
  cr_jose :: jose
  cr_hmac :: hmac
  cr_sha256 :: "string \<Rightarrow> string"
  cr_verify_password :: "string \<Rightarrow> string \<Rightarrow> bool"
  cr_hash_password :: "string \<Rightarrow> string"
  cr_security :: security_manager

record auth_io =
  io_access_now :: time
  io_access_jti :: string
  io_refresh_now :: time
  io_refresh_jti :: string
  io_family :: string
  io_token_id :: string
  io_now :: time
  io_last_login :: time
  io_log_now :: time
  io_log_uuid :: string

definition DEMO_USER_ID :: string where "DEMO_USER_ID = ''demo-user''"
definition DEMO_USERNAME :: string where "DEMO_USERNAME = ''guest''"
definition DEMO_PASSWORD :: string where "DEMO_PASSWORD = ''guest''"

definition access_for :: "crypto \<Rightarrow> auth_io \<Rightarrow> string \<Rightarrow> string \<Rightarrow> string \<Rightarrow> string" where
  "access_for cr io user_id username role =
     create_access_token (cr_jose cr) (cr_hmac cr) (cr_security cr) (io_access_now io) (io_access_jti io) user_id username role"

definition refresh_for :: "crypto \<Rightarrow> auth_io \<Rightarrow> string \<Rightarrow> string option \<Rightarrow> string \<times> string" where
  "refresh_for cr io user_id family =
     create_refresh_token (cr_jose cr) (cr_hmac cr) (cr_security cr) (io_refresh_now io) (io_refresh_jti io) user_id family (io_family io)"

definition auth_log :: "hash \<Rightarrow> auth_io \<Rightarrow> string \<Rightarrow> audit_action \<Rightarrow> (string, json) dict \<Rightarrow> audit_table \<Rightarrow> (audit_error + string) \<times> audit_table" where
  "auth_log H io user action details tbl =
     log_action H \<lparr>ar_user_id = user, ar_action = audit_action_str action, ar_node_id = None, ar_details = JObj details,
       ar_now = io_log_now io, ar_uuid = io_log_uuid io\<rparr> [] tbl"

definition insert_refresh :: "refresh_row \<Rightarrow> auth_db \<Rightarrow> auth_db option" where
  \<comment> \<open>the primary key, the unique hash and the foreign key\<close>
  "insert_refresh r db =
     (if rt_id r \<in> rt_id ` set (refresh_tokens db) \<or> rt_token_hash r \<in> rt_token_hash ` set (refresh_tokens db) \<or>
         rt_user_id r \<notin> u_id ` set (users db)
      then None else Some (db\<lparr>refresh_tokens := refresh_tokens db @ [r]\<rparr>))"

definition revoke_where :: "(refresh_row \<Rightarrow> bool) \<Rightarrow> time \<Rightarrow> auth_db \<Rightarrow> auth_db" where
  "revoke_where P now db =
     db\<lparr>refresh_tokens := sql_update P (\<lambda>r. r\<lparr>rt_revoked := True, rt_revoked_at := Some now\<rparr>) (refresh_tokens db)\<rparr>"

section \<open>Endpoints\<close>

definition refresh_row_for :: "crypto \<Rightarrow> auth_io \<Rightarrow> string \<Rightarrow> string \<Rightarrow> string \<Rightarrow> refresh_row" where
  "refresh_row_for cr io user_id token family =
     \<lparr>rt_id = io_token_id io, rt_user_id = user_id, rt_token_hash = cr_sha256 cr token, rt_family_id = family,
      rt_issued_at = io_now io, rt_expires_at = io_now io + of_int (jwt_refresh_token_ttl (cr_security cr)),
      rt_revoked = False, rt_revoked_at = None\<rparr>"

definition open_session :: "hash \<Rightarrow> crypto \<Rightarrow> auth_io \<Rightarrow> user_row \<Rightarrow> auth_db \<Rightarrow> (auth_error + string \<times> string) \<times> auth_db" where
  \<comment> \<open>\<open>login\<close> after its checks\<close>
  "open_session H cr io u db =
     (let access = access_for cr io (u_id u) (u_username u) (u_role u);
          (refresh, family) = refresh_for cr io (u_id u) None
      in case insert_refresh (refresh_row_for cr io (u_id u) refresh family) db of
           None \<Rightarrow> (Inl IntegrityError, db)
         | Some db1 \<Rightarrow>
             (let db2 = db1\<lparr>users := sql_update (\<lambda>x. u_id x = u_id u) (\<lambda>x. x\<lparr>u_last_login := Some (io_last_login io)\<rparr>) (users db1)\<rparr>
              in case auth_log H io (u_id u) AA_USER_LOGIN [(''username'', JStr (u_username u))] (auth_audit db2) of
                   (Inl e, _) \<Rightarrow> (Inl (AuditRaised e), db)
                 | (Inr _, t) \<Rightarrow> (Inr (access, refresh), db2\<lparr>auth_audit := t\<rparr>)))"

definition login :: "hash \<Rightarrow> crypto \<Rightarrow> auth_io \<Rightarrow> string \<Rightarrow> string \<Rightarrow> auth_db \<Rightarrow> (auth_error + string \<times> string) \<times> auth_db" where
  "login H cr io username password db =
     (if username = DEMO_USERNAME \<and> password = DEMO_PASSWORD then
        (Inr (access_for cr io DEMO_USER_ID DEMO_USERNAME ''admin'', fst (refresh_for cr io DEMO_USER_ID None)), db)
      else
        (case sql_fetchone (\<lambda>u. u_username u = username) (users db) of
           None \<Rightarrow> (Inl (HttpError 401 ''Invalid credentials''), db)
         | Some u \<Rightarrow>
             if \<not> cr_verify_password cr password (u_password_hash u) then (Inl (HttpError 401 ''Invalid credentials''), db)
             else if \<not> u_is_active u then (Inl (HttpError 403 ''Account deactivated''), db)
             else open_session H cr io u db))"

definition claim_str :: "(string, json) dict \<Rightarrow> string \<Rightarrow> string option" where
  "claim_str claims k = (case map_of claims k of Some (JStr s) \<Rightarrow> Some s | _ \<Rightarrow> None)"

datatype refresh_check = DemoUser | Checked refresh_row user_row

definition refresh_subject :: "crypto \<Rightarrow> auth_io \<Rightarrow> string option \<Rightarrow> auth_error + string \<times> string" where
  \<comment> \<open>the token and its subject\<close>
  "refresh_subject cr io token =
     (case token of
        None \<Rightarrow> Inl (HttpError 401 ''Refresh token required'')
      | Some tok \<Rightarrow>
          if tok = [] then Inl (HttpError 401 ''Refresh token required'')
          else
            (case verify_refresh_token (cr_jose cr) (cr_hmac cr) (cr_security cr) (io_now io) tok of
               Inl e \<Rightarrow> Inl (HttpError 401 ''Invalid or expired refresh token'')
             | Inr claims \<Rightarrow>
                 (case claim_str claims ''sub'' of None \<Rightarrow> Inl (KeyMissing ''sub'') | Some sub \<Rightarrow> Inr (tok, sub))))"

definition report_theft :: "hash \<Rightarrow> crypto \<Rightarrow> auth_io \<Rightarrow> string \<Rightarrow> string \<Rightarrow> refresh_row \<Rightarrow> auth_db \<Rightarrow> auth_error \<times> auth_db" where
  "report_theft H cr io tok user_id r db =
     (let db1 = revoke_where (\<lambda>x. rt_family_id x = rt_family_id r) (io_now io) db in
      case auth_log H io user_id AA_REFRESH_THEFT_DETECTED
          [(''family_id'', JStr (rt_family_id r)), (''attempted_token_hash'', JStr (cr_sha256 cr tok))] (auth_audit db1) of
        (Inl e, _) \<Rightarrow> (AuditRaised e, db1)
      | (Inr _, t) \<Rightarrow> (HttpError 401 ''Token reuse detected'', db1\<lparr>auth_audit := t\<rparr>))"

definition active_user :: "string \<Rightarrow> auth_db \<Rightarrow> auth_error + user_row" where
  "active_user user_id db =
     (case sql_fetchone (\<lambda>u. u_id u = user_id) (users db) of
        None \<Rightarrow> Inl (HttpError 401 ''User not found or deactivated'')
      | Some u \<Rightarrow> if u_is_active u then Inr u else Inl (HttpError 401 ''User not found or deactivated''))"

definition refresh_read ::
  "hash \<Rightarrow> crypto \<Rightarrow> auth_io \<Rightarrow> string option \<Rightarrow> auth_db \<Rightarrow> (auth_error + refresh_check) \<times> auth_db" where
  "refresh_read H cr io token db =
     (case refresh_subject cr io token of
        Inl e \<Rightarrow> (Inl e, db)
      | Inr (tok, user_id) \<Rightarrow>
          if user_id = DEMO_USER_ID then (Inr DemoUser, db)
          else
            (case sql_fetchone (\<lambda>r. rt_token_hash r = cr_sha256 cr tok) (refresh_tokens db) of
               None \<Rightarrow> (Inl (HttpError 401 ''Invalid refresh token''), db)
             | Some r \<Rightarrow>
                 if rt_revoked r then map_prod Inl id (report_theft H cr io tok user_id r db)
                 else if rt_expires_at r < io_now io then (Inl (HttpError 401 ''Refresh token expired''), db)
                 else (map_sum id (Checked r) (active_user user_id db), db)))"

definition refresh_rotate ::
  "hash \<Rightarrow> crypto \<Rightarrow> auth_io \<Rightarrow> refresh_check \<Rightarrow> auth_db \<Rightarrow> (auth_error + string \<times> string) \<times> auth_db" where
  "refresh_rotate H cr io chk db =
     (case chk of
        DemoUser \<Rightarrow> (Inr (access_for cr io DEMO_USER_ID DEMO_USERNAME ''admin'', fst (refresh_for cr io DEMO_USER_ID None)), db)
      | Checked r u \<Rightarrow>
          (let db1 = revoke_where (\<lambda>x. rt_id x = rt_id r) (io_now io) db;
               access = access_for cr io (u_id u) (u_username u) (u_role u);
               refresh = fst (refresh_for cr io (u_id u) (Some (rt_family_id r)))
           in case insert_refresh (refresh_row_for cr io (u_id u) refresh (rt_family_id r)) db1 of
                None \<Rightarrow> (Inl IntegrityError, db1)
              | Some db2 \<Rightarrow>
                  (case auth_log H io (u_id u) AA_TOKEN_REFRESH
                      [(''family_id'', JStr (rt_family_id r)), (''token_hash_prefix'', JStr (take 8 (cr_sha256 cr refresh)))]
                      (auth_audit db2) of
                     (Inl e, _) \<Rightarrow> (Inl (AuditRaised e), db2)
                   | (Inr _, t) \<Rightarrow> (Inr (access, refresh), db2\<lparr>auth_audit := t\<rparr>))))"

definition refresh_token ::
  "hash \<Rightarrow> crypto \<Rightarrow> auth_io \<Rightarrow> string option \<Rightarrow> auth_db \<Rightarrow> (auth_error + string \<times> string) \<times> auth_db" where
  "refresh_token H cr io token db =
     (case refresh_read H cr io token db of
        (Inl e, db1) \<Rightarrow> (Inl e, db1)
      | (Inr chk, db1) \<Rightarrow> refresh_rotate H cr io chk db1)"

definition logout :: "hash \<Rightarrow> crypto \<Rightarrow> auth_io \<Rightarrow> string option \<Rightarrow> auth_db \<Rightarrow> (auth_error + unit) \<times> auth_db" where
  "logout H cr io token db =
     (case token of
        None \<Rightarrow> (Inr (), db)
      | Some [] \<Rightarrow> (Inr (), db)
      | Some tok \<Rightarrow>
          (let h = cr_sha256 cr tok;
               user_id = (case verify_refresh_token (cr_jose cr) (cr_hmac cr) (cr_security cr) (io_now io) tok of
                  Inl e \<Rightarrow> ''unknown''
                | Inr claims \<Rightarrow> (case claim_str claims ''sub'' of None \<Rightarrow> ''unknown'' | Some s \<Rightarrow> s));
               db1 = revoke_where (\<lambda>r. rt_token_hash r = h) (io_now io) db
           in case auth_log H io user_id AA_USER_LOGOUT [(''token_hash_prefix'', JStr (take 8 h))] (auth_audit db1) of
                (Inl e, _) \<Rightarrow> (Inl (AuditRaised e), db1)
              | (Inr _, t) \<Rightarrow> (Inr (), db1\<lparr>auth_audit := t\<rparr>)))"

definition is_demo :: "(string, json) dict \<Rightarrow> bool" where
  "is_demo claims \<longleftrightarrow> dict_get claims ''username'' JNull \<in> set [JStr ''guest'', JStr ''demo'']"

definition set_password :: "hash \<Rightarrow> crypto \<Rightarrow> auth_io \<Rightarrow> user_row \<Rightarrow> string \<Rightarrow> auth_db \<Rightarrow> (auth_error + unit) \<times> auth_db" where
  \<comment> \<open>\<open>change_password\<close> after its checks\<close>
  "set_password H cr io u new_password db =
     (let db1 = revoke_where (\<lambda>r. rt_user_id r = u_id u) (io_now io)
            (db\<lparr>users := sql_update (\<lambda>x. u_id x = u_id u)
               (\<lambda>x. x\<lparr>u_password_hash := cr_hash_password cr new_password, u_must_change_password := False,
                      u_updated_at := io_last_login io\<rparr>) (users db)\<rparr>)
      in case auth_log H io (u_id u) AA_USER_CHANGE_PASSWORD [(''username'', JStr (u_username u))] (auth_audit db1) of
           (Inl e, _) \<Rightarrow> (Inl (AuditRaised e), db1)
         | (Inr _, t) \<Rightarrow> (Inr (), db1\<lparr>auth_audit := t\<rparr>))"

definition change_password ::
  "hash \<Rightarrow> crypto \<Rightarrow> auth_io \<Rightarrow> (string, json) dict \<Rightarrow> string \<Rightarrow> string \<Rightarrow> auth_db \<Rightarrow> (auth_error + unit) \<times> auth_db" where
  "change_password H cr io claims old_password new_password db =
     (if is_demo claims then (Inl (HttpError 400 ''Password change not allowed in demo mode''), db)
      else
        (case claim_str claims ''sub'' of
           None \<Rightarrow> (Inl (KeyMissing ''sub''), db)
         | Some user_id \<Rightarrow>
             (case sql_fetchone (\<lambda>u. u_id u = user_id) (users db) of
                None \<Rightarrow> (Inl (HttpError 404 ''User not found''), db)
              | Some u \<Rightarrow>
                  if \<not> cr_verify_password cr old_password (u_password_hash u)
                  then (Inl (HttpError 400 ''Invalid old password''), db)
                  else set_password H cr io u new_password db)))"

section \<open>The current user\<close>

record auth_request =
  rq_token :: "string option"
  rq_method :: string
  rq_path :: string

definition rstrip_slash :: "string \<Rightarrow> string" where
  "rstrip_slash s = rev (dropWhile (\<lambda>c. c = CHR ''/'') (rev s))"

definition get_current_user :: "crypto \<Rightarrow> time \<Rightarrow> auth_request \<Rightarrow> auth_db \<Rightarrow> auth_error + (string, json) dict" where
  "get_current_user cr now rq db =
     (case rq_token rq of
        None \<Rightarrow> Inl (HttpError 401 ''Not authenticated'')
      | Some token \<Rightarrow>
          (case verify_access_token (cr_jose cr) (cr_hmac cr) (cr_security cr) now token of
             Inl (ExpiredToken m) \<Rightarrow> Inl (HttpError 401 ''Token has expired'')
           | Inl UnhashableRole \<Rightarrow> Inl (UnexpectedError UnhashableRole)
           | Inl e \<Rightarrow> Inl (HttpError 401 ''Invalid or expired token'')
           | Inr claims \<Rightarrow>
               if audit_compromised (cr_security cr) \<and>
                  (dict_get claims ''role'' (JStr ''viewer'') \<in> set [JStr ''operator'', JStr ''admin''] \<or>
                   rq_method rq \<in> set [''POST'', ''PUT'', ''DELETE'', ''PATCH''])
               then Inl (HttpError 503 ''System Locked: Security Compromised'')
               else
                 (case claim_str claims ''sub'' of
                    None \<Rightarrow> Inl (KeyMissing ''sub'')
                  | Some user_id \<Rightarrow>
                      if user_id = ''demo-user'' \<or> dict_get claims ''username'' JNull = JStr ''guest'' then Inr claims
                      else
                        (case sql_fetchone (\<lambda>u. u_id u = user_id) (users db) of
                           None \<Rightarrow> Inl (HttpError 401 ''User not found or deactivated'')
                         | Some u \<Rightarrow>
                             if \<not> u_is_active u then Inl (HttpError 401 ''User not found or deactivated'')
                             else if u_must_change_password u \<and>
                               rstrip_slash (rq_path rq) \<notin> set [''/api/auth/change-password'', ''/api/auth/logout'', ''/api/auth/login'']
                             then Inl (HttpError 403 ''MUST_CHANGE_PASSWORD'')
                             else Inr claims))))"

section \<open>Token families\<close>

definition live :: "string \<Rightarrow> refresh_row list \<Rightarrow> refresh_row list" where
  "live f rs = filter (\<lambda>r. rt_family_id r = f \<and> \<not> rt_revoked r) rs"

definition single_live :: "refresh_row list \<Rightarrow> bool" where
  "single_live rs \<longleftrightarrow> (\<forall>f. length (live f rs) \<le> 1)"

definition families :: "refresh_row list \<Rightarrow> string set" where
  "families rs = rt_family_id ` set rs"

lemma live_append: "live f (rs @ [r]) = live f rs @ (if rt_family_id r = f \<and> \<not> rt_revoked r then [r] else [])"
  by (simp add: live_def)

lemma live_unknown: "f \<notin> families rs \<Longrightarrow> live f rs = []"
  by (auto simp: live_def families_def filter_empty_conv)

lemma live_revoke: "live f (refresh_tokens (revoke_where P now db)) = filter (\<lambda>r. \<not> P r) (live f (refresh_tokens db))"
proof -
  have "live f (sql_update P (\<lambda>r. r\<lparr>rt_revoked := True, rt_revoked_at := Some now\<rparr>) rs) = filter (\<lambda>r. \<not> P r) (live f rs)" for rs
    by (induction rs) (auto simp: live_def)
  then show ?thesis by (simp add: revoke_where_def)
qed

lemma families_revoke [simp]: "families (refresh_tokens (revoke_where P now db)) = families (refresh_tokens db)"
proof -
  have "rt_family_id ` set (sql_update P (\<lambda>r. r\<lparr>rt_revoked := True, rt_revoked_at := Some now\<rparr>) rs) = rt_family_id ` set rs" for rs
    by (induction rs) auto
  then show ?thesis by (simp add: families_def revoke_where_def)
qed

lemma single_live_revoke: "single_live (refresh_tokens db) \<Longrightarrow> single_live (refresh_tokens (revoke_where P now db))"
  unfolding single_live_def live_revoke by (meson le_trans length_filter_le)

lemma insert_refresh_tokens: "insert_refresh r db = Some db' \<Longrightarrow> refresh_tokens db' = refresh_tokens db @ [r]"
  by (auto simp: insert_refresh_def split: if_splits)

lemma single_live_append:
  assumes "single_live rs" and "live (rt_family_id r) rs = []"
  shows "single_live (rs @ [r])"
  using assms by (auto simp: single_live_def live_append)

lemma open_session_tokens:
  "refresh_tokens (snd (open_session H cr io u db)) = refresh_tokens db \<or>
   (\<exists>r. rt_family_id r = io_family io \<and> refresh_tokens (snd (open_session H cr io u db)) = refresh_tokens db @ [r])"
proof (cases "insert_refresh (refresh_row_for cr io (u_id u) (fst (refresh_for cr io (u_id u) None)) (io_family io)) db")
  case (Some db1)
  have "rt_family_id (refresh_row_for cr io (u_id u) (fst (refresh_for cr io (u_id u) None)) (io_family io)) = io_family io"
    by (simp add: refresh_row_for_def)
  with Some insert_refresh_tokens [OF Some] show ?thesis
    by (auto simp: open_session_def Let_def refresh_for_def create_refresh_token_def split: prod.split sum.split)
qed (simp add: open_session_def Let_def refresh_for_def create_refresh_token_def)

lemma login_tokens:
  "refresh_tokens (snd (login H cr io username password db)) = refresh_tokens db \<or>
   (\<exists>r. rt_family_id r = io_family io \<and> refresh_tokens (snd (login H cr io username password db)) = refresh_tokens db @ [r])"
  using open_session_tokens [of H cr io _ db] by (simp add: login_def split: option.split)

lemma report_theft_tokens:
  "refresh_tokens (snd (report_theft H cr io tok user_id r db)) =
     refresh_tokens (revoke_where (\<lambda>x. rt_family_id x = rt_family_id r) (io_now io) db)"
  by (simp add: report_theft_def Let_def split: prod.split sum.split)

lemma refresh_read_tokens:
  "refresh_tokens (snd (refresh_read H cr io token db)) = refresh_tokens db \<or>
   (\<exists>f. refresh_tokens (snd (refresh_read H cr io token db)) =
      refresh_tokens (revoke_where (\<lambda>x. rt_family_id x = f) (io_now io) db))"
  by (auto simp: refresh_read_def report_theft_tokens split: sum.split option.split)

lemma map_sum_Inr_iff: "map_sum id g x = Inr y \<longleftrightarrow> (\<exists>z. x = Inr z \<and> y = g z)"
  by (cases x) auto

lemma refresh_read_checked:
  assumes "fst (refresh_read H cr io token db) = Inr (Checked r u)"
  shows "snd (refresh_read H cr io token db) = db" and "r \<in> set (refresh_tokens db)" and "\<not> rt_revoked r"
  using assms by (auto simp: refresh_read_def map_sum_Inr_iff split: sum.splits option.splits if_splits prod.splits dest!: sql_fetchone_SomeD)

lemma refresh_row_for_simps [simp]:
  "rt_family_id (refresh_row_for cr io user_id token family) = family" "\<not> rt_revoked (refresh_row_for cr io user_id token family)"
  by (simp_all add: refresh_row_for_def)

lemma refresh_rotate_tokens:
  fixes r u io db
  defines "rs \<equiv> refresh_tokens (revoke_where (\<lambda>x. rt_id x = rt_id r) (io_now io) db)"
  shows "refresh_tokens (snd (refresh_rotate H cr io (Checked r u) db)) = rs \<or>
    (\<exists>n. rt_family_id n = rt_family_id r \<and> \<not> rt_revoked n \<and> refresh_tokens (snd (refresh_rotate H cr io (Checked r u) db)) = rs @ [n])"
proof (cases "insert_refresh (refresh_row_for cr io (u_id u) (fst (refresh_for cr io (u_id u) (Some (rt_family_id r)))) (rt_family_id r))
    (revoke_where (\<lambda>x. rt_id x = rt_id r) (io_now io) db)")
  case (Some db2)
  let ?n = "refresh_row_for cr io (u_id u) (fst (refresh_for cr io (u_id u) (Some (rt_family_id r)))) (rt_family_id r)"
  have "refresh_tokens (snd (refresh_rotate H cr io (Checked r u) db)) = rs @ [?n]"
    using Some insert_refresh_tokens [OF Some] by (simp add: refresh_rotate_def Let_def rs_def split: prod.split sum.split)
  then show ?thesis using refresh_row_for_simps by blast
qed (simp add: refresh_rotate_def Let_def rs_def)

lemma refresh_token_keeps:
  assumes "single_live (refresh_tokens db)"
  shows "single_live (refresh_tokens (snd (refresh_token H cr io token db)))"
    and "families (refresh_tokens (snd (refresh_token H cr io token db))) \<subseteq> families (refresh_tokens db)"
proof -
  let ?R = "refresh_read H cr io token db"
  have read: "single_live (refresh_tokens (snd ?R))" "families (refresh_tokens (snd ?R)) = families (refresh_tokens db)"
    using refresh_read_tokens [of H cr io token db] assms single_live_revoke families_revoke by metis+
  consider (err) e where "fst ?R = Inl e" | (demo) "fst ?R = Inr DemoUser" | (chk) r u where "fst ?R = Inr (Checked r u)"
    by (metis refresh_check.exhaust sum.exhaust)
  then have "single_live (refresh_tokens (snd (refresh_token H cr io token db))) \<and>
      families (refresh_tokens (snd (refresh_token H cr io token db))) \<subseteq> families (refresh_tokens db)"
  proof cases
    case (chk r u)
    let ?rs = "refresh_tokens (revoke_where (\<lambda>x. rt_id x = rt_id r) (io_now io) db)"
    note c = refresh_read_checked [OF chk]
    have t: "refresh_token H cr io token db = refresh_rotate H cr io (Checked r u) db"
      using chk c(1) by (cases ?R) (simp add: refresh_token_def)
    have "live (rt_family_id r) (refresh_tokens db) = [r]"
    proof -
      have "r \<in> set (live (rt_family_id r) (refresh_tokens db))" using c by (simp add: live_def)
      moreover have "length (live (rt_family_id r) (refresh_tokens db)) \<le> 1" using assms by (simp add: single_live_def)
      ultimately show ?thesis by (cases "live (rt_family_id r) (refresh_tokens db)") auto
    qed
    then have "live (rt_family_id r) ?rs = []" by (simp add: live_revoke)
    moreover have "single_live ?rs" by (rule single_live_revoke [OF assms])
    ultimately have "single_live (?rs @ [n])" if "rt_family_id n = rt_family_id r" for n
      using that by (auto intro: single_live_append)
    moreover have "rt_family_id r \<in> families (refresh_tokens db)" using c(2) by (simp add: families_def)
    ultimately show ?thesis
      using refresh_rotate_tokens [of H cr io r u db] single_live_revoke [OF assms] families_revoke [of "\<lambda>x. rt_id x = rt_id r" "io_now io" db]
      unfolding t by (elim disjE exE conjE) (simp_all add: families_def)
  qed (use read in \<open>cases ?R; simp add: refresh_token_def refresh_rotate_def\<close>)+
  then show "single_live (refresh_tokens (snd (refresh_token H cr io token db)))"
    and "families (refresh_tokens (snd (refresh_token H cr io token db))) \<subseteq> families (refresh_tokens db)" by blast+
qed

lemma logout_tokens:
  "refresh_tokens (snd (logout H cr io token db)) = refresh_tokens db \<or>
   (\<exists>P. refresh_tokens (snd (logout H cr io token db)) = refresh_tokens (revoke_where P (io_now io) db))"
  by (auto simp: logout_def Let_def split: option.split list.split prod.split sum.split)

lemma revoke_tokens_cong:
  "refresh_tokens db' = refresh_tokens db \<Longrightarrow> refresh_tokens (revoke_where P t db') = refresh_tokens (revoke_where P t db)"
  by (simp add: revoke_where_def)

lemma set_password_tokens:
  "refresh_tokens (snd (set_password H cr io u new db)) = refresh_tokens (revoke_where (\<lambda>r. rt_user_id r = u_id u) (io_now io) db)"
  by (simp add: set_password_def Let_def revoke_where_def split: prod.split sum.split)

lemma change_password_tokens:
  "refresh_tokens (snd (change_password H cr io claims old new db)) = refresh_tokens db \<or>
   (\<exists>P. refresh_tokens (snd (change_password H cr io claims old new db)) = refresh_tokens (revoke_where P (io_now io) db))"
  using set_password_tokens [of H cr io _ new db] by (auto simp: change_password_def split: option.split)

lemma sql_fetchone_update:
  "(\<And>r. P (f r) = P r) \<Longrightarrow> sql_fetchone P (sql_update Q f rs) = map_option (\<lambda>r. if Q r then f r else r) (sql_fetchone P rs)"
  by (induction rs) auto

lemma theft_result:
  assumes "refresh_subject cr io token = Inr (tok, user)" and "user \<noteq> DEMO_USER_ID"
    and "sql_fetchone (\<lambda>r. rt_token_hash r = cr_sha256 cr tok) (refresh_tokens db) = Some r" and "rt_revoked r"
  shows "(\<exists>e. fst (refresh_token H cr io token db) = Inl e) \<and>
    (\<forall>f. live f (refresh_tokens (snd (refresh_token H cr io token db))) = (if f = rt_family_id r then [] else live f (refresh_tokens db)))"
proof -
  have "refresh_token H cr io token db = map_prod Inl id (report_theft H cr io tok user r db)"
    using assms by (simp add: refresh_token_def refresh_read_def map_prod_def split: prod.split)
  moreover have "filter (\<lambda>x. rt_family_id x \<noteq> rt_family_id r) (live f rs) = (if f = rt_family_id r then [] else live f rs)" for f rs
    by (induction rs) (auto simp: live_def)
  ultimately show ?thesis by (simp add: report_theft_tokens live_revoke)
qed

lemma revoke_where_revoked: "r \<in> set (refresh_tokens (revoke_where P now db)) \<Longrightarrow> (\<And>x. P (x\<lparr>rt_revoked := True, rt_revoked_at := Some now\<rparr>) = P x) \<Longrightarrow> P r \<Longrightarrow> rt_revoked r"
  by (auto simp: revoke_where_def sql_update_def)

lemma change_password_ends_sessions:
  assumes "fst (change_password H cr io claims old new db) = Inr ()" and "claim_str claims ''sub'' = Some user"
    and "r \<in> set (refresh_tokens (snd (change_password H cr io claims old new db)))" and "rt_user_id r = user"
  shows "rt_revoked r"
proof -
  obtain u where u: "u_id u = user" and c: "change_password H cr io claims old new db = set_password H cr io u new db"
    using assms(1,2) sql_fetchone_SomeD by (fastforce simp: change_password_def split: if_splits option.splits)
  show ?thesis
    using assms(3,4) u unfolding c set_password_tokens by (auto intro: revoke_where_revoked)
qed

datatype auth_event =
    EvLogin auth_io string string
  | EvRefresh auth_io "string option"
  | EvLogout auth_io "string option"
  | EvChangePassword auth_io "(string, json) dict" string string

fun auth_apply :: "hash \<Rightarrow> crypto \<Rightarrow> auth_event \<Rightarrow> auth_db \<Rightarrow> auth_db" where
  "auth_apply H cr (EvLogin io u p) db = snd (login H cr io u p db)"
| "auth_apply H cr (EvRefresh io t) db = snd (refresh_token H cr io t db)"
| "auth_apply H cr (EvLogout io t) db = snd (logout H cr io t db)"
| "auth_apply H cr (EvChangePassword io c old new) db = snd (change_password H cr io c old new db)"

definition auth_run :: "hash \<Rightarrow> crypto \<Rightarrow> auth_event list \<Rightarrow> auth_db \<Rightarrow> auth_db" where
  "auth_run H cr es db = fold (auth_apply H cr) es db"

fun login_families :: "auth_event list \<Rightarrow> string list" where
  "login_families [] = []"
| "login_families (EvLogin io u p # es) = io_family io # login_families es"
| "login_families (_ # es) = login_families es"

lemma auth_apply_keeps:
  assumes "single_live (refresh_tokens db)" and "set (login_families [ev]) \<inter> families (refresh_tokens db) = {}"
  shows "single_live (refresh_tokens (auth_apply H cr ev db)) \<and>
    families (refresh_tokens (auth_apply H cr ev db)) \<subseteq> families (refresh_tokens db) \<union> set (login_families [ev])"
proof (cases ev)
  case (EvLogin io u p)
  have "single_live (refresh_tokens db @ [r])" if "rt_family_id r = io_family io" for r
    using assms EvLogin that by (intro single_live_append) (auto intro!: live_unknown)
  with EvLogin login_tokens [of H cr io u p db] assms(1) show ?thesis by (auto simp: families_def)
next
  case (EvRefresh io t)
  then show ?thesis using refresh_token_keeps [OF assms(1)] by auto
next
  case (EvLogout io t)
  with logout_tokens [of H cr io t db] single_live_revoke [OF assms(1)] assms(1) show ?thesis
    by (elim disjE exE) simp_all
next
  case (EvChangePassword io c old new)
  with change_password_tokens [of H cr io c old new db] single_live_revoke [OF assms(1)] assms(1) show ?thesis
    by (elim disjE exE) simp_all
qed

lemma login_families_Cons: "login_families (ev # es) = login_families [ev] @ login_families es"
  by (cases ev) simp_all

lemma auth_run_single_live:
  assumes "single_live (refresh_tokens db)" and "distinct (login_families es)"
    and "set (login_families es) \<inter> families (refresh_tokens db) = {}"
  shows "single_live (refresh_tokens (auth_run H cr es db))"
  using assms unfolding auth_run_def
proof (induction es arbitrary: db)
  case (Cons ev es)
  let ?db = "auth_apply H cr ev db"
  have d: "distinct (login_families es)" "set (login_families [ev]) \<inter> set (login_families es) = {}"
    "set (login_families [ev]) \<inter> families (refresh_tokens db) = {}" "set (login_families es) \<inter> families (refresh_tokens db) = {}"
    using Cons.prems(2,3) by (auto simp: login_families_Cons [of ev es])
  note k = auth_apply_keeps [OF Cons.prems(1) d(3), of H cr]
  have "set (login_families es) \<inter> families (refresh_tokens ?db) = {}" using k d(2,4) by blast
  with Cons.IH [of ?db] k d(1) show ?case by simp
qed simp

section \<open>Properties\<close>

text \<open>
  C11. One live refresh token per login. After any sequence of logins, refreshes,
  logouts and password changes, handled one after the other and with a fresh family
  identifier per login, no token family has more than one unrevoked token.
\<close>

theorem refresh_family_single_live:
  assumes "distinct (login_families es)" and "refresh_tokens db = []"
  shows "length (filter (\<lambda>r. rt_family_id r = f \<and> \<not> rt_revoked r) (refresh_tokens (auth_run H cr es db))) \<le> 1"
  using auth_run_single_live [of db es H cr] assms by (simp add: single_live_def live_def families_def)

text \<open>
  C12. Reuse of a refresh token ends its family. Once a refresh with a token has
  succeeded, presenting the same token again fails, and no token of the family is
  valid any more, not even the one the first refresh returned; other families keep
  theirs.
\<close>

theorem refresh_reuse_ends_family:
  assumes "refresh_token H cr io (Some tok) db = (Inr new, db1)"
    and "refresh_subject cr io' (Some tok) = Inr (tok, user)" and "user \<noteq> DEMO_USER_ID"
    and "refresh_subject cr io (Some tok) = Inr (tok, user)"
    and "refresh_token H cr io' (Some tok) db1 = (res, db2)"
  shows "\<exists>e r. res = Inl e \<and> r \<in> set (refresh_tokens db) \<and> rt_token_hash r = cr_sha256 cr tok \<and>
    (\<forall>f. live f (refresh_tokens db2) = (if f = rt_family_id r then [] else live f (refresh_tokens db1)))"
proof -
  obtain r u where f: "sql_fetchone (\<lambda>r. rt_token_hash r = cr_sha256 cr tok) (refresh_tokens db) = Some r"
    and read: "refresh_read H cr io (Some tok) db = (Inr (Checked r u), db)"
    and rot: "refresh_rotate H cr io (Checked r u) db = (Inr new, db1)"
    using assms(1,3,4)
    by (auto simp: refresh_token_def refresh_read_def map_prod_def active_user_def
        split: option.splits if_splits prod.splits sum.splits)
  let ?rev = "\<lambda>x. x\<lparr>rt_revoked := True, rt_revoked_at := Some (io_now io)\<rparr>"
  have f': "sql_fetchone (\<lambda>r. rt_token_hash r = cr_sha256 cr tok)
      (sql_update (\<lambda>x. rt_id x = rt_id r) ?rev (refresh_tokens db)) = Some (?rev r)"
    using f by (simp add: sql_fetchone_update)
  have "sql_fetchone (\<lambda>r. rt_token_hash r = cr_sha256 cr tok) (refresh_tokens db1) = Some (?rev r)"
    using refresh_rotate_tokens [where H = H and cr = cr and io = io and r = r and u = u and db = db] f'
    by (auto simp: rot revoke_where_def sql_fetchone_append)
  from theft_result [OF assms(2,3) this, of H] assms(5) sql_fetchone_SomeD [OF f] show ?thesis by auto
qed

section \<open>Examples\<close>

text \<open>Toy functions: a token is the identifier put into it, and every token decodes to the same subject.\<close>

definition toy_jose :: jose where
  "toy_jose = \<lparr>jwt_encode = (\<lambda>claims key. case map_of claims ''jti'' of Some (JStr j) \<Rightarrow> j | _ \<Rightarrow> []),
     jwt_decode = (\<lambda>now token key. JwtClaims [(''sub'', JStr ''u1''), (''type'', JStr ''refresh'')]),
     jwt_unverified = (\<lambda>token. None)\<rparr>"

definition toy_crypto :: crypto where
  "toy_crypto = \<lparr>cr_jose = toy_jose, cr_hmac = toy_hmac, cr_sha256 = (\<lambda>s. s), cr_verify_password = (\<lambda>p h. p = h),
     cr_hash_password = (\<lambda>p. p), cr_security = sample_security\<rparr>"

definition toy_io :: "string \<Rightarrow> auth_io" where
  "toy_io n = \<lparr>io_access_now = 10, io_access_jti = n, io_refresh_now = 10, io_refresh_jti = n, io_family = ''f'' @ n,
     io_token_id = n, io_now = 10, io_last_login = 10, io_log_now = 10, io_log_uuid = n\<rparr>"

definition toy_user :: user_row where
  "toy_user = \<lparr>u_id = ''u1'', u_username = ''ann'', u_password_hash = ''pw'', u_role = ''admin'', u_is_active = True,
     u_must_change_password = False, u_updated_at = 0, u_last_login = None\<rparr>"

definition toy_token :: refresh_row where
  "toy_token = \<lparr>rt_id = ''t0'', rt_user_id = ''u1'', rt_token_hash = ''tok'', rt_family_id = ''fam'', rt_issued_at = 0,
     rt_expires_at = 100, rt_revoked = False, rt_revoked_at = None\<rparr>"

definition toy_db :: auth_db where
  "toy_db = \<lparr>users = [toy_user], refresh_tokens = [toy_token], auth_audit = []\<rparr>"

lemma refresh_for_toy [simp]: "refresh_for toy_crypto (toy_io n) user (Some f) = (n, f)"
  by (simp add: refresh_for_def create_refresh_token_def toy_crypto_def toy_jose_def toy_io_def Let_def)

lemma toy_subject: "refresh_subject toy_crypto (toy_io n) (Some ''tok'') = Inr (''tok'', ''u1'')"
  by (simp add: refresh_subject_def verify_refresh_token_def verify_typed_def toy_crypto_def toy_jose_def claim_str_def dict_get_def)

lemma toy_read: "refresh_read H toy_crypto (toy_io n) (Some ''tok'') toy_db = (Inr (Checked toy_token toy_user), toy_db)"
  unfolding refresh_read_def toy_subject
  by (simp add: DEMO_USER_ID_def active_user_def toy_crypto_def toy_db_def toy_token_def toy_user_def toy_io_def)

lemma auth_log_first: "auth_log H io user action details [] = (Inr (io_log_uuid io), [next_entry H \<lparr>ar_user_id = user,
    ar_action = audit_action_str action, ar_node_id = None, ar_details = JObj details, ar_now = io_log_now io, ar_uuid = io_log_uuid io\<rparr> []])"
  unfolding auth_log_def by (subst log_action_alone) (simp_all add: chain_ok_def)

lemma toy_rotate:
  assumes "refresh_tokens db = [toy_token]" and "users db = [toy_user]" and "auth_audit db = []" and "n \<notin> {''t0'', ''tok''}"
  shows "\<exists>db'. refresh_rotate H toy_crypto (toy_io n) (Checked toy_token toy_user) db =
     (Inr (access_for toy_crypto (toy_io n) ''u1'' ''ann'' ''admin'', n), db')"
  using assms
  by (simp add: refresh_rotate_def Let_def insert_refresh_def revoke_where_def sql_update_def auth_log_first)
     (auto simp: refresh_row_for_def toy_token_def toy_user_def toy_io_def toy_crypto_def)

theorem refresh_family_single_live_witness:
  "let es = [EvLogin (toy_io ''a'') ''ann'' ''pw'', EvRefresh (toy_io ''b'') (Some ''a''), EvLogin (toy_io ''c'') ''ann'' ''pw''];
       db = toy_db\<lparr>refresh_tokens := []\<rparr>
   in distinct (login_families es) \<and> refresh_tokens db = [] \<and>
      length (filter (\<lambda>r. rt_family_id r = ''fa'' \<and> \<not> rt_revoked r) (refresh_tokens (auth_run (\<lambda>s. s) toy_crypto es db))) \<le> 1"
  unfolding Let_def
  by (intro conjI refresh_family_single_live) (simp_all add: toy_io_def)

theorem refresh_reuse_ends_family_witness:
  "\<exists>new db1 e db2. refresh_token (\<lambda>s. s) toy_crypto (toy_io ''n1'') (Some ''tok'') toy_db = (Inr new, db1) \<and>
     refresh_token (\<lambda>s. s) toy_crypto (toy_io ''n2'') (Some ''tok'') db1 = (Inl e, db2) \<and> live ''fam'' (refresh_tokens db2) = []"
proof -
  let ?T = "refresh_token (\<lambda>s. s) toy_crypto"
  obtain new db1 where one: "?T (toy_io ''n1'') (Some ''tok'') toy_db = (Inr new, db1)"
    using toy_rotate [of toy_db "''n1''" "\<lambda>s. s"] unfolding refresh_token_def toy_read
    by (auto simp: toy_db_def)
  obtain res db2 where two: "?T (toy_io ''n2'') (Some ''tok'') db1 = (res, db2)" by fastforce
  have "''u1'' \<noteq> DEMO_USER_ID" by (simp add: DEMO_USER_ID_def)
  from refresh_reuse_ends_family [OF one toy_subject this toy_subject two] one two show ?thesis
    by (auto simp: toy_db_def toy_token_def)
qed

section \<open>Concurrent refreshes\<close>

text \<open>
  The rotation is an unconditional \<open>UPDATE\<close>: two refreshes with the same token that both
  read it before either writes both succeed, and the family then has two live tokens.
  Reuse detection needs the first rotation to be visible when the token is read again.
\<close>

lemma revoke_where_ids: "rt_id ` set (refresh_tokens (revoke_where P now db)) = rt_id ` set (refresh_tokens db)"
proof -
  have "map rt_id (refresh_tokens (revoke_where P now db)) = map rt_id (refresh_tokens db)"
    by (simp add: revoke_where_def sql_update_def)
  then show ?thesis by (metis list.set_map)
qed

theorem concurrent_refresh_forks_family:
  assumes "fst (refresh_rotate H cr io1 (Checked r u) db) = Inr t1"
    and "fst (refresh_rotate H cr io2 (Checked r u) (snd (refresh_rotate H cr io1 (Checked r u) db))) = Inr t2"
    and "r \<in> set (refresh_tokens db)"
  shows "2 \<le> length (live (rt_family_id r)
     (refresh_tokens (snd (refresh_rotate H cr io2 (Checked r u) (snd (refresh_rotate H cr io1 (Checked r u) db))))))"
proof -
  have rot: "\<exists>n. rt_family_id n = rt_family_id r \<and> \<not> rt_revoked n \<and> rt_id n \<noteq> rt_id r \<and>
      refresh_tokens (snd (refresh_rotate H cr io (Checked r u) d)) =
        refresh_tokens (revoke_where (\<lambda>x. rt_id x = rt_id r) (io_now io) d) @ [n]"
    if ok: "fst (refresh_rotate H cr io (Checked r u) d) = Inr t" and mem: "rt_id r \<in> rt_id ` set (refresh_tokens d)" for io d t
  proof -
    let ?n = "refresh_row_for cr io (u_id u) (fst (refresh_for cr io (u_id u) (Some (rt_family_id r)))) (rt_family_id r)"
    let ?d = "revoke_where (\<lambda>x. rt_id x = rt_id r) (io_now io) d"
    obtain d2 where ins: "insert_refresh ?n ?d = Some d2"
      using ok by (cases "insert_refresh ?n ?d") (simp_all add: refresh_rotate_def Let_def)
    have "rt_id ?n \<noteq> rt_id r" using ins mem by (auto simp: insert_refresh_def revoke_where_ids split: if_splits)
    moreover have "refresh_tokens (snd (refresh_rotate H cr io (Checked r u) d)) = refresh_tokens ?d @ [?n]"
      using ins insert_refresh_tokens [OF ins] by (simp add: refresh_rotate_def Let_def split: prod.split sum.split)
    ultimately show ?thesis using refresh_row_for_simps by blast
  qed
  let ?d1 = "snd (refresh_rotate H cr io1 (Checked r u) db)"
  obtain n1 where n1: "rt_family_id n1 = rt_family_id r" "\<not> rt_revoked n1" "rt_id n1 \<noteq> rt_id r"
      "refresh_tokens ?d1 = refresh_tokens (revoke_where (\<lambda>x. rt_id x = rt_id r) (io_now io1) db) @ [n1]"
    using rot [OF assms(1)] assms(3) by blast
  have "rt_id r \<in> rt_id ` set (refresh_tokens ?d1)"
    unfolding n1(4) using assms(3) by (simp add: image_Un revoke_where_ids)
  then obtain n2 where n2: "rt_family_id n2 = rt_family_id r" "\<not> rt_revoked n2"
      "refresh_tokens (snd (refresh_rotate H cr io2 (Checked r u) ?d1)) =
         refresh_tokens (revoke_where (\<lambda>x. rt_id x = rt_id r) (io_now io2) ?d1) @ [n2]"
    using rot [OF assms(2)] by blast
  show ?thesis unfolding n2(3) using n1 n2(1,2) by (simp add: live_append live_revoke)
qed

text \<open>Such a schedule exists.\<close>

lemma auth_log_second:
  assumes "auth_log (\<lambda>s. s) io user action details [] = (Inr i, t)" and "io_log_uuid io' \<noteq> io_log_uuid io"
  shows "\<exists>t'. auth_log (\<lambda>s. s) io' user' action' details' t = (Inr (io_log_uuid io'), t')"
proof -
  let ?r = "\<lparr>ar_user_id = user, ar_action = audit_action_str action, ar_node_id = None, ar_details = JObj details,
    ar_now = io_log_now io, ar_uuid = io_log_uuid io\<rparr>"
  have t: "t = [next_entry (\<lambda>s. s) ?r []]" using assms(1) by (auto simp: auth_log_first)
  have "chain_ok (\<lambda>s. s) t" using next_entry_chain [of "\<lambda>s. s" "[]" ?r] by (simp add: t chain_ok_def)
  moreover have "length (ae_entry_hash e) < length (ae_entry_hash (next_entry (\<lambda>s. s) r [e]))" for e r
    by (simp add: next_entry_def chain_head_def compute_entry_hash_def entry_raw_def Let_def)
  then have ne: "ae_entry_hash (next_entry (\<lambda>s. s) r [e]) \<noteq> ae_entry_hash e" for e r
    by (metis less_irrefl)
  have "ae_entry_hash (next_entry (\<lambda>s. s) r t) \<notin> set (map ae_entry_hash t)" for r
    using ne [of r "next_entry (\<lambda>s. s) ?r []"] by (simp only: t list.map list.set insert_iff empty_iff simp_thms)
  moreover have "io_log_uuid io' \<notin> set (map ae_id t)" using assms(2) by (simp add: t)
  ultimately show ?thesis
    unfolding auth_log_def using log_action_alone by fastforce
qed

lemma fork_schedule:
  "\<exists>t1 db1 t2 db2. refresh_read (\<lambda>s. s) toy_crypto (toy_io ''n1'') (Some ''tok'') toy_db = (Inr (Checked toy_token toy_user), toy_db) \<and>
     refresh_read (\<lambda>s. s) toy_crypto (toy_io ''n2'') (Some ''tok'') toy_db = (Inr (Checked toy_token toy_user), toy_db) \<and>
     refresh_rotate (\<lambda>s. s) toy_crypto (toy_io ''n1'') (Checked toy_token toy_user) toy_db = (Inr t1, db1) \<and>
     refresh_rotate (\<lambda>s. s) toy_crypto (toy_io ''n2'') (Checked toy_token toy_user) db1 = (Inr t2, db2)"
proof -
  let ?d = "[(''family_id'', JStr ''fam''), (''token_hash_prefix'', JStr ''n1'')]"
  obtain i t where log: "auth_log (\<lambda>s. s) (toy_io ''n1'') ''u1'' AA_TOKEN_REFRESH ?d [] = (Inr i, t)"
    using auth_log_first by blast
  let ?row = "\<lambda>n. refresh_row_for toy_crypto (toy_io n) ''u1'' n ''fam''"
  let ?tok = "toy_token\<lparr>rt_revoked := True, rt_revoked_at := Some 10\<rparr>"
  let ?db1 = "toy_db\<lparr>refresh_tokens := [?tok, ?row ''n1''], auth_audit := t\<rparr>"
  have one: "\<exists>t1. refresh_rotate (\<lambda>s. s) toy_crypto (toy_io ''n1'') (Checked toy_token toy_user) toy_db = (Inr t1, ?db1)"
    using log by (simp add: refresh_rotate_def Let_def insert_refresh_def revoke_where_def sql_update_def)
      (simp add: refresh_row_for_def toy_token_def toy_user_def toy_io_def toy_crypto_def toy_db_def)
  have "\<exists>t'. auth_log (\<lambda>s. s) (toy_io ''n2'') ''u1'' AA_TOKEN_REFRESH
      [(''family_id'', JStr ''fam''), (''token_hash_prefix'', JStr ''n2'')] t = (Inr (io_log_uuid (toy_io ''n2'')), t')"
    by (rule auth_log_second [OF log]) (simp add: toy_io_def)
  then have two: "\<exists>t2 db2. refresh_rotate (\<lambda>s. s) toy_crypto (toy_io ''n2'') (Checked toy_token toy_user) ?db1 = (Inr t2, db2)"
    by (simp add: refresh_rotate_def Let_def insert_refresh_def revoke_where_def sql_update_def)
      (auto simp: refresh_row_for_def toy_token_def toy_user_def toy_io_def toy_crypto_def toy_db_def)
  show ?thesis using toy_read one two by blast
qed

end
