(* ===== verification/Intent_Registry.thy ===== *)
theory Intent_Registry
  imports Json Action_Proposal
begin

text \<open>
  The in-memory registry of the node manager (\<open>src/master/core/node_manager.py\<close>): the
  active connections and the pending intents, and the check of an \<open>INTENT_RESULT\<close>
  message (\<open>src/master/ws/worker_handler.py\<close>). Futures are shared objects: the sender,
  the registry and the resolver hold the same one, so they live in a store and the
  registry holds addresses. \<open>_send_intent\<close> is two steps, before and after its wait;
  anything may happen in between.
\<close>

section \<open>State\<close>

datatype future_state = FPending | FResult json | FCancelled

record connection =
  cn_websocket :: nat
  cn_connected_at :: time
  cn_last_heartbeat :: time
  cn_remote_address :: string

record node_manager =
  connections :: "(string, connection) dict"
  pending_intents :: "(string, nat) dict"
  intent_created_at :: "(string, time) dict"
  intent_nodes :: "(string, string) dict"
  intent_max_age :: "(string, time) dict"
  default_intent_max_age :: time
  default_timeout :: time
  disk_scan_inflight :: "string list"
  disk_scan_last_run :: "(string, time) dict"
  last_drift_trigger :: "(string, time) dict"
  latest_metrics :: "(string, json) dict"
  futures :: "future_state list"
  closed_sockets :: "(nat \<times> nat) list"

definition init_node_manager :: "time option \<Rightarrow> node_manager" where
  "init_node_manager timeout =
     \<lparr>connections = [], pending_intents = [], intent_created_at = [], intent_nodes = [], intent_max_age = [],
      default_intent_max_age = 300, default_timeout = (case timeout of None \<Rightarrow> 30 | Some t \<Rightarrow> t),
      disk_scan_inflight = [], disk_scan_last_run = [], last_drift_trigger = [], latest_metrics = [],
      futures = [], closed_sockets = []\<rparr>"

definition fut_done :: "node_manager \<Rightarrow> nat \<Rightarrow> bool" where
  "fut_done m f \<longleftrightarrow> f < length (futures m) \<and> futures m ! f \<noteq> FPending"

definition settle :: "nat \<Rightarrow> future_state \<Rightarrow> node_manager \<Rightarrow> node_manager" where
  \<comment> \<open>\<open>set_result\<close> or \<open>cancel\<close> under \<open>if not future.done()\<close>\<close>
  "settle f v m = (if fut_done m f then m else m\<lparr>futures := (futures m)[f := v]\<rparr>)"

section \<open>Connections\<close>

definition new_connection :: "nat \<Rightarrow> time \<Rightarrow> connection" where
  "new_connection ws now = \<lparr>cn_websocket = ws, cn_connected_at = now, cn_last_heartbeat = now, cn_remote_address = []\<rparr>"

definition heartbeat_age :: "time \<Rightarrow> connection \<Rightarrow> time" where
  "heartbeat_age now c = now - cn_last_heartbeat c"

definition close_socket :: "connection option \<Rightarrow> nat \<Rightarrow> node_manager \<Rightarrow> node_manager" where
  "close_socket c code m =
     (case c of None \<Rightarrow> m | Some conn \<Rightarrow> m\<lparr>closed_sockets := closed_sockets m @ [(cn_websocket conn, code)]\<rparr>)"

definition register_connection :: "time \<Rightarrow> string \<Rightarrow> nat \<Rightarrow> node_manager \<Rightarrow> node_manager" where
  "register_connection now node_id ws m =
     (close_socket (map_of (connections m) node_id) 4400 m)
       \<lparr>connections := AList.update node_id (new_connection ws now) (connections m)\<rparr>"

definition drop_intent :: "string \<Rightarrow> node_manager \<Rightarrow> node_manager" where
  \<comment> \<open>the body of the loop of \<open>unregister_connection\<close>\<close>
  "drop_intent intent_id m =
     (let m1 = m\<lparr>intent_nodes := AList.delete intent_id (intent_nodes m),
                 intent_created_at := AList.delete intent_id (intent_created_at m),
                 pending_intents := AList.delete intent_id (pending_intents m)\<rparr>
      in case map_of (pending_intents m) intent_id of None \<Rightarrow> m1 | Some f \<Rightarrow> settle f FCancelled m1)"

definition unregister_connection :: "string \<Rightarrow> node_manager \<Rightarrow> node_manager" where
  "unregister_connection node_id m =
     fold (\<lambda>(intent_id, nid) m. if nid = node_id then drop_intent intent_id m else m) (intent_nodes m)
       (m\<lparr>connections := AList.delete node_id (connections m)\<rparr>)"

definition touch_heartbeat :: "time \<Rightarrow> string \<Rightarrow> node_manager \<Rightarrow> node_manager" where
  "touch_heartbeat now node_id m =
     (case map_of (connections m) node_id of
        None \<Rightarrow> m
      | Some c \<Rightarrow> m\<lparr>connections := AList.update node_id (c\<lparr>cn_last_heartbeat := now\<rparr>) (connections m)\<rparr>)"

definition is_connected :: "string \<Rightarrow> node_manager \<Rightarrow> bool" where
  "is_connected node_id m \<longleftrightarrow> node_id \<in> set (dict_keys (connections m))"

definition connected_node_ids :: "node_manager \<Rightarrow> string list" where
  "connected_node_ids m = dict_keys (connections m)"

section \<open>Intents\<close>

datatype intent_error = NotConnected string | IntentTimeout | IntentCancelled

definition intent_id_of :: "string \<Rightarrow> (string, json) dict \<Rightarrow> string" where
  \<comment> \<open>\<open>intent.get("intent_id") or uuid\<close>; the callers put strings there\<close>
  "intent_id_of uuid intent =
     (case map_of intent ''intent_id'' of Some (JStr s) \<Rightarrow> if s = [] then uuid else s | _ \<Rightarrow> uuid)"

definition send_intent_begin ::
  "time \<Rightarrow> string \<Rightarrow> string \<Rightarrow> (string, json) dict \<Rightarrow> time option \<Rightarrow> node_manager \<Rightarrow>
     (intent_error + string \<times> nat \<times> (string, json) dict) \<times> node_manager" where
  \<comment> \<open>up to the wait; the result holds the intent id, the future and the message sent\<close>
  "send_intent_begin now uuid node_id intent max_age m =
     (case map_of (connections m) node_id of
        None \<Rightarrow> (Inl (NotConnected node_id), m)
      | Some conn \<Rightarrow>
          (let i = intent_id_of uuid intent;
               f = length (futures m);
               m1 = m\<lparr>futures := futures m @ [FPending],
                      pending_intents := AList.update i f (pending_intents m),
                      intent_created_at := AList.update i now (intent_created_at m),
                      intent_nodes := AList.update i node_id (intent_nodes m)\<rparr>;
               m2 = (case max_age of None \<Rightarrow> m1 | Some a \<Rightarrow> m1\<lparr>intent_max_age := AList.update i a (intent_max_age m1)\<rparr>)
           in (Inr (i, f, AList.update ''type'' (JStr ''INTENT'') (AList.update ''intent_id'' (JStr i) intent)), m2)))"

definition send_intent_end :: "string \<Rightarrow> nat \<Rightarrow> node_manager \<Rightarrow> (intent_error + json) \<times> node_manager" where
  \<comment> \<open>the end of \<open>wait_for\<close>, which cancels a future that is still pending, and the \<open>finally\<close>\<close>
  "send_intent_end i f m =
     ((case futures m ! f of FPending \<Rightarrow> Inl IntentTimeout | FResult r \<Rightarrow> Inr r | FCancelled \<Rightarrow> Inl IntentCancelled),
      (settle f FCancelled m)
        \<lparr>intent_max_age := AList.delete i (intent_max_age m),
         intent_nodes := AList.delete i (intent_nodes m),
         intent_created_at := AList.delete i (intent_created_at m),
         pending_intents := AList.delete i (pending_intents m)\<rparr>)"

definition resolve_intent :: "string \<Rightarrow> json \<Rightarrow> node_manager \<Rightarrow> node_manager" where
  "resolve_intent i result m =
     (let m1 = m\<lparr>intent_nodes := AList.delete i (intent_nodes m),
                 intent_created_at := AList.delete i (intent_created_at m),
                 pending_intents := AList.delete i (pending_intents m)\<rparr>
      in case map_of (pending_intents m) i of None \<Rightarrow> m1 | Some f \<Rightarrow> settle f (FResult result) m1)"

definition stale_intent :: "time \<Rightarrow> node_manager \<Rightarrow> string \<times> nat \<Rightarrow> bool" where
  "stale_intent now m = (\<lambda>(i, f). fut_done m f \<or>
     dict_get (intent_max_age m) i (default_intent_max_age m) < now - dict_get (intent_created_at m) i now)"

definition drop_stale :: "string \<Rightarrow> node_manager \<Rightarrow> node_manager" where
  "drop_stale i m = (drop_intent i m)\<lparr>intent_max_age := AList.delete i (intent_max_age m)\<rparr>"

definition cleanup_stale_intents :: "time \<Rightarrow> node_manager \<Rightarrow> nat \<times> node_manager" where
  "cleanup_stale_intents now m =
     (let stale = map fst (filter (stale_intent now m) (pending_intents m))
      in (length stale, fold drop_stale stale m))"

section \<open>Results from a worker\<close>

datatype intent_verdict = Accepted | UnknownIntent | WrongNode string | DispatchMismatch | UnhashableId

definition stored_dispatch :: "proposal_table \<Rightarrow> string \<Rightarrow> string option" where
  "stored_dispatch tbl i =
     (case sql_fetchone (\<lambda>r. r_intent_id r = Some i) tbl of None \<Rightarrow> None | Some r \<Rightarrow> r_dispatch_id r)"

definition dispatch_matches :: "proposal_table \<Rightarrow> string \<Rightarrow> json \<Rightarrow> bool" where
  "dispatch_matches tbl i d \<longleftrightarrow>
     d = JNull \<or> (case stored_dispatch tbl i of None \<Rightarrow> False | Some s \<Rightarrow> d = JStr s)"

definition check_intent_result :: "proposal_table \<Rightarrow> string \<Rightarrow> (string, json) dict \<Rightarrow> node_manager \<Rightarrow> intent_verdict \<times> string" where
  "check_intent_result tbl node_id msg m =
     (case dict_get msg ''intent_id'' (JStr ''?'') of
        JArr _ \<Rightarrow> (UnhashableId, [])
      | JObj _ \<Rightarrow> (UnhashableId, [])
      | JStr i \<Rightarrow>
          (case map_of (intent_nodes m) i of
             None \<Rightarrow> (UnknownIntent, i)
           | Some expected \<Rightarrow>
               if expected \<noteq> node_id then (WrongNode expected, i)
               else if \<not> dispatch_matches tbl i (dict_get msg ''dispatch_id'' JNull) then (DispatchMismatch, i)
               else (Accepted, i))
      | _ \<Rightarrow> (UnknownIntent, []))"

definition on_intent_result :: "proposal_table \<Rightarrow> string \<Rightarrow> (string, json) dict \<Rightarrow> node_manager \<Rightarrow> intent_verdict \<times> node_manager" where
  "on_intent_result tbl node_id msg m =
     (case check_intent_result tbl node_id msg m of
        (Accepted, i) \<Rightarrow> (Accepted, resolve_intent i (JObj msg) m)
      | (v, _) \<Rightarrow> (v, m))"

section \<open>Runs of the registry\<close>

datatype registry_event =
    EvRegister time string nat
  | EvUnregister string
  | EvTouch time string
  | EvSend time string string "(string, json) dict" "time option"
  | EvSendEnd string nat
  | EvResult proposal_table string "(string, json) dict"
  | EvCleanup time

fun registry_apply :: "registry_event \<Rightarrow> node_manager \<Rightarrow> node_manager" where
  "registry_apply (EvRegister now n ws) m = register_connection now n ws m"
| "registry_apply (EvUnregister n) m = unregister_connection n m"
| "registry_apply (EvTouch now n) m = touch_heartbeat now n m"
| "registry_apply (EvSend now uuid n intent age) m = snd (send_intent_begin now uuid n intent age m)"
| "registry_apply (EvSendEnd i f) m = snd (send_intent_end i f m)"
| "registry_apply (EvResult tbl n msg) m = snd (on_intent_result tbl n msg m)"
| "registry_apply (EvCleanup now) m = snd (cleanup_stale_intents now m)"

definition registry_run :: "registry_event list \<Rightarrow> node_manager \<Rightarrow> node_manager" where
  "registry_run es m = fold registry_apply es m"

section \<open>The registry's invariant\<close>

definition registry_ok :: "node_manager \<Rightarrow> bool" where
  "registry_ok m \<longleftrightarrow>
     dict_wf (pending_intents m) \<and> dict_wf (intent_nodes m) \<and> dict_wf (intent_created_at m) \<and>
     dom (map_of (intent_nodes m)) = dom (map_of (pending_intents m)) \<and>
     dom (map_of (intent_created_at m)) = dom (map_of (pending_intents m)) \<and>
     (\<forall>i f. map_of (pending_intents m) i = Some f \<longrightarrow> f < length (futures m)) \<and>
     (\<forall>i j f. map_of (pending_intents m) i = Some f \<longrightarrow> map_of (pending_intents m) j = Some f \<longrightarrow> i = j)"

named_theorems registry_simps \<open>what the operations leave of the registry's fields\<close>

lemma settle_fields [registry_simps, simp]:
  "pending_intents (settle f v m) = pending_intents m" "intent_nodes (settle f v m) = intent_nodes m"
  "intent_created_at (settle f v m) = intent_created_at m" "intent_max_age (settle f v m) = intent_max_age m"
  "length (futures (settle f v m)) = length (futures m)" "connections (settle f v m) = connections m"
  "default_intent_max_age (settle f v m) = default_intent_max_age m"
  by (simp_all add: settle_def)

lemma drop_intent_fields [registry_simps, simp]:
  "pending_intents (drop_intent i m) = AList.delete i (pending_intents m)"
  "intent_nodes (drop_intent i m) = AList.delete i (intent_nodes m)"
  "intent_created_at (drop_intent i m) = AList.delete i (intent_created_at m)"
  "length (futures (drop_intent i m)) = length (futures m)" "connections (drop_intent i m) = connections m"
  by (simp_all add: drop_intent_def Let_def split: option.split)

lemma drop_stale_fields [registry_simps, simp]:
  "pending_intents (drop_stale i m) = AList.delete i (pending_intents m)"
  "intent_nodes (drop_stale i m) = AList.delete i (intent_nodes m)"
  "intent_created_at (drop_stale i m) = AList.delete i (intent_created_at m)"
  "futures (drop_stale i m) = futures (drop_intent i m)"
  by (simp_all add: drop_stale_def)

lemma resolve_intent_fields [registry_simps, simp]:
  "pending_intents (resolve_intent i r m) = AList.delete i (pending_intents m)"
  "intent_nodes (resolve_intent i r m) = AList.delete i (intent_nodes m)"
  "intent_created_at (resolve_intent i r m) = AList.delete i (intent_created_at m)"
  "length (futures (resolve_intent i r m)) = length (futures m)"
  by (simp_all add: resolve_intent_def Let_def split: option.split)

lemma register_fields [registry_simps, simp]:
  "pending_intents (register_connection now n ws m) = pending_intents m"
  "intent_nodes (register_connection now n ws m) = intent_nodes m"
  "intent_created_at (register_connection now n ws m) = intent_created_at m"
  "futures (register_connection now n ws m) = futures m"
  by (simp_all add: register_connection_def close_socket_def split: option.split)

lemma touch_fields [registry_simps, simp]:
  "pending_intents (touch_heartbeat now n m) = pending_intents m"
  "intent_nodes (touch_heartbeat now n m) = intent_nodes m"
  "intent_created_at (touch_heartbeat now n m) = intent_created_at m"
  "futures (touch_heartbeat now n m) = futures m"
  by (simp_all add: touch_heartbeat_def split: option.split)

text \<open>
  Dropping one entry is the same on the three dictionaries, whatever removes it.
\<close>

lemma registry_ok_delete:
  assumes "registry_ok m"
    and "pending_intents m' = AList.delete i (pending_intents m)" and "intent_nodes m' = AList.delete i (intent_nodes m)"
    and "intent_created_at m' = AList.delete i (intent_created_at m)" and "length (futures m') = length (futures m)"
  shows "registry_ok m'"
  using assms by (auto simp: registry_ok_def delete_conv' split: if_splits)+

lemma registry_ok_same:
  assumes "registry_ok m"
    and "pending_intents m' = pending_intents m" and "intent_nodes m' = intent_nodes m"
    and "intent_created_at m' = intent_created_at m" and "length (futures m') = length (futures m)"
  shows "registry_ok m'"
  using assms by (simp add: registry_ok_def)

lemma registry_ok_drop: "registry_ok m \<Longrightarrow> registry_ok (drop_intent i m)"
  by (erule registry_ok_delete) simp_all

lemma registry_ok_drop_stale: "registry_ok m \<Longrightarrow> registry_ok (drop_stale i m)"
  by (erule registry_ok_delete [where i = i]) simp_all

lemma fold_invariant_step: "(\<And>x s. I s \<Longrightarrow> I (f x s)) \<Longrightarrow> I s \<Longrightarrow> I (fold f xs s)"
  by (induction xs arbitrary: s) auto

lemma registry_ok_unregister:
  assumes "registry_ok m"
  shows "registry_ok (unregister_connection n m)"
  unfolding unregister_connection_def
proof (rule fold_invariant_step [where I = registry_ok])
  show "registry_ok (m\<lparr>connections := AList.delete n (connections m)\<rparr>)" using assms by (simp add: registry_ok_def)
qed (auto intro: registry_ok_drop)

lemma registry_ok_add:
  assumes "registry_ok m" and "futures m' = futures m @ [FPending]"
    and "pending_intents m' = AList.update i (length (futures m)) (pending_intents m)"
    and "intent_created_at m' = AList.update i now (intent_created_at m)"
    and "intent_nodes m' = AList.update i n (intent_nodes m)"
  shows "registry_ok m'"
  using assms by (auto simp: registry_ok_def update_conv' split: if_splits intro: less_SucI)

lemma registry_ok_send: "registry_ok m \<Longrightarrow> registry_ok (snd (send_intent_begin now uuid n intent age m))"
  by (cases "map_of (connections m) n")
     (auto simp: send_intent_begin_def Let_def intro: registry_ok_add split: option.split)

lemma registry_ok_end: "registry_ok m \<Longrightarrow> registry_ok (snd (send_intent_end i f m))"
  by (erule registry_ok_delete [where i = i]) (simp_all add: send_intent_end_def)

lemma registry_ok_result: "registry_ok m \<Longrightarrow> registry_ok (snd (on_intent_result tbl n msg m))"
  by (auto simp: on_intent_result_def split: prod.split intent_verdict.split intro: registry_ok_delete)

lemma registry_ok_cleanup: "registry_ok m \<Longrightarrow> registry_ok (snd (cleanup_stale_intents now m))"
  by (auto simp: cleanup_stale_intents_def Let_def intro: fold_invariant_step [where I = registry_ok] registry_ok_drop_stale)

lemma registry_ok_apply: "registry_ok m \<Longrightarrow> registry_ok (registry_apply e m)"
  by (cases e) (auto intro: registry_ok_unregister registry_ok_send registry_ok_end registry_ok_result registry_ok_cleanup
      registry_ok_same [of m])

lemma registry_ok_init: "registry_ok (init_node_manager t)"
  by (simp add: registry_ok_def init_node_manager_def dict_wf_def)

lemma registry_ok_run: "registry_ok m \<Longrightarrow> registry_ok (registry_run es m)"
  unfolding registry_run_def by (rule fold_invariant_step) (rule registry_ok_apply)

section \<open>What happens to a future\<close>

text \<open>A step is quiet when it neither changes a settled future nor delivers a result.\<close>

definition done_kept :: "node_manager \<Rightarrow> node_manager \<Rightarrow> bool" where
  "done_kept m m' \<longleftrightarrow> length (futures m) \<le> length (futures m') \<and>
     (\<forall>g < length (futures m). futures m ! g \<noteq> FPending \<longrightarrow> futures m' ! g = futures m ! g)"

definition quiet :: "node_manager \<Rightarrow> node_manager \<Rightarrow> bool" where
  "quiet m m' \<longleftrightarrow> done_kept m m' \<and>
     (\<forall>g < length (futures m'). \<forall>r. futures m' ! g = FResult r \<longrightarrow> g < length (futures m) \<and> futures m ! g = FResult r)"

lemma quiet_same: "futures m' = futures m \<Longrightarrow> quiet m m'"
  by (simp add: quiet_def done_kept_def)

lemma done_kept_trans: "done_kept a b \<Longrightarrow> done_kept b c \<Longrightarrow> done_kept a c"
  unfolding done_kept_def by (metis order.strict_trans2 order.trans)

lemma quiet_trans: "quiet a b \<Longrightarrow> quiet b c \<Longrightarrow> quiet a c"
  unfolding quiet_def using done_kept_trans by metis

lemma futures_settle: "futures (settle f v m) ! g = (if g = f \<and> f < length (futures m) \<and> futures m ! f = FPending then v else futures m ! g)"
  by (cases "f < length (futures m)") (auto simp: settle_def fut_done_def nth_list_update list_update_beyond)

lemma quiet_settle: "quiet m (settle f FCancelled m)"
  by (auto simp: quiet_def done_kept_def futures_settle split: if_splits)

lemma quiet_cong: "quiet m m1 \<Longrightarrow> futures m2 = futures m1 \<Longrightarrow> quiet m m2"
  unfolding quiet_def done_kept_def by metis

lemma quiet_drop: "quiet m (drop_intent i m)"
proof (cases "map_of (pending_intents m) i")
  case (Some f)
  let ?m = "m\<lparr>intent_nodes := AList.delete i (intent_nodes m), intent_created_at := AList.delete i (intent_created_at m),
    pending_intents := AList.delete i (pending_intents m)\<rparr>"
  have "quiet m ?m" by (simp add: quiet_same)
  with quiet_settle [of ?m f] Some show ?thesis by (auto simp: drop_intent_def Let_def intro: quiet_trans)
qed (simp add: drop_intent_def quiet_same)

lemma quiet_drop_stale: "quiet m (drop_stale i m)"
  using quiet_drop by (rule quiet_cong) simp

lemma quiet_fold: "(\<And>x m. quiet m (g x m)) \<Longrightarrow> quiet m (fold g xs m)"
  by (induction xs arbitrary: m) (auto simp: quiet_same intro: quiet_trans)

lemma quiet_unregister: "quiet m (unregister_connection n m)"
proof -
  have "quiet m (m\<lparr>connections := AList.delete n (connections m)\<rparr>)" by (simp add: quiet_same)
  moreover have "quiet m' ((\<lambda>(intent_id, nid) m. if nid = n then drop_intent intent_id m else m) x m')" for x m'
    by (auto simp: quiet_drop quiet_same split: prod.split)
  ultimately show ?thesis unfolding unregister_connection_def by (meson quiet_fold quiet_trans)
qed

lemma quiet_send: "quiet m (snd (send_intent_begin now uuid n intent age m))"
  by (auto simp: send_intent_begin_def Let_def quiet_def done_kept_def nth_append less_Suc_eq split: option.split)

lemma quiet_end: "quiet m (snd (send_intent_end i f m))"
  by (rule quiet_cong [OF quiet_settle [of m f]]) (simp add: send_intent_end_def)

lemma quiet_cleanup: "quiet m (snd (cleanup_stale_intents now m))"
  by (simp add: cleanup_stale_intents_def Let_def quiet_fold quiet_drop_stale)

lemma futures_resolve:
  "futures (resolve_intent i r m) ! g =
     (if map_of (pending_intents m) i = Some g \<and> g < length (futures m) \<and> futures m ! g = FPending then FResult r else futures m ! g)"
  by (auto simp: resolve_intent_def Let_def futures_settle split: option.split)

lemma on_intent_result_cases:
  obtains (refused) "snd (on_intent_result tbl n msg m) = m"
  | (accepted) i where "fst (on_intent_result tbl n msg m) = Accepted" "dict_get msg ''intent_id'' (JStr ''?'') = JStr i"
      "map_of (intent_nodes m) i = Some n" "dispatch_matches tbl i (dict_get msg ''dispatch_id'' JNull)"
      "snd (on_intent_result tbl n msg m) = resolve_intent i (JObj msg) m"
proof (cases "fst (check_intent_result tbl n msg m) = Accepted")
  case True
  then obtain i where c: "check_intent_result tbl n msg m = (Accepted, i)" by (metis prod.collapse)
  then have "dict_get msg ''intent_id'' (JStr ''?'') = JStr i" "map_of (intent_nodes m) i = Some n"
    "dispatch_matches tbl i (dict_get msg ''dispatch_id'' JNull)"
    by (auto simp: check_intent_result_def split: json.splits option.splits if_splits)
  with c accepted show ?thesis by (simp add: on_intent_result_def)
next
  case False
  then have "snd (on_intent_result tbl n msg m) = m"
    by (auto simp: on_intent_result_def split: prod.split intent_verdict.split)
  with refused show ?thesis .
qed

lemma done_kept_result: "done_kept m (snd (on_intent_result tbl n msg m))"
  by (rule on_intent_result_cases [of tbl n msg m]) (auto simp: done_kept_def futures_resolve)

lemma done_kept_apply: "done_kept m (registry_apply e m)"
proof (cases "\<exists>tbl n msg. e = EvResult tbl n msg")
  case False
  then have "quiet m (registry_apply e m)"
    by (cases e) (auto simp: quiet_unregister quiet_send quiet_end quiet_cleanup quiet_same)
  then show ?thesis by (simp add: quiet_def)
qed (auto simp: done_kept_result)

lemma done_kept_run: "done_kept m (registry_run es m)"
  unfolding registry_run_def
proof (induction es arbitrary: m)
  case (Cons e es)
  from Cons [of "registry_apply e m"] done_kept_apply [of m e] show ?case by (auto intro: done_kept_trans)
qed (simp add: done_kept_def)

section \<open>Where a result comes from\<close>

definition sent_at :: "registry_event list \<Rightarrow> node_manager \<Rightarrow> nat \<Rightarrow> nat \<Rightarrow> string \<Rightarrow> bool" where
  \<comment> \<open>event \<open>k\<close> sent an intent to the connected node \<open>n\<close> and created the future \<open>f\<close>\<close>
  "sent_at es m k f n \<longleftrightarrow> k < length es \<and>
     (\<exists>now uuid intent age. es ! k = EvSend now uuid n intent age) \<and>
     is_connected n (registry_run (take k es) m) \<and> f = length (futures (registry_run (take k es) m))"

lemma sent_at_snoc: "sent_at es m k f n \<Longrightarrow> sent_at (es @ [e]) m k f n"
  by (auto simp: sent_at_def nth_append)

lemma registry_run_snoc [simp]: "registry_run (es @ [e]) m = registry_apply e (registry_run es m)"
  by (simp add: registry_run_def)

lemma fold_map_le:
  "(\<And>x s. map_of (g (h x s)) \<subseteq>\<^sub>m map_of (g s)) \<Longrightarrow> map_of (g (fold h xs s)) \<subseteq>\<^sub>m map_of (g s)"
  by (induction xs arbitrary: s) (auto intro: map_le_trans)

lemma delete_map_le: "map_of (AList.delete i d) \<subseteq>\<^sub>m map_of d"
  by (simp add: delete_conv' map_le_def)

lemma registry_shrinks:
  assumes "\<forall>now uuid n intent age. e \<noteq> EvSend now uuid n intent age"
  shows "map_of (pending_intents (registry_apply e m)) \<subseteq>\<^sub>m map_of (pending_intents m)"
    and "map_of (intent_nodes (registry_apply e m)) \<subseteq>\<^sub>m map_of (intent_nodes m)"
proof -
  let ?b = "\<lambda>n (i, nid) m. if nid = n then drop_intent i m else m"
  have b: "map_of (pending_intents (fold (?b n) xs s)) \<subseteq>\<^sub>m map_of (pending_intents s)"
    "map_of (intent_nodes (fold (?b n) xs s)) \<subseteq>\<^sub>m map_of (intent_nodes s)" for n xs s
    by (rule fold_map_le, auto simp: delete_map_le split: prod.split)+
  have u: "map_of (pending_intents (unregister_connection n m)) \<subseteq>\<^sub>m map_of (pending_intents m)"
    "map_of (intent_nodes (unregister_connection n m)) \<subseteq>\<^sub>m map_of (intent_nodes m)" for n
    unfolding unregister_connection_def
    using b [of n "intent_nodes m" "m\<lparr>connections := AList.delete n (connections m)\<rparr>"] by simp_all
  have c: "map_of (pending_intents (fold drop_stale xs m)) \<subseteq>\<^sub>m map_of (pending_intents m)"
    "map_of (intent_nodes (fold drop_stale xs m)) \<subseteq>\<^sub>m map_of (intent_nodes m)" for xs
    by (rule fold_map_le; simp add: delete_map_le)+
  have r: "map_of (pending_intents (snd (on_intent_result tbl n msg m))) \<subseteq>\<^sub>m map_of (pending_intents m)"
    "map_of (intent_nodes (snd (on_intent_result tbl n msg m))) \<subseteq>\<^sub>m map_of (intent_nodes m)" for tbl n msg
    by (rule on_intent_result_cases [of tbl n msg m]; simp add: delete_map_le)+
  show "map_of (pending_intents (registry_apply e m)) \<subseteq>\<^sub>m map_of (pending_intents m)"
    and "map_of (intent_nodes (registry_apply e m)) \<subseteq>\<^sub>m map_of (intent_nodes m)"
    using assms u c r by (cases e; simp add: send_intent_end_def cleanup_stale_intents_def Let_def delete_map_le)+
qed

lemma pending_sent:
  assumes "map_of (pending_intents (registry_run es m)) i = Some f" and "map_of (intent_nodes (registry_run es m)) i = Some n"
    and "registry_ok m" and "pending_intents m = []"
  shows "\<exists>k. sent_at es m k f n"
  using assms
proof (induction es arbitrary: i f n rule: rev_induct)
  case (snoc e es)
  let ?m = "registry_run es m"
  show ?case
  proof (cases "\<exists>now uuid n intent age. e = EvSend now uuid n intent age \<and> map_of (connections ?m) n \<noteq> None")
    case True
    then obtain now uuid n' intent age c where e: "e = EvSend now uuid n' intent age" and c: "map_of (connections ?m) n' = Some c" by blast
    show ?thesis
    proof (cases "i = intent_id_of uuid intent")
      case True
      with snoc.prems(1,2) e c have "f = length (futures ?m)" "n = n'"
        by (auto simp: send_intent_begin_def Let_def update_conv' split: option.splits)
      with e c have "sent_at (es @ [e]) m (length es) f n"
        by (simp add: sent_at_def is_connected_def dict_keys_def) (metis map_of_eq_None_iff option.distinct(1))
      then show ?thesis by blast
    next
      case False
      with snoc.prems(1,2) e c have "map_of (pending_intents ?m) i = Some f" "map_of (intent_nodes ?m) i = Some n"
        by (auto simp: send_intent_begin_def Let_def update_conv' split: option.splits)
      with snoc.IH snoc.prems(3,4) sent_at_snoc show ?thesis by blast
    qed
  next
    case False
    have "map_of (pending_intents ?m) i = Some f \<and> map_of (intent_nodes ?m) i = Some n"
    proof (cases "\<exists>now uuid n intent age. e = EvSend now uuid n intent age")
      case True
      with False snoc.prems(1,2) show ?thesis by (auto simp: send_intent_begin_def)
    next
      case no: False
      from registry_shrinks [of e ?m] no snoc.prems(1,2) show ?thesis
        unfolding map_le_def by (metis domI registry_run_snoc)
    qed
    with snoc.IH snoc.prems(3,4) sent_at_snoc show ?thesis by blast
  qed
qed (simp add: registry_run_def)

lemma result_origin:
  assumes "f < length (futures (registry_run es m))" and "futures (registry_run es m) ! f = FResult r"
    and "registry_ok m" and "pending_intents m = []" and "futures m = []"
  shows "\<exists>k j n tbl msg. k < j \<and> j < length es \<and> sent_at es m k f n \<and> es ! j = EvResult tbl n msg \<and> r = JObj msg \<and>
    fst (on_intent_result tbl n msg (registry_run (take j es) m)) = Accepted"
  using assms
proof (induction es rule: rev_induct)
  case (snoc e es)
  let ?m = "registry_run es m"
  show ?case
  proof (cases "f < length (futures ?m) \<and> futures ?m ! f = FResult r")
    case True
    with snoc.IH snoc.prems(3-5) obtain k j n tbl msg where
      "k < j" "j < length es" "sent_at es m k f n" "es ! j = EvResult tbl n msg" "r = JObj msg"
      "fst (on_intent_result tbl n msg (registry_run (take j es) m)) = Accepted" by blast
    then have "k < j \<and> j < length (es @ [e]) \<and> sent_at (es @ [e]) m k f n \<and> (es @ [e]) ! j = EvResult tbl n msg \<and> r = JObj msg \<and>
      fst (on_intent_result tbl n msg (registry_run (take j (es @ [e])) m)) = Accepted"
      by (simp add: sent_at_snoc nth_append)
    then show ?thesis by blast
  next
    case False
    with snoc.prems(1,2) have "\<not> quiet ?m (registry_apply e ?m)" by (auto simp: quiet_def)
    then obtain tbl n msg where e: "e = EvResult tbl n msg"
      by (cases e) (auto simp: quiet_unregister quiet_send quiet_end quiet_cleanup quiet_same)
    show ?thesis
    proof (rule on_intent_result_cases [of tbl n msg ?m])
      assume "snd (on_intent_result tbl n msg ?m) = ?m"
      with False snoc.prems(1,2) e show ?thesis by simp
    next
      fix i
      assume acc: "fst (on_intent_result tbl n msg ?m) = Accepted" and n: "map_of (intent_nodes ?m) i = Some n"
        and res: "snd (on_intent_result tbl n msg ?m) = resolve_intent i (JObj msg) ?m"
      have f: "map_of (pending_intents ?m) i = Some f" "r = JObj msg"
        using snoc.prems(1,2) False by (auto simp: e res futures_resolve split: if_splits)
      from pending_sent [OF f(1) n snoc.prems(3,4)] obtain k where k: "sent_at es m k f n" by blast
      then have "k < length es" by (simp add: sent_at_def)
      with k acc e f(2) have "k < length es \<and> length es < length (es @ [e]) \<and> sent_at (es @ [e]) m k f n \<and>
        (es @ [e]) ! length es = EvResult tbl n msg \<and> r = JObj msg \<and>
        fst (on_intent_result tbl n msg (registry_run (take (length es) (es @ [e])) m)) = Accepted"
        by (simp add: sent_at_snoc)
      then show ?thesis by blast
    qed
  qed
qed (simp add: registry_run_def)

section \<open>Releasing the senders\<close>

lemma drop_intent_done:
  assumes "registry_ok m" and "map_of (pending_intents m) i = Some f"
  shows "fut_done (drop_intent i m) f"
proof -
  have "f < length (futures m)" using assms by (auto simp: registry_ok_def)
  with assms(2) show ?thesis by (auto simp: drop_intent_def Let_def fut_done_def futures_settle)
qed

lemma drop_intent_other:
  assumes "registry_ok m" and "map_of (pending_intents m) j = Some f" and "i \<noteq> j"
  shows "futures (drop_intent i m) ! f = futures m ! f"
proof (cases "map_of (pending_intents m) i")
  case (Some g)
  with assms have "g \<noteq> f" by (auto simp: registry_ok_def)
  with Some show ?thesis by (simp add: drop_intent_def Let_def futures_settle)
qed (simp add: drop_intent_def)

lemma fut_done_kept: "done_kept m m' \<Longrightarrow> fut_done m f \<Longrightarrow> fut_done m' f"
  by (auto simp: done_kept_def fut_done_def)

text \<open>What a loop that drops intents does to each of them, whichever loop it is.\<close>

locale intent_dropper =
  fixes d :: "string \<Rightarrow> node_manager \<Rightarrow> node_manager"
  assumes d_pending: "pending_intents (d i m) = AList.delete i (pending_intents m)"
    and d_futures: "futures (d i m) = futures (drop_intent i m)"
    and d_ok: "registry_ok m \<Longrightarrow> registry_ok (d i m)"
begin

lemma d_done_kept: "done_kept m (fold d xs m)"
proof -
  have "quiet m (d x m)" for x m by (rule quiet_cong [OF quiet_drop d_futures])
  then show ?thesis using quiet_fold [of d m xs] by (simp add: quiet_def)
qed

lemma pending_gone: "map_of (pending_intents m) i = None \<Longrightarrow> map_of (pending_intents (fold d xs m)) i = None"
  by (induction xs arbitrary: m) (auto simp: d_pending delete_conv')

lemma dropped:
  assumes "registry_ok m" and "map_of (pending_intents m) i = Some f" and "i \<in> set xs"
  shows "map_of (pending_intents (fold d xs m)) i = None \<and> fut_done (fold d xs m) f"
  using assms
proof (induction xs arbitrary: m)
  case (Cons x xs)
  show ?case
  proof (cases "x = i")
    case True
    have "fut_done (d i m) f"
      using drop_intent_done [OF Cons.prems(1,2)] by (simp add: fut_done_def d_futures)
    moreover have "map_of (pending_intents (d i m)) i = None" by (simp add: d_pending delete_conv')
    ultimately show ?thesis using True pending_gone fut_done_kept [OF d_done_kept] by simp
  next
    case False
    with Cons.prems have "map_of (pending_intents (d x m)) i = Some f" "i \<in> set xs" by (simp_all add: d_pending delete_conv')
    with Cons.IH [OF d_ok [OF Cons.prems(1)]] show ?thesis by simp
  qed
qed simp

lemma kept:
  assumes "registry_ok m" and "map_of (pending_intents m) i = Some f" and "i \<notin> set xs"
  shows "map_of (pending_intents (fold d xs m)) i = Some f \<and> futures (fold d xs m) ! f = futures m ! f"
  using assms
proof (induction xs arbitrary: m)
  case (Cons x xs)
  then have "map_of (pending_intents (d x m)) i = Some f" "futures (d x m) ! f = futures m ! f"
    using drop_intent_other [OF Cons.prems(1,2), of x] by (auto simp: d_pending d_futures delete_conv')
  with Cons.IH [OF d_ok [OF Cons.prems(1)]] Cons.prems(3) show ?case by simp
qed simp

end

interpretation on_disconnect: intent_dropper drop_intent
  by unfold_locales (simp_all add: registry_ok_drop)

interpretation on_cleanup: intent_dropper drop_stale
  by unfold_locales (simp_all add: registry_ok_drop_stale)

lemma unregister_fold:
  "unregister_connection n m =
     fold drop_intent (map fst (filter (\<lambda>(i, nid). nid = n) (intent_nodes m))) (m\<lparr>connections := AList.delete n (connections m)\<rparr>)"
proof -
  have "fold (\<lambda>(i, nid) m. if nid = n then drop_intent i m else m) xs s = fold drop_intent (map fst (filter (\<lambda>(i, nid). nid = n) xs)) s" for xs s
    by (induction xs arbitrary: s) auto
  then show ?thesis by (simp add: unregister_connection_def)
qed

lemma unregister_releases:
  assumes "registry_ok m" and "map_of (pending_intents m) i = Some f" and "map_of (intent_nodes m) i = Some n"
  shows "map_of (pending_intents (unregister_connection n m)) i = None \<and> fut_done (unregister_connection n m) f"
proof -
  let ?m = "m\<lparr>connections := AList.delete n (connections m)\<rparr>"
  have "i \<in> set (map fst (filter (\<lambda>(i, nid). nid = n) (intent_nodes m)))"
    using map_of_SomeD [OF assms(3)] by force
  moreover have "registry_ok ?m" using assms(1) by (simp add: registry_ok_def)
  ultimately show ?thesis
    unfolding unregister_fold using assms(2) by (intro on_disconnect.dropped) simp_all
qed

lemma cleanup_result:
  assumes "registry_ok m" and "map_of (pending_intents m) i = Some f"
  shows "if stale_intent now m (i, f)
    then map_of (pending_intents (snd (cleanup_stale_intents now m))) i = None \<and> fut_done (snd (cleanup_stale_intents now m)) f
    else map_of (pending_intents (snd (cleanup_stale_intents now m))) i = Some f \<and>
      futures (snd (cleanup_stale_intents now m)) ! f = FPending"
proof -
  let ?xs = "map fst (filter (stale_intent now m) (pending_intents m))"
  have c: "snd (cleanup_stale_intents now m) = fold drop_stale ?xs m" by (simp add: cleanup_stale_intents_def Let_def)
  have wf: "distinct (map fst (pending_intents m))" and f: "f < length (futures m)" using assms by (auto simp: registry_ok_def dict_wf_def)
  have in_xs: "i \<in> set ?xs \<longleftrightarrow> stale_intent now m (i, f)"
  proof
    assume "i \<in> set ?xs"
    then obtain g where "(i, g) \<in> set (pending_intents m)" "stale_intent now m (i, g)" by auto
    with map_of_is_SomeI [OF wf] assms(2) show "stale_intent now m (i, f)" by fastforce
  qed (use map_of_SomeD [OF assms(2)] in force)
  show ?thesis
  proof (cases "stale_intent now m (i, f)")
    case True
    with on_cleanup.dropped [OF assms] in_xs c show ?thesis by simp
  next
    case False
    then have "futures m ! f = FPending" using f by (simp add: stale_intent_def fut_done_def)
    with on_cleanup.kept [OF assms] in_xs c False show ?thesis by simp
  qed
qed

section \<open>Properties\<close>

text \<open>
  C6. A result reaches a sender only from the node it addressed. In every run of the
  registry (connections opened, replaced and closed, intents sent, results received,
  waits ended, stale intents removed, in any order), when a sender's future holds a
  result, an earlier event sent that intent to a connected node, and a later message of
  the same node carried exactly this result and passed the checks.
\<close>

theorem intent_result_from_target:
  assumes "f < length (futures (registry_run es (init_node_manager t)))"
    and "futures (registry_run es (init_node_manager t)) ! f = FResult r"
  shows "\<exists>k j n tbl msg. k < j \<and> j < length es \<and> sent_at es (init_node_manager t) k f n \<and> es ! j = EvResult tbl n msg \<and> r = JObj msg \<and>
    fst (on_intent_result tbl n msg (registry_run (take j es) (init_node_manager t))) = Accepted"
  by (rule result_origin [OF assms registry_ok_init]) (simp_all add: init_node_manager_def)

text \<open>
  C20. Stale intents are released. The periodic clean-up, in any reachable state, ends
  the wait of every sender whose intent is older than its maximum age and removes the
  intent, removes the intents that are already answered or cancelled, and leaves every
  other pending intent and its future as they were.
\<close>

theorem stale_intents_released:
  assumes "m = registry_run es (init_node_manager t)" and "map_of (pending_intents m) i = Some f"
    and "m' = snd (cleanup_stale_intents now m)"
  shows "if fut_done m f \<or> dict_get (intent_max_age m) i (default_intent_max_age m) < now - dict_get (intent_created_at m) i now
    then map_of (pending_intents m') i = None \<and> fut_done m' f
    else map_of (pending_intents m') i = Some f \<and> futures m' ! f = FPending"
  using cleanup_result [OF registry_ok_run [OF registry_ok_init, of es t], of i f now] assms
  by (simp add: stale_intent_def)

definition sample_run :: "registry_event list" where
  "sample_run = [EvRegister 0 ''n1'' 7, EvSend 1 ''u1'' ''n1'' [(''action'', JStr ''PING'')] None,
     EvSend 2 ''u2'' ''n1'' [(''action'', JStr ''PING'')] (Some 1000), EvResult [] ''n1'' [(''intent_id'', JStr ''u2'')]]"

theorem intent_result_from_target_witness:
  "\<exists>k n. sent_at sample_run (init_node_manager None) k 1 n"
proof -
  have "1 < length (futures (registry_run sample_run (init_node_manager None)))"
    "futures (registry_run sample_run (init_node_manager None)) ! 1 = FResult (JObj [(''intent_id'', JStr ''u2'')])"
    by code_simp+
  from intent_result_from_target [OF this] show ?thesis by blast
qed

theorem stale_intents_released_witness:
  "fut_done (snd (cleanup_stale_intents 302 (registry_run sample_run (init_node_manager None)))) 0"
proof -
  let ?m = "registry_run sample_run (init_node_manager None)"
  have "map_of (pending_intents ?m) ''u1'' = Some 0"
    "dict_get (intent_max_age ?m) ''u1'' (default_intent_max_age ?m) < 302 - dict_get (intent_created_at ?m) ''u1'' 302" by code_simp+
  with stale_intents_released [OF refl this(1) refl, of 302] show ?thesis by simp
qed

end
