(* ===== verification/Node_Manager.thy ===== *)
theory Node_Manager
  imports Intent_Registry Audit_Chain Security_Tokens Enums
begin

text \<open>
  The lifecycle of the worker nodes (\<open>src/master/core/node_manager.py\<close>, tables of
  \<open>src/master/db/models.py\<close>): the validated state transitions, creation, deletion,
  configuration, disabling, metadata, the heartbeat pass, the queries. A row of the
  \<open>nodes\<close> table is a dictionary from column names to SQL values, because
  \<open>transition_state\<close> writes the columns its caller names.

  The state-change callbacks run as background tasks and only the published events are
  recorded. The audit log is written without concurrent writers here.
\<close>

section \<open>Tables\<close>

datatype sqlval = SqlNull | SqlText string | SqlReal rat | SqlInt int

type_synonym node_row = "(string, sqlval) dict"

record join_token_row =
  jt_id :: string
  jt_node_id :: string
  jt_token_hash :: string
  jt_payload_b64 :: string
  jt_consumed :: bool
  jt_expires_at :: time
  jt_created_at :: time

record node_event =
  ne_topic :: string
  ne_node_id :: string
  ne_from :: sqlval
  ne_new :: string
  ne_ts :: time

record node_store =
  nodes :: "node_row list"
  join_tokens :: "join_token_row list"
  worker_tokens :: "worker_token_row list"
  node_audit :: audit_table
  node_events :: "node_event list"

record node_io =
  ni_now :: time
  ni_log_now :: time
  ni_log_uuid :: string
  ni_repr :: "time \<Rightarrow> string"

definition col :: "node_row \<Rightarrow> string \<Rightarrow> sqlval" where
  "col r k = dict_get r k SqlNull"

definition NODES_NOT_NULL :: "string list" where
  "NODES_NOT_NULL = [''name'', ''state'', ''created_at'', ''updated_at'', ''disabled'']"

definition nodes_defaults :: node_row where
  \<comment> \<open>the \<open>DEFAULT\<close> clauses that are not \<open>NULL\<close>\<close>
  "nodes_defaults = [(''state'', SqlText ''PENDING''), (''node_group'', SqlText []), (''disabled'', SqlInt 0)]"

definition dict_merge :: "('k, 'v) dict \<Rightarrow> ('k, 'v) dict \<Rightarrow> ('k, 'v) dict" where
  \<comment> \<open>\<open>dict.update\<close>\<close>
  "dict_merge d e = fold (\<lambda>(k, v). AList.update k v) e d"

primrec node_state_str :: "node_state \<Rightarrow> string" where
  "node_state_str NS_PENDING = ''PENDING''"
| "node_state_str NS_ENROLLING = ''ENROLLING''"
| "node_state_str NS_UNCONFIGURED = ''UNCONFIGURED''"
| "node_state_str NS_CONNECTED = ''CONNECTED''"
| "node_state_str NS_RECONNECTING = ''RECONNECTING''"
| "node_state_str NS_LOST = ''LOST''"
| "node_state_str NS_STALE = ''STALE''"
| "node_state_str NS_DISABLED = ''DISABLED''"
| "node_state_str NS_REVOKED = ''REVOKED''"

definition NODE_STATES :: "node_state list" where
  "NODE_STATES = [NS_PENDING, NS_ENROLLING, NS_UNCONFIGURED, NS_CONNECTED, NS_RECONNECTING, NS_LOST, NS_STALE, NS_DISABLED, NS_REVOKED]"

definition node_state_of :: "sqlval \<Rightarrow> node_state option" where
  \<comment> \<open>\<open>NodeState(value)\<close>\<close>
  "node_state_of v = List.find (\<lambda>s. v = SqlText (node_state_str s)) NODE_STATES"

definition VALID_TRANSITIONS :: "(node_state \<times> node_state) list" where
  "VALID_TRANSITIONS =
     [(NS_PENDING, NS_ENROLLING), (NS_ENROLLING, NS_UNCONFIGURED), (NS_ENROLLING, NS_CONNECTED), (NS_ENROLLING, NS_PENDING),
      (NS_UNCONFIGURED, NS_CONNECTED), (NS_UNCONFIGURED, NS_DISABLED),
      (NS_CONNECTED, NS_LOST), (NS_CONNECTED, NS_RECONNECTING), (NS_CONNECTED, NS_DISABLED),
      (NS_RECONNECTING, NS_CONNECTED), (NS_RECONNECTING, NS_LOST),
      (NS_LOST, NS_CONNECTED), (NS_LOST, NS_STALE), (NS_LOST, NS_ENROLLING),
      (NS_STALE, NS_CONNECTED), (NS_STALE, NS_ENROLLING), (NS_RECONNECTING, NS_ENROLLING),
      (NS_DISABLED, NS_CONNECTED), (NS_DISABLED, NS_LOST), (NS_DISABLED, NS_ENROLLING)]"

definition VALID_NODE_FIELDS :: "string list" where
  "VALID_NODE_FIELDS =
     [''state'', ''hostname'', ''machine_id'', ''arch'', ''os'', ''public_key'', ''ip_prefix'', ''last_heartbeat'',
      ''enrolled_at'', ''name'', ''node_group'', ''disabled'', ''last_ip'']"

definition PATCH_METADATA_FIELDS :: "string list" where
  "PATCH_METADATA_FIELDS = [''updated_at'', ''name'', ''node_group'']"

section \<open>Operations\<close>

datatype node_error =
    NodeNotFound string
  | BadNodeState sqlval
  | InvalidTransition node_state node_state
  | InvalidNodeField string
  | NodeIntegrity
  | NodeAudit audit_error

definition find_node :: "string \<Rightarrow> node_store \<Rightarrow> node_row option" where
  "find_node node_id db = sql_fetchone (\<lambda>r. col r ''id'' = SqlText node_id) (nodes db)"

definition update_node :: "string \<Rightarrow> node_row \<Rightarrow> node_store \<Rightarrow> node_store option" where
  \<comment> \<open>\<open>UPDATE nodes SET columns WHERE id = ?\<close>; \<open>None\<close> is a violated \<open>NOT NULL\<close>\<close>
  "update_node node_id columns db =
     (if find_node node_id db \<noteq> None \<and> (\<exists>(k, v) \<in> set columns. v = SqlNull \<and> k \<in> set NODES_NOT_NULL) then None
      else Some (db\<lparr>nodes := sql_update (\<lambda>r. col r ''id'' = SqlText node_id) (\<lambda>r. dict_merge r columns) (nodes db)\<rparr>))"

definition insert_node :: "node_row \<Rightarrow> node_store \<Rightarrow> node_store option" where
  "insert_node columns db =
     (let row = dict_merge nodes_defaults columns in
      if (\<exists>r \<in> set (nodes db). col r ''id'' = col row ''id'') \<or> (\<exists>k \<in> set NODES_NOT_NULL. col row k = SqlNull) then None
      else Some (db\<lparr>nodes := nodes db @ [row]\<rparr>))"

definition node_log :: "hash \<Rightarrow> node_io \<Rightarrow> string \<Rightarrow> audit_action \<Rightarrow> string option \<Rightarrow> (string, json) dict \<Rightarrow> node_store \<Rightarrow> (node_error + unit) \<times> node_store" where
  "node_log H io user action node_id details db =
     (case log_action H \<lparr>ar_user_id = user, ar_action = audit_action_str action, ar_node_id = node_id,
          ar_details = JObj details, ar_now = ni_log_now io, ar_uuid = ni_log_uuid io\<rparr> [] (node_audit db) of
        (Inl e, _) \<Rightarrow> (Inl (NodeAudit e), db)
      | (Inr _, t) \<Rightarrow> (Inr (), db\<lparr>node_audit := t\<rparr>))"

definition publish :: "string \<Rightarrow> string \<Rightarrow> sqlval \<Rightarrow> string \<Rightarrow> time \<Rightarrow> node_store \<Rightarrow> node_store" where
  "publish topic node_id from new ts db =
     db\<lparr>node_events := node_events db @ [\<lparr>ne_topic = topic, ne_node_id = node_id, ne_from = from, ne_new = new, ne_ts = ts\<rparr>]\<rparr>"

definition create_node :: "time \<Rightarrow> string \<Rightarrow> string \<Rightarrow> string \<Rightarrow> string \<Rightarrow> node_store \<Rightarrow> (node_error + string) \<times> node_store" where
  "create_node now uuid name ip_prefix grp db =
     (case insert_node [(''id'', SqlText uuid), (''name'', SqlText name), (''ip_prefix'', SqlText ip_prefix),
          (''node_group'', SqlText grp), (''state'', SqlText (node_state_str NS_PENDING)),
          (''created_at'', SqlReal now), (''updated_at'', SqlReal now)] db of
        None \<Rightarrow> (Inl NodeIntegrity, db)
      | Some db1 \<Rightarrow> (Inr uuid, db1))"

definition transition_state ::
  "time \<Rightarrow> string \<Rightarrow> node_state \<Rightarrow> node_row \<Rightarrow> node_store \<Rightarrow> (node_error + unit) \<times> node_store" where
  "transition_state now node_id new_state extra_fields db =
     (case find_node node_id db of
        None \<Rightarrow> (Inl (NodeNotFound node_id), db)
      | Some row \<Rightarrow>
          (case node_state_of (col row ''state'') of
             None \<Rightarrow> (Inl (BadNodeState (col row ''state'')), db)
           | Some current_state \<Rightarrow>
               if (current_state, new_state) \<notin> set VALID_TRANSITIONS then (Inl (InvalidTransition current_state new_state), db)
               else
                 (case List.find (\<lambda>k. k \<notin> set VALID_NODE_FIELDS) (dict_keys extra_fields) of
                    Some k \<Rightarrow> (Inl (InvalidNodeField k), db)
                  | None \<Rightarrow>
                      (case update_node node_id
                          (dict_merge [(''state'', SqlText (node_state_str new_state)), (''updated_at'', SqlReal now)] extra_fields) db of
                         None \<Rightarrow> (Inl NodeIntegrity, db)
                       | Some db1 \<Rightarrow>
                           (Inr (), publish ''node.state'' node_id (SqlText (node_state_str current_state)) (node_state_str new_state) now db1)))))"

definition cascade_node :: "string \<Rightarrow> node_store \<Rightarrow> node_store" where
  \<comment> \<open>\<open>DELETE FROM nodes\<close> with the foreign key of \<open>worker_tokens\<close>; \<open>join_tokens\<close> has none\<close>
  "cascade_node node_id db =
     db\<lparr>nodes := filter (\<lambda>r. col r ''id'' \<noteq> SqlText node_id) (nodes db),
        worker_tokens := filter (\<lambda>t. wt_node_id t \<noteq> node_id) (worker_tokens db)\<rparr>"

definition sql_json :: "sqlval \<Rightarrow> json" where
  \<comment> \<open>the value as it is written into an audit detail; the columns used here hold text\<close>
  "sql_json v = (case v of SqlText s \<Rightarrow> JStr s | SqlInt i \<Rightarrow> JInt i | _ \<Rightarrow> JNull)"

definition pop_connection :: "string \<Rightarrow> nat \<Rightarrow> node_manager \<Rightarrow> node_manager" where
  \<comment> \<open>\<open>_connections.pop(node_id, None)\<close> and the closing of the socket\<close>
  "pop_connection node_id code m =
     close_socket (map_of (connections m) node_id) code (m\<lparr>connections := AList.delete node_id (connections m)\<rparr>)"

definition delete_node ::
  "hash \<Rightarrow> node_io \<Rightarrow> string \<Rightarrow> string \<Rightarrow> node_manager \<Rightarrow> node_store \<Rightarrow> (node_error + node_row option) \<times> node_manager \<times> node_store" where
  "delete_node H io node_id deleted_by m db =
     (case find_node node_id db of
        None \<Rightarrow> (Inr None, m, db)
      | Some row \<Rightarrow>
          (case node_log H io deleted_by AA_NODE_DELETED (Some node_id)
              [(''previous_state'', sql_json (col row ''state'')), (''previous_name'', sql_json (col row ''name'')),
               (''previous_hostname'', sql_json (col row ''hostname''))] db of
             (Inl e, _) \<Rightarrow> (Inl e, m, db)
           | (Inr _, db1) \<Rightarrow>
               (Inr (Some [(''id'', SqlText node_id), (''state'', col row ''state''), (''name'', col row ''name''), (''hostname'', col row ''hostname'')]),
                pop_connection node_id 4403 m,
                publish ''node.deleted'' node_id (col row ''state'') [] (ni_now io) (cascade_node node_id db1))))"

definition configure_node :: "hash \<Rightarrow> node_io \<Rightarrow> string \<Rightarrow> string \<Rightarrow> string option \<Rightarrow> node_store \<Rightarrow> (node_error + unit) \<times> node_store" where
  "configure_node H io node_id name grp db =
     (let g = (case grp of None \<Rightarrow> [] | Some s \<Rightarrow> s) in
      case transition_state (ni_now io) node_id NS_CONNECTED [(''name'', SqlText name), (''node_group'', SqlText g)] db of
        (Inl e, db1) \<Rightarrow> (Inl e, db1)
      | (Inr _, db1) \<Rightarrow> node_log H io ''system'' AA_CONFIGURE_NODE (Some node_id) [(''name'', JStr name), (''group'', JStr g)] db1)"

definition sql_truthy :: "sqlval \<Rightarrow> bool" where
  "sql_truthy v = (case v of SqlNull \<Rightarrow> False | SqlText s \<Rightarrow> s \<noteq> [] | SqlReal x \<Rightarrow> x \<noteq> 0 | SqlInt i \<Rightarrow> i \<noteq> 0)"

definition disable_target :: "bool \<Rightarrow> node_state \<Rightarrow> bool \<Rightarrow> node_state option" where
  "disable_target disabled current alive =
     (if disabled \<and> current \<noteq> NS_DISABLED then Some NS_DISABLED
      else if \<not> disabled \<and> current = NS_DISABLED then Some (if alive then NS_CONNECTED else NS_LOST)
      else None)"

definition finish_disable ::
  "hash \<Rightarrow> node_io \<Rightarrow> string \<Rightarrow> bool \<Rightarrow> string \<Rightarrow> node_state \<Rightarrow> node_manager \<Rightarrow> node_store \<Rightarrow> (node_error + unit) \<times> node_manager \<times> node_store" where
  \<comment> \<open>\<open>set_disabled\<close> after the flag is committed\<close>
  "finish_disable H io node_id disabled by_user current m db =
     (let target = disable_target disabled current (is_connected node_id m);
          (res, db2) = (case target of None \<Rightarrow> (Inr (), db) | Some t \<Rightarrow> transition_state (ni_now io) node_id t [] db)
      in case res of
           Inl e \<Rightarrow> (Inl e, m, db2)
         | Inr _ \<Rightarrow>
             (let (r, db3) = node_log H io by_user (if disabled then AA_DISABLE_NODE else AA_ENABLE_NODE) (Some node_id)
                    [(''from_state'', JStr (node_state_str current)),
                     (''new_state'', JStr (node_state_str (case target of None \<Rightarrow> current | Some t \<Rightarrow> t)))] db2
              in (r, if disabled then pop_connection node_id 4429 m else m, db3)))"

definition set_disabled ::
  "hash \<Rightarrow> node_io \<Rightarrow> string \<Rightarrow> bool \<Rightarrow> string \<Rightarrow> node_manager \<Rightarrow> node_store \<Rightarrow> (node_error + unit) \<times> node_manager \<times> node_store" where
  "set_disabled H io node_id disabled by_user m db =
     (case find_node node_id db of
        None \<Rightarrow> (Inl (NodeNotFound node_id), m, db)
      | Some row \<Rightarrow>
          (case node_state_of (col row ''state'') of
             None \<Rightarrow> (Inl (BadNodeState (col row ''state'')), m, db)
           | Some current \<Rightarrow>
               if disabled = sql_truthy (col row ''disabled'') then (Inr (), m, db)
               else
                 (case update_node node_id [(''disabled'', SqlInt (if disabled then 1 else 0)), (''updated_at'', SqlReal (ni_now io))] db of
                    None \<Rightarrow> (Inl NodeIntegrity, m, db)
                  | Some db1 \<Rightarrow> finish_disable H io node_id disabled by_user current m db1)))"

definition patch_columns :: "time \<Rightarrow> string option \<Rightarrow> string option \<Rightarrow> node_row" where
  "patch_columns now name grp = [(''updated_at'', SqlReal now)] @
     (case name of None \<Rightarrow> [] | Some s \<Rightarrow> [(''name'', SqlText s)]) @ (case grp of None \<Rightarrow> [] | Some s \<Rightarrow> [(''node_group'', SqlText s)])"

definition patch_details :: "string option \<Rightarrow> string option \<Rightarrow> (string, json) dict" where
  "patch_details name grp =
     (case name of None \<Rightarrow> [] | Some s \<Rightarrow> [(''name'', JStr s)]) @ (case grp of None \<Rightarrow> [] | Some s \<Rightarrow> [(''group'', JStr s)])"

definition patch_metadata ::
  "hash \<Rightarrow> node_io \<Rightarrow> string \<Rightarrow> string option \<Rightarrow> string option \<Rightarrow> string \<Rightarrow> node_store \<Rightarrow> (node_error + unit) \<times> node_store" where
  "patch_metadata H io node_id name grp by_user db =
     (let columns = patch_columns (ni_now io) name grp in
      if length columns = 1 then (Inr (), db)
      else
        (case List.find (\<lambda>k. k \<notin> set PATCH_METADATA_FIELDS) (dict_keys columns) of
           Some k \<Rightarrow> (Inl (InvalidNodeField k), db)
         | None \<Rightarrow>
             (case node_log H io by_user AA_UPDATE_NODE (Some node_id) (patch_details name grp) db of
                (Inl e, db1) \<Rightarrow> (Inl e, db1)
              | (Inr _, db1) \<Rightarrow>
                  (case update_node node_id columns db1 of None \<Rightarrow> (Inl NodeIntegrity, db1) | Some db2 \<Rightarrow> (Inr (), db2)))))"

definition invalidate_join_tokens :: "time \<Rightarrow> string \<Rightarrow> node_store \<Rightarrow> nat \<times> node_store" where
  "invalidate_join_tokens now node_id db =
     (let ids = map jt_id (filter (\<lambda>t. jt_node_id t = node_id \<and> \<not> jt_consumed t) (join_tokens db))
      in if ids = [] then (0, db)
         else (length ids, db\<lparr>join_tokens := sql_update (\<lambda>t. jt_id t \<in> set ids)
           (\<lambda>t. t\<lparr>jt_consumed := True, jt_expires_at := now\<rparr>) (join_tokens db)\<rparr>))"

definition is_disabled :: "string \<Rightarrow> node_store \<Rightarrow> bool" where
  "is_disabled node_id db = (case find_node node_id db of None \<Rightarrow> False | Some r \<Rightarrow> sql_truthy (col r ''disabled''))"

definition lockdown :: "hash \<Rightarrow> node_io \<Rightarrow> node_manager \<Rightarrow> node_store \<Rightarrow> node_manager \<times> node_store" where
  "lockdown H io m db =
     (fold (\<lambda>(n, c). close_socket (Some c) 4433) (connections m) (m\<lparr>connections := []\<rparr>),
      snd (node_log H io ''system'' AA_LOCKDOWN None [(''connections_closed'', JInt (int (length (connections m))))] db))"

section \<open>The heartbeat pass\<close>

definition mark_lost ::
  "hash \<Rightarrow> node_io \<Rightarrow> time \<Rightarrow> string \<times> connection \<Rightarrow> node_manager \<times> node_store \<Rightarrow> node_manager \<times> node_store" where
  \<comment> \<open>the body of the first loop; an exception of the transition or of the audit log is only logged\<close>
  "mark_lost H io lost_threshold = (\<lambda>(node_id, conn) (m, db).
     (let age = heartbeat_age (ni_now io) conn in
      if lost_threshold < age then
        (unregister_connection node_id m,
         (case transition_state (ni_now io) node_id NS_LOST [] db of
            (Inl e, db1) \<Rightarrow> db1
          | (Inr _, db1) \<Rightarrow>
              snd (node_log H io ''system'' AA_NODE_LOST (Some node_id)
                [(''heartbeat_age'', JFloat (ni_repr io age)), (''lost_threshold'', JFloat (ni_repr io lost_threshold))] db1)))
      else (m, db)))"

definition sql_time :: "sqlval \<Rightarrow> time" where
  \<comment> \<open>\<open>value or 0\<close> of a \<open>REAL\<close> column\<close>
  "sql_time v = (case v of SqlReal x \<Rightarrow> x | SqlInt i \<Rightarrow> of_int i | _ \<Rightarrow> 0)"

definition row_id :: "node_row \<Rightarrow> string" where
  "row_id r = (case col r ''id'' of SqlText s \<Rightarrow> s | _ \<Rightarrow> [])"

definition mark_stale :: "hash \<Rightarrow> node_io \<Rightarrow> time \<Rightarrow> node_row \<Rightarrow> node_store \<Rightarrow> node_store" where
  "mark_stale H io stale_threshold row db =
     (let age = ni_now io - sql_time (col row ''last_heartbeat'') in
      if stale_threshold < age then
        (case transition_state (ni_now io) (row_id row) NS_STALE [] db of
           (Inl e, db1) \<Rightarrow> db1
         | (Inr _, db1) \<Rightarrow>
             snd (node_log H io ''system'' AA_NODE_STALE (Some (row_id row))
               [(''heartbeat_age'', JFloat (ni_repr io age)), (''stale_threshold'', JFloat (ni_repr io stale_threshold))] db1))
      else db)"

definition lost_rows :: "node_store \<Rightarrow> node_row list" where
  "lost_rows db = filter (\<lambda>r. col r ''state'' = SqlText (node_state_str NS_LOST) \<and> col r ''last_heartbeat'' \<noteq> SqlNull) (nodes db)"

definition check_heartbeats ::
  "hash \<Rightarrow> (string \<Rightarrow> node_io) \<Rightarrow> time \<Rightarrow> time \<Rightarrow> node_manager \<times> node_store \<Rightarrow> node_manager \<times> node_store" where
  \<comment> \<open>\<open>ios\<close> gives the clock and the identifiers used for each node; the query's rows are read before the loop changes them\<close>
  "check_heartbeats H ios lost_threshold stale_threshold s =
     (let (m, db) = fold (\<lambda>(n, c). mark_lost H (ios n) lost_threshold (n, c)) (connections (fst s)) s
      in (m, fold (\<lambda>r. mark_stale H (ios (row_id r)) stale_threshold r) (lost_rows db) db))"

section \<open>Queries\<close>

definition with_online :: "node_manager \<Rightarrow> node_row \<Rightarrow> node_row \<times> bool" where
  "with_online m r = (r, is_connected (row_id r) m)"

definition get_node :: "string \<Rightarrow> node_manager \<Rightarrow> node_store \<Rightarrow> (node_row \<times> bool) option" where
  "get_node node_id m db =
     (case find_node node_id db of None \<Rightarrow> None | Some r \<Rightarrow> Some (r, is_connected node_id m))"

definition list_nodes ::
  "string \<Rightarrow> nat option \<Rightarrow> nat option \<Rightarrow> bool \<Rightarrow> node_manager \<Rightarrow> node_store \<Rightarrow> (node_row \<times> bool) list option" where
  \<comment> \<open>\<open>None\<close> is the syntax error of \<open>OFFSET\<close> without \<open>LIMIT\<close>; an empty \<open>state\<close> is no filter\<close>
  "list_nodes state limit offset include_revoked m db =
     (let rows = filter (\<lambda>r. (state = [] \<or> col r ''state'' = SqlText state) \<and>
              (include_revoked \<or> col r ''state'' \<noteq> SqlText (node_state_str NS_REVOKED))) (nodes db);
          sorted = rev (sort_key (\<lambda>r. sql_time (col r ''created_at'')) (rev rows))
      in case (limit, offset) of
           (None, Some k) \<Rightarrow> None
         | (None, None) \<Rightarrow> Some (map (with_online m) sorted)
         | (Some n, None) \<Rightarrow> Some (map (with_online m) (take n sorted))
         | (Some n, Some k) \<Rightarrow> Some (map (with_online m) (take n (drop k sorted))))"

section \<open>Re-profiling and disk scans\<close>

definition check_cpu_drift :: "rat list \<Rightarrow> bool" where
  \<comment> \<open>the last twenty readings, newest first\<close>
  "check_cpu_drift rows =
     (let rs = take 20 rows in
      if length rs < 20 then False
      else 30 < \<bar>sum_list (take 10 rs) / 10 - sum_list (drop 10 rs) / 10\<bar>)"

definition profile_expired :: "time \<Rightarrow> sqlval \<Rightarrow> bool" where
  "profile_expired now generated_at \<longleftrightarrow> 86400 < now - sql_time generated_at"

definition needs_profile :: "time \<Rightarrow> string \<Rightarrow> sqlval \<Rightarrow> rat list \<Rightarrow> node_manager \<Rightarrow> bool \<times> node_manager" where
  \<comment> \<open>the test of new containers runs only when the profile is both expired and not expired\<close>
  "needs_profile now nid generated_at cpu m =
     (let expired = profile_expired now generated_at;
          drift = 3600 < now - dict_get (last_drift_trigger m) nid 0 \<and> check_cpu_drift cpu
      in (expired \<or> drift, if drift then m\<lparr>last_drift_trigger := AList.update nid now (last_drift_trigger m)\<rparr> else m))"

definition scan_begin :: "string \<Rightarrow> node_manager \<Rightarrow> bool \<times> node_manager" where
  \<comment> \<open>the guard of \<open>trigger_disk_scan\<close>\<close>
  "scan_begin node_id m =
     (if node_id \<in> set (disk_scan_inflight m) \<or> \<not> is_connected node_id m then (False, m)
      else (True, m\<lparr>disk_scan_inflight := disk_scan_inflight m @ [node_id]\<rparr>))"

definition scan_due :: "(string \<Rightarrow> nat) \<Rightarrow> time \<Rightarrow> bool \<Rightarrow> string \<Rightarrow> node_manager \<Rightarrow> bool" where
  \<comment> \<open>\<open>md5\<close> is the digest of the node id as a number; the stagger is in seconds\<close>
  "scan_due md5 now force node_id m \<longleftrightarrow>
     force \<or> 12 * 3600 + of_int (int (md5 node_id mod 60) - 30) \<le> now - dict_get (disk_scan_last_run m) node_id 0"

definition scan_end :: "time option \<Rightarrow> string \<Rightarrow> node_manager \<Rightarrow> node_manager" where
  \<comment> \<open>\<open>finished\<close> is the time of a scan whose result was valid; the marker is released on every branch\<close>
  "scan_end finished node_id m =
     m\<lparr>disk_scan_last_run := (case finished of None \<Rightarrow> disk_scan_last_run m | Some t \<Rightarrow> AList.update node_id t (disk_scan_last_run m)),
       disk_scan_inflight := filter (\<lambda>n. n \<noteq> node_id) (disk_scan_inflight m)\<rparr>"

section \<open>Reading back what an operation wrote\<close>

definition node_col :: "node_store \<Rightarrow> string \<Rightarrow> string \<Rightarrow> sqlval option" where
  "node_col db n k = map_option (\<lambda>r. col r k) (find_node n db)"

lemma col_update: "col (AList.update k v r) k' = (if k' = k then v else col r k')"
  by (simp add: col_def py_dict)

lemma map_of_dict_merge: "map_of (dict_merge d e) k = (case map_of (rev e) k of None \<Rightarrow> map_of d k | Some v \<Rightarrow> Some v)"
  by (induction e arbitrary: d) (auto simp: dict_merge_def py_dict map_add_def split: option.split)

lemma dict_merge_Nil [simp]: "dict_merge d [] = d"
  by (simp add: dict_merge_def)

lemma dict_merge_Cons [simp]: "dict_merge d ((k, v) # e) = dict_merge (AList.update k v d) e"
  by (simp add: dict_merge_def)

lemma col_merge_notin: "k \<notin> set (dict_keys e) \<Longrightarrow> col (dict_merge d e) k = col d k"
  by (induction e arbitrary: d) (auto simp: dict_keys_def col_update)

lemma find_node_update:
  assumes "''id'' \<notin> set (dict_keys columns)" and "update_node n columns db = Some db'"
  shows "find_node n' db' = map_option (\<lambda>r. if n' = n then dict_merge r columns else r) (find_node n' db)"
proof -
  have id: "col (dict_merge r columns) ''id'' = col r ''id''" for r by (rule col_merge_notin [OF assms(1)])
  have "sql_fetchone (\<lambda>r. col r ''id'' = SqlText n') (sql_update (\<lambda>r. col r ''id'' = SqlText n) (\<lambda>r. dict_merge r columns) rs) =
      map_option (\<lambda>r. if n' = n then dict_merge r columns else r) (sql_fetchone (\<lambda>r. col r ''id'' = SqlText n') rs)" for rs
    by (induction rs) (auto simp: id)
  with assms(2) show ?thesis by (auto simp: update_node_def find_node_def split: if_splits)
qed

lemma update_node_fields:
  "update_node n columns db = Some db' \<Longrightarrow> join_tokens db' = join_tokens db \<and> worker_tokens db' = worker_tokens db \<and> node_audit db' = node_audit db"
  by (auto simp: update_node_def split: if_splits)

lemma node_log_find [simp]: "find_node n (snd (node_log H io u a i d db)) = find_node n db"
  by (simp add: node_log_def find_node_def split: prod.split sum.split)

lemma node_log_tokens [simp]:
  "join_tokens (snd (node_log H io u a i d db)) = join_tokens db" "worker_tokens (snd (node_log H io u a i d db)) = worker_tokens db"
  "nodes (snd (node_log H io u a i d db)) = nodes db"
  by (simp_all add: node_log_def split: prod.split sum.split)

lemma publish_fields [simp]:
  "nodes (publish t n f w ts db) = nodes db" "join_tokens (publish t n f w ts db) = join_tokens db"
  "worker_tokens (publish t n f w ts db) = worker_tokens db" "node_audit (publish t n f w ts db) = node_audit db"
  "find_node i (publish t n f w ts db) = find_node i db"
  by (simp_all add: publish_def find_node_def)

lemma node_state_str_inj [simp]: "node_state_str a = node_state_str b \<longleftrightarrow> a = b"
  by (cases a; cases b) simp_all

lemma node_state_of_str [simp]: "node_state_of (SqlText (node_state_str s)) = Some s"
  by (cases s) (simp_all add: node_state_of_def NODE_STATES_def)

lemma node_state_of_SomeD: "node_state_of v = Some s \<Longrightarrow> v = SqlText (node_state_str s)"
  by (auto simp: node_state_of_def NODE_STATES_def split: if_splits)

section \<open>The lifecycle as an abstract machine\<close>

text \<open>
  The state column of one node, seen from outside: \<^term>\<open>None\<close> is a node without a row.
  A row is created pending (by an operator) or connected (by a first enrollment), moves
  along the table of transitions, and is removed in any state. A restart of the master
  makes the connected, enrolling and reconnecting nodes lost.
\<close>

definition node_st :: "node_store \<Rightarrow> string \<Rightarrow> sqlval option" where
  "node_st db n = node_col db n ''state''"

abbreviation st :: "node_state \<Rightarrow> sqlval option" where
  "st s \<equiv> Some (SqlText (node_state_str s))"

inductive lifecycle :: "sqlval option \<Rightarrow> sqlval option \<Rightarrow> bool" where
  precreate: "lifecycle None (st NS_PENDING)"
| enroll: "lifecycle None (st NS_CONNECTED)"
| move: "(a, b) \<in> set VALID_TRANSITIONS \<Longrightarrow> lifecycle (st a) (st b)"
| remove: "lifecycle (Some v) None"
| restart: "a \<in> {NS_CONNECTED, NS_ENROLLING, NS_RECONNECTING} \<Longrightarrow> lifecycle (st a) (st NS_LOST)"

definition row_ok :: "node_row \<Rightarrow> bool" where
  "row_ok r \<longleftrightarrow> (\<exists>s. col r ''id'' = SqlText s) \<and> node_state_of (col r ''state'') \<noteq> None \<and>
     (\<forall>k \<in> set NODES_NOT_NULL. col r k \<noteq> SqlNull)"

definition nodes_ok :: "node_store \<Rightarrow> bool" where
  "nodes_ok db \<longleftrightarrow> distinct (map (\<lambda>r. col r ''id'') (nodes db)) \<and> (\<forall>r \<in> set (nodes db). row_ok r)"

definition lawful :: "node_store \<Rightarrow> node_store \<Rightarrow> bool" where
  "lawful db db' \<longleftrightarrow> (nodes_ok db \<longrightarrow> nodes_ok db') \<and> (\<forall>n. lifecycle\<^sup>*\<^sup>* (node_st db n) (node_st db' n))"

named_theorems lawful_intros \<open>operations that follow the lifecycle\<close>

lemma lawful_refl [lawful_intros, simp]: "lawful db db"
  by (simp add: lawful_def)

lemma lawful_trans [trans]: "lawful a b \<Longrightarrow> lawful b c \<Longrightarrow> lawful a c"
  unfolding lawful_def by (meson rtranclp_trans)

lemma lawful_same_nodes: "nodes db' = nodes db \<Longrightarrow> lawful db db'"
  by (simp add: lawful_def nodes_ok_def node_st_def node_col_def find_node_def)

lemma lawful_log [lawful_intros]: "lawful db (snd (node_log H io u a i d db))"
  by (rule lawful_same_nodes) simp

lemma lawful_publish [lawful_intros]: "lawful db db' \<Longrightarrow> lawful db (publish t n f w ts db')"
  by (erule lawful_trans) (simp add: lawful_same_nodes)

lemma lawful_fold: "(\<And>x db. lawful db (f x db)) \<Longrightarrow> lawful db (fold f xs db)"
  by (induction xs arbitrary: db) (auto intro: lawful_trans)

lemma col_merge_in:
  "k \<in> set (dict_keys e) \<Longrightarrow> \<exists>v. (k, v) \<in> set e \<and> col (dict_merge d e) k = v"
proof (induction e arbitrary: d)
  case (Cons x e)
  obtain k' v' where x: "x = (k', v')" by (cases x)
  show ?case
  proof (cases "k \<in> set (dict_keys e)")
    case False
    with Cons.prems x have "k = k'" "col (dict_merge (AList.update k' v' d) e) k = v'"
      by (auto simp: dict_keys_def col_merge_notin col_update)
    with x show ?thesis by auto
  qed (use Cons.IH x in fastforce)
qed (simp add: dict_keys_def)

lemma update_node_ok:
  assumes upd: "update_node n columns db = Some db'" and ok: "nodes_ok db" and id: "''id'' \<notin> set (dict_keys columns)"
    and state: "\<And>v. (''state'', v) \<in> set columns \<Longrightarrow> node_state_of v \<noteq> None"
  shows "nodes_ok db'"
proof (cases "find_node n db = None")
  case True
  then have "sql_update (\<lambda>r. col r ''id'' = SqlText n) (\<lambda>r. dict_merge r columns) (nodes db) = nodes db"
    by (intro sql_update_none) (auto simp: find_node_def)
  with upd ok True show ?thesis by (simp add: update_node_def nodes_ok_def)
next
  case False
  let ?f = "\<lambda>r. if col r ''id'' = SqlText n then dict_merge r columns else r"
  have db': "nodes db' = map ?f (nodes db)" and nn: "\<And>k v. (k, v) \<in> set columns \<Longrightarrow> k \<in> set NODES_NOT_NULL \<Longrightarrow> v \<noteq> SqlNull"
    using upd False by (auto simp: update_node_def sql_update_def split: if_splits)
  have ids: "col (?f r) ''id'' = col r ''id''" for r by (simp add: col_merge_notin [OF id])
  have merged: "row_ok (dict_merge r columns)" if r: "row_ok r" for r
  proof -
    have "node_state_of (col (dict_merge r columns) ''state'') \<noteq> None"
    proof (cases "''state'' \<in> set (dict_keys columns)")
      case True
      from col_merge_in [OF True, of r] state show ?thesis by auto
    qed (use r in \<open>simp add: row_ok_def col_merge_notin\<close>)
    moreover have "col (dict_merge r columns) k \<noteq> SqlNull" if k: "k \<in> set NODES_NOT_NULL" for k
    proof (cases "k \<in> set (dict_keys columns)")
      case True
      from col_merge_in [OF True, of r] nn k show ?thesis by auto
    qed (use r k in \<open>simp add: row_ok_def col_merge_notin\<close>)
    ultimately show ?thesis using r by (simp add: row_ok_def col_merge_notin [OF id])
  qed
  have "map (\<lambda>r. col r ''id'') (nodes db') = map (\<lambda>r. col r ''id'') (nodes db)" unfolding db' map_map o_def ids ..
  moreover have "\<forall>r \<in> set (nodes db'). row_ok r" using ok merged by (auto simp: nodes_ok_def db')
  ultimately show ?thesis using ok by (simp add: nodes_ok_def)
qed

lemma node_st_update:
  assumes "update_node n columns db = Some db'" and "''id'' \<notin> set (dict_keys columns)"
  shows "node_st db' n' = (if n' = n then map_option (\<lambda>r. col (dict_merge r columns) ''state'') (find_node n db) else node_st db n')"
  using find_node_update [OF assms(2,1), of n'] by (simp add: node_st_def node_col_def option.map_comp comp_def)

lemma lawful_update:
  assumes "update_node n columns db = Some db'" and "''id'' \<notin> set (dict_keys columns)" and "''state'' \<notin> set (dict_keys columns)"
  shows "lawful db db'"
proof -
  have "(''state'', v) \<notin> set columns" for v using assms(3) by (force simp: dict_keys_def)
  then have "nodes_ok db \<Longrightarrow> nodes_ok db'" using update_node_ok [OF assms(1) _ assms(2)] by blast
  moreover have "node_st db' n' = node_st db n'" for n'
    unfolding node_st_update [OF assms(1,2)] col_merge_notin [OF assms(3)] by (simp add: node_st_def node_col_def)
  ultimately show ?thesis by (simp add: lawful_def)
qed

lemma set_dict_merge: "(k, v) \<in> set (dict_merge d e) \<Longrightarrow> (k, v) \<in> set d \<or> (k, v) \<in> set e"
proof (induction e arbitrary: d)
  case (Cons x e)
  have "(k, v) \<in> set (AList.update k' v' d) \<Longrightarrow> (k, v) \<in> set d \<or> (k, v) = (k', v')" for k' v'
    by (induction d) (auto split: if_splits)
  with Cons show ?case by (cases x) fastforce
qed simp

lemma find_None_all: "List.find P xs = None \<Longrightarrow> x \<in> set xs \<Longrightarrow> \<not> P x"
  by (auto simp: find_None_iff)

definition transition_columns :: "node_state \<Rightarrow> time \<Rightarrow> node_row \<Rightarrow> node_row" where
  "transition_columns new now extra = dict_merge [(''state'', SqlText (node_state_str new)), (''updated_at'', SqlReal now)] extra"

lemma transition_columns_id:
  assumes "List.find (\<lambda>k. k \<notin> set VALID_NODE_FIELDS) (dict_keys extra) = None"
  shows "''id'' \<notin> set (dict_keys (transition_columns new now extra))"
proof
  assume "''id'' \<in> set (dict_keys (transition_columns new now extra))"
  then obtain v where "(''id'', v) \<in> set (transition_columns new now extra)" by (auto simp: dict_keys_def)
  with set_dict_merge have "''id'' \<in> set (dict_keys extra)" unfolding transition_columns_def by (force simp: dict_keys_def)
  with find_None_all [OF assms] show False by (force simp: VALID_NODE_FIELDS_def)
qed

lemma transition_columns_state:
  assumes "''state'' \<notin> set (dict_keys extra)"
  shows "col (dict_merge r (transition_columns new now extra)) ''state'' = SqlText (node_state_str new)"
    and "(''state'', v) \<in> set (transition_columns new now extra) \<Longrightarrow> v = SqlText (node_state_str new)"
proof -
  have only: "v = SqlText (node_state_str new)" if "(''state'', v) \<in> set (transition_columns new now extra)" for v
    using set_dict_merge [OF that [unfolded transition_columns_def]] assms by (force simp: dict_keys_def)
  have "map_of (rev extra) ''state'' = None" using assms by (simp add: map_of_eq_None_iff dict_keys_def)
  then have "map_of (transition_columns new now extra) ''state'' \<noteq> None" by (simp add: transition_columns_def map_of_dict_merge)
  then have "''state'' \<in> set (dict_keys (transition_columns new now extra))" by (simp add: map_of_eq_None_iff dict_keys_def)
  from col_merge_in [OF this, of r] only show "col (dict_merge r (transition_columns new now extra)) ''state'' = SqlText (node_state_str new)" by auto
  show "(''state'', v) \<in> set (transition_columns new now extra) \<Longrightarrow> v = SqlText (node_state_str new)" by (rule only)
qed

lemma transition_state_effect:
  assumes "transition_state now n new extra db = (Inr (), db')" and "''state'' \<notin> set (dict_keys extra)"
  shows "\<exists>cur. node_st db n = st cur \<and> (cur, new) \<in> set VALID_TRANSITIONS \<and>
    (\<forall>n'. node_st db' n' = (if n' = n then st new else node_st db n')) \<and> (nodes_ok db \<longrightarrow> nodes_ok db') \<and>
    join_tokens db' = join_tokens db \<and> worker_tokens db' = worker_tokens db \<and> node_audit db' = node_audit db"
proof -
  let ?c = "transition_columns new now extra"
  from assms(1) obtain row cur db1 where row: "find_node n db = Some row" "node_state_of (col row ''state'') = Some cur"
    and v: "(cur, new) \<in> set VALID_TRANSITIONS" and ks: "List.find (\<lambda>k. k \<notin> set VALID_NODE_FIELDS) (dict_keys extra) = None"
    and u: "update_node n ?c db = Some db1"
    and db': "db' = publish ''node.state'' n (SqlText (node_state_str cur)) (node_state_str new) now db1"
    unfolding transition_columns_def by (auto simp: transition_state_def split: option.splits if_splits)
  note id = transition_columns_id [OF ks, of new now]
  have "nodes_ok db1" if "nodes_ok db"
    by (rule update_node_ok [OF u that id]) (use transition_columns_state(2) [OF assms(2)] in fastforce)
  then have "nodes_ok db \<longrightarrow> nodes_ok db'" by (simp add: db' nodes_ok_def)
  moreover have "node_st db' n' = (if n' = n then st new else node_st db n')" for n'
    using node_st_update [OF u id, of n'] row(1) transition_columns_state(1) [OF assms(2)]
    by (simp add: db' node_st_def node_col_def)
  moreover have "node_st db n = st cur" using row node_state_of_SomeD by (simp add: node_st_def node_col_def)
  ultimately show ?thesis using v update_node_fields [OF u] by (auto simp: db')
qed

lemma transition_state_other:
  assumes "transition_state now n new extra db = (Inr (), db')" and "k \<notin> {''state'', ''updated_at''} \<union> set (dict_keys extra)"
  shows "node_col db' n' k = node_col db n' k"
proof -
  let ?c = "transition_columns new now extra"
  from assms(1) obtain cur db1 where ks: "List.find (\<lambda>k. k \<notin> set VALID_NODE_FIELDS) (dict_keys extra) = None"
    and u: "update_node n ?c db = Some db1"
    and db': "db' = publish ''node.state'' n (SqlText (node_state_str cur)) (node_state_str new) now db1"
    unfolding transition_columns_def by (auto simp: transition_state_def split: option.splits if_splits)
  have "k \<notin> set (dict_keys ?c)"
  proof
    assume "k \<in> set (dict_keys ?c)"
    then obtain v where "(k, v) \<in> set ?c" by (auto simp: dict_keys_def)
    from set_dict_merge [OF this [unfolded transition_columns_def]] assms(2) show False by (force simp: dict_keys_def)
  qed
  then show ?thesis
    using find_node_update [OF transition_columns_id [OF ks] u, of n']
    by (cases "find_node n' db") (auto simp: node_col_def db' col_merge_notin)
qed

lemma transition_state_error: "transition_state now n new extra db = (Inl e, db') \<Longrightarrow> db' = db"
  by (auto simp: transition_state_def split: option.splits if_splits)

lemma lifecycle_move_step: "(a, b) \<in> set VALID_TRANSITIONS \<Longrightarrow> lifecycle\<^sup>*\<^sup>* (st a) (st b)"
  by (rule r_into_rtranclp) (rule lifecycle.move)

lemma lawful_transition [lawful_intros]:
  assumes "''state'' \<notin> set (dict_keys extra)"
  shows "lawful db (snd (transition_state now n new extra db))"
proof (cases "transition_state now n new extra db")
  case (Pair r db')
  show ?thesis
  proof (cases r)
    case (Inl e)
    with Pair transition_state_error show ?thesis by fastforce
  next
    case (Inr u)
    with Pair transition_state_effect [OF _ assms, of now n new db db'] show ?thesis
      by (auto simp: lawful_def intro: lifecycle_move_step)
  qed
qed

lemma lawful_insert:
  assumes "insert_node columns db = Some db'" and "col (dict_merge nodes_defaults columns) ''id'' = SqlText i"
    and "col (dict_merge nodes_defaults columns) ''state'' = SqlText (node_state_str s)" and "s = NS_PENDING \<or> s = NS_CONNECTED"
  shows "lawful db db'"
proof -
  let ?row = "dict_merge nodes_defaults columns"
  have fresh: "\<forall>r \<in> set (nodes db). col r ''id'' \<noteq> SqlText i" and nn: "\<forall>k \<in> set NODES_NOT_NULL. col ?row k \<noteq> SqlNull"
    and db': "nodes db' = nodes db @ [?row]"
    using assms(1,2) by (auto simp: insert_node_def Let_def split: if_splits)
  have "nodes_ok db'" if "nodes_ok db"
    using that fresh nn assms(2,3) by (auto simp: nodes_ok_def row_ok_def db')
  moreover have "lifecycle\<^sup>*\<^sup>* (node_st db n) (node_st db' n)" for n
  proof (cases "n = i")
    case True
    have none: "sql_fetchone (\<lambda>r. col r ''id'' = SqlText i) (nodes db) = None" using fresh by simp
    have "node_st db n = None" "node_st db' n = st s"
      unfolding node_st_def node_col_def find_node_def db' sql_fetchone_append True none using assms(2,3) by simp_all
    with assms(4) show ?thesis by (auto intro: r_into_rtranclp lifecycle.precreate lifecycle.enroll)
  next
    case False
    with assms(2) have "sql_fetchone (\<lambda>r. col r ''id'' = SqlText n) [?row] = None" by simp
    then have "node_st db' n = node_st db n"
      unfolding node_st_def node_col_def find_node_def db' sql_fetchone_append
      by (cases "sql_fetchone (\<lambda>r. col r ''id'' = SqlText n) (nodes db)") (simp_all only: option.case)
    then show ?thesis by simp
  qed
  ultimately show ?thesis by (simp add: lawful_def)
qed

lemma lawful_create [lawful_intros]: "lawful db (snd (create_node now uuid name ip grp db))"
proof -
  let ?c = "[(''id'', SqlText uuid), (''name'', SqlText name), (''ip_prefix'', SqlText ip), (''node_group'', SqlText grp),
    (''state'', SqlText (node_state_str NS_PENDING)), (''created_at'', SqlReal now), (''updated_at'', SqlReal now)]"
  have "lawful db db1" if "insert_node ?c db = Some db1" for db1
    by (rule lawful_insert [OF that, of uuid NS_PENDING]) (simp_all add: nodes_defaults_def col_def)
  then show ?thesis by (auto simp: create_node_def split: option.split)
qed

lemma lawful_cascade [lawful_intros]: "lawful db (cascade_node i db)"
proof -
  have "distinct (map (\<lambda>r. col r ''id'') (nodes db)) \<Longrightarrow> distinct (map (\<lambda>r. col r ''id'') (filter P (nodes db)))" for P
    by (rule distinct_map_filter)
  then have "nodes_ok db \<longrightarrow> nodes_ok (cascade_node i db)" by (simp add: cascade_node_def nodes_ok_def)
  moreover have "sql_fetchone (\<lambda>r. col r ''id'' = SqlText n) (filter (\<lambda>r. col r ''id'' \<noteq> SqlText i) rs) =
      (if n = i then None else sql_fetchone (\<lambda>r. col r ''id'' = SqlText n) rs)" for n rs
    by (induction rs) auto
  then have "node_st (cascade_node i db) n = (if n = i then None else node_st db n)" for n
    by (simp add: cascade_node_def node_st_def node_col_def find_node_def)
  then have "lifecycle\<^sup>*\<^sup>* (node_st db n) (node_st (cascade_node i db) n)" for n
    by (cases "node_st db n") (auto intro: r_into_rtranclp lifecycle.remove)
  ultimately show ?thesis by (simp add: lawful_def)
qed

lemma lawful_delete [lawful_intros]: "lawful db (snd (snd (delete_node H io i u m db)))"
proof -
  have "lawful db (cascade_node i (snd (node_log H io u AA_NODE_DELETED (Some i) d db)))" for d
    by (rule lawful_trans [OF lawful_log lawful_cascade])
  then show ?thesis
    by (auto simp: delete_node_def split: option.split prod.split sum.split intro!: lawful_publish) (metis snd_conv)
qed

lemma lawful_configure [lawful_intros]: "lawful db (snd (configure_node H io n name grp db))"
proof -
  let ?g = "case grp of None \<Rightarrow> [] | Some s \<Rightarrow> s"
  let ?t = "transition_state (ni_now io) n NS_CONNECTED [(''name'', SqlText name), (''node_group'', SqlText ?g)] db"
  have t: "lawful db (snd ?t)" by (rule lawful_transition) (simp add: dict_keys_def)
  show ?thesis
    using t lawful_trans [OF t lawful_log]
    by (cases ?t) (auto simp: configure_node_def Let_def split: sum.split)
qed

lemma patch_columns_keys: "''id'' \<notin> set (dict_keys (patch_columns now name grp))" "''state'' \<notin> set (dict_keys (patch_columns now name grp))"
  by (cases name; cases grp; simp add: patch_columns_def dict_keys_def)+

lemma lawful_patch [lawful_intros]: "lawful db (snd (patch_metadata H io n name grp u db))"
proof -
  let ?l = "node_log H io u AA_UPDATE_NODE (Some n) (patch_details name grp) db"
  have l: "lawful db (snd ?l)" by (rule lawful_log)
  have "lawful db db2" if "update_node n (patch_columns (ni_now io) name grp) (snd ?l) = Some db2" for db2
    by (rule lawful_trans [OF l lawful_update [OF that patch_columns_keys]])
  with l show ?thesis
    by (cases ?l) (auto simp: patch_metadata_def Let_def split: option.split sum.split)
qed

lemma lawful_invalidate [lawful_intros]: "lawful db (snd (invalidate_join_tokens now n db))"
  by (rule lawful_same_nodes) (simp add: invalidate_join_tokens_def Let_def)

lemma lawful_mark_stale [lawful_intros]: "lawful db (mark_stale H io th row db)"
proof -
  let ?t = "transition_state (ni_now io) (row_id row) NS_STALE [] db"
  have t: "lawful db (snd ?t)" by (rule lawful_transition) (simp add: dict_keys_def)
  show ?thesis
    using t lawful_trans [OF t lawful_log] by (cases ?t) (auto simp: mark_stale_def Let_def split: sum.split)
qed

lemma lawful_mark_lost [lawful_intros]: "lawful db (snd (mark_lost H io th nc (m, db)))"
proof -
  let ?t = "transition_state (ni_now io) (fst nc) NS_LOST [] db"
  have t: "lawful db (snd ?t)" by (rule lawful_transition) (simp add: dict_keys_def)
  show ?thesis
    using t lawful_trans [OF t lawful_log] by (cases nc; cases ?t) (auto simp: mark_lost_def Let_def split: sum.split)
qed

lemma lawful_heartbeats [lawful_intros]: "lawful (snd s) (snd (check_heartbeats H ios lost stale s))"
proof -
  let ?f = "\<lambda>(n, c). mark_lost H (ios n) lost (n, c)"
  have "lawful (snd s) (snd (fold ?f xs s))" for xs s
  proof (induction xs arbitrary: s)
    case (Cons x xs)
    from lawful_mark_lost [of "snd s" H "ios (fst x)" lost x "fst s"] Cons [of "?f x s"] show ?case
      by (cases x) (auto intro: lawful_trans)
  qed simp
  moreover have "lawful db (fold (\<lambda>r. mark_stale H (ios (row_id r)) stale r) rs db)" for rs db
    by (rule lawful_fold) (rule lawful_mark_stale)
  ultimately show ?thesis
    unfolding check_heartbeats_def Let_def by (simp add: split_def) (rule lawful_trans)
qed

lemma lawful_finish_disable: "lawful db (snd (snd (finish_disable H io n d u cur m db)))"
proof -
  let ?t = "case disable_target d cur (is_connected n m) of None \<Rightarrow> (Inr (), db) | Some t \<Rightarrow> transition_state (ni_now io) n t [] db"
  have t: "lawful db (snd ?t)" by (auto simp: dict_keys_def intro: lawful_transition split: option.split)
  show ?thesis
    using t lawful_trans [OF t lawful_log] by (cases ?t) (auto simp: finish_disable_def Let_def split_def split: sum.split)
qed

lemma lawful_set_disabled [lawful_intros]: "lawful db (snd (snd (set_disabled H io n d u m db)))"
proof -
  have "lawful db (snd (snd (finish_disable H io n d u cur m db1)))"
    if "update_node n [(''disabled'', SqlInt (if d then 1 else 0)), (''updated_at'', SqlReal (ni_now io))] db = Some db1" for cur db1
    by (rule lawful_trans [OF lawful_update [OF that] lawful_finish_disable]) (simp_all add: dict_keys_def)
  then show ?thesis by (auto simp: set_disabled_def split: option.split)
qed

section \<open>One transition, column by column\<close>

lemma node_col_transition:
  assumes "k \<noteq> ''updated_at''"
  shows "node_col (snd (transition_state now n new [] db)) n' k =
    (if n' = n \<and> k = ''state'' \<and> (\<exists>cur. node_st db n = st cur \<and> (cur, new) \<in> set VALID_TRANSITIONS) then st new else node_col db n' k)"
proof (cases "\<exists>row cur. find_node n db = Some row \<and> node_state_of (col row ''state'') = Some cur \<and> (cur, new) \<in> set VALID_TRANSITIONS")
  case True
  then obtain row cur where r: "find_node n db = Some row" "node_state_of (col row ''state'') = Some cur" "(cur, new) \<in> set VALID_TRANSITIONS" by blast
  let ?c = "[(''state'', SqlText (node_state_str new)), (''updated_at'', SqlReal now)]"
  obtain db1 where u: "update_node n ?c db = Some db1" by (simp add: update_node_def)
  have "find_node n' db1 = map_option (\<lambda>r. if n' = n then dict_merge r ?c else r) (find_node n' db)"
    by (rule find_node_update [OF _ u]) (simp add: dict_keys_def)
  moreover have "node_st db n = st cur" using r node_state_of_SomeD by (simp add: node_st_def node_col_def)
  moreover have "snd (transition_state now n new [] db) = publish ''node.state'' n (SqlText (node_state_str cur)) (node_state_str new) now db1"
    using r u by (simp add: transition_state_def dict_keys_def)
  ultimately show ?thesis using r assms by (cases "find_node n' db") (auto simp: node_col_def col_update)
next
  case False
  then have "snd (transition_state now n new [] db) = db"
    by (auto simp: transition_state_def split: option.split)
  moreover have "\<not> (\<exists>cur. node_st db n = st cur \<and> (cur, new) \<in> set VALID_TRANSITIONS)"
    using False by (auto simp: node_st_def node_col_def)
  ultimately show ?thesis by metis
qed

lemma node_col_log [simp]: "node_col (snd (node_log H io u a i d db)) n k = node_col db n k"
  by (simp add: node_col_def)

definition can_move :: "node_state \<Rightarrow> node_store \<Rightarrow> string \<Rightarrow> bool" where
  "can_move new db n \<longleftrightarrow> (\<exists>cur. node_st db n = st cur \<and> (cur, new) \<in> set VALID_TRANSITIONS)"

lemma node_col_mark_lost:
  assumes "k \<noteq> ''updated_at''"
  shows "node_col (snd (mark_lost H io th (n, c) (m, db))) n' k =
    (if n' = n \<and> k = ''state'' \<and> th < heartbeat_age (ni_now io) c \<and> can_move NS_LOST db n then st NS_LOST else node_col db n' k)"
proof -
  let ?t = "transition_state (ni_now io) n NS_LOST [] db"
  note node_col_transition [OF assms, of "ni_now io" n NS_LOST db n']
  then show ?thesis
    by (cases ?t) (auto simp: mark_lost_def Let_def can_move_def split: sum.split)
qed

lemma node_col_mark_stale:
  assumes "k \<noteq> ''updated_at''"
  shows "node_col (mark_stale H io th r db) n' k =
    (if n' = row_id r \<and> k = ''state'' \<and> th < ni_now io - sql_time (col r ''last_heartbeat'') \<and> can_move NS_STALE db n' then st NS_STALE
     else node_col db n' k)"
proof -
  let ?t = "transition_state (ni_now io) (row_id r) NS_STALE [] db"
  note node_col_transition [OF assms, of "ni_now io" "row_id r" NS_STALE db n']
  then show ?thesis
    by (cases ?t) (auto simp: mark_stale_def Let_def can_move_def split: sum.split)
qed

lemma can_move_cong: "node_st db' n = node_st db n \<Longrightarrow> can_move s db' n = can_move s db n"
  by (simp add: can_move_def)

lemma can_move_lost: "can_move NS_LOST db n \<longleftrightarrow> node_st db n \<in> {st NS_CONNECTED, st NS_RECONNECTING, st NS_DISABLED}"
proof -
  have eq: "(cur, NS_LOST) \<in> set VALID_TRANSITIONS \<longleftrightarrow> cur \<in> {NS_CONNECTED, NS_RECONNECTING, NS_DISABLED}" for cur
    by (cases cur) (simp_all add: VALID_TRANSITIONS_def)
  show ?thesis unfolding can_move_def eq by (simp only: insert_iff empty_iff simp_thms conj_disj_distribL ex_disj_distrib) simp
qed

lemma can_move_stale: "can_move NS_STALE db n \<longleftrightarrow> node_st db n = st NS_LOST"
proof -
  have eq: "(cur, NS_STALE) \<in> set VALID_TRANSITIONS \<longleftrightarrow> cur = NS_LOST" for cur
    by (cases cur) (simp_all add: VALID_TRANSITIONS_def)
  show ?thesis unfolding can_move_def eq by simp
qed

lemma node_col_lost_fold:
  assumes "distinct (map fst cs)" and "k \<noteq> ''updated_at''"
  shows "node_col (snd (fold (\<lambda>(n, c). mark_lost H (ios n) th (n, c)) cs s)) n k =
    (if k = ''state'' \<and> (\<exists>c. map_of cs n = Some c \<and> th < heartbeat_age (ni_now (ios n)) c) \<and> can_move NS_LOST (snd s) n
     then st NS_LOST else node_col (snd s) n k)"
  using assms(1)
proof (induction cs arbitrary: s)
  case (Cons x cs)
  obtain n1 c1 where x: "x = (n1, c1)" by (cases x)
  let ?s = "mark_lost H (ios n1) th (n1, c1) s"
  have one: "node_col (snd ?s) n' k' = (if n' = n1 \<and> k' = ''state'' \<and> th < heartbeat_age (ni_now (ios n1)) c1 \<and> can_move NS_LOST (snd s) n1
      then st NS_LOST else node_col (snd s) n' k')" if "k' \<noteq> ''updated_at''" for n' k'
    using node_col_mark_lost [OF that, of H "ios n1" th n1 c1 "fst s" "snd s" n'] by simp
  have ih: "node_col (snd (fold (\<lambda>(n, c). mark_lost H (ios n) th (n, c)) cs ?s)) n k =
    (if k = ''state'' \<and> (\<exists>c. map_of cs n = Some c \<and> th < heartbeat_age (ni_now (ios n)) c) \<and> can_move NS_LOST (snd ?s) n
     then st NS_LOST else node_col (snd ?s) n k)" using Cons by simp
  show ?case
  proof (cases "n = n1")
    case True
    with Cons.prems x have "map_of cs n = None" by (simp add: map_of_eq_None_iff)
    with ih one [OF assms(2), of n] True x show ?thesis by simp
  next
    case False
    with one [of "''state''" n] have "can_move NS_LOST (snd ?s) n = can_move NS_LOST (snd s) n" by (intro can_move_cong) (simp add: node_st_def)
    with ih one [OF assms(2), of n] False x show ?thesis by auto
  qed
qed simp

lemma node_col_stale_fold:
  assumes "distinct (map row_id rs)" and "k \<noteq> ''updated_at''"
  shows "node_col (fold (\<lambda>r. mark_stale H (ios (row_id r)) th r) rs db) n k =
    (if k = ''state'' \<and> (\<exists>r \<in> set rs. row_id r = n \<and> th < ni_now (ios n) - sql_time (col r ''last_heartbeat'')) \<and> can_move NS_STALE db n
     then st NS_STALE else node_col db n k)"
  using assms(1)
proof (induction rs arbitrary: db)
  case (Cons r rs)
  let ?d = "mark_stale H (ios (row_id r)) th r db"
  note one = node_col_mark_stale [where H = H and io = "ios (row_id r)" and th = th and r = r and db = db]
  have ih: "node_col (fold (\<lambda>r. mark_stale H (ios (row_id r)) th r) rs ?d) n k =
    (if k = ''state'' \<and> (\<exists>r \<in> set rs. row_id r = n \<and> th < ni_now (ios n) - sql_time (col r ''last_heartbeat'')) \<and> can_move NS_STALE ?d n
     then st NS_STALE else node_col ?d n k)" using Cons by simp
  show ?case
  proof (cases "n = row_id r")
    case True
    with Cons.prems have "\<forall>r' \<in> set rs. row_id r' \<noteq> n" by (metis distinct.simps(2) image_eqI list.simps(9) list.set_map)
    with ih one [OF assms(2), of n] True show ?thesis by auto
  next
    case False
    with one [of "''state''" n] have "can_move NS_STALE ?d n = can_move NS_STALE db n" by (intro can_move_cong) (simp add: node_st_def)
    with ih one [OF assms(2), of n] False show ?thesis by auto
  qed
qed simp

lemma lost_rows_iff:
  assumes "nodes_ok db"
  shows "(\<exists>r \<in> set (lost_rows db). row_id r = n \<and> P (col r ''last_heartbeat'')) \<longleftrightarrow>
    node_st db n = st NS_LOST \<and> (\<exists>v. node_col db n ''last_heartbeat'' = Some v \<and> v \<noteq> SqlNull \<and> P v)"
    and "distinct (map row_id (lost_rows db))"
proof -
  have id: "col r ''id'' = SqlText (row_id r)" if "r \<in> set (nodes db)" for r
    using assms that by (auto simp: nodes_ok_def row_ok_def row_id_def)
  then have eq: "map (\<lambda>r. col r ''id'') (nodes db) = map (SqlText \<circ> row_id) (nodes db)" by simp
  have dist: "distinct (map row_id (nodes db))"
    using assms unfolding nodes_ok_def eq map_map [symmetric] using distinct_map [of SqlText "map row_id (nodes db)"] by blast
  then show "distinct (map row_id (lost_rows db))" unfolding lost_rows_def by (rule distinct_map_filter)
  have find: "find_node n db = Some r \<longleftrightarrow> r \<in> set (nodes db) \<and> row_id r = n" for r
  proof
    assume "find_node n db = Some r"
    then have "r \<in> set (nodes db)" "col r ''id'' = SqlText n" by (auto simp: find_node_def dest: sql_fetchone_SomeD)
    with id show "r \<in> set (nodes db) \<and> row_id r = n" by simp
  next
    assume r: "r \<in> set (nodes db) \<and> row_id r = n"
    then obtain r' where r': "find_node n db = Some r'" using id by (fastforce simp: find_node_def)
    then have "r' \<in> set (nodes db)" "row_id r' = n" using id by (auto simp: find_node_def row_id_def dest: sql_fetchone_SomeD)
    with r dist have "r' = r" by (metis distinct_map inj_on_def)
    with r' show "find_node n db = Some r" by simp
  qed
  show "(\<exists>r \<in> set (lost_rows db). row_id r = n \<and> P (col r ''last_heartbeat'')) \<longleftrightarrow>
    node_st db n = st NS_LOST \<and> (\<exists>v. node_col db n ''last_heartbeat'' = Some v \<and> v \<noteq> SqlNull \<and> P v)"
  proof (cases "find_node n db")
    case None
    with find have "\<not> (\<exists>r \<in> set (nodes db). row_id r = n)" by fastforce
    with None show ?thesis by (auto simp: node_st_def node_col_def lost_rows_def)
  next
    case (Some r)
    have r: "r' \<in> set (nodes db) \<and> row_id r' = n \<longleftrightarrow> r' = r" for r' using find [of r'] unfolding Some by auto
    have "(\<exists>r' \<in> set (lost_rows db). row_id r' = n \<and> Q r') \<longleftrightarrow>
        (\<exists>r'. (r' \<in> set (nodes db) \<and> row_id r' = n) \<and> col r' ''state'' = SqlText (node_state_str NS_LOST) \<and> col r' ''last_heartbeat'' \<noteq> SqlNull \<and> Q r')" for Q
      unfolding lost_rows_def by auto
    with Some show ?thesis unfolding node_st_def node_col_def r by simp
  qed
qed

lemma heartbeat_pass_state:
  assumes "nodes_ok db" and "dict_wf (connections m)"
    and "silent \<longleftrightarrow> (\<exists>c. map_of (connections m) n = Some c \<and> lost < heartbeat_age (ni_now (ios n)) c)"
    and "old \<longleftrightarrow> (\<exists>v. node_col db n ''last_heartbeat'' = Some v \<and> v \<noteq> SqlNull \<and> stale < ni_now (ios n) - sql_time v)"
    and "s1 = (if silent \<and> node_st db n \<in> {st NS_CONNECTED, st NS_RECONNECTING, st NS_DISABLED} then st NS_LOST else node_st db n)"
  shows "node_st (snd (check_heartbeats H ios lost stale (m, db))) n = (if s1 = st NS_LOST \<and> old then st NS_STALE else s1)"
proof -
  let ?f = "\<lambda>(n, c). mark_lost H (ios n) lost (n, c)"
  obtain m1 db1 where f: "fold ?f (connections m) (m, db) = (m1, db1)" by fastforce
  have dk: "distinct (map fst (connections m))" using assms(2) by (simp add: dict_wf_def)
  have st1: "node_st db1 n = s1"
    using node_col_lost_fold [OF dk, of "''state''" H ios lost "(m, db)" n] f assms(3,5)
    by (auto simp: node_st_def [of _ n, symmetric] can_move_lost)
  have lh: "node_col db1 n ''last_heartbeat'' = node_col db n ''last_heartbeat''"
    using node_col_lost_fold [OF dk, of "''last_heartbeat''" H ios lost "(m, db)" n] f by simp
  have ok1: "nodes_ok db1"
  proof -
    have "lawful (snd s) (snd (fold ?f xs s))" for xs s
    proof (induction xs arbitrary: s)
      case (Cons x xs)
      from lawful_mark_lost [of "snd s" H "ios (fst x)" lost x "fst s"] Cons [of "?f x s"] show ?case
        by (cases x) (auto intro: lawful_trans)
    qed simp
    from this [of "(m, db)" "connections m"] f assms(1) show ?thesis by (simp add: lawful_def)
  qed
  have "snd (check_heartbeats H ios lost stale (m, db)) = fold (\<lambda>r. mark_stale H (ios (row_id r)) stale r) (lost_rows db1) db1"
    by (simp add: check_heartbeats_def f)
  moreover note node_col_stale_fold [OF lost_rows_iff(2) [OF ok1], of "''state''" H ios stale db1 n]
    lost_rows_iff(1) [OF ok1, of n "\<lambda>v. stale < ni_now (ios n) - sql_time v"]
  ultimately show ?thesis
    using st1 lh assms(4) by (auto simp: node_st_def [of _ n, symmetric] can_move_stale)
qed

text \<open>
  The stored heartbeat is written only when a session starts, so a node whose session
  began longer ago than the stale threshold goes from connected to stale in the pass
  that finds it silent.
\<close>

theorem long_session_is_stale_at_once:
  assumes "nodes_ok db" and "dict_wf (connections m)" and "map_of (connections m) n = Some c"
    and "lost < heartbeat_age (ni_now (ios n)) c" and "node_st db n = st NS_CONNECTED"
    and "node_col db n ''last_heartbeat'' = Some (SqlReal started)" and "stale < ni_now (ios n) - started"
  shows "node_st (snd (check_heartbeats H ios lost stale (m, db))) n = st NS_STALE"
  using heartbeat_pass_state [OF assms(1,2) refl refl refl, where n = n and H = H and ios = ios and lost = lost and stale = stale] assms(3-)
  by (simp add: sql_time_def)

lemma delete_keeps_join_tokens: "join_tokens (snd (snd (delete_node H io n u m db))) = join_tokens db"
proof -
  have "join_tokens (cascade_node n (snd (node_log H io u a i d db))) = join_tokens db" for a i d by (simp add: cascade_node_def)
  then show ?thesis by (auto simp: delete_node_def split: option.split prod.split sum.split) (metis node_log_tokens(1) snd_conv cascade_node_def node_store.select_convs)+
qed

section \<open>Properties\<close>

text \<open>
  The heartbeat pass. After a pass, a node whose connection has been silent for
  longer than the threshold is lost if its state allows it (connected, reconnecting or
  disabled); a node that is then lost and whose stored heartbeat is older than the stale
  threshold is stale; every other node keeps its state.
\<close>

theorem heartbeat_pass:
  assumes "nodes_ok db" and "dict_wf (connections m)"
    and "silent \<longleftrightarrow> (\<exists>c. map_of (connections m) n = Some c \<and> lost < heartbeat_age (ni_now (ios n)) c)"
    and "old \<longleftrightarrow> (\<exists>v. node_col db n ''last_heartbeat'' = Some v \<and> v \<noteq> SqlNull \<and> stale < ni_now (ios n) - sql_time v)"
    and "s1 = (if silent \<and> node_st db n \<in> {st NS_CONNECTED, st NS_RECONNECTING, st NS_DISABLED} then st NS_LOST else node_st db n)"
  shows "node_st (snd (check_heartbeats H ios lost stale (m, db))) n = (if s1 = st NS_LOST \<and> old then st NS_STALE else s1)"
  using assms by (rule heartbeat_pass_state)

text \<open>
  Disabling a node that is not connected. For a node that is pending, enrolling,
  reconnecting, lost or stale, disabling it raises an invalid transition; by then the
  flag is already committed, while the state, the connection and the audit log are as
  before.
\<close>

theorem disable_refused_after_commit:
  assumes "find_node n db = Some row" and "col row ''state'' = SqlText (node_state_str cur)" and "\<not> sql_truthy (col row ''disabled'')"
    and "cur \<in> {NS_PENDING, NS_ENROLLING, NS_RECONNECTING, NS_LOST, NS_STALE}"
    and "set_disabled H io n True u m db = (r, m', db')"
  shows "r = Inl (InvalidTransition cur NS_DISABLED) \<and> m' = m \<and> node_st db' n = st cur \<and>
    node_col db' n ''disabled'' = Some (SqlInt 1) \<and> node_audit db' = node_audit db"
proof -
  let ?c = "[(''disabled'', SqlInt 1), (''updated_at'', SqlReal (ni_now io))]"
  obtain db1 where up: "update_node n ?c db = Some db1" by (simp add: update_node_def)
  have "find_node n db1 = Some (dict_merge row ?c)"
    using find_node_update [OF _ up, of n] assms(1) by (simp add: dict_keys_def)
  then have f: "find_node n db1 = Some (AList.update ''updated_at'' (SqlReal (ni_now io)) (AList.update ''disabled'' (SqlInt 1) row))" by simp
  have "(cur, NS_DISABLED) \<notin> set VALID_TRANSITIONS" using assms(4) by (auto simp: VALID_TRANSITIONS_def)
  then have "transition_state (ni_now io) n NS_DISABLED [] db1 = (Inl (InvalidTransition cur NS_DISABLED), db1)"
    using f assms(2) by (simp add: transition_state_def col_update)
  moreover have "cur \<noteq> NS_DISABLED" using assms(4) by auto
  ultimately have "finish_disable H io n True u cur m db1 = (Inl (InvalidTransition cur NS_DISABLED), m, db1)"
    by (simp add: finish_disable_def disable_target_def)
  then have "set_disabled H io n True u m db = (Inl (InvalidTransition cur NS_DISABLED), m, db1)"
    using assms(1-3) up by (simp add: set_disabled_def)
  with assms(2,5) f update_node_fields [OF up] show ?thesis by (simp add: node_st_def node_col_def col_update)
qed

definition sample_node :: "node_state \<Rightarrow> node_row" where
  "sample_node s = [(''id'', SqlText ''n1''), (''name'', SqlText ''web''), (''state'', SqlText (node_state_str s)), (''disabled'', SqlInt 0),
     (''created_at'', SqlReal 0), (''updated_at'', SqlReal 0), (''last_heartbeat'', SqlReal 0)]"

definition sample_store :: "node_state \<Rightarrow> node_store" where
  "sample_store s = \<lparr>nodes = [sample_node s], join_tokens = [], worker_tokens = [], node_audit = [], node_events = []\<rparr>"

definition sample_manager :: node_manager where
  "sample_manager = register_connection 10 ''n1'' 7 (init_node_manager None)"

definition sample_io :: "time \<Rightarrow> node_io" where
  "sample_io now = \<lparr>ni_now = now, ni_log_now = now, ni_log_uuid = ''log'', ni_repr = (\<lambda>x. ''0.0'')\<rparr>"

theorem heartbeat_pass_witness:
  "node_st (snd (check_heartbeats (\<lambda>s. s) (\<lambda>n. sample_io 400) 300 86400 (sample_manager, sample_store NS_CONNECTED))) ''n1'' = st NS_LOST"
proof -
  have ok: "nodes_ok (sample_store NS_CONNECTED)"
    by (simp add: nodes_ok_def row_ok_def sample_store_def sample_node_def col_def NODES_NOT_NULL_def node_state_of_def NODE_STATES_def)
  have wf: "dict_wf (connections sample_manager)"
    and c: "map_of (connections sample_manager) ''n1'' = Some (new_connection 7 10)"
    by (simp_all add: sample_manager_def register_connection_def init_node_manager_def dict_wf_def close_socket_def)
  have s: "node_st (sample_store NS_CONNECTED) ''n1'' = st NS_CONNECTED"
    "node_col (sample_store NS_CONNECTED) ''n1'' ''last_heartbeat'' = Some (SqlReal 0)"
    by (simp_all add: node_st_def node_col_def find_node_def sample_store_def sample_node_def col_def)
  show ?thesis
    using heartbeat_pass [OF ok wf refl refl refl, where n = "''n1''" and ios = "\<lambda>n. sample_io 400" and H = "\<lambda>s. s" and lost = 300 and stale = 86400]
    by (simp add: c s new_connection_def heartbeat_age_def sample_io_def sql_time_def)
qed

theorem disable_refused_after_commit_witness:
  "\<exists>db'. set_disabled (\<lambda>s. s) (sample_io 5) ''n1'' True ''admin'' sample_manager (sample_store NS_LOST) =
     (Inl (InvalidTransition NS_LOST NS_DISABLED), sample_manager, db') \<and> node_col db' ''n1'' ''disabled'' = Some (SqlInt 1)"
proof -
  obtain r m' db' where d: "set_disabled (\<lambda>s. s) (sample_io 5) ''n1'' True ''admin'' sample_manager (sample_store NS_LOST) = (r, m', db')"
    by (cases "set_disabled (\<lambda>s. s) (sample_io 5) ''n1'' True ''admin'' sample_manager (sample_store NS_LOST)") auto
  have "find_node ''n1'' (sample_store NS_LOST) = Some (sample_node NS_LOST)" "col (sample_node NS_LOST) ''state'' = SqlText (node_state_str NS_LOST)"
    "\<not> sql_truthy (col (sample_node NS_LOST) ''disabled'')"
    by (simp_all add: find_node_def sample_store_def sample_node_def col_def sql_truthy_def)
  from disable_refused_after_commit [OF this _ d] d show ?thesis by simp
qed

end
