(* ===== verification/Worker_Session.thy ===== *)
theory Worker_Session
  imports Node_Manager Base64
begin

text \<open>
  The worker's WebSocket session (\<open>src/master/ws/worker_handler.py\<close>), the join tokens
  it consumes (\<open>generate_join_token\<close> and \<open>regenerate_join_token\<close> of
  \<open>src/master/api/nodes.py\<close>) and the reset of the node states at start-up
  (\<open>src/master/lifespan.py\<close>). An enrollment is two steps, before and after the wait for
  the worker's answer to the challenge; other sessions run in between. The fields of the
  messages have their annotated types. Ed25519, SHA-256, the HMAC and the JWT functions
  are parameters.
\<close>

section \<open>State\<close>

record session_env =
  se_jose :: jose
  se_hmac :: hmac
  se_sha256 :: "string \<Rightarrow> string"
  se_ed25519 :: "string \<Rightarrow> string \<Rightarrow> string \<Rightarrow> bool"
  se_security :: security_manager

datatype session_error =
    EnrollmentError nat string
  | SessionNode node_error
  | SessionCrash string

record fingerprint =
  fp_hostname :: string
  fp_machine_id :: string
  fp_arch :: string
  fp_os :: string
  fp_version :: string

record enroll_request =
  er_join_token :: string
  er_worker_token :: string
  er_reconnect :: bool
  er_public_key :: string
  er_fingerprint :: fingerprint

record enroll_ctx =
  ec_node_id :: string
  ec_payload :: "(string, json) dict"
  ec_token_hash :: string
  ec_first :: bool
  ec_challenge :: string
  ec_request :: enroll_request
  ec_remote :: "string option"

record session_io =
  si_node :: node_io
  si_token_now :: time
  si_token_jti :: string
  si_token_id :: string
  si_websocket :: nat
  si_sent :: bool

definition WS_CLOSE_INVALID_TOKEN :: nat where "WS_CLOSE_INVALID_TOKEN = 4400"
definition WS_CLOSE_TOKEN_CONSUMED :: nat where "WS_CLOSE_TOKEN_CONSUMED = 4401"
definition WS_CLOSE_TOKEN_EXPIRED :: nat where "WS_CLOSE_TOKEN_EXPIRED = 4402"
definition WS_CLOSE_REVOKED :: nat where "WS_CLOSE_REVOKED = 4403"
definition WS_CLOSE_SIGNATURE_INVALID :: nat where "WS_CLOSE_SIGNATURE_INVALID = 4410"
definition WS_CLOSE_PROTOCOL_ERROR :: nat where "WS_CLOSE_PROTOCOL_ERROR = 4420"
definition WS_CLOSE_SERVER_ERROR :: nat where "WS_CLOSE_SERVER_ERROR = 4500"

definition close_code :: "session_error \<Rightarrow> nat" where
  \<comment> \<open>the \<open>except\<close> clauses of \<open>worker_join_handler\<close>\<close>
  "close_code e = (case e of EnrollmentError c d \<Rightarrow> c | _ \<Rightarrow> WS_CLOSE_SERVER_ERROR)"

section \<open>Messages and signatures\<close>

definition recv_typed :: "string \<Rightarrow> string \<Rightarrow> session_error + (string, json) dict" where
  \<comment> \<open>a message that arrived in time\<close>
  "recv_typed raw expected =
     (case json_loads raw of
        None \<Rightarrow> Inl (EnrollmentError WS_CLOSE_PROTOCOL_ERROR ''Malformed JSON'')
      | Some (JObj msg) \<Rightarrow>
          if dict_get msg ''type'' JNull = JStr expected then Inr msg
          else Inl (EnrollmentError WS_CLOSE_PROTOCOL_ERROR (''Expected message type '' @ expected))
      | Some _ \<Rightarrow> Inl (SessionCrash ''AttributeError''))"

definition verify_ed25519_signature :: "session_env \<Rightarrow> string \<Rightarrow> string \<Rightarrow> string \<Rightarrow> bool" where
  \<comment> \<open>\<open>se_ed25519 key message signature\<close>; every exception gives \<open>False\<close>\<close>
  "verify_ed25519_signature env public_key_b64 challenge_b64 signature_b64 =
     (case (b64_decode (pad_b64 public_key_b64), b64_decode (pad_b64 challenge_b64), b64_decode (pad_b64 signature_b64)) of
        (Some k, Some c, Some s) \<Rightarrow> se_ed25519 env k c s
      | _ \<Rightarrow> False)"

definition get_node_state :: "string \<Rightarrow> node_store \<Rightarrow> node_error + node_state option" where
  "get_node_state node_id db =
     (case find_node node_id db of
        None \<Rightarrow> Inr None
      | Some r \<Rightarrow> (case node_state_of (col r ''state'') of None \<Rightarrow> Inl (BadNodeState (col r ''state'')) | Some s \<Rightarrow> Inr (Some s)))"

definition payload_str :: "(string, json) dict \<Rightarrow> string \<Rightarrow> string" where
  \<comment> \<open>a text field of a signed payload, \<open>""\<close> when absent\<close>
  "payload_str p k = (case map_of p k of Some (JStr s) \<Rightarrow> s | _ \<Rightarrow> [])"

section \<open>Enrollment\<close>

definition join_token_node :: "session_env \<Rightarrow> time \<Rightarrow> string option \<Rightarrow> string \<Rightarrow> session_error + string \<times> (string, json) dict" where
  \<comment> \<open>steps 2 and 3: signature, expiry and address prefix\<close>
  "join_token_node env now remote token =
     (case decode_join_token (se_hmac env) (se_security env) now token of
        Inl (ValueError msg) \<Rightarrow> Inl (EnrollmentError WS_CLOSE_INVALID_TOKEN msg)
      | Inl e \<Rightarrow> Inl (SessionCrash ''decode_join_token'')
      | Inr payload \<Rightarrow>
          (case map_of payload ''node_id'' of
             Some (JStr node_id) \<Rightarrow>
               (let prefix = payload_str payload ''ip_prefix'' in
                if prefix \<noteq> [] \<and> (case remote of None \<Rightarrow> True | Some r \<Rightarrow> \<not> is_prefix_of prefix r)
                then Inl (EnrollmentError WS_CLOSE_INVALID_TOKEN ''IP prefix restriction violated'')
                else Inr (node_id, payload))
           | _ \<Rightarrow> Inl (SessionCrash ''KeyError'')))"

definition join_token_usable :: "time \<Rightarrow> string \<Rightarrow> string \<Rightarrow> node_store \<Rightarrow> session_error option" where
  \<comment> \<open>step 4\<close>
  "join_token_usable now h node_id db =
     (case sql_fetchone (\<lambda>t. jt_token_hash t = h \<and> jt_node_id t = node_id) (join_tokens db) of
        None \<Rightarrow> Some (EnrollmentError WS_CLOSE_INVALID_TOKEN ''Token not found'')
      | Some t \<Rightarrow>
          if jt_consumed t then Some (EnrollmentError WS_CLOSE_TOKEN_CONSUMED ''Token already consumed'')
          else if jt_expires_at t < now then Some (EnrollmentError WS_CLOSE_TOKEN_EXPIRED ''Token expired'')
          else None)"

definition enrollable :: "node_state option \<Rightarrow> session_error option" where
  \<comment> \<open>step 5\<close>
  "enrollable s =
     (if s = Some NS_REVOKED then Some (EnrollmentError WS_CLOSE_REVOKED ''Node is revoked'')
      else if s \<noteq> None \<and> s \<notin> {Some NS_PENDING, Some NS_LOST, Some NS_STALE, Some NS_RECONNECTING}
      then Some (EnrollmentError WS_CLOSE_PROTOCOL_ERROR ''Node is in unexpected state'')
      else None)"

definition enroll_check ::
  "session_env \<Rightarrow> time \<Rightarrow> string \<Rightarrow> string option \<Rightarrow> enroll_request \<Rightarrow> node_store \<Rightarrow> session_error + enroll_ctx" where
  "enroll_check env now challenge remote req db =
     (if er_public_key req = [] then Inl (EnrollmentError WS_CLOSE_PROTOCOL_ERROR ''Missing public_key'')
      else if er_join_token req = [] then Inl (EnrollmentError WS_CLOSE_PROTOCOL_ERROR ''Missing join_token or worker_token'')
      else
        (case join_token_node env now remote (er_join_token req) of
           Inl e \<Rightarrow> Inl e
         | Inr (node_id, payload) \<Rightarrow>
             (let h = join_token_hash (se_sha256 env) (er_join_token req) in
              case join_token_usable now h node_id db of
                Some e \<Rightarrow> Inl e
              | None \<Rightarrow>
                  (case get_node_state node_id db of
                     Inl e \<Rightarrow> Inl (SessionNode e)
                   | Inr s \<Rightarrow>
                       (case enrollable s of
                          Some e \<Rightarrow> Inl e
                        | None \<Rightarrow>
                            Inr \<lparr>ec_node_id = node_id, ec_payload = payload, ec_token_hash = h, ec_first = (s = None),
                              ec_challenge = challenge, ec_request = req, ec_remote = remote\<rparr>)))))"

definition enroll_begin ::
  "session_env \<Rightarrow> time \<Rightarrow> string \<Rightarrow> string option \<Rightarrow> enroll_request \<Rightarrow> node_store \<Rightarrow> (session_error + enroll_ctx) \<times> node_store" where
  \<comment> \<open>up to the sending of the challenge\<close>
  "enroll_begin env now challenge remote req db =
     (case enroll_check env now challenge remote req db of
        Inl e \<Rightarrow> (Inl e, db)
      | Inr ctx \<Rightarrow>
          if ec_first ctx then (Inr ctx, db)
          else
            (case transition_state now (ec_node_id ctx) NS_ENROLLING [] db of
               (Inl e, db1) \<Rightarrow> (Inl (SessionNode e), db1)
             | (Inr _, db1) \<Rightarrow> (Inr ctx, db1)))"

definition text_or_null :: "string option \<Rightarrow> sqlval" where
  "text_or_null v = (case v of None \<Rightarrow> SqlNull | Some s \<Rightarrow> SqlText s)"

definition first_row :: "time \<Rightarrow> enroll_ctx \<Rightarrow> node_row" where
  "first_row now ctx =
     (let fp = er_fingerprint (ec_request ctx); p = ec_payload ctx; name = payload_str p ''name'' in
      [(''id'', SqlText (ec_node_id ctx)), (''name'', SqlText (if name = [] then fp_hostname fp else name)),
       (''hostname'', SqlText (fp_hostname fp)), (''machine_id'', SqlText (fp_machine_id fp)), (''arch'', SqlText (fp_arch fp)),
       (''os'', SqlText (fp_os fp)), (''public_key'', SqlText (er_public_key (ec_request ctx))),
       (''state'', SqlText (node_state_str NS_CONNECTED)), (''ip_prefix'', SqlText (payload_str p ''ip_prefix'')),
       (''node_group'', SqlText (payload_str p ''group'')), (''last_ip'', text_or_null (ec_remote ctx)),
       (''version'', SqlText (fp_version fp)), (''worker_version'', SqlText (fp_version fp)),
       (''last_heartbeat'', SqlReal now), (''enrolled_at'', SqlReal now), (''created_at'', SqlReal now), (''updated_at'', SqlReal now)])"

definition coalesce_columns :: "string \<Rightarrow> string option \<Rightarrow> node_row" where
  \<comment> \<open>\<open>COALESCE(NULLIF(?, ''), version)\<close> and \<open>COALESCE(?, last_ip)\<close>\<close>
  "coalesce_columns version remote =
     (if version = [] then [] else [(''version'', SqlText version), (''worker_version'', SqlText version)]) @
     (case remote of None \<Rightarrow> [] | Some r \<Rightarrow> [(''last_ip'', SqlText r)])"

definition fingerprint_columns :: "fingerprint \<Rightarrow> node_row" where
  "fingerprint_columns fp =
     [(''hostname'', SqlText (fp_hostname fp)), (''machine_id'', SqlText (fp_machine_id fp)), (''arch'', SqlText (fp_arch fp)), (''os'', SqlText (fp_os fp))]"

definition again_columns :: "time \<Rightarrow> enroll_ctx \<Rightarrow> node_row" where
  "again_columns now ctx =
     (let fp = er_fingerprint (ec_request ctx) in
      fingerprint_columns fp @ [(''public_key'', SqlText (er_public_key (ec_request ctx)))] @
      coalesce_columns (fp_version fp) (ec_remote ctx) @ [(''enrolled_at'', SqlReal now), (''updated_at'', SqlReal now)])"

definition worker_token_for :: "session_env \<Rightarrow> session_io \<Rightarrow> string \<Rightarrow> string \<times> worker_token_row" where
  "worker_token_for env io node_id =
     (let (tok, lc) = generate_worker_token (se_jose env) (se_hmac env) (se_security env) (si_token_now io) (si_token_jti io) node_id
      in (tok, \<lparr>wt_id = si_token_id io, wt_node_id = node_id, wt_token_hash = se_sha256 env tok, wt_issued_at = tl_issued_at lc,
           wt_rotation_due = tl_rotation_due lc, wt_expires_at = tl_expires_at lc, wt_revoked = False, wt_revoked_at = None\<rparr>))"

definition insert_worker_token :: "worker_token_row \<Rightarrow> node_store \<Rightarrow> node_store option" where
  \<comment> \<open>primary key, unique hash and foreign key\<close>
  "insert_worker_token r db =
     (if wt_id r \<in> wt_id ` set (worker_tokens db) \<or> wt_token_hash r \<in> wt_token_hash ` set (worker_tokens db) \<or>
         find_node (wt_node_id r) db = None
      then None else Some (db\<lparr>worker_tokens := worker_tokens db @ [r]\<rparr>))"

definition consume_token :: "string \<Rightarrow> node_store \<Rightarrow> node_store option" where
  \<comment> \<open>\<open>UPDATE join_tokens SET consumed = 1 WHERE token_hash = ? AND consumed = 0\<close>; \<open>None\<close> is no row\<close>
  "consume_token h db =
     (if sql_rowcount (\<lambda>t. jt_token_hash t = h \<and> \<not> jt_consumed t) (join_tokens db) = 0 then None
      else Some (db\<lparr>join_tokens := sql_update (\<lambda>t. jt_token_hash t = h \<and> \<not> jt_consumed t) (\<lambda>t. t\<lparr>jt_consumed := True\<rparr>) (join_tokens db)\<rparr>))"

definition enroll_commit :: "session_env \<Rightarrow> session_io \<Rightarrow> enroll_ctx \<Rightarrow> node_store \<Rightarrow> (session_error + string) \<times> node_store" where
  \<comment> \<open>step 10; an error rolls the transaction back\<close>
  "enroll_commit env io ctx db =
     (case consume_token (ec_token_hash ctx) db of
        None \<Rightarrow> (Inl (EnrollmentError WS_CLOSE_TOKEN_CONSUMED ''Token already consumed''), db)
      | Some db1 \<Rightarrow>
          (case (if ec_first ctx then insert_node (first_row (ni_now (si_node io)) ctx) db1
                 else update_node (ec_node_id ctx) (again_columns (ni_now (si_node io)) ctx) db1) of
             None \<Rightarrow> (Inl (SessionNode NodeIntegrity), db)
           | Some db2 \<Rightarrow>
               (let (tok, row) = worker_token_for env io (ec_node_id ctx) in
                case insert_worker_token row db2 of
                  None \<Rightarrow> (Inl (SessionNode NodeIntegrity), db)
                | Some db3 \<Rightarrow> (Inr tok, db3))))"

definition connect_columns :: "time \<Rightarrow> string option \<Rightarrow> node_row" where
  \<comment> \<open>an empty address is false as well\<close>
  "connect_columns now remote =
     (''last_heartbeat'', SqlReal now) # (case remote of None \<Rightarrow> [] | Some r \<Rightarrow> if r = [] then [] else [(''last_ip'', SqlText r)])"

definition open_connection :: "session_io \<Rightarrow> string \<Rightarrow> string option \<Rightarrow> node_manager \<Rightarrow> node_manager" where
  \<comment> \<open>registration, the remote address, and the clean-up of \<open>_send\<close> when the worker is gone\<close>
  "open_connection io node_id remote m =
     (let m1 = register_connection (ni_now (si_node io)) node_id (si_websocket io) m;
          addr = (case remote of None \<Rightarrow> ''unknown'' | Some r \<Rightarrow> if r = [] then ''unknown'' else r);
          m2 = m1\<lparr>connections := AList.update node_id ((new_connection (si_websocket io) (ni_now (si_node io)))\<lparr>cn_remote_address := addr\<rparr>) (connections m1)\<rparr>
      in if si_sent io then m2 else unregister_connection node_id m2)"

definition enrolled_details :: "enroll_ctx \<Rightarrow> (string, json) dict" where
  "enrolled_details ctx =
     (let fp = er_fingerprint (ec_request ctx) in
      [(''hostname'', JStr (fp_hostname fp)), (''arch'', JStr (fp_arch fp)), (''os'', JStr (fp_os fp)), (''machine_id'', JStr (fp_machine_id fp)),
       (''remote_ip'', (case ec_remote ctx of None \<Rightarrow> JNull | Some r \<Rightarrow> JStr r))])"

definition enroll_complete ::
  "hash \<Rightarrow> session_io \<Rightarrow> enroll_ctx \<Rightarrow> node_manager \<Rightarrow> node_store \<Rightarrow> (session_error + string) \<times> node_manager \<times> node_store" where
  \<comment> \<open>steps 11 to 14\<close>
  "enroll_complete H io ctx m db =
     (let (res, db1) = (if ec_first ctx then (Inr (), db)
            else transition_state (ni_now (si_node io)) (ec_node_id ctx) NS_CONNECTED (connect_columns (ni_now (si_node io)) (ec_remote ctx)) db)
      in case res of
           Inl e \<Rightarrow> (Inl (SessionNode e), m, db1)
         | Inr _ \<Rightarrow>
             (let m1 = open_connection io (ec_node_id ctx) (ec_remote ctx) m;
                  (r, db2) = node_log H (si_node io) ''system'' AA_NODE_ENROLLED (Some (ec_node_id ctx)) (enrolled_details ctx) db1
              in (case r of Inl e \<Rightarrow> Inl (SessionNode e) | Inr _ \<Rightarrow> Inr (ec_node_id ctx), m1, db2)))"

definition enroll_finish ::
  "hash \<Rightarrow> session_env \<Rightarrow> session_io \<Rightarrow> enroll_ctx \<Rightarrow> string \<Rightarrow> node_manager \<Rightarrow> node_store \<Rightarrow> (session_error + string) \<times> node_manager \<times> node_store" where
  \<comment> \<open>from the worker's answer on\<close>
  "enroll_finish H env io ctx signature m db =
     (if signature = [] then (Inl (EnrollmentError WS_CLOSE_PROTOCOL_ERROR ''Missing signature in response''), m, db)
      else if \<not> verify_ed25519_signature env (er_public_key (ec_request ctx)) (ec_challenge ctx) signature
      then (Inl (EnrollmentError WS_CLOSE_SIGNATURE_INVALID ''Signature verification failed''), m, db)
      else
        (case enroll_commit env io ctx db of
           (Inl e, db1) \<Rightarrow> (Inl e, m, db1)
         | (Inr tok, db1) \<Rightarrow> enroll_complete H io ctx m db1))"

section \<open>Reconnection\<close>

definition reconnectable :: "node_state \<Rightarrow> session_error option" where
  "reconnectable s =
     (if s = NS_REVOKED then Some (EnrollmentError WS_CLOSE_REVOKED ''Node is revoked'')
      else if s \<in> {NS_PENDING, NS_ENROLLING, NS_CONNECTED}
      then Some (EnrollmentError WS_CLOSE_PROTOCOL_ERROR ''Node is in unexpected state for reconnect'')
      else None)"

definition reconnect_check :: "session_env \<Rightarrow> time \<Rightarrow> enroll_request \<Rightarrow> node_store \<Rightarrow> session_error + string" where
  \<comment> \<open>R1 to R3; the subject of a worker token is text\<close>
  "reconnect_check env now req db =
     (case verify_worker_token_async (se_jose env) (se_hmac env) (se_sha256 env) (se_security env) now (worker_tokens db) (er_worker_token req) of
        Inl e \<Rightarrow> Inl (EnrollmentError WS_CLOSE_INVALID_TOKEN ''Invalid worker token'')
      | Inr claims \<Rightarrow>
          (let node_id = payload_str claims ''sub'' in
           if node_id = [] then Inl (EnrollmentError WS_CLOSE_PROTOCOL_ERROR ''Worker token missing subject'')
           else
             (case find_node node_id db of
                None \<Rightarrow> Inl (EnrollmentError WS_CLOSE_INVALID_TOKEN ''Node not found for worker token'')
              | Some row \<Rightarrow>
                  if \<not> sql_truthy (col row ''public_key'')
                  then Inl (EnrollmentError WS_CLOSE_PROTOCOL_ERROR ''Node has no stored public key (not enrolled)'')
                  else if col row ''public_key'' \<noteq> SqlText (er_public_key req)
                  then Inl (EnrollmentError WS_CLOSE_SIGNATURE_INVALID ''Public key mismatch'')
                  else
                    (case node_state_of (col row ''state'') of
                       None \<Rightarrow> Inl (SessionNode (BadNodeState (col row ''state'')))
                     | Some s \<Rightarrow> (case reconnectable s of Some e \<Rightarrow> Inl e | None \<Rightarrow> Inr node_id)))))"

definition reconnect_columns :: "time \<Rightarrow> enroll_request \<Rightarrow> string option \<Rightarrow> node_row" where
  "reconnect_columns now req remote =
     (let fp = er_fingerprint req in
      fingerprint_columns fp @ coalesce_columns (fp_version fp) remote @ [(''updated_at'', SqlReal now)])"

definition revoke_worker_token :: "time \<Rightarrow> string \<Rightarrow> node_store \<Rightarrow> node_store" where
  "revoke_worker_token now h db =
     db\<lparr>worker_tokens := sql_update (\<lambda>t. wt_token_hash t = h) (\<lambda>t. t\<lparr>wt_revoked := True, wt_revoked_at := Some now\<rparr>) (worker_tokens db)\<rparr>"

definition rotate_worker_token :: "session_env \<Rightarrow> session_io \<Rightarrow> string \<Rightarrow> string \<Rightarrow> node_store \<Rightarrow> (node_error + string) \<times> node_store" where
  \<comment> \<open>the transaction of a rotation: revoke the old token, insert the new one\<close>
  "rotate_worker_token env io node_id old_hash db =
     (let (tok, row) = worker_token_for env io node_id in
      case insert_worker_token row (revoke_worker_token (ni_now (si_node io)) old_hash db) of
        None \<Rightarrow> (Inl NodeIntegrity, db)
      | Some db1 \<Rightarrow> (Inr tok, db1))"

definition reconnect_commit ::
  "session_env \<Rightarrow> session_io \<Rightarrow> string \<Rightarrow> string option \<Rightarrow> enroll_request \<Rightarrow> node_store \<Rightarrow> (session_error + string) \<times> node_store" where
  \<comment> \<open>R5\<close>
  "reconnect_commit env io node_id remote req db =
     (case update_node node_id (reconnect_columns (ni_now (si_node io)) req remote) db of
        None \<Rightarrow> (Inl (SessionNode NodeIntegrity), db)
      | Some db1 \<Rightarrow>
          (case rotate_worker_token env io node_id (se_sha256 env (er_worker_token req)) db1 of
             (Inl e, _) \<Rightarrow> (Inl (SessionNode e), db)
           | (Inr tok, db2) \<Rightarrow> (Inr tok, db2)))"

definition reconnected_details :: "session_io \<Rightarrow> string \<Rightarrow> string option \<Rightarrow> node_store \<Rightarrow> (string, json) dict" where
  "reconnected_details io node_id remote db =
     [(''token_id'', JStr (si_token_id io)),
      (''reconnection_count'', JInt (int (length (filter (\<lambda>e. ae_action e = ''NODE_RECONNECTED'' \<and> ae_node_id e = Some node_id) (node_audit db))) + 1)),
      (''remote_ip'', (case remote of None \<Rightarrow> JNull | Some r \<Rightarrow> JStr r))]"

definition reconnect_complete ::
  "hash \<Rightarrow> session_io \<Rightarrow> string \<Rightarrow> string option \<Rightarrow> node_manager \<Rightarrow> node_store \<Rightarrow> (session_error + string) \<times> node_manager \<times> node_store" where
  \<comment> \<open>R6 to R9\<close>
  "reconnect_complete H io node_id remote m db =
     (case transition_state (ni_now (si_node io)) node_id NS_CONNECTED (connect_columns (ni_now (si_node io)) remote) db of
        (Inl e, db1) \<Rightarrow> (Inl (SessionNode e), m, db1)
      | (Inr _, db1) \<Rightarrow>
          (let m1 = open_connection io node_id remote m;
               (r, db2) = node_log H (si_node io) ''system'' AA_NODE_RECONNECTED (Some node_id) (reconnected_details io node_id remote db1) db1
           in (case r of Inl e \<Rightarrow> Inl (SessionNode e) | Inr _ \<Rightarrow> Inr node_id, m1, db2)))"

definition run_reconnect ::
  "hash \<Rightarrow> session_env \<Rightarrow> session_io \<Rightarrow> string option \<Rightarrow> enroll_request \<Rightarrow> node_manager \<Rightarrow> node_store \<Rightarrow>
     (session_error + string) \<times> node_manager \<times> node_store" where
  "run_reconnect H env io remote req m db =
     (if er_public_key req = [] then (Inl (EnrollmentError WS_CLOSE_PROTOCOL_ERROR ''Missing public_key''), m, db)
      else
        (case reconnect_check env (ni_now (si_node io)) req db of
           Inl e \<Rightarrow> (Inl e, m, db)
         | Inr node_id \<Rightarrow>
             (case transition_state (ni_now (si_node io)) node_id NS_ENROLLING [] db of
                (Inl e, db1) \<Rightarrow> (Inl (SessionNode e), m, db1)
              | (Inr _, db1) \<Rightarrow>
                  (case reconnect_commit env io node_id remote req db1 of
                     (Inl e, db2) \<Rightarrow> (Inl e, m, db2)
                   | (Inr tok, db2) \<Rightarrow> reconnect_complete H io node_id remote m db2))))"

section \<open>The end of a session\<close>

definition session_end :: "time \<Rightarrow> string option \<Rightarrow> node_manager \<Rightarrow> node_store \<Rightarrow> node_manager \<times> node_store" where
  \<comment> \<open>the \<open>finally\<close> of \<open>worker_join_handler\<close>: \<open>node_id\<close> is what the enrollment returned\<close>
  "session_end now node_id m db =
     (case node_id of
        None \<Rightarrow> (m, db)
      | Some n \<Rightarrow>
          (unregister_connection n m,
           (case get_node_state n db of
              Inr (Some NS_CONNECTED) \<Rightarrow> snd (transition_state now n NS_RECONNECTING [] db)
            | Inr (Some NS_ENROLLING) \<Rightarrow> snd (transition_state now n NS_PENDING [] db)
            | _ \<Rightarrow> db)))"

section \<open>Heartbeats\<close>

definition newest_token :: "string \<Rightarrow> node_store \<Rightarrow> worker_token_row option" where
  \<comment> \<open>\<open>ORDER BY issued_at DESC LIMIT 1\<close> of the unrevoked tokens\<close>
  "newest_token node_id db =
     foldl (\<lambda>best t. case best of None \<Rightarrow> Some t | Some b \<Rightarrow> if wt_issued_at b < wt_issued_at t then Some t else best) None
       (filter (\<lambda>t. wt_node_id t = node_id \<and> \<not> wt_revoked t) (worker_tokens db))"

definition on_heartbeat ::
  "session_env \<Rightarrow> session_io \<Rightarrow> string \<Rightarrow> string option \<Rightarrow> node_manager \<Rightarrow> node_store \<Rightarrow> string option \<times> node_manager \<times> node_store" where
  \<comment> \<open>the result is the rotated token sent to the worker, if any; a failed rotation is only logged\<close>
  "on_heartbeat env io node_id version m db =
     (let now = ni_now (si_node io);
          m1 = touch_heartbeat now node_id m;
          m2 = (if si_sent io then m1 else unregister_connection node_id m1);
          db1 = (case version of
                   None \<Rightarrow> db
                 | Some v \<Rightarrow> if v = [] then db
                     else (case update_node node_id [(''worker_version'', SqlText v), (''updated_at'', SqlReal now)] db of None \<Rightarrow> db | Some d \<Rightarrow> d))
      in case newest_token node_id db1 of
           None \<Rightarrow> (None, m2, db1)
         | Some t \<Rightarrow>
             if wt_rotation_due t < now then
               (case rotate_worker_token env io node_id (wt_token_hash t) db1 of
                  (Inl e, db2) \<Rightarrow> (None, m2, db2)
                | (Inr tok, db2) \<Rightarrow> (Some tok, m2, db2))
             else (None, m2, db1))"

section \<open>Join tokens and start-up\<close>

definition insert_join_token :: "join_token_row \<Rightarrow> node_store \<Rightarrow> node_store option" where
  "insert_join_token t db =
     (if jt_id t \<in> jt_id ` set (join_tokens db) \<or> jt_token_hash t \<in> jt_token_hash ` set (join_tokens db) then None
      else Some (db\<lparr>join_tokens := join_tokens db @ [t]\<rparr>))"

definition issue_join_token ::
  "session_env \<Rightarrow> time \<Rightarrow> string \<Rightarrow> string \<Rightarrow> string \<Rightarrow> string \<Rightarrow> string \<Rightarrow> string \<Rightarrow> node_store \<Rightarrow> (node_error + string) \<times> node_store" where
  \<comment> \<open>the insert that \<open>generate_join_token\<close> and \<open>regenerate_join_token\<close> share\<close>
  "issue_join_token env now jti token_id node_id ip_prefix name grp db =
     (let token = fst (generate_join_token (se_hmac env) (se_security env) now jti node_id ip_prefix name grp)
      in case insert_join_token \<lparr>jt_id = token_id, jt_node_id = node_id, jt_token_hash = join_token_hash (se_sha256 env) token,
              jt_payload_b64 = (case split_once (CHR ''.'') token of None \<Rightarrow> [] | Some (_, b) \<Rightarrow> b), jt_consumed = False,
              jt_expires_at = of_int (py_trunc now + join_token_ttl (se_security env)), jt_created_at = now\<rparr> db of
           None \<Rightarrow> (Inl NodeIntegrity, db)
         | Some db1 \<Rightarrow> (Inr token, db1))"

definition reset_on_startup :: "node_store \<Rightarrow> node_store" where
  "reset_on_startup db =
     db\<lparr>nodes := sql_update (\<lambda>r. col r ''state'' \<in> {SqlText (node_state_str NS_CONNECTED), SqlText (node_state_str NS_ENROLLING), SqlText (node_state_str NS_RECONNECTING)})
       (\<lambda>r. AList.update ''state'' (SqlText (node_state_str NS_LOST)) r) (nodes db)\<rparr>"

section \<open>Runs of the fleet\<close>

text \<open>
  The events of the master that touch the nodes: operators' actions, sessions of workers
  (an enrollment waits between its two steps), the periodic pass, a restart. \<open>fl_used\<close>
  lists the hash of the join token of every committed enrollment.
\<close>

record fleet =
  fl_mgr :: node_manager
  fl_db :: node_store
  fl_waiting :: "(nat, enroll_ctx) dict"
  fl_used :: "string list"

datatype fleet_event =
    FeCreate time string string string string
  | FeIssue time string string string string string string
  | FeInvalidate time string
  | FeBegin nat time string "string option" enroll_request
  | FeFinish nat session_io string
  | FeReconnect session_io "string option" enroll_request
  | FeEnd time "string option"
  | FeHeartbeat session_io string "string option"
  | FeConfigure node_io string string "string option"
  | FeDisable node_io string bool string
  | FePatch node_io string "string option" "string option" string
  | FeDelete node_io string string
  | FePass "string \<Rightarrow> node_io" time time
  | FeRestart

definition fleet_put :: "fleet \<Rightarrow> node_manager \<times> node_store \<Rightarrow> fleet" where
  "fleet_put w s = w\<lparr>fl_mgr := fst s, fl_db := snd s\<rparr>"

definition fleet_finish :: "hash \<Rightarrow> session_env \<Rightarrow> nat \<Rightarrow> session_io \<Rightarrow> string \<Rightarrow> fleet \<Rightarrow> fleet" where
  "fleet_finish H env sid io signature w =
     (case map_of (fl_waiting w) sid of
        None \<Rightarrow> w
      | Some ctx \<Rightarrow>
          (let (r, m, db) = enroll_finish H env io ctx signature (fl_mgr w) (fl_db w);
               committed = (signature \<noteq> [] \<and> verify_ed25519_signature env (er_public_key (ec_request ctx)) (ec_challenge ctx) signature \<and>
                 \<not> isl (fst (enroll_commit env io ctx (fl_db w))))
           in w\<lparr>fl_mgr := m, fl_db := db, fl_waiting := AList.delete sid (fl_waiting w),
                fl_used := fl_used w @ (if committed then [ec_token_hash ctx] else [])\<rparr>))"

fun fleet_apply :: "hash \<Rightarrow> session_env \<Rightarrow> fleet_event \<Rightarrow> fleet \<Rightarrow> fleet" where
  "fleet_apply H env (FeCreate now uuid name ip grp) w = w\<lparr>fl_db := snd (create_node now uuid name ip grp (fl_db w))\<rparr>"
| "fleet_apply H env (FeIssue now jti tid n ip name grp) w = w\<lparr>fl_db := snd (issue_join_token env now jti tid n ip name grp (fl_db w))\<rparr>"
| "fleet_apply H env (FeInvalidate now n) w = w\<lparr>fl_db := snd (invalidate_join_tokens now n (fl_db w))\<rparr>"
| "fleet_apply H env (FeBegin sid now ch remote req) w =
     (case enroll_begin env now ch remote req (fl_db w) of
        (Inl e, db) \<Rightarrow> w\<lparr>fl_db := db\<rparr>
      | (Inr ctx, db) \<Rightarrow> w\<lparr>fl_db := db, fl_waiting := AList.update sid ctx (fl_waiting w)\<rparr>)"
| "fleet_apply H env (FeFinish sid io signature) w = fleet_finish H env sid io signature w"
| "fleet_apply H env (FeReconnect io remote req) w = fleet_put w (snd (run_reconnect H env io remote req (fl_mgr w) (fl_db w)))"
| "fleet_apply H env (FeEnd now n) w = fleet_put w (session_end now n (fl_mgr w) (fl_db w))"
| "fleet_apply H env (FeHeartbeat io n v) w = fleet_put w (snd (on_heartbeat env io n v (fl_mgr w) (fl_db w)))"
| "fleet_apply H env (FeConfigure io n name grp) w = w\<lparr>fl_db := snd (configure_node H io n name grp (fl_db w))\<rparr>"
| "fleet_apply H env (FeDisable io n flag user) w = fleet_put w (snd (set_disabled H io n flag user (fl_mgr w) (fl_db w)))"
| "fleet_apply H env (FePatch io n name grp user) w = w\<lparr>fl_db := snd (patch_metadata H io n name grp user (fl_db w))\<rparr>"
| "fleet_apply H env (FeDelete io n user) w = fleet_put w (snd (delete_node H io n user (fl_mgr w) (fl_db w)))"
| "fleet_apply H env (FePass ios lost stale) w = fleet_put w (check_heartbeats H ios lost stale (fl_mgr w, fl_db w))"
| "fleet_apply H env FeRestart w =
     w\<lparr>fl_mgr := init_node_manager None, fl_db := reset_on_startup (fl_db w), fl_waiting := []\<rparr>"

definition fleet_run :: "hash \<Rightarrow> session_env \<Rightarrow> fleet_event list \<Rightarrow> fleet \<Rightarrow> fleet" where
  "fleet_run H env es w = fold (fleet_apply H env) es w"

section \<open>Sessions follow the lifecycle\<close>

lemma lawful_tokens: "lawful db (db\<lparr>worker_tokens := ts\<rparr>)" "lawful db (db\<lparr>join_tokens := js\<rparr>)"
  by (rule lawful_same_nodes, simp)+

lemma lawful_begin [lawful_intros]: "lawful db (snd (enroll_begin env now ch remote req db))"
proof -
  have "lawful db (snd (transition_state now n NS_ENROLLING [] db))" for n
    by (rule lawful_transition) (simp add: dict_keys_def)
  then show ?thesis by (auto simp: enroll_begin_def split: sum.split prod.split) (metis snd_conv)+
qed

lemma connect_columns_state: "''state'' \<notin> set (dict_keys (connect_columns now remote))"
  by (cases remote) (simp_all add: connect_columns_def dict_keys_def)

lemma coalesce_columns_keys: "set (dict_keys (coalesce_columns v r)) \<subseteq> {''version'', ''worker_version'', ''last_ip''}"
  by (auto simp: coalesce_columns_def dict_keys_def split: if_splits option.splits)

lemma lawful_consume: "consume_token h db = Some db' \<Longrightarrow> lawful db db'"
  by (auto simp: consume_token_def lawful_tokens split: if_splits)

lemma lawful_insert_worker_token: "insert_worker_token r db = Some db' \<Longrightarrow> lawful db db'"
  by (auto simp: insert_worker_token_def lawful_tokens split: if_splits)

lemma first_row_columns:
  "col (dict_merge nodes_defaults (first_row now ctx)) ''id'' = SqlText (ec_node_id ctx)"
  "col (dict_merge nodes_defaults (first_row now ctx)) ''state'' = SqlText (node_state_str NS_CONNECTED)"
  "col (dict_merge nodes_defaults (first_row now ctx)) ''public_key'' = SqlText (er_public_key (ec_request ctx))"
  by (simp_all add: first_row_def Let_def col_update)

lemma again_columns_keys: "''id'' \<notin> set (dict_keys (again_columns now ctx))" "''state'' \<notin> set (dict_keys (again_columns now ctx))"
  using coalesce_columns_keys [of "fp_version (er_fingerprint (ec_request ctx))" "ec_remote ctx"]
  by (auto simp: again_columns_def fingerprint_columns_def Let_def dict_keys_def)

lemma reconnect_columns_keys: "''id'' \<notin> set (dict_keys (reconnect_columns now req remote))" "''state'' \<notin> set (dict_keys (reconnect_columns now req remote))"
  using coalesce_columns_keys [of "fp_version (er_fingerprint req)" remote]
  by (auto simp: reconnect_columns_def fingerprint_columns_def Let_def dict_keys_def)

lemma enroll_commit_steps:
  assumes "enroll_commit env io ctx db = (Inr tok, db')"
  obtains db1 db2 where "consume_token (ec_token_hash ctx) db = Some db1"
    and "(if ec_first ctx then insert_node (first_row (ni_now (si_node io)) ctx) db1
          else update_node (ec_node_id ctx) (again_columns (ni_now (si_node io)) ctx) db1) = Some db2"
    and "insert_worker_token (snd (worker_token_for env io (ec_node_id ctx))) db2 = Some db'"
  using assms by (auto simp: enroll_commit_def split: option.splits prod.splits)

lemma enroll_commit_error: "enroll_commit env io ctx db = (Inl e, db') \<Longrightarrow> db' = db"
  by (auto simp: enroll_commit_def split: option.splits prod.splits)

lemma lawful_commit [lawful_intros]: "lawful db (snd (enroll_commit env io ctx db))"
proof (cases "enroll_commit env io ctx db")
  case (Pair r db')
  show ?thesis
  proof (cases r)
    case (Inr tok)
    with Pair obtain db1 db2 where s: "consume_token (ec_token_hash ctx) db = Some db1"
      "(if ec_first ctx then insert_node (first_row (ni_now (si_node io)) ctx) db1
        else update_node (ec_node_id ctx) (again_columns (ni_now (si_node io)) ctx) db1) = Some db2"
      "insert_worker_token (snd (worker_token_for env io (ec_node_id ctx))) db2 = Some db'"
      by (auto elim: enroll_commit_steps)
    have "lawful db1 db2"
      using s(2) lawful_insert [OF _ first_row_columns(1,2)] lawful_update [OF _ again_columns_keys] by (auto split: if_splits)
    with lawful_consume [OF s(1)] lawful_insert_worker_token [OF s(3)] Pair show ?thesis by (auto intro: lawful_trans)
  qed (use Pair enroll_commit_error in fastforce)
qed

lemma lawful_complete [lawful_intros]: "lawful db (snd (snd (enroll_complete H io ctx m db)))"
proof -
  let ?t = "if ec_first ctx then (Inr (), db)
    else transition_state (ni_now (si_node io)) (ec_node_id ctx) NS_CONNECTED (connect_columns (ni_now (si_node io)) (ec_remote ctx)) db"
  have t: "lawful db (snd ?t)" by (simp add: lawful_transition connect_columns_state)
  show ?thesis
    using t lawful_trans [OF t lawful_log] by (cases ?t) (auto simp: enroll_complete_def Let_def split_def split: sum.split)
qed

lemma lawful_finish [lawful_intros]: "lawful db (snd (snd (enroll_finish H env io ctx sg m db)))"
proof -
  let ?c = "enroll_commit env io ctx db"
  have c: "lawful db (snd ?c)" by (rule lawful_commit)
  have "lawful db (snd (snd (enroll_complete H io ctx m (snd ?c))))" by (rule lawful_trans [OF c lawful_complete])
  with c show ?thesis by (cases ?c) (auto simp: enroll_finish_def split: sum.split)
qed

lemma lawful_rotate [lawful_intros]: "lawful db (snd (rotate_worker_token env io n h db))"
proof -
  have "lawful db (revoke_worker_token now h db)" for now by (simp add: revoke_worker_token_def lawful_tokens)
  then show ?thesis
    by (auto simp: rotate_worker_token_def Let_def split: prod.split option.split intro: lawful_trans lawful_insert_worker_token)
qed

lemma lawful_reconnect_commit [lawful_intros]: "lawful db (snd (reconnect_commit env io n remote req db))"
proof (cases "update_node n (reconnect_columns (ni_now (si_node io)) req remote) db")
  case (Some db1)
  let ?r = "rotate_worker_token env io n (se_sha256 env (er_worker_token req)) db1"
  have "lawful db (snd ?r)" by (rule lawful_trans [OF lawful_update [OF Some reconnect_columns_keys] lawful_rotate])
  with Some show ?thesis by (cases ?r) (auto simp: reconnect_commit_def split: sum.split)
qed (simp add: reconnect_commit_def)

lemma lawful_reconnect_complete [lawful_intros]: "lawful db (snd (snd (reconnect_complete H io n remote m db)))"
proof -
  let ?t = "transition_state (ni_now (si_node io)) n NS_CONNECTED (connect_columns (ni_now (si_node io)) remote) db"
  have t: "lawful db (snd ?t)" by (rule lawful_transition) (rule connect_columns_state)
  show ?thesis
    using t lawful_trans [OF t lawful_log] by (cases ?t) (auto simp: reconnect_complete_def Let_def split_def split: sum.split)
qed

lemma lawful_reconnect [lawful_intros]: "lawful db (snd (snd (run_reconnect H env io remote req m db)))"
proof (cases "reconnect_check env (ni_now (si_node io)) req db")
  case (Inr n)
  let ?t = "transition_state (ni_now (si_node io)) n NS_ENROLLING [] db"
  let ?c = "reconnect_commit env io n remote req (snd ?t)"
  have t: "lawful db (snd ?t)" by (rule lawful_transition) (simp add: dict_keys_def)
  have c: "lawful db (snd ?c)" by (rule lawful_trans [OF t lawful_reconnect_commit])
  have f: "lawful db (snd (snd (reconnect_complete H io n remote m (snd ?c))))" by (rule lawful_trans [OF c lawful_reconnect_complete])
  show ?thesis using Inr t c f
    by (cases ?t; cases ?c) (auto simp: run_reconnect_def split: sum.split)
qed (simp add: run_reconnect_def)

lemma lawful_session_end [lawful_intros]: "lawful db (snd (session_end now n m db))"
  by (auto simp: session_end_def dict_keys_def intro: lawful_transition split: option.split sum.split node_state.split)

lemma lawful_on_heartbeat [lawful_intros]: "lawful db (snd (snd (on_heartbeat env io n v m db)))"
proof -
  define db1 where "db1 = (case v of None \<Rightarrow> db | Some v \<Rightarrow> if v = [] then db
    else (case update_node n [(''worker_version'', SqlText v), (''updated_at'', SqlReal (ni_now (si_node io)))] db of None \<Rightarrow> db | Some d \<Rightarrow> d))"
  have 1: "lawful db db1"
    unfolding db1_def by (auto simp: dict_keys_def intro: lawful_update split: option.split)
  have r: "lawful db (snd (rotate_worker_token env io n h db1))" for h by (rule lawful_trans [OF 1 lawful_rotate])
  have "snd (snd (on_heartbeat env io n v m db)) = db1 \<or> (\<exists>h. snd (snd (on_heartbeat env io n v m db)) = snd (rotate_worker_token env io n h db1))"
    unfolding on_heartbeat_def Let_def db1_def [symmetric] by (auto split: option.split prod.split sum.split) (metis snd_conv)+
  with 1 r show ?thesis by metis
qed

lemma lawful_issue [lawful_intros]: "lawful db (snd (issue_join_token env now jti tid n ip name grp db))"
  by (auto simp: issue_join_token_def Let_def insert_join_token_def lawful_tokens)

lemma lawful_reset [lawful_intros]: "lawful db (reset_on_startup db)"
proof -
  define f where "f r = (if col r ''state'' \<in> {SqlText (node_state_str NS_CONNECTED), SqlText (node_state_str NS_ENROLLING), SqlText (node_state_str NS_RECONNECTING)}
    then AList.update ''state'' (SqlText (node_state_str NS_LOST)) r else r)" for r
  have db: "nodes (reset_on_startup db) = map f (nodes db)" by (simp add: reset_on_startup_def sql_update_def f_def)
  have id: "col (f r) ''id'' = col r ''id''" for r by (simp add: f_def col_update)
  have ok: "row_ok (f r)" if "row_ok r" for r using that by (auto simp: f_def row_ok_def col_update simp del: node_state_str.simps)
  have life: "lifecycle\<^sup>*\<^sup>* (Some (col r ''state'')) (Some (col (f r) ''state''))" for r
    using lifecycle.restart [of NS_CONNECTED] lifecycle.restart [of NS_ENROLLING] lifecycle.restart [of NS_RECONNECTING]
    by (auto simp: f_def col_update simp del: node_state_str.simps)
  have "map (\<lambda>r. col r ''id'') (nodes (reset_on_startup db)) = map (\<lambda>r. col r ''id'') (nodes db)" unfolding db map_map o_def id ..
  then have "nodes_ok db \<longrightarrow> nodes_ok (reset_on_startup db)" using ok by (simp add: nodes_ok_def) (simp add: db)
  moreover have "sql_fetchone (\<lambda>r. col r ''id'' = SqlText n) (map f rs) = map_option f (sql_fetchone (\<lambda>r. col r ''id'' = SqlText n) rs)" for n rs
    using id by (induction rs) auto
  then have "lifecycle\<^sup>*\<^sup>* (node_st db n) (node_st (reset_on_startup db) n)" for n
    using life by (cases "find_node n db") (simp_all add: node_st_def node_col_def find_node_def db del: sql_fetchone_None_iff)
  ultimately show ?thesis by (simp add: lawful_def)
qed

lemma lawful_apply: "lawful (fl_db w) (fl_db (fleet_apply H env e w))"
proof (cases e)
  case (FeBegin sid now ch remote req)
  then show ?thesis using lawful_begin [of "fl_db w" env now ch remote req]
    by (auto split: prod.split sum.split)
next
  case (FeFinish sid io sg)
  have "lawful (fl_db w) (snd (snd (enroll_finish H env io ctx sg (fl_mgr w) (fl_db w))))" for ctx by (rule lawful_finish)
  with FeFinish show ?thesis by (auto simp: fleet_finish_def Let_def split_def split: option.split)
qed (use lawful_intros lawful_heartbeats [of "(fl_mgr w, fl_db w)" H] in \<open>simp_all add: fleet_put_def\<close>)

lemma lawful_run: "lawful (fl_db w) (fl_db (fleet_run H env es w))"
  unfolding fleet_run_def
proof (induction es arbitrary: w)
  case (Cons e es)
  from lawful_trans [OF lawful_apply Cons [of "fleet_apply H env e w"]] show ?case by simp
qed simp

section \<open>A join token is used once\<close>

definition spent :: "string \<Rightarrow> node_store \<Rightarrow> bool" where
  "spent h db \<longleftrightarrow> h \<in> jt_token_hash ` set (join_tokens db) \<and> (\<forall>t \<in> set (join_tokens db). jt_token_hash t = h \<longrightarrow> jt_consumed t)"

lemma spent_same: "join_tokens db' = join_tokens db \<Longrightarrow> spent h db' = spent h db"
  by (simp add: spent_def)

named_theorems same_join_tokens \<open>operations that leave the join tokens alone\<close>

lemma jt_transition [same_join_tokens]: "join_tokens (snd (transition_state now n new extra db)) = join_tokens db"
  by (auto simp: transition_state_def split: option.split dest: update_node_fields)

lemma jt_insert: "insert_node columns db = Some db' \<Longrightarrow> join_tokens db' = join_tokens db"
  by (auto simp: insert_node_def Let_def split: if_splits)

lemma jt_create [same_join_tokens]: "join_tokens (snd (create_node now uuid name ip grp db)) = join_tokens db"
  by (auto simp: create_node_def split: option.split dest: jt_insert)

lemma jt_configure [same_join_tokens]: "join_tokens (snd (configure_node H io n name grp db)) = join_tokens db"
proof -
  let ?g = "case grp of None \<Rightarrow> [] | Some s \<Rightarrow> s"
  let ?t = "transition_state (ni_now io) n NS_CONNECTED [(''name'', SqlText name), (''node_group'', SqlText ?g)] db"
  have "join_tokens (snd ?t) = join_tokens db" by (rule jt_transition)
  then show ?thesis by (cases ?t) (auto simp: configure_node_def Let_def split: sum.split)
qed

lemma jt_finish_disable: "join_tokens (snd (snd (finish_disable H io n d u cur m db))) = join_tokens db"
proof -
  let ?t = "case disable_target d cur (is_connected n m) of None \<Rightarrow> (Inr (), db) | Some t \<Rightarrow> transition_state (ni_now io) n t [] db"
  have "join_tokens (snd ?t) = join_tokens db" by (simp add: jt_transition split: option.split)
  then show ?thesis by (cases ?t) (auto simp: finish_disable_def Let_def split_def split: sum.split)
qed

lemma jt_set_disabled [same_join_tokens]: "join_tokens (snd (snd (set_disabled H io n d u m db))) = join_tokens db"
  by (auto simp: set_disabled_def jt_finish_disable split: option.split dest: update_node_fields)

lemma jt_patch [same_join_tokens]: "join_tokens (snd (patch_metadata H io n name grp u db)) = join_tokens db"
proof -
  let ?l = "node_log H io u AA_UPDATE_NODE (Some n) (patch_details name grp) db"
  have l: "join_tokens (snd ?l) = join_tokens db" by simp
  show ?thesis
    using l by (cases ?l) (auto simp: patch_metadata_def Let_def split: option.split sum.split dest: update_node_fields)
qed

lemma jt_mark_stale: "join_tokens (mark_stale H io th r db) = join_tokens db"
proof -
  let ?t = "transition_state (ni_now io) (row_id r) NS_STALE [] db"
  have "join_tokens (snd ?t) = join_tokens db" by (rule jt_transition)
  then show ?thesis by (cases ?t) (auto simp: mark_stale_def Let_def split: sum.split)
qed

lemma jt_mark_lost: "join_tokens (snd (mark_lost H io th nc s)) = join_tokens (snd s)"
proof -
  let ?t = "transition_state (ni_now io) (fst nc) NS_LOST [] (snd s)"
  have "join_tokens (snd ?t) = join_tokens (snd s)" by (rule jt_transition)
  then show ?thesis by (cases nc; cases s; cases ?t) (auto simp: mark_lost_def Let_def split: sum.split)
qed

lemma jt_heartbeats [same_join_tokens]: "join_tokens (snd (check_heartbeats H ios lost stale s)) = join_tokens (snd s)"
proof -
  have "join_tokens (snd (fold (\<lambda>(n, c). mark_lost H (ios n) lost (n, c)) xs s)) = join_tokens (snd s)" for xs s
    by (induction xs arbitrary: s) (auto simp: jt_mark_lost split: prod.split)
  moreover have "join_tokens (fold (\<lambda>r. mark_stale H (ios (row_id r)) stale r) rs db) = join_tokens db" for rs db
    by (induction rs arbitrary: db) (auto simp: jt_mark_stale)
  ultimately show ?thesis by (simp add: check_heartbeats_def Let_def split_def)
qed

lemma jt_begin [same_join_tokens]: "join_tokens (snd (enroll_begin env now ch remote req db)) = join_tokens db"
  using jt_transition [of now _ NS_ENROLLING "[]" db]
  by (auto simp: enroll_begin_def split: sum.split prod.split) (metis snd_conv)+

lemma jt_complete [same_join_tokens]: "join_tokens (snd (snd (enroll_complete H io ctx m db))) = join_tokens db"
proof -
  let ?t = "if ec_first ctx then (Inr (), db)
    else transition_state (ni_now (si_node io)) (ec_node_id ctx) NS_CONNECTED (connect_columns (ni_now (si_node io)) (ec_remote ctx)) db"
  have "join_tokens (snd ?t) = join_tokens db" by (simp add: jt_transition)
  then show ?thesis by (cases ?t) (auto simp: enroll_complete_def Let_def split_def split: sum.split)
qed

lemma jt_rotate: "join_tokens (snd (rotate_worker_token env io n h db)) = join_tokens db"
  by (auto simp: rotate_worker_token_def Let_def insert_worker_token_def revoke_worker_token_def split: prod.split)

lemma jt_reconnect [same_join_tokens]: "join_tokens (snd (snd (run_reconnect H env io remote req m db))) = join_tokens db"
proof (cases "reconnect_check env (ni_now (si_node io)) req db")
  case (Inr n)
  let ?t = "transition_state (ni_now (si_node io)) n NS_ENROLLING [] db"
  let ?c = "reconnect_commit env io n remote req (snd ?t)"
  have t: "join_tokens (snd ?t) = join_tokens db" by (rule jt_transition)
  have "join_tokens (snd (reconnect_commit env io n remote req d)) = join_tokens d" for d
  proof (cases "update_node n (reconnect_columns (ni_now (si_node io)) req remote) d")
    case (Some d1)
    let ?r = "rotate_worker_token env io n (se_sha256 env (er_worker_token req)) d1"
    from jt_rotate [of env io n _ d1] update_node_fields [OF Some] Some show ?thesis
      by (cases ?r) (auto simp: reconnect_commit_def split: sum.split, metis snd_conv)
  qed (simp add: reconnect_commit_def)
  with t have c: "join_tokens (snd ?c) = join_tokens db" by simp
  have "join_tokens (snd (snd (reconnect_complete H io n remote m d))) = join_tokens d" for d
  proof -
    let ?u = "transition_state (ni_now (si_node io)) n NS_CONNECTED (connect_columns (ni_now (si_node io)) remote) d"
    have "join_tokens (snd ?u) = join_tokens d" by (rule jt_transition)
    then show ?thesis by (cases ?u) (auto simp: reconnect_complete_def Let_def split_def split: sum.split)
  qed
  with c have f: "join_tokens (snd (snd (reconnect_complete H io n remote m (snd ?c)))) = join_tokens db" by simp
  show ?thesis using Inr t c f by (cases ?t; cases ?c) (auto simp: run_reconnect_def split: sum.split)
qed (simp add: run_reconnect_def)

lemma jt_session_end [same_join_tokens]: "join_tokens (snd (session_end now n m db)) = join_tokens db"
  by (auto simp: session_end_def jt_transition split: option.split sum.split node_state.split)

lemma jt_reset [same_join_tokens]: "join_tokens (reset_on_startup db) = join_tokens db"
  by (simp add: reset_on_startup_def)

lemma jt_on_heartbeat [same_join_tokens]: "join_tokens (snd (snd (on_heartbeat env io n v m db))) = join_tokens db"
proof -
  define db1 where "db1 = (case v of None \<Rightarrow> db | Some v \<Rightarrow> if v = [] then db
    else (case update_node n [(''worker_version'', SqlText v), (''updated_at'', SqlReal (ni_now (si_node io)))] db of None \<Rightarrow> db | Some d \<Rightarrow> d))"
  have 1: "join_tokens db1 = join_tokens db"
    unfolding db1_def by (auto split: option.split dest: update_node_fields)
  have "snd (snd (on_heartbeat env io n v m db)) = db1 \<or> (\<exists>h. snd (snd (on_heartbeat env io n v m db)) = snd (rotate_worker_token env io n h db1))"
    unfolding on_heartbeat_def Let_def db1_def [symmetric] by (auto split: option.split prod.split sum.split) (metis snd_conv)+
  with 1 jt_rotate show ?thesis by metis
qed

lemma spent_map:
  assumes "join_tokens db' = map g (join_tokens db)" and "\<And>t. jt_token_hash (g t) = jt_token_hash t"
    and "\<And>t. jt_consumed t \<Longrightarrow> jt_consumed (g t)" and "spent h db"
  shows "spent h db'"
  using assms by (auto simp: spent_def image_image)

lemma spent_consume:
  assumes "consume_token h db = Some db'"
  shows "\<not> spent h db" and "spent h db'" and "spent h' db \<Longrightarrow> spent h' db'"
proof -
  define g where "g t = (if jt_token_hash t = h \<and> \<not> jt_consumed t then t\<lparr>jt_consumed := True\<rparr> else t)" for t :: join_token_row
  have ex: "\<exists>t \<in> set (join_tokens db). jt_token_hash t = h \<and> \<not> jt_consumed t"
    and db': "join_tokens db' = map g (join_tokens db)"
    using assms by (auto simp: consume_token_def sql_update_def g_def split: if_splits)
  have g: "jt_token_hash (g t) = jt_token_hash t" "jt_token_hash t = h \<Longrightarrow> jt_consumed (g t)" "jt_consumed t \<Longrightarrow> jt_consumed (g t)" for t
    by (simp_all add: g_def)
  show "\<not> spent h db" using ex by (auto simp: spent_def)
  show "spent h db'" using ex g(1,2) by (auto simp: spent_def db' image_image)
  show "spent h' db \<Longrightarrow> spent h' db'" using g by (intro spent_map [OF db'])
qed

lemma commit_join_tokens:
  assumes "enroll_commit env io ctx db = (Inr tok, db')"
  shows "\<exists>db1. consume_token (ec_token_hash ctx) db = Some db1 \<and> join_tokens db' = join_tokens db1"
  using assms
  by (elim enroll_commit_steps) (auto simp: insert_worker_token_def split: if_splits dest: jt_insert update_node_fields)

lemma spent_invalidate:
  assumes "spent h db"
  shows "spent h (snd (invalidate_join_tokens now n db))"
proof -
  let ?ids = "map jt_id (filter (\<lambda>t. jt_node_id t = n \<and> \<not> jt_consumed t) (join_tokens db))"
  let ?g = "\<lambda>t. if jt_id t \<in> set ?ids then t\<lparr>jt_consumed := True, jt_expires_at := now\<rparr> else t"
  have "spent h (db\<lparr>join_tokens := map ?g (join_tokens db)\<rparr>)"
    by (rule spent_map [where db = db and g = ?g, OF _ _ _ assms]) simp_all
  with assms show ?thesis unfolding invalidate_join_tokens_def Let_def sql_update_def by (cases "?ids = []") (simp_all only: if_True if_False snd_conv simp_thms)
qed

lemma spent_issue: "spent h db \<Longrightarrow> spent h (snd (issue_join_token env now jti tid n ip name grp db))"
  by (auto simp: issue_join_token_def Let_def insert_join_token_def spent_def)

definition used_once :: "fleet \<Rightarrow> bool" where
  "used_once w \<longleftrightarrow> distinct (fl_used w) \<and> (\<forall>h \<in> set (fl_used w). spent h (fl_db w))"

lemma used_once_db:
  assumes "used_once w" and "fl_used w' = fl_used w" and "\<And>h. spent h (fl_db w) \<Longrightarrow> spent h (fl_db w')"
  shows "used_once w'"
  using assms by (auto simp: used_once_def)

lemma used_once_finish:
  assumes "used_once w"
  shows "used_once (fleet_finish H env sid io sg w)"
proof (cases "map_of (fl_waiting w) sid")
  case (Some ctx)
  let ?ok = "sg \<noteq> [] \<and> verify_ed25519_signature env (er_public_key (ec_request ctx)) (ec_challenge ctx) sg"
  let ?c = "enroll_commit env io ctx (fl_db w)"
  let ?f = "enroll_finish H env io ctx sg (fl_mgr w) (fl_db w)"
  have w': "fl_db (fleet_finish H env sid io sg w) = snd (snd ?f)"
    "fl_used (fleet_finish H env sid io sg w) = fl_used w @ (if ?ok \<and> \<not> isl (fst ?c) then [ec_token_hash ctx] else [])"
    using Some by (simp_all add: fleet_finish_def Let_def split_def)
  show ?thesis
  proof (cases "?ok \<and> \<not> isl (fst ?c)")
    case True
    then obtain tok db1 where c: "?c = (Inr tok, db1)" by (cases ?c; cases "fst ?c") auto
    from commit_join_tokens [OF c] obtain d where d: "consume_token (ec_token_hash ctx) (fl_db w) = Some d" "join_tokens db1 = join_tokens d" by blast
    have "join_tokens (snd (snd ?f)) = join_tokens d"
      using True c d(2) jt_complete [of H io ctx "fl_mgr w" db1] by (simp add: enroll_finish_def)
    then have sp: "spent h (snd (snd ?f)) = spent h d" for h by (rule spent_same)
    show ?thesis
      using assms True spent_consume [OF d(1)] unfolding used_once_def w' sp by auto
  next
    case False
    have "snd (snd ?f) = fl_db w"
      using False enroll_commit_error [of env io ctx "fl_db w"] by (cases ?c; cases "fst ?c") (auto simp: enroll_finish_def)
    with False w' assms show ?thesis by (intro used_once_db [OF assms]) auto
  qed
qed (use assms in \<open>simp add: fleet_finish_def\<close>)

lemma used_once_apply: "used_once w \<Longrightarrow> used_once (fleet_apply H env e w)"
proof (cases e)
  case (FeBegin sid now ch remote req)
  assume "used_once w"
  moreover have "join_tokens (snd (enroll_begin env now ch remote req (fl_db w))) = join_tokens (fl_db w)" by (rule jt_begin)
  ultimately show ?thesis using FeBegin
    by (cases "enroll_begin env now ch remote req (fl_db w)") (auto simp: used_once_def spent_def split: sum.split)
next
  case (FeFinish sid io sg)
  assume "used_once w"
  with FeFinish show ?thesis by (simp add: used_once_finish)
qed (auto elim!: used_once_db simp: fleet_put_def spent_invalidate spent_issue same_join_tokens delete_keeps_join_tokens
    spent_same [OF jt_create] spent_same [OF jt_reconnect] spent_same [OF jt_session_end] spent_same [OF jt_on_heartbeat]
    spent_same [OF jt_configure] spent_same [OF jt_set_disabled] spent_same [OF jt_patch] spent_same [OF delete_keeps_join_tokens]
    spent_same [OF jt_heartbeats] spent_same [OF jt_reset])

lemma used_once_run: "used_once w \<Longrightarrow> used_once (fleet_run H env es w)"
  unfolding fleet_run_def by (rule fold_invariant_step) (rule used_once_apply)

section \<open>What an enrollment establishes\<close>

lemma enroll_check_ok:
  assumes "enroll_check env now ch remote req db = Inr ctx"
  obtains payload t where
    "decode_join_token (se_hmac env) (se_security env) now (er_join_token req) = Inr payload"
    "map_of payload ''node_id'' = Some (JStr (ec_node_id ctx))"
    "payload_str payload ''ip_prefix'' = [] \<or> (\<exists>r. remote = Some r \<and> is_prefix_of (payload_str payload ''ip_prefix'') r)"
    "t \<in> set (join_tokens db)" "jt_token_hash t = se_sha256 env (er_join_token req)" "jt_node_id t = ec_node_id ctx"
    "\<not> jt_consumed t" "now \<le> jt_expires_at t"
    "ec_token_hash ctx = se_sha256 env (er_join_token req)" "ec_challenge ctx = ch" "ec_request ctx = req"
    "ec_first ctx \<longleftrightarrow> find_node (ec_node_id ctx) db = None"
proof -
  obtain node_id payload where jn: "join_token_node env now remote (er_join_token req) = Inr (node_id, payload)"
    and ju: "join_token_usable now (join_token_hash (se_sha256 env) (er_join_token req)) node_id db = None"
    and ctx: "\<exists>s. get_node_state node_id db = Inr s \<and> enrollable s = None \<and>
       ctx = \<lparr>ec_node_id = node_id, ec_payload = payload, ec_token_hash = join_token_hash (se_sha256 env) (er_join_token req), ec_first = (s = None),
         ec_challenge = ch, ec_request = req, ec_remote = remote\<rparr>"
    using assms by (auto simp: enroll_check_def Let_def split: if_splits sum.splits option.splits)
  have d: "decode_join_token (se_hmac env) (se_security env) now (er_join_token req) = Inr payload"
    and n: "map_of payload ''node_id'' = Some (JStr node_id)"
    and ip: "payload_str payload ''ip_prefix'' = [] \<or> (\<exists>r. remote = Some r \<and> is_prefix_of (payload_str payload ''ip_prefix'') r)"
    using jn by (auto simp: join_token_node_def Let_def split: sum.splits token_error.splits option.splits json.splits if_splits)
  obtain t where t: "t \<in> set (join_tokens db)" "jt_token_hash t = se_sha256 env (er_join_token req)" "jt_node_id t = node_id"
    "\<not> jt_consumed t" "now \<le> jt_expires_at t"
    using ju by (auto simp: join_token_usable_def join_token_hash_def split: option.splits if_splits dest!: sql_fetchone_SomeD)
  from ctx have c: "ec_node_id ctx = node_id" "ec_token_hash ctx = se_sha256 env (er_join_token req)" "ec_challenge ctx = ch" "ec_request ctx = req"
    "ec_first ctx \<longleftrightarrow> find_node node_id db = None"
    by (auto simp: join_token_hash_def get_node_state_def split: option.splits)
  show thesis by (rule that [OF d _ ip t(1,2) _ t(4,5)]) (use n t(3) c in simp_all)
qed

lemma node_col_insert:
  assumes "insert_node columns db = Some db'" and "col (dict_merge nodes_defaults columns) ''id'' = SqlText n"
  shows "node_col db' n k = Some (col (dict_merge nodes_defaults columns) k)"
proof -
  have "sql_fetchone (\<lambda>r. col r ''id'' = SqlText n) (nodes db) = None" "nodes db' = nodes db @ [dict_merge nodes_defaults columns]"
    using assms by (auto simp: insert_node_def Let_def split: if_splits)
  then show ?thesis using assms(2) by (simp add: node_col_def find_node_def sql_fetchone_append del: sql_fetchone_None_iff)
qed

lemma insert_worker_token_find: "insert_worker_token r db = Some db' \<Longrightarrow> find_node n db' = find_node n db"
  by (auto simp: insert_worker_token_def find_node_def split: if_splits)

lemma consume_find: "consume_token h db = Some db' \<Longrightarrow> find_node n db' = find_node n db"
  by (auto simp: consume_token_def find_node_def split: if_splits)

lemma again_columns_key: "col (dict_merge r (again_columns now ctx)) ''public_key'' = SqlText (er_public_key (ec_request ctx))"
proof -
  have "''public_key'' \<in> set (dict_keys (again_columns now ctx))" by (simp add: again_columns_def Let_def dict_keys_def)
  from col_merge_in [OF this, of r] obtain v where v: "(''public_key'', v) \<in> set (again_columns now ctx)" "col (dict_merge r (again_columns now ctx)) ''public_key'' = v" by blast
  have "v = SqlText (er_public_key (ec_request ctx))"
    using v(1) by (auto simp: again_columns_def fingerprint_columns_def coalesce_columns_def Let_def split: if_splits option.splits)
  with v show ?thesis by simp
qed

text \<open>After the commit the node has the key of the request and a live worker token.\<close>

lemma enroll_commit_ok:
  assumes "enroll_commit env io ctx db = (Inr tok, db')"
  shows "spent (ec_token_hash ctx) db'" and "find_node (ec_node_id ctx) db' \<noteq> None"
    and "node_col db' (ec_node_id ctx) ''public_key'' = Some (SqlText (er_public_key (ec_request ctx)))"
    and "\<exists>t \<in> set (worker_tokens db'). wt_node_id t = ec_node_id ctx \<and> \<not> wt_revoked t"
    and "ec_first ctx \<Longrightarrow> node_st db' (ec_node_id ctx) = st NS_CONNECTED"
proof -
  let ?now = "ni_now (si_node io)"
  obtain db1 db2 where s: "consume_token (ec_token_hash ctx) db = Some db1"
    "(if ec_first ctx then insert_node (first_row ?now ctx) db1 else update_node (ec_node_id ctx) (again_columns ?now ctx) db1) = Some db2"
    "insert_worker_token (snd (worker_token_for env io (ec_node_id ctx))) db2 = Some db'"
    using assms by (rule enroll_commit_steps)
  have same: "find_node n db' = find_node n db2" "node_col db' n k = node_col db2 n k" for n k
    using insert_worker_token_find [OF s(3)] by (simp_all add: node_col_def)
  have w: "wt_node_id (snd (worker_token_for env io n)) = n" "\<not> wt_revoked (snd (worker_token_for env io n))" for n
    by (simp_all add: worker_token_for_def split_def Let_def)
  show "\<exists>t \<in> set (worker_tokens db'). wt_node_id t = ec_node_id ctx \<and> \<not> wt_revoked t"
    using s(3) w by (auto simp: insert_worker_token_def split: if_splits)
  show f: "find_node (ec_node_id ctx) db' \<noteq> None"
    unfolding same using s(3) w(1) by (auto simp: insert_worker_token_def split: if_splits)
  show "spent (ec_token_hash ctx) db'"
    using commit_join_tokens [OF assms] s(1) spent_consume(2) spent_same by metis
  show "node_col db' (ec_node_id ctx) ''public_key'' = Some (SqlText (er_public_key (ec_request ctx)))"
  proof (cases "ec_first ctx")
    case True
    with s(2) have "insert_node (first_row ?now ctx) db1 = Some db2" by simp
    from node_col_insert [OF this first_row_columns(1)] show ?thesis by (simp only: same first_row_columns)
  next
    case False
    with s(2) have u: "update_node (ec_node_id ctx) (again_columns ?now ctx) db1 = Some db2" by simp
    from find_node_update [OF again_columns_keys(1) u, of "ec_node_id ctx"] f [unfolded same]
    obtain r where "find_node (ec_node_id ctx) db2 = Some (dict_merge r (again_columns ?now ctx))" by auto
    then show ?thesis by (simp only: same) (simp add: node_col_def again_columns_key)
  qed
  show "ec_first ctx \<Longrightarrow> node_st db' (ec_node_id ctx) = st NS_CONNECTED"
    using s(2) node_col_insert [OF _ first_row_columns(1)] unfolding node_st_def same by (simp only: if_True first_row_columns)
qed

lemma enroll_finish_ok:
  assumes "enroll_finish H env io ctx sg m db = (Inr n, m', db')"
  shows "n = ec_node_id ctx" and "verify_ed25519_signature env (er_public_key (ec_request ctx)) (ec_challenge ctx) sg"
    and "spent (ec_token_hash ctx) db'" and "\<not> spent (ec_token_hash ctx) db"
    and "node_st db' n = st NS_CONNECTED" and "node_col db' n ''public_key'' = Some (SqlText (er_public_key (ec_request ctx)))"
    and "\<exists>t \<in> set (worker_tokens db'). wt_node_id t = n \<and> \<not> wt_revoked t"
proof -
  show v: "verify_ed25519_signature env (er_public_key (ec_request ctx)) (ec_challenge ctx) sg"
    using assms by (auto simp: enroll_finish_def split: if_splits)
  obtain tok db1 where c: "enroll_commit env io ctx db = (Inr tok, db1)" and e: "enroll_complete H io ctx m db1 = (Inr n, m', db')"
    using assms v by (auto simp: enroll_finish_def split: if_splits prod.splits sum.splits)
  note ok = enroll_commit_ok [OF c]
  show "\<not> spent (ec_token_hash ctx) db" using commit_join_tokens [OF c] spent_consume(1) by blast
  let ?cc = "connect_columns (ni_now (si_node io)) (ec_remote ctx)"
  let ?t = "if ec_first ctx then (Inr (), db1) else transition_state (ni_now (si_node io)) (ec_node_id ctx) NS_CONNECTED ?cc db1"
  obtain db2 where t: "?t = (Inr (), db2)" and n: "n = ec_node_id ctx" and log: "\<exists>d. db' = snd (node_log H (si_node io) ''system'' AA_NODE_ENROLLED (Some n) d db2)"
    using e unfolding enroll_complete_def Let_def by (auto simp: split_def split: sum.splits) (metis prod.collapse snd_conv)
  show "n = ec_node_id ctx" by (rule n)
  have "''public_key'' \<notin> {''state'', ''updated_at''} \<union> set (dict_keys ?cc)"
    by (cases "ec_remote ctx") (simp_all add: connect_columns_def dict_keys_def)
  then have pk: "node_col db2 n ''public_key'' = node_col db1 n ''public_key''"
    using t transition_state_other [of _ _ _ ?cc] by (auto split: if_splits)
  have rest: "node_st db2 n = st NS_CONNECTED \<and> join_tokens db2 = join_tokens db1 \<and> worker_tokens db2 = worker_tokens db1"
    using t n ok(5) transition_state_effect [OF _ connect_columns_state] by (fastforce split: if_splits)
  from log have db': "node_st db' n = node_st db2 n" "join_tokens db' = join_tokens db2" "worker_tokens db' = worker_tokens db2"
    "node_col db' n ''public_key'' = node_col db2 n ''public_key''"
    by (auto simp: node_st_def node_col_def)
  show "node_st db' n = st NS_CONNECTED" using db' rest by simp
  show "spent (ec_token_hash ctx) db'" using ok(1) db' rest spent_same by metis
  show "node_col db' n ''public_key'' = Some (SqlText (er_public_key (ec_request ctx)))" using ok(3) n db' pk by simp
  show "\<exists>t \<in> set (worker_tokens db'). wt_node_id t = n \<and> \<not> wt_revoked t" using ok(4) n db' rest by simp
qed

section \<open>What a reconnection leaves\<close>

lemma rotate_find: "find_node i (snd (rotate_worker_token env io n h db)) = find_node i db"
  by (auto simp: rotate_worker_token_def Let_def insert_worker_token_def revoke_worker_token_def find_node_def split: prod.split)

lemma reconnect_commit_col:
  assumes "reconnect_commit env io n remote req db = (Inr tok, db')" and "k \<notin> set (dict_keys (reconnect_columns (ni_now (si_node io)) req remote))"
  shows "node_col db' i k = node_col db i k"
proof -
  from assms(1) obtain db1 where u: "update_node n (reconnect_columns (ni_now (si_node io)) req remote) db = Some db1"
    and r: "db' = snd (rotate_worker_token env io n (se_sha256 env (er_worker_token req)) db1)"
    by (auto simp: reconnect_commit_def split: option.splits prod.splits sum.splits)
  show ?thesis
    using find_node_update [OF reconnect_columns_keys(1) u, of i] assms(2)
    by (cases "find_node i db") (auto simp: node_col_def r rotate_find col_merge_notin)
qed

text \<open>
  Nothing on the way of a reconnection reads the \<open>disabled\<close> flag: a disabled node whose
  worker reconnects is connected again while the flag is still set.
\<close>

theorem reconnect_ignores_disabled:
  assumes "run_reconnect H env io remote req m db = (Inr n, m', db')"
  shows "node_st db' n = st NS_CONNECTED \<and> is_disabled n db' = is_disabled n db"
proof -
  let ?now = "ni_now (si_node io)"
  let ?cc = "connect_columns ?now remote"
  obtain i db1 tok db2 where t': "transition_state ?now i NS_ENROLLING [] db = (Inr (), db1)"
    and c': "reconnect_commit env io i remote req db1 = (Inr tok, db2)" and f': "reconnect_complete H io i remote m db2 = (Inr n, m', db')"
    using assms by (auto simp: run_reconnect_def split: if_splits sum.splits prod.splits)
  have "i = n" using f' by (auto simp: reconnect_complete_def Let_def split_def split: prod.splits sum.splits)
  then have t: "transition_state ?now n NS_ENROLLING [] db = (Inr (), db1)" and c: "reconnect_commit env io n remote req db1 = (Inr tok, db2)"
    and f: "reconnect_complete H io n remote m db2 = (Inr n, m', db')" using t' c' f' by simp_all
  obtain db3 where t2: "transition_state ?now n NS_CONNECTED ?cc db2 = (Inr (), db3)" and same: "find_node n db' = find_node n db3"
  proof (cases "transition_state ?now n NS_CONNECTED ?cc db2")
    case (Pair r d)
    then show thesis using f that by (cases r) (auto simp: reconnect_complete_def Let_def split_def)
  qed
  have "''disabled'' \<notin> {''state'', ''updated_at''} \<union> set (dict_keys ?cc)"
    by (cases remote) (simp_all add: connect_columns_def dict_keys_def)
  moreover have "''disabled'' \<notin> set (dict_keys (reconnect_columns ?now req remote))"
    using coalesce_columns_keys [of "fp_version (er_fingerprint req)" remote]
    by (auto simp: reconnect_columns_def fingerprint_columns_def Let_def dict_keys_def)
  ultimately have "node_col db3 n ''disabled'' = node_col db n ''disabled''"
    using transition_state_other [OF t2] reconnect_commit_col [OF c] transition_state_other [OF t, of "''disabled''"] by (simp add: dict_keys_def)
  then have "is_disabled n db' = is_disabled n db"
    unfolding is_disabled_def same by (auto simp: node_col_def split: option.splits)
  moreover have "node_st db' n = st NS_CONNECTED"
  proof -
    have "node_st db3 n = st NS_CONNECTED" using transition_state_effect [OF t2 connect_columns_state] by auto
    then show ?thesis unfolding node_st_def node_col_def same .
  qed
  ultimately show ?thesis by simp
qed

text \<open>The end of a replaced session removes the connection that replaced it.\<close>

lemma fold_drop_connections: "connections (fold drop_intent xs m) = connections m"
  by (induction xs arbitrary: m) simp_all

theorem replaced_session_drops_new_connection:
  "\<not> is_connected n (fst (session_end now (Some n) (register_connection t n ws m) db))"
proof -
  have "map_of (AList.delete n c) n = None" for c :: "(string, connection) dict" by (simp add: py_dict)
  then show ?thesis
    by (simp add: session_end_def is_connected_def unregister_fold fold_drop_connections dict_keys_def map_of_eq_None_iff)
qed

section \<open>Properties\<close>

lemma enrollment_facts:
  assumes "enroll_begin env now ch remote req db = (Inr ctx, db1)" and "enroll_finish H env io ctx sg m db2 = (Inr n, m', db3)"
  shows "\<exists>payload t. decode_join_token (se_hmac env) (se_security env) now (er_join_token req) = Inr payload \<and>
      map_of payload ''node_id'' = Some (JStr n) \<and>
      (payload_str payload ''ip_prefix'' = [] \<or> (\<exists>r. remote = Some r \<and> is_prefix_of (payload_str payload ''ip_prefix'') r)) \<and>
      t \<in> set (join_tokens db) \<and> jt_token_hash t = se_sha256 env (er_join_token req) \<and> jt_node_id t = n \<and> \<not> jt_consumed t \<and> now \<le> jt_expires_at t"
    and "verify_ed25519_signature env (er_public_key req) ch sg"
    and "spent (se_sha256 env (er_join_token req)) db3" and "node_st db3 n = st NS_CONNECTED"
    and "node_col db3 n ''public_key'' = Some (SqlText (er_public_key req))"
    and "\<exists>t \<in> set (worker_tokens db3). wt_node_id t = n \<and> \<not> wt_revoked t"
proof -
  have "enroll_check env now ch remote req db = Inr ctx"
    using assms(1) by (auto simp: enroll_begin_def split: sum.splits if_splits prod.splits)
  then show "\<exists>payload t. decode_join_token (se_hmac env) (se_security env) now (er_join_token req) = Inr payload \<and>
      map_of payload ''node_id'' = Some (JStr n) \<and>
      (payload_str payload ''ip_prefix'' = [] \<or> (\<exists>r. remote = Some r \<and> is_prefix_of (payload_str payload ''ip_prefix'') r)) \<and>
      t \<in> set (join_tokens db) \<and> jt_token_hash t = se_sha256 env (er_join_token req) \<and> jt_node_id t = n \<and> \<not> jt_consumed t \<and> now \<le> jt_expires_at t"
    and "verify_ed25519_signature env (er_public_key req) ch sg"
    and "spent (se_sha256 env (er_join_token req)) db3" and "node_st db3 n = st NS_CONNECTED"
    and "node_col db3 n ''public_key'' = Some (SqlText (er_public_key req))"
    and "\<exists>t \<in> set (worker_tokens db3). wt_node_id t = n \<and> \<not> wt_revoked t"
    using enroll_finish_ok [OF assms(2)] by (elim enroll_check_ok; (blast | simp))+
qed

text \<open>
  C3. An enrollment is authenticated. When an enrollment that began with a request ends
  successfully, the request's join token carried a valid HMAC for the node, had not
  expired, allowed the worker's address, and was stored unconsumed; the worker signed
  this session's challenge with the key of the request; afterwards the token is consumed,
  the node is connected with that key, and it has an unrevoked worker token.
\<close>

theorem enrollment_authenticated:
  assumes "enroll_begin env now ch remote req db = (Inr ctx, db1)" and "enroll_finish H env io ctx sg m db2 = (Inr n, m', db3)"
  shows "(\<exists>payload t. decode_join_token (se_hmac env) (se_security env) now (er_join_token req) = Inr payload \<and>
      map_of payload ''node_id'' = Some (JStr n) \<and>
      (payload_str payload ''ip_prefix'' = [] \<or> (\<exists>r. remote = Some r \<and> is_prefix_of (payload_str payload ''ip_prefix'') r)) \<and>
      t \<in> set (join_tokens db) \<and> jt_token_hash t = se_sha256 env (er_join_token req) \<and> jt_node_id t = n \<and> \<not> jt_consumed t \<and> now \<le> jt_expires_at t) \<and>
    (verify_ed25519_signature env (er_public_key req) ch sg) \<and>
    (spent (se_sha256 env (er_join_token req)) db3) \<and>
    (node_st db3 n = st NS_CONNECTED) \<and>
    (node_col db3 n ''public_key'' = Some (SqlText (er_public_key req))) \<and>
    (\<exists>t \<in> set (worker_tokens db3). wt_node_id t = n \<and> \<not> wt_revoked t)"
  using enrollment_facts [OF assms] by blast

text \<open>
  C4. A join token enrolls at most one worker. In every run of the fleet, with any number
  of sessions waiting at the same time, no join token is used by two committed
  enrollments, and every used token stays consumed.
\<close>

theorem join_token_single_use:
  assumes "fl_used w = []"
  shows "distinct (fl_used (fleet_run H env es w)) \<and> (\<forall>h \<in> set (fl_used (fleet_run H env es w)). spent h (fl_db (fleet_run H env es w)))"
  using used_once_run [of w H env es] assms by (simp add: used_once_def)



lemma abandoned_facts:
  assumes "enroll_begin env now ch remote req db = (Inr ctx, db1)" and "\<not> ec_first ctx" and "n = ec_node_id ctx"
    and "\<not> verify_ed25519_signature env (er_public_key (ec_request ctx)) (ec_challenge ctx) sg"
  shows "snd (session_end now' None m (snd (snd (enroll_finish H env io ctx sg m db1)))) = db1"
    and "node_st db1 n = st NS_ENROLLING"
    and "enroll_check env' now'' ch' remote' req' db1 \<noteq> Inr ctx' \<or> ec_node_id ctx' \<noteq> n"
    and "reconnect_check env' now'' req' db1 \<noteq> Inr n"
proof -
  show "snd (session_end now' None m (snd (snd (enroll_finish H env io ctx sg m db1)))) = db1"
    using assms(4) by (simp add: session_end_def enroll_finish_def)
  have "transition_state now n NS_ENROLLING [] db = (Inr (), db1)"
    using assms(1-3) by (auto simp: enroll_begin_def split: sum.splits if_splits prod.splits)
  from transition_state_effect [OF this] show s: "node_st db1 n = st NS_ENROLLING" by (auto simp: dict_keys_def)
  then obtain row where row: "find_node n db1 = Some row" "node_state_of (col row ''state'') = Some NS_ENROLLING"
    by (auto simp: node_st_def node_col_def node_state_of_def NODE_STATES_def)
  then have g: "get_node_state n db1 = Inr (Some NS_ENROLLING)" by (simp add: get_node_state_def)
  have "enrollable (Some NS_ENROLLING) \<noteq> None" "reconnectable NS_ENROLLING \<noteq> None" by (simp_all add: enrollable_def reconnectable_def)
  with g row show "enroll_check env' now'' ch' remote' req' db1 \<noteq> Inr ctx' \<or> ec_node_id ctx' \<noteq> n"
    and "reconnect_check env' now'' req' db1 \<noteq> Inr n"
    by (auto simp: enroll_check_def reconnect_check_def Let_def split: if_splits sum.splits option.splits)
qed

text \<open>
  An abandoned re-enrollment blocks the node. When an enrollment of an existing node
  has sent its challenge and the session then ends without success (a wrong or missing
  signature, a timeout, a disconnect), the node stays enrolling; from then on every
  enrollment and every reconnection of the node is refused.
\<close>

theorem abandoned_enrollment_blocks_node:
  assumes "enroll_begin env now ch remote req db = (Inr ctx, db1)" and "\<not> ec_first ctx" and "n = ec_node_id ctx"
    and "\<not> verify_ed25519_signature env (er_public_key (ec_request ctx)) (ec_challenge ctx) sg"
  shows "(snd (session_end now' None m (snd (snd (enroll_finish H env io ctx sg m db1)))) = db1) \<and>
    (node_st db1 n = st NS_ENROLLING) \<and>
    (enroll_check env' now'' ch' remote' req' db1 \<noteq> Inr ctx' \<or> ec_node_id ctx' \<noteq> n) \<and>
    (reconnect_check env' now'' req' db1 \<noteq> Inr n)"
  using abandoned_facts [OF assms] by blast

section \<open>Examples\<close>

definition sample_payload :: "(string, json) dict" where
  "sample_payload = [(''node_id'', JStr ''n1''), (''expires_at'', JInt 2000)]"

definition sample_body :: string where
  "sample_body = rstrip_eq (b64_encode (json_dumps True (JObj sample_payload)))"

definition sample_join_token :: string where
  "sample_join_token = toy_hmac ''s'' sample_body @ CHR ''.'' # sample_body"

definition sample_env :: session_env where
  "sample_env = \<lparr>se_jose = \<lparr>jwt_encode = (\<lambda>claims key. ''jwt''), jwt_decode = (\<lambda>now token key. JwtError ''no''), jwt_unverified = (\<lambda>token. None)\<rparr>,
     se_hmac = toy_hmac, se_sha256 = (\<lambda>s. s), se_ed25519 = (\<lambda>k c s. True), se_security = sample_security\<rparr>"

definition sample_request :: enroll_request where
  "sample_request = \<lparr>er_join_token = sample_join_token, er_worker_token = [], er_reconnect = False, er_public_key = ''AAAA'',
     er_fingerprint = \<lparr>fp_hostname = ''web'', fp_machine_id = ''m'', fp_arch = ''x86_64'', fp_os = ''linux'', fp_version = ''1''\<rparr>\<rparr>"

definition sample_row :: join_token_row where
  "sample_row = \<lparr>jt_id = ''j1'', jt_node_id = ''n1'', jt_token_hash = sample_join_token, jt_payload_b64 = sample_body, jt_consumed = False,
     jt_expires_at = 2000, jt_created_at = 0\<rparr>"

definition sample_ctx :: "bool \<Rightarrow> enroll_ctx" where
  "sample_ctx first = \<lparr>ec_node_id = ''n1'', ec_payload = sample_payload, ec_token_hash = sample_join_token, ec_first = first, ec_challenge = ''AAAA'',
     ec_request = sample_request, ec_remote = None\<rparr>"

definition sample_session_io :: session_io where
  "sample_session_io = \<lparr>si_node = sample_io 1000, si_token_now = 1000, si_token_jti = ''j'', si_token_id = ''w1'', si_websocket = 3, si_sent = True\<rparr>"

definition empty_fleet :: fleet where
  "empty_fleet = \<lparr>fl_mgr = init_node_manager None,
     fl_db = \<lparr>nodes = [], join_tokens = [sample_row], worker_tokens = [], node_audit = [], node_events = []\<rparr>, fl_waiting = [], fl_used = []\<rparr>"

lemma sample_decode: "decode_join_token toy_hmac sample_security 1000 sample_join_token = Inr sample_payload"
proof -
  have "load_payload sample_body = Some (JObj sample_payload)"
    unfolding sample_body_def by (rule load_dumped) (simp add: sample_payload_def)
  then have "decode_join_token toy_hmac sample_security 1000 (toy_hmac (server_secret sample_security) sample_body @ CHR ''.'' # sample_body) = Inr sample_payload"
    unfolding decode_signed [OF toy_hmac_hex] by (simp add: sample_payload_def json_number_def)
  then show ?thesis by (simp add: sample_join_token_def sample_security_def)
qed

lemma sample_check:
  assumes "join_tokens db = [sample_row]" and "get_node_state ''n1'' db = Inr s" and "enrollable s = None"
  shows "enroll_check sample_env 1000 ''AAAA'' None sample_request db = Inr (sample_ctx (s = None))"
proof -
  have "join_token_node sample_env 1000 None sample_join_token = Inr (''n1'', sample_payload)"
    unfolding join_token_node_def using sample_decode by (simp add: sample_env_def sample_payload_def payload_str_def)
  moreover have "join_token_usable 1000 sample_join_token ''n1'' db = None" using assms(1) by (simp add: join_token_usable_def sample_row_def)
  moreover have "sample_join_token \<noteq> []" by (simp add: sample_join_token_def)
  ultimately show ?thesis using assms(2,3)
    by (simp add: enroll_check_def sample_request_def sample_env_def join_token_hash_def sample_ctx_def Let_def)
qed

lemma sample_signature: "verify_ed25519_signature sample_env ''AAAA'' ''AAAA'' ''AAAA''"
proof -
  have "b64_decode (pad_b64 ''AAAA'') \<noteq> None" by code_simp
  then show ?thesis by (auto simp: verify_ed25519_signature_def sample_env_def)
qed

lemma sample_finish:
  "\<exists>m' db'. enroll_finish (\<lambda>s. s) sample_env sample_session_io (sample_ctx True) ''AAAA'' (fl_mgr empty_fleet) (fl_db empty_fleet) = (Inr ''n1'', m', db')"
proof -
  have log: "\<exists>db'. node_log (\<lambda>s. s) (si_node sample_session_io) u a i d db = (Inr (), db')" if "node_audit db = []" for u a i d db
    unfolding node_log_def that by (subst log_action_alone) (simp_all add: chain_ok_def)
  have "\<exists>tok db1. enroll_commit sample_env sample_session_io (sample_ctx True) (fl_db empty_fleet) = (Inr tok, db1) \<and> node_audit db1 = []"
    by (simp add: enroll_commit_def consume_token_def sql_rowcount_def empty_fleet_def sample_ctx_def sample_row_def insert_node_def first_row_def Let_def
        insert_worker_token_def worker_token_for_def generate_worker_token_def sample_env_def sample_session_io_def split_def find_node_def
        nodes_defaults_def col_def NODES_NOT_NULL_def text_or_null_def)
  then obtain tok db1 where c: "enroll_commit sample_env sample_session_io (sample_ctx True) (fl_db empty_fleet) = (Inr tok, db1)" "node_audit db1 = []" by blast
  have v: "verify_ed25519_signature sample_env (er_public_key (ec_request (sample_ctx True))) (ec_challenge (sample_ctx True)) ''AAAA''"
    using sample_signature by (simp add: sample_ctx_def sample_request_def)
  obtain db' where "node_log (\<lambda>s. s) (si_node sample_session_io) ''system'' AA_NODE_ENROLLED (Some (ec_node_id (sample_ctx True))) (enrolled_details (sample_ctx True)) db1 = (Inr (), db')"
    using log [OF c(2)] by blast
  moreover have "ec_first (sample_ctx True)" "ec_node_id (sample_ctx True) = ''n1''" by (simp_all add: sample_ctx_def)
  ultimately show ?thesis using c(1) v by (simp add: enroll_finish_def enroll_complete_def)
qed

theorem enrollment_authenticated_witness:
  "\<exists>ctx db1 m' db3. enroll_begin sample_env 1000 ''AAAA'' None sample_request (fl_db empty_fleet) = (Inr ctx, db1) \<and>
     enroll_finish (\<lambda>s. s) sample_env sample_session_io ctx ''AAAA'' (fl_mgr empty_fleet) db1 = (Inr ''n1'', m', db3) \<and>
     node_st db3 ''n1'' = st NS_CONNECTED \<and> spent sample_join_token db3"
proof -
  have "enroll_check sample_env 1000 ''AAAA'' None sample_request (fl_db empty_fleet) = Inr (sample_ctx True)"
    using sample_check [of "fl_db empty_fleet" None] by (simp add: empty_fleet_def get_node_state_def find_node_def enrollable_def)
  then have b: "enroll_begin sample_env 1000 ''AAAA'' None sample_request (fl_db empty_fleet) = (Inr (sample_ctx True), fl_db empty_fleet)"
    by (simp add: enroll_begin_def sample_ctx_def)
  obtain m' db3 where f: "enroll_finish (\<lambda>s. s) sample_env sample_session_io (sample_ctx True) ''AAAA'' (fl_mgr empty_fleet) (fl_db empty_fleet) = (Inr ''n1'', m', db3)"
    using sample_finish by blast
  have "spent sample_join_token db3"
    using enrollment_authenticated [OF b f] by (simp add: sample_env_def sample_request_def)
  with b f enrollment_authenticated [OF b f] show ?thesis by blast
qed

theorem join_token_single_use_witness:
  "fl_used empty_fleet = [] \<and> distinct (fl_used (fleet_run (\<lambda>s. s) sample_env
     [FeBegin 1 1000 ''AAAA'' None sample_request, FeBegin 2 1000 ''AAAA'' None sample_request, FeFinish 1 sample_session_io ''AAAA'',
      FeFinish 2 sample_session_io ''AAAA''] empty_fleet))"
proof -
  have "fl_used empty_fleet = []" by (simp add: empty_fleet_def)
  from join_token_single_use [OF this] this show ?thesis by blast
qed


theorem abandoned_enrollment_blocks_node_witness:
  "\<exists>ctx db1. enroll_begin sample_env 1000 ''AAAA'' None sample_request ((sample_store NS_LOST)\<lparr>join_tokens := [sample_row]\<rparr>) = (Inr ctx, db1) \<and>
     node_st db1 ''n1'' = st NS_ENROLLING"
proof -
  let ?db = "(sample_store NS_LOST)\<lparr>join_tokens := [sample_row]\<rparr>"
  have f: "find_node ''n1'' ?db = Some (sample_node NS_LOST)" "col (sample_node NS_LOST) ''state'' = SqlText (node_state_str NS_LOST)"
    by (simp_all add: find_node_def sample_store_def sample_node_def col_def)
  then have "enroll_check sample_env 1000 ''AAAA'' None sample_request ?db = Inr (sample_ctx False)"
    using sample_check [of ?db "Some NS_LOST"] by (simp add: get_node_state_def enrollable_def del: node_state_str.simps)
  moreover obtain db1 where "transition_state 1000 ''n1'' NS_ENROLLING [] ?db = (Inr (), db1)"
    using f by (simp add: transition_state_def VALID_TRANSITIONS_def dict_keys_def update_node_def del: node_state_str.simps)
  ultimately have b: "enroll_begin sample_env 1000 ''AAAA'' None sample_request ?db = (Inr (sample_ctx False), db1)"
    by (simp add: enroll_begin_def sample_ctx_def)
  have "\<not> verify_ed25519_signature sample_env (er_public_key (ec_request (sample_ctx False))) (ec_challenge (sample_ctx False)) ''A''"
  proof -
    have "b64_decode (pad_b64 ''A'') = None" by code_simp
    then have "\<not> verify_ed25519_signature sample_env k c ''A''" for k c
      unfolding verify_ed25519_signature_def by (cases "b64_decode (pad_b64 k)"; cases "b64_decode (pad_b64 c)") (simp_all only: prod.case option.case simp_thms)
    then show ?thesis .
  qed
  then have "node_st db1 ''n1'' = st NS_ENROLLING"
    using abandoned_enrollment_blocks_node [OF b _ refl] by (simp add: sample_ctx_def)
  with b show ?thesis by blast
qed

end
