(* ===== verification/Plugin_Lifecycle.thy ===== *)
theory Plugin_Lifecycle
  imports Py_Text
begin

text \<open>
  The three-axis plugin state machine (\<open>src/master/core/plugin_lifecycle.py\<close>):
  the state an administrator wants, the state of the running plugin and the
  state of a long operation, kept in memory per plugin and written to the
  \<open>enabled\<close> and \<open>status\<close> columns of the \<open>plugins\<close> table. The in-memory values
  are the strings the code stores. Each method is one step: no other task of
  the event loop runs between its reads and its writes. A statement on the
  database may raise; \<open>read_raises\<close> and \<open>write_raises\<close> say which do.

  The abstract machine \<open>spec_transition\<close> works on datatypes; the methods refine
  it (\<open>transition_refines\<close>), and the lemmas on runs show which calls leave the
  ERROR state.
\<close>

section \<open>The three axes\<close>

datatype desired_state = ENABLED | DISABLED
datatype runtime_state = UNLOADED | LOADING | ACTIVE | ERROR | STOPPING
datatype operation_state = IDLE | INSTALLING | UNINSTALLING | UPGRADING

primrec desired_str :: "desired_state \<Rightarrow> string" where
  "desired_str ENABLED = ''ENABLED''"
| "desired_str DISABLED = ''DISABLED''"

primrec runtime_str :: "runtime_state \<Rightarrow> string" where
  "runtime_str UNLOADED = ''UNLOADED''"
| "runtime_str LOADING = ''LOADING''"
| "runtime_str ACTIVE = ''ACTIVE''"
| "runtime_str ERROR = ''ERROR''"
| "runtime_str STOPPING = ''STOPPING''"

primrec operation_str :: "operation_state \<Rightarrow> string" where
  "operation_str IDLE = ''IDLE''"
| "operation_str INSTALLING = ''INSTALLING''"
| "operation_str UNINSTALLING = ''UNINSTALLING''"
| "operation_str UPGRADING = ''UPGRADING''"

definition PluginLifecycleState :: "string list" where
  "PluginLifecycleState =
     map desired_str [ENABLED, DISABLED] @
     map runtime_str [UNLOADED, LOADING, ACTIVE, ERROR, STOPPING] @
     map operation_str [IDLE, INSTALLING, UNINSTALLING, UPGRADING]"

definition VALID_RUNTIME_TRANSITIONS :: "(string, string list) dict" where
  "VALID_RUNTIME_TRANSITIONS =
     [(''UNLOADED'', [''LOADING'']),
      (''LOADING'', [''ACTIVE'', ''ERROR'']),
      (''ACTIVE'', [''STOPPING'', ''ERROR'']),
      (''ERROR'', []),
      (''STOPPING'', [''UNLOADED'', ''ERROR''])]"

definition VALID_OPERATION_TRANSITIONS :: "(string, string list) dict" where
  "VALID_OPERATION_TRANSITIONS =
     [(''IDLE'', [''INSTALLING'', ''UNINSTALLING'', ''UPGRADING'']),
      (''INSTALLING'', [''IDLE'', ''UNINSTALLING'']),
      (''UNINSTALLING'', [''IDLE'']),
      (''UPGRADING'', [''IDLE''])]"

section \<open>The manager\<close>

record axes =
  ax_desired :: string
  ax_runtime :: string
  ax_operation :: string

record plugin_row =
  pr_id :: string
  pr_enabled :: int
  pr_status :: string

record lifecycle =
  lc_states :: "(string, axes) dict"
  lc_db :: "plugin_row list option"

record db_faults =
  read_raises :: bool
  write_raises :: bool

datatype lc_error =
    Invalid_Desired string
  | Operation_Busy string string
  | Runtime_Stopping string
  | Error_Sticky string string
  | Invalid_Transition string string string string string
  | Db_Error

definition no_faults :: db_faults where
  "no_faults = \<lparr>read_raises = False, write_raises = False\<rparr>"

definition default_axes :: axes where
  "default_axes = \<lparr>ax_desired = ''DISABLED'', ax_runtime = ''UNLOADED'', ax_operation = ''IDLE''\<rparr>"

definition axes_of :: "lifecycle \<Rightarrow> string \<Rightarrow> axes" where
  \<comment> \<open>\<open>self._states[plugin_id]\<close> of a tracked plugin\<close>
  "axes_of lc pid = dict_get (lc_states lc) pid default_axes"

definition ensure :: "string \<Rightarrow> lifecycle \<Rightarrow> lifecycle" where
  "ensure pid lc =
     (case map_of (lc_states lc) pid of
        None \<Rightarrow> lc\<lparr>lc_states := AList.update pid default_axes (lc_states lc)\<rparr>
      | Some _ \<Rightarrow> lc)"

definition set_in_memory :: "string \<Rightarrow> string \<Rightarrow> string \<Rightarrow> string \<Rightarrow> lifecycle \<Rightarrow> lifecycle" where
  "set_in_memory pid d r oper lc =
     lc\<lparr>lc_states := AList.update pid \<lparr>ax_desired = d, ax_runtime = r, ax_operation = oper\<rparr> (lc_states lc)\<rparr>"

definition db_write :: "db_faults \<Rightarrow> string \<Rightarrow> (plugin_row \<Rightarrow> plugin_row) \<Rightarrow> lifecycle \<Rightarrow> (lc_error + unit) \<times> lifecycle" where
  \<comment> \<open>\<open>if db is not None\<close>: one UPDATE by id inside \<open>transaction(db)\<close>, which rolls back when it raises\<close>
  "db_write flt pid f lc =
     (case lc_db lc of
        None \<Rightarrow> (Inr (), lc)
      | Some rows \<Rightarrow>
          if write_raises flt then (Inl Db_Error, lc)
          else (Inr (), lc\<lparr>lc_db := Some (sql_update (\<lambda>r. pr_id r = pid) f rows)\<rparr>))"

definition validate_desired_transition :: "string \<Rightarrow> string \<Rightarrow> string \<Rightarrow> string \<Rightarrow> string \<Rightarrow> lc_error + unit" where
  "validate_desired_transition pid curr_desired curr_runtime curr_operation new_desired =
     (if new_desired = curr_desired then Inr ()
      else if curr_operation \<noteq> ''IDLE'' then Inl (Operation_Busy pid curr_operation)
      else if curr_runtime = ''STOPPING'' then Inl (Runtime_Stopping pid)
      else if curr_runtime = ''ERROR'' then
        (if new_desired \<noteq> ''ENABLED'' then Inl (Error_Sticky pid new_desired) else Inr ())
      else Inr ())"

definition get_desired_state :: "db_faults \<Rightarrow> string \<Rightarrow> lifecycle \<Rightarrow> string \<times> lifecycle" where
  "get_desired_state flt pid lc =
     (let lc1 = ensure pid lc; cached = ax_desired (axes_of lc1 pid)
      in case lc_db lc1 of
           None \<Rightarrow> (cached, lc1)
         | Some rows \<Rightarrow>
             if read_raises flt then (cached, lc1)
             else (case sql_fetchone (\<lambda>r. pr_id r = pid) rows of
                     None \<Rightarrow> (cached, lc1)
                   | Some row \<Rightarrow> (if pr_enabled row \<noteq> 0 then ''ENABLED'' else ''DISABLED'', lc1)))"

definition get_runtime_state :: "string \<Rightarrow> lifecycle \<Rightarrow> string \<times> lifecycle" where
  "get_runtime_state pid lc = (let lc1 = ensure pid lc in (ax_runtime (axes_of lc1 pid), lc1))"

definition get_operation_state :: "string \<Rightarrow> lifecycle \<Rightarrow> string \<times> lifecycle" where
  "get_operation_state pid lc = (let lc1 = ensure pid lc in (ax_operation (axes_of lc1 pid), lc1))"

definition get_state :: "db_faults \<Rightarrow> string \<Rightarrow> lifecycle \<Rightarrow> axes \<times> lifecycle" where
  "get_state flt pid lc =
     (let (d, lc1) = get_desired_state flt pid lc;
          (r, lc2) = get_runtime_state pid lc1;
          (oper, lc3) = get_operation_state pid lc2
      in (\<lparr>ax_desired = d, ax_runtime = r, ax_operation = oper\<rparr>, lc3))"

definition commit_transition ::
  "db_faults \<Rightarrow> string \<Rightarrow> axes \<Rightarrow> (plugin_row \<Rightarrow> plugin_row) \<Rightarrow> lifecycle \<Rightarrow> (lc_error + bool) \<times> lifecycle" where
  \<comment> \<open>\<open>_set_in_memory\<close>, then the UPDATE, then \<open>return True\<close>\<close>
  "commit_transition flt pid a f lc =
     (case db_write flt pid f (set_in_memory pid (ax_desired a) (ax_runtime a) (ax_operation a) lc) of
        (Inl e, lc') \<Rightarrow> (Inl e, lc')
      | (Inr _, lc') \<Rightarrow> (Inr True, lc'))"

definition apply_transition ::
  "db_faults \<Rightarrow> string \<Rightarrow> axes \<Rightarrow> string \<Rightarrow> lifecycle \<Rightarrow> (lc_error + bool) \<times> lifecycle" where
  "apply_transition flt pid cur new_desired lc =
     (if ax_runtime cur = ''ERROR'' then
        commit_transition flt pid
          \<lparr>ax_desired = ''ENABLED'', ax_runtime = ''UNLOADED'', ax_operation = ''IDLE''\<rparr>
          (\<lambda>r. r\<lparr>pr_enabled := 1, pr_status := ''UNLOADED''\<rparr>) lc
      else if new_desired = ''ENABLED'' \<and> ax_runtime cur \<in> set [''UNLOADED'', ''LOADING''] then
        commit_transition flt pid
          \<lparr>ax_desired = ''ENABLED'', ax_runtime = ''LOADING'', ax_operation = ax_operation cur\<rparr>
          (\<lambda>r. r\<lparr>pr_enabled := 1, pr_status := ''LOADING''\<rparr>) lc
      else if new_desired = ''ENABLED'' \<and> ax_runtime cur = ''ACTIVE'' then
        commit_transition flt pid
          \<lparr>ax_desired = ''ENABLED'', ax_runtime = ''ACTIVE'', ax_operation = ax_operation cur\<rparr>
          (\<lambda>r. r\<lparr>pr_enabled := 1\<rparr>) lc
      else if new_desired = ''DISABLED'' \<and> ax_runtime cur \<in> set [''ACTIVE'', ''LOADING''] then
        commit_transition flt pid
          \<lparr>ax_desired = ''DISABLED'', ax_runtime = ''STOPPING'', ax_operation = ax_operation cur\<rparr>
          (\<lambda>r. r\<lparr>pr_enabled := 0, pr_status := ''STOPPING''\<rparr>) lc
      else if new_desired = ''DISABLED'' \<and> ax_runtime cur = ''UNLOADED'' then
        commit_transition flt pid
          \<lparr>ax_desired = ''DISABLED'', ax_runtime = ''UNLOADED'', ax_operation = ax_operation cur\<rparr>
          (\<lambda>r. r\<lparr>pr_enabled := 0, pr_status := ''DISABLED''\<rparr>) lc
      else (Inl (Invalid_Transition pid (ax_desired cur) new_desired (ax_runtime cur) (ax_operation cur)), lc))"

definition transition :: "db_faults \<Rightarrow> string \<Rightarrow> string \<Rightarrow> lifecycle \<Rightarrow> (lc_error + bool) \<times> lifecycle" where
  "transition flt pid desired lc =
     (let (cur, lc1) = get_state flt pid lc; new_desired = upper desired
      in if new_desired \<notin> set [''ENABLED'', ''DISABLED''] then (Inl (Invalid_Desired desired), lc1)
         else (case validate_desired_transition pid (ax_desired cur) (ax_runtime cur) (ax_operation cur) new_desired of
                 Inl e \<Rightarrow> (Inl e, lc1)
               | Inr _ \<Rightarrow>
                   if new_desired = ax_desired cur then (Inr True, lc1)
                   else apply_transition flt pid cur new_desired lc1))"

definition update_runtime_state :: "db_faults \<Rightarrow> string \<Rightarrow> string \<Rightarrow> lifecycle \<Rightarrow> lifecycle" where
  "update_runtime_state flt pid rt lc =
     (let lc1 = ensure pid lc; a = axes_of lc1 pid
      in if rt \<notin> set (dict_get VALID_RUNTIME_TRANSITIONS (ax_runtime a) []) then lc1
         else snd (db_write flt pid (\<lambda>r. r\<lparr>pr_status := rt\<rparr>)
                (set_in_memory pid (ax_desired a) rt (ax_operation a) lc1)))"

definition update_operation_state :: "string \<Rightarrow> string \<Rightarrow> lifecycle \<Rightarrow> lifecycle" where
  "update_operation_state pid oper lc =
     (let lc1 = ensure pid lc; a = axes_of lc1 pid
      in if oper \<notin> set (dict_get VALID_OPERATION_TRANSITIONS (ax_operation a) []) then lc1
         else set_in_memory pid (ax_desired a) (ax_runtime a) oper lc1)"

definition set_error :: "db_faults \<Rightarrow> string \<Rightarrow> lifecycle \<Rightarrow> (lc_error + unit) \<times> lifecycle" where
  "set_error flt pid lc =
     db_write flt pid (\<lambda>r. r\<lparr>pr_enabled := 0, pr_status := ''ERROR''\<rparr>)
       (set_in_memory pid ''DISABLED'' ''ERROR'' ''IDLE'' (ensure pid lc))"

definition is_stuck :: "string \<Rightarrow> bool" where
  "is_stuck s \<longleftrightarrow> s \<in> set [''LOADING'', ''STOPPING'']"

definition reset_axes :: "string \<Rightarrow> lifecycle \<Rightarrow> lifecycle" where
  "reset_axes pid lc = set_in_memory pid ''DISABLED'' ''UNLOADED'' ''IDLE'' lc"

fun reconcile_memory :: "(string \<times> axes) list \<Rightarrow> string list \<Rightarrow> lifecycle \<Rightarrow> string list \<times> lifecycle" where
  \<comment> \<open>the loop over the snapshot \<open>list(self._states.items())\<close>\<close>
  "reconcile_memory [] acc lc = (acc, lc)"
| "reconcile_memory ((pid, a) # rest) acc lc =
     (if is_stuck (ax_runtime a) then reconcile_memory rest (acc @ [pid]) (reset_axes pid lc)
      else reconcile_memory rest acc lc)"

fun reconcile_rows :: "string list \<Rightarrow> string list \<Rightarrow> lifecycle \<Rightarrow> string list \<times> lifecycle" where
  "reconcile_rows [] acc lc = (acc, lc)"
| "reconcile_rows (pid # rest) acc lc =
     (case map_of (lc_states lc) pid of
        None \<Rightarrow> reconcile_rows rest (acc @ [pid]) (reset_axes pid lc)
      | Some _ \<Rightarrow> reconcile_rows rest acc lc)"

definition reconcile_after_crash :: "db_faults \<Rightarrow> lifecycle \<Rightarrow> string list \<times> lifecycle" where
  "reconcile_after_crash flt lc =
     (let (acc, lc1) = reconcile_memory (lc_states lc) [] lc
      in case lc_db lc1 of
           None \<Rightarrow> (acc, lc1)
         | Some rows \<Rightarrow>
             if read_raises flt then (acc, lc1)
             else
               (let (acc2, lc2) = reconcile_rows (map pr_id (filter (\<lambda>r. is_stuck (pr_status r)) rows)) acc lc1
                in if acc2 = [] \<or> write_raises flt then (acc2, lc2)
                   else (acc2, lc2\<lparr>lc_db := Some (fold (\<lambda>pid.
                           sql_update (\<lambda>r. pr_id r = pid) (\<lambda>r. r\<lparr>pr_enabled := 0, pr_status := ''DISABLED''\<rparr>)) acc2 rows)\<rparr>)))"

definition set_runtime :: "string \<Rightarrow> string \<Rightarrow> lifecycle \<Rightarrow> lifecycle" where
  "set_runtime pid rt lc =
     (let lc1 = ensure pid lc; a = axes_of lc1 pid
      in set_in_memory pid (ax_desired a) rt (ax_operation a) lc1)"

definition remove_plugin :: "string \<Rightarrow> lifecycle \<Rightarrow> lifecycle" where
  "remove_plugin pid lc = lc\<lparr>lc_states := AList.delete pid (lc_states lc)\<rparr>"

definition get_flat_state :: "lifecycle \<Rightarrow> string \<Rightarrow> string option" where
  "get_flat_state lc pid = map_option ax_runtime (map_of (lc_states lc) pid)"

definition get_all_flat_states :: "lifecycle \<Rightarrow> (string, string) dict" where
  "get_all_flat_states lc = map (\<lambda>(pid, a). (pid, ax_runtime a)) (lc_states lc)"

section \<open>What each method keeps\<close>

named_theorems lc_frame \<open>the runtime axis and the table after one call\<close>

lemma axes_of_ensure [simp]: "axes_of (ensure pid lc) p = axes_of lc p"
  by (auto simp: axes_of_def ensure_def dict_get_def py_dict split: option.splits)

lemma ensure_db [simp]: "lc_db (ensure pid lc) = lc_db lc"
  by (auto simp: ensure_def split: option.splits)

lemma ensure_tracked [simp]: "map_of (lc_states (ensure pid lc)) pid \<noteq> None"
  by (auto simp: ensure_def py_dict split: option.splits)

lemma ensure_ensure [simp]: "ensure pid (ensure pid lc) = ensure pid lc"
  using ensure_tracked [of pid lc] by (auto simp: ensure_def [of pid "ensure pid lc"] simp del: ensure_tracked)

lemma set_in_memory_fields [simp]:
  "axes_of (set_in_memory pid d r oper lc) p =
     (if p = pid then \<lparr>ax_desired = d, ax_runtime = r, ax_operation = oper\<rparr> else axes_of lc p)"
  "lc_db (set_in_memory pid d r oper lc) = lc_db lc"
  by (auto simp: axes_of_def set_in_memory_def py_dict)

lemma db_write_axes [simp]: "axes_of (snd (db_write flt pid f lc)) p = axes_of lc p"
  by (auto simp: db_write_def axes_of_def split: option.splits)

lemma db_write_ok:
  "\<not> write_raises flt \<Longrightarrow>
   db_write flt pid f lc = (Inr (), lc\<lparr>lc_db := map_option (sql_update (\<lambda>r. pr_id r = pid) f) (lc_db lc)\<rparr>)"
  by (auto simp: db_write_def split: option.splits)

lemma get_desired_state_snd [simp]: "snd (get_desired_state flt pid lc) = ensure pid lc"
  by (auto simp: get_desired_state_def Let_def split: option.splits)

lemma get_state_eq:
  "get_state flt pid lc =
     (\<lparr>ax_desired = fst (get_desired_state flt pid lc), ax_runtime = ax_runtime (axes_of lc pid),
       ax_operation = ax_operation (axes_of lc pid)\<rparr>, ensure pid lc)"
  by (auto simp: get_state_def get_runtime_state_def get_operation_state_def Let_def split_def)

lemma get_desired_state_vals:
  "ax_desired (axes_of lc pid) \<in> set [''ENABLED'', ''DISABLED''] \<Longrightarrow>
   fst (get_desired_state flt pid lc) \<in> set [''ENABLED'', ''DISABLED'']"
  by (auto simp: get_desired_state_def Let_def split: option.splits)

lemma commit_transition_snd:
  "snd (commit_transition flt pid a f lc) =
     snd (db_write flt pid f (set_in_memory pid (ax_desired a) (ax_runtime a) (ax_operation a) lc))"
  by (simp add: commit_transition_def split: prod.split sum.split)

lemma commit_transition_axes [simp]:
  "axes_of (snd (commit_transition flt pid a f lc)) p = (if p = pid then a else axes_of lc p)"
  by (simp add: commit_transition_snd)

lemma reset_axes_axes [simp]:
  "axes_of (reset_axes pid lc) p = (if p = pid then default_axes else axes_of lc p)"
  by (simp add: reset_axes_def default_axes_def)

lemma reset_axes_fields [simp]:
  "lc_db (reset_axes pid lc) = lc_db lc"
  "map_of (lc_states (reset_axes pid lc)) p =
     (if p = pid then Some default_axes else map_of (lc_states lc) p)"
  by (simp_all add: reset_axes_def set_in_memory_def default_axes_def py_dict)

lemma apply_transition_other [lc_frame]:
  "p \<noteq> pid \<Longrightarrow> axes_of (snd (apply_transition flt pid cur n lc)) p = axes_of lc p"
  by (simp add: apply_transition_def)

lemma transition_other [lc_frame]:
  "p \<noteq> pid \<Longrightarrow> axes_of (snd (transition flt pid d lc)) p = axes_of lc p"
  by (auto simp: transition_def Let_def get_state_eq lc_frame split: sum.splits)

lemma transition_error_kept [lc_frame]:
  assumes "ax_runtime (axes_of lc pid) = ''ERROR''" and "upper d \<noteq> ''ENABLED''"
  shows "ax_runtime (axes_of (snd (transition flt pid d lc)) pid) = ''ERROR''"
  using assms by (auto simp: transition_def Let_def get_state_eq validate_desired_transition_def split: sum.splits)

lemma update_runtime_axes [lc_frame]:
  "ax_runtime (axes_of lc p) = ''ERROR'' \<Longrightarrow>
   ax_runtime (axes_of (update_runtime_state flt pid rt lc) p) = ''ERROR''"
  by (auto simp: update_runtime_state_def Let_def VALID_RUNTIME_TRANSITIONS_def)

lemma update_operation_axes [lc_frame]:
  "ax_runtime (axes_of (update_operation_state pid oper lc) p) = ax_runtime (axes_of lc p)"
  by (auto simp: update_operation_state_def Let_def)

lemma set_error_axes [lc_frame]:
  "axes_of (snd (set_error flt pid lc)) p =
     (if p = pid then \<lparr>ax_desired = ''DISABLED'', ax_runtime = ''ERROR'', ax_operation = ''IDLE''\<rparr> else axes_of lc p)"
  by (simp add: set_error_def)

text \<open>Reconciliation resets exactly the plugins it returns.\<close>

definition resets_to :: "string set \<Rightarrow> lifecycle \<Rightarrow> lifecycle \<Rightarrow> bool" where
  "resets_to S lc lc' \<longleftrightarrow>
     lc_db lc' = lc_db lc \<and>
     (\<forall>p. map_of (lc_states lc') p = (if p \<in> S then Some default_axes else map_of (lc_states lc) p))"

lemma resets_to_empty [simp]: "resets_to {} lc lc' \<longleftrightarrow> lc_db lc' = lc_db lc \<and> map_of (lc_states lc') = map_of (lc_states lc)"
  by (auto simp: resets_to_def)

lemma resets_to_step: "resets_to S (reset_axes pid lc) lc' \<Longrightarrow> resets_to (insert pid S) lc lc'"
  by (auto simp: resets_to_def)

lemma resets_to_trans: "resets_to S lc lc1 \<Longrightarrow> resets_to T lc1 lc2 \<Longrightarrow> resets_to (S \<union> T) lc lc2"
  by (auto simp: resets_to_def)

lemma resets_to_axes: "resets_to S lc lc' \<Longrightarrow> axes_of lc' p = (if p \<in> S then default_axes else axes_of lc p)"
  by (auto simp: resets_to_def axes_of_def dict_get_def)

lemma reconcile_memory_resets:
  "reconcile_memory items acc lc = (acc', lc') \<Longrightarrow>
   \<exists>new. acc' = acc @ new \<and> set new = {pid. \<exists>a. (pid, a) \<in> set items \<and> is_stuck (ax_runtime a)} \<and>
     resets_to (set new) lc lc'"
proof (induction items arbitrary: acc lc)
  case (Cons it items)
  obtain pid a where it: "it = (pid, a)" by fastforce
  show ?case
  proof (cases "is_stuck (ax_runtime a)")
    case True
    with Cons.prems it have "reconcile_memory items (acc @ [pid]) (reset_axes pid lc) = (acc', lc')" by simp
    from Cons.IH [OF this] obtain new where
      "acc' = (acc @ [pid]) @ new" "set new = {q. \<exists>a. (q, a) \<in> set items \<and> is_stuck (ax_runtime a)}"
      "resets_to (set new) (reset_axes pid lc) lc'" by blast
    then show ?thesis using True it by (intro exI [of _ "pid # new"]) (auto intro: resets_to_step)
  next
    case False
    with Cons.prems it Cons.IH [of acc lc] show ?thesis by auto
  qed
qed auto

lemma reconcile_rows_resets:
  "reconcile_rows pids acc lc = (acc', lc') \<Longrightarrow>
   \<exists>new. acc' = acc @ new \<and> set new = {p \<in> set pids. map_of (lc_states lc) p = None} \<and>
     resets_to (set new) lc lc'"
proof (induction pids arbitrary: acc lc)
  case (Cons pid pids)
  show ?case
  proof (cases "map_of (lc_states lc) pid")
    case None
    with Cons.prems have "reconcile_rows pids (acc @ [pid]) (reset_axes pid lc) = (acc', lc')" by simp
    from Cons.IH [OF this] obtain new where
      n: "acc' = (acc @ [pid]) @ new"
      "set new = {p \<in> set pids. map_of (lc_states (reset_axes pid lc)) p = None}"
      "resets_to (set new) (reset_axes pid lc) lc'" by blast
    have "set (pid # new) = {p \<in> set (pid # pids). map_of (lc_states lc) p = None}"
      using n(2) None by (auto split: if_splits)
    moreover have "resets_to (set (pid # new)) lc lc'" using resets_to_step [OF n(3)] by simp
    ultimately show ?thesis using n(1) by (intro exI [of _ "pid # new"]) simp
  next
    case (Some a)
    with Cons.prems Cons.IH [of acc lc] show ?thesis by auto
  qed
qed auto

lemma fold_sql_update_ids:
  assumes "\<And>r. pr_id (f r) = pr_id r" and "\<And>r. f (f r) = f r"
  shows "fold (\<lambda>pid. sql_update (\<lambda>r. pr_id r = pid) f) ids rows =
    map (\<lambda>r. if pr_id r \<in> set ids then f r else r) rows"
  using assms by (induction ids arbitrary: rows) (auto simp: sql_update_def)

definition stuck_ids :: "lifecycle \<Rightarrow> plugin_row list \<Rightarrow> string set" where
  "stuck_ids lc rows =
     {p. \<exists>a. map_of (lc_states lc) p = Some a \<and> is_stuck (ax_runtime a)} \<union>
     {p. map_of (lc_states lc) p = None \<and> (\<exists>r \<in> set rows. pr_id r = p \<and> is_stuck (pr_status r))}"

lemma reconcile_facts:
  assumes wf: "dict_wf (lc_states lc)" and db: "lc_db lc = Some rows"
    and r: "reconcile_after_crash no_faults lc = (ids, lc')"
  shows "set ids = stuck_ids lc rows"
    and "axes_of lc' p = (if p \<in> set ids then default_axes else axes_of lc p)"
    and "lc_db lc' = Some (map (\<lambda>r. if pr_id r \<in> set ids then r\<lparr>pr_enabled := 0, pr_status := ''DISABLED''\<rparr> else r) rows)"
proof -
  obtain acc lc1 where m: "reconcile_memory (lc_states lc) [] lc = (acc, lc1)" by fastforce
  from reconcile_memory_resets [OF m] have
    acc: "set acc = {p. \<exists>a. map_of (lc_states lc) p = Some a \<and> is_stuck (ax_runtime a)}" and
    r1: "resets_to (set acc) lc lc1"
    using wf by (auto simp: dict_wf_def)
  obtain acc2 lc2 where
    w: "reconcile_rows (map pr_id (filter (\<lambda>r. is_stuck (pr_status r)) rows)) acc lc1 = (acc2, lc2)" by fastforce
  from reconcile_rows_resets [OF w] obtain new where
    n: "acc2 = acc @ new" "set new = {p \<in> set (map pr_id (filter (\<lambda>r. is_stuck (pr_status r)) rows)). map_of (lc_states lc1) p = None}"
      "resets_to (set new) lc1 lc2" by blast
  have r2: "resets_to (set acc2) lc lc2" using resets_to_trans [OF r1 n(3)] n(1) by simp
  have db1: "lc_db lc1 = Some rows" using r1 db by (simp add: resets_to_def)
  have lc': "ids = acc2" "lc_states lc' = lc_states lc2"
    "lc_db lc' = Some (fold (\<lambda>pid. sql_update (\<lambda>r. pr_id r = pid)
       (\<lambda>r. r\<lparr>pr_enabled := 0, pr_status := ''DISABLED''\<rparr>)) acc2 rows)"
    using r m w db1 r2 db by (auto simp: reconcile_after_crash_def no_faults_def resets_to_def split: if_splits)
  have none: "map_of (lc_states lc1) p = None \<longleftrightarrow> map_of (lc_states lc) p = None" for p
    using r1 acc by (auto simp: resets_to_def split: if_splits)
  show "set ids = stuck_ids lc rows" using acc n(1,2) lc'(1) none by (auto simp: stuck_ids_def)
  show "axes_of lc' p = (if p \<in> set ids then default_axes else axes_of lc p)"
    using resets_to_axes [OF r2, of p] lc'(1,2) by (simp add: axes_of_def)
  show "lc_db lc' = Some (map (\<lambda>r. if pr_id r \<in> set ids then r\<lparr>pr_enabled := 0, pr_status := ''DISABLED''\<rparr> else r) rows)"
    using lc' by (simp add: fold_sql_update_ids)
qed

lemma reconcile_axes [lc_frame]:
  "ax_runtime (axes_of lc p) = ''ERROR'' \<Longrightarrow> map_of (lc_states lc) p \<noteq> None \<Longrightarrow> dict_wf (lc_states lc) \<Longrightarrow>
   axes_of (snd (reconcile_after_crash flt lc)) p = axes_of lc p"
proof -
  assume e: "ax_runtime (axes_of lc p) = ''ERROR''" "map_of (lc_states lc) p \<noteq> None" "dict_wf (lc_states lc)"
  obtain acc lc1 where m: "reconcile_memory (lc_states lc) [] lc = (acc, lc1)" by fastforce
  from reconcile_memory_resets [OF m] have
    acc: "set acc = {p. \<exists>a. map_of (lc_states lc) p = Some a \<and> is_stuck (ax_runtime a)}" and
    r1: "resets_to (set acc) lc lc1" using e by (auto simp: dict_wf_def)
  have "p \<notin> set acc" using e acc by (auto simp: axes_of_def dict_get_def is_stuck_def)
  with r1 e have p1: "map_of (lc_states lc1) p = map_of (lc_states lc) p" by (auto simp: resets_to_def)
  have rows: "map_of (lc_states (snd (reconcile_rows pids acc lc1))) p = map_of (lc_states lc1) p" for pids
    using reconcile_rows_resets [of pids acc lc1] p1 e(2)
    by (cases "reconcile_rows pids acc lc1") (auto simp: resets_to_def)
  show ?thesis
    using m p1 rows
    by (auto simp: reconcile_after_crash_def Let_def split_def axes_of_def dict_get_def split: option.split)
qed

section \<open>The abstract machine\<close>

text \<open>
  What a change of the desired state means on the three axes, without strings,
  memory or database.
\<close>

datatype refusal = Busy | Stopping | Sticky

fun spec_transition ::
  "desired_state \<times> runtime_state \<times> operation_state \<Rightarrow> desired_state \<Rightarrow>
     refusal + desired_state \<times> runtime_state \<times> operation_state" where
  "spec_transition (d, r, oper) n =
     (if n = d then Inr (d, r, oper)
      else if oper \<noteq> IDLE then Inl Busy
      else case r of
             STOPPING \<Rightarrow> Inl Stopping
           | ERROR \<Rightarrow> (if n = ENABLED then Inr (ENABLED, UNLOADED, IDLE) else Inl Sticky)
           | UNLOADED \<Rightarrow> Inr (n, if n = ENABLED then LOADING else UNLOADED, IDLE)
           | LOADING \<Rightarrow> Inr (n, if n = ENABLED then LOADING else STOPPING, IDLE)
           | ACTIVE \<Rightarrow> Inr (n, if n = ENABLED then ACTIVE else STOPPING, IDLE))"

fun axes_str :: "desired_state \<times> runtime_state \<times> operation_state \<Rightarrow> axes" where
  "axes_str (d, r, oper) =
     \<lparr>ax_desired = desired_str d, ax_runtime = runtime_str r, ax_operation = operation_str oper\<rparr>"

primrec refusal_error :: "refusal \<Rightarrow> string \<Rightarrow> desired_state \<times> runtime_state \<times> operation_state \<Rightarrow> lc_error" where
  "refusal_error Busy pid t = Operation_Busy pid (operation_str (snd (snd t)))"
| "refusal_error Stopping pid t = Runtime_Stopping pid"
| "refusal_error Sticky pid t = Error_Sticky pid ''DISABLED''"

lemma desired_str_inj [simp]: "desired_str d = desired_str e \<longleftrightarrow> d = e"
  by (cases d; cases e) simp_all

lemma desired_str_valid [simp]: "desired_str d \<in> set [''ENABLED'', ''DISABLED'']"
  by (cases d) simp_all

lemma reported_after_commit:
  assumes "\<And>r. pr_id (f r) = pr_id r" and "\<And>r. (pr_enabled (f r) \<noteq> 0) = (ax_desired a = ''ENABLED'')"
    and "ax_desired a \<in> set [''ENABLED'', ''DISABLED'']"
  shows "commit_transition no_faults pid a f lc = (Inr True, snd (commit_transition no_faults pid a f lc))"
    and "fst (get_state no_faults pid (snd (commit_transition no_faults pid a f lc))) = a"
proof -
  have f1: "sql_fetchone (\<lambda>r. pr_id r = pid) (sql_update (\<lambda>r. pr_id r = pid) f rows) =
      map_option f (sql_fetchone (\<lambda>r. pr_id r = pid) rows)" for rows
    using sql_fetchone_update_key_all [of pr_id f pid rows] assms(1) by simp
  show "commit_transition no_faults pid a f lc = (Inr True, snd (commit_transition no_faults pid a f lc))"
    by (simp add: commit_transition_def db_write_ok no_faults_def)
  define lc' where "lc' = snd (commit_transition no_faults pid a f lc)"
  have ax: "axes_of lc' pid = a" by (simp add: lc'_def)
  have db: "lc_db lc' = map_option (sql_update (\<lambda>r. pr_id r = pid) f) (lc_db lc)"
    by (simp add: lc'_def commit_transition_snd db_write_ok no_faults_def)
  have "fst (get_desired_state no_faults pid lc') = ax_desired a"
    using assms(2,3) by (auto simp: get_desired_state_def Let_def ax db f1 no_faults_def simp del: sql_fetchone_None_iff
        split: option.splits)
  then show "fst (get_state no_faults pid (snd (commit_transition no_faults pid a f lc))) = a"
    by (simp add: get_state_eq lc'_def [symmetric] ax)
qed

lemma apply_transition_refines:
  assumes "spec_transition (d, r, oper) n = Inr t" and "n \<noteq> d"
  shows "fst (apply_transition no_faults pid (axes_str (d, r, oper)) (desired_str n) lc) = Inr True \<and>
    fst (get_state no_faults pid (snd (apply_transition no_faults pid (axes_str (d, r, oper)) (desired_str n) lc))) = axes_str t"
proof -
  have ok: "fst (commit_transition no_faults pid a f lc) = Inr True \<and>
      fst (get_state no_faults pid (snd (commit_transition no_faults pid a f lc))) = a"
    if "\<And>r. pr_id (f r) = pr_id r" "\<And>r. (pr_enabled (f r) \<noteq> 0) = (ax_desired a = ''ENABLED'')"
      "ax_desired a \<in> set [''ENABLED'', ''DISABLED'']" for a f
    using reported_after_commit [of f a pid lc] that by (metis fst_conv)
  from assms show ?thesis
    by (cases r; cases n) (auto simp: apply_transition_def ok split: if_splits)
qed

lemma validate_refines:
  "validate_desired_transition pid (desired_str d) (runtime_str r) (operation_str oper) (desired_str n) =
     (case spec_transition (d, r, oper) n of
        Inl e \<Rightarrow> Inl (refusal_error e pid (d, r, oper)) | Inr _ \<Rightarrow> Inr ())"
  by (cases d; cases n; cases oper; cases r) (simp_all add: validate_desired_transition_def)

text \<open>
  C24. On a plugin whose reported state is a triple of the three enumerations,
  and with a database that answers, a request to change the desired state does
  what the abstract machine says: it returns True and the state reported
  afterwards is the machine's next state, or it raises the refusal the machine
  gives and the reported state is unchanged. The guard at the end of the method
  that the code calls unreachable is never taken.
\<close>
theorem transition_refines:
  assumes "fst (get_state no_faults pid lc) = axes_str t" and "upper s = desired_str n"
  shows "case spec_transition t n of
      Inr t' \<Rightarrow> fst (transition no_faults pid s lc) = Inr True \<and>
        fst (get_state no_faults pid (snd (transition no_faults pid s lc))) = axes_str t'
    | Inl e \<Rightarrow> fst (transition no_faults pid s lc) = Inl (refusal_error e pid t) \<and>
        fst (get_state no_faults pid (snd (transition no_faults pid s lc))) = axes_str t"
proof -
  obtain d r oper where t: "t = (d, r, oper)" by (cases t)
  obtain lc1 where g: "get_state no_faults pid lc = (axes_str t, lc1)" and lc1: "lc1 = ensure pid lc"
    using assms(1) by (auto simp: get_state_eq)
  have g1: "fst (get_state no_faults pid lc1) = axes_str t"
    using assms(1) by (simp add: get_state_eq lc1 get_desired_state_def Let_def)
  have tr: "transition no_faults pid s lc =
      (case validate_desired_transition pid (desired_str d) (runtime_str r) (operation_str oper) (desired_str n) of
         Inl e \<Rightarrow> (Inl e, lc1)
       | Inr _ \<Rightarrow> if n = d then (Inr True, lc1) else apply_transition no_faults pid (axes_str t) (desired_str n) lc1)"
    using assms(2) by (simp add: transition_def g t Let_def del: set_simps split: sum.split)
  show ?thesis
  proof (cases "spec_transition t n")
    case (Inl e)
    with tr g1 show ?thesis by (simp add: validate_refines t)
  next
    case (Inr t')
    show ?thesis
    proof (cases "n = d")
      case True
      with Inr tr g1 show ?thesis by (auto simp: validate_refines t)
    next
      case False
      with Inr tr apply_transition_refines [of d r oper n t' pid lc1] show ?thesis
        by (simp add: validate_refines t)
    qed
  qed
qed

definition sample_lc :: lifecycle where
  "sample_lc =
     \<lparr>lc_states = [(''docker'', \<lparr>ax_desired = ''DISABLED'', ax_runtime = ''ERROR'', ax_operation = ''IDLE''\<rparr>),
        (''plex'', \<lparr>ax_desired = ''ENABLED'', ax_runtime = ''LOADING'', ax_operation = ''IDLE''\<rparr>)],
      lc_db = Some [\<lparr>pr_id = ''docker'', pr_enabled = 0, pr_status = ''ERROR''\<rparr>,
        \<lparr>pr_id = ''plex'', pr_enabled = 1, pr_status = ''LOADING''\<rparr>,
        \<lparr>pr_id = ''metrics'', pr_enabled = 1, pr_status = ''STOPPING''\<rparr>]\<rparr>"

theorem transition_refines_witness:
  "fst (transition no_faults ''docker'' ''enabled'' sample_lc) = Inr True \<and>
   fst (get_state no_faults ''docker'' (snd (transition no_faults ''docker'' ''enabled'' sample_lc))) =
     axes_str (ENABLED, UNLOADED, IDLE)"
proof -
  have "fst (get_state no_faults ''docker'' sample_lc) = axes_str (DISABLED, ERROR, IDLE)"
    by (simp add: sample_lc_def get_state_eq get_desired_state_def ensure_def axes_of_def no_faults_def Let_def)
  moreover have "upper ''enabled'' = desired_str ENABLED" by code_simp
  ultimately show ?thesis using transition_refines [of "''docker''" sample_lc _ "''enabled''" ENABLED] by fastforce
qed

section \<open>Runs\<close>

datatype lc_call =
    Transition db_faults string string
  | Update_Runtime db_faults string string
  | Update_Operation string string
  | Set_Error db_faults string
  | Reconcile db_faults
  | Set_Runtime string string
  | Remove string
  | Get_State db_faults string

primrec lc_call_step :: "lc_call \<Rightarrow> lifecycle \<Rightarrow> lifecycle" where
  "lc_call_step (Transition flt pid s) lc = snd (transition flt pid s lc)"
| "lc_call_step (Update_Runtime flt pid rt) lc = update_runtime_state flt pid rt lc"
| "lc_call_step (Update_Operation pid oper) lc = update_operation_state pid oper lc"
| "lc_call_step (Set_Error flt pid) lc = snd (set_error flt pid lc)"
| "lc_call_step (Reconcile flt) lc = snd (reconcile_after_crash flt lc)"
| "lc_call_step (Set_Runtime pid rt) lc = set_runtime pid rt lc"
| "lc_call_step (Remove pid) lc = remove_plugin pid lc"
| "lc_call_step (Get_State flt pid) lc = snd (get_state flt pid lc)"

definition lc_run :: "lc_call list \<Rightarrow> lifecycle \<Rightarrow> lifecycle" where
  "lc_run calls lc = fold lc_call_step calls lc"

primrec may_leave_error :: "string \<Rightarrow> lc_call \<Rightarrow> bool" where
  \<comment> \<open>an explicit activation of the plugin, or one of the two unvalidated engine helpers on it\<close>
  "may_leave_error p (Transition flt pid s) = (pid = p \<and> upper s = ''ENABLED'')"
| "may_leave_error p (Update_Runtime flt pid rt) = False"
| "may_leave_error p (Update_Operation pid oper) = False"
| "may_leave_error p (Set_Error flt pid) = False"
| "may_leave_error p (Reconcile flt) = False"
| "may_leave_error p (Set_Runtime pid rt) = (pid = p)"
| "may_leave_error p (Remove pid) = (pid = p)"
| "may_leave_error p (Get_State flt pid) = False"

definition lc_wf :: "lifecycle \<Rightarrow> bool" where
  "lc_wf lc \<longleftrightarrow> dict_wf (lc_states lc)"

lemma lc_wf_basic [simp, intro]:
  "lc_wf lc \<Longrightarrow> lc_wf (ensure pid lc)"
  "lc_wf lc \<Longrightarrow> lc_wf (set_in_memory pid d r oper lc)"
  "lc_wf lc \<Longrightarrow> lc_wf (reset_axes pid lc)"
  "lc_wf lc \<Longrightarrow> lc_wf (snd (db_write flt pid f lc))"
  by (auto simp: lc_wf_def ensure_def set_in_memory_def reset_axes_def db_write_def split: option.splits)

lemma lc_wf_commit [simp, intro]: "lc_wf lc \<Longrightarrow> lc_wf (snd (commit_transition flt pid a f lc))"
  by (simp add: commit_transition_snd)

lemma lc_wf_apply: "lc_wf lc \<Longrightarrow> lc_wf (snd (apply_transition flt pid cur n lc))"
  by (simp add: apply_transition_def)

lemma lc_wf_remove [simp, intro]: "lc_wf lc \<Longrightarrow> lc_wf (remove_plugin pid lc)"
  by (auto simp: lc_wf_def remove_plugin_def)

lemma lc_wf_transition: "lc_wf lc \<Longrightarrow> lc_wf (snd (transition flt pid s lc))"
  by (simp add: transition_def Let_def get_state_eq lc_wf_apply split: sum.split)

lemma lc_wf_reconcile_memory: "lc_wf lc \<Longrightarrow> lc_wf (snd (reconcile_memory items acc lc))"
  by (induction items acc lc rule: reconcile_memory.induct) auto

lemma lc_wf_reconcile_rows: "lc_wf lc \<Longrightarrow> lc_wf (snd (reconcile_rows pids acc lc))"
  by (induction pids acc lc rule: reconcile_rows.induct) (auto split: option.splits)

lemma lc_wf_reconcile: "lc_wf lc \<Longrightarrow> lc_wf (snd (reconcile_after_crash flt lc))"
  using lc_wf_reconcile_rows [OF lc_wf_reconcile_memory]
  by (auto simp: reconcile_after_crash_def Let_def split_def lc_wf_def dest: lc_wf_reconcile_memory [unfolded lc_wf_def]
      split: option.split)

lemma lc_wf_step: "lc_wf lc \<Longrightarrow> lc_wf (lc_call_step c lc)"
  by (cases c) (auto simp: lc_wf_transition lc_wf_reconcile update_runtime_state_def update_operation_state_def
      set_error_def set_runtime_def get_state_eq Let_def)

text \<open>The plugin is tracked and in ERROR, and a call that may not leave ERROR keeps that.\<close>

definition in_error :: "string \<Rightarrow> lifecycle \<Rightarrow> bool" where
  "in_error p lc \<longleftrightarrow> get_flat_state lc p = Some ''ERROR''"

definition tracked :: "lifecycle \<Rightarrow> string \<Rightarrow> bool" where
  "tracked lc p \<longleftrightarrow> map_of (lc_states lc) p \<noteq> None"

lemma in_error_iff: "in_error p lc \<longleftrightarrow> tracked lc p \<and> ax_runtime (axes_of lc p) = ''ERROR''"
  by (auto simp: in_error_def get_flat_state_def axes_of_def dict_get_def tracked_def split: option.splits)

lemma tracked_basic [simp, intro]:
  "tracked lc p \<Longrightarrow> tracked (ensure pid lc) p"
  "tracked lc p \<Longrightarrow> tracked (set_in_memory pid d r oper lc) p"
  "tracked lc p \<Longrightarrow> tracked (snd (db_write flt pid f lc)) p"
  "tracked lc p \<Longrightarrow> p \<noteq> pid \<Longrightarrow> tracked (remove_plugin pid lc) p"
  by (auto simp: tracked_def ensure_def set_in_memory_def db_write_def remove_plugin_def py_dict split: option.splits)

lemma resets_to_tracked: "resets_to S lc lc' \<Longrightarrow> tracked lc p \<Longrightarrow> tracked lc' p"
  by (auto simp: resets_to_def tracked_def)

lemma tracked_apply: "tracked lc p \<Longrightarrow> tracked (snd (apply_transition flt pid cur n lc)) p"
  by (simp add: apply_transition_def commit_transition_snd)

lemma tracked_transition: "tracked lc p \<Longrightarrow> tracked (snd (transition flt pid s lc)) p"
  by (simp add: transition_def Let_def get_state_eq tracked_apply split: sum.split)

lemma tracked_reconcile: "tracked lc p \<Longrightarrow> tracked (snd (reconcile_after_crash flt lc)) p"
proof -
  assume t: "tracked lc p"
  obtain acc lc1 where m: "reconcile_memory (lc_states lc) [] lc = (acc, lc1)" by fastforce
  have 1: "tracked lc1 p" using reconcile_memory_resets [OF m] t resets_to_tracked by blast
  have "tracked (snd (reconcile_rows pids acc lc1)) p" for pids
    using reconcile_rows_resets [of pids acc lc1] 1 resets_to_tracked
    by (cases "reconcile_rows pids acc lc1") fastforce
  with m 1 show ?thesis
    by (simp add: reconcile_after_crash_def Let_def split_def tracked_def split: option.split)
qed

lemma tracked_step:
  assumes "tracked lc p" and "\<not> may_leave_error p c"
  shows "tracked (lc_call_step c lc) p"
  using assms by (cases c) (simp_all add: tracked_transition tracked_reconcile update_runtime_state_def
      update_operation_state_def set_error_def set_runtime_def get_state_eq Let_def)

lemma in_error_step:
  assumes "lc_wf lc" and "in_error p lc" and "\<not> may_leave_error p c"
  shows "in_error p (lc_call_step c lc)"
proof -
  have t: "tracked lc p" and e: "ax_runtime (axes_of lc p) = ''ERROR''"
    using assms(2) by (auto simp: in_error_iff)
  have "ax_runtime (axes_of (lc_call_step c lc) p) = ''ERROR''"
  proof (cases c)
    case (Transition flt pid s)
    then show ?thesis using assms(3) e
      by (cases "p = pid") (simp_all add: transition_error_kept transition_other)
  next
    case (Reconcile flt)
    then show ?thesis using assms(1) t e by (simp add: reconcile_axes lc_wf_def tracked_def del: not_None_eq)
  next
    case (Remove pid)
    then show ?thesis using assms(3) e by (simp add: remove_plugin_def axes_of_def py_dict)
  next
    case (Set_Runtime pid rt)
    then show ?thesis using assms(3) e by (simp add: set_runtime_def Let_def)
  qed (use e in \<open>simp_all add: lc_frame get_state_eq\<close>)
  with tracked_step [OF t assms(3)] show ?thesis by (simp add: in_error_iff)
qed

text \<open>
  ERROR is sticky: from a tracked plugin in ERROR, no sequence of calls on
  any plugins, with or without database failures and restarts of
  reconciliation, takes the plugin out of ERROR unless it holds an explicit
  activation of that plugin or one of the engine's unvalidated helpers on it.
\<close>
theorem error_is_sticky:
  assumes "lc_wf lc" and "get_flat_state lc p = Some ''ERROR''" and "\<forall>c \<in> set calls. \<not> may_leave_error p c"
  shows "get_flat_state (lc_run calls lc) p = Some ''ERROR''"
proof -
  from assms have "lc_wf (fold lc_call_step calls lc) \<and> in_error p (fold lc_call_step calls lc)"
    by (induction calls arbitrary: lc) (auto simp: lc_wf_step in_error_step simp flip: in_error_def)
  then show ?thesis by (simp add: in_error_def lc_run_def)
qed

theorem error_is_sticky_witness:
  "get_flat_state (lc_run [Update_Runtime no_faults ''docker'' ''LOADING'', Transition no_faults ''docker'' ''DISABLED'',
     Reconcile no_faults, Transition no_faults ''plex'' ''ENABLED''] sample_lc) ''docker'' = Some ''ERROR''"
  by (rule error_is_sticky)
    (simp_all add: sample_lc_def lc_wf_def dict_wf_def get_flat_state_def upper_def upper_char_def)

text \<open>
  Crash recovery: with a database that answers, the returned identifiers
  are exactly those of the tracked plugins that were loading or stopping and of
  the untracked plugins whose row says so; these and no others are back at
  DISABLED, UNLOADED and IDLE in memory, and their rows and no others are
  disabled.
\<close>
theorem reconcile_after_crash_correct:
  assumes "dict_wf (lc_states lc)" and "lc_db lc = Some rows"
  shows "case reconcile_after_crash no_faults lc of (ids, lc') \<Rightarrow>
    set ids = stuck_ids lc rows \<and>
    (\<forall>p. axes_of lc' p = (if p \<in> set ids then default_axes else axes_of lc p)) \<and>
    lc_db lc' = Some (map (\<lambda>r. if pr_id r \<in> set ids then r\<lparr>pr_enabled := 0, pr_status := ''DISABLED''\<rparr> else r) rows)"
  using reconcile_facts [OF assms] by (auto split: prod.split)

theorem reconcile_after_crash_correct_witness:
  "set (fst (reconcile_after_crash no_faults sample_lc)) = stuck_ids sample_lc (the (lc_db sample_lc))"
  using reconcile_after_crash_correct [of sample_lc "the (lc_db sample_lc)"]
  by (simp add: sample_lc_def dict_wf_def split_def)

text \<open>
  The engine's report of a runtime error does not go through \<open>set_error\<close>: it
  leaves the desired state as it is. A plugin that entered ERROR that way while
  its row is enabled can no longer be moved by any request of an administrator:
  activation is taken for a no-op and returns True, anything else is refused.
\<close>

lemma runtime_error_keeps_desired:
  assumes "ax_runtime (axes_of lc pid) = ''ACTIVE''"
  shows "axes_of (update_runtime_state flt pid ''ERROR'' lc) pid = (axes_of lc pid)\<lparr>ax_runtime := ''ERROR''\<rparr>"
  using assms by (simp add: update_runtime_state_def Let_def VALID_RUNTIME_TRANSITIONS_def)

lemma enabled_error_unrecoverable:
  assumes "lc_db lc = Some rows" and "sql_fetchone (\<lambda>r. pr_id r = pid) rows = Some row" and "pr_enabled row \<noteq> 0"
    and "ax_runtime (axes_of lc pid) = ''ERROR''"
  shows "ax_runtime (axes_of (snd (transition no_faults pid s lc)) pid) = ''ERROR'' \<and>
    (upper s = ''ENABLED'' \<longrightarrow> fst (transition no_faults pid s lc) = Inr True) \<and>
    (upper s \<noteq> ''ENABLED'' \<longrightarrow> (\<exists>e. fst (transition no_faults pid s lc) = Inl e))"
proof -
  have d: "fst (get_desired_state no_faults pid lc) = ''ENABLED''"
    using assms(1-3) by (simp add: get_desired_state_def no_faults_def Let_def)
  show ?thesis
    using assms(4) d by (simp add: transition_def get_state_eq Let_def validate_desired_transition_def)
qed

end
