(* ===== verification/Plugin_Manifest.thy ===== *)
theory Plugin_Manifest
  imports Py_Text
begin

text \<open>
  Plugin manifests (\<open>src/master/core/plugin_manifest.py\<close>) and the identifiers
  of plugins (\<open>src/master/core/plugin_ids.py\<close>): the two generations of the
  declarative model, the pre-pass that caps the size and nesting of raw JSON,
  the migration of a first-generation manifest, the routing on
  \<open>schema_version\<close>, and the projection of pages to the legacy format, with the
  page registry of \<open>src/master/core/plugin_engine.py\<close> it has to reproduce.

  Pydantic is not part of the repository: \<open>model_validate\<close> of the second
  generation is an argument of the loader.
\<close>

section \<open>Identifiers\<close>

definition BUILTIN_FILE_TO_ID :: "(string, string) dict" where
  "BUILTIN_FILE_TO_ID =
     [(''metrics_plugin'', ''metrics''), (''systemd_plugin'', ''systemd''), (''docker_plugin'', ''docker'')]"

definition BUILTIN_ID_TO_FILE :: "(string, string) dict" where
  "BUILTIN_ID_TO_FILE = map (\<lambda>(stem, pid). (pid, stem)) BUILTIN_FILE_TO_ID"

definition canonical_plugin_id :: "string \<Rightarrow> string" where
  \<comment> \<open>with \<open>plugins_dir=None\<close>, as every caller of the engine uses it\<close>
  "canonical_plugin_id name =
     (case map_of BUILTIN_FILE_TO_ID name of
        Some pid \<Rightarrow> pid
      | None \<Rightarrow> if ends_with name ''_plugin'' then take (length name - 7) name else name)"

definition plugin_file_stem :: "string \<Rightarrow> string" where
  "plugin_file_stem pid = dict_get BUILTIN_ID_TO_FILE pid pid"

definition plugin_id_forms :: "string \<Rightarrow> string list" where
  "plugin_id_forms pid = [pid, canonical_plugin_id pid, plugin_file_stem pid]"

section \<open>The two models\<close>

definition valid_plugin_id :: "string \<Rightarrow> bool" where
  \<comment> \<open>pattern \<open>^[a-z][a-z0-9_]+$\<close>\<close>
  "valid_plugin_id s \<longleftrightarrow>
     (let low = (\<lambda>c. 97 \<le> (of_char c :: nat) \<and> (of_char c :: nat) \<le> 122)
      in case s of
           c # d # cs \<Rightarrow> low c \<and> list_all (\<lambda>x. low x \<or> is_digit x \<or> x = CHR ''_'') (d # cs)
         | _ \<Rightarrow> False)"

definition valid_version :: "string \<Rightarrow> bool" where
  \<comment> \<open>pattern \<open>^\d+\.\d+\.\d+$\<close>\<close>
  "valid_version s \<longleftrightarrow>
     (let ps = split_on (CHR ''.'') s in length ps = 3 \<and> list_all (\<lambda>p. p \<noteq> [] \<and> list_all is_digit p) ps)"

record route_spec =
  rs_path :: string
  rs_method :: string
  rs_handler :: string
  rs_roles :: "string list"

record column_spec =
  cs_name :: string
  cs_type :: string
  cs_pk :: bool
  cs_not_null :: bool
  cs_default :: json

record schedule_spec =
  ss_name :: string
  ss_interval_secs :: int
  ss_handler :: string

record manifest_page =
  pg_id :: string
  pg_title :: string
  pg_component :: string
  pg_sidebar :: bool
  pg_params :: "string list"
  pg_roles :: "string list"

record plugin_manifest =
  m_schema_version :: "int option"
  m_id :: string
  m_name :: string
  m_version :: string
  m_loader :: "string option"
  m_routes :: "route_spec list"
  m_hooks :: "string list"
  m_database :: "(string, column_spec list) dict"
  m_scheduler :: "schedule_spec list"
  m_pages :: "manifest_page list"
  m_trusted :: bool
  m_external_auth_domains :: "string list option"

record permission_v2 =
  pv_name :: string
  pv_description :: "string option"

record plugin_manifest_v2 =
  v2_schema_version :: int
  v2_id :: string
  v2_version :: string
  v2_hooks :: "string list"
  v2_pages :: "manifest_page list"
  v2_routes :: "route_spec list"
  v2_config_schema :: json
  v2_permissions :: "permission_v2 list option"
  v2_external_auth_domains :: "string list option"

definition PLUGIN_MANIFEST_V2_FIELDS :: "string list" where
  \<comment> \<open>what \<open>extra="forbid"\<close> lets pass\<close>
  "PLUGIN_MANIFEST_V2_FIELDS =
     [''schema_version'', ''id'', ''version'', ''hooks'', ''pages'', ''routes'', ''config_schema'',
      ''permissions'', ''external_auth_domains'']"

definition PAGE_V2_FIELDS :: "string list" where
  "PAGE_V2_FIELDS = [''id'', ''title'', ''component'', ''sidebar'', ''params'', ''roles'']"

section \<open>The raw pre-pass\<close>

definition MAX_MANIFEST_V2_BYTES :: nat where
  "MAX_MANIFEST_V2_BYTES = 64 * 1024"

definition MAX_MANIFEST_V2_DEPTH :: nat where
  "MAX_MANIFEST_V2_DEPTH = 5"

fun max_json_depth :: "json \<Rightarrow> nat \<Rightarrow> nat" where
  "max_json_depth (JObj kvs) level = Max (set (level # map (\<lambda>(k, v). max_json_depth v (level + 1)) kvs))"
| "max_json_depth (JArr vs) level = Max (set (level # map (\<lambda>v. max_json_depth v (level + 1)) vs))"
| "max_json_depth v level = level"

datatype manifest_error =
    Too_Large
  | Not_Parseable
  | Not_An_Object
  | Too_Deep
  | Version_Not_Integer
  | Unknown_Version int
  | No_Migration_Path int int
  | Model_Rejects

definition validate_manifest_v2_raw :: "string \<Rightarrow> manifest_error + (string, json) dict" where
  "validate_manifest_v2_raw bytes =
     (if MAX_MANIFEST_V2_BYTES < length bytes then Inl Too_Large
      else case json_loads bytes of
             None \<Rightarrow> Inl Not_Parseable
           | Some data \<Rightarrow>
               (case data of
                  JObj kvs \<Rightarrow> if MAX_MANIFEST_V2_DEPTH < max_json_depth data 1 then Inl Too_Deep else Inr kvs
                | _ \<Rightarrow> Inl Not_An_Object))"

section \<open>Migration\<close>

definition pick_fields :: "string list \<Rightarrow> (string, json) dict \<Rightarrow> (string, json) dict" where
  \<comment> \<open>\<open>{k: d[k] for k in ks if k in d}\<close>\<close>
  "pick_fields ks d = concat (map (\<lambda>k. case map_of d k of None \<Rightarrow> [] | Some v \<Rightarrow> [(k, v)]) ks)"

fun migrate_v1_page :: "json \<Rightarrow> json" where
  "migrate_v1_page (JObj p) = JObj (pick_fields PAGE_V2_FIELDS p)"
| "migrate_v1_page v = v"

fun migrate_v1_pages :: "json \<Rightarrow> json" where
  "migrate_v1_pages (JArr ps) = JArr (map migrate_v1_page ps)"
| "migrate_v1_pages v = v"

definition CARRIED_FIELDS :: "string list" where
  "CARRIED_FIELDS =
     [''id'', ''version'', ''hooks'', ''routes'', ''config_schema'', ''permissions'', ''external_auth_domains'']"

definition migrate_v1_to_v2 :: "(string, json) dict \<Rightarrow> (string, json) dict" where
  "migrate_v1_to_v2 d =
     (''schema_version'', JInt 2) # pick_fields CARRIED_FIELDS d @
     (case map_of d ''pages'' of None \<Rightarrow> [] | Some ps \<Rightarrow> [(''pages'', migrate_v1_pages ps)])"

definition known_version :: "int \<Rightarrow> bool" where
  "known_version v \<longleftrightarrow> v \<in> set [1, 2]"

definition migrate_manifest :: "json \<Rightarrow> int \<Rightarrow> int \<Rightarrow> manifest_error + (string, json) dict" where
  "migrate_manifest data from_v to_v =
     (case data of
        JObj d \<Rightarrow>
          if \<not> known_version from_v then Inl (Unknown_Version from_v)
          else if \<not> known_version to_v then Inl (Unknown_Version to_v)
          else if from_v = to_v then Inr d
          else if (from_v, to_v) = (1, 2) then Inr (migrate_v1_to_v2 d)
          else Inl (No_Migration_Path from_v to_v)
      | _ \<Rightarrow> Inl Not_An_Object)"

definition schema_version_of :: "(string, json) dict \<Rightarrow> json" where
  "schema_version_of d = dict_get d ''schema_version'' (JInt 1)"

definition load_and_validate_manifest ::
  "((string, json) dict \<Rightarrow> 'm option) \<Rightarrow> json \<Rightarrow> manifest_error + 'm" where
  "load_and_validate_manifest model_validate raw =
     (case raw of
        JObj d \<Rightarrow>
          (case schema_version_of d of
             JInt v \<Rightarrow>
               if \<not> known_version v then Inl (Unknown_Version v)
               else (case (if v = 2 then Inr d else migrate_manifest raw 1 2) of
                       Inl e \<Rightarrow> Inl e
                     | Inr d' \<Rightarrow> (case model_validate d' of None \<Rightarrow> Inl Model_Rejects | Some m \<Rightarrow> Inr m))
           | _ \<Rightarrow> Inl Version_Not_Integer)
      | _ \<Rightarrow> Inl Not_An_Object)"

section \<open>Pages\<close>

text \<open>
  A page as the registry stores and serves it: a dictionary whose \<open>icon\<close> key is
  absent from a dumped first-generation page and present after projection.
\<close>

record legacy_page =
  lp_page :: manifest_page
  lp_icon :: "json option"
  lp_plugin_id :: string
  lp_route :: string

definition page_route :: "string \<Rightarrow> manifest_page \<Rightarrow> string" where
  "page_route pid p = ''/plugins/'' @ pid @ ''/'' @ pg_id p @ concat (map (\<lambda>q. ''/:'' @ q) (pg_params p))"

fun json_page_id :: "json \<Rightarrow> string option" where
  "json_page_id (JObj d) = (case map_of d ''id'' of Some (JStr s) \<Rightarrow> Some s | _ \<Rightarrow> None)"
| "json_page_id _ = None"

definition v1_by_id :: "json list \<Rightarrow> string \<Rightarrow> json option" where
  \<comment> \<open>the last page with the identifier\<close>
  "v1_by_id ps i = List.find (\<lambda>p. json_page_id p = Some i) (rev ps)"

definition v1_icon :: "json list \<Rightarrow> string \<Rightarrow> json" where
  "v1_icon ps i =
     (case v1_by_id ps i of
        None \<Rightarrow> JNull
      | Some p \<Rightarrow> (case json_get p ''icon'' of None \<Rightarrow> JNull | Some v \<Rightarrow> v))"

definition project_legacy_pages :: "plugin_manifest_v2 \<Rightarrow> json list \<Rightarrow> legacy_page list" where
  "project_legacy_pages v2 v1_pages =
     map (\<lambda>p. \<lparr>lp_page = p, lp_icon = Some (v1_icon v1_pages (pg_id p)),
                lp_plugin_id = v2_id v2, lp_route = page_route (v2_id v2) p\<rparr>) (v2_pages v2)"

definition dump_page :: "manifest_page \<Rightarrow> json" where
  \<comment> \<open>\<open>ManifestPage.model_dump()\<close>\<close>
  "dump_page p = JObj
     [(''id'', JStr (pg_id p)), (''title'', JStr (pg_title p)), (''component'', JStr (pg_component p)),
      (''sidebar'', JBool (pg_sidebar p)), (''params'', JArr (map JStr (pg_params p))),
      (''roles'', JArr (map JStr (pg_roles p)))]"

type_synonym page_registry = "(string, (manifest_page \<times> json option) list) dict"

definition page_register :: "string \<Rightarrow> (manifest_page \<times> json option) list \<Rightarrow> page_registry \<Rightarrow> page_registry" where
  "page_register pid ps reg = AList.update pid ps reg"

definition page_unregister :: "string \<Rightarrow> page_registry \<Rightarrow> page_registry" where
  "page_unregister pid reg = AList.delete pid reg"

definition get_all_pages :: "page_registry \<Rightarrow> legacy_page list" where
  "get_all_pages reg =
     concat (map (\<lambda>(pid, ps). map (\<lambda>(p, icon).
       \<lparr>lp_page = p, lp_icon = icon, lp_plugin_id = pid, lp_route = page_route pid p\<rparr>) ps) reg)"

definition get_sidebar_pages :: "page_registry \<Rightarrow> legacy_page list" where
  "get_sidebar_pages reg = filter (\<lambda>lp. pg_sidebar (lp_page lp)) (get_all_pages reg)"

section \<open>Identifiers: facts\<close>

text \<open>The canonical form of the file stem of an identifier is the identifier.\<close>

lemma canonical_of_stem:
  assumes "\<not> ends_with pid ''_plugin''"
  shows "canonical_plugin_id (plugin_file_stem pid) = pid"
proof -
  have "pid \<noteq> ''metrics_plugin''" "pid \<noteq> ''systemd_plugin''" "pid \<noteq> ''docker_plugin''"
    using assms by (auto simp: ends_with_def)
  with assms show ?thesis
    by (simp add: canonical_plugin_id_def plugin_file_stem_def BUILTIN_ID_TO_FILE_def BUILTIN_FILE_TO_ID_def dict_get_def)
qed

lemma valid_plugin_id_chars:
  "valid_plugin_id s \<Longrightarrow> c \<in> set s \<Longrightarrow>
   (97 \<le> (of_char c :: nat) \<and> (of_char c :: nat) \<le> 122) \<or> is_digit c \<or> c = CHR ''_''"
  by (auto simp: valid_plugin_id_def Let_def list_all_iff split: list.splits)

text \<open>
  An identifier that passes the pattern has no path separator, dot or colon: it
  is one path component, and the prefix of a task key or command name it builds
  ends at the first colon or dot.
\<close>

lemma valid_plugin_id_safe:
  assumes "valid_plugin_id s"
  shows "CHR '':'' \<notin> set s" and "CHR ''.'' \<notin> set s" and "CHR ''/'' \<notin> set s" and "s \<noteq> []"
  using valid_plugin_id_chars [OF assms, of "CHR '':''"] valid_plugin_id_chars [OF assms, of "CHR ''.''"]
    valid_plugin_id_chars [OF assms, of "CHR ''/''"] assms
  by (auto simp: is_digit_def valid_plugin_id_def Let_def)

section \<open>The nesting cap\<close>

fun nesting :: "json \<Rightarrow> nat" where
  \<comment> \<open>reference: the number of steps from the root to the deepest value\<close>
  "nesting (JObj kvs) = (if kvs = [] then 0 else Suc (Max (set (map (\<lambda>(k, v). nesting v) kvs))))"
| "nesting (JArr vs) = (if vs = [] then 0 else Suc (Max (set (map nesting vs))))"
| "nesting v = 0"

lemma Max_add: "finite A \<Longrightarrow> A \<noteq> {} \<Longrightarrow> Max ((\<lambda>x. n + x) ` A) = (n :: nat) + Max A"
  using mono_Max_commute [of "(+) n" A] by (simp add: monoI)

lemma Max_children:
  assumes "ns \<noteq> []"
  shows "Max (set (level # map (\<lambda>x. level + 1 + x) ns)) = level + Suc (Max (set ns))"
proof -
  have "Max (set (map (\<lambda>x. level + 1 + x) ns)) = level + 1 + Max (set ns)"
    using Max_add [of "set ns" "level + 1"] assms by simp
  then show ?thesis using assms by simp
qed

lemma max_json_depth_nesting: "max_json_depth v level = level + nesting v"
proof (induction v level rule: max_json_depth.induct)
  case (1 kvs level)
  then have "map (\<lambda>(k, v). max_json_depth v (level + 1)) kvs = map (\<lambda>x. level + 1 + x) (map (\<lambda>(k, v). nesting v) kvs)"
    by (auto simp: split_def)
  then show ?case
    using Max_children [of "map (\<lambda>(k, v). nesting v) kvs" level] by (cases kvs) simp_all
next
  case (2 vs level)
  then have "map (\<lambda>v. max_json_depth v (level + 1)) vs = map (\<lambda>x. level + 1 + x) (map nesting vs)" by simp
  then show ?case using Max_children [of "map nesting vs" level] by (cases vs) simp_all
qed simp_all

text \<open>
  The pre-pass is fail-closed and its level-passing depth computation agrees
  with the structural reference: a dictionary comes back exactly when the text
  has at most 65536 characters and parses as an object whose deepest value is at
  most four steps below the root; the dictionary is the parsed object.
\<close>
theorem raw_prepass_equiv:
  "validate_manifest_v2_raw bytes = Inr d \<longleftrightarrow>
     length bytes \<le> 65536 \<and> json_loads bytes = Some (JObj d) \<and> nesting (JObj d) \<le> 4"
  by (auto simp: validate_manifest_v2_raw_def MAX_MANIFEST_V2_BYTES_def MAX_MANIFEST_V2_DEPTH_def
      max_json_depth_nesting simp del: nesting.simps max_json_depth.simps split: option.splits json.splits if_splits)

text \<open>
  The cap counts a scalar as a level of its own: a configuration schema with an
  enumeration inside a field, five containers deep, is refused although no
  container is on level six.
\<close>

lemma scalar_counts_as_level:
  "max_json_depth (JObj [(''config_schema'', JObj [(''schema'', JObj [(''mode'', JObj [(''enum'', JArr [JStr ''a''])])])])]) 1 = 6"
  by simp

section \<open>Migration: facts\<close>

lemma map_of_pick_fields:
  "map_of (pick_fields ks d) k = (if k \<in> set ks then map_of d k else None)"
  by (induction ks) (auto simp: pick_fields_def map_add_def split: option.splits)

lemma fst_pick_fields: "map fst (pick_fields ks d) = filter (\<lambda>k. map_of d k \<noteq> None) ks"
  by (induction ks) (auto simp: pick_fields_def split: option.splits)

lemma keys_migrate:
  "map fst (migrate_v1_to_v2 d) =
     ''schema_version'' # filter (\<lambda>k. map_of d k \<noteq> None) (CARRIED_FIELDS @ [''pages''])"
  by (auto simp: migrate_v1_to_v2_def fst_pick_fields split: option.splits)

fun page_fields_known :: "json \<Rightarrow> bool" where
  "page_fields_known (JObj p) = (set (map fst p) \<subseteq> set PAGE_V2_FIELDS \<and> distinct (map fst p))"
| "page_fields_known _ = True"

lemma migrated_page_known: "page_fields_known (migrate_v1_page p)"
  by (cases p) (auto simp: fst_pick_fields PAGE_V2_FIELDS_def simp del: set_map)

lemma map_of_migrate:
  "map_of (migrate_v1_to_v2 d) k =
     (if k = ''schema_version'' then Some (JInt 2)
      else if k \<in> set CARRIED_FIELDS then map_of d k
      else if k = ''pages'' then map_option migrate_v1_pages (map_of d ''pages'')
      else None)"
  by (auto simp: migrate_v1_to_v2_def map_of_pick_fields map_add_def CARRIED_FIELDS_def split: option.splits)

text \<open>
  Migration loses nothing it promises to carry and adds nothing the second
  generation forbids: the result has distinct keys, all of them fields of the
  second-generation model, version 2, the carried fields with their values; and
  a list of pages becomes the list of the same length whose objects hold only
  page fields of the second generation.
\<close>
theorem migration_correct:
  "distinct (map fst (migrate_v1_to_v2 d)) \<and>
   set (map fst (migrate_v1_to_v2 d)) \<subseteq> set PLUGIN_MANIFEST_V2_FIELDS \<and>
   map_of (migrate_v1_to_v2 d) ''schema_version'' = Some (JInt 2) \<and>
   (\<forall>k \<in> set CARRIED_FIELDS. map_of (migrate_v1_to_v2 d) k = map_of d k) \<and>
   (\<forall>ps. map_of d ''pages'' = Some (JArr ps) \<longrightarrow>
      (\<exists>qs. map_of (migrate_v1_to_v2 d) ''pages'' = Some (JArr qs) \<and> length qs = length ps \<and>
         list_all page_fields_known qs))"
proof (intro conjI)
  have "distinct (''schema_version'' # CARRIED_FIELDS @ [''pages''])" by (simp add: CARRIED_FIELDS_def)
  then show "distinct (map fst (migrate_v1_to_v2 d))" unfolding keys_migrate by (auto intro: distinct_filter)
  have "set (''schema_version'' # CARRIED_FIELDS @ [''pages'']) \<subseteq> set PLUGIN_MANIFEST_V2_FIELDS"
    by (simp add: CARRIED_FIELDS_def PLUGIN_MANIFEST_V2_FIELDS_def)
  then show "set (map fst (migrate_v1_to_v2 d)) \<subseteq> set PLUGIN_MANIFEST_V2_FIELDS"
    unfolding keys_migrate by auto
  show "map_of (migrate_v1_to_v2 d) ''schema_version'' = Some (JInt 2)" by (simp add: map_of_migrate)
  show "\<forall>k \<in> set CARRIED_FIELDS. map_of (migrate_v1_to_v2 d) k = map_of d k"
    by (auto simp: map_of_migrate CARRIED_FIELDS_def)
  show "\<forall>ps. map_of d ''pages'' = Some (JArr ps) \<longrightarrow>
      (\<exists>qs. map_of (migrate_v1_to_v2 d) ''pages'' = Some (JArr qs) \<and> length qs = length ps \<and>
         list_all page_fields_known qs)"
    by (auto simp: map_of_migrate CARRIED_FIELDS_def list_all_iff migrated_page_known)
qed

theorem migration_correct_witness:
  "map_of (migrate_v1_to_v2 [(''id'', JStr ''plex''), (''name'', JStr ''Plex'')]) ''id'' = Some (JStr ''plex'')"
  using migration_correct [of "[(''id'', JStr ''plex''), (''name'', JStr ''Plex'')]"]
  by (simp add: CARRIED_FIELDS_def)

text \<open>
  Loading routes on the version: whatever the model's validator does, loading
  a first-generation manifest and loading its migration give the same result, a
  manifest is accepted only with version absent, 1 or 2, and every other version
  is refused before the validator sees the data.
\<close>
theorem load_and_validate_routes:
  "(schema_version_of d = JInt 1 \<longrightarrow>
      load_and_validate_manifest mv (JObj d) = load_and_validate_manifest mv (JObj (migrate_v1_to_v2 d))) \<and>
   (\<forall>raw m. load_and_validate_manifest mv raw = Inr m \<longrightarrow>
      (\<exists>d'. raw = JObj d' \<and>
         (schema_version_of d' = JInt 1 \<and> mv (migrate_v1_to_v2 d') = Some m \<or>
          schema_version_of d' = JInt 2 \<and> mv d' = Some m)))"
proof -
  have "schema_version_of (migrate_v1_to_v2 d) = JInt 2"
    by (simp add: schema_version_of_def dict_get_def map_of_migrate)
  then show ?thesis
    by (auto simp: load_and_validate_manifest_def migrate_manifest_def known_version_def
        split: json.splits if_splits option.splits sum.splits)
qed

theorem load_and_validate_routes_witness:
  "load_and_validate_manifest (\<lambda>d. map_of d ''id'') (JObj [(''id'', JStr ''plex''), (''name'', JStr ''Plex'')]) =
   load_and_validate_manifest (\<lambda>d. map_of d ''id'') (JObj (migrate_v1_to_v2 [(''id'', JStr ''plex''), (''name'', JStr ''Plex'')]))"
  using load_and_validate_routes [of "[(''id'', JStr ''plex''), (''name'', JStr ''Plex'')]" "\<lambda>d. map_of d ''id''"]
  by (simp add: schema_version_of_def)

section \<open>Pages: facts\<close>

definition registry_entries :: "legacy_page list \<Rightarrow> (manifest_page \<times> json option) list" where
  "registry_entries lps = map (\<lambda>lp. (lp_page lp, lp_icon lp)) lps"

text \<open>
  The projection of a second-generation manifest reproduces what the page
  registry serves for the same pages: the same pages in the same order with the
  same owner and route, the icon apart; and registering the projection and
  reading it back changes nothing.
\<close>
theorem projection_matches_registry:
  "map (\<lambda>lp. lp\<lparr>lp_icon := None\<rparr>) (project_legacy_pages v2 v1_pages) =
     get_all_pages (page_register (v2_id v2) (map (\<lambda>p. (p, None)) (v2_pages v2)) []) \<and>
   get_all_pages (page_register (v2_id v2) (registry_entries (project_legacy_pages v2 v1_pages)) []) =
     project_legacy_pages v2 v1_pages"
  by (simp add: project_legacy_pages_def get_all_pages_def page_register_def registry_entries_def)

text \<open>
  The icon is lost: the engine hands the projection dumped pages, and the page
  model has no icon field, so the projected icon is always null.
\<close>

lemma projected_icon_null:
  "lp \<in> set (project_legacy_pages v2 (map dump_page ps)) \<Longrightarrow> lp_icon lp = Some JNull"
proof -
  have "json_get p ''icon'' = None" if "v1_by_id (map dump_page ps) i = Some p" for i p
  proof -
    have "p \<in> set (rev (map dump_page ps))"
      using sql_fetchone_SomeD [of "\<lambda>p. json_page_id p = Some i" "rev (map dump_page ps)" p] that
      by (simp add: v1_by_id_def sql_fetchone_def)
    then show ?thesis by (auto simp: dump_page_def json_get_def)
  qed
  then have "v1_icon (map dump_page ps) i = JNull" for i by (simp add: v1_icon_def split: option.split)
  then show "lp \<in> set (project_legacy_pages v2 (map dump_page ps)) \<Longrightarrow> lp_icon lp = Some JNull"
    by (auto simp: project_legacy_pages_def)
qed

end
