(* ===== verification/Plugin_Context.thy ===== *)
theory Plugin_Context
  imports Py_Text
begin

text \<open>
  What a plugin is given (\<open>src/master/core/plugin_base.py\<close>): the collection of
  decorated methods, and the context whose \<open>db_query\<close> forwards only SELECT
  statements on tables the plugin may read. The SQL tokenizer is translated loop
  by loop on the rest of the text instead of an index; the regular expressions
  of the guards are matched by hand. SQL itself is not modelled: the theorems
  speak about the tokens the check sees, and the last section exhibits accepted
  statements that name a further table.
\<close>

section \<open>Characters and patterns\<close>

definition is_alnum :: "char \<Rightarrow> bool" where
  \<comment> \<open>\<open>str.isalnum\<close> on code points up to 255\<close>
  "is_alnum c \<longleftrightarrow>
     (let n = (of_char c :: nat) in
      (48 \<le> n \<and> n \<le> 57) \<or> (65 \<le> n \<and> n \<le> 90) \<or> (97 \<le> n \<and> n \<le> 122) \<or>
      n \<in> set [170, 178, 179, 181, 185, 186, 188, 189, 190] \<or> (192 \<le> n \<and> n \<noteq> 215 \<and> n \<noteq> 247))"

definition is_word :: "char \<Rightarrow> bool" where
  "is_word c \<longleftrightarrow> is_alnum c \<or> c = CHR ''_''"

definition word_before :: "char option \<Rightarrow> bool" where
  "word_before prev \<longleftrightarrow> (case prev of None \<Rightarrow> False | Some c \<Rightarrow> is_word c)"

definition word_after :: "string \<Rightarrow> bool" where
  "word_after s \<longleftrightarrow> (case s of [] \<Rightarrow> False | c # _ \<Rightarrow> is_word c)"

fun match_ci :: "string \<Rightarrow> string \<Rightarrow> string option" where
  \<comment> \<open>a literal matched case-insensitively at the start; the rest of the text\<close>
  "match_ci [] s = Some s"
| "match_ci (x # xs) [] = None"
| "match_ci (x # xs) (y # ys) = (if lower_char x = lower_char y then match_ci xs ys else None)"

definition keyword_pair_at :: "string \<Rightarrow> string \<Rightarrow> char option \<Rightarrow> string \<Rightarrow> bool" where
  \<comment> \<open>\<open>\bA\s+B\b\<close> at this position\<close>
  "keyword_pair_at a b prev s \<longleftrightarrow>
     \<not> word_before prev \<and>
     (case match_ci a s of
        None \<Rightarrow> False
      | Some r \<Rightarrow>
          dropWhile is_space r \<noteq> r \<and>
          (case match_ci b (dropWhile is_space r) of None \<Rightarrow> False | Some r' \<Rightarrow> \<not> word_after r'))"

fun search_pair :: "string \<Rightarrow> string \<Rightarrow> char option \<Rightarrow> string \<Rightarrow> bool" where
  "search_pair a b prev [] = False"
| "search_pair a b prev (c # cs) = (keyword_pair_at a b prev (c # cs) \<or> search_pair a b (Some c) cs)"

definition BLOCKED_PATTERNS :: "(string \<times> string) list" where
  "BLOCKED_PATTERNS = [(''ATTACH'', ''DATABASE''), (''DETACH'', ''DATABASE'')]"

fun pragma_target :: "char option \<Rightarrow> string \<Rightarrow> string option" where
  \<comment> \<open>group 1 of the first match of \<open>\bPRAGMA\s+(\w+)\<close>\<close>
  "pragma_target prev [] = None"
| "pragma_target prev (c # cs) =
     (case (if word_before prev then None else match_ci ''PRAGMA'' (c # cs)) of
        Some r \<Rightarrow>
          (let w = takeWhile is_word (dropWhile is_space r)
           in if dropWhile is_space r \<noteq> r \<and> w \<noteq> [] then Some w else pragma_target (Some c) cs)
      | None \<Rightarrow> pragma_target (Some c) cs)"

definition is_select :: "string \<Rightarrow> bool" where
  \<comment> \<open>\<open>^\s*SELECT\b\<close>\<close>
  "is_select sql \<longleftrightarrow>
     (case match_ci ''SELECT'' (dropWhile is_space sql) of None \<Rightarrow> False | Some r \<Rightarrow> \<not> word_after r)"

section \<open>The tokenizer\<close>

definition skip_line :: "string \<Rightarrow> string" where
  \<comment> \<open>the text after the next line feed, or nothing\<close>
  "skip_line s = drop 1 (dropWhile (\<lambda>c. c \<noteq> CHR 0x0A) s)"

fun skip_block :: "string \<Rightarrow> string" where
  \<comment> \<open>the text after the next end of comment, or nothing\<close>
  "skip_block (c # d # cs) = (if c = CHR ''*'' \<and> d = CHR ''/'' then cs else skip_block (d # cs))"
| "skip_block _ = []"

fun quoted_name :: "string \<Rightarrow> string \<times> string" where
  \<comment> \<open>up to the closing double quote; a doubled one stands for itself\<close>
  "quoted_name [] = ([], [])"
| "quoted_name [c] = (if c = CHR 0x22 then ([], []) else ([c], []))"
| "quoted_name (c # d # cs) =
     (if c = CHR 0x22 then
        (if d = CHR 0x22 then (let (b, r) = quoted_name cs in (c # b, r)) else ([], d # cs))
      else (let (b, r) = quoted_name (d # cs) in (c # b, r)))"

fun skip_literal :: "string \<Rightarrow> string" where
  \<comment> \<open>past the closing single quote\<close>
  "skip_literal [] = []"
| "skip_literal [c] = []"
| "skip_literal (c # d # cs) =
     (if c = CHR 0x27 then (if d = CHR 0x27 then skip_literal cs else d # cs) else skip_literal (d # cs))"

lemma length_skip_line: "length (skip_line s) \<le> length s"
  unfolding skip_line_def using length_dropWhile_le [of "\<lambda>c. c \<noteq> CHR 0x0A" s] by simp

lemma length_skip_block: "length (skip_block s) \<le> length s"
  by (induction s rule: skip_block.induct) auto

lemma length_quoted_name: "length (snd (quoted_name s)) \<le> length s"
  by (induction s rule: quoted_name.induct) (auto simp: split_def Let_def)

lemma length_skip_literal: "length (skip_literal s) \<le> length s"
  by (induction s rule: skip_literal.induct) auto

function tokenize_sql :: "string \<Rightarrow> string list" where
  "tokenize_sql [] = []"
| "tokenize_sql (c # cs) =
     (if is_space c then tokenize_sql cs
      else if c = CHR ''-'' \<and> is_prefix_of ''-'' cs then tokenize_sql (skip_line cs)
      else if c = CHR ''/'' \<and> is_prefix_of ''*'' cs then tokenize_sql (skip_block (drop 1 cs))
      else if c = CHR 0x22 then fst (quoted_name cs) # tokenize_sql (snd (quoted_name cs))
      else if c = CHR 0x27 then tokenize_sql (skip_literal cs)
      else if is_word c then (c # takeWhile is_word cs) # tokenize_sql (dropWhile is_word cs)
      else [c] # tokenize_sql cs)"
  by pat_completeness auto
termination
proof (relation "measure length", goal_cases)
  case (3 c cs)
  then show ?case using length_skip_line [of cs] by simp
next
  case (4 c cs)
  then show ?case using length_skip_block [of "drop 1 cs"] by simp
next
  case (5 c cs)
  then show ?case using length_quoted_name [of cs] by simp
next
  case (6 c cs)
  then show ?case using length_skip_literal [of cs] by simp
next
  case (7 c cs)
  then show ?case using length_dropWhile_le [of is_word cs] by simp
qed auto

definition SQL_KEYWORDS :: "string list" where
  "SQL_KEYWORDS =
     [''SELECT'', ''FROM'', ''WHERE'', ''INSERT'', ''INTO'', ''UPDATE'', ''DELETE'',
      ''CREATE'', ''TABLE'', ''IF'', ''NOT'', ''EXISTS'', ''DROP'', ''ALTER'', ''RENAME'',
      ''TO'', ''JOIN'', ''INNER'', ''LEFT'', ''RIGHT'', ''OUTER'', ''ON'', ''AS'', ''AND'',
      ''OR'', ''GROUP'', ''BY'', ''ORDER'', ''HAVING'', ''LIMIT'', ''OFFSET'', ''VALUES'',
      ''SET'', ''DISTINCT'', ''UNION'', ''ALL'', ''WITH'', ''RECURSIVE'', ''PRAGMA'',
      ''ATTACH'', ''DATABASE'', ''DETACH'', ''BEGIN'', ''COMMIT'', ''ROLLBACK'',
      ''TRANSACTION'', ''INDEX'', ''TRIGGER'', ''VIEW'', ''REPLACE'']"

definition TABLE_INTRODUCERS :: "string list" where
  "TABLE_INTRODUCERS = [''FROM'', ''INTO'', ''UPDATE'', ''JOIN'', ''TABLE'']"

fun extract_tables :: "bool \<Rightarrow> string list \<Rightarrow> string list" where
  \<comment> \<open>the loop over the tokens with its flag \<open>capture_next\<close>\<close>
  "extract_tables cap [] = []"
| "extract_tables cap (tok # toks) =
     (if upper tok \<in> set TABLE_INTRODUCERS then extract_tables True toks
      else if \<not> cap then extract_tables False toks
      else if tok = ''IF'' \<or> upper tok = ''NOT'' \<or> upper tok = ''EXISTS'' then extract_tables True toks
      else if is_infix_of tok ''(),;.'' \<or> upper tok \<in> set SQL_KEYWORDS then extract_tables False toks
      else tok # extract_tables False toks)"

definition extract_table_identifiers :: "string \<Rightarrow> string list" where
  "extract_table_identifiers sql = extract_tables False (tokenize_sql sql)"

section \<open>The context\<close>

record plugin_context =
  ctx_plugin_id :: string
  ctx_read :: "string list"
  ctx_has_db :: bool

datatype ctx_error =
    Only_Select
  | Blocked_Pattern string
  | Pragma_Denied string
  | Table_Denied string
  | No_Connection

definition new_context :: "string \<Rightarrow> plugin_context" where
  \<comment> \<open>the whitelist the engine's constructor call leaves at its default\<close>
  "new_context pid = \<lparr>ctx_plugin_id = pid, ctx_read = [''plugins''], ctx_has_db = True\<rparr>"

definition table_prefix :: "plugin_context \<Rightarrow> string" where
  "table_prefix ctx = ctx_plugin_id ctx @ ''_''"

definition table_allowed :: "plugin_context \<Rightarrow> string \<Rightarrow> bool" where
  "table_allowed ctx t \<longleftrightarrow> t \<in> set (ctx_read ctx) \<or> is_prefix_of (table_prefix ctx) t"

definition validate_select :: "plugin_context \<Rightarrow> string \<Rightarrow> ctx_error + unit" where
  "validate_select ctx sql =
     (case List.find (\<lambda>(a, b). search_pair a b None sql) BLOCKED_PATTERNS of
        Some (a, b) \<Rightarrow> Inl (Blocked_Pattern a)
      | None \<Rightarrow>
          (case pragma_target None sql of
             Some t \<Rightarrow>
               if table_allowed ctx t then
                 (case List.find (\<lambda>x. \<not> table_allowed ctx x) (extract_table_identifiers sql) of
                    Some x \<Rightarrow> Inl (Table_Denied x) | None \<Rightarrow> Inr ())
               else Inl (Pragma_Denied t)
           | None \<Rightarrow>
               (case List.find (\<lambda>x. \<not> table_allowed ctx x) (extract_table_identifiers sql) of
                  Some x \<Rightarrow> Inl (Table_Denied x) | None \<Rightarrow> Inr ())))"

definition db_query :: "plugin_context \<Rightarrow> string \<Rightarrow> ctx_error + string" where
  \<comment> \<open>\<open>Inr sql\<close>: the statement is handed to the connection\<close>
  "db_query ctx sql =
     (if \<not> is_select sql then Inl Only_Select
      else case validate_select ctx sql of
             Inl e \<Rightarrow> Inl e
           | Inr _ \<Rightarrow> if ctx_has_db ctx then Inr sql else Inl No_Connection)"

section \<open>What an accepted query names\<close>

lemma validate_select_ok:
  "validate_select ctx sql = Inr () \<longleftrightarrow>
     (\<forall>(a, b) \<in> set BLOCKED_PATTERNS. \<not> search_pair a b None sql) \<and>
     (\<forall>t. pragma_target None sql = Some t \<longrightarrow> table_allowed ctx t) \<and>
     (\<forall>t \<in> set (extract_table_identifiers sql). table_allowed ctx t)"
  by (auto simp: validate_select_def find_None_iff split: option.splits if_splits)
    (metis (mono_tags, lifting) find_Some_iff nth_mem case_prod_conv)+

text \<open>A token that follows an introducer and is no keyword or punctuation is extracted.\<close>

definition plain_token :: "string \<Rightarrow> bool" where
  "plain_token tok \<longleftrightarrow> upper tok \<notin> set SQL_KEYWORDS \<and> \<not> is_infix_of tok ''(),;.''"

lemma introducers_are_keywords: "set TABLE_INTRODUCERS \<subseteq> set SQL_KEYWORDS"
  by (simp add: TABLE_INTRODUCERS_def SQL_KEYWORDS_def)

lemma upper_IF: "upper ''IF'' = ''IF''" by code_simp

lemma plain_token_not_special:
  assumes "plain_token tok"
  shows "upper tok \<notin> set TABLE_INTRODUCERS" and "tok \<noteq> ''IF''" and "upper tok \<noteq> ''NOT''" and "upper tok \<noteq> ''EXISTS''"
  using assms introducers_are_keywords upper_IF by (auto simp: plain_token_def) (auto simp: SQL_KEYWORDS_def)

lemma extract_tables_append:
  "\<exists>cap'. extract_tables cap (xs @ ys) = extract_tables cap xs @ extract_tables cap' ys"
proof (induction xs arbitrary: cap)
  case Nil
  then show ?case by auto
next
  case (Cons x xs)
  obtain c1 c2 where "extract_tables True (xs @ ys) = extract_tables True xs @ extract_tables c1 ys"
    "extract_tables False (xs @ ys) = extract_tables False xs @ extract_tables c2 ys"
    using Cons.IH [of True] Cons.IH [of False] by blast
  then show ?case by (cases "upper x \<in> set TABLE_INTRODUCERS"; cases cap) auto
qed

lemma extract_after_introducer:
  assumes "upper k \<in> set TABLE_INTRODUCERS" and "plain_token tok"
  shows "tok \<in> set (extract_tables cap (xs @ k # tok # ys))"
proof -
  obtain cap' where "extract_tables cap (xs @ k # tok # ys) = extract_tables cap xs @ extract_tables cap' (k # tok # ys)"
    using extract_tables_append by blast
  moreover have "tok \<in> set (extract_tables cap' (k # tok # ys))"
    using assms plain_token_not_special [OF assms(2)] by (simp add: plain_token_def)
  ultimately show ?thesis by simp
qed


lemma sample_query_tokens:
  "tokenize_sql ''SELECT * FROM metrics_cpu'' = [''SELECT'', ''*''] @ ''FROM'' # ''metrics_cpu'' # []"
  by code_simp


text \<open>
  The check is not complete. It looks at one token after the introducer: a
  second table after a comma is not seen, and a table named in single quotes,
  which SQLite accepts as an identifier, is skipped as a literal.
\<close>

lemma comma_join_accepted:
  "db_query (new_context ''metrics'') ''SELECT * FROM metrics_cpu, users'' = Inr ''SELECT * FROM metrics_cpu, users''"
  by code_simp

lemma quoted_table_accepted:
  "db_query (new_context ''metrics'') ([CHR ''S''] @ ''ELECT * FROM '' @ [CHR 0x27] @ ''users'' @ [CHR 0x27]) =
     Inr ([CHR ''S''] @ ''ELECT * FROM '' @ [CHR 0x27] @ ''users'' @ [CHR 0x27])"
  by code_simp

section \<open>Decorated methods\<close>

text \<open>
  The attributes of a plugin class in the order of \<open>dir(cls)\<close>, each callable
  with the metadata its decorators stamped on it.
\<close>

record route_meta =
  rm_path :: string
  rm_method :: string
  rm_roles :: "string list"

record class_attr =
  ca_name :: string
  ca_callable :: bool
  ca_route :: "route_meta option"
  ca_hook :: "string option"
  ca_sched :: "int option"

definition route_decorator :: "string \<Rightarrow> string \<Rightarrow> string list option \<Rightarrow> class_attr \<Rightarrow> class_attr" where
  "route_decorator path mtd roles a =
     a\<lparr>ca_route := Some \<lparr>rm_path = path, rm_method = mtd,
        rm_roles = (case roles of None \<Rightarrow> [''viewer''] | Some rs \<Rightarrow> rs)\<rparr>\<rparr>"

definition hook_decorator :: "string \<Rightarrow> class_attr \<Rightarrow> class_attr" where
  "hook_decorator verb a = a\<lparr>ca_hook := Some verb\<rparr>"

definition scheduled_decorator :: "int \<Rightarrow> class_attr \<Rightarrow> class_attr" where
  "scheduled_decorator secs a = a\<lparr>ca_sched := Some secs\<rparr>"

definition is_dunder :: "string \<Rightarrow> bool" where
  "is_dunder n \<longleftrightarrow> is_prefix_of ''__'' n \<and> ends_with n ''__''"

definition scanned_attrs :: "class_attr list \<Rightarrow> class_attr list" where
  "scanned_attrs attrs = filter (\<lambda>a. \<not> is_dunder (ca_name a) \<and> ca_callable a) attrs"

definition collect_routes :: "class_attr list \<Rightarrow> (route_meta \<times> string) list" where
  "collect_routes attrs =
     List.map_filter (\<lambda>a. map_option (\<lambda>m. (m, ca_name a)) (ca_route a)) (scanned_attrs attrs)"

definition collect_hooks :: "class_attr list \<Rightarrow> (string \<times> string) list" where
  \<comment> \<open>verb and method name\<close>
  "collect_hooks attrs =
     List.map_filter (\<lambda>a. map_option (\<lambda>v. (v, ca_name a)) (ca_hook a)) (scanned_attrs attrs)"

definition collect_scheduled :: "class_attr list \<Rightarrow> (string, json) dict list" where
  "collect_scheduled attrs =
     List.map_filter (\<lambda>a. map_option (\<lambda>secs. [(''interval_secs'', JInt secs), (''method_name'', JStr (ca_name a))])
       (ca_sched a)) (scanned_attrs attrs)"

text \<open>
  The scheduler reads the keys \<open>name\<close> and \<open>handler\<close> of a task; a collected task
  has neither.
\<close>

lemma collected_task_unnamed:
  "d \<in> set (collect_scheduled attrs) \<Longrightarrow> map_of d ''name'' = None \<and> map_of d ''handler'' = None"
  by (auto simp: collect_scheduled_def List.map_filter_def)

end
