(* ===== verification/Command_Registry.thy ===== *)
theory Command_Registry
  imports Plugin_Context "HOL-Library.List_Lexorder" "HOL-Library.Char_ord" "HOL-Library.Product_Lexorder" "HOL-Library.Multiset"
begin

text \<open>
  The code-derived command inventory (\<open>src/master/core/command_registry.py\<close>): a
  scan of the loaded plugins, class-based or module-level, for handlers with
  route metadata. The main fact is that the scan equals a reference: the first
  entry of every (plugin, path, method) in scan order, sorted by that key.
\<close>

section \<open>Entries\<close>

record command_entry =
  ce_plugin_id :: string
  ce_name :: string
  ce_method :: string
  ce_path :: string
  ce_mutation :: bool
  ce_roles :: "string list"
  ce_resource_contract :: string

definition MUTATING_METHODS :: "string list" where
  "MUTATING_METHODS = [''POST'', ''PUT'', ''DELETE'', ''PATCH'']"

definition entry_from_meta :: "string \<Rightarrow> string \<Rightarrow> route_meta \<Rightarrow> command_entry" where
  "entry_from_meta pid handler m =
     (let mtd = upper (rm_method m)
      in \<lparr>ce_plugin_id = pid, ce_name = pid @ ''.'' @ handler, ce_method = mtd, ce_path = rm_path m,
          ce_mutation = (mtd \<in> set MUTATING_METHODS), ce_roles = rm_roles m, ce_resource_contract = pid\<rparr>)"

datatype plugin_object =
    Instance "class_attr list" \<comment> \<open>the class attributes in the order of \<open>dir\<close>\<close>
  | Module "class_attr list" \<comment> \<open>the module variables in definition order\<close>
  | Other

definition scan_plugin_instance :: "string \<Rightarrow> class_attr list \<Rightarrow> command_entry list" where
  "scan_plugin_instance pid attrs = map (\<lambda>(m, n). entry_from_meta pid n m) (collect_routes attrs)"

definition scan_plugin_module :: "string \<Rightarrow> class_attr list \<Rightarrow> command_entry list" where
  "scan_plugin_module pid vars =
     List.map_filter (\<lambda>a. map_option (entry_from_meta pid (ca_name a)) (ca_route a))
       (filter (\<lambda>a. \<not> is_prefix_of ''__'' (ca_name a) \<and> ca_callable a) vars)"

definition scan_plugin :: "string \<Rightarrow> plugin_object \<Rightarrow> command_entry list" where
  "scan_plugin pid obj =
     (case obj of Instance attrs \<Rightarrow> scan_plugin_instance pid attrs
      | Module vars \<Rightarrow> scan_plugin_module pid vars | Other \<Rightarrow> [])"

definition entry_key :: "command_entry \<Rightarrow> string \<times> string \<times> string" where
  "entry_key e = (ce_plugin_id e, ce_path e, ce_method e)"

fun dedup_entries :: "(string \<times> string \<times> string) list \<Rightarrow> command_entry list \<Rightarrow> command_entry list" where
  \<comment> \<open>the loop with its set \<open>seen\<close>\<close>
  "dedup_entries seen [] = []"
| "dedup_entries seen (e # es) =
     (if entry_key e \<in> set seen then dedup_entries seen es
      else e # dedup_entries (entry_key e # seen) es)"

definition scan_all_routes :: "(string, plugin_object) dict \<Rightarrow> command_entry list" where
  "scan_all_routes plugins =
     sort_key entry_key (dedup_entries [] (concat (map (\<lambda>(pid, obj). scan_plugin pid obj) plugins)))"

section \<open>The scan against its reference\<close>

fun first_by_key :: "command_entry list \<Rightarrow> command_entry list" where
  \<comment> \<open>reference: every entry whose key no earlier entry has\<close>
  "first_by_key [] = []"
| "first_by_key (e # es) = e # filter (\<lambda>x. entry_key x \<noteq> entry_key e) (first_by_key es)"

lemma dedup_entries_filter: "dedup_entries seen es = filter (\<lambda>x. entry_key x \<notin> set seen) (first_by_key es)"
proof (induction seen es rule: dedup_entries.induct)
  case (2 seen e es)
  then show ?case by (auto simp: filter_filter conj_commute intro: filter_cong)
qed simp

lemma dedup_entries_first: "dedup_entries [] es = first_by_key es"
  by (simp add: dedup_entries_filter)

lemma first_by_key_distinct: "distinct (map entry_key (first_by_key es))"
  by (induction es) (auto intro: distinct_map_filter)

lemma first_by_key_keys: "entry_key ` set (first_by_key es) = entry_key ` set es"
proof (induction es)
  case (Cons e es)
  have "entry_key ` set (filter (\<lambda>x. entry_key x \<noteq> k) ys) = entry_key ` set ys - {k}" for k ys by auto
  with Cons show ?case by simp
qed simp

lemma first_by_key_subset: "set (first_by_key es) \<subseteq> set es"
  by (induction es) auto

lemma entry_from_meta_fields [simp]:
  "ce_plugin_id (entry_from_meta pid n m) = pid"
  "ce_name (entry_from_meta pid n m) = pid @ ''.'' @ n"
  "ce_resource_contract (entry_from_meta pid n m) = pid"
  "ce_mutation (entry_from_meta pid n m) \<longleftrightarrow> ce_method (entry_from_meta pid n m) \<in> set MUTATING_METHODS"
  by (simp_all add: entry_from_meta_def Let_def)

lemma scan_plugin_entry:
  "e \<in> set (scan_plugin pid obj) \<Longrightarrow> \<exists>n m. e = entry_from_meta pid n m"
  by (auto simp: scan_plugin_def scan_plugin_instance_def scan_plugin_module_def List.map_filter_def
      split: plugin_object.splits) blast+

text \<open>
  The inventory is the reference: the scan keeps the first entry of every
  (plugin, path, method) in scan order and sorts by that key; its keys are
  distinct, every decorated route of every scanned plugin has its key in it, and
  each entry is named in the namespace of its plugin and marked as a mutation
  exactly when its method is POST, PUT, DELETE or PATCH.
\<close>
theorem scan_all_routes_equiv:
  "let es = concat (map (\<lambda>(pid, obj). scan_plugin pid obj) plugins); out = scan_all_routes plugins
   in out = sort_key entry_key (first_by_key es) \<and>
      distinct (map entry_key out) \<and> entry_key ` set out = entry_key ` set es \<and>
      (\<forall>e \<in> set out. (\<exists>n. ce_name e = ce_plugin_id e @ ''.'' @ n) \<and> ce_plugin_id e \<in> fst ` set plugins \<and>
         (ce_mutation e \<longleftrightarrow> ce_method e \<in> {''POST'', ''PUT'', ''DELETE'', ''PATCH''}))"
proof -
  define es where "es = concat (map (\<lambda>(pid, obj). scan_plugin pid obj) plugins)"
  have out: "scan_all_routes plugins = sort_key entry_key (first_by_key es)"
    by (simp add: scan_all_routes_def dedup_entries_first es_def)
  have d: "distinct (map entry_key (scan_all_routes plugins))"
  proof -
    have "mset (map entry_key (scan_all_routes plugins)) = mset (map entry_key (first_by_key es))"
      by (simp add: out mset_map)
    then show ?thesis using first_by_key_distinct mset_eq_imp_distinct_iff by blast
  qed
  have "(\<exists>n. ce_name e = ce_plugin_id e @ ''.'' @ n) \<and> ce_plugin_id e \<in> fst ` set plugins \<and>
      (ce_mutation e \<longleftrightarrow> ce_method e \<in> {''POST'', ''PUT'', ''DELETE'', ''PATCH''})" if "e \<in> set (scan_all_routes plugins)" for e
  proof -
    have "e \<in> set es" using that first_by_key_subset by (auto simp: out)
    then obtain pid obj where p: "(pid, obj) \<in> set plugins" and e: "e \<in> set (scan_plugin pid obj)" by (auto simp: es_def)
    obtain n m where "e = entry_from_meta pid n m" using scan_plugin_entry [OF e] by blast
    with p show ?thesis by (force simp: MUTATING_METHODS_def)
  qed
  then show ?thesis using out d first_by_key_keys by (simp add: Let_def es_def [symmetric])
qed

theorem scan_all_routes_equiv_witness:
  "distinct (map entry_key (scan_all_routes [(''docker'', Instance [\<lparr>ca_name = ''logs'', ca_callable = True,
     ca_route = Some \<lparr>rm_path = ''/logs'', rm_method = ''get'', rm_roles = [''viewer'']\<rparr>, ca_hook = None, ca_sched = None\<rparr>])]))"
  using scan_all_routes_equiv [of "[(''docker'', Instance [\<lparr>ca_name = ''logs'', ca_callable = True,
     ca_route = Some \<lparr>rm_path = ''/logs'', rm_method = ''get'', rm_roles = [''viewer'']\<rparr>, ca_hook = None, ca_sched = None\<rparr>])]"]
  unfolding Let_def by blast

end
