(* ===== verification/Route_Registrar.thy ===== *)
theory Route_Registrar
  imports Plugin_Context
begin

text \<open>
  Dynamic plugin routes (\<open>src/master/core/route_registrar.py\<close>): mounting and
  unmounting on the application's route table, the revision check of GET routes
  and the guard on authentication URLs in the answers of POST routes, with the
  part of \<open>urllib.parse\<close> the guard uses. FastAPI's route objects are records of
  path, method and target; \<open>has_handler\<close> says which handler names the instance
  has. Whether a bracketed host is a valid IP literal is an argument.
\<close>

section \<open>Revisions\<close>

definition rsplit_colon :: "string \<Rightarrow> (string \<times> string) option" where
  \<comment> \<open>\<open>since.rsplit(":", 1)\<close> unpacked into two names\<close>
  "rsplit_colon s =
     (let r = rev s; tl = takeWhile (\<lambda>c. c \<noteq> CHR '':'') r
      in if CHR '':'' \<in> set s then Some (rev (drop (length tl + 1) r), rev tl) else None)"

definition since_matches :: "string \<Rightarrow> nat \<Rightarrow> string \<Rightarrow> bool" where
  "since_matches boot_id counter since =
     (case rsplit_colon since of
        None \<Rightarrow> False
      | Some (b, c) \<Rightarrow> boot_id = b \<and> (case py_int c of None \<Rightarrow> False | Some n \<Rightarrow> int counter = n))"

definition revision_str :: "string \<Rightarrow> nat \<Rightarrow> string" where
  \<comment> \<open>the pair as a client sends it back\<close>
  "revision_str boot_id counter = boot_id @ '':'' @ nat_str counter"

definition since_aware_get :: "string \<Rightarrow> nat \<Rightarrow> string option \<Rightarrow> (string, json) dict \<Rightarrow> (string, json) dict" where
  \<comment> \<open>a dictionary answer: unchanged, or the answer with the revision pair\<close>
  "since_aware_get boot_id counter since result =
     (if (case since of None \<Rightarrow> False | Some s \<Rightarrow> since_matches boot_id counter s)
      then [(''unchanged'', JBool True)]
      else AList.update ''revision'' (JObj [(''boot_id'', JStr boot_id), (''counter'', JInt (int counter))]) result)"

section \<open>URLs\<close>

definition AUTH_URL_KEY_HINTS :: "string list" where
  "AUTH_URL_KEY_HINTS = [''auth'', ''redirect'', ''callback'']"

definition URL_KEY_HINTS :: "string list" where
  "URL_KEY_HINTS = [''url'', ''uri'', ''link'', ''href'']"

definition is_auth_url_key :: "string \<Rightarrow> bool" where
  "is_auth_url_key key =
     (let k = lower key
      in k \<in> set [''url'', ''uri''] \<or>
         list_ex (\<lambda>h. is_infix_of h k) AUTH_URL_KEY_HINTS \<and> list_ex (\<lambda>h. is_infix_of h k) URL_KEY_HINTS)"

definition before_char :: "char list \<Rightarrow> string \<Rightarrow> string" where
  "before_char cs s = takeWhile (\<lambda>c. c \<notin> set cs) s"

definition after_char :: "char list \<Rightarrow> string \<Rightarrow> string" where
  "after_char cs s = drop 1 (dropWhile (\<lambda>c. c \<notin> set cs) s)"

definition is_ascii_alpha :: "char \<Rightarrow> bool" where
  "is_ascii_alpha c \<longleftrightarrow> (let n = (of_char c :: nat) in (65 \<le> n \<and> n \<le> 90) \<or> (97 \<le> n \<and> n \<le> 122))"

definition is_scheme_char :: "char \<Rightarrow> bool" where
  "is_scheme_char c \<longleftrightarrow> is_ascii_alpha c \<or> is_digit c \<or> c \<in> set ''+-.''"

definition clean_url :: "string \<Rightarrow> string" where
  \<comment> \<open>leading control characters and blanks dropped, tabs and line ends removed\<close>
  "clean_url s =
     filter (\<lambda>c. (of_char c :: nat) \<notin> set [9, 10, 13]) (dropWhile (\<lambda>c. (of_char c :: nat) \<le> 32) s)"

definition url_scheme :: "string \<Rightarrow> string \<times> string" where
  \<comment> \<open>scheme in lower case and the rest\<close>
  "url_scheme s =
     (let p = before_char '':'' s
      in if CHR '':'' \<in> set s \<and> p \<noteq> [] \<and> is_ascii_alpha (hd p) \<and> list_all is_scheme_char p
         then (lower p, after_char '':'' s) else ([], s))"

definition url_netloc :: "string \<Rightarrow> string" where
  "url_netloc rest = (if is_prefix_of ''//'' rest then before_char ''/?#'' (drop 2 rest) else [])"

definition rpartition_at :: "string \<Rightarrow> string" where
  \<comment> \<open>\<open>netloc.rpartition('@')[2]\<close>\<close>
  "rpartition_at s = rev (before_char ''@'' (rev s))"

definition host_of_netloc :: "string \<Rightarrow> string" where
  "host_of_netloc netloc =
     (let hostinfo = rpartition_at netloc;
          h = (if CHR ''['' \<in> set hostinfo then before_char '']'' (after_char ''['' hostinfo)
               else before_char '':'' hostinfo)
      in lower (before_char ''%'' h) @ dropWhile (\<lambda>c. c \<noteq> CHR ''%'') h)"

definition netloc_ok :: "(string \<Rightarrow> bool) \<Rightarrow> string \<Rightarrow> bool" where
  \<comment> \<open>unbalanced brackets and a bracketed host that is no IP literal raise ValueError\<close>
  "netloc_ok ip_literal netloc \<longleftrightarrow>
     (CHR ''['' \<in> set netloc \<longleftrightarrow> CHR '']'' \<in> set netloc) \<and>
     (CHR ''['' \<in> set netloc \<longrightarrow> ip_literal netloc)"

definition urlparse :: "(string \<Rightarrow> bool) \<Rightarrow> string \<Rightarrow> (string \<times> string) option" where
  \<comment> \<open>scheme and hostname; None for a ValueError\<close>
  "urlparse ip_literal raw =
     (let (scheme, rest) = url_scheme (clean_url raw); netloc = url_netloc rest
      in if netloc_ok ip_literal netloc then Some (scheme, host_of_netloc netloc) else None)"

definition domain_matches :: "string \<Rightarrow> string \<Rightarrow> bool" where
  "domain_matches hostname d \<longleftrightarrow> hostname = lower d \<or> ends_with hostname (''.'' @ lower d)"

definition url_allowed :: "(string \<Rightarrow> bool) \<Rightarrow> string \<Rightarrow> string list \<Rightarrow> bool" where
  "url_allowed ip_literal raw domains =
     (case urlparse ip_literal raw of
        None \<Rightarrow> False
      | Some (scheme, host) \<Rightarrow>
          scheme = ''https'' \<and> lower host \<noteq> [] \<and> list_ex (domain_matches (lower host)) domains)"

fun first_violation :: "(string \<Rightarrow> bool) \<Rightarrow> string list \<Rightarrow> (string, json) dict \<Rightarrow> (string \<times> string) option" where
  \<comment> \<open>the loop of \<open>_check_auth_url_result\<close>: the key and URL it rejects with 502\<close>
  "first_violation ip domains [] = None"
| "first_violation ip domains ((key, v) # kvs) =
     (case v of
        JStr s \<Rightarrow>
          if \<not> is_auth_url_key key \<or> url_allowed ip s domains then first_violation ip domains kvs
          else Some (key, s)
      | _ \<Rightarrow> first_violation ip domains kvs)"

datatype guard_result = Answer json | Bad_Gateway string string

definition check_auth_url_result :: "(string \<Rightarrow> bool) \<Rightarrow> string list \<Rightarrow> json \<Rightarrow> guard_result \<times> (string \<times> string) list" where
  \<comment> \<open>the answer, or 502; and the audited SECURITY_INCIDENT entries\<close>
  "check_auth_url_result ip domains result =
     (case result of
        JObj d \<Rightarrow>
          (case first_violation ip domains d of
             None \<Rightarrow> (Answer result, [])
           | Some (k, u) \<Rightarrow> (Bad_Gateway k u, [(k, u)]))
      | _ \<Rightarrow> (Answer result, []))"

section \<open>The route table\<close>

datatype route_target =
    Since_Wrapped string string \<comment> \<open>plugin and handler of a GET\<close>
  | Url_Guarded string string "string list"
  | Plain string string
  | Core string

record app_route =
  ar_path :: string
  ar_method :: string
  ar_target :: route_target
  ar_static :: bool

record registrar =
  app_routes :: "app_route list"
  mounted_routes :: "(string, (string \<times> string) list) dict"

record route_entry =
  re_path :: string
  re_method :: string
  re_handler :: string

definition route_for :: "string \<Rightarrow> string list option \<Rightarrow> (string \<Rightarrow> bool) \<Rightarrow> route_entry \<Rightarrow> app_route option" where
  "route_for pid domains has_handler sp =
     (let mtd = upper (re_method sp); path = ''/api/plugins/'' @ pid @ re_path sp; h = re_handler sp
      in if \<not> has_handler h then None
         else if mtd = ''GET'' then Some \<lparr>ar_path = path, ar_method = mtd, ar_target = Since_Wrapped pid h, ar_static = False\<rparr>
         else if mtd = ''POST'' then
           Some \<lparr>ar_path = path, ar_method = mtd,
             ar_target = (case domains of Some (x # xs) \<Rightarrow> Url_Guarded pid h (x # xs) | _ \<Rightarrow> Plain pid h), ar_static = False\<rparr>
         else if mtd \<in> set [''PUT'', ''DELETE'', ''PATCH''] then
           Some \<lparr>ar_path = path, ar_method = mtd, ar_target = Plain pid h, ar_static = False\<rparr>
         else None)"

definition mount :: "string \<Rightarrow> route_entry list \<Rightarrow> (string \<Rightarrow> bool) \<Rightarrow> string list option \<Rightarrow> registrar \<Rightarrow> registrar" where
  "mount pid specs has_handler domains reg =
     (case map_of (mounted_routes reg) pid of
        Some _ \<Rightarrow> reg
      | None \<Rightarrow>
          (let new = List.map_filter (route_for pid domains has_handler) specs; all = app_routes reg @ new
           in reg\<lparr>app_routes := filter (\<lambda>r. \<not> ar_static r) all @ filter ar_static all,
                  mounted_routes := AList.update pid (map (\<lambda>r. (ar_path r, ar_method r)) new) (mounted_routes reg)\<rparr>))"

definition unmount :: "string \<Rightarrow> registrar \<Rightarrow> registrar" where
  "unmount pid reg =
     (let ms = dict_get (mounted_routes reg) pid [];
          reg1 = reg\<lparr>mounted_routes := AList.delete pid (mounted_routes reg)\<rparr>
      in if ms = [] then reg1
         else reg1\<lparr>app_routes := filter (\<lambda>r. ar_path r \<notin> fst ` set ms) (app_routes reg)\<rparr>)"

definition get_mounted :: "string \<Rightarrow> registrar \<Rightarrow> string list" where
  "get_mounted pid reg = map fst (dict_get (mounted_routes reg) pid [])"

section \<open>Revisions: facts\<close>

lemma rsplit_colon_last:
  assumes "CHR '':'' \<notin> set c"
  shows "rsplit_colon (b @ CHR '':'' # c) = Some (b, c)"
proof -
  have "takeWhile (\<lambda>x. x \<noteq> CHR '':'') (rev c @ CHR '':'' # rev b) = rev c"
    by (subst takeWhile_append2) (use assms in auto)
  then show ?thesis by (simp add: rsplit_colon_def Let_def)
qed

text \<open>
  A client that sends back a revision pair is told "unchanged" exactly when
  the engine is still the same process at the same counter, whatever characters
  the boot identifier holds: there is no false "unchanged".
\<close>
theorem since_roundtrip:
  "since_matches boot counter (revision_str boot' counter') \<longleftrightarrow> boot = boot' \<and> counter = counter'"
proof -
  have "CHR '':'' \<notin> set (nat_str counter')" by (rule not_digit_in_nat_str) (simp add: is_digit_def)
  then show ?thesis by (auto simp: since_matches_def revision_str_def rsplit_colon_last py_int_nat_str)
qed

section \<open>The URL guard\<close>

lemma domain_matches_iff: "domain_matches h d \<longleftrightarrow> h = lower d \<or> (\<exists>p. h = p @ ''.'' @ lower d)"
  unfolding domain_matches_def ends_with_def is_prefix_of_iff
  by (metis rev_append rev_rev_ident)

lemma first_violation_None:
  "first_violation ip domains d = None \<longleftrightarrow>
     (\<forall>(k, v) \<in> set d. \<forall>s. v = JStr s \<longrightarrow> is_auth_url_key k \<longrightarrow> url_allowed ip s domains)"
  by (induction ip domains d rule: first_violation.induct) (auto split: json.splits)

lemma first_violation_Some:
  "first_violation ip domains d = Some (k, u) \<Longrightarrow>
   (k, JStr u) \<in> set d \<and> is_auth_url_key k \<and> \<not> url_allowed ip u domains"
  by (induction ip domains d rule: first_violation.induct) (auto split: json.splits if_splits)

text \<open>
  The guard on a POST answer: when it lets an object pass, every top-level
  string under an authentication key is an https URL whose host is one of the
  declared domains or ends in a dot and one of them, and nothing is audited;
  when it refuses, it names such a key with a URL that is not allowed and
  audits exactly that pair.
\<close>
theorem auth_url_guard:
  "case check_auth_url_result ip domains (JObj d) of
     (Answer r, audit) \<Rightarrow> r = JObj d \<and> audit = [] \<and>
       (\<forall>k s. (k, JStr s) \<in> set d \<and> is_auth_url_key k \<longrightarrow>
          (\<exists>host dom. urlparse ip s = Some (''https'', host) \<and> dom \<in> set domains \<and>
             (lower host = lower dom \<or> (\<exists>p. lower host = p @ ''.'' @ lower dom))))
   | (Bad_Gateway k u, audit) \<Rightarrow> audit = [(k, u)] \<and> (k, JStr u) \<in> set d \<and> is_auth_url_key k \<and> \<not> url_allowed ip u domains"
proof (cases "first_violation ip domains d")
  case None
  then have "url_allowed ip s domains" if "(k, JStr s) \<in> set d" "is_auth_url_key k" for k s
    using that by (fastforce simp: first_violation_None)
  then have "\<exists>host dom. urlparse ip s = Some (''https'', host) \<and> dom \<in> set domains \<and> domain_matches (lower host) dom"
    if "(k, JStr s) \<in> set d" "is_auth_url_key k" for k s
    using that by (fastforce simp: url_allowed_def list_ex_iff split: option.splits)
  then show ?thesis
    unfolding check_auth_url_result_def using None by (simp add: domain_matches_iff) blast
next
  case (Some ku)
  then show ?thesis using first_violation_Some [of ip domains d] by (cases ku) (simp add: check_auth_url_result_def)
qed

theorem auth_url_guard_witness:
  "check_auth_url_result (\<lambda>_. False) [''plex.tv''] (JObj [(''auth_url'', JStr ''https://plex.tv.attacker.com/auth'')]) =
     (Bad_Gateway ''auth_url'' ''https://plex.tv.attacker.com/auth'', [(''auth_url'', ''https://plex.tv.attacker.com/auth'')])"
proof -
  have "first_violation (\<lambda>_. False) [''plex.tv''] [(''auth_url'', JStr ''https://plex.tv.attacker.com/auth'')] =
      Some (''auth_url'', ''https://plex.tv.attacker.com/auth'')" by code_simp
  then show ?thesis
    using auth_url_guard [where ip = "\<lambda>_. False" and domains = "[''plex.tv'']" and d = "[(''auth_url'', JStr ''https://plex.tv.attacker.com/auth'')]"]
    by (simp add: check_auth_url_result_def)
qed

text \<open>
  The host the guard reads is Python's. A URL parser that takes a backslash for
  a slash, as browsers do, sees the attacker's host in this accepted URL.
\<close>

lemma backslash_url_accepted:
  "url_allowed (\<lambda>_. False) (''https://attacker.com'' @ [CHR 0x5C] @ ''@plex.tv/auth'') [''plex.tv'']"
  by code_simp

section \<open>Mounting and unmounting\<close>

lemma route_for_path: "route_for pid domains hh sp = Some r \<Longrightarrow> ar_path r = ''/api/plugins/'' @ pid @ re_path sp \<and> \<not> ar_static r"
  by (auto simp: route_for_def Let_def split: if_splits)

definition specs_ok :: "route_entry list \<Rightarrow> bool" where
  \<comment> \<open>FastAPI refuses a non-empty path without a leading slash\<close>
  "specs_ok specs \<longleftrightarrow> (\<forall>sp \<in> set specs. re_path sp = [] \<or> hd (re_path sp) = CHR ''/'')"

lemma plugin_path_inj:
  assumes "p @ x = q @ y" and "CHR ''/'' \<notin> set p" and "CHR ''/'' \<notin> set q"
    and "x = [] \<or> hd x = CHR ''/''" and "y = [] \<or> hd y = CHR ''/''"
  shows "p = q"
proof -
  have *: "takeWhile (\<lambda>c. c \<noteq> CHR ''/'') (p @ x) = p" if "CHR ''/'' \<notin> set p" "x = [] \<or> hd x = CHR ''/''" for p x
    using that by (induction p; cases x) auto
  show ?thesis using * [OF assms(2,4)] * [OF assms(3,5)] assms(1) by metis
qed

lemma mount_routes:
  "map_of (mounted_routes reg) pid = None \<Longrightarrow>
   set (app_routes (mount pid specs hh domains reg)) =
     set (app_routes reg) \<union> set (List.map_filter (route_for pid domains hh) specs)"
  by (auto simp: mount_def Let_def)

lemma mount_table:
  "map_of (mounted_routes reg) pid = None \<Longrightarrow>
   dict_get (mounted_routes (mount pid specs hh domains reg)) pid [] =
     map (\<lambda>r. (ar_path r, ar_method r)) (List.map_filter (route_for pid domains hh) specs)"
  by (simp add: mount_def Let_def py_dict)

lemma unmount_routes:
  "r \<in> set (app_routes (unmount pid reg)) \<longleftrightarrow>
     r \<in> set (app_routes reg) \<and> ar_path r \<notin> fst ` set (dict_get (mounted_routes reg) pid [])"
  by (auto simp: unmount_def Let_def)

text \<open>
  Mounting a plugin and unmounting it leaves exactly the routes that were
  there before, provided none of them had the path of a mounted route; and the
  paths of another plugin with a slash-free identifier never coincide with them.
\<close>
theorem mount_unmount_roundtrip:
  assumes "map_of (mounted_routes reg) pid = None"
    and "\<forall>r \<in> set (app_routes reg). \<forall>sp \<in> set specs. ar_path r \<noteq> ''/api/plugins/'' @ pid @ re_path sp"
  shows "set (app_routes (unmount pid (mount pid specs hh domains reg))) = set (app_routes reg) \<and>
    mounted_routes (unmount pid (mount pid specs hh domains reg)) = AList.delete pid (mounted_routes reg) \<and>
    (CHR ''/'' \<notin> set pid \<and> CHR ''/'' \<notin> set q \<and> pid \<noteq> q \<and> specs_ok specs \<and> specs_ok specs' \<longrightarrow>
       (\<forall>sp \<in> set specs. \<forall>sp' \<in> set specs'. ''/api/plugins/'' @ pid @ re_path sp \<noteq> ''/api/plugins/'' @ q @ re_path sp'))"
proof (intro conjI impI ballI)
  let ?new = "List.map_filter (route_for pid domains hh) specs"
  have new: "ar_path r \<in> fst ` set (map (\<lambda>r. (ar_path r, ar_method r)) ?new)" if "r \<in> set ?new" for r
    using that by force
  have paths: "\<exists>sp \<in> set specs. ar_path r = ''/api/plugins/'' @ pid @ re_path sp" if "r \<in> set ?new" for r
    using that route_for_path unfolding List.map_filter_def by fastforce
  have old: "ar_path r \<notin> fst ` set (map (\<lambda>r. (ar_path r, ar_method r)) ?new)" if "r \<in> set (app_routes reg)" for r
    using that assms(2) paths by fastforce
  show "set (app_routes (unmount pid (mount pid specs hh domains reg))) = set (app_routes reg)"
    using new old by (auto simp: unmount_routes mount_routes [OF assms(1)] mount_table [OF assms(1)] simp del: set_map)
  show "mounted_routes (unmount pid (mount pid specs hh domains reg)) = AList.delete pid (mounted_routes reg)"
    using assms(1) by (simp add: unmount_def mount_def Let_def delete_update_same)
next
  fix sp sp'
  assume "CHR ''/'' \<notin> set pid \<and> CHR ''/'' \<notin> set q \<and> pid \<noteq> q \<and> specs_ok specs \<and> specs_ok specs'"
    and "sp \<in> set specs" and "sp' \<in> set specs'"
  then show "''/api/plugins/'' @ pid @ re_path sp \<noteq> ''/api/plugins/'' @ q @ re_path sp'"
    using plugin_path_inj [of pid "re_path sp" q "re_path sp'"] by (auto simp: specs_ok_def)
qed

theorem mount_unmount_roundtrip_witness:
  "set (app_routes (unmount ''docker'' (mount ''docker'' [\<lparr>re_path = ''/logs'', re_method = ''get'', re_handler = ''logs''\<rparr>]
     (\<lambda>_. True) None \<lparr>app_routes = [], mounted_routes = []\<rparr>))) = {}"
  using mount_unmount_roundtrip [of "\<lparr>app_routes = [], mounted_routes = []\<rparr>" "''docker''"
     "[\<lparr>re_path = ''/logs'', re_method = ''get'', re_handler = ''logs''\<rparr>]" "\<lambda>_. True" None "''x''" "[]"]
  by simp

text \<open>
  A sandboxed plugin's routes are mounted with its process wrapper as the
  instance, which has none of the handler names a manifest declares: nothing is
  mounted.
\<close>

lemma no_handler_no_route:
  "\<forall>sp \<in> set specs. \<not> hh (re_handler sp) \<Longrightarrow> List.map_filter (route_for pid domains hh) specs = []"
  by (induction specs) (auto simp: List.map_filter_def route_for_def Let_def)

end
