(* ===== verification/Scheduler.thy ===== *)
theory Scheduler
  imports Py_Prelude
begin

text \<open>
  The background task runner of the plugin engine
  (\<open>src/master/core/scheduler.py\<close>). An asyncio task is a number whose state is
  in \<open>task_state\<close>; \<open>resists\<close> says which tasks are still alive ten seconds after
  their cancellation. The loop coroutine is given by its two bookkeeping steps
  on the callback counter and by the computation of its next tick. Times are
  exact rationals.
\<close>

section \<open>Tasks\<close>

datatype task_state = Running | Cancelling | Task_Done

record sched_spec =
  spec_name :: string
  interval_secs :: rat
  spec_handler :: string

record scheduler =
  sched_tasks :: "(string, nat) dict"
  sched_active :: "(string, int) dict"
  sched_state :: "nat \<Rightarrow> task_state"
  next_task :: nat

definition new_scheduler :: scheduler where
  "new_scheduler = \<lparr>sched_tasks = [], sched_active = [], sched_state = (\<lambda>_. Task_Done), next_task = 0\<rparr>"

definition task_prefix :: "string \<Rightarrow> string" where
  "task_prefix pid = pid @ '':''"

definition cancel_task :: "nat \<Rightarrow> scheduler \<Rightarrow> scheduler" where
  "cancel_task t s =
     (if sched_state s t = Task_Done then s else s\<lparr>sched_state := (sched_state s)(t := Cancelling)\<rparr>)"

definition start_task :: "string \<Rightarrow> sched_spec \<Rightarrow> scheduler \<Rightarrow> scheduler" where
  "start_task pid sp s =
     (let key = task_prefix pid @ spec_name sp;
          s1 = (case map_of (sched_tasks s) key of None \<Rightarrow> s | Some t \<Rightarrow> cancel_task t s);
          t = next_task s1
      in s1\<lparr>sched_tasks := AList.update key t (sched_tasks s1),
            sched_state := (sched_state s1)(t := Running), next_task := t + 1\<rparr>)"

definition sched_start :: "string \<Rightarrow> sched_spec list \<Rightarrow> scheduler \<Rightarrow> scheduler" where
  "sched_start pid specs s = fold (start_task pid) specs s"

definition keys_to_stop :: "string \<Rightarrow> scheduler \<Rightarrow> string list" where
  "keys_to_stop pid s = filter (is_prefix_of (task_prefix pid)) (map fst (sched_tasks s))"

definition stop_task :: "(nat \<Rightarrow> bool) \<Rightarrow> string \<Rightarrow> scheduler \<Rightarrow> scheduler" where
  \<comment> \<open>pop the key; a live task is cancelled and awaited for at most ten seconds\<close>
  "stop_task resists key s =
     (let s1 = s\<lparr>sched_tasks := AList.delete key (sched_tasks s)\<rparr>
      in case map_of (sched_tasks s) key of
           None \<Rightarrow> s1
         | Some t \<Rightarrow>
             if sched_state s t = Task_Done then s1
             else if resists t then cancel_task t s1
             else s1\<lparr>sched_state := (sched_state s1)(t := Task_Done)\<rparr>)"

definition sched_stop :: "(nat \<Rightarrow> bool) \<Rightarrow> string \<Rightarrow> scheduler \<Rightarrow> scheduler" where
  "sched_stop resists pid s =
     (let s1 = fold (stop_task resists) (keys_to_stop pid s) s
      in s1\<lparr>sched_active := AList.delete pid (sched_active s1)\<rparr>)"

definition key_owner :: "string \<Rightarrow> string" where
  \<comment> \<open>\<open>key.split(":", 1)[0]\<close>\<close>
  "key_owner key = takeWhile (\<lambda>c. c \<noteq> CHR '':'') key"

definition sched_shutdown :: "(nat \<Rightarrow> bool) \<Rightarrow> scheduler \<Rightarrow> scheduler" where
  \<comment> \<open>the set of owners, in the order of their first key\<close>
  "sched_shutdown resists s =
     fold (sched_stop resists)
       (remdups (map key_owner (filter (\<lambda>k. CHR '':'' \<in> set k) (map fst (sched_tasks s))))) s"

definition active_callbacks :: "scheduler \<Rightarrow> string \<Rightarrow> int" where
  "active_callbacks s pid = dict_get (sched_active s) pid 0"

definition has_tasks :: "scheduler \<Rightarrow> string \<Rightarrow> bool" where
  "has_tasks s pid \<longleftrightarrow> list_ex (is_prefix_of (task_prefix pid)) (map fst (sched_tasks s))"

definition callback_begin :: "string \<Rightarrow> scheduler \<Rightarrow> scheduler" where
  "callback_begin pid s =
     s\<lparr>sched_active := AList.update pid (active_callbacks s pid + 1) (sched_active s)\<rparr>"

definition callback_end :: "string \<Rightarrow> scheduler \<Rightarrow> scheduler" where
  \<comment> \<open>the \<open>finally\<close> block, on every exit of the handler\<close>
  "callback_end pid s =
     (if active_callbacks s pid > 0
      then s\<lparr>sched_active := AList.update pid (active_callbacks s pid - 1) (sched_active s)\<rparr> else s)"

section \<open>The periodic loop\<close>

definition next_tick_after :: "rat \<Rightarrow> time \<Rightarrow> time \<Rightarrow> time" where
  "next_tick_after interval next_tick now =
     (let nt = next_tick + interval in if nt \<le> now then now + interval else nt)"

fun loop_ticks :: "rat \<Rightarrow> time \<Rightarrow> time \<Rightarrow> rat list \<Rightarrow> time list" where
  \<comment> \<open>the times at which the handler is invoked; the list gives the durations of the invocations\<close>
  "loop_ticks interval next_tick now [] = [now]"
| "loop_ticks interval next_tick now (d # ds) =
     (let nt = next_tick_after interval next_tick (now + d) in now # loop_ticks interval nt nt ds)"

definition loop_times :: "rat \<Rightarrow> time \<Rightarrow> rat list \<Rightarrow> time list" where
  "loop_times interval t0 ds = loop_ticks interval (t0 + interval) t0 ds"

lemma next_tick_bounds:
  assumes "0 < interval" and "next_tick \<le> now"
  shows "now < next_tick_after interval next_tick now" and "next_tick_after interval next_tick now \<le> now + interval"
  using assms by (auto simp: next_tick_after_def Let_def)

lemma loop_ticks_cadence:
  "0 < interval \<Longrightarrow> \<forall>d \<in> set ds. 0 \<le> d \<and> d < interval \<Longrightarrow>
   loop_ticks interval now now ds = map (\<lambda>k. now + of_nat k * interval) [0..<length ds + 1]"
proof (induction ds arbitrary: now)
  case (Cons d ds)
  have "next_tick_after interval now (now + d) = now + interval"
    using Cons.prems by (simp add: next_tick_after_def)
  moreover have "map (\<lambda>k. now + of_nat k * interval) [0..<length ds + 2] =
      now # map (\<lambda>k. (now + interval) + of_nat k * interval) [0..<length ds + 1]"
    by (subst upt_rec) (simp add: map_Suc_upt [symmetric] algebra_simps del: upt_Suc)
  ultimately show ?case using Cons by (simp del: upt_Suc)
qed simp

text \<open>
  The loop does not drift: with handlers that return within the interval,
  every invocation after the first is at an exact multiple of the interval after
  the start, whatever the durations. The first gap is two intervals long: the
  second invocation is at twice the interval.
\<close>
theorem loop_cadence:
  assumes "0 < interval" and "\<forall>d \<in> set (d0 # ds). 0 \<le> d \<and> d < interval"
  shows "loop_times interval t0 (d0 # ds) =
    t0 # map (\<lambda>k. t0 + of_nat (k + 2) * interval) [0..<length ds + 1]"
proof -
  have "next_tick_after interval (t0 + interval) (t0 + d0) = t0 + 2 * interval"
    using assms by (auto simp: next_tick_after_def Let_def)
  then show ?thesis
    using loop_ticks_cadence [of interval ds "t0 + 2 * interval"] assms
    by (simp add: loop_times_def algebra_simps del: upt_Suc)
qed

theorem loop_cadence_witness: "loop_times 10 0 [3, 1] = [0, 20, 30]"
  using loop_cadence [of 10 3 "[1]" 0] by (simp add: upt_rec)

section \<open>Stopping a plugin\<close>

text \<open>A plugin identifier holds no colon, so the key prefix identifies the plugin.\<close>

lemma key_owner_append: "CHR '':'' \<notin> set p \<Longrightarrow> key_owner (p @ CHR '':'' # n) = p"
  unfolding key_owner_def by (subst takeWhile_append2) auto

lemma prefix_owner:
  assumes "CHR '':'' \<notin> set pid" and "CHR '':'' \<notin> set p"
  shows "is_prefix_of (task_prefix pid) (task_prefix p @ n) \<longleftrightarrow> p = pid"
proof
  assume "is_prefix_of (task_prefix pid) (task_prefix p @ n)"
  then obtain z where "pid @ '':'' @ z = p @ '':'' @ n" by (auto simp: is_prefix_of_iff task_prefix_def)
  then have "key_owner (pid @ '':'' @ z) = key_owner (p @ '':'' @ n)" by simp
  then show "p = pid" using assms by (simp add: key_owner_append)
qed (auto simp: is_prefix_of_iff task_prefix_def)

lemma stop_task_tasks [simp]:
  "sched_tasks (stop_task r key s) = AList.delete key (sched_tasks s)"
  "sched_active (stop_task r key s) = sched_active s"
  by (auto simp: stop_task_def Let_def cancel_task_def split: option.split)

lemma fold_stop_tasks [simp]:
  "sched_tasks (fold (stop_task r) ks s) = filter (\<lambda>(k, _). k \<notin> set ks) (sched_tasks s)"
  "sched_active (fold (stop_task r) ks s) = sched_active s"
  by (induction ks arbitrary: s) (auto simp: AList.delete_eq intro: filter_cong)

definition sched_wf :: "scheduler \<Rightarrow> bool" where
  "sched_wf s \<longleftrightarrow>
     dict_wf (sched_tasks s) \<and> distinct (map snd (sched_tasks s)) \<and>
     (\<forall>t \<in> set (map snd (sched_tasks s)). t < next_task s) \<and>
     (\<forall>k \<in> set (map fst (sched_tasks s)). CHR '':'' \<in> set k)"

lemma sched_wfD:
  assumes "sched_wf s"
  shows "map_of (sched_tasks s) k = Some t \<Longrightarrow> map_of (sched_tasks s) k' = Some t \<Longrightarrow> k = k'"
    and "map_of (sched_tasks s) k = Some t \<Longrightarrow> t < next_task s"
    and "map_of (sched_tasks s) k = Some t \<Longrightarrow> CHR '':'' \<in> set k"
proof -
  assume "map_of (sched_tasks s) k = Some t" and "map_of (sched_tasks s) k' = Some t"
  then have "(k, t) \<in> set (sched_tasks s)" "(k', t) \<in> set (sched_tasks s)" by (auto dest: map_of_SomeD)
  then show "k = k'" using assms unfolding sched_wf_def distinct_map inj_on_def by fastforce
qed (use assms in \<open>fastforce simp: sched_wf_def dest: map_of_SomeD\<close>)+

lemma map_of_filter_keys: "map_of (filter (\<lambda>(k, _). P k) d) k = (if P k then map_of d k else None)"
  by (induction d) auto

lemma key_lookup: "k \<in> set (map fst d) \<longleftrightarrow> (\<exists>v. map_of d k = Some v)"
  by (metis map_of_eq_None_iff not_None_eq set_map)

lemma sched_wf_filter:
  "sched_wf s \<Longrightarrow> sched_tasks s' = filter P (sched_tasks s) \<Longrightarrow> next_task s' = next_task s \<Longrightarrow> sched_wf s'"
  by (auto simp: sched_wf_def intro: distinct_map_filter)

lemma cancel_task_fields [simp]:
  "sched_tasks (cancel_task t s) = sched_tasks s" "next_task (cancel_task t s) = next_task s"
  "sched_active (cancel_task t s) = sched_active s"
  by (simp_all add: cancel_task_def)

lemma next_task_stop [simp]: "next_task (stop_task r k s) = next_task s"
  by (auto simp: stop_task_def Let_def split: option.split)

lemma next_task_fold_stop [simp]: "next_task (fold (stop_task r) ks s) = next_task s"
  by (induction ks arbitrary: s) simp_all

text \<open>The state of a task after the loop over the keys to stop.\<close>

definition stopped_state :: "(nat \<Rightarrow> bool) \<Rightarrow> nat \<Rightarrow> task_state \<Rightarrow> task_state" where
  "stopped_state resists t st = (if st \<noteq> Task_Done \<and> resists t then Cancelling else Task_Done)"

lemma stop_task_state:
  "sched_state (stop_task r key s) t =
     (if map_of (sched_tasks s) key = Some t then stopped_state r t (sched_state s t) else sched_state s t)"
  by (auto simp: stop_task_def Let_def cancel_task_def stopped_state_def split: option.split)

lemma fold_stop_state:
  assumes "sched_wf s" and "distinct ks"
  shows "sched_state (fold (stop_task r) ks s) t =
    (if \<exists>k \<in> set ks. map_of (sched_tasks s) k = Some t then stopped_state r t (sched_state s t) else sched_state s t)"
  using assms
proof (induction ks arbitrary: s)
  case (Cons k ks)
  have wf: "sched_wf (stop_task r k s)"
    by (rule sched_wf_filter [OF Cons.prems(1)]) (simp_all add: AList.delete_eq)
  have "(\<exists>k' \<in> set ks. map_of (sched_tasks (stop_task r k s)) k' = Some t) \<longleftrightarrow>
      (\<exists>k' \<in> set ks. map_of (sched_tasks s) k' = Some t)"
    using Cons.prems(2) by (auto simp: py_dict)
  moreover have "\<not> (\<exists>k' \<in> set ks. map_of (sched_tasks s) k' = Some t)" if "map_of (sched_tasks s) k = Some t"
    using sched_wfD(1) [OF Cons.prems(1)] that Cons.prems(2) by auto
  ultimately show ?case
    using Cons.IH [OF wf] Cons.prems(2) by (auto simp: stop_task_state)
qed simp

lemma sched_stop_fields [simp]:
  "sched_tasks (sched_stop r pid s) = filter (\<lambda>(k, _). k \<notin> set (keys_to_stop pid s)) (sched_tasks s)"
  "next_task (sched_stop r pid s) = next_task s"
  "sched_active (sched_stop r pid s) = AList.delete pid (sched_active s)"
  by (simp_all add: sched_stop_def Let_def)

lemma in_keys_to_stop: "k \<in> set (map fst (sched_tasks s)) \<Longrightarrow>
   k \<in> set (keys_to_stop pid s) \<longleftrightarrow> is_prefix_of (task_prefix pid) k"
  by (auto simp: keys_to_stop_def)

lemma stop_lookup:
  "map_of (sched_tasks (sched_stop r pid s)) k =
     (if is_prefix_of (task_prefix pid) k then None else map_of (sched_tasks s) k)"
proof (cases "k \<in> set (map fst (sched_tasks s))")
  case True
  then show ?thesis using in_keys_to_stop by (simp add: map_of_filter_keys)
next
  case False
  then have "map_of (sched_tasks s) k = None" by (simp add: map_of_eq_None_iff)
  then show ?thesis by (simp add: map_of_filter_keys)
qed

lemma stop_state:
  assumes "sched_wf s"
  shows "sched_state (sched_stop r pid s) t =
    (if \<exists>k. map_of (sched_tasks s) k = Some t \<and> is_prefix_of (task_prefix pid) k
     then stopped_state r t (sched_state s t) else sched_state s t)"
proof -
  have "distinct (keys_to_stop pid s)" using assms by (simp add: keys_to_stop_def sched_wf_def dict_wf_def)
  moreover have "(\<exists>k \<in> set (keys_to_stop pid s). map_of (sched_tasks s) k = Some t) \<longleftrightarrow>
      (\<exists>k. map_of (sched_tasks s) k = Some t \<and> is_prefix_of (task_prefix pid) k)"
    by (auto simp: keys_to_stop_def key_lookup simp del: set_map)
  ultimately show ?thesis
    using fold_stop_state [OF assms] by (simp add: sched_stop_def Let_def)
qed

lemma has_tasks_iff: "has_tasks s pid \<longleftrightarrow> (\<exists>k t. map_of (sched_tasks s) k = Some t \<and> is_prefix_of (task_prefix pid) k)"
  by (auto simp: has_tasks_def list_ex_iff key_lookup simp del: set_map)

section \<open>Runs\<close>

datatype sched_call =
    Start string "sched_spec list"
  | Stop "nat \<Rightarrow> bool" string
  | Shutdown "nat \<Rightarrow> bool"
  | Begin_Callback string
  | End_Callback string
  | Task_Exit nat \<comment> \<open>a loop returns or honours its cancellation\<close>

primrec sched_step :: "sched_call \<Rightarrow> scheduler \<Rightarrow> scheduler" where
  "sched_step (Start pid specs) s = sched_start pid specs s"
| "sched_step (Stop r pid) s = sched_stop r pid s"
| "sched_step (Shutdown r) s = sched_shutdown r s"
| "sched_step (Begin_Callback pid) s = callback_begin pid s"
| "sched_step (End_Callback pid) s = callback_end pid s"
| "sched_step (Task_Exit t) s = s\<lparr>sched_state := (sched_state s)(t := Task_Done)\<rparr>"

definition sched_run :: "sched_call list \<Rightarrow> scheduler \<Rightarrow> scheduler" where
  "sched_run cs s = fold sched_step cs s"

lemma sched_wf_new: "sched_wf new_scheduler"
  by (simp add: sched_wf_def new_scheduler_def dict_wf_def)

lemma snd_update_subset: "set (map snd (AList.update k v d)) \<subseteq> insert v (set (map snd d))"
  by (induction d) auto

lemma set_fst_update: "set (map fst (AList.update k v d)) = insert k (set (map fst d))"
  by (induction d) auto

lemma distinct_snd_update:
  "distinct (map snd d) \<Longrightarrow> v \<notin> set (map snd d) \<Longrightarrow> distinct (map snd (AList.update k v d))"
  using snd_update_subset by (induction d) (fastforce, force simp: image_iff)

lemma sched_wf_start_task: "sched_wf s \<Longrightarrow> sched_wf (start_task pid sp s)"
proof -
  assume wf: "sched_wf s"
  define s1 where "s1 = (case map_of (sched_tasks s) (task_prefix pid @ spec_name sp) of None \<Rightarrow> s | Some t \<Rightarrow> cancel_task t s)"
  have f: "sched_tasks s1 = sched_tasks s" "next_task s1 = next_task s"
    by (auto simp: s1_def split: option.split)
  define key where "key = task_prefix pid @ spec_name sp"
  have st: "sched_tasks (start_task pid sp s) = AList.update key (next_task s) (sched_tasks s)"
    "next_task (start_task pid sp s) = next_task s + 1"
    by (simp_all add: start_task_def Let_def s1_def [symmetric] f key_def)
  have "next_task s \<notin> set (map snd (sched_tasks s))" using wf by (auto simp: sched_wf_def)
  moreover have "CHR '':'' \<in> set key" by (simp add: key_def task_prefix_def)
  ultimately show ?thesis
    using wf snd_update_subset [of key "next_task s" "sched_tasks s"] set_fst_update [of key "next_task s" "sched_tasks s"]
    unfolding sched_wf_def st by (simp del: set_map add: distinct_snd_update less_Suc_eq) blast
qed

lemma sched_wf_stop: "sched_wf s \<Longrightarrow> sched_wf (sched_stop r pid s)"
  by (erule sched_wf_filter) simp_all

lemma sched_wf_step: "sched_wf s \<Longrightarrow> sched_wf (sched_step c s)"
proof (cases c)
  case (Start pid specs)
  assume "sched_wf s"
  then have "sched_wf (fold (start_task pid) specs s)"
    by (induction specs arbitrary: s) (auto intro: sched_wf_start_task)
  then show ?thesis by (simp add: Start sched_start_def)
next
  case (Shutdown r)
  assume "sched_wf s"
  then have "sched_wf (fold (sched_stop r) ps s)" for ps
    by (induction ps arbitrary: s) (auto intro: sched_wf_stop)
  then show ?thesis by (simp add: Shutdown sched_shutdown_def)
next
  case (Stop r pid)
  assume "sched_wf s"
  then show ?thesis by (simp add: Stop sched_wf_stop del: sched_stop_fields)
qed (auto simp: sched_wf_def callback_begin_def callback_end_def)

lemma sched_wf_run: "sched_wf s \<Longrightarrow> sched_wf (sched_run cs s)"
  by (induction cs arbitrary: s) (auto simp: sched_run_def intro: sched_wf_step)

text \<open>
  Stopping a plugin, in any state the scheduler reaches: the plugin has no
  tracked task and no counted callback afterwards, each of its tasks is done or,
  when it resists, has its cancellation requested; a task key that does not
  start with the plugin's prefix keeps its task, and no task of another key
  changes state.
\<close>
theorem stop_is_isolated:
  "let s = sched_run cs new_scheduler; s' = sched_stop resists pid s
   in \<not> has_tasks s' pid \<and> active_callbacks s' pid = 0 \<and>
      (\<forall>k t. map_of (sched_tasks s) k = Some t \<longrightarrow>
         (if is_prefix_of (task_prefix pid) k then sched_state s' t = stopped_state resists t (sched_state s t)
          else map_of (sched_tasks s') k = Some t \<and> sched_state s' t = sched_state s t))"
proof -
  define s where "s = sched_run cs new_scheduler"
  have wf: "sched_wf s" unfolding s_def by (intro sched_wf_run sched_wf_new)
  have "sched_state (sched_stop resists pid s) t = sched_state s t"
    if "map_of (sched_tasks s) k = Some t" "\<not> is_prefix_of (task_prefix pid) k" for k t
    using that sched_wfD(1) [OF wf] by (auto simp: stop_state [OF wf])
  then show ?thesis
    by (auto simp: s_def [symmetric] Let_def has_tasks_iff stop_lookup active_callbacks_def py_dict stop_state [OF wf]
        simp del: sched_stop_fields(1))
qed

theorem stop_is_isolated_witness:
  "\<not> has_tasks (sched_stop (\<lambda>_. False) ''docker''
      (sched_run [Start ''docker'' [\<lparr>spec_name = ''poll'', interval_secs = 30, spec_handler = ''h''\<rparr>],
        Start ''docker2'' [\<lparr>spec_name = ''poll'', interval_secs = 30, spec_handler = ''h''\<rparr>]] new_scheduler)) ''docker''"
  using stop_is_isolated [of "[Start ''docker'' [\<lparr>spec_name = ''poll'', interval_secs = 30, spec_handler = ''h''\<rparr>],
        Start ''docker2'' [\<lparr>spec_name = ''poll'', interval_secs = 30, spec_handler = ''h''\<rparr>]]" "\<lambda>_. False" "''docker''"]
  by (simp add: Let_def)

lemma key_owner_prefix: "CHR '':'' \<in> set k \<Longrightarrow> is_prefix_of (task_prefix (key_owner k)) k"
proof -
  assume "CHR '':'' \<in> set k"
  then obtain a b where k: "k = a @ CHR '':'' # b" and a: "CHR '':'' \<notin> set a" using split_list_first by fastforce
  then show ?thesis by (auto simp: key_owner_append is_prefix_of_iff task_prefix_def)
qed

lemma fold_stop_lookup:
  "map_of (sched_tasks (fold (sched_stop r) ps s)) k =
     (if \<exists>p \<in> set ps. is_prefix_of (task_prefix p) k then None else map_of (sched_tasks s) k)"
  by (induction ps arbitrary: s) (auto simp del: sched_stop_fields simp: stop_lookup)

text \<open>Shutdown forgets every task the scheduler tracks.\<close>

lemma shutdown_clears: "sched_wf s \<Longrightarrow> sched_tasks (sched_shutdown r s) = []"
proof -
  assume wf: "sched_wf s"
  have "map_of (sched_tasks (sched_shutdown r s)) k = None" for k
  proof (cases "map_of (sched_tasks s) k")
    case (Some t)
    then have "k \<in> set (map fst (sched_tasks s))" "CHR '':'' \<in> set k"
      using sched_wfD(3) [OF wf] by (auto dest: map_of_SomeD simp: rev_image_eqI)
    then show ?thesis by (force simp: sched_shutdown_def fold_stop_lookup dest: key_owner_prefix)
  qed (simp add: sched_shutdown_def fold_stop_lookup)
  then show ?thesis by (metis map_of_eq_empty_iff ext)
qed

text \<open>
  The callback counter never goes negative and, between two stops of the
  plugin, counts the handler invocations that have begun and not ended.
\<close>

lemma callback_balance:
  "0 \<le> active_callbacks s pid \<Longrightarrow>
   active_callbacks (callback_begin p s) pid = active_callbacks s pid + (if p = pid then 1 else 0) \<and>
   active_callbacks (callback_end p s) pid =
     (if p = pid then max 0 (active_callbacks s pid - 1) else active_callbacks s pid)"
  by (auto simp: callback_begin_def callback_end_def active_callbacks_def py_dict)

end
