(* ===== verification/Event_Bus.thy ===== *)
theory Event_Bus
  imports Json "HOL-Library.Sublist"
begin

text \<open>
  The in-process publish/subscribe bus (\<open>src/master/core/event_bus.py\<close>). A
  queue object is a number; its contents are in the store \<open>queues\<close>. The replay
  ring of a topic is a \<open>deque\<close> with \<open>maxlen\<close> 200, a subscriber's queue an
  \<open>asyncio.Queue\<close> with \<open>maxsize\<close> 200 whose \<open>put_nowait\<close> raises when full, so
  that the event is dropped. \<open>publish\<close> awaits only its lock: the ring and the
  queues change in one step. Runs are lists of calls of any tasks in the order
  the event loop serves them.
\<close>

section \<open>State and operations\<close>

definition MAX_QUEUE_SIZE :: nat where
  "MAX_QUEUE_SIZE = 200"

definition REPLAY_RING_SIZE :: nat where
  "REPLAY_RING_SIZE = 200"

record bus_event =
  ev_topic :: string
  ev_payload :: json

record event_bus =
  subscribers :: "(string, nat list) dict"
  replays :: "(string, bus_event list) dict"
  queues :: "nat \<Rightarrow> bus_event list"
  next_queue :: nat

definition new_event_bus :: event_bus where
  "new_event_bus = \<lparr>subscribers = [], replays = [], queues = (\<lambda>_. []), next_queue = 0\<rparr>"

definition deque_append :: "nat \<Rightarrow> 'a list \<Rightarrow> 'a \<Rightarrow> 'a list" where
  \<comment> \<open>\<open>deque(maxlen=n).append(x)\<close> discards from the left\<close>
  "deque_append n xs x = (let ys = xs @ [x] in drop (length ys - n) ys)"

definition put_nowait :: "bus_event \<Rightarrow> nat \<Rightarrow> event_bus \<Rightarrow> event_bus" where
  \<comment> \<open>a full queue raises \<open>QueueFull\<close>, which \<open>publish\<close> logs: the event is dropped\<close>
  "put_nowait e q b =
     (if MAX_QUEUE_SIZE \<le> length (queues b q) then b
      else b\<lparr>queues := (queues b)(q := queues b q @ [e])\<rparr>)"

definition publish :: "string \<Rightarrow> json \<Rightarrow> event_bus \<Rightarrow> event_bus" where
  "publish topic payload b =
     (let e = \<lparr>ev_topic = topic, ev_payload = payload\<rparr>;
          ring = dict_get (replays b) topic [];
          b1 = b\<lparr>replays := AList.update topic (deque_append REPLAY_RING_SIZE ring e) (replays b)\<rparr>
      in fold (put_nowait e) (dict_get (subscribers b1) topic []) b1)"

definition subscribe :: "string \<Rightarrow> event_bus \<Rightarrow> nat \<times> event_bus" where
  "subscribe topic b =
     (let q = next_queue b
      in (q, b\<lparr>next_queue := q + 1, queues := (queues b)(q := []),
               subscribers := AList.update topic (dict_get (subscribers b) topic [] @ [q]) (subscribers b)\<rparr>))"

definition unsubscribe :: "string \<Rightarrow> nat \<Rightarrow> event_bus \<Rightarrow> event_bus" where
  "unsubscribe topic q b =
     (case map_of (subscribers b) topic of
        None \<Rightarrow> b
      | Some subs \<Rightarrow> b\<lparr>subscribers := AList.update topic (remove1 q subs) (subscribers b)\<rparr>)"

definition replay :: "event_bus \<Rightarrow> string \<Rightarrow> bus_event list" where
  "replay b topic = dict_get (replays b) topic []"

section \<open>Runs\<close>

datatype bus_call =
    Publish string json
  | Subscribe string
  | Unsubscribe string nat
  | Get nat \<comment> \<open>a consumer's \<open>queue.get()\<close>\<close>

primrec bus_step :: "bus_call \<Rightarrow> event_bus \<Rightarrow> (nat \<times> bus_event) list \<times> event_bus" where
  "bus_step (Publish t p) b = ([], publish t p b)"
| "bus_step (Subscribe t) b = ([], snd (subscribe t b))"
| "bus_step (Unsubscribe t q) b = ([], unsubscribe t q b)"
| "bus_step (Get q) b =
     (case queues b q of
        [] \<Rightarrow> ([], b)
      | e # es \<Rightarrow> ([(q, e)], b\<lparr>queues := (queues b)(q := es)\<rparr>))"

primrec bus_run :: "bus_call list \<Rightarrow> event_bus \<Rightarrow> (nat \<times> bus_event) list \<times> event_bus" where
  "bus_run [] b = ([], b)"
| "bus_run (c # cs) b =
     (let (out, b1) = bus_step c b; (outs, b2) = bus_run cs b1 in (out @ outs, b2))"

primrec published :: "string \<Rightarrow> bus_call list \<Rightarrow> bus_event list" where
  \<comment> \<open>the reference: every event published on the topic, in order\<close>
  "published t [] = []"
| "published t (c # cs) =
     (case c of Publish t' p \<Rightarrow> if t' = t then [\<lparr>ev_topic = t, ev_payload = p\<rparr>] else [] | _ \<Rightarrow> []) @ published t cs"

definition received :: "nat \<Rightarrow> (nat \<times> bus_event) list \<Rightarrow> bus_event list" where
  "received q outs = map snd (filter (\<lambda>x. fst x = q) outs)"

section \<open>The replay ring\<close>

definition last_n :: "nat \<Rightarrow> 'a list \<Rightarrow> 'a list" where
  "last_n n xs = drop (length xs - n) xs"

lemma last_n_append: "last_n n (last_n n xs @ ys) = last_n n (xs @ ys)"
proof (cases "length xs \<le> n")
  case False
  then show ?thesis by (cases "length ys \<le> n") (auto simp: last_n_def drop_append add.commute)
qed (simp add: last_n_def)

lemma deque_append_last_n: "deque_append n xs x = last_n n (xs @ [x])"
  by (simp add: deque_append_def last_n_def Let_def)

lemma put_nowait_fields [simp]:
  "subscribers (put_nowait e q b) = subscribers b"
  "replays (put_nowait e q b) = replays b"
  "next_queue (put_nowait e q b) = next_queue b"
  by (simp_all add: put_nowait_def)

lemma fold_put_fields [simp]:
  "subscribers (fold (put_nowait e) qs b) = subscribers b"
  "replays (fold (put_nowait e) qs b) = replays b"
  "next_queue (fold (put_nowait e) qs b) = next_queue b"
  by (induction qs arbitrary: b) simp_all

lemma bus_publish_fields [simp]:
  "subscribers (publish t p b) = subscribers b"
  "next_queue (publish t p b) = next_queue b"
  "replay (publish t p b) t' =
     (if t' = t then last_n REPLAY_RING_SIZE (replay b t @ [\<lparr>ev_topic = t, ev_payload = p\<rparr>]) else replay b t')"
  by (auto simp: publish_def Let_def replay_def py_dict deque_append_last_n)

lemma replay_frame [simp]:
  "replay (snd (subscribe t b)) t' = replay b t'"
  "replay (unsubscribe t q b) t' = replay b t'"
  by (auto simp: subscribe_def unsubscribe_def replay_def Let_def split: option.split)

lemma replay_step:
  "replay (snd (bus_step c b)) t = last_n REPLAY_RING_SIZE (replay b t @ published t [c])"
  if "length (replay b t) \<le> REPLAY_RING_SIZE"
proof (cases c)
  case (Get q)
  then show ?thesis using that by (simp add: last_n_def replay_def split: list.split)
qed (use that in \<open>auto simp: last_n_def\<close>)

lemma length_last_n [simp]: "length (last_n n xs) \<le> n"
  by (simp add: last_n_def)

lemma published_append: "published t (xs @ ys) = published t xs @ published t ys"
  by (induction xs) simp_all

lemma replay_run:
  "length (replay b t) \<le> REPLAY_RING_SIZE \<Longrightarrow>
   replay (snd (bus_run cs b)) t = last_n REPLAY_RING_SIZE (replay b t @ published t cs)"
proof (induction cs arbitrary: b)
  case (Cons c cs)
  define b1 where "b1 = snd (bus_step c b)"
  have r1: "replay b1 t = last_n REPLAY_RING_SIZE (replay b t @ published t [c])"
    unfolding b1_def by (rule replay_step [OF Cons.prems])
  then have "replay (snd (bus_run cs b1)) t = last_n REPLAY_RING_SIZE (replay b1 t @ published t cs)"
    by (intro Cons.IH) simp
  also have "\<dots> = last_n REPLAY_RING_SIZE ((replay b t @ published t [c]) @ published t cs)"
    unfolding r1 by (rule last_n_append)
  finally show ?case by (simp add: b1_def split_def Let_def)
qed (simp add: last_n_def)

text \<open>
  The replay of a topic is the reference definition: whatever calls
  publishers and subscribers make from start-up on, it is the last 200 events
  published on the topic, in order.
\<close>
theorem replay_is_last_published:
  "replay (snd (bus_run cs new_event_bus)) t = last_n 200 (published t cs)"
  using replay_run [of new_event_bus t cs]
  by (simp add: new_event_bus_def replay_def REPLAY_RING_SIZE_def)

section \<open>What a subscriber receives\<close>

definition subs_of :: "event_bus \<Rightarrow> string \<Rightarrow> nat list" where
  "subs_of b t = dict_get (subscribers b) t []"

definition bus_wf :: "event_bus \<Rightarrow> bool" where
  "bus_wf b \<longleftrightarrow>
     (\<forall>t. distinct (subs_of b t) \<and> (\<forall>q \<in> set (subs_of b t). q < next_queue b)) \<and>
     (\<forall>t t'. t \<noteq> t' \<longrightarrow> set (subs_of b t) \<inter> set (subs_of b t') = {})"

lemma subs_of_simps [simp]:
  "subs_of (publish t p b) t' = subs_of b t'"
  "subs_of (snd (subscribe t b)) t' = (if t' = t then subs_of b t @ [next_queue b] else subs_of b t')"
  "subs_of (unsubscribe t q b) t' = (if t' = t then remove1 q (subs_of b t) else subs_of b t')"
  by (auto simp: subs_of_def subscribe_def unsubscribe_def dict_get_def Let_def py_dict split: option.split)

lemma next_queue_simps [simp]:
  "next_queue (snd (subscribe t b)) = next_queue b + 1"
  "next_queue (unsubscribe t q b) = next_queue b"
  by (auto simp: subscribe_def unsubscribe_def Let_def split: option.split)

lemma bus_wf_new: "bus_wf new_event_bus"
  by (simp add: bus_wf_def new_event_bus_def subs_of_def)

lemma bus_wf_subscribe: "bus_wf b \<Longrightarrow> bus_wf (snd (subscribe t b))"
  unfolding bus_wf_def by (auto simp: less_Suc_eq)

lemma bus_wf_unsubscribe: "bus_wf b \<Longrightarrow> bus_wf (unsubscribe t q b)"
  unfolding bus_wf_def using set_remove1_subset [of q "subs_of b t"] by (auto simp: distinct_remove1) blast+

lemma bus_wf_cong: "subs_of b' = subs_of b \<Longrightarrow> next_queue b' = next_queue b \<Longrightarrow> bus_wf b' = bus_wf b"
  by (simp add: bus_wf_def)

lemma subs_of_get [simp]: "subs_of (snd (bus_step (Get q) b)) = subs_of b"
  by (auto simp: subs_of_def fun_eq_iff split: list.split)

lemma next_queue_get [simp]: "next_queue (snd (bus_step (Get q) b)) = next_queue b"
  by (auto split: list.split)

lemma bus_wf_step: "bus_wf b \<Longrightarrow> bus_wf (snd (bus_step c b))"
proof (cases c)
  case (Get q)
  assume "bus_wf b"
  then show ?thesis using bus_wf_cong [of "snd (bus_step c b)" b] Get subs_of_get next_queue_get by blast
next
  case (Publish t p)
  assume "bus_wf b"
  then show ?thesis using bus_wf_cong [of "snd (bus_step c b)" b] Publish by (simp add: fun_eq_iff)
qed (auto simp: bus_wf_subscribe bus_wf_unsubscribe)

lemma bus_wf_run: "bus_wf b \<Longrightarrow> bus_wf (snd (bus_run cs b))"
  by (induction cs arbitrary: b) (auto simp: Let_def split_def intro: bus_wf_step)

lemma fold_put_queue:
  "distinct qs \<Longrightarrow>
   queues (fold (put_nowait e) qs b) q =
     (if q \<in> set qs \<and> length (queues b q) < MAX_QUEUE_SIZE then queues b q @ [e] else queues b q)"
  by (induction qs arbitrary: b) (auto simp: put_nowait_def)

lemma publish_queue:
  "bus_wf b \<Longrightarrow>
   queues (publish t p b) q =
     (if q \<in> set (subs_of b t) \<and> length (queues b q) < MAX_QUEUE_SIZE
      then queues b q @ [\<lparr>ev_topic = t, ev_payload = p\<rparr>] else queues b q)"
  by (simp add: publish_def Let_def fold_put_queue bus_wf_def subs_of_def)

definition owns :: "event_bus \<Rightarrow> nat \<Rightarrow> string \<Rightarrow> bool" where
  \<comment> \<open>the queue exists and only the given topic feeds it\<close>
  "owns b q t \<longleftrightarrow> q < next_queue b \<and> (\<forall>t'. t' \<noteq> t \<longrightarrow> q \<notin> set (subs_of b t'))"

lemma owns_step: "owns b q t \<Longrightarrow> owns (snd (bus_step c b)) q t"
proof (cases c)
  case (Get q')
  assume "owns b q t"
  then show ?thesis unfolding Get owns_def subs_of_get next_queue_get .
qed (auto simp: owns_def dest: notin_set_remove1)

text \<open>
  One call: what left the queue and what is in it is what was in it, extended
  by the published event when the queue is subscribed and has room.
\<close>

lemma queue_step:
  assumes "bus_wf b" and "owns b q t"
  shows "received q (fst (bus_step c b)) @ queues (snd (bus_step c b)) q =
    queues b q @ (if q \<in> set (subs_of b t) \<and> length (queues b q) < MAX_QUEUE_SIZE then published t [c] else [])"
proof (cases c)
  case (Publish t' p)
  then show ?thesis using assms by (auto simp: publish_queue received_def owns_def)
next
  case (Subscribe t')
  then show ?thesis using assms by (auto simp: received_def owns_def subscribe_def Let_def)
next
  case (Unsubscribe t' q')
  then show ?thesis by (auto simp: received_def unsubscribe_def split: option.split)
next
  case (Get q')
  then show ?thesis by (auto simp: received_def split: list.split)
qed

lemma queue_bound_step:
  "bus_wf b \<Longrightarrow> length (queues b q) \<le> MAX_QUEUE_SIZE \<Longrightarrow> length (queues (snd (bus_step c b)) q) \<le> MAX_QUEUE_SIZE"
  by (cases c) (auto simp: publish_queue subscribe_def unsubscribe_def Let_def split: list.split option.split)

lemma received_append: "received q (xs @ ys) = received q xs @ received q ys"
  by (simp add: received_def)

lemma queue_run_subseq:
  assumes "bus_wf b" and "owns b q t"
  shows "\<exists>zs. subseq zs (published t cs) \<and>
    received q (fst (bus_run cs b)) @ queues (snd (bus_run cs b)) q = queues b q @ zs"
  using assms
proof (induction cs arbitrary: b)
  case Nil
  then show ?case by (auto simp: received_def)
next
  case (Cons c cs)
  define b1 where "b1 = snd (bus_step c b)"
  define new where "new = (if q \<in> set (subs_of b t) \<and> length (queues b q) < MAX_QUEUE_SIZE then published t [c] else [])"
  obtain zs where zs: "subseq zs (published t cs)"
    "received q (fst (bus_run cs b1)) @ queues (snd (bus_run cs b1)) q = queues b1 q @ zs"
    using Cons.IH [of b1] Cons.prems by (auto simp: b1_def bus_wf_step owns_step)
  have "received q (fst (bus_step c b)) @ queues b1 q = queues b q @ new"
    using queue_step [OF Cons.prems] by (simp add: b1_def new_def)
  with zs(2) have "received q (fst (bus_run (c # cs) b)) @ queues (snd (bus_run (c # cs) b)) q = queues b q @ new @ zs"
    by (simp add: b1_def split_def Let_def received_append)
  moreover have "subseq (new @ zs) (published t (c # cs))"
    using zs(1) by (auto simp: new_def published_append [of t "[c]" cs, simplified] intro: list_emb_append_mono)
  ultimately show ?case by blast
qed

lemma subs_kept_step:
  "c \<noteq> Unsubscribe t q \<Longrightarrow> q \<in> set (subs_of b t) \<Longrightarrow> q \<in> set (subs_of (snd (bus_step c b)) t)"
proof (cases c)
  case (Get q')
  assume "q \<in> set (subs_of b t)"
  then show ?thesis unfolding Get subs_of_get .
qed auto

lemma queue_run_exact:
  assumes "bus_wf b" and "owns b q t" and "q \<in> set (subs_of b t)" and "Unsubscribe t q \<notin> set cs"
    and "length (queues b q) + length (published t cs) \<le> MAX_QUEUE_SIZE"
  shows "received q (fst (bus_run cs b)) @ queues (snd (bus_run cs b)) q = queues b q @ published t cs"
  using assms
proof (induction cs arbitrary: b)
  case Nil
  then show ?case by (simp add: received_def)
next
  case (Cons c cs)
  define b1 where "b1 = snd (bus_step c b)"
  have st: "received q (fst (bus_step c b)) @ queues b1 q = queues b q @ published t [c]"
  proof (cases "published t [c]")
    case Nil
    then show ?thesis using queue_step [OF Cons.prems(1,2), of c] by (simp add: b1_def del: published.simps)
  next
    case (Cons e es)
    then have "length (queues b q) < MAX_QUEUE_SIZE"
      using Cons.prems(5) published_append [of t "[c]" cs] by simp
    then show ?thesis
      using queue_step [OF Cons.prems(1,2), of c] Cons.prems(3) by (simp add: b1_def del: published.simps)
  qed
  have "length (queues b1 q) \<le> length (queues b q @ published t [c])"
    unfolding st [symmetric] by simp
  then have "received q (fst (bus_run cs b1)) @ queues (snd (bus_run cs b1)) q = queues b1 q @ published t cs"
    using Cons.prems subs_kept_step [of c t q b] published_append [of t "[c]" cs]
    by (intro Cons.IH) (auto simp: b1_def bus_wf_step owns_step)
  with st show ?case
    using published_append [of t "[c]" cs] by (simp add: b1_def split_def Let_def received_append)
qed

lemma queue_run_bound:
  "bus_wf b \<Longrightarrow> length (queues b q) \<le> MAX_QUEUE_SIZE \<Longrightarrow> length (queues (snd (bus_run cs b)) q) \<le> MAX_QUEUE_SIZE"
  by (induction cs arbitrary: b) (auto simp: Let_def split_def intro: bus_wf_step queue_bound_step)

lemma subscribe_facts:
  assumes "bus_wf b"
  shows "owns (snd (subscribe t b)) (fst (subscribe t b)) t"
    and "fst (subscribe t b) \<in> set (subs_of (snd (subscribe t b)) t)"
    and "queues (snd (subscribe t b)) (fst (subscribe t b)) = []"
  using assms by (auto simp: owns_def bus_wf_def) (auto simp: subscribe_def Let_def subs_of_def py_dict)

text \<open>
  What a subscriber receives: the events it has taken from its queue and
  those still in the queue are, in order, a subsequence of the events published
  on its topic since it subscribed, its queue never holds more than 200, and as
  long as it does not unsubscribe and at most 200 events are published nothing
  is lost or duplicated.
\<close>
theorem subscriber_receives:
  "let b = snd (bus_run before new_event_bus); q = fst (subscribe t b);
       (outs, b') = bus_run cs (snd (subscribe t b)); seen = received q outs @ queues b' q
   in subseq seen (published t cs) \<and> length (queues b' q) \<le> 200 \<and>
      (Unsubscribe t q \<notin> set cs \<and> length (published t cs) \<le> 200 \<longrightarrow> seen = published t cs)"
proof -
  define b where "b = snd (bus_run before new_event_bus)"
  have wf: "bus_wf b" unfolding b_def by (intro bus_wf_run bus_wf_new)
  note f = subscribe_facts [OF wf, of t] and wf1 = bus_wf_subscribe [OF wf, of t]
  show ?thesis
    using queue_run_subseq [OF wf1 f(1), of cs] queue_run_bound [OF wf1, of "fst (subscribe t b)" cs]
      queue_run_exact [OF wf1 f(1,2), of cs] f(3)
    by (auto simp: b_def [symmetric] Let_def split_def MAX_QUEUE_SIZE_def)
qed

theorem subscriber_receives_witness:
  "received 0 (fst (bus_run [Publish ''t'' JNull, Get 0] (snd (subscribe ''t'' new_event_bus)))) =
     [\<lparr>ev_topic = ''t'', ev_payload = JNull\<rparr>]"
  using subscriber_receives [of "[]" "''t''" "[Publish ''t'' JNull, Get 0]"]
  by (simp add: Let_def split_def new_event_bus_def subscribe_def publish_def put_nowait_def received_def
      MAX_QUEUE_SIZE_def)

end
