(* ===== verification/Plugin_Engine.thy ===== *)
theory Plugin_Engine
  imports Hook_Bus Plugin_Lifecycle Plugin_Manifest Command_Registry Route_Registrar Scheduler Event_Bus
begin

text \<open>
  The plugin engine (\<open>src/master/core/plugin_engine.py\<close>): loading a plugin in
  process or in a subprocess, the namespace sweep and its rollback, unloading,
  the atomic swap of the served registry with its revision counter and
  invalidation events, the kill switch, start-up and shutdown. The engine is as
  \<open>lifespan.py\<close> builds it, with scheduler, route registrar and page registry.

  What a plugin's code does is not in the repository: \<open>plugin_world\<close> gives, for
  an identifier, the module that its entry file defines, what a sandboxed
  process reports, and what a scan of the plugin directories discovers. Database
  statements succeed; the tables a plugin declares for itself and the
  configuration it is given are not represented, nor are the texts of errors. Calls for one plugin are
  serialised by its lock, the swap by its own.
\<close>

section \<open>Plugin code\<close>

record plugin_class =
  pc_name :: string
  pc_plugin_id :: string
  pc_module :: string
  pc_attrs :: "class_attr list"
  pc_fn :: "string \<Rightarrow> hook_fn" \<comment> \<open>the bound methods of the instance\<close>
  pc_init_raises :: bool

record plugin_module =
  pm_exec_raises :: bool
  pm_classes :: "plugin_class list" \<comment> \<open>the \<open>PluginBase\<close> subclasses among its variables\<close>
  pm_registered :: "plugin_class option" \<comment> \<open>\<open>_decorated_registry.get(plugin_id)\<close> after execution\<close>
  pm_register :: "((string \<times> string \<times> hook_fn) list \<times> bool) option"
    \<comment> \<open>\<open>register(pm)\<close>: its subscriptions (hook, name, function), and whether it raises after them\<close>
  pm_vars :: "class_attr list"

record plugin_world =
  w_module :: "string \<Rightarrow> plugin_module option" \<comment> \<open>None: no entry file\<close>
  w_sandbox :: "string \<Rightarrow> string list option" \<comment> \<open>hooks the subprocess announces; None: it fails to start\<close>
  w_proxy :: "string \<Rightarrow> string \<Rightarrow> hook_fn"
  w_wrapper_attr :: "string \<Rightarrow> bool" \<comment> \<open>attribute names of the process wrapper\<close>
  w_discovered :: "(string, plugin_manifest) dict"
  w_discovered_v2 :: "(string, plugin_manifest_v2) dict"
  w_derive_v2 :: "plugin_manifest \<Rightarrow> plugin_manifest_v2 option"
  w_resists :: "nat \<Rightarrow> bool"

section \<open>The engine\<close>

datatype loader_kind = Class_Based | Sandbox | Legacy
datatype plugin_status = Active | Errored

record plugin_state =
  ps_status :: plugin_status
  ps_loader :: loader_kind

record kill_entry =
  kl_hard :: bool
  kl_disabled_at :: time
  kl_reason :: string
  kl_user :: string

datatype engine_audit =
    Disable_Plugin string string bool string \<comment> \<open>user, plugin, hard, reason\<close>
  | Enable_Plugin string string bool

record engine =
  e_bus :: hook_bus
  e_sched :: scheduler
  e_registrar :: registrar
  e_pages :: page_registry
  e_manifests :: "(string, plugin_manifest) dict"
  e_v2 :: "(string, plugin_manifest_v2) dict"
  e_instances :: "(string, plugin_class) dict"
  e_wrappers :: "(string, string list) dict"
  e_modules :: "(string, plugin_module) dict"
  e_states :: "(string, plugin_state) dict"
  e_kill :: "(string, kill_entry) dict"
  e_boot_id :: string
  e_revision :: nat
  e_allow :: "(string, command_entry) dict"
  e_sandbox :: bool
  e_db :: "plugin_row list option"
  e_events :: event_bus
  e_audit :: "engine_audit list"

datatype violation =
    Claims_Id string string
  | Defined_In string string
  | Command_Outside string
  | Foreign_Hook string string

datatype load_error =
    No_Entry_File
  | Import_Raises
  | Foreign_Class string
  | Foreign_Module string
  | Init_Raises
  | Task_Without_Name
  | Register_Raises
  | Namespace_Violation "violation list"
  | Sandbox_Start_Failed

definition resolve_loader :: "plugin_manifest \<Rightarrow> loader_kind" where
  "resolve_loader mf =
     (if m_trusted mf then Class_Based
      else if m_loader mf = Some ''class_based'' then Class_Based
      else if m_loader mf = Some ''legacy'' then Legacy
      else Sandbox)"

section \<open>Hook subscriptions\<close>

definition hook_subs :: "hook_bus \<Rightarrow> (string \<times> string \<times> nat) list" where
  \<comment> \<open>\<open>_snapshot_hook_subs\<close>: hook, plugin name, identity of the function\<close>
  "hook_subs b = concat (map (\<lambda>(h, subs). map (\<lambda>(pn, f). (h, pn, fn_id f)) subs) (hb_hooks b))"

definition register_all :: "(string \<times> string \<times> hook_fn) list \<Rightarrow> hook_bus \<Rightarrow> hook_bus" where
  "register_all subs b = fold (\<lambda>(h, pn, f). Hook_Bus.register h f pn) subs b"

definition sweep_namespace_violations ::
  "string \<Rightarrow> plugin_class option \<Rightarrow> string \<Rightarrow> hook_bus \<Rightarrow> (string \<times> string \<times> nat) list \<Rightarrow> string list \<Rightarrow> violation list" where
  "sweep_namespace_violations pid inst module_name b before commands =
     (case inst of
        None \<Rightarrow> []
      | Some cls \<Rightarrow>
          (if pc_plugin_id cls \<noteq> pid then [Claims_Id (pc_name cls) (pc_plugin_id cls)] else []) @
          (if pc_module cls \<noteq> module_name then [Defined_In (pc_name cls) (pc_module cls)] else [])) @
     map Command_Outside (filter (\<lambda>c. c \<noteq> pid \<and> \<not> is_prefix_of (pid @ ''.'') c) commands) @
     map (\<lambda>(h, pn, i). Foreign_Hook h pn)
       (filter (\<lambda>(h, pn, i). pn \<notin> set (plugin_id_forms pid)) (filter (\<lambda>x. x \<notin> set before) (hook_subs b)))"

definition restore_hooks :: "(string \<times> string \<times> nat) list \<Rightarrow> hook_bus \<Rightarrow> hook_bus" where
  \<comment> \<open>the loop of \<open>_rollback_inprocess_load\<close> over the bus\<close>
  "restore_hooks before b =
     b\<lparr>hb_hooks := filter (\<lambda>(h, subs). subs \<noteq> [])
        (map (\<lambda>(h, subs). (h, filter (\<lambda>(pn, f). (h, pn, fn_id f) \<in> set before) subs)) (hb_hooks b))\<rparr>"

definition unregister_plugin :: "string \<Rightarrow> hook_bus \<Rightarrow> hook_bus" where
  \<comment> \<open>\<open>for hook_name in list(get_hooks().keys()): unregister(hook_name, plugin_id)\<close>\<close>
  "unregister_plugin pid b = fold (\<lambda>h b. snd (Hook_Bus.unregister h pid b)) (map fst (get_hooks b)) b"

section \<open>The swap\<close>

definition rebuild_allowlist :: "engine \<Rightarrow> (string, command_entry) dict" where
  "rebuild_allowlist e =
     fold (\<lambda>c. AList.update (ce_name c) c)
       (dedup_entries []
          (scan_all_routes (map (\<lambda>(pid, cls). (pid, Instance (pc_attrs cls))) (e_instances e)) @
           scan_all_routes (map (\<lambda>(pid, md). (pid, Module (pm_vars md))) (e_modules e)))) []"

definition invalidation :: "engine \<Rightarrow> string \<Rightarrow> string \<Rightarrow> (string, json) dict \<Rightarrow> json" where
  "invalidation e pid action extra =
     JObj ([(''plugin_id'', JStr pid), (''boot_id'', JStr (e_boot_id e)),
            (''revision'', JInt (int (e_revision e))), (''action'', JStr action)] @ extra)"

definition publish_invalidation :: "string \<Rightarrow> string \<Rightarrow> (string, json) dict \<Rightarrow> engine \<Rightarrow> engine" where
  "publish_invalidation pid action extra e =
     e\<lparr>e_events := Event_Bus.publish ''plugins.invalidated'' (invalidation e pid action extra) (e_events e)\<rparr>"

definition affected_plugins :: "string option \<Rightarrow> string list \<Rightarrow> (string, command_entry) dict \<Rightarrow> (string, string) dict" where
  "affected_plugins removed before allow =
     (case removed of
        Some pid \<Rightarrow> [(pid, ''unloaded'')]
      | None \<Rightarrow>
          fold (\<lambda>(n, c). AList.update (ce_plugin_id c) (if n \<in> set before then ''updated'' else ''loaded''))
            (filter (\<lambda>(n, c). n \<notin> set before) allow) [])"

definition swap_registry :: "string option \<Rightarrow> engine \<Rightarrow> engine" where
  "swap_registry removed e =
     (let e1 = (case removed of None \<Rightarrow> e | Some pid \<Rightarrow> e\<lparr>e_v2 := AList.delete pid (e_v2 e)\<rparr>);
          before = map fst (e_allow e1);
          e2 = e1\<lparr>e_allow := rebuild_allowlist e1, e_revision := e_revision e1 + 1\<rparr>
      in fold (\<lambda>(pid, action). publish_invalidation pid action [])
           (affected_plugins removed before (e_allow e2)) e2)"

section \<open>Loading\<close>

definition module_name_of :: "string \<Rightarrow> string" where
  "module_name_of pid = ''master.plugins.'' @ pid"

definition auth_domains :: "engine \<Rightarrow> string \<Rightarrow> string list option" where
  \<comment> \<open>\<open>_plugin_external_auth_domains\<close>\<close>
  "auth_domains e pid =
     (case map_of (e_v2 e) pid of
        None \<Rightarrow> None
      | Some v2 \<Rightarrow> (case v2_external_auth_domains v2 of Some (d # ds) \<Rightarrow> Some (d # ds) | _ \<Rightarrow> None))"

definition class_routes :: "plugin_class \<Rightarrow> route_entry list" where
  "class_routes cls =
     map (\<lambda>(m, n). \<lparr>re_path = rm_path m, re_method = rm_method m, re_handler = n\<rparr>) (collect_routes (pc_attrs cls))"

definition instance_subs :: "string \<Rightarrow> plugin_class \<Rightarrow> (string \<times> string \<times> hook_fn) list" where
  "instance_subs pid cls = map (\<lambda>(verb, n). (verb, pid, pc_fn cls n)) (collect_hooks (pc_attrs cls))"

definition register_instance :: "string \<Rightarrow> plugin_class \<Rightarrow> engine \<Rightarrow> (load_error + unit) \<times> engine" where
  \<comment> \<open>the instance, its hooks, its tasks (\<open>scheduler.start\<close> reads the missing key \<open>name\<close>), its routes\<close>
  "register_instance pid cls e =
     (let e1 = e\<lparr>e_instances := AList.update pid cls (e_instances e),
                 e_bus := register_all (instance_subs pid cls) (e_bus e)\<rparr>
      in if collect_scheduled (pc_attrs cls) \<noteq> [] then (Inl Task_Without_Name, e1)
         else (Inr (), if class_routes cls = [] then e1
                       else e1\<lparr>e_registrar := mount pid (class_routes cls) (\<lambda>_. True) (auth_domains e1 pid) (e_registrar e1)\<rparr>))"

definition run_registration :: "string \<Rightarrow> plugin_module \<Rightarrow> engine \<Rightarrow> (load_error + unit) \<times> engine" where
  "run_registration pid md e =
     (case pm_registered md of
        Some cls \<Rightarrow>
          if pc_module cls \<noteq> module_name_of pid then (Inl (Foreign_Module (pc_module cls)), e)
          else if pc_init_raises cls then (Inl Init_Raises, e)
          else register_instance pid cls e
      | None \<Rightarrow>
          (case pm_register md of
             None \<Rightarrow> (Inr (), e)
           | Some (subs, raises) \<Rightarrow>
               (if raises then Inl Register_Raises else Inr (), e\<lparr>e_bus := register_all subs (e_bus e)\<rparr>)))"

definition command_names :: "string \<Rightarrow> plugin_class option \<Rightarrow> plugin_module \<Rightarrow> string list" where
  "command_names pid inst md =
     (case inst of None \<Rightarrow> [] | Some cls \<Rightarrow> map (\<lambda>(m, n). pid @ ''.'' @ n) (collect_routes (pc_attrs cls))) @
     map (\<lambda>a. pid @ ''.'' @ ca_name a)
       (filter (\<lambda>a. \<not> is_prefix_of ''__'' (ca_name a) \<and> ca_callable a \<and> ca_route a \<noteq> None) (pm_vars md))"

definition rollback_inprocess_load ::
  "(nat \<Rightarrow> bool) \<Rightarrow> string \<Rightarrow> plugin_class option \<Rightarrow> (string \<times> string \<times> nat) list \<Rightarrow> engine \<Rightarrow> engine" where
  "rollback_inprocess_load resists pid inst before e =
     e\<lparr>e_bus := restore_hooks before (e_bus e),
       e_registrar := unmount pid (e_registrar e),
       e_sched := (if inst = None then e_sched e else sched_stop resists pid (e_sched e)),
       e_instances := AList.delete pid (e_instances e),
       e_modules := AList.delete pid (e_modules e)\<rparr>"

definition load_inprocess :: "plugin_world \<Rightarrow> string \<Rightarrow> engine \<Rightarrow> (load_error + unit) \<times> engine" where
  "load_inprocess w pid e =
     (case w_module w pid of
        None \<Rightarrow> (Inl No_Entry_File, e)
      | Some md \<Rightarrow>
          if pm_exec_raises md then (Inl Import_Raises, e)
          else
            (let before = hook_subs (e_bus e)
             in case List.find (\<lambda>c. pc_plugin_id c \<noteq> pid) (pm_classes md) of
                  Some c \<Rightarrow> (Inl (Foreign_Class (pc_name c)), e)
                | None \<Rightarrow>
                    (case run_registration pid md e of
                       (Inl err, e1) \<Rightarrow> (Inl err, e1)
                     | (Inr _, e1) \<Rightarrow>
                         (let inst = map_of (e_instances e1) pid;
                              vs = sweep_namespace_violations pid inst (module_name_of pid) (e_bus e1) before
                                     (command_names pid inst md)
                          in if vs \<noteq> [] then
                               (Inl (Namespace_Violation vs), rollback_inprocess_load (w_resists w) pid inst before e1)
                             else (Inr (), e1\<lparr>e_modules := AList.update pid md (e_modules e1)\<rparr>)))))"

definition load_sandbox :: "plugin_world \<Rightarrow> string \<Rightarrow> plugin_manifest \<Rightarrow> engine \<Rightarrow> (load_error + unit) \<times> engine" where
  "load_sandbox w pid mf e =
     (case w_sandbox w pid of
        None \<Rightarrow> (Inl Sandbox_Start_Failed, e)
      | Some hooks \<Rightarrow>
          (let e1 = e\<lparr>e_wrappers := AList.update pid hooks (e_wrappers e),
                      e_bus := register_all (map (\<lambda>h. (h, pid, w_proxy w pid h)) hooks) (e_bus e)\<rparr>
           in (Inr (), if m_routes mf = [] then e1
                       else e1\<lparr>e_registrar := mount pid
                              (map (\<lambda>r. \<lparr>re_path = rs_path r, re_method = rs_method r, re_handler = rs_handler r\<rparr>) (m_routes mf))
                              (w_wrapper_attr w) (auth_domains e1 pid) (e_registrar e1)\<rparr>)))"

definition effective_loader :: "engine \<Rightarrow> plugin_manifest \<Rightarrow> loader_kind" where
  "effective_loader e mf =
     (let k = resolve_loader mf in if \<not> e_sandbox e \<and> k = Sandbox then Class_Based else k)"

definition ensure_v2 :: "plugin_world \<Rightarrow> string \<Rightarrow> plugin_manifest \<Rightarrow> engine \<Rightarrow> engine" where
  "ensure_v2 w pid mf e =
     (case map_of (e_v2 e) pid of
        Some _ \<Rightarrow> e
      | None \<Rightarrow> (case w_derive_v2 w mf of None \<Rightarrow> e | Some v2 \<Rightarrow> e\<lparr>e_v2 := AList.update pid v2 (e_v2 e)\<rparr>))"

definition register_pages :: "string \<Rightarrow> plugin_manifest \<Rightarrow> engine \<Rightarrow> engine" where
  "register_pages pid mf e =
     (if m_pages mf = [] then e
      else e\<lparr>e_pages := page_register pid
             (case map_of (e_v2 e) pid of
                Some v2 \<Rightarrow> registry_entries (project_legacy_pages v2 (map dump_page (m_pages mf)))
              | None \<Rightarrow> map (\<lambda>p. (p, None)) (m_pages mf)) (e_pages e)\<rparr>)"

definition db_set :: "string \<Rightarrow> string \<Rightarrow> int \<Rightarrow> engine \<Rightarrow> engine" where
  \<comment> \<open>\<open>UPDATE plugins SET status = ..., enabled = ... WHERE id = ?\<close>\<close>
  "db_set pid st en e =
     e\<lparr>e_db := map_option (sql_update (\<lambda>r. pr_id r = pid) (\<lambda>r. r\<lparr>pr_status := st, pr_enabled := en\<rparr>)) (e_db e)\<rparr>"

definition set_state :: "string \<Rightarrow> plugin_status \<Rightarrow> loader_kind \<Rightarrow> engine \<Rightarrow> engine" where
  "set_state pid st k e = e\<lparr>e_states := AList.update pid \<lparr>ps_status = st, ps_loader = k\<rparr> (e_states e)\<rparr>"

definition load_kind :: "plugin_world \<Rightarrow> loader_kind \<Rightarrow> string \<Rightarrow> plugin_manifest \<Rightarrow> engine \<Rightarrow> (load_error + unit) \<times> engine" where
  "load_kind w k pid mf e = (if k = Sandbox then load_sandbox w pid mf e else load_inprocess w pid e)"

definition load :: "plugin_world \<Rightarrow> string \<Rightarrow> plugin_manifest \<Rightarrow> engine \<Rightarrow> (load_error + unit) \<times> engine" where
  "load w pid mf e =
     (let k = effective_loader e mf; e1 = ensure_v2 w pid mf e
      in case load_kind w k pid mf e1 of
           (Inl err, e2) \<Rightarrow> (Inl err, e2)
         | (Inr _, e2) \<Rightarrow>
             (Inr (), db_set pid ''ACTIVE'' 1
                (set_state pid Active k (swap_registry None (register_pages pid mf e2)))))"

section \<open>Unloading\<close>

definition was_served :: "engine \<Rightarrow> string \<Rightarrow> bool" where
  "was_served e pid \<longleftrightarrow>
     map_of (e_instances e) pid \<noteq> None \<or> map_of (e_wrappers e) pid \<noteq> None \<or> map_of (e_modules e) pid \<noteq> None"

definition detach :: "plugin_world \<Rightarrow> string \<Rightarrow> engine \<Rightarrow> engine" where
  \<comment> \<open>hooks, tasks, routes, pages, subprocess, instance and the states of every form of the identifier;
    the module stays in \<open>_plugin_modules\<close>\<close>
  "detach w pid e =
     e\<lparr>e_bus := unregister_plugin pid (e_bus e),
       e_sched := sched_stop (w_resists w) pid (e_sched e),
       e_registrar := unmount pid (e_registrar e),
       e_pages := page_unregister pid (e_pages e),
       e_wrappers := AList.delete pid (e_wrappers e),
       e_instances := AList.delete pid (e_instances e),
       e_states := fold AList.delete (plugin_id_forms pid) (e_states e)\<rparr>"

definition unload_plugin :: "plugin_world \<Rightarrow> bool \<Rightarrow> string \<Rightarrow> engine \<Rightarrow> engine" where
  "unload_plugin w persist pid e =
     (let served = was_served e pid;
          e1 = detach w pid e;
          e2 = (if served then swap_registry (Some pid) e1 else e1)
      in if persist then db_set pid ''DISABLED'' 0 e2 else e2)"

definition loaded_plugins :: "engine \<Rightarrow> string list" where
  "loaded_plugins e = map fst (filter (\<lambda>(pid, s). ps_status s = Active) (e_states e))"

definition is_plugin_loaded :: "engine \<Rightarrow> string \<Rightarrow> bool" where
  "is_plugin_loaded e pid \<longleftrightarrow>
     list_ex (\<lambda>c. map_of (e_instances e) c \<noteq> None \<or> map_of (e_wrappers e) c \<noteq> None) (plugin_id_forms pid)"

section \<open>Operations of the administrator\<close>

definition scan_registry :: "plugin_world \<Rightarrow> engine \<Rightarrow> engine" where
  \<comment> \<open>the discovered manifests replace the old ones, the shadows are added\<close>
  "scan_registry w e =
     e\<lparr>e_manifests := w_discovered w, e_v2 := fold (\<lambda>(pid, v2). AList.update pid v2) (w_discovered_v2 w) (e_v2 e)\<rparr>"

definition find_manifest :: "engine \<Rightarrow> string \<Rightarrow> plugin_manifest option" where
  \<comment> \<open>by identifier, by canonical form or file stem, then by equal canonical form\<close>
  "find_manifest e pid =
     (case List.find (\<lambda>i. map_of (e_manifests e) i \<noteq> None) (plugin_id_forms pid) of
        Some i \<Rightarrow> map_of (e_manifests e) i
      | None \<Rightarrow>
          map_option snd (List.find (\<lambda>(i, m). canonical_plugin_id i = canonical_plugin_id pid) (e_manifests e)))"

definition load_manifest :: "plugin_world \<Rightarrow> plugin_manifest \<Rightarrow> engine \<Rightarrow> bool \<times> engine" where
  "load_manifest w mf e =
     (let target = m_id mf
      in if target \<in> set (loaded_plugins e) then (False, e)
         else (case load w target mf e of
                 (Inr _, e1) \<Rightarrow> (True, e1)
               | (Inl err, e1) \<Rightarrow>
                   (False, db_set target ''ERROR'' 1
                      (unload_plugin w True target (set_state target Errored Class_Based e1)))))"

definition load_plugin :: "plugin_world \<Rightarrow> string \<Rightarrow> engine \<Rightarrow> bool \<times> engine" where
  "load_plugin w pid e =
     (let e1 = (case map_of (e_manifests e) pid of Some _ \<Rightarrow> e | None \<Rightarrow> scan_registry w e)
      in case find_manifest e1 pid of
           None \<Rightarrow> (False, e1)
         | Some mf \<Rightarrow> load_manifest w mf e1)"

definition is_kill_switched :: "engine \<Rightarrow> string \<Rightarrow> bool" where
  "is_kill_switched e pid \<longleftrightarrow> map_of (e_kill e) pid \<noteq> None"

definition audit_log :: "engine_audit \<Rightarrow> engine \<Rightarrow> engine" where
  "audit_log a e = (case e_db e of None \<Rightarrow> e | Some _ \<Rightarrow> e\<lparr>e_audit := e_audit e @ [a]\<rparr>)"

definition disable_plugin :: "plugin_world \<Rightarrow> time \<Rightarrow> string \<Rightarrow> bool \<Rightarrow> string \<Rightarrow> string \<Rightarrow> engine \<Rightarrow> engine" where
  "disable_plugin w now pid hard reason user e =
     (let e1 = e\<lparr>e_kill := AList.update pid
                  \<lparr>kl_hard = hard, kl_disabled_at = now, kl_reason = reason, kl_user = user\<rparr> (e_kill e)\<rparr>;
          e2 = db_set pid ''DISABLED'' 0 (unload_plugin w True pid e1);
          e3 = audit_log (Disable_Plugin user pid hard reason) e2
      in publish_invalidation pid ''disabled'' [(''mode'', JStr (if hard then ''hard'' else ''maintenance''))] (swap_registry (Some pid) e3))"

definition enable_plugin :: "plugin_world \<Rightarrow> string \<Rightarrow> engine \<Rightarrow> engine" where
  "enable_plugin w pid e =
     (case map_of (e_kill e) pid of
        None \<Rightarrow> e
      | Some entry \<Rightarrow>
          (let e1 = e\<lparr>e_kill := AList.delete pid (e_kill e)\<rparr>;
               e2 = snd (load_plugin w (canonical_plugin_id pid) e1);
               e3 = audit_log (Enable_Plugin (kl_user entry) pid (kl_hard entry)) e2;
               e4 = db_set pid ''ACTIVE'' 1 e3
           in publish_invalidation pid ''enabled'' [(''was_hard'', JBool (kl_hard entry))] (swap_registry None e4)))"

definition uninstall :: "plugin_world \<Rightarrow> string \<Rightarrow> engine \<Rightarrow> engine" where
  "uninstall w pid e =
     (let e1 = unload_plugin w True pid e
      in e1\<lparr>e_db := map_option (filter (\<lambda>r. pr_id r \<noteq> pid)) (e_db e1)\<rparr>)"

section \<open>Start-up and shutdown\<close>

definition row_enabled :: "engine \<Rightarrow> string \<Rightarrow> bool option" where
  "row_enabled e pid =
     (case e_db e of
        None \<Rightarrow> None
      | Some rows \<Rightarrow> map_option (\<lambda>r. pr_enabled r \<noteq> 0) (sql_fetchone (\<lambda>r. pr_id r = pid) rows))"

definition load_at_startup :: "plugin_world \<Rightarrow> string \<times> plugin_manifest \<Rightarrow> engine \<Rightarrow> engine" where
  \<comment> \<open>one turn of the loop of \<open>initialize\<close> with a database\<close>
  "load_at_startup w pm e =
     (let pid = fst pm;
          e1 = (if row_enabled e pid = None
                then e\<lparr>e_db := map_option (\<lambda>rows. rows @ [\<lparr>pr_id = pid, pr_enabled = 1, pr_status = ''DISCOVERED''\<rparr>]) (e_db e)\<rparr>
                else e)
      in if row_enabled e1 pid = Some True then
           (case load w pid (snd pm) e1 of
              (Inr _, e2) \<Rightarrow> e2
            | (Inl err, e2) \<Rightarrow>
                (let e3 = set_state pid Errored Class_Based e2
                 in e3\<lparr>e_db := map_option (sql_update (\<lambda>r. pr_id r = pid) (\<lambda>r. r\<lparr>pr_status := ''ERROR''\<rparr>)) (e_db e3)\<rparr>))
         else e1)"

definition load_without_db :: "plugin_world \<Rightarrow> string \<times> plugin_manifest \<Rightarrow> engine \<Rightarrow> engine" where
  "load_without_db w pm e =
     (case load w (fst pm) (snd pm) e of
        (Inr _, e1) \<Rightarrow> e1
      | (Inl err, e1) \<Rightarrow> set_state (fst pm) Errored Class_Based e1)"

definition initialize :: "plugin_world \<Rightarrow> engine \<Rightarrow> engine" where
  "initialize w e =
     (let e1 = scan_registry w e
      in case e_db e1 of
           None \<Rightarrow> fold (load_without_db w) (e_manifests e1) e1
         | Some _ \<Rightarrow> fold (load_at_startup w) (e_manifests e1) e1)"

definition load_plugins_from_dir :: "plugin_world \<Rightarrow> engine \<Rightarrow> string list \<times> engine" where
  "load_plugins_from_dir w e =
     (let e1 = scan_registry w e
      in fold (\<lambda>pid (ids, e).
            if row_enabled e pid = Some False then (ids, e)
            else (let (ok, e') = load_plugin w pid e in (if ok then ids @ [pid] else ids, e')))
          (map fst (e_manifests e1)) ([], e1))"

definition engine_shutdown :: "plugin_world \<Rightarrow> engine \<Rightarrow> engine" where
  "engine_shutdown w e =
     (let e1 = fold (unload_plugin w False) (remdups (map fst (e_wrappers e) @ map fst (e_instances e))) e
      in e1\<lparr>e_sched := sched_shutdown (w_resists w) (e_sched e1)\<rparr>)"

section \<open>The bus\<close>

definition bus_ok :: "hook_bus \<Rightarrow> bool" where
  "bus_ok b \<longleftrightarrow> dict_wf (hb_hooks b)"

lemma in_hook_subs:
  "bus_ok b \<Longrightarrow> (h, pn, i) \<in> set (hook_subs b) \<longleftrightarrow> (\<exists>f. (pn, f) \<in> set (hooks_of b h) \<and> fn_id f = i)"
  unfolding hook_subs_def hooks_of_def dict_get_def bus_ok_def dict_wf_def
  by (auto split: option.splits dest: map_of_SomeD) (force simp: map_of_eq_None_iff)+

lemma hooks_of_register [simp]:
  "hooks_of (Hook_Bus.register h f pn b) h' = (if h' = h then hooks_of b h @ [(pn, f)] else hooks_of b h')"
  by (simp add: Hook_Bus.register_def hooks_of_def py_dict)

lemma bus_ok_register [simp]: "bus_ok b \<Longrightarrow> bus_ok (Hook_Bus.register h f pn b)"
  by (simp add: bus_ok_def Hook_Bus.register_def)

lemma register_all_Nil [simp]: "register_all [] b = b"
  by (simp add: register_all_def)

lemma bus_ok_register_all [simp]: "bus_ok b \<Longrightarrow> bus_ok (register_all subs b)"
  by (induction subs arbitrary: b) (auto simp: register_all_def)

lemma hooks_of_register_all:
  "hooks_of (register_all subs b) h =
     hooks_of b h @ map (\<lambda>(_, pn, f). (pn, f)) (filter (\<lambda>(h', _). h' = h) subs)"
  by (induction subs arbitrary: b) (auto simp: register_all_def)

lemma hooks_of_unregister [simp]:
  "hooks_of (snd (Hook_Bus.unregister h pid b)) h' =
     (if h' = h then filter (\<lambda>x. fst x \<noteq> pid) (hooks_of b h) else hooks_of b h')"
  by (auto simp: Hook_Bus.unregister_def hooks_of_def dict_get_def Let_def py_dict split: option.splits)

lemma bus_ok_unregister [simp]: "bus_ok b \<Longrightarrow> bus_ok (snd (Hook_Bus.unregister h pid b))"
  by (auto simp: Hook_Bus.unregister_def bus_ok_def Let_def split: option.splits)

lemma hooks_of_unregister_fold:
  "hooks_of (fold (\<lambda>h b. snd (Hook_Bus.unregister h pid b)) hs b) h' =
     (if h' \<in> set hs then filter (\<lambda>x. fst x \<noteq> pid) (hooks_of b h') else hooks_of b h')"
  by (induction hs arbitrary: b) auto

lemma hooks_of_unregister_plugin [simp]:
  "hooks_of (unregister_plugin pid b) h = filter (\<lambda>x. fst x \<noteq> pid) (hooks_of b h)"
proof (cases "h \<in> set (map fst (get_hooks b))")
  case False
  then have "map_of (hb_hooks b) h = None" by (force simp: get_hooks_def map_of_eq_None_iff)
  then have "hooks_of b h = []" by (simp add: hooks_of_def dict_get_def)
  then show ?thesis by (simp add: unregister_plugin_def hooks_of_unregister_fold)
qed (simp add: unregister_plugin_def hooks_of_unregister_fold)

lemma bus_ok_unregister_plugin [simp]: "bus_ok b \<Longrightarrow> bus_ok (unregister_plugin pid b)"
proof -
  have "bus_ok b \<Longrightarrow> bus_ok (fold (\<lambda>h b. snd (Hook_Bus.unregister h pid b)) hs b)" for hs
    by (induction hs arbitrary: b) auto
  then show "bus_ok b \<Longrightarrow> bus_ok (unregister_plugin pid b)" by (simp add: unregister_plugin_def)
qed

lemma hooks_of_restore:
  assumes "bus_ok b"
  shows "hooks_of (restore_hooks before b) h = filter (\<lambda>(pn, f). (h, pn, fn_id f) \<in> set before) (hooks_of b h)"
proof -
  let ?g = "\<lambda>h subs. filter (\<lambda>(pn, f). (h, pn, fn_id f) \<in> set before) subs"
  have m: "map_of (map (\<lambda>(h, subs). (h, ?g h subs)) d) h = map_option (?g h) (map_of d h)" for d :: "(string \<times> (string \<times> hook_fn) list) list"
    by (induction d) auto
  have "distinct (map fst (map (\<lambda>(h, subs). (h, ?g h subs)) (hb_hooks b)))"
    using assms by (simp add: bus_ok_def dict_wf_def split_def comp_def)
  from map_of_filter_key [OF this] show ?thesis
    by (auto simp: restore_hooks_def hooks_of_def dict_get_def m split: option.splits)
qed

lemma bus_ok_restore [simp]: "bus_ok b \<Longrightarrow> bus_ok (restore_hooks before b)"
proof -
  assume "bus_ok b"
  then have "dict_wf (map (\<lambda>(h, subs). (h, filter (\<lambda>(pn, f). (h, pn, fn_id f) \<in> set before) subs)) (hb_hooks b))"
    by (simp add: bus_ok_def dict_wf_def split_def comp_def)
  then show ?thesis by (auto simp: bus_ok_def restore_hooks_def)
qed

section \<open>The swap and the database: what they change\<close>

lemma publish_invalidation_fields [simp]:
  "e_bus (publish_invalidation pid a x e) = e_bus e" "e_sched (publish_invalidation pid a x e) = e_sched e"
  "e_registrar (publish_invalidation pid a x e) = e_registrar e" "e_pages (publish_invalidation pid a x e) = e_pages e"
  "e_manifests (publish_invalidation pid a x e) = e_manifests e" "e_v2 (publish_invalidation pid a x e) = e_v2 e"
  "e_instances (publish_invalidation pid a x e) = e_instances e" "e_wrappers (publish_invalidation pid a x e) = e_wrappers e"
  "e_modules (publish_invalidation pid a x e) = e_modules e" "e_states (publish_invalidation pid a x e) = e_states e"
  "e_kill (publish_invalidation pid a x e) = e_kill e" "e_boot_id (publish_invalidation pid a x e) = e_boot_id e"
  "e_revision (publish_invalidation pid a x e) = e_revision e" "e_allow (publish_invalidation pid a x e) = e_allow e"
  "e_sandbox (publish_invalidation pid a x e) = e_sandbox e" "e_db (publish_invalidation pid a x e) = e_db e"
  "e_audit (publish_invalidation pid a x e) = e_audit e"
  by (simp_all add: publish_invalidation_def)

lemma fold_publish_fields:
  assumes "\<And>pid a e. f (publish_invalidation pid a [] e) = f e"
  shows "f (fold (\<lambda>(pid, action). publish_invalidation pid action []) xs e) = f e"
  using assms by (induction xs arbitrary: e) auto

lemma swap_registry_fields [simp]:
  "e_bus (swap_registry r e) = e_bus e" "e_sched (swap_registry r e) = e_sched e"
  "e_registrar (swap_registry r e) = e_registrar e" "e_pages (swap_registry r e) = e_pages e"
  "e_manifests (swap_registry r e) = e_manifests e"
  "e_instances (swap_registry r e) = e_instances e" "e_wrappers (swap_registry r e) = e_wrappers e"
  "e_modules (swap_registry r e) = e_modules e" "e_states (swap_registry r e) = e_states e"
  "e_kill (swap_registry r e) = e_kill e" "e_boot_id (swap_registry r e) = e_boot_id e"
  "e_revision (swap_registry r e) = e_revision e + 1" "e_sandbox (swap_registry r e) = e_sandbox e"
  "e_db (swap_registry r e) = e_db e" "e_audit (swap_registry r e) = e_audit e"
  "e_v2 (swap_registry r e) = (case r of None \<Rightarrow> e_v2 e | Some pid \<Rightarrow> AList.delete pid (e_v2 e))"
  "e_allow (swap_registry r e) = rebuild_allowlist e"
  by (auto simp: swap_registry_def Let_def fold_publish_fields rebuild_allowlist_def split: option.split)

lemma db_set_fields [simp]:
  "e_bus (db_set pid st en e) = e_bus e" "e_sched (db_set pid st en e) = e_sched e"
  "e_registrar (db_set pid st en e) = e_registrar e" "e_pages (db_set pid st en e) = e_pages e"
  "e_manifests (db_set pid st en e) = e_manifests e" "e_v2 (db_set pid st en e) = e_v2 e"
  "e_instances (db_set pid st en e) = e_instances e" "e_wrappers (db_set pid st en e) = e_wrappers e"
  "e_modules (db_set pid st en e) = e_modules e" "e_states (db_set pid st en e) = e_states e"
  "e_kill (db_set pid st en e) = e_kill e" "e_revision (db_set pid st en e) = e_revision e"
  "e_allow (db_set pid st en e) = e_allow e" "e_audit (db_set pid st en e) = e_audit e"
  "e_events (db_set pid st en e) = e_events e" "e_sandbox (db_set pid st en e) = e_sandbox e"
  by (simp_all add: db_set_def)

lemma set_state_fields [simp]:
  "e_bus (set_state pid st k e) = e_bus e" "e_sched (set_state pid st k e) = e_sched e"
  "e_registrar (set_state pid st k e) = e_registrar e" "e_pages (set_state pid st k e) = e_pages e"
  "e_manifests (set_state pid st k e) = e_manifests e" "e_v2 (set_state pid st k e) = e_v2 e"
  "e_instances (set_state pid st k e) = e_instances e" "e_wrappers (set_state pid st k e) = e_wrappers e"
  "e_modules (set_state pid st k e) = e_modules e" "e_kill (set_state pid st k e) = e_kill e"
  "e_revision (set_state pid st k e) = e_revision e" "e_allow (set_state pid st k e) = e_allow e"
  "e_db (set_state pid st k e) = e_db e" "e_audit (set_state pid st k e) = e_audit e"
  "e_sandbox (set_state pid st k e) = e_sandbox e"
  "map_of (e_states (set_state pid st k e)) p =
     (if p = pid then Some \<lparr>ps_status = st, ps_loader = k\<rparr> else map_of (e_states e) p)"
  by (simp_all add: set_state_def py_dict)

lemma register_pages_fields [simp]:
  "e_bus (register_pages pid mf e) = e_bus e" "e_sched (register_pages pid mf e) = e_sched e"
  "e_registrar (register_pages pid mf e) = e_registrar e" "e_manifests (register_pages pid mf e) = e_manifests e"
  "e_v2 (register_pages pid mf e) = e_v2 e" "e_instances (register_pages pid mf e) = e_instances e"
  "e_wrappers (register_pages pid mf e) = e_wrappers e" "e_modules (register_pages pid mf e) = e_modules e"
  "e_states (register_pages pid mf e) = e_states e" "e_kill (register_pages pid mf e) = e_kill e"
  "e_revision (register_pages pid mf e) = e_revision e" "e_db (register_pages pid mf e) = e_db e"
  "e_allow (register_pages pid mf e) = e_allow e" "e_audit (register_pages pid mf e) = e_audit e"
  by (simp_all add: register_pages_def)

end
