(* ===== verification/Plugin_Safety.thy ===== *)
theory Plugin_Safety
  imports Plugin_Engine
begin

text \<open>
  What the plugin engine guarantees: a successful load subscribes only under the
  plugin's own names, a rejected one leaves no trace on the bus, unloading removes
  every contribution of the plugin and nothing of the others, the kill switch and
  shutdown do to the database what they should, and a plugin an administrator
  disabled is not loaded at start-up. The last section shows what the code does
  not guarantee.
\<close>

section \<open>Loading in process\<close>

lemma sweep_no_foreign_hook:
  assumes "sweep_namespace_violations pid inst md b before cmds = []" and "(h, pn, i) \<in> set (hook_subs b)"
    and "(h, pn, i) \<notin> set before"
  shows "pn \<in> set (plugin_id_forms pid)"
  using assms by (fastforce simp: sweep_namespace_violations_def filter_empty_conv)

lemma load_inprocess_OkE:
  assumes "load_inprocess w pid e = (Inr u, e')"
  obtains md e1 where "w_module w pid = Some md" "\<not> pm_exec_raises md"
    "\<forall>c \<in> set (pm_classes md). pc_plugin_id c = pid" "run_registration pid md e = (Inr (), e1)"
    "sweep_namespace_violations pid (map_of (e_instances e1) pid) (module_name_of pid) (e_bus e1) (hook_subs (e_bus e))
       (command_names pid (map_of (e_instances e1) pid) md) = []"
    "e' = e1\<lparr>e_modules := AList.update pid md (e_modules e1)\<rparr>"
  using assms
  by (auto simp: load_inprocess_def Let_def find_None_iff split: option.splits if_splits prod.splits sum.splits)


section \<open>Rollback\<close>

lemma load_inprocess_RejectE:
  assumes "load_inprocess w pid e = (Inl (Namespace_Violation vs), e')"
  obtains md e1 where "w_module w pid = Some md" "run_registration pid md e = (Inr (), e1)"
    "e' = rollback_inprocess_load (w_resists w) pid (map_of (e_instances e1) pid) (hook_subs (e_bus e)) e1"
proof -
  from assms obtain md where md: "w_module w pid = Some md" "\<not> pm_exec_raises md"
    "List.find (\<lambda>c. pc_plugin_id c \<noteq> pid) (pm_classes md) = None"
    by (auto simp: load_inprocess_def Let_def split: option.splits if_splits)
  obtain r e1 where r: "run_registration pid md e = (r, e1)" by fastforce
  have "fst (run_registration pid md e) \<noteq> Inl (Namespace_Violation vs)"
    by (auto simp: run_registration_def register_instance_def Let_def split: option.splits)
  with r assms md have "r = Inr ()" by (cases r) (auto simp: load_inprocess_def Let_def)
  with that [of md e1] r assms md show ?thesis
    by (auto simp: load_inprocess_def Let_def split: if_splits)
qed

definition new_subs :: "string \<Rightarrow> plugin_module \<Rightarrow> (string \<times> string \<times> hook_fn) list" where
  \<comment> \<open>what the module's registration subscribes\<close>
  "new_subs pid md =
     (case pm_registered md of
        Some cls \<Rightarrow> instance_subs pid cls
      | None \<Rightarrow> (case pm_register md of None \<Rightarrow> [] | Some (subs, _) \<Rightarrow> subs))"

lemma run_registration_bus:
  "run_registration pid md e = (Inr u, e1) \<Longrightarrow> e_bus e1 = register_all (new_subs pid md) (e_bus e)"
  by (auto simp: run_registration_def register_instance_def new_subs_def Let_def split: option.splits if_splits)

lemma run_registration_frame:
  "run_registration pid md e = (r, e1) \<Longrightarrow>
   e_states e1 = e_states e \<and> e_db e1 = e_db e \<and> e_allow e1 = e_allow e \<and> e_revision e1 = e_revision e \<and>
   e_kill e1 = e_kill e \<and> e_pages e1 = e_pages e \<and> e_wrappers e1 = e_wrappers e \<and> e_modules e1 = e_modules e \<and>
   e_manifests e1 = e_manifests e \<and> e_sched e1 = e_sched e \<and> e_v2 e1 = e_v2 e \<and> e_sandbox e1 = e_sandbox e \<and>
   e_events e1 = e_events e \<and> e_audit e1 = e_audit e"
  by (auto simp: run_registration_def register_instance_def Let_def split: option.splits if_splits)


section \<open>Unloading\<close>

lemma fold_delete_map_of:
  "map_of (fold AList.delete ks d) k = (if k \<in> set ks then None else map_of d k)"
  by (induction ks arbitrary: d) (auto simp: py_dict)

lemma unload_fields [simp]:
  "e_bus (unload_plugin w p pid e) = unregister_plugin pid (e_bus e)"
  "e_sched (unload_plugin w p pid e) = sched_stop (w_resists w) pid (e_sched e)"
  "e_registrar (unload_plugin w p pid e) = unmount pid (e_registrar e)"
  "e_pages (unload_plugin w p pid e) = page_unregister pid (e_pages e)"
  "e_wrappers (unload_plugin w p pid e) = AList.delete pid (e_wrappers e)"
  "e_instances (unload_plugin w p pid e) = AList.delete pid (e_instances e)"
  "e_states (unload_plugin w p pid e) = fold AList.delete (plugin_id_forms pid) (e_states e)"
  "e_modules (unload_plugin w p pid e) = e_modules e"
  "e_kill (unload_plugin w p pid e) = e_kill e"
  "e_audit (unload_plugin w p pid e) = e_audit e"
  "e_manifests (unload_plugin w p pid e) = e_manifests e"
  "e_revision (unload_plugin w p pid e) = e_revision e + (if was_served e pid then 1 else 0)"
  by (auto simp: unload_plugin_def Let_def detach_def)

lemma unload_db:
  "e_db (unload_plugin w p pid e) =
     (if p then e_db (db_set pid ''DISABLED'' 0 e) else e_db e)"
  by (auto simp: unload_plugin_def Let_def detach_def db_set_def)

lemma in_loaded_plugins: "pid \<in> set (loaded_plugins e) \<Longrightarrow> map_of (e_states e) pid \<noteq> None"
  by (auto simp: loaded_plugins_def dest: weak_map_of_SomeI)

lemma page_unregister_pages: "lp \<in> set (get_all_pages (page_unregister pid reg)) \<Longrightarrow> lp_plugin_id lp \<noteq> pid"
  by (auto simp: get_all_pages_def page_unregister_def AList.delete_eq)

text \<open>
  Unloading removes every contribution of the plugin and nothing of the
  others: no hook is subscribed under its name, and the subscriptions of other
  names stay in place and order; it has no scheduled task, mounted route, served
  page, subprocess or instance, and none of its identifier forms counts as
  loaded; the revision grows by one exactly when the plugin was served.
\<close>
theorem unload_complete:
  "let e' = unload_plugin w persist pid e
   in (\<forall>h. hooks_of (e_bus e') h = filter (\<lambda>x. fst x \<noteq> pid) (hooks_of (e_bus e) h)) \<and>
      \<not> has_tasks (e_sched e') pid \<and> get_mounted pid (e_registrar e') = [] \<and>
      (\<forall>lp \<in> set (get_all_pages (e_pages e')). lp_plugin_id lp \<noteq> pid) \<and>
      map_of (e_instances e') pid = None \<and> map_of (e_wrappers e') pid = None \<and>
      (\<forall>i \<in> set (plugin_id_forms pid). i \<notin> set (loaded_plugins e')) \<and>
      e_revision e' = e_revision e + (if was_served e pid then 1 else 0)"
proof -
  have "i \<notin> set (loaded_plugins (unload_plugin w persist pid e))" if "i \<in> set (plugin_id_forms pid)" for i
  proof
    assume "i \<in> set (loaded_plugins (unload_plugin w persist pid e))"
    from in_loaded_plugins [OF this] that show False by (simp add: fold_delete_map_of)
  qed
  moreover have "\<not> has_tasks (sched_stop (w_resists w) pid (e_sched e)) pid"
    unfolding has_tasks_iff stop_lookup by auto
  ultimately show ?thesis
    by (auto simp: Let_def py_dict get_mounted_def unmount_def dest: page_unregister_pages)
qed

section \<open>Other plugins are not touched\<close>

definition absent :: "string \<Rightarrow> engine \<Rightarrow> bool" where
  "absent p e \<longleftrightarrow> map_of (e_instances e) p = None \<and> map_of (e_wrappers e) p = None \<and>
     map_of (e_modules e) p = None \<and> map_of (e_states e) p = None"

lemma absent_run_registration: "absent p e \<Longrightarrow> p \<noteq> pid \<Longrightarrow> absent p (snd (run_registration pid md e))"
  by (auto simp: absent_def run_registration_def register_instance_def Let_def py_dict split: option.splits)

lemma absent_rollback: "absent p e \<Longrightarrow> absent p (rollback_inprocess_load r pid inst before e)"
  by (auto simp: absent_def rollback_inprocess_load_def py_dict)

lemma absent_load_inprocess: "absent p e \<Longrightarrow> p \<noteq> pid \<Longrightarrow> absent p (snd (load_inprocess w pid e))"
proof -
  assume a: "absent p e" and p: "p \<noteq> pid"
  have upd: "absent p (e1\<lparr>e_modules := AList.update pid md (e_modules e1)\<rparr>)" if "absent p e1" for e1 md
    using that p by (simp add: absent_def py_dict)
  have r: "absent p (snd (run_registration pid md e))" for md by (rule absent_run_registration [OF a p])
  then have "absent p e1" if "run_registration pid md e = (x, e1)" for md x e1 using that by (metis snd_conv)
  then show ?thesis
    using a upd absent_rollback
    by (auto simp: load_inprocess_def Let_def split: option.split prod.split sum.split)
qed

lemma absent_load_sandbox: "absent p e \<Longrightarrow> p \<noteq> pid \<Longrightarrow> absent p (snd (load_sandbox w pid mf e))"
  by (auto simp: absent_def load_sandbox_def Let_def py_dict split: option.split)

lemma absent_ensure_v2: "absent p (ensure_v2 w pid mf e) = absent p e"
  by (auto simp: absent_def ensure_v2_def split: option.split)

lemma absent_commit:
  "p \<noteq> pid \<Longrightarrow>
   absent p (db_set pid st en (set_state pid s k (swap_registry r (register_pages pid mf e)))) = absent p e"
  by (simp add: absent_def)

lemma absent_load: "absent p e \<Longrightarrow> p \<noteq> pid \<Longrightarrow> absent p (snd (load w pid mf e))"
proof -
  assume a: "absent p e" and p: "p \<noteq> pid"
  have "absent p (snd (load_kind w k pid mf (ensure_v2 w pid mf e)))" for k
    using a p by (simp add: load_kind_def absent_load_sandbox absent_load_inprocess absent_ensure_v2)
  then have "absent p e2" if "load_kind w k pid mf (ensure_v2 w pid mf e) = (x, e2)" for k x e2 using that by (metis snd_conv)
  then show ?thesis using p by (auto simp: load_def Let_def absent_commit split: prod.split sum.split)
qed

lemma load_db:
  "e_db (snd (load w pid mf e)) = e_db e \<or> e_db (snd (load w pid mf e)) = e_db (db_set pid ''ACTIVE'' 1 e)"
proof -
  have r: "e_db (rollback_inprocess_load rs pid i b e1) = e_db e1" for rs i b e1 by (simp add: rollback_inprocess_load_def)
  have 1: "e_db e2 = e_db e1" if "load_inprocess w pid e1 = (x, e2)" for x e1 e2
    using that run_registration_frame r
    by (auto simp: load_inprocess_def Let_def split: option.splits if_splits prod.splits sum.splits)
  have 2: "e_db e2 = e_db e1" if "load_sandbox w pid mf e1 = (x, e2)" for x e1 e2
    using that by (auto simp: load_sandbox_def Let_def split: option.splits if_splits)
  have 3: "e_db (ensure_v2 w pid mf e) = e_db e" by (auto simp: ensure_v2_def split: option.split)
  have "e_db e2 = e_db e" if "load_kind w k pid mf (ensure_v2 w pid mf e) = (x, e2)" for k x e2
    using that 1 2 3 by (auto simp: load_kind_def split: if_splits)
  then show ?thesis by (auto simp: load_def Let_def db_set_def split: prod.split sum.split)
qed

lemma row_enabled_db_set:
  "row_enabled (db_set pid st en e) p = (if p = pid then map_option (\<lambda>_. en \<noteq> 0) (row_enabled e p) else row_enabled e p)"
proof (cases "e_db e")
  case (Some rows)
  then show ?thesis
    using sql_fetchone_update_key_all [of pr_id "\<lambda>r. r\<lparr>pr_status := st, pr_enabled := en\<rparr>" pid rows]
      sql_fetchone_update_other_key_all [of pr_id "\<lambda>r. r\<lparr>pr_status := st, pr_enabled := en\<rparr>" p pid rows]
    by (auto simp: row_enabled_def db_set_def option.map_comp comp_def)
qed (simp add: row_enabled_def db_set_def)

lemma row_enabled_cong: "e_db e = e_db e' \<Longrightarrow> row_enabled e p = row_enabled e' p"
  by (simp add: row_enabled_def)

lemma row_enabled_load: "p \<noteq> pid \<Longrightarrow> row_enabled (snd (load w pid mf e)) p = row_enabled e p"
  using load_db [of w pid mf e] row_enabled_cong [of "snd (load w pid mf e)" e p]
    row_enabled_cong [of "snd (load w pid mf e)" "db_set pid ''ACTIVE'' 1 e" p] row_enabled_db_set [of pid "''ACTIVE''" 1 e p]
  by auto

section \<open>Start-up\<close>

definition disabled_inv :: "string \<Rightarrow> engine \<Rightarrow> bool" where
  "disabled_inv p e \<longleftrightarrow> absent p e \<and> row_enabled e p = Some False"

lemma startup_other:
  assumes "disabled_inv p e" and "fst pm \<noteq> p"
  shows "disabled_inv p (load_at_startup w pm e)"
proof -
  define e1 where "e1 = (if row_enabled e (fst pm) = None
      then e\<lparr>e_db := map_option (\<lambda>rows. rows @ [\<lparr>pr_id = fst pm, pr_enabled = 1, pr_status = ''DISCOVERED''\<rparr>]) (e_db e)\<rparr> else e)"
  have "absent p e1" using assms(1) by (simp add: e1_def disabled_inv_def absent_def)
  moreover have "row_enabled e1 p = Some False"
    using assms by (auto simp: e1_def disabled_inv_def row_enabled_def sql_fetchone_append simp del: sql_fetchone_None_iff
        split: option.splits)
  ultimately have d1: "disabled_inv p e1" by (simp add: disabled_inv_def)
  have ld: "disabled_inv p e2" if "load w (fst pm) (snd pm) e1 = (x, e2)" for x e2
    using d1 assms(2) absent_load [of p e1 "fst pm" w "snd pm"] row_enabled_load [of p "fst pm" w "snd pm" e1] that
    by (auto simp: disabled_inv_def)
  have k: "sql_fetchone (\<lambda>r. pr_id r = p) (sql_update (\<lambda>r. pr_id r = fst pm) (\<lambda>r. r\<lparr>pr_status := ''ERROR''\<rparr>) rs) =
      sql_fetchone (\<lambda>r. pr_id r = p) rs" for rs
    using assms(2) by (intro sql_fetchone_update_other_key_all) auto
  have err: "disabled_inv p (e3\<lparr>e_db := map_option (sql_update (\<lambda>r. pr_id r = fst pm) (\<lambda>r. r\<lparr>pr_status := ''ERROR''\<rparr>)) (e_db e3)\<rparr>)"
    if "e3 = set_state (fst pm) Errored Class_Based e2" "disabled_inv p e2" for e2 e3
    using that assms(2) by (auto simp: disabled_inv_def absent_def row_enabled_def k split: option.splits)
  show ?thesis
    using d1 ld err by (auto simp: load_at_startup_def Let_def e1_def [symmetric] split: prod.split sum.split)
qed

lemma startup_self: "disabled_inv (fst pm) e \<Longrightarrow> load_at_startup w pm e = e"
  by (simp add: load_at_startup_def Let_def disabled_inv_def)

text \<open>
  A plugin an administrator disabled stays off: when the row of a plugin says
  disabled, start-up loads nothing of it, whatever the scan discovers and
  whatever the other plugins do while loading, and leaves it disabled.
\<close>
theorem startup_respects_disabled:
  assumes "row_enabled e p = Some False" and "absent p e"
  shows "absent p (initialize w e) \<and> row_enabled (initialize w e) p = Some False \<and> \<not> p \<in> set (loaded_plugins (initialize w e))"
proof -
  have d: "disabled_inv p (scan_registry w e)"
    using assms by (simp add: disabled_inv_def absent_def scan_registry_def row_enabled_def)
  have "disabled_inv p (fold (load_at_startup w) pms e0)" if "disabled_inv p e0" for pms e0
    using that startup_other startup_self by (induction pms arbitrary: e0) (auto, metis)
  moreover have "e_db (scan_registry w e) \<noteq> None" using d by (auto simp: disabled_inv_def row_enabled_def split: option.splits)
  ultimately have "disabled_inv p (initialize w e)" using d by (auto simp: initialize_def Let_def)
  then show ?thesis using in_loaded_plugins [of p "initialize w e"] by (auto simp: disabled_inv_def absent_def)
qed

section \<open>Shutdown and the kill switch\<close>

text \<open>
  A clean shutdown is not an operator's decision: it unloads every instance
  and subprocess and stops every scheduled task, and leaves the plugin table as
  it is, so that the same plugins are loaded at the next start.
\<close>
theorem shutdown_preserves_db:
  "e_db (engine_shutdown w e) = e_db e \<and> e_instances (engine_shutdown w e) = [] \<and> e_wrappers (engine_shutdown w e) = []"
proof -
  have f: "e_db (fold (unload_plugin w False) ps e0) = e_db e0 \<and>
      e_instances (fold (unload_plugin w False) ps e0) = filter (\<lambda>(k, _). k \<notin> set ps) (e_instances e0) \<and>
      e_wrappers (fold (unload_plugin w False) ps e0) = filter (\<lambda>(k, _). k \<notin> set ps) (e_wrappers e0)" for ps e0
    by (induction ps arbitrary: e0) (auto simp: unload_db AList.delete_eq intro: filter_cong)
  show ?thesis by (auto simp: engine_shutdown_def Let_def f filter_empty_conv rev_image_eqI)
qed

lemma audit_log_fields [simp]:
  "e_bus (audit_log a e) = e_bus e" "e_states (audit_log a e) = e_states e" "e_kill (audit_log a e) = e_kill e"
  "e_revision (audit_log a e) = e_revision e" "e_db (audit_log a e) = e_db e" "e_v2 (audit_log a e) = e_v2 e"
  "e_instances (audit_log a e) = e_instances e" "e_wrappers (audit_log a e) = e_wrappers e"
  "e_audit (audit_log a e) = e_audit e @ (if e_db e = None then [] else [a])"
  by (auto simp: audit_log_def split: option.split)

lemma disable_fields:
  "e_kill (disable_plugin w now pid hard reason user e) =
     AList.update pid \<lparr>kl_hard = hard, kl_disabled_at = now, kl_reason = reason, kl_user = user\<rparr> (e_kill e)"
  "e_bus (disable_plugin w now pid hard reason user e) = unregister_plugin pid (e_bus e)"
  "e_states (disable_plugin w now pid hard reason user e) = fold AList.delete (plugin_id_forms pid) (e_states e)"
  "e_db (disable_plugin w now pid hard reason user e) =
     e_db (db_set pid ''DISABLED'' 0 (db_set pid ''DISABLED'' 0 e))"
  "e_revision (disable_plugin w now pid hard reason user e) = e_revision e + (if was_served e pid then 2 else 1)"
  "e_audit (disable_plugin w now pid hard reason user e) =
     e_audit e @ (if e_db e = None then [] else [Disable_Plugin user pid hard reason])"
  "map_of (e_v2 (disable_plugin w now pid hard reason user e)) pid = None"
  by (auto simp: disable_plugin_def Let_def unload_db was_served_def db_set_def py_dict)

text \<open>
  The kill switch: afterwards the plugin is marked, none of its identifier
  forms counts as loaded, no hook is subscribed under its name, its manifest is
  no longer served, its row if any is disabled, the revision has grown, and with
  a database the audit log has exactly one new entry, naming the user, the mode
  and the reason.
\<close>
theorem kill_switch_effective:
  "let e' = disable_plugin w now pid hard reason user e
   in is_kill_switched e' pid \<and> (\<forall>i \<in> set (plugin_id_forms pid). i \<notin> set (loaded_plugins e')) \<and>
      (\<forall>h x. x \<in> set (hooks_of (e_bus e') h) \<longrightarrow> fst x \<noteq> pid) \<and> map_of (e_v2 e') pid = None \<and>
      row_enabled e' pid \<noteq> Some True \<and> e_revision e < e_revision e' \<and>
      e_audit e' = e_audit e @ (if e_db e = None then [] else [Disable_Plugin user pid hard reason])"
proof -
  define e' where "e' = disable_plugin w now pid hard reason user e"
  note f = disable_fields [of w now pid hard reason user e, folded e'_def]
  have "i \<notin> set (loaded_plugins e')" if "i \<in> set (plugin_id_forms pid)" for i
    using in_loaded_plugins [of i e'] that by (auto simp: f(3) fold_delete_map_of)
  moreover have "row_enabled e' pid \<noteq> Some True"
    unfolding row_enabled_cong [OF f(4)] row_enabled_db_set by (cases "row_enabled e pid") auto
  ultimately show ?thesis
    unfolding e'_def [symmetric] Let_def is_kill_switched_def f(1,2,5,6,7) by (auto simp: py_dict)
qed

section \<open>A small world\<close>

text \<open>
  Two plugins for the witnesses: \<open>docker\<close>, class-based with one hook and one
  route, and \<open>evil\<close>, a legacy module that subscribes under docker's name and
  declares a module-level route.
\<close>

definition demo_fn :: "nat \<Rightarrow> hook_fn" where
  "demo_fn i = \<lparr>fn_async = True, fn_body = (\<lambda>_. Returns JNull), fn_duration = (\<lambda>_. 0), fn_id = i\<rparr>"

definition demo_attr :: "string \<Rightarrow> class_attr" where
  "demo_attr n = \<lparr>ca_name = n, ca_callable = True, ca_route = None, ca_hook = None, ca_sched = None\<rparr>"

definition docker_class :: plugin_class where
  "docker_class =
     \<lparr>pc_name = ''DockerPlugin'', pc_plugin_id = ''docker'', pc_module = ''master.plugins.docker'',
      pc_attrs = [hook_decorator ''on_metrics'' (demo_attr ''on_m''), route_decorator ''/logs'' ''GET'' None (demo_attr ''logs'')],
      pc_fn = (\<lambda>_. demo_fn 1), pc_init_raises = False\<rparr>"

definition docker_module :: plugin_module where
  "docker_module =
     \<lparr>pm_exec_raises = False, pm_classes = [docker_class], pm_registered = Some docker_class, pm_register = None, pm_vars = []\<rparr>"

definition evil_module :: plugin_module where
  "evil_module =
     \<lparr>pm_exec_raises = False, pm_classes = [], pm_registered = None,
      pm_register = Some ([(''on_metrics'', ''docker'', demo_fn 2)], False),
      pm_vars = [route_decorator ''/x'' ''POST'' None (demo_attr ''x'')]\<rparr>"

definition tool_module :: plugin_module where
  "tool_module = evil_module\<lparr>pm_register := Some ([(''on_metrics'', ''tool'', demo_fn 3)], False)\<rparr>"

definition demo_manifest :: "string \<Rightarrow> plugin_manifest" where
  "demo_manifest pid =
     \<lparr>m_schema_version = None, m_id = pid, m_name = pid, m_version = ''1.0.0'', m_loader = None, m_routes = [],
      m_hooks = [], m_database = [], m_scheduler = [], m_pages = [], m_trusted = True, m_external_auth_domains = None\<rparr>"

definition demo_world :: plugin_world where
  "demo_world =
     \<lparr>w_module = map_of [(''docker'', docker_module), (''evil'', evil_module), (''tool'', tool_module)],
      w_sandbox = (\<lambda>_. None), w_proxy = (\<lambda>_ _. demo_fn 0), w_wrapper_attr = (\<lambda>_. False),
      w_discovered = map (\<lambda>p. (p, demo_manifest p)) [''docker'', ''evil'', ''tool''], w_discovered_v2 = [],
      w_derive_v2 = (\<lambda>_. None), w_resists = (\<lambda>_. False)\<rparr>"

definition demo_engine :: engine where
  "demo_engine =
     \<lparr>e_bus = new_hook_bus, e_sched = new_scheduler, e_registrar = \<lparr>app_routes = [], mounted_routes = []\<rparr>,
      e_pages = [], e_manifests = [], e_v2 = [], e_instances = [], e_wrappers = [], e_modules = [], e_states = [],
      e_kill = [], e_boot_id = ''b'', e_revision = 0, e_allow = [], e_sandbox = True,
      e_db = Some [\<lparr>pr_id = ''evil'', pr_enabled = 0, pr_status = ''DISABLED''\<rparr>],
      e_events = new_event_bus, e_audit = []\<rparr>"


definition docker_engine :: engine where
  "docker_engine = snd (load_inprocess demo_world ''docker'' demo_engine)"


theorem unload_complete_witness:
  "\<not> has_tasks (e_sched (unload_plugin demo_world True ''docker'' docker_engine)) ''docker'' \<and>
   e_revision (unload_plugin demo_world True ''docker'' docker_engine) = e_revision docker_engine + 1"
proof -
  have "was_served docker_engine ''docker''" unfolding docker_engine_def by code_simp
  then show ?thesis using unload_complete [of demo_world True "''docker''" docker_engine] by (simp add: Let_def)
qed

theorem startup_respects_disabled_witness:
  "absent ''evil'' (initialize demo_world demo_engine) \<and> \<not> ''evil'' \<in> set (loaded_plugins (initialize demo_world demo_engine))"
proof -
  have "row_enabled demo_engine ''evil'' = Some False" by (simp add: demo_engine_def row_enabled_def)
  moreover have "absent ''evil'' demo_engine" by (simp add: demo_engine_def absent_def)
  ultimately show ?thesis using startup_respects_disabled by blast
qed

theorem kill_switch_effective_witness:
  "is_kill_switched (disable_plugin demo_world 5 ''docker'' True ''cve'' ''root'' docker_engine) ''docker''"
  using kill_switch_effective [of demo_world 5 "''docker''" True "''cve''" "''root''" docker_engine]
  unfolding Let_def by blast

section \<open>What is not guaranteed\<close>

text \<open>
  Unloading leaves the module of a plugin in the table the command allowlist is
  built from: a module-level command is still listed afterwards.
\<close>

lemma unload_keeps_module_commands:
  "map fst (e_allow (unload_plugin demo_world True ''tool'' (snd (load demo_world ''tool'' (demo_manifest ''tool'') demo_engine)))) =
     [''tool.x'']"
  by code_simp

text \<open>
  A legacy module that raises at the end of \<open>register\<close> is cleaned up by its own
  name only: a subscription under another plugin's name stays on the bus.
\<close>

lemma raising_register_leaks_foreign_hook:
  "hook_subs (e_bus (snd (load_manifest
      (demo_world\<lparr>w_module := map_of [(''evil'', evil_module\<lparr>pm_register := Some ([(''on_metrics'', ''docker'', demo_fn 2)], True)\<rparr>)]\<rparr>)
      (demo_manifest ''evil'') demo_engine))) = [(''on_metrics'', ''docker'', 2)]"
  by code_simp

text \<open>
  Loading does not consult the kill switch: a plugin that is switched off can be
  loaded by the ordinary path and is then active and still marked.
\<close>

lemma load_ignores_kill_switch:
  "let e = snd (load_plugin demo_world ''docker'' (disable_plugin demo_world 5 ''docker'' True ''cve'' ''root'' demo_engine))
   in is_kill_switched e ''docker'' \<and> ''docker'' \<in> set (loaded_plugins e)"
  by code_simp

text \<open>
  A class-based plugin with a scheduled method cannot be loaded: the collected
  task has no name.
\<close>

lemma scheduled_plugin_rejected:
  "collect_scheduled (pc_attrs cls) \<noteq> [] \<Longrightarrow> fst (register_instance pid cls e) = Inl Task_Without_Name"
  by (simp add: register_instance_def Let_def)

text \<open>
  Re-enabling reports success whatever the load did: the row is ACTIVE and
  enabled although the entry file is missing and nothing is loaded.
\<close>

lemma enable_reports_active_after_failed_load:
  "let e = enable_plugin (demo_world\<lparr>w_module := (\<lambda>_. None)\<rparr>) ''evil''
             (disable_plugin demo_world 5 ''evil'' False [] [] demo_engine)
   in row_enabled e ''evil'' = Some True \<and> loaded_plugins e = []"
  by code_simp

text \<open>An \<open>updated\<close> invalidation is never sent: the events of a load cover new command names only.\<close>

lemma load_never_updated:
  "(pid, action) \<in> set (affected_plugins None before allow) \<Longrightarrow> action = ''loaded''"
proof -
  have "\<forall>(p, a) \<in> set (fold (\<lambda>(n, c). AList.update (ce_plugin_id c) (if n \<in> set before then ''updated'' else ''loaded'')) xs d). a = ''loaded''"
    if "\<forall>(n, c) \<in> set xs. n \<notin> set before" "\<forall>(p, a) \<in> set d. a = ''loaded''" for xs :: "(string \<times> command_entry) list" and d
    using that
  proof (induction xs arbitrary: d)
    case (Cons x xs)
    have "set (AList.update k ''loaded'' d) \<subseteq> insert (k, ''loaded'') (set d)" for k by (induction d) auto
    then have "\<forall>(p, a) \<in> set (AList.update (ce_plugin_id (snd x)) ''loaded'' d). a = ''loaded''" using Cons.prems(2) by fastforce
    then show ?case using Cons.IH Cons.prems(1) by (cases x) auto
  qed simp
  from this [of "filter (\<lambda>(n, c). n \<notin> set before) allow" "[]"]
  show "(pid, action) \<in> set (affected_plugins None before allow) \<Longrightarrow> action = ''loaded''"
    by (auto simp: affected_plugins_def)
qed

end
