(* ===== verification/Single_Flight.thy ===== *)
theory Single_Flight
  imports Py_Prelude
begin

text \<open>
  Duplicate suppression of in-flight work (\<open>src/master/core/single_flight.py\<close>).
  A future is a number, \<open>futures\<close> its state. The section under the lock is one
  step (\<open>enter\<close>), the completion of the leader's function a second
  (\<open>leader_done\<close>), the \<open>finally\<close> block, which takes the lock again, a third
  (\<open>leave\<close>); a follower returns when the future is done, and a follower that is
  cancelled cancels the future it awaits, as \<open>Task.cancel()\<close> does with the
  future a task waits for. All callers run on one event loop.
\<close>

section \<open>State and steps\<close>

datatype 'a outcome_of = Value 'a | Exception string | Cancelled

record 'a single_flight =
  in_flight :: "(string, nat) dict"
  futures :: "nat \<Rightarrow> 'a outcome_of option" \<comment> \<open>None while pending\<close>
  next_future :: nat

datatype role = Leader nat | Follower nat

definition new_single_flight :: "'a single_flight" where
  "new_single_flight = \<lparr>in_flight = [], futures = (\<lambda>_. None), next_future = 0\<rparr>"

definition fut_done :: "'a single_flight \<Rightarrow> nat \<Rightarrow> bool" where
  "fut_done sf f \<longleftrightarrow> futures sf f \<noteq> None"

definition create_future :: "string \<Rightarrow> 'a single_flight \<Rightarrow> role \<times> 'a single_flight" where
  "create_future key sf =
     (let f = next_future sf
      in (Leader f, sf\<lparr>next_future := f + 1, futures := (futures sf)(f := None),
            in_flight := AList.update key f (in_flight sf)\<rparr>))"

definition enter :: "string \<Rightarrow> 'a single_flight \<Rightarrow> role \<times> 'a single_flight" where
  "enter key sf =
     (case map_of (in_flight sf) key of
        Some f \<Rightarrow> if fut_done sf f then create_future key sf else (Follower f, sf)
      | None \<Rightarrow> create_future key sf)"

definition set_future :: "nat \<Rightarrow> 'a outcome_of \<Rightarrow> 'a single_flight \<Rightarrow> 'a single_flight" where
  "set_future f r sf = (if fut_done sf f then sf else sf\<lparr>futures := (futures sf)(f := Some r)\<rparr>)"

definition leader_done :: "nat \<Rightarrow> 'a outcome_of \<Rightarrow> 'a single_flight \<Rightarrow> 'a single_flight" where
  \<comment> \<open>\<open>fn()\<close> returned or raised: the future gets the outcome unless it is done already\<close>
  "leader_done f r sf = set_future f r sf"

definition leave :: "string \<Rightarrow> nat \<Rightarrow> 'a single_flight \<Rightarrow> 'a single_flight" where
  "leave key f sf =
     (if map_of (in_flight sf) key = Some f then sf\<lparr>in_flight := AList.delete key (in_flight sf)\<rparr> else sf)"

definition follower_cancelled :: "nat \<Rightarrow> 'a single_flight \<Rightarrow> 'a single_flight" where
  "follower_cancelled f sf = set_future f Cancelled sf"

section \<open>Callers\<close>

text \<open>
  The tasks inside \<open>run\<close>: a leader executing the function of its key, a leader
  past it, a follower, and a task that has returned or raised an outcome.
\<close>

datatype 'a task =
    Executing string nat
  | Finishing string nat "'a outcome_of"
  | Waiting string nat
  | Returned string "'a outcome_of"

record 'a flight_world =
  flight :: "'a single_flight"
  tasks :: "nat \<Rightarrow> 'a task option"

definition start_world :: "'a flight_world \<Rightarrow> bool" where
  "start_world w \<longleftrightarrow> w = \<lparr>flight = new_single_flight, tasks = (\<lambda>_. None)\<rparr>"

definition begin_run :: "nat \<Rightarrow> string \<Rightarrow> 'a flight_world \<Rightarrow> 'a flight_world" where
  "begin_run i key w =
     (case enter key (flight w) of
        (Leader f, sf) \<Rightarrow> w\<lparr>flight := sf, tasks := (tasks w)(i \<mapsto> Executing key f)\<rparr>
      | (Follower f, sf) \<Rightarrow> w\<lparr>flight := sf, tasks := (tasks w)(i \<mapsto> Waiting key f)\<rparr>)"

inductive flight_step :: "bool \<Rightarrow> 'a flight_world \<Rightarrow> 'a flight_world \<Rightarrow> bool" for cancels :: bool where
  start_run: "tasks w i = None \<Longrightarrow> flight_step cancels w (begin_run i key w)"
| fn_done: "tasks w i = Some (Executing key f) \<Longrightarrow>
    flight_step cancels w (w\<lparr>flight := leader_done f r (flight w), tasks := (tasks w)(i \<mapsto> Finishing key f r)\<rparr>)"
| cleanup: "tasks w i = Some (Finishing key f r) \<Longrightarrow>
    flight_step cancels w (w\<lparr>flight := leave key f (flight w), tasks := (tasks w)(i \<mapsto> Returned key r)\<rparr>)"
| wake: "tasks w i = Some (Waiting key f) \<Longrightarrow> futures (flight w) f = Some r \<Longrightarrow>
    flight_step cancels w (w\<lparr>tasks := (tasks w)(i \<mapsto> Returned key r)\<rparr>)"
| cancel: "cancels \<Longrightarrow> tasks w i = Some (Waiting key f) \<Longrightarrow> \<not> fut_done (flight w) f \<Longrightarrow>
    flight_step cancels w (w\<lparr>flight := follower_cancelled f (flight w), tasks := (tasks w)(i \<mapsto> Returned key Cancelled)\<rparr>)"

definition executing :: "'a flight_world \<Rightarrow> string \<Rightarrow> nat set" where
  "executing w key = {i. \<exists>f. tasks w i = Some (Executing key f)}"

section \<open>One execution per key\<close>

definition flight_inv :: "'a flight_world \<Rightarrow> bool" where
  "flight_inv w \<longleftrightarrow>
     (\<forall>i key f. tasks w i = Some (Executing key f) \<longrightarrow>
        map_of (in_flight (flight w)) key = Some f \<and> \<not> fut_done (flight w) f \<and> f < next_future (flight w)) \<and>
     (\<forall>i j key key' f. tasks w i = Some (Executing key f) \<longrightarrow> tasks w j = Some (Executing key' f) \<longrightarrow> i = j) \<and>
     (\<forall>i key f r. tasks w i = Some (Finishing key f r) \<longrightarrow> fut_done (flight w) f \<and> f < next_future (flight w)) \<and>
     (\<forall>key f. map_of (in_flight (flight w)) key = Some f \<longrightarrow> f < next_future (flight w)) \<and>
     (\<forall>key key' f. map_of (in_flight (flight w)) key = Some f \<longrightarrow> map_of (in_flight (flight w)) key' = Some f \<longrightarrow> key = key')"

lemma flight_invD:
  assumes "flight_inv w"
  shows "tasks w i = Some (Executing key f) \<Longrightarrow> map_of (in_flight (flight w)) key = Some f"
    and "tasks w i = Some (Executing key f) \<Longrightarrow> \<not> fut_done (flight w) f"
    and "tasks w i = Some (Executing key f) \<Longrightarrow> f < next_future (flight w)"
    and "tasks w i = Some (Executing key f) \<Longrightarrow> tasks w j = Some (Executing key' f) \<Longrightarrow> i = j"
    and "tasks w i = Some (Finishing key f r) \<Longrightarrow> fut_done (flight w) f"
    and "tasks w i = Some (Finishing key f r) \<Longrightarrow> f < next_future (flight w)"
    and "map_of (in_flight (flight w)) key = Some f \<Longrightarrow> f < next_future (flight w)"
    and "map_of (in_flight (flight w)) key = Some f \<Longrightarrow> map_of (in_flight (flight w)) key' = Some f \<Longrightarrow> key = key'"
  using assms unfolding flight_inv_def by blast+

lemma executing_unique: "flight_inv w \<Longrightarrow> i \<in> executing w key \<Longrightarrow> j \<in> executing w key \<Longrightarrow> i = j"
  by (auto simp: executing_def) (metis flight_invD(1,4) option.inject)

lemma enter_cases:
  obtains (new) f where "enter key sf = (Leader f, snd (create_future key sf))" "f = next_future sf"
      "\<And>g. map_of (in_flight sf) key = Some g \<Longrightarrow> fut_done sf g"
    | (old) f where "enter key sf = (Follower f, sf)" "map_of (in_flight sf) key = Some f" "\<not> fut_done sf f"
proof (cases "map_of (in_flight sf) key")
  case None
  then show ?thesis by (intro new [of "next_future sf"]) (simp_all add: enter_def create_future_def Let_def)
next
  case (Some f)
  then show ?thesis
    by (cases "fut_done sf f")
      (use new [of "next_future sf"] old [of f] in \<open>simp_all add: enter_def create_future_def Let_def\<close>)
qed

lemma begin_inv:
  assumes inv: "flight_inv w" and i: "tasks w i = None"
  shows "flight_inv (begin_run i key w)"
proof (cases key "flight w" rule: enter_cases)
  case (new f)
  note D = flight_invD [OF inv]
  have w': "flight (begin_run i key w) = snd (create_future key (flight w))"
    "tasks (begin_run i key w) = (tasks w)(i \<mapsto> Executing key f)"
    using new(1) by (simp_all add: begin_run_def)
  have sf: "in_flight (snd (create_future key (flight w))) = AList.update key f (in_flight (flight w))"
    "next_future (snd (create_future key (flight w))) = f + 1"
    "\<And>g. fut_done (snd (create_future key (flight w))) g \<longleftrightarrow> g \<noteq> f \<and> fut_done (flight w) g"
    using new(2) by (auto simp: create_future_def Let_def fut_done_def)
  have k: "k \<noteq> key" if "tasks w j = Some (Executing k g)" for j k g using D(1,2) that new(3) by blast
  have g: "g \<noteq> f" if "g < next_future (flight w)" for g using that new(2) by simp
  show ?thesis unfolding flight_inv_def w' sf
  proof (intro conjI allI impI; (elim exE)?)
    fix j k g assume "((tasks w)(i \<mapsto> Executing key f)) j = Some (Executing k g)"
    then show "map_of (AList.update key f (in_flight (flight w))) k = Some g"
      and "\<not> (g \<noteq> f \<and> fut_done (flight w) g)" and "g < f + 1"
      using k D(1,2,3) new(2) by (auto simp: py_dict split: if_splits intro: less_SucI)
  next
    fix j j' k k' g
    assume "((tasks w)(i \<mapsto> Executing key f)) j = Some (Executing k g)"
      "((tasks w)(i \<mapsto> Executing key f)) j' = Some (Executing k' g)"
    then show "j = j'" using D(3) [THEN g] D(4) by (cases "j = i"; cases "j' = i") auto
  next
    fix j k g r assume "((tasks w)(i \<mapsto> Executing key f)) j = Some (Finishing k g r)"
    then show "g \<noteq> f" and "fut_done (flight w) g" and "g < f + 1"
      using D(6) [THEN g] D(5,6) new(2) by (auto split: if_splits intro: less_SucI)
  next
    fix k g assume "map_of (AList.update key f (in_flight (flight w))) k = Some g"
    then show "g < f + 1" using D(7) new(2) by (auto simp: py_dict split: if_splits intro: less_SucI)
  next
    fix k k' g
    assume "map_of (AList.update key f (in_flight (flight w))) k = Some g"
      "map_of (AList.update key f (in_flight (flight w))) k' = Some g"
    then show "k = k'" using D(7) [THEN g] D(8) by (auto simp: py_dict split: if_splits)
  qed
next
  case (old f)
  then show ?thesis using inv by (auto simp: begin_run_def flight_inv_def)
qed

lemma leader_inv:
  assumes inv: "flight_inv w" and i: "tasks w i = Some (Executing key f)"
  shows "flight_inv (w\<lparr>flight := leader_done f r (flight w), tasks := (tasks w)(i \<mapsto> Finishing key f r)\<rparr>)"
proof -
  note D = flight_invD [OF inv]
  have "g \<noteq> f" if "tasks w j = Some (Executing k g)" "j \<noteq> i" for j k g using D(4) i that by blast
  then show ?thesis
    using D i unfolding flight_inv_def leader_done_def set_future_def
    by (auto simp: fut_done_def split: if_splits)
qed

lemma cleanup_inv:
  assumes inv: "flight_inv w" and i: "tasks w i = Some (Finishing key f r)"
  shows "flight_inv (w\<lparr>flight := leave key f (flight w), tasks := (tasks w)(i \<mapsto> Returned key r)\<rparr>)"
proof -
  note D = flight_invD [OF inv]
  have "k \<noteq> key" if "tasks w j = Some (Executing k g)" "map_of (in_flight (flight w)) key = Some f" for j k g
    using D(1,2,5) i that by fastforce
  then show ?thesis
    using D i unfolding flight_inv_def leave_def
    by (auto simp: fut_done_def py_dict split: if_splits)
qed

lemma step_inv:
  assumes "flight_inv w" and "flight_step False w w'"
  shows "flight_inv w'"
  using assms(2)
proof (cases rule: flight_step.cases)
  case (wake i key f r)
  then show ?thesis using flight_invD [OF assms(1)] by (auto simp: flight_inv_def)
qed (use assms(1) in \<open>auto intro: begin_inv leader_inv cleanup_inv\<close>)

interpretation one_flight: inductive_invariant start_world "flight_step False" flight_inv
proof unfold_locales
  fix w :: "'a flight_world"
  assume "start_world w"
  then show "flight_inv w" by (simp add: start_world_def flight_inv_def new_single_flight_def)
next
  fix w w' :: "'a flight_world"
  assume "flight_inv w" and "flight_step False w w'"
  then show "flight_inv w'" by (rule step_inv)
qed

text \<open>
  As long as no waiting caller is cancelled, at most one execution of the
  function is in flight for a key, however many callers there are and however
  their steps interleave.
\<close>
theorem single_execution:
  assumes "reachable start_world (flight_step False) w" and "i \<in> executing w key" and "j \<in> executing w key"
  shows "i = j"
  using executing_unique [OF one_flight.reachable_inv [OF assms(1)]] assms(2,3) by blast

definition one_leader :: "nat flight_world" where
  "one_leader = begin_run 2 ''n1'' (begin_run 1 ''n1'' \<lparr>flight = new_single_flight, tasks = (\<lambda>_. None)\<rparr>)"

lemma one_leader_eq:
  "one_leader = \<lparr>flight = \<lparr>in_flight = [(''n1'', 0)], futures = (\<lambda>_. None), next_future = 1\<rparr>,
     tasks = [1 \<mapsto> Executing ''n1'' 0, 2 \<mapsto> Waiting ''n1'' 0]\<rparr>"
  by (simp add: one_leader_def begin_run_def enter_def create_future_def new_single_flight_def Let_def fut_done_def
      fun_eq_iff)

lemma one_leader_reachable: "reachable start_world (flight_step c) one_leader"
proof -
  let ?w = "\<lparr>flight = new_single_flight, tasks = (\<lambda>_. None)\<rparr> :: nat flight_world"
  have "reachable start_world (flight_step c) ?w" by (rule reachable.start) (simp add: start_world_def)
  moreover have "flight_step c ?w (begin_run 1 ''n1'' ?w)" by (rule flight_step.start_run) simp
  moreover have "tasks (begin_run 1 ''n1'' ?w) 2 = None"
    by (simp add: begin_run_def enter_def create_future_def new_single_flight_def Let_def)
  then have "flight_step c (begin_run 1 ''n1'' ?w) one_leader"
    unfolding one_leader_def by (rule flight_step.start_run)
  ultimately show ?thesis by (meson reachable.next_state)
qed

theorem single_execution_witness:
  "executing one_leader ''n1'' = {1 :: nat}"
proof -
  have "(1 :: nat) \<in> executing one_leader ''n1''" by (simp add: one_leader_eq executing_def)
  then show ?thesis using single_execution [OF one_leader_reachable] by blast
qed

text \<open>
  With cancellation the guarantee is lost. A cancelled follower cancels the
  shared future, so the next caller finds it done and becomes a second leader
  while the first still executes.
\<close>

lemma cancelled_follower_breaks_single_flight:
  "\<exists>(w :: nat flight_world) key. reachable start_world (flight_step True) w \<and> (1 :: nat) \<in> executing w key \<and> 3 \<in> executing w key"
proof -
  define w1 where "w1 = one_leader\<lparr>flight := follower_cancelled 0 (flight one_leader),
    tasks := (tasks one_leader)(2 \<mapsto> Returned ''n1'' Cancelled)\<rparr>"
  define w2 where "w2 = begin_run 3 ''n1'' w1"
  have "flight_step True one_leader w1"
    unfolding w1_def by (rule flight_step.cancel) (simp_all add: one_leader_eq fut_done_def)
  moreover have "flight_step True w1 w2"
    unfolding w2_def by (rule flight_step.start_run) (simp add: w1_def one_leader_eq)
  ultimately have "reachable start_world (flight_step True) w2"
    using one_leader_reachable by (meson reachable.next_state)
  moreover have "tasks w2 1 = Some (Executing ''n1'' 0)" "tasks w2 3 = Some (Executing ''n1'' 1)"
    by (simp_all add: w2_def w1_def one_leader_eq begin_run_def enter_def create_future_def follower_cancelled_def
        set_future_def fut_done_def Let_def)
  ultimately show ?thesis unfolding executing_def by blast
qed

end
