(* ===== verification/Disk_Insight.thy ===== *)
theory Disk_Insight
  imports Py_Prelude
begin

text \<open>
  The disk forecast of \<open>core/insights.py\<close>: \<open>_calculate_disk_insight\<close> takes the history of
  a node, removes level shifts with quartile fences on consecutive differences, fits a
  line by least squares and turns slope and free space into a severity. Headline and
  detail of an insight are constructors that carry the values their format strings print.
\<close>

section \<open>Data\<close>

record disk_snapshot =
  ds_collected_at :: time
  ds_used_bytes :: int

record disk_latest =
  dl_total_bytes :: int
  dl_used_bytes :: int
  dl_percent :: rat

datatype severity = Ok | Info | Warning | Critical

datatype icon = Icon_Refresh | Icon_Chart | Icon_Bin | Icon_Check | Icon_Siren | Icon_Warning | Icon_Fire | Icon_Bolt | Icon_Runner | Icon_Ram

datatype confidence = No_Confidence | Low | Medium | High

datatype disk_headline =
    Collecting | Fluctuating | Freeing | Stable | Saturation_Today | About_Days int | Saturation_In int

datatype disk_detail =
    Collected_For int | Filtered_History | Falling string | Nonlinear string | Six_Months
  | Growth_Per_Hour int string | Growth_Plan string int

record disk_raw =
  raw_used_percent :: rat
  raw_free_gb :: rat
  raw_growth :: rat
  raw_r_squared :: "rat option"
  raw_days_left :: "rat option"
  raw_action_before :: "int option"
  raw_hours_collected :: "int option"

record disk_insight =
  di_severity :: severity
  di_icon :: icon
  di_headline :: disk_headline
  di_detail :: disk_detail
  di_confidence :: confidence
  di_raw :: disk_raw

section \<open>Operations\<close>

definition py_round :: "rat \<Rightarrow> nat \<Rightarrow> rat" where
  \<comment> \<open>\<open>round(x, k)\<close>\<close>
  "py_round x k = of_int (round_half_even (x * 10 ^ k)) / 10 ^ k"

definition py_trunc :: "rat \<Rightarrow> int" where
  \<comment> \<open>\<open>int(x)\<close>\<close>
  "py_trunc x = (if x < 0 then - \<lfloor>- x\<rfloor> else \<lfloor>x\<rfloor>)"

definition GB :: rat where
  "GB = 1024 ^ 3"

definition timespan :: "disk_snapshot list \<Rightarrow> time" where
  "timespan ss = (if 2 \<le> length ss then ds_collected_at (last ss) - ds_collected_at (hd ss) else 0)"

fun deltas :: "rat list \<Rightarrow> rat list" where
  "deltas (x # y # zs) = (y - x) # deltas (y # zs)"
| "deltas _ = []"

definition quartile :: "nat \<Rightarrow> rat list \<Rightarrow> rat" where
  \<comment> \<open>\<open>sorted_deltas[(k * n + 3) // 4 - 1]\<close>\<close>
  "quartile k ds = sort ds ! ((k * length ds + 3) div 4 - 1)"

definition fences :: "rat list \<Rightarrow> rat \<times> rat" where
  "fences ds =
     (let q1 = quartile 1 ds; q3 = quartile 3 ds; iqr = q3 - q1
      in (q1 - 3 / 2 * iqr, q3 + 3 / 2 * iqr))"

definition inlier :: "rat \<times> rat \<Rightarrow> rat \<Rightarrow> bool" where
  "inlier f d \<longleftrightarrow> fst f \<le> d \<and> d \<le> snd f"

fun normalize_gb :: "rat \<times> rat \<Rightarrow> rat list \<Rightarrow> rat list" where
  \<comment> \<open>the walk backwards from the latest value\<close>
  "normalize_gb f [] = []"
| "normalize_gb f [x] = [x]"
| "normalize_gb f (x # y # zs) =
     (let ns = normalize_gb f (y # zs)
      in (if inlier f (y - x) then hd ns - (y - x) else hd ns) # ns)"

definition raw_gb :: "disk_snapshot list \<Rightarrow> rat list" where
  "raw_gb ss = map (\<lambda>s. of_int (ds_used_bytes s) / GB) ss"

definition remove_level_shifts :: "disk_snapshot list \<Rightarrow> disk_snapshot list" where
  "remove_level_shifts ss =
     map2 (\<lambda>s g. s\<lparr>ds_used_bytes := round_half_even (g * GB)\<rparr>) ss
       (normalize_gb (fences (deltas (raw_gb ss))) (raw_gb ss))"

definition denominator :: "rat list \<Rightarrow> rat" where
  "denominator xs = of_nat (length xs) * (\<Sum>x\<leftarrow>xs. x * x) - sum_list xs * sum_list xs"

definition fit_slope :: "rat list \<Rightarrow> rat list \<Rightarrow> rat" where
  "fit_slope xs ys =
     (if \<bar>denominator xs\<bar> > 1 / 10 ^ 6
      then (of_nat (length xs) * (\<Sum>(x, y)\<leftarrow>zip xs ys. x * y) - sum_list xs * sum_list ys) / denominator xs
      else 0)"

definition residual :: "rat \<Rightarrow> rat \<Rightarrow> rat list \<Rightarrow> rat list \<Rightarrow> rat" where
  "residual m c xs ys = (\<Sum>(x, y)\<leftarrow>zip xs ys. (y - (m * x + c))\<^sup>2)"

definition fit_intercept :: "rat list \<Rightarrow> rat list \<Rightarrow> rat" where
  "fit_intercept xs ys = (sum_list ys - fit_slope xs ys * sum_list xs) / of_nat (length xs)"

definition ss_tot :: "rat list \<Rightarrow> rat" where
  "ss_tot ys = (\<Sum>y\<leftarrow>ys. (y - sum_list ys / of_nat (length ys))\<^sup>2)"

definition r_squared :: "rat list \<Rightarrow> rat list \<Rightarrow> rat" where
  "r_squared xs ys =
     (if 1 / 10 ^ 9 < ss_tot ys then 1 - residual (fit_slope xs ys) (fit_intercept xs ys) xs ys / ss_tot ys else 0)"

definition days_since_start :: "disk_snapshot list \<Rightarrow> rat list" where
  "days_since_start ss = map (\<lambda>s. (ds_collected_at s - ds_collected_at (hd ss)) / 86400) ss"

definition fit_trend :: "disk_snapshot list \<Rightarrow> rat \<times> rat" where
  \<comment> \<open>slope in GB per day and coefficient of determination\<close>
  "fit_trend ss =
     (let x = days_since_start ss; y = raw_gb ss in (fit_slope x y, r_squared x y))"

definition severity_of_days :: "rat \<Rightarrow> severity" where
  "severity_of_days d = (if d < 14 then Critical else if d < 60 then Warning else Ok)"

definition icon_of_severity :: "severity \<Rightarrow> icon" where
  "icon_of_severity s = (if s = Critical then Icon_Siren else if s = Warning then Icon_Warning else Icon_Check)"

definition base_raw :: "rat \<Rightarrow> rat \<Rightarrow> rat \<Rightarrow> disk_raw" where
  "base_raw used free growth =
     \<lparr>raw_used_percent = used, raw_free_gb = py_round free 1, raw_growth = growth, raw_r_squared = None,
      raw_days_left = None, raw_action_before = None, raw_hours_collected = None\<rparr>"

definition planned_days :: "rat \<Rightarrow> int" where
  "planned_days days_left = max 1 (round_half_even days_left)"

definition action_before :: "int \<Rightarrow> int" where
  "action_before days = max 1 (days - 2)"

definition saturation_insight :: "rat \<Rightarrow> rat \<Rightarrow> rat \<Rightarrow> int \<Rightarrow> confidence \<Rightarrow> disk_insight" where
  \<comment> \<open>the returns with an estimated number of days\<close>
  "saturation_insight used free slope hours conf =
     (let days_left = free / slope; days = planned_days days_left; sev = severity_of_days days_left
      in \<lparr>di_severity = sev, di_icon = icon_of_severity sev,
          di_headline = (if conf = Medium then About_Days days else Saturation_In days),
          di_detail = Growth_Plan (fixed_str 2 slope) (action_before days), di_confidence = conf,
          di_raw = (base_raw used free (py_round slope 3))
            \<lparr>raw_days_left := Some (of_int days), raw_action_before := Some (action_before days),
             raw_hours_collected := Some hours\<rparr>\<rparr>)"

definition today_insight :: "rat \<Rightarrow> rat \<Rightarrow> rat \<Rightarrow> int \<Rightarrow> disk_insight" where
  "today_insight used free slope hours =
     \<lparr>di_severity = Critical, di_icon = Icon_Siren, di_headline = Saturation_Today,
      di_detail = Growth_Per_Hour hours (fixed_str 2 (slope / 24)), di_confidence = Medium,
      di_raw = (base_raw used free (py_round slope 3))
        \<lparr>raw_days_left := Some (py_round (free / slope) 1), raw_hours_collected := Some hours\<rparr>\<rparr>"

definition trend_insight :: "rat \<Rightarrow> rat \<Rightarrow> rat \<Rightarrow> rat \<Rightarrow> time \<Rightarrow> disk_insight" where
  \<comment> \<open>from the fitted slope to the insight\<close>
  "trend_insight used free raw_slope r2 tspan =
     (let slope = max 0 raw_slope;
          conf = (if 86400 \<le> tspan then High else Medium);
          hours = py_trunc (tspan / 3600);
          with_r2 = (\<lambda>g. (base_raw used free (py_round g 3))\<lparr>raw_r_squared := Some (py_round r2 2)\<rparr>)
      in if raw_slope < - (1 / 20) then
           \<lparr>di_severity = Ok, di_icon = Icon_Bin, di_headline = Freeing,
            di_detail = Falling (fixed_str 2 \<bar>raw_slope\<bar>), di_confidence = conf, di_raw = with_r2 raw_slope\<rparr>
         else if r2 < 1 / 2 \<and> 21600 \<le> tspan \<and> 1 / 20 < slope then
           \<lparr>di_severity = Ok, di_icon = Icon_Chart, di_headline = Fluctuating,
            di_detail = Nonlinear (fixed_str 2 r2), di_confidence = Low, di_raw = with_r2 slope\<rparr>
         else if slope \<le> 1 / 100 then
           \<lparr>di_severity = Ok, di_icon = Icon_Check, di_headline = Stable, di_detail = Six_Months,
            di_confidence = conf, di_raw = with_r2 slope\<rparr>
         else if tspan < 86400 \<and> free / slope < 1 then today_insight used free slope hours
         else saturation_insight used free slope hours conf)"

definition too_short :: "disk_snapshot list \<Rightarrow> bool" where
  "too_short ss \<longleftrightarrow> timespan ss < 21600 \<or> length ss < 4"

definition inlier_count :: "disk_snapshot list \<Rightarrow> nat" where
  "inlier_count ss = (let ds = deltas (raw_gb ss) in length (filter (inlier (fences ds)) ds))"

definition calculate_disk_insight :: "disk_latest \<Rightarrow> disk_snapshot list \<Rightarrow> disk_insight option" where
  "calculate_disk_insight l ss =
     (let free = of_int (dl_total_bytes l - dl_used_bytes l) / GB;
          used = py_round (dl_percent l) 1;
          hours = py_trunc (timespan ss / 3600)
      in if dl_total_bytes l = 0 then None
         else if too_short ss then
           Some \<lparr>di_severity = Ok, di_icon = Icon_Refresh, di_headline = Collecting,
                 di_detail = Collected_For (max 1 hours), di_confidence = No_Confidence,
                 di_raw = (base_raw used free 0)\<lparr>raw_hours_collected := Some hours\<rparr>\<rparr>
         else if deltas (raw_gb ss) \<noteq> [] \<and> inlier_count ss < 3 then
           Some \<lparr>di_severity = Ok, di_icon = Icon_Chart, di_headline = Fluctuating,
                 di_detail = Filtered_History, di_confidence = Low,
                 di_raw = (base_raw used free 0)\<lparr>raw_r_squared := Some 0\<rparr>\<rparr>
         else
           (let ss' = (if deltas (raw_gb ss) \<noteq> [] then remove_level_shifts ss else ss);
                (raw_slope, r2) = fit_trend ss'
            in Some (trend_insight used free raw_slope r2 (timespan ss))))"

section \<open>Least squares\<close>

lemma sum_list_linear:
  fixes xs :: "rat list"
  shows "(\<Sum>x\<leftarrow>xs. a + s * x) = of_nat (length xs) * a + s * sum_list xs"
    and "(\<Sum>x\<leftarrow>xs. x * (a + s * x)) = a * sum_list xs + s * (\<Sum>x\<leftarrow>xs. x * x)"
  by (induction xs) (simp_all add: algebra_simps)

lemma denominator_Cons: "denominator (x # xs) = denominator xs + (\<Sum>y\<leftarrow>xs. (x - y)\<^sup>2)"
proof -
  have "(\<Sum>y\<leftarrow>xs. (x - y)\<^sup>2) = of_nat (length xs) * (x * x) - 2 * x * sum_list xs + (\<Sum>y\<leftarrow>xs. y * y)"
    by (induction xs) (simp_all add: power2_eq_square algebra_simps)
  then show ?thesis by (simp add: denominator_def algebra_simps)
qed

lemma sum_squares_nonneg: "0 \<le> (\<Sum>y\<leftarrow>ys. (f y :: rat)\<^sup>2)"
  by (induction ys) simp_all

lemma denominator_nonneg: "0 \<le> denominator xs"
proof (induction xs)
  case (Cons x xs)
  then show ?case using sum_squares_nonneg [of "\<lambda>y. x - y" xs] by (simp add: denominator_Cons)
qed (simp add: denominator_def)

lemma denominator_spread: "xs \<noteq> [] \<Longrightarrow> (x - last xs)\<^sup>2 \<le> denominator (x # xs)"
proof -
  assume "xs \<noteq> []"
  then have "(\<Sum>y\<leftarrow>xs. (x - y)\<^sup>2) = (\<Sum>y\<leftarrow>butlast xs. (x - y)\<^sup>2) + (x - last xs)\<^sup>2"
    by (subst append_butlast_last_id [of xs, symmetric]) (simp_all del: append_butlast_last_id)
  then show ?thesis
    using denominator_nonneg [of xs] sum_squares_nonneg [of "\<lambda>y. x - y" "butlast xs"] by (simp add: denominator_Cons)
qed

lemma residual_expand:
  assumes "length xs = length ys"
  shows "residual m c xs ys = (\<Sum>y\<leftarrow>ys. y * y) + m\<^sup>2 * (\<Sum>x\<leftarrow>xs. x * x) + of_nat (length xs) * c\<^sup>2
    - 2 * m * (\<Sum>(x, y)\<leftarrow>zip xs ys. x * y) - 2 * c * sum_list ys + 2 * m * c * sum_list xs"
  using assms unfolding residual_def
  by (induction xs ys rule: list_induct2) (simp_all add: power2_eq_square algebra_simps)

lemma quadratic_minimum:
  fixes n sx sy sxx sxy :: rat
  assumes "0 < n" and D: "0 < n * sxx - sx * sx" and s: "s = (n * sxy - sx * sy) / (n * sxx - sx * sx)"
    and k: "k = (sy - s * sx) / n"
  shows "s\<^sup>2 * sxx + n * k\<^sup>2 - 2 * s * sxy - 2 * k * sy + 2 * s * k * sx
    \<le> m\<^sup>2 * sxx + n * c\<^sup>2 - 2 * m * sxy - 2 * c * sy + 2 * m * c * sx" (is "?Q s k \<le> ?Q m c")
proof -
  have e1: "n * sxy = s * (n * sxx - sx * sx) + sx * sy" using D s by simp
  have e2: "sy = n * k + s * sx" using \<open>0 < n\<close> k by simp
  have "n * sxy = n * (s * sxx + sx * k)" unfolding e1 e2 by (simp add: algebra_simps)
  then have e3: "sxy = s * sxx + sx * k" using \<open>0 < n\<close> by simp
  have "n * (?Q m c - ?Q s k) = (n * sxx - sx * sx) * (m - s)\<^sup>2 + (n * (c - k) + sx * (m - s))\<^sup>2"
    unfolding e2 e3 by (simp add: power2_eq_square algebra_simps)
  also have "\<dots> \<ge> 0" using D by simp
  finally have "0 \<le> ?Q m c - ?Q s k" using \<open>0 < n\<close> by (simp add: zero_le_mult_iff)
  then show ?thesis by simp
qed

lemma fit_optimal:
  assumes "length xs = length ys" and "1 / 10 ^ 6 < denominator xs"
  shows "residual (fit_slope xs ys) (fit_intercept xs ys) xs ys \<le> residual m c xs ys"
proof -
  have "xs \<noteq> []" using assms(2) by (auto simp: denominator_def)
  then have n: "0 < (of_nat (length xs) :: rat)" by simp
  have D: "0 < denominator xs" using assms(2) by (simp add: order_less_trans [rotated])
  have "\<bar>denominator xs\<bar> > 1 / 10 ^ 6" using assms(2) by linarith
  then have s: "fit_slope xs ys = (of_nat (length xs) * (\<Sum>(x, y)\<leftarrow>zip xs ys. x * y) - sum_list xs * sum_list ys) / denominator xs"
    by (simp add: fit_slope_def)
  show ?thesis
    unfolding residual_expand [OF assms(1)]
    using quadratic_minimum [OF n D [unfolded denominator_def] s [unfolded denominator_def] fit_intercept_def, of m c]
    by simp
qed

lemma residual_constant: "length xs = length ys \<Longrightarrow> residual 0 c xs ys = (\<Sum>y\<leftarrow>ys. (y - c)\<^sup>2)"
  unfolding residual_def by (induction xs ys rule: list_induct2) simp_all

lemma residual_nonneg: "0 \<le> residual m c xs ys"
  using sum_squares_nonneg [of "\<lambda>(x, y). y - (m * x + c)" "zip xs ys"] by (simp add: residual_def split_def)

section \<open>The spread of a history\<close>

lemma days_since_start_Cons:
  "days_since_start (s # ss) = 0 # map (\<lambda>r. (ds_collected_at r - ds_collected_at s) / 86400) ss"
  by (simp add: days_since_start_def)

text \<open>The guard against a vanishing denominator is never taken on a history of six hours.\<close>

lemma long_history_denominator:
  assumes "\<not> too_short ss"
  shows "1 / 10 ^ 6 < denominator (days_since_start ss)"
proof -
  obtain s r where ss: "ss = s # r" and r: "r \<noteq> []"
    using assms by (cases ss; cases "tl ss") (auto simp: too_short_def)
  have t: "21600 \<le> ds_collected_at (last r) - ds_collected_at s"
    using assms r by (auto simp: too_short_def timespan_def ss Suc_le_eq split: if_splits)
  have lm: "last (map (\<lambda>r. (ds_collected_at r - ds_collected_at s) / 86400) r) = (ds_collected_at (last r) - ds_collected_at s) / 86400"
    using r by (simp add: last_map)
  have "((ds_collected_at (last r) - ds_collected_at s) / 86400)\<^sup>2 \<le> denominator (days_since_start ss)"
    using denominator_spread [of "map (\<lambda>r. (ds_collected_at r - ds_collected_at s) / 86400) r" 0] r
    unfolding ss days_since_start_Cons lm by simp
  moreover have "(1 / 4)\<^sup>2 \<le> ((ds_collected_at (last r) - ds_collected_at s) / 86400)\<^sup>2"
    using t by (intro power_mono) simp_all
  ultimately show ?thesis by (simp add: power2_eq_square)
qed

text \<open>
  The fitted line is the least-squares line: on a history of at least six hours no other
  line has a smaller sum of squared residuals, and the coefficient of determination lies
  between 0 and 1.
\<close>
theorem disk_fit_least_squares:
  assumes "\<not> too_short ss"
  shows "residual (fst (fit_trend ss)) (fit_intercept (days_since_start ss) (raw_gb ss)) (days_since_start ss) (raw_gb ss)
      \<le> residual m c (days_since_start ss) (raw_gb ss) \<and>
    0 \<le> snd (fit_trend ss) \<and> snd (fit_trend ss) \<le> 1"
proof -
  let ?x = "days_since_start ss" and ?y = "raw_gb ss"
  have l: "length ?x = length ?y" by (simp add: days_since_start_def raw_gb_def)
  note opt = fit_optimal [OF l long_history_denominator [OF assms]]
  have "residual (fit_slope ?x ?y) (fit_intercept ?x ?y) ?x ?y \<le> ss_tot ?y"
    using opt [of 0 "sum_list ?y / of_nat (length ?y)"] unfolding residual_constant [OF l] ss_tot_def .
  then have "0 \<le> r_squared ?x ?y \<and> r_squared ?x ?y \<le> 1"
    using residual_nonneg [of "fit_slope ?x ?y" "fit_intercept ?x ?y" ?x ?y]
    by (auto simp: r_squared_def divide_le_eq_1)
  with opt show ?thesis by (simp add: fit_trend_def Let_def)
qed

section \<open>Level shifts\<close>

text \<open>A history sampled every \<open>h\<close> seconds, given by its first value and its differences in bytes.\<close>

fun series :: "time \<Rightarrow> time \<Rightarrow> int \<Rightarrow> int list \<Rightarrow> disk_snapshot list" where
  "series t h v [] = [\<lparr>ds_collected_at = t, ds_used_bytes = v\<rparr>]"
| "series t h v (d # ds) = \<lparr>ds_collected_at = t, ds_used_bytes = v\<rparr> # series (t + h) h (v + d) ds"

definition levelled :: "int \<Rightarrow> int list \<Rightarrow> int list" where
  \<comment> \<open>the usual step \<open>b\<close> is kept, any other one is a standstill\<close>
  "levelled b ds = map (\<lambda>d. if d = b then b else 0) ds"

definition level_series :: "time \<Rightarrow> time \<Rightarrow> int \<Rightarrow> int list \<Rightarrow> int \<Rightarrow> disk_snapshot list" where
  \<comment> \<open>the levelled series that ends where the series ends\<close>
  "level_series t h v ds b = series t h (v + sum_list ds - sum_list (levelled b ds)) (levelled b ds)"

lemma series_ne [simp]: "series t h v ds \<noteq> []"
  by (cases ds) simp_all

lemma length_series [simp]: "length (series t h v ds) = Suc (length ds)"
  by (induction ds arbitrary: t v) simp_all

lemma hd_series [simp]: "hd (series t h v ds) = \<lparr>ds_collected_at = t, ds_used_bytes = v\<rparr>"
  by (cases ds) simp_all

lemma last_series: "ds_collected_at (last (series t h v ds)) = t + of_nat (length ds) * h"
  by (induction ds arbitrary: t v) (simp_all add: algebra_simps)

lemma timespan_series: "timespan (series t h v ds) = of_nat (length ds) * h"
  by (cases ds) (simp_all add: timespan_def last_series algebra_simps)

lemma raw_gb_Cons: "raw_gb (s # ss) = of_int (ds_used_bytes s) / GB # raw_gb ss"
  by (simp add: raw_gb_def)

lemma raw_gb_series_Cons: "\<exists>r. raw_gb (series t h v ds) = of_int v / GB # r"
  by (cases ds) (simp_all add: raw_gb_Cons)

lemma GB_pos [simp]: "0 < GB" "GB \<noteq> 0"
  by (simp_all add: GB_def)

lemma deltas_series: "deltas (raw_gb (series t h v ds)) = map (\<lambda>d. of_int d / GB) ds"
proof (induction ds arbitrary: t v)
  case (Cons d ds)
  obtain r where r: "raw_gb (series (t + h) h (v + d) ds) = of_int (v + d) / GB # r" using raw_gb_series_Cons by blast
  show ?case using Cons [of "t + h" "v + d"] by (simp add: raw_gb_Cons r diff_divide_distrib [symmetric])
qed (simp add: raw_gb_def)

text \<open>An order statistic of a list whose elements are almost all equal.\<close>

lemma below_position:
  assumes "sorted xs" and "i < length xs" and "xs ! i < (b :: rat)"
  shows "i < length (filter (\<lambda>x. x < b) xs)"
proof -
  have "\<forall>x \<in> set (take (Suc i) xs). x < b"
    using assms(2) by (auto simp: in_set_conv_nth intro!: le_less_trans [OF sorted_nth_mono [OF assms(1) _ assms(2)] assms(3)])
  then have "length (filter (\<lambda>x. x < b) (take (Suc i) xs)) = Suc i" using assms(2) by simp
  moreover have "length (filter (\<lambda>x. x < b) xs) =
      length (filter (\<lambda>x. x < b) (take (Suc i) xs)) + length (filter (\<lambda>x. x < b) (drop (Suc i) xs))"
    by (metis append_take_drop_id filter_append length_append)
  ultimately show ?thesis by simp
qed

lemma above_position:
  assumes "sorted xs" and "i < length xs" and "(b :: rat) < xs ! i"
  shows "length xs - i \<le> length (filter (\<lambda>x. b < x) xs)"
proof -
  have "\<forall>x \<in> set (drop i xs). b < x"
    using assms(2) by (auto simp: in_set_conv_nth intro!: less_le_trans [OF assms(3) sorted_nth_mono [OF assms(1)]])
  then have "length (filter (\<lambda>x. b < x) (drop i xs)) = length xs - i" by simp
  moreover have "length (filter (\<lambda>x. b < x) xs) = length (filter (\<lambda>x. b < x) (take i xs)) + length (filter (\<lambda>x. b < x) (drop i xs))"
    by (metis append_take_drop_id filter_append length_append)
  ultimately show ?thesis by simp
qed

lemma length_filter_sort: "length (filter P (sort xs)) = length (filter P xs)"
  by (metis filter_sort length_sort)

lemma quartile_common:
  assumes few: "4 * length (filter (\<lambda>d. d \<noteq> b) ds) < length ds" and k: "k = 1 \<or> k = 3"
  shows "quartile k ds = b"
proof -
  let ?i = "(k * length ds + 3) div 4 - 1" and ?s = "length (filter (\<lambda>d. d \<noteq> b) ds)"
  have i: "?i < length ds" "?s \<le> ?i" "?s < length ds - ?i" using few k by auto
  have "length (filter (\<lambda>d. d < b) (sort ds)) \<le> ?s" "length (filter (\<lambda>d. b < d) (sort ds)) \<le> ?s"
    unfolding length_filter_sort by (induction ds) auto
  then have "\<not> sort ds ! ?i < b" "\<not> b < sort ds ! ?i"
    using i below_position [of "sort ds" ?i b] above_position [of "sort ds" ?i b] by auto
  then show ?thesis by (simp add: quartile_def)
qed

lemma fences_common: "4 * length (filter (\<lambda>d. d \<noteq> b) ds) < length ds \<Longrightarrow> fences ds = (b, b)"
  by (simp add: fences_def quartile_common)

lemma normalize_series:
  "normalize_gb (of_int b / GB, of_int b / GB) (raw_gb (series t h v ds)) = raw_gb (level_series t h v ds b)"
proof (induction ds arbitrary: t v)
  case (Cons d ds)
  let ?f = "(of_int b / GB, of_int b / GB)" and ?w = "v + d + sum_list ds - sum_list (levelled b ds)"
  let ?ns = "raw_gb (series (t + h) h ?w (levelled b ds))"
  obtain r where r: "raw_gb (series (t + h) h (v + d) ds) = of_int (v + d) / GB # r" using raw_gb_series_Cons by blast
  obtain r' where r': "?ns = of_int ?w / GB # r'" using raw_gb_series_Cons by blast
  have IH: "normalize_gb ?f (of_int (v + d) / GB # r) = ?ns"
    using Cons [of "t + h" "v + d"] by (simp add: r level_series_def)
  have e: "of_int (v + d) / GB - of_int v / GB = of_int d / GB" by (simp add: diff_divide_distrib [symmetric])
  have d: "inlier ?f (of_int d / GB) \<longleftrightarrow> d = b" by (auto simp: inlier_def divide_le_cancel)
  have "normalize_gb ?f (raw_gb (series t h v (d # ds))) =
      (if d = b then of_int ?w / GB - of_int d / GB else of_int ?w / GB) # ?ns"
    by (simp only: series.simps raw_gb_Cons disk_snapshot.simps r normalize_gb.simps IH Let_def e d r' list.sel)
  also have "\<dots> = raw_gb (level_series t h v (d # ds) b)"
    by (simp add: level_series_def levelled_def raw_gb_Cons diff_divide_distrib [symmetric] algebra_simps)
  finally show ?case .
qed (simp add: raw_gb_def level_series_def levelled_def)

lemma round_half_even_int [simp]: "round_half_even (of_int k) = k"
  by (simp add: round_half_even_def)

lemma raw_gb_bytes: "map (\<lambda>g. round_half_even (g * GB)) (raw_gb ss) = map ds_used_bytes ss"
  by (simp add: raw_gb_def)

lemma rewrite_series:
  "length es = length ds \<Longrightarrow>
   map2 (\<lambda>s g. s\<lparr>ds_used_bytes := round_half_even (g * GB)\<rparr>) (series t h v ds) (raw_gb (series t h w es)) = series t h w es"
  by (induction ds es arbitrary: t v w rule: list_induct2') (simp_all add: raw_gb_Cons raw_gb_def [of "[]"])

lemma few_shifts_rat:
  "length (filter (\<lambda>d. d \<noteq> of_int b / GB) (map (\<lambda>d. of_int d / GB) ds)) = length (filter (\<lambda>d. d \<noteq> b) ds)"
  by (induction ds) auto

lemma series_fences:
  assumes "4 * length (filter (\<lambda>d. d \<noteq> b) ds) < length ds"
  shows "fences (deltas (raw_gb (series t h v ds))) = (of_int b / GB, of_int b / GB)"
  unfolding deltas_series by (rule fences_common) (use assms in \<open>simp only: few_shifts_rat length_map\<close>)

lemma remove_shifts_series:
  assumes "4 * length (filter (\<lambda>d. d \<noteq> b) ds) < length ds"
  shows "remove_level_shifts (series t h v ds) = level_series t h v ds b"
  unfolding remove_level_shifts_def series_fences [OF assms] normalize_series level_series_def
  by (rule rewrite_series) (simp add: levelled_def)

lemma levelled_idem [simp]: "levelled b (levelled b ds) = levelled b ds"
  by (simp add: levelled_def comp_def if_distrib cong: if_cong)

lemma levelled_few: "length (filter (\<lambda>d. d \<noteq> b) (levelled b ds)) \<le> length (filter (\<lambda>d. d \<noteq> b) ds)"
  by (induction ds) (auto simp: levelled_def)

lemma length_levelled [simp]: "length (levelled b ds) = length ds"
  by (simp add: levelled_def)

lemma inlier_count_series:
  assumes "4 * length (filter (\<lambda>d. d \<noteq> b) ds) < length ds"
  shows "inlier_count (series t h v ds) = length ds - length (filter (\<lambda>d. d \<noteq> b) ds)"
proof -
  have "inlier (of_int b / GB, of_int b / GB) (of_int d / GB) \<longleftrightarrow> d = b" for d
    by (auto simp: inlier_def divide_le_cancel)
  then have "inlier_count (series t h v ds) = length (filter (\<lambda>d. d = b) ds)"
    unfolding inlier_count_def Let_def series_fences [OF assms] by (simp add: deltas_series filter_map comp_def)
  then show ?thesis using sum_length_filter_compl [of "\<lambda>d. d = b" ds] by simp
qed

lemma insight_of_series:
  assumes few: "4 * length (filter (\<lambda>d. d \<noteq> b) ds) < length ds"
  shows "calculate_disk_insight l (series t h v ds) = calculate_disk_insight l (level_series t h v ds b)"
proof -
  have few': "4 * length (filter (\<lambda>d. d \<noteq> b) (levelled b ds)) < length (levelled b ds)"
    using few levelled_few [of b ds] by simp
  have r: "remove_level_shifts (level_series t h v ds b) = level_series t h v ds b"
    using remove_shifts_series [OF few'] by (simp add: level_series_def)
  have n: "deltas (raw_gb (series t h v ds)) \<noteq> []" "deltas (raw_gb (level_series t h v ds b)) \<noteq> []"
    using few by (auto simp: deltas_series level_series_def levelled_def)
  show ?thesis
  proof (cases "too_short (series t h v ds)")
    case True
    then have "too_short (level_series t h v ds b)" "timespan (level_series t h v ds b) = timespan (series t h v ds)"
      by (simp_all add: too_short_def timespan_series level_series_def)
    with True show ?thesis by (simp add: calculate_disk_insight_def Let_def)
  next
    case False
    then have t: "\<not> too_short (level_series t h v ds b)" "timespan (level_series t h v ds b) = timespan (series t h v ds)"
      and len: "3 \<le> length ds"
      by (simp_all add: too_short_def timespan_series level_series_def)
    have "\<not> inlier_count (series t h v ds) < 3" using few len by (simp add: inlier_count_series)
    moreover have "\<not> inlier_count (level_series t h v ds b) < 3"
      using few' len by (simp add: level_series_def inlier_count_series [OF few'])
    ultimately show ?thesis
      using False t n r remove_shifts_series [OF few, of t h v] by (simp add: calculate_disk_insight_def Let_def)
  qed
qed

section \<open>Bounds on the fitted slope\<close>

definition numerator :: "rat list \<Rightarrow> rat list \<Rightarrow> rat" where
  "numerator xs ys = of_nat (length xs) * (\<Sum>(x, y)\<leftarrow>zip xs ys. x * y) - sum_list xs * sum_list ys"

lemma numerator_Cons:
  assumes "length xs = length ys"
  shows "numerator (x # xs) (y # ys) = numerator xs ys + (\<Sum>(x', y')\<leftarrow>zip xs ys. (x' - x) * (y' - y))"
proof -
  have "(\<Sum>(x', y')\<leftarrow>zip xs ys. (x' - x) * (y' - y)) =
      (\<Sum>(x', y')\<leftarrow>zip xs ys. x' * y') - y * sum_list xs - x * sum_list ys + of_nat (length xs) * (x * y)"
    using assms by (induction xs ys rule: list_induct2) (simp_all add: algebra_simps)
  then show ?thesis by (simp add: numerator_def algebra_simps)
qed

definition slope_within :: "rat \<Rightarrow> rat \<Rightarrow> rat \<times> rat \<Rightarrow> rat \<times> rat \<Rightarrow> bool" where
  "slope_within lo hi p q \<longleftrightarrow>
     fst p \<le> fst q \<and> lo * (fst q - fst p) \<le> snd q - snd p \<and> snd q - snd p \<le> hi * (fst q - fst p)"

lemma slope_within_sum:
  assumes "\<forall>q \<in> set (zip xs ys). slope_within lo hi (x, y) q" and "length xs = length ys"
  shows "lo * (\<Sum>x'\<leftarrow>xs. (x - x')\<^sup>2) \<le> (\<Sum>(x', y')\<leftarrow>zip xs ys. (x' - x) * (y' - y)) \<and>
    (\<Sum>(x', y')\<leftarrow>zip xs ys. (x' - x) * (y' - y)) \<le> hi * (\<Sum>x'\<leftarrow>xs. (x - x')\<^sup>2)"
  using assms(2,1)
proof (induction xs ys rule: list_induct2)
  case (Cons a xs b ys)
  then have w: "0 \<le> a - x" "lo * (a - x) \<le> b - y" "b - y \<le> hi * (a - x)" by (simp_all add: slope_within_def)
  from mult_left_mono [OF w(2,1)] mult_left_mono [OF w(3,1)]
  have "lo * (x - a)\<^sup>2 \<le> (a - x) * (b - y)" "(a - x) * (b - y) \<le> hi * (x - a)\<^sup>2"
    by (simp_all add: power2_eq_square algebra_simps)
  with Cons show ?case by (simp add: distrib_left add_mono)
qed simp

lemma numerator_within:
  assumes "length xs = length ys" and "sorted_wrt (slope_within lo hi) (zip xs ys)"
  shows "lo * denominator xs \<le> numerator xs ys \<and> numerator xs ys \<le> hi * denominator xs"
  using assms
proof (induction xs ys rule: list_induct2)
  case (Cons x xs y ys)
  then show ?case using slope_within_sum [of xs ys lo hi x y]
    by (auto simp: numerator_Cons denominator_Cons distrib_left)
qed (simp add: numerator_def denominator_def)

lemma fit_slope_within:
  assumes "length xs = length ys" and "sorted_wrt (slope_within lo hi) (zip xs ys)" and "1 / 10 ^ 6 < denominator xs"
  shows "lo \<le> fit_slope xs ys \<and> fit_slope xs ys \<le> hi"
proof -
  have D: "0 < denominator xs" using assms(3) by (rule order_less_trans [rotated]) simp
  have "fit_slope xs ys = numerator xs ys / denominator xs" using assms(3) by (simp add: fit_slope_def numerator_def)
  with numerator_within [OF assms(1,2)] D show ?thesis by (simp add: pos_le_divide_eq pos_divide_le_eq)
qed

definition day_gb :: "time \<Rightarrow> disk_snapshot \<Rightarrow> rat \<times> rat" where
  "day_gb t s = ((ds_collected_at s - t) / 86400, of_int (ds_used_bytes s) / GB)"

lemma zip_day_gb: "zip (days_since_start ss) (raw_gb ss) = map (day_gb (ds_collected_at (hd ss))) ss"
  by (simp add: days_since_start_def raw_gb_def day_gb_def [abs_def] zip_map_map zip_same_conv_map)

lemma series_growth:
  assumes "0 < h" and "\<forall>d \<in> set ds. lo \<le> d \<and> d \<le> hi" and "s \<in> set (series t h v ds)"
  shows "t \<le> ds_collected_at s \<and> of_int lo * (ds_collected_at s - t) \<le> of_int (ds_used_bytes s - v) * h \<and>
    of_int (ds_used_bytes s - v) * h \<le> of_int hi * (ds_collected_at s - t)"
  using assms(2,3)
proof (induction ds arbitrary: t v)
  case (Cons d ds)
  show ?case
  proof (cases "s \<in> set (series (t + h) h (v + d) ds)")
    case True
    let ?c = "ds_collected_at s" and ?u = "ds_used_bytes s"
    have d: "(of_int lo :: rat) * h \<le> of_int d * h" "(of_int d :: rat) * h \<le> of_int hi * h"
      using Cons.prems(1) \<open>0 < h\<close> by simp_all
    have e: "of_int k * (?c - t) = of_int k * (?c - (t + h)) + of_int k * h" for k by (simp add: algebra_simps)
    have f: "of_int (?u - v) * h = of_int (?u - (v + d)) * h + of_int d * h" by (simp add: algebra_simps)
    have "\<forall>d \<in> set ds. lo \<le> d \<and> d \<le> hi" using Cons.prems(1) by simp
    from Cons.IH [OF this True] d \<open>0 < h\<close> show ?thesis unfolding e f by (intro conjI add_mono; elim conjE; linarith)
  qed (use Cons.prems in simp)
qed simp

lemma series_slopes:
  assumes "0 < h" and "\<forall>d \<in> set ds. lo \<le> d \<and> d \<le> hi"
  shows "sorted_wrt (slope_within (of_int lo / GB * (86400 / h)) (of_int hi / GB * (86400 / h)))
    (map (day_gb t0) (series t h v ds))"
proof -
  have step: "slope_within (of_int lo / GB * (86400 / h)) (of_int hi / GB * (86400 / h)) (day_gb t0 \<lparr>ds_collected_at = t, ds_used_bytes = v\<rparr>) (day_gb t0 s)"
    if "t \<le> ds_collected_at s" "of_int lo * (ds_collected_at s - t) \<le> of_int (ds_used_bytes s - v) * h"
      "of_int (ds_used_bytes s - v) * h \<le> of_int hi * (ds_collected_at s - t)" for t v s
  proof -
    have e: "of_int k / GB * (86400 / h) * ((ds_collected_at s - t0) / 86400 - (t - t0) / 86400) = of_int k * (ds_collected_at s - t) / h / GB" for k
      using \<open>0 < h\<close> by (simp add: field_simps)
    have f: "of_int (ds_used_bytes s) / GB - of_int v / GB = of_int (ds_used_bytes s - v) / GB" by (simp add: diff_divide_distrib)
    have "of_int lo * (ds_collected_at s - t) / h \<le> of_int (ds_used_bytes s - v)"
      "of_int (ds_used_bytes s - v) \<le> of_int hi * (ds_collected_at s - t) / h"
      using that(2,3) \<open>0 < h\<close> by (simp_all only: pos_divide_le_eq pos_le_divide_eq)
    moreover have "0 \<le> GB" by (simp add: GB_def)
    moreover have "t - t0 \<le> ds_collected_at s - t0" "(0 :: rat) \<le> 86400" using that(1) by simp_all
    ultimately show ?thesis unfolding slope_within_def day_gb_def fst_conv snd_conv disk_snapshot.simps e f
      by (intro conjI divide_right_mono)
  qed
  show ?thesis using assms(2)
  proof (induction ds arbitrary: t v)
    case (Cons d ds)
    then have g: "\<forall>d \<in> set (d # ds). lo \<le> d \<and> d \<le> hi" by simp
    have "slope_within (of_int lo / GB * (86400 / h)) (of_int hi / GB * (86400 / h)) (day_gb t0 \<lparr>ds_collected_at = t, ds_used_bytes = v\<rparr>) (day_gb t0 s)"
      if "s \<in> set (series (t + h) h (v + d) ds)" for s
      using series_growth [OF \<open>0 < h\<close> g, of s t v] that by (intro step) simp_all
    with Cons show ?case by simp
  qed simp
qed

lemma series_slope_bounds:
  assumes "0 < h" and "\<forall>d \<in> set ds. lo \<le> d \<and> d \<le> hi" and "\<not> too_short (series t h v ds)"
  shows "of_int lo / GB * (86400 / h) \<le> fst (fit_trend (series t h v ds)) \<and>
    fst (fit_trend (series t h v ds)) \<le> of_int hi / GB * (86400 / h)"
proof -
  let ?x = "days_since_start (series t h v ds)" and ?y = "raw_gb (series t h v ds)"
  have "length ?x = length ?y" by (simp add: days_since_start_def raw_gb_def)
  moreover have "sorted_wrt (slope_within (of_int lo / GB * (86400 / h)) (of_int hi / GB * (86400 / h))) (zip ?x ?y)"
    unfolding zip_day_gb by (rule series_slopes [OF assms(1,2)])
  ultimately show ?thesis
    using fit_slope_within long_history_denominator [OF assms(3)] by (simp add: fit_trend_def Let_def)
qed

text \<open>
  C33. A mass deletion or a bulk import does not change the forecast. On a history sampled at
  a fixed rate whose steps are a usual growth \<open>b\<close> except for fewer than a quarter of them,
  the insight is that of the history in which every unusual step is a standstill, whatever
  the sizes of the unusual steps; the growth that is reported lies between zero and the
  usual growth, and is the usual growth when no step is unusual.
\<close>
theorem level_shifts_ignored:
  assumes "0 < h" and "\<not> too_short (series t h v ds)" and "4 * length (filter (\<lambda>d. d \<noteq> b) ds) < length ds" and "0 \<le> b"
  shows "calculate_disk_insight l (series t h v ds) = calculate_disk_insight l (level_series t h v ds b) \<and>
    0 \<le> fst (fit_trend (remove_level_shifts (series t h v ds))) \<and>
    fst (fit_trend (remove_level_shifts (series t h v ds))) \<le> of_int b / GB * (86400 / h) \<and>
    (set ds = {b} \<longrightarrow> fst (fit_trend (remove_level_shifts (series t h v ds))) = of_int b / GB * (86400 / h))"
proof -
  let ?w = "v + sum_list ds - sum_list (levelled b ds)"
  have s: "\<not> too_short (series t h ?w (levelled b ds))" using assms(2) by (simp add: too_short_def timespan_series)
  have r: "remove_level_shifts (series t h v ds) = series t h ?w (levelled b ds)"
    using remove_shifts_series [OF assms(3)] by (simp add: level_series_def)
  have "\<forall>d \<in> set (levelled b ds). 0 \<le> d \<and> d \<le> b" using assms(4) by (auto simp: levelled_def)
  from series_slope_bounds [OF assms(1) this s]
  have "0 \<le> fst (fit_trend (series t h ?w (levelled b ds)))"
    "fst (fit_trend (series t h ?w (levelled b ds))) \<le> of_int b / GB * (86400 / h)" by simp_all
  moreover have "fst (fit_trend (series t h ?w (levelled b ds))) = of_int b / GB * (86400 / h)" if "set ds = {b}"
  proof -
    have "\<forall>d \<in> set (levelled b ds). b \<le> d \<and> d \<le> b" using that by (auto simp: levelled_def)
    from series_slope_bounds [OF assms(1) this s] show ?thesis by (intro order_antisym) blast+
  qed
  ultimately show ?thesis using insight_of_series [OF assms(3)] unfolding r by blast
qed

definition deletion_history :: "disk_snapshot list" where
  \<comment> \<open>one gigabyte every three hours, and a deletion of fifty in between\<close>
  "deletion_history = series 0 10800 (100 * 1024 ^ 3) (map (\<lambda>g. g * 1024 ^ 3) [1, 1, 1, 1, - 50, 1, 1, 1])"

lemma deletion_history_ok:
  "\<not> too_short (series 0 10800 (100 * 1024 ^ 3) (map (\<lambda>g. g * 1024 ^ 3) [1, 1, 1, 1, - 50, 1, 1, 1]))"
  "4 * length (filter (\<lambda>d. d \<noteq> (1024 ^ 3 :: int)) (map (\<lambda>g. g * 1024 ^ 3) [1, 1, 1, 1, - 50, 1, 1, 1])) <
     length (map (\<lambda>g. g * (1024 ^ 3 :: int)) [1, 1, 1, 1, - 50, 1, 1, 1])"
  by (simp_all add: too_short_def timespan_def)

theorem level_shifts_ignored_witness:
  "0 \<le> fst (fit_trend (remove_level_shifts deletion_history)) \<and> fst (fit_trend (remove_level_shifts deletion_history)) \<le> 8"
  using level_shifts_ignored [of 10800, OF _ deletion_history_ok]
  by (simp add: deletion_history_def GB_def)

text \<open>
  The standstill at a level shift lowers the fitted slope: the history with the deletion
  grows by eight gigabytes a day between the jumps and is reported with less.
\<close>

lemma level_shift_lowers_slope: "fit_trend (remove_level_shifts deletion_history) = (20 / 3, 75 / 76)"
proof -
  have r: "remove_level_shifts deletion_history = level_series 0 10800 (100 * 1024 ^ 3) (map (\<lambda>g. g * 1024 ^ 3) [1, 1, 1, 1, - 50, 1, 1, 1]) (1024 ^ 3)"
    unfolding deletion_history_def by (rule remove_shifts_series [OF deletion_history_ok(2)])
  let ?x = "[0, 1 / 8, 1 / 4, 3 / 8, 1 / 2, 5 / 8, 3 / 4, 7 / 8, 1] :: rat list"
  let ?y = "[50, 51, 52, 53, 54, 54, 55, 56, 57] :: rat list"
  have x: "days_since_start (remove_level_shifts deletion_history) = ?x" and y: "raw_gb (remove_level_shifts deletion_history) = ?y"
    unfolding r by (simp_all add: level_series_def levelled_def days_since_start_def raw_gb_def GB_def)
  have f: "fit_slope ?x ?y = 20 / 3" by (simp add: fit_slope_def denominator_def)
  have "r_squared ?x ?y = 75 / 76"
    by (simp add: r_squared_def ss_tot_def residual_def fit_intercept_def f power2_eq_square)
  with f show ?thesis by (simp add: fit_trend_def x y Let_def)
qed

section \<open>Severity\<close>

definition forecasts :: "disk_snapshot list \<Rightarrow> bool" where
  \<comment> \<open>the history allows a date of saturation\<close>
  "forecasts ss \<longleftrightarrow> \<not> too_short ss \<and> 3 \<le> inlier_count ss \<and>
     (let (slope, r2) = fit_trend (remove_level_shifts ss) in 1 / 100 < slope \<and> (slope \<le> 1 / 20 \<or> 1 / 2 \<le> r2))"

definition days_to_full :: "disk_latest \<Rightarrow> disk_snapshot list \<Rightarrow> rat" where
  "days_to_full l ss = of_int (dl_total_bytes l - dl_used_bytes l) / GB / fst (fit_trend (remove_level_shifts ss))"

lemma long_deltas: "\<not> too_short ss \<Longrightarrow> deltas (raw_gb ss) \<noteq> []"
  by (cases ss; cases "tl ss") (auto simp: too_short_def raw_gb_def)

lemma trend_severity:
  assumes "21600 \<le> tspan"
  shows "di_severity (trend_insight used free slope r2 tspan) =
    (if 1 / 100 < slope \<and> (slope \<le> 1 / 20 \<or> 1 / 2 \<le> r2) then severity_of_days (free / slope) else Ok)"
proof (cases "1 / 100 < slope")
  case True
  then have m: "max 0 slope = slope" "\<not> slope < - (1 / 20)" by auto
  have q: "free / slope < 14" if "free < slope"
  proof -
    have "free / slope < 1" using that True by (simp add: pos_divide_less_eq)
    then show ?thesis by simp
  qed
  show ?thesis using True assms q
    by (auto simp: trend_insight_def m Let_def today_insight_def saturation_insight_def severity_of_days_def)
next
  case False
  then have "max 0 slope \<le> 1 / 100" "\<not> 1 / 20 < max 0 slope" by auto
  with False show ?thesis by (auto simp: trend_insight_def Let_def)
qed

text \<open>
  The severity follows the decision rules. There is no insight without a disk size;
  otherwise the insight is critical exactly when the history allows a forecast (six hours
  and four snapshots, three usual steps, a growth of more than 0.01 GB a day that is small
  or explained by the line) and the disk is full in less than 14 days, a warning exactly
  when it is full in 14 to 60 days, and in order in all other cases.
\<close>
theorem disk_severity_rules:
  "(calculate_disk_insight l ss = None \<longleftrightarrow> dl_total_bytes l = 0) \<and>
   (\<forall>i. calculate_disk_insight l ss = Some i \<longrightarrow>
      di_severity i = (if forecasts ss then severity_of_days (days_to_full l ss) else Ok))"
proof (cases "too_short ss \<or> inlier_count ss < 3")
  case True
  then show ?thesis by (auto simp: calculate_disk_insight_def forecasts_def Let_def long_deltas)
next
  case False
  then have "21600 \<le> timespan ss" by (simp add: too_short_def)
  with False show ?thesis
    by (auto simp: calculate_disk_insight_def forecasts_def days_to_full_def Let_def long_deltas trend_severity split: prod.splits)
qed

theorem disk_severity_rules_witness:
  "di_severity (the (calculate_disk_insight \<lparr>dl_total_bytes = 100 * 1024 ^ 3, dl_used_bytes = 57 * 1024 ^ 3, dl_percent = 57\<rparr> deletion_history)) = Critical"
proof -
  let ?l = "\<lparr>dl_total_bytes = 100 * 1024 ^ 3, dl_used_bytes = 57 * 1024 ^ 3, dl_percent = 57\<rparr>"
  obtain i where i: "calculate_disk_insight ?l deletion_history = Some i" using disk_severity_rules [of ?l deletion_history] by fastforce
  have "inlier_count deletion_history = 7"
    unfolding deletion_history_def inlier_count_series [OF deletion_history_ok(2)] by simp
  moreover have "\<not> too_short deletion_history" unfolding deletion_history_def by (rule deletion_history_ok)
  ultimately have "forecasts deletion_history" by (simp add: forecasts_def level_shift_lowers_slope)
  moreover have "severity_of_days (days_to_full ?l deletion_history) = Critical"
    by (simp add: severity_of_days_def days_to_full_def level_shift_lowers_slope GB_def)
  ultimately show ?thesis using disk_severity_rules [of ?l deletion_history] i by simp
qed

theorem disk_fit_least_squares_witness:
  "snd (fit_trend deletion_history) \<le> 1"
proof -
  have "\<not> too_short deletion_history" unfolding deletion_history_def by (rule deletion_history_ok)
  from disk_fit_least_squares [OF this] show ?thesis by blast
qed

end
