(* ===== verification/Insight_Rules.thy ===== *)
theory Insight_Rules
  imports Disk_Insight Py_Text
begin

text \<open>
  The rules of \<open>core/insights.py\<close> besides the disk forecast: the search for the process
  behind a CPU load, the memory rule, the statistics of a node's baseline, and the helpers
  that bound what enters a prompt. A text shown to a person is a constructor that carries
  the values it prints; its language is presentation. A lookup on a cached entry of the
  wrong type raises in the code and is \<open>None\<close> here.
\<close>

section \<open>Bounded prompt data\<close>

fun truncate_prompt_strings :: "nat \<Rightarrow> json \<Rightarrow> json" where
  "truncate_prompt_strings n (JStr s) = JStr (take n s)"
| "truncate_prompt_strings n (JObj d) = JObj (map (\<lambda>(k, v). (k, truncate_prompt_strings n v)) d)"
| "truncate_prompt_strings n (JArr vs) = JArr (map (truncate_prompt_strings n) vs)"
| "truncate_prompt_strings n v = v"

definition load_cached_json :: "string option \<Rightarrow> json list" where
  "load_cached_json raw =
     (case raw of
        None \<Rightarrow> []
      | Some t \<Rightarrow> if t = [] then [] else (case json_loads t of Some (JArr vs) \<Rightarrow> vs | _ \<Rightarrow> []))"

definition get_or_empty :: "json \<Rightarrow> string \<Rightarrow> json" where
  \<comment> \<open>\<open>item.get(key, "")\<close>\<close>
  "get_or_empty item k = (case json_get item k of Some v \<Rightarrow> v | None \<Rightarrow> JStr [])"

definition is_preferred :: "string \<Rightarrow> json \<Rightarrow> bool" where
  "is_preferred preferred item \<longleftrightarrow>
     (case item of
        JObj _ \<Rightarrow>
          lower (py_str (get_or_empty item ''state'')) = preferred \<or>
          preferred = ''running'' \<and> is_infix_of ''up'' (lower (py_str (get_or_empty item ''status'')))
      | _ \<Rightarrow> False)"

definition trim_json_entries :: "string \<Rightarrow> string \<Rightarrow> nat \<Rightarrow> nat \<Rightarrow> string" where
  "trim_json_entries raw preferred max_entries max_chars =
     (case json_loads raw of
        Some (JArr items) \<Rightarrow>
          json_dumps True (JArr (take max_entries
            (filter (is_preferred preferred) items @ filter (\<lambda>i. \<not> is_preferred preferred i) items)))
      | _ \<Rightarrow> take max_chars raw)"

section \<open>The CPU rule\<close>

record heavy_process =
  hp_container :: "string option"
  hp_service :: "string option"
  hp_threshold :: rat
  hp_label :: string

record top_process =
  tp_name :: "string option"
  tp_cpu :: "rat option"
  tp_rss_kb :: "rat option"

record load_snapshot =
  ls_cpu_percent :: rat
  ls_mem_percent :: rat
  ls_mem_total :: int
  ls_mem_used :: int
  ls_swap_used :: int
  ls_top :: "top_process list"

definition container_active :: "json \<Rightarrow> bool option" where
  "container_active c =
     (case c of
        JObj d \<Rightarrow>
          if map_of d ''state'' = Some (JStr ''running'') then Some True
          else (case map_of d ''status'' of
                  None \<Rightarrow> Some False
                | Some (JStr s) \<Rightarrow> Some (is_infix_of ''up'' (lower s))
                | Some _ \<Rightarrow> None)
      | _ \<Rightarrow> None)"

definition service_active :: "json \<Rightarrow> bool option" where
  "service_active s =
     (case s of JObj d \<Rightarrow> Some (map_of d ''state'' = Some (JStr ''active'')) | _ \<Rightarrow> None)"

fun active_names :: "(json \<Rightarrow> bool option) \<Rightarrow> string \<Rightarrow> json list \<Rightarrow> json option list option" where
  \<comment> \<open>the comprehension \<open>[c.get(key) for c in entries if active]\<close>\<close>
  "active_names act key [] = Some []"
| "active_names act key (c # cs) =
     (case act c of
        None \<Rightarrow> None
      | Some b \<Rightarrow> map_option (\<lambda>ns. if b then json_get c key # ns else ns) (active_names act key cs))"

definition named_in :: "string option \<Rightarrow> json option list \<Rightarrow> bool" where
  \<comment> \<open>\<open>name and name in names\<close>\<close>
  "named_in n names \<longleftrightarrow> (case n of None \<Rightarrow> False | Some s \<Rightarrow> s \<noteq> [] \<and> Some (JStr s) \<in> set names)"

definition is_running :: "json option list \<Rightarrow> json option list \<Rightarrow> heavy_process \<Rightarrow> bool" where
  "is_running containers services p \<longleftrightarrow> named_in (hp_container p) containers \<or> named_in (hp_service p) services"

definition text_or :: "string option \<Rightarrow> string \<Rightarrow> string" where
  \<comment> \<open>\<open>a or b\<close> on strings\<close>
  "text_or a b = (case a of None \<Rightarrow> b | Some s \<Rightarrow> if s = [] then b else s)"

definition process_name :: "heavy_process \<Rightarrow> string" where
  "process_name p = text_or (hp_container p) (text_or (hp_service p) [])"

definition cpu_of :: "top_process \<Rightarrow> rat" where
  "cpu_of tp = (case tp_cpu tp of None \<Rightarrow> 0 | Some c \<Rightarrow> c)"

definition matches :: "heavy_process \<Rightarrow> top_process \<Rightarrow> bool" where
  "matches p tp \<longleftrightarrow>
     (let pn = lower (process_name p); tn = lower (case tp_name tp of None \<Rightarrow> [] | Some n \<Rightarrow> n)
      in (is_infix_of pn tn \<or> is_infix_of tn pn) \<and> hp_threshold p \<le> cpu_of tp)"

definition ram_share :: "int \<Rightarrow> top_process \<Rightarrow> rat option" where
  "ram_share mem_total tp =
     (case tp_rss_kb tp of
        None \<Rightarrow> None
      | Some kb \<Rightarrow> if 0 < mem_total \<and> kb \<noteq> 0 then Some (kb * 1024 / of_int mem_total * 100) else None)"

type_synonym culprit = "heavy_process \<times> rat \<times> rat option"

definition better_culprit :: "load_snapshot \<Rightarrow> heavy_process \<Rightarrow> rat \<times> culprit option \<Rightarrow> rat \<times> culprit option" where
  \<comment> \<open>the inner loop stops at the first matching process\<close>
  "better_culprit snap p acc =
     (case List.find (matches p) (ls_top snap) of
        None \<Rightarrow> acc
      | Some tp \<Rightarrow>
          if fst acc < cpu_of tp then (cpu_of tp, Some (p, cpu_of tp, ram_share (ls_mem_total snap) tp)) else acc)"

definition find_culprit :: "load_snapshot \<Rightarrow> heavy_process list \<Rightarrow> culprit option" where
  "find_culprit snap running = snd (fold (better_culprit snap) running (- 1, None))"

definition ram_or_zero :: "rat option \<Rightarrow> rat" where
  "ram_or_zero r = (case r of None \<Rightarrow> 0 | Some x \<Rightarrow> x)"

definition significant :: "culprit \<Rightarrow> bool" where
  "significant c \<longleftrightarrow> \<not> (fst (snd c) < 5 \<and> ram_or_zero (snd (snd c)) < 5)"

definition cpu_culprit :: "load_snapshot \<Rightarrow> heavy_process list \<Rightarrow> culprit option" where
  "cpu_culprit snap running =
     (case find_culprit snap running of None \<Rightarrow> None | Some c \<Rightarrow> if significant c then Some c else None)"

datatype cpu_headline = Intense_Activity string | High_Load | Moderate_Load string | Moderate_Activity | Stable_Cpu

datatype cpu_detail =
    Service_Uses string "int option" "int option" | Service_Active string | Active_Process string int
  | No_Heavy_Process | General_Load int | Server_Calm

record cpu_insight =
  ci_severity :: severity
  ci_icon :: icon
  ci_headline :: cpu_headline
  ci_detail :: cpu_detail
  ci_percent :: rat
  ci_container :: "string option"
  ci_service :: "string option"
  ci_top :: "top_process list option"

definition capitalise :: "string \<Rightarrow> string" where
  "capitalise s = (case s of [] \<Rightarrow> ''Inconnu'' | c # cs \<Rightarrow> upper_char c @ cs)"

definition culprit_name :: "heavy_process \<Rightarrow> string" where
  "culprit_name p = text_or (hp_container p) (text_or (hp_service p) (text_or (Some (hp_label p)) ''inconnu''))"

definition percent_part :: "rat \<Rightarrow> int option" where
  "percent_part x = (if 5 \<le> x then Some (round_half_even x) else None)"

definition format_culprit_insight :: "culprit \<Rightarrow> string \<times> cpu_detail" where
  "format_culprit_insight c =
     (let n = culprit_name (fst c); cpu = percent_part (fst (snd c)); ram = percent_part (ram_or_zero (snd (snd c)))
      in (capitalise n, if cpu = None \<and> ram = None then Service_Active n else Service_Uses n cpu ram))"

definition top_above :: "rat \<Rightarrow> load_snapshot \<Rightarrow> top_process option" where
  "top_above limit snap =
     (case ls_top snap of [] \<Rightarrow> None | tp # _ \<Rightarrow> if limit < cpu_of tp then Some tp else None)"

definition cpu_verdict :: "load_snapshot \<Rightarrow> culprit option \<Rightarrow> (severity \<times> icon \<times> cpu_headline \<times> cpu_detail) option" where
  \<comment> \<open>\<open>None\<close> where \<open>top['name']\<close> raises\<close>
  "cpu_verdict snap culprit =
     (let active = (\<lambda>tp. map_option (\<lambda>n. Active_Process n (round_half_even (cpu_of tp))) (tp_name tp))
      in if 75 < ls_cpu_percent snap then
           (case culprit of
              Some c \<Rightarrow> (let (n, d) = format_culprit_insight c in Some (Warning, Icon_Fire, Intense_Activity n, d))
            | None \<Rightarrow>
                (case top_above 10 snap of
                   Some tp \<Rightarrow> map_option (\<lambda>d. (Warning, Icon_Warning, High_Load, d)) (active tp)
                 | None \<Rightarrow> Some (Warning, Icon_Warning, High_Load, No_Heavy_Process)))
         else if 40 < ls_cpu_percent snap then
           (case culprit of
              Some c \<Rightarrow> (let (n, d) = format_culprit_insight c in Some (Info, Icon_Bolt, Moderate_Load n, d))
            | None \<Rightarrow>
                (case top_above 5 snap of
                   Some tp \<Rightarrow> map_option (\<lambda>d. (Info, Icon_Runner, Moderate_Activity, d)) (active tp)
                 | None \<Rightarrow> Some (Info, Icon_Runner, Moderate_Activity, General_Load (round_half_even (ls_cpu_percent snap)))))
         else Some (Ok, Icon_Check, Stable_Cpu, Server_Calm))"

definition calculate_cpu_insight ::
  "load_snapshot \<Rightarrow> heavy_process list \<Rightarrow> string option \<Rightarrow> string option \<Rightarrow> cpu_insight option" where
  "calculate_cpu_insight snap known containers_json services_json =
     (case (active_names container_active ''name'' (load_cached_json containers_json),
            active_names service_active ''service'' (load_cached_json services_json)) of
        (Some cs, Some ss) \<Rightarrow>
          (let culprit = cpu_culprit snap (filter (is_running cs ss) known)
           in map_option (\<lambda>(sev, ic, hl, dt).
                \<lparr>ci_severity = sev, ci_icon = ic, ci_headline = hl, ci_detail = dt,
                 ci_percent = py_round (ls_cpu_percent snap) 1,
                 ci_container = (case culprit of None \<Rightarrow> None | Some c \<Rightarrow> hp_container (fst c)),
                 ci_service = (case culprit of None \<Rightarrow> None | Some c \<Rightarrow> hp_service (fst c)),
                 ci_top = (if ls_top snap = [] then None else Some (take 5 (ls_top snap)))\<rparr>)
              (cpu_verdict snap culprit))
      | _ \<Rightarrow> None)"

section \<open>The memory rule\<close>

datatype ram_headline = Ram_Nearly_Full | Ram_Active | Ram_Stable

datatype ram_detail = Oom_Risk | Above_Baseline int | No_Swap_Pressure | Swap_Used int

record ram_insight =
  ri_severity :: severity
  ri_icon :: icon
  ri_headline :: ram_headline
  ri_detail :: ram_detail
  ri_percent :: rat
  ri_used_gb :: rat
  ri_total_gb :: rat
  ri_swap_mb :: rat

definition calculate_ram_insight :: "load_snapshot \<Rightarrow> rat \<Rightarrow> ram_insight" where
  "calculate_ram_insight snap baseline =
     (let swap_mb = of_int (ls_swap_used snap) / (1024 * 1024);
          (sev, ic, hl, dt) =
            (if 90 < ls_mem_percent snap then (Warning, Icon_Warning, Ram_Nearly_Full, Oom_Risk)
             else if baseline < ls_mem_percent snap then (Info, Icon_Ram, Ram_Active, Above_Baseline (round_half_even baseline))
             else (Ok, Icon_Check, Ram_Stable,
                   if swap_mb < 50 then No_Swap_Pressure else Swap_Used (round_half_even swap_mb)))
      in \<lparr>ri_severity = sev, ri_icon = ic, ri_headline = hl, ri_detail = dt,
          ri_percent = py_round (ls_mem_percent snap) 1,
          ri_used_gb = py_round (of_int (ls_mem_used snap) / GB) 1,
          ri_total_gb = py_round (of_int (ls_mem_total snap) / GB) 1, ri_swap_mb = py_round swap_mb 1\<rparr>)"

section \<open>The baseline of a node\<close>

definition percentile :: "rat list \<Rightarrow> rat \<Rightarrow> rat" where
  "percentile data p =
     (if data = [] then 0
      else
        (let s = sort data; n = length s; k = (of_nat n - 1) * (p / 100); f = nat (py_trunc k); c = f + 1
         in if n \<le> c then last s else s ! f + (k - of_nat f) * (s ! c - s ! f)))"

record metric_stats =
  ms_mean :: rat
  ms_std :: rat
  ms_p75 :: rat
  ms_p90 :: rat
  ms_p99 :: rat
  ms_warning :: rat
  ms_critical :: rat

definition variance :: "rat list \<Rightarrow> rat" where
  "variance vals =
     (if 1 < length vals
      then (\<Sum>x\<leftarrow>vals. (x - sum_list vals / of_nat (length vals))\<^sup>2) / (of_nat (length vals) - 1) else 0)"

definition calc_stats :: "(rat \<Rightarrow> rat) \<Rightarrow> rat list \<Rightarrow> rat \<Rightarrow> rat \<Rightarrow> metric_stats" where
  \<comment> \<open>\<open>sqrt_f\<close> is the floating-point \<open>** 0.5\<close>\<close>
  "calc_stats sqrt_f vals warn crit =
     (if vals = [] then
        \<lparr>ms_mean = 0, ms_std = 0, ms_p75 = 50, ms_p90 = 75, ms_p99 = 90, ms_warning = warn, ms_critical = crit\<rparr>
      else
        \<lparr>ms_mean = py_round (sum_list vals / of_nat (length vals)) 1, ms_std = py_round (sqrt_f (variance vals)) 1,
         ms_p75 = py_round (percentile vals 75) 1, ms_p90 = py_round (percentile vals 90) 1,
         ms_p99 = py_round (percentile vals 99) 1, ms_warning = warn, ms_critical = crit\<rparr>)"

record metric_row =
  mr_collected_at :: time
  mr_cpu :: "rat option"
  mr_mem :: "rat option"
  mr_disk :: "rat option"

record node_baseline =
  nb_hours :: rat
  nb_limited :: bool
  nb_cpu :: metric_stats
  nb_ram :: metric_stats
  nb_disk :: metric_stats

definition default_stats :: "rat \<Rightarrow> rat \<Rightarrow> rat \<Rightarrow> rat \<Rightarrow> rat \<Rightarrow> metric_stats" where
  "default_stats p75 p90 p99 warn crit =
     \<lparr>ms_mean = 0, ms_std = 0, ms_p75 = p75, ms_p90 = p90, ms_p99 = p99, ms_warning = warn, ms_critical = crit\<rparr>"

definition calculate_node_baseline :: "(rat \<Rightarrow> rat) \<Rightarrow> metric_row list \<Rightarrow> node_baseline" where
  "calculate_node_baseline sqrt_f rows =
     (if rows = [] then
        \<lparr>nb_hours = 0, nb_limited = True, nb_cpu = default_stats 50 75 90 80 95,
         nb_ram = default_stats 60 80 92 85 95, nb_disk = default_stats 70 85 95 85 95\<rparr>
      else
        (let ts = map mr_collected_at rows; hours = (Max (set ts) - Min (set ts)) / 3600
         in \<lparr>nb_hours = py_round hours 1, nb_limited = (hours < 72 \<or> length rows < 50),
             nb_cpu = calc_stats sqrt_f (List.map_filter mr_cpu rows) 80 95,
             nb_ram = calc_stats sqrt_f (List.map_filter mr_mem rows) 85 95,
             nb_disk = calc_stats sqrt_f (List.map_filter mr_disk rows) 85 95\<rparr>))"

section \<open>Percentiles: facts\<close>

definition interpolate :: "rat list \<Rightarrow> rat \<Rightarrow> rat" where
  \<comment> \<open>the value at a fractional position of a sorted list\<close>
  "interpolate s k =
     (let f = nat \<lfloor>k\<rfloor> in if length s \<le> f + 1 then last s else s ! f + (k - of_nat f) * (s ! (f + 1) - s ! f))"

lemma percentile_interpolate:
  assumes "data \<noteq> []" and "0 \<le> p"
  shows "percentile data p = interpolate (sort data) ((of_nat (length data) - 1) * (p / 100))"
proof -
  have "\<not> (of_nat (length data) - 1) * (p / 100) < 0" using assms by (cases data) (simp_all add: not_less)
  then show ?thesis using assms(1) by (simp add: percentile_def interpolate_def py_trunc_def Let_def)
qed

lemma segment_bounds:
  assumes "sorted s" and "0 \<le> k" and "nat \<lfloor>k\<rfloor> + 1 < length s"
  shows "s ! nat \<lfloor>k\<rfloor> \<le> interpolate s k \<and> interpolate s k \<le> s ! (nat \<lfloor>k\<rfloor> + 1)"
proof -
  let ?f = "nat \<lfloor>k\<rfloor>" and ?d = "s ! (nat \<lfloor>k\<rfloor> + 1) - s ! nat \<lfloor>k\<rfloor>"
  have d: "0 \<le> ?d" using sorted_nth_mono [OF assms(1), of ?f "?f + 1"] assms(3) by simp
  have "of_nat ?f = (of_int \<lfloor>k\<rfloor> :: rat)" using assms(2) by (simp add: of_nat_nat)
  then have f: "0 \<le> k - of_nat ?f" "k - of_nat ?f \<le> 1" using of_int_floor_le [of k] floor_correct [of k] by simp_all
  from mult_right_mono [OF f(2) d] f(1) d show ?thesis using assms(3) by (simp add: interpolate_def Let_def)
qed

lemma interpolate_le_last: "sorted s \<Longrightarrow> s \<noteq> [] \<Longrightarrow> 0 \<le> k \<Longrightarrow> interpolate s k \<le> last s"
proof -
  assume s: "sorted s" "s \<noteq> []" "0 \<le> k"
  show ?thesis
  proof (cases "nat \<lfloor>k\<rfloor> + 1 < length s")
    case True
    have "s ! (nat \<lfloor>k\<rfloor> + 1) \<le> s ! (length s - 1)" using True by (intro sorted_nth_mono [OF s(1)]) auto
    with segment_bounds [OF s(1,3) True] s(2) show ?thesis by (simp add: last_conv_nth)
  qed (simp add: interpolate_def Let_def)
qed

lemma interpolate_mono:
  assumes s: "sorted s" "s \<noteq> []" and k: "0 \<le> k" "k \<le> l"
  shows "interpolate s k \<le> interpolate s l"
proof -
  let ?f = "nat \<lfloor>k\<rfloor>" and ?g = "nat \<lfloor>l\<rfloor>"
  have fg: "?f \<le> ?g" using k by (simp add: floor_mono nat_mono)
  consider "length s \<le> ?g + 1" | "?g + 1 < length s" "?f = ?g" | "?g + 1 < length s" "?f < ?g" using fg by linarith
  then show ?thesis
  proof cases
    case 1
    then have "interpolate s l = last s" by (simp add: interpolate_def Let_def)
    with interpolate_le_last [OF s k(1)] show ?thesis by simp
  next
    case 2
    have "0 \<le> s ! (?g + 1) - s ! ?g" using sorted_nth_mono [OF s(1), of ?g "?g + 1"] 2 by simp
    then have "(k - of_nat ?g) * (s ! (?g + 1) - s ! ?g) \<le> (l - of_nat ?g) * (s ! (?g + 1) - s ! ?g)"
      using k(2) by (intro mult_right_mono) simp_all
    then show ?thesis using 2 by (simp add: interpolate_def Let_def)
  next
    case 3
    have "interpolate s k \<le> s ! (?f + 1)" using segment_bounds [OF s(1) k(1)] 3 by simp
    also have "\<dots> \<le> s ! ?g"
    proof (rule sorted_nth_mono [OF s(1)])
      show "?f + 1 \<le> ?g" using 3(2) by linarith
    qed (use 3(1) in simp)
    also have "\<dots> \<le> interpolate s l" using segment_bounds [OF s(1) _ 3(1)] k by simp
    finally show ?thesis .
  qed
qed

lemma sort_ne: "data \<noteq> [] \<Longrightarrow> sort data \<noteq> []"
  by (metis length_0_conv length_sort)

lemma percentile_mono:
  assumes "0 \<le> p" and "p \<le> q"
  shows "percentile data p \<le> percentile data q"
proof (cases "data = []")
  case False
  then have "0 \<le> (of_nat (length data) - 1 :: rat)" by (cases data) simp_all
  then have "0 \<le> (of_nat (length data) - 1) * (p / 100)" "(of_nat (length data) - 1) * (p / 100) \<le> (of_nat (length data) - 1) * (q / 100)"
    using assms by (auto intro!: mult_left_mono divide_right_mono)
  then have "interpolate (sort data) ((of_nat (length data) - 1) * (p / 100)) \<le> interpolate (sort data) ((of_nat (length data) - 1) * (q / 100))"
    by (rule interpolate_mono [OF sorted_sort sort_ne [OF False]])
  then show ?thesis
    using percentile_interpolate [OF False assms(1)] percentile_interpolate [OF False order_trans [OF assms]] by simp
qed (simp add: percentile_def)

lemma round_half_even_mono: "x \<le> y \<Longrightarrow> round_half_even x \<le> round_half_even y"
proof -
  assume xy: "x \<le> y"
  have b: "\<lfloor>z\<rfloor> \<le> round_half_even z" "round_half_even z \<le> \<lfloor>z\<rfloor> + 1" for z by (simp_all add: round_half_even_def Let_def)
  show ?thesis
  proof (cases "\<lfloor>x\<rfloor> = \<lfloor>y\<rfloor>")
    case True
    with xy show ?thesis by (simp add: round_half_even_def Let_def)
  next
    case False
    then have "\<lfloor>x\<rfloor> + 1 \<le> \<lfloor>y\<rfloor>" using floor_mono [OF xy] by simp
    then show ?thesis using b(2) [of x] b(1) [of y] by linarith
  qed
qed

lemma py_round_mono: "x \<le> y \<Longrightarrow> py_round x k \<le> py_round y k"
  unfolding py_round_def by (intro divide_right_mono) (simp_all add: round_half_even_mono mult_right_mono)

definition ordered_stats :: "metric_stats \<Rightarrow> bool" where
  "ordered_stats m \<longleftrightarrow> ms_p75 m \<le> ms_p90 m \<and> ms_p90 m \<le> ms_p99 m"

lemma calc_stats_ordered: "ordered_stats (calc_stats sqrt_f vals w c)"
  by (simp add: ordered_stats_def calc_stats_def py_round_mono percentile_mono)

lemma sorted_ends:
  assumes "sorted s" and "s \<noteq> []"
  shows "s ! 0 = Min (set s)" and "last s = Max (set s)"
proof -
  show "s ! 0 = Min (set s)"
    using assms by (intro Min_eqI [symmetric]) (auto simp: in_set_conv_nth intro!: sorted_nth_mono)
  show "last s = Max (set s)"
  proof (rule Max_eqI [symmetric])
    fix y
    assume "y \<in> set s"
    then show "y \<le> last s"
      using assms by (auto simp: in_set_conv_nth last_conv_nth intro!: sorted_nth_mono)
  qed (use assms in simp_all)
qed

lemma percentile_ends:
  assumes "data \<noteq> []"
  shows "percentile data 0 = Min (set data)" and "percentile data 100 = Max (set data)"
proof -
  have e: "sort data ! 0 = Min (set data)" "last (sort data) = Max (set data)"
    using sorted_ends [OF sorted_sort sort_ne [OF assms]] by simp_all
  show "percentile data 100 = Max (set data)"
    using assms e by (cases data) (simp_all add: percentile_interpolate interpolate_def)
  show "percentile data 0 = Min (set data)"
  proof (cases "length data \<le> 1")
    case True
    with assms obtain x where "data = [x]" by (cases data) auto
    then show ?thesis by (simp add: percentile_def py_trunc_def)
  qed (use assms e in \<open>simp add: percentile_interpolate interpolate_def\<close>)
qed

text \<open>
  The percentiles of a baseline are in order for every metric, with and without data, also
  after rounding; and a percentile of data lies between its smallest and largest value and
  reaches both at 0 and 100.
\<close>
theorem baseline_percentiles_ordered:
  "ordered_stats (nb_cpu (calculate_node_baseline sqrt_f rows)) \<and> ordered_stats (nb_ram (calculate_node_baseline sqrt_f rows)) \<and>
   ordered_stats (nb_disk (calculate_node_baseline sqrt_f rows)) \<and>
   (data \<noteq> [] \<and> 0 \<le> p \<and> p \<le> 100 \<longrightarrow>
      percentile data 0 = Min (set data) \<and> percentile data 100 = Max (set data) \<and>
      Min (set data) \<le> percentile data p \<and> percentile data p \<le> Max (set data))"
proof -
  have "ordered_stats (nb_cpu (calculate_node_baseline sqrt_f rows)) \<and> ordered_stats (nb_ram (calculate_node_baseline sqrt_f rows)) \<and>
    ordered_stats (nb_disk (calculate_node_baseline sqrt_f rows))"
    by (cases "rows = []")
      (simp_all add: calculate_node_baseline_def Let_def calc_stats_ordered, simp_all add: ordered_stats_def default_stats_def)
  then show ?thesis
    using percentile_mono [of 0 p data] percentile_mono [of p 100 data] percentile_ends [of data] by auto
qed

theorem baseline_percentiles_ordered_witness:
  "1 \<le> percentile [3, 1, 2] 75 \<and> percentile [3, 1, 2] 75 \<le> 3"
  using baseline_percentiles_ordered [where data = "[3, 1, 2]" and p = 75] by simp

section \<open>The culprit\<close>

definition candidate :: "load_snapshot \<Rightarrow> heavy_process \<Rightarrow> rat option" where
  \<comment> \<open>the CPU share of the first matching process\<close>
  "candidate snap p = map_option cpu_of (List.find (matches p) (ls_top snap))"

definition culprit_inv :: "load_snapshot \<Rightarrow> heavy_process list \<Rightarrow> rat \<times> culprit option \<Rightarrow> bool" where
  "culprit_inv snap seen acc \<longleftrightarrow>
     (\<forall>p \<in> set seen. \<forall>c. candidate snap p = Some c \<longrightarrow> c \<le> fst acc) \<and>
     (case snd acc of
        None \<Rightarrow> fst acc = - 1
      | Some (p, c, r) \<Rightarrow> p \<in> set seen \<and> c = fst acc \<and>
          (\<exists>tp. List.find (matches p) (ls_top snap) = Some tp \<and> c = cpu_of tp \<and> r = ram_share (ls_mem_total snap) tp))"

lemma culprit_step:
  "culprit_inv snap seen acc \<Longrightarrow> culprit_inv snap (seen @ [p]) (better_culprit snap p acc)"
  by (fastforce simp: culprit_inv_def better_culprit_def candidate_def split: option.splits if_splits)

lemma culprit_fold: "culprit_inv snap seen acc \<Longrightarrow> culprit_inv snap (seen @ ps) (fold (better_culprit snap) ps acc)"
proof (induction ps arbitrary: seen acc)
  case (Cons p ps)
  from Cons.IH [OF culprit_step [OF Cons.prems, of p]] show ?case by simp
qed simp

lemma find_culprit_inv: "\<exists>m. culprit_inv snap running (m, find_culprit snap running)"
proof -
  have "culprit_inv snap [] (- 1, None)" by (simp add: culprit_inv_def)
  from culprit_fold [OF this, of running] show ?thesis
    by (metis append_Nil find_culprit_def prod.collapse)
qed

lemma find_matches: "List.find (matches p) tps = Some tp \<Longrightarrow> tp \<in> set tps \<and> matches p tp"
  by (auto simp: find_Some_iff)

text \<open>
  The process that is named as the cause of a load is one of the profile, it runs, its name
  matches a process of the snapshot that uses at least the threshold of the profile, no
  other running process of the profile has a larger share, and its use of CPU or memory is
  not negligible. The severity depends on the load alone: a warning above 75 percent,
  information above 40.
\<close>
theorem cpu_culprit_justified:
  assumes "calculate_cpu_insight snap known cj sj = Some i"
  shows "ci_severity i = (if 75 < ls_cpu_percent snap then Warning else if 40 < ls_cpu_percent snap then Info else Ok) \<and>
    (ci_container i \<noteq> None \<or> ci_service i \<noteq> None \<longrightarrow>
      (\<exists>cs ss p tp. active_names container_active ''name'' (load_cached_json cj) = Some cs \<and>
         active_names service_active ''service'' (load_cached_json sj) = Some ss \<and>
         ci_container i = hp_container p \<and> ci_service i = hp_service p \<and>
         p \<in> set known \<and> is_running cs ss p \<and> tp \<in> set (ls_top snap) \<and> matches p tp \<and>
         (5 \<le> cpu_of tp \<or> 5 \<le> ram_or_zero (ram_share (ls_mem_total snap) tp)) \<and>
         (\<forall>q \<in> set known. is_running cs ss q \<longrightarrow> (\<forall>c. candidate snap q = Some c \<longrightarrow> c \<le> cpu_of tp))))"
proof -
  from assms obtain cs ss v where cs: "active_names container_active ''name'' (load_cached_json cj) = Some cs"
    and ss: "active_names service_active ''service'' (load_cached_json sj) = Some ss"
    and v: "cpu_verdict snap (cpu_culprit snap (filter (is_running cs ss) known)) = Some v"
    and i: "ci_severity i = fst v"
      "ci_container i = (case cpu_culprit snap (filter (is_running cs ss) known) of None \<Rightarrow> None | Some c \<Rightarrow> hp_container (fst c))"
      "ci_service i = (case cpu_culprit snap (filter (is_running cs ss) known) of None \<Rightarrow> None | Some c \<Rightarrow> hp_service (fst c))"
    by (auto simp: calculate_cpu_insight_def Let_def split: option.splits)
  have "fst v = (if 75 < ls_cpu_percent snap then Warning else if 40 < ls_cpu_percent snap then Info else Ok)"
    using v by (auto simp: cpu_verdict_def Let_def split: if_splits option.splits prod.splits)
  moreover have "\<exists>p tp. ci_container i = hp_container p \<and> ci_service i = hp_service p \<and>
         p \<in> set known \<and> is_running cs ss p \<and> tp \<in> set (ls_top snap) \<and> matches p tp \<and>
         (5 \<le> cpu_of tp \<or> 5 \<le> ram_or_zero (ram_share (ls_mem_total snap) tp)) \<and>
         (\<forall>q \<in> set known. is_running cs ss q \<longrightarrow> (\<forall>c. candidate snap q = Some c \<longrightarrow> c \<le> cpu_of tp))"
    if named: "ci_container i \<noteq> None \<or> ci_service i \<noteq> None"
  proof -
    let ?r = "filter (is_running cs ss) known"
    obtain p c r where f: "find_culprit snap ?r = Some (p, c, r)" "significant (p, c, r)" "ci_container i = hp_container p" "ci_service i = hp_service p"
      using named unfolding i by (auto simp: cpu_culprit_def split: option.splits if_splits)
    obtain m where "culprit_inv snap ?r (m, Some (p, c, r))" using find_culprit_inv [of snap ?r] f(1) by auto
    then obtain tp where "p \<in> set ?r" "c = m" "List.find (matches p) (ls_top snap) = Some tp" "c = cpu_of tp"
        "r = ram_share (ls_mem_total snap) tp" "\<forall>q \<in> set ?r. \<forall>c. candidate snap q = Some c \<longrightarrow> c \<le> m"
      by (auto simp: culprit_inv_def)
    with f find_matches show ?thesis unfolding significant_def by (intro exI [of _ p] exI [of _ tp]) auto
  qed
  ultimately show ?thesis using cs ss i(1) by auto
qed

definition busy_snapshot :: load_snapshot where
  "busy_snapshot = \<lparr>ls_cpu_percent = 82, ls_mem_percent = 50, ls_mem_total = 1000000, ls_mem_used = 500000, ls_swap_used = 0,
     ls_top = [\<lparr>tp_name = Some ''bash'', tp_cpu = Some 3, tp_rss_kb = None\<rparr>,
       \<lparr>tp_name = Some ''Plex Media Server'', tp_cpu = Some 70, tp_rss_kb = None\<rparr>]\<rparr>"

definition plex_process :: heavy_process where
  "plex_process = \<lparr>hp_container = Some ''plex'', hp_service = None, hp_threshold = 50, hp_label = ''Plex''\<rparr>"

definition plex_containers :: string where
  "plex_containers = json_dumps True (JArr [JObj [(''name'', JStr ''plex''), (''state'', JStr ''running'')]])"

lemma plex_insight:
  "map_option ci_container (calculate_cpu_insight busy_snapshot [plex_process] (Some plex_containers) None) = Some (Some ''plex'')"
  by code_simp

theorem cpu_culprit_justified_witness:
  "\<exists>i. calculate_cpu_insight busy_snapshot [plex_process] (Some plex_containers) None = Some i \<and> ci_severity i = Warning \<and>
     (\<exists>tp. tp \<in> set (ls_top busy_snapshot) \<and> matches plex_process tp)"
proof -
  obtain i where i: "calculate_cpu_insight busy_snapshot [plex_process] (Some plex_containers) None = Some i" "ci_container i = Some ''plex''"
    using plex_insight by auto
  with cpu_culprit_justified [OF i(1)] show ?thesis by (auto simp: busy_snapshot_def)
qed

text \<open>
  A service of the profile is never recognised as running when the cached services have
  the fields of \<open>ServiceInfo\<close>: the rule reads the key \<open>service\<close>, the entries have \<open>name\<close>.
\<close>

lemma service_key_never_matches:
  assumes "\<forall>c \<in> set entries. json_get c ''service'' = None" and "active_names service_active ''service'' entries = Some ss"
  shows "\<not> named_in n ss"
proof -
  have "set ss \<subseteq> {None}" using assms
    by (induction entries arbitrary: ss) (auto split: option.splits if_splits)
  then show ?thesis by (auto simp: named_in_def split: option.splits)
qed

section \<open>Bounded prompt data: facts\<close>

fun strings_within :: "nat \<Rightarrow> json \<Rightarrow> bool" where
  "strings_within n (JStr s) \<longleftrightarrow> length s \<le> n"
| "strings_within n (JObj d) \<longleftrightarrow> (\<forall>kv \<in> set d. strings_within n (snd kv))"
| "strings_within n (JArr vs) \<longleftrightarrow> (\<forall>v \<in> set vs. strings_within n v)"
| "strings_within n v \<longleftrightarrow> True"

lemma truncate_bounded: "strings_within n (truncate_prompt_strings n v)"
  by (induction n v rule: truncate_prompt_strings.induct) (auto simp: case_prod_unfold)

lemma truncate_id: "strings_within n v \<Longrightarrow> truncate_prompt_strings n v = v"
  by (induction n v rule: truncate_prompt_strings.induct) (auto simp: case_prod_unfold intro!: map_idI)

text \<open>
  What is left of a cached list in a prompt: at most the allowed number of entries, all of
  them entries of the list, and an entry that is not preferred only when no preferred one
  was dropped.
\<close>

lemma trim_keeps_preferred:
  assumes "json_loads raw = Some (JArr items)" and "\<forall>v \<in> set items. json_plain v"
  shows "\<exists>kept. json_loads (trim_json_entries raw pref n m) = Some (JArr kept) \<and> length kept \<le> n \<and> set kept \<subseteq> set items \<and>
    ((\<exists>v \<in> set kept. \<not> is_preferred pref v) \<longrightarrow> (\<forall>v \<in> set items. is_preferred pref v \<longrightarrow> v \<in> set kept))"
proof -
  let ?p = "filter (is_preferred pref) items" and ?r = "filter (\<lambda>i. \<not> is_preferred pref i) items"
  let ?k = "take n (?p @ ?r)"
  have sub: "set ?k \<subseteq> set items" using set_take_subset [of n "?p @ ?r"] by auto
  then have "json_plain (JArr ?k)" using assms(2) by (auto simp: list_all_iff simp del: take_append)
  then have "json_loads (trim_json_entries raw pref n m) = Some (JArr ?k)"
    using json_loads_dumps assms(1) by (simp add: trim_json_entries_def del: json_dumps.simps)
  moreover have "\<forall>v \<in> set items. is_preferred pref v \<longrightarrow> v \<in> set ?k" if "\<exists>v \<in> set ?k. \<not> is_preferred pref v"
  proof -
    have "\<not> n \<le> length ?p"
    proof
      assume "n \<le> length ?p"
      then have "?k = take n ?p" by simp
      with that show False using set_take_subset [of n ?p] by auto
    qed
    then show ?thesis by auto
  qed
  ultimately show ?thesis using sub by (intro exI [of _ ?k]) auto
qed

end
