(* ===== verification/Insights.thy ===== *)
theory Insights
  imports Insight_Rules Proposal_Dispatcher
begin

text \<open>
  The insights manager (\<open>core/insights.py\<close>): the profile of a node from its services and
  containers, the profiling intents with their proposals, and \<open>get_insights\<close> with its
  response cache and its guard against two generations for one node. The classification by
  the language model and the serialisation of a profile by Pydantic are arguments, as is
  \<open>re.search\<close>; the 60 second timeout of a generation ends its task like a failure.
\<close>

section \<open>Profiles\<close>

datatype service_category = MEDIA | DATABASE | LLM | REVERSE_PROXY | CI_CD | SYSTEM | MONITORING | OTHER

record plugin_pattern =
  pp_container :: "string option"
  pp_service :: "string option"
  pp_category :: service_category
  pp_label :: string
  pp_threshold :: rat

record classified_service =
  cs_name :: string
  cs_type :: string
  cs_category :: service_category
  cs_label :: string
  cs_threshold :: rat

record classification =
  cl_services :: "classified_service list"
  cl_context :: string
  cl_baseline :: rat

record node_profile =
  np_node_id :: string
  np_heavy :: "heavy_process list"
  np_baseline :: rat
  np_context :: string
  np_via :: string

record insight_node =
  in_online :: bool
  in_profile :: "string option"
  in_profile_at :: "time option"
  in_services :: "string option"
  in_containers :: "string option"

definition entry_text :: "json \<Rightarrow> string \<Rightarrow> string option" where
  \<comment> \<open>\<open>entry.get(key, "")\<close> where the code needs a string\<close>
  "entry_text c k =
     (case json_get c k of None \<Rightarrow> Some [] | Some (JStr s) \<Rightarrow> Some s | Some _ \<Rightarrow> None)"

definition given :: "string option \<Rightarrow> string option" where
  \<comment> \<open>a pattern that is set and not empty\<close>
  "given p = (case p of Some (c # cs) \<Rightarrow> Some (c # cs) | _ \<Rightarrow> None)"

fun container_process :: "(string \<Rightarrow> string \<Rightarrow> bool) \<Rightarrow> plugin_pattern list \<Rightarrow> json \<Rightarrow> heavy_process option option" where
  \<comment> \<open>the first pattern that occurs in the name or the image; \<open>None\<close> where \<open>lower\<close> raises\<close>
  "container_process search [] c = Some None"
| "container_process search (p # ps) c =
     (case given (pp_container p) of
        None \<Rightarrow> container_process search ps c
      | Some re \<Rightarrow>
          (case entry_text c ''name'' of
             None \<Rightarrow> None
           | Some n \<Rightarrow>
               (let hit = Some (Some \<lparr>hp_container = Some n, hp_service = None, hp_threshold = pp_threshold p, hp_label = pp_label p\<rparr>)
                in if search re (lower n) then hit
                   else (case entry_text c ''image'' of
                           None \<Rightarrow> None
                         | Some img \<Rightarrow> if search re (lower img) then hit else container_process search ps c))))"

fun service_process :: "(string \<Rightarrow> string \<Rightarrow> bool) \<Rightarrow> plugin_pattern list \<Rightarrow> json \<Rightarrow> heavy_process option option" where
  "service_process search [] s = Some None"
| "service_process search (p # ps) s =
     (case given (pp_service p) of
        None \<Rightarrow> service_process search ps s
      | Some re \<Rightarrow>
          (case entry_text s ''name'' of
             None \<Rightarrow> None
           | Some n \<Rightarrow>
               if search re (lower n)
               then Some (Some \<lparr>hp_container = None, hp_service = Some n, hp_threshold = pp_threshold p, hp_label = pp_label p\<rparr>)
               else service_process search ps s))"

fun collect_processes :: "(json \<Rightarrow> heavy_process option option) \<Rightarrow> json list \<Rightarrow> heavy_process list option" where
  \<comment> \<open>one loop over entries; an entry that is not an object has no \<open>get\<close>\<close>
  "collect_processes f [] = Some []"
| "collect_processes f (c # cs) =
     (case c of
        JObj _ \<Rightarrow>
          (case f c of
             None \<Rightarrow> None
           | Some r \<Rightarrow> map_option (\<lambda>hs. (case r of None \<Rightarrow> hs | Some h \<Rightarrow> h # hs)) (collect_processes f cs))
      | _ \<Rightarrow> None)"

definition classify_services_fallback ::
  "(string \<Rightarrow> string \<Rightarrow> bool) \<Rightarrow> plugin_pattern list \<Rightarrow> json list \<Rightarrow> json list \<Rightarrow> heavy_process list option" where
  "classify_services_fallback search patterns services containers =
     (case collect_processes (container_process search patterns) containers of
        None \<Rightarrow> None
      | Some cs \<Rightarrow> map_option (\<lambda>ss. cs @ ss) (collect_processes (service_process search patterns) services))"

definition classified_of :: "heavy_process \<Rightarrow> classified_service" where
  "classified_of h =
     \<lparr>cs_name = text_or (hp_container h) (text_or (hp_service h) []),
      cs_type = (case hp_container h of Some (c # cs) \<Rightarrow> ''container'' | _ \<Rightarrow> ''systemd''),
      cs_category = OTHER, cs_label = hp_label h, cs_threshold = hp_threshold h\<rparr>"

definition stored_context :: "string option \<Rightarrow> string option" where
  \<comment> \<open>\<open>None\<close> where the stored profile is JSON but not an object, or its label is no string\<close>
  "stored_context stored =
     (case stored of
        None \<Rightarrow> Some ''Serveur homelab''
      | Some t \<Rightarrow>
          if t = [] then Some ''Serveur homelab''
          else (case json_loads t of
                  None \<Rightarrow> Some ''Serveur homelab''
                | Some (JObj d) \<Rightarrow>
                    (case map_of d ''context_label'' of
                       None \<Rightarrow> Some ''Serveur homelab'' | Some (JStr s) \<Rightarrow> Some s | Some _ \<Rightarrow> None)
                | Some _ \<Rightarrow> None))"

definition classify_node_services ::
  "(string \<Rightarrow> string \<Rightarrow> bool) \<Rightarrow> plugin_pattern list \<Rightarrow> classification option \<Rightarrow> insight_node \<Rightarrow> json list \<Rightarrow> json list \<Rightarrow> classification option" where
  \<comment> \<open>\<open>llm\<close> is the answer of a configured model that did not fail\<close>
  "classify_node_services search patterns llm node services containers =
     (case llm of
        Some c \<Rightarrow> Some c
      | None \<Rightarrow>
          (case (classify_services_fallback search patterns services containers, stored_context (in_profile node)) of
             (Some hs, Some ctx) \<Rightarrow> Some \<lparr>cl_services = map classified_of hs, cl_context = ctx, cl_baseline = 65\<rparr>
           | _ \<Rightarrow> None))"

definition heavy_of :: "classified_service \<Rightarrow> heavy_process" where
  "heavy_of s =
     \<lparr>hp_container = (if cs_type s = ''container'' then Some (cs_name s) else None),
      hp_service = (if cs_type s = ''systemd'' then Some (cs_name s) else None),
      hp_threshold = cs_threshold s, hp_label = cs_label s\<rparr>"

definition profile_of :: "string \<Rightarrow> bool \<Rightarrow> classification \<Rightarrow> node_profile" where
  "profile_of nid llm_configured c =
     \<lparr>np_node_id = nid, np_heavy = map heavy_of (cl_services c), np_baseline = cl_baseline c, np_context = cl_context c,
      np_via = (if llm_configured then ''llm'' else ''heuristic'')\<rparr>"

definition generate_fallback_profile ::
  "(string \<Rightarrow> string \<Rightarrow> bool) \<Rightarrow> plugin_pattern list \<Rightarrow> string \<Rightarrow> json list \<Rightarrow> json list \<Rightarrow> node_profile option" where
  "generate_fallback_profile search patterns nid services containers =
     map_option (\<lambda>hs. \<lparr>np_node_id = nid, np_heavy = hs, np_baseline = 65, np_context = ''Serveur homelab'', np_via = ''heuristic''\<rparr>)
       (classify_services_fallback search patterns services containers)"

definition live_or_cached :: "insight_node \<Rightarrow> json list \<Rightarrow> json list option \<Rightarrow> json list" where
  \<comment> \<open>\<open>live\<close> is the parsed answer of the worker when the query succeeded\<close>
  "live_or_cached node cached live =
     (if in_online node \<and> cached = [] then (case live of None \<Rightarrow> cached | Some xs \<Rightarrow> xs) else cached)"

definition generate_profile_impl ::
  "(string \<Rightarrow> string \<Rightarrow> bool) \<Rightarrow> plugin_pattern list \<Rightarrow> (node_profile \<Rightarrow> string) \<Rightarrow> bool \<Rightarrow> classification option \<Rightarrow>
     json list option \<Rightarrow> json list option \<Rightarrow> time \<Rightarrow> string \<Rightarrow> insight_node \<Rightarrow> (node_profile \<times> insight_node) option" where
  "generate_profile_impl search patterns dump llm_configured llm live_s live_c now nid node =
     (let services = live_or_cached node (load_cached_json (in_services node)) live_s;
          containers = live_or_cached node (load_cached_json (in_containers node)) live_c
      in map_option (\<lambda>c.
           let profile = profile_of nid llm_configured c
           in (profile,
               node\<lparr>in_profile := Some (dump profile), in_profile_at := Some now,
                    in_services := (if services = [] then in_services node else Some (json_dumps_spaced (JArr services))),
                    in_containers := (if containers = [] then in_containers node else Some (json_dumps_spaced (JArr containers)))\<rparr>))
         (classify_node_services search patterns llm node services containers))"

section \<open>Profiling intents\<close>

datatype query_reply = Reply "(string, json) dict" | Query_Error string | Other_Raise

record profiling_io =
  pio_id :: string
  pio_now :: time
  pio_executed :: time
  pio_updated :: time
  pio_audit_now :: time
  pio_audit_id :: string

definition profiling_proposal :: "profiling_io \<Rightarrow> string \<Rightarrow> string \<Rightarrow> (string, json) dict \<Rightarrow> action_proposal" where
  "profiling_proposal io nid action params =
     (new_proposal (pio_id io) nid action params (pio_now io))
       \<lparr>p_reasoning := ''Profiling intent (auto-approved, read-only).'', p_risk_level := ''LOW'', p_status := APPROVED,
        p_created_by := ''insights'', p_approved_by := Some ''system''\<rparr>"

definition profiling_audit :: "profiling_io \<Rightarrow> string \<Rightarrow> action_proposal \<Rightarrow> audit_request" where
  "profiling_audit io nid p =
     \<lparr>ar_user_id = ''system'', ar_action = audit_action_str AA_AUTOMATION_TRIGGERED, ar_node_id = Some nid,
      ar_details = JObj [(''proposal_id'', JStr (p_id p)), (''action'', JStr (p_action p)),
        (''status'', JStr (proposal_status_str (p_status p)))],
      ar_now = pio_audit_now io, ar_uuid = pio_audit_id io\<rparr>"

definition auto_profiling_intent ::
  "hash \<Rightarrow> profiling_io \<Rightarrow> query_reply \<Rightarrow> string \<Rightarrow> string \<Rightarrow> (string, json) dict \<Rightarrow> master_db \<Rightarrow>
     (string, json) dict option \<times> master_db" where
  \<comment> \<open>\<open>None\<close> when an exception leaves the method\<close>
  "auto_profiling_intent H io reply nid action params db =
     (let p = profiling_proposal io nid action params;
          db1 = db\<lparr>proposals := proposals db @ [to_db_dict p]\<rparr>;
          finish = (\<lambda>q result.
            let db2 = db1\<lparr>proposals := persist_result (p_id p) (to_db_dict q) (proposals db1)\<rparr>;
                logged = log_action H (profiling_audit io nid q) [] (audit db2);
                db3 = db2\<lparr>audit := snd logged\<rparr>
            in (case fst logged of Inl _ \<Rightarrow> None | Inr _ \<Rightarrow> Some result, db3))
      in case reply of
           Other_Raise \<Rightarrow> (None, db1)
         | Reply d \<Rightarrow> finish p d
         | Query_Error e \<Rightarrow>
             (case complete False [(''error'', JStr e)] (pio_executed io) (pio_updated io) p of
                Inl _ \<Rightarrow> (None, db1)
              | Inr q \<Rightarrow> finish q (error_result e)))"

section \<open>The response\<close>

record data_window =
  dw_hours :: rat
  dw_count :: nat
  dw_ready :: bool
  dw_first :: "time option"
  dw_last :: "time option"

definition OBSERVATION_THRESHOLDS :: "(string \<times> rat) list" where
  "OBSERVATION_THRESHOLDS = [(''cpu'', 2), (''ram'', 2), (''disk'', 24), (''profile'', 24)]"

definition compute_data_window :: "time list option \<Rightarrow> data_window" where
  \<comment> \<open>the times of the snapshots of the node, \<open>None\<close> when the query raises\<close>
  "compute_data_window collected =
     (case collected of
        Some (t # ts) \<Rightarrow>
          (let lo = Min (set (t # ts)); hi = Max (set (t # ts)); hours = (hi - lo) / 3600
           in \<lparr>dw_hours = hours, dw_count = length (t # ts), dw_ready = (2 \<le> hours), dw_first = Some lo, dw_last = Some hi\<rparr>)
      | _ \<Rightarrow> \<lparr>dw_hours = 0, dw_count = 0, dw_ready = False, dw_first = None, dw_last = None\<rparr>)"

definition compute_profile_confidence :: "bool \<Rightarrow> data_window \<Rightarrow> confidence" where
  "compute_profile_confidence has_profile w =
     (if \<not> has_profile then No_Confidence
      else if dw_count w = 0 then Low
      else if dw_hours w < 2 then Low
      else if dw_hours w < 24 then Medium
      else High)"

record insight_snapshot =
  is_collected_at :: time
  is_disk :: disk_latest
  is_load :: load_snapshot

record full_response =
  fr_disk :: "disk_insight option"
  fr_cpu :: cpu_insight
  fr_ram :: ram_insight
  fr_hours :: rat
  fr_ready :: bool
  fr_confidence :: confidence
  fr_next_refresh :: "time option"
  fr_generated_at :: "time option"
  fr_readiness :: "(string \<times> bool \<times> rat \<times> rat) list"

datatype response =
    Node_Unknown
  | Profile_Running rat bool
  | Profile_Missing rat bool
  | Waiting_For_Metrics "time option"
  | Full full_response

type_synonym cache_key = "string \<times> time \<times> time \<times> string"

record insights_manager =
  im_profiling :: "string list"
  im_cache :: "(string, cache_key \<times> time \<times> response) dict"

record insight_call =
  ic_node_id :: string
  ic_locale :: string
  ic_node :: "insight_node option"
  ic_times :: "time list option"
  ic_latest :: "insight_snapshot option"
  ic_history :: "disk_snapshot list"
  ic_age_now :: time
  ic_cache_now :: time
  ic_store_now :: time

datatype origin = Direct | Cached | Computed cache_key

definition or_zero :: "time option \<Rightarrow> time" where
  "or_zero t = (case t of None \<Rightarrow> 0 | Some x \<Rightarrow> x)"

definition format_profile_ts :: "time \<Rightarrow> time option" where
  \<comment> \<open>the moment that is printed, or null\<close>
  "format_profile_ts t = (if t = 0 then None else Some t)"

definition cache_key_of :: "insight_call \<Rightarrow> insight_node \<Rightarrow> cache_key" where
  "cache_key_of c node =
     (ic_node_id c, (case ic_latest c of None \<Rightarrow> 0 | Some s \<Rightarrow> is_collected_at s), or_zero (in_profile_at node), ic_locale c)"

definition INSIGHTS_CACHE_TTL :: time where
  "INSIGHTS_CACHE_TTL = 300"

definition cached_response :: "insight_call \<Rightarrow> insight_node \<Rightarrow> insights_manager \<Rightarrow> response option" where
  "cached_response c node m =
     (case map_of (im_cache m) (ic_node_id c) of
        None \<Rightarrow> None
      | Some (k, t, r) \<Rightarrow> if k = cache_key_of c node \<and> ic_cache_now c - t < INSIGHTS_CACHE_TTL then Some r else None)"

definition full_insights :: "insight_call \<Rightarrow> insight_node \<Rightarrow> node_profile \<Rightarrow> insight_snapshot \<Rightarrow> full_response option" where
  "full_insights c node profile snap =
     (let w = compute_data_window (ic_times c); gen_at = or_zero (in_profile_at node)
      in map_option (\<lambda>cpu.
           \<lparr>fr_disk = calculate_disk_insight (is_disk snap) (ic_history c), fr_cpu = cpu,
            fr_ram = calculate_ram_insight (is_load snap) (np_baseline profile),
            fr_hours = py_round (dw_hours w) 1, fr_ready = dw_ready w,
            fr_confidence = compute_profile_confidence True w,
            fr_next_refresh = (if gen_at = 0 then None else Some (gen_at + 24 * 3600)),
            fr_generated_at = format_profile_ts gen_at,
            fr_readiness = map (\<lambda>(ty, th). (ty, th \<le> dw_hours w, py_round (dw_hours w) 1, th)) OBSERVATION_THRESHOLDS\<rparr>)
         (calculate_cpu_insight (is_load snap) (np_heavy profile) (in_containers node) (in_services node)))"

definition spawn_profile :: "string \<Rightarrow> insights_manager \<Rightarrow> string list \<times> insights_manager" where
  \<comment> \<open>the nodes a background generation is started for\<close>
  "spawn_profile nid m =
     (if nid \<in> set (im_profiling m) then ([], m) else ([nid], m\<lparr>im_profiling := nid # im_profiling m\<rparr>))"

definition get_insights ::
  "(string \<Rightarrow> node_profile option) \<Rightarrow> insight_call \<Rightarrow> insights_manager \<Rightarrow> (response \<times> origin) option \<times> string list \<times> insights_manager" where
  \<comment> \<open>\<open>None\<close> when an exception leaves the method\<close>
  "get_insights parse c m =
     (case ic_node c of
        None \<Rightarrow> (Some (Node_Unknown, Direct), [], m)
      | Some node \<Rightarrow>
          (let w = compute_data_window (ic_times c)
           in case given (in_profile node) of
                None \<Rightarrow>
                  if in_online node then
                    (let (started, m1) = spawn_profile (ic_node_id c) m
                     in (Some (Profile_Running (py_round (dw_hours w) 1) (dw_ready w), Direct), started, m1))
                  else (Some (Profile_Missing (py_round (dw_hours w) 1) (dw_ready w), Direct), [], m)
              | Some text \<Rightarrow>
                  (case parse text of
                     None \<Rightarrow> (None, [], m)
                   | Some profile \<Rightarrow>
                       (let gen_at = or_zero (in_profile_at node);
                            (started, m1) = (if 12 * 3600 < ic_age_now c - gen_at \<and> in_online node
                                             then spawn_profile (ic_node_id c) m else ([], m))
                        in case cached_response c node m1 of
                             Some r \<Rightarrow> (Some (r, Cached), started, m1)
                           | None \<Rightarrow>
                               (case ic_latest c of
                                  None \<Rightarrow> (Some (Waiting_For_Metrics (format_profile_ts gen_at), Direct), started, m1)
                                | Some snap \<Rightarrow>
                                    (case full_insights c node profile snap of
                                       None \<Rightarrow> (None, started, m1)
                                     | Some fr \<Rightarrow>
                                         (Some (Full fr, Computed (cache_key_of c node)), started,
                                          m1\<lparr>im_cache := AList.update (ic_node_id c)
                                               (cache_key_of c node, ic_store_now c, Full fr) (im_cache m1)\<rparr>)))))))"

definition invalidate_cache :: "string \<Rightarrow> insights_manager \<Rightarrow> insights_manager" where
  "invalidate_cache nid m = m\<lparr>im_cache := AList.delete nid (im_cache m)\<rparr>"

definition profile_done :: "string \<Rightarrow> insights_manager \<Rightarrow> insights_manager" where
  \<comment> \<open>the callback of a finished generation\<close>
  "profile_done nid m = m\<lparr>im_profiling := removeAll nid (im_profiling m)\<rparr>"

section \<open>Interleaved requests\<close>

text \<open>
  Requests, finished generations and invalidations in any order. The running generations
  and the responses that were computed, with their key and time, are history.
\<close>

record insight_world =
  iw_manager :: insights_manager
  iw_running :: "string list"
  iw_computed :: "(cache_key \<times> time \<times> response) list"

definition serve :: "(string \<Rightarrow> node_profile option) \<Rightarrow> insight_call \<Rightarrow> insight_world \<Rightarrow> insight_world" where
  "serve parse c w =
     (let (res, started, m) = get_insights parse c (iw_manager w)
      in w\<lparr>iw_manager := m, iw_running := started @ iw_running w,
           iw_computed := (case res of Some (r, Computed k) \<Rightarrow> (k, ic_store_now c, r) # iw_computed w | _ \<Rightarrow> iw_computed w)\<rparr>)"

inductive insight_step :: "(string \<Rightarrow> node_profile option) \<Rightarrow> insight_world \<Rightarrow> insight_world \<Rightarrow> bool" for parse where
  request: "insight_step parse w (serve parse c w)"
| generated: "n \<in> set (iw_running w) \<Longrightarrow>
    insight_step parse w (w\<lparr>iw_running := remove1 n (iw_running w), iw_manager := profile_done n (iw_manager w)\<rparr>)"
| invalidated: "insight_step parse w (w\<lparr>iw_manager := invalidate_cache n (iw_manager w)\<rparr>)"

inductive_cases insight_stepE: "insight_step parse w w'"

definition insight_start :: "insight_world \<Rightarrow> bool" where
  "insight_start w \<longleftrightarrow> w = \<lparr>iw_manager = \<lparr>im_profiling = [], im_cache = []\<rparr>, iw_running = [], iw_computed = []\<rparr>"

definition insight_inv :: "insight_world \<Rightarrow> bool" where
  "insight_inv w \<longleftrightarrow>
     distinct (iw_running w) \<and> set (im_profiling (iw_manager w)) = set (iw_running w) \<and>
     (\<forall>n k t r. map_of (im_cache (iw_manager w)) n = Some (k, t, r) \<longrightarrow> fst k = n \<and> (k, t, r) \<in> set (iw_computed w))"

lemma spawn_profile_cases:
  "spawn_profile n m = (st, m1) \<Longrightarrow>
   im_cache m1 = im_cache m \<and> distinct st \<and> set st \<inter> set (im_profiling m) = {} \<and> set (im_profiling m1) = set st \<union> set (im_profiling m)"
  by (auto simp: spawn_profile_def split: if_splits)

lemma get_insights_effect:
  assumes "get_insights parse c m = (res, started, m')"
  shows "distinct started \<and> set started \<inter> set (im_profiling m) = {} \<and> set (im_profiling m') = set started \<union> set (im_profiling m) \<and>
    (case res of
       Some (r, Computed k) \<Rightarrow> fst k = ic_node_id c \<and> im_cache m' = AList.update (ic_node_id c) (k, ic_store_now c, r) (im_cache m)
     | _ \<Rightarrow> im_cache m' = im_cache m)"
  using assms
  by (auto simp: get_insights_def cache_key_of_def Let_def split: option.splits if_splits prod.splits dest!: spawn_profile_cases)

lemma serve_inv:
  assumes "insight_inv w"
  shows "insight_inv (serve parse c w)"
proof -
  obtain res started m where g: "get_insights parse c (iw_manager w) = (res, started, m)" by (metis prod_cases3)
  note e = get_insights_effect [OF g]
  show ?thesis using assms e
    by (auto simp: insight_inv_def serve_def g py_dict split: option.splits origin.splits if_splits)
qed

lemma done_inv:
  "insight_inv w \<Longrightarrow> insight_inv (w\<lparr>iw_running := remove1 n (iw_running w), iw_manager := profile_done n (iw_manager w)\<rparr>)"
  by (simp add: insight_inv_def profile_done_def)

lemma invalidate_inv: "insight_inv w \<Longrightarrow> insight_inv (w\<lparr>iw_manager := invalidate_cache n (iw_manager w)\<rparr>)"
  by (auto simp: insight_inv_def invalidate_cache_def py_dict)

lemma insight_inv_step: "insight_inv w \<Longrightarrow> insight_step parse w w' \<Longrightarrow> insight_inv w'"
  by (erule insight_stepE) (simp_all add: serve_inv done_inv invalidate_inv)

interpretation insight_run: inductive_invariant insight_start "insight_step parse" insight_inv for parse
proof unfold_locales
  fix w w'
  show "insight_start w \<Longrightarrow> insight_inv w" by (simp add: insight_start_def insight_inv_def)
  show "insight_inv w \<Longrightarrow> insight_step parse w w' \<Longrightarrow> insight_inv w'" by (rule insight_inv_step)
qed

text \<open>
  In every run at most one generation of a profile is running for a node, and a response
  that is served from the cache was computed by an earlier request for the same node,
  metrics snapshot, profile and language, less than 300 seconds ago.
\<close>
theorem insights_cache_and_guard:
  assumes "reachable insight_start (insight_step parse) w"
  shows "distinct (iw_running w) \<and>
    (\<forall>c node r started m. ic_node c = Some node \<and> get_insights parse c (iw_manager w) = (Some (r, Cached), started, m) \<longrightarrow>
       (\<exists>t. (cache_key_of c node, t, r) \<in> set (iw_computed w) \<and> ic_cache_now c < t + 300))"
proof -
  have inv: "insight_inv w" by (rule insight_run.reachable_inv [OF assms])
  have "\<exists>t. (cache_key_of c node, t, r) \<in> set (iw_computed w) \<and> ic_cache_now c < t + 300"
    if n: "ic_node c = Some node" and g: "get_insights parse c (iw_manager w) = (Some (r, Cached), started, m)" for c node r started m
  proof -
    obtain m1 where "im_cache m1 = im_cache (iw_manager w)" and "cached_response c node m1 = Some r"
      using g n by (auto simp: get_insights_def Let_def split: option.splits if_splits prod.splits dest!: spawn_profile_cases)
    then obtain t where "map_of (im_cache (iw_manager w)) (ic_node_id c) = Some (cache_key_of c node, t, r)" "ic_cache_now c - t < 300"
      by (auto simp: cached_response_def INSIGHTS_CACHE_TTL_def split: option.splits if_splits)
    with inv have "(cache_key_of c node, t, r) \<in> set (iw_computed w)" unfolding insight_inv_def by blast
    with \<open>ic_cache_now c - t < 300\<close> show ?thesis by (intro exI [of _ t]) simp
  qed
  with inv show ?thesis by (auto simp: insight_inv_def)
qed

definition sample_profile :: node_profile where
  "sample_profile = \<lparr>np_node_id = ''n1'', np_heavy = [plex_process], np_baseline = 65, np_context = ''Serveur homelab'', np_via = ''heuristic''\<rparr>"

definition sample_call :: "time \<Rightarrow> insight_call" where
  "sample_call now = \<lparr>ic_node_id = ''n1'', ic_locale = ''fr'',
     ic_node = Some \<lparr>in_online = True, in_profile = Some ''p'', in_profile_at = Some 100000, in_services = None, in_containers = Some plex_containers\<rparr>,
     ic_times = Some [0, 7200],
     ic_latest = Some \<lparr>is_collected_at = 7200, is_disk = \<lparr>dl_total_bytes = 0, dl_used_bytes = 0, dl_percent = 0\<rparr>, is_load = busy_snapshot\<rparr>,
     ic_history = [], ic_age_now = now, ic_cache_now = now, ic_store_now = now\<rparr>"

definition first_world :: insight_world where
  "first_world = serve (\<lambda>_. Some sample_profile) (sample_call 100050)
     \<lparr>iw_manager = \<lparr>im_profiling = [], im_cache = []\<rparr>, iw_running = [], iw_computed = []\<rparr>"

lemma first_world_reachable: "reachable insight_start (insight_step (\<lambda>_. Some sample_profile)) first_world"
  unfolding first_world_def
  by (rule reachable.next_state [where s = "\<lparr>iw_manager = \<lparr>im_profiling = [], im_cache = []\<rparr>, iw_running = [], iw_computed = []\<rparr>"])
    (auto intro: reachable.start insight_step.request simp: insight_start_def)

lemma second_call_cached:
  "map_option snd (fst (get_insights (\<lambda>_. Some sample_profile) (sample_call 100100) (iw_manager first_world))) = Some Cached"
  by code_simp

theorem insights_cache_and_guard_witness:
  "\<exists>r t. (''n1'', 7200, 100000, ''fr'') \<in> {fst x | x. x \<in> set (iw_computed first_world) \<and> fst (snd x) = t \<and> snd (snd x) = r} \<and> 100100 < t + 300"
proof -
  let ?g = "get_insights (\<lambda>_. Some sample_profile) (sample_call 100100) (iw_manager first_world)"
  obtain r where "fst ?g = Some (r, Cached)" using second_call_cached by auto
  then obtain st m where g: "?g = (Some (r, Cached), st, m)" by (metis prod.collapse)
  obtain node where n: "ic_node (sample_call 100100) = Some node" and k: "cache_key_of (sample_call 100100) node = (''n1'', 7200, 100000, ''fr'')"
    by (simp add: sample_call_def cache_key_of_def or_zero_def)
  from insights_cache_and_guard [OF first_world_reachable] n g
  obtain t where "(cache_key_of (sample_call 100100) node, t, r) \<in> set (iw_computed first_world)" "ic_cache_now (sample_call 100100) < t + 300" by blast
  then show ?thesis unfolding k by (force simp: sample_call_def)
qed

section \<open>Profiling proposals\<close>

text \<open>
  A profiling query that fails is recorded as FAILED. One that succeeds is not completed:
  its proposal stays APPROVED and unclaimed, and the dispatcher would send it again.
\<close>

lemma profiling_row:
  assumes "row_of (pio_id io) (proposals db) = None"
  shows "row_of (pio_id io) (proposals (snd (auto_profiling_intent H io reply nid action params db))) =
    Some (case reply of
        Query_Error e \<Rightarrow> to_db_dict ((profiling_proposal io nid action params)
          \<lparr>p_status := FAILED, p_executed_at := Some (pio_executed io), p_result := Some [(''error'', JStr e)], p_updated_at := pio_updated io\<rparr>)
      | _ \<Rightarrow> to_db_dict (profiling_proposal io nid action params))"
proof -
  let ?p = "profiling_proposal io nid action params"
  have "row_of (pio_id io) (proposals db @ [to_db_dict ?p]) = Some (to_db_dict ?p)"
    by (rule row_of_append_new [OF assms]) (simp add: profiling_proposal_def new_proposal_def)
  then show ?thesis
    by (auto simp: auto_profiling_intent_def Let_def complete_def row_of_persist profiling_proposal_def new_proposal_def
        persist_set_def to_db_dict_def split: query_reply.split sum.split)
qed

lemma profiling_proposal_left_dispatchable:
  assumes "row_of (pio_id io) (proposals db) = None" and "json_plain (JObj params)"
  shows "\<exists>p. dispatchable (pio_id io) (proposals (snd (auto_profiling_intent H io (Reply d) nid action params db))) p"
proof -
  let ?p = "profiling_proposal io nid action params"
  have "from_db_row (to_db_dict ?p) = Inr ?p"
    using from_to_db_row [of ?p] assms(2) by (simp add: profiling_proposal_def new_proposal_def)
  then show ?thesis
    unfolding dispatchable_def profiling_row [OF assms(1)] by (simp add: profiling_proposal_def new_proposal_def)
qed

section \<open>The two ways to a heuristic profile\<close>

lemma heavy_of_classified:
  assumes "hp_container h = None \<and> hp_service h \<noteq> None \<or> hp_container h \<noteq> None \<and> hp_container h \<noteq> Some [] \<and> hp_service h = None"
  shows "heavy_of (classified_of h) = h"
  using assms
  by (cases h) (auto simp: heavy_of_def classified_of_def text_or_def split: list.splits option.splits)

lemma container_process_form:
  "container_process search ps c = Some (Some h) \<Longrightarrow>
   \<exists>n. entry_text c ''name'' = Some n \<and> hp_container h = Some n \<and> hp_service h = None"
  by (induction ps) (auto simp: Let_def split: option.splits if_splits)

lemma service_process_form:
  "service_process search ps c = Some (Some h) \<Longrightarrow> hp_container h = None \<and> hp_service h \<noteq> None"
  by (induction ps) (auto simp: Let_def split: option.splits if_splits)

lemma collect_processes_in:
  "collect_processes f cs = Some hs \<Longrightarrow> h \<in> set hs \<Longrightarrow> \<exists>c \<in> set cs. f c = Some (Some h)"
  by (induction cs arbitrary: hs) (auto split: json.splits option.splits)

text \<open>
  Without an answer of the language model the stored profile names the same heavy
  processes as \<open>generate_fallback_profile\<close>, through the classification and back, when the
  containers have names.
\<close>
theorem profile_paths_agree:
  assumes "generate_profile_impl search patterns dump conf None live_s live_c now nid node = Some (profile, node')"
    and "\<forall>c \<in> set (live_or_cached node (load_cached_json (in_containers node)) live_c). entry_text c ''name'' \<noteq> Some []"
  shows "\<exists>fallback. generate_fallback_profile search patterns nid
      (live_or_cached node (load_cached_json (in_services node)) live_s)
      (live_or_cached node (load_cached_json (in_containers node)) live_c) = Some fallback \<and>
    np_heavy profile = np_heavy fallback \<and> np_baseline profile = np_baseline fallback \<and>
    in_profile node' = Some (dump profile) \<and> in_profile_at node' = Some now"
proof -
  let ?s = "live_or_cached node (load_cached_json (in_services node)) live_s"
  let ?c = "live_or_cached node (load_cached_json (in_containers node)) live_c"
  obtain hs ctx where hs: "classify_services_fallback search patterns ?s ?c = Some hs"
    and p: "np_heavy profile = map (\<lambda>h. heavy_of (classified_of h)) hs" "np_baseline profile = 65"
      "in_profile node' = Some (dump profile)" "in_profile_at node' = Some now"
    using assms(1)
    by (auto simp: generate_profile_impl_def classify_node_services_def profile_of_def Let_def comp_def split: option.splits)
  have "heavy_of (classified_of h) = h" if "h \<in> set hs" for h
  proof (rule heavy_of_classified)
    obtain xs ys where xs: "collect_processes (container_process search patterns) ?c = Some xs"
      and ys: "collect_processes (service_process search patterns) ?s = Some ys" and "hs = xs @ ys"
      using hs by (auto simp: classify_services_fallback_def split: option.splits)
    with that consider "h \<in> set xs" | "h \<in> set ys" by auto
    then show "hp_container h = None \<and> hp_service h \<noteq> None \<or> hp_container h \<noteq> None \<and> hp_container h \<noteq> Some [] \<and> hp_service h = None"
    proof cases
      case 1
      from collect_processes_in [OF xs this] obtain c where c: "c \<in> set ?c" "container_process search patterns c = Some (Some h)" by blast
      with container_process_form [OF c(2)] assms(2) show ?thesis by auto
    next
      case 2
      from collect_processes_in [OF ys this] show ?thesis using service_process_form by blast
    qed
  qed
  then have "map (\<lambda>h. heavy_of (classified_of h)) hs = hs" by (simp add: map_idI)
  with hs p show ?thesis by (simp add: generate_fallback_profile_def)
qed

definition plex_pattern :: plugin_pattern where
  "plex_pattern = \<lparr>pp_container = Some ''plex'', pp_service = None, pp_category = MEDIA, pp_label = ''Plex'', pp_threshold = 50\<rparr>"

definition plex_node :: insight_node where
  "plex_node = \<lparr>in_online = False, in_profile = None, in_profile_at = None, in_services = None, in_containers = Some plex_containers\<rparr>"

lemma plex_profile:
  "map_option (np_heavy \<circ> fst) (generate_profile_impl is_infix_of [plex_pattern] np_context False None None None 5 ''n1'' plex_node) = Some [plex_process]"
  by code_simp

lemma plex_names: "list_all (\<lambda>c. entry_text c ''name'' \<noteq> Some []) (live_or_cached plex_node (load_cached_json (in_containers plex_node)) None)"
  by code_simp

theorem profile_paths_agree_witness:
  "\<exists>fallback. generate_fallback_profile is_infix_of [plex_pattern] ''n1''
      (live_or_cached plex_node (load_cached_json (in_services plex_node)) None)
      (live_or_cached plex_node (load_cached_json (in_containers plex_node)) None) = Some fallback \<and>
    np_heavy fallback = [plex_process]"
proof -
  obtain profile node' where g: "generate_profile_impl is_infix_of [plex_pattern] np_context False None None None 5 ''n1'' plex_node = Some (profile, node')"
    and h: "np_heavy profile = [plex_process]" using plex_profile by auto
  from profile_paths_agree [OF g] plex_names h show ?thesis unfolding list_all_iff by metis
qed

text \<open>The profile claims to come from the language model whenever one is configured, also when it failed.\<close>

lemma failed_llm_profile_marked_llm:
  "generate_profile_impl search patterns dump True None live_s live_c now nid node = Some (profile, node') \<Longrightarrow> np_via profile = ''llm''"
  by (auto simp: generate_profile_impl_def profile_of_def Let_def)

end
