(* ===== verification/Block_Resolver.thy ===== *)
theory Block_Resolver
  imports Py_Prelude
begin

text \<open>
  The closed resolver of block data sources (\<open>core/block_resolver.py\<close>): handlers are
  registered, the registry is frozen, and only then are keys resolved. A handler is a
  function of context and configuration; a value that is not callable is \<open>Not_Callable\<close>.
\<close>

datatype ('c, 'r) handler = Handler "'c \<Rightarrow> 'r" | Not_Callable

record ('c, 'r) block_resolver =
  br_registry :: "(string, 'c \<Rightarrow> 'r) dict"
  br_frozen :: "(string, 'c \<Rightarrow> 'r) dict option"

datatype resolver_error = Block_Not_Found string | Resolver_Frozen string | Resolver_Not_Frozen | Handler_Type string | Duplicate_Key string

definition new_resolver :: "('c, 'r) block_resolver" where
  "new_resolver = \<lparr>br_registry = [], br_frozen = None\<rparr>"

definition FROZEN :: "('c, 'r) block_resolver \<Rightarrow> resolver_error + (string, 'c \<Rightarrow> 'r) dict" where
  "FROZEN b = (case br_frozen b of None \<Rightarrow> Inl Resolver_Not_Frozen | Some d \<Rightarrow> Inr d)"

definition register_block ::
  "string \<Rightarrow> ('c, 'r) handler \<Rightarrow> ('c, 'r) block_resolver \<Rightarrow> resolver_error + ('c, 'r) block_resolver" where
  "register_block key h b =
     (if br_frozen b \<noteq> None then Inl (Resolver_Frozen key)
      else (case h of
              Not_Callable \<Rightarrow> Inl (Handler_Type key)
            | Handler f \<Rightarrow>
                if map_of (br_registry b) key \<noteq> None then Inl (Duplicate_Key key)
                else Inr (b\<lparr>br_registry := AList.update key f (br_registry b)\<rparr>)))"

definition freeze :: "('c, 'r) block_resolver \<Rightarrow> ('c, 'r) block_resolver" where
  "freeze b = (if br_frozen b = None then b\<lparr>br_frozen := Some (br_registry b)\<rparr> else b)"

definition resolve :: "string \<Rightarrow> 'c \<Rightarrow> ('c, 'r) block_resolver \<Rightarrow> resolver_error + 'r" where
  "resolve key ctx b =
     (case FROZEN b of
        Inl e \<Rightarrow> Inl e
      | Inr d \<Rightarrow> (case map_of d key of None \<Rightarrow> Inl (Block_Not_Found key) | Some f \<Rightarrow> Inr (f ctx)))"

section \<open>Sequences of calls\<close>

datatype ('c, 'r) resolver_call = Register string "('c, 'r) handler" | Freeze | Resolve string 'c

definition resolver_step :: "('c, 'r) resolver_call \<Rightarrow> ('c, 'r) block_resolver \<Rightarrow> ('c, 'r) block_resolver" where
  \<comment> \<open>the state after a call, unchanged when it raises\<close>
  "resolver_step c b =
     (case c of
        Register k h \<Rightarrow> (case register_block k h b of Inl _ \<Rightarrow> b | Inr b' \<Rightarrow> b')
      | Freeze \<Rightarrow> freeze b
      | Resolve k ctx \<Rightarrow> b)"

definition resolver_run :: "('c, 'r) resolver_call list \<Rightarrow> ('c, 'r) block_resolver \<Rightarrow> ('c, 'r) block_resolver" where
  "resolver_run cs b = fold resolver_step cs b"

fun first_registered :: "string \<Rightarrow> ('c, 'r) resolver_call list \<Rightarrow> ('c \<Rightarrow> 'r) option" where
  \<comment> \<open>the first callable registered under the key before the first freeze\<close>
  "first_registered k [] = None"
| "first_registered k (Register k' (Handler f) # cs) = (if k' = k then Some f else first_registered k cs)"
| "first_registered k (Freeze # cs) = None"
| "first_registered k (_ # cs) = first_registered k cs"

lemma frozen_run: "br_frozen b = Some d \<Longrightarrow> br_frozen (resolver_run cs b) = Some d"
proof (induction cs arbitrary: b)
  case (Cons c cs)
  then have "br_frozen (resolver_step c b) = Some d"
    by (auto simp: resolver_step_def register_block_def freeze_def split: resolver_call.split sum.split handler.split)
  from Cons.IH [OF this] show ?case by (simp add: resolver_run_def)
qed (simp add: resolver_run_def)

lemma registry_run:
  assumes "br_frozen b = None"
  shows "case br_frozen (resolver_run cs b) of
      None \<Rightarrow> Freeze \<notin> set cs
    | Some d \<Rightarrow> Freeze \<in> set cs \<and>
        (\<forall>k. map_of d k = (case map_of (br_registry b) k of Some f \<Rightarrow> Some f | None \<Rightarrow> first_registered k cs))"
  using assms
proof (induction cs arbitrary: b)
  case (Cons c cs)
  show ?case
  proof (cases c)
    case (Register k h)
    let ?b = "resolver_step c b"
    have f: "br_frozen ?b = None"
      using Cons.prems by (auto simp: resolver_step_def register_block_def Register split: handler.split)
    have r: "br_registry ?b =
        (case h of Handler g \<Rightarrow> if map_of (br_registry b) k = None then AList.update k g (br_registry b) else br_registry b | Not_Callable \<Rightarrow> br_registry b)"
      using Cons.prems by (auto simp: resolver_step_def register_block_def Register split: handler.split)
    show ?thesis
      using Cons.IH [OF f] unfolding r
      by (cases h) (auto simp: resolver_run_def Register py_dict split: option.splits if_splits)
  next
    case Freeze
    have "br_frozen (resolver_run cs (freeze b)) = Some (br_registry b)"
      using Cons.prems by (intro frozen_run) (simp add: freeze_def)
    then show ?thesis by (simp add: resolver_run_def resolver_step_def Freeze split: option.split)
  next
    case (Resolve k ctx)
    then show ?thesis using Cons.IH [OF Cons.prems] by (simp add: resolver_run_def resolver_step_def split: option.splits)
  qed
qed (simp add: resolver_run_def)

text \<open>
  The resolver is closed: whatever calls were made, a key resolves exactly when the
  registry was frozen and the key was registered before, and then to the handler that was
  registered first; registrations after the freeze and second registrations have no
  effect, and every other lookup is an error, never a default.
\<close>
theorem resolver_closed:
  "resolve key ctx (resolver_run cs new_resolver) =
     (if Freeze \<notin> set cs then Inl Resolver_Not_Frozen
      else (case first_registered key cs of None \<Rightarrow> Inl (Block_Not_Found key) | Some f \<Rightarrow> Inr (f ctx)))"
  using registry_run [of new_resolver cs]
  by (auto simp: resolve_def FROZEN_def new_resolver_def split: option.splits)

end
