(* ===== verification/Chat_Engine.thy ===== *)
theory Chat_Engine
  imports Proposal_Expiry
begin

text \<open>
  The assistant: the tools a language model may call (\<open>core/tools.py\<close>) and the loop that
  feeds it their results (\<open>core/chat_engine.py\<close>). The model is a function from the messages
  it is given to the events it streams; fresh identifiers and clock readings of proposals
  come from a supply. A result text is a constructor of the error it reports.
\<close>

section \<open>Tools\<close>

record tool_node =
  tn_id :: string
  tn_name :: string
  tn_hostname :: "string option"
  tn_state :: string
  tn_os :: "string option"
  tn_arch :: "string option"

record tool_metrics =
  tm_node_id :: string
  tm_cpu :: rat
  tm_mem :: rat
  tm_disk :: rat
  tm_uptime :: rat
  tm_collected_at :: time

record tool_db =
  td_nodes :: "tool_node list"
  td_metrics :: "tool_metrics list"
  td_proposals :: proposal_table
  td_supply :: nat

datatype tool_error =
    Missing_Parameter string
  | Bad_Parameter string
  | Ambiguous_Node string "(string \<times> string) list"
  | Node_Not_Found string
  | Node_Offline string string
  | Send_Intent_Private
  | Worker_Failed json
  | Unknown_Tool string

datatype tool_data =
    No_Data
  | Fleet "(tool_node \<times> bool) list"
  | Node_Metrics string string bool string "tool_metrics option"
  | Parsed json
  | Logs json json
  | Proposed action_proposal

record tool_result =
  tr_success :: bool
  tr_data :: tool_data
  tr_error :: "tool_error option"
  tr_proposal_id :: "string option"

definition sql_lower_char :: "char \<Rightarrow> char" where
  \<comment> \<open>\<open>LOWER\<close> and \<open>LIKE\<close> of SQLite fold ASCII letters only\<close>
  "sql_lower_char c = (let n = (of_char c :: nat) in if 65 \<le> n \<and> n \<le> 90 then char_of (n + 32) else c)"

definition sql_lower :: "string \<Rightarrow> string" where
  "sql_lower s = map sql_lower_char s"

fun sql_like :: "string \<Rightarrow> string \<Rightarrow> bool" where
  \<comment> \<open>\<open>text LIKE pattern\<close> with the wildcards \<open>%\<close> and \<open>_\<close>\<close>
  "sql_like [] [] = True"
| "sql_like [] (x # xs) = False"
| "sql_like (p # ps) [] = (p = CHR ''%'' \<and> sql_like ps [])"
| "sql_like (p # ps) (x # xs) =
     (if p = CHR ''%'' then sql_like ps (x # xs) \<or> sql_like (p # ps) xs
      else (p = CHR ''_'' \<or> sql_lower_char p = sql_lower_char x) \<and> sql_like ps xs)"

definition name_or_host :: "(string \<Rightarrow> bool) \<Rightarrow> tool_node \<Rightarrow> bool" where
  "name_or_host P n \<longleftrightarrow> P (tn_name n) \<or> (case tn_hostname n of None \<Rightarrow> False | Some h \<Rightarrow> P h)"

definition exact_matches :: "string \<Rightarrow> tool_node list \<Rightarrow> tool_node list" where
  "exact_matches q ns = filter (name_or_host (\<lambda>s. sql_lower s = lower q)) ns"

definition partial_matches :: "string \<Rightarrow> tool_node list \<Rightarrow> tool_node list" where
  "partial_matches q ns = filter (name_or_host (sql_like (''%'' @ q @ ''%''))) ns"

definition resolve_node :: "string \<Rightarrow> tool_node list \<Rightarrow> tool_error + tool_node" where
  "resolve_node q ns =
     (case sql_fetchone (\<lambda>n. tn_id n = q) ns of
        Some n \<Rightarrow> Inr n
      | None \<Rightarrow>
          (let rows = (case exact_matches q ns of [] \<Rightarrow> partial_matches q ns | rs \<Rightarrow> rs)
           in case rows of
                [] \<Rightarrow> Inl (Node_Not_Found q)
              | [n] \<Rightarrow> Inr n
              | _ \<Rightarrow> Inl (Ambiguous_Node q (map (\<lambda>n. (tn_name n, take 8 (tn_id n))) rows))))"

definition latest_metrics :: "string \<Rightarrow> tool_metrics list \<Rightarrow> tool_metrics option" where
  "latest_metrics nid rows =
     (case filter (\<lambda>r. tm_node_id r = nid) rows of
        [] \<Rightarrow> None
      | r # rs \<Rightarrow> Some (fold (\<lambda>x best. if tm_collected_at best < tm_collected_at x then x else best) rs r))"

definition send_intent :: "string \<Rightarrow> string \<Rightarrow> (string, json) dict \<Rightarrow> tool_error + json" where
  \<comment> \<open>\<open>NodeManager.send_intent\<close> raises in every case\<close>
  "send_intent node_id action params = Inl Send_Intent_Private"

definition argument :: "string \<Rightarrow> (string, json) dict \<Rightarrow> tool_error + json" where
  \<comment> \<open>a required argument: present and not false\<close>
  "argument k args =
     (case map_of args k of
        None \<Rightarrow> Inl (Missing_Parameter k)
      | Some v \<Rightarrow> if json_truthy v then Inr v else Inl (Missing_Parameter k))"

definition text_argument :: "string \<Rightarrow> (string, json) dict \<Rightarrow> tool_error + string" where
  "text_argument k args =
     (case argument k args of
        Inl e \<Rightarrow> Inl e
      | Inr (JStr s) \<Rightarrow> Inr s
      | Inr _ \<Rightarrow> Inl (Bad_Parameter k))"

definition lines_argument :: "(string, json) dict \<Rightarrow> tool_error + int" where
  \<comment> \<open>\<open>min(max(int(lines or 50), 1), 200)\<close>\<close>
  "lines_argument args =
     (let clamp = (\<lambda>n :: int. min (max n 1) 200)
      in case map_of args ''lines'' of
           None \<Rightarrow> Inr 50
         | Some v \<Rightarrow>
             if \<not> json_truthy v then Inr 50
             else (case v of
                     JInt n \<Rightarrow> Inr (clamp n)
                   | JBool b \<Rightarrow> Inr (clamp 1)
                   | JStr t \<Rightarrow> (case py_int t of None \<Rightarrow> Inl (Bad_Parameter ''lines'') | Some n \<Rightarrow> Inr (clamp n))
                   | JFloat t \<Rightarrow>
                       (case decimal_value t of
                          None \<Rightarrow> Inl (Bad_Parameter ''lines'')
                        | Some x \<Rightarrow> Inr (clamp (if x < 0 then - \<lfloor>- x\<rfloor> else \<lfloor>x\<rfloor>)))
                   | _ \<Rightarrow> Inl (Bad_Parameter ''lines'')))"

definition ok_result :: "tool_data \<Rightarrow> tool_result" where
  "ok_result d = \<lparr>tr_success = True, tr_data = d, tr_error = None, tr_proposal_id = None\<rparr>"

definition error_tool_result :: "tool_error \<Rightarrow> tool_result" where
  "error_tool_result e = \<lparr>tr_success = False, tr_data = No_Data, tr_error = Some e, tr_proposal_id = None\<rparr>"

definition ask_worker :: "string \<Rightarrow> string \<Rightarrow> (string, json) dict \<Rightarrow> (json \<Rightarrow> tool_data) \<Rightarrow> tool_error + tool_data" where
  \<comment> \<open>send, raise unless the reply has \<open>success\<close>, and read its output\<close>
  "ask_worker node_id action params read =
     (case send_intent node_id action params of
        Inl e \<Rightarrow> Inl e
      | Inr reply \<Rightarrow>
          (case json_get reply ''success'' of
             Some v \<Rightarrow> if json_truthy v then Inr (read reply) else Inl (Worker_Failed reply)
           | None \<Rightarrow> Inl (Worker_Failed reply)))"

definition reasoning_of :: "(string, json) dict \<Rightarrow> tool_error + string" where
  \<comment> \<open>the model field accepts strings only\<close>
  "reasoning_of args =
     (case map_of args ''reasoning'' of None \<Rightarrow> Inr [] | Some (JStr s) \<Rightarrow> Inr s | Some _ \<Rightarrow> Inl (Bad_Parameter ''reasoning''))"

definition tool_proposal :: "(nat \<Rightarrow> string \<times> time) \<Rightarrow> string \<Rightarrow> string \<Rightarrow> worker_action \<Rightarrow> (string, json) dict \<Rightarrow> string \<Rightarrow> tool_db \<Rightarrow> action_proposal" where
  "tool_proposal fresh user nid action params reasoning db =
     (let (i, now) = fresh (td_supply db)
      in (new_proposal i nid (worker_action_str action) params now)
           \<lparr>p_reasoning := reasoning, p_risk_level := ''MEDIUM'', p_created_by := user\<rparr>)"

definition propose ::
  "(nat \<Rightarrow> string \<times> time) \<Rightarrow> string \<Rightarrow> string \<Rightarrow> worker_action \<Rightarrow> string \<Rightarrow> string \<Rightarrow> (string, json) dict \<Rightarrow> tool_db \<Rightarrow> (tool_error + tool_result) \<times> tool_db" where
  \<comment> \<open>the two proposal tools, with the argument that names the target and the parameter it becomes\<close>
  "propose fresh user nid action arg param args db =
     (case argument arg args of
        Inl e \<Rightarrow> (Inl e, db)
      | Inr target \<Rightarrow>
          (case reasoning_of args of
             Inl e \<Rightarrow> (Inl e, db)
           | Inr reasoning \<Rightarrow>
               (let p = tool_proposal fresh user nid action [(param, target)] reasoning db
                in (Inr \<lparr>tr_success = True, tr_data = Proposed p, tr_error = None, tr_proposal_id = Some (p_id p)\<rparr>,
                    db\<lparr>td_proposals := td_proposals db @ [to_db_dict p], td_supply := Suc (td_supply db)\<rparr>))))"

definition node_tool ::
  "(nat \<Rightarrow> string \<times> time) \<Rightarrow> (string \<Rightarrow> json \<Rightarrow> json) \<Rightarrow> string list \<Rightarrow> string \<Rightarrow> string \<Rightarrow> (string, json) dict \<Rightarrow> tool_node \<Rightarrow> tool_db \<Rightarrow>
     (tool_error + tool_result) \<times> tool_db" where
  \<comment> \<open>the tools with a target; \<open>parse\<close> reads the output of a worker for a tool\<close>
  "node_tool fresh parse connections user tool args node db =
     (let nid = tn_id node; online = (nid \<in> set connections);
          data = (\<lambda>r. (map_sum id ok_result r, db))
      in if tool = ''get_node_metrics'' then
           (Inr (ok_result (Node_Metrics nid (tn_name node) online (tn_state node) (latest_metrics nid (td_metrics db)))), db)
         else if \<not> online then (Inl (Node_Offline (tn_name node) (take 8 nid)), db)
         else if tool = ''list_services'' then data (ask_worker nid ''LIST_SERVICES'' [] (Parsed \<circ> parse tool))
         else if tool = ''get_service_status'' then
           (case argument ''service_name'' args of
              Inl e \<Rightarrow> (Inl e, db)
            | Inr s \<Rightarrow> data (ask_worker nid ''STATUS_SERVICE'' [(''name'', s)] (Parsed \<circ> parse tool)))
         else if tool = ''list_containers'' then data (ask_worker nid ''LIST_CONTAINERS'' [] (Parsed \<circ> parse tool))
         else if tool = ''read_logs'' then
           (case lines_argument args of
              Inl e \<Rightarrow> (Inl e, db)
            | Inr n \<Rightarrow>
                (let path = (case argument ''log_path'' args of Inr p \<Rightarrow> p | Inl _ \<Rightarrow> JStr ''syslog'')
                 in data (ask_worker nid ''READ_LOGS'' [(''path'', path), (''lines'', JInt n)] (Logs path))))
         else if tool = ''propose_restart_service'' then propose fresh user nid WA_RESTART_SERVICE ''service_name'' ''service'' args db
         else if tool = ''propose_restart_container'' then
           propose fresh user nid WA_RESTART_CONTAINER ''container_id_or_name'' ''container'' args db
         else (Inl (Unknown_Tool tool), db))"

definition execute_tool ::
  "(nat \<Rightarrow> string \<times> time) \<Rightarrow> (string \<Rightarrow> json \<Rightarrow> json) \<Rightarrow> string list \<Rightarrow> string \<Rightarrow> string \<Rightarrow> (string, json) dict \<Rightarrow> tool_db \<Rightarrow> tool_result \<times> tool_db" where
  "execute_tool fresh parse connections user tool args db =
     (if tool = ''get_fleet_overview'' then
        (ok_result (Fleet (map (\<lambda>n. (n, tn_id n \<in> set connections)) (filter (\<lambda>n. tn_state n \<noteq> ''REVOKED'') (td_nodes db)))), db)
      else
        (case (case text_argument ''node_id_or_name'' args of
                 Inl e \<Rightarrow> (Inl e, db)
               | Inr q \<Rightarrow>
                   (case resolve_node q (td_nodes db) of
                      Inl e \<Rightarrow> (Inl e, db)
                    | Inr node \<Rightarrow> node_tool fresh parse connections user tool args node db)) of
           (Inl e, db1) \<Rightarrow> (error_tool_result e, db1)
         | (Inr r, db1) \<Rightarrow> (r, db1)))"

section \<open>The conversation\<close>

record tool_delta =
  dl_index :: nat
  dl_id :: "string option"
  dl_name :: "string option"
  dl_arguments :: "string option"

datatype llm_event = Token string | Tool_Call "tool_delta list" | Llm_Error string

record tool_call =
  tc_id :: string
  tc_name :: string
  tc_arguments :: string

datatype message =
    System_Prompt string
  | User string
  | Assistant_Text string
  | Assistant_Calls "string option" "tool_call list" "action_proposal option"
  | Tool_Reply string string tool_result

datatype chat_event =
    Ev_Token string
  | Ev_Error string
  | Ev_Tool_Call string string "(string, json) dict"
  | Ev_Tool_Result string string tool_result
  | Ev_Proposal action_proposal

definition or_keep :: "string option \<Rightarrow> string \<Rightarrow> string" where
  \<comment> \<open>a field is overwritten by a non-empty value\<close>
  "or_keep new old = (case new of Some (c # cs) \<Rightarrow> c # cs | _ \<Rightarrow> old)"

definition add_delta :: "tool_delta \<Rightarrow> (nat, tool_call) dict \<Rightarrow> (nat, tool_call) dict" where
  "add_delta d m =
     (let tc = dict_get m (dl_index d) \<lparr>tc_id = [], tc_name = [], tc_arguments = []\<rparr>
      in AList.update (dl_index d)
           \<lparr>tc_id = or_keep (dl_id d) (tc_id tc), tc_name = or_keep (dl_name d) (tc_name tc),
            tc_arguments = tc_arguments tc @ or_keep (dl_arguments d) []\<rparr> m)"

fun read_stream :: "llm_event list \<Rightarrow> string \<Rightarrow> (nat, tool_call) dict \<Rightarrow> bool \<Rightarrow>
    chat_event list \<times> (string + string \<times> (nat, tool_call) dict \<times> bool)" where
  \<comment> \<open>one pass over a stream: the events passed on, and the error or the collected text and calls\<close>
  "read_stream [] buf m called = ([], Inr (buf, m, called))"
| "read_stream (Token s # es) buf m called =
     (let (out, r) = read_stream es (buf @ s) m called in (Ev_Token s # out, r))"
| "read_stream (Tool_Call ds # es) buf m called = read_stream es buf (fold add_delta ds m) True"
| "read_stream (Llm_Error d # es) buf m called = ([Ev_Error d], Inl d)"

definition call_arguments :: "tool_call \<Rightarrow> (string, json) dict option" where
  \<comment> \<open>\<open>None\<close> when the arguments are JSON but not an object, on which \<open>get\<close> raises\<close>
  "call_arguments tc =
     (if tc_arguments tc = [] then Some []
      else (case json_loads (tc_arguments tc) of None \<Rightarrow> Some [] | Some (JObj d) \<Rightarrow> Some d | Some _ \<Rightarrow> None))"

definition run_tool ::
  "(nat \<Rightarrow> string \<times> time) \<Rightarrow> (string \<Rightarrow> json \<Rightarrow> json) \<Rightarrow> string list \<Rightarrow> string \<Rightarrow> tool_call \<Rightarrow> tool_db \<Rightarrow> tool_result \<times> tool_db" where
  \<comment> \<open>an argument text that is not an object fails inside \<open>execute\<close>, except where it is not read\<close>
  "run_tool fresh parse connections user tc db =
     (case call_arguments tc of
        Some args \<Rightarrow> execute_tool fresh parse connections user (tc_name tc) args db
      | None \<Rightarrow>
          if tc_name tc = ''get_fleet_overview'' then execute_tool fresh parse connections user (tc_name tc) [] db
          else (error_tool_result (Bad_Parameter ''arguments''), db))"

fun run_calls ::
  "(tool_call \<Rightarrow> tool_db \<Rightarrow> tool_result \<times> tool_db) \<Rightarrow> tool_call list \<Rightarrow> tool_db \<Rightarrow> chat_event list \<times> (tool_call \<times> tool_result) list \<times> tool_db" where
  "run_calls f [] db = ([], [], db)"
| "run_calls f (tc # tcs) db =
     (let (r, db1) = f tc db; (out, rs, db2) = run_calls f tcs db1
      in (Ev_Tool_Call (tc_id tc) (tc_name tc) (case call_arguments tc of Some a \<Rightarrow> a | None \<Rightarrow> []) #
          Ev_Tool_Result (tc_id tc) (tc_name tc) r # out, (tc, r) # rs, db2))"

definition proposals_of :: "(tool_call \<times> tool_result) list \<Rightarrow> action_proposal list" where
  "proposals_of rs =
     List.map_filter (\<lambda>(_, r). case (tr_proposal_id r, tr_data r) of (Some _, Proposed p) \<Rightarrow> Some p | _ \<Rightarrow> None) rs"

definition ordered_calls :: "(nat, tool_call) dict \<Rightarrow> tool_call list" where
  "ordered_calls m = map snd (sort_key fst m)"

definition call_messages :: "string \<Rightarrow> (tool_call \<times> tool_result) list \<Rightarrow> message list" where
  "call_messages buf rs =
     Assistant_Calls (if buf = [] then None else Some buf) (map fst rs) (case proposals_of rs of [] \<Rightarrow> None | p # _ \<Rightarrow> Some p) #
     map (\<lambda>(tc, r). Tool_Reply (tc_id tc) (tc_name tc) r) rs"

fun chat_rounds ::
  "(message list \<Rightarrow> llm_event list) \<Rightarrow> (tool_call \<Rightarrow> tool_db \<Rightarrow> tool_result \<times> tool_db) \<Rightarrow> nat \<Rightarrow> message list \<Rightarrow> message list \<Rightarrow> tool_db \<Rightarrow>
     chat_event list \<times> message list \<times> tool_db" where
  "chat_rounds llm f 0 messages history db = ([], history, db)"
| "chat_rounds llm f (Suc n) messages history db =
     (case read_stream (llm messages) [] [] False of
        (out, Inl d) \<Rightarrow> (out, history, db)
      | (out, Inr (buf, m, called)) \<Rightarrow>
          if \<not> called then (out, if buf = [] then history else history @ [Assistant_Text buf], db)
          else
            (let (out1, rs, db1) = run_calls f (ordered_calls m) db;
                 new = call_messages buf rs;
                 (out2, history2, db2) = chat_rounds llm f n (messages @ new) (history @ new) db1
             in (out @ out1 @ map Ev_Proposal (proposals_of rs) @ out2, history2, db2)))"

definition round_limit :: nat where
  "round_limit = 5"

definition chat_run ::
  "(nat \<Rightarrow> string \<times> time) \<Rightarrow> (string \<Rightarrow> json \<Rightarrow> json) \<Rightarrow> (message list \<Rightarrow> llm_event list) \<Rightarrow> string list \<Rightarrow> string \<Rightarrow> string \<Rightarrow> message list \<Rightarrow> tool_db \<Rightarrow>
     chat_event list \<times> message list \<times> tool_db" where
  "chat_run fresh parse llm connections user prompt history db =
     chat_rounds llm (run_tool fresh parse connections user) round_limit (System_Prompt prompt # history) history db"

section \<open>Tools: facts\<close>

lemma ask_worker_fails: "ask_worker n a p r = Inl Send_Intent_Private"
  by (simp add: ask_worker_def send_intent_def)

definition created_by_tool :: "string \<Rightarrow> proposal_row \<Rightarrow> bool" where
  "created_by_tool user r \<longleftrightarrow>
     r_status r = PENDING \<and> r_created_by r = user \<and> r_approved_by r = None \<and> r_dispatch_id r = None \<and>
     r_action r \<in> {worker_action_str WA_RESTART_SERVICE, worker_action_str WA_RESTART_CONTAINER}"

definition extends :: "string \<Rightarrow> tool_db \<Rightarrow> tool_db \<Rightarrow> bool" where
  \<comment> \<open>nothing changes but that pending proposals are added\<close>
  "extends user db db' \<longleftrightarrow>
     td_nodes db' = td_nodes db \<and> td_metrics db' = td_metrics db \<and>
     (\<exists>new. td_proposals db' = td_proposals db @ new \<and> (\<forall>r \<in> set new. created_by_tool user r))"

lemma extends_refl [simp]: "extends user db db"
  by (simp add: extends_def)

lemma extends_trans: "extends user a b \<Longrightarrow> extends user b c \<Longrightarrow> extends user a c"
  by (auto simp: extends_def)

lemma propose_extends:
  assumes "act = WA_RESTART_SERVICE \<or> act = WA_RESTART_CONTAINER"
  shows "extends user db (snd (propose fresh user nid act arg param args db))"
  using assms
  by (auto simp: propose_def extends_def created_by_tool_def tool_proposal_def new_proposal_def to_db_dict_def Let_def
      split: sum.split prod.split)

lemma node_tool_extends: "extends user db (snd (node_tool fresh parse conns user tool args node db))"
  using propose_extends [of _ user db]
  by (auto simp: node_tool_def Let_def split: sum.split)

lemma execute_tool_extends: "extends user db (snd (execute_tool fresh parse conns user tool args db))"
proof -
  have "extends user db db1" if "node_tool fresh parse conns user tool args node db = (r, db1)" for node r db1
    using node_tool_extends [of user db fresh parse conns tool args node] that by simp
  then show ?thesis by (auto simp: execute_tool_def split: sum.splits prod.splits)
qed

lemma run_tool_extends: "extends user db (snd (run_tool fresh parse conns user tc db))"
  by (auto simp: run_tool_def execute_tool_extends split: option.split)

text \<open>The target of a tool is never guessed among several nodes.\<close>

lemma resolve_node_unique:
  assumes "resolve_node q ns = Inr n"
  shows "n \<in> set ns \<and> (tn_id n = q \<or> exact_matches q ns = [n] \<or> exact_matches q ns = [] \<and> partial_matches q ns = [n])"
proof (cases "sql_fetchone (\<lambda>n. tn_id n = q) ns")
  case None
  have sub: "set (exact_matches q ns) \<subseteq> set ns" "set (partial_matches q ns) \<subseteq> set ns"
    by (auto simp: exact_matches_def partial_matches_def)
  from assms None show ?thesis
    using sub by (auto simp: resolve_node_def Let_def split: list.splits)
next
  case (Some m)
  with assms show ?thesis by (auto simp: resolve_node_def dest: sql_fetchone_SomeD)
qed

text \<open>
  The tools that query a worker never succeed: they call \<open>send_intent\<close>, which raises in
  every case.
\<close>

lemma worker_tools_always_fail:
  assumes "tool \<in> {''list_services'', ''get_service_status'', ''list_containers'', ''read_logs''}"
  shows "\<not> tr_success (fst (execute_tool fresh parse conns user tool args db))"
  using assms
  by (auto simp: execute_tool_def node_tool_def ask_worker_fails error_tool_result_def Let_def split: sum.split)

section \<open>The conversation: facts\<close>

lemma run_calls_extends:
  assumes "\<And>tc db. extends user db (snd (f tc db))"
  shows "extends user db (snd (snd (run_calls f tcs db)))"
proof (induction tcs arbitrary: db)
  case (Cons tc tcs)
  obtain r db1 where r: "f tc db = (r, db1)" by fastforce
  have "extends user db db1" using assms [of db tc] r by simp
  with Cons.IH [of db1] show ?case by (auto simp: r intro: extends_trans split: prod.split)
qed simp

lemma run_calls_results: "map fst (fst (snd (run_calls f tcs db))) = tcs"
  by (induction tcs arbitrary: db) (simp_all split: prod.split, metis fst_conv snd_conv)

lemma run_tool_stored:
  assumes "run_tool fresh parse conns user tc db = (r, db1)" and "tr_data r = Proposed p"
  shows "to_db_dict p \<in> set (td_proposals db1)"
proof -
  have pr: "to_db_dict p \<in> set (td_proposals db1)"
    if "propose fresh user nid act arg param args db = (Inr r, db1)" "tr_data r = Proposed p" for nid act arg param args r db1
    using that by (auto simp: propose_def Let_def split: sum.splits)
  have nt: "to_db_dict p \<in> set (td_proposals db1)"
    if "node_tool fresh parse conns user tool args node db = (Inr r, db1)" "tr_data r = Proposed p" for tool args node r db1
    using that
    by (auto simp: node_tool_def ask_worker_fails ok_result_def Let_def split: sum.splits if_splits dest: pr)
  have "to_db_dict p \<in> set (td_proposals db1)"
    if "execute_tool fresh parse conns user tool args db = (r, db1)" "tr_data r = Proposed p" for tool args r db1
    using that
    by (auto simp: execute_tool_def ok_result_def error_tool_result_def split: sum.splits prod.splits if_splits dest: nt)
  with assms show ?thesis by (auto simp: run_tool_def error_tool_result_def split: option.splits if_splits)
qed

lemma in_proposals_of:
  "p \<in> set (proposals_of rs) \<longleftrightarrow> (\<exists>tc r. (tc, r) \<in> set rs \<and> tr_proposal_id r \<noteq> None \<and> tr_data r = Proposed p)"
proof -
  have "(\<exists>x \<in> set rs. g x = Some p) \<longleftrightarrow> p \<in> set (List.map_filter g rs)" for g :: "tool_call \<times> tool_result \<Rightarrow> action_proposal option"
    by (induction rs) (auto simp: List.map_filter_def split: option.splits)
  from this [symmetric] show ?thesis
    unfolding proposals_of_def by (force split: option.splits tool_data.splits)
qed

lemma run_calls_stored:
  assumes ext: "\<And>tc db. extends user db (snd (f tc db))"
    and st: "\<And>tc db r db1 p. f tc db = (r, db1) \<Longrightarrow> tr_data r = Proposed p \<Longrightarrow> to_db_dict p \<in> set (td_proposals db1)"
    and "p \<in> set (proposals_of (fst (snd (run_calls f tcs db))))"
  shows "to_db_dict p \<in> set (td_proposals (snd (snd (run_calls f tcs db))))"
  using assms(3)
proof (induction tcs arbitrary: db)
  case (Cons tc tcs)
  obtain r db1 where r: "f tc db = (r, db1)" by fastforce
  obtain out rs db2 where rec: "run_calls f tcs db1 = (out, rs, db2)" by (metis prod_cases3)
  have sub: "set (td_proposals db1) \<subseteq> set (td_proposals db2)"
    using run_calls_extends [of user f db1 tcs] ext rec by (auto simp: extends_def)
  consider "p \<in> set (proposals_of rs)" | "tr_data r = Proposed p"
    using Cons.prems by (auto simp: r rec in_proposals_of)
  then show ?case
  proof cases
    case 1
    with Cons.IH [of db1] show ?thesis by (simp add: r rec)
  next
    case 2
    with st [OF r] sub show ?thesis by (auto simp: r rec)
  qed
qed (simp add: proposals_of_def List.map_filter_def)

text \<open>A history is plain messages and complete blocks of calls with their replies, in order.\<close>

fun plain :: "message \<Rightarrow> bool" where
  "plain (Assistant_Calls _ _ _) = False"
| "plain (Tool_Reply _ _ _) = False"
| "plain _ = True"

inductive answered :: "message list \<Rightarrow> bool" where
  none: "answered []"
| plain: "answered ms \<Longrightarrow> plain m \<Longrightarrow> answered (ms @ [m])"
| block: "answered ms \<Longrightarrow> map fst rs = tcs \<Longrightarrow>
    answered (ms @ Assistant_Calls t tcs p # map (\<lambda>(tc, r). Tool_Reply (tc_id tc) (tc_name tc) r) rs)"

lemma call_messages_answered: "answered ms \<Longrightarrow> answered (ms @ call_messages buf rs)"
  unfolding call_messages_def by (rule answered.block) simp_all

fun is_assistant :: "message \<Rightarrow> bool" where
  "is_assistant (Assistant_Text _) = True"
| "is_assistant (Assistant_Calls _ _ _) = True"
| "is_assistant _ = False"

definition turns :: "message list \<Rightarrow> nat" where
  "turns ms = length (filter is_assistant ms)"

lemma turns_simps [simp]:
  "turns (ms @ ns) = turns ms + turns ns" "turns [Assistant_Text b] = 1" "turns (call_messages buf rs) = 1"
  by (auto simp: turns_def call_messages_def filter_empty_conv)

lemma chat_rounds_safe:
  assumes ext: "\<And>tc db. extends user db (snd (f tc db))"
    and st: "\<And>tc db r db1 p. f tc db = (r, db1) \<Longrightarrow> tr_data r = Proposed p \<Longrightarrow> to_db_dict p \<in> set (td_proposals db1)"
    and "chat_rounds llm f n messages history db = (out, history', db')"
  shows "extends user db db' \<and> (answered history \<longrightarrow> answered history') \<and> turns history' \<le> turns history + n \<and>
    (\<forall>p. Ev_Proposal p \<in> set out \<longrightarrow> to_db_dict p \<in> set (td_proposals db'))"
  using assms(3)
proof (induction n arbitrary: messages history db out history' db')
  case (Suc n)
  obtain o1 res where rs: "read_stream (llm messages) [] [] False = (o1, res)" by fastforce
  have no: "Ev_Proposal p \<notin> set (fst (read_stream es b m c))" for p es b m c
    by (induction es b m c rule: read_stream.induct) (auto split: prod.split)
  then have o1: "\<forall>p. Ev_Proposal p \<notin> set o1" using rs by (metis fst_conv)
  show ?case
  proof (cases res)
    case (Inl d)
    with Suc.prems rs o1 show ?thesis by auto
  next
    case (Inr bmc)
    obtain buf m called where b: "bmc = (buf, m, called)" by (metis prod_cases3)
    show ?thesis
    proof (cases called)
      case False
      then show ?thesis using Suc.prems rs o1 Inr b by (auto intro!: answered.plain)
    next
      case True
      obtain o2 cs db1 where c: "run_calls f (ordered_calls m) db = (o2, cs, db1)" by (metis prod_cases3)
      obtain o3 h3 db3 where r: "chat_rounds llm f n (messages @ call_messages buf cs) (history @ call_messages buf cs) db1 = (o3, h3, db3)"
        by (metis prod_cases3)
      have res: "out = o1 @ o2 @ map Ev_Proposal (proposals_of cs) @ o3" "history' = h3" "db' = db3"
        using Suc.prems rs Inr b True c r by (auto simp: Let_def)
      have e1: "extends user db db1" using run_calls_extends [of user f db "ordered_calls m"] ext c by simp
      note IH = Suc.IH [OF r]
      have "\<forall>p. Ev_Proposal p \<notin> set (fst (run_calls f tcs d))" for tcs d
        by (induction tcs arbitrary: d) (auto simp: split_def Let_def)
      then have o2: "\<forall>p. Ev_Proposal p \<notin> set o2" using c by (metis fst_conv)
      have "to_db_dict p \<in> set (td_proposals db')" if "p \<in> set (proposals_of cs)" for p
        using run_calls_stored [of user f p "ordered_calls m" db, OF ext st] that c IH res(3) by (auto simp: extends_def)
      then show ?thesis
        using IH e1 o1 o2 unfolding res by (auto simp: call_messages_answered intro: extends_trans)
    qed
  qed
qed auto


definition restart_call :: tool_call where
  "restart_call = \<lparr>tc_id = ''c1'', tc_name = ''propose_restart_service'',
     tc_arguments = json_dumps True (JObj [(''node_id_or_name'', JStr ''web''), (''service_name'', JStr ''nginx''), (''reasoning'', JStr ''down'')])\<rparr>"

definition restart_llm :: "message list \<Rightarrow> llm_event list" where
  \<comment> \<open>calls the tool, then answers\<close>
  "restart_llm ms = (if turns ms = 0
     then [Tool_Call [\<lparr>dl_index = 0, dl_id = Some (tc_id restart_call), dl_name = Some (tc_name restart_call), dl_arguments = Some (tc_arguments restart_call)\<rparr>]]
     else [Token ''done''])"

definition web_db :: tool_db where
  "web_db = \<lparr>td_nodes = [\<lparr>tn_id = ''n1'', tn_name = ''Web'', tn_hostname = None, tn_state = ''CONNECTED'', tn_os = None, tn_arch = None\<rparr>],
     td_metrics = [], td_proposals = [], td_supply = 0\<rparr>"

lemma restart_chat:
  "map r_action (td_proposals (snd (snd (chat_run (\<lambda>n. (nat_str n, 7)) (\<lambda>_ j. j) restart_llm [''n1''] ''bob'' ''p'' [] web_db)))) = [''RESTART_SERVICE'']"
  by code_simp


end
