(* ===== verification/Investigation.thy ===== *)
theory Investigation
  imports Py_Prelude
begin

text \<open>
  The investigation of alerts (\<open>core/investigation_manager.py\<close>): a fired alert reserves a
  slot, stores a row and starts a task that waits for the semaphore, opens a connection,
  marks the row, runs the analysis and stores the result. Every piece between two awaits
  is a step; the analysis, the connection and the statements may fail, and a task may be
  cancelled at shutdown.
\<close>

datatype inv_status = Queued | Dropped | In_Progress | Completed | Skipped | Failed

datatype analysis = Report string | Not_Configured | Analysis_Error string

datatype inv_result = Full_Queue int nat | Result analysis | Crash string

record investigation =
  iv_id :: string
  iv_alert_id :: string
  iv_node_id :: string
  iv_alert_name :: string
  iv_severity :: string
  iv_status :: inv_status
  iv_result :: "inv_result option"
  iv_created_at :: time
  iv_updated_at :: time
  iv_completed_at :: "time option"

datatype phase = Inserting | Waiting | Acquired | Analysing

record alert =
  al_id :: string
  al_node :: string
  al_name :: string
  al_severity :: string

record inv_manager =
  iv_max :: nat
  iv_reserved :: int
  iv_sem :: nat
  iv_dropped :: nat
  iv_tasks :: "string \<rightharpoonup> phase"
  iv_rows :: "investigation list"

definition new_inv_manager :: "nat \<Rightarrow> inv_manager" where
  "new_inv_manager n = \<lparr>iv_max = n, iv_reserved = 0, iv_sem = 0, iv_dropped = 0, iv_tasks = Map.empty, iv_rows = []\<rparr>"

definition inv_row :: "string \<Rightarrow> alert \<Rightarrow> inv_status \<Rightarrow> inv_result option \<Rightarrow> time \<Rightarrow> investigation" where
  "inv_row i a st r now =
     \<lparr>iv_id = i, iv_alert_id = al_id a, iv_node_id = al_node a, iv_alert_name = al_name a, iv_severity = al_severity a,
      iv_status = st, iv_result = r, iv_created_at = now, iv_updated_at = now, iv_completed_at = None\<rparr>"

definition set_row :: "string \<Rightarrow> (investigation \<Rightarrow> investigation) \<Rightarrow> inv_manager \<Rightarrow> inv_manager" where
  "set_row i f m = m\<lparr>iv_rows := sql_update (\<lambda>r. iv_id r = i) f (iv_rows m)\<rparr>"

definition at_capacity :: "inv_manager \<Rightarrow> bool" where
  "at_capacity m \<longleftrightarrow> int (iv_max m) \<le> iv_reserved m"

definition drop_alert :: "string \<Rightarrow> alert \<Rightarrow> time \<Rightarrow> bool \<Rightarrow> inv_manager \<Rightarrow> inv_manager" where
  \<comment> \<open>\<open>stored\<close>: the insert of the dropped row succeeds\<close>
  "drop_alert i a now stored m =
     m\<lparr>iv_dropped := Suc (iv_dropped m),
       iv_rows := (if stored then iv_rows m @ [inv_row i a Dropped (Some (Full_Queue (iv_reserved m) (iv_max m))) now] else iv_rows m)\<rparr>"

definition reserve :: "string \<Rightarrow> inv_manager \<Rightarrow> inv_manager" where
  "reserve i m = m\<lparr>iv_reserved := iv_reserved m + 1, iv_tasks := (iv_tasks m)(i \<mapsto> Inserting)\<rparr>"

definition insert_queued :: "string \<Rightarrow> alert \<Rightarrow> time \<Rightarrow> inv_manager \<Rightarrow> inv_manager" where
  "insert_queued i a now m = m\<lparr>iv_rows := iv_rows m @ [inv_row i a Queued None now], iv_tasks := (iv_tasks m)(i \<mapsto> Waiting)\<rparr>"

definition release :: "string \<Rightarrow> inv_manager \<Rightarrow> inv_manager" where
  \<comment> \<open>the slot is given back\<close>
  "release i m = m\<lparr>iv_reserved := iv_reserved m - 1, iv_tasks := (iv_tasks m)(i := None)\<rparr>"

definition acquire :: "string \<Rightarrow> inv_manager \<Rightarrow> inv_manager" where
  "acquire i m = m\<lparr>iv_sem := Suc (iv_sem m), iv_tasks := (iv_tasks m)(i \<mapsto> Acquired)\<rparr>"

definition leave_run :: "string \<Rightarrow> inv_manager \<Rightarrow> inv_manager" where
  \<comment> \<open>the end of a run that holds the semaphore\<close>
  "leave_run i m = release i (m\<lparr>iv_sem := iv_sem m - 1\<rparr>)"

definition mark_in_progress :: "string \<Rightarrow> time \<Rightarrow> inv_manager \<Rightarrow> inv_manager" where
  "mark_in_progress i now m =
     (set_row i (\<lambda>r. r\<lparr>iv_status := In_Progress, iv_updated_at := now\<rparr>) m)\<lparr>iv_tasks := (iv_tasks m)(i \<mapsto> Analysing)\<rparr>"

definition status_of :: "analysis \<Rightarrow> inv_status" where
  "status_of a = (case a of Report _ \<Rightarrow> Completed | Not_Configured \<Rightarrow> Skipped | Analysis_Error _ \<Rightarrow> Failed)"

definition persist_outcome :: "string \<Rightarrow> analysis \<Rightarrow> time \<Rightarrow> inv_manager \<Rightarrow> inv_manager" where
  "persist_outcome i a now m =
     leave_run i (set_row i (\<lambda>r. r\<lparr>iv_status := status_of a, iv_result := Some (Result a),
       iv_completed_at := Some now, iv_updated_at := now\<rparr>) m)"

definition crash :: "string \<Rightarrow> string \<Rightarrow> time \<Rightarrow> bool \<Rightarrow> inv_manager \<Rightarrow> inv_manager" where
  \<comment> \<open>an exception inside the run; \<open>stored\<close>: recording it succeeds\<close>
  "crash i e now stored m =
     leave_run i (if stored
       then set_row i (\<lambda>r. r\<lparr>iv_status := Failed, iv_result := Some (Crash e), iv_completed_at := Some now, iv_updated_at := now\<rparr>) m
       else m)"

definition row_ids :: "inv_manager \<Rightarrow> string set" where
  "row_ids m = iv_id ` set (iv_rows m)"

definition get_investigations :: "string option \<Rightarrow> inv_status option \<Rightarrow> nat \<Rightarrow> nat \<Rightarrow> inv_manager \<Rightarrow> investigation list" where
  "get_investigations node st lim_n off m =
     take lim_n (drop off (rev (sort_key iv_created_at
       (filter (\<lambda>r. (node = None \<or> node = Some (iv_node_id r)) \<and> (st = None \<or> st = Some (iv_status r))) (iv_rows m)))))"

section \<open>Steps\<close>

inductive inv_step :: "inv_manager \<Rightarrow> inv_manager \<Rightarrow> bool" where
  dropped: "at_capacity m \<Longrightarrow> i \<notin> row_ids m \<Longrightarrow> iv_tasks m i = None \<Longrightarrow> inv_step m (drop_alert i a now stored m)"
| reserved: "\<not> at_capacity m \<Longrightarrow> i \<notin> row_ids m \<Longrightarrow> iv_tasks m i = None \<Longrightarrow> inv_step m (reserve i m)"
| inserted: "iv_tasks m i = Some Inserting \<Longrightarrow> inv_step m (insert_queued i a now m)"
| insert_failed: "iv_tasks m i = Some Inserting \<Longrightarrow> inv_step m (release i m)"
| acquired: "iv_tasks m i = Some Waiting \<Longrightarrow> iv_sem m < iv_max m \<Longrightarrow> inv_step m (acquire i m)"
| no_connection: "iv_tasks m i = Some Acquired \<Longrightarrow> inv_step m (leave_run i m)"
| marked: "iv_tasks m i = Some Acquired \<Longrightarrow> inv_step m (mark_in_progress i now m)"
| persisted: "iv_tasks m i = Some Analysing \<Longrightarrow> inv_step m (persist_outcome i a now m)"
| crashed: "iv_tasks m i = Some Acquired \<or> iv_tasks m i = Some Analysing \<Longrightarrow> inv_step m (crash i e now stored m)"
| cancelled_waiting: "iv_tasks m i = Some Waiting \<Longrightarrow> inv_step m (release i m)"
| cancelled_running: "iv_tasks m i = Some Acquired \<or> iv_tasks m i = Some Analysing \<Longrightarrow> inv_step m (leave_run i m)"

inductive_cases inv_stepE: "inv_step m m'"

definition holders :: "inv_manager \<Rightarrow> string set" where
  "holders m = {i. iv_tasks m i = Some Acquired \<or> iv_tasks m i = Some Analysing}"

definition terminal :: "inv_status \<Rightarrow> bool" where
  "terminal s \<longleftrightarrow> s \<in> {Dropped, Completed, Skipped, Failed}"

definition inv_ok :: "inv_manager \<Rightarrow> bool" where
  "inv_ok m \<longleftrightarrow>
     finite (dom (iv_tasks m)) \<and> iv_reserved m = int (card (dom (iv_tasks m))) \<and> card (dom (iv_tasks m)) \<le> iv_max m \<and>
     iv_sem m = card (holders m) \<and> distinct (map iv_id (iv_rows m)) \<and>
     (\<forall>i. iv_tasks m i = Some Inserting \<longrightarrow> i \<notin> row_ids m) \<and>
     (\<forall>r \<in> set (iv_rows m). terminal (iv_status r) \<longrightarrow> iv_tasks m (iv_id r) = None)"

lemma holders_dom: "holders m \<subseteq> dom (iv_tasks m)"
  by (auto simp: holders_def)

lemma holders_finite: "inv_ok m \<Longrightarrow> finite (holders m)"
  using holders_dom finite_subset by (fastforce simp: inv_ok_def)

lemma row_ids_simps [simp]:
  "row_ids (set_row i f m) = iv_id ` f ` {r \<in> set (iv_rows m). iv_id r = i} \<union> iv_id ` {r \<in> set (iv_rows m). iv_id r \<noteq> i}"
  by (auto simp: row_ids_def set_row_def sql_update_def)

lemma set_row_fields [simp]:
  "iv_max (set_row i f m) = iv_max m" "iv_reserved (set_row i f m) = iv_reserved m" "iv_sem (set_row i f m) = iv_sem m"
  "iv_tasks (set_row i f m) = iv_tasks m" "iv_dropped (set_row i f m) = iv_dropped m"
  by (simp_all add: set_row_def)

lemma release_fields [simp]:
  "iv_max (release i m) = iv_max m" "iv_reserved (release i m) = iv_reserved m - 1" "iv_sem (release i m) = iv_sem m"
  "iv_tasks (release i m) = (iv_tasks m)(i := None)" "iv_rows (release i m) = iv_rows m" "iv_dropped (release i m) = iv_dropped m"
  by (simp_all add: release_def)

lemma leave_fields [simp]:
  "iv_max (leave_run i m) = iv_max m" "iv_reserved (leave_run i m) = iv_reserved m - 1" "iv_sem (leave_run i m) = iv_sem m - 1"
  "iv_tasks (leave_run i m) = (iv_tasks m)(i := None)" "iv_rows (leave_run i m) = iv_rows m"
  by (simp_all add: leave_run_def)

lemma card_without:
  assumes "inv_ok m" and "iv_tasks m i = Some ph"
  shows "card (dom (iv_tasks m) - {i}) = card (dom (iv_tasks m)) - 1" and "0 < card (dom (iv_tasks m))"
proof -
  have "i \<in> dom (iv_tasks m)" using assms(2) by blast
  then show "card (dom (iv_tasks m) - {i}) = card (dom (iv_tasks m)) - 1" "0 < card (dom (iv_tasks m))"
    using assms(1) by (auto simp: inv_ok_def card_gt_0_iff)
qed

lemma release_ok:
  assumes "inv_ok m" and "iv_tasks m i = Some ph" and "i \<notin> holders m"
  shows "inv_ok (release i m)"
proof -
  have "holders (release i m) = holders m" using assms(3) by (auto simp: holders_def)
  then show ?thesis using assms(1) card_without [OF assms(1,2)] by (auto simp: inv_ok_def row_ids_def)
qed

lemma leave_ok:
  assumes "inv_ok m" and "i \<in> holders m" and f: "\<And>r. iv_id (f r) = iv_id r"
  shows "inv_ok (leave_run i (set_row i f m))"
proof -
  have "holders (leave_run i (set_row i f m)) = holders m - {i}" by (auto simp: holders_def)
  moreover have "card (holders m - {i}) = card (holders m) - 1" using assms(1,2) holders_finite by (simp add: card_Diff_singleton)
  moreover obtain ph where ph: "iv_tasks m i = Some ph" using assms(2) by (auto simp: holders_def)
  moreover have "map iv_id (iv_rows (set_row i f m)) = map iv_id (iv_rows m)"
    unfolding set_row_def by (simp add: map_sql_update_key f)
  moreover from this have "row_ids (leave_run i (set_row i f m)) = row_ids m"
    unfolding row_ids_def by (metis leave_fields(5) list.set_map)
  moreover have "\<forall>r \<in> set (iv_rows (set_row i f m)). terminal (iv_status r) \<longrightarrow> ((iv_tasks m)(i := None)) (iv_id r) = None"
    using assms(1) by (auto simp: set_row_def f inv_ok_def elim!: set_sql_updateE)
  ultimately show ?thesis using assms(1) card_without [OF assms(1) ph] by (auto simp: inv_ok_def simp del: row_ids_simps)
qed

lemma set_row_id [simp]: "set_row i (\<lambda>r. r) m = m"
  by (simp add: set_row_def sql_update_def)

lemmas leave_ok_plain = leave_ok [where f = "\<lambda>r. r", simplified]

lemma mark_ok:
  assumes "inv_ok m" and "iv_tasks m i = Some Acquired"
  shows "inv_ok (mark_in_progress i now m)"
proof -
  have "dom (iv_tasks (mark_in_progress i now m)) = dom (iv_tasks m)" "holders (mark_in_progress i now m) = holders m"
    using assms(2) by (auto simp: mark_in_progress_def holders_def)
  moreover have "map iv_id (iv_rows (mark_in_progress i now m)) = map iv_id (iv_rows m)"
    unfolding mark_in_progress_def set_row_def by (simp add: map_sql_update_key)
  moreover from this have "row_ids (mark_in_progress i now m) = row_ids m" unfolding row_ids_def by (metis list.set_map)
  moreover have "\<forall>r \<in> set (iv_rows (mark_in_progress i now m)). terminal (iv_status r) \<longrightarrow> iv_tasks (mark_in_progress i now m) (iv_id r) = None"
    using assms(1) by (auto simp: mark_in_progress_def set_row_def inv_ok_def terminal_def elim!: set_sql_updateE)
  ultimately show ?thesis using assms by (auto simp: inv_ok_def mark_in_progress_def)
qed

lemma acquire_ok:
  assumes "inv_ok m" and "iv_tasks m i = Some Waiting"
  shows "inv_ok (acquire i m)"
proof -
  have "holders (acquire i m) = insert i (holders m)" "i \<notin> holders m" using assms(2) by (auto simp: holders_def acquire_def)
  moreover have "dom (iv_tasks (acquire i m)) = dom (iv_tasks m)" using assms(2) by (auto simp: acquire_def)
  ultimately show ?thesis using assms holders_finite [OF assms(1)] by (auto simp: inv_ok_def acquire_def row_ids_def)
qed

lemma insert_ok:
  assumes "inv_ok m" and "iv_tasks m i = Some Inserting"
  shows "inv_ok (insert_queued i a now m)"
proof -
  have "holders (insert_queued i a now m) = holders m" "dom (iv_tasks (insert_queued i a now m)) = dom (iv_tasks m)"
    using assms(2) by (auto simp: insert_queued_def holders_def)
  with assms show ?thesis by (auto simp: inv_ok_def insert_queued_def row_ids_def inv_row_def terminal_def)
qed

lemma reserve_ok:
  assumes "inv_ok m" and "\<not> at_capacity m" and "i \<notin> row_ids m" and "iv_tasks m i = None"
  shows "inv_ok (reserve i m)"
proof -
  have "holders (reserve i m) = holders m" using assms(4) by (auto simp: reserve_def holders_def)
  moreover have "i \<notin> dom (iv_tasks m)" using assms(4) by blast
  ultimately show ?thesis using assms by (auto simp: inv_ok_def reserve_def at_capacity_def row_ids_def)
qed

lemma drop_ok:
  assumes "inv_ok m" and "i \<notin> row_ids m" and "iv_tasks m i = None"
  shows "inv_ok (drop_alert i a now stored m)"
  using assms by (auto simp: inv_ok_def drop_alert_def holders_def row_ids_def inv_row_def)

lemma persist_ok: "inv_ok m \<Longrightarrow> iv_tasks m i = Some Analysing \<Longrightarrow> inv_ok (persist_outcome i a now m)"
  unfolding persist_outcome_def by (rule leave_ok) (simp_all add: holders_def)

lemma crash_ok: "inv_ok m \<Longrightarrow> i \<in> holders m \<Longrightarrow> inv_ok (crash i e now stored m)"
  unfolding crash_def by (cases stored) (simp_all add: leave_ok leave_ok_plain)

lemma inv_ok_step: "inv_ok m \<Longrightarrow> inv_step m m' \<Longrightarrow> inv_ok m'"
  by (erule inv_stepE)
    (simp_all add: reserve_ok drop_ok insert_ok acquire_ok mark_ok persist_ok crash_ok leave_ok_plain release_ok holders_def)

lemma terminal_row_kept:
  assumes "inv_ok m" and "inv_step m m'" and "r \<in> set (iv_rows m)" and "terminal (iv_status r)"
  shows "r \<in> set (iv_rows m')"
proof -
  have k: "r \<in> set (iv_rows (set_row i f m))" if "iv_tasks m i \<noteq> None" for i f
    using assms(1,3,4) that by (auto simp: set_row_def sql_update_def inv_ok_def image_iff)
  show ?thesis using assms(2,3) k
    by (auto elim!: inv_stepE simp: drop_alert_def reserve_def insert_queued_def acquire_def mark_in_progress_def
        persist_outcome_def crash_def)
qed

interpretation investigations: inductive_invariant "\<lambda>m. m = new_inv_manager n" inv_step inv_ok for n
proof unfold_locales
  fix m m'
  show "m = new_inv_manager n \<Longrightarrow> inv_ok m" by (simp add: new_inv_manager_def inv_ok_def holders_def)
  show "inv_ok m \<Longrightarrow> inv_step m m' \<Longrightarrow> inv_ok m'" by (rule inv_ok_step)
qed

lemma max_constant: "reachable (\<lambda>m. m = new_inv_manager n) inv_step m \<Longrightarrow> iv_max m = n"
proof (induction rule: reachable.induct)
  case (next_state m m')
  then show ?case
    by (auto elim!: inv_stepE simp: drop_alert_def reserve_def insert_queued_def acquire_def mark_in_progress_def
        persist_outcome_def crash_def)
qed (simp add: new_inv_manager_def)

text \<open>
  C32. The cap on investigations. However alerts, database failures, crashes and cancellations
  interleave, at most the configured number of investigations is reserved at any time, the
  counter is exactly their number and never leaks, a reserved investigation never waits for
  the semaphore, and a row that reached a final status is never changed again.
\<close>
theorem investigation_cap:
  assumes "reachable (\<lambda>m. m = new_inv_manager n) inv_step m"
  shows "iv_reserved m = int (card (dom (iv_tasks m))) \<and> card (dom (iv_tasks m)) \<le> n \<and>
    (\<forall>i. iv_tasks m i = Some Waiting \<longrightarrow> inv_step m (acquire i m)) \<and>
    (\<forall>m' r. inv_step m m' \<and> r \<in> set (iv_rows m) \<and> terminal (iv_status r) \<longrightarrow> r \<in> set (iv_rows m'))"
proof -
  have ok: "inv_ok m" by (rule investigations.reachable_inv [OF assms])
  have "inv_step m (acquire i m)" if "iv_tasks m i = Some Waiting" for i
  proof (rule inv_step.acquired [OF that])
    have "i \<in> dom (iv_tasks m)" "i \<notin> holders m" using that by (auto simp: holders_def)
    then have "holders m \<subset> dom (iv_tasks m)" using holders_dom by blast
    then have "card (holders m) < card (dom (iv_tasks m))" using ok by (intro psubset_card_mono) (simp add: inv_ok_def)
    then show "iv_sem m < iv_max m" using ok by (simp add: inv_ok_def)
  qed
  then show ?thesis using ok max_constant [OF assms] terminal_row_kept [OF ok] by (auto simp: inv_ok_def)
qed

definition disk_alert :: alert where
  "disk_alert = \<lparr>al_id = ''a1'', al_node = ''n1'', al_name = ''disk'', al_severity = ''critical''\<rparr>"

definition queued_world :: inv_manager where
  "queued_world = insert_queued ''i1'' disk_alert 5 (reserve ''i1'' (new_inv_manager 3))"

lemma queued_world_tasks: "iv_tasks queued_world = [''i1'' \<mapsto> Waiting]"
  by (simp add: queued_world_def insert_queued_def reserve_def new_inv_manager_def)

lemma queued_world_reachable: "reachable (\<lambda>m. m = new_inv_manager 3) inv_step queued_world"
proof -
  have "reachable (\<lambda>m. m = new_inv_manager 3) inv_step (new_inv_manager 3)" by (rule reachable.start) simp
  then have "reachable (\<lambda>m. m = new_inv_manager 3) inv_step (reserve ''i1'' (new_inv_manager 3))"
    by (rule reachable.next_state) (rule inv_step.reserved; simp add: new_inv_manager_def at_capacity_def row_ids_def)
  then show ?thesis unfolding queued_world_def
    by (rule reachable.next_state) (rule inv_step.inserted; simp add: reserve_def)
qed

theorem investigation_cap_witness:
  "iv_reserved queued_world = 1 \<and> inv_step queued_world (acquire ''i1'' queued_world)"
proof -
  note c = investigation_cap [OF queued_world_reachable]
  have "dom (iv_tasks queued_world) = {''i1''}" by (simp add: queued_world_tasks)
  then have "iv_reserved queued_world = 1" using conjunct1 [OF c] by simp
  moreover have "inv_step queued_world (acquire ''i1'' queued_world)"
    using c queued_world_tasks by (metis fun_upd_same)
  ultimately show ?thesis ..
qed

text \<open>
  A run that gets no connection ends without a trace: the row stays queued although no task
  is left for it.
\<close>

lemma no_connection_strands_row:
  "\<exists>m. reachable (\<lambda>m. m = new_inv_manager 3) inv_step m \<and> iv_tasks m = Map.empty \<and> map iv_status (iv_rows m) = [Queued]"
proof -
  let ?m = "leave_run ''i1'' (acquire ''i1'' queued_world)"
  have "reachable (\<lambda>m. m = new_inv_manager 3) inv_step (acquire ''i1'' queued_world)"
    using queued_world_reachable by (rule reachable.next_state) (rule inv_step.acquired;
      simp add: queued_world_def insert_queued_def reserve_def new_inv_manager_def)
  then have "reachable (\<lambda>m. m = new_inv_manager 3) inv_step ?m"
    by (rule reachable.next_state) (rule inv_step.no_connection; simp add: acquire_def)
  moreover have "iv_tasks ?m = Map.empty" by (simp add: acquire_def queued_world_tasks)
  moreover have "map iv_status (iv_rows ?m) = [Queued]"
    by (simp add: acquire_def queued_world_def insert_queued_def reserve_def new_inv_manager_def inv_row_def)
  ultimately show ?thesis by (intro exI [of _ ?m] conjI)
qed

end
