(* ===== verification/Config_Encryption.thy ===== *)
theory Config_Encryption
  imports Base64
begin

text \<open>
  Secrets of plugins at rest: the format of encrypted values, the marker of secret fields
  and the mask (\<open>core/config_encryption.py\<close>), the write path of the administration
  (\<open>configure_plugin\<close> of \<open>api/admin.py\<close>) and the token of the Plex plugin
  (\<open>plugins/plex\<close>). AES-GCM is a pair of functions of key, nonce and text; the nonces of
  \<open>os.urandom\<close> are arguments, and so is the mask, whose characters lie beyond the character
  model. A byte string is a string of characters 0--255.
\<close>

section \<open>Encrypted values\<close>

record aead =
  ae_encrypt :: "string \<Rightarrow> string \<Rightarrow> string \<Rightarrow> string"
  ae_decrypt :: "string \<Rightarrow> string \<Rightarrow> string \<Rightarrow> string option"

definition utf8_encode_char :: "char \<Rightarrow> string" where
  "utf8_encode_char c =
     (let n = (of_char c :: nat) in if n < 128 then [c] else [char_of (192 + n div 64), char_of (128 + n mod 64)])"

definition utf8_encode :: "string \<Rightarrow> string" where
  "utf8_encode s = concat (map utf8_encode_char s)"

definition ENCRYPTED_PREFIX :: string where
  "ENCRYPTED_PREFIX = ''v1:''"

definition encrypt_secret :: "aead \<Rightarrow> string \<Rightarrow> string \<Rightarrow> string \<Rightarrow> string" where
  "encrypt_secret A iv plaintext key =
     ENCRYPTED_PREFIX @ b64_encode iv @ '':'' @ b64_encode (ae_encrypt A key iv (utf8_encode plaintext))"

datatype secret_error = Secret_Decryption_Error | Unicode_Decode_Error

fun split_twice :: "string \<Rightarrow> (string \<times> string \<times> string) option" where
  \<comment> \<open>\<open>a, b, c = s.split(":", 2)\<close>, \<open>None\<close> where unpacking raises\<close>
  "split_twice s =
     (let a = takeWhile (\<lambda>c. c \<noteq> CHR '':'') s; r = drop (length a) s
      in case r of
           [] \<Rightarrow> None
         | _ # r1 \<Rightarrow>
             (let b = takeWhile (\<lambda>c. c \<noteq> CHR '':'') r1; r2 = drop (length b) r1
              in case r2 of [] \<Rightarrow> None | _ # c \<Rightarrow> Some (a, b, c)))"

definition decrypt_secret :: "aead \<Rightarrow> string \<Rightarrow> string \<Rightarrow> secret_error + string" where
  "decrypt_secret A stored key =
     (if \<not> is_prefix_of ENCRYPTED_PREFIX stored then Inr stored
      else
        (case split_twice stored of
           None \<Rightarrow> Inl Secret_Decryption_Error
         | Some (_, b64_iv, b64_ct) \<Rightarrow>
             (case (b64_decode (pad_b64 b64_iv), b64_decode (pad_b64 b64_ct)) of
                (Some iv, Some ct) \<Rightarrow>
                  (case ae_decrypt A key iv ct of
                     None \<Rightarrow> Inl Secret_Decryption_Error
                   | Some bytes \<Rightarrow> (case utf8_decode bytes of None \<Rightarrow> Inl Unicode_Decode_Error | Some s \<Rightarrow> Inr s))
              | _ \<Rightarrow> Inl Secret_Decryption_Error)))"

section \<open>Secret fields\<close>

definition is_secret_field :: "json option \<Rightarrow> string \<Rightarrow> bool" where
  "is_secret_field manifest field =
     (case manifest of
        Some (JObj m) \<Rightarrow>
          (case map_of m ''config_schema'' of
             Some (JObj schema) \<Rightarrow>
               (let fields_map = (case map_of schema ''schema'' of Some (JObj nested) \<Rightarrow> nested | _ \<Rightarrow> schema)
                in case map_of fields_map field of
                     Some (JObj spec) \<Rightarrow> map_of spec ''secret'' = Some (JBool True)
                   | _ \<Rightarrow> False)
           | _ \<Rightarrow> False)
      | _ \<Rightarrow> False)"

definition mask_secret_fields :: "string \<Rightarrow> (string, json) dict \<Rightarrow> json option \<Rightarrow> (string, json) dict" where
  "mask_secret_fields hidden config manifest =
     (case manifest of
        Some (JObj _) \<Rightarrow> map (\<lambda>(k, v). (k, if is_secret_field manifest k then JStr hidden else v)) config
      | _ \<Rightarrow> config)"

section \<open>The write path\<close>

definition stored_secret :: "aead \<Rightarrow> string \<Rightarrow> string \<Rightarrow> string \<Rightarrow> (string, json) dict \<Rightarrow> string \<Rightarrow> json \<Rightarrow> json" where
  \<comment> \<open>one turn of the loop over the secret fields\<close>
  "stored_secret A hidden key iv stored field v =
     (if v = JStr hidden then dict_get stored field (JStr [])
      else (case v of
              JStr s \<Rightarrow> if s \<noteq> [] \<and> \<not> is_prefix_of ENCRYPTED_PREFIX s then JStr (encrypt_secret A iv s key) else v
            | _ \<Rightarrow> v))"

definition configured ::
  "aead \<Rightarrow> string \<Rightarrow> string \<Rightarrow> (string \<Rightarrow> string) \<Rightarrow> json option \<Rightarrow> (string, json) dict \<Rightarrow> (string, json) dict \<Rightarrow> (string, json) dict" where
  \<comment> \<open>the configuration that is stored; \<open>ivs\<close> is the nonce drawn for a field\<close>
  "configured A hidden key ivs manifest stored config =
     map (\<lambda>(k, v). (k, if is_secret_field manifest k then stored_secret A hidden key (ivs k) stored k v else v)) config"

record plugin_config_row =
  pcr_id :: string
  pcr_enabled :: int
  pcr_config :: "(string, json) dict"

definition upsert_config :: "string \<Rightarrow> (string, json) dict \<Rightarrow> plugin_config_row list \<Rightarrow> plugin_config_row list" where
  "upsert_config pid config rows =
     (if \<exists>r \<in> set rows. pcr_id r = pid then sql_update (\<lambda>r. pcr_id r = pid) (\<lambda>r. r\<lparr>pcr_config := config\<rparr>) rows
      else rows @ [\<lparr>pcr_id = pid, pcr_enabled = 1, pcr_config = config\<rparr>])"

definition stored_config :: "string \<Rightarrow> plugin_config_row list \<Rightarrow> (string, json) dict" where
  "stored_config pid rows = (case sql_fetchone (\<lambda>r. pcr_id r = pid) rows of None \<Rightarrow> [] | Some r \<Rightarrow> pcr_config r)"

definition configure_plugin ::
  "aead \<Rightarrow> string \<Rightarrow> string \<Rightarrow> (string \<Rightarrow> string) \<Rightarrow> json option \<Rightarrow> string \<Rightarrow> (string, json) dict \<Rightarrow> plugin_config_row list \<Rightarrow> plugin_config_row list" where
  "configure_plugin A hidden key ivs manifest pid config rows =
     upsert_config pid (configured A hidden key ivs manifest (stored_config pid rows) config) rows"

section \<open>The Plex token\<close>

definition migrate_and_decrypt_plex :: "aead \<Rightarrow> string \<Rightarrow> string \<Rightarrow> (string, json) dict \<Rightarrow> plugin_config_row list \<Rightarrow> (string, json) dict \<times> plugin_config_row list" where
  \<comment> \<open>the configuration for the server, and the table; a token that is no string raises and is not modelled\<close>
  "migrate_and_decrypt_plex A key iv config rows =
     (case map_of config ''plex_token'' of
        Some (JStr token) \<Rightarrow>
          if token = [] then (config, rows)
          else if is_prefix_of ENCRYPTED_PREFIX token then
            (case decrypt_secret A token key of
               Inr s \<Rightarrow> (AList.update ''plex_token'' (JStr s) config, rows)
             | Inl _ \<Rightarrow> (AList.update ''plex_token'' (JStr []) config, rows))
          else
            (config, upsert_config ''plex'' (AList.update ''plex_token'' (JStr (encrypt_secret A iv token key)) config) rows)
      | _ \<Rightarrow> (config, rows))"

definition get_plex_config :: "aead \<Rightarrow> string \<Rightarrow> string \<Rightarrow> plugin_config_row list \<Rightarrow> (string, json) dict \<times> plugin_config_row list" where
  "get_plex_config A key iv rows = migrate_and_decrypt_plex A key iv (stored_config ''plex'' rows) rows"

definition dict_update :: "(string, json) dict \<Rightarrow> (string, json) dict \<Rightarrow> (string, json) dict" where
  "dict_update d updates = fold (\<lambda>(k, v). AList.update k v) updates d"

definition save_plex_config :: "aead \<Rightarrow> string \<Rightarrow> string \<Rightarrow> string \<Rightarrow> (string, json) dict \<Rightarrow> plugin_config_row list \<Rightarrow> (string, json) dict \<times> plugin_config_row list" where
  "save_plex_config A key iv1 iv2 updates rows =
     (let (config0, rows1) = get_plex_config A key iv1 rows; config = dict_update config0 updates;
          stored = (case map_of config ''plex_token'' of
                      Some (JStr t) \<Rightarrow>
                        if t \<noteq> [] \<and> \<not> is_prefix_of ENCRYPTED_PREFIX t
                        then AList.update ''plex_token'' (JStr (encrypt_secret A iv2 t key)) config else config
                    | _ \<Rightarrow> config)
      in (config, upsert_config ''plex'' stored rows1))"

section \<open>Facts\<close>

lemma utf8_round: "utf8_decode (utf8_encode s) = Some s"
proof (induction s)
  case (Cons c s)
  let ?n = "of_char c :: nat"
  have n: "?n < 256" by (rule nat_of_char_less_256)
  show ?case
  proof (cases "?n < 128")
    case True
    with Cons show ?thesis by (simp add: utf8_encode_def utf8_encode_char_def)
  next
    case False
    have "?n div 64 < 4" using n by (intro less_mult_imp_div_less) simp
    moreover have "128 div 64 \<le> ?n div 64" using False by (intro div_le_mono) simp
    ultimately have d: "?n div 64 = 2 \<or> ?n div 64 = 3" by simp linarith
    have "(192 + ?n div 64 - 192) * 64 + (128 + ?n mod 64 - 128) = ?n" by simp
    moreover have "192 + ?n div 64 < 256" "128 + ?n mod 64 < 256" using d by auto
    ultimately show ?thesis
      using Cons d False by (auto simp: utf8_encode_def utf8_encode_char_def Let_def)
  qed
qed (simp add: utf8_encode_def)

lemma b64_char_colon: "n < 64 \<Longrightarrow> CHR '':'' \<noteq> b64_char n"
  by (auto simp: b64_char_def char_eq_code)

lemma b64_encode_no_colon: "CHR '':'' \<notin> set (b64_encode s)"
proof (induction s rule: b64_encode.induct)
  case (1 a b c s)
  then show ?case using byte_parts(1-4) [of "of_char a" "of_char b" "of_char c"] nat_of_char_less_256
    by (auto simp: Let_def b64_char_colon)
next
  case (2 a b)
  then show ?case using byte_parts [of "of_char a" "of_char b" 0] nat_of_char_less_256 by (auto simp: Let_def b64_char_colon)
next
  case (3 a)
  then show ?case using byte_parts [of "of_char a" 0 0] nat_of_char_less_256 by (auto simp: Let_def b64_char_colon)
qed simp

lemma pad_b64_encode: "pad_b64 (b64_encode s) = b64_encode s"
proof -
  have "length (b64_encode s) mod 4 = 0" by (induction s rule: b64_encode.induct) (simp_all add: Let_def)
  then show ?thesis by (simp add: pad_b64_def)
qed

lemma split_twice_parts:
  assumes "CHR '':'' \<notin> set a" and "CHR '':'' \<notin> set b"
  shows "split_twice (a @ '':'' @ b @ '':'' @ c) = Some (a, b, c)"
proof -
  have t: "takeWhile (\<lambda>c. c \<noteq> CHR '':'') (x @ CHR '':'' # y) = x" if "CHR '':'' \<notin> set x" for x y
    using that by (induction x) auto
  show ?thesis using assms by (simp add: t)
qed

lemma encrypted_prefix: "is_prefix_of ENCRYPTED_PREFIX (encrypt_secret A iv s key)"
  by (simp add: encrypt_secret_def is_prefix_of_iff)

lemma decrypt_encrypt:
  assumes "\<And>k iv t. ae_decrypt A k iv (ae_encrypt A k iv t) = Some t"
  shows "decrypt_secret A (encrypt_secret A iv s key) key = Inr s"
proof -
  have "split_twice (encrypt_secret A iv s key) = Some (''v1'', b64_encode iv, b64_encode (ae_encrypt A key iv (utf8_encode s)))"
    using split_twice_parts [of "''v1''" "b64_encode iv" "b64_encode (ae_encrypt A key iv (utf8_encode s))"] b64_encode_no_colon
    by (simp add: encrypt_secret_def ENCRYPTED_PREFIX_def del: split_twice.simps)
  then show ?thesis
    using encrypted_prefix [of A iv s key]
    by (simp add: decrypt_secret_def pad_b64_encode b64_decode_encode assms utf8_round del: split_twice.simps)
qed

lemma map_of_map_values: "map_of (map (\<lambda>(k, v). (k, f k v)) d) k = map_option (f k) (map_of d k)"
  by (induction d) auto

lemma stored_upsert: "stored_config pid (upsert_config pid' c rows) = (if pid = pid' then c else stored_config pid rows)"
proof (cases "\<exists>r \<in> set rows. pcr_id r = pid'")
  case True
  then obtain r0 where "sql_fetchone (\<lambda>r. pcr_id r = pid') rows = Some r0"
    by (cases "sql_fetchone (\<lambda>r. pcr_id r = pid') rows") auto
  with True show ?thesis
    by (auto simp: upsert_config_def stored_config_def
        sql_fetchone_update_key_all [where key = pcr_id] sql_fetchone_update_other_key_all [where key = pcr_id])
next
  case False
  then have "sql_fetchone (\<lambda>r. pcr_id r = pid') rows = None" by auto
  with False show ?thesis by (auto simp: upsert_config_def stored_config_def sql_fetchone_append split: option.split dest: sql_fetchone_SomeD)
qed


definition toy_aead :: aead where
  "toy_aead = \<lparr>ae_encrypt = (\<lambda>k iv t. rev t @ k), ae_decrypt = (\<lambda>k iv c. Some (rev (take (length c - length k) c)))\<rparr>"

definition token_manifest :: json where
  "token_manifest = JObj [(''config_schema'', JObj [(''token'', JObj [(''secret'', JBool True)])])]"


text \<open>A secret that itself begins like an encrypted value is stored as it is, and cannot be read back.\<close>

lemma versioned_secret_stored_plain:
  "map_of (configured A hidden key ivs (Some token_manifest) stored [(''token'', JStr ''v1:abc'')]) ''token'' = Some (JStr ''v1:abc'')"
  if "hidden \<noteq> ''v1:abc''" for A hidden key ivs stored
  using that by (simp add: configured_def is_secret_field_def token_manifest_def stored_secret_def ENCRYPTED_PREFIX_def)


definition legacy_rows :: "plugin_config_row list" where
  "legacy_rows = [\<lparr>pcr_id = ''plex'', pcr_enabled = 1, pcr_config = [(''plex_token'', JStr ''tok'')]\<rparr>]"


end
