(* ===== verification/Structured_Llm.thy ===== *)
theory Structured_Llm
  imports Py_Prelude
begin

text \<open>
  Structured answers of a language model (\<open>core/structured_llm.py\<close>) and the retries of its
  client (\<open>core/llm_retry.py\<close>). The client is a function from the messages to an answer or
  an error, the validation of Pydantic a function from a text to a value or an error text.
\<close>

section \<open>Reasoning blocks\<close>

fun split_first :: "string \<Rightarrow> string \<Rightarrow> (string \<times> string) option" where
  \<comment> \<open>the text before and after the first occurrence\<close>
  "split_first pat [] = (if pat = [] then Some ([], []) else None)"
| "split_first pat (c # cs) =
     (if is_prefix_of pat (c # cs) then Some ([], drop (length pat) (c # cs))
      else map_option (\<lambda>(a, b). (c # a, b)) (split_first pat cs))"

definition first_think :: "string \<Rightarrow> (string \<times> string) option" where
  \<comment> \<open>the text around the first match of \<open><think>.*?</think>\<close>\<close>
  "first_think s =
     (case split_first ''<think>'' s of
        None \<Rightarrow> None
      | Some (pre, rest) \<Rightarrow>
          (case split_first ''</think>'' rest of None \<Rightarrow> None | Some (_, post) \<Rightarrow> Some (pre, post)))"

lemma split_first_Some: "split_first pat s = Some (a, b) \<Longrightarrow> s = a @ pat @ b"
proof (induction s arbitrary: a)
  case (Cons c cs)
  show ?case
  proof (cases "is_prefix_of pat (c # cs)")
    case True
    then obtain z where z: "c # cs = pat @ z" by (auto simp: is_prefix_of_iff)
    from True Cons.prems have "a = []" "b = drop (length pat) (c # cs)" by simp_all
    with z show ?thesis by simp
  next
    case False
    with Cons.prems Cons.IH show ?thesis by auto
  qed
qed (simp split: if_splits)

lemma first_think_Some: "first_think s = Some (pre, post) \<Longrightarrow> \<exists>m. s = pre @ ''<think>'' @ m @ ''</think>'' @ post"
  by (auto simp: first_think_def split: option.splits dest!: split_first_Some)

lemma first_think_shorter: "first_think s = Some (pre, post) \<Longrightarrow> length pre + length post + 15 \<le> length s"
  by (auto dest!: first_think_Some)

function strip_pass :: "string \<Rightarrow> string" where
  \<comment> \<open>one \<open>re.sub\<close> over the whole text\<close>
  "strip_pass s = (case first_think s of None \<Rightarrow> s | Some (pre, post) \<Rightarrow> pre @ strip_pass post)"
  by pat_completeness auto
termination
  by (relation "measure length") (auto dest: first_think_shorter)

declare strip_pass.simps [simp del]

lemma strip_pass_le: "length (strip_pass s) \<le> length s"
proof (induction s rule: strip_pass.induct)
  case (1 s)
  show ?case
  proof (cases "first_think s")
    case (Some x)
    then obtain pre post where f: "first_think s = Some (pre, post)" by (metis surj_pair)
    with 1 [OF f refl] first_think_shorter [OF f] show ?thesis by (subst strip_pass.simps) simp
  qed (subst strip_pass.simps; simp)
qed

lemma strip_pass_less: "first_think s \<noteq> None \<Longrightarrow> length (strip_pass s) < length s"
proof -
  assume "first_think s \<noteq> None"
  then obtain pre post where f: "first_think s = Some (pre, post)" by auto
  then have "strip_pass s = pre @ strip_pass post" by (subst strip_pass.simps) simp
  with strip_pass_le [of post] first_think_shorter [OF f] show ?thesis by simp
qed

function strip_think :: "string \<Rightarrow> string" where
  \<comment> \<open>the loop until no complete pair remains\<close>
  "strip_think s = (if first_think s = None then s else strip_think (strip_pass s))"
  by pat_completeness auto
termination
  by (relation "measure length") (auto intro: strip_pass_less)

declare strip_think.simps [simp del]

section \<open>The attempts\<close>

datatype msg = System string | Given string | Assistant string | Feedback string

definition MAX_RETRY_FEEDBACK_PAIRS :: nat where
  "MAX_RETRY_FEEDBACK_PAIRS = 5"

definition append_feedback_pair :: "nat \<Rightarrow> msg \<Rightarrow> msg \<Rightarrow> msg list \<Rightarrow> msg list" where
  "append_feedback_pair start a u ms =
     (let ms' = ms @ [a, u]
      in if 2 * MAX_RETRY_FEEDBACK_PAIRS < length ms' - start then take start ms' @ drop (start + 2) ms' else ms')"

datatype 'e llm_failure = Llm_Raised 'e | Empty_Answer nat | Invalid_Answer nat string | Loop_Ended

fun attempts ::
  "(msg list \<Rightarrow> 'e + string) \<Rightarrow> (string \<Rightarrow> string + 'a) \<Rightarrow> nat \<Rightarrow> nat \<Rightarrow> nat \<Rightarrow> msg list \<Rightarrow> msg list list \<times> ('e llm_failure + 'a)" where
  \<comment> \<open>the requests that were sent, and the outcome; \<open>left\<close> attempts remain of \<open>tot\<close>\<close>
  "attempts client validate tot start 0 ms = ([], Inl Loop_Ended)"
| "attempts client validate tot start (Suc left) ms =
     (let (reqs, r) =
        (case client ms of
           Inl e \<Rightarrow> ([], Inl (Llm_Raised e))
         | Inr raw \<Rightarrow>
             if raw = [] then
               if left = 0 then ([], Inl (Empty_Answer tot))
               else attempts client validate tot start left
                 (append_feedback_pair start (Assistant ''(empty response)'') (Feedback ''You returned empty content. Output valid JSON only.'') ms)
             else
               (case validate (strip (strip_think raw)) of
                  Inr v \<Rightarrow> ([], Inr v)
                | Inl e \<Rightarrow>
                    if left = 0 then ([], Inl (Invalid_Answer tot e))
                    else attempts client validate tot start left
                      (append_feedback_pair start (Assistant raw)
                        (Feedback (''Validation error: '' @ e @ ''. Fix the JSON to match the schema exactly.'')) ms)))
      in (ms # reqs, r))"

definition structured_create ::
  "(msg list \<Rightarrow> 'e + string) \<Rightarrow> (string \<Rightarrow> string + 'a) \<Rightarrow> string \<Rightarrow> nat \<Rightarrow> msg list \<Rightarrow> msg list list \<times> ('e llm_failure + 'a)" where
  "structured_create client validate prompt max_attempts messages =
     (let full = System prompt # messages in attempts client validate max_attempts (length full) max_attempts full)"

section \<open>Retries of the client\<close>

datatype ('e, 'a) try_result = Success 'a | Transient 'e | Permanent 'e

fun retry_from :: "(nat \<Rightarrow> ('e, 'a) try_result) \<Rightarrow> (nat \<Rightarrow> rat) \<Rightarrow> rat \<Rightarrow> nat \<Rightarrow> nat \<Rightarrow> (('e option) + 'a) \<times> rat list" where
  \<comment> \<open>the loop from an attempt on; \<open>jit\<close> is the random part of a delay; \<open>Inl None\<close> is the \<open>RuntimeError\<close> at the end\<close>
  "retry_from fn jit base attempt 0 = (Inl None, [])"
| "retry_from fn jit base attempt (Suc left) =
     (case fn attempt of
        Success v \<Rightarrow> (Inr v, [])
      | Permanent e \<Rightarrow> (Inl (Some e), [])
      | Transient e \<Rightarrow>
          if left = 0 then (Inl (Some e), [])
          else (let (r, ds) = retry_from fn jit base (Suc attempt) left in (r, (base * 2 ^ attempt + jit attempt) # ds)))"

definition with_retry :: "(nat \<Rightarrow> ('e, 'a) try_result) \<Rightarrow> (nat \<Rightarrow> rat) \<Rightarrow> rat \<Rightarrow> nat \<Rightarrow> (('e option) + 'a) \<times> rat list" where
  "with_retry fn jit base max_attempts = retry_from fn jit base 0 max_attempts"

section \<open>Properties\<close>

lemma strip_think_clean: "first_think (strip_think s) = None"
proof (induction s rule: strip_think.induct)
  case (1 s)
  then show ?case by (subst strip_think.simps) simp
qed

lemma strip_think_id: "first_think s = None \<Longrightarrow> strip_think s = s"
  by (subst strip_think.simps) simp

lemma feedback_bounded:
  assumes "take start ms = base" and "length base = start" and "length ms \<le> start + 10" and "even (length ms - start)"
  shows "take start (append_feedback_pair start a u ms) = base \<and> length (append_feedback_pair start a u ms) \<le> start + 10 \<and>
    even (length (append_feedback_pair start a u ms) - start)"
proof -
  have "start \<le> length ms" using assms(1,2) by (metis length_take min.cobounded2 min.commute)
  with assms show ?thesis
    by (auto simp: append_feedback_pair_def Let_def MAX_RETRY_FEEDBACK_PAIRS_def)
qed

lemma attempts_bounded:
  assumes "attempts client validate tot start n ms = (reqs, r)"
    and "take start ms = base" and "length base = start" and "length ms \<le> start + 10" and "even (length ms - start)"
  shows "length reqs \<le> n \<and> (\<forall>q \<in> set reqs. take start q = base \<and> length q \<le> start + 10) \<and>
    (\<forall>v. r = Inr v \<longrightarrow> (\<exists>q \<in> set reqs. \<exists>raw. client q = Inr raw \<and> raw \<noteq> [] \<and> validate (strip (strip_think raw)) = Inr v))"
  using assms
proof (induction n arbitrary: ms reqs r)
  case (Suc n)
  note fb = feedback_bounded [OF Suc.prems(2-5)]
  show ?case
  proof (cases "client ms")
    case (Inl e)
    with Suc.prems show ?thesis by (auto simp: Let_def)
  next
    case (Inr raw)
    consider (empty) "raw = []" | (ok) v where "raw \<noteq> []" "validate (strip (strip_think raw)) = Inr v"
      | (bad) e where "raw \<noteq> []" "validate (strip (strip_think raw)) = Inl e"
      by (cases "validate (strip (strip_think raw))") auto
    then show ?thesis
    proof cases
      case ok
      with Inr Suc.prems show ?thesis by auto
    next
      case empty
      let ?ms = "append_feedback_pair start (Assistant ''(empty response)'') (Feedback ''You returned empty content. Output valid JSON only.'') ms"
      obtain reqs1 r1 where a: "attempts client validate tot start n ?ms = (reqs1, r1)" by fastforce
      show ?thesis
      proof (cases n)
        case 0
        with Inr empty Suc.prems show ?thesis by auto
      next
        case (Suc n')
        then have "reqs = ms # reqs1" "r = r1" using Inr empty Suc.prems(1) a by auto
        with Suc.IH [OF a] fb Suc.prems show ?thesis by auto
      qed
    next
      case (bad e)
      let ?ms = "append_feedback_pair start (Assistant raw) (Feedback (''Validation error: '' @ e @ ''. Fix the JSON to match the schema exactly.'')) ms"
      obtain reqs1 r1 where a: "attempts client validate tot start n ?ms = (reqs1, r1)" by fastforce
      show ?thesis
      proof (cases n)
        case 0
        with Inr bad Suc.prems show ?thesis by auto
      next
        case (Suc n')
        then have "reqs = ms # reqs1" "r = r1" using Inr bad Suc.prems(1) a by auto
        with Suc.IH [OF a] fb Suc.prems show ?thesis by auto
      qed
    qed
  qed
qed simp

text \<open>
  A structured request is bounded and honest: it sends at most the allowed number of
  requests, each starts with the system prompt and the messages of the caller unchanged
  and has at most ten more; a value that is returned is the validated text of one of the
  answers, cleaned of reasoning blocks, of which no complete one is left.
\<close>
theorem structured_create_bounded:
  assumes "structured_create client validate prompt n messages = (reqs, r)"
  shows "length reqs \<le> n \<and>
    (\<forall>q \<in> set reqs. \<exists>fb. q = System prompt # messages @ fb \<and> length fb \<le> 10) \<and>
    (\<forall>v. r = Inr v \<longrightarrow> (\<exists>q \<in> set reqs. \<exists>raw. client q = Inr raw \<and> validate (strip (strip_think raw)) = Inr v \<and>
       first_think (strip_think raw) = None))"
proof -
  let ?b = "System prompt # messages"
  have "attempts client validate n (length ?b) n ?b = (reqs, r)" using assms by (simp add: structured_create_def Let_def)
  note b = attempts_bounded [OF this, of ?b, simplified]
  have "\<exists>fb. q = System prompt # messages @ fb \<and> length fb \<le> 10" if "q \<in> set reqs" for q
  proof -
    have q: "take (Suc (length messages)) q = ?b" "length q \<le> Suc (length messages) + 10" using b that by auto
    then have "q = ?b @ drop (Suc (length messages)) q" by (metis append_take_drop_id)
    with q(2) show ?thesis by (intro exI [of _ "drop (Suc (length messages)) q"]) simp
  qed
  then show ?thesis using b strip_think_clean by blast
qed

theorem structured_create_bounded_witness:
  "length (fst (structured_create (\<lambda>_. Inr ''<think>x</think>1'') (\<lambda>s. if s = ''1'' then Inr (1 :: nat) else Inl ''bad'') ''p'' 2 [Given ''q''] ::
     msg list list \<times> (unit llm_failure + nat))) \<le> 2"
  using structured_create_bounded [of "\<lambda>_. Inr ''<think>x</think>1'' :: unit + string" "\<lambda>s. if s = ''1'' then Inr (1 :: nat) else Inl ''bad''" "''p''" 2 "[Given ''q'']"]
  by (metis (no_types, lifting) prod.collapse)

lemma retry_from_spec:
  assumes "retry_from fn jit base k n = (r, ds)"
  shows "length ds < max 1 n \<and> (\<forall>i < length ds. ds ! i = base * 2 ^ (k + i) + jit (k + i)) \<and>
    (\<forall>i < length ds. \<exists>e. fn (k + i) = Transient e) \<and>
    (0 < n \<longrightarrow> (case fn (k + length ds) of
        Success v \<Rightarrow> r = Inr v
      | Permanent e \<Rightarrow> r = Inl (Some e)
      | Transient e \<Rightarrow> r = Inl (Some e) \<and> Suc (length ds) = n))"
  using assms
proof (induction n arbitrary: k r ds)
  case (Suc n)
  show ?case
  proof (cases "\<exists>e. fn k = Transient e \<and> n \<noteq> 0")
    case True
    then obtain e where e: "fn k = Transient e" "n \<noteq> 0" by blast
    obtain r1 ds1 where a: "retry_from fn jit base (Suc k) n = (r1, ds1)" by fastforce
    have d: "r = r1" "ds = (base * 2 ^ k + jit k) # ds1" using Suc.prems e a by auto
    note IH = Suc.IH [OF a]
    have "ds ! i = base * 2 ^ (k + i) + jit (k + i) \<and> (\<exists>e. fn (k + i) = Transient e)" if "i < length ds" for i
      using that IH e(1) by (cases i) (auto simp: d)
    moreover have "length ds < max 1 (Suc n)" using IH e(2) by (auto simp: d)
    ultimately show ?thesis using IH e(2) by (auto simp: d split: try_result.splits)
  next
    case False
    then have "ds = []" "case fn k of Success v \<Rightarrow> r = Inr v | Permanent e \<Rightarrow> r = Inl (Some e) | Transient e \<Rightarrow> r = Inl (Some e) \<and> n = 0"
      using Suc.prems by (auto split: try_result.splits if_splits prod.splits)
    then show ?thesis by (auto split: try_result.splits)
  qed
qed simp

text \<open>
  Retries are exponential and stop in time: with at least one attempt allowed, the call is
  repeated exactly after transient failures, at most the allowed number of times, the wait
  after the i-th failure is the base delay doubled i times plus the random part, and the
  outcome is that of the last call.
\<close>
theorem retry_schedule:
  assumes "with_retry fn jit base n = (r, ds)" and "0 < n"
  shows "length ds < n \<and> (\<forall>i < length ds. ds ! i = base * 2 ^ i + jit i \<and> (\<exists>e. fn i = Transient e)) \<and>
    (case fn (length ds) of
       Success v \<Rightarrow> r = Inr v
     | Permanent e \<Rightarrow> r = Inl (Some e)
     | Transient e \<Rightarrow> r = Inl (Some e) \<and> Suc (length ds) = n)"
  using retry_from_spec [of fn jit base 0 n r ds] assms by (auto simp: with_retry_def split: try_result.splits)

theorem retry_schedule_witness:
  "snd (with_retry (\<lambda>i. if i < 2 then Transient ''timeout'' else Success (7 :: nat)) (\<lambda>_. 0) 1 3) = [1, 2] \<and>
   length (snd (with_retry (\<lambda>i. if i < 2 then Transient ''timeout'' else Success (7 :: nat)) (\<lambda>_. 0) 1 3)) < 3"
proof -
  let ?r = "with_retry (\<lambda>i. if i < 2 then Transient ''timeout'' else Success (7 :: nat)) (\<lambda>_. 0) 1 3"
  have "length (snd ?r) < 3" using retry_schedule [of "\<lambda>i. if i < 2 then Transient ''timeout'' else Success (7 :: nat)" "\<lambda>_. 0" 1 3 "fst ?r" "snd ?r"] by simp
  moreover have "snd ?r = [1, 2]" by (simp add: with_retry_def numeral_3_eq_3)
  ultimately show ?thesis by simp
qed

end
