(* ===== verification/Db_Pool.thy ===== *)
theory Db_Pool
  imports Py_Prelude "HOL-Library.Multiset"
begin

text \<open>
  The pool of SQLite connections and the transactions on one of them
  (\<open>db/database.py\<close>). A connection is a number, the one that was opened first being 0;
  whether it answers \<open>SELECT 1\<close> and whether a new one can be opened are choices of the
  environment. Sessions overlap wherever the code awaits, so a session is a phase and the
  sessions under way are a multiset of phases.
\<close>

section \<open>The pool\<close>

record db_pool =
  dp_queue :: "nat list option"    \<comment> \<open>\<open>_pool\<close>, \<open>None\<close> before \<open>init\<close> and after \<open>close_all\<close>\<close>
  dp_connections :: "nat list"
  dp_size :: nat
  dp_next :: nat                   \<comment> \<open>the next connection that is opened\<close>

datatype pool_error = Pool_Not_Initialized | Acquire_Timeout | Create_Failed | Replace_Failed

definition pool_init :: "nat \<Rightarrow> db_pool" where
  "pool_init n = \<lparr>dp_queue = Some [0..<n], dp_connections = [0..<n], dp_size = n, dp_next = n\<rparr>"

definition create_connection :: "db_pool \<Rightarrow> nat \<times> db_pool" where
  "create_connection p = (dp_next p, p\<lparr>dp_next := Suc (dp_next p), dp_connections := dp_connections p @ [dp_next p]\<rparr>)"

definition queue_get :: "db_pool \<Rightarrow> pool_error + nat \<times> db_pool" where
  \<comment> \<open>the first await of \<open>acquire\<close>: an empty queue makes the caller wait until the time limit\<close>
  "queue_get p =
     (case dp_queue p of
        None \<Rightarrow> Inl Pool_Not_Initialized
      | Some [] \<Rightarrow> Inl Acquire_Timeout
      | Some (c # cs) \<Rightarrow> Inr (c, p\<lparr>dp_queue := Some cs\<rparr>))"

definition discard :: "nat \<Rightarrow> db_pool \<Rightarrow> db_pool" where
  "discard c p = p\<lparr>dp_connections := remove1 c (dp_connections p)\<rparr>"

definition queue_put :: "nat \<Rightarrow> db_pool \<Rightarrow> db_pool option" where
  \<comment> \<open>\<open>None\<close>: the bounded queue is full and the call waits\<close>
  "queue_put c p =
     (case dp_queue p of
        None \<Rightarrow> Some p
      | Some cs \<Rightarrow> if length cs < dp_size p then Some (p\<lparr>dp_queue := Some (cs @ [c])\<rparr>) else None)"

definition close_all :: "db_pool \<Rightarrow> db_pool" where
  "close_all p = p\<lparr>dp_connections := [], dp_queue := None\<rparr>"

definition acquire_conn :: "bool \<Rightarrow> bool \<Rightarrow> db_pool \<Rightarrow> (pool_error + nat) \<times> db_pool" where
  \<comment> \<open>\<open>acquire\<close> run alone\<close>
  "acquire_conn healthy can_open p =
     (case queue_get p of
        Inl e \<Rightarrow> (Inl e, p)
      | Inr (c, p1) \<Rightarrow>
          if healthy then (Inr c, p1)
          else if can_open then (let (c', p2) = create_connection (discard c p1) in (Inr c', p2))
          else (Inl Create_Failed, discard c p1))"

definition release_conn :: "bool \<Rightarrow> bool \<Rightarrow> nat \<Rightarrow> db_pool \<Rightarrow> ((pool_error + unit) \<times> db_pool) option" where
  \<comment> \<open>\<open>release\<close> run alone; \<open>can_open\<close> if one of the two attempts succeeds\<close>
  "release_conn healthy can_open c p =
     (if c \<notin> set (dp_connections p) then Some (Inr (), p)
      else if healthy then map_option (\<lambda>p'. (Inr (), p')) (queue_put c p)
      else if can_open then
        (let (c', p1) = create_connection (discard c p) in map_option (\<lambda>p'. (Inr (), p')) (queue_put c' p1))
      else Some (Inl Replace_Failed, discard c p))"

section \<open>Overlapping sessions\<close>

datatype session_phase = Checking nat | Replacing | Holding nat | Releasing nat | Refilling

record pool_world =
  pw_pool :: db_pool
  pw_sessions :: "session_phase multiset"
  pw_lost :: nat                   \<comment> \<open>connections that could not be replaced\<close>

inductive pool_step :: "pool_world \<Rightarrow> pool_world \<Rightarrow> bool" where
  take: "queue_get p = Inr (c, p') \<Longrightarrow> pool_step \<lparr>pw_pool = p, pw_sessions = S, pw_lost = l\<rparr> \<lparr>pw_pool = p', pw_sessions = add_mset (Checking c) S, pw_lost = l\<rparr>"
| found_healthy: "pool_step \<lparr>pw_pool = p, pw_sessions = add_mset (Checking c) S, pw_lost = l\<rparr> \<lparr>pw_pool = p, pw_sessions = add_mset (Holding c) S, pw_lost = l\<rparr>"
| found_broken: "pool_step \<lparr>pw_pool = p, pw_sessions = add_mset (Checking c) S, pw_lost = l\<rparr> \<lparr>pw_pool = discard c p, pw_sessions = add_mset Replacing S, pw_lost = l\<rparr>"
| replaced: "create_connection p = (c, p') \<Longrightarrow> pool_step \<lparr>pw_pool = p, pw_sessions = add_mset Replacing S, pw_lost = l\<rparr> \<lparr>pw_pool = p', pw_sessions = add_mset (Holding c) S, pw_lost = l\<rparr>"
| replace_fails: "pool_step \<lparr>pw_pool = p, pw_sessions = add_mset Replacing S, pw_lost = l\<rparr> \<lparr>pw_pool = p, pw_sessions = S, pw_lost = Suc l\<rparr>"
| leave: "c \<in> set (dp_connections p) \<Longrightarrow> pool_step \<lparr>pw_pool = p, pw_sessions = add_mset (Holding c) S, pw_lost = l\<rparr> \<lparr>pw_pool = p, pw_sessions = add_mset (Releasing c) S, pw_lost = l\<rparr>"
| leave_foreign: "c \<notin> set (dp_connections p) \<Longrightarrow> pool_step \<lparr>pw_pool = p, pw_sessions = add_mset (Holding c) S, pw_lost = l\<rparr> \<lparr>pw_pool = p, pw_sessions = S, pw_lost = l\<rparr>"
| given_back: "queue_put c p = Some p' \<Longrightarrow> pool_step \<lparr>pw_pool = p, pw_sessions = add_mset (Releasing c) S, pw_lost = l\<rparr> \<lparr>pw_pool = p', pw_sessions = S, pw_lost = l\<rparr>"
| returned_broken: "pool_step \<lparr>pw_pool = p, pw_sessions = add_mset (Releasing c) S, pw_lost = l\<rparr> \<lparr>pw_pool = discard c p, pw_sessions = add_mset Refilling S, pw_lost = l\<rparr>"
| refilled: "create_connection p = (c, p1) \<Longrightarrow> queue_put c p1 = Some p' \<Longrightarrow>
    pool_step \<lparr>pw_pool = p, pw_sessions = add_mset Refilling S, pw_lost = l\<rparr> \<lparr>pw_pool = p', pw_sessions = S, pw_lost = l\<rparr>"
| refill_fails: "pool_step \<lparr>pw_pool = p, pw_sessions = add_mset Refilling S, pw_lost = l\<rparr> \<lparr>pw_pool = p, pw_sessions = S, pw_lost = Suc l\<rparr>"
| close: "pool_step \<lparr>pw_pool = p, pw_sessions = S, pw_lost = l\<rparr> \<lparr>pw_pool = close_all p, pw_sessions = S, pw_lost = l\<rparr>"

definition pool_start :: "nat \<Rightarrow> pool_world \<Rightarrow> bool" where
  "pool_start n w \<longleftrightarrow> w = \<lparr>pw_pool = pool_init n, pw_sessions = {#}, pw_lost = 0\<rparr>"

fun conn_of :: "session_phase \<Rightarrow> nat multiset" where
  "conn_of (Checking c) = {#c#}"
| "conn_of (Holding c) = {#c#}"
| "conn_of (Releasing c) = {#c#}"
| "conn_of _ = {#}"

definition held :: "session_phase multiset \<Rightarrow> nat multiset" where
  "held S = \<Sum>\<^sub># (image_mset conn_of S)"

lemma held_simps [simp]: "held {#} = {#}" "held (add_mset x S) = conn_of x + held S"
  by (simp_all add: held_def)

definition idle :: "db_pool \<Rightarrow> nat list" where
  "idle p = (case dp_queue p of None \<Rightarrow> [] | Some cs \<Rightarrow> cs)"

definition live :: "db_pool \<Rightarrow> session_phase multiset \<Rightarrow> nat multiset" where
  "live p S = mset (idle p) + held S"

definition once_below :: "nat \<Rightarrow> nat multiset \<Rightarrow> bool" where
  "once_below k M \<longleftrightarrow> (\<forall>c. count M c \<le> (if c < k then 1 else 0))"

lemma once_below_part: "once_below k M \<Longrightarrow> N \<subseteq># M \<Longrightarrow> once_below k N"
  unfolding once_below_def subseteq_mset_def by (meson order_trans)

lemma once_below_next: "once_below k M \<Longrightarrow> once_below (Suc k) (add_mset k M)"
  unfolding once_below_def
proof
  fix c assume "\<forall>c. count M c \<le> (if c < k then 1 else 0)"
  then have "count M c \<le> (if c < k then 1 else 0)" ..
  then show "count (add_mset k M) c \<le> (if c < Suc k then 1 else 0)" by (cases "c < k") (auto simp: less_Suc_eq)
qed

definition pool_inv :: "nat \<Rightarrow> pool_world \<Rightarrow> bool" where
  "pool_inv n w \<longleftrightarrow>
     (let p = pw_pool w; S = pw_sessions w
      in dp_size p = n \<and> once_below (dp_next p) (live p S) \<and>
         (dp_queue p \<noteq> None \<longrightarrow> mset (dp_connections p) = live p S \<and> length (idle p) + size S + pw_lost w = n))"

lemma pool_inv_iff:
  "pool_inv n \<lparr>pw_pool = p, pw_sessions = S, pw_lost = l\<rparr> \<longleftrightarrow>
     dp_size p = n \<and> once_below (dp_next p) (live p S) \<and>
     (dp_queue p \<noteq> None \<longrightarrow> mset (dp_connections p) = live p S \<and> length (idle p) + size S + l = n)"
  by (simp add: pool_inv_def Let_def)

lemma put_never_waits: "pool_inv n \<lparr>pw_pool = p, pw_sessions = add_mset x S, pw_lost = l\<rparr> \<Longrightarrow> queue_put c p \<noteq> None"
  by (auto simp: pool_inv_iff queue_put_def idle_def split: option.splits)

lemma queue_get_Inr:
  "queue_get p = Inr (c, p') \<longleftrightarrow> (\<exists>cs. dp_queue p = Some (c # cs) \<and> p' = p\<lparr>dp_queue := Some cs\<rparr>)"
  by (auto simp: queue_get_def split: option.splits list.splits)

lemma queue_put_Some:
  "queue_put c p = Some p' \<longleftrightarrow>
     dp_queue p = None \<and> p' = p \<or> (\<exists>cs. dp_queue p = Some cs \<and> length cs < dp_size p \<and> p' = p\<lparr>dp_queue := Some (cs @ [c])\<rparr>)"
  by (auto simp: queue_put_def split: option.splits)

lemma pool_inv_less:
  assumes i: "pool_inv n \<lparr>pw_pool = p, pw_sessions = add_mset x S, pw_lost = l\<rparr>" and x: "conn_of x = {#c#}" and y: "conn_of y = {#}"
  shows "pool_inv n \<lparr>pw_pool = discard c p, pw_sessions = add_mset y S, pw_lost = l\<rparr>"
proof -
  have a: "live p (add_mset x S) = add_mset c (live p S)" using x by (simp add: live_def)
  have b: "live (discard c p) (add_mset y S) = live p S" using y by (simp add: live_def discard_def idle_def)
  have "once_below (dp_next p) (add_mset c (live p S))" using i by (simp add: pool_inv_iff a)
  then have "once_below (dp_next p) (live p S)" by (rule once_below_part) simp
  with i show ?thesis by (simp add: pool_inv_iff a b) (simp add: discard_def idle_def)
qed

lemma pool_inv_more:
  assumes i: "pool_inv n \<lparr>pw_pool = p, pw_sessions = add_mset x S, pw_lost = l\<rparr>" and x: "conn_of x = {#}"
  shows "pool_inv n \<lparr>pw_pool = snd (create_connection p), pw_sessions = add_mset (Holding (dp_next p)) S, pw_lost = l\<rparr>"
proof -
  let ?p = "snd (create_connection p)"
  have a: "live p (add_mset x S) = live p S" using x by (simp add: live_def)
  have b: "live ?p (add_mset (Holding (dp_next p)) S) = add_mset (dp_next p) (live p S)"
    by (simp add: live_def create_connection_def idle_def)
  from i have "once_below (Suc (dp_next p)) (add_mset (dp_next p) (live p S))"
    by (simp add: pool_inv_iff a once_below_next)
  with i show ?thesis by (simp add: pool_inv_iff a b) (simp add: create_connection_def idle_def)
qed

lemma pool_inv_shrink:
  assumes "pool_inv n \<lparr>pw_pool = p, pw_sessions = add_mset x S, pw_lost = l\<rparr>" and "conn_of x = {#}"
  shows "pool_inv n \<lparr>pw_pool = p, pw_sessions = S, pw_lost = Suc l\<rparr>"
  using assms by (simp add: pool_inv_iff live_def)

lemma pool_inv_put:
  assumes i: "pool_inv n \<lparr>pw_pool = p, pw_sessions = add_mset x S, pw_lost = l\<rparr>" and x: "conn_of x = {#c#}" and q: "queue_put c p = Some p'"
  shows "pool_inv n \<lparr>pw_pool = p', pw_sessions = S, pw_lost = l\<rparr>"
proof (cases "dp_queue p")
  case None
  then have p': "p' = p" using q by (simp add: queue_put_Some)
  have "live p S \<subseteq># live p (add_mset x S)" by (simp add: live_def)
  with i None show ?thesis by (auto simp: p' pool_inv_iff intro: once_below_part)
next
  case (Some cs)
  then have p': "p' = p\<lparr>dp_queue := Some (cs @ [c])\<rparr>" using q by (simp add: queue_put_Some)
  have "live p' S = live p (add_mset x S)" using x Some by (simp add: p' live_def idle_def)
  with i Some show ?thesis by (simp add: p' pool_inv_iff idle_def)
qed

lemma pool_step_inv: "pool_step w w' \<Longrightarrow> pool_inv n w \<Longrightarrow> pool_inv n w'"
proof (induction rule: pool_step.induct)
  case (take p c p' S l)
  then show ?case by (auto simp: queue_get_Inr pool_inv_iff live_def idle_def)
next
  case (found_broken p c S l)
  then show ?case by (auto intro: pool_inv_less)
next
  case (returned_broken p c S l)
  then show ?case by (auto intro: pool_inv_less)
next
  case (replaced p c p' S l)
  with pool_inv_more [of n p Replacing S l] show ?case by (auto simp: create_connection_def)
next
  case (leave_foreign c p S l)
  then have "dp_queue p = None"
    by (cases "dp_queue p") (auto simp: pool_inv_iff live_def simp flip: set_mset_mset)
  moreover have "live p S \<subseteq># live p (add_mset (Holding c) S)" by (simp add: live_def)
  ultimately show ?case using leave_foreign by (auto simp: pool_inv_iff intro: once_below_part)
next
  case (given_back c p p' S l)
  then show ?case by (auto intro: pool_inv_put)
next
  case (refilled p c p1 p' S l)
  have "pool_inv n \<lparr>pw_pool = p1, pw_sessions = add_mset (Holding c) S, pw_lost = l\<rparr>"
    using pool_inv_more [of n p Refilling S l] refilled by (auto simp: create_connection_def)
  with refilled show ?case by (auto intro: pool_inv_put)
next
  case (close p S l)
  have "live (close_all p) S \<subseteq># live p S" by (simp add: live_def close_all_def idle_def)
  with close show ?case by (auto simp: pool_inv_iff close_all_def intro: once_below_part)
qed (auto simp: pool_inv_iff live_def pool_inv_shrink)

lemma pool_start_inv: "pool_start n w \<Longrightarrow> pool_inv n w"
  by (simp add: pool_start_def pool_inv_iff pool_init_def live_def idle_def once_below_def distinct_count_atmost_1 [symmetric] count_eq_zero_iff)

interpretation pool_run: inductive_invariant "pool_start n" pool_step "pool_inv n" for n
  by unfold_locales (auto intro: pool_start_inv pool_step_inv)

section \<open>Transactions\<close>

record 'd db_conn =
  cn_committed :: 'd
  cn_working :: "'d option"        \<comment> \<open>the state inside an open transaction\<close>

definition in_transaction :: "'d db_conn \<Rightarrow> bool" where
  "in_transaction c \<longleftrightarrow> cn_working c \<noteq> None"

definition commit :: "'d db_conn \<Rightarrow> 'd db_conn" where
  "commit c = (case cn_working c of None \<Rightarrow> c | Some d \<Rightarrow> \<lparr>cn_committed = d, cn_working = None\<rparr>)"

definition rollback :: "'d db_conn \<Rightarrow> 'd db_conn" where
  "rollback c = c\<lparr>cn_working := None\<rparr>"

definition execute :: "('d \<Rightarrow> 'd) \<Rightarrow> 'd db_conn \<Rightarrow> 'd db_conn" where
  \<comment> \<open>a writing statement opens a transaction when none is open\<close>
  "execute f c = c\<lparr>cn_working := Some (f (case cn_working c of None \<Rightarrow> cn_committed c | Some d \<Rightarrow> d))\<rparr>"

definition transaction ::
  "('e + unit) \<Rightarrow> ('e + unit) \<Rightarrow> ('d db_conn \<Rightarrow> ('e + 'a) \<times> 'd db_conn) \<Rightarrow> 'd db_conn \<Rightarrow> ('e + 'a) \<times> 'd db_conn" where
  \<comment> \<open>\<open>lock\<close> and \<open>flush\<close> are the outcomes of \<open>BEGIN IMMEDIATE\<close> and of the commit\<close>
  "transaction lock flush body c =
     (if in_transaction c then body c
      else
        (case lock of
           Inl e \<Rightarrow> (Inl e, c)
         | Inr _ \<Rightarrow>
             (case body (c\<lparr>cn_working := Some (cn_committed c)\<rparr>) of
                (Inl e, c1) \<Rightarrow> (Inl e, if in_transaction c1 then rollback c1 else c1)
              | (Inr v, c1) \<Rightarrow>
                  (case flush of
                     Inr _ \<Rightarrow> (Inr v, commit c1)
                   | Inl e \<Rightarrow> (Inl e, if in_transaction c1 then rollback c1 else c1)))))"

section \<open>Properties\<close>

text \<open>
  C19. Connections are exclusive and conserved: in every run of overlapping sessions over a pool
  of \<open>n\<close> connections no connection is held by two sessions or held and idle at once, and
  until the pool is closed the idle connections, the sessions under way and the connections
  that could not be replaced add up to \<open>n\<close>. So giving a connection back never waits, and a
  session waits only when \<open>n\<close> are busy or lost.
\<close>
theorem pool_exclusive:
  assumes "reachable (pool_start n) pool_step w"
  shows "(\<forall>c. count (mset (idle (pw_pool w)) + held (pw_sessions w)) c \<le> 1) \<and>
    (dp_queue (pw_pool w) \<noteq> None \<longrightarrow>
       length (idle (pw_pool w)) + size (pw_sessions w) + pw_lost w = n \<and>
       mset (dp_connections (pw_pool w)) = mset (idle (pw_pool w)) + held (pw_sessions w) \<and>
       (pw_sessions w \<noteq> {#} \<longrightarrow> (\<forall>c. queue_put c (pw_pool w) \<noteq> None)) \<and>
       (queue_get (pw_pool w) = Inl Acquire_Timeout \<longleftrightarrow> size (pw_sessions w) + pw_lost w = n))"
proof -
  obtain p S l where w: "w = \<lparr>pw_pool = p, pw_sessions = S, pw_lost = l\<rparr>" by (cases w)
  have i: "pool_inv n \<lparr>pw_pool = p, pw_sessions = S, pw_lost = l\<rparr>" using pool_run.reachable_inv [OF assms] by (simp add: w)
  then have "\<forall>c. count (live p S) c \<le> 1"
    unfolding pool_inv_iff once_below_def by (metis (full_types) bot_nat_0.extremum le_trans)
  moreover have "queue_get p = Inl Acquire_Timeout \<longleftrightarrow> size S + l = n" if "dp_queue p \<noteq> None"
    using i that by (auto simp: pool_inv_iff queue_get_def idle_def split: option.splits list.splits)
  moreover have "queue_put c p \<noteq> None" if "S \<noteq> {#}" for c
    using i put_never_waits that by (cases S) auto
  ultimately show ?thesis using i by (simp add: w pool_inv_iff live_def)
qed

theorem pool_exclusive_witness:
  "count (held {#Holding 0#}) 0 = 1 \<and> size {#Holding 0#} + 0 = (1 :: nat) \<and>
   queue_get ((pool_init 1)\<lparr>dp_queue := Some []\<rparr>) = Inl Acquire_Timeout"
proof -
  let ?p = "(pool_init 1)\<lparr>dp_queue := Some []\<rparr>"
  let ?w = "\<lambda>x. \<lparr>pw_pool = ?p, pw_sessions = {#x#}, pw_lost = 0\<rparr>"
  have g: "queue_get (pool_init 1) = Inr (0, ?p)" by (simp add: queue_get_def pool_init_def)
  have s: "pool_start 1 \<lparr>pw_pool = pool_init 1, pw_sessions = {#}, pw_lost = 0\<rparr>" by (simp add: pool_start_def)
  have "reachable (pool_start 1) pool_step \<lparr>pw_pool = pool_init 1, pw_sessions = {#}, pw_lost = 0\<rparr>"
    by (rule reachable.start) (rule s)
  then have "reachable (pool_start 1) pool_step (?w (Checking 0))"
    by (rule reachable.next_state) (rule pool_step.take [OF g])
  then have "reachable (pool_start 1) pool_step (?w (Holding 0))"
    by (rule reachable.next_state) (rule found_healthy)
  from pool_exclusive [OF this] show ?thesis by (simp add: pool_init_def)
qed

text \<open>A connection that cannot be replaced is lost for good: here the only one of the pool.\<close>
lemma failed_replacement_exhausts_pool:
  "fst (acquire_conn False False (pool_init 1)) = Inl Create_Failed \<and>
   acquire_conn h c (snd (acquire_conn False False (pool_init 1))) = (Inl Acquire_Timeout, snd (acquire_conn False False (pool_init 1)))"
  by (simp add: acquire_conn_def queue_get_def pool_init_def discard_def)

text \<open>
  A transaction is all or nothing: on a connection outside a transaction, code that neither
  commits nor rolls back itself either has all its effects committed or none, and leaves no
  transaction open; inside a transaction nothing is committed or rolled back.
\<close>
theorem transaction_atomic:
  assumes "\<And>c. in_transaction c \<Longrightarrow> in_transaction (snd (body c)) \<and> cn_committed (snd (body c)) = cn_committed c"
    and "transaction lock flush body c = (r, c')"
  shows "(\<not> in_transaction c \<longrightarrow> \<not> in_transaction c' \<and>
      (case r of
         Inl e \<Rightarrow> cn_committed c' = cn_committed c
       | Inr v \<Rightarrow> fst (body (c\<lparr>cn_working := Some (cn_committed c)\<rparr>)) = Inr v \<and>
           Some (cn_committed c') = cn_working (snd (body (c\<lparr>cn_working := Some (cn_committed c)\<rparr>))))) \<and>
    (in_transaction c \<longrightarrow> in_transaction c' \<and> cn_committed c' = cn_committed c \<and> (r, c') = body c)"
proof (cases "in_transaction c")
  case True
  with assms(2) have "body c = (r, c')" by (simp add: transaction_def)
  with assms(1) [OF True] True show ?thesis by simp
next
  case False
  let ?c = "c\<lparr>cn_working := Some (cn_committed c)\<rparr>"
  obtain r1 c1 where b: "body ?c = (r1, c1)" by fastforce
  have i: "cn_working c1 \<noteq> None" "cn_committed c1 = cn_committed c"
    using assms(1) [of ?c] by (auto simp: b in_transaction_def)
  with False assms(2) b show ?thesis
    by (auto simp: transaction_def in_transaction_def rollback_def commit_def split: sum.splits)
qed

theorem transaction_atomic_witness:
  "cn_committed (snd (transaction (Inr ()) (Inr ()) (\<lambda>c. (Inl ''boom'' :: string + unit, execute ((#) (1 :: nat)) c)) \<lparr>cn_committed = [], cn_working = None\<rparr>)) = []"
proof -
  let ?b = "\<lambda>c. (Inl ''boom'' :: string + unit, execute ((#) (1 :: nat)) c)"
  have "in_transaction (snd (?b c)) \<and> cn_committed (snd (?b c)) = cn_committed c" for c
    by (simp add: execute_def in_transaction_def)
  from transaction_atomic [of ?b "Inr ()" "Inr ()" "\<lparr>cn_committed = [], cn_working = None\<rparr>", OF this refl [of "transaction _ _ _ _", THEN trans, OF prod.collapse [symmetric]]]
  show ?thesis by (simp add: transaction_def in_transaction_def execute_def rollback_def)
qed

end
