(* ===== verification/Metrics.thy ===== *)
theory Metrics
  imports Json "HOL-Library.Multiset"
begin

text \<open>
  The metrics plugin (\<open>plugins/metrics/__init__.py\<close>): validation of a status report, the
  bounded buffer of snapshots, the batch insert with its requeue on failure, and the purge
  of old rows. The coercions of Pydantic (a JSON value to a number) are a parameter; the
  fields with their types, defaults and ranges are those of \<open>MetricsSnapshot\<close>.
\<close>

section \<open>Validation\<close>

datatype metric_value = MNone | MNum rat | MObjs "json list"

record metric_field =
  mf_name :: string
  mf_integer :: bool
  mf_optional :: bool
  mf_low :: rat
  mf_high :: "rat option"

definition percent_field :: "string \<Rightarrow> metric_field" where
  "percent_field n = \<lparr>mf_name = n, mf_integer = False, mf_optional = False, mf_low = 0, mf_high = Some 100\<rparr>"

definition required_int :: "string \<Rightarrow> metric_field" where
  "required_int n = \<lparr>mf_name = n, mf_integer = True, mf_optional = False, mf_low = 0, mf_high = None\<rparr>"

definition optional_int :: "string \<Rightarrow> metric_field" where
  "optional_int n = \<lparr>mf_name = n, mf_integer = True, mf_optional = True, mf_low = 0, mf_high = None\<rparr>"

definition optional_float :: "string \<Rightarrow> metric_field" where
  "optional_float n = \<lparr>mf_name = n, mf_integer = False, mf_optional = True, mf_low = 0, mf_high = None\<rparr>"

definition SYSTEM_FIELDS :: "metric_field list" where
  "SYSTEM_FIELDS =
     [percent_field ''cpu_percent'', optional_float ''cpu_load_1m'', optional_float ''cpu_load_5m'', optional_float ''cpu_load_15m'',
      (optional_int ''cpu_cores'')\<lparr>mf_low := 1\<rparr>,
      required_int ''mem_total_bytes'', required_int ''mem_used_bytes'', percent_field ''mem_percent'',
      required_int ''swap_total_bytes'', required_int ''swap_used_bytes'',
      required_int ''disk_total_bytes'', required_int ''disk_used_bytes'', percent_field ''disk_percent'',
      (required_int ''uptime_seconds'')\<lparr>mf_integer := False\<rparr>, optional_int ''processes'']"

definition IO_FIELDS :: "metric_field list" where
  "IO_FIELDS =
     [optional_int ''net_bytes_recv'', optional_int ''net_bytes_sent'', optional_int ''net_packets_recv'', optional_int ''net_packets_sent'',
      optional_int ''net_errors_in'', optional_int ''net_errors_out'', optional_int ''net_drops_in'', optional_int ''net_drops_out'',
      optional_int ''disk_reads'', optional_int ''disk_writes'', optional_int ''disk_read_bytes'', optional_int ''disk_write_bytes'']"

definition SENSOR_FIELDS :: "metric_field list" where
  "SENSOR_FIELDS =
     [optional_float ''temp_celsius'', optional_float ''psi_cpu_avg10'', optional_float ''psi_mem_avg10'', optional_float ''psi_io_avg10'',
      optional_int ''file_handles_used'', optional_int ''file_handles_max'', optional_int ''app_sshd_fds_used'', optional_int ''app_sshd_fds_max'',
      (optional_float ''app_sshd_fds_percent'')\<lparr>mf_high := Some 100\<rparr>,
      optional_int ''entropy_avail'', optional_int ''context_switches'', optional_int ''cpu_throttled_count'']"

definition FIELDS :: "metric_field list" where
  "FIELDS = SYSTEM_FIELDS @ IO_FIELDS @ SENSOR_FIELDS"

lemmas field_defs = FIELDS_def SYSTEM_FIELDS_def IO_FIELDS_def SENSOR_FIELDS_def

definition normalize_percentage :: "string \<Rightarrow> json \<Rightarrow> json" where
  "normalize_percentage n v = (if n \<in> {''cpu_percent'', ''mem_percent'', ''disk_percent''} \<and> v = JNull then JInt 0 else v)"

definition in_range :: "metric_field \<Rightarrow> rat \<Rightarrow> bool" where
  "in_range f x \<longleftrightarrow> mf_low f \<le> x \<and> (case mf_high f of None \<Rightarrow> True | Some h \<Rightarrow> x \<le> h)"

definition validate_number :: "(bool \<Rightarrow> json \<Rightarrow> rat option) \<Rightarrow> metric_field \<Rightarrow> json option \<Rightarrow> metric_value option" where
  "validate_number coerce f v =
     (case map_option (normalize_percentage (mf_name f)) v of
        None \<Rightarrow> Some (if mf_optional f then MNone else MNum 0)
      | Some j \<Rightarrow>
          if j = JNull then (if mf_optional f then Some MNone else None)
          else (case coerce (mf_integer f) j of
                  None \<Rightarrow> None
                | Some x \<Rightarrow> if in_range f x then Some (MNum x) else None))"

fun is_object :: "json \<Rightarrow> bool" where
  "is_object (JObj _) = True"
| "is_object _ = False"

definition validate_objects :: "json option \<Rightarrow> metric_value option" where
  \<comment> \<open>\<open>list[dict] | None\<close>\<close>
  "validate_objects v =
     (case v of
        None \<Rightarrow> Some MNone
      | Some JNull \<Rightarrow> Some MNone
      | Some (JArr js) \<Rightarrow> if list_all is_object js then Some (MObjs js) else None
      | Some _ \<Rightarrow> None)"

definition validate_time :: "(bool \<Rightarrow> json \<Rightarrow> rat option) \<Rightarrow> time \<Rightarrow> json option \<Rightarrow> metric_value option" where
  "validate_time coerce now v = (case v of None \<Rightarrow> Some (MNum now) | Some JNull \<Rightarrow> None | Some j \<Rightarrow> map_option MNum (coerce False j))"

type_synonym metrics_snapshot = "(string, metric_value) dict"

definition validate_snapshot :: "(bool \<Rightarrow> json \<Rightarrow> rat option) \<Rightarrow> time \<Rightarrow> (string, json) dict \<Rightarrow> metrics_snapshot option" where
  "validate_snapshot coerce now data =
     those (map (\<lambda>f. map_option (Pair (mf_name f)) (validate_number coerce f (map_of data (mf_name f)))) FIELDS @
            [map_option (Pair ''collected_at'') (validate_time coerce now (map_of data ''collected_at'')),
             map_option (Pair ''disks'') (validate_objects (map_of data ''disks'')),
             map_option (Pair ''top_processes'') (validate_objects (map_of data ''top_processes''))])"

definition normalize_status_report :: "(bool \<Rightarrow> json \<Rightarrow> rat option) \<Rightarrow> time \<Rightarrow> json \<Rightarrow> metrics_snapshot option" where
  \<comment> \<open>\<open>MetricsSnapshot(**data)\<close> raises on anything but a dictionary\<close>
  "normalize_status_report coerce now raw =
     (case raw of
        JObj kvs \<Rightarrow>
          (case (case map_of kvs ''metrics'' of None \<Rightarrow> raw | Some d \<Rightarrow> d) of
             JObj data \<Rightarrow> validate_snapshot coerce now data
           | _ \<Rightarrow> None)
      | _ \<Rightarrow> None)"

section \<open>Rows\<close>

datatype column = CNull | CNum rat | CText string

record snapshot_row =
  sr_id :: string
  sr_node :: string
  sr_collected_at :: time
  sr_created_at :: time
  sr_columns :: "column list"

definition nullable :: "metrics_snapshot \<Rightarrow> string \<Rightarrow> column" where
  "nullable s n = (case map_of s n of Some (MNum x) \<Rightarrow> CNum x | _ \<Rightarrow> CNull)"

definition or_zero :: "metrics_snapshot \<Rightarrow> string \<Rightarrow> column" where
  "or_zero s n = (case map_of s n of Some (MNum x) \<Rightarrow> CNum x | _ \<Rightarrow> CNum 0)"

definition dumped :: "metrics_snapshot \<Rightarrow> string \<Rightarrow> column" where
  "dumped s n = (case map_of s n of Some (MObjs js) \<Rightarrow> if js = [] then CNull else CText (json_dumps_spaced (JArr js)) | _ \<Rightarrow> CNull)"

definition snapshot_to_row :: "string \<Rightarrow> time \<Rightarrow> string \<Rightarrow> metrics_snapshot \<Rightarrow> snapshot_row" where
  "snapshot_to_row uid now node s =
     \<lparr>sr_id = uid, sr_node = node,
      sr_collected_at = (case map_of s ''collected_at'' of Some (MNum x) \<Rightarrow> x | _ \<Rightarrow> now),
      sr_created_at = now,
      sr_columns =
        [or_zero s ''cpu_percent'', nullable s ''cpu_load_1m'', nullable s ''cpu_load_5m'', nullable s ''cpu_load_15m'', nullable s ''cpu_cores'',
         or_zero s ''mem_total_bytes'', or_zero s ''mem_used_bytes'', or_zero s ''mem_percent'', or_zero s ''swap_total_bytes'', or_zero s ''swap_used_bytes'',
         or_zero s ''disk_total_bytes'', or_zero s ''disk_used_bytes'', or_zero s ''disk_percent'', or_zero s ''uptime_seconds'', nullable s ''processes'',
         dumped s ''disks'', dumped s ''top_processes''] @
        map (nullable s)
          [''net_bytes_recv'', ''net_bytes_sent'', ''net_packets_recv'', ''net_packets_sent'', ''net_errors_in'', ''net_errors_out'',
           ''net_drops_in'', ''net_drops_out'', ''disk_reads'', ''disk_writes'', ''disk_read_bytes'', ''disk_write_bytes'', ''temp_celsius'',
           ''psi_cpu_avg10'', ''psi_mem_avg10'', ''psi_io_avg10'', ''file_handles_used'', ''file_handles_max'', ''app_sshd_fds_used'',
           ''app_sshd_fds_max'', ''app_sshd_fds_percent'', ''entropy_avail'', ''context_switches'', ''cpu_throttled_count'']\<rparr>"

section \<open>The buffer\<close>

type_synonym buffered = "nat \<times> snapshot_row"    \<comment> \<open>the connection of the report, and the row\<close>

definition BUFFER_MAXLEN :: nat where
  "BUFFER_MAXLEN = 500"

definition buffer_append :: "'a \<Rightarrow> 'a list \<Rightarrow> 'a list \<times> 'a list" where
  \<comment> \<open>\<open>deque.append\<close> at the limit discards on the left; the second list is what is discarded\<close>
  "buffer_append x b = (let ys = b @ [x]; k = length ys - BUFFER_MAXLEN in (drop k ys, take k ys))"

definition buffer_appendleft :: "'a \<Rightarrow> 'a list \<Rightarrow> 'a list \<times> 'a list" where
  \<comment> \<open>\<open>deque.appendleft\<close> at the limit discards on the right\<close>
  "buffer_appendleft x b = (take BUFFER_MAXLEN (x # b), drop BUFFER_MAXLEN (x # b))"

definition on_status_report :: "nat option \<Rightarrow> snapshot_row \<Rightarrow> buffered list \<Rightarrow> buffered list \<times> buffered list \<times> bool" where
  \<comment> \<open>the buffer, what was discarded, and whether the flush event is set\<close>
  "on_status_report db row b =
     (case db of
        None \<Rightarrow> (b, [], False)
      | Some c \<Rightarrow> (let (b', d) = buffer_append (c, row) b in (b', d, 25 \<le> length b')))"

definition target_of :: "nat option \<Rightarrow> nat \<Rightarrow> nat" where
  "target_of db c = (case db of Some d \<Rightarrow> d | None \<Rightarrow> c)"

fun group_rows :: "nat option \<Rightarrow> buffered list \<Rightarrow> (nat, snapshot_row list) dict \<Rightarrow> (nat, snapshot_row list) dict" where
  "group_rows db [] by_db = by_db"
| "group_rows db ((c, row) # items) by_db =
     (let t = target_of db c in group_rows db items (AList.update t (dict_get by_db t [] @ [row]) by_db))"

fun executemany :: "string list \<Rightarrow> nat option \<Rightarrow> snapshot_row list \<Rightarrow> snapshot_row list \<Rightarrow> bool \<times> snapshot_row list" where
  \<comment> \<open>inserts row by row: a duplicate id, an unknown node or an I/O error after \<open>stop\<close> rows raises, and
     the rows before it stay in the open transaction\<close>
  "executemany nodes stop [] tbl = (stop \<noteq> Some 0, tbl)"
| "executemany nodes stop (r # rs) tbl =
     (if stop = Some 0 \<or> sr_id r \<in> set (map sr_id tbl) \<or> sr_node r \<notin> set nodes then (False, tbl)
      else executemany nodes (map_option (\<lambda>k. k - 1) stop) rs (tbl @ [r]))"

fun requeue :: "nat \<Rightarrow> snapshot_row list \<Rightarrow> buffered list \<Rightarrow> buffered list \<times> buffered list" where
  \<comment> \<open>\<open>appendleft\<close> over the reversed rows\<close>
  "requeue t [] b = (b, [])"
| "requeue t (r # rs) b = (let (b1, d1) = requeue t rs b; (b2, d2) = buffer_appendleft (t, r) b1 in (b2, d1 @ d2))"

definition flush_group :: "string list \<Rightarrow> nat option \<Rightarrow> nat \<times> snapshot_row list \<Rightarrow> buffered list \<Rightarrow> snapshot_row list \<Rightarrow> nat \<times> buffered list \<times> buffered list \<times> snapshot_row list" where
  \<comment> \<open>the rows counted, the buffer, what was discarded, the table\<close>
  "flush_group nodes stop g b tbl =
     (case executemany nodes stop (snd g) tbl of
        (True, tbl') \<Rightarrow> (length (snd g), b, [], tbl')
      | (False, tbl') \<Rightarrow> (let (b', d) = requeue (fst g) (snd g) b in (0, b', d, tbl')))"

section \<open>The purge\<close>

definition take_limit :: "int \<Rightarrow> 'a list \<Rightarrow> 'a list" where
  \<comment> \<open>\<open>LIMIT\<close>, where a negative number is no limit\<close>
  "take_limit n xs = (if n < 0 then xs else take (nat n) xs)"

definition purge_batch :: "time \<Rightarrow> int \<Rightarrow> snapshot_row list \<Rightarrow> nat \<times> snapshot_row list" where
  "purge_batch cutoff n tbl =
     (let ids = map sr_id (take_limit n (filter (\<lambda>r. sr_collected_at r < cutoff) tbl))
      in (length (filter (\<lambda>r. sr_id r \<in> set ids) tbl), filter (\<lambda>r. sr_id r \<notin> set ids) tbl))"

partial_function (option) purge_loop :: "(nat \<Rightarrow> bool) \<Rightarrow> time \<Rightarrow> int \<Rightarrow> nat \<Rightarrow> nat \<Rightarrow> snapshot_row list \<Rightarrow> (nat \<times> snapshot_row list) option" where
  \<comment> \<open>\<open>fails k\<close>: the statement of round \<open>k\<close> raises\<close>
  "purge_loop fails cutoff n k tot tbl =
     (if fails k then Some (tot, tbl)
      else
        (let (deleted, tbl') = purge_batch cutoff n tbl
         in if int deleted < n then Some (tot + deleted, tbl') else purge_loop fails cutoff n (Suc k) (tot + deleted) tbl'))"

definition purge_old_metrics :: "(nat \<Rightarrow> bool) \<Rightarrow> time \<Rightarrow> rat \<Rightarrow> int \<Rightarrow> snapshot_row list \<Rightarrow> (nat \<times> snapshot_row list) option" where
  "purge_old_metrics fails now retention_days batch_size tbl = purge_loop fails (now - retention_days * 86400) batch_size 0 0 tbl"

section \<open>History\<close>

definition period_seconds :: "string \<Rightarrow> time" where
  "period_seconds p = dict_get [(''1h'', 3600), (''6h'', 21600), (''24h'', 86400), (''7d'', 604800)] p 86400"

definition get_metrics_history :: "time \<Rightarrow> string option \<Rightarrow> string \<Rightarrow> snapshot_row list \<Rightarrow> snapshot_row list" where
  "get_metrics_history now node period tbl =
     sort_key sr_collected_at
       (filter (\<lambda>r. now - period_seconds period \<le> sr_collected_at r \<and>
          (case node of None \<Rightarrow> True | Some n \<Rightarrow> n = [] \<or> sr_node r = n)) tbl)"

section \<open>Accepted reports\<close>

lemma those_Some: "those xs = Some ys \<longleftrightarrow> xs = map Some ys"
proof (induction xs arbitrary: ys)
  case (Cons x xs)
  then show ?case by (cases x; cases ys) (auto split: option.split)
qed auto

lemma those_None: "None \<in> set xs \<Longrightarrow> those xs = None"
  by (induction xs) (auto split: option.split)

lemma field_names_distinct: "distinct (map mf_name FIELDS)"
  by (simp add: field_defs percent_field_def required_int_def optional_int_def optional_float_def)

lemma field_defaults: "f \<in> set FIELDS \<Longrightarrow> \<not> mf_optional f \<Longrightarrow> in_range f 0"
  by (auto simp: field_defs percent_field_def required_int_def optional_int_def optional_float_def in_range_def)

fun value_ok :: "metric_field \<Rightarrow> metric_value \<Rightarrow> bool" where
  "value_ok f MNone = mf_optional f"
| "value_ok f (MNum x) = in_range f x"
| "value_ok f (MObjs _) = False"

lemma validate_number_ok: "f \<in> set FIELDS \<Longrightarrow> validate_number coerce f v = Some x \<Longrightarrow> value_ok f x"
  using field_defaults by (auto simp: validate_number_def split: option.splits if_splits)

lemma map_of_map_names: "distinct (map g fs) \<Longrightarrow> f \<in> set fs \<Longrightarrow> map_of (map (\<lambda>f. (g f, h f)) fs @ rest) (g f) = Some (h f)"
  by (induction fs) (auto, (metis imageI)+)

text \<open>
  An accepted status report is in range: it has every field of the model, a required number
  is present, and every number lies in the range the model declares, whatever the worker
  sent and however values are coerced.
\<close>
theorem accepted_report_in_range:
  assumes "normalize_status_report coerce now raw = Some s"
  shows "map fst s = map mf_name FIELDS @ [''collected_at'', ''disks'', ''top_processes''] \<and>
    (\<forall>f \<in> set FIELDS. \<exists>v. map_of s (mf_name f) = Some v \<and> value_ok f v)"
proof -
  obtain data where v: "validate_snapshot coerce now data = Some s"
    using assms by (auto simp: normalize_status_report_def split: json.splits option.splits)
  let ?v = "\<lambda>f. validate_number coerce f (map_of data (mf_name f))"
  obtain ts where ts: "map (\<lambda>f. map_option (Pair (mf_name f)) (?v f)) FIELDS = map Some (take (length FIELDS) s)"
      "[map_option (Pair ''collected_at'') (validate_time coerce now (map_of data ''collected_at'')),
        map_option (Pair ''disks'') (validate_objects (map_of data ''disks'')),
        map_option (Pair ''top_processes'') (validate_objects (map_of data ''top_processes''))] = map Some ts"
      "s = take (length FIELDS) s @ ts"
  proof -
    have "map (\<lambda>f. map_option (Pair (mf_name f)) (?v f)) FIELDS @
       [map_option (Pair ''collected_at'') (validate_time coerce now (map_of data ''collected_at'')),
        map_option (Pair ''disks'') (validate_objects (map_of data ''disks'')),
        map_option (Pair ''top_processes'') (validate_objects (map_of data ''top_processes''))] = map Some s"
      using v by (simp add: validate_snapshot_def those_Some)
    then obtain us vs where "s = us @ vs" "map (\<lambda>f. map_option (Pair (mf_name f)) (?v f)) FIELDS = map Some us"
      "[map_option (Pair ''collected_at'') (validate_time coerce now (map_of data ''collected_at'')),
        map_option (Pair ''disks'') (validate_objects (map_of data ''disks'')),
        map_option (Pair ''top_processes'') (validate_objects (map_of data ''top_processes''))] = map Some vs"
      by (auto simp: append_eq_map_conv)
    moreover from this(2) have "length us = length FIELDS" by (metis length_map)
    ultimately show ?thesis using that [of vs] by simp
  qed
  have def: "\<forall>f \<in> set FIELDS. ?v f \<noteq> None"
  proof
    fix f assume "f \<in> set FIELDS"
    then have "map_option (Pair (mf_name f)) (?v f) \<in> set (map Some (take (length FIELDS) s))" unfolding ts(1) [symmetric] by auto
    then show "?v f \<noteq> None" by auto
  qed
  have "map Some (take (length FIELDS) s) = map Some (map (\<lambda>f. (mf_name f, the (?v f))) FIELDS)"
    unfolding ts(1) [symmetric] using def by (auto simp: map_option_case split: option.split)
  then have us: "take (length FIELDS) s = map (\<lambda>f. (mf_name f, the (?v f))) FIELDS"
    by (rule injD [OF inj_mapI [OF inj_Some]])
  then have s: "s = map (\<lambda>f. (mf_name f, the (?v f))) FIELDS @ ts" using ts(3) by simp
  have tn: "map fst ts = [''collected_at'', ''disks'', ''top_processes'']"
    using ts(2) by (auto simp: Cons_eq_map_conv map_option_case split: option.splits)
  have "map_of s (mf_name f) = Some (the (?v f)) \<and> value_ok f (the (?v f))" if "f \<in> set FIELDS" for f
    using that def validate_number_ok [OF that] map_of_map_names [OF field_names_distinct that] unfolding s
    by (metis option.exhaust_sel)
  then show ?thesis using tn unfolding s by (auto simp: comp_def)
qed

definition number_only :: "bool \<Rightarrow> json \<Rightarrow> rat option" where
  \<comment> \<open>integers only: a coercion for examples\<close>
  "number_only i j = (case j of JInt k \<Rightarrow> Some (of_int k) | _ \<Rightarrow> None)"

definition sample_report :: json where
  "sample_report = JObj [(''type'', JStr ''STATUS_REPORT''), (''metrics'', JObj [(''cpu_percent'', JInt 42), (''disk_percent'', JNull), (''collected_at'', JInt 7)])]"

theorem accepted_report_in_range_witness:
  "\<exists>s. normalize_status_report number_only 0 sample_report = Some s \<and> map_of s ''cpu_percent'' = Some (MNum 42)"
proof -
  obtain s where s: "normalize_status_report number_only 0 sample_report = Some s"
    by (simp add: normalize_status_report_def sample_report_def validate_snapshot_def field_defs validate_number_def normalize_percentage_def
        validate_time_def validate_objects_def percent_field_def required_int_def optional_int_def optional_float_def number_only_def in_range_def)
  have "percent_field ''cpu_percent'' \<in> set FIELDS" by (simp add: field_defs)
  then obtain v where v: "map_of s ''cpu_percent'' = Some v" "value_ok (percent_field ''cpu_percent'') v"
    using accepted_report_in_range [OF s] by (force simp: percent_field_def)
  from s have "map_of s ''cpu_percent'' = Some (MNum 42)"
    by (simp add: normalize_status_report_def sample_report_def validate_snapshot_def field_defs validate_number_def normalize_percentage_def
        validate_time_def validate_objects_def percent_field_def required_int_def optional_int_def optional_float_def number_only_def in_range_def
        split: option.splits) auto
  with s show ?thesis by blast
qed

text \<open>A null for a required counter rejects the whole report, although a missing one is 0.\<close>
lemma null_counter_rejects_report:
  "normalize_status_report coerce now (JObj [(''uptime_seconds'', JNull)]) = None"
proof -
  have "None \<in> set (map (\<lambda>f. map_option (Pair (mf_name f)) (validate_number coerce f (map_of [(''uptime_seconds'', JNull)] (mf_name f)))) FIELDS)"
    by (simp add: field_defs validate_number_def normalize_percentage_def required_int_def)
  then have "validate_snapshot coerce now [(''uptime_seconds'', JNull)] = None"
    unfolding validate_snapshot_def by (intro those_None) (simp only: set_append Un_iff simp_thms)
  then show ?thesis by (simp add: normalize_status_report_def)
qed

section \<open>The buffer conserves reports\<close>

record metrics_world =
  mw_buffer :: "buffered list"
  mw_flight :: "(nat \<times> snapshot_row list) multiset"   \<comment> \<open>groups of the flushes under way\<close>
  mw_table :: "snapshot_row list"
  mw_reported :: "snapshot_row list"
  mw_dropped :: "buffered list"

inductive metrics_step :: "metrics_world \<Rightarrow> metrics_world \<Rightarrow> bool" where
  report: "on_status_report (Some c) r (mw_buffer w) = (b', d, e) \<Longrightarrow> sr_id r \<notin> sr_id ` set (mw_reported w) \<Longrightarrow>
    metrics_step w (w\<lparr>mw_buffer := b', mw_reported := mw_reported w @ [r], mw_dropped := mw_dropped w @ d\<rparr>)"
| drain: "metrics_step w (w\<lparr>mw_buffer := [], mw_flight := mw_flight w + mset (group_rows db (mw_buffer w) [])\<rparr>)"
| insert: "mw_flight w = add_mset g F \<Longrightarrow> flush_group nodes stop g (mw_buffer w) (mw_table w) = (n, b', d, tbl') \<Longrightarrow>
    metrics_step w (w\<lparr>mw_buffer := b', mw_flight := F, mw_table := tbl', mw_dropped := mw_dropped w @ d\<rparr>)"

definition metrics_start :: "metrics_world \<Rightarrow> bool" where
  "metrics_start w \<longleftrightarrow> w = \<lparr>mw_buffer = [], mw_flight = {#}, mw_table = [], mw_reported = [], mw_dropped = []\<rparr>"

definition rows_of :: "(nat \<times> snapshot_row list) set \<Rightarrow> snapshot_row set" where
  "rows_of G = (\<Union>g \<in> G. set (snd g))"

definition accounted :: "metrics_world \<Rightarrow> snapshot_row set" where
  "accounted w = snd ` set (mw_buffer w) \<union> rows_of (set_mset (mw_flight w)) \<union> set (mw_table w) \<union> snd ` set (mw_dropped w)"

definition metrics_inv :: "metrics_world \<Rightarrow> bool" where
  "metrics_inv w \<longleftrightarrow> length (mw_buffer w) \<le> BUFFER_MAXLEN \<and> distinct (map sr_id (mw_table w)) \<and> accounted w = set (mw_reported w)"

lemma rows_of_update: "rows_of (set (AList.update t (dict_get d t [] @ [r]) d)) = insert r (rows_of (set d))"
  by (induction d) (auto simp: rows_of_def dict_get_def)

lemma rows_of_group_rows: "rows_of (set (group_rows db items d)) = snd ` set items \<union> rows_of (set d)"
  by (induction db items d rule: group_rows.induct) (auto simp: Let_def rows_of_update)

lemma buffer_append_spec:
  "buffer_append x b = (b', d) \<Longrightarrow> set b' \<union> set d = insert x (set b) \<and> length b' \<le> BUFFER_MAXLEN \<and> (length b < BUFFER_MAXLEN \<longrightarrow> d = [])"
  by (auto simp: buffer_append_def Let_def BUFFER_MAXLEN_def dest: in_set_takeD in_set_dropD)
    (metis Un_iff append_take_drop_id list.set_intros(1) set_append Un_insert_right list.simps(15))+

lemma requeue_spec:
  "requeue t rs b = (b', d) \<Longrightarrow> length b \<le> BUFFER_MAXLEN \<Longrightarrow>
   snd ` set b' \<union> snd ` set d = set rs \<union> snd ` set b \<and> length b' \<le> BUFFER_MAXLEN"
proof (induction t rs b arbitrary: b' d rule: requeue.induct)
  case (2 t r rs b)
  obtain b1 d1 where r: "requeue t rs b = (b1, d1)" by fastforce
  have b': "b' = take BUFFER_MAXLEN ((t, r) # b1)" and d: "d = d1 @ drop BUFFER_MAXLEN ((t, r) # b1)"
    using 2(2) r by (simp_all add: buffer_appendleft_def)
  have "set b' \<union> set (drop BUFFER_MAXLEN ((t, r) # b1)) = insert (t, r) (set b1)"
    unfolding b' by (metis append_take_drop_id list.simps(15) set_append)
  then have "snd ` set b' \<union> snd ` set (drop BUFFER_MAXLEN ((t, r) # b1)) = insert r (snd ` set b1)"
    by (metis image_Un image_insert snd_conv)
  then have "snd ` set b' \<union> snd ` set d = insert r (snd ` set b1 \<union> snd ` set d1)" unfolding d set_append image_Un by blast
  moreover have "length b' \<le> BUFFER_MAXLEN" by (simp add: b')
  ultimately show ?case using 2(1) [OF r 2(3)] by simp
qed simp

lemma executemany_spec:
  "executemany nodes stop rs tbl = (ok, tbl') \<Longrightarrow>
   (\<exists>k. tbl' = tbl @ take k rs) \<and> (ok \<longrightarrow> tbl' = tbl @ rs) \<and> (distinct (map sr_id tbl) \<longrightarrow> distinct (map sr_id tbl'))"
proof (induction nodes stop rs tbl rule: executemany.induct)
  case (2 nodes stop r rs tbl)
  show ?case
  proof (cases "stop = Some 0 \<or> sr_id r \<in> set (map sr_id tbl) \<or> sr_node r \<notin> set nodes")
    case True
    then have "\<not> ok" "tbl' = tbl" using 2(2) by (auto split: if_splits)
    then show ?thesis by (auto intro: exI [of _ 0])
  next
    case False
    with 2(2) have "executemany nodes (map_option (\<lambda>k. k - 1) stop) rs (tbl @ [r]) = (ok, tbl')" by simp
    note IH = 2(1) [OF False this]
    then obtain k where "tbl' = (tbl @ [r]) @ take k rs" by blast
    then have "tbl' = tbl @ take (Suc k) (r # rs)" by simp
    moreover have "ok \<longrightarrow> tbl' = tbl @ r # rs" using IH by simp
    moreover have "distinct (map sr_id tbl) \<longrightarrow> distinct (map sr_id tbl')" using IH False by simp
    ultimately show ?thesis by blast
  qed
qed (auto intro: exI [of _ 0])

lemma flush_group_spec:
  assumes "flush_group nodes stop g b tbl = (n, b', d, tbl')" and "length b \<le> BUFFER_MAXLEN" and "distinct (map sr_id tbl)"
  shows "snd ` set b' \<union> snd ` set d \<union> set tbl' = set (snd g) \<union> snd ` set b \<union> set tbl \<and> length b' \<le> BUFFER_MAXLEN \<and> distinct (map sr_id tbl')"
proof -
  obtain ok t where e: "executemany nodes stop (snd g) tbl = (ok, t)" by fastforce
  obtain b1 d1 where q: "requeue (fst g) (snd g) b = (b1, d1)" by fastforce
  show ?thesis
  proof (cases ok)
    case True
    with assms e have "b' = b" "d = []" "tbl' = t" by (auto simp: flush_group_def)
    moreover have "t = tbl @ snd g" "distinct (map sr_id t)" using executemany_spec [OF e] True assms(3) by blast+
    ultimately show ?thesis using assms(2) by (simp add: Un_ac)
  next
    case False
    with assms e q have "b' = b1" "d = d1" "tbl' = t" by (auto simp: flush_group_def)
    with executemany_spec [OF e] requeue_spec [OF q assms(2)] assms(3) show ?thesis by (auto dest: in_set_takeD)
  qed
qed

lemma metrics_step_inv: "metrics_step w w' \<Longrightarrow> metrics_inv w \<Longrightarrow> metrics_inv w'"
proof (induction rule: metrics_step.induct)
  case (report c r w b' d e)
  then obtain "buffer_append (c, r) (mw_buffer w) = (b', d)" by (auto simp: on_status_report_def split: prod.splits)
  note a = buffer_append_spec [OF this]
  then have "snd ` (set b' \<union> set d) = snd ` insert (c, r) (set (mw_buffer w))" by simp
  then have "snd ` set b' \<union> snd ` set d = insert r (snd ` set (mw_buffer w))" by (simp add: image_Un)
  then have "accounted (w\<lparr>mw_buffer := b', mw_reported := mw_reported w @ [r], mw_dropped := mw_dropped w @ d\<rparr>) = insert r (accounted w)"
    unfolding accounted_def by (simp add: image_Un) blast
  with a report(3) show ?case by (simp add: metrics_inv_def)
next
  case (drain w db)
  have "rows_of (set_mset (mw_flight w + mset (group_rows db (mw_buffer w) []))) = rows_of (set_mset (mw_flight w)) \<union> snd ` set (mw_buffer w)"
    using rows_of_group_rows [of db "mw_buffer w" "[]"] by (auto simp: rows_of_def)
  with drain show ?case by (auto simp: metrics_inv_def accounted_def)
next
  case (insert w g F nodes stop n b' d tbl')
  note f = flush_group_spec [OF insert(2)]
  have r: "rows_of (set_mset (mw_flight w)) = set (snd g) \<union> rows_of (set_mset F)" using insert(1) by (auto simp: rows_of_def)
  have i: "length (mw_buffer w) \<le> BUFFER_MAXLEN" "distinct (map sr_id (mw_table w))" "accounted w = set (mw_reported w)"
    using insert(3) by (simp_all add: metrics_inv_def)
  note f = f [OF i(1,2)]
  let ?R = "rows_of (set_mset F)" and ?X = "snd ` set (mw_dropped w)"
  have "accounted (w\<lparr>mw_buffer := b', mw_flight := F, mw_table := tbl', mw_dropped := mw_dropped w @ d\<rparr>) =
      (snd ` set b' \<union> snd ` set d \<union> set tbl') \<union> (?R \<union> ?X)"
    by (simp add: accounted_def image_Un Un_ac)
  also have "\<dots> = (set (snd g) \<union> snd ` set (mw_buffer w) \<union> set (mw_table w)) \<union> (?R \<union> ?X)" using f by simp
  also have "\<dots> = accounted w" by (simp add: accounted_def r Un_ac)
  finally have "accounted (w\<lparr>mw_buffer := b', mw_flight := F, mw_table := tbl', mw_dropped := mw_dropped w @ d\<rparr>) = accounted w" .
  with f i show ?case by (simp add: metrics_inv_def)
qed

lemma metrics_start_inv: "metrics_start w \<Longrightarrow> metrics_inv w"
  by (simp add: metrics_start_def metrics_inv_def accounted_def rows_of_def)

interpretation metrics_run: inductive_invariant metrics_start metrics_step metrics_inv
  by unfold_locales (auto intro: metrics_start_inv metrics_step_inv)


definition demo_row :: "string \<Rightarrow> string \<Rightarrow> snapshot_row" where
  "demo_row i n = \<lparr>sr_id = i, sr_node = n, sr_collected_at = 5, sr_created_at = 6, sr_columns = []\<rparr>"


text \<open>
  A batch that failed part of the way can never be inserted: the rows before the failure
  stay in the transaction and have the same keys, so the batch that was put back fails at
  its first row.
\<close>
lemma failed_batch_never_succeeds:
  assumes "executemany nodes stop rs tbl = (False, tbl')" and "tbl' \<noteq> tbl"
  shows "executemany nodes' stop' rs tbl' = (False, tbl')"
proof (cases rs)
  case (Cons r rs')
  then obtain k where k: "tbl' = tbl @ take k rs" using executemany_spec [OF assms(1)] by blast
  then have "r \<in> set tbl'" using assms(2) Cons by (cases k) auto
  then show ?thesis by (simp add: Cons)
qed (use assms in auto)

section \<open>The purge\<close>

definition expired :: "time \<Rightarrow> snapshot_row \<Rightarrow> bool" where
  "expired cutoff r \<longleftrightarrow> sr_collected_at r < cutoff"

lemma filter_by_keys:
  assumes "distinct (map sr_id xs)" and "set ys \<subseteq> set xs"
  shows "filter (\<lambda>r. sr_id r \<in> set (map sr_id ys)) xs = filter (\<lambda>r. r \<in> set ys) xs"
    and "filter (\<lambda>r. sr_id r \<notin> set (map sr_id ys)) xs = filter (\<lambda>r. r \<notin> set ys) xs"
proof -
  have "sr_id r \<in> set (map sr_id ys) \<longleftrightarrow> r \<in> set ys" if "r \<in> set xs" for r
    using assms that by (auto simp: distinct_map dest: inj_onD)
  then show "filter (\<lambda>r. sr_id r \<in> set (map sr_id ys)) xs = filter (\<lambda>r. r \<in> set ys) xs"
    and "filter (\<lambda>r. sr_id r \<notin> set (map sr_id ys)) xs = filter (\<lambda>r. r \<notin> set ys) xs" by (auto intro: filter_cong)
qed

lemma length_filter_part: "distinct xs \<Longrightarrow> distinct ys \<Longrightarrow> set ys \<subseteq> set xs \<Longrightarrow> length (filter (\<lambda>r. r \<in> set ys) xs) = length ys"
proof -
  assume d: "distinct xs" "distinct ys" and s: "set ys \<subseteq> set xs"
  have "length (filter (\<lambda>r. r \<in> set ys) xs) = card (set (filter (\<lambda>r. r \<in> set ys) xs))"
    by (rule distinct_card [symmetric]) (simp add: d)
  also have "set (filter (\<lambda>r. r \<in> set ys) xs) = set ys" using s by auto
  finally show ?thesis using d by (simp add: distinct_card)
qed

lemma purge_batch_spec:
  fixes cutoff :: time and tbl :: "snapshot_row list" and n :: int
  assumes d: "distinct (map sr_id tbl)" and n: "0 < n"
  defines "E \<equiv> filter (expired cutoff) tbl"
  obtains tbl' where "purge_batch cutoff n tbl = (min (nat n) (length E), tbl')" "distinct (map sr_id tbl')"
    "filter (expired cutoff) tbl' = drop (nat n) E" "filter (\<lambda>r. \<not> expired cutoff r) tbl' = filter (\<lambda>r. \<not> expired cutoff r) tbl"
proof -
  let ?T = "take (nat n) E"
  have T: "set ?T \<subseteq> set tbl" "set ?T \<subseteq> set E" by (auto simp: E_def dest: in_set_takeD)
  have dt: "distinct tbl" using d by (simp add: distinct_map)
  then have dE: "distinct E" "distinct ?T" by (simp_all add: E_def)
  let ?t = "filter (\<lambda>r. r \<notin> set ?T) tbl"
  have "purge_batch cutoff n tbl = (length (filter (\<lambda>r. r \<in> set ?T) tbl), ?t)"
    unfolding purge_batch_def Let_def take_limit_def using n filter_by_keys [OF d T(1)] by (simp add: E_def expired_def [abs_def])
  moreover have "length (filter (\<lambda>r. r \<in> set ?T) tbl) = min (nat n) (length E)"
    using length_filter_part [OF dt dE(2) T(1)] by simp
  moreover have "distinct (map sr_id ?t)" using d by (rule distinct_map_filter)
  moreover have "filter (expired cutoff) ?t = drop (nat n) E"
  proof -
    have "filter (expired cutoff) ?t = filter (\<lambda>r. r \<notin> set ?T) E" by (simp add: E_def conj_commute)
    also have "\<dots> = filter (\<lambda>r. r \<notin> set ?T) (?T @ drop (nat n) E)" by simp
    also have "\<dots> = filter (\<lambda>r. r \<notin> set ?T) (drop (nat n) E)" by (simp only: filter_append) (simp add: filter_empty_conv)
    also have "\<dots> = drop (nat n) E"
      using dE(1) by (intro filter_True) (metis append_take_drop_id disjoint_iff distinct_append)
    finally show ?thesis .
  qed
  moreover have "filter (\<lambda>r. \<not> expired cutoff r) ?t = filter (\<lambda>r. \<not> expired cutoff r) tbl"
    using T(2) by (auto simp: E_def intro!: filter_cong)
  ultimately show ?thesis using that by simp
qed

lemma purge_loop_exact:
  assumes "0 < n" and "\<And>k. \<not> fails k" and "distinct (map sr_id tbl)"
  shows "purge_loop fails cutoff n k tot tbl =
    Some (tot + length (filter (expired cutoff) tbl), filter (\<lambda>r. \<not> expired cutoff r) tbl)"
  using assms(3)
proof (induction "length (filter (expired cutoff) tbl)" arbitrary: tbl k tot rule: less_induct)
  case less
  obtain tbl' where b: "purge_batch cutoff n tbl = (min (nat n) (length (filter (expired cutoff) tbl)), tbl')"
      and d: "distinct (map sr_id tbl')" and e: "filter (expired cutoff) tbl' = drop (nat n) (filter (expired cutoff) tbl)"
      and r: "filter (\<lambda>r. \<not> expired cutoff r) tbl' = filter (\<lambda>r. \<not> expired cutoff r) tbl"
    by (rule purge_batch_spec [OF less.prems assms(1)])
  show ?case
  proof (cases "length (filter (expired cutoff) tbl) < nat n")
    case True
    then have "filter (expired cutoff) tbl' = []" using e by simp
    then have "tbl' = filter (\<lambda>r. \<not> expired cutoff r) tbl" using r by (metis (mono_tags, lifting) filter_True filter_empty_conv)
    moreover have "int (length (filter (expired cutoff) tbl)) < n" using True by (simp add: zless_nat_eq_int_zless)
    ultimately show ?thesis using True b assms(1,2) by (subst purge_loop.simps) (simp add: Let_def)
  next
    case False
    have "length (filter (expired cutoff) tbl') < length (filter (expired cutoff) tbl)" using e False assms(1) by simp
    from less.hyps [OF this d] False b assms(1,2) show ?thesis
      by (subst purge_loop.simps) (simp add: Let_def e r)
  qed
qed

text \<open>
  C35. The purge ends and is exact: with a positive batch size and no failing statement it
  returns after finitely many batches, has deleted exactly the snapshots older than the
  retention, and reports their number.
\<close>
theorem purge_exact:
  assumes "0 < n" and "\<And>k. \<not> fails k" and "distinct (map sr_id tbl)"
  shows "purge_old_metrics fails now days n tbl =
    Some (length (filter (\<lambda>r. sr_collected_at r < now - days * 86400) tbl), filter (\<lambda>r. now - days * 86400 \<le> sr_collected_at r) tbl)"
  using purge_loop_exact [OF assms, where cutoff = "now - days * 86400" and k = 0 and tot = 0]
  by (simp add: purge_old_metrics_def expired_def [abs_def] not_less)

theorem purge_exact_witness:
  "purge_old_metrics (\<lambda>_. False) 86406 1 1 [demo_row ''a'' ''n'', demo_row ''b'' ''n''] = Some (2, [])"
  using purge_exact [of 1 "\<lambda>_. False" "[demo_row ''a'' ''n'', demo_row ''b'' ''n'']" 86406 1] by (simp add: demo_row_def)

text \<open>With a batch size of zero the loop never ends.\<close>
lemma purge_without_batch_diverges: "purge_loop (\<lambda>_. False) cutoff 0 k tot tbl = None"
proof -
  have "(\<forall>k. \<not> fails k) \<longrightarrow> n \<noteq> 0" if "purge_loop fails cutoff n k tot tbl = Some y" for fails n k tot y tbl
    using that
    by (rule purge_loop.raw_induct [of "\<lambda>fails cutoff n k tot tbl y. (\<forall>k. \<not> fails k) \<longrightarrow> n \<noteq> 0", rotated])
      (auto simp: Let_def split: prod.splits if_splits)
  then show ?thesis by (metis (no_types, lifting) option.exhaust)
qed

end
