(* ===== verification/Db_Auto.thy ===== *)
theory Db_Auto
  imports Plugin_Context
begin

text \<open>
  Declarative tables of plugins (\<open>core/db_auto.py\<close>): a manifest declares tables and
  columns, the statements are assembled as text. The database is a parameter: what a
  statement does to it and which columns a table has. The last sections read the
  statements back with the lexical rules of SQL string literals.
\<close>

section \<open>Identifiers and literals\<close>

datatype auto_error = No_Database | Unsafe_Identifier string | Bad_Column

definition ident_start :: "char \<Rightarrow> bool" where
  "ident_start c \<longleftrightarrow> (let n = (of_char c :: nat) in (65 \<le> n \<and> n \<le> 90) \<or> (97 \<le> n \<and> n \<le> 122) \<or> c = CHR ''_'')"

definition ident_char :: "char \<Rightarrow> bool" where
  "ident_char c \<longleftrightarrow> ident_start c \<or> is_digit c"

definition is_identifier :: "string \<Rightarrow> bool" where
  "is_identifier s \<longleftrightarrow> (case s of [] \<Rightarrow> False | c # cs \<Rightarrow> ident_start c \<and> list_all ident_char cs)"

definition IDENTIFIER_RE :: "string \<Rightarrow> bool" where
  \<comment> \<open>\<open>$\<close> also matches before a newline at the end\<close>
  "IDENTIFIER_RE s \<longleftrightarrow> is_identifier s \<or> (s \<noteq> [] \<and> last s = CHR 0x0A \<and> is_identifier (butlast s))"

definition validate_identifier :: "string \<Rightarrow> auto_error + string" where
  "validate_identifier name = (if IDENTIFIER_RE name then Inr name else Inl (Unsafe_Identifier name))"

definition quote :: char where
  "quote = CHR 0x27"

definition escape_literal :: "string \<Rightarrow> string" where
  "escape_literal s = concat (map (\<lambda>c. if c = quote then [quote, quote] else [c]) s)"

definition COLUMN_TYPE_MAP :: "(string, string) dict" where
  "COLUMN_TYPE_MAP =
     [(''TEXT'', ''TEXT''), (''INTEGER'', ''INTEGER''), (''REAL'', ''REAL''), (''BLOB'', ''BLOB''), (''NUMERIC'', ''NUMERIC''),
      (''BOOLEAN'', ''INTEGER''), (''FLOAT'', ''REAL''), (''INT'', ''INTEGER''), (''VARCHAR'', ''TEXT''), (''TIMESTAMP'', ''TEXT'')]"

definition table_name :: "string \<Rightarrow> string \<Rightarrow> auto_error + string" where
  "table_name pid t =
     (case validate_identifier pid of
        Inl e \<Rightarrow> Inl e
      | Inr _ \<Rightarrow> (case validate_identifier t of Inl e \<Rightarrow> Inl e | Inr _ \<Rightarrow> Inr (pid @ ''_'' @ t)))"

section \<open>Statements\<close>

type_synonym column_spec = "(string, json) dict"

definition safe_col_def :: "string \<Rightarrow> string \<Rightarrow> auto_error + string" where
  "safe_col_def n ty =
     (case validate_identifier n of
        Inl e \<Rightarrow> Inl e
      | Inr _ \<Rightarrow> (case validate_identifier ty of Inl e \<Rightarrow> Inl e | Inr _ \<Rightarrow> Inr (''    '' @ n @ '' '' @ ty)))"

definition default_clause :: "json option \<Rightarrow> string" where
  "default_clause d =
     (case d of
        None \<Rightarrow> []
      | Some JNull \<Rightarrow> []
      | Some (JStr s) \<Rightarrow>
          if upper s \<in> {''CURRENT_TIMESTAMP'', ''CURRENT_DATE'', ''CURRENT_TIME''} then '' DEFAULT '' @ s
          else '' DEFAULT '' @ [quote] @ escape_literal s @ [quote]
      | Some (JBool b) \<Rightarrow> '' DEFAULT '' @ (if b then ''1'' else ''0'')
      | Some v \<Rightarrow> '' DEFAULT '' @ py_repr v)"

definition flag :: "column_spec \<Rightarrow> string \<Rightarrow> bool" where
  "flag col k = (case map_of col k of None \<Rightarrow> False | Some v \<Rightarrow> json_truthy v)"

definition column_name :: "column_spec \<Rightarrow> auto_error + string" where
  "column_name col = (case map_of col ''name'' of None \<Rightarrow> Inr [] | Some (JStr n) \<Rightarrow> Inr n | Some _ \<Rightarrow> Inl Bad_Column)"

definition column_type :: "column_spec \<Rightarrow> auto_error + string" where
  "column_type col =
     (case map_of col ''type'' of
        None \<Rightarrow> Inr ''TEXT''
      | Some (JStr t) \<Rightarrow> Inr (dict_get COLUMN_TYPE_MAP (upper t) ''TEXT'')
      | Some _ \<Rightarrow> Inl Bad_Column)"

definition column_def :: "column_spec \<Rightarrow> auto_error + string \<times> string" where
  \<comment> \<open>the name and the definition; \<open>upper\<close> of a type that is no string raises first\<close>
  "column_def col =
     (case column_type col of
        Inl e \<Rightarrow> Inl e
      | Inr ty \<Rightarrow>
          (case column_name col of
             Inl e \<Rightarrow> Inl e
           | Inr n \<Rightarrow>
               (case safe_col_def n ty of
                  Inl e \<Rightarrow> Inl e
                | Inr d \<Rightarrow> Inr (n, d @ (if flag col ''not_null'' then '' NOT NULL'' else []) @ default_clause (map_of col ''default'')))))"

fun column_defs :: "column_spec list \<Rightarrow> auto_error + (string \<times> string \<times> bool) list" where
  "column_defs [] = Inr []"
| "column_defs (c # cs) =
     (case column_def c of
        Inl e \<Rightarrow> Inl e
      | Inr (n, d) \<Rightarrow> (case column_defs cs of Inl e \<Rightarrow> Inl e | Inr ds \<Rightarrow> Inr ((n, d, flag c ''pk'') # ds)))"

definition pk_clause :: "(string \<times> string \<times> bool) list \<Rightarrow> string list" where
  "pk_clause ds =
     (let pks = map fst (filter (\<lambda>(n, d, pk). pk) ds)
      in if pks = [] then [] else [''    PRIMARY KEY ('' @ join_with '', '' pks @ '')''])"

definition build_create_sql :: "string \<Rightarrow> string \<Rightarrow> column_spec list \<Rightarrow> auto_error + string" where
  "build_create_sql pid t cols =
     (case table_name pid t of
        Inl e \<Rightarrow> Inl e
      | Inr full \<Rightarrow>
          (case column_defs cols of
             Inl e \<Rightarrow> Inl e
           | Inr ds \<Rightarrow>
               Inr (''CREATE TABLE IF NOT EXISTS '' @ full @ '' ('' @ [CHR 0x0A] @
                    join_with ('','' @ [CHR 0x0A]) (map (\<lambda>(n, d, pk). d) ds @ pk_clause ds) @ [CHR 0x0A] @ '')'')))"

definition build_drop_sql :: "string \<Rightarrow> string \<Rightarrow> auto_error + string" where
  "build_drop_sql pid t = (case table_name pid t of Inl e \<Rightarrow> Inl e | Inr full \<Rightarrow> Inr (''DROP TABLE IF EXISTS '' @ full))"

section \<open>Operations\<close>

fun run_statements ::
  "(string \<Rightarrow> 'd \<Rightarrow> 'd option) \<Rightarrow> (string \<times> (auto_error + string)) list \<Rightarrow> (string, bool) dict \<Rightarrow> 'd \<Rightarrow> string list \<Rightarrow> (auto_error + (string, bool) dict) \<times> 'd \<times> string list" where
  \<comment> \<open>the loop over the schema: an error of the text leaves the loop, one of the database is a \<open>False\<close>; the last result is the
     statements sent\<close>
  "run_statements exec [] res db sent = (Inr res, db, sent)"
| "run_statements exec ((t, stmt) # rest) res db sent =
     (case stmt of
        Inl e \<Rightarrow> (Inl e, db, sent)
      | Inr sql \<Rightarrow>
          (case exec sql db of
             Some db' \<Rightarrow> run_statements exec rest (AList.update t True res) db' (sent @ [sql])
           | None \<Rightarrow> run_statements exec rest (AList.update t False res) db (sent @ [sql])))"

definition create_tables ::
  "bool \<Rightarrow> (string \<Rightarrow> 'd \<Rightarrow> 'd option) \<Rightarrow> string \<Rightarrow> (string, column_spec list) dict \<Rightarrow> 'd \<Rightarrow> (auto_error + (string, bool) dict) \<times> 'd \<times> string list" where
  "create_tables has_db exec pid schema db =
     (if \<not> has_db then (Inl No_Database, db, [])
      else run_statements exec (map (\<lambda>(t, cols). (t, build_create_sql pid t cols)) schema) [] db [])"

definition drop_tables ::
  "bool \<Rightarrow> (string \<Rightarrow> 'd \<Rightarrow> 'd option) \<Rightarrow> string \<Rightarrow> (string, column_spec list) dict \<Rightarrow> 'd \<Rightarrow> (auto_error + (string, bool) dict) \<times> 'd \<times> string list" where
  "drop_tables has_db exec pid schema db =
     (if \<not> has_db then (Inl No_Database, db, [])
      else run_statements exec (map (\<lambda>(t, cols). (t, build_drop_sql pid t)) schema) [] db [])"

definition expected_columns :: "column_spec list \<Rightarrow> json list" where
  "expected_columns cols = map (\<lambda>c. dict_get c ''name'' (JStr [])) cols"

fun verify_tables :: "bool \<Rightarrow> (string \<Rightarrow> string list option) \<Rightarrow> string \<Rightarrow> (string, column_spec list) dict \<Rightarrow> (string, bool) dict \<Rightarrow> auto_error + (string, bool) dict" where
  \<comment> \<open>\<open>info\<close> answers \<open>PRAGMA table_info\<close>, \<open>None\<close> if it raises\<close>
  "verify_tables has_db info pid [] res = (if has_db then Inr res else Inl No_Database)"
| "verify_tables has_db info pid ((t, cols) # rest) res =
     (if \<not> has_db then Inl No_Database
      else
        (case table_name pid t of
           Inl e \<Rightarrow> Inl e
         | Inr full \<Rightarrow>
             (let ok = (case info full of None \<Rightarrow> False | Some names \<Rightarrow> set (expected_columns cols) \<subseteq> JStr ` set names)
              in verify_tables has_db info pid rest (AList.update t ok res))))"

section \<open>Reading a statement back\<close>

fun outside :: "bool \<Rightarrow> string \<Rightarrow> string option" where
  \<comment> \<open>what is outside string literals; the flag says whether a literal is open, and a doubled quote inside one is a character\<close>
  "outside False [] = Some []"
| "outside True [] = None"
| "outside False (c # cs) = (if c = quote then outside True cs else map_option ((#) c) (outside False cs))"
| "outside True [c] = (if c = quote then Some [] else None)"
| "outside True (c # d # cs) =
     (if c = quote then if d = quote then outside True cs else outside False (d # cs) else outside True (d # cs))"

definition harmless :: "char \<Rightarrow> bool" where
  \<comment> \<open>letters, digits, the underscore, layout, parentheses, comma and minus\<close>
  "harmless c \<longleftrightarrow> ident_char c \<or> c \<in> set '' (),-'' \<or> c = CHR 0x0A"

lemma harmless_no_quote: "harmless c \<Longrightarrow> c \<noteq> quote"
  by (auto simp: harmless_def ident_char_def ident_start_def is_digit_def quote_def)

definition clean :: "string \<Rightarrow> bool" where
  "clean xs \<longleftrightarrow> (\<exists>zs. list_all harmless zs \<and>
     (\<forall>ys. (ys = [] \<or> hd ys \<noteq> quote) \<longrightarrow> outside False (xs @ ys) = map_option ((@) zs) (outside False ys)))"

lemma outside_harmless: "list_all harmless xs \<Longrightarrow> outside False (xs @ ys) = map_option ((@) xs) (outside False ys)"
  by (induction xs; cases "outside False ys") (auto simp: harmless_no_quote)

lemma clean_harmless: "list_all harmless xs \<Longrightarrow> clean xs"
  unfolding clean_def using outside_harmless by blast

lemma clean_after_harmless: "list_all harmless xs \<Longrightarrow> clean ys \<Longrightarrow> clean (xs @ ys)"
proof -
  assume x: "list_all harmless xs" and "clean ys"
  then obtain zs where z: "list_all harmless zs"
    "\<And>us. us = [] \<or> hd us \<noteq> quote \<Longrightarrow> outside False (ys @ us) = map_option ((@) zs) (outside False us)"
    unfolding clean_def by blast
  show ?thesis unfolding clean_def
  proof (intro exI [of _ "xs @ zs"] conjI allI impI)
    fix us :: string assume "us = [] \<or> hd us \<noteq> quote"
    with x z show "outside False ((xs @ ys) @ us) = map_option ((@) (xs @ zs)) (outside False us)"
      by (cases "outside False us") (simp_all add: outside_harmless)
  qed (use x z in simp)
qed

lemma clean_append: "clean xs \<Longrightarrow> clean ys \<Longrightarrow> ys = [] \<or> hd ys \<noteq> quote \<Longrightarrow> clean (xs @ ys)"
proof -
  assume "clean xs" "clean ys" and h: "ys = [] \<or> hd ys \<noteq> quote"
  then obtain zs vs where z: "list_all harmless zs"
      "\<And>us. us = [] \<or> hd us \<noteq> quote \<Longrightarrow> outside False (xs @ us) = map_option ((@) zs) (outside False us)"
    and v: "list_all harmless vs"
      "\<And>us. us = [] \<or> hd us \<noteq> quote \<Longrightarrow> outside False (ys @ us) = map_option ((@) vs) (outside False us)"
    unfolding clean_def by blast
  show ?thesis unfolding clean_def
  proof (intro exI [of _ "zs @ vs"] conjI allI impI)
    fix us :: string assume u: "us = [] \<or> hd us \<noteq> quote"
    then have "ys @ us = [] \<or> hd (ys @ us) \<noteq> quote" using h by (cases ys) auto
    with z v u show "outside False ((xs @ ys) @ us) = map_option ((@) (zs @ vs)) (outside False us)"
      by (cases "outside False us") simp_all
  qed (use v z in simp)
qed

lemma outside_in_literal:
  "ys = [] \<or> hd ys \<noteq> quote \<Longrightarrow> outside True (escape_literal s @ quote # ys) = outside False ys"
proof (induction s)
  case Nil
  then show ?case by (cases ys) (auto simp: escape_literal_def)
next
  case (Cons c s)
  obtain d ds where "escape_literal s @ quote # ys = d # ds" by (cases "escape_literal s") auto
  with Cons show ?case by (auto simp: escape_literal_def)
qed

lemma clean_literal: "clean ([quote] @ escape_literal s @ [quote])"
  unfolding clean_def by (intro exI [of _ "[]"]) (simp add: outside_in_literal map_option_case split: option.split)

lemma clean_Nil [simp]: "clean []"
  by (rule clean_harmless) simp

lemma clean_join:
  assumes "list_all clean xs" and "list_all harmless sep" and "sep \<noteq> []"
  shows "clean (join_with sep xs)"
  using assms
proof (induction sep xs rule: join_with.induct)
  case (3 sep x y zs)
  then have "clean (join_with sep (y # zs))" by simp
  with 3 have "clean (sep @ join_with sep (y # zs))" by (simp add: clean_after_harmless)
  moreover have "hd (sep @ join_with sep (y # zs)) \<noteq> quote" using 3 by (cases sep) (auto simp: harmless_no_quote)
  ultimately show ?case using 3 by (simp add: clean_append)
qed auto

lemma identifier_harmless: "IDENTIFIER_RE s \<Longrightarrow> list_all harmless s"
proof -
  have i: "is_identifier t \<Longrightarrow> list_all harmless t" for t
    by (cases t) (auto simp: is_identifier_def harmless_def ident_char_def list_all_iff)
  assume "IDENTIFIER_RE s"
  then show ?thesis
  proof (cases "is_identifier s")
    case False
    with \<open>IDENTIFIER_RE s\<close> have "s = butlast s @ [CHR 0x0A]" "is_identifier (butlast s)"
      unfolding IDENTIFIER_RE_def by (metis append_butlast_last_id, simp)
    from i [OF this(2)] have "list_all harmless (butlast s @ [CHR 0x0A])" by (simp add: harmless_def)
    then show ?thesis unfolding \<open>s = butlast s @ [CHR 0x0A]\<close> [symmetric] .
  qed (rule i)
qed

lemma validate_Inr: "validate_identifier s = Inr x \<Longrightarrow> list_all harmless s"
  by (auto simp: validate_identifier_def identifier_harmless split: if_splits)

lemma keyword_harmless:
  "list_all harmless ''CREATE TABLE IF NOT EXISTS ''" "list_all harmless '' DEFAULT ''" "list_all harmless '' NOT NULL''" "list_all harmless ''    ''"
  "list_all harmless ''    PRIMARY KEY (''" "list_all harmless '' (''" "list_all harmless '')''" "list_all harmless '', ''" "list_all harmless '' ''"
  "list_all harmless ('','' @ [CHR 0x0A])" "list_all harmless [CHR 0x0A]" "list_all harmless ''1''" "list_all harmless ''0''" "list_all harmless ''_''"
  by (simp_all add: harmless_def ident_char_def ident_start_def is_digit_def)

definition plain_default :: "column_spec \<Rightarrow> bool" where
  \<comment> \<open>no default, a text, a truth value or an integer\<close>
  "plain_default col \<longleftrightarrow>
     (case map_of col ''default'' of Some (JFloat _) \<Rightarrow> False | Some (JArr _) \<Rightarrow> False | Some (JObj _) \<Rightarrow> False | _ \<Rightarrow> True)"

lemma int_harmless: "list_all harmless (int_str i)"
  using int_str_chars [of _ i] by (fastforce simp: list_all_iff harmless_def ident_char_def)

lemma harmless_code: "harmless c \<Longrightarrow> (of_char c :: nat) < 128"
  by (auto simp: harmless_def ident_char_def ident_start_def is_digit_def Let_def)

lemma upper_char_harmless:
  assumes h: "list_all harmless (upper_char c)" and n: "(of_char c :: nat) \<noteq> 223"
  shows "harmless c"
proof -
  let ?n = "of_char c :: nat"
  consider (small) "97 \<le> ?n" "?n \<le> 122" | (latin) "224 \<le> ?n" "upper_char c = [char_of (?n - 32)]" | (other) "upper_char c = [c]"
    using n by (cases "97 \<le> ?n \<and> ?n \<le> 122"; cases "224 \<le> ?n \<and> ?n \<le> 254 \<and> ?n \<noteq> 247") (auto simp: upper_char_def Let_def)
  then show ?thesis
  proof cases
    case small
    then show ?thesis by (simp add: harmless_def ident_char_def ident_start_def Let_def)
  next
    case latin
    then have "harmless (char_of (?n - 32))" using h by simp
    from harmless_code [OF this] have "(?n - 32) mod 256 < 128" by simp
    moreover have "?n < 256" by (rule nat_of_char_less_256)
    ultimately show ?thesis using latin(1) by simp
  qed (use h in simp)
qed

lemma upper_harmless: "list_all harmless (upper s) \<Longrightarrow> \<not> is_infix_of ''SS'' (upper s) \<Longrightarrow> list_all harmless s"
proof -
  assume h: "list_all harmless (upper s)" and n: "\<not> is_infix_of ''SS'' (upper s)"
  have "harmless c" if c: "c \<in> set s" for c
  proof (rule upper_char_harmless)
    from split_list [OF c] obtain a b where s: "s = a @ c # b" by blast
    show "list_all harmless (upper_char c)" using h by (simp add: s upper_def)
    show "(of_char c :: nat) \<noteq> 223"
    proof
      assume "(of_char c :: nat) = 223"
      then have "upper s = upper a @ ''SS'' @ upper b" by (simp add: s upper_def upper_char_def Let_def)
      with n show False unfolding is_infix_of_iff by blast
    qed
  qed
  then show ?thesis by (simp add: list_all_iff)
qed

lemma default_clean: "plain_default col \<Longrightarrow> clean (default_clause (map_of col ''default''))"
proof (cases "map_of col ''default''")
  case (Some v)
  assume p: "plain_default col"
  note after = clean_after_harmless [OF keyword_harmless(2)]
  show ?thesis
  proof (cases v)
    case (JStr s)
    have "list_all harmless s" if "upper s \<in> {''CURRENT_TIMESTAMP'', ''CURRENT_DATE'', ''CURRENT_TIME''}"
    proof (rule upper_harmless)
      show "list_all harmless (upper s)" using that by (auto simp: harmless_def ident_char_def ident_start_def)
      show "\<not> is_infix_of ''SS'' (upper s)" using that by auto
    qed
    then show ?thesis using Some JStr after [OF clean_harmless] after [OF clean_literal] by (auto simp: default_clause_def)
  next
    case (JBool b)
    then show ?thesis using Some after [OF clean_harmless] keyword_harmless by (auto simp: default_clause_def)
  next
    case (JInt i)
    then show ?thesis using Some after [OF clean_harmless [OF int_harmless]] by (simp add: default_clause_def)
  qed (use p Some in \<open>auto simp: plain_default_def default_clause_def\<close>)
qed (simp add: default_clause_def)

lemma default_clause_head: "default_clause d = [] \<or> hd (default_clause d) = CHR '' ''"
  by (auto simp: default_clause_def split: option.splits json.splits)

lemma column_def_clean:
  assumes "column_def col = Inr (n, d)" and "plain_default col"
  shows "clean d" and "list_all harmless n"
proof -
  obtain ty where v: "validate_identifier n = Inr n" "list_all harmless ty"
      and d: "d = (''    '' @ n @ '' '' @ ty) @ (if flag col ''not_null'' then '' NOT NULL'' else []) @ default_clause (map_of col ''default'')"
  proof -
    obtain ty where t: "column_type col = Inr ty" "safe_col_def n ty = Inr (''    '' @ n @ '' '' @ ty)"
      "d = (''    '' @ n @ '' '' @ ty) @ (if flag col ''not_null'' then '' NOT NULL'' else []) @ default_clause (map_of col ''default'')"
      using assms(1) by (auto simp: column_def_def safe_col_def_def simp del: append_Cons split: sum.splits)
    then have "IDENTIFIER_RE n" "IDENTIFIER_RE ty" by (auto simp: safe_col_def_def validate_identifier_def split: sum.splits if_splits)
    then show ?thesis using that [of ty] t(3) by (simp add: validate_identifier_def identifier_harmless)
  qed
  then show n: "list_all harmless n" by (auto dest: validate_Inr)
  have "list_all harmless (''    '' @ n @ '' '' @ ty)" using n v keyword_harmless by simp
  moreover have "clean ((if flag col ''not_null'' then '' NOT NULL'' else []) @ default_clause (map_of col ''default''))"
    using default_clean [OF assms(2)] clean_after_harmless [OF keyword_harmless(3)] by simp
  ultimately show "clean d" unfolding d by (rule clean_after_harmless)
qed

lemma column_defs_clean:
  "column_defs cols = Inr ds \<Longrightarrow> list_all plain_default cols \<Longrightarrow> \<forall>(n, d, pk) \<in> set ds. clean d \<and> list_all harmless n"
proof (induction cols arbitrary: ds)
  case (Cons c cs)
  obtain n d es where c: "column_def c = Inr (n, d)" "column_defs cs = Inr es" "ds = (n, d, flag c ''pk'') # es"
    using Cons.prems(1) by (auto split: sum.splits)
  with Cons column_def_clean [OF c(1)] show ?case by simp
qed simp

lemma join_harmless: "list_all (list_all harmless) xs \<Longrightarrow> list_all harmless sep \<Longrightarrow> list_all harmless (join_with sep xs)"
  by (induction sep xs rule: join_with.induct) auto

lemma pk_clause_clean: "\<forall>(n, d, pk) \<in> set ds. list_all harmless n \<Longrightarrow> list_all clean (pk_clause ds)"
proof -
  assume "\<forall>(n, d, pk) \<in> set ds. list_all harmless n"
  then have "list_all (list_all harmless) (map fst (filter (\<lambda>(n, d, pk). pk) ds))" by (auto simp: list_all_iff)
  note join_harmless [OF this keyword_harmless(8)]
  then have "list_all harmless (''    PRIMARY KEY ('' @ join_with '', '' (map fst (filter (\<lambda>(n, d, pk). pk) ds)) @ '')'')"
    using keyword_harmless(5,7) by (simp only: list_all_append simp_thms)
  then show ?thesis unfolding pk_clause_def Let_def using clean_harmless by (simp only: split: if_split) (simp only: list.pred_inject simp_thms)
qed


definition nasty_column :: column_spec where
  "nasty_column = [(''name'', JStr ''label''), (''default'', JStr ([quote] @ ''); DROP TABLE users; --''))]"


section \<open>Isolation of tables\<close>

lemma takeWhile_before: "x \<notin> set xs \<Longrightarrow> takeWhile (\<lambda>c. c \<noteq> x) (xs @ x # ys) = xs"
  by (induction xs) auto

text \<open>
  Tables of plugins are separate as long as identifiers have no underscore: then a table
  name determines the plugin and the declared name, and the guard of \<open>db_query\<close> lets a
  plugin read the tables declared by itself and by no other.
\<close>
theorem plugin_tables_separate:
  assumes "table_name p t = Inr full" and "table_name q u = Inr full'" and "CHR ''_'' \<notin> set p" and "CHR ''_'' \<notin> set q"
  shows "(full = full' \<longleftrightarrow> p = q \<and> t = u) \<and>
    (full' \<noteq> ''plugins'' \<longrightarrow> (table_allowed (new_context p) full' \<longleftrightarrow> p = q))"
proof -
  have f: "full = p @ ''_'' @ t" "full' = q @ ''_'' @ u"
    using assms(1,2) by (auto simp: table_name_def split: sum.splits)
  have key: "p = q" if "p @ ''_'' @ v = q @ ''_'' @ u" for v
    using that takeWhile_before [OF assms(3), of v] takeWhile_before [OF assms(4), of u] by simp
  have "full = full' \<longleftrightarrow> p = q \<and> t = u" using key [of t] by (auto simp: f)
  moreover have "is_prefix_of (p @ ''_'') full' \<longleftrightarrow> p = q"
    unfolding is_prefix_of_iff f(2) using key by (metis append.assoc)
  ultimately show ?thesis by (simp add: table_allowed_def new_context_def table_prefix_def)
qed

theorem plugin_tables_separate_witness:
  "table_name ''plex'' ''items'' = Inr ''plex_items'' \<and> \<not> table_allowed (new_context ''docker'') ''plex_items''"
proof -
  have t: "table_name ''plex'' ''items'' = Inr ''plex_items''" "table_name ''docker'' ''x'' = Inr ''docker_x''"
    by (simp_all add: table_name_def validate_identifier_def IDENTIFIER_RE_def is_identifier_def ident_char_def ident_start_def)
  from plugin_tables_separate [OF t(2,1)] t(1) show ?thesis by simp
qed

text \<open>Identifiers may have underscores, and then two plugins can declare the same table and read each other's.\<close>
lemma underscore_ids_collide:
  "table_name ''pa'' ''b_c'' = Inr ''pa_b_c'' \<and> table_name ''pa_b'' ''c'' = Inr ''pa_b_c'' \<and>
   table_allowed (new_context ''pa'') ''pa_b_c''"
  by (simp add: table_name_def validate_identifier_def IDENTIFIER_RE_def is_identifier_def ident_char_def ident_start_def
      table_allowed_def new_context_def table_prefix_def)

text \<open>The pattern accepts a newline at the end of an identifier.\<close>
lemma newline_identifier_accepted: "validate_identifier (''users'' @ [CHR 0x0A]) = Inr (''users'' @ [CHR 0x0A])"
  by (simp add: validate_identifier_def IDENTIFIER_RE_def is_identifier_def ident_char_def ident_start_def)

text \<open>A default that is a list is written into the statement as it is.\<close>
lemma list_default_is_raw:
  "default_clause (Some (JArr [JStr ''x''])) = '' DEFAULT ['' @ [quote] @ ''x'' @ [quote] @ '']''"
  by (simp add: default_clause_def quote_def) (simp add: str_repr_def repr_char_def Let_def)

end
