(* ===== verification/Worker_Query.thy ===== *)
theory Worker_Query
  imports Intent_Registry
begin

text \<open>
  The read-only port to the workers (\<open>core/worker_query_port.py\<close>): a closed list of
  actions and the call of the private sender of the node manager.
\<close>

definition ALLOWED_ACTIONS :: "string list" where
  "ALLOWED_ACTIONS =
     [''LIST_STATS'', ''GET_STATS'', ''LIST_SERVICES'', ''LIST_CONTAINERS'', ''READ_LOGS'', ''READ_LOGS_SERVICE'', ''STATUS_SERVICE'',
      ''DISK_SCAN'', ''LIST_LOG_FILES'', ''LIST_LOG_SOURCES'', ''LOG_HISTOGRAM'']"

datatype query_error = Action_Not_Allowed string | Node_Not_Connected string | Send_Error intent_error

definition query_begin ::
  "time \<Rightarrow> string \<Rightarrow> string \<Rightarrow> string \<Rightarrow> (string, json) dict option \<Rightarrow> node_manager \<Rightarrow>
     (query_error + string \<times> nat \<times> (string, json) dict) \<times> node_manager" where
  \<comment> \<open>up to the wait for the answer; the time limit belongs to the wait\<close>
  "query_begin now uuid node_id action params m =
     (if action \<notin> set ALLOWED_ACTIONS then (Inl (Action_Not_Allowed action), m)
      else if \<not> is_connected node_id m then (Inl (Node_Not_Connected node_id), m)
      else
        (case send_intent_begin now uuid node_id
                [(''intent_id'', JStr uuid), (''action'', JStr action), (''params'', JObj (case params of None \<Rightarrow> [] | Some p \<Rightarrow> p))] None m of
           (Inl e, m') \<Rightarrow> (Inl (Send_Error e), m')
         | (Inr r, m') \<Rightarrow> (Inr r, m')))"

definition get_stats :: "time \<Rightarrow> string \<Rightarrow> string \<Rightarrow> node_manager \<Rightarrow> (query_error + string \<times> nat \<times> (string, json) dict) \<times> node_manager" where
  "get_stats now uuid node_id = query_begin now uuid node_id ''GET_STATS'' None"

definition list_services :: "time \<Rightarrow> string \<Rightarrow> string \<Rightarrow> node_manager \<Rightarrow> (query_error + string \<times> nat \<times> (string, json) dict) \<times> node_manager" where
  "list_services now uuid node_id = query_begin now uuid node_id ''LIST_SERVICES'' None"

definition list_containers :: "time \<Rightarrow> string \<Rightarrow> string \<Rightarrow> node_manager \<Rightarrow> (query_error + string \<times> nat \<times> (string, json) dict) \<times> node_manager" where
  "list_containers now uuid node_id = query_begin now uuid node_id ''LIST_CONTAINERS'' None"

definition read_logs :: "time \<Rightarrow> string \<Rightarrow> string \<Rightarrow> (string, json) dict option \<Rightarrow> node_manager \<Rightarrow> (query_error + string \<times> nat \<times> (string, json) dict) \<times> node_manager" where
  "read_logs now uuid node_id params = query_begin now uuid node_id ''READ_LOGS'' params"

definition list_log_files :: "time \<Rightarrow> string \<Rightarrow> string \<Rightarrow> node_manager \<Rightarrow> (query_error + string \<times> nat \<times> (string, json) dict) \<times> node_manager" where
  "list_log_files now uuid node_id = query_begin now uuid node_id ''LIST_LOG_FILES'' None"

definition output_or_empty :: "(string, json) dict \<Rightarrow> json" where
  \<comment> \<open>what \<open>list_services\<close> and \<open>list_containers\<close> return of an answer\<close>
  "output_or_empty result = dict_get result ''output'' (JArr [])"

text \<open>
  The port only asks: a message that it sends goes to a connected node, carries the given
  parameters and an action of the closed list, none of which restarts, stops, deletes or
  updates anything; every other call fails without touching the registry.
\<close>
theorem query_port_read_only:
  assumes "query_begin now uuid node_id action params m = (r, m')"
  shows "(case r of
      Inl e \<Rightarrow> m' = m
    | Inr (i, f, msg) \<Rightarrow>
        action \<in> set ALLOWED_ACTIONS \<and> is_connected node_id m \<and> map_of msg ''action'' = Some (JStr action) \<and>
        action \<notin> {''RESTART_SERVICE'', ''STOP_SERVICE'', ''RESTART_CONTAINER'', ''STOP_CONTAINER'', ''DELETE_CONTAINER'', ''UPDATE_WORKER''} \<and>
        map_of msg ''params'' = Some (JObj (case params of None \<Rightarrow> [] | Some p \<Rightarrow> p)) \<and>
        map_of (intent_nodes m') i = Some node_id \<and> map_of (pending_intents m') i = Some f \<and> futures m' = futures m @ [FPending])"
proof (cases "action \<in> set ALLOWED_ACTIONS \<and> is_connected node_id m")
  case True
  then obtain c where "map_of (connections m) node_id = Some c"
    by (auto simp: is_connected_def dict_keys_def dest: weak_map_of_SomeI)
  with True assms show ?thesis
    by (auto simp: query_begin_def send_intent_begin_def Let_def py_dict ALLOWED_ACTIONS_def)
qed (use assms in \<open>auto simp: query_begin_def split: if_splits\<close>)

theorem query_port_read_only_witness:
  "(let m = register_connection 0 ''n1'' 7 (init_node_manager None)
    in case query_begin 1 ''u'' ''n1'' ''LIST_SERVICES'' None m of
         (Inr (i, f, msg), m') \<Rightarrow> map_of msg ''action'' = Some (JStr ''LIST_SERVICES'') \<and> map_of (intent_nodes m') i = Some ''n1''
       | _ \<Rightarrow> False)"
proof -
  let ?m = "register_connection 0 ''n1'' 7 (init_node_manager None)"
  obtain r m' where q: "query_begin 1 ''u'' ''n1'' ''LIST_SERVICES'' None ?m = (r, m')" by fastforce
  have "\<exists>x. r = Inr x" using q
    by (auto simp: query_begin_def ALLOWED_ACTIONS_def is_connected_def dict_keys_def register_connection_def close_socket_def init_node_manager_def send_intent_begin_def Let_def)
  then obtain i f msg where "r = Inr (i, f, msg)" by auto
  with query_port_read_only [OF q] q show ?thesis by (simp add: Let_def)
qed

text \<open>The updates of workers and the restarts are reachable through the dispatcher only.\<close>
lemma query_port_refuses_mutations:
  "a \<in> {WA_RESTART_SERVICE, WA_RESTART_CONTAINER, WA_UPDATE_WORKER, WA_PING, WA_STATUS_REPORT} \<longleftrightarrow> worker_action_str a \<notin> set ALLOWED_ACTIONS"
  by (cases a) (auto simp: ALLOWED_ACTIONS_def)

end
