(* ===== verification/Policy_Engine.thy ===== *)
theory Policy_Engine
  imports Json "HOL-Library.List_Lexorder" "HOL-Library.Char_ord"
begin

text \<open>
  Policy bundles (\<open>core/policy_engine.py\<close> and \<open>sign_policy_bundle\<close> of
  \<open>core/security_manager.py\<close>): the active grants of a node become rules, the bundle is
  numbered, signed and stored. The Ed25519 signature, SHA-256 and the printing of a float
  are parameters.
\<close>

record grant_row =
  g_id :: string
  g_plugin_id :: string
  g_node_id :: string
  g_action :: string
  g_target_kind :: string
  g_target_id :: string
  g_limits_json :: "string option"
  g_granted_by :: string
  g_granted_at :: time
  g_revoked_at :: "time option"

record policy_row =
  pol_id :: string
  pol_node_id :: string
  pol_key_id :: string
  pol_epoch :: int
  pol_version :: int
  pol_hash :: string
  pol_json :: string
  pol_signature :: string
  pol_status :: string
  pol_issued_by :: string
  pol_expires_at :: time
  pol_created_at :: time

record policy_db =
  pd_grants :: "grant_row list"
  pd_policies :: "policy_row list"

record signer =
  sg_public :: string                       \<comment> \<open>\<open>master_public_key_b64\<close>\<close>
  sg_sign :: "string \<Rightarrow> string"              \<comment> \<open>the encoded signature of a text\<close>
  sg_hash :: "string \<Rightarrow> string"
  sg_float :: "time \<Rightarrow> string"

datatype policy_error = Bad_Limits string

definition DEFAULT_POLICY_TTL :: time where
  "DEFAULT_POLICY_TTL = 30 * 24 * 3600"

fun sort_keys :: "json \<Rightarrow> json" where
  "sort_keys (JObj kvs) = JObj (sort_key fst (map (\<lambda>(k, v). (k, sort_keys v)) kvs))"
| "sort_keys (JArr vs) = JArr (map sort_keys vs)"
| "sort_keys v = v"

definition sign_policy_bundle :: "signer \<Rightarrow> (string, json) dict \<Rightarrow> string" where
  "sign_policy_bundle sg payload =
     sg_sign sg (json_dumps True (sort_keys (JObj (filter (\<lambda>(k, v). k \<notin> {''signature'', ''recovery_proof''}) payload))))"

definition limits_of :: "grant_row \<Rightarrow> policy_error + json" where
  "limits_of g =
     (case g_limits_json g of
        None \<Rightarrow> Inr (JObj [])
      | Some t \<Rightarrow> if t = [] then Inr (JObj []) else (case json_loads t of None \<Rightarrow> Inl (Bad_Limits (g_id g)) | Some v \<Rightarrow> Inr v))"

fun with_limits :: "grant_row list \<Rightarrow> policy_error + (grant_row \<times> json) list" where
  "with_limits [] = Inr []"
| "with_limits (g # gs) =
     (case limits_of g of
        Inl e \<Rightarrow> Inl e
      | Inr l \<Rightarrow> (case with_limits gs of Inl e \<Rightarrow> Inl e | Inr rs \<Rightarrow> Inr ((g, l) # rs)))"

definition active_grant :: "string \<Rightarrow> grant_row \<Rightarrow> bool" where
  "active_grant node g \<longleftrightarrow> g_node_id g = node \<and> g_revoked_at g = None"

definition get_active_grants :: "policy_db \<Rightarrow> string \<Rightarrow> policy_error + (grant_row \<times> json) list" where
  "get_active_grants db node = with_limits (filter (active_grant node) (pd_grants db))"

definition newer :: "policy_row \<Rightarrow> policy_row \<Rightarrow> bool" where
  "newer a b \<longleftrightarrow> pol_epoch b < pol_epoch a \<or> pol_epoch a = pol_epoch b \<and> pol_version b < pol_version a"

definition latest_policy :: "string \<Rightarrow> policy_row list \<Rightarrow> policy_row option" where
  \<comment> \<open>\<open>ORDER BY policy_epoch DESC, policy_version DESC LIMIT 1\<close>\<close>
  "latest_policy node ps =
     fold (\<lambda>p best. case best of None \<Rightarrow> Some p | Some b \<Rightarrow> if newer p b then Some p else Some b)
       (filter (\<lambda>p. pol_node_id p = node) ps) None"

definition next_version :: "string \<Rightarrow> policy_row list \<Rightarrow> int \<times> int" where
  "next_version node ps = (case latest_policy node ps of None \<Rightarrow> (1, 1) | Some p \<Rightarrow> (pol_epoch p, pol_version p + 1))"

definition target_json :: "string \<Rightarrow> string \<Rightarrow> json" where
  "target_json kind i = JObj [(''kind'', JStr kind), (''id'', JStr i)]"

definition grant_rule :: "grant_row \<times> json \<Rightarrow> json" where
  "grant_rule = (\<lambda>(g, l).
     JObj [(''rule_id'', JStr (g_id g)), (''plugin_id'', JStr (g_plugin_id g)), (''action'', JStr (g_action g)),
           (''target'', target_json (g_target_kind g) (g_target_id g)), (''limits'', l), (''requires_human_approval'', JBool True)])"

definition bootstrap_rule :: "string \<Rightarrow> string \<Rightarrow> string \<Rightarrow> json" where
  "bootstrap_rule rid action kind =
     JObj [(''rule_id'', JStr rid), (''plugin_id'', JStr ''core''), (''action'', JStr action),
           (''target'', target_json kind ''*''), (''requires_human_approval'', JBool False)]"

definition bootstrap_rules :: "json list" where
  "bootstrap_rules =
     [bootstrap_rule ''bootstrap-1'' ''LIST_SERVICES'' ''systemd_service'',
      bootstrap_rule ''bootstrap-2'' ''LIST_CONTAINERS'' ''docker_container'',
      bootstrap_rule ''bootstrap-3'' ''LIST_LOG_SOURCES'' ''log_source'']"

definition rules_of :: "(grant_row \<times> json) list \<Rightarrow> json list" where
  "rules_of gs = (if gs = [] then bootstrap_rules else map grant_rule gs)"

definition bundle_payload :: "signer \<Rightarrow> string \<Rightarrow> string \<Rightarrow> int \<times> int \<Rightarrow> time \<Rightarrow> time \<Rightarrow> json list \<Rightarrow> (string, json) dict" where
  "bundle_payload sg pid node ev now expires rules =
     [(''policy_id'', JStr pid), (''node_id'', JStr node), (''master_key_id'', JStr (take 16 (sg_public sg))),
      (''policy_epoch'', JInt (fst ev)), (''policy_version'', JInt (snd ev)),
      (''issued_at'', JFloat (sg_float sg now)), (''expires_at'', JFloat (sg_float sg expires)), (''rules'', JArr rules)]"

definition policy_bundle ::
  "signer \<Rightarrow> string \<Rightarrow> time \<Rightarrow> string \<Rightarrow> string \<Rightarrow> time \<Rightarrow> int \<times> int \<Rightarrow> (grant_row \<times> json) list \<Rightarrow> (string, json) dict \<times> policy_row" where
  \<comment> \<open>the part after the two queries\<close>
  "policy_bundle sg pid now node issued_by ttl ev gs =
     (let payload = bundle_payload sg pid node ev now (now + ttl) (rules_of gs);
          signature = sign_policy_bundle sg payload;
          signed = payload @ [(''signature'', JStr signature)];
          text = json_dumps_spaced (sort_keys (JObj signed))
      in (signed,
          \<lparr>pol_id = pid, pol_node_id = node, pol_key_id = take 16 (sg_public sg), pol_epoch = fst ev, pol_version = snd ev,
           pol_hash = sg_hash sg text, pol_json = text, pol_signature = signature, pol_status = ''ACTIVE'', pol_issued_by = issued_by,
           pol_expires_at = now + ttl, pol_created_at = now\<rparr>))"

definition compile_policy_bundle ::
  "signer \<Rightarrow> string \<Rightarrow> time \<Rightarrow> string \<Rightarrow> string \<Rightarrow> time \<Rightarrow> policy_db \<Rightarrow> (policy_error + (string, json) dict) \<times> policy_db" where
  "compile_policy_bundle sg pid now node issued_by ttl db =
     (case get_active_grants db node of
        Inl e \<Rightarrow> (Inl e, db)
      | Inr gs \<Rightarrow>
          (let (signed, row) = policy_bundle sg pid now node issued_by ttl (next_version node (pd_policies db)) gs
           in (Inr signed, db\<lparr>pd_policies := pd_policies db @ [row]\<rparr>)))"

section \<open>Properties\<close>

lemma with_limits_fst: "with_limits gs = Inr rs \<Longrightarrow> map fst rs = gs"
  by (induction gs arbitrary: rs) (auto split: sum.splits)

lemma latest_policy_snoc:
  "latest_policy node (ps @ [p]) =
     (if pol_node_id p \<noteq> node then latest_policy node ps
      else case latest_policy node ps of None \<Rightarrow> Some p | Some b \<Rightarrow> if newer p b then Some p else Some b)"
  by (simp add: latest_policy_def split: option.split)

inductive policy_run :: "signer \<Rightarrow> policy_db \<Rightarrow> policy_db \<Rightarrow> bool" for sg where
  start: "pd_policies db = [] \<Longrightarrow> policy_run sg db db"
| grants: "policy_run sg db0 db \<Longrightarrow> policy_run sg db0 (db\<lparr>pd_grants := gs\<rparr>)"
| compile: "policy_run sg db0 db \<Longrightarrow> policy_run sg db0 (snd (compile_policy_bundle sg pid now node who ttl db))"

definition node_versions :: "string \<Rightarrow> policy_row list \<Rightarrow> (int \<times> int) list" where
  "node_versions node ps = map (\<lambda>p. (pol_epoch p, pol_version p)) (filter (\<lambda>p. pol_node_id p = node) ps)"

definition numbered :: "string \<Rightarrow> policy_row list \<Rightarrow> bool" where
  "numbered node ps \<longleftrightarrow> node_versions node ps = map (\<lambda>k. (1, int k + 1)) [0..<length (node_versions node ps)] \<and>
     next_version node ps = (1, int (length (node_versions node ps)) + 1)"

lemma numbered_snoc:
  assumes "numbered node ps" and "pol_node_id p = node \<longrightarrow> (pol_epoch p, pol_version p) = next_version node ps"
  shows "numbered node (ps @ [p])"
proof (cases "pol_node_id p = node")
  case False
  with assms(1) show ?thesis by (simp add: numbered_def node_versions_def next_version_def latest_policy_snoc)
next
  case True
  let ?n = "length (node_versions node ps)"
  have v: "pol_epoch p = 1" "pol_version p = int ?n + 1" using assms True by (simp_all add: numbered_def)
  have "node_versions node (ps @ [p]) = node_versions node ps @ [(1, int ?n + 1)]" using True v by (simp add: node_versions_def)
  moreover have "next_version node (ps @ [p]) = (1, int (Suc ?n) + 1)"
    using True v assms(1) by (auto simp: next_version_def latest_policy_snoc numbered_def newer_def split: option.splits)
  ultimately show ?thesis using assms(1) by (simp add: numbered_def)
qed

lemma policy_run_numbered: "policy_run sg db0 db \<Longrightarrow> numbered node (pd_policies db)"
proof (induction rule: policy_run.induct)
  case (start db)
  then show ?case by (simp add: numbered_def node_versions_def next_version_def latest_policy_def)
next
  case (compile db0 db pid now nd who ttl)
  show ?case
  proof (cases "get_active_grants db nd")
    case (Inr gs)
    let ?row = "snd (policy_bundle sg pid now nd who ttl (next_version nd (pd_policies db)) gs)"
    have "pd_policies (snd (compile_policy_bundle sg pid now nd who ttl db)) = pd_policies db @ [?row]"
      using Inr by (simp add: compile_policy_bundle_def case_prod_beta)
    moreover have "pol_node_id ?row = nd" "(pol_epoch ?row, pol_version ?row) = next_version nd (pd_policies db)"
      by (simp_all add: policy_bundle_def Let_def)
    ultimately show ?thesis using numbered_snoc [OF compile.IH, of ?row] by auto
  qed (use compile in \<open>simp add: compile_policy_bundle_def\<close>)
qed simp

text \<open>
  Policies of a node are numbered without gaps: after any sequence of changes of grants and
  compilations, one after the other, the stored policies of a node have epoch 1 and the
  versions 1, 2, 3 and so on in the order they were compiled.
\<close>
theorem policy_versions_consecutive:
  assumes "policy_run sg db0 db"
  shows "node_versions node (pd_policies db) = map (\<lambda>k. (1, int k + 1)) [0..<length (node_versions node (pd_policies db))]"
  using policy_run_numbered [OF assms, of node] by (simp add: numbered_def)

definition plain_signer :: signer where
  "plain_signer = \<lparr>sg_public = ''0123456789abcdefgh'', sg_sign = rev, sg_hash = id, sg_float = (\<lambda>_. ''0.0'')\<rparr>"

definition empty_policy_db :: policy_db where
  "empty_policy_db = \<lparr>pd_grants = [], pd_policies = []\<rparr>"

theorem policy_versions_consecutive_witness:
  "node_versions ''n'' (pd_policies (snd (compile_policy_bundle plain_signer ''b'' 1 ''n'' ''sys'' 9
     (snd (compile_policy_bundle plain_signer ''a'' 0 ''n'' ''sys'' 9 empty_policy_db))))) = [(1, 1), (1, 2)]"
proof -
  let ?db = "snd (compile_policy_bundle plain_signer ''b'' 1 ''n'' ''sys'' 9 (snd (compile_policy_bundle plain_signer ''a'' 0 ''n'' ''sys'' 9 empty_policy_db)))"
  have "policy_run plain_signer empty_policy_db ?db" by (intro policy_run.compile policy_run.start) (simp add: empty_policy_db_def)
  note v = policy_versions_consecutive [OF this, of "''n''"]
  have "length (node_versions ''n'' (pd_policies ?db)) = 2"
    by (simp add: compile_policy_bundle_def get_active_grants_def empty_policy_db_def policy_bundle_def Let_def node_versions_def)
  with v show ?thesis by (simp add: upt_rec numeral_2_eq_2)
qed

lemma filter_signature:
  "filter (\<lambda>(k, v). k \<notin> {''signature'', ''recovery_proof''}) (bundle_payload sg pid node ev now e rs @ [(''signature'', s)]) = bundle_payload sg pid node ev now e rs"
  "filter (\<lambda>(k, v). k \<notin> {''signature'', ''recovery_proof''}) (bundle_payload sg pid node ev now e rs) = bundle_payload sg pid node ev now e rs"
  by (simp_all add: bundle_payload_def)

text \<open>
  A bundle says what was granted: its rules are the active grants of the node, in order and
  each with human approval, or the three read-only bootstrap rules when there are none; its
  signature is that of the bundle without the signature, so signing it again gives the same.
\<close>
theorem bundle_reflects_grants:
  assumes "compile_policy_bundle sg pid now node who ttl db = (Inr b, db')"
  obtains gs where "map fst gs = filter (active_grant node) (pd_grants db)"
    and "map_of b ''rules'' = Some (JArr (if gs = [] then bootstrap_rules else map grant_rule gs))"
    and "map_of b ''signature'' = Some (JStr (sign_policy_bundle sg b))"
    and "map_of b ''expires_at'' = Some (JFloat (sg_float sg (now + ttl)))"
    and "pd_grants db' = pd_grants db"
proof -
  obtain gs where g: "get_active_grants db node = Inr gs"
    using assms by (auto simp: compile_policy_bundle_def split: sum.splits)
  let ?p = "bundle_payload sg pid node (next_version node (pd_policies db)) now (now + ttl) (rules_of gs)"
  have b: "b = ?p @ [(''signature'', JStr (sign_policy_bundle sg ?p))]" and d: "pd_grants db' = pd_grants db"
    using assms g by (auto simp: compile_policy_bundle_def policy_bundle_def Let_def)
  have "sign_policy_bundle sg b = sign_policy_bundle sg ?p" unfolding b sign_policy_bundle_def filter_signature ..
  then show ?thesis using that [of gs] g d with_limits_fst
    by (auto simp: get_active_grants_def b bundle_payload_def rules_of_def)
qed

theorem bundle_reflects_grants_witness:
  "\<exists>b db'. compile_policy_bundle plain_signer ''a'' 0 ''n'' ''sys'' 9 empty_policy_db = (Inr b, db') \<and> map_of b ''rules'' = Some (JArr bootstrap_rules)"
proof -
  obtain b db' where c: "compile_policy_bundle plain_signer ''a'' 0 ''n'' ''sys'' 9 empty_policy_db = (Inr b, db')"
    by (simp add: compile_policy_bundle_def get_active_grants_def empty_policy_db_def policy_bundle_def Let_def)
  from bundle_reflects_grants [OF c] obtain gs where "map fst gs = []" "map_of b ''rules'' = Some (JArr (if gs = [] then bootstrap_rules else map grant_rule gs))"
    by (auto simp: empty_policy_db_def)
  with c show ?thesis by auto
qed

text \<open>Two compilations that both read before either stores get the same version; both stay active.\<close>
lemma concurrent_compilations_share_version:
  "let ev = next_version ''n'' []; r1 = snd (policy_bundle sg ''a'' 0 ''n'' u 9 ev []); r2 = snd (policy_bundle sg ''b'' 0 ''n'' u 9 ev [])
   in node_versions ''n'' [r1, r2] = [(1, 1), (1, 1)] \<and> pol_status r1 = ''ACTIVE'' \<and> pol_status r2 = ''ACTIVE''"
  by (simp add: policy_bundle_def Let_def next_version_def latest_policy_def node_versions_def)

end
