(* ===== verification/Migrations.thy ===== *)
theory Migrations
  imports Audit_Chain
begin

text \<open>
  The schema (\<open>db/models.py\<close>), its migration at start-up and the seeds
  (\<open>db/migrations.py\<close>). A database is its tables with their columns and rows, the
  indexes with their tables, and the rows of \<open>alembic_version\<close>; of the constraints only
  the two that the migration looks at are kept: the legacy foreign key of \<open>join_tokens\<close>
  and whether the statuses of \<open>investigations\<close> include the two new ones. The foreign key
  check of SQLite is a parameter.
\<close>

section \<open>The declared schema\<close>

definition NODES_COLUMNS :: "string list" where
  "NODES_COLUMNS =
     [''id'', ''name'', ''hostname'', ''machine_id'', ''arch'', ''os'', ''public_key'', ''state'', ''ip_prefix'', ''last_heartbeat'',
      ''enrolled_at'', ''created_at'', ''updated_at'', ''insight_profile'', ''insight_profile_generated_at'', ''cached_services_json'',
      ''cached_services_at'', ''cached_containers_json'', ''version'', ''worker_version'', ''node_group'', ''disabled'',
      ''cached_disk_scan_json'', ''cached_disk_scan_at'', ''cached_disks_json'', ''last_ip'']"

definition JOIN_TOKENS_COLUMNS :: "string list" where
  "JOIN_TOKENS_COLUMNS =
     [''id'', ''node_id'', ''token_hash'', ''payload_b64'', ''consumed'', ''expires_at'', ''created_at'']"

definition WORKER_TOKENS_COLUMNS :: "string list" where
  "WORKER_TOKENS_COLUMNS =
     [''id'', ''node_id'', ''token_hash'', ''issued_at'', ''rotation_due'', ''expires_at'', ''revoked'', ''revoked_at'', ''revoked_by'']"

definition USERS_COLUMNS :: "string list" where
  "USERS_COLUMNS =
     [''id'', ''username'', ''password_hash'', ''role'', ''is_active'', ''must_change_password'', ''created_at'', ''updated_at'',
      ''last_login'']"

definition REFRESH_TOKENS_COLUMNS :: "string list" where
  "REFRESH_TOKENS_COLUMNS =
     [''id'', ''user_id'', ''token_hash'', ''family_id'', ''issued_at'', ''expires_at'', ''revoked'', ''revoked_at'']"

definition AUDIT_LOG_COLUMNS :: "string list" where
  "AUDIT_LOG_COLUMNS =
     [''id'', ''sequence'', ''timestamp'', ''user_id'', ''action'', ''node_id'', ''details_json'', ''previous_hash'', ''entry_hash'']"

definition METRICS_SNAPSHOTS_COLUMNS :: "string list" where
  "METRICS_SNAPSHOTS_COLUMNS =
     [''id'', ''node_id'', ''collected_at'', ''created_at'', ''cpu_percent'', ''cpu_load_1m'', ''cpu_load_5m'', ''cpu_load_15m'',
      ''cpu_cores'', ''mem_total_bytes'', ''mem_used_bytes'', ''mem_percent'', ''swap_total_bytes'', ''swap_used_bytes'',
      ''disk_total_bytes'', ''disk_used_bytes'', ''disk_percent'', ''uptime_seconds'', ''processes'', ''disks_json'',
      ''top_processes_json'', ''net_bytes_recv'', ''net_bytes_sent'', ''net_packets_recv'', ''net_packets_sent'', ''net_errors_in'',
      ''net_errors_out'', ''net_drops_in'', ''net_drops_out'', ''disk_reads'', ''disk_writes'', ''disk_read_bytes'',
      ''disk_write_bytes'', ''temp_celsius'', ''psi_cpu_avg10'', ''psi_mem_avg10'', ''psi_io_avg10'', ''file_handles_used'',
      ''file_handles_max'', ''app_sshd_fds_used'', ''app_sshd_fds_max'', ''app_sshd_fds_percent'', ''entropy_avail'',
      ''context_switches'', ''cpu_throttled_count'']"

definition PROPOSALS_COLUMNS :: "string list" where
  "PROPOSALS_COLUMNS =
     [''id'', ''node_id'', ''action'', ''params_json'', ''reasoning'', ''risk_level'', ''status'', ''created_by'', ''approved_by'',
      ''rejected_by'', ''rejection_reason'', ''created_at'', ''updated_at'', ''executed_at'', ''result_json'', ''dispatch_id'',
      ''intent_id'', ''expires_at'']"

definition CHAT_SESSIONS_COLUMNS :: "string list" where
  "CHAT_SESSIONS_COLUMNS =
     [''id'', ''user_id'', ''node_id'', ''title'', ''history_json'', ''is_pinned'', ''created_at'', ''updated_at'']"

definition PLUGINS_COLUMNS :: "string list" where
  "PLUGINS_COLUMNS =
     [''id'', ''version'', ''enabled'', ''status'', ''config_json'', ''manifest_hash'', ''updated_at'', ''discovered_at'',
      ''installed_at'', ''activated_at'', ''last_run_at'', ''deactivated_at'', ''manifest_json'']"

definition ALERTS_COLUMNS :: "string list" where
  "ALERTS_COLUMNS =
     [''id'', ''node_id'', ''alert_name'', ''severity'', ''status'', ''message'', ''metric_value'', ''threshold'', ''details_json'',
      ''created_at'', ''resolved_at'', ''updated_at'']"

definition INVESTIGATIONS_COLUMNS :: "string list" where
  "INVESTIGATIONS_COLUMNS =
     [''id'', ''alert_id'', ''node_id'', ''alert_name'', ''severity'', ''status'', ''context_json'', ''result'', ''created_at'',
      ''completed_at'', ''updated_at'']"

definition OUTBOX_COLUMNS :: "string list" where
  "OUTBOX_COLUMNS =
     [''id'', ''event_type'', ''aggregate_id'', ''aggregate_type'', ''payload_json'', ''created_at'', ''processed'', ''processed_at'',
      ''retry_count'', ''error'']"

definition PLEX_SESSIONS_COLUMNS :: "string list" where
  "PLEX_SESSIONS_COLUMNS =
     [''id'', ''node_id'', ''session_key'', ''user'', ''title'', ''grandparent_title'', ''media_type'', ''progress_percent'', ''state'',
      ''player_device'', ''quality_profile'', ''bandwidth_kbps'', ''transcode'', ''details_json'', ''updated_at'']"

definition PLEX_WATCH_HISTORY_COLUMNS :: "string list" where
  "PLEX_WATCH_HISTORY_COLUMNS =
     [''id'', ''node_id'', ''user'', ''title'', ''grandparent_title'', ''media_type'', ''viewed_at'', ''duration_watched_s'',
      ''progress_percent'', ''device'', ''quality'', ''details_json'']"

definition PLEX_LIBRARIES_COLUMNS :: "string list" where
  "PLEX_LIBRARIES_COLUMNS =
     [''id'', ''node_id'', ''section_key'', ''title'', ''type'', ''count'', ''total_size_bytes'', ''last_scanned_at'', ''updated_at'']"

definition PLEX_MEDIA_CACHE_COLUMNS :: "string list" where
  "PLEX_MEDIA_CACHE_COLUMNS =
     [''id'', ''node_id'', ''rating_key'', ''title'', ''year'', ''media_type'', ''duration_ms'', ''file_size_bytes'', ''added_at'',
      ''thumb_path'', ''updated_at'']"

definition PLEX_EVENTS_COLUMNS :: "string list" where
  "PLEX_EVENTS_COLUMNS =
     [''id'', ''node_id'', ''event_type'', ''user'', ''title'', ''payload_json'', ''created_at'']"

definition PLUGIN_CAPABILITY_DECLARATIONS_COLUMNS :: "string list" where
  "PLUGIN_CAPABILITY_DECLARATIONS_COLUMNS =
     [''id'', ''plugin_id'', ''action'', ''target_kind'', ''risk_level'', ''justification'', ''manifest_hash'', ''created_at'']"

definition PLUGIN_GRANTS_COLUMNS :: "string list" where
  "PLUGIN_GRANTS_COLUMNS =
     [''id'', ''plugin_id'', ''node_id'', ''action'', ''target_kind'', ''target_id'', ''limits_json'', ''granted_by'', ''granted_at'',
      ''revoked_at'']"

definition POLICIES_COLUMNS :: "string list" where
  "POLICIES_COLUMNS =
     [''id'', ''node_id'', ''master_key_id'', ''policy_epoch'', ''policy_version'', ''bundle_hash'', ''bundle_json'', ''signature'',
      ''status'', ''issued_by'', ''expires_at'', ''created_at'']"

definition DISK_SCANS_CACHE_COLUMNS :: "string list" where
  "DISK_SCANS_CACHE_COLUMNS =
     [''node_id'', ''path'', ''scan_json'', ''scanned_at'']"

definition ALL_TABLES :: "(string \<times> string list) list" where
  "ALL_TABLES =
     [(''nodes'', NODES_COLUMNS),
      (''join_tokens'', JOIN_TOKENS_COLUMNS),
      (''worker_tokens'', WORKER_TOKENS_COLUMNS),
      (''users'', USERS_COLUMNS),
      (''refresh_tokens'', REFRESH_TOKENS_COLUMNS),
      (''audit_log'', AUDIT_LOG_COLUMNS),
      (''metrics_snapshots'', METRICS_SNAPSHOTS_COLUMNS),
      (''action_proposals'', PROPOSALS_COLUMNS),
      (''chat_sessions'', CHAT_SESSIONS_COLUMNS),
      (''plugins'', PLUGINS_COLUMNS),
      (''alerts'', ALERTS_COLUMNS),
      (''investigations'', INVESTIGATIONS_COLUMNS),
      (''outbox'', OUTBOX_COLUMNS),
      (''plex_sessions'', PLEX_SESSIONS_COLUMNS),
      (''plex_watch_history'', PLEX_WATCH_HISTORY_COLUMNS),
      (''plex_libraries'', PLEX_LIBRARIES_COLUMNS),
      (''plex_media_cache'', PLEX_MEDIA_CACHE_COLUMNS),
      (''plex_events'', PLEX_EVENTS_COLUMNS),
      (''plugin_capability_declarations'', PLUGIN_CAPABILITY_DECLARATIONS_COLUMNS),
      (''plugin_grants'', PLUGIN_GRANTS_COLUMNS),
      (''policies'', POLICIES_COLUMNS),
      (''disk_scans_cache'', DISK_SCANS_CACHE_COLUMNS)]"

definition CREATE_INDEXES :: "(string \<times> string \<times> string list) list" where
  "CREATE_INDEXES =
     [(''idx_join_tokens_node_id'', ''join_tokens'', [''node_id'']),
      (''idx_join_tokens_consumed'', ''join_tokens'', [''consumed'', ''expires_at'']),
      (''idx_worker_tokens_node_id'', ''worker_tokens'', [''node_id'']),
      (''idx_worker_tokens_hash'', ''worker_tokens'', [''token_hash'']),
      (''idx_audit_log_sequence'', ''audit_log'', [''sequence'']),
      (''idx_audit_log_node_id'', ''audit_log'', [''node_id'']),
      (''idx_audit_log_user_id'', ''audit_log'', [''user_id'']),
      (''idx_metrics_snapshots_node_time'', ''metrics_snapshots'', [''node_id'', ''collected_at'']),
      (''idx_proposals_node'', ''action_proposals'', [''node_id'']),
      (''idx_refresh_tokens_user'', ''refresh_tokens'', [''user_id'']),
      (''idx_refresh_tokens_family'', ''refresh_tokens'', [''family_id'']),
      (''idx_chat_sessions_node'', ''chat_sessions'', [''node_id'']),
      (''idx_chat_sessions_user_node_sort'', ''chat_sessions'', [''user_id'', ''node_id'', ''is_pinned'', ''updated_at'']),
      (''idx_chat_sessions_user_sort'', ''chat_sessions'', [''user_id'', ''is_pinned'', ''updated_at'']),
      (''idx_nodes_group'', ''nodes'', [''node_group'']),
      (''idx_nodes_state_heartbeat'', ''nodes'', [''state'', ''last_heartbeat'']),
      (''idx_nodes_disabled_state'', ''nodes'', [''disabled'', ''state'']),
      (''idx_proposals_status_dispatch'', ''action_proposals'', [''status'', ''dispatch_id'']),
      (''idx_proposals_intent_dispatch'', ''action_proposals'', [''intent_id'', ''dispatch_id'']),
      (''idx_proposals_expires'', ''action_proposals'', [''expires_at'']),
      (''idx_metrics_snapshots_collected_at'', ''metrics_snapshots'', [''collected_at'']),
      (''idx_plugins_enabled'', ''plugins'', [''enabled'']),
      (''idx_plugins_status'', ''plugins'', [''status'']),
      (''idx_plugins_manifest_hash'', ''plugins'', [''manifest_hash'']),
      (''idx_alerts_node_status'', ''alerts'', [''node_id'', ''status'']),
      (''idx_alerts_name_status'', ''alerts'', [''alert_name'', ''node_id'', ''status'']),
      (''idx_alerts_created'', ''alerts'', [''created_at'']),
      (''idx_alerts_severity'', ''alerts'', [''severity'', ''status'']),
      (''idx_investigations_node'', ''investigations'', [''node_id'', ''created_at'']),
      (''idx_investigations_status'', ''investigations'', [''status'']),
      (''idx_investigations_alert'', ''investigations'', [''alert_id'']),
      (''idx_outbox_unprocessed'', ''outbox'', [''processed'', ''created_at'']),
      (''idx_plex_sessions_node'', ''plex_sessions'', [''node_id'', ''updated_at'']),
      (''idx_plex_watch_history_node_time'', ''plex_watch_history'', [''node_id'', ''viewed_at'']),
      (''idx_plex_watch_history_user'', ''plex_watch_history'', [''user'', ''viewed_at'']),
      (''idx_plex_libraries_node'', ''plex_libraries'', [''node_id'']),
      (''idx_plex_media_cache_node_key'', ''plex_media_cache'', [''node_id'', ''rating_key'']),
      (''idx_plex_events_node_time'', ''plex_events'', [''node_id'', ''created_at'']),
      (''idx_plugin_grants_node'', ''plugin_grants'', [''node_id'', ''plugin_id'']),
      (''idx_policies_node_ver'', ''policies'', [''node_id'', ''policy_epoch'', ''policy_version'']),
      (''idx_disk_scans_cache_node'', ''disk_scans_cache'', [''node_id''])]"

section \<open>Databases\<close>

record sql_table =
  tb_columns :: "string list"
  tb_rows :: "(string, json) dict list"
  tb_legacy_fk :: bool
  tb_new_statuses :: bool

record schema =
  sc_tables :: "(string, sql_table) dict"
  sc_indexes :: "(string \<times> string) list"
  sc_version :: "string list"

datatype mig_error = No_Table string | No_Column string string | Fk_Violation

definition fresh_table :: "string list \<Rightarrow> sql_table" where
  "fresh_table cols = \<lparr>tb_columns = cols, tb_rows = [], tb_legacy_fk = False, tb_new_statuses = True\<rparr>"

definition create_missing :: "string \<times> string list \<Rightarrow> schema \<Rightarrow> schema" where
  "create_missing = (\<lambda>(t, cols) s.
     if map_of (sc_tables s) t = None then s\<lparr>sc_tables := AList.update t (fresh_table cols) (sc_tables s)\<rparr> else s)"

definition create_all :: "schema \<Rightarrow> mig_error + schema" where
  "create_all s = Inr (fold create_missing ALL_TABLES s)"

definition ORPHANS :: "string list" where
  "ORPHANS = [''automation_rules'', ''automation_cooldowns'', ''automation_logs'', ''metrics_metrics_snapshots'']"

definition drop_table :: "string \<Rightarrow> schema \<Rightarrow> schema" where
  \<comment> \<open>\<open>DROP TABLE IF EXISTS\<close>, which drops the indexes of the table with it\<close>
  "drop_table t s =
     (if map_of (sc_tables s) t = None then s
      else s\<lparr>sc_tables := AList.delete t (sc_tables s), sc_indexes := filter (\<lambda>(i, u). u \<noteq> t) (sc_indexes s)\<rparr>)"

definition drop_orphans :: "schema \<Rightarrow> mig_error + schema" where
  "drop_orphans s = Inr (fold drop_table ORPHANS s)"

definition add_column :: "string \<times> json \<Rightarrow> sql_table \<Rightarrow> sql_table" where
  "add_column = (\<lambda>(c, d) tb.
     if c \<in> set (tb_columns tb) then tb
     else tb\<lparr>tb_columns := tb_columns tb @ [c], tb_rows := map (\<lambda>r. r @ [(c, d)]) (tb_rows tb)\<rparr>)"

definition add_columns :: "string \<Rightarrow> (string \<times> json) list \<Rightarrow> schema \<Rightarrow> mig_error + schema" where
  "add_columns t specs s =
     (case map_of (sc_tables s) t of
        None \<Rightarrow> Inl (No_Table t)
      | Some tb \<Rightarrow> Inr (s\<lparr>sc_tables := AList.update t (fold add_column specs tb) (sc_tables s)\<rparr>))"

definition NODE_ADDED :: "(string \<times> json) list" where
  "NODE_ADDED =
     [(''insight_profile'', JNull), (''insight_profile_generated_at'', JNull), (''cached_services_json'', JStr ''[]''),
      (''cached_services_at'', JNull), (''cached_containers_json'', JStr ''[]''), (''node_group'', JStr []), (''disabled'', JInt 0),
      (''version'', JNull), (''worker_version'', JNull), (''cached_disk_scan_json'', JNull), (''cached_disk_scan_at'', JNull),
      (''cached_disks_json'', JNull), (''last_ip'', JNull)]"

definition METRIC_ADDED :: "(string \<times> json) list" where
  "METRIC_ADDED = map (\<lambda>c. (c, JNull))
     [''disks_json'', ''top_processes_json'', ''net_bytes_recv'', ''net_bytes_sent'', ''net_packets_recv'', ''net_packets_sent'',
      ''net_errors_in'', ''net_errors_out'', ''net_drops_in'', ''net_drops_out'', ''disk_reads'', ''disk_writes'',
      ''disk_read_bytes'', ''disk_write_bytes'', ''temp_celsius'', ''psi_cpu_avg10'', ''psi_mem_avg10'', ''psi_io_avg10'',
      ''file_handles_used'', ''file_handles_max'', ''app_sshd_fds_used'', ''app_sshd_fds_max'', ''app_sshd_fds_percent'',
      ''entropy_avail'', ''context_switches'', ''cpu_throttled_count'']"

definition PROPOSAL_ADDED :: "(string \<times> json) list" where
  "PROPOSAL_ADDED = [(''dispatch_id'', JNull), (''intent_id'', JNull), (''expires_at'', JNull)]"

definition CHAT_ADDED :: "(string \<times> json) list" where
  "CHAT_ADDED = [(''is_pinned'', JInt 0)]"

definition PLUGIN_ADDED_008 :: "(string \<times> json) list" where
  "PLUGIN_ADDED_008 = [(''version'', JStr ''0.0.0''), (''status'', JStr ''INSTALLED''), (''manifest_hash'', JNull)]"

definition PLUGIN_ADDED_009 :: "(string \<times> json) list" where
  "PLUGIN_ADDED_009 =
     [(''discovered_at'', JNull), (''installed_at'', JNull), (''activated_at'', JNull), (''last_run_at'', JNull),
      (''deactivated_at'', JNull), (''manifest_json'', JNull)]"

definition plugin_default :: "string \<Rightarrow> json" where
  "plugin_default c = dict_get [(''version'', JStr ''0.0.0''), (''status'', JStr ''INSTALLED''), (''updated_at'', JStr ''CURRENT_TIMESTAMP'')] c JNull"

definition copied_plugin :: "string list \<Rightarrow> (string, json) dict \<Rightarrow> (string, json) dict" where
  "copied_plugin cols r =
     map (\<lambda>c. (c, if c = ''id'' then dict_get r ''plugin_id'' JNull
                   else if c = ''enabled'' \<or> c = ''config_json'' then dict_get r c JNull
                   else plugin_default c)) cols"

fun copy_plugins :: "string list \<Rightarrow> (string, json) dict list \<Rightarrow> (string, json) dict list \<Rightarrow> (string, json) dict list" where
  \<comment> \<open>\<open>INSERT OR IGNORE\<close>: an id that is there stays as it is, a null in a required column is left out\<close>
  "copy_plugins cols [] rows = rows"
| "copy_plugins cols (r # rs) rows =
     (if dict_get r ''enabled'' JNull = JNull \<or> dict_get r ''config_json'' JNull = JNull \<or>
         dict_get r ''plugin_id'' JNull \<in> set (map (\<lambda>q. dict_get q ''id'' JNull) rows) then copy_plugins cols rs rows
      else copy_plugins cols rs (rows @ [copied_plugin cols r]))"

definition migrate_plugin_configs :: "schema \<Rightarrow> mig_error + schema" where
  "migrate_plugin_configs s =
     (case map_of (sc_tables s) ''plugin_configs'' of
        None \<Rightarrow> Inr s
      | Some old \<Rightarrow>
          (case map_of (sc_tables s) ''plugins'' of
             None \<Rightarrow> Inl (No_Table ''plugins'')
           | Some tb \<Rightarrow>
               Inr (drop_table ''plugin_configs''
                 (s\<lparr>sc_tables := AList.update ''plugins''
                      (tb\<lparr>tb_rows := copy_plugins (tb_columns tb) (tb_rows old) (tb_rows tb)\<rparr>) (sc_tables s)\<rparr>))))"

fun create_indexes :: "(string \<times> string \<times> string list) list \<Rightarrow> schema \<Rightarrow> mig_error + schema" where
  "create_indexes [] s = Inr s"
| "create_indexes ((i, t, cols) # rest) s =
     (if i \<in> fst ` set (sc_indexes s) then create_indexes rest s
      else
        (case map_of (sc_tables s) t of
           None \<Rightarrow> Inl (No_Table t)
         | Some tb \<Rightarrow>
             (case List.find (\<lambda>c. c \<notin> set (tb_columns tb)) cols of
                Some c \<Rightarrow> Inl (No_Column t c)
              | None \<Rightarrow> create_indexes rest (s\<lparr>sc_indexes := sc_indexes s @ [(i, t)]\<rparr>))))"

definition rebuild :: "(schema \<Rightarrow> bool) \<Rightarrow> string \<Rightarrow> string list \<Rightarrow> string list \<Rightarrow> sql_table \<Rightarrow> schema \<Rightarrow> mig_error + schema" where
  \<comment> \<open>new table, copy of the named columns, drop, rename, indexes, foreign key check; a failure rolls back\<close>
  "rebuild violates t cols idxs tb s =
     (case List.find (\<lambda>c. c \<notin> set (tb_columns tb)) cols of
        Some c \<Rightarrow> Inl (No_Column t c)
      | None \<Rightarrow>
          (let tb' = (fresh_table cols)\<lparr>tb_rows := map (\<lambda>r. map (\<lambda>c. (c, dict_get r c JNull)) cols) (tb_rows tb)\<rparr>;
               s' = s\<lparr>sc_tables := AList.update t tb' (sc_tables s),
                      sc_indexes := filter (\<lambda>(i, u). u \<noteq> t) (sc_indexes s) @ map (\<lambda>i. (i, t)) idxs\<rparr>
           in if violates s' then Inl Fk_Violation else Inr s'))"

definition JOIN_TOKENS_INDEXES :: "string list" where
  "JOIN_TOKENS_INDEXES = [''idx_join_tokens_node_id'', ''idx_join_tokens_consumed'']"

definition INVESTIGATIONS_INDEXES :: "string list" where
  "INVESTIGATIONS_INDEXES = [''idx_investigations_node'', ''idx_investigations_status'', ''idx_investigations_alert'']"

definition rebuild_join_tokens :: "(schema \<Rightarrow> bool) \<Rightarrow> schema \<Rightarrow> mig_error + schema" where
  "rebuild_join_tokens violates s =
     (case map_of (sc_tables s) ''join_tokens'' of
        None \<Rightarrow> Inr s
      | Some tb \<Rightarrow>
          if tb_legacy_fk tb then
            rebuild violates ''join_tokens'' JOIN_TOKENS_COLUMNS JOIN_TOKENS_INDEXES tb s
          else Inr s)"

definition rebuild_investigations :: "(schema \<Rightarrow> bool) \<Rightarrow> schema \<Rightarrow> mig_error + schema" where
  "rebuild_investigations violates s =
     (case map_of (sc_tables s) ''investigations'' of
        None \<Rightarrow> Inr s
      | Some tb \<Rightarrow>
          if tb_new_statuses tb then Inr s
          else rebuild violates ''investigations'' INVESTIGATIONS_COLUMNS INVESTIGATIONS_INDEXES tb s)"

definition stamp_version :: "schema \<Rightarrow> mig_error + schema" where
  "stamp_version s = Inr (s\<lparr>sc_version := [''010'']\<rparr>)"

fun run_steps :: "(schema \<Rightarrow> mig_error + schema) list \<Rightarrow> schema \<Rightarrow> mig_error + schema" where
  "run_steps [] s = Inr s"
| "run_steps (f # fs) s = (case f s of Inl e \<Rightarrow> Inl e | Inr s' \<Rightarrow> run_steps fs s')"

definition run_migrations :: "(schema \<Rightarrow> bool) \<Rightarrow> schema \<Rightarrow> mig_error + schema" where
  "run_migrations violates =
     run_steps
       [create_all, drop_orphans, add_columns ''nodes'' NODE_ADDED, add_columns ''metrics_snapshots'' METRIC_ADDED,
        add_columns ''action_proposals'' PROPOSAL_ADDED, add_columns ''chat_sessions'' CHAT_ADDED, migrate_plugin_configs,
        add_columns ''plugins'' PLUGIN_ADDED_008, add_columns ''plugins'' PLUGIN_ADDED_009, create_indexes CREATE_INDEXES,
        rebuild_join_tokens violates, rebuild_investigations violates, stamp_version]"

section \<open>Seeds\<close>

record seed_user =
  su_id :: string
  su_username :: string
  su_password_hash :: string
  su_role :: string
  su_must_change :: bool

record seed_plugin =
  sp_id :: string
  sp_version :: string
  sp_enabled :: bool
  sp_status :: string
  sp_config :: string

record seed_settings =
  ss_production :: bool
  ss_testing :: bool
  ss_bootstrap :: "string option"

definition genesis_entry :: "hash \<Rightarrow> time \<Rightarrow> string \<Rightarrow> string \<Rightarrow> audit_entry" where
  "genesis_entry H now uid admin =
     (let details = ''{'' @ [CHR 0x22] @ ''message'' @ [CHR 0x22] @ '': '' @ [CHR 0x22] @ ''Database initialized. Genesis audit entry.'' @ [CHR 0x22] @ ''}''
      in \<lparr>ae_id = uid, ae_sequence = 1, ae_timestamp = now, ae_user_id = admin, ae_action = ''SYSTEM_INIT'', ae_node_id = None,
          ae_details_json = details, ae_previous_hash = GENESIS_HASH,
          ae_entry_hash = compute_entry_hash H GENESIS_HASH 1 now ''SYSTEM_INIT'' admin None details\<rparr>)"

definition seed_password :: "seed_settings \<Rightarrow> string option" where
  "seed_password st =
     (if ss_production st then (case ss_bootstrap st of None \<Rightarrow> None | Some p \<Rightarrow> if p = [] then None else Some p) else Some ''admin'')"

definition seed_default_admin ::
  "hash \<Rightarrow> (string \<Rightarrow> string) \<Rightarrow> seed_settings \<Rightarrow> time \<Rightarrow> string \<Rightarrow> string \<Rightarrow> seed_user list \<times> audit_table \<Rightarrow> audit_error + seed_user list \<times> audit_table" where
  \<comment> \<open>the user and the genesis entry are one transaction: a failing entry leaves both out\<close>
  "seed_default_admin H pw_hash st now uid eid = (\<lambda>(users, log).
     if users \<noteq> [] then Inr (users, log)
     else
       (case seed_password st of
          None \<Rightarrow> Inr (users, log)
        | Some p \<Rightarrow>
            (case insert_entry (genesis_entry H now eid uid) log of
               (Inl e, _) \<Rightarrow> Inl e
             | (Inr _, log') \<Rightarrow>
                 Inr ([\<lparr>su_id = uid, su_username = ''admin'', su_password_hash = pw_hash p, su_role = ''admin'', su_must_change = ss_testing st\<rparr>], log'))))"

definition seed_plugin_row :: "string \<times> string \<Rightarrow> seed_plugin list \<Rightarrow> seed_plugin list" where
  "seed_plugin_row = (\<lambda>(i, v) ps.
     if i \<in> sp_id ` set ps then sql_update (\<lambda>p. sp_id p = i) (\<lambda>p. if sp_version p = [] then p\<lparr>sp_version := v\<rparr> else p) ps
     else ps @ [\<lparr>sp_id = i, sp_version = v, sp_enabled = True, sp_status = ''ACTIVE'', sp_config = ''{}''\<rparr>])"

definition seed_default_plugins :: "seed_plugin list \<Rightarrow> seed_plugin list" where
  "seed_default_plugins = fold seed_plugin_row [(''metrics'', ''1.0.0''), (''systemd'', ''1.0.0''), (''docker'', ''1.0.0'')]"

section \<open>The migrated database\<close>

definition has_table :: "schema \<Rightarrow> string \<Rightarrow> bool" where
  "has_table s t \<longleftrightarrow> map_of (sc_tables s) t \<noteq> None"

definition has_columns :: "schema \<Rightarrow> string \<Rightarrow> (string \<times> json) list \<Rightarrow> bool" where
  "has_columns s t specs \<longleftrightarrow> (\<exists>tb. map_of (sc_tables s) t = Some tb \<and> fst ` set specs \<subseteq> set (tb_columns tb))"

definition ADDED :: "(string \<times> (string \<times> json) list) list" where
  "ADDED = [(''nodes'', NODE_ADDED), (''metrics_snapshots'', METRIC_ADDED), (''action_proposals'', PROPOSAL_ADDED),
     (''chat_sessions'', CHAT_ADDED), (''plugins'', PLUGIN_ADDED_008), (''plugins'', PLUGIN_ADDED_009)]"

definition base_ok :: "schema \<Rightarrow> bool" where
  "base_ok s \<longleftrightarrow> (\<forall>t \<in> fst ` set ALL_TABLES. has_table s t) \<and> (\<forall>t \<in> set ORPHANS. \<not> has_table s t)"

definition indexes_ok :: "schema \<Rightarrow> bool" where
  "indexes_ok s \<longleftrightarrow> (\<forall>(i, t, cols) \<in> set CREATE_INDEXES. i \<in> fst ` set (sc_indexes s))"

definition migrated :: "schema \<Rightarrow> bool" where
  "migrated s \<longleftrightarrow> base_ok s \<and> (\<forall>(t, specs) \<in> set ADDED. has_columns s t specs) \<and> \<not> has_table s ''plugin_configs'' \<and> indexes_ok s \<and>
     (\<forall>tb. map_of (sc_tables s) ''join_tokens'' = Some tb \<longrightarrow> \<not> tb_legacy_fk tb) \<and>
     (\<forall>tb. map_of (sc_tables s) ''investigations'' = Some tb \<longrightarrow> tb_new_statuses tb) \<and> sc_version s = [''010'']"

definition keeps :: "schema \<Rightarrow> schema \<Rightarrow> bool" where
  \<comment> \<open>what every step after the first two does: no table appears or disappears but \<open>plugin_configs\<close>, no column is lost but
     in the two tables that are rebuilt\<close>
  "keeps s s' \<longleftrightarrow> (\<forall>t. t \<noteq> ''plugin_configs'' \<longrightarrow> (has_table s t \<longleftrightarrow> has_table s' t)) \<and>
     (has_table s' ''plugin_configs'' \<longrightarrow> has_table s ''plugin_configs'') \<and>
     (\<forall>t specs. t \<notin> {''plugin_configs'', ''join_tokens'', ''investigations''} \<longrightarrow> has_columns s t specs \<longrightarrow> has_columns s' t specs)"

lemma keeps_refl [simp]: "keeps s s"
  by (simp add: keeps_def)

lemma update_same: "map_of d k = Some v \<Longrightarrow> AList.update k v d = d"
  by (induction d) auto

lemma delete_absent: "map_of d k = None \<Longrightarrow> AList.delete k d = d"
  by (induction d) (auto simp: AList.delete_eq split: if_splits)

lemma fold_id: "(\<And>x. x \<in> set xs \<Longrightarrow> f x s = s) \<Longrightarrow> fold f xs s = s"
  by (induction xs) auto

lemma add_column_fields [simp]:
  "set (tb_columns (add_column x tb)) = insert (fst x) (set (tb_columns tb))"
  "tb_legacy_fk (add_column x tb) = tb_legacy_fk tb" "tb_new_statuses (add_column x tb) = tb_new_statuses tb"
  by (cases x; auto simp: add_column_def)+

lemma add_columns_list:
  "set (tb_columns (fold add_column specs tb)) = set (tb_columns tb) \<union> fst ` set specs \<and>
   tb_legacy_fk (fold add_column specs tb) = tb_legacy_fk tb \<and> tb_new_statuses (fold add_column specs tb) = tb_new_statuses tb"
  by (induction specs arbitrary: tb) auto

lemma add_columns_present: "fst ` set specs \<subseteq> set (tb_columns tb) \<Longrightarrow> fold add_column specs tb = tb"
  by (rule fold_id) (auto simp: add_column_def)

lemma add_columns_step:
  assumes "add_columns t specs s = Inr s'"
  shows "keeps s s'" and "has_columns s' t specs" and "sc_indexes s' = sc_indexes s"
    and "u \<noteq> t \<Longrightarrow> map_of (sc_tables s') u = map_of (sc_tables s) u"
proof -
  obtain tb where tb: "map_of (sc_tables s) t = Some tb" and s': "s' = s\<lparr>sc_tables := AList.update t (fold add_column specs tb) (sc_tables s)\<rparr>"
    using assms by (auto simp: add_columns_def split: option.splits)
  have m: "map_of (sc_tables s') v = (if v = t then Some (fold add_column specs tb) else map_of (sc_tables s) v)" for v
    by (simp add: s' py_dict)
  show "has_columns s' t specs" "sc_indexes s' = sc_indexes s" "u \<noteq> t \<Longrightarrow> map_of (sc_tables s') u = map_of (sc_tables s) u"
    using add_columns_list [of specs tb] by (simp_all add: has_columns_def m) (simp add: s')
  have "has_table s' v \<longleftrightarrow> has_table s v" for v using tb by (simp add: has_table_def m)
  moreover have "has_columns s v cs \<Longrightarrow> has_columns s' v cs" for v cs
    using tb add_columns_list [of specs tb] unfolding has_columns_def m by (cases "v = t") auto
  ultimately show "keeps s s'" by (simp add: keeps_def)
qed

lemma add_columns_same: "has_columns s t specs \<Longrightarrow> add_columns t specs s = Inr s"
  by (auto simp: has_columns_def add_columns_def add_columns_present update_same)

lemma create_missing_tables:
  "has_table (fold create_missing ts s) t \<longleftrightarrow> has_table s t \<or> t \<in> fst ` set ts"
proof (induction ts arbitrary: s)
  case (Cons x xs)
  have "has_table (create_missing x s) t \<longleftrightarrow> has_table s t \<or> t = fst x"
    by (cases x) (auto simp: create_missing_def has_table_def py_dict)
  with Cons show ?case by auto
qed simp

lemma create_missing_indexes: "sc_indexes (fold create_missing ts s) = sc_indexes s"
  by (induction ts arbitrary: s) (auto simp: create_missing_def split: prod.splits)

lemma drop_table_map: "map_of (sc_tables (drop_table t s)) u = (if u = t then None else map_of (sc_tables s) u)"
  by (auto simp: drop_table_def py_dict)

lemma drop_table_indexes: "set (sc_indexes (drop_table t s)) \<subseteq> set (sc_indexes s)"
  by (auto simp: drop_table_def)

lemma drop_tables_indexes: "set (sc_indexes (fold drop_table ts s)) \<subseteq> set (sc_indexes s)"
proof (induction ts arbitrary: s)
  case (Cons t ts)
  have "set (sc_indexes (fold drop_table ts (drop_table t s))) \<subseteq> set (sc_indexes (drop_table t s))" by (rule Cons.IH)
  also have "\<dots> \<subseteq> set (sc_indexes s)" by (rule drop_table_indexes)
  finally show ?case by simp
qed simp

lemma drop_tables_tables: "has_table (fold drop_table ts s) t \<longleftrightarrow> has_table s t \<and> t \<notin> set ts"
proof (induction ts arbitrary: s)
  case (Cons x xs)
  have "has_table (drop_table x s) t \<longleftrightarrow> has_table s t \<and> t \<noteq> x" by (simp add: has_table_def drop_table_map)
  with Cons show ?case by auto
qed simp

lemma orphans_undeclared: "fst ` set ALL_TABLES \<inter> set ORPHANS = {}"
  by (simp add: ALL_TABLES_def ORPHANS_def)

lemma first_steps: "create_all s = Inr s1 \<Longrightarrow> drop_orphans s1 = Inr s2 \<Longrightarrow> base_ok s2"
proof -
  assume "create_all s = Inr s1" "drop_orphans s1 = Inr s2"
  then have "s2 = fold drop_table ORPHANS (fold create_missing ALL_TABLES s)" by (simp add: create_all_def drop_orphans_def)
  then have "has_table s2 t \<longleftrightarrow> (has_table s t \<or> t \<in> fst ` set ALL_TABLES) \<and> t \<notin> set ORPHANS" for t
    by (simp only: create_missing_tables drop_tables_tables)
  then show ?thesis unfolding base_ok_def using orphans_undeclared by blast
qed

lemma base_ok_keeps: "base_ok s \<Longrightarrow> keeps s s' \<Longrightarrow> base_ok s'"
proof -
  have "''plugin_configs'' \<notin> fst ` set ALL_TABLES" "''plugin_configs'' \<notin> set ORPHANS" by (simp_all add: ALL_TABLES_def ORPHANS_def)
  then show "base_ok s \<Longrightarrow> keeps s s' \<Longrightarrow> base_ok s'" unfolding base_ok_def keeps_def by metis
qed

lemma has_table_update [simp]: "has_table (s\<lparr>sc_tables := AList.update t tb (sc_tables s)\<rparr>) u \<longleftrightarrow> u = t \<or> has_table s u"
  by (simp add: has_table_def py_dict)

lemma migrate_plugin_configs_step:
  assumes "migrate_plugin_configs s = Inr s'"
  shows "keeps s s'" and "\<not> has_table s' ''plugin_configs''" and "set (sc_indexes s') \<subseteq> set (sc_indexes s)"
proof -
  consider (none) "map_of (sc_tables s) ''plugin_configs'' = None" "s' = s"
    | (some) rs tb where "map_of (sc_tables s) ''plugins'' = Some tb"
        "s' = drop_table ''plugin_configs'' (s\<lparr>sc_tables := AList.update ''plugins'' (tb\<lparr>tb_rows := copy_plugins (tb_columns tb) rs (tb_rows tb)\<rparr>) (sc_tables s)\<rparr>)"
        "has_table s ''plugin_configs''"
  proof (cases "map_of (sc_tables s) ''plugin_configs''")
    case None
    with assms have "s' = s" by (simp add: migrate_plugin_configs_def)
    with None show ?thesis by (rule that(1))
  next
    case (Some old)
    then obtain tb where "map_of (sc_tables s) ''plugins'' = Some tb"
      using assms by (auto simp: migrate_plugin_configs_def split: option.splits)
    with Some assms show ?thesis by (intro that(2) [of tb "tb_rows old"]) (simp_all add: migrate_plugin_configs_def has_table_def)
  qed
  note c = this
  show "keeps s s'"
    using c
  proof cases
    case (some rs tb)
    have "map_of (sc_tables s') t = (if t = ''plugin_configs'' then None else if t = ''plugins''
        then Some (tb\<lparr>tb_rows := copy_plugins (tb_columns tb) rs (tb_rows tb)\<rparr>) else map_of (sc_tables s) t)" for t
      by (simp add: some(2) drop_table_map py_dict)
    with some(1,3) show ?thesis by (auto simp: keeps_def has_table_def has_columns_def)
  qed simp
  show "\<not> has_table s' ''plugin_configs''" using c by cases (simp_all add: has_table_def drop_table_map)
  show "set (sc_indexes s') \<subseteq> set (sc_indexes s)" using c
  proof cases
    case (some rs tb)
    show ?thesis unfolding some(2) by (rule order_trans [OF drop_table_indexes]) simp
  qed simp
qed

lemma create_indexes_step:
  "create_indexes is s = Inr s' \<Longrightarrow> sc_tables s' = sc_tables s \<and> set (sc_indexes s) \<subseteq> set (sc_indexes s') \<and>
   (\<forall>(i, t, cols) \<in> set is. i \<in> fst ` set (sc_indexes s'))"
proof (induction "is" s rule: create_indexes.induct)
  case (2 i t cols rest s)
  show ?case
  proof (cases "i \<in> fst ` set (sc_indexes s)")
    case True
    with 2(3) have "create_indexes rest s = Inr s'" by simp
    with 2(1) [OF True] True show ?thesis by auto
  next
    case False
    then obtain tb where tb: "map_of (sc_tables s) t = Some tb" "List.find (\<lambda>c. c \<notin> set (tb_columns tb)) cols = None"
        "create_indexes rest (s\<lparr>sc_indexes := sc_indexes s @ [(i, t)]\<rparr>) = Inr s'"
      using 2(3) by (auto split: option.splits)
    from 2(2) [OF False tb] have "sc_tables s' = sc_tables s" "set (sc_indexes s) \<subseteq> set (sc_indexes s')" "(i, t) \<in> set (sc_indexes s')"
      "\<forall>(i, t, cols) \<in> set rest. i \<in> fst ` set (sc_indexes s')" by auto
    moreover from this(3) have "i \<in> fst ` set (sc_indexes s')" by (rule image_eqI [rotated]) simp
    ultimately show ?thesis by (auto split: prod.splits)
  qed
qed simp

definition well_named :: "schema \<Rightarrow> bool" where
  \<comment> \<open>an index with a declared name is on its declared table\<close>
  "well_named s \<longleftrightarrow> (\<forall>(i, u) \<in> set (sc_indexes s). \<forall>(j, v, cs) \<in> set CREATE_INDEXES. i = j \<longrightarrow> u = v)"

lemma rebuild_step:
  assumes r: "rebuild violates t cols idxs tb s = Inr s'" and t: "t \<in> {''join_tokens'', ''investigations''}" and h: "has_table s t"
    and i: "\<forall>(i, u, cs) \<in> set CREATE_INDEXES. u = t \<longrightarrow> i \<in> set idxs" and n: "well_named s"
  shows "keeps s s'" and "indexes_ok s \<Longrightarrow> indexes_ok s'" and "\<exists>tb'. map_of (sc_tables s') t = Some tb' \<and> \<not> tb_legacy_fk tb' \<and> tb_new_statuses tb'"
    and "u \<noteq> t \<Longrightarrow> map_of (sc_tables s') u = map_of (sc_tables s) u"
proof -
  obtain tb' where s': "s' = s\<lparr>sc_tables := AList.update t tb' (sc_tables s),
      sc_indexes := filter (\<lambda>(i, u). u \<noteq> t) (sc_indexes s) @ map (\<lambda>i. (i, t)) idxs\<rparr>" and tb': "\<not> tb_legacy_fk tb'" "tb_new_statuses tb'"
    using r by (auto simp: rebuild_def Let_def fresh_table_def split: option.splits if_splits)
  have m: "map_of (sc_tables s') u = (if u = t then Some tb' else map_of (sc_tables s) u)" for u by (simp add: s' py_dict)
  show "keeps s s'" using t h by (auto simp: keeps_def has_table_def has_columns_def m)
  show "\<exists>tb'. map_of (sc_tables s') t = Some tb' \<and> \<not> tb_legacy_fk tb' \<and> tb_new_statuses tb'" using tb' by (simp add: m)
  show "u \<noteq> t \<Longrightarrow> map_of (sc_tables s') u = map_of (sc_tables s) u" by (simp add: m)
  show "indexes_ok s'" if ok: "indexes_ok s"
    unfolding indexes_ok_def
  proof clarify
    fix j v cs assume j: "(j, v, cs) \<in> set CREATE_INDEXES"
    then obtain u where u: "(j, u) \<in> set (sc_indexes s)" using ok by (force simp: indexes_ok_def)
    with n j have "u = v" by (auto simp: well_named_def)
    show "j \<in> fst ` set (sc_indexes s')"
    proof (cases "v = t")
      case True
      with i j have "j \<in> set idxs" by auto
      then show ?thesis by (force simp: s')
    next
      case False
      with u \<open>u = v\<close> show ?thesis by (force simp: s')
    qed
  qed
qed

lemma index_tables_eval:
  "list_all (\<lambda>(i, u, cs). (u = ''join_tokens'' \<longleftrightarrow> i \<in> set JOIN_TOKENS_INDEXES) \<and> (u = ''investigations'' \<longleftrightarrow> i \<in> set INVESTIGATIONS_INDEXES)) CREATE_INDEXES"
  by code_simp

lemma index_tables:
  "\<forall>(i, u, cs) \<in> set CREATE_INDEXES. u = ''join_tokens'' \<longrightarrow> i \<in> set JOIN_TOKENS_INDEXES"
  "\<forall>(i, u, cs) \<in> set CREATE_INDEXES. u = ''investigations'' \<longrightarrow> i \<in> set INVESTIGATIONS_INDEXES"
  "\<forall>(i, u, cs) \<in> set CREATE_INDEXES. i \<in> set JOIN_TOKENS_INDEXES \<longrightarrow> u = ''join_tokens''"
  using index_tables_eval unfolding list_all_iff by fast+

lemma index_names_unique: "(i, u, cs) \<in> set CREATE_INDEXES \<Longrightarrow> (i, v, ds) \<in> set CREATE_INDEXES \<Longrightarrow> u = v"
proof -
  have "distinct (map fst CREATE_INDEXES)" by code_simp
  then show "(i, u, cs) \<in> set CREATE_INDEXES \<Longrightarrow> (i, v, ds) \<in> set CREATE_INDEXES \<Longrightarrow> u = v"
    by (metis (no_types, lifting) eq_key_imp_eq_value prod.inject)
qed

lemma rebuild_join_tokens_step:
  assumes "rebuild_join_tokens violates s = Inr s'" and "well_named s" and "indexes_ok s"
  shows "keeps s s'" and "indexes_ok s'" and "map_of (sc_tables s') ''join_tokens'' = Some tb \<Longrightarrow> \<not> tb_legacy_fk tb"
proof -
  consider (same) "s' = s" "\<forall>tb. map_of (sc_tables s) ''join_tokens'' = Some tb \<longrightarrow> \<not> tb_legacy_fk tb"
    | (new) tb where "has_table s ''join_tokens''" "rebuild violates ''join_tokens'' JOIN_TOKENS_COLUMNS JOIN_TOKENS_INDEXES tb s = Inr s'"
  proof (cases "map_of (sc_tables s) ''join_tokens''")
    case None
    with assms(1) that(1) show ?thesis by (simp add: rebuild_join_tokens_def)
  next
    case (Some tb)
    with assms(1) that show ?thesis by (cases "tb_legacy_fk tb") (simp_all add: rebuild_join_tokens_def has_table_def)
  qed
  note c = this
  note new = rebuild_step [OF _ _ _ index_tables(1) assms(2)]
  from c show "keeps s s'" by cases (auto intro: new(1))
  from c show "indexes_ok s'" by cases (auto intro: new(2) assms(3))
  from c show "map_of (sc_tables s') ''join_tokens'' = Some tb \<Longrightarrow> \<not> tb_legacy_fk tb"
    by cases (auto dest!: new(3))
qed

lemma well_named_rebuild:
  assumes "rebuild_join_tokens violates s = Inr s'" and "well_named s"
  shows "well_named s'"
proof (cases "s' = s")
  case False
  have "sc_indexes s' = filter (\<lambda>(i, u). u \<noteq> ''join_tokens'') (sc_indexes s) @ map (\<lambda>i. (i, ''join_tokens'')) JOIN_TOKENS_INDEXES"
    using assms(1) False by (auto simp: rebuild_join_tokens_def rebuild_def Let_def split: option.splits if_splits)
  then have "set (sc_indexes s') \<subseteq> set (sc_indexes s) \<union> (\<lambda>i. (i, ''join_tokens'')) ` set JOIN_TOKENS_INDEXES" by auto
  then show ?thesis using assms(2) index_tables(3) unfolding well_named_def by fast
qed (use assms in simp)

lemma rebuild_investigations_step:
  assumes "rebuild_investigations violates s = Inr s'" and "well_named s" and "indexes_ok s"
  shows "keeps s s'" and "indexes_ok s'" and "map_of (sc_tables s') ''investigations'' = Some tb \<Longrightarrow> tb_new_statuses tb"
    and "map_of (sc_tables s') ''join_tokens'' = map_of (sc_tables s) ''join_tokens''"
proof -
  consider (same) "s' = s" "\<forall>tb. map_of (sc_tables s) ''investigations'' = Some tb \<longrightarrow> tb_new_statuses tb"
    | (new) tb where "has_table s ''investigations''" "rebuild violates ''investigations'' INVESTIGATIONS_COLUMNS INVESTIGATIONS_INDEXES tb s = Inr s'"
  proof (cases "map_of (sc_tables s) ''investigations''")
    case None
    with assms(1) that(1) show ?thesis by (simp add: rebuild_investigations_def)
  next
    case (Some tb)
    with assms(1) that show ?thesis by (cases "tb_new_statuses tb") (simp_all add: rebuild_investigations_def has_table_def)
  qed
  note c = this
  note new = rebuild_step [OF _ _ _ index_tables(2) assms(2)]
  from c show "keeps s s'" by cases (auto intro: new(1))
  from c show "indexes_ok s'" by cases (auto intro: new(2) assms(3))
  from c show "map_of (sc_tables s') ''investigations'' = Some tb \<Longrightarrow> tb_new_statuses tb"
    by cases (auto dest!: new(3))
  from c show "map_of (sc_tables s') ''join_tokens'' = map_of (sc_tables s) ''join_tokens''"
    by cases (auto intro: new(4))
qed

lemma run_steps_Inr: "run_steps (f # fs) s = Inr s' \<longleftrightarrow> (\<exists>s1. f s = Inr s1 \<and> run_steps fs s1 = Inr s')"
  by (auto split: sum.splits)

lemma keeps_columns: "keeps s s' \<Longrightarrow> has_columns s t specs \<Longrightarrow> t \<notin> {''plugin_configs'', ''join_tokens'', ''investigations''} \<Longrightarrow> has_columns s' t specs"
  by (simp add: keeps_def)

lemma keeps_trans:
  assumes "keeps s t" "keeps t u"
  shows "keeps s u"
  unfolding keeps_def
proof (intro conjI allI impI)
  show "has_table s v \<longleftrightarrow> has_table u v" if "v \<noteq> ''plugin_configs''" for v using assms that unfolding keeps_def by metis
  show "has_table s ''plugin_configs''" if "has_table u ''plugin_configs''" using assms that unfolding keeps_def by metis
  show "has_columns u v cs" if "v \<notin> {''plugin_configs'', ''join_tokens'', ''investigations''}" "has_columns s v cs" for v cs
    by (rule keeps_columns [OF assms(2) keeps_columns [OF assms(1) that(2,1)] that(1)])
qed

lemma well_named_mono: "well_named s \<Longrightarrow> set (sc_indexes s') \<subseteq> set (sc_indexes s) \<Longrightarrow> well_named s'"
  unfolding well_named_def by blast

lemma well_named_create:
  "create_indexes is s = Inr s' \<Longrightarrow> set is \<subseteq> set CREATE_INDEXES \<Longrightarrow> well_named s \<Longrightarrow> well_named s'"
proof (induction "is" s rule: create_indexes.induct)
  case (2 i t cols rest s)
  show ?case
  proof (cases "i \<in> fst ` set (sc_indexes s)")
    case True
    with 2 show ?thesis by simp
  next
    case False
    then obtain tb where tb: "map_of (sc_tables s) t = Some tb" "List.find (\<lambda>c. c \<notin> set (tb_columns tb)) cols = None"
        "create_indexes rest (s\<lparr>sc_indexes := sc_indexes s @ [(i, t)]\<rparr>) = Inr s'"
      using 2(3) by (auto split: option.splits)
    have "(i, t, cols) \<in> set CREATE_INDEXES" using 2(4) by simp
    then have "well_named (s\<lparr>sc_indexes := sc_indexes s @ [(i, t)]\<rparr>)"
      using 2(5) index_names_unique unfolding well_named_def by auto
    with 2(2) [OF False tb] 2(4) show ?thesis by simp
  qed
qed simp

lemma migration_reaches:
  assumes "run_migrations violates s = Inr s'" and "well_named s"
  shows "migrated s'"
proof -
  obtain s1 s2 s3 s4 s5 s6 s7 s8 s9 s10 s11 s12 where
    r: "create_all s = Inr s1" "drop_orphans s1 = Inr s2" "add_columns ''nodes'' NODE_ADDED s2 = Inr s3"
      "add_columns ''metrics_snapshots'' METRIC_ADDED s3 = Inr s4" "add_columns ''action_proposals'' PROPOSAL_ADDED s4 = Inr s5"
      "add_columns ''chat_sessions'' CHAT_ADDED s5 = Inr s6" "migrate_plugin_configs s6 = Inr s7"
      "add_columns ''plugins'' PLUGIN_ADDED_008 s7 = Inr s8" "add_columns ''plugins'' PLUGIN_ADDED_009 s8 = Inr s9"
      "create_indexes CREATE_INDEXES s9 = Inr s10" "rebuild_join_tokens violates s10 = Inr s11"
      "rebuild_investigations violates s11 = Inr s12" "stamp_version s12 = Inr s'"
    using assms(1) unfolding run_migrations_def run_steps_Inr by auto
  have si: "set (sc_indexes s2) \<subseteq> set (sc_indexes s)"
    using r(1,2) drop_tables_indexes [of ORPHANS s1] create_missing_indexes [of ALL_TABLES s] by (simp add: create_all_def drop_orphans_def)
  note a3 = add_columns_step [OF r(3)] and a4 = add_columns_step [OF r(4)] and a5 = add_columns_step [OF r(5)]
    and a6 = add_columns_step [OF r(6)] and a7 = migrate_plugin_configs_step [OF r(7)]
    and a8 = add_columns_step [OF r(8)] and a9 = add_columns_step [OF r(9)]
  note a10 = create_indexes_step [OF r(10)]
  have k10: "keeps s9 s10" and i10: "indexes_ok s10" using a10 by (simp_all add: keeps_def has_table_def has_columns_def indexes_ok_def)
  have "set (sc_indexes s9) \<subseteq> set (sc_indexes s)" using si a3(3) a4(3) a5(3) a6(3) a7(3) a8(3) a9(3) by auto
  then have w10: "well_named s10" by (intro well_named_create [OF r(10)] well_named_mono [OF assms(2)]) simp_all
  note a11 = rebuild_join_tokens_step [OF r(11) w10 i10] and w11 = well_named_rebuild [OF r(11) w10]
  note a12 = rebuild_investigations_step [OF r(12) w11 a11(2)]
  have s': "s' = s12\<lparr>sc_version := [''010'']\<rparr>" using r(13) by (simp add: stamp_version_def)
  have k13: "keeps s12 s'" by (simp add: s' keeps_def has_table_def has_columns_def)
  note k12 = keeps_trans [OF a12(1) k13] note k11 = keeps_trans [OF a11(1) k12] note k9 = keeps_trans [OF k10 k11]
  note k8 = keeps_trans [OF a9(1) k9] note k7 = keeps_trans [OF a8(1) k8] note k6 = keeps_trans [OF a7(1) k7]
  note k5 = keeps_trans [OF a6(1) k6] note k4 = keeps_trans [OF a5(1) k5] note k3 = keeps_trans [OF a4(1) k4]
  have "base_ok s'" by (rule base_ok_keeps [OF first_steps [OF r(1,2)] keeps_trans [OF a3(1) k3]])
  moreover have "has_columns s' ''nodes'' NODE_ADDED" by (rule keeps_columns [OF k3 a3(2)]) simp
  moreover have "has_columns s' ''metrics_snapshots'' METRIC_ADDED" by (rule keeps_columns [OF k4 a4(2)]) simp
  moreover have "has_columns s' ''action_proposals'' PROPOSAL_ADDED" by (rule keeps_columns [OF k5 a5(2)]) simp
  moreover have "has_columns s' ''chat_sessions'' CHAT_ADDED" by (rule keeps_columns [OF k6 a6(2)]) simp
  moreover have "has_columns s' ''plugins'' PLUGIN_ADDED_008" by (rule keeps_columns [OF k8 a8(2)]) simp
  moreover have "has_columns s' ''plugins'' PLUGIN_ADDED_009" by (rule keeps_columns [OF k9 a9(2)]) simp
  moreover have "\<not> has_table s' ''plugin_configs''" using a7(2) k7 unfolding keeps_def by metis
  moreover have "indexes_ok s'" using a12(2) by (simp add: s' indexes_ok_def)
  moreover have "\<forall>tb. map_of (sc_tables s') ''join_tokens'' = Some tb \<longrightarrow> \<not> tb_legacy_fk tb" using a11(3) a12(4) by (simp add: s')
  moreover have "\<forall>tb. map_of (sc_tables s') ''investigations'' = Some tb \<longrightarrow> tb_new_statuses tb" using a12(3) by (simp add: s')
  ultimately show ?thesis by (simp add: migrated_def ADDED_def s')
qed

lemma version_kept [simp]:
  "has_table (s\<lparr>sc_version := v\<rparr>) t = has_table s t" "has_columns (s\<lparr>sc_version := v\<rparr>) t specs = has_columns s t specs"
  "indexes_ok (s\<lparr>sc_version := v\<rparr>) = indexes_ok s"
  by (simp_all add: has_table_def has_columns_def indexes_ok_def)

lemma migrated_fixpoint:
  assumes "migrated (s\<lparr>sc_version := [''010'']\<rparr>)"
  shows "run_migrations violates s = Inr (s\<lparr>sc_version := [''010'']\<rparr>)"
proof -
  have t: "has_table s t" if "t \<in> fst ` set ALL_TABLES" for t using assms that unfolding migrated_def base_ok_def version_kept by blast
  have "fold create_missing ALL_TABLES s = s" using t by (intro fold_id) (force simp: create_missing_def has_table_def)
  moreover have "fold drop_table ORPHANS s = s"
    using assms by (intro fold_id) (auto simp: drop_table_def migrated_def base_ok_def has_table_def)
  moreover have "create_indexes is s = Inr s" if "set is \<subseteq> set CREATE_INDEXES" for "is"
    using that
  proof (induction "is")
    case (Cons x xs)
    obtain i t cs where x: "x = (i, t, cs)" by (cases x)
    with Cons.prems assms have "i \<in> fst ` set (sc_indexes s)" by (auto simp: migrated_def indexes_ok_def)
    with Cons show ?case by (simp add: x)
  qed simp
  moreover have "rebuild_join_tokens violates s = Inr s" "rebuild_investigations violates s = Inr s"
    using assms by (auto simp: rebuild_join_tokens_def rebuild_investigations_def migrated_def split: option.splits)
  moreover have "migrate_plugin_configs s = Inr s"
    using assms by (auto simp: migrate_plugin_configs_def migrated_def has_table_def)
  moreover have "add_columns t specs s = Inr s" if "(t, specs) \<in> set ADDED" for t specs
    using assms that by (intro add_columns_same) (auto simp: migrated_def)
  ultimately show ?thesis by (simp add: run_migrations_def create_all_def drop_orphans_def ADDED_def stamp_version_def)
qed

text \<open>
  C34. The migration completes the schema and is idempotent: from any database whose indexes
  with declared names are on their declared tables, a run that succeeds leaves every
  declared table, every added column and every declared index in place, no orphan or
  legacy table, and the version stamp; and a second run changes nothing, whatever the
  foreign key check would say.
\<close>
theorem migration_idempotent:
  assumes "run_migrations violates s = Inr s'" and "well_named s"
  shows "migrated s' \<and> run_migrations violates' s' = Inr s'"
  proof -
  have m: "migrated s'" by (rule migration_reaches [OF assms])
  then have "s'\<lparr>sc_version := [''010'']\<rparr> = s'" by (simp add: migrated_def)
  with m migrated_fixpoint [of s' violates'] show ?thesis by simp
qed

definition declared_schema :: "string \<Rightarrow> schema" where
  \<comment> \<open>every declared table and index, stamped with a version\<close>
  "declared_schema v =
     \<lparr>sc_tables = map (\<lambda>(t, cols). (t, fresh_table cols)) ALL_TABLES, sc_indexes = map (\<lambda>(i, t, cs). (i, t)) CREATE_INDEXES, sc_version = [v]\<rparr>"

lemma declared_tables: "map_of (sc_tables (declared_schema v)) t = map_option fresh_table (map_of ALL_TABLES t)"
  by (simp add: declared_schema_def map_of_map)

lemma declared_columns:
  "list_all (\<lambda>(t, specs). case map_of ALL_TABLES t of None \<Rightarrow> False | Some cols \<Rightarrow> list_all (\<lambda>x. fst x \<in> set cols) specs) ADDED"
  by code_simp

lemma declared_migrated: "migrated ((declared_schema v)\<lparr>sc_version := [''010'']\<rparr>)"
proof -
  let ?s = "(declared_schema v)\<lparr>sc_version := [''010'']\<rparr>"
  have h: "has_table ?s t \<longleftrightarrow> t \<in> fst ` set ALL_TABLES" for t
    using declared_tables [of v t] by (simp add: has_table_def map_of_eq_None_iff)
  have "has_columns ?s t specs" if "(t, specs) \<in> set ADDED" for t specs
    using declared_columns that declared_tables [of v t]
    by (fastforce simp: has_columns_def list_all_iff fresh_table_def split: option.splits)
  moreover have "base_ok ?s" unfolding base_ok_def h using orphans_undeclared by blast
  moreover have "\<not> has_table ?s ''plugin_configs''" unfolding h by (simp add: ALL_TABLES_def)
  moreover have "indexes_ok ?s" by (force simp: indexes_ok_def declared_schema_def)
  moreover have "\<not> tb_legacy_fk tb \<and> tb_new_statuses tb" if "map_of (sc_tables ?s) t = Some tb" for t tb
    using that declared_tables [of v t] by (auto simp: fresh_table_def)
  ultimately show ?thesis unfolding migrated_def by auto
qed

lemma migration_idempotent_witness:
  "run_migrations (\<lambda>_. False) (declared_schema ''009'') = Inr ((declared_schema ''009'')\<lparr>sc_version := [''010'']\<rparr>) \<and>
   run_migrations (\<lambda>_. True) ((declared_schema ''009'')\<lparr>sc_version := [''010'']\<rparr>) = Inr ((declared_schema ''009'')\<lparr>sc_version := [''010'']\<rparr>)"
proof -
  have "well_named (declared_schema ''009'')"
    using index_names_unique unfolding well_named_def declared_schema_def by fastforce
  from migration_idempotent [OF migrated_fixpoint [OF declared_migrated] this, where violates' = "\<lambda>_. True"]
  show ?thesis using migrated_fixpoint [OF declared_migrated] by blast
qed

section \<open>The seeds\<close>

definition operator_view :: "seed_plugin \<Rightarrow> string \<times> bool \<times> string \<times> string" where
  "operator_view p = (sp_id p, sp_enabled p, sp_status p, sp_config p)"

lemma seed_plugin_row_view: "\<exists>new. map operator_view (seed_plugin_row x ps) = map operator_view ps @ new"
proof -
  obtain i v where x: "x = (i, v)" by (cases x)
  have "map operator_view (sql_update (\<lambda>p. sp_id p = i) (\<lambda>p. if sp_version p = [] then p\<lparr>sp_version := v\<rparr> else p) ps) = map operator_view ps"
    by (auto simp: sql_update_def operator_view_def)
  then show ?thesis by (auto simp: x seed_plugin_row_def)
qed

lemma seeds_keep_plugins: "\<exists>new. map operator_view (seed_default_plugins ps) = map operator_view ps @ new"
proof -
  have "\<exists>new. map operator_view (fold seed_plugin_row xs ps) = map operator_view ps @ new" for xs
  proof (induction xs arbitrary: ps)
    case (Cons x xs)
    from Cons [of "seed_plugin_row x ps"] seed_plugin_row_view [of x ps] show ?case by (metis append.assoc fold_simps(2))
  qed simp
  then show ?thesis unfolding seed_default_plugins_def .
qed

text \<open>
  The seeds anchor the audit chain and never touch what is there: a successful seeding of
  the administrator leaves a log whose chain verifies when the one before did; it creates
  nobody when there is a user, or in production without a bootstrap password; and what it
  creates on an empty database is one account with the role \<open>admin\<close>.
\<close>
theorem seeding_anchors_chain:
  assumes "seed_default_admin H pw_hash st now uid eid (users, tbl) = Inr (users', tbl')" and "chain_ok H tbl"
  shows "chain_ok H tbl' \<and>
     (if users \<noteq> [] \<or> (ss_production st \<and> ss_bootstrap st \<in> {None, Some []}) then users' = users \<and> tbl' = tbl
      else tbl' = tbl @ [genesis_entry H now eid uid] \<and> map su_role users' = [''admin''] \<and> map su_id users' = [uid])"
proof (cases "users \<noteq> [] \<or> seed_password st = None")
  case True
  moreover have "seed_password st = None \<longleftrightarrow> ss_production st \<and> ss_bootstrap st \<in> {None, Some []}"
    by (auto simp: seed_password_def split: option.splits)
  ultimately show ?thesis using assms by (auto simp: seed_default_admin_def split: option.splits)
next
  case False
  then obtain p where p: "users = []" "seed_password st = Some p" by auto
  then have np: "\<not> (ss_production st \<and> ss_bootstrap st \<in> {None, Some []})" by (auto simp: seed_password_def split: if_splits option.splits)
  let ?g = "genesis_entry H now eid uid"
  have g: "ae_sequence ?g = 1" by (simp add: genesis_entry_def Let_def)
  have u: "map su_role users' = [''admin'']" "map su_id users' = [uid]" and l: "tbl' = tbl @ [?g]" "1 \<notin> set (map ae_sequence tbl)"
    using assms(1) p g by (auto simp: seed_default_admin_def insert_entry_def split: if_splits)
  have "tbl = []" using l(2) assms(2) by (cases tbl) (auto simp: chain_ok_def)
  with l(1) have "chain_ok H tbl'" by (simp add: chain_ok_def genesis_entry_def hash_of_def Let_def)
  with u l(1) p(1) np show ?thesis by simp
qed

lemma seeding_anchors_chain_witness:
  "chain_ok rev [genesis_entry rev 5 ''e1'' ''u1'']"
  using seeding_anchors_chain [of rev id "\<lparr>ss_production = False, ss_testing = False, ss_bootstrap = None\<rparr>" 5 "''u1''" "''e1''" "[]" "[]"]
  by (simp add: seed_default_admin_def seed_password_def insert_entry_def chain_ok_def)

end
