(* ===== verification/Json_Spaced.thy ===== *)
theory Json_Spaced
  imports Json
begin

text \<open>
  \<open>json.dumps\<close> with its default separators writes a blank after every comma and colon;
  reading such a text gives the value back as well.
\<close>

lemma spaced_start:
  "json_plain v \<Longrightarrow> json_dumps_spaced v \<noteq> [] \<and> \<not> is_json_ws (hd (json_dumps_spaced v)) \<and> hd (json_dumps_spaced v) \<noteq> CHR '']''"
  using dumps_start [of v True] by (cases v) (auto simp: is_json_ws_def)

lemma skip_ws_spaced [simp]: "json_plain v \<Longrightarrow> skip_ws (json_dumps_spaced v @ r) = json_dumps_spaced v @ r"
  using spaced_start [of v] by simp

lemma blank_is_ws [simp]: "is_json_ws (CHR '' '')"
  by (simp add: is_json_ws_def)

definition reads_spaced :: "json \<Rightarrow> bool" where
  "reads_spaced v \<longleftrightarrow>
     (\<forall>n r. value_end r \<longrightarrow> json_fuel v \<le> n \<longrightarrow> parse_value n (json_dumps_spaced v @ r) = Some (v, r))"

lemma reads_spacedD:
  "reads_spaced v \<Longrightarrow> value_end r \<Longrightarrow> json_fuel v \<le> n \<Longrightarrow> parse_value n (json_dumps_spaced v @ r) = Some (v, r)"
  by (simp add: reads_spaced_def)

lemma join_spaced_start:
  assumes "json_plain v"
  shows "skip_ws (join_with '', '' (map json_dumps_spaced (v # vs)) @ r) = join_with '', '' (map json_dumps_spaced (v # vs)) @ r"
  using skip_ws_spaced [OF assms] by (simp add: join_Cons)

lemma parse_elems_spaced:
  assumes "vs \<noteq> []" and "\<forall>v \<in> set vs. json_plain v \<and> reads_spaced v"
    and "foldr (\<lambda>v n. Suc (max (json_fuel v) n)) vs 0 \<le> n"
  shows "parse_elems n (join_with '', '' (map json_dumps_spaced vs) @ CHR '']'' # r) = Some (vs, r)"
  using assms
proof (induction vs arbitrary: n)
  case (Cons v vs)
  then obtain m where n: "n = Suc m" and fv: "json_fuel v \<le> m"
    and fs: "foldr (\<lambda>v n. Suc (max (json_fuel v) n)) vs 0 \<le> m"
    by (cases n) auto
  have rb: "reads_spaced v" using Cons.prems by simp
  show ?case
  proof (cases vs)
    case Nil
    then show ?thesis using reads_spacedD [OF rb _ fv] n by simp
  next
    case (Cons w ws)
    let ?rest = "join_with '', '' (map json_dumps_spaced vs) @ CHR '']'' # r"
    have "parse_elems m ?rest = Some (vs, r)" using Cons.IH [of m] Cons Cons.prems fs by simp
    moreover have "skip_ws ?rest = ?rest" using join_spaced_start [of w ws] Cons Cons.prems by simp
    ultimately show ?thesis using reads_spacedD [OF rb _ fv] n Cons by (simp add: join_Cons)
  qed
qed simp

definition spaced_member :: "string \<times> json \<Rightarrow> string" where
  "spaced_member = (\<lambda>(k, v). json_str True k @ '': '' @ json_dumps_spaced v)"

lemma spaced_member_start [simp]:
  "skip_ws (join_with '', '' (map spaced_member (p # ps)) @ r) = join_with '', '' (map spaced_member (p # ps)) @ r"
  by (cases p) (simp add: join_Cons spaced_member_def json_str_def)

lemma spaced_member_head:
  assumes "reads_spaced v" and "json_plain v" and "json_fuel v \<le> m" and "value_end r"
  shows "parse_members (Suc m) (spaced_member (k, v) @ r) =
    (case skip_ws r of
       [] \<Rightarrow> None
     | e # es \<Rightarrow>
         if e = CHR ''}'' then Some ([(k, v)], es)
         else if e = CHR '','' then map_option (\<lambda>(ps, q). ((k, v) # ps, q)) (parse_members m (skip_ws es))
         else None)"
  using reads_spacedD [OF assms(1,4,3)] skip_ws_spaced [OF assms(2), of r]
  by (simp add: spaced_member_def json_str_def parse_json_str)

lemma parse_members_spaced:
  assumes "kvs \<noteq> []" and "\<forall>(k, v) \<in> set kvs. json_plain v \<and> reads_spaced v"
    and "foldr (\<lambda>(k, v) n. Suc (max (json_fuel v) n)) kvs 0 \<le> n"
  shows "parse_members n (join_with '', '' (map spaced_member kvs) @ CHR ''}'' # r) = Some (kvs, r)"
  using assms
proof (induction kvs arbitrary: n)
  case (Cons p ps)
  obtain k v where p: "p = (k, v)" by (cases p)
  from Cons.prems p obtain m where n: "n = Suc m" and fv: "json_fuel v \<le> m"
    and fs: "foldr (\<lambda>(k, v) n. Suc (max (json_fuel v) n)) ps 0 \<le> m"
    by (cases n) auto
  have v: "reads_spaced v" "json_plain v" using Cons.prems p by auto
  show ?case
  proof (cases ps)
    case Nil
    then show ?thesis using spaced_member_head [OF v fv] n p by (simp del: parse_members.simps)
  next
    case (Cons q qs)
    let ?rest = "join_with '', '' (map spaced_member ps) @ CHR ''}'' # r"
    have "parse_members m ?rest = Some (ps, r)" using Cons.IH [of m] Cons Cons.prems fs by (simp del: parse_members.simps)
    moreover have "skip_ws ?rest = ?rest" using spaced_member_start [of q qs "CHR ''}'' # r"] Cons by simp
    ultimately show ?thesis
      using spaced_member_head [OF v fv, of "CHR '','' # CHR '' '' # ?rest"] n p Cons
      by (simp del: parse_members.simps spaced_member_start add: join_Cons [of _ "spaced_member (k, v)"])
  qed
qed simp

lemma reads_spaced_leaf: "json_dumps_spaced v = json_dumps True v \<Longrightarrow> json_plain v \<Longrightarrow> reads_spaced v"
  unfolding reads_spaced_def using reads_backD [OF dumps_reads_back [of v True]] by (simp del: parse_value.simps)

lemma spaced_reads_back: "json_plain v \<Longrightarrow> reads_spaced v"
proof (induction v)
  case (JArr vs)
  then have pl: "\<forall>v \<in> set vs. json_plain v \<and> reads_spaced v" by (auto simp: list_all_iff)
  show ?case
    unfolding reads_spaced_def
  proof (intro allI impI)
    fix n r
    assume "value_end r" and "json_fuel (JArr vs) \<le> n"
    then obtain m where n: "n = Suc m" and f: "foldr (\<lambda>v n. Suc (max (json_fuel v) n)) vs 0 \<le> m"
      by (cases n) auto
    show "parse_value n (json_dumps_spaced (JArr vs) @ r) = Some (JArr vs, r)"
    proof (cases vs)
      case Nil
      then show ?thesis using n by simp
    next
      case (Cons w ws)
      with spaced_start [of w] pl have "hd (json_dumps_spaced w) \<noteq> CHR '']''" and "json_dumps_spaced w \<noteq> []" by auto
      then show ?thesis
        using n parse_elems_spaced [OF _ pl f, of r] Cons join_spaced_start [of w ws "CHR '']'' # r"] pl
        by (simp add: join_Cons)
    qed
  qed
next
  case (JObj kvs)
  then have pl: "\<forall>(k, v) \<in> set kvs. json_plain v \<and> reads_spaced v" and dk: "distinct (map fst kvs)"
    by (fastforce simp: list_all_iff)+
  show ?case
    unfolding reads_spaced_def
  proof (intro allI impI)
    fix n r
    assume "value_end r" and "json_fuel (JObj kvs) \<le> n"
    then obtain m where n: "n = Suc m" and f: "foldr (\<lambda>(k, v) n. Suc (max (json_fuel v) n)) kvs 0 \<le> m"
      by (cases n) auto
    have d: "json_dumps_spaced (JObj kvs) = ''{'' @ join_with '', '' (map spaced_member kvs) @ ''}''"
      by (simp add: spaced_member_def)
    show "parse_value n (json_dumps_spaced (JObj kvs) @ r) = Some (JObj kvs, r)"
    proof (cases kvs)
      case Nil
      then show ?thesis using n by simp
    next
      case (Cons w ws)
      have "hd (join_with '', '' (map spaced_member kvs) @ CHR ''}'' # r) = CHR 0x22"
        using Cons by (cases w) (simp add: join_Cons spaced_member_def json_str_def)
      then show ?thesis
        unfolding d
        using n parse_members_spaced [OF _ pl f, of r] Cons spaced_member_start [of w ws "CHR ''}'' # r"]
          dict_of_pairs_distinct [OF dk]
        by simp
    qed
  qed
qed (auto intro!: reads_spaced_leaf simp del: json_dumps.simps)

lemma length_join_spaced: "length (join_with '','' (map f xs)) \<le> length (join_with '', '' (map g xs))"
  if "\<And>x. x \<in> set xs \<Longrightarrow> length (f x) \<le> length (g x)"
  using that by (induction xs) (fastforce simp: join_Cons)+

lemma spaced_longer: "length (json_dumps True v) \<le> length (json_dumps_spaced v)"
proof (induction v)
  case (JObj kvs)
  have "length (json_str True k @ '':'' @ json_dumps True v) \<le> length (json_str True k @ '': '' @ json_dumps_spaced v)"
    if "(k, v) \<in> set kvs" for k v
    using JObj [OF that] by (fastforce simp: )
  then show ?case
    using length_join_spaced [of kvs "\<lambda>(k, v). json_str True k @ '':'' @ json_dumps True v" "\<lambda>(k, v). json_str True k @ '': '' @ json_dumps_spaced v"]
    by auto
qed (auto intro: length_join_spaced)

text \<open>Loading what \<open>json.dumps\<close> wrote gives it back.\<close>

lemma json_loads_spaced: "json_plain v \<Longrightarrow> json_loads (json_dumps_spaced v) = Some v"
proof -
  assume pl: "json_plain v"
  have "json_fuel v \<le> Suc (length (json_dumps_spaced v))"
    using json_fuel_le_length [OF pl, of True] spaced_longer [of v] by simp
  from reads_spacedD [OF spaced_reads_back [OF pl] _ this, of "[]"]
  show ?thesis using skip_ws_spaced [OF pl, of "[]"] by (simp add: json_loads_def skip_ws_def)
qed

end
