(* ===== verification/Chat_Sessions.thy ===== *)
theory Chat_Sessions
  imports Json_Spaced
begin

text \<open>
  The saved conversations of a user (\<open>api/chat_sessions.py\<close>, for callers that are not the
  demo user). The table is the list of its rows; the clock, a fresh identifier and the known
  users and nodes (the foreign keys) are arguments.
\<close>

record chat_row =
  cs_id :: string
  cs_user :: string
  cs_node :: "string option"
  cs_title :: string
  cs_history :: string
  cs_pinned :: int
  cs_created :: time
  cs_updated :: time

datatype session_error = Session_Not_Found | Integrity_Error

record session_view =
  sv_id :: string
  sv_user :: string
  sv_node :: "string option"
  sv_title :: string
  sv_history :: json
  sv_pinned :: bool
  sv_created :: time
  sv_updated :: time

record save_request =
  sr_id :: "string option"
  sr_node :: "string option"
  sr_title :: string
  sr_history :: "json list"
  sr_pinned :: "bool option"

record patch_request =
  pr_title :: "string option"
  pr_pinned :: "bool option"
  pr_node :: "string option"

record chat_env =
  ce_users :: "string \<Rightarrow> bool"
  ce_nodes :: "string \<Rightarrow> bool"

definition read_history :: "string \<Rightarrow> json" where
  "read_history t = (case json_loads t of None \<Rightarrow> JArr [] | Some v \<Rightarrow> v)"

definition view_of :: "chat_row \<Rightarrow> session_view" where
  "view_of r = \<lparr>sv_id = cs_id r, sv_user = cs_user r, sv_node = cs_node r, sv_title = cs_title r, sv_history = read_history (cs_history r),
     sv_pinned = (cs_pinned r \<noteq> 0), sv_created = cs_created r, sv_updated = cs_updated r\<rparr>"

definition own :: "string \<Rightarrow> string \<Rightarrow> chat_row \<Rightarrow> bool" where
  "own sid user r \<longleftrightarrow> cs_id r = sid \<and> cs_user r = user"

definition list_sessions :: "string \<Rightarrow> string option \<Rightarrow> chat_row list \<Rightarrow> session_view list" where
  "list_sessions user node_id rows =
     (let selected = (case node_id of
            None \<Rightarrow> filter (\<lambda>r. cs_user r = user) rows
          | Some n \<Rightarrow> if n = [] \<or> n = ''all'' then filter (\<lambda>r. cs_user r = user) rows
                     else filter (\<lambda>r. cs_user r = user \<and> cs_node r = Some n) rows)
      in map view_of (sort_key (\<lambda>r. - cs_pinned r) (sort_key (\<lambda>r. - cs_updated r) selected)))"

definition get_session :: "string \<Rightarrow> string \<Rightarrow> chat_row list \<Rightarrow> session_error + session_view" where
  "get_session user sid rows = (case sql_fetchone (own sid user) rows of None \<Rightarrow> Inl Session_Not_Found | Some r \<Rightarrow> Inr (view_of r))"

definition not_all :: "string option \<Rightarrow> string option" where
  "not_all n = (if n = Some ''all'' then None else n)"

definition node_ok :: "chat_env \<Rightarrow> string option \<Rightarrow> bool" where
  "node_ok env n = (case n of None \<Rightarrow> True | Some i \<Rightarrow> ce_nodes env i)"

definition session_id :: "string \<Rightarrow> save_request \<Rightarrow> string" where
  "session_id uuid b = (case sr_id b of None \<Rightarrow> uuid | Some i \<Rightarrow> if i = [] then uuid else i)"

definition saved_view :: "string \<Rightarrow> string \<Rightarrow> save_request \<Rightarrow> int \<Rightarrow> time \<Rightarrow> session_view" where
  "saved_view sid user b pinned now = \<lparr>sv_id = sid, sv_user = user, sv_node = not_all (sr_node b), sv_title = sr_title b,
     sv_history = JArr (sr_history b), sv_pinned = (pinned \<noteq> 0), sv_created = now, sv_updated = now\<rparr>"

definition save_session ::
  "chat_env \<Rightarrow> time \<Rightarrow> string \<Rightarrow> string \<Rightarrow> save_request \<Rightarrow> chat_row list \<Rightarrow> (session_error + session_view) \<times> chat_row list" where
  "save_session env now uuid user b rows =
     (let sid = session_id uuid b; node = not_all (sr_node b); text = json_dumps_spaced (JArr (sr_history b));
          asked = (if sr_pinned b = Some True then 1 else 0)
      in case sql_fetchone (own sid user) rows of
           Some old \<Rightarrow>
             (let pinned = (if sr_pinned b = None then cs_pinned old else asked)
              in if node_ok env node then
                   (Inr (saved_view sid user b pinned now),
                    sql_update (own sid user) (\<lambda>r. r\<lparr>cs_node := node, cs_title := sr_title b, cs_history := text, cs_pinned := pinned, cs_updated := now\<rparr>) rows)
                 else (Inl Integrity_Error, rows))
         | None \<Rightarrow>
             if sid \<in> set (map cs_id rows) \<or> \<not> ce_users env user \<or> \<not> node_ok env node then (Inl Integrity_Error, rows)
             else
               (Inr (saved_view sid user b asked now),
                rows @ [\<lparr>cs_id = sid, cs_user = user, cs_node = node, cs_title = sr_title b, cs_history = text, cs_pinned = asked,
                         cs_created = now, cs_updated = now\<rparr>]))"

definition patched :: "patch_request \<Rightarrow> time \<Rightarrow> chat_row \<Rightarrow> chat_row" where
  "patched b now r =
     r\<lparr>cs_title := (case pr_title b of None \<Rightarrow> cs_title r | Some t \<Rightarrow> t),
       cs_pinned := (case pr_pinned b of None \<Rightarrow> cs_pinned r | Some p \<Rightarrow> if p then 1 else 0),
       cs_node := not_all (case pr_node b of None \<Rightarrow> cs_node r | Some n \<Rightarrow> Some n), cs_updated := now\<rparr>"

definition patch_session ::
  "chat_env \<Rightarrow> time \<Rightarrow> string \<Rightarrow> string \<Rightarrow> patch_request \<Rightarrow> chat_row list \<Rightarrow> (session_error + session_view) \<times> chat_row list" where
  "patch_session env now user sid b rows =
     (case sql_fetchone (own sid user) rows of
        None \<Rightarrow> (Inl Session_Not_Found, rows)
      | Some r \<Rightarrow>
          (let new = patched b now r
           in if node_ok env (cs_node new) then
                (Inr (view_of new),
                 sql_update (own sid user) (\<lambda>x. x\<lparr>cs_title := cs_title new, cs_pinned := cs_pinned new, cs_node := cs_node new, cs_updated := now\<rparr>) rows)
              else (Inl Integrity_Error, rows)))"

definition delete_session :: "string \<Rightarrow> string \<Rightarrow> chat_row list \<Rightarrow> (session_error + unit) \<times> chat_row list" where
  "delete_session user sid rows =
     (case sql_fetchone (own sid user) rows of
        None \<Rightarrow> (Inl Session_Not_Found, rows)
      | Some _ \<Rightarrow> (Inr (), filter (\<lambda>r. \<not> own sid user r) rows))"

section \<open>Users do not see each other\<close>

datatype chat_op =
    Op_Save time string save_request
  | Op_Patch time string patch_request
  | Op_Delete string

fun apply_op :: "chat_env \<Rightarrow> string \<times> chat_op \<Rightarrow> chat_row list \<Rightarrow> chat_row list" where
  "apply_op env (user, Op_Save now uuid b) rows = snd (save_session env now uuid user b rows)"
| "apply_op env (user, Op_Patch now sid b) rows = snd (patch_session env now user sid b rows)"
| "apply_op env (user, Op_Delete sid) rows = snd (delete_session user sid rows)"

definition run_ops :: "chat_env \<Rightarrow> (string \<times> chat_op) list \<Rightarrow> chat_row list \<Rightarrow> chat_row list" where
  "run_ops env ops rows = fold (apply_op env) ops rows"

definition rows_of_user :: "string \<Rightarrow> chat_row list \<Rightarrow> chat_row list" where
  "rows_of_user u rows = filter (\<lambda>r. cs_user r = u) rows"

fun own_ids :: "(string \<Rightarrow> string) \<Rightarrow> string \<times> chat_op \<Rightarrow> bool" where
  \<comment> \<open>a conversation is created under an identifier that belongs to its user\<close>
  "own_ids owner (user, Op_Save now uuid b) = (owner (session_id uuid b) = user)"
| "own_ids owner _ = True"

definition owned :: "(string \<Rightarrow> string) \<Rightarrow> chat_row list \<Rightarrow> bool" where
  "owned owner rows \<longleftrightarrow> (\<forall>r \<in> set rows. owner (cs_id r) = cs_user r)"

lemma filter_sql_update:
  "(\<And>r. cs_user (f r) = cs_user r) \<Longrightarrow> rows_of_user u (sql_update (own sid v) f rows) = (if u = v then sql_update (own sid v) f (rows_of_user u rows) else rows_of_user u rows)"
  by (induction rows) (auto simp: rows_of_user_def sql_update_def own_def)

lemma fetch_own: "sql_fetchone (own sid u) (rows_of_user u rows) = sql_fetchone (own sid u) rows"
  by (induction rows) (auto simp: rows_of_user_def sql_fetchone_def own_def)

lemma rows_of_user_idem [simp]: "rows_of_user u (rows_of_user u rows) = rows_of_user u rows"
  by (simp add: rows_of_user_def)

lemma other_user_step: "v \<noteq> u \<Longrightarrow> rows_of_user u (apply_op env (v, op) rows) = rows_of_user u rows"
proof (cases op)
  case (Op_Save now uuid b)
  then show "v \<noteq> u \<Longrightarrow> ?thesis"
    by (auto simp: save_session_def Let_def filter_sql_update rows_of_user_def [of _ "_ @ _"] split: option.split) (simp_all add: rows_of_user_def)
next
  case (Op_Patch now sid b)
  then show "v \<noteq> u \<Longrightarrow> ?thesis" by (simp add: patch_session_def Let_def filter_sql_update split: option.split)
next
  case (Op_Delete sid)
  then show "v \<noteq> u \<Longrightarrow> ?thesis" by (auto simp: delete_session_def rows_of_user_def own_def split: option.split intro!: filter_cong)
qed

lemma owned_id: "owned owner rows \<Longrightarrow> owner sid = u \<Longrightarrow> sid \<in> set (map cs_id rows) \<longleftrightarrow> sid \<in> set (map cs_id (rows_of_user u rows))"
  by (auto simp: owned_def rows_of_user_def)

lemma own_user_step:
  assumes "owned owner rows" and "own_ids owner (u, op)"
  shows "rows_of_user u (apply_op env (u, op) rows) = apply_op env (u, op) (rows_of_user u rows)"
proof (cases op)
  case (Op_Save now uuid b)
  have i: "session_id uuid b \<in> set (map cs_id rows) \<longleftrightarrow> session_id uuid b \<in> set (map cs_id (rows_of_user u rows))"
    using assms Op_Save by (intro owned_id [of owner]) simp_all
  show ?thesis
  proof (cases "sql_fetchone (own (session_id uuid b) u) rows")
    case None
    have "rows_of_user u (rows @ [r]) = rows_of_user u rows @ [r]" if "cs_user r = u" for r using that by (simp add: rows_of_user_def)
    with None i show ?thesis
      unfolding Op_Save apply_op.simps save_session_def Let_def fetch_own None option.case by (simp del: json_dumps_spaced.simps)
  next
    case (Some old)
    show ?thesis
      unfolding Op_Save apply_op.simps save_session_def Let_def fetch_own Some option.case
      by (simp add: filter_sql_update del: json_dumps_spaced.simps)
  qed
next
  case (Op_Patch now sid b)
  then show ?thesis
    by (cases "sql_fetchone (own sid u) rows") (simp_all add: patch_session_def fetch_own Let_def filter_sql_update del: sql_fetchone_None_iff)
next
  case (Op_Delete sid)
  have "rows_of_user u (filter (\<lambda>r. \<not> own sid u r) rows) = filter (\<lambda>r. \<not> own sid u r) (rows_of_user u rows)"
    by (simp add: rows_of_user_def conj_commute)
  then show ?thesis by (simp add: Op_Delete delete_session_def fetch_own split: option.split)
qed

lemma owned_step: "owned owner rows \<Longrightarrow> own_ids owner (v, op) \<Longrightarrow> owned owner (apply_op env (v, op) rows)"
  by (cases op) (auto simp: owned_def save_session_def patch_session_def delete_session_def Let_def sql_update_def split: option.split)

lemma run_ops_own:
  "owned owner rows \<Longrightarrow> list_all (own_ids owner) ops \<Longrightarrow>
   rows_of_user u (run_ops env ops rows) = run_ops env (filter (\<lambda>x. fst x = u) ops) (rows_of_user u rows)"
proof (induction ops arbitrary: rows)
  case (Cons x ops)
  obtain v op where x: "x = (v, op)" by (cases x)
  have o: "owned owner (apply_op env x rows)" using Cons.prems owned_step by (simp add: x)
  have "rows_of_user u (run_ops env (x # ops) rows) = run_ops env (filter (\<lambda>x. fst x = u) ops) (rows_of_user u (apply_op env x rows))"
    using Cons.IH [OF o] Cons.prems by (simp add: run_ops_def)
  also have "\<dots> = run_ops env (filter (\<lambda>x. fst x = u) (x # ops)) (rows_of_user u rows)"
    using Cons.prems own_user_step [of owner rows u op env] other_user_step [of v u env op rows]
    by (cases "v = u") (simp_all add: x run_ops_def)
  finally show ?case .
qed (simp add: run_ops_def)

lemma list_own: "list_sessions u n (rows_of_user u rows) = list_sessions u n rows"
  by (simp add: list_sessions_def rows_of_user_def split: option.split)

text \<open>
  C29. Users do not see each other's conversations: whatever sequence of saves, patches and
  deletions all users perform, what a user lists and reads afterwards is what it would be
  if only the user's own operations on the user's own conversations had happened, provided
  that no one creates a conversation under an identifier of another user.
\<close>
theorem sessions_isolated:
  assumes "owned owner rows" and "list_all (own_ids owner) ops"
  shows "list_sessions u n (run_ops env ops rows) = list_sessions u n (run_ops env (filter (\<lambda>x. fst x = u) ops) (rows_of_user u rows)) \<and>
    get_session u sid (run_ops env ops rows) = get_session u sid (run_ops env (filter (\<lambda>x. fst x = u) ops) (rows_of_user u rows))"
proof -
  note r = run_ops_own [OF assms, of u env, symmetric]
  show ?thesis unfolding r by (simp add: list_own get_session_def fetch_own)
qed

definition demo_save :: "string \<Rightarrow> string \<Rightarrow> save_request" where
  "demo_save i t = \<lparr>sr_id = Some i, sr_node = Some ''all'', sr_title = t, sr_history = [JObj [(''role'', JStr ''user'')]], sr_pinned = None\<rparr>"

definition demo_env :: chat_env where
  "demo_env = \<lparr>ce_users = (\<lambda>_. True), ce_nodes = (\<lambda>_. True)\<rparr>"

theorem sessions_isolated_witness:
  "get_session ''bob'' ''b1'' (run_ops demo_env [(''bob'', Op_Save 1 ''x'' (demo_save ''b1'' ''mine'')), (''eve'', Op_Delete ''b1'')] []) =
   get_session ''bob'' ''b1'' (run_ops demo_env [(''bob'', Op_Save 1 ''x'' (demo_save ''b1'' ''mine''))] [])"
  using sessions_isolated [of "\<lambda>i. if i = ''b1'' then ''bob'' else ''eve''" "[]"
      "[(''bob'', Op_Save 1 ''x'' (demo_save ''b1'' ''mine'')), (''eve'', Op_Delete ''b1'')]" "''bob''" None demo_env "''b1''"]
  by (simp add: owned_def session_id_def demo_save_def rows_of_user_def)

section \<open>Saving and reading\<close>

lemma fetch_snoc: "\<forall>r \<in> set rows. \<not> P r \<Longrightarrow> P x \<Longrightarrow> sql_fetchone P (rows @ [x]) = Some x"
  by (induction rows) auto

text \<open>
  A saved conversation reads back: after a successful save the same user finds it under
  the returned identifier with its title, its history, its node and the pin, provided the
  history is plain JSON.
\<close>
theorem save_then_get:
  assumes "save_session env now uuid user b rows = (Inr v, rows')" and "list_all json_plain (sr_history b)"
  shows "\<exists>w. get_session user (sv_id v) rows' = Inr w \<and> sv_title w = sr_title b \<and> sv_history w = JArr (sr_history b) \<and>
    sv_node w = not_all (sr_node b) \<and> sv_pinned w = sv_pinned v \<and> sv_updated w = now"
proof -
  let ?sid = "session_id uuid b" and ?text = "json_dumps_spaced (JArr (sr_history b))"
  have h: "read_history ?text = JArr (sr_history b)"
    using json_loads_spaced [of "JArr (sr_history b)"] assms(2) by (simp add: read_history_def del: json_dumps_spaced.simps)
  show ?thesis
  proof (cases "sql_fetchone (own ?sid user) rows")
    case None
    then have "v = saved_view ?sid user b (if sr_pinned b = Some True then 1 else 0) now"
      and r: "rows' = rows @ [\<lparr>cs_id = ?sid, cs_user = user, cs_node = not_all (sr_node b), cs_title = sr_title b, cs_history = ?text,
          cs_pinned = (if sr_pinned b = Some True then 1 else 0), cs_created = now, cs_updated = now\<rparr>]"
      using assms(1) unfolding save_session_def Let_def None option.case
      by (simp_all del: json_dumps_spaced.simps sql_fetchone_None_iff split: if_split_asm)
    moreover have "sql_fetchone (own ?sid user) rows' = Some (last rows')"
      using None unfolding r by (simp add: fetch_snoc own_def del: json_dumps_spaced.simps)
    ultimately show ?thesis
      by (simp add: get_session_def view_of_def saved_view_def h del: json_dumps_spaced.simps)
  next
    case (Some old)
    let ?p = "if sr_pinned b = None then cs_pinned old else if sr_pinned b = Some True then 1 else 0"
    let ?f = "\<lambda>r. r\<lparr>cs_node := not_all (sr_node b), cs_title := sr_title b, cs_history := ?text, cs_pinned := ?p, cs_updated := now\<rparr>"
    have v: "v = saved_view ?sid user b ?p now" and r: "rows' = sql_update (own ?sid user) ?f rows"
      using assms(1) Some by (auto simp: save_session_def Let_def simp del: json_dumps_spaced.simps split: if_splits)
    have "sql_fetchone (own ?sid user) (sql_update (own ?sid user) ?f xs) = map_option ?f (sql_fetchone (own ?sid user) xs)" for xs
      by (induction xs) (auto simp: sql_fetchone_def sql_update_def own_def)
    then have "sql_fetchone (own ?sid user) rows' = Some (?f old)" using Some by (simp add: r)
    then show ?thesis by (simp add: v get_session_def view_of_def saved_view_def h del: json_dumps_spaced.simps)
  qed
qed

theorem save_then_get_witness:
  "\<exists>w. get_session ''bob'' ''b1'' (snd (save_session demo_env 1 ''x'' ''bob'' (demo_save ''b1'' ''mine'') [])) = Inr w \<and> sv_title w = ''mine''"
proof -
  have s: "save_session demo_env 1 ''x'' ''bob'' (demo_save ''b1'' ''mine'') [] =
      (Inr (saved_view ''b1'' ''bob'' (demo_save ''b1'' ''mine'') 0 1), snd (save_session demo_env 1 ''x'' ''bob'' (demo_save ''b1'' ''mine'') []))"
    by (simp add: save_session_def Let_def session_id_def demo_save_def sql_fetchone_def node_ok_def not_all_def demo_env_def)
  from save_then_get [OF s] show ?thesis by (auto simp: demo_save_def saved_view_def)
qed

text \<open>
  The answer of an update claims that the conversation was created now; the table keeps the
  true time.
\<close>

lemma update_reports_creation:
  assumes "sql_fetchone (own (session_id uuid b) user) rows = Some old" and "node_ok env (not_all (sr_node b))"
  shows "\<exists>v rows'. save_session env now uuid user b rows = (Inr v, rows') \<and> sv_created v = now \<and>
    (\<forall>r \<in> set rows'. own (session_id uuid b) user r \<longrightarrow> cs_created r \<in> cs_created ` set rows)"
  using assms by (auto simp: save_session_def Let_def saved_view_def sql_update_def)

text \<open>
  An identifier of another user's conversation cannot be used, and the failure (an
  integrity error, not a refusal) tells that it exists.
\<close>

lemma foreign_id_fails:
  assumes "r \<in> set rows" and "cs_user r \<noteq> user" and "sql_fetchone (own (cs_id r) user) rows = None" and "session_id uuid b = cs_id r"
  shows "save_session env now uuid user b rows = (Inl Integrity_Error, rows)"
proof -
  have "cs_id r \<in> set (map cs_id rows)" using assms(1) by simp
  with assms(3,4) show ?thesis unfolding save_session_def Let_def by (simp del: json_dumps_spaced.simps sql_fetchone_None_iff)
qed

end
