(* ===== verification/Posix_Path.thy ===== *)
theory Posix_Path
  imports Py_Text
begin

text \<open>
  The path functions of the standard library that the master uses to compare paths of a
  node: \<open>os.path.normpath\<close> on POSIX. A path is normalised on its components: empty ones and
  single dots go, a double dot removes the component before it, at the root it is dropped,
  and at the start of a relative path it stays; one or two initial slashes are kept, three
  or more are one.
\<close>

definition SLASH :: char where
  "SLASH = CHR 0x2F"

fun norm_comps :: "bool \<Rightarrow> string list \<Rightarrow> string list \<Rightarrow> string list" where
  \<comment> \<open>the components found so far are in reverse\<close>
  "norm_comps ab acc [] = rev acc"
| "norm_comps ab acc (c # cs) =
     (if c = [] \<or> c = ''.'' then norm_comps ab acc cs
      else if c \<noteq> ''..'' \<or> (\<not> ab \<and> acc = []) \<or> (acc \<noteq> [] \<and> hd acc = ''..'') then norm_comps ab (c # acc) cs
      else norm_comps ab (tl acc) cs)"

definition initial_slashes :: "string \<Rightarrow> nat" where
  "initial_slashes p =
     (if is_prefix_of [SLASH, SLASH] p \<and> \<not> is_prefix_of [SLASH, SLASH, SLASH] p then 2
      else if is_prefix_of [SLASH] p then 1 else 0)"

definition normpath :: "string \<Rightarrow> string" where
  "normpath p =
     (if p = [] then ''.''
      else
        (let n = initial_slashes p;
             q = replicate n SLASH @ join_with [SLASH] (norm_comps (0 < n) [] (split_on SLASH p))
         in if q = [] then ''.'' else q))"

section \<open>Normal paths\<close>

definition plain_comp :: "string \<Rightarrow> bool" where
  "plain_comp c \<longleftrightarrow> c \<noteq> [] \<and> c \<noteq> ''.'' \<and> c \<noteq> ''..'' \<and> SLASH \<notin> set c"

definition canon :: "bool \<Rightarrow> string list \<Rightarrow> bool" where
  "canon ab cs \<longleftrightarrow> (\<exists>k ns. cs = replicate k ''..'' @ ns \<and> (ab \<longrightarrow> k = 0) \<and> list_all plain_comp ns)"

lemma canon_absolute: "canon True cs \<longleftrightarrow> list_all plain_comp cs"
  by (auto simp: canon_def)

lemma canon_no_slash: "canon ab cs \<Longrightarrow> c \<in> set cs \<Longrightarrow> c \<noteq> [] \<and> c \<noteq> ''.'' \<and> SLASH \<notin> set c"
proof -
  assume "canon ab cs" and c: "c \<in> set cs"
  then obtain k ns where "cs = replicate k ''..'' @ ns" and n: "list_all plain_comp ns" by (auto simp: canon_def)
  with c have "c = ''..'' \<or> c \<in> set ns" by auto
  then show ?thesis
  proof
    assume "c = ''..''"
    then show ?thesis by (simp add: SLASH_def)
  next
    assume "c \<in> set ns"
    with n show ?thesis by (simp add: list_all_iff plain_comp_def)
  qed
qed

lemma canon_snoc:
  assumes "canon ab (rev acc)" and "SLASH \<notin> set c" and "c \<noteq> []" and "c \<noteq> ''.''"
    and "c \<noteq> ''..'' \<or> (\<not> ab \<and> acc = []) \<or> (acc \<noteq> [] \<and> hd acc = ''..'')"
  shows "canon ab (rev (c # acc))"
proof -
  obtain k ns where kn: "rev acc = replicate k ''..'' @ ns" "ab \<longrightarrow> k = 0" "list_all plain_comp ns" using assms(1) by (auto simp: canon_def)
  show ?thesis
  proof (cases "c = ''..''")
    case False
    with kn assms have "rev (c # acc) = replicate k ''..'' @ (ns @ [c])" "list_all plain_comp (ns @ [c])" by (simp_all add: plain_comp_def)
    with kn(2) show ?thesis unfolding canon_def by blast
  next
    case True
    have "ns = []"
    proof (rule ccontr)
      assume "ns \<noteq> []"
      then have "acc \<noteq> []" "hd acc = last ns" using kn(1) by (metis append_is_Nil_conv rev.simps(1), metis hd_rev last_appendR rev_rev_ident)
      moreover have "last ns \<noteq> ''..''" using kn(3) \<open>ns \<noteq> []\<close> by (auto simp: list_all_iff plain_comp_def)
      ultimately show False using assms(5) True by auto
    qed
    moreover have "\<not> ab"
    proof
      assume ab
      with kn calculation have "acc = []" by simp
      with \<open>ab\<close> True assms(5) show False by simp
    qed
    moreover have "rev (c # acc) = replicate (Suc k) ''..'' @ []" using kn(1) True calculation by (simp add: replicate_append_same)
    ultimately show ?thesis unfolding canon_def by (intro exI [of _ "Suc k"] exI [of _ "[]"]) simp
  qed
qed

lemma canon_tl: "canon ab (rev acc) \<Longrightarrow> canon ab (rev (tl acc))"
proof -
  assume "canon ab (rev acc)"
  then obtain k ns where kn: "rev acc = replicate k ''..'' @ ns" "ab \<longrightarrow> k = 0" "list_all plain_comp ns" by (auto simp: canon_def)
  have "rev (tl acc) = butlast (rev acc)" by (cases acc) simp_all
  also have "\<dots> = (if ns = [] then replicate (k - 1) ''..'' @ [] else replicate k ''..'' @ butlast ns)"
    unfolding kn(1) by (simp add: butlast_append) (cases k; simp add: replicate_append_same [symmetric])
  finally show ?thesis
    using kn(2,3) unfolding canon_def
    by (cases "ns = []") (force, metis (no_types, lifting) in_set_butlastD list_all_iff)
qed

lemma norm_comps_canon:
  "canon ab (rev acc) \<Longrightarrow> \<forall>c \<in> set cs. SLASH \<notin> set c \<Longrightarrow> canon ab (norm_comps ab acc cs)"
proof (induction ab acc cs rule: norm_comps.induct)
  case (2 ab acc c cs)
  show ?case
  proof (cases "c = [] \<or> c = ''.''")
    case True
    with 2(1) 2(4,5) show ?thesis by simp
  next
    case False
    show ?thesis
    proof (cases "c \<noteq> ''..'' \<or> (\<not> ab \<and> acc = []) \<or> (acc \<noteq> [] \<and> hd acc = ''..'')")
      case True
      have "canon ab (rev (c # acc))" using 2(4,5) False True by (intro canon_snoc) auto
      with 2(2) [OF False True] 2(5) False True show ?thesis by simp
    next
      case f: False
      have "canon ab (rev (tl acc))" using 2(4) by (rule canon_tl)
      moreover have "norm_comps ab acc (c # cs) = norm_comps ab (tl acc) cs" unfolding norm_comps.simps if_not_P [OF False] if_not_P [OF f] ..
      ultimately show ?thesis using 2(3) [OF False f] 2(5) by simp
    qed
  qed
qed simp

lemma split_on_pieces: "x \<in> set (split_on c s) \<Longrightarrow> c \<notin> set x"
proof (induction s arbitrary: x)
  case (Cons y ys)
  then show ?case by (cases "split_on c ys") (auto split: if_splits)
qed simp

lemma norm_comps_plain: "list_all plain_comp ns \<Longrightarrow> norm_comps ab acc ns = rev acc @ ns"
  by (induction ns arbitrary: acc) (auto simp: plain_comp_def)

lemma norm_comps_dots: "\<forall>x \<in> set acc. x = ''..'' \<Longrightarrow> norm_comps False acc (replicate k ''..'' @ ns) = norm_comps False (replicate k ''..'' @ acc) ns"
proof (induction k arbitrary: acc)
  case (Suc k)
  have "acc = [] \<or> hd acc = ''..''" using Suc.prems by (cases acc) auto
  then have "norm_comps False acc (replicate (Suc k) ''..'' @ ns) = norm_comps False (''..'' # acc) (replicate k ''..'' @ ns)" by auto
  also have "\<dots> = norm_comps False (replicate k ''..'' @ ''..'' # acc) ns" using Suc.prems by (intro Suc.IH) auto
  finally show ?case by (simp add: replicate_app_Cons_same)
qed simp

lemma norm_comps_fixed: "canon ab cs \<Longrightarrow> norm_comps ab [] cs = cs"
proof -
  assume "canon ab cs"
  then obtain k ns where kn: "cs = replicate k ''..'' @ ns" "ab \<longrightarrow> k = 0" "list_all plain_comp ns" by (auto simp: canon_def)
  show ?thesis
  proof (cases ab)
    case True
    with kn show ?thesis by (simp add: norm_comps_plain)
  next
    case False
    with kn norm_comps_dots [of "[]" k ns] show ?thesis by (simp add: norm_comps_plain)
  qed
qed

lemma norm_comps_empty: "norm_comps ab acc (replicate n [] @ cs) = norm_comps ab acc cs"
  by (induction n) simp_all

lemma normal_form:
  obtains n cs where "canon (0 < n) cs" and "n \<le> 2" and "n = initial_slashes p"
    and "normpath p = (if n = 0 \<and> cs = [] then ''.'' else replicate n SLASH @ join_with [SLASH] cs)"
proof (cases "p = []")
  case True
  show ?thesis by (rule that [of 0 "[]"]) (simp_all add: True normpath_def canon_def initial_slashes_def)
next
  case False
  let ?n = "initial_slashes p" and ?cs = "norm_comps (0 < initial_slashes p) [] (split_on SLASH p)"
  have c: "canon (0 < ?n) ?cs" by (rule norm_comps_canon) (auto simp: canon_def dest: split_on_pieces)
  have "join_with [SLASH] ?cs = [] \<longleftrightarrow> ?cs = []"
    using canon_no_slash [OF c] by (cases ?cs rule: list.exhaust; cases "tl ?cs") (auto simp: neq_Nil_conv)
  with False c show ?thesis by (intro that [of ?n ?cs]) (auto simp: normpath_def Let_def initial_slashes_def)
qed

lemma slashes_of_normal:
  assumes "canon (0 < n) cs" and "n \<le> 2"
  shows "initial_slashes (replicate n SLASH @ join_with [SLASH] cs) = n"
proof -
  have "join_with [SLASH] cs = [] \<or> hd (join_with [SLASH] cs) \<noteq> SLASH"
  proof (cases cs)
    case (Cons c rest)
    with canon_no_slash [OF assms(1)] have "c \<noteq> []" "SLASH \<notin> set c" by auto
    with Cons show ?thesis by (cases c; cases rest) auto
  qed simp
  moreover have "n = 0 \<or> n = 1 \<or> n = 2" using assms(2) by auto
  ultimately show ?thesis by (cases "join_with [SLASH] cs") (auto simp: initial_slashes_def numeral_2_eq_2)
qed

lemma split_slashes: "split_on SLASH (replicate n SLASH @ s) = replicate n [] @ split_on SLASH s"
  by (induction n) simp_all

text \<open>Normalising is idempotent.\<close>

lemma normpath_idem: "normpath (normpath p) = normpath p"
proof -
  obtain n cs where f: "canon (0 < n) cs" "n \<le> 2"
      "normpath p = (if n = 0 \<and> cs = [] then ''.'' else replicate n SLASH @ join_with [SLASH] cs)"
    by (rule normal_form)
  show ?thesis
  proof (cases "n = 0 \<and> cs = []")
    case True
    with f have "normpath p = ''.''" by simp
    moreover have "normpath ''.'' = ''.''" by code_simp
    ultimately show ?thesis by simp
  next
    case False
    let ?q = "replicate n SLASH @ join_with [SLASH] cs"
    have "norm_comps (0 < n) [] (split_on SLASH (join_with [SLASH] cs)) = cs"
    proof (cases "cs = []")
      case False
      with canon_no_slash [OF f(1)] have "split_on SLASH (join_with [SLASH] cs) = cs" by (intro split_join) auto
      with norm_comps_fixed [OF f(1)] show ?thesis by simp
    qed simp
    then have c: "norm_comps (0 < n) [] (split_on SLASH ?q) = cs" by (simp add: split_slashes norm_comps_empty)
    have "?q \<noteq> []" using False canon_no_slash [OF f(1)] by (cases cs; cases "tl cs") auto
    then have "normpath ?q = ?q" unfolding normpath_def slashes_of_normal [OF f(1,2)] Let_def c by simp
    with f(3) False show ?thesis by simp
  qed
qed

lemma split_below:
  "bs \<noteq> [] \<Longrightarrow> \<forall>b \<in> set bs. SLASH \<notin> set b \<Longrightarrow> split_on SLASH (join_with [SLASH] bs @ SLASH # r) = bs @ split_on SLASH r"
  by (induction "[SLASH]" bs rule: join_with.induct) (auto simp: split_on_append_sep)

text \<open>
  A normalised path under an absolute one has no component that leads out of it: what
  follows is made of plain components.
\<close>

lemma normpath_below:
  assumes "normpath p = base @ [SLASH] @ r" and "base = [SLASH] @ join_with [SLASH] bs" and "list_all plain_comp bs" and "bs \<noteq> []"
  shows "r \<noteq> [] \<and> list_all plain_comp (split_on SLASH r)"
proof -
  obtain n cs where f: "canon (0 < n) cs" "n \<le> 2"
      "normpath p = (if n = 0 \<and> cs = [] then ''.'' else replicate n SLASH @ join_with [SLASH] cs)"
    by (rule normal_form)
  have q: "normpath p = replicate n SLASH @ join_with [SLASH] cs" using f(3) assms(1,2) by (auto simp: SLASH_def split: if_splits)
  have bn: "\<forall>b \<in> set bs. b \<noteq> [] \<and> SLASH \<notin> set b" using assms(3) by (auto simp: list_all_iff plain_comp_def)
  have n: "n = 1"
  proof -
    have "initial_slashes (normpath p) = 1"
      using assms(1,2,4) bn by (cases bs; cases "hd bs"; cases "tl bs") (auto simp: initial_slashes_def)
    with slashes_of_normal [OF f(1,2)] q show ?thesis by simp
  qed
  have cs: "cs \<noteq> []" using q n assms(1,2,4) bn by (cases cs; cases bs; cases "tl bs") auto
  have "join_with [SLASH] bs @ [SLASH] @ r = join_with [SLASH] cs" using q n assms(1,2) by simp
  then have "split_on SLASH (join_with [SLASH] bs @ SLASH # r) = cs"
    using canon_no_slash [OF f(1)] cs by (simp add: split_join)
  with split_below [OF assms(4)] bn have e: "cs = bs @ split_on SLASH r" by simp
  have "list_all plain_comp cs" using f(1) n by (simp add: canon_absolute)
  with e have "list_all plain_comp (split_on SLASH r)" by simp
  moreover from this have "r \<noteq> []" by (auto simp: plain_comp_def)
  ultimately show ?thesis by simp
qed

end
