(* ===== verification/Disk_Cache.thy ===== *)
theory Disk_Cache
  imports Posix_Path Json_Spaced Worker_Query
begin

text \<open>
  The cache of disk scans and the mount points of a node (\<open>db/disk_scan_cache.py\<close>), and the
  handler that scans a disk (\<open>get_disk_scan\<close> of \<open>api/nodes.py\<close>). The answers of the worker
  and the validation of a scan are arguments; the two optional statements that may fail
  silently have their success as an argument.
\<close>

section \<open>The cache\<close>

record scan_node =
  sn_id :: string
  sn_scan_json :: "string option"
  sn_scan_at :: "time option"
  sn_disks_json :: "string option"

record disk_db =
  dd_scans :: "(string \<times> string, string \<times> time) dict"
  dd_nodes :: "scan_node list"

definition ROOT :: string where
  "ROOT = [SLASH]"

definition clean_path :: "string \<Rightarrow> string" where
  "clean_path path = (if path = [] then ROOT else normpath (strip path))"

definition find_scan_node :: "string \<Rightarrow> disk_db \<Rightarrow> scan_node option" where
  "find_scan_node node_id db = sql_fetchone (\<lambda>n. sn_id n = node_id) (dd_nodes db)"

definition legacy_scan :: "string \<Rightarrow> disk_db \<Rightarrow> string option \<times> time option" where
  "legacy_scan node_id db =
     (case find_scan_node node_id db of
        None \<Rightarrow> (None, None)
      | Some n \<Rightarrow>
          (case sn_scan_json n of
             None \<Rightarrow> (None, None)
           | Some j \<Rightarrow> if j = [] then (None, None) else (Some j, sn_scan_at n)))"

definition get_cached_disk_scan :: "bool \<Rightarrow> bool \<Rightarrow> string \<Rightarrow> string \<Rightarrow> disk_db \<Rightarrow> string option \<times> time option" where
  \<comment> \<open>the two flags: the cache table and the node table can be read\<close>
  "get_cached_disk_scan ok1 ok2 node_id path db =
     (case (if ok1 then map_of (dd_scans db) (node_id, clean_path path) else None) of
        Some (j, t) \<Rightarrow> (Some j, Some t)
      | None \<Rightarrow> if clean_path path = ROOT \<and> ok2 then legacy_scan node_id db else (None, None))"

definition set_legacy :: "bool \<Rightarrow> string \<Rightarrow> string option \<Rightarrow> time option \<Rightarrow> disk_db \<Rightarrow> disk_db" where
  "set_legacy ok node_id j t db =
     (if ok then db\<lparr>dd_nodes := sql_update (\<lambda>n. sn_id n = node_id) (\<lambda>n. n\<lparr>sn_scan_json := j, sn_scan_at := t\<rparr>) (dd_nodes db)\<rparr> else db)"

definition set_cached_disk_scan :: "bool \<Rightarrow> string \<Rightarrow> string \<Rightarrow> string \<Rightarrow> time \<Rightarrow> disk_db \<Rightarrow> disk_db option" where
  \<comment> \<open>\<open>None\<close>: the foreign key to the node fails and the transaction is rolled back\<close>
  "set_cached_disk_scan ok node_id path json_data ts db =
     (if find_scan_node node_id db = None then None
      else
        (let db1 = db\<lparr>dd_scans := AList.update (node_id, clean_path path) (json_data, ts) (dd_scans db)\<rparr>
         in Some (if clean_path path = ROOT then set_legacy ok node_id (Some json_data) (Some ts) db1 else db1)))"

definition invalidate_cached_disk_scan :: "bool \<Rightarrow> string \<Rightarrow> string option \<Rightarrow> disk_db \<Rightarrow> disk_db" where
  \<comment> \<open>here an empty path is normalised, not taken as the root\<close>
  "invalidate_cached_disk_scan ok node_id path db =
     (case path of
        Some p \<Rightarrow>
          (let db1 = db\<lparr>dd_scans := AList.delete (node_id, normpath (strip p)) (dd_scans db)\<rparr>
           in if normpath (strip p) = ROOT then set_legacy ok node_id None None db1 else db1)
      | None \<Rightarrow> set_legacy ok node_id None None (db\<lparr>dd_scans := filter (\<lambda>x. fst (fst x) \<noteq> node_id) (dd_scans db)\<rparr>))"

section \<open>Mount points\<close>

definition mount_of :: "json \<Rightarrow> string option" where
  "mount_of d =
     (case d of
        JStr m \<Rightarrow> if strip m = [] then None else Some (normpath (strip m))
      | JObj kvs \<Rightarrow>
          (case map_of kvs ''mount_point'' of
             None \<Rightarrow> None
           | Some v \<Rightarrow> if json_truthy v then Some (normpath (strip (py_str v))) else None)
      | _ \<Rightarrow> None)"

definition clean_mounts :: "json list \<Rightarrow> string list" where
  "clean_mounts ms = map the (filter (\<lambda>x. x \<noteq> None) (map mount_of ms))"

definition mounts_of_text :: "string \<Rightarrow> string list" where
  "mounts_of_text t = (case json_loads t of Some (JArr ms) \<Rightarrow> clean_mounts ms | _ \<Rightarrow> [])"

definition get_node_disk_mounts :: "string \<Rightarrow> disk_db \<Rightarrow> string list" where
  "get_node_disk_mounts node_id db =
     (case find_scan_node node_id db of
        None \<Rightarrow> []
      | Some n \<Rightarrow> (case sn_disks_json n of None \<Rightarrow> [] | Some t \<Rightarrow> if t = [] then [] else mounts_of_text t))"

definition set_node_disk_mounts :: "string \<Rightarrow> json list \<Rightarrow> disk_db \<Rightarrow> disk_db" where
  "set_node_disk_mounts node_id mounts db =
     (let t = json_dumps_spaced (JArr (map (\<lambda>m. JObj [(''mount_point'', JStr m)]) (clean_mounts mounts)))
      in db\<lparr>dd_nodes := sql_update (\<lambda>n. sn_id n = node_id) (\<lambda>n. n\<lparr>sn_disks_json := Some t\<rparr>) (dd_nodes db)\<rparr>)"

section \<open>The handler\<close>

datatype query_outcome = Answer "(string, json) dict" | Not_Connected string | Timed_Out string

datatype http_error = Http nat json | Raised string

record scan_request =
  sq_node :: string
  sq_sub :: string
  sq_role :: string
  sq_path :: string
  sq_force :: bool
  sq_max_depth :: int
  sq_min_size :: int

record scan_io =
  so_cache_now :: time
  so_write_now :: time
  so_reads :: "bool \<times> bool"
  so_stats_write :: bool
  so_cache_write :: bool
  so_legacy_write :: bool

type_synonym sent = "(string \<times> (string, json) dict) list"

definition listed_mounts :: "(string, json) dict \<Rightarrow> json list" where
  \<comment> \<open>an entry that is no object raises, which is caught\<close>
  "listed_mounts r =
     (if \<not> json_truthy (dict_get r ''success'' JNull) then []
      else
        (case dict_get r ''disks'' (JArr []) of
           JArr ds \<Rightarrow>
             if list_all (\<lambda>d. case d of JObj _ \<Rightarrow> True | _ \<Rightarrow> False) ds then
               map (\<lambda>d. the (json_get d ''mount_point'')) (filter (\<lambda>d. case json_get d ''mount_point'' of None \<Rightarrow> False | Some v \<Rightarrow> json_truthy v) ds)
             else []
         | _ \<Rightarrow> []))"

definition find_mounts ::
  "(string \<Rightarrow> (string, json) dict \<Rightarrow> query_outcome) \<Rightarrow> scan_io \<Rightarrow> string \<Rightarrow> disk_db \<Rightarrow> json list \<times> sent \<times> disk_db" where
  "find_mounts ask io node_id db =
     (case get_node_disk_mounts node_id db of
        m # ms \<Rightarrow> (map JStr (m # ms), [], db)
      | [] \<Rightarrow>
          (let found = (case ask ''GET_STATS'' [] of Answer r \<Rightarrow> listed_mounts r | _ \<Rightarrow> [])
           in if found = [] then ([JStr ROOT], [(''GET_STATS'', [])], db)
              else (found, [(''GET_STATS'', [])], if so_stats_write io then set_node_disk_mounts node_id found db else db)))"

definition normalized_mounts :: "json list \<Rightarrow> string list" where
  \<comment> \<open>a set in the code, in no particular order\<close>
  "normalized_mounts ms =
     remdups (map (\<lambda>m. case m of JStr s \<Rightarrow> normpath (strip s) | _ \<Rightarrow> [])
       (filter (\<lambda>m. case m of JStr s \<Rightarrow> strip s \<noteq> [] | _ \<Rightarrow> False) ms))"

definition fresh_scan :: "scan_io \<Rightarrow> string \<Rightarrow> string \<Rightarrow> disk_db \<Rightarrow> json option" where
  "fresh_scan io node_id path db =
     (case get_cached_disk_scan (fst (so_reads io)) (snd (so_reads io)) node_id path db of
        (Some j, Some t) \<Rightarrow> if j \<noteq> [] \<and> so_cache_now io - t < 300 then json_loads j else None
      | _ \<Rightarrow> None)"

definition scan_params :: "scan_request \<Rightarrow> string \<Rightarrow> string list \<Rightarrow> (string, json) dict" where
  "scan_params q path mounts =
     [(''path'', JStr path), (''max_depth'', JInt (sq_max_depth q)), (''min_size_bytes'', JInt (sq_min_size q)), (''mounts'', JArr (map JStr mounts))]"

definition scan_details :: "scan_request \<Rightarrow> string \<Rightarrow> json" where
  "scan_details q path = JObj [(''path'', JStr path), (''max_depth'', JInt (sq_max_depth q)), (''min_size_bytes'', JInt (sq_min_size q))]"

definition store_scan ::
  "(string \<Rightarrow> json option) \<Rightarrow> scan_io \<Rightarrow> scan_request \<Rightarrow> string \<Rightarrow> (string, json) dict \<Rightarrow> disk_db \<Rightarrow> (http_error + json) \<times> json list \<times> disk_db" where
  \<comment> \<open>the result, what is written to the audit log, the database\<close>
  "store_scan validate io q path r db =
     (if \<not> json_truthy (dict_get r ''success'' JNull) then (Inl (Http 502 (dict_get r ''error'' (JStr ''scan failed''))), [], db)
      else
        (case map_of r ''output'' of
           None \<Rightarrow> (Inl (Raised ''KeyError''), [], db)
         | Some (JStr out) \<Rightarrow>
             (case validate out of
                None \<Rightarrow> (Inl (Http 502 (JStr ''invalid scan result from worker'')), [], db)
              | Some v \<Rightarrow>
                  (Inr v, [scan_details q path],
                   if so_cache_write io
                   then (case set_cached_disk_scan (so_legacy_write io) (sq_node q) path out (so_write_now io) db of None \<Rightarrow> db | Some db' \<Rightarrow> db')
                   else db))
         | Some _ \<Rightarrow> (Inl (Http 502 (JStr ''invalid scan result from worker'')), [], db)))"

definition bad_path :: "string \<Rightarrow> bool" where
  "bad_path path \<longleftrightarrow> CHR 0x00 \<in> set path \<or> CHR 0x0D \<in> set path \<or> CHR 0x0A \<in> set path \<or> \<not> is_prefix_of [SLASH] (normpath (strip path))"

definition get_disk_scan ::
  "(string \<Rightarrow> (string, json) dict \<Rightarrow> query_outcome) \<Rightarrow> (string \<Rightarrow> json option) \<Rightarrow> scan_io \<Rightarrow> scan_request \<Rightarrow> disk_db \<Rightarrow>
     (http_error + json) \<times> sent \<times> json list \<times> disk_db" where
  "get_disk_scan ask validate io q db =
     (let path = normpath (strip (sq_path q))
      in if bad_path (sq_path q) then (Inl (Http 400 (JStr ''invalid scan path'')), [], [], db)
         else if sq_force q \<and> sq_role q \<noteq> ''admin'' then (Inl (Http 403 (JStr ''force=true requires admin role'')), [], [], db)
         else if find_scan_node (sq_node q) db = None then (Inl (Http 404 (JStr ''Node not found'')), [], [], db)
         else
           (let (mounts, sent, db1) = find_mounts ask io (sq_node q) db;
                ms = normalized_mounts mounts
            in if path \<notin> set ms then (Inl (Http 400 (JStr ''Path is not an allowed mount point'')), sent, [], db1)
               else
                 (case (if sq_force q then None else fresh_scan io (sq_node q) path db1) of
                    Some v \<Rightarrow> (Inr v, sent, [], db1)
                  | None \<Rightarrow>
                      (let sent' = sent @ [(''DISK_SCAN'', scan_params q path ms)]
                       in case ask ''DISK_SCAN'' (scan_params q path ms) of
                            Timed_Out _ \<Rightarrow> (Inl (Http 504 (JStr ''Worker did not respond to disk-scan request in time'')), sent', [], db1)
                          | Not_Connected e \<Rightarrow> (Inl (Http 503 (JStr e)), sent', [], db1)
                          | Answer r \<Rightarrow> (let (res, logged, db2) = store_scan validate io q path r db1 in (res, sent', logged, db2))))))"

section \<open>Properties of the cache\<close>

lemma find_after_update:
  "(\<And>n. sn_id (f n) = sn_id n) \<Longrightarrow>
   sql_fetchone (\<lambda>n. sn_id n = m) (sql_update (\<lambda>n. sn_id n = k) f ns) =
     map_option (if m = k then f else id) (sql_fetchone (\<lambda>n. sn_id n = m) ns)"
  by (induction ns) (auto simp: sql_fetchone_def sql_update_def)

lemma find_set_legacy:
  "find_scan_node m (set_legacy ok k j t db) =
     map_option (if ok \<and> m = k then (\<lambda>n. n\<lparr>sn_scan_json := j, sn_scan_at := t\<rparr>) else id) (find_scan_node m db)"
  by (auto simp: find_scan_node_def set_legacy_def find_after_update option.map_id)

lemma scans_set_legacy [simp]: "dd_scans (set_legacy ok k j t db) = dd_scans db"
  by (simp add: set_legacy_def)

lemma find_scans_update [simp]: "find_scan_node m (db\<lparr>dd_scans := d\<rparr>) = find_scan_node m db"
  by (simp add: find_scan_node_def)

lemma legacy_same: "find_scan_node m db' = find_scan_node m db \<Longrightarrow> legacy_scan m db' = legacy_scan m db"
  by (simp add: legacy_scan_def)

lemma legacy_cleared: "legacy_scan m (set_legacy True m None None db) = (None, None)"
  by (simp add: legacy_scan_def find_set_legacy split: option.split)

lemma map_of_filter_node: "map_of (filter (\<lambda>x. fst (fst x) \<noteq> n) d) (n, p) = None"
  by (simp add: map_of_eq_None_iff) force

text \<open>
  The cache keeps its promise up to the spelling of a path: what was stored for a path is
  found under every path with the same normal form, and nothing else changes; after an
  invalidation of the path or of the node it is gone, the copy in the node table included.
\<close>
theorem disk_cache_lookup:
  assumes "set_cached_disk_scan ok n p j t db = Some db'"
  shows "(clean_path q = clean_path p \<longrightarrow> get_cached_disk_scan True ok2 n q db' = (Some j, Some t)) \<and>
    ((m, clean_path q) \<noteq> (n, clean_path p) \<longrightarrow> get_cached_disk_scan True ok2 m q db' = get_cached_disk_scan True ok2 m q db) \<and>
    (p \<noteq> [] \<longrightarrow> get_cached_disk_scan ok1 ok2 n p (invalidate_cached_disk_scan True n (Some p) db') = (None, None)) \<and>
    get_cached_disk_scan ok1 ok2 n q (invalidate_cached_disk_scan True n None db') = (None, None)"
proof (intro conjI impI)
  have db': "db' = (let db1 = db\<lparr>dd_scans := AList.update (n, clean_path p) (j, t) (dd_scans db)\<rparr>
      in if clean_path p = ROOT then set_legacy ok n (Some j) (Some t) db1 else db1)"
    using assms by (simp add: set_cached_disk_scan_def Let_def split: if_splits)
  have sc: "dd_scans db' = AList.update (n, clean_path p) (j, t) (dd_scans db)" by (simp add: db' Let_def)
  have m: "map_of (dd_scans db') k = (if k = (n, clean_path p) then Some (j, t) else map_of (dd_scans db) k)" for k
    by (simp add: sc py_dict)
  show "get_cached_disk_scan True ok2 n q db' = (Some j, Some t)" if "clean_path q = clean_path p"
    using that by (simp add: get_cached_disk_scan_def m)
  show "get_cached_disk_scan True ok2 m q db' = get_cached_disk_scan True ok2 m q db" if k: "(m, clean_path q) \<noteq> (n, clean_path p)"
  proof (cases "clean_path q = ROOT")
    case True
    then have "find_scan_node m db' = find_scan_node m db" using k by (auto simp: db' Let_def find_set_legacy option.map_id)
    then have "legacy_scan m db' = legacy_scan m db" by (rule legacy_same)
    with k show ?thesis by (auto simp: get_cached_disk_scan_def m split: option.split)
  next
    case False
    with k show ?thesis by (auto simp: get_cached_disk_scan_def m)
  qed
  show "get_cached_disk_scan ok1 ok2 n p (invalidate_cached_disk_scan True n (Some p) db') = (None, None)" if "p \<noteq> []"
    using that by (simp add: get_cached_disk_scan_def invalidate_cached_disk_scan_def clean_path_def Let_def legacy_cleared py_dict)
  show "get_cached_disk_scan ok1 ok2 n q (invalidate_cached_disk_scan True n None db') = (None, None)"
    by (simp add: get_cached_disk_scan_def invalidate_cached_disk_scan_def legacy_cleared map_of_filter_node)
qed

definition demo_disk_db :: disk_db where
  "demo_disk_db = \<lparr>dd_scans = [], dd_nodes = [\<lparr>sn_id = ''n1'', sn_scan_json = None, sn_scan_at = None, sn_disks_json = None\<rparr>]\<rparr>"

theorem disk_cache_lookup_witness:
  "\<exists>db'. set_cached_disk_scan True ''n1'' ''/var//data/'' ''{}'' 7 demo_disk_db = Some db' \<and>
     get_cached_disk_scan True True ''n1'' '' /var/./data'' db' = (Some ''{}'', Some 7)"
proof -
  obtain db' where db': "set_cached_disk_scan True ''n1'' ''/var//data/'' ''{}'' 7 demo_disk_db = Some db'"
    by (simp add: set_cached_disk_scan_def demo_disk_db_def find_scan_node_def sql_fetchone_def Let_def)
  have "clean_path '' /var/./data'' = clean_path ''/var//data/''" by code_simp
  with disk_cache_lookup [OF db', of "'' /var/./data''" True] db' show ?thesis by blast
qed

text \<open>
  The two functions disagree on an empty path: what is stored for it is the scan of the
  root, but an invalidation of it removes the entry of the current directory.
\<close>

lemma empty_path_not_invalidated:
  "set_cached_disk_scan True ''n1'' [] ''{}'' 7 demo_disk_db = Some db' \<Longrightarrow>
   get_cached_disk_scan True True ''n1'' [] (invalidate_cached_disk_scan True ''n1'' (Some []) db') = (Some ''{}'', Some 7)"
proof -
  assume "set_cached_disk_scan True ''n1'' [] ''{}'' 7 demo_disk_db = Some db'"
  moreover have "case set_cached_disk_scan True ''n1'' [] ''{}'' 7 demo_disk_db of None \<Rightarrow> False
    | Some db' \<Rightarrow> get_cached_disk_scan True True ''n1'' [] (invalidate_cached_disk_scan True ''n1'' (Some []) db') = (Some ''{}'', Some 7)"
    by code_simp
  ultimately show ?thesis by simp
qed

text \<open>Mount points read back as they were stored, in normal form.\<close>

lemma normpath_nonempty: "normpath p \<noteq> []"
  by (auto simp: normpath_def Let_def)

lemma clean_mounts_objects:
  "\<forall>m \<in> set xs. strip m = m \<and> normpath m = m \<Longrightarrow> clean_mounts (map (\<lambda>m. JObj [(''mount_point'', JStr m)]) xs) = xs"
proof (induction xs)
  case (Cons x xs)
  have "x \<noteq> []" using Cons.prems normpath_nonempty [of x] by auto
  with Cons show ?case by (simp add: clean_mounts_def mount_of_def py_str_def)
qed (simp add: clean_mounts_def)

lemma clean_mounts_normal: "m \<in> set (clean_mounts ms) \<Longrightarrow> normpath m = m"
  by (auto simp: clean_mounts_def mount_of_def normpath_idem split: json.splits option.splits if_splits)

lemma mounts_roundtrip:
  assumes "find_scan_node n db \<noteq> None" and "\<forall>m \<in> set (clean_mounts ms). strip m = m"
  shows "get_node_disk_mounts n (set_node_disk_mounts n ms db) = clean_mounts ms"
proof -
  let ?v = "JArr (map (\<lambda>m. JObj [(''mount_point'', JStr m)]) (clean_mounts ms))"
  obtain x where x: "find_scan_node n db = Some x" using assms(1) by auto
  have f: "find_scan_node n (set_node_disk_mounts n ms db) = Some (x\<lparr>sn_disks_json := Some (json_dumps_spaced ?v)\<rparr>)"
    using x by (simp add: set_node_disk_mounts_def find_scan_node_def Let_def find_after_update del: json_dumps_spaced.simps)
  have "json_dumps_spaced ?v \<noteq> []" by simp
  moreover have "json_loads (json_dumps_spaced ?v) = Some ?v" by (rule json_loads_spaced) (simp add: list_all_iff)
  ultimately show ?thesis
    using assms(2) clean_mounts_normal
    by (simp add: get_node_disk_mounts_def f mounts_of_text_def clean_mounts_objects del: json_dumps_spaced.simps)
qed

section \<open>The handler is confined\<close>

lemma find_mounts_sent: "find_mounts ask io n db = (ms, sent, db1) \<Longrightarrow> set sent \<subseteq> {(''GET_STATS'', [])}"
  by (auto simp: find_mounts_def Let_def split: list.splits if_splits)

lemma normalized_mounts_normal: "m \<in> set (normalized_mounts ms) \<Longrightarrow> normpath m = m"
  by (auto simp: normalized_mounts_def normpath_idem split: json.splits)

text \<open>
  A scan is confined. Whatever is asked, the handler sends at most a question for the
  statistics and one read-only scan; a scan is of an absolute path in normal form that is
  one of the mount points it sends along, and is sent with \<open>force\<close> only for an
  administrator; a scan that is not forced and finds a result of the last five minutes in
  the cache is answered from it without a scan.
\<close>
theorem disk_scan_confined:
  assumes "get_disk_scan ask validate io q db = (res, sent, logged, db')"
  shows "set (map fst sent) \<subseteq> set ALLOWED_ACTIONS \<and> length sent \<le> 2 \<and>
    (\<forall>params. (''DISK_SCAN'', params) \<in> set sent \<longrightarrow>
       (\<exists>path ms. params = scan_params q path ms \<and> path \<in> set ms \<and> normpath path = path \<and> is_prefix_of [SLASH] path \<and>
          (sq_force q \<longrightarrow> sq_role q = ''admin'') \<and>
          (\<not> sq_force q \<longrightarrow> fresh_scan io (sq_node q) path (snd (snd (find_mounts ask io (sq_node q) db))) = None)))"
proof -
  let ?p = "normpath (strip (sq_path q))"
  obtain ms s1 db1 where f: "find_mounts ask io (sq_node q) db = (ms, s1, db1)" by (metis prod_cases3)
  have s1: "set s1 \<subseteq> {(''GET_STATS'', [])}" "length s1 \<le> 1" "(''DISK_SCAN'', x) \<notin> set s1" for x
    using f by (auto simp: find_mounts_def Let_def split: list.splits if_splits)
  have al: "''GET_STATS'' \<in> set ALLOWED_ACTIONS" "''DISK_SCAN'' \<in> set ALLOWED_ACTIONS" by (simp_all add: ALLOWED_ACTIONS_def)
  consider (none) "sent = [] \<or> sent = s1"
    | (scan) "sent = s1 @ [(''DISK_SCAN'', scan_params q ?p (normalized_mounts ms))]" "?p \<in> set (normalized_mounts ms)"
        "\<not> bad_path (sq_path q)" "\<not> (sq_force q \<and> sq_role q \<noteq> ''admin'')"
        "\<not> sq_force q \<longrightarrow> fresh_scan io (sq_node q) ?p db1 = None"
    using assms f by (auto simp: get_disk_scan_def Let_def split: if_splits option.splits query_outcome.splits prod.splits)
  then show ?thesis
  proof cases
    case none
    then have "set sent \<subseteq> {(''GET_STATS'', [])}" "length sent \<le> 1" using s1 by auto
    with al s1(3) none show ?thesis by auto
  next
    case scan
    have "set (map fst sent) \<subseteq> set ALLOWED_ACTIONS" "length sent \<le> 2" using scan(1) s1 al by auto
    moreover have "is_prefix_of [SLASH] ?p" using scan(3) unfolding bad_path_def by blast
    moreover have "normpath ?p = ?p" by (rule normpath_idem)
    moreover have "snd (snd (find_mounts ask io (sq_node q) db)) = db1" by (simp add: f)
    ultimately show ?thesis using scan s1(3) by auto
  qed
qed

definition demo_scan :: scan_request where
  "demo_scan = \<lparr>sq_node = ''n1'', sq_sub = ''u1'', sq_role = ''operator'', sq_path = ''/var/..'', sq_force = False, sq_max_depth = 4, sq_min_size = 0\<rparr>"

definition demo_scan_io :: scan_io where
  "demo_scan_io = \<lparr>so_cache_now = 10, so_write_now = 11, so_reads = (True, True), so_stats_write = True, so_cache_write = True, so_legacy_write = True\<rparr>"

theorem disk_scan_confined_witness:
  "\<exists>path ms. scan_params demo_scan ROOT [ROOT] = scan_params demo_scan path ms \<and> path \<in> set ms \<and> normpath path = path \<and> is_prefix_of [SLASH] path"
proof -
  let ?ask = "\<lambda>a ps. Timed_Out []"
  have "\<exists>res logged db'. get_disk_scan ?ask (\<lambda>_. None) demo_scan_io demo_scan demo_disk_db =
      (res, [(''GET_STATS'', []), (''DISK_SCAN'', scan_params demo_scan ROOT [ROOT])], logged, db')"
    by (intro exI) code_simp
  then obtain res logged db' where "get_disk_scan ?ask (\<lambda>_. None) demo_scan_io demo_scan demo_disk_db =
      (res, [(''GET_STATS'', []), (''DISK_SCAN'', scan_params demo_scan ROOT [ROOT])], logged, db')" by blast
  from disk_scan_confined [OF this] show ?thesis by auto
qed

end
