(* ===== verification/Node_Api.thy ===== *)
theory Node_Api
  imports Disk_Cache Worker_Session
begin

text \<open>
  Handlers of \<open>api/nodes.py\<close> for callers that are not the demo user: reading logs and log
  overviews of a node, the latest metrics of one node and of many, and the changes of a
  node (patch, confirmation of its configuration, a new join token). The answer of the
  worker and the validation of its entries (Pydantic) are arguments.
\<close>

section \<open>Logs\<close>

record log_query =
  lq_lines :: int
  lq_service :: "string option"
  lq_path :: "string option"
  lq_since :: "string option"
  lq_until :: "string option"

definition text_given :: "string option \<Rightarrow> bool" where
  "text_given x = (case x of None \<Rightarrow> False | Some s \<Rightarrow> s \<noteq> [])"

definition service_char :: "char \<Rightarrow> bool" where
  "service_char c \<longleftrightarrow> (let n = (of_char c :: nat) in (97 \<le> n \<and> n \<le> 122) \<or> (65 \<le> n \<and> n \<le> 90) \<or> (48 \<le> n \<and> n \<le> 57)) \<or> c \<in> set ''_-.@:''"

definition service_pattern :: "string \<Rightarrow> bool" where
  "service_pattern s \<longleftrightarrow> 1 \<le> length s \<and> length s \<le> 128 \<and> list_all service_char s"

definition query_valid :: "log_query \<Rightarrow> bool" where
  "query_valid q \<longleftrightarrow> 1 \<le> lq_lines q \<and> lq_lines q \<le> 500 \<and> (case lq_service q of None \<Rightarrow> True | Some s \<Rightarrow> service_pattern s)"

definition log_path :: "string \<Rightarrow> string" where
  "log_path p = normpath (replace_char (CHR 0x5C) SLASH p)"

definition log_allowed :: "string \<Rightarrow> bool" where
  "log_allowed p \<longleftrightarrow> is_prefix_of ''/var/log/'' p \<or> p = ''/var/log''"

definition optional_text :: "string \<Rightarrow> string option \<Rightarrow> (string, json) dict" where
  "optional_text k x = (case x of None \<Rightarrow> [] | Some s \<Rightarrow> if s = [] then [] else [(k, JStr s)])"

definition log_request :: "log_query \<Rightarrow> http_error + string \<times> (string, json) dict" where
  "log_request q =
     (let params = [(''lines'', JInt (lq_lines q))] @ optional_text ''since'' (lq_since q) @ optional_text ''until'' (lq_until q)
      in if text_given (lq_service q) then Inr (''READ_LOGS_SERVICE'', params @ [(''service'', JStr (the (lq_service q)))])
         else if text_given (lq_path q) then
           (let clean = log_path (the (lq_path q))
            in if log_allowed clean then Inr (''READ_LOGS'', params @ [(''path'', JStr clean)])
               else Inl (Http 403 (JStr ''Path outside allowed prefix (/var/log/)'')))
         else Inr (''READ_LOGS'', params @ [(''path'', JStr ''/var/log/syslog'')]))"

definition effective_path :: "log_query \<Rightarrow> string option" where
  "effective_path q = (if text_given (lq_service q) then None else if text_given (lq_path q) then lq_path q else Some ''/var/log/syslog'')"

record logs_response =
  lr_output :: string
  lr_lines :: int
  lr_entries :: "json list"
  lr_service :: "string option"
  lr_path :: "string option"
  lr_error :: "string option"

definition items_of :: "(json \<Rightarrow> json option) \<Rightarrow> json \<Rightarrow> json list option" where
  \<comment> \<open>\<open>[Model(**e) for e in v]\<close>: only an array, or something empty, can be read\<close>
  "items_of validate v =
     (case v of JArr es \<Rightarrow> those (map validate es) | JObj [] \<Rightarrow> Some [] | JStr [] \<Rightarrow> Some [] | _ \<Rightarrow> None)"

definition structured_output :: "(json \<Rightarrow> json option) \<Rightarrow> string \<Rightarrow> (json list \<times> json) option" where
  "structured_output validate raw =
     (if is_prefix_of ''{'' raw \<and> is_infix_of ''entries'' raw then
        (case json_loads raw of
           Some (JObj kvs) \<Rightarrow>
             (case map_of kvs ''entries'' of
                None \<Rightarrow> None
              | Some v \<Rightarrow> (case items_of validate v of None \<Rightarrow> None | Some es \<Rightarrow> Some (es, dict_get kvs ''output'' (JStr raw))))
         | _ \<Rightarrow> None)
      else None)"

definition text_or_none :: "json \<Rightarrow> string option option" where
  "text_or_none v = (case v of JNull \<Rightarrow> Some None | JStr s \<Rightarrow> Some (Some s) | _ \<Rightarrow> None)"

definition logs_of_answer :: "(json \<Rightarrow> json option) \<Rightarrow> log_query \<Rightarrow> (string, json) dict \<Rightarrow> http_error + logs_response" where
  "logs_of_answer validate q r =
     (case dict_get r ''output'' (JStr []) of
        JStr raw \<Rightarrow>
          (let (entries, plain) = (case structured_output validate raw of None \<Rightarrow> ([], JStr raw) | Some x \<Rightarrow> x);
               err = (if json_truthy (dict_get r ''success'' JNull) then JNull else dict_get r ''error'' JNull)
           in case (plain, text_or_none err) of
                (JStr out, Some e) \<Rightarrow>
                  Inr \<lparr>lr_output = out, lr_lines = (if entries = [] then lq_lines q else int (length entries)), lr_entries = entries,
                       lr_service = lq_service q, lr_path = effective_path q, lr_error = e\<rparr>
              | _ \<Rightarrow> Inl (Raised ''ValidationError''))
      | _ \<Rightarrow> Inl (Raised ''AttributeError''))"

definition get_node_logs ::
  "(string \<Rightarrow> (string, json) dict \<Rightarrow> query_outcome) \<Rightarrow> (json \<Rightarrow> json option) \<Rightarrow> bool \<Rightarrow> log_query \<Rightarrow> (http_error + logs_response) \<times> sent" where
  "get_node_logs ask validate known q =
     (if \<not> query_valid q then (Inl (Http 422 JNull), [])
      else if \<not> known then (Inl (Http 404 (JStr ''Node not found'')), [])
      else
        (case log_request q of
           Inl e \<Rightarrow> (Inl e, [])
         | Inr (action, params) \<Rightarrow>
             (case ask action params of
                Not_Connected e \<Rightarrow> (Inl (Http 503 (JStr e)), [(action, params)])
              | Timed_Out _ \<Rightarrow> (Inl (Http 504 (JStr ''Worker did not respond to log request in time'')), [(action, params)])
              | Answer r \<Rightarrow> (logs_of_answer validate q r, [(action, params)]))))"

definition overview ::
  "(string \<Rightarrow> (string, json) dict \<Rightarrow> query_outcome) \<Rightarrow> string \<Rightarrow> string \<Rightarrow> bool \<Rightarrow> http_error + (string, json) dict" where
  \<comment> \<open>the part that the log sources and the histogram share: every failure of the query is a 503\<close>
  "overview ask action failed known =
     (if \<not> known then Inl (Http 404 (JStr ''Node not found''))
      else
        (case ask action [] of
           Not_Connected e \<Rightarrow> Inl (Http 503 (JStr e))
         | Timed_Out e \<Rightarrow> Inl (Http 503 (JStr e))
         | Answer r \<Rightarrow>
             if json_truthy (dict_get r ''success'' JNull) then Inr r else Inl (Http 502 (dict_get r ''error'' (JStr failed)))))"

definition get_node_log_sources ::
  "(string \<Rightarrow> (string, json) dict \<Rightarrow> query_outcome) \<Rightarrow> (json \<Rightarrow> json option) \<Rightarrow> bool \<Rightarrow> http_error + json list" where
  "get_node_log_sources ask validate known =
     (case overview ask ''LIST_LOG_SOURCES'' ''failed to list log sources'' known of
        Inl e \<Rightarrow> Inl e
      | Inr r \<Rightarrow>
          (case dict_get r ''output'' (JStr ''[]'') of
             JStr t \<Rightarrow>
               (case json_loads t of
                  None \<Rightarrow> Inr []
                | Some v \<Rightarrow> (case items_of validate v of None \<Rightarrow> Inr [] | Some xs \<Rightarrow> Inr xs))
           | _ \<Rightarrow> Inr []))"

record histogram =
  hg_buckets :: "json list"
  hg_errors :: json
  hg_warnings :: json
  hg_lines :: json

definition empty_histogram :: histogram where
  "empty_histogram = \<lparr>hg_buckets = [], hg_errors = JInt 0, hg_warnings = JInt 0, hg_lines = JInt 0\<rparr>"

definition get_node_log_histogram ::
  "(string \<Rightarrow> (string, json) dict \<Rightarrow> query_outcome) \<Rightarrow> (json \<Rightarrow> json option) \<Rightarrow> (json \<Rightarrow> bool) \<Rightarrow> bool \<Rightarrow> http_error + histogram" where
  "get_node_log_histogram ask validate is_count known =
     (case overview ask ''LOG_HISTOGRAM'' ''failed to fetch log histogram'' known of
        Inl e \<Rightarrow> Inl e
      | Inr r \<Rightarrow>
          (case dict_get r ''output'' (JStr ''{}'') of
             JStr t \<Rightarrow>
               (case json_loads t of
                  Some (JObj kvs) \<Rightarrow>
                    (let count = (\<lambda>k. dict_get kvs k (JInt 0))
                     in case items_of validate (dict_get kvs ''buckets'' (JArr [])) of
                          None \<Rightarrow> Inr empty_histogram
                        | Some bs \<Rightarrow>
                            if list_all is_count [count ''total_errors'', count ''total_warnings'', count ''total_lines''] then
                              Inr \<lparr>hg_buckets = bs, hg_errors = count ''total_errors'', hg_warnings = count ''total_warnings'', hg_lines = count ''total_lines''\<rparr>
                            else Inr empty_histogram)
                | _ \<Rightarrow> Inr empty_histogram)
           | _ \<Rightarrow> Inr empty_histogram))"

section \<open>Latest metrics\<close>

record snapshot =
  sp_node :: string
  sp_collected :: time
  sp_values :: "json \<times> json \<times> json \<times> json"

type_synonym node_view = "(string, json) dict"

definition newest_first :: "snapshot list \<Rightarrow> snapshot list" where
  "newest_first ss = sort_key (\<lambda>s. - sp_collected s) ss"

definition metric_fields :: "snapshot \<Rightarrow> node_view" where
  "metric_fields s = (case sp_values s of (c, m, d, u) \<Rightarrow> [(''cpu_percent'', c), (''memory_percent'', m), (''disk_percent'', d), (''uptime_seconds'', u)])"

definition view_id :: "node_view \<Rightarrow> string" where
  "view_id nd = (case map_of nd ''id'' of Some (JStr i) \<Rightarrow> i | _ \<Rightarrow> [])"

definition add_node_metrics :: "snapshot list \<Rightarrow> node_view \<Rightarrow> node_view" where
  "add_node_metrics ss nd =
     (case newest_first (filter (\<lambda>s. sp_node s = view_id nd) ss) of [] \<Rightarrow> nd | s # _ \<Rightarrow> dict_merge nd (metric_fields s))"

definition row_number :: "snapshot list \<Rightarrow> nat \<Rightarrow> nat" where
  \<comment> \<open>\<open>ROW_NUMBER() OVER (PARTITION BY node_id ORDER BY collected_at DESC)\<close> of the i-th row of the ordered rows\<close>
  "row_number ss i = length (filter (\<lambda>s. sp_node s = sp_node (ss ! i)) (take (Suc i) ss))"

definition ranked_first :: "snapshot list \<Rightarrow> snapshot list" where
  "ranked_first ss = map (\<lambda>i. newest_first ss ! i) (filter (\<lambda>i. row_number (newest_first ss) i = 1) [0..<length ss])"

definition snapshots_map :: "string list \<Rightarrow> snapshot list \<Rightarrow> (string, node_view) dict" where
  "snapshots_map ids ss =
     fold (\<lambda>s. AList.update (sp_node s) (metric_fields s)) (ranked_first (filter (\<lambda>s. sp_node s \<in> set ids) ss)) []"

definition add_bulk_node_metrics :: "snapshot list \<Rightarrow> node_view list \<Rightarrow> node_view list" where
  "add_bulk_node_metrics ss nds =
     (if nds = [] then nds
      else
        (let m = snapshots_map (map view_id nds) ss
         in map (\<lambda>nd. case map_of m (view_id nd) of None \<Rightarrow> nd | Some f \<Rightarrow> dict_merge nd f) nds))"

section \<open>Changes of a node\<close>

datatype api_error = Api_Http nat string | Api_Node node_error

record patch_body =
  pb_name :: "string option"
  pb_group :: "string option"
  pb_disabled :: "bool option"

definition text_length_ok :: "nat \<Rightarrow> string option \<Rightarrow> bool" where
  "text_length_ok low x = (case x of None \<Rightarrow> True | Some s \<Rightarrow> low \<le> length s \<and> length s \<le> 128)"

definition patch_rest ::
  "hash \<Rightarrow> node_io \<Rightarrow> string \<Rightarrow> string \<Rightarrow> patch_body \<Rightarrow> node_manager \<Rightarrow> node_store \<Rightarrow> (api_error + (node_row \<times> bool) option) \<times> node_manager \<times> node_store" where
  "patch_rest H io sub node_id b m db =
     (if pb_name b \<noteq> None \<or> pb_group b \<noteq> None then
        (case patch_metadata H io node_id (pb_name b) (if pb_group b = Some [] then None else pb_group b) sub db of
           (Inl e, db1) \<Rightarrow> (Inl (Api_Node e), m, db1)
         | (Inr _, db1) \<Rightarrow> (Inr (get_node node_id m db1), m, db1))
      else (Inr (get_node node_id m db), m, db))"

definition patch_node ::
  "hash \<Rightarrow> node_io \<Rightarrow> node_io \<Rightarrow> string \<Rightarrow> string \<Rightarrow> string \<Rightarrow> patch_body \<Rightarrow> node_manager \<Rightarrow> node_store \<Rightarrow>
     (api_error + (node_row \<times> bool) option) \<times> node_manager \<times> node_store" where
  "patch_node H io1 io2 role sub node_id b m db =
     (if \<not> (text_length_ok 1 (pb_name b) \<and> text_length_ok 0 (pb_group b)) then (Inl (Api_Http 422 []), m, db)
      else if find_node node_id db = None then (Inl (Api_Http 404 ''Node not found''), m, db)
      else
        (case pb_disabled b of
           None \<Rightarrow> patch_rest H io2 sub node_id b m db
         | Some d \<Rightarrow>
             if role \<noteq> ''admin'' then (Inl (Api_Http 403 ''Admin role required to enable/disable a node''), m, db)
             else
               (case set_disabled H io1 node_id d sub m db of
                  (Inl e, m1, db1) \<Rightarrow> (Inl (Api_Node e), m1, db1)
                | (Inr _, m1, db1) \<Rightarrow> patch_rest H io2 sub node_id b m1 db1)))"

definition is_value_error :: "node_error \<Rightarrow> bool" where
  "is_value_error e = (case e of NodeIntegrity \<Rightarrow> False | NodeAudit _ \<Rightarrow> False | _ \<Rightarrow> True)"

definition configure_node_api ::
  "hash \<Rightarrow> node_io \<Rightarrow> string \<Rightarrow> string \<Rightarrow> string option \<Rightarrow> node_manager \<Rightarrow> node_store \<Rightarrow> (api_error + (node_row \<times> bool) option) \<times> node_store" where
  "configure_node_api H io node_id name grp m db =
     (if \<not> (text_length_ok 1 (Some name) \<and> text_length_ok 0 grp) then (Inl (Api_Http 422 []), db)
      else
        (case find_node node_id db of
           None \<Rightarrow> (Inl (Api_Http 404 ''Node not found''), db)
         | Some r \<Rightarrow>
             if col r ''state'' \<noteq> SqlText (node_state_str NS_UNCONFIGURED) then (Inl (Api_Http 409 ''Node is not awaiting configuration''), db)
             else
               (case configure_node H io node_id name grp db of
                  (Inl e, db1) \<Rightarrow> (Inl (if is_value_error e then Api_Http 409 [] else Api_Node e), db1)
                | (Inr _, db1) \<Rightarrow> (Inr (get_node node_id m db1), db1))))"

definition text_col :: "node_row \<Rightarrow> string \<Rightarrow> string" where
  "text_col r k = (case col r k of SqlText s \<Rightarrow> s | _ \<Rightarrow> [])"

definition regenerate_join_token ::
  "hash \<Rightarrow> session_env \<Rightarrow> node_io \<Rightarrow> time \<Rightarrow> string \<Rightarrow> string \<Rightarrow> string \<Rightarrow> string \<Rightarrow> node_store \<Rightarrow> (api_error + string) \<times> node_store" where
  "regenerate_join_token H env io now jti token_id sub node_id db =
     (case find_node node_id db of
        None \<Rightarrow> (Inl (Api_Http 404 ''Node not found''), db)
      | Some r \<Rightarrow>
          if col r ''state'' \<noteq> SqlText (node_state_str NS_PENDING) then (Inl (Api_Http 409 ''Node already enrolled. Cannot regenerate token.''), db)
          else
            (let (k, db1) = invalidate_join_tokens (ni_now io) node_id db
             in case issue_join_token env now jti token_id node_id [] (text_col r ''name'') (text_col r ''node_group'') db1 of
                  (Inl e, db2) \<Rightarrow> (Inl (Api_Node e), db2)
                | (Inr token, db2) \<Rightarrow>
                    (case update_node node_id [(''updated_at'', SqlReal now)] db2 of
                       None \<Rightarrow> (Inl (Api_Node NodeIntegrity), db2)
                     | Some db3 \<Rightarrow>
                         (case node_log H io sub AA_REGENERATE_JOIN_TOKEN (Some node_id) [(''invalidated'', JInt (int k))] db3 of
                            (Inl e, db4) \<Rightarrow> (Inl (Api_Node e), db4)
                          | (Inr _, db4) \<Rightarrow> (Inr token, db4)))))"

section \<open>Logs stay below /var/log\<close>

lemma var_log: "''/var/log'' = [SLASH] @ join_with [SLASH] [''var'', ''log'']" "list_all plain_comp [''var'', ''log'']"
  by (simp_all add: SLASH_def plain_comp_def)

lemma log_path_below:
  assumes "log_allowed (log_path p)" and "log_path p \<noteq> ''/var/log''"
  shows "\<exists>r. log_path p = ''/var/log/'' @ r \<and> r \<noteq> [] \<and> list_all plain_comp (split_on SLASH r)"
proof -
  obtain r where r: "log_path p = ''/var/log/'' @ r" using assms by (auto simp: log_allowed_def is_prefix_of_iff)
  have e: "normpath (replace_char (CHR 0x5C) SLASH p) = ''/var/log'' @ [SLASH] @ r" using r by (simp add: log_path_def SLASH_def)
  from normpath_below [OF e var_log] r show ?thesis by blast
qed

text \<open>
  C28. Reading logs is confined. Whatever an operator asks for, at most one message is sent, and
  it is a read-only one: either for a service, whose name has only letters, digits and the
  five signs of the pattern and at most 128 characters, or for a file that is \<open>/var/log\<close>
  itself or lies below it along plain components, so that no dot, double dot, backslash or
  repeated slash leads out; and it asks for between 1 and 500 lines.
\<close>
theorem log_requests_confined:
  assumes "get_node_logs ask validate known q = (res, sent)"
  shows "length sent \<le> 1 \<and> (\<forall>(action, params) \<in> set sent.
    known \<and> action \<in> set ALLOWED_ACTIONS \<and> (\<exists>n. map_of params ''lines'' = Some (JInt n) \<and> 1 \<le> n \<and> n \<le> 500) \<and>
    ((action = ''READ_LOGS_SERVICE'' \<and> (\<exists>s. map_of params ''service'' = Some (JStr s) \<and> service_pattern s)) \<or>
     (action = ''READ_LOGS'' \<and> (\<exists>p. map_of params ''path'' = Some (JStr p) \<and>
        (p = ''/var/log'' \<or> (\<exists>r. p = ''/var/log/'' @ r \<and> r \<noteq> [] \<and> list_all plain_comp (split_on SLASH r)))))))"
proof (cases "sent = []")
  case False
  then obtain action params where v: "query_valid q" "known" and l: "log_request q = Inr (action, params)" and s: "sent = [(action, params)]"
    using assms by (auto simp: get_node_logs_def split: if_splits sum.splits query_outcome.splits)
  have sys: "''/var/log/syslog'' = ''/var/log/'' @ ''syslog''" "list_all plain_comp (split_on SLASH ''syslog'')"
    by (simp_all add: plain_comp_def SLASH_def)
  have lines: "map_of params ''lines'' = Some (JInt (lq_lines q))"
    using l by (auto simp: log_request_def Let_def split: if_splits)
  consider (service) s where "lq_service q = Some s" "action = ''READ_LOGS_SERVICE''" "map_of params ''service'' = Some (JStr s)"
    | (file_path) p where "action = ''READ_LOGS''" "map_of params ''path'' = Some (JStr (log_path p))" "log_allowed (log_path p)"
    | (syslog) "action = ''READ_LOGS''" "map_of params ''path'' = Some (JStr ''/var/log/syslog'')"
    using l by (auto simp: log_request_def Let_def text_given_def optional_text_def split: if_splits option.splits)
  then show ?thesis
  proof cases
    case (service s)
    then have "service_pattern s" using v(1) by (simp add: query_valid_def)
    with service lines v \<open>sent = [(action, params)]\<close> show ?thesis by (auto simp: query_valid_def ALLOWED_ACTIONS_def)
  next
    case (file_path p)
    with log_path_below [of p] lines v s show ?thesis by (auto simp: query_valid_def ALLOWED_ACTIONS_def)
  next
    case syslog
    with sys lines v s show ?thesis by (auto simp: query_valid_def ALLOWED_ACTIONS_def)
  qed
qed simp

definition demo_log_query :: "string \<Rightarrow> log_query" where
  "demo_log_query p = \<lparr>lq_lines = 50, lq_service = None, lq_path = Some p, lq_since = None, lq_until = None\<rparr>"

theorem log_requests_confined_witness:
  "\<exists>p. map_of [(''lines'', JInt 50), (''path'', JStr ''/var/log/nginx/error.log'')] ''path'' = Some (JStr p) \<and>
     (\<exists>r. p = ''/var/log/'' @ r \<and> list_all plain_comp (split_on SLASH r))"
proof -
  have "get_node_logs (\<lambda>a ps. Timed_Out []) (\<lambda>_. None) True (demo_log_query ''/var//log/x/../nginx/error.log'') =
      (Inl (Http 504 (JStr ''Worker did not respond to log request in time'')),
       [(''READ_LOGS'', [(''lines'', JInt 50), (''path'', JStr ''/var/log/nginx/error.log'')])])"
    by code_simp
  from log_requests_confined [OF this] show ?thesis by auto
qed

lemma traversal_refused: "get_node_logs ask validate True (demo_log_query ''/var/log/../../etc/shadow'') = (Inl (Http 403 (JStr ''Path outside allowed prefix (/var/log/)'')), [])"
proof -
  have "log_request (demo_log_query ''/var/log/../../etc/shadow'') = Inl (Http 403 (JStr ''Path outside allowed prefix (/var/log/)''))"
    "query_valid (demo_log_query ''/var/log/../../etc/shadow'')" by code_simp+
  then show ?thesis by (simp add: get_node_logs_def)
qed

section \<open>Metrics in bulk\<close>

lemma sort_newest_filter: "newest_first (filter P ss) = filter P (newest_first ss)"
  by (simp add: newest_first_def filter_sort)

lemma first_of_node:
  assumes "i < length ss" and "row_number ss i = 1"
  shows "hd (filter (\<lambda>s. sp_node s = sp_node (ss ! i)) ss) = ss ! i"
proof -
  let ?P = "\<lambda>s. sp_node s = sp_node (ss ! i)"
  have "filter ?P (take i ss) = []"
    using assms by (simp add: row_number_def take_Suc_conv_app_nth)
  moreover have "filter ?P ss = filter ?P (take i ss) @ filter ?P (drop i ss)" by (metis append_take_drop_id filter_append)
  ultimately show ?thesis using assms(1) by (simp add: Cons_nth_drop_Suc [symmetric])
qed

lemma first_exists:
  assumes "filter (\<lambda>s. sp_node s = n) ss \<noteq> []"
  shows "\<exists>i < length ss. row_number ss i = 1 \<and> sp_node (ss ! i) = n"
proof -
  obtain ys x zs where d: "ss = ys @ x # zs" "sp_node x = n" "\<forall>y \<in> set ys. sp_node y \<noteq> n"
    using assms split_list_first_prop [of ss "\<lambda>s. sp_node s = n"] by (auto simp: filter_empty_conv)
  have "filter (\<lambda>s. sp_node s = n) ys = []" using d(3) by (simp add: filter_empty_conv)
  then have "row_number ss (length ys) = 1" using d(1,2) by (simp add: row_number_def)
  with d show ?thesis by (intro exI [of _ "length ys"]) simp
qed

lemma ranked_first_iff: "s \<in> set (ranked_first ss) \<longleftrightarrow> filter (\<lambda>x. sp_node x = sp_node s) (newest_first ss) \<noteq> [] \<and> s = hd (filter (\<lambda>x. sp_node x = sp_node s) (newest_first ss))"
proof -
  let ?t = "newest_first ss"
  have l: "length ?t = length ss" by (simp add: newest_first_def)
  show ?thesis
  proof
    assume "s \<in> set (ranked_first ss)"
    then obtain i where i: "i < length ?t" "row_number ?t i = 1" "s = ?t ! i" by (auto simp: ranked_first_def l)
    have "s \<in> set (filter (\<lambda>x. sp_node x = sp_node s) ?t)" using i by simp
    then have "filter (\<lambda>x. sp_node x = sp_node s) ?t \<noteq> []" by (cases "filter (\<lambda>x. sp_node x = sp_node s) ?t") simp_all
    with first_of_node [OF i(1,2)] show "filter (\<lambda>x. sp_node x = sp_node s) ?t \<noteq> [] \<and> s = hd (filter (\<lambda>x. sp_node x = sp_node s) ?t)"
      unfolding i(3) [symmetric] by simp
  next
    assume a: "filter (\<lambda>x. sp_node x = sp_node s) ?t \<noteq> [] \<and> s = hd (filter (\<lambda>x. sp_node x = sp_node s) ?t)"
    then obtain i where i: "i < length ?t" "row_number ?t i = 1" "sp_node (?t ! i) = sp_node s" using first_exists [of "sp_node s" ?t] by auto
    have "s = hd (filter (\<lambda>x. sp_node x = sp_node s) ?t)" using a by (rule conjunct2)
    also have "\<dots> = ?t ! i" using first_of_node [OF i(1,2)] unfolding i(3) .
    finally have "s = ?t ! i" .
    with i(1,2) show "s \<in> set (ranked_first ss)" by (auto simp: ranked_first_def l)
  qed
qed

lemma ranked_first_unique:
  assumes "s \<in> set (ranked_first ss)" and "t \<in> set (ranked_first ss)" and "sp_node s = sp_node t"
  shows "s = t"
proof -
  have "s = hd (filter (\<lambda>x. sp_node x = sp_node s) (newest_first ss))" using assms(1) unfolding ranked_first_iff [of s] by (rule conjunct2)
  also have "\<dots> = t" using assms(2) unfolding ranked_first_iff [of t] assms(3) by (rule conjunct2 [THEN sym])
  finally show ?thesis .
qed

lemma fold_update_lookup:
  "(\<forall>s \<in> set xs. \<forall>t \<in> set xs. sp_node s = sp_node t \<longrightarrow> s = t) \<Longrightarrow>
   map_of (fold (\<lambda>s. AList.update (sp_node s) (f s)) xs d) n = (case List.find (\<lambda>s. sp_node s = n) xs of None \<Rightarrow> map_of d n | Some s \<Rightarrow> Some (f s))"
proof (induction xs arbitrary: d)
  case (Cons x xs)
  have "List.find (\<lambda>s. sp_node s = n) xs = Some x \<or> List.find (\<lambda>s. sp_node s = n) xs = None" if "sp_node x = n"
    using Cons.prems that by (cases "List.find (\<lambda>s. sp_node s = n) xs") (auto simp: find_Some_iff)
  with Cons show ?case by (auto simp: py_dict split: option.split)
qed simp

text \<open>
  C31. The bulk query is the single query for every node: merging the ranked snapshots of all
  nodes at once gives each node what its own query for the latest snapshot gives.
\<close>
theorem bulk_metrics_equiv: "add_bulk_node_metrics ss nds = map (add_node_metrics ss) nds"
proof (cases "nds = []")
  case False
  let ?in = "filter (\<lambda>s. sp_node s \<in> set (map view_id nds)) ss"
  have u: "\<forall>s \<in> set (ranked_first ?in). \<forall>t \<in> set (ranked_first ?in). sp_node s = sp_node t \<longrightarrow> s = t"
    using ranked_first_unique by blast
  have "(case map_of (snapshots_map (map view_id nds) ss) (view_id nd) of None \<Rightarrow> nd | Some f \<Rightarrow> dict_merge nd f) = add_node_metrics ss nd"
    if nd: "nd \<in> set nds" for nd
  proof -
    have n: "newest_first (filter (\<lambda>s. sp_node s = view_id nd) ss) = filter (\<lambda>s. sp_node s = view_id nd) (newest_first ?in)"
      using nd unfolding sort_newest_filter filter_filter by (auto intro!: filter_cong)
    have m: "map_of (snapshots_map (map view_id nds) ss) (view_id nd) =
        map_option metric_fields (List.find (\<lambda>s. sp_node s = view_id nd) (ranked_first ?in))"
      unfolding snapshots_map_def fold_update_lookup [OF u] by (simp split: option.split)
    show ?thesis
    proof (cases "newest_first (filter (\<lambda>s. sp_node s = view_id nd) ss)")
      case Nil
      then have "List.find (\<lambda>s. sp_node s = view_id nd) (ranked_first ?in) = None"
        unfolding find_None_iff using n ranked_first_iff [of _ ?in] by auto
      with m Nil show ?thesis by (simp add: add_node_metrics_def)
    next
      case (Cons s rest)
      have sn: "sp_node s = view_id nd" using Cons n by (metis (mono_tags, lifting) filter_eq_ConsD)
      have s: "s \<in> set (ranked_first ?in)" unfolding ranked_first_iff sn n [symmetric] Cons by simp
      have "List.find (\<lambda>s. sp_node s = view_id nd) (ranked_first ?in) = Some s"
      proof (cases "List.find (\<lambda>s. sp_node s = view_id nd) (ranked_first ?in)")
        case None
        with s sn show ?thesis by (auto simp: find_None_iff)
      next
        case (Some t)
        then have "t \<in> set (ranked_first ?in)" "sp_node t = view_id nd" by (auto simp: find_Some_iff)
        with u s sn Some show ?thesis by metis
      qed
      with m Cons show ?thesis by (simp add: add_node_metrics_def)
    qed
  qed
  with False show ?thesis by (simp add: add_bulk_node_metrics_def Let_def)
qed (simp add: add_bulk_node_metrics_def)

section \<open>Changes of a node\<close>

definition guarded_columns :: "node_store \<Rightarrow> (sqlval \<times> sqlval \<times> sqlval) list" where
  "guarded_columns db = map (\<lambda>r. (col r ''id'', col r ''state'', col r ''disabled'')) (nodes db)"

lemma guarded_update:
  assumes "update_node n cols db = Some db'" and "set (dict_keys cols) \<inter> {''id'', ''state'', ''disabled''} = {}"
  shows "guarded_columns db' = guarded_columns db"
proof -
  have "db' = db\<lparr>nodes := sql_update (\<lambda>r. col r ''id'' = SqlText n) (\<lambda>r. dict_merge r cols) (nodes db)\<rparr>"
    using assms(1) by (simp add: update_node_def split: if_splits)
  moreover have "col (dict_merge r cols) k = col r k" if "k \<in> {''id'', ''state'', ''disabled''}" for r k
    using assms(2) that by (intro col_merge_notin) auto
  ultimately show ?thesis by (auto simp: guarded_columns_def sql_update_def)
qed

lemma node_log_nodes: "nodes (snd (node_log H io u a n d db)) = nodes db" "join_tokens (snd (node_log H io u a n d db)) = join_tokens db"
  by (auto simp: node_log_def split: prod.split sum.split)

lemma guarded_patch: "guarded_columns (snd (patch_metadata H io n name grp u db)) = guarded_columns db"
proof -
  have k: "set (dict_keys (patch_columns (ni_now io) name grp)) \<inter> {''id'', ''state'', ''disabled''} = {}"
    by (auto simp: patch_columns_def dict_keys_def split: option.splits)
  have l: "guarded_columns (snd (node_log H io u AA_UPDATE_NODE (Some n) (patch_details name grp) db)) = guarded_columns db"
    by (simp add: guarded_columns_def node_log_nodes)
  show ?thesis
    using l guarded_update [OF _ k] by (auto simp: patch_metadata_def Let_def split: option.split prod.split sum.split)
qed

lemma patch_rest_db: "snd (snd (patch_rest H io u n b m db)) = db \<or>
    (\<exists>name grp. snd (snd (patch_rest H io u n b m db)) = snd (patch_metadata H io n name grp u db))"
  by (auto simp: patch_rest_def split: prod.split sum.split) (metis snd_conv)+

lemma patch_node_cases:
  assumes "patch_node H io1 io2 role sub n b m db = (res, m', db')"
  obtains (err) e where "res = Inl e" "m' = m" "db' = db"
  | (meta) "(res, m', db') = patch_rest H io2 sub n b m db" "pb_disabled b = None"
  | (flag) d where "role = ''admin''" "pb_disabled b = Some d"
      "db' = snd (snd (set_disabled H io1 n d sub m db)) \<or>
       (\<exists>m1. db' = snd (snd (patch_rest H io2 sub n b m1 (snd (snd (set_disabled H io1 n d sub m db))))))"
proof (cases "\<not> (text_length_ok 1 (pb_name b) \<and> text_length_ok 0 (pb_group b)) \<or> find_node n db = None")
  case True
  with assms err show thesis unfolding patch_node_def by (auto split: if_split_asm)
next
  case False
  then have v: "text_length_ok 1 (pb_name b)" "text_length_ok 0 (pb_group b)" "find_node n db \<noteq> None" by auto
  show thesis
  proof (cases "pb_disabled b")
    case None
    then have "(res, m', db') = patch_rest H io2 sub n b m db" using assms v unfolding patch_node_def by auto
    then show thesis using None by (rule meta)
  next
    case (Some d)
    show thesis
    proof (cases "role = ''admin''")
      case True
      obtain r m1 db1 where sd: "set_disabled H io1 n d sub m db = (r, m1, db1)" by (metis prod_cases3)
      have "db' = db1 \<or> db' = snd (snd (patch_rest H io2 sub n b m1 db1))"
        using assms v Some True sd unfolding patch_node_def by (cases r) auto
      with flag [OF True Some] sd show thesis by auto
    next
      case False
      with assms v Some err show thesis unfolding patch_node_def by auto
    qed
  qed
qed

text \<open>
  A patch follows the lifecycle and the roles: the states of all nodes move as the
  lifecycle allows, and a caller who is not an administrator changes neither the state nor
  the disabled flag of any node, whatever the request holds; when it names the flag it is
  refused and nothing changes.
\<close>
theorem patch_respects_roles:
  assumes "patch_node H io1 io2 role sub n b m db = (res, m', db')"
  shows "lawful db db' \<and> (role \<noteq> ''admin'' \<longrightarrow> guarded_columns db' = guarded_columns db \<and> m' = m) \<and>
    (role \<noteq> ''admin'' \<and> pb_disabled b \<noteq> None \<longrightarrow> db' = db \<and> (\<exists>e. res = Inl e))"
proof -
  let ?p = "\<lambda>m db. patch_rest H io2 sub n b m db"
  have l: "lawful x (snd (snd (?p m x)))" for m x
    using patch_rest_db [of H io2 sub n b m x] lawful_patch by (metis lawful_refl)
  have g: "guarded_columns (snd (snd (?p m x))) = guarded_columns x" "fst (snd (?p m x)) = m" for m x
    using patch_rest_db [of H io2 sub n b m x] guarded_patch
    by metis (auto simp: patch_rest_def split: prod.split sum.split)
  from assms show ?thesis
  proof (cases rule: patch_node_cases)
    case err
    then show ?thesis by simp
  next
    case meta
    then have "db' = snd (snd (?p m db))" "m' = fst (snd (?p m db))" by (metis snd_conv, metis fst_conv snd_conv)
    with l g meta(2) show ?thesis by simp
  next
    case (flag d)
    have s: "lawful db (snd (snd (set_disabled H io1 n d sub m db)))" by (rule lawful_set_disabled)
    from flag(3) have "lawful db db'"
    proof
      assume "\<exists>m1. db' = snd (snd (?p m1 (snd (snd (set_disabled H io1 n d sub m db)))))"
      then show ?thesis using lawful_trans [OF s l] by auto
    qed (use s in simp)
    with flag(1) show ?thesis by simp
  qed
qed

definition demo_node_store :: node_store where
  "demo_node_store = \<lparr>nodes = [[(''id'', SqlText ''n1''), (''name'', SqlText ''web''), (''state'', SqlText ''PENDING''), (''disabled'', SqlInt 0),
      (''created_at'', SqlReal 1), (''updated_at'', SqlReal 1), (''node_group'', SqlText [])]],
    join_tokens = [\<lparr>jt_id = ''t0'', jt_node_id = ''n1'', jt_token_hash = ''h0'', jt_payload_b64 = [], jt_consumed = False, jt_expires_at = 9, jt_created_at = 1\<rparr>],
    worker_tokens = [], node_audit = [], node_events = []\<rparr>"

definition demo_node_io :: node_io where
  "demo_node_io = \<lparr>ni_now = 5, ni_log_now = 5, ni_log_uuid = ''a1'', ni_repr = (\<lambda>_. ''5.0'')\<rparr>"

theorem patch_respects_roles_witness:
  "snd (snd (patch_node id demo_node_io demo_node_io ''operator'' ''u1'' ''n1'' \<lparr>pb_name = None, pb_group = None, pb_disabled = Some True\<rparr>
     (init_node_manager None) demo_node_store)) = demo_node_store"
proof -
  obtain res m' db' where p: "patch_node id demo_node_io demo_node_io ''operator'' ''u1'' ''n1'' \<lparr>pb_name = None, pb_group = None, pb_disabled = Some True\<rparr>
     (init_node_manager None) demo_node_store = (res, m', db')" by (metis prod_cases3)
  from patch_respects_roles [OF this] p show ?thesis by simp
qed

text \<open>
  The documented way to clear the group, an empty text, changes nothing: the handler turns
  it into the value that means the field is absent.
\<close>

lemma empty_group_never_clears:
  "snd (snd (patch_node H io1 io2 role sub n \<lparr>pb_name = None, pb_group = Some [], pb_disabled = None\<rparr> m db)) = db"
  by (simp add: patch_node_def patch_rest_def patch_metadata_def patch_columns_def)

text \<open>
  A new join token replaces the old ones: when a token is issued for a node again, the node
  is pending, and afterwards the token that was returned is the only one of the node that
  is not consumed.
\<close>
theorem regenerated_token_is_sole:
  assumes "regenerate_join_token H env io now jti tid sub n db = (Inr token, db')"
  shows "(\<exists>r. find_node n db = Some r \<and> col r ''state'' = SqlText ''PENDING'') \<and>
    map jt_token_hash (filter (\<lambda>t. jt_node_id t = n \<and> \<not> jt_consumed t) (join_tokens db')) = [join_token_hash (se_sha256 env) token]"
proof -
  obtain r k db1 db2 db3 where r: "find_node n db = Some r" "col r ''state'' = SqlText ''PENDING''"
    and i: "invalidate_join_tokens (ni_now io) n db = (k, db1)"
    and t: "issue_join_token env now jti tid n [] (text_col r ''name'') (text_col r ''node_group'') db1 = (Inr token, db2)"
    and u: "update_node n [(''updated_at'', SqlReal now)] db2 = Some db3"
    and l: "db' = snd (node_log H io sub AA_REGENERATE_JOIN_TOKEN (Some n) [(''invalidated'', JInt (int k))] db3)"
    using assms by (auto simp: regenerate_join_token_def split: option.splits if_splits prod.splits sum.splits)
  have e: "filter (\<lambda>t. jt_node_id t = n \<and> \<not> jt_consumed t) (join_tokens db1) = []"
    using i by (auto simp: invalidate_join_tokens_def Let_def sql_update_def filter_empty_conv split: if_splits)
  obtain row where "db2 = db1\<lparr>join_tokens := join_tokens db1 @ [row]\<rparr>" "jt_node_id row = n" "\<not> jt_consumed row"
      "jt_token_hash row = join_token_hash (se_sha256 env) token"
    using t by (auto simp: issue_join_token_def insert_join_token_def Let_def split: if_splits)
  moreover have "join_tokens db' = join_tokens db2"
    using u l by (auto simp: node_log_nodes update_node_def split: if_splits)
  ultimately show ?thesis using e r by simp
qed

lemma log_on_empty: "node_audit db = [] \<Longrightarrow> \<exists>db'. node_log H io u act n d db = (Inr (), db')"
  by (simp add: node_log_def log_action_def eval_nat_numeral insert_entry_def)

lemma regenerate_first:
  assumes "find_node n db = Some r" and "col r ''state'' = SqlText ''PENDING''" and "join_tokens db = []" and "node_audit db = []"
  shows "\<exists>token db'. regenerate_join_token H env io now jti tid sub n db = (Inr token, db')"
proof -
  have i: "invalidate_join_tokens (ni_now io) n db = (0, db)" using assms(3) by (simp add: invalidate_join_tokens_def)
  obtain token row where t: "issue_join_token env now jti tid n [] (text_col r ''name'') (text_col r ''node_group'') db = (Inr token, db\<lparr>join_tokens := [row]\<rparr>)"
    using assms(3) by (simp add: issue_join_token_def insert_join_token_def Let_def)
  obtain db3 where u: "update_node n [(''updated_at'', SqlReal now)] (db\<lparr>join_tokens := [row]\<rparr>) = Some db3" "node_audit db3 = []"
    using assms(4) by (simp add: update_node_def)
  obtain db4 where "node_log H io sub AA_REGENERATE_JOIN_TOKEN (Some n) [(''invalidated'', JInt (int 0))] db3 = (Inr (), db4)"
    using log_on_empty [OF u(2)] by blast
  with assms(1,2) i t u(1) show ?thesis by (simp add: regenerate_join_token_def)
qed

theorem regenerated_token_is_sole_witness:
  "\<exists>token db'. regenerate_join_token id sample_env demo_node_io 5 ''j1'' ''t1'' ''u1'' ''n1'' (demo_node_store\<lparr>join_tokens := []\<rparr>) = (Inr token, db') \<and>
     map jt_token_hash (filter (\<lambda>t. jt_node_id t = ''n1'' \<and> \<not> jt_consumed t) (join_tokens db')) = [join_token_hash (se_sha256 sample_env) token]"
proof -
  let ?db = "demo_node_store\<lparr>join_tokens := []\<rparr>"
  have "find_node ''n1'' ?db = Some (hd (nodes ?db))" "col (hd (nodes ?db)) ''state'' = SqlText ''PENDING''" "join_tokens ?db = []" "node_audit ?db = []"
    by (simp_all add: demo_node_store_def find_node_def col_def dict_get_def)
  from regenerate_first [OF this] obtain token db' where
    r: "regenerate_join_token id sample_env demo_node_io 5 ''j1'' ''t1'' ''u1'' ''n1'' ?db = (Inr token, db')" by blast
  show ?thesis by (intro exI conjI) (rule r, rule conjunct2 [OF regenerated_token_is_sole [OF r]])
qed

end
