(* ===== verification/Service_Cache.thy ===== *)
theory Service_Cache
  imports Disk_Cache
begin

text \<open>
  The cache of the services of a node (\<open>db/service_cache.py\<close>), the reading of worker output
  (\<open>core/plugin_utils.py\<close>), the collector that fills the cache
  (\<open>core/jobs/service_collector.py\<close>) and the endpoints that list services and containers
  (\<open>api/services.py\<close>, the routes of \<open>plugins/systemd\<close> and \<open>plugins/docker\<close>), for callers
  that are not the demo user. The validation of an entry (Pydantic) and the answers of the
  workers are arguments; callers that share one query are those of \<open>Single_Flight\<close>.
\<close>

section \<open>The cache\<close>

record service_node =
  sc_id :: string
  sc_json :: "string option"
  sc_at :: "time option"

type_synonym service_table = "service_node list"

definition TTL_SECONDS :: time where
  "TTL_SECONDS = 300"

definition find_service_node :: "string \<Rightarrow> service_table \<Rightarrow> service_node option" where
  "find_service_node node_id tbl = sql_fetchone (\<lambda>r. sc_id r = node_id) tbl"

definition get_cached_services :: "string \<Rightarrow> service_table \<Rightarrow> string option \<times> time option" where
  "get_cached_services node_id tbl =
     (case find_service_node node_id tbl of None \<Rightarrow> (None, None) | Some r \<Rightarrow> (sc_json r, sc_at r))"

definition cacheable :: "string \<Rightarrow> bool" where
  "cacheable t \<longleftrightarrow> t \<noteq> [] \<and> strip t \<noteq> [] \<and> strip t \<noteq> ''null'' \<and> (case json_loads t of Some (JArr _) \<Rightarrow> True | _ \<Rightarrow> False)"

definition set_cached_services :: "string \<Rightarrow> string \<Rightarrow> time \<Rightarrow> service_table \<Rightarrow> service_table" where
  "set_cached_services node_id json_data ts tbl =
     (if cacheable json_data then sql_update (\<lambda>r. sc_id r = node_id) (\<lambda>r. r\<lparr>sc_json := Some json_data, sc_at := Some ts\<rparr>) tbl else tbl)"

definition invalidate_cached_services :: "string \<Rightarrow> service_table \<Rightarrow> service_table" where
  "invalidate_cached_services node_id tbl = sql_update (\<lambda>r. sc_id r = node_id) (\<lambda>r. r\<lparr>sc_at := Some 0\<rparr>) tbl"

definition is_stale :: "time \<Rightarrow> time option \<Rightarrow> bool" where
  "is_stale now cached_at = (case cached_at of None \<Rightarrow> True | Some t \<Rightarrow> TTL_SECONDS < now - t)"

section \<open>Worker output\<close>

definition json_text :: "json \<Rightarrow> json option" where
  \<comment> \<open>\<open>json.loads\<close> of a value of an answer: only a text can be read\<close>
  "json_text v = (case v of JStr t \<Rightarrow> json_loads t | _ \<Rightarrow> None)"

definition parse_worker_list :: "(json \<Rightarrow> 'a option) \<Rightarrow> json \<Rightarrow> 'a list option" where
  "parse_worker_list validate out = (case json_text out of Some (JArr items) \<Rightarrow> those (map validate items) | _ \<Rightarrow> None)"

definition parse_worker_object :: "(json \<Rightarrow> 'a option) \<Rightarrow> json \<Rightarrow> 'a option" where
  "parse_worker_object validate out = (case json_text out of None \<Rightarrow> None | Some v \<Rightarrow> validate v)"

definition parse_worker_output :: "(json \<Rightarrow> 'a option) \<Rightarrow> json \<Rightarrow> ('a list + 'a) option" where
  "parse_worker_output validate out =
     (case json_text out of
        Some (JArr items) \<Rightarrow> map_option Inl (those (map validate items))
      | Some (JObj kvs) \<Rightarrow> map_option Inr (validate (JObj kvs))
      | _ \<Rightarrow> None)"

record service_info =
  si_name :: string
  si_state :: string
  si_status :: string

definition dump_service :: "service_info \<Rightarrow> json" where
  "dump_service s = JObj [(''name'', JStr (si_name s)), (''state'', JStr (si_state s)), (''status'', JStr (si_status s))]"

definition services_text :: "json list \<Rightarrow> string" where
  "services_text es = json_dumps_spaced (JArr es)"

definition answer_ok :: "(string, json) dict \<Rightarrow> bool" where
  "answer_ok r \<longleftrightarrow> json_truthy (dict_get r ''success'' JNull)"

definition answer_output :: "(string, json) dict \<Rightarrow> json" where
  "answer_output r = dict_get r ''output'' (JStr [])"

section \<open>The endpoint of a node\<close>

record service_list =
  sl_services :: "json list"
  sl_cached_at :: "time option"
  sl_stale :: bool
  sl_errors :: "string list"

record list_io =
  li_now :: time
  li_live_now :: time
  li_write :: bool

datatype live = Live "json list" time | Live_Failed string | Live_Raised http_error

definition cached_services :: "string option \<Rightarrow> json list \<times> bool" where
  \<comment> \<open>with a flag that the cache cannot be used\<close>
  "cached_services c =
     (case c of
        None \<Rightarrow> ([], True)
      | Some t \<Rightarrow> (case json_loads t of None \<Rightarrow> ([], True) | Some (JArr xs) \<Rightarrow> (xs, False) | Some _ \<Rightarrow> ([], False)))"

definition live_query :: "(json \<Rightarrow> service_info option) \<Rightarrow> list_io \<Rightarrow> string \<Rightarrow> query_outcome \<Rightarrow> service_table \<Rightarrow> live \<times> service_table" where
  "live_query validate io node_id out tbl =
     (case out of
        Not_Connected e \<Rightarrow> (Live_Raised (Http 503 (JStr e)), tbl)
      | Timed_Out _ \<Rightarrow> (Live_Raised (Http 504 (JStr ''Worker did not respond to LIST_SERVICES request in time'')), tbl)
      | Answer r \<Rightarrow>
          if answer_ok r then
            (case parse_worker_list validate (answer_output r) of
               None \<Rightarrow> (Live_Failed ''unparseable service list'', tbl)
             | Some ps \<Rightarrow>
                 (let es = map dump_service (take 500 ps)
                  in (Live es (li_live_now io),
                      if li_write io then set_cached_services node_id (services_text es) (li_live_now io) tbl else tbl)))
          else (Live_Failed (py_str (dict_get r ''error'' (JStr ''worker failure''))), tbl))"

definition text_dict :: "json \<Rightarrow> bool" where
  \<comment> \<open>\<open>dict[str, str]\<close>\<close>
  "text_dict v = (case v of JObj kvs \<Rightarrow> list_all (\<lambda>(k, x). case x of JStr _ \<Rightarrow> True | _ \<Rightarrow> False) kvs | _ \<Rightarrow> False)"

definition service_response :: "json list \<Rightarrow> time option \<Rightarrow> bool \<Rightarrow> string list \<Rightarrow> http_error + service_list" where
  "service_response services cached_at stale errors =
     (if list_all text_dict (take 500 services)
      then Inr \<lparr>sl_services = take 500 services, sl_cached_at = cached_at, sl_stale = stale, sl_errors = errors\<rparr>
      else Inl (Raised ''ValidationError''))"

definition disabled_detail :: "string \<Rightarrow> string" where
  "disabled_detail p = ''Plugin '' @ [CHR 0x27] @ p @ [CHR 0x27] @ '' est d'' @ [CHR 0xE9] @ ''sactiv'' @ [CHR 0xE9] @ ''.''"

definition disabled_plugin :: "string \<Rightarrow> http_error" where
  "disabled_plugin p = Http 400 (JStr (disabled_detail p))"

definition list_services_api ::
  "(string \<Rightarrow> (string, json) dict \<Rightarrow> query_outcome) \<Rightarrow> (json \<Rightarrow> service_info option) \<Rightarrow> list_io \<Rightarrow> bool \<Rightarrow> bool \<Rightarrow> string \<Rightarrow> service_table \<Rightarrow>
     (http_error + service_list) \<times> sent \<times> service_table" where
  "list_services_api ask validate io active force node_id tbl =
     (if \<not> active then (Inl (disabled_plugin ''systemd''), [], tbl)
      else if find_service_node node_id tbl = None then (Inl (Http 404 (JStr ''Node not found'')), [], tbl)
      else
        (let (c, since) = get_cached_services node_id tbl;
             (services, broken) = cached_services c;
             stale = (broken \<or> is_stale (li_now io) since)
         in if force \<or> c = None then
              (case live_query validate io node_id (ask ''LIST_SERVICES'' []) tbl of
                 (Live es t, tbl') \<Rightarrow> (service_response es (Some t) False [], [(''LIST_SERVICES'', [])], tbl')
               | (Live_Failed e, tbl') \<Rightarrow> (service_response services since True [e], [(''LIST_SERVICES'', [])], tbl')
               | (Live_Raised e, tbl') \<Rightarrow> (Inl e, [(''LIST_SERVICES'', [])], tbl'))
            else (service_response services since stale [], [], tbl)))"

record service_status =
  ss_service :: string
  ss_active :: string
  ss_enabled :: string

definition get_service_status ::
  "(string \<Rightarrow> (string, json) dict \<Rightarrow> query_outcome) \<Rightarrow> (json \<Rightarrow> service_status option) \<Rightarrow> bool \<Rightarrow> bool \<Rightarrow> string \<Rightarrow> http_error + service_status" where
  "get_service_status ask validate active known service =
     (if \<not> active then Inl (disabled_plugin ''systemd'')
      else if \<not> known then Inl (Http 404 (JStr ''Node not found''))
      else
        (case ask ''STATUS_SERVICE'' [(''service'', JStr service)] of
           Not_Connected e \<Rightarrow> Inl (Http 503 (JStr e))
         | Timed_Out _ \<Rightarrow> Inl (Http 504 (JStr ''Worker did not respond to STATUS_SERVICE request in time''))
         | Answer r \<Rightarrow>
             (case (if answer_ok r then parse_worker_object validate (answer_output r) else None) of
                Some s \<Rightarrow> Inr s
              | None \<Rightarrow> Inr \<lparr>ss_service = service, ss_active = ''unknown'', ss_enabled = ''unknown''\<rparr>)))"

definition list_containers_api ::
  "(string \<Rightarrow> (string, json) dict \<Rightarrow> query_outcome) \<Rightarrow> (json \<Rightarrow> json option) \<Rightarrow> bool \<Rightarrow> bool \<Rightarrow> http_error + json list" where
  "list_containers_api ask validate active known =
     (if \<not> active then Inl (disabled_plugin ''docker'')
      else if \<not> known then Inl (Http 404 (JStr ''Node not found''))
      else
        (case ask ''LIST_CONTAINERS'' [] of
           Not_Connected e \<Rightarrow> Inl (Http 503 (JStr e))
         | Timed_Out _ \<Rightarrow> Inl (Http 504 (JStr ''Worker did not respond to LIST_CONTAINERS request in time''))
         | Answer r \<Rightarrow>
             (case (if answer_ok r then parse_worker_list validate (answer_output r) else None) of
                Some cs \<Rightarrow> Inr cs
              | None \<Rightarrow> Inr [])))"

section \<open>The page of the systemd plugin\<close>

definition page_entry :: "string \<Rightarrow> json \<Rightarrow> json option" where
  "page_entry nid srv =
     (case srv of
        JObj kvs \<Rightarrow>
          (case map_of kvs ''name'' of
             None \<Rightarrow> None
           | Some n \<Rightarrow>
               Some (JObj [(''node_id'', dict_get kvs ''node_id'' (JStr nid)), (''name'', n),
                           (''state'', dict_get kvs ''state'' (JStr [])), (''status'', dict_get kvs ''status'' (JStr []))]))
      | _ \<Rightarrow> None)"

definition page_cached :: "string \<Rightarrow> string option \<Rightarrow> json list \<times> bool" where
  "page_cached nid c =
     (case cached_services c of (xs, broken) \<Rightarrow> (map the (filter (\<lambda>x. x \<noteq> None) (map (page_entry nid) xs)), broken))"

definition page_dump :: "string \<Rightarrow> service_info \<Rightarrow> json" where
  "page_dump nid s =
     JObj [(''node_id'', JStr nid), (''name'', JStr (si_name s)), (''state'', JStr (si_state s)), (''status'', JStr (si_status s))]"

definition page_live :: "(json \<Rightarrow> service_info option) \<Rightarrow> list_io \<Rightarrow> string \<Rightarrow> query_outcome \<Rightarrow> service_table \<Rightarrow> (string + json list) \<times> service_table" where
  "page_live validate io nid out tbl =
     (case out of
        Not_Connected e \<Rightarrow> (Inl (nid @ '': '' @ e), tbl)
      | Timed_Out e \<Rightarrow> (Inl (nid @ '': '' @ e), tbl)
      | Answer r \<Rightarrow>
          if answer_ok r then
            (case parse_worker_list validate (answer_output r) of
               None \<Rightarrow> (Inl (nid @ '': unparseable service list''), tbl)
             | Some ps \<Rightarrow>
                 (let es = map (page_dump nid) ps
                  in (Inr es, if li_write io then set_cached_services nid (services_text es) (li_live_now io) tbl else tbl)))
          else
            (let err = dict_get r ''error'' JNull
             in (Inl (nid @ '': '' @ (if json_truthy err then py_str err else ''worker returned success=false'')), tbl)))"

definition list_services_route ::
  "(string \<Rightarrow> (string, json) dict \<Rightarrow> query_outcome) \<Rightarrow> (json \<Rightarrow> service_info option) \<Rightarrow> list_io \<Rightarrow> time \<Rightarrow> bool \<Rightarrow> string option \<Rightarrow> service_table \<Rightarrow>
     (http_error + service_list) \<times> sent \<times> service_table" where
  \<comment> \<open>without a node the route calls \<open>get_connected_nodes\<close>, which the node manager does not have\<close>
  "list_services_route ask validate io seen force node_id tbl =
     (if node_id = None \<or> node_id = Some [] then (Inl (Raised ''AttributeError''), [], tbl)
      else
        (let nid = the node_id;
             (c, since) = get_cached_services nid tbl;
             (services, broken) = page_cached nid c;
             stale = (broken \<or> is_stale (li_now io) since);
             response = (\<lambda>xs t s errs. Inr \<lparr>sl_services = take 500 xs, sl_cached_at = t, sl_stale = s \<or> t = None, sl_errors = errs\<rparr>)
         in if force \<or> c = None then
              (case page_live validate io nid (ask ''LIST_SERVICES'' []) tbl of
                 (Inr es, tbl') \<Rightarrow> (response es (Some (case since of None \<Rightarrow> seen | Some t \<Rightarrow> max t seen)) stale [], [(''LIST_SERVICES'', [])], tbl')
               | (Inl e, tbl') \<Rightarrow> (response services since True [e], [(''LIST_SERVICES'', [])], tbl'))
            else (response services since stale [], [], tbl)))"

definition list_containers_route ::
  "(string \<Rightarrow> (string, json) dict \<Rightarrow> query_outcome) \<Rightarrow> (json \<Rightarrow> json option) \<Rightarrow> string option \<Rightarrow> http_error + json list" where
  \<comment> \<open>the validated container has the five fields that follow the node\<close>
  "list_containers_route ask validate node_id =
     (if node_id = None \<or> node_id = Some [] then Inl (Raised ''AttributeError'')
      else
        (case ask ''LIST_CONTAINERS'' [] of
           Answer r \<Rightarrow>
             (case (if answer_ok r then parse_worker_list validate (answer_output r) else None) of
                Some cs \<Rightarrow> Inr (map (\<lambda>c. case c of JObj kvs \<Rightarrow> JObj ((''node_id'', JStr (the node_id)) # kvs) | _ \<Rightarrow> c) cs)
              | None \<Rightarrow> Inr [])
         | _ \<Rightarrow> Inr []))"

section \<open>The collector\<close>

record collected =
  co_node :: string
  co_success :: bool
  co_error :: json
  co_count :: nat

definition collect_one ::
  "(json \<Rightarrow> service_info option) \<Rightarrow> (string \<Rightarrow> query_outcome) \<Rightarrow> (string \<Rightarrow> time) \<Rightarrow> (string \<Rightarrow> string option) \<Rightarrow> string \<Rightarrow> service_table \<Rightarrow> collected \<times> service_table" where
  \<comment> \<open>\<open>broken\<close> is the message of a failing write\<close>
  "collect_one validate reply now broken node_id tbl =
     (let failed = (\<lambda>e. \<lparr>co_node = node_id, co_success = False, co_error = e, co_count = 0\<rparr>)
      in case reply node_id of
           Not_Connected e \<Rightarrow> (failed (JStr e), tbl)
         | Timed_Out e \<Rightarrow> (failed (JStr e), tbl)
         | Answer r \<Rightarrow>
             if \<not> answer_ok r then (failed (dict_get r ''error'' JNull), tbl)
             else
               (case parse_worker_list validate (answer_output r) of
                  None \<Rightarrow> (failed (JStr ''unparseable''), tbl)
                | Some ps \<Rightarrow>
                    (case broken node_id of
                       Some e \<Rightarrow> (failed (JStr e), tbl)
                     | None \<Rightarrow>
                         (\<lparr>co_node = node_id, co_success = True, co_error = JNull, co_count = length ps\<rparr>,
                          set_cached_services node_id (services_text (map dump_service ps)) (now node_id) tbl))))"

fun collect_each ::
  "(json \<Rightarrow> service_info option) \<Rightarrow> (string \<Rightarrow> query_outcome) \<Rightarrow> (string \<Rightarrow> time) \<Rightarrow> (string \<Rightarrow> string option) \<Rightarrow> string list \<Rightarrow> service_table \<Rightarrow> collected list \<times> service_table" where
  "collect_each validate reply now broken [] tbl = ([], tbl)"
| "collect_each validate reply now broken (n # ns) tbl =
     (let (d, tbl1) = collect_one validate reply now broken n tbl; (ds, tbl2) = collect_each validate reply now broken ns tbl1
      in (d # ds, tbl2))"

record collection =
  cn_collected :: nat
  cn_errors :: "string list"
  cn_details :: "collected list"

definition collect_services_for_all_nodes ::
  "(json \<Rightarrow> service_info option) \<Rightarrow> (string \<Rightarrow> query_outcome) \<Rightarrow> (string \<Rightarrow> time) \<Rightarrow> (string \<Rightarrow> string option) \<Rightarrow> string list \<Rightarrow> service_table \<Rightarrow> collection \<times> service_table" where
  "collect_services_for_all_nodes validate reply now broken ids tbl =
     (let (ds, tbl') = collect_each validate reply now broken ids tbl
      in (\<lparr>cn_collected = length (filter co_success ds),
           cn_errors = map (\<lambda>d. co_node d @ '': '' @ py_str (co_error d)) (filter (\<lambda>d. \<not> co_success d \<and> json_truthy (co_error d)) ds),
           cn_details = ds\<rparr>, tbl'))"

section \<open>Properties of the cache\<close>

lemma plain_service_text:
  "json_plain (dump_service s)" "text_dict (dump_service s)" "json_plain (page_dump n s)"
  by (simp_all add: dump_service_def page_dump_def text_dict_def)

lemma services_text_loads: "list_all json_plain es \<Longrightarrow> json_loads (services_text es) = Some (JArr es)"
  unfolding services_text_def by (rule json_loads_spaced) simp

lemma services_text_shape: "services_text es = CHR ''['' # join_with '', '' (map json_dumps_spaced es) @ '']''"
  by (simp add: services_text_def)

lemma strip_brackets: "strip (CHR ''['' # s @ '']'') = CHR ''['' # s @ '']''"
  by (simp add: strip_def lstrip_def is_space_def)

lemma cacheable_services: "list_all json_plain es \<Longrightarrow> cacheable (services_text es)"
proof -
  assume p: "list_all json_plain es"
  have "strip (services_text es) = services_text es" "services_text es \<noteq> []" "services_text es \<noteq> ''null''"
    unfolding services_text_shape strip_brackets by simp_all
  with services_text_loads [OF p] show ?thesis by (simp add: cacheable_def)
qed

lemma find_service_update:
  "(\<And>r. sc_id (f r) = sc_id r) \<Longrightarrow>
   find_service_node m (sql_update (\<lambda>r. sc_id r = k) f tbl) = map_option (if m = k then f else id) (find_service_node m tbl)"
  unfolding find_service_node_def by (induction tbl) (auto simp: option.map_id)

lemma find_set_cached:
  "find_service_node m (set_cached_services k t ts tbl) =
     map_option (if m = k \<and> cacheable t then (\<lambda>r. r\<lparr>sc_json := Some t, sc_at := Some ts\<rparr>) else id) (find_service_node m tbl)"
  by (simp add: set_cached_services_def find_service_update option.map_id)

lemma cached_after_set:
  "get_cached_services m (set_cached_services k t ts tbl) =
     (if m = k \<and> cacheable t \<and> find_service_node m tbl \<noteq> None then (Some t, Some ts) else get_cached_services m tbl)"
  by (auto simp: get_cached_services_def find_set_cached split: option.split)

lemma cached_after_invalidate:
  "get_cached_services m (invalidate_cached_services k tbl) =
     (if m = k \<and> find_service_node m tbl \<noteq> None then (fst (get_cached_services m tbl), Some 0) else get_cached_services m tbl)"
  by (auto simp: get_cached_services_def invalidate_cached_services_def find_service_update option.map_id split: option.split)

lemma live_query_stored:
  assumes "live_query validate io n out tbl = (Live es t, tbl')" and "li_write io" and "find_service_node n tbl \<noteq> None"
  shows "get_cached_services n tbl' = (Some (services_text es), Some t) \<and> t = li_live_now io \<and> list_all json_plain es \<and> length es \<le> 500 \<and>
    find_service_node n tbl' \<noteq> None"
proof -
  obtain ps where e: "es = map dump_service (take 500 ps)" "t = li_live_now io" "tbl' = set_cached_services n (services_text es) (li_live_now io) tbl"
    using assms(1,2) by (auto simp: live_query_def Let_def split: query_outcome.splits if_splits option.splits)
  have "list_all json_plain es" by (simp add: e(1) list_all_iff plain_service_text)
  with cacheable_services [OF this] assms(3) e show ?thesis by (auto simp: cached_after_set find_set_cached)
qed


definition demo_services :: service_table where
  "demo_services = [\<lparr>sc_id = ''n1'', sc_json = None, sc_at = None\<rparr>, \<lparr>sc_id = ''n2'', sc_json = Some ''[]'', sc_at = Some 5\<rparr>]"

definition demo_list_io :: list_io where
  "demo_list_io = \<lparr>li_now = 10, li_live_now = 11, li_write = True\<rparr>"

definition demo_validate :: "json \<Rightarrow> service_info option" where
  "demo_validate v =
     (case v of
        JObj kvs \<Rightarrow>
          (case (map_of kvs ''name'', map_of kvs ''state'', map_of kvs ''status'') of
             (Some (JStr a), Some (JStr b), Some (JStr c)) \<Rightarrow> Some \<lparr>si_name = a, si_state = b, si_status = c\<rparr>
           | _ \<Rightarrow> None)
      | _ \<Rightarrow> None)"

definition demo_reply :: query_outcome where
  "demo_reply = Answer [(''success'', JBool True), (''output'', JStr (services_text [dump_service \<lparr>si_name = ''ssh'', si_state = ''active'', si_status = ''running''\<rparr>]))]"


section \<open>Properties of the collector\<close>

definition fresh_services :: "(json \<Rightarrow> service_info option) \<Rightarrow> query_outcome \<Rightarrow> service_info list option" where
  \<comment> \<open>the services an outcome brings, if any\<close>
  "fresh_services validate out =
     (case out of Answer r \<Rightarrow> if answer_ok r then parse_worker_list validate (answer_output r) else None | _ \<Rightarrow> None)"

definition collects :: "(json \<Rightarrow> service_info option) \<Rightarrow> (string \<Rightarrow> query_outcome) \<Rightarrow> (string \<Rightarrow> string option) \<Rightarrow> string \<Rightarrow> bool" where
  "collects validate reply broken n \<longleftrightarrow> fresh_services validate (reply n) \<noteq> None \<and> broken n = None"

lemma collect_one_effect:
  assumes "collect_one validate reply now broken n tbl = (d, tbl')"
  shows "co_success d = collects validate reply broken n" "co_node d = n"
    "find_service_node m tbl' = None \<longleftrightarrow> find_service_node m tbl = None"
    "get_cached_services m tbl' =
       (if m = n \<and> collects validate reply broken n \<and> find_service_node m tbl \<noteq> None
        then (Some (services_text (map dump_service (the (fresh_services validate (reply n))))), Some (now n)) else get_cached_services m tbl)"
proof -
  have c: "cacheable (services_text (map dump_service ps))" for ps
    by (rule cacheable_services) (simp add: list_all_iff plain_service_text)
  show "co_success d = collects validate reply broken n" "co_node d = n" "find_service_node m tbl' = None \<longleftrightarrow> find_service_node m tbl = None"
    "get_cached_services m tbl' =
       (if m = n \<and> collects validate reply broken n \<and> find_service_node m tbl \<noteq> None
        then (Some (services_text (map dump_service (the (fresh_services validate (reply n))))), Some (now n)) else get_cached_services m tbl)"
    using assms
    by (auto simp: collect_one_def Let_def collects_def fresh_services_def cached_after_set find_set_cached c split: query_outcome.splits if_splits option.splits)
qed

lemma collect_each_effect:
  assumes "collect_each validate reply now broken ns tbl = (ds, tbl')" and "distinct ns"
  shows "map co_node ds = ns \<and> map co_success ds = map (collects validate reply broken) ns \<and>
    (find_service_node m tbl' = None \<longleftrightarrow> find_service_node m tbl = None) \<and>
    get_cached_services m tbl' =
      (if m \<in> set ns \<and> collects validate reply broken m \<and> find_service_node m tbl \<noteq> None
       then (Some (services_text (map dump_service (the (fresh_services validate (reply m))))), Some (now m)) else get_cached_services m tbl)"
  using assms
proof (induction ns arbitrary: tbl ds)
  case (Cons n ns)
  obtain d tbl1 where o: "collect_one validate reply now broken n tbl = (d, tbl1)" by (metis prod.exhaust)
  obtain ds1 where e: "collect_each validate reply now broken ns tbl1 = (ds1, tbl')" and d: "ds = d # ds1"
    using Cons.prems(1) o by (auto split: prod.splits)
  from Cons.IH [OF e] Cons.prems(2) collect_one_effect(1,2) [OF o] collect_one_effect(3,4) [OF o, where m = m] show ?case by (auto simp: d)
qed simp

text \<open>
  The collector is exact and failures stay local: after a pass over the connected nodes the
  cache of a node holds the fresh list with its time when the node was connected, answered
  with a readable list and could be written, and is untouched otherwise, whatever happened
  to other nodes; the report counts exactly those and has one detail per node in order.
\<close>
theorem collector_exact:
  assumes "collect_services_for_all_nodes validate reply now broken ids tbl = (rep, tbl')" and "distinct ids"
    and "\<forall>n \<in> set ids. find_service_node n tbl \<noteq> None"
  shows "get_cached_services m tbl' =
      (if m \<in> set ids \<and> collects validate reply broken m
       then (Some (services_text (map dump_service (the (fresh_services validate (reply m))))), Some (now m)) else get_cached_services m tbl) \<and>
    cn_collected rep = card {n \<in> set ids. collects validate reply broken n} \<and> map co_node (cn_details rep) = ids"
proof -
  obtain ds where c: "collect_each validate reply now broken ids tbl = (ds, tbl')" and r: "cn_collected rep = length (filter co_success ds)" "cn_details rep = ds"
    using assms(1) by (auto simp: collect_services_for_all_nodes_def Let_def split: prod.splits)
  note e = collect_each_effect [OF c assms(2), of m]
  have "length (filter co_success ds) = length (filter id (map co_success ds))" by (simp add: filter_map comp_def)
  also have "\<dots> = length (filter (collects validate reply broken) ids)"
    using e by (simp add: filter_map comp_def)
  also have "\<dots> = card {n \<in> set ids. collects validate reply broken n}"
    using assms(2) by (simp add: distinct_length_filter Collect_conj_eq Int_commute)
  finally show ?thesis using e r assms(3) by auto
qed

theorem collector_exact_witness:
  "\<exists>rep tbl'. collect_services_for_all_nodes demo_validate (\<lambda>n. if n = ''n1'' then demo_reply else Timed_Out ''late'') (\<lambda>n. 20) (\<lambda>n. None) [''n1'', ''n2''] demo_services = (rep, tbl') \<and>
     get_cached_services ''n2'' tbl' = (Some ''[]'', Some 5)"
proof -
  let ?r = "\<lambda>n. if n = ''n1'' then demo_reply else Timed_Out ''late''"
  obtain rep tbl' where c: "collect_services_for_all_nodes demo_validate ?r (\<lambda>n. 20) (\<lambda>n. None) [''n1'', ''n2''] demo_services = (rep, tbl')"
    by (metis prod.exhaust)
  have "\<not> collects demo_validate ?r (\<lambda>n. None) ''n2''" by (simp add: collects_def fresh_services_def)
  then have "get_cached_services ''n2'' tbl' = (Some ''[]'', Some 5)"
    using collector_exact [OF c, of "''n2''"] by (simp add: find_service_node_def get_cached_services_def demo_services_def)
  with c show ?thesis by blast
qed

section \<open>Two divergences\<close>

text \<open>
  The page of the plugin reports a listing as stale even when it has just been fetched: the
  flag set while the missing cache was read is never taken back.
\<close>

lemma fetched_page_is_stale:
  assumes "get_cached_services n tbl = (None, None)" and "n \<noteq> []"
    and "list_services_route ask validate io seen force (Some n) tbl = (Inr resp, sent, tbl')"
  shows "sl_stale resp"
  using assms by (auto simp: list_services_route_def page_cached_def cached_services_def Let_def split: prod.splits sum.splits)

text \<open>
  A migrated node starts with an empty cached list and no time: its services are empty and
  stale, and the worker is asked only when a refresh is forced.
\<close>

lemma migrated_node_never_asked:
  assumes "get_cached_services n tbl = (Some ''[]'', None)" and "find_service_node n tbl \<noteq> None"
  shows "list_services_api ask validate io True False n tbl =
    (Inr \<lparr>sl_services = [], sl_cached_at = None, sl_stale = True, sl_errors = []\<rparr>, [], tbl)"
proof -
  have "json_loads ''[]'' = Some (JArr [])" by code_simp
  with assms show ?thesis by (simp add: list_services_api_def cached_services_def service_response_def is_stale_def)
qed

end
