(* ===== verification/Worker_Actions.thy ===== *)
theory Worker_Actions
  imports Service_Cache Proposal_Api
begin

text \<open>
  The direct actions of people on services and containers: the routes of the pages
  (\<open>plugins/systemd\<close>, \<open>plugins/docker\<close>) and the restarts of \<open>api/services.py\<close>, for callers
  that are not the demo user. Each creates an approved proposal and sends it through the
  dispatcher of \<open>Proposal_Dispatcher\<close>. The two fields of a body are texts.
\<close>

section \<open>State and shared steps\<close>

record fleet_db =
  fd_master :: master_db
  fd_services :: service_table

datatype action_error = Act_Http nat string | Act_Integrity | Act_Dispatch dispatch_error | Act_Invalid

record act_io =
  aio_now :: time
  aio_id :: string
  aio_dispatch :: dispatch_io
  aio_audit_now :: time
  aio_audit_uuid :: string
  aio_invalidate :: bool

record act_response =
  rs_success :: json
  rs_output :: json
  rs_error :: json

definition act_audit :: "act_io \<Rightarrow> claims \<Rightarrow> audit_action \<Rightarrow> string \<Rightarrow> (string, json) dict \<Rightarrow> audit_request" where
  "act_audit io cl action node details =
     \<lparr>ar_user_id = cl_sub cl, ar_action = audit_action_str action, ar_node_id = Some node, ar_details = JObj details,
      ar_now = aio_audit_now io, ar_uuid = aio_audit_uuid io\<rparr>"

definition act_log :: "hash \<Rightarrow> audit_request \<Rightarrow> (action_error + 'a) \<Rightarrow> fleet_db \<Rightarrow> (action_error + 'a) \<times> fleet_db" where
  \<comment> \<open>\<open>await log_action(...)\<close> and then \<open>ret\<close>, unless logging raised\<close>
  "act_log H r ret db =
     (let logged = log_action H r [] (audit (fd_master db)); db' = db\<lparr>fd_master := (fd_master db)\<lparr>audit := snd logged\<rparr>\<rparr>
      in case fst logged of Inl e \<Rightarrow> (Inl (Act_Dispatch (AuditFailed e)), db') | Inr _ \<Rightarrow> (ret, db'))"

definition act_dispatch ::
  "hash \<Rightarrow> act_io \<Rightarrow> send_outcome \<Rightarrow> claims \<Rightarrow> string \<Rightarrow> string \<Rightarrow> (string, json) dict \<Rightarrow> string option \<Rightarrow> string \<Rightarrow> fleet_db \<Rightarrow>
     (action_error + (string, json) dict) \<times> fleet_db \<times> intent list" where
  \<comment> \<open>the foreign key of the proposal needs the node; of the errors that remain none is a
    \<open>RuntimeError\<close> or \<open>TimeoutError\<close>, so the handlers for them are never entered\<close>
  "act_dispatch H io out cl node action params reasoning risk db =
     (if find_service_node node (fd_services db) = None then (Inl Act_Integrity, db, [])
      else
        (case dispatch_admin_action H (aio_dispatch io) out (aio_id io) node action params (cl_sub cl) reasoning risk (aio_now io) (fd_master db) of
           (Inl e, m, sent) \<Rightarrow> (Inl (Act_Dispatch e), db\<lparr>fd_master := m\<rparr>, sent)
         | (Inr r, m, sent) \<Rightarrow> (Inr r, db\<lparr>fd_master := m\<rparr>, sent)))"

definition drop_service_cache :: "act_io \<Rightarrow> string \<Rightarrow> fleet_db \<Rightarrow> fleet_db" where
  "drop_service_cache io node db = (if aio_invalidate io then db\<lparr>fd_services := invalidate_cached_services node (fd_services db)\<rparr> else db)"

definition act_response_of :: "(string, json) dict \<Rightarrow> act_response" where
  "act_response_of r =
     \<lparr>rs_success = dict_get r ''success'' (JBool False), rs_output = dict_get r ''output'' (JStr []),
      rs_error = (if answer_ok r then JNull else dict_get r ''error'' JNull)\<rparr>"

definition finish_action ::
  "hash \<Rightarrow> act_io \<Rightarrow> claims \<Rightarrow> string \<Rightarrow> audit_action \<Rightarrow> bool \<Rightarrow> ((string, json) dict \<Rightarrow> (string, json) dict) \<Rightarrow>
     (action_error + (string, json) dict) \<times> fleet_db \<times> intent list \<Rightarrow> (action_error + act_response) \<times> fleet_db \<times> intent list" where
  \<comment> \<open>what both pages do with the result of a dispatch; the page of services drops the cache\<close>
  "finish_action H io cl node action drops details d =
     (case d of
        (Inl e, db1, sent) \<Rightarrow> (Inl e, db1, sent)
      | (Inr r, db1, sent) \<Rightarrow>
          (let db2 = (if drops \<and> answer_ok r then drop_service_cache io node db1 else db1);
               (res, db3) = act_log H (act_audit io cl action node (details r)) (Inr (act_response_of r)) db2
           in (res, db3, sent)))"

definition e_acute :: string where
  "e_acute = [CHR 0xE9]"

definition admins_only :: "string \<Rightarrow> string" where
  "admins_only action =
     ''L'' @ [CHR 0x27] @ ''action '' @ quoted action @ '' est strictement r'' @ e_acute @ ''serv'' @ e_acute @ ''e aux administrateurs.''"

definition role_details :: "claims \<Rightarrow> string \<Rightarrow> string \<times> json \<Rightarrow> (string, json) dict" where
  "role_details cl action target =
     [(''reason'', JStr ''unauthorized_role_attempt''), (''required_role'', JStr ''admin''), (''user_role'', opt_str (cl_role cl)),
      (''action'', JStr action), target]"

section \<open>Services\<close>

definition SERVICE_ACTIONS :: "string list" where
  "SERVICE_ACTIONS = [''stop'', ''start'', ''restart'']"

definition service_intent :: "string \<Rightarrow> string option" where
  "service_intent action =
     map_of [(''restart'', ''RESTART_SERVICE''), (''start'', ''START_SERVICE''), (''stop'', ''STOP_SERVICE'')] action"

definition service_risk :: "string \<Rightarrow> string" where
  "service_risk action = dict_get [(''start'', ''LOW''), (''restart'', ''MEDIUM''), (''stop'', ''HIGH'')] action ''MEDIUM''"

definition service_audit :: "string \<Rightarrow> audit_action" where
  "service_audit action =
     dict_get [(''restart'', AA_RESTART_SERVICE), (''start'', AA_START_SERVICE), (''stop'', AA_STOP_SERVICE)] action AA_INTENT_DISPATCH"

definition service_details :: "string \<Rightarrow> string \<Rightarrow> (string, json) dict \<Rightarrow> (string, json) dict" where
  "service_details service action r =
     (if answer_ok r then [(''service_name'', JStr service), (''action'', JStr action)]
      else [(''error'', dict_get r ''error'' JNull), (''status'', JStr ''FAILED''), (''service_name'', JStr service), (''action'', JStr action)])"

definition service_action_route ::
  "hash \<Rightarrow> act_io \<Rightarrow> send_outcome \<Rightarrow> claims \<Rightarrow> string \<Rightarrow> string \<Rightarrow> string option \<Rightarrow> fleet_db \<Rightarrow> (action_error + act_response) \<times> fleet_db \<times> intent list" where
  "service_action_route H io out cl service action node_id db =
     (case require_role [''admin'', ''operator''] cl of
        Inl _ \<Rightarrow> (Inl (Act_Http 403 ''Insufficient permissions.''), db, [])
      | Inr _ \<Rightarrow>
          if action \<notin> set SERVICE_ACTIONS then
            (Inl (Act_Http 400 (''Action '' @ quoted action @ '' invalide : attendu '' @ quoted ''stop'' @ '', '' @ quoted ''start'' @ '' ou '' @ quoted ''restart'' @ ''.'')), db, [])
          else if node_id = None \<or> node_id = Some [] then
            (Inl (Act_Http 400 (''Champ '' @ quoted ''node_id'' @ '' manquant dans le corps de la requ'' @ [CHR 0xEA] @ ''te.'')), db, [])
          else
            (let nid = the node_id
             in if action = ''stop'' \<and> cl_role cl \<noteq> Some ''admin'' then
                  (let (res, db') = act_log H (act_audit io cl AA_SECURITY_INCIDENT nid (role_details cl action (''service'', JStr service)))
                         (Inl (Act_Http 403 (admins_only action))) db
                   in (res, db', []))
                else if action = ''stop'' \<and> is_protected_service service then
                  (let (res, db') = act_log H (act_audit io cl AA_SECURITY_INCIDENT nid
                           [(''reason'', JStr ''attempt_to_stop_protected_service''), (''service'', JStr service), (''action'', JStr action)])
                         (Inl (Act_Http 403 (''Le service '' @ quoted service @ '' est prot'' @ e_acute @ ''g'' @ e_acute @ '' et ne peut pas '' @ [CHR 0xEA] @ ''tre arr'' @ [CHR 0xEA] @ ''t'' @ e_acute @ ''.''))) db
                   in (res, db', []))
                else
                  finish_action H io cl nid (service_audit action) True (service_details service action)
                    (act_dispatch H io out cl nid (the (service_intent action)) [(''service'', JStr service)]
                       (Some (''Action '' @ action @ '' sur le service '' @ service @ '' (page Services)'')) (service_risk action) db)))"

definition text_response :: "(string, json) dict \<Rightarrow> action_error + act_response" where
  \<comment> \<open>the response models ask for texts\<close>
  "text_response r =
     (let a = act_response_of r
      in case (rs_output a, rs_error a) of
           (JStr _, JStr _) \<Rightarrow> Inr a
         | (JStr _, JNull) \<Rightarrow> Inr a
         | _ \<Rightarrow> Inl Act_Invalid)"

definition restart_service ::
  "hash \<Rightarrow> act_io \<Rightarrow> send_outcome \<Rightarrow> claims \<Rightarrow> bool \<Rightarrow> string \<Rightarrow> string \<Rightarrow> fleet_db \<Rightarrow> (action_error + act_response) \<times> fleet_db \<times> intent list" where
  "restart_service H io out cl active node service db =
     (case require_role [''admin''] cl of
        Inl _ \<Rightarrow> (Inl (Act_Http 403 ''Insufficient permissions.''), db, [])
      | Inr _ \<Rightarrow>
          if \<not> active then (Inl (Act_Http 400 (disabled_detail ''systemd'')), db, [])
          else if find_service_node node (fd_services db) = None then (Inl (Act_Http 404 ''Node not found''), db, [])
          else
            (case act_dispatch H io out cl node ''RESTART_SERVICE'' [(''service'', JStr service)] None ''LOW'' db of
               (Inl e, db1, sent) \<Rightarrow> (Inl e, db1, sent)
             | (Inr r, db1, sent) \<Rightarrow>
                 if answer_ok r then
                   (case act_log H (act_audit io cl AA_RESTART_SERVICE node [(''service_name'', JStr service)]) (Inr ()) db1 of
                      (Inl e, db2) \<Rightarrow> (Inl e, db2, sent)
                    | (Inr _, db2) \<Rightarrow> (text_response r, drop_service_cache io node db2, sent))
                 else (text_response r, db1, sent)))"

definition restart_container ::
  "hash \<Rightarrow> act_io \<Rightarrow> send_outcome \<Rightarrow> claims \<Rightarrow> bool \<Rightarrow> string \<Rightarrow> string \<Rightarrow> fleet_db \<Rightarrow> (action_error + act_response) \<times> fleet_db \<times> intent list" where
  "restart_container H io out cl active node container db =
     (case require_role [''admin''] cl of
        Inl _ \<Rightarrow> (Inl (Act_Http 403 ''Insufficient permissions.''), db, [])
      | Inr _ \<Rightarrow>
          if \<not> active then (Inl (Act_Http 400 (disabled_detail ''docker'')), db, [])
          else if find_service_node node (fd_services db) = None then (Inl (Act_Http 404 ''Node not found''), db, [])
          else
            (case act_dispatch H io out cl node ''RESTART_CONTAINER'' [(''container_id'', JStr container)] None ''LOW'' db of
               (Inl e, db1, sent) \<Rightarrow> (Inl e, db1, sent)
             | (Inr r, db1, sent) \<Rightarrow>
                 if answer_ok r then
                   (case act_log H (act_audit io cl AA_RESTART_CONTAINER node [(''container_id'', JStr container)]) (Inr ()) db1 of
                      (Inl e, db2) \<Rightarrow> (Inl e, db2, sent)
                    | (Inr _, db2) \<Rightarrow> (text_response r, db2, sent))
                 else (text_response r, db1, sent)))"

section \<open>Containers\<close>

definition CONTAINER_ACTIONS :: "string list" where
  "CONTAINER_ACTIONS = [''stop'', ''start'', ''restart'', ''delete'']"

definition container_intent :: "string \<Rightarrow> string option" where
  "container_intent action =
     map_of [(''restart'', ''RESTART_CONTAINER''), (''start'', ''START_CONTAINER''), (''stop'', ''STOP_CONTAINER''), (''delete'', ''DELETE_CONTAINER'')] action"

definition container_risk :: "string \<Rightarrow> string" where
  "container_risk action = dict_get [(''start'', ''LOW''), (''restart'', ''MEDIUM''), (''stop'', ''HIGH''), (''delete'', ''CRITICAL'')] action ''MEDIUM''"

definition container_audit :: "string \<Rightarrow> audit_action" where
  "container_audit action =
     dict_get [(''restart'', AA_RESTART_CONTAINER), (''start'', AA_START_CONTAINER), (''stop'', AA_STOP_CONTAINER), (''delete'', AA_DELETE_CONTAINER)]
       action AA_INTENT_DISPATCH"

definition container_char :: "char \<Rightarrow> bool" where
  "container_char c \<longleftrightarrow> (let n = (of_char c :: nat) in (97 \<le> n \<and> n \<le> 122) \<or> (65 \<le> n \<and> n \<le> 90) \<or> (48 \<le> n \<and> n \<le> 57)) \<or> c \<in> set ''_-''"

definition container_word :: "string \<Rightarrow> bool" where
  "container_word s \<longleftrightarrow> 3 \<le> length s \<and> length s \<le> 64 \<and> list_all container_char s"

definition container_id_matches :: "string \<Rightarrow> bool" where
  \<comment> \<open>\<open>re.match\<close> with a final \<open>$\<close>, which also matches before a final newline\<close>
  "container_id_matches s \<longleftrightarrow> container_word s \<or> (s \<noteq> [] \<and> last s = CHR 0x0A \<and> container_word (butlast s))"

definition container_details :: "string \<Rightarrow> string option \<Rightarrow> string \<Rightarrow> (string, json) dict \<Rightarrow> (string, json) dict" where
  "container_details container name action r =
     (let common = [(''container_id'', JStr container), (''container_name'', opt_str name), (''action'', JStr action)]
      in if answer_ok r then common else [(''error'', dict_get r ''error'' JNull), (''status'', JStr ''FAILED'')] @ common)"

definition container_action_route ::
  "hash \<Rightarrow> act_io \<Rightarrow> send_outcome \<Rightarrow> claims \<Rightarrow> string \<Rightarrow> string \<Rightarrow> string option \<Rightarrow> string option \<Rightarrow> fleet_db \<Rightarrow>
     (action_error + act_response) \<times> fleet_db \<times> intent list" where
  "container_action_route H io out cl container action node_id name db =
     (case require_role [''admin'', ''operator''] cl of
        Inl _ \<Rightarrow> (Inl (Act_Http 403 ''Insufficient permissions.''), db, [])
      | Inr _ \<Rightarrow>
          if action \<notin> set CONTAINER_ACTIONS then
            (Inl (Act_Http 400 (''Action '' @ quoted action @ '' invalide : attendu '' @ quoted ''stop'' @ '', '' @ quoted ''start'' @ '', '' @ quoted ''restart'' @ '' ou '' @ quoted ''delete'' @ ''.'')), db, [])
          else if \<not> container_id_matches container then
            (Inl (Act_Http 400 (''Format de container_id invalide : '' @ quoted container @ ''.'')), db, [])
          else if node_id = None \<or> node_id = Some [] then
            (Inl (Act_Http 400 (''Champ '' @ quoted ''node_id'' @ '' manquant dans le corps de la requ'' @ [CHR 0xEA] @ ''te.'')), db, [])
          else
            (let nid = the node_id; named = (name \<noteq> None \<and> name \<noteq> Some [])
             in if action \<in> {''stop'', ''delete''} \<and> cl_role cl \<noteq> Some ''admin'' then
                  (let (res, db') = act_log H (act_audit io cl AA_SECURITY_INCIDENT nid (role_details cl action (''container_id'', JStr container)))
                         (Inl (Act_Http 403 (admins_only action))) db
                   in (res, db', []))
                else if action = ''delete'' \<and> \<not> named then (Inl (Act_Http 400 ''container_name is required for delete''), db, [])
                else
                  finish_action H io cl nid (container_audit action) False (container_details container name action)
                    (act_dispatch H io out cl nid (the (container_intent action))
                       ((''container_id'', JStr container) # (if named then [(''container_name'', JStr (the name))] else []))
                       (Some (''Action '' @ action @ '' sur le conteneur '' @ container @ '' (page Conteneurs)'')) (container_risk action) db)))"

section \<open>Who can do what\<close>

definition recorded :: "act_io \<Rightarrow> claims \<Rightarrow> string \<Rightarrow> fleet_db \<Rightarrow> bool" where
  \<comment> \<open>the proposal behind an intent is stored, in the name of the caller and claimed\<close>
  "recorded io cl action db \<longleftrightarrow>
     (\<exists>r. row_of (aio_id io) (proposals (fd_master db)) = Some r \<and> r_created_by r = cl_sub cl \<and> r_approved_by r = Some (cl_sub cl) \<and>
          r_action r = action \<and> r_dispatch_id r = Some (io_dispatch_id (aio_dispatch io)))"

definition fresh_action :: "act_io \<Rightarrow> fleet_db \<Rightarrow> bool" where
  "fresh_action io db \<longleftrightarrow> table_ok (proposals (fd_master db)) \<and> row_of (aio_id io) (proposals (fd_master db)) = None"

lemma act_log_frame [simp]:
  "proposals (fd_master (snd (act_log H r ret db))) = proposals (fd_master db)"
  "fd_services (snd (act_log H r ret db)) = fd_services db"
  by (simp_all add: act_log_def Let_def split: sum.split)

lemma act_log_recorded:
  assumes "act_log H r ret db = (res, db')"
  shows "recorded io cl a db' = recorded io cl a db"
  using act_log_frame(1) [of H r ret db] by (simp add: assms recorded_def)

lemma drop_cache_master [simp]: "fd_master (drop_service_cache io n db) = fd_master db"
  by (simp add: drop_service_cache_def)

lemma drop_cache_recorded [simp]: "recorded io cl a (drop_service_cache io n db) = recorded io cl a db"
  by (simp add: recorded_def)

lemma act_dispatch_sent:
  assumes "act_dispatch H io out cl node action params reasoning risk db = (res, db', sent)" and "fresh_action io db" and "json_plain (JObj params)"
  shows "sent = [] \<or>
    sent = [\<lparr>it_node_id = node, it_action = action, it_params = params, it_intent_id = io_intent_id (aio_dispatch io)\<rparr>] \<and> recorded io cl action db'"
proof (cases "find_service_node node (fd_services db) = None")
  case True
  then show ?thesis using assms(1) unfolding act_dispatch_def by simp
next
  case False
  obtain x m s where d: "dispatch_admin_action H (aio_dispatch io) out (aio_id io) node action params (cl_sub cl) reasoning risk (aio_now io) (fd_master db) = (x, m, s)"
    by (metis prod_cases3)
  have "sent = s" "fd_master db' = m" using assms(1) False d by (auto simp: act_dispatch_def split: sum.splits if_splits)
  with admin_action_recorded_and_sent [OF _ _ assms(3) d] assms(2) show ?thesis by (auto simp: fresh_action_def recorded_def)
qed

definition incident_logged :: "hash \<Rightarrow> fleet_db \<Rightarrow> fleet_db \<Rightarrow> bool" where
  "incident_logged H db db' \<longleftrightarrow>
     (\<exists>r. ar_action r = ''SECURITY_INCIDENT'' \<and> audit (fd_master db') = snd (log_action H r [] (audit (fd_master db)))) \<and>
     proposals (fd_master db') = proposals (fd_master db)"

lemma act_log_incident:
  assumes "act_log H (act_audit io cl AA_SECURITY_INCIDENT n d) ret db = (res, db')"
  shows "incident_logged H db db'"
proof -
  have "ar_action (act_audit io cl AA_SECURITY_INCIDENT n d) = ''SECURITY_INCIDENT''" by (simp add: act_audit_def)
  with assms show ?thesis unfolding incident_logged_def
    by (intro conjI exI [of _ "act_audit io cl AA_SECURITY_INCIDENT n d"]) (auto simp: act_log_def Let_def split: sum.splits)
qed

lemma finish_action_sent:
  assumes "finish_action H io cl node action drops details d = (res, db', sent)"
  shows "sent = snd (snd d) \<and> recorded io cl a db' = recorded io cl a (fst (snd d))"
proof -
  obtain x db1 s where d: "d = (x, db1, s)" by (metis prod_cases3)
  show ?thesis
  proof (cases x)
    case (Inr r)
    let ?db2 = "if drops \<and> answer_ok r then drop_service_cache io node db1 else db1"
    obtain y db3 where l: "act_log H (act_audit io cl action node (details r)) (Inr (act_response_of r)) ?db2 = (y, db3)"
      by (metis prod.exhaust)
    have "recorded io cl a ?db2 = recorded io cl a db1" by simp
    with act_log_recorded [OF l, of io cl a] assms Inr l show ?thesis by (simp add: d finish_action_def)
  qed (use assms d in \<open>auto simp: finish_action_def\<close>)
qed

lemma finish_dispatch_sent:
  assumes "finish_action H io cl node aa drops details (act_dispatch H io out cl node action params reasoning risk db) = (res, db', sent)"
    and "fresh_action io db" and "json_plain (JObj params)" and "it \<in> set sent"
  shows "it = \<lparr>it_node_id = node, it_action = action, it_params = params, it_intent_id = io_intent_id (aio_dispatch io)\<rparr> \<and>
    recorded io cl action db' \<and> length sent = 1"
proof -
  obtain x db1 s where d: "act_dispatch H io out cl node action params reasoning risk db = (x, db1, s)" by (metis prod_cases3)
  from act_dispatch_sent [OF d assms(2,3)] finish_action_sent [OF assms(1), of action] assms(4) d show ?thesis by auto
qed


definition demo_fleet :: fleet_db where
  "demo_fleet = \<lparr>fd_master = \<lparr>proposals = [], audit = []\<rparr>, fd_services = [\<lparr>sc_id = ''n1'', sc_json = None, sc_at = None\<rparr>]\<rparr>"

definition demo_act_io :: act_io where
  "demo_act_io = \<lparr>aio_now = 1, aio_id = ''p1'', aio_dispatch = sample_io, aio_audit_now = 2, aio_audit_uuid = ''a1'', aio_invalidate = True\<rparr>"

definition demo_operator :: claims where
  "demo_operator = \<lparr>cl_sub = ''bob'', cl_role = Some ''operator''\<rparr>"

lemma demo_fresh: "fresh_action demo_act_io demo_fleet"
  by (simp add: fresh_action_def demo_fleet_def table_ok_def row_of_def)

lemma demo_operator_allowed: "require_role [''admin'', ''operator''] demo_operator = Inr demo_operator"
  by code_simp


text \<open>
  Actions from the page of containers are guarded in the same way: a stop and a deletion
  are only sent for an administrator, a deletion only with the name of the container, and
  only for an identifier of the pattern (up to a final newline).
\<close>
theorem container_actions_guarded:
  assumes "container_action_route H io out cl container action node name db = (res, db', sent)" and "fresh_action io db"
  shows "(\<forall>it \<in> set sent. length sent = 1 \<and> action \<in> set CONTAINER_ACTIONS \<and> require_role [''admin'', ''operator''] cl = Inr cl \<and>
      container_id_matches container \<and> it_action it = the (container_intent action) \<and> node = Some (it_node_id it) \<and>
      map_of (it_params it) ''container_id'' = Some (JStr container) \<and> recorded io cl (it_action it) db' \<and>
      (it_action it \<in> {''STOP_CONTAINER'', ''DELETE_CONTAINER''} \<longrightarrow> cl_role cl = Some ''admin'') \<and>
      (it_action it = ''DELETE_CONTAINER'' \<longrightarrow> (\<exists>n. n \<noteq> [] \<and> map_of (it_params it) ''container_name'' = Some (JStr n)))) \<and>
    (action \<in> {''stop'', ''delete''} \<and> container_id_matches container \<and> node \<noteq> None \<and> node \<noteq> Some [] \<and>
       require_role [''admin'', ''operator''] cl = Inr cl \<and> cl_role cl \<noteq> Some ''admin'' \<longrightarrow> sent = [] \<and> incident_logged H db db')"
proof -
  let ?named = "name \<noteq> None \<and> name \<noteq> Some []"
  let ?params = "(''container_id'', JStr container) # (if ?named then [(''container_name'', JStr (the name))] else [])"
  let ?d = "act_dispatch H io out cl (the node) (the (container_intent action)) ?params
      (Some (''Action '' @ action @ '' sur le conteneur '' @ container @ '' (page Conteneurs)'')) (container_risk action) db"
  consider (early) "sent = []" "require_role [''admin'', ''operator''] cl \<noteq> Inr cl \<or> action \<notin> set CONTAINER_ACTIONS \<or>
        \<not> container_id_matches container \<or> node = None \<or> node = Some [] \<or> (action \<notin> {''stop'', ''delete''} \<or> cl_role cl = Some ''admin'')"
    | (refused) "sent = []" "incident_logged H db db'"
    | (acted) nid where "node = Some nid" "action \<in> set CONTAINER_ACTIONS" "require_role [''admin'', ''operator''] cl = Inr cl"
        "container_id_matches container" "action \<in> {''stop'', ''delete''} \<longrightarrow> cl_role cl = Some ''admin''" "action = ''delete'' \<longrightarrow> ?named"
        "finish_action H io cl nid (container_audit action) False (container_details container name action) ?d = (res, db', sent)"
    using assms(1)
    by (auto simp: container_action_route_def Let_def require_role_def split: sum.splits if_splits prod.splits dest: act_log_incident)
  then show ?thesis
  proof cases
    case (acted nid)
    have i: "the (container_intent action) = ''DELETE_CONTAINER'' \<Longrightarrow> action = ''delete''" "the (container_intent action) = ''STOP_CONTAINER'' \<Longrightarrow> action = ''stop''"
      using acted(2) by (auto simp: CONTAINER_ACTIONS_def container_intent_def)
    have p: "json_plain (JObj ?params)" by simp
    have "\<forall>it \<in> set sent. it = \<lparr>it_node_id = nid, it_action = the (container_intent action), it_params = ?params,
        it_intent_id = io_intent_id (aio_dispatch io)\<rparr> \<and> recorded io cl (the (container_intent action)) db' \<and> length sent = 1"
      using finish_dispatch_sent [OF _ assms(2) p] acted(7) by (simp add: acted(1))
    then show ?thesis using acted(1-6) i by auto
  qed (auto simp: CONTAINER_ACTIONS_def)
qed

theorem container_actions_guarded_witness:
  "\<exists>res db'. container_action_route toy_hash demo_act_io (Replied []) demo_operator ''web1'' ''delete'' (Some ''n1'') (Some ''web'') demo_fleet = (res, db', []) \<and>
     incident_logged toy_hash demo_fleet db'"
proof -
  obtain res db' sent where r: "container_action_route toy_hash demo_act_io (Replied []) demo_operator ''web1'' ''delete'' (Some ''n1'') (Some ''web'') demo_fleet = (res, db', sent)"
    by (metis prod_cases3)
  have "cl_role demo_operator \<noteq> Some ''admin''" "container_id_matches ''web1''" by (simp add: demo_operator_def) code_simp
  with container_actions_guarded [OF r demo_fresh] demo_operator_allowed have "sent = []" "incident_logged toy_hash demo_fleet db'" by auto
  with r show ?thesis by blast
qed

section \<open>Divergences\<close>

text \<open>
  The approval of a proposal refuses every action on a protected service; the page refuses
  only a stop. A restart of such a service is sent for any operator.
\<close>

lemma protected_restart_sent:
  assumes "is_protected_service service" and "require_role [''admin'', ''operator''] cl = Inr cl" and "fresh_action io db"
    and "nid \<noteq> []" and "find_service_node nid (fd_services db) \<noteq> None"
  shows "\<exists>it. snd (snd (service_action_route H io out cl service ''restart'' (Some nid) db)) = [it] \<and>
    it_action it = ''RESTART_SERVICE'' \<and> it_params it = [(''service'', JStr service)]"
proof -
  let ?why = "Some (''Action '' @ ''restart'' @ '' sur le service '' @ service @ '' (page Services)'')"
  let ?d = "act_dispatch H io out cl nid ''RESTART_SERVICE'' [(''service'', JStr service)] ?why (service_risk ''restart'') db"
  obtain x m s where a: "dispatch_admin_action H (aio_dispatch io) out (aio_id io) nid ''RESTART_SERVICE'' [(''service'', JStr service)] (cl_sub cl)
      ?why (service_risk ''restart'') (aio_now io) (fd_master db) = (x, m, s)" by (metis prod_cases3)
  have s: "s = [\<lparr>it_node_id = nid, it_action = ''RESTART_SERVICE'', it_params = [(''service'', JStr service)], it_intent_id = io_intent_id (aio_dispatch io)\<rparr>]"
    using admin_action_recorded_and_sent [OF _ _ _ a] assms(3) by (auto simp: fresh_action_def)
  have "snd (snd ?d) = s" unfolding act_dispatch_def a using assms(5) by (auto split: sum.split)
  moreover have "service_action_route H io out cl service ''restart'' (Some nid) db =
      finish_action H io cl nid (service_audit ''restart'') True (service_details service ''restart'') ?d"
    using assms(2,4) by (simp add: service_action_route_def SERVICE_ACTIONS_def service_intent_def)
  moreover obtain res db' sent where "finish_action H io cl nid (service_audit ''restart'') True (service_details service ''restart'') ?d = (res, db', sent)"
    by (metis prod_cases3)
  ultimately show ?thesis using finish_action_sent s by fastforce
qed

text \<open>
  A worker that is not connected is not reported as unavailable: the dispatcher turns the
  exception into a result, and the request succeeds with an error field.
\<close>

lemma offline_error_in_result:
  assumes "restart_service H io (SendRuntimeError e) cl True node service db = (Inr a, db', sent)"
  shows "rs_error a = JStr e \<and> rs_success a = JBool False"
proof -
  obtain r db1 where d: "act_dispatch H io (SendRuntimeError e) cl node ''RESTART_SERVICE'' [(''service'', JStr service)] None ''LOW'' db = (Inr r, db1, sent)"
    and t: "text_response r = Inr a"
    using assms by (auto simp: restart_service_def split: sum.splits if_splits prod.splits)
  have "r = error_result e"
    using d by (auto simp: act_dispatch_def dispatch_admin_action_def dispatch_approved_def complete_with_def Let_def split: sum.splits if_splits prod.splits)
  with t show ?thesis
    by (auto simp: text_response_def act_response_of_def error_result_def answer_ok_def Let_def dict_get_def split: json.splits if_splits)
qed

text \<open>The pattern of container identifiers admits a final newline.\<close>

lemma newline_container_accepted: "container_id_matches (''web'' @ [CHR 0x0A])"
  by code_simp

end
