(* ===== verification/Spec2Isabelle.thy ===== *)
theory Spec2Isabelle
  imports Circuit_Breaker Proposal_Concurrency Rate_Limiter Outbox Cron Permissions Hook_Bus Alert_Engine Auth Worker_Session Plugin_Safety Plugin_Context Single_Flight Insights Block_Resolver Chat_Engine Investigation Config_Encryption Structured_Llm Db_Pool Metrics Db_Auto Worker_Query Policy_Engine Migrations Chat_Sessions Node_Api Worker_Actions
begin

text \<open>
  A verification development for the master of Vigile (\<open>src/master\<close>), the server that
  supervises worker nodes over WebSockets, stores proposals of actions that a person
  approves, and keeps a hash-chained audit log in SQLite.

  \<^bold>\<open>Conventions.\<close> Theory \<open>Py_Prelude\<close> fixes how Python is read. A dictionary is an
  association list in insertion order, a table the list of its rows, an \<open>UPDATE\<close> a
  \<open>sql_update\<close> with its \<open>WHERE\<close> clause as predicate; a raised exception is \<open>Inl\<close> and
  every early return a branch; a clock reading and a fresh identifier are arguments; a
  float is a rational (its rounding is not modelled); a string has code points up to 255.
  Code of other packages (SHA-256, HMAC, JWT, bcrypt, Ed25519, SQLite's engine, the
  worker's replies) is a parameter, and what a theorem needs of it is a named hypothesis
  with a concrete instance in its witness. \<open>Json\<close> and \<open>Py_Text\<close> model the parts of the
  standard library the code relies on (\<open>json.dumps\<close> and \<open>json.loads\<close>, \<open>repr\<close>, case
  folding, \<open>difflib\<close>), \<open>Json_Spaced\<close> the default separators of \<open>json.dumps\<close>, \<open>Posix_Path\<close>
  \<open>os.path.normpath\<close>, \<open>Base64\<close> the URL-safe alphabet with its padding.

  \<^bold>\<open>Actions.\<close> A proposal (\<open>core/action_proposal.py\<close>, theory \<open>Action_Proposal\<close>) is approved
  or rejected by a person (\<open>api/chat_proposals.py\<close>, \<open>Proposal_Api\<close>, with the target
  resolution of \<open>api/chat_helpers.py\<close> in \<open>Container_Match\<close>), sent to the worker by the
  dispatcher (\<open>core/proposal_dispatcher.py\<close>, \<open>Proposal_Dispatcher\<close>), or expired by a
  background pass (\<open>core/proposal_autoexpire.py\<close>, \<open>Proposal_Expiry\<close>).
  \<open>Proposal_Concurrency\<close> interleaves the atomic database statements of all of them:
  at most one intent per proposal, and the lost update that remains. \<open>Intent_Registry\<close>
  is the other half: the futures of the sent intents (\<open>core/node_manager.py\<close>) and the
  check of the results (\<open>ws/worker_handler.py\<close>). Futures are shared objects, so they live
  in a store and the registry holds their addresses. \<open>Permissions\<close>
  (\<open>core/permissions.py\<close>) decides which commands a plugin may issue. \<open>Worker_Actions\<close> holds the
  direct actions of people on services and containers (\<open>plugins/systemd\<close>, \<open>plugins/docker\<close>,
  \<open>api/services.py\<close>), which go through the same dispatcher; \<open>Service_Cache\<close> the cached lists
  of services (\<open>db/service_cache.py\<close>), their collector (\<open>core/jobs/service_collector.py\<close>)
  and their endpoints.

  \<^bold>\<open>Nodes.\<close> \<open>Node_Manager\<close> is the node table with its validated transitions, the
  heartbeat pass and the queries (\<open>core/node_manager.py\<close>); \<open>Worker_Session\<close> the
  enrollment, reconnection, heartbeat and end of a session (\<open>ws/worker_handler.py\<close>), the
  issue of join tokens (\<open>api/nodes.py\<close>) and the reset at start-up (\<open>lifespan.py\<close>). Each
  operation is proved to follow an abstract lifecycle (\<open>lawful\<close>); runs of all of them
  follow it, keep the rows well formed, and use a join token once. \<open>Node_Api\<close> holds
  endpoints of \<open>api/nodes.py\<close>: logs confined to \<open>/var/log\<close>, the latest metrics of one and
  of many nodes, and the changes of a node by role; \<open>Disk_Cache\<close> the cache of disk scans
  (\<open>db/disk_scan_cache.py\<close>) with the endpoint that scans a mount point.

  \<^bold>\<open>Identity.\<close> \<open>Security_Tokens\<close> holds the signed tokens of \<open>core/security_manager.py\<close>,
  \<open>Auth\<close> the sessions of people (\<open>api/auth.py\<close>, \<open>get_current_user\<close> of \<open>api/deps.py\<close>):
  token families with rotation and reuse detection, in sequence and with two refreshes
  overlapping.

  \<^bold>\<open>Services.\<close> \<open>Audit_Chain\<close> (\<open>core/audit.py\<close>) with concurrent writers and verification;
  \<open>Outbox\<close> (\<open>core/outbox.py\<close>) with interleaved sweeps; \<open>Hook_Bus\<close> (\<open>core/hook_bus.py\<close>)
  over \<open>Circuit_Breaker\<close> (\<open>core/circuit_breaker.py\<close>); \<open>Rate_Limiter\<close>
  (\<open>core/rate_limiter.py\<close>); \<open>Alert_Engine\<close> (\<open>core/alert_engine.py\<close>), where the active
  alerts mirror the table and each threshold refines an abstract life cycle; \<open>Cron\<close>
  (\<open>core/cron_parser.py\<close>). \<open>Enums\<close> holds the shared enumerations of \<open>core/enums.py\<close>.

  \<^bold>\<open>Plugins.\<close> \<open>Plugin_Manifest\<close> holds the identifiers (\<open>core/plugin_ids.py\<close>), the raw
  pre-pass, the migration and the page projection (\<open>core/plugin_manifest.py\<close>);
  \<open>Plugin_Lifecycle\<close> the three axes of a plugin's state (\<open>core/plugin_lifecycle.py\<close>), proved
  to refine an abstract machine, with a sticky ERROR and the recovery after a crash;
  \<open>Plugin_Context\<close> the SQL guard and the decorators (\<open>core/plugin_base.py\<close>);
  \<open>Command_Registry\<close> (\<open>core/command_registry.py\<close>) and \<open>Route_Registrar\<close>
  (\<open>core/route_registrar.py\<close>) the commands and routes plugins contribute; \<open>Scheduler\<close>
  (\<open>core/scheduler.py\<close>) their periodic tasks; \<open>Event_Bus\<close> (\<open>core/event_bus.py\<close>) the
  events to the front end, with bounded queues and a replay ring. \<open>Plugin_Engine\<close>
  (\<open>core/plugin_engine.py\<close>) composes them: a plugin module is the record of what its
  execution registers, loading, unloading, start-up, the kill switch and shutdown act on
  one engine state. \<open>Plugin_Safety\<close> shows that namespaces are enforced, that a rejected
  load is rolled back, that unloading is complete and that a disabled plugin stays off.
  \<open>Single_Flight\<close> (\<open>core/single_flight.py\<close>) interleaves the callers of one computation.

  \<open>Db_Auto\<close> (\<open>core/db_auto.py\<close>) builds the statements for the tables a plugin declares:
  the text is read back with the rules of SQL literals and nothing escapes from one.
  \<open>Policy_Engine\<close> (\<open>core/policy_engine.py\<close>) compiles the grants of plugins into signed
  bundles with consecutive versions.

  \<^bold>\<open>Metrics and insights.\<close> \<open>Metrics\<close> (\<open>plugins/metrics\<close>) validates status reports and
  stores them through a bounded buffer with overlapping flushes. \<open>Disk_Insight\<close>,
  \<open>Insight_Rules\<close> and \<open>Insights\<close> (\<open>core/insights.py\<close>) are the disk forecast, with its
  outlier removal and its regression, the rules for processor and memory, and the profiles
  with their cache and the guard on their generation. \<open>Investigation\<close>
  (\<open>core/investigation_manager.py\<close>) bounds the investigations that alerts start.

  \<^bold>\<open>Assistant.\<close> \<open>Chat_Engine\<close> holds the rounds of the assistant (\<open>core/chat_engine.py\<close>)
  and its tools (\<open>core/tools.py\<close>): whatever the model streams, it can only propose.
  \<open>Chat_Sessions\<close> (\<open>api/chat_sessions.py\<close>) keeps the conversations of each user apart.
  \<open>Structured_Llm\<close> (\<open>core/structured_llm.py\<close>, \<open>core/llm_retry.py\<close>) bounds the requests
  for validated answers; \<open>Worker_Query\<close> (\<open>core/worker_query_port.py\<close>) is the read-only
  port to the workers; \<open>Block_Resolver\<close> (\<open>core/block_resolver.py\<close>) finds the handlers of
  page blocks.

  \<^bold>\<open>Storage.\<close> \<open>Db_Pool\<close> (\<open>db/database.py\<close>) is the pool of connections with interleaved
  sessions, and the reentrant transaction; \<open>Migrations\<close> (\<open>db/migrations.py\<close> over the
  declarations of \<open>db/models.py\<close>) the migration at start-up and the seeds;
  \<open>Config_Encryption\<close> (\<open>core/config_encryption.py\<close>, \<open>configure_plugin\<close> of
  \<open>api/admin.py\<close>, the configuration of \<open>plugins/plex\<close>) the secrets of plugins at rest.

  \<^bold>\<open>Interfaces.\<close> Inductive invariants (\<open>inductive_invariant\<close>), sliding windows
  (\<open>sliding_window\<close>), the audit trail (\<open>audit_trail\<close>), the alert invariants
  (\<open>alert_invariant\<close>) and the loops that drop intents (\<open>intent_dropper\<close>) are locales;
  each is interpreted on the model's own operations. The first carries every run of
  interleaved steps: proposals, outbox sweeps, breakers, token families, sessions, intents,
  callers of one computation, investigations, the pool, metrics and the insight cache.

  \<^bold>\<open>Bounds and fuel.\<close> The JSON parser has fuel one more than the length of its input,
  and printing followed by parsing is proved to succeed with it; the matching blocks of
  \<open>difflib\<close> recurse with fuel the length of the first string, which is enough because
  every block shortens both sides; the search for the next trigger has the code's own
  525600 steps; the audit log's insert has the code's five attempts, the assistant its five
  rounds. The removal of reasoning blocks terminates because each pass shortens the text.
  The purge of metrics loops until a batch is short: it is a partial function, proved to
  return for every positive batch size and to diverge for zero. Everything else terminates
  by structure.

  \<^bold>\<open>Not modelled.\<close> Network and file access, the FastAPI wiring and cookies, the demo
  fixtures, the text of the prompts and the LLM client, the opening of connections,
  supervision of asynchronous tasks, the legacy plugin manager and scanner, the remaining
  handlers of \<open>api/\<close> that assemble responses from modelled components, the data sources of
  the Plex plugin (network clients), the front end and the worker program. An
  operation is one atomic step unless its theory splits it; where the code awaits between a
  read and a write that another request can separate, the theory splits it there.
\<close>

end
